(* ===== verification/Prelude.thy ===== *)
theory Prelude
  imports Main "HOL-Library.Word" "HOL-Library.Monad_Syntax"
begin

unbundle bit_operations_syntax

text \<open>
  What every component of the development shares: the byte and word types of the target
  (a 32-bit Arm Cortex-M), the conventions for C functions, and the C memory primitives.

  A C function is translated into a function whose result type is \<open>('r \<times> 's) option\<close>:
  the returned value and the new state. \<open>None\<close> stands for an execution to which C gives
  no meaning or that never returns: a failed \<open>configASSERT\<close> (an endless loop on this
  platform), a null or dangling pointer that is read or written, an access outside an object.
  Error codes of the program are never \<open>None\<close>; they are values of the component's own types.
  A function that can neither fail in this way nor change state is an ordinary function.
  A pointer that may be \<open>NULL\<close> is an \<open>option\<close>.
\<close>

type_synonym u8 = "8 word"
type_synonym u16 = "16 word"
type_synonym u32 = "32 word"
type_synonym bytes = "u8 list"

named_theorems c_mem "rewriting of the memory primitives on concrete lengths"
named_theorems run "the operations of the models, for evaluating them on concrete states"

subsection \<open>The option monad\<close>

lemma bind_Some_iff [simp]:
  "(Option.bind m f = Some y) = (\<exists>x. m = Some x \<and> f x = Some y)"
  by (cases m) auto

lemma bind_SomeE: "Option.bind m f = Some r \<Longrightarrow> (\<And>x. m = Some x \<Longrightarrow> f x = Some r \<Longrightarrow> thesis) \<Longrightarrow> thesis"
  by (cases m) auto

lemma bind_None_iff [simp]:
  "(Option.bind m f = None) = (m = None \<or> (\<exists>x. m = Some x \<and> f x = None))"
  by (cases m) auto

subsection \<open>Every result of a step\<close>

text \<open>
  \<open>keeps m P\<close>: if the step \<open>m\<close> has a result, it satisfies \<open>P\<close>. The rules of \<open>keeps_intro\<close> follow the
  way a step is put together, so that a proof is left with one goal for every \<open>Some\<close> in the code.
\<close>

named_theorems keeps_intro \<open>rules for the results of a step\<close>

definition keeps :: "'a option \<Rightarrow> ('a \<Rightarrow> bool) \<Rightarrow> bool" where
  "keeps m P = (\<forall>r. m = Some r \<longrightarrow> P r)"

lemma keepsD: "keeps m P \<Longrightarrow> m = Some r \<Longrightarrow> P r"
  by (simp add: keeps_def)

lemma keeps_pairI: "(\<And>a b. m = Some (a, b) \<Longrightarrow> P a b) \<Longrightarrow> keeps m (\<lambda>(a, b). P a b)"
  by (auto simp: keeps_def)

lemma keeps_Some [keeps_intro]: "P r \<Longrightarrow> keeps (Some r) P"
  by (simp add: keeps_def)

lemma keeps_None [keeps_intro]: "keeps None P"
  by (simp add: keeps_def)

lemma keeps_bind [keeps_intro]:
  "(\<And>x. m = Some x \<Longrightarrow> keeps (f x) P) \<Longrightarrow> keeps (Option.bind m f) P"
  by (auto simp: keeps_def)

lemma keeps_cut: "keeps m Q \<Longrightarrow> (\<And>x. Q x \<Longrightarrow> keeps (f x) P) \<Longrightarrow> keeps (Option.bind m f) P"
  by (auto simp: keeps_def)

lemma keeps_if [keeps_intro]:
  "(c \<Longrightarrow> keeps a P) \<Longrightarrow> (\<not> c \<Longrightarrow> keeps b P) \<Longrightarrow> keeps (if c then a else b) P"
  by simp

lemma keeps_case_option [keeps_intro]:
  "(x = None \<Longrightarrow> keeps a P) \<Longrightarrow> (\<And>y. x = Some y \<Longrightarrow> keeps (b y) P) \<Longrightarrow> keeps (case x of None \<Rightarrow> a | Some y \<Rightarrow> b y) P"
  by (cases x) simp_all

lemma keeps_case_prod [keeps_intro]:
  "(\<And>a b. p = (a, b) \<Longrightarrow> keeps (f a b) P) \<Longrightarrow> keeps (case p of (a, b) \<Rightarrow> f a b) P"
  by (cases p) simp

lemma keeps_Let [keeps_intro]: "keeps (f t) P \<Longrightarrow> keeps (let x = t in f x) P"
  by simp

subsection \<open>Memory blocks\<close>

text \<open>
  A block of memory is the list of its elements. \<open>read_at b off n\<close> reads \<open>n\<close>
  elements from offset \<open>off\<close>, \<open>write_at b off src\<close> is \<open>memcpy (b + off, src, length src)\<close>;
  both are \<open>None\<close> when they leave the block. A copy of no elements touches nothing.
\<close>

definition read_at :: "'a list \<Rightarrow> nat \<Rightarrow> nat \<Rightarrow> 'a list option" where
  "read_at b off n = (if off + n \<le> length b then Some (take n (drop off b)) else None)"

definition write_at :: "'a list \<Rightarrow> nat \<Rightarrow> 'a list \<Rightarrow> 'a list option" where
  "write_at b off src =
     (if off + length src \<le> length b
      then Some (take off b @ src @ drop (off + length src) b) else None)"

text \<open>\<open>memcmp (a, b, n) == 0\<close>: both objects must have \<open>n\<close> elements.\<close>

definition mem_eq :: "'a list \<Rightarrow> 'a list \<Rightarrow> nat \<Rightarrow> bool option" where
  "mem_eq a b n = do { x \<leftarrow> read_at a 0 n; y \<leftarrow> read_at b 0 n; Some (x = y) }"

lemma read_at_Some [simp]:
  "(read_at b off n = Some x) = (off + n \<le> length b \<and> x = take n (drop off b))"
  by (auto simp: read_at_def)

lemma write_at_Some [simp]:
  "(write_at b off src = Some b') =
     (off + length src \<le> length b \<and> b' = take off b @ src @ drop (off + length src) b)"
  by (auto simp: write_at_def)

lemma mem_eq_Some [simp]:
  "(mem_eq a b n = Some r) = (n \<le> length a \<and> n \<le> length b \<and> r = (take n a = take n b))"
  by (auto simp: mem_eq_def read_at_def)

lemma write_at_length: "write_at b off src = Some b' \<Longrightarrow> length b' = length b"
  by auto

lemma read_write_same:
  "write_at b off src = Some b' \<Longrightarrow> read_at b' off (length src) = Some src"
  by (auto simp: read_at_def min_def)

lemma write_at_frame:
  assumes "write_at b off src = Some b'" and "i < off \<or> off + length src \<le> i"
  shows "i < length b \<Longrightarrow> b' ! i = b ! i"
  using assms by (auto simp: nth_append min_def)

lemma drop_prefix: "xs = p @ q \<Longrightarrow> length p = n \<Longrightarrow> drop n xs = q"
  by simp

lemma write_at_prefix: "write_at b 0 src = Some b' \<Longrightarrow> take (length src) b' = src"
  by auto

lemmas c_mem_defs [c_mem] = read_at_def write_at_def mem_eq_def

subsection \<open>Little-endian words\<close>

text \<open>The four bytes a 32-bit object occupies in memory, lowest address first.\<close>

definition le32 :: "u32 \<Rightarrow> bytes" where
  "le32 w = [ucast w, ucast (drop_bit 8 w), ucast (drop_bit 16 w), ucast (drop_bit 24 w)]"

definition of_le32 :: "bytes \<Rightarrow> u32" where
  "of_le32 bs = (case bs of
     [a, b, c, d] \<Rightarrow>
       ucast a OR push_bit 8 (ucast b) OR push_bit 16 (ucast c) OR push_bit 24 (ucast d)
   | _ \<Rightarrow> 0)"

lemma length_le32 [simp]: "length (le32 w) = 4"
  by (simp add: le32_def)

lemma of_le32_le32 [simp]: "of_le32 (le32 w) = w"
proof (rule bit_word_eqI)
  fix n
  assume "n < LENGTH(32)"
  then have "n < 8 \<or> (8 \<le> n \<and> n < 16) \<or> (16 \<le> n \<and> n < 24) \<or> (24 \<le> n \<and> n < 32)" by auto
  then show "bit (of_le32 (le32 w)) n = bit w n"
    by (elim disjE conjE) (auto simp: of_le32_def le32_def bit_simps)
qed

text \<open>\<open>size_t\<close> arithmetic: the predecessor of a positive size, and of zero.\<close>

lemma unat_of_nat_pred:
  assumes "0 < m" and "m < 2 ^ 32"
  shows "unat (of_nat m - 1 :: u32) = m - 1"
proof -
  from assms(1) have "(of_nat m - 1 :: u32) = of_nat (m - 1)" by (simp add: of_nat_diff)
  then have "unat (of_nat m - 1 :: u32) = unat (of_nat (m - 1) :: u32)" by (rule arg_cong)
  also have "\<dots> = m - 1" using assms by (simp only: unat_of_nat) simp
  finally show ?thesis .
qed

subsection \<open>Text constants\<close>

text \<open>The bytes of a string literal, without and with the terminating zero.\<close>

definition ascii :: "string \<Rightarrow> bytes" where
  "ascii s = map of_char s"

definition c_literal :: "string \<Rightarrow> bytes" where
  "c_literal s = ascii s @ [0]"

lemma length_ascii [simp]: "length (ascii s) = length s"
  by (simp add: ascii_def)

lemma length_c_literal [simp]: "length (c_literal s) = Suc (length s)"
  by (simp add: c_literal_def)

subsection \<open>Counting loops\<close>

text \<open>
  \<open>for_each is f s\<close> is a loop whose body \<open>f\<close> runs once for every index of the list
  and may fail to return; \<open>for (i = 0; i < n; i++)\<close> is \<open>for_each [0..<n]\<close>.
\<close>

fun for_each :: "'i list \<Rightarrow> ('i \<Rightarrow> 's \<Rightarrow> 's option) \<Rightarrow> 's \<Rightarrow> 's option" where
  "for_each [] f s = Some s"
| "for_each (i # is) f s = Option.bind (f i s) (for_each is f)"

lemma for_each_append:
  "for_each (xs @ ys) f s = Option.bind (for_each xs f s) (for_each ys f)"
proof (induction xs arbitrary: s)
  case (Cons x xs)
  then show ?case by (cases "f x s") simp_all
qed simp

text \<open>
  The loop rule: an invariant that speaks of the number of turns done holds after all of them,
  and the loop returns.
\<close>

lemma for_each_upt:
  assumes "I 0 s"
    and "\<And>i s. i < n \<Longrightarrow> I i s \<Longrightarrow> \<exists>s'. f i s = Some s' \<and> I (Suc i) s'"
  shows "\<exists>s'. for_each [0..<n] f s = Some s' \<and> I n s'"
  using assms
proof (induction n)
  case 0
  then show ?case by simp
next
  case (Suc n)
  then obtain t where t: "for_each [0..<n] f s = Some t" "I n t" by force
  with Suc.prems(2) [of n t] obtain s' where "f n t = Some s'" "I (Suc n) s'" by auto
  with t show ?case by (simp add: for_each_append)
qed

lemma for_each_upt_inv:
  assumes "for_each [0..<n] f s = Some s'" and "I 0 s"
    and "\<And>i s s'. i < n \<Longrightarrow> I i s \<Longrightarrow> f i s = Some s' \<Longrightarrow> I (Suc i) s'"
  shows "I n s'"
  using assms
proof (induction n arbitrary: s')
  case 0
  then show ?case by simp
next
  case (Suc n)
  from Suc.prems(1) obtain t where "for_each [0..<n] f s = Some t" "f n t = Some s'"
    by (auto simp: for_each_append)
  then show ?case using Suc.IH [of t] Suc.prems(2,3) by (meson less_Suc_eq)
qed

text \<open>And with the loop in the rules for \<open>keeps\<close>.\<close>

lemma for_each_keeps:
  assumes "P s" and "\<And>x s. x \<in> set xs \<Longrightarrow> P s \<Longrightarrow> keeps (f x s) P"
  shows "keeps (for_each xs f s) P"
  using assms
proof (induction xs arbitrary: s)
  case (Cons x xs)
  show ?case
    unfolding for_each.simps
    by (rule keeps_cut [where Q = P]) (use Cons in auto)
qed (simp add: keeps_Some)

lemma keeps_map: "keeps m (\<lambda>x. P (f x)) \<Longrightarrow> keeps (map_option f m) P"
  by (auto simp: keeps_def)

end
