(* ===== verification/Rtos.thy ===== *)
theory Rtos
  imports Prelude
begin

text \<open>
  The services of the FreeRTOS kernel that the components use and that are not part of this
  repository: the heap (\<open>pvPortMalloc\<close>, \<open>vPortFree\<close>) and mutexes. What the kernel decides
  (where a block lies, whether there is room, what a fresh block contains) is an argument
  of the model, an \<open>allocator\<close>; what the code relies on is the predicate \<open>fresh_allocator\<close>.
\<close>

subsection \<open>The heap\<close>

text \<open>
  A pointer is the four bytes it occupies in memory, because the program keeps pointers in
  unions with data. The heap maps the address of every live block to its bytes.
\<close>

type_synonym addr = bytes
type_synonym heap = "addr \<rightharpoonup> bytes"
type_synonym allocator = "heap \<Rightarrow> nat \<Rightarrow> (addr \<times> bytes) option"

definition NULL :: addr where
  "NULL = [0, 0, 0, 0]"

definition pvPortMalloc :: "allocator \<Rightarrow> heap \<Rightarrow> nat \<Rightarrow> addr \<times> heap" where
  "pvPortMalloc alloc h n =
     (case alloc h n of None \<Rightarrow> (NULL, h) | Some (a, junk) \<Rightarrow> (a, h(a \<mapsto> junk)))"

text \<open>Freeing \<open>NULL\<close> does nothing; freeing what is not a live block has no meaning.\<close>

definition vPortFree :: "addr \<Rightarrow> heap \<Rightarrow> heap option" where
  "vPortFree p h =
     (if p = NULL then Some h
      else if h p = None then None else Some (h(p := None)))"

text \<open>
  The documented behaviour of \<open>pvPortMalloc\<close>: a block it returns is new, has an address
  other than \<open>NULL\<close> and the requested size.
\<close>

definition fresh_allocator :: "allocator \<Rightarrow> bool" where
  "fresh_allocator alloc \<longleftrightarrow>
     (\<forall>h n a b. alloc h n = Some (a, b) \<longrightarrow>
        h a = None \<and> a \<noteq> NULL \<and> length a = 4 \<and> length b = n)"

lemma fresh_allocatorD:
  assumes "fresh_allocator alloc" and "alloc h n = Some (a, b)"
  shows "h a = None" and "a \<noteq> NULL" and "length a = 4" and "length b = n"
  using assms by (auto simp: fresh_allocator_def)

text \<open>
  A block of \<open>n\<close> bytes can be had, with the heap as it is or after blocks have been freed; and
  any block can be had while fewer than \<open>m\<close> are in use.
\<close>

definition room :: "allocator \<Rightarrow> heap \<Rightarrow> nat \<Rightarrow> bool" where
  "room alloc h n \<longleftrightarrow> (\<forall>h'. dom h' \<subseteq> dom h \<longrightarrow> alloc h' n \<noteq> None)"

definition enough_memory :: "allocator \<Rightarrow> nat \<Rightarrow> bool" where
  "enough_memory alloc m \<longleftrightarrow>
     (\<forall>h n. finite (dom h) \<longrightarrow> card (dom h) < m \<longrightarrow> n < 2 ^ 32 \<longrightarrow> alloc h n \<noteq> None)"

lemma roomD: "room alloc h n \<Longrightarrow> dom h' \<subseteq> dom h \<Longrightarrow> alloc h' n \<noteq> None"
  by (simp add: room_def)

lemma enough_memory_room:
  assumes "enough_memory alloc m" and "finite (dom h)" and "card (dom h) < m" and "n < 2 ^ 32"
  shows "room alloc h n"
  using assms unfolding enough_memory_def room_def
  by (meson card_mono finite_subset le_less_trans)

text \<open>
  An allocator that has these properties as far as its sixty-three addresses go: the first
  unused one, or no memory.
\<close>

definition first_fit :: allocator where
  "first_fit h n =
     (case find (\<lambda>i. h (le32 (of_nat i)) = None) [1..<64] of
        None \<Rightarrow> None
      | Some i \<Rightarrow> Some (le32 (of_nat i), replicate n 165))"

lemma le32_inject: "(le32 v = le32 w) = (v = w)"
  by (metis of_le32_le32)

lemma NULL_le32: "NULL = le32 0"
  by (simp add: NULL_def le32_def)

lemma first_fit_fresh: "fresh_allocator first_fit"
  unfolding fresh_allocator_def
proof (intro allI impI)
  fix h :: heap and n a b
  assume "first_fit h n = Some (a, b)"
  then obtain i where i: "find (\<lambda>i. h (le32 (of_nat i)) = None) [1..<64] = Some i"
    and ab: "a = le32 (of_nat i)" "b = replicate n 165"
    by (auto simp: first_fit_def split: option.splits)
  from i have "h a = None" and "i \<in> set [1..<64]"
    using find_Some_iff [of _ "[1..<64]" i] nth_mem ab by fastforce+
  then have r: "1 \<le> i" "i < 64" by auto
  then have "unat (of_nat i :: u32) = i" by (simp add: unat_of_nat)
  with r have "(of_nat i :: u32) \<noteq> 0" by (metis not_one_le_zero unat_0)
  then have "a \<noteq> NULL" by (simp add: ab NULL_le32 le32_inject)
  with \<open>h a = None\<close> ab show "h a = None \<and> a \<noteq> NULL \<and> length a = 4 \<and> length b = n" by simp
qed

lemma first_fit_room: "enough_memory first_fit 63"
  unfolding enough_memory_def
proof (intro allI impI notI)
  fix h :: heap and n
  assume fin: "finite (dom h)" and few: "card (dom h) < 63" and none: "first_fit h n = None"
  from none have "find (\<lambda>i. h (le32 (of_nat i)) = None) [1..<64] = None"
    unfolding first_fit_def by (simp only: split: option.splits) simp
  then have used: "\<forall>i \<in> {1..<64}. h (le32 (of_nat i)) \<noteq> None"
    unfolding find_None_iff set_upt Bex_def Ball_def by (intro allI impI) metis
  have "inj_on (\<lambda>i. le32 (of_nat i)) {1..<64::nat}"
  proof (rule inj_onI)
    fix i j :: nat
    assume "i \<in> {1..<64}" "j \<in> {1..<64}" "le32 (of_nat i) = le32 (of_nat j)"
    then have "unat (of_nat i :: u32) = unat (of_nat j :: u32)" "i < 2 ^ 32" "j < 2 ^ 32"
      by (simp_all add: le32_inject)
    then show "i = j" by (simp add: unat_of_nat)
  qed
  then have "card ((\<lambda>i. le32 (of_nat i)) ` {1..<64::nat}) = card {1..<64::nat}"
    by (rule card_image)
  moreover have "(\<lambda>i. le32 (of_nat i)) ` {1..<64::nat} \<subseteq> dom h"
    using used unfolding image_subset_iff domIff .
  then have "card ((\<lambda>i. le32 (of_nat i)) ` {1..<64::nat}) \<le> card (dom h)"
    by (rule card_mono [OF fin])
  ultimately have "card {1..<64::nat} \<le> card (dom h)" by (rule subst)
  then show False using few by (simp only: card_atLeastLessThan)
qed

subsection \<open>Mutexes\<close>

text \<open>
  A mutex handle is \<open>NULL\<close> before the mutex is created. Taking a mutex through a null handle
  stops in an assertion, and taking one that the caller already holds never returns
  (\<open>portMAX_DELAY\<close>, not recursive).
\<close>

datatype mutex = Absent | Free | Held

fun xSemaphoreTake :: "mutex \<Rightarrow> mutex option" where
  "xSemaphoreTake Free = Some Held"
| "xSemaphoreTake _ = None"

fun xSemaphoreGive :: "mutex \<Rightarrow> mutex option" where
  "xSemaphoreGive Absent = None"
| "xSemaphoreGive _ = Some Free"

lemma xSemaphoreTake_Some [simp]: "(xSemaphoreTake m = Some m') = (m = Free \<and> m' = Held)"
  by (cases m) auto

lemma xSemaphoreGive_Some [simp]: "(xSemaphoreGive m = Some m') = (m \<noteq> Absent \<and> m' = Free)"
  by (cases m) auto

end
