(* ===== verification/KvNv.thy ===== *)
theory KvNv
  imports Rtos
begin

text \<open>
  The key-value store's non-volatile half (provision/kvstore): the value types of kvstore.h, the
  interface of kvstore_prv.h between the cache and the store behind it (locale \<open>nv_backend\<close>),
  and its implementation on the PSA Internal Trusted Storage service, kvstore_nv_psa_its.c.
  The service itself is not part of the repository: it is the record \<open>its\<close> of its three entry
  points, and the locale \<open>psa_its\<close> states what psa/internal_trusted_storage.h documents of them.
\<close>

subsection \<open>Value types\<close>

datatype KVStoreValueType_t =
    KV_TYPE_NONE | KV_TYPE_BASE_T | KV_TYPE_UBASE_T | KV_TYPE_INT32 | KV_TYPE_UINT32
  | KV_TYPE_STRING | KV_TYPE_BLOB | KV_TYPE_LAST

fun kv_type_code :: "KVStoreValueType_t \<Rightarrow> u32" where
  "kv_type_code KV_TYPE_NONE = 0"
| "kv_type_code KV_TYPE_BASE_T = 1"
| "kv_type_code KV_TYPE_UBASE_T = 2"
| "kv_type_code KV_TYPE_INT32 = 3"
| "kv_type_code KV_TYPE_UINT32 = 4"
| "kv_type_code KV_TYPE_STRING = 5"
| "kv_type_code KV_TYPE_BLOB = 6"
| "kv_type_code KV_TYPE_LAST = 7"

text \<open>The enumerator a stored word stands for; a word that is none of them has no meaning.\<close>

definition kv_type_of_code :: "u32 \<Rightarrow> KVStoreValueType_t option" where
  "kv_type_of_code c =
     find (\<lambda>t. kv_type_code t = c)
       [KV_TYPE_NONE, KV_TYPE_BASE_T, KV_TYPE_UBASE_T, KV_TYPE_INT32, KV_TYPE_UINT32,
        KV_TYPE_STRING, KV_TYPE_BLOB, KV_TYPE_LAST]"

lemma kv_type_of_code_code [simp]: "kv_type_of_code (kv_type_code t) = Some t"
  by (cases t) (simp_all add: kv_type_of_code_def)

lemma kv_type_of_code_0 [simp]: "kv_type_of_code 0 = Some KV_TYPE_NONE"
  using kv_type_of_code_code [of KV_TYPE_NONE] by simp

subsection \<open>The interface of kvstore_prv.h\<close>

text \<open>
  Which implementation the cache calls is a compile-time choice (KV_STORE_NVIMPL_*): a record of
  the three functions over the state \<open>'w\<close> of the world behind them. A buffer argument is
  \<open>None\<close> when it is \<open>NULL\<close>; results are the status, the type and length that the out
  parameters receive, and the buffer afterwards. Writing allocates, so it also passes the heap.
\<close>

record 'w nv_impl =
  xprvGetValueLengthFromImpl :: "nat \<Rightarrow> 'w \<Rightarrow> nat"
  xprvReadValueFromImpl ::
    "nat \<Rightarrow> bytes option \<Rightarrow> nat \<Rightarrow> 'w \<Rightarrow>
     (bool \<times> KVStoreValueType_t \<times> nat \<times> bytes option) option"
  xprvWriteValueToImpl ::
    "nat \<Rightarrow> KVStoreValueType_t \<Rightarrow> nat \<Rightarrow> bytes option \<Rightarrow> heap \<Rightarrow> 'w \<Rightarrow>
     (bool \<times> heap \<times> 'w) option"

text \<open>A value that can be stored: it has a type, and with its header it fits in memory.\<close>

definition storable :: "KVStoreValueType_t \<Rightarrow> bytes \<Rightarrow> bool" where
  "storable t v \<longleftrightarrow> t \<noteq> KV_TYPE_NONE \<and> v \<noteq> [] \<and> length v + 8 < 2 ^ 32"

text \<open>
  What the cache relies on. \<open>stored w k\<close> is the value the backend keeps for key \<open>k\<close>;
  \<open>wf w\<close> says that the keys hold nothing but values this code wrote.
\<close>

locale nv_backend =
  fixes impl :: "'w nv_impl"
    and num_keys :: nat
    and wf :: "'w \<Rightarrow> bool"
    and stored :: "'w \<Rightarrow> nat \<Rightarrow> (KVStoreValueType_t \<times> bytes) option"
  assumes length_stored: "wf w \<Longrightarrow> k < num_keys \<Longrightarrow> stored w k = Some (t, v) \<Longrightarrow>
      xprvGetValueLengthFromImpl impl k w = length v"
    and length_absent: "wf w \<Longrightarrow> k < num_keys \<Longrightarrow> stored w k = None \<Longrightarrow>
      xprvGetValueLengthFromImpl impl k w = 0"
    and stored_storable: "wf w \<Longrightarrow> k < num_keys \<Longrightarrow> stored w k = Some (t, v) \<Longrightarrow> storable t v"
    and read_stored: "wf w \<Longrightarrow> k < num_keys \<Longrightarrow> stored w k = Some (t, v) \<Longrightarrow>
      length v \<le> length buf \<Longrightarrow>
      xprvReadValueFromImpl impl k (Some buf) (length v) w =
        Some (True, t, length v, Some (v @ drop (length v) buf))"
    and write_total: "wf w \<Longrightarrow> k < num_keys \<Longrightarrow> storable t v \<Longrightarrow>
      \<exists>r h' w'. xprvWriteValueToImpl impl k t (length v) (Some v) h w = Some (r, h', w')"
    and write_heap: "xprvWriteValueToImpl impl k t n p h w = Some (r, h', w') \<Longrightarrow> h' = h"
    and write_stored: "wf w \<Longrightarrow> k < num_keys \<Longrightarrow> storable t v \<Longrightarrow>
      xprvWriteValueToImpl impl k t (length v) (Some v) h w = Some (r, h', w') \<Longrightarrow>
      wf w' \<and> stored w' = (if r then (stored w)(k \<mapsto> (t, v)) else stored w)"

subsection \<open>kvstore_nv_psa_its.c\<close>

text \<open>
  The PSA Internal Trusted Storage client API. \<open>psa_its_get\<close> gives the status and the bytes
  delivered, whose number is what \<open>p_data_length\<close> receives.
\<close>

record 'w its =
  psa_its_get_info :: "nat \<Rightarrow> 'w \<Rightarrow> int \<times> nat"
  psa_its_get :: "nat \<Rightarrow> nat \<Rightarrow> nat \<Rightarrow> 'w \<Rightarrow> int \<times> bytes"
  psa_its_set :: "nat \<Rightarrow> bytes \<Rightarrow> 'w \<Rightarrow> int \<times> 'w"

definition PSA_SUCCESS :: int where
  "PSA_SUCCESS = 0"

definition KVSTORE_UID_OFFSET :: nat where
  "KVSTORE_UID_OFFSET = 0x1234"

text \<open>\<open>sizeof (KVStoreHeader_t)\<close>: the type, a 32-bit enumeration, and the length.\<close>

definition sizeof_header :: nat where
  "sizeof_header = 8"

definition xKeyToUID :: "nat \<Rightarrow> nat" where
  "xKeyToUID xKey = KVSTORE_UID_OFFSET + xKey"

definition xPSAStatusToBool :: "int \<Rightarrow> bool" where
  "xPSAStatusToBool xStatus = (xStatus = PSA_SUCCESS)"

text \<open>The header as it lies in memory and in storage.\<close>

definition header_bytes :: "KVStoreValueType_t \<Rightarrow> nat \<Rightarrow> bytes" where
  "header_bytes t n = le32 (kv_type_code t) @ le32 (of_nat n)"

definition header_type :: "bytes \<Rightarrow> KVStoreValueType_t option" where
  "header_type hdr = kv_type_of_code (of_le32 (take 4 hdr))"

definition header_length :: "bytes \<Rightarrow> nat" where
  "header_length hdr = unat (of_le32 (take 4 (drop 4 hdr)))"

text \<open>The size a file has beyond its header; \<open>size_t\<close> arithmetic wraps.\<close>

definition its_value_length :: "'w its \<Rightarrow> nat \<Rightarrow> 'w \<Rightarrow> nat" where
  "its_value_length s xKey w =
     (let (st, sz) = psa_its_get_info s (xKeyToUID xKey) w
      in if st = PSA_SUCCESS then unat (of_nat sz - of_nat sizeof_header :: u32) else 0)"

text \<open>
  The read: header first, then as much of the value as the buffer takes. The header variable
  is zero before the service fills it, that is, of type \<open>KV_TYPE_NONE\<close>.
\<close>

definition its_read_value ::
  "'w its \<Rightarrow> nat \<Rightarrow> bytes option \<Rightarrow> nat \<Rightarrow> 'w \<Rightarrow>
   (bool \<times> KVStoreValueType_t \<times> nat \<times> bytes option) option" where
  "its_read_value s xKey pvBuffer xBufferSize w = do {
     let xResult = (if pvBuffer = None \<or> xBufferSize = 0 then -1 else PSA_SUCCESS);
     (xResult, xHeader, uxDataLength) \<leftarrow>
       (if xResult = PSA_SUCCESS
        then do {
          let (st, data) = psa_its_get s (xKeyToUID xKey) 0 sizeof_header w;
          hdr \<leftarrow> write_at (header_bytes KV_TYPE_NONE 0) 0 data;
          Some (if length data \<noteq> sizeof_header then (-1, hdr, 0) else (st, hdr, length data)) }
        else Some (xResult, header_bytes KV_TYPE_NONE 0, 0));
     type \<leftarrow> header_type xHeader;
     (xResult, uxDataLength, pvBuffer) \<leftarrow>
       (if xResult = PSA_SUCCESS
        then do {
          buf \<leftarrow> pvBuffer;
          let want = (if xBufferSize < header_length xHeader then xBufferSize
                      else header_length xHeader);
          let (st, data) = psa_its_get s (xKeyToUID xKey) sizeof_header want w;
          buf' \<leftarrow> write_at buf 0 data;
          if length data = want then Some (st, length data, Some buf') else None }
        else Some (xResult, uxDataLength, pvBuffer));
     Some (xPSAStatusToBool xResult, type, uxDataLength, pvBuffer) }"

text \<open>
  The write: header and value are staged in one heap buffer, stored, and the buffer is cleared
  and freed. The guard compares \<open>xKey > CS_NUM_KEYS\<close>, so it lets the key one past the last pass.
\<close>

definition its_stage_and_set ::
  "'w its \<Rightarrow> nat \<Rightarrow> KVStoreValueType_t \<Rightarrow> nat \<Rightarrow> bytes option \<Rightarrow> addr \<Rightarrow> heap \<Rightarrow> 'w \<Rightarrow>
   (int \<times> heap \<times> 'w) option" where
  "its_stage_and_set s xKey xType xLength pvData pvBuffer h w = do {
     data \<leftarrow> pvData;
     data \<leftarrow> read_at data 0 xLength;
     blk \<leftarrow> h pvBuffer;
     blk \<leftarrow> write_at blk 0 (header_bytes xType xLength);
     blk \<leftarrow> write_at blk sizeof_header data;
     let (st, w') = psa_its_set s (xKeyToUID xKey) (take (sizeof_header + xLength) blk) w;
     Some (st, h(pvBuffer \<mapsto> blk), w') }"

definition its_clear_and_free :: "addr \<Rightarrow> nat \<Rightarrow> heap \<Rightarrow> heap option" where
  "its_clear_and_free pvBuffer nbytes h = do {
     blk \<leftarrow> h pvBuffer;
     blk \<leftarrow> write_at blk 0 (replicate nbytes 0);
     vPortFree pvBuffer (h(pvBuffer \<mapsto> blk)) }"

definition its_write_value ::
  "allocator \<Rightarrow> 'w its \<Rightarrow> nat \<Rightarrow> nat \<Rightarrow> KVStoreValueType_t \<Rightarrow> nat \<Rightarrow> bytes option \<Rightarrow> heap \<Rightarrow> 'w \<Rightarrow>
   (bool \<times> heap \<times> 'w) option" where
  "its_write_value alloc s CS_NUM_KEYS xKey xType xLength pvData h w = do {
     let nbytes = (sizeof_header + xLength) mod 2 ^ 32;
     let xResult =
       (if xKey > CS_NUM_KEYS \<or> xType = KV_TYPE_NONE \<or> pvData = None then -1 else PSA_SUCCESS);
     let (pvBuffer, h) = (if xResult = PSA_SUCCESS then pvPortMalloc alloc h nbytes else (NULL, h));
     let xResult = (if xResult = PSA_SUCCESS \<and> pvBuffer = NULL then -1 else xResult);
     (xResult, h, w) \<leftarrow>
       (if xResult = PSA_SUCCESS
        then its_stage_and_set s xKey xType xLength pvData pvBuffer h w
        else Some (xResult, h, w));
     h \<leftarrow> (if pvBuffer \<noteq> NULL then its_clear_and_free pvBuffer nbytes h else Some h);
     Some (xPSAStatusToBool xResult, h, w) }"

definition psa_its_impl :: "allocator \<Rightarrow> 'w its \<Rightarrow> nat \<Rightarrow> 'w nv_impl" where
  "psa_its_impl alloc s CS_NUM_KEYS =
     \<lparr> xprvGetValueLengthFromImpl = its_value_length s,
       xprvReadValueFromImpl = its_read_value s,
       xprvWriteValueToImpl = its_write_value alloc s CS_NUM_KEYS \<rparr>"

lemma stage_then_free:
  assumes "its_stage_and_set s k t n d p (h(p \<mapsto> junk)) w = Some (st, h1, w')"
    and "its_clear_and_free p nbytes h1 = Some h'" and "p \<noteq> NULL"
  shows "h' = h(p := None)"
proof -
  from assms(1) obtain blk where "h1 = h(p \<mapsto> blk)"
    by (auto simp: its_stage_and_set_def case_prod_beta Let_def)
  with assms(2,3) show ?thesis
    by (auto simp: its_clear_and_free_def vPortFree_def)
qed

subsection \<open>What the implementation keeps in the service\<close>

text \<open>
  \<open>contents w u\<close> is the file the service holds under the identifier \<open>u\<close>. A file of this
  code is a header followed by the value.
\<close>

definition decode_file :: "bytes \<Rightarrow> (KVStoreValueType_t \<times> bytes) option" where
  "decode_file bs = map_option (\<lambda>t. (t, drop sizeof_header bs)) (header_type bs)"

definition its_stored ::
  "('w \<Rightarrow> nat \<Rightarrow> bytes option) \<Rightarrow> 'w \<Rightarrow> nat \<Rightarrow> (KVStoreValueType_t \<times> bytes) option" where
  "its_stored contents w k = Option.bind (contents w (xKeyToUID k)) decode_file"

definition its_wf :: "('w \<Rightarrow> nat \<Rightarrow> bytes option) \<Rightarrow> nat \<Rightarrow> 'w \<Rightarrow> bool" where
  "its_wf contents n w \<longleftrightarrow>
     (\<forall>k<n. \<forall>bs. contents w (xKeyToUID k) = Some bs \<longrightarrow>
        (\<exists>t v. storable t v \<and> bs = header_bytes t (length v) @ v))"

lemma length_header_bytes [simp]: "length (header_bytes t n) = 8"
  by (simp add: header_bytes_def)

lemma header_type_bytes [simp]: "header_type (header_bytes t n @ v) = Some t"
  by (simp add: header_type_def header_bytes_def)

lemma header_type_bytes' [simp]: "header_type (header_bytes t n) = Some t"
  by (simp add: header_type_def header_bytes_def)

lemma header_length_bytes [simp]: "n < 2 ^ 32 \<Longrightarrow> header_length (header_bytes t n) = n"
  by (simp add: header_length_def header_bytes_def unat_of_nat)

lemma decode_file_header [simp]: "decode_file (header_bytes t n @ v) = Some (t, v)"
  by (simp add: decode_file_def sizeof_header_def)

lemma xKeyToUID_inject [simp]: "(xKeyToUID j = xKeyToUID k) = (j = k)"
  by (simp add: xKeyToUID_def)

lemma its_stored_absent:
  "its_wf contents n w \<Longrightarrow> k < n \<Longrightarrow> its_stored contents w k = None \<Longrightarrow>
   contents w (xKeyToUID k) = None"
  unfolding its_wf_def its_stored_def
  by (cases "contents w (xKeyToUID k)") fastforce+

lemma its_stored_file:
  assumes "its_wf contents n w" and "k < n" and "its_stored contents w k = Some (t, v)"
  shows "storable t v" and "contents w (xKeyToUID k) = Some (header_bytes t (length v) @ v)"
  using assms unfolding its_wf_def its_stored_def by fastforce+

subsection \<open>The implementation provides the interface\<close>

text \<open>
  What the documentation of the service promises: information about a file that exists, its
  bytes from an offset, and that setting a file either stores exactly these bytes or, with an
  error status, changes nothing.
\<close>

locale psa_its =
  fixes alloc :: allocator
    and s :: "'w its"
    and contents :: "'w \<Rightarrow> nat \<Rightarrow> bytes option"
    and num_keys :: nat
  assumes fresh: "fresh_allocator alloc"
    and get_info_present: "contents w u = Some bs \<Longrightarrow>
      psa_its_get_info s u w = (PSA_SUCCESS, length bs)"
    and get_info_absent: "contents w u = None \<Longrightarrow> fst (psa_its_get_info s u w) \<noteq> PSA_SUCCESS"
    and get_bytes: "contents w u = Some bs \<Longrightarrow> off + n \<le> length bs \<Longrightarrow>
      psa_its_get s u off n w = (PSA_SUCCESS, take n (drop off bs))"
    and set_ok: "psa_its_set s u bs w = (PSA_SUCCESS, w') \<Longrightarrow>
      contents w' = (contents w)(u \<mapsto> bs)"
    and set_error: "psa_its_set s u bs w = (st, w') \<Longrightarrow> st \<noteq> PSA_SUCCESS \<Longrightarrow>
      contents w' = contents w"
begin

lemma read_value:
  assumes "its_wf contents num_keys w" and "k < num_keys"
    and "its_stored contents w k = Some (t, v)" and "length v \<le> length buf"
  shows "its_read_value s k (Some buf) (length v) w =
    Some (True, t, length v, Some (v @ drop (length v) buf))"
proof -
  from its_stored_file [OF assms(1-3)]
  have sv: "storable t v" and fl: "contents w (xKeyToUID k) = Some (header_bytes t (length v) @ v)"
    by auto
  have "psa_its_get s (xKeyToUID k) 0 8 w = (PSA_SUCCESS, header_bytes t (length v))"
    and "psa_its_get s (xKeyToUID k) 8 (length v) w = (PSA_SUCCESS, v)"
    using get_bytes [OF fl] by simp_all
  with sv assms(4) show ?thesis
    by (auto simp: its_read_value_def storable_def sizeof_header_def xPSAStatusToBool_def
        PSA_SUCCESS_def write_at_def Let_def)
qed

lemma value_length:
  assumes "its_wf contents num_keys w" and "k < num_keys"
  shows "its_value_length s k w =
    (case its_stored contents w k of None \<Rightarrow> 0 | Some (t, v) \<Rightarrow> length v)"
proof (cases "its_stored contents w k")
  case None
  with get_info_absent [OF its_stored_absent [OF assms]] show ?thesis
    by (simp add: its_value_length_def case_prod_beta)
next
  case (Some tv)
  obtain t v where tv: "tv = (t, v)" by (cases tv)
  from its_stored_file [OF assms] Some tv
  have sv: "storable t v" and fl: "contents w (xKeyToUID k) = Some (header_bytes t (length v) @ v)"
    by auto
  have "unat (of_nat (length v + 8) - of_nat 8 :: u32) = length v"
    using sv by (simp add: storable_def unat_of_nat)
  with get_info_present [OF fl] Some tv show ?thesis
    by (simp add: its_value_length_def sizeof_header_def add.commute)
qed

text \<open>A write that passes the guard either stores the file or leaves the service as it was.\<close>

lemma write_value:
  assumes "storable t v" and "k \<le> num_keys"
  shows "\<exists>r w'. its_write_value alloc s num_keys k t (length v) (Some v) h w = Some (r, h, w') \<and>
    (if r then contents w' = (contents w)(xKeyToUID k \<mapsto> header_bytes t (length v) @ v)
     else contents w' = contents w)"
proof (cases "alloc h (8 + length v)")
  case None
  with assms show ?thesis
    by (intro exI [of _ False] exI [of _ w])
      (simp add: its_write_value_def storable_def sizeof_header_def pvPortMalloc_def
        xPSAStatusToBool_def PSA_SUCCESS_def)
next
  case (Some p)
  obtain a junk where p: "p = (a, junk)" by (cases p)
  note f = fresh_allocatorD [OF fresh Some [unfolded p]]
  obtain st w' where set: "psa_its_set s (xKeyToUID k) (header_bytes t (length v) @ v) w = (st, w')"
    by fastforce
  have h: "h(a := None) = h" using f(1) by auto
  have "its_write_value alloc s num_keys k t (length v) (Some v) h w =
      Some (xPSAStatusToBool st, h, w')"
    using assms f Some p set h
    by (simp add: its_write_value_def its_stage_and_set_def its_clear_and_free_def storable_def
        sizeof_header_def pvPortMalloc_def vPortFree_def PSA_SUCCESS_def write_at_def read_at_def)
  with set set_ok set_error show ?thesis by (auto simp: xPSAStatusToBool_def)
qed

text \<open>Whatever its arguments, a write that returns has freed its staging buffer.\<close>

lemma write_value_heap:
  assumes "its_write_value alloc s n k t len p h w = Some (r, h', w')"
  shows "h' = h"
proof (cases "alloc h ((sizeof_header + len) mod 2 ^ 32)")
  case None
  with assms show ?thesis
    by (auto simp: its_write_value_def pvPortMalloc_def PSA_SUCCESS_def split: if_splits)
next
  case (Some q)
  obtain a junk where q: "q = (a, junk)" by (cases q)
  note f = fresh_allocatorD [OF fresh Some [unfolded q]]
  then have "h(a := None) = h" by auto
  with assms f(2) Some q show ?thesis
    by (auto simp: its_write_value_def pvPortMalloc_def PSA_SUCCESS_def Let_def
        dest: stage_then_free split: if_splits)
qed

lemma wf_update:
  assumes "its_wf contents num_keys w" and "storable t v"
    and "contents w' = (contents w)(xKeyToUID k \<mapsto> header_bytes t (length v) @ v)"
  shows "its_wf contents num_keys w'"
    and "its_stored contents w' = (its_stored contents w)(k \<mapsto> (t, v))"
proof -
  show "its_wf contents num_keys w'"
    unfolding its_wf_def
  proof (intro allI impI)
    fix j bs
    assume "j < num_keys" and "contents w' (xKeyToUID j) = Some bs"
    with assms show "\<exists>t v. storable t v \<and> bs = header_bytes t (length v) @ v"
      by (cases "j = k") (auto simp: its_wf_def)
  qed
  show "its_stored contents w' = (its_stored contents w)(k \<mapsto> (t, v))"
    using assms(3) by (auto simp: its_stored_def fun_eq_iff)
qed

end

sublocale psa_its \<subseteq> nv_backend "psa_its_impl alloc s num_keys" num_keys
  "its_wf contents num_keys" "its_stored contents"
proof unfold_locales
  fix w k t v h r h' w'
  assume wf: "its_wf contents num_keys w" and k: "k < num_keys" and sv: "storable t v"
  from write_value [OF sv, of k h w] k
  obtain r0 w0 where eq:
      "its_write_value alloc s num_keys k t (length v) (Some v) h w = Some (r0, h, w0)"
    and res: "if r0 then contents w0 = (contents w)(xKeyToUID k \<mapsto> header_bytes t (length v) @ v)
      else contents w0 = contents w" by auto
  then show "\<exists>r h' w'. xprvWriteValueToImpl (psa_its_impl alloc s num_keys) k t (length v) (Some v) h w
      = Some (r, h', w')"
    by (simp add: psa_its_impl_def)
  assume "xprvWriteValueToImpl (psa_its_impl alloc s num_keys) k t (length v) (Some v) h w
      = Some (r, h', w')"
  with eq have "r = r0" "w' = w0" by (simp_all add: psa_its_impl_def)
  with res wf wf_update [OF wf sv, of w' k]
  show "its_wf contents num_keys w' \<and>
      its_stored contents w' =
        (if r then (its_stored contents w)(k \<mapsto> (t, v)) else its_stored contents w)"
    by (cases r) (simp_all add: its_wf_def its_stored_def fun_eq_iff)
next
  show "xprvWriteValueToImpl (psa_its_impl alloc s num_keys) k t n p h w = Some (r, h', w') \<Longrightarrow>
      h' = h" for k t n p h w r h' w'
    by (simp add: psa_its_impl_def write_value_heap)
qed (auto simp: psa_its_impl_def value_length read_value dest: its_stored_file)

context psa_its
begin

lemma backend: "nv_backend (psa_its_impl alloc s num_keys) num_keys (its_wf contents num_keys)
    (its_stored contents)"
  by (rule nv_backend_axioms)

end

subsection \<open>The service as its documentation describes it\<close>

text \<open>
  psa/internal_trusted_storage.h describes a map from identifiers to byte strings. This
  reference service is that map, and it shows that the hypotheses of \<open>psa_its\<close> can hold.
\<close>

definition reference_its :: "(nat \<rightharpoonup> bytes) its" where
  "reference_its =
     \<lparr> psa_its_get_info = (\<lambda>u w. case w u of None \<Rightarrow> (-140, 0) | Some bs \<Rightarrow> (PSA_SUCCESS, length bs)),
       psa_its_get = (\<lambda>u off n w. case w u of None \<Rightarrow> (-140, [])
          | Some bs \<Rightarrow> if off > length bs then (-135, [])
                       else (PSA_SUCCESS, take n (drop off bs))),
       psa_its_set = (\<lambda>u bs w. (PSA_SUCCESS, w(u \<mapsto> bs))) \<rparr>"

interpretation reference: psa_its first_fit reference_its "\<lambda>w. w" n for n
  by unfold_locales
    (auto simp: first_fit_fresh reference_its_def PSA_SUCCESS_def)

end
