(* ===== verification/KvCache.thy ===== *)
theory KvCache
  imports KvNv
begin

text \<open>
  The in-memory cache of the key-value store, kvstore_cache.c. An entry keeps values of up to
  \<open>sizeof (void *)\<close> bytes in its union and longer ones in a heap block whose address is in that
  union. The abstraction of the cache is the map from keys to typed values, \<open>cached\<close>.
\<close>

subsection \<open>Entries\<close>

record cache_entry =
  ctype :: KVStoreValueType_t
  clength :: nat
  cunion :: bytes
  xChangePending :: bool

definition sizeof_ptr :: nat where
  "sizeof_ptr = 4"

text \<open>What a pointer to an entry's data refers to: the union itself, or a heap block.\<close>

datatype data_ptr = Inline | Block addr

definition pvGetDataWritePtr :: "cache_entry \<Rightarrow> data_ptr option" where
  "pvGetDataWritePtr e =
     (if clength e > sizeof_ptr
      then if cunion e = NULL then None else Some (Block (cunion e))
      else Some Inline)"

text \<open>Here \<open>None\<close> is the null pointer, a regular result.\<close>

definition pvGetDataReadPtr :: "cache_entry \<Rightarrow> data_ptr option" where
  "pvGetDataReadPtr e =
     (if ctype e = KV_TYPE_NONE then None
      else if clength e > sizeof_ptr
      then if cunion e = NULL then None else Some (Block (cunion e))
      else Some Inline)"

text \<open>Reading and writing through such a pointer.\<close>

fun load :: "data_ptr \<Rightarrow> nat \<Rightarrow> cache_entry \<Rightarrow> heap \<Rightarrow> bytes option" where
  "load Inline n e h = read_at (cunion e) 0 n"
| "load (Block a) n e h = Option.bind (h a) (\<lambda>b. read_at b 0 n)"

fun store :: "data_ptr \<Rightarrow> bytes \<Rightarrow> cache_entry \<Rightarrow> heap \<Rightarrow> (cache_entry \<times> heap) option" where
  "store Inline d e h = map_option (\<lambda>u. (e\<lparr>cunion := u\<rparr>, h)) (write_at (cunion e) 0 d)"
| "store (Block a) d e h =
     Option.bind (h a) (\<lambda>b. map_option (\<lambda>b'. (e, h(a \<mapsto> b'))) (write_at b 0 d))"

definition vAllocateDataBuffer ::
  "allocator \<Rightarrow> nat \<Rightarrow> cache_entry \<Rightarrow> heap \<Rightarrow> cache_entry \<times> heap" where
  "vAllocateDataBuffer alloc xNewLength e h =
     (if xNewLength > sizeof_ptr
      then let (p, h') = pvPortMalloc alloc h xNewLength
           in (e\<lparr>cunion := p, clength := xNewLength\<rparr>, h')
      else (e\<lparr>cunion := [0, 0, 0, 0], clength := xNewLength\<rparr>, h))"

definition vClearDataBuffer :: "cache_entry \<Rightarrow> heap \<Rightarrow> (cache_entry \<times> heap) option" where
  "vClearDataBuffer e h =
     (if clength e > sizeof_ptr
      then map_option (\<lambda>h'. (e\<lparr>cunion := NULL, clength := 0\<rparr>, h')) (vPortFree (cunion e) h)
      else Some (e\<lparr>clength := 0, cunion := [0, 0, 0, 0]\<rparr>, h))"

definition vReallocDataBuffer ::
  "allocator \<Rightarrow> nat \<Rightarrow> cache_entry \<Rightarrow> heap \<Rightarrow> (cache_entry \<times> heap) option" where
  "vReallocDataBuffer alloc xNewLength e h =
     (if xNewLength > clength e
      then map_option (\<lambda>(e', h'). vAllocateDataBuffer alloc xNewLength e' h') (vClearDataBuffer e h)
      else Some (e\<lparr>clength := xNewLength\<rparr>, h))"

subsection \<open>The cache\<close>

record 'w kv =
  kvStoreCache :: "cache_entry list"
  kvHeap :: heap
  kvNv :: 'w
  xKvMutex :: mutex

text \<open>Replacing \<open>kvStoreCache[i]\<close> together with the heap it was computed with.\<close>

definition put_entry :: "nat \<Rightarrow> cache_entry \<times> heap \<Rightarrow> 'w kv \<Rightarrow> 'w kv" where
  "put_entry i eh kv =
     kv\<lparr>kvStoreCache := (kvStoreCache kv)[i := fst eh], kvHeap := snd eh\<rparr>"

definition get_entry :: "nat \<Rightarrow> 'w kv \<Rightarrow> cache_entry option" where
  "get_entry i kv =
     (if i < length (kvStoreCache kv) then Some (kvStoreCache kv ! i) else None)"

text \<open>One turn of the loop of \<open>vprvCacheInit\<close>.\<close>

definition cache_init_entry ::
  "allocator \<Rightarrow> 'w nv_impl \<Rightarrow> nat \<Rightarrow> 'w kv \<Rightarrow> 'w kv option" where
  "cache_init_entry alloc impl i kv = do {
     e \<leftarrow> get_entry i kv;
     let e = e\<lparr>xChangePending := False, ctype := KV_TYPE_NONE\<rparr>;
     let xNvLength = xprvGetValueLengthFromImpl impl i (kvNv kv);
     if xNvLength > 0
     then do {
       let (e, h) = vAllocateDataBuffer alloc xNvLength e (kvHeap kv);
       p \<leftarrow> pvGetDataWritePtr e;
       buf \<leftarrow> load p (clength e) e h;
       (_, type, len, buf') \<leftarrow>
         xprvReadValueFromImpl impl i (Some buf) (clength e) (kvNv kv);
       data \<leftarrow> buf';
       (e, h) \<leftarrow> store p data e h;
       Some (put_entry i (e\<lparr>ctype := type, clength := len\<rparr>, h) kv) }
     else Some (put_entry i (e, kvHeap kv) kv) }"

definition vprvCacheInit :: "allocator \<Rightarrow> 'w nv_impl \<Rightarrow> 'w kv \<Rightarrow> 'w kv option" where
  "vprvCacheInit alloc impl kv =
     for_each [0..<length (kvStoreCache kv)] (cache_init_entry alloc impl) kv"

definition prvGetCacheEntryLength :: "nat \<Rightarrow> 'w kv \<Rightarrow> nat option" where
  "prvGetCacheEntryLength xKey kv = map_option clength (get_entry xKey kv)"

definition prvGetCacheEntryType :: "nat \<Rightarrow> 'w kv \<Rightarrow> KVStoreValueType_t option" where
  "prvGetCacheEntryType xKey kv = map_option ctype (get_entry xKey kv)"

text \<open>
  The part of \<open>xprvWriteCacheEntry\<close> that decides whether the entry changes and makes room
  for the new value, and the part that copies it.
\<close>

definition prepare_entry ::
  "allocator \<Rightarrow> KVStoreValueType_t \<Rightarrow> nat \<Rightarrow> bytes \<Rightarrow> cache_entry \<Rightarrow> heap \<Rightarrow>
   (cache_entry \<times> heap) option" where
  "prepare_entry alloc xNewType xLength pvNewValue e h =
     (if ctype e = KV_TYPE_NONE
      then let (e', h') = vAllocateDataBuffer alloc xLength e h
           in Some (e'\<lparr>ctype := xNewType, xChangePending := True\<rparr>, h')
      else if clength e \<noteq> xLength
      then do {
        (e', h') \<leftarrow> vReallocDataBuffer alloc xLength e h;
        Some (e'\<lparr>ctype := xNewType, xChangePending := True\<rparr>, h') }
      else if ctype e \<noteq> xNewType
      then Some (e\<lparr>ctype := xNewType, xChangePending := True\<rparr>, h)
      else case pvGetDataReadPtr e of
          None \<Rightarrow> Some (e\<lparr>xChangePending := True\<rparr>, h)
        | Some p \<Rightarrow> do {
            old \<leftarrow> load p xLength e h;
            new \<leftarrow> read_at pvNewValue 0 xLength;
            Some (if old \<noteq> new then e\<lparr>xChangePending := True\<rparr> else e, h) })"

definition copy_pending ::
  "nat \<Rightarrow> bytes \<Rightarrow> cache_entry \<times> heap \<Rightarrow> (cache_entry \<times> heap) option" where
  "copy_pending xLength pvNewValue eh =
     (let (e, h) = eh
      in if xChangePending e
         then do {
           p \<leftarrow> pvGetDataWritePtr e;
           d \<leftarrow> read_at pvNewValue 0 xLength;
           store p d e h }
         else Some (e, h))"

definition xprvWriteCacheEntry ::
  "allocator \<Rightarrow> nat \<Rightarrow> KVStoreValueType_t \<Rightarrow> nat \<Rightarrow> bytes option \<Rightarrow> 'w kv \<Rightarrow>
   (bool \<times> 'w kv) option" where
  "xprvWriteCacheEntry alloc xKey xNewType xLength pvNewValue kv = do {
     e \<leftarrow> get_entry xKey kv;
     v \<leftarrow> pvNewValue;
     if xNewType \<noteq> KV_TYPE_LAST \<and> xLength > 0
     then do {
       eh \<leftarrow> prepare_entry alloc xNewType xLength v e (kvHeap kv);
       eh \<leftarrow> copy_pending xLength v eh;
       Some (True, put_entry xKey eh kv) }
     else None }"

text \<open>
  The copy out of the cache. The out parameters \<open>pxDataType\<close> and \<open>pxDataLength\<close> are written
  only when the entry has a value: \<open>None\<close> in the second component means they are not.
\<close>

definition xprvCopyValueFromCache ::
  "nat \<Rightarrow> bytes option \<Rightarrow> nat \<Rightarrow> 'w kv \<Rightarrow>
   (bool \<times> (KVStoreValueType_t \<times> nat) option \<times> bytes) option" where
  "xprvCopyValueFromCache xKey pvBuffer xBufferSize kv = do {
     e \<leftarrow> get_entry xKey kv;
     buf \<leftarrow> pvBuffer;
     (case pvGetDataReadPtr e of
        None \<Rightarrow> Some (False, None, buf)
      | Some p \<Rightarrow> do {
          let xDataLen = (if xBufferSize < clength e then xBufferSize else clength e);
          d \<leftarrow> load p xDataLen e (kvHeap kv);
          buf \<leftarrow> write_at buf 0 d;
          Some (xDataLen > 0, Some (ctype e, clength e), buf) }) }"

text \<open>
  Committing writes every pending entry; \<open>xSuccess &= \<dots>\<close> goes on after a failure, and the
  pending mark stays.
\<close>

definition commit_entry ::
  "'w nv_impl \<Rightarrow> nat \<Rightarrow> bool \<times> 'w kv \<Rightarrow> (bool \<times> 'w kv) option" where
  "commit_entry impl i = (\<lambda>(xSuccess, kv). do {
     e \<leftarrow> get_entry i kv;
     if xChangePending e
     then do {
       data \<leftarrow> (case pvGetDataReadPtr e of
                 None \<Rightarrow> Some None
               | Some p \<Rightarrow> map_option Some (load p (clength e) e (kvHeap kv)));
       (ok, h, w) \<leftarrow> xprvWriteValueToImpl impl i (ctype e) (clength e) data (kvHeap kv) (kvNv kv);
       Some (xSuccess \<and> ok, kv\<lparr>kvHeap := h, kvNv := w\<rparr>) }
     else Some (xSuccess, kv) })"

definition KVStore_xCommitChanges :: "'w nv_impl \<Rightarrow> 'w kv \<Rightarrow> (bool \<times> 'w kv) option" where
  "KVStore_xCommitChanges impl kv =
     for_each [0..<length (kvStoreCache kv)] (commit_entry impl) (True, kv)"

subsection \<open>Abstraction and invariant\<close>

text \<open>The value an entry holds.\<close>

definition entry_value :: "heap \<Rightarrow> cache_entry \<Rightarrow> (KVStoreValueType_t \<times> bytes) option" where
  "entry_value h e =
     (if ctype e = KV_TYPE_NONE then None
      else if clength e > sizeof_ptr
      then map_option (\<lambda>b. (ctype e, take (clength e) b)) (h (cunion e))
      else Some (ctype e, take (clength e) (cunion e)))"

definition cached :: "'w kv \<Rightarrow> nat \<Rightarrow> (KVStoreValueType_t \<times> bytes) option" where
  "cached kv k = Option.bind (get_entry k kv) (entry_value (kvHeap kv))"

text \<open>The heap block an entry owns.\<close>

definition owned :: "cache_entry \<Rightarrow> addr set" where
  "owned e = (if clength e > sizeof_ptr then {cunion e} else {})"

definition entry_ok :: "heap \<Rightarrow> cache_entry \<Rightarrow> bool" where
  "entry_ok h e \<longleftrightarrow>
     length (cunion e) = 4 \<and>
     (ctype e = KV_TYPE_NONE \<longrightarrow> clength e = 0 \<and> \<not> xChangePending e) \<and>
     (ctype e \<noteq> KV_TYPE_NONE \<longrightarrow> 0 < clength e \<and> clength e + 8 < 2 ^ 32) \<and>
     (clength e > sizeof_ptr \<longrightarrow>
        cunion e \<noteq> NULL \<and> (\<exists>b. h (cunion e) = Some b \<and> clength e \<le> length b))"

text \<open>
  The invariant: every entry is in order, and no two entries share a heap block.
\<close>

definition kv_inv :: "'w kv \<Rightarrow> bool" where
  "kv_inv kv \<longleftrightarrow>
     (\<forall>i < length (kvStoreCache kv). entry_ok (kvHeap kv) (kvStoreCache kv ! i)) \<and>
     (\<forall>i < length (kvStoreCache kv). \<forall>j < length (kvStoreCache kv).
        i \<noteq> j \<longrightarrow> owned (kvStoreCache kv ! i) \<inter> owned (kvStoreCache kv ! j) = {})"

subsection \<open>Writing refines map update\<close>

lemma entry_ok_value: "entry_ok h e \<Longrightarrow> ctype e \<noteq> KV_TYPE_NONE \<Longrightarrow>
  \<exists>v. entry_value h e = Some (ctype e, v) \<and> length v = clength e"
  by (auto simp: entry_ok_def entry_value_def sizeof_ptr_def min_def)

text \<open>An entry whose data area takes a value of \<open>n\<close> bytes.\<close>

definition has_room :: "cache_entry \<Rightarrow> heap \<Rightarrow> nat \<Rightarrow> bool" where
  "has_room e h n \<longleftrightarrow> clength e = n \<and> length (cunion e) = 4 \<and>
     (n > 4 \<longrightarrow> cunion e \<noteq> NULL \<and> (\<exists>b. h (cunion e) = Some b \<and> n \<le> length b))"

lemma copy_pending_room:
  assumes "has_room e h (length v)" and "xChangePending e" and "ctype e = t" and "storable t v"
  shows "\<exists>e' h'. copy_pending (length v) v (e, h) = Some (e', h') \<and> entry_ok h' e' \<and>
    entry_value h' e' = Some (t, v) \<and> owned e' = owned e \<and> (\<forall>a. a \<notin> owned e \<longrightarrow> h' a = h a) \<and>
    xChangePending e'"
proof (cases "length v > 4")
  case True
  with assms(1) obtain b where "h (cunion e) = Some b" "length v \<le> length b" "cunion e \<noteq> NULL"
    by (auto simp: has_room_def)
  with assms True show ?thesis
    by (intro exI [of _ e] exI [of _ "h(cunion e \<mapsto> v @ drop (length v) b)"])
      (simp add: has_room_def copy_pending_def pvGetDataWritePtr_def sizeof_ptr_def read_at_def
        write_at_def entry_ok_def entry_value_def storable_def owned_def)
next
  case False
  with assms show ?thesis
    by (intro exI [of _ "e\<lparr>cunion := v @ drop (length v) (cunion e)\<rparr>"] exI [of _ h])
      (simp add: has_room_def copy_pending_def pvGetDataWritePtr_def sizeof_ptr_def read_at_def
        write_at_def entry_ok_def entry_value_def storable_def owned_def)
qed

lemma allocate_room:
  assumes "fresh_allocator alloc" "4 < n \<Longrightarrow> alloc h n \<noteq> None"
  shows "\<exists>e' h'. vAllocateDataBuffer alloc n e h = (e', h') \<and> has_room e' h' n \<and>
    owned e' \<subseteq> {a. h a = None} \<and> (\<forall>a. h a \<noteq> None \<longrightarrow> h' a = h a)"
proof (cases "4 < n")
  case False
  then show ?thesis by (simp add: vAllocateDataBuffer_def has_room_def sizeof_ptr_def owned_def)
next
  case True
  with assms(2) obtain a b where ab: "alloc h n = Some (a, b)" by fastforce
  from fresh_allocatorD [OF assms(1) ab] ab show ?thesis
    by (auto simp: vAllocateDataBuffer_def has_room_def pvPortMalloc_def sizeof_ptr_def owned_def)
qed

lemma realloc_room:
  assumes "fresh_allocator alloc" "4 < n \<Longrightarrow> room alloc h n" "entry_ok h e"
  shows "\<exists>e' h'. vReallocDataBuffer alloc n e h = Some (e', h') \<and> has_room e' h' n \<and>
    owned e' \<subseteq> owned e \<union> {a. h a = None} \<and> (\<forall>a. a \<notin> owned e \<longrightarrow> h a \<noteq> None \<longrightarrow> h' a = h a)"
proof (cases "n > clength e")
  case True
  define h1 where "h1 = (if clength e > 4 then h(cunion e := None) else h)"
  from assms(3) obtain e1 where "vClearDataBuffer e h = Some (e1, h1)"
    by (cases "clength e > 4")
      (auto simp: h1_def vClearDataBuffer_def sizeof_ptr_def vPortFree_def entry_ok_def)
  note c = this h1_def
  obtain e2 h2 where a: "vAllocateDataBuffer alloc n e1 h1 = (e2, h2)" "has_room e2 h2 n"
    "owned e2 \<subseteq> {a. h1 a = None}" "\<forall>a. h1 a \<noteq> None \<longrightarrow> h2 a = h1 a"
  proof -
    have "dom h1 \<subseteq> dom h" by (auto simp: c(2) split: if_splits)
    from allocate_room [OF assms(1) roomD [OF assms(2) this], of e1] show ?thesis
      using that by blast
  qed
  have "owned e2 \<subseteq> owned e \<union> {a. h a = None}" 
    using a(3) c(2) by (auto simp: owned_def sizeof_ptr_def split: if_splits)
  moreover have "\<forall>a. a \<notin> owned e \<longrightarrow> h a \<noteq> None \<longrightarrow> h2 a = h a"
    using a(4) c(2) by (auto simp: owned_def sizeof_ptr_def split: if_splits)
  ultimately show ?thesis using True c a by (simp add: vReallocDataBuffer_def)
next
  case False
  with assms(3) show ?thesis 
    by (auto simp: vReallocDataBuffer_def has_room_def entry_ok_def sizeof_ptr_def owned_def)
qed

lemma write_entry_correct:
  assumes ok: "entry_ok h e" and fresh: "fresh_allocator alloc" and mem: "4 < length v \<Longrightarrow> room alloc h (length v)"
    and sv: "storable t v"
  shows "\<exists>e1 h1 e' h'. prepare_entry alloc t (length v) v e h = Some (e1, h1) \<and>
     copy_pending (length v) v (e1, h1) = Some (e', h') \<and>
     entry_ok h' e' \<and> entry_value h' e' = Some (t, v) \<and>
     owned e' \<subseteq> owned e \<union> {a. h a = None} \<and>
     (\<forall>a. a \<notin> owned e \<longrightarrow> h a \<noteq> None \<longrightarrow> h' a = h a) \<and>
     (xChangePending e' \<or> e' = e \<and> h' = h)"
proof -
  let ?P = "\<lambda>eh. (\<exists>e' h'. copy_pending (length v) v eh = Some (e', h') \<and>
     entry_ok h' e' \<and> entry_value h' e' = Some (t, v) \<and>
     owned e' \<subseteq> owned e \<union> {a. h a = None} \<and>
     (\<forall>a. a \<notin> owned e \<longrightarrow> h a \<noteq> None \<longrightarrow> h' a = h a) \<and>
     (xChangePending e' \<or> e' = e \<and> h' = h))"
  have step: "?P (e1\<lparr>ctype := t, xChangePending := True\<rparr>, h1)"
    if "has_room e1 h1 (length v)" "owned e1 \<subseteq> owned e \<union> {a. h a = None}"
      "\<forall>a. a \<notin> owned e \<longrightarrow> h a \<noteq> None \<longrightarrow> h1 a = h a" for e1 h1
  proof -
    let ?e = "e1\<lparr>ctype := t, xChangePending := True\<rparr>"
    have "has_room ?e h1 (length v)" "owned ?e = owned e1"
      using that(1) by (simp_all add: has_room_def owned_def)
    with copy_pending_room [of ?e h1 v t] sv obtain e' h' where c:
      "copy_pending (length v) v (?e, h1) = Some (e', h')" "entry_ok h' e'"
      "entry_value h' e' = Some (t, v)" "owned e' = owned e1" "\<forall>a. a \<notin> owned e1 \<longrightarrow> h' a = h1 a"
      "xChangePending e'"
      by auto
    have "h' a = h a" if a: "a \<notin> owned e" "h a \<noteq> None" for a
    proof -
      from a that(2) \<open>owned e1 \<subseteq> owned e \<union> {a. h a = None}\<close> have "a \<notin> owned e1" by auto
      with a c(5) \<open>\<forall>a. a \<notin> owned e \<longrightarrow> h a \<noteq> None \<longrightarrow> h1 a = h a\<close> show ?thesis by simp
    qed
    with c that(2) show ?thesis by (intro exI [of _ e'] exI [of _ h']) simp
  qed
  consider "ctype e = KV_TYPE_NONE" | "ctype e \<noteq> KV_TYPE_NONE" "clength e \<noteq> length v"
    | "ctype e \<noteq> KV_TYPE_NONE" "clength e = length v" by blast
  then show ?thesis
  proof cases
    case 1
    with ok have own: "owned e = {}" by (simp add: entry_ok_def owned_def)
    from allocate_room [OF fresh roomD [OF mem order.refl], of e] step own 1 show ?thesis
      by (auto simp: prepare_entry_def)
  next
    case 2
    from realloc_room [OF fresh mem ok] step 2 show ?thesis
      by (fastforce simp: prepare_entry_def)
  next
    case 3
    from ok 3(1) have val: "\<exists>p. pvGetDataReadPtr e = Some p \<and>
        (\<exists>w. load p (length v) e h = Some w \<and> entry_value h e = Some (ctype e, w))"
      using 3(2) by (auto simp: entry_ok_def pvGetDataReadPtr_def sizeof_ptr_def entry_value_def
          read_at_def)
    then obtain p w where p: "pvGetDataReadPtr e = Some p" "load p (length v) e h = Some w"
      "entry_value h e = Some (ctype e, w)" by auto
    have room: "has_room e h (length v)"
      using ok 3 by (auto simp: has_room_def entry_ok_def sizeof_ptr_def)
    have P: "?P (e\<lparr>ctype := t, xChangePending := True\<rparr>, h)" by (rule step [OF room]) auto
    show ?thesis
    proof (cases "ctype e = t \<and> (w = v)")
      case True
      have "?P (e, h)"
      proof (cases "xChangePending e")
        case pending: True
        with P True show ?thesis by (cases e) simp
      next
        case False
        with True p ok show ?thesis by (simp add: copy_pending_def)
      qed
      with True 3 p show ?thesis by (simp add: prepare_entry_def read_at_def)
    next
      case False
      moreover have "e\<lparr>ctype := t, xChangePending := True\<rparr> = e\<lparr>xChangePending := True\<rparr>"
        if "ctype e = t" using that by (cases e) simp
      ultimately show ?thesis using P 3 p by (auto simp: prepare_entry_def read_at_def)
    qed
  qed
qed

lemma entry_frame:
  assumes "\<forall>a \<in> owned e. h' a = h a"
  shows "entry_ok h' e = entry_ok h e" and "entry_value h' e = entry_value h e"
  using assms by (auto simp: entry_ok_def entry_value_def owned_def)

lemma entry_ok_owned: "entry_ok h e \<Longrightarrow> a \<in> owned e \<Longrightarrow> h a \<noteq> None"
  by (auto simp: entry_ok_def owned_def split: if_splits)

lemma put_entry_correct:
  assumes inv: "kv_inv kv" and k: "k < length (kvStoreCache kv)"
    and e: "e = kvStoreCache kv ! k" and ok: "entry_ok h' e'"
    and own: "owned e' \<subseteq> owned e \<union> {a. kvHeap kv a = None}"
    and frame: "\<And>a. a \<notin> owned e \<Longrightarrow> kvHeap kv a \<noteq> None \<Longrightarrow> h' a = kvHeap kv a"
  shows "kv_inv (put_entry k (e', h') kv)"
    and "cached (put_entry k (e', h') kv) = (cached kv)(k := entry_value h' e')"
proof -
  let ?c = "kvStoreCache kv"
  have other: "entry_ok h' (?c ! i) \<and> entry_value h' (?c ! i) = entry_value (kvHeap kv) (?c ! i)
      \<and> owned (?c ! i) \<inter> owned e' = {}"
    if i: "i < length ?c" "i \<noteq> k" for i
  proof -
    from inv i k have oki: "entry_ok (kvHeap kv) (?c ! i)" and dis: "owned (?c ! i) \<inter> owned e = {}"
      by (simp_all add: kv_inv_def e)
    then have "\<forall>a \<in> owned (?c ! i). h' a = kvHeap kv a"
      using frame entry_ok_owned [OF oki] by blast
    with oki dis own entry_ok_owned [OF oki] entry_frame [of "?c ! i" h' "kvHeap kv"]
    show ?thesis by blast
  qed
  show "kv_inv (put_entry k (e', h') kv)"
    unfolding kv_inv_def
  proof (intro conjI allI impI)
    fix i
    assume "i < length (kvStoreCache (put_entry k (e', h') kv))"
    then show "entry_ok (kvHeap (put_entry k (e', h') kv)) (kvStoreCache (put_entry k (e', h') kv) ! i)"
      using other [of i] ok by (cases "i = k") (simp_all add: put_entry_def)
  next
    fix i j
    assume ij: "i < length (kvStoreCache (put_entry k (e', h') kv))"
      "j < length (kvStoreCache (put_entry k (e', h') kv))" "i \<noteq> j"
    consider "i = k" | "j = k" | "i \<noteq> k" "j \<noteq> k" by blast
    then show "owned (kvStoreCache (put_entry k (e', h') kv) ! i) \<inter>
        owned (kvStoreCache (put_entry k (e', h') kv) ! j) = {}"
    proof cases
      case 3
      with ij inv show ?thesis by (simp add: put_entry_def kv_inv_def)
    qed (use ij other [of i] other [of j] in \<open>auto simp: put_entry_def\<close>)
  qed
  show "cached (put_entry k (e', h') kv) = (cached kv)(k := entry_value h' e')"
  proof
    fix i
    show "cached (put_entry k (e', h') kv) i = ((cached kv)(k := entry_value h' e')) i"
      using other [of i] k by (auto simp: cached_def put_entry_def get_entry_def)
  qed
qed

text \<open>Writing to the cache implements the update of the map from keys to typed values.\<close>

lemma write_cache:
  assumes "kv_inv kv" and k: "k < length (kvStoreCache kv)"
    and "fresh_allocator alloc" and "4 < length v \<Longrightarrow> room alloc (kvHeap kv) (length v)"
    and "storable t v" and "t \<noteq> KV_TYPE_LAST"
  shows "\<exists>kv'. xprvWriteCacheEntry alloc k t (length v) (Some v) kv = Some (True, kv') \<and>
    kv_inv kv' \<and> cached kv' = (cached kv)(k \<mapsto> (t, v)) \<and>
    kvNv kv' = kvNv kv \<and> xKvMutex kv' = xKvMutex kv \<and>
    (\<exists>e'. kvStoreCache kv' = (kvStoreCache kv)[k := e'] \<and>
       (xChangePending e' \<or> e' = kvStoreCache kv ! k \<and> cached kv k = Some (t, v)))"
proof -
  let ?e = "kvStoreCache kv ! k"
  from assms(1) k have ok: "entry_ok (kvHeap kv) ?e" by (simp add: kv_inv_def)
  from write_entry_correct [OF ok assms(3-5)] obtain e1 h1 e' h' where w:
    "prepare_entry alloc t (length v) v ?e (kvHeap kv) = Some (e1, h1)"
    "copy_pending (length v) v (e1, h1) = Some (e', h')"
    "entry_ok h' e'" "entry_value h' e' = Some (t, v)"
    "owned e' \<subseteq> owned ?e \<union> {a. kvHeap kv a = None}"
    "\<forall>a. a \<notin> owned ?e \<longrightarrow> kvHeap kv a \<noteq> None \<longrightarrow> h' a = kvHeap kv a"
    "xChangePending e' \<or> e' = ?e \<and> h' = kvHeap kv" by auto
  have "xprvWriteCacheEntry alloc k t (length v) (Some v) kv = Some (True, put_entry k (e', h') kv)"
    using w k assms(5,6) by (simp add: xprvWriteCacheEntry_def get_entry_def storable_def)
  moreover note put_entry_correct [OF assms(1) k refl w(3,5)] 
  ultimately show ?thesis using w k
    by (intro exI [of _ "put_entry k (e', h') kv"])
      (auto simp: put_entry_def cached_def get_entry_def)
qed

subsection \<open>Reading the cache\<close>

lemma copy_absent:
  assumes "k < length (kvStoreCache kv)" and "kv_inv kv" and "cached kv k = None"
  shows "xprvCopyValueFromCache k (Some buf) n kv = Some (False, None, buf)"
proof -
  from assms(1,2) have "entry_ok (kvHeap kv) (kvStoreCache kv ! k)" by (simp add: kv_inv_def)
  with assms(1,3) have "ctype (kvStoreCache kv ! k) = KV_TYPE_NONE"
    by (auto simp: cached_def get_entry_def entry_value_def entry_ok_def split: if_splits)
  with assms(1) show ?thesis
    by (simp add: xprvCopyValueFromCache_def get_entry_def pvGetDataReadPtr_def)
qed

lemma entry_load:
  assumes "entry_ok h e" and "entry_value h e = Some (t, v)" 
  shows "ctype e = t" "clength e = length v" "storable t v"
    "\<exists>p. pvGetDataReadPtr e = Some p \<and> (\<forall>n \<le> length v. load p n e h = Some (take n v))"
proof -
  from assms have t: "ctype e = t" "t \<noteq> KV_TYPE_NONE"
    by (auto simp: entry_value_def split: if_splits)
  with assms entry_ok_value [OF assms(1)] show l: "ctype e = t" "clength e = length v" by auto
  with t assms(1) show "storable t v" by (auto simp: entry_ok_def storable_def)
  show "\<exists>p. pvGetDataReadPtr e = Some p \<and> (\<forall>n \<le> length v. load p n e h = Some (take n v))"
  proof (cases "clength e > 4")
    case True
    with assms t l obtain b where "h (cunion e) = Some b" "length v \<le> length b" "v = take (length v) b"
        "cunion e \<noteq> NULL"
      by (auto simp: entry_ok_def entry_value_def sizeof_ptr_def)
    moreover from this have "take n v = take n b" if "n \<le> length v" for n
      using that by (metis min.absorb1 take_take)
    ultimately show ?thesis using True t l(1)
      by (intro exI [of _ "Block (cunion e)"])
        (auto simp: pvGetDataReadPtr_def sizeof_ptr_def read_at_def)
  next
    case False
    with assms t l have v: "v = take (length v) (cunion e)" "length (cunion e) = 4"
      by (auto simp: entry_ok_def entry_value_def sizeof_ptr_def)
    then have "take n v = take n (cunion e)" if "n \<le> length v" for n
      using that by (metis min.absorb1 take_take)
    with False v t l(1,2) show ?thesis
      by (intro exI [of _ Inline]) (auto simp: pvGetDataReadPtr_def sizeof_ptr_def read_at_def)
  qed
qed

lemma cached_entry:
  assumes "kv_inv kv" and "cached kv k = Some (t, v)"
  shows "k < length (kvStoreCache kv)" "entry_ok (kvHeap kv) (kvStoreCache kv ! k)"
    "entry_value (kvHeap kv) (kvStoreCache kv ! k) = Some (t, v)"
  using assms by (auto simp: cached_def get_entry_def kv_inv_def split: if_splits)

lemma copy_present:
  assumes "kv_inv kv" and "cached kv k = Some (t, v)" and "min n (length v) \<le> length buf"
  shows "xprvCopyValueFromCache k (Some buf) n kv =
    Some (0 < n, Some (t, length v), take n v @ drop (min n (length v)) buf)"
proof -
  note c = cached_entry [OF assms(1,2)]
  note l = entry_load [OF c(2,3)]
  from l(3) have "0 < length v" by (simp add: storable_def)
  with l c(1) assms(3) show ?thesis
    by (auto simp: xprvCopyValueFromCache_def get_entry_def write_at_def min_def Let_def)
qed

text \<open>The data area of an entry holds \<open>v\<close>.\<close>

definition room_holds :: "cache_entry \<Rightarrow> heap \<Rightarrow> bytes \<Rightarrow> bool" where
  "room_holds e h v \<longleftrightarrow>
     (if length v > 4 then \<exists>b. h (cunion e) = Some b \<and> take (length v) b = v
      else take (length v) (cunion e) = v)"

lemma store_room:
  assumes "has_room e h (length v)"
  shows "\<exists>p buf e' h'. pvGetDataWritePtr e = Some p \<and>
    load p (length v) e h = Some buf \<and> length buf = length v \<and>
    store p v e h = Some (e', h') \<and> has_room e' h' (length v) \<and> room_holds e' h' v \<and>
    ctype e' = ctype e \<and> xChangePending e' = xChangePending e \<and> owned e' = owned e \<and> (\<forall>a. a \<notin> owned e \<longrightarrow> h' a = h a)"
proof (cases "length v > 4")
  case True
  with assms obtain b where "h (cunion e) = Some b" "length v \<le> length b" "cunion e \<noteq> NULL"
    by (auto simp: has_room_def)
  with assms True show ?thesis
    by (intro exI [of _ "Block (cunion e)"] exI [of _ "take (length v) b"] exI [of _ e]
        exI [of _ "h(cunion e \<mapsto> v @ drop (length v) b)"])
      (simp add: has_room_def pvGetDataWritePtr_def sizeof_ptr_def read_at_def write_at_def
        owned_def room_holds_def)
next
  case False
  with assms show ?thesis
    by (intro exI [of _ Inline] exI [of _ "take (length v) (cunion e)"]
        exI [of _ "e\<lparr>cunion := v @ drop (length v) (cunion e)\<rparr>"] exI [of _ h])
      (simp add: has_room_def pvGetDataWritePtr_def sizeof_ptr_def read_at_def write_at_def
        owned_def room_holds_def)
qed

lemma room_holds_value:
  assumes "has_room e h (length v)" and "room_holds e h v" and "storable t v" and "ctype e = t"
  shows "entry_ok h e" and "entry_value h e = Some (t, v)"
  using assms by (auto simp: has_room_def room_holds_def entry_ok_def entry_value_def storable_def
      sizeof_ptr_def split: if_splits)

lemma store_dom: "store p v e h = Some (e', h') \<Longrightarrow> dom h' = dom h"
  by (cases p) (auto simp: dom_def split: if_splits)

subsection \<open>Start-up and commit\<close>

definition zero_entry :: cache_entry where
  "zero_entry = \<lparr>ctype = KV_TYPE_NONE, clength = 0, cunion = [0, 0, 0, 0], xChangePending = False\<rparr>"

definition booted :: "nat \<Rightarrow> 'w \<Rightarrow> 'w kv" where
  "booted n w = \<lparr>kvStoreCache = replicate n zero_entry, kvHeap = Map.empty, kvNv = w, xKvMutex = Absent\<rparr>"

lemma booted_inv: "kv_inv (booted n w)"
  by (auto simp: kv_inv_def booted_def zero_entry_def entry_ok_def owned_def sizeof_ptr_def)

definition pending :: "'w kv \<Rightarrow> nat \<Rightarrow> bool" where
  "pending kv k = xChangePending (kvStoreCache kv ! k)"

context nv_backend
begin

definition synced :: "'w kv \<Rightarrow> bool" where
  "synced kv \<longleftrightarrow> kv_inv kv \<and> wf (kvNv kv) \<and> length (kvStoreCache kv) = num_keys \<and>
     (\<forall>k < num_keys. pending kv k \<or> cached kv k = stored (kvNv kv) k)"

lemma init_entry:
  assumes "fresh_allocator alloc" "\<And>n. n < 2 ^ 32 \<Longrightarrow> alloc (kvHeap kv) n \<noteq> None"
    and "kv_inv kv" "wf (kvNv kv)" "length (kvStoreCache kv) = num_keys" "i < num_keys"
    and zero: "kvStoreCache kv ! i = zero_entry"
  shows "\<exists>e' h'. cache_init_entry alloc impl i kv = Some (put_entry i (e', h') kv) \<and>
    kv_inv (put_entry i (e', h') kv) \<and> \<not> xChangePending e' \<and>
    (\<exists>a. dom h' \<subseteq> insert a (dom (kvHeap kv))) \<and>
    cached (put_entry i (e', h') kv) = (cached kv)(i := stored (kvNv kv) i)"
proof (cases "stored (kvNv kv) i")
  case None
  from length_absent [OF assms(4,6) None] assms
  have "cache_init_entry alloc impl i kv = Some (put_entry i (zero_entry, kvHeap kv) kv)"
    by (simp add: cache_init_entry_def get_entry_def zero_entry_def)
  moreover have "put_entry i (zero_entry, kvHeap kv) kv = kv"
    unfolding put_entry_def zero [symmetric] by (simp add: list_update_id)
  moreover have "cached kv i = None"
    using assms by (simp add: cached_def get_entry_def entry_value_def zero_entry_def)
  ultimately show ?thesis using None assms(3)
    by (intro exI [of _ zero_entry] exI [of _ "kvHeap kv"]) (auto simp: zero_entry_def fun_eq_iff)
next
  case (Some tv)
  obtain t v where tv: "tv = (t, v)" by (cases tv)
  note st = Some [unfolded tv]
  note sv = stored_storable [OF assms(4,6) st]
  obtain e1 h1 where a: "vAllocateDataBuffer alloc (length v) zero_entry (kvHeap kv) = (e1, h1)"
    "has_room e1 h1 (length v)" "owned e1 \<subseteq> {a. kvHeap kv a = None}"
    "\<forall>a. kvHeap kv a \<noteq> None \<longrightarrow> h1 a = kvHeap kv a"
    using allocate_room [OF assms(1,2), of "length v" zero_entry] sv by (auto simp: storable_def)
  have dom: "\<exists>a. dom h1 \<subseteq> insert a (dom (kvHeap kv))"
    using a(1) by (auto simp: vAllocateDataBuffer_def pvPortMalloc_def split: if_splits prod.splits option.splits)
  have np: "\<not> xChangePending e1" "ctype e1 = KV_TYPE_NONE" "owned zero_entry = {}"
    using a(1) by (auto simp: vAllocateDataBuffer_def zero_entry_def owned_def pvPortMalloc_def split: if_splits prod.splits)
  obtain p buf e2 h2 where s: "pvGetDataWritePtr e1 = Some p"
    "load p (length v) e1 h1 = Some buf" "length buf = length v"
    "store p v e1 h1 = Some (e2, h2)" "has_room e2 h2 (length v)" "room_holds e2 h2 v"
    "ctype e2 = ctype e1 \<and> xChangePending e2 = xChangePending e1" "owned e2 = owned e1" "\<forall>a. a \<notin> owned e1 \<longrightarrow> h2 a = h1 a"
    using store_room [OF a(2)] by blast
  let ?e = "e2\<lparr>ctype := t, clength := length v\<rparr>"
  have l: "clength e1 = length v" using a(2) by (simp add: has_room_def)
  have e2: "ctype e2 = KV_TYPE_NONE" "\<not> xChangePending e2" "clength e2 = length v"
    using s(5,7) np by (simp_all add: has_room_def)
  then have own: "owned ?e = owned e2" by (simp add: owned_def)
  have val: "entry_ok h2 ?e" "entry_value h2 ?e = Some (t, v)"
    using room_holds_value [of ?e h2 v t] s(5,6) sv by (simp_all add: has_room_def room_holds_def)
  have "cache_init_entry alloc impl i kv = Some (put_entry i (?e, h2) kv)"
    using assms zero a(1) s l sv read_stored [OF assms(4,6) st, of buf] 
      length_stored [OF assms(4,6) st]
    by (simp add: cache_init_entry_def get_entry_def zero_entry_def storable_def)
  moreover have frame: "h2 a = kvHeap kv a" if "kvHeap kv a \<noteq> None" for a
    using that a(3,4) s(9) by (metis (mono_tags, lifting) mem_Collect_eq subsetD)
  moreover note put_entry_correct [OF assms(3) _ refl val(1), of i] assms(5,6) zero a(3) s(8) own
  ultimately show ?thesis using e2 val(2) st dom store_dom [OF s(4)]
    by (intro exI [of _ ?e] exI [of _ h2]) (simp add: le_supI2)
qed

text \<open>A power-up loads what the backend stores, and nothing is pending.\<close>

lemma init_boot:
  assumes "fresh_allocator alloc" "enough_memory alloc num_keys" "wf w"
  shows "\<exists>kv'. vprvCacheInit alloc impl ((booted num_keys w)\<lparr>xKvMutex := m\<rparr>) = Some kv' \<and> synced kv' \<and>
    (\<forall>k < num_keys. cached kv' k = stored w k \<and> \<not> pending kv' k) \<and>
    kvNv kv' = w \<and> xKvMutex kv' = m \<and>
    finite (dom (kvHeap kv')) \<and> card (dom (kvHeap kv')) \<le> num_keys"
proof -
  let ?I = "\<lambda>i kv. finite (dom (kvHeap kv)) \<and> card (dom (kvHeap kv)) \<le> i \<and>
    kv_inv kv \<and> kvNv kv = w \<and> xKvMutex kv = m \<and> length (kvStoreCache kv) = num_keys \<and>
    (\<forall>j < i. cached kv j = stored w j \<and> \<not> pending kv j) \<and>
    (\<forall>j. i \<le> j \<and> j < num_keys \<longrightarrow> kvStoreCache kv ! j = zero_entry)"
  have "\<exists>kv'. for_each [0..<num_keys] (cache_init_entry alloc impl)
      ((booted num_keys w)\<lparr>xKvMutex := m\<rparr>) = Some kv' \<and> ?I num_keys kv'"
  proof (rule for_each_upt [where I = ?I])
    show "?I 0 ((booted num_keys w)\<lparr>xKvMutex := m\<rparr>)"
      using booted_inv [of num_keys w] by (simp add: booted_def kv_inv_def)
  next
    fix i kv
    assume i: "i < num_keys" and I: "?I i kv"
    have mem: "alloc (kvHeap kv) n \<noteq> None" if "n < 2 ^ 32" for n
      using assms(2) i I that by (auto simp: enough_memory_def)
    from i I assms init_entry [OF assms(1) mem, of i] obtain e' h' a where
      step: "cache_init_entry alloc impl i kv = Some (put_entry i (e', h') kv)"
      "kv_inv (put_entry i (e', h') kv)" "\<not> xChangePending e'"
      "dom h' \<subseteq> insert a (dom (kvHeap kv))"
      "cached (put_entry i (e', h') kv) = (cached kv)(i := stored w i)" by auto
    have "finite (dom h') \<and> card (dom h') \<le> Suc i"
      using I finite_subset [OF step(4)] card_mono [OF _ step(4)] card_insert_le_m1
      by (auto simp: card_insert_if intro: le_SucI split: if_splits)
    with step i I show "\<exists>kv'. cache_init_entry alloc impl i kv = Some kv' \<and> ?I (Suc i) kv'"
      by (intro exI [of _ "put_entry i (e', h') kv"])
        (auto simp: put_entry_def pending_def nth_list_update)
  qed
  then show ?thesis using assms(3) by (auto simp: vprvCacheInit_def booted_def synced_def)
qed

lemma write_synced:
  assumes "synced kv" and "k < num_keys"
    and "fresh_allocator alloc" and "4 < length v \<Longrightarrow> room alloc (kvHeap kv) (length v)"
    and "storable t v" and "t \<noteq> KV_TYPE_LAST"
  shows "\<exists>kv'. xprvWriteCacheEntry alloc k t (length v) (Some v) kv = Some (True, kv') \<and>
    synced kv' \<and> cached kv' = (cached kv)(k \<mapsto> (t, v)) \<and> xKvMutex kv' = xKvMutex kv"
proof -
  from assms have "kv_inv kv" "k < length (kvStoreCache kv)" by (simp_all add: synced_def)
  from write_cache [OF this assms(3-6)] obtain kv' e' where w:
    "xprvWriteCacheEntry alloc k t (length v) (Some v) kv = Some (True, kv')" "kv_inv kv'"
    "cached kv' = (cached kv)(k \<mapsto> (t, v))" "kvNv kv' = kvNv kv" "xKvMutex kv' = xKvMutex kv"
    "kvStoreCache kv' = (kvStoreCache kv)[k := e']"
    "xChangePending e' \<or> e' = kvStoreCache kv ! k \<and> cached kv k = Some (t, v)" by auto
  then have "synced kv'" using assms(1,2)
    by (auto simp: synced_def pending_def nth_list_update)
  with w show ?thesis by blast
qed

subsubsection \<open>Commit\<close>

lemma commit_step:
  assumes "synced kv" and "i < num_keys"
  shows "\<exists>ok h w. commit_entry impl i (s, kv) = Some (ok, kv\<lparr>kvHeap := h, kvNv := w\<rparr>) \<and>
    h = kvHeap kv \<and> wf w \<and> (ok \<longrightarrow> s \<and> stored w i = cached kv i) \<and>
    (\<forall>j. j \<noteq> i \<longrightarrow> stored w j = stored (kvNv kv) j) \<and>
    (pending kv i \<or> stored w i = cached kv i)"
proof (cases "pending kv i")
  case False
  with assms show ?thesis
    by (intro exI [of _ s] exI [of _ "kvHeap kv"] exI [of _ "kvNv kv"])
      (auto simp: commit_entry_def get_entry_def synced_def pending_def)
next
  case True
  let ?e = "kvStoreCache kv ! i"
  from assms have ok: "entry_ok (kvHeap kv) ?e" and i: "i < length (kvStoreCache kv)"
    by (simp_all add: synced_def kv_inv_def)
  with True have "ctype ?e \<noteq> KV_TYPE_NONE" by (auto simp: entry_ok_def pending_def)
  with entry_ok_value [OF ok] obtain t v where val: "entry_value (kvHeap kv) ?e = Some (t, v)" by auto
  note l = entry_load [OF ok val]
  from l(4) obtain p where p: "pvGetDataReadPtr ?e = Some p" "load p (length v) ?e (kvHeap kv) = Some v"
    by fastforce
  have wf: "wf (kvNv kv)" using assms(1) by (simp add: synced_def)
  from write_total [OF wf assms(2) l(3)] obtain r h w where
    wr: "xprvWriteValueToImpl impl i t (length v) (Some v) (kvHeap kv) (kvNv kv) = Some (r, h, w)" by blast
  from write_stored [OF wf assms(2) l(3) wr] write_heap [OF wr] True i l p wr val
  show ?thesis
    by (intro exI [of _ "s \<and> r"] exI [of _ h] exI [of _ w])
      (auto simp: commit_entry_def get_entry_def pending_def cached_def)
qed

text \<open>
  A commit returns, leaves the cache as it is, and when it reports success the backend holds
  the cached value of every key.
\<close>

lemma commit_correct:
  assumes "synced kv"
  shows "\<exists>ok kv'. KVStore_xCommitChanges impl kv = Some (ok, kv') \<and> synced kv' \<and>
    cached kv' = cached kv \<and> kvStoreCache kv' = kvStoreCache kv \<and> xKvMutex kv' = xKvMutex kv \<and>
    (ok \<longrightarrow> (\<forall>k < num_keys. stored (kvNv kv') k = cached kv k))"
proof -
  let ?I = "\<lambda>i (ok, s). \<exists>w. s = kv\<lparr>kvNv := w\<rparr> \<and> synced s \<and>
     (ok \<longrightarrow> (\<forall>j < i. stored w j = cached kv j))"
  have same: "cached (kv\<lparr>kvNv := w\<rparr>) = cached kv" "pending (kv\<lparr>kvNv := w\<rparr>) = pending kv" for w
    by (simp_all add: cached_def pending_def get_entry_def fun_eq_iff)
  have "\<exists>s'. for_each [0..<num_keys] (commit_entry impl) (True, kv) = Some s' \<and> ?I num_keys s'"
  proof (rule for_each_upt [where I = ?I])
    show "?I 0 (True, kv)" using assms by (auto intro!: exI [of _ "kvNv kv"])
  next
    fix i s
    assume i: "i < num_keys" and I: "?I i s"
    then obtain ok w where s: "s = (ok, kv\<lparr>kvNv := w\<rparr>)" and sy: "synced (kv\<lparr>kvNv := w\<rparr>)"
      and dn: "ok \<longrightarrow> (\<forall>j < i. stored w j = cached kv j)" by auto
    from commit_step [OF sy i, of ok] obtain ok' h' w' where st:
      "commit_entry impl i s = Some (ok', kv\<lparr>kvHeap := h', kvNv := w'\<rparr>)"
      "h' = kvHeap kv" "wf w'" "ok' \<longrightarrow> ok \<and> stored w' i = cached kv i"
      "\<forall>j. j \<noteq> i \<longrightarrow> stored w' j = stored w j" "pending kv i \<or> stored w' i = cached kv i"
      by (auto simp: s same)
    have kv: "kv\<lparr>kvHeap := h', kvNv := w'\<rparr> = kv\<lparr>kvNv := w'\<rparr>" using st(2) by simp
    have "pending kv k \<or> cached kv k = stored w' k" if "k < num_keys" for k
      using that sy st(5,6) by (cases "k = i") (auto simp: synced_def same)
    then have "synced (kv\<lparr>kvNv := w'\<rparr>)"
      using sy st(3) by (auto simp: synced_def same kv_inv_def)
    moreover have "\<forall>j < Suc i. stored w' j = cached kv j" if ok'
      using that st(4,5) dn by (auto simp: less_Suc_eq)
    ultimately show "\<exists>s'. commit_entry impl i s = Some s' \<and> ?I (Suc i) s'"
      using st(1) kv by (intro exI [of _ "(ok', kv\<lparr>kvNv := w'\<rparr>)"]) auto
  qed
  then show ?thesis using assms same
    by (auto simp: KVStore_xCommitChanges_def synced_def)
qed

end

subsection \<open>Properties\<close>

text \<open>
  C10: writing to the cache (xprvWriteCacheEntry) implements the update of the map from keys to
  typed values: whenever the allocator has room for the value it succeeds, keeps the invariant
  (entries in order, no heap block shared), changes no other key, does not touch the
  non-volatile store, and marks the entry pending unless it already held the value.
\<close>

theorem xprvWriteCacheEntry_refines:
  assumes "kv_inv kv" and "k < length (kvStoreCache kv)"
    and "fresh_allocator alloc" and "4 < length v \<Longrightarrow> room alloc (kvHeap kv) (length v)"
    and "storable t v" and "t \<noteq> KV_TYPE_LAST"
  shows "\<exists>kv'. xprvWriteCacheEntry alloc k t (length v) (Some v) kv = Some (True, kv') \<and>
    kv_inv kv' \<and> cached kv' = (cached kv)(k \<mapsto> (t, v)) \<and>
    kvNv kv' = kvNv kv \<and> xKvMutex kv' = xKvMutex kv \<and>
    (\<exists>e'. kvStoreCache kv' = (kvStoreCache kv)[k := e'] \<and>
       (xChangePending e' \<or> e' = kvStoreCache kv ! k \<and> cached kv k = Some (t, v)))"
  using assms by (rule write_cache)

lemma booted_room: "n < 2 ^ 32 \<Longrightarrow> room first_fit (kvHeap (booted m w)) n"
  by (rule enough_memory_room [OF first_fit_room]) (simp_all add: booted_def)

theorem xprvWriteCacheEntry_refines_witness:
  "\<exists>kv'. xprvWriteCacheEntry first_fit 2 KV_TYPE_STRING (length (ascii ''broker'')) (Some (ascii ''broker''))
      (booted 6 ()) = Some (True, kv') \<and> cached kv' 2 = Some (KV_TYPE_STRING, ascii ''broker'')"
proof -
  have "2 < length (kvStoreCache (booted 6 ()))"
    "storable KV_TYPE_STRING (ascii ''broker'')" "KV_TYPE_STRING \<noteq> KV_TYPE_LAST"
    by (simp_all add: booted_def storable_def ascii_def)
  from xprvWriteCacheEntry_refines [OF booted_inv this(1) first_fit_fresh booted_room this(2,3)]
  show ?thesis by fastforce
qed

text \<open>
  C18: copying out of the cache (xprvCopyValueFromCache) reports type, full length and the longest
  prefix of the value that fits the buffer, leaves the rest of the buffer alone, and reports
  failure without touching its outputs exactly when the key holds no value.
\<close>

theorem xprvCopyValueFromCache_correct:
  assumes "kv_inv kv" and "k < length (kvStoreCache kv)" and "0 < n" and "n \<le> length buf"
  shows "xprvCopyValueFromCache k (Some buf) n kv =
    (case cached kv k of
       None \<Rightarrow> Some (False, None, buf)
     | Some (t, v) \<Rightarrow> Some (True, Some (t, length v), take n v @ drop (min n (length v)) buf))"
  using assms copy_absent [of k kv buf n] copy_present [of kv k _ _ n buf]
  by (auto split: option.split)

theorem xprvCopyValueFromCache_correct_witness:
  "xprvCopyValueFromCache 3 (Some [7, 7, 7]) 2 (booted 6 ()) = Some (False, None, [7, 7, 7])"
proof -
  have "cached (booted 6 ()) 3 = None"
    by (simp add: cached_def get_entry_def booted_def entry_value_def zero_entry_def)
  then show ?thesis
    using xprvCopyValueFromCache_correct [OF booted_inv, of 3 6 "()" 2 "[7, 7, 7]"]
    by (simp add: booted_def)
qed

text \<open>
  The heap block of a value that shrinks to the size of a pointer or less is lost: the union
  that held its address is overwritten by the value, and nothing else refers to it.
\<close>

lemma vReallocDataBuffer_leak:
  "\<exists>kv1 kv2. xprvWriteCacheEntry first_fit 0 KV_TYPE_STRING 5 (Some (ascii ''hello'')) (booted 6 ()) = Some (True, kv1) \<and>
     xprvWriteCacheEntry first_fit 0 KV_TYPE_STRING 2 (Some (ascii ''hi'')) kv1 = Some (True, kv2) \<and>
     dom (kvHeap kv2) \<noteq> {} \<and> (\<forall>e \<in> set (kvStoreCache kv2). owned e = {})"
proof -
  define hello where "hello = ascii ''hello''"
  define hi where "hi = ascii ''hi''"
  have l: "length hello = 5" "length hi = 2" by (simp_all add: hello_def hi_def)
  have ff: "first_fit Map.empty 5 = Some (le32 1, replicate 5 165)"
    by (simp add: first_fit_def upt_conv_Cons)
  have nn: "le32 1 \<noteq> NULL" by (simp add: NULL_le32 le32_inject)
  let ?kv1 = "(booted 6 ())\<lparr>kvStoreCache := (replicate 6 zero_entry)[0 :=
      \<lparr>ctype = KV_TYPE_STRING, clength = 5, cunion = le32 1, xChangePending = True\<rparr>],
      kvHeap := [le32 1 \<mapsto> hello]\<rparr>"
  let ?kv2 = "?kv1\<lparr>kvStoreCache := (replicate 6 zero_entry)[0 :=
      \<lparr>ctype = KV_TYPE_STRING, clength = 2, cunion = hi @ drop 2 (le32 1), xChangePending = True\<rparr>]\<rparr>"
  have "xprvWriteCacheEntry first_fit 0 KV_TYPE_STRING 5 (Some hello) (booted 6 ()) = Some (True, ?kv1)"
    using l nn
    by (simp add: xprvWriteCacheEntry_def get_entry_def booted_def prepare_entry_def zero_entry_def
        vAllocateDataBuffer_def sizeof_ptr_def pvPortMalloc_def ff copy_pending_def
        pvGetDataWritePtr_def read_at_def write_at_def put_entry_def)
  moreover have "xprvWriteCacheEntry first_fit 0 KV_TYPE_STRING 2 (Some hi) ?kv1 = Some (True, ?kv2)"
    using l nn
    by (simp add: xprvWriteCacheEntry_def get_entry_def booted_def prepare_entry_def
        vReallocDataBuffer_def sizeof_ptr_def copy_pending_def
        pvGetDataWritePtr_def read_at_def write_at_def put_entry_def numeral_2_eq_2)
  moreover have "dom (kvHeap ?kv2) \<noteq> {}" by simp
  moreover have "\<forall>e \<in> set (kvStoreCache ?kv2). owned e = {}"
    by (auto simp: owned_def sizeof_ptr_def zero_entry_def dest: set_update_subset_insert [THEN subsetD])
  ultimately show ?thesis unfolding hello_def hi_def by blast
qed

end
