(* ===== verification/CStrings.thy ===== *)
theory CStrings
  imports Prelude
begin

text \<open>
  C strings: the functions of the C library the program calls on them, and the three it brings
  itself (provision/libc: strnlen, strnstr, stpncpy). A pointer to a string is the list of the
  elements of the buffer from that address on; reading past its end is \<open>None\<close>.
\<close>

subsection \<open>The C library\<close>

fun strlen :: "bytes \<Rightarrow> nat option" where
  "strlen [] = None"
| "strlen (c # cs) = (if c = 0 then Some 0 else map_option Suc (strlen cs))"

text \<open>\<open>strcmp (a, b) == 0\<close>: stops at the first difference or at the common terminator.\<close>

fun strcmp_eq :: "bytes \<Rightarrow> bytes \<Rightarrow> bool option" where
  "strcmp_eq (a # as) (b # bs) =
     (if a \<noteq> b then Some False else if a = 0 then Some True else strcmp_eq as bs)"
| "strcmp_eq _ _ = None"

text \<open>\<open>strncmp (a, b, n) == 0\<close>.\<close>

fun strncmp_eq :: "bytes \<Rightarrow> bytes \<Rightarrow> nat \<Rightarrow> bool option" where
  "strncmp_eq as bs 0 = Some True"
| "strncmp_eq (a # as) (b # bs) (Suc n) =
     (if a \<noteq> b then Some False else if a = 0 then Some True else strncmp_eq as bs n)"
| "strncmp_eq _ _ (Suc n) = None"

text \<open>
  \<open>memcmp (a, b, n) == 0\<close> where one of the objects may be shorter than \<open>n\<close>: the comparison stops at
  the first difference, as implementations do. (The standard asks for two objects of \<open>n\<close> bytes;
  \<open>mem_eq\<close> is that reading.)
\<close>

fun memcmp_eq :: "bytes \<Rightarrow> bytes \<Rightarrow> nat \<Rightarrow> bool option" where
  "memcmp_eq as bs 0 = Some True"
| "memcmp_eq (a # as) (b # bs) (Suc n) = (if a \<noteq> b then Some False else memcmp_eq as bs n)"
| "memcmp_eq _ _ (Suc n) = None"

text \<open>
  The string a buffer holds: the bytes before the first zero. A buffer is terminated when it
  has a zero.
\<close>

definition c_str :: "bytes \<Rightarrow> bytes" where
  "c_str b = takeWhile (\<lambda>c. c \<noteq> 0) b"

definition terminated :: "bytes \<Rightarrow> bool" where
  "terminated b = (0 \<in> set b)"

lemma c_str_Nil [simp]: "c_str [] = []"
  by (simp add: c_str_def)

lemma c_str_Cons [simp]: "c_str (c # cs) = (if c = 0 then [] else c # c_str cs)"
  by (simp add: c_str_def)

lemma terminated_Nil [simp]: "\<not> terminated []"
  by (simp add: terminated_def)

lemma terminated_Cons [simp]: "terminated (c # cs) = (c = 0 \<or> terminated cs)"
  by (auto simp: terminated_def)

lemma strlen_terminated: "terminated b \<Longrightarrow> strlen b = Some (length (c_str b))"
  by (induction b) auto

lemma strlen_Some_iff: "(strlen b = Some n) = (terminated b \<and> n = length (c_str b))"
  by (induction b arbitrary: n) auto

lemma strcmp_eq_terminated:
  "terminated a \<Longrightarrow> terminated b \<Longrightarrow> strcmp_eq a b = Some (c_str a = c_str b)"
  by (induction a b rule: strcmp_eq.induct) auto

lemma c_str_no_zero: "0 \<notin> set (c_str b)"
  by (induction b) auto

lemma terminated_split: "terminated b \<Longrightarrow> \<exists>r. b = c_str b @ 0 # r"
  by (induction b) auto

lemma c_str_le: "length (c_str b) \<le> length b"
  by (simp add: c_str_def length_takeWhile_le)

lemma terminated_less: "terminated b \<Longrightarrow> length (c_str b) < length b"
  by (induction b) auto

lemma c_str_append_zero: "0 \<notin> set s \<Longrightarrow> c_str (s @ 0 # r) = s"
  by (induction s) auto

lemma c_str_nth: "i < length (c_str b) \<Longrightarrow> b ! i = c_str b ! i \<and> b ! i \<noteq> 0"
  using nth_mem [of i "c_str b"] c_str_no_zero [of b] by (auto simp: c_str_def takeWhile_nth)

lemma strncmp_eq_prefix:
  "terminated a \<Longrightarrow> terminated b \<Longrightarrow> n \<le> length (c_str b) \<Longrightarrow>
   strncmp_eq a b n = Some (take n (c_str a) = take n (c_str b))"
proof (induction a b n rule: strncmp_eq.induct)
  case (2 a as b bs n)
  then show ?case by (auto split: if_splits)
qed auto

lemma memcmp_eq_mem_eq: "mem_eq a b n = Some r \<Longrightarrow> memcmp_eq a b n = Some r"
proof (induction a b n arbitrary: r rule: memcmp_eq.induct)
  case (2 a as b bs n)
  then show ?case by auto
qed auto

text \<open>A label of \<open>n\<close> bytes, of which only the last may be the terminator, against a string.\<close>

lemma memcmp_eq_label:
  "n \<le> length a \<Longrightarrow> 0 \<notin> set (take (n - 1) a) \<Longrightarrow> terminated b \<Longrightarrow>
   memcmp_eq a b n = Some (take n a = take n b)"
proof (induction a b n rule: memcmp_eq.induct)
  case (2 a as b bs n)
  show ?case
  proof (cases n)
    case 0
    then show ?thesis by simp
  next
    case (Suc m)
    with 2 show ?thesis by auto
  qed
qed auto

lemma c_str_c_literal: "\<forall>c \<in> set s. of_char c \<noteq> (0::u8) \<Longrightarrow> c_str (c_literal s) = ascii s"
  unfolding c_literal_def ascii_def by (subst c_str_append_zero) auto

lemma terminated_c_literal [simp]: "terminated (c_literal s)"
  by (simp add: c_literal_def terminated_def)

subsection \<open>strnlen.c\<close>

text \<open>The loop of \<open>strnlen\<close> from index \<open>i\<close>.\<close>

function strnlen_from :: "bytes \<Rightarrow> nat \<Rightarrow> nat \<Rightarrow> nat option" where
  "strnlen_from s maxlen i =
     (if i < maxlen
      then if i < length s
           then if s ! i = 0 then Some i else strnlen_from s maxlen (Suc i)
           else None
      else Some i)"
  by pat_completeness auto
termination by (relation "measure (\<lambda>(s, maxlen, i). maxlen - i)") auto

declare strnlen_from.simps [simp del]

definition strnlen :: "bytes \<Rightarrow> nat \<Rightarrow> nat option" where
  "strnlen s maxlen = strnlen_from s maxlen 0"

lemma strnlen_from_spec:
  assumes "terminated s \<or> maxlen \<le> length s" and "i \<le> length (c_str s)" and "i \<le> maxlen"
  shows "strnlen_from s maxlen i = Some (min maxlen (length (c_str s)))"
  using assms
proof (induction s maxlen i rule: strnlen_from.induct)
  case (1 s maxlen i)
  note IH = "1.IH" and pre = "1.prems"
  show ?case
  proof (cases "i < maxlen \<and> i < length (c_str s)")
    case True
    then have nz: "i < length s" "s ! i \<noteq> 0"
      using c_str_nth [of i s] c_str_le [of s] by auto
    with True pre IH show ?thesis by (subst strnlen_from.simps) auto
  next
    case False
    have "i < length s \<and> s ! i = 0" if "i < maxlen"
    proof -
      from that False pre have i: "i = length (c_str s)" by simp
      have "terminated s"
      proof (rule ccontr)
        assume "\<not> terminated s"
        then have "c_str s = s" by (simp add: c_str_def terminated_def takeWhile_eq_all_conv)
            (metis)
        with i that pre(1) \<open>\<not> terminated s\<close> show False by auto
      qed
      then show ?thesis using i terminated_split [of s] terminated_less [of s]
        by (metis nth_append_length)
    qed
    with False pre show ?thesis by (subst strnlen_from.simps) auto
  qed
qed

text \<open>
  Strnlen returns the length of the string, but never more than its limit, and it reads
  nothing behind the limit: the buffer needs no terminator within it.
\<close>

theorem strnlen_correct:
  assumes "terminated s \<or> maxlen \<le> length s"
  shows "strnlen s maxlen = Some (min maxlen (length (c_str s)))"
  unfolding strnlen_def by (rule strnlen_from_spec) (use assms in auto)

theorem strnlen_correct_witness:
  "strnlen [104, 105, 33] 2 = Some (min 2 (length (c_str [104, 105, 33])))"
  by (rule strnlen_correct) simp

subsection \<open>strnstr.c\<close>

text \<open>
  The search loop: \<open>c\<close> is the first byte of the needle, \<open>needle\<close> the rest of it
  (of length \<open>len\<close>), \<open>i\<close> the offset of the pointer \<open>s\<close>. The two nested
  do-loops go on at the same statement, so they are one loop. The result is the offset of the
  match, or no offset for \<open>NULL\<close>. Each turn uses up one of \<open>slen\<close>.
\<close>

fun strnstr_loop :: "bytes \<Rightarrow> u8 \<Rightarrow> bytes \<Rightarrow> nat \<Rightarrow> nat \<Rightarrow> nat \<Rightarrow> nat option option" where
  "strnstr_loop s c needle len i 0 = Some None"
| "strnstr_loop s c needle len i (Suc slen) =
     (if length s \<le> i then None
      else if s ! i = 0 then Some None
      else if s ! i \<noteq> c then strnstr_loop s c needle len (Suc i) slen
      else if len > slen then Some None
      else case strncmp_eq (drop (Suc i) s) needle len of
             None \<Rightarrow> None
           | Some True \<Rightarrow> Some (Some i)
           | Some False \<Rightarrow> strnstr_loop s c needle len (Suc i) slen)"

definition strnstr :: "bytes \<Rightarrow> bytes \<Rightarrow> nat \<Rightarrow> nat option option" where
  "strnstr s needle slen =
     (case needle of
        [] \<Rightarrow> None
      | c # needle' \<Rightarrow>
          if c \<noteq> 0
          then do { len \<leftarrow> strlen needle'; strnstr_loop s c needle' len 0 slen }
          else Some (Some 0))"

text \<open>An occurrence of the needle at offset \<open>j\<close> within the first \<open>slen\<close> bytes.\<close>

definition occurs_at :: "bytes \<Rightarrow> bytes \<Rightarrow> nat \<Rightarrow> nat \<Rightarrow> bool" where
  "occurs_at s needle slen j \<longleftrightarrow>
     j + length (c_str needle) \<le> slen \<and>
     take (length (c_str needle)) (drop j (c_str s)) = c_str needle"

lemma c_str_drop: "i \<le> length (c_str b) \<Longrightarrow> c_str (drop i b) = drop i (c_str b)"
proof (induction b arbitrary: i)
  case (Cons a b) then show ?case by (cases i) (auto split: if_splits)
qed simp

lemma terminated_drop: "terminated b \<Longrightarrow> i \<le> length (c_str b) \<Longrightarrow> terminated (drop i b)"
proof (induction b arbitrary: i)
  case (Cons a b) then show ?case by (cases i) (auto split: if_splits)
qed simp

lemma c_str_end: "terminated b \<Longrightarrow> i \<le> length (c_str b) \<Longrightarrow> (b ! i = 0) = (i = length (c_str b))"
  by (metis c_str_nth le_neq_implies_less nth_append_length terminated_split)

lemma occurs_at_Cons:
  assumes "terminated s" "i < length (c_str s)" "c \<noteq> 0"
  shows "occurs_at s (c # needle) slen i \<longleftrightarrow>
     s ! i = c \<and> Suc (i + length (c_str needle)) \<le> slen \<and>
     take (length (c_str needle)) (drop (Suc i) (c_str s)) = c_str needle"
proof -
  have "drop i (c_str s) = s ! i # drop (Suc i) (c_str s)"
    using assms c_str_nth[of i s] by (simp add: Cons_nth_drop_Suc)
  then show ?thesis using assms by (auto simp: occurs_at_def)
qed

lemma occurs_at_bound: "c \<noteq> 0 \<Longrightarrow> occurs_at s (c # needle) slen j \<Longrightarrow> j < slen \<and> j < length (c_str s)"
  by (rule conjI, simp add: occurs_at_def, rule ccontr) (simp add: occurs_at_def)

lemma strnstr_loop_spec:
  assumes "terminated s" "terminated needle" "c \<noteq> 0" "i \<le> length (c_str s)"
    and "\<And>j. j < i \<Longrightarrow> \<not> occurs_at s (c # needle) (i + slen) j"
  shows "\<exists>r. strnstr_loop s c needle (length (c_str needle)) i slen = Some r \<and>
     (case r of None \<Rightarrow> \<forall>j. \<not> occurs_at s (c # needle) (i + slen) j
              | Some j \<Rightarrow> occurs_at s (c # needle) (i + slen) j \<and>
                         (\<forall>k<j. \<not> occurs_at s (c # needle) (i + slen) k))"
  using assms
proof (induction slen arbitrary: i)
  case 0
  then have "\<not> occurs_at s (c # needle) i j" for j
    using occurs_at_bound [of c s needle i j] by (cases "j < i") auto
  then show ?case by simp
next
  case (Suc slen)
  let ?occ = "occurs_at s (c # needle) (i + Suc slen)"
  have i_in: "i < length s" using Suc.prems(1,4) terminated_less by fastforce
  show ?case
  proof (cases "i = length (c_str s)")
    case True
    then have z: "s ! i = 0" using c_str_end Suc.prems by auto
    have "\<not> ?occ j" for j
      using occurs_at_bound[OF Suc.prems(3)] Suc.prems(5) True by (meson linorder_neqE_nat less_imp_not_less)
    with z i_in show ?thesis by simp
  next
    case False
    then have lt: "i < length (c_str s)" using Suc.prems by simp
    have nz: "s ! i \<noteq> 0" using c_str_nth lt by blast
    have cmp: "strncmp_eq (drop (Suc i) s) needle (length (c_str needle)) =
        Some (take (length (c_str needle)) (drop (Suc i) (c_str s)) = c_str needle)"
      using strncmp_eq_prefix[of "drop (Suc i) s" needle "length (c_str needle)"]
        terminated_drop[of s "Suc i"] c_str_drop[of "Suc i" s] Suc.prems lt by simp
    note occ = occurs_at_Cons[OF Suc.prems(1) lt Suc.prems(3), of needle "i + Suc slen"]
    show ?thesis
    proof (cases "s ! i = c \<and> length (c_str needle) > slen")
      case True
      have "\<not> ?occ j" for j
      proof
        assume o: "?occ j"
        then have "i \<le> j" using Suc.prems(5) by (meson not_le)
        with o True show False by (simp add: occurs_at_def Suc.prems(3))
      qed
      with True nz i_in show ?thesis by simp
    next
      case False
      show ?thesis
      proof (cases "?occ i")
        case True
        with occ cmp nz i_in Suc.prems(5) show ?thesis by auto
      next
        case no: False
        have "\<not> occurs_at s (c # needle) (Suc i + slen) j" if "j < Suc i" for j
          using that no Suc.prems(5) by (metis add_Suc_shift less_SucE)
        from Suc.IH [OF Suc.prems(1,2,3) _ this, unfolded add_Suc_shift] lt
        obtain r where "strnstr_loop s c needle (length (c_str needle)) (Suc i) slen = Some r"
          and "(case r of None \<Rightarrow> \<forall>j. \<not> ?occ j | Some j \<Rightarrow> ?occ j \<and> (\<forall>k<j. \<not> ?occ k))"
          by auto
        moreover have "strnstr_loop s c needle (length (c_str needle)) i (Suc slen) =
            strnstr_loop s c needle (length (c_str needle)) (Suc i) slen"
          using False no occ cmp nz i_in by auto
        ultimately show ?thesis by auto
      qed
    qed
  qed
qed
text \<open>
  Strnstr is total on terminated strings and finds the first occurrence of the needle that
  lies within the first \<open>slen\<close> bytes of the string; it answers NULL exactly when there is none.
\<close>

theorem strnstr_correct:
  assumes "terminated s" and "terminated needle"
  shows "\<exists>r. strnstr s needle slen = Some r \<and>
     (case r of None \<Rightarrow> \<forall>j. \<not> occurs_at s needle slen j
              | Some j \<Rightarrow> occurs_at s needle slen j \<and> (\<forall>k<j. \<not> occurs_at s needle slen k))"
proof (cases needle)
  case Nil
  with assms show ?thesis by simp
next
  case (Cons c rest)
  show ?thesis
  proof (cases "c = 0")
    case True
    with Cons show ?thesis by (simp add: strnstr_def occurs_at_def)
  next
    case False
    with assms Cons have t: "terminated rest" by simp
    show ?thesis
      unfolding Cons
      using strnstr_loop_spec [OF assms(1) t False, of 0 slen, unfolded add_0] False t
      by (simp add: strnstr_def strlen_terminated)
  qed
qed

theorem strnstr_correct_witness:
  "strnstr [97, 98, 97, 99, 0] [97, 99, 0] 4 = Some (Some 2) \<and>
   (\<exists>r. strnstr [97, 98, 97, 99, 0] [97, 99, 0] 4 = Some r \<and>
     (case r of None \<Rightarrow> \<forall>j. \<not> occurs_at [97, 98, 97, 99, 0] [97, 99, 0] 4 j
              | Some j \<Rightarrow> occurs_at [97, 98, 97, 99, 0] [97, 99, 0] 4 j \<and>
                  (\<forall>k<j. \<not> occurs_at [97, 98, 97, 99, 0] [97, 99, 0] 4 k)))"
  by (rule conjI, code_simp, rule strnstr_correct) simp_all

subsection \<open>stpncpy.c\<close>

text \<open>
  \<open>strncpy\<close> of the C library writes exactly \<open>len\<close> elements: the string, cut off at
  \<open>len\<close>, and zeros behind it. \<open>stpncpy\<close> returns the destination pointer advanced by
  the number of bytes copied; here, that offset.
\<close>

definition strncpy :: "bytes \<Rightarrow> bytes \<Rightarrow> nat \<Rightarrow> bytes option" where
  "strncpy dst src len =
     (if terminated src \<or> len \<le> length src
      then write_at dst 0 (take len (c_str src @ replicate len 0)) else None)"

definition stpncpy :: "bytes \<Rightarrow> bytes \<Rightarrow> nat \<Rightarrow> (nat \<times> bytes) option" where
  "stpncpy dst src len = do {
     n \<leftarrow> strlen src;
     let n = (if n > len then len else n);
     dst' \<leftarrow> strncpy dst src len;
     Some (n, dst') }"

text \<open>
  Stpncpy writes exactly \<open>len\<close> bytes when the destination has room for them, leaves the
  rest of the destination alone, and returns the offset of the first byte that is padding, or
  \<open>len\<close> when the string was cut off.
\<close>

theorem stpncpy_correct:
  assumes "terminated src" and "len \<le> length dst"
  shows "stpncpy dst src len =
     Some (min len (length (c_str src)),
           take len (c_str src) @ replicate (len - length (c_str src)) 0 @ drop len dst)"
  using assms by (auto simp: stpncpy_def strncpy_def write_at_def strlen_terminated min_def)

theorem stpncpy_correct_witness:
  "stpncpy [9, 9, 9, 9] [65, 66, 0] 3 = Some (min 3 (length (c_str [65, 66, 0])),
     take 3 (c_str [65, 66, 0]) @ replicate (3 - length (c_str [65, 66, 0])) 0 @ drop 3 [9, 9, 9, 9])"
  by (rule stpncpy_correct) simp_all

end
