(* ===== verification/KvStore.thy ===== *)
theory KvStore
  imports KvCache CStrings
begin

text \<open>
  The public interface of the key-value store, kvstore.c, over the cache and with the table of
  keys and defaults of kvstore_config.h. \<open>kv_lookup\<close> is its specification: the value last set,
  or else the default of the key.
\<close>

subsection \<open>Keys and defaults\<close>

text \<open>
  An entry of the default table. \<open>dunion\<close> is the four bytes of its union, which for strings
  and blobs are an address; \<open>dpointee\<close> is the object at that address, if it is one.
\<close>

record kv_default =
  dtype :: KVStoreValueType_t
  dlength :: nat
  dunion :: bytes
  dpointee :: "bytes option"

record 'w kv_env =
  kvAlloc :: allocator
  kvMutexMemory :: bool
  kvImpl :: "'w nv_impl"
  kvStoreDefaults :: "kv_default list"
  kvStoreKeyMap :: "bytes list"

abbreviation CS_NUM_KEYS :: "'w kv_env \<Rightarrow> nat" where
  "CS_NUM_KEYS env \<equiv> length (kvStoreDefaults env)"

text \<open>
  The macros KV_DFLT_KV_TYPE_STRING and KV_DFLT_KV_TYPE_UINT32. A string's default length does
  not count the terminator; \<open>lit\<close> gives the address of a literal.
\<close>

definition KV_DFLT_STRING :: "(string \<Rightarrow> addr) \<Rightarrow> string \<Rightarrow> kv_default" where
  "KV_DFLT_STRING lit s =
     \<lparr>dtype = KV_TYPE_STRING, dlength = length s, dunion = lit s, dpointee = Some (c_literal s)\<rparr>"

definition KV_DFLT_UINT32 :: "u32 \<Rightarrow> kv_default" where
  "KV_DFLT_UINT32 v = \<lparr>dtype = KV_TYPE_UINT32, dlength = 4, dunion = le32 v, dpointee = None\<rparr>"

definition KV_STORE_DEFAULTS :: "(string \<Rightarrow> addr) \<Rightarrow> kv_default list" where
  "KV_STORE_DEFAULTS lit =
     [KV_DFLT_STRING lit '''', KV_DFLT_STRING lit '''', KV_DFLT_UINT32 8883,
      KV_DFLT_STRING lit '''', KV_DFLT_STRING lit '''', KV_DFLT_UINT32 0]"

definition KV_STORE_STRINGS :: "bytes list" where
  "KV_STORE_STRINGS =
     map c_literal [''thing_name'', ''mqtt_endpoint'', ''mqtt_port'', ''wifi_ssid'',
       ''wifi_credential'', ''time_hwm'']"

definition CS_CORE_THING_NAME :: nat where "CS_CORE_THING_NAME = 0"
definition CS_CORE_MQTT_ENDPOINT :: nat where "CS_CORE_MQTT_ENDPOINT = 1"
definition CS_CORE_MQTT_PORT :: nat where "CS_CORE_MQTT_PORT = 2"
definition CS_WIFI_SSID :: nat where "CS_WIFI_SSID = 3"
definition CS_WIFI_CREDENTIAL :: nat where "CS_WIFI_CREDENTIAL = 4"
definition CS_TIME_HWM_S_1970 :: nat where "CS_TIME_HWM_S_1970 = 5"

text \<open>\<open>kvStoreDefaults[key].type == t\<close> behind the guard \<open>key < CS_NUM_KEYS\<close>.\<close>

definition key_has_type :: "'w kv_env \<Rightarrow> nat \<Rightarrow> KVStoreValueType_t \<Rightarrow> bool" where
  "key_has_type env key t \<longleftrightarrow> key < CS_NUM_KEYS env \<and> dtype (kvStoreDefaults env ! key) = t"

subsection \<open>Initialisation\<close>

text \<open>\<open>vprvNvImplInit\<close> has an empty body in the PSA implementation.\<close>

definition KVStore_init :: "'w kv_env \<Rightarrow> 'w kv \<Rightarrow> 'w kv option" where
  "KVStore_init env kv = do {
     let m = (if xKvMutex kv = Absent then if kvMutexMemory env then Free else Absent
              else xKvMutex kv);
     m \<leftarrow> xSemaphoreTake m;
     kv \<leftarrow> vprvCacheInit (kvAlloc env) (kvImpl env) (kv\<lparr>xKvMutex := m\<rparr>);
     m \<leftarrow> xSemaphoreGive (xKvMutex kv);
     Some (kv\<lparr>xKvMutex := m\<rparr>) }"

subsection \<open>Reading\<close>

text \<open>The copy of a default: by value from the union, or through its pointer.\<close>

definition copy_default :: "kv_default \<Rightarrow> nat \<Rightarrow> bytes \<Rightarrow> bytes option" where
  "copy_default d xBufferSize buf = do {
     let xDataLen = (if xBufferSize < dlength d then xBufferSize else dlength d);
     src \<leftarrow> (if xDataLen > sizeof_ptr then dpointee d else Some (dunion d));
     data \<leftarrow> read_at src 0 xDataLen;
     write_at buf 0 data }"

definition xReadEntryOrDefault ::
  "'w kv_env \<Rightarrow> nat \<Rightarrow> bytes option \<Rightarrow> nat \<Rightarrow> 'w kv \<Rightarrow> (nat \<times> bytes) option" where
  "xReadEntryOrDefault env xKey pvBuffer xBufferSize kv =
     (if xKey < CS_NUM_KEYS env
      then do {
        buf \<leftarrow> pvBuffer;
        (_, out, buf) \<leftarrow> xprvCopyValueFromCache xKey (Some buf) xBufferSize kv;
        let xLength = (case out of None \<Rightarrow> 0 | Some (_, n) \<Rightarrow> n);
        if xLength = 0
        then do {
          buf \<leftarrow> copy_default (kvStoreDefaults env ! xKey) xBufferSize buf;
          Some (dlength (kvStoreDefaults env ! xKey), buf) }
        else Some (xLength, buf) }
      else None)"

text \<open>The read that every getter makes between taking and giving the mutex.\<close>

definition locked_read ::
  "'w kv_env \<Rightarrow> nat \<Rightarrow> bytes \<Rightarrow> nat \<Rightarrow> 'w kv \<Rightarrow> (nat \<times> bytes \<times> 'w kv) option" where
  "locked_read env key buf n kv = do {
     m \<leftarrow> xSemaphoreTake (xKvMutex kv);
     (len, buf) \<leftarrow> xReadEntryOrDefault env key (Some buf) n (kv\<lparr>xKvMutex := m\<rparr>);
     m \<leftarrow> xSemaphoreGive m;
     Some (len, buf, kv\<lparr>xKvMutex := m\<rparr>) }"

definition KVStore_getSize :: "'w kv_env \<Rightarrow> nat \<Rightarrow> 'w kv \<Rightarrow> nat option" where
  "KVStore_getSize env xKey kv =
     (if xKey < CS_NUM_KEYS env
      then do {
        n \<leftarrow> prvGetCacheEntryLength xKey kv;
        Some (if n = 0 then dlength (kvStoreDefaults env ! xKey) else n) }
      else Some 0)"

definition KVStore_getType :: "'w kv_env \<Rightarrow> nat \<Rightarrow> KVStoreValueType_t" where
  "KVStore_getType env key =
     (if key < CS_NUM_KEYS env then dtype (kvStoreDefaults env ! key) else KV_TYPE_NONE)"

definition KVStore_getBlob ::
  "'w kv_env \<Rightarrow> nat \<Rightarrow> bytes option \<Rightarrow> nat \<Rightarrow> 'w kv \<Rightarrow> (nat \<times> bytes option \<times> 'w kv) option" where
  "KVStore_getBlob env key pvBuffer xMaxLength kv =
     (case pvBuffer of
        Some buf \<Rightarrow>
          if key_has_type env key KV_TYPE_BLOB
          then do {
            (n, buf, kv) \<leftarrow> locked_read env key buf xMaxLength kv;
            Some (n, Some buf, kv) }
          else Some (0, pvBuffer, kv)
      | None \<Rightarrow> Some (0, pvBuffer, kv))"

text \<open>The index \<open>xMaxLength - 1\<close> is \<open>size_t\<close> arithmetic: with a length of 0 it leaves the buffer.\<close>

definition KVStore_getString ::
  "'w kv_env \<Rightarrow> nat \<Rightarrow> bytes option \<Rightarrow> nat \<Rightarrow> 'w kv \<Rightarrow> (nat \<times> bytes option \<times> 'w kv) option" where
  "KVStore_getString env key pcBuffer xMaxLength kv = do {
     (xSizeWritten, pcBuffer, kv) \<leftarrow>
       (case pcBuffer of
          Some buf \<Rightarrow>
            if key_has_type env key KV_TYPE_STRING
            then do {
              m \<leftarrow> xSemaphoreTake (xKvMutex kv);
              (n, buf) \<leftarrow> xReadEntryOrDefault env key (Some buf) xMaxLength (kv\<lparr>xKvMutex := m\<rparr>);
              buf \<leftarrow> write_at buf (unat (of_nat xMaxLength - 1 :: u32)) [0];
              m \<leftarrow> xSemaphoreGive m;
              Some (n, Some buf, kv\<lparr>xKvMutex := m\<rparr>) }
            else Some (0, pcBuffer, kv)
        | None \<Rightarrow> Some (0, pcBuffer, kv));
     Some (if xSizeWritten > 0 then xSizeWritten - 1 else xSizeWritten, pcBuffer, kv) }"

text \<open>
  The two getters that return a heap block share their shape. The result is the pointer, the
  length that \<open>*pxLength\<close> receives, and the store with the heap.
\<close>

definition read_into_heap ::
  "(nat \<Rightarrow> bytes option \<Rightarrow> nat \<Rightarrow> 'w kv \<Rightarrow> (nat \<times> bytes option \<times> 'w kv) option) \<Rightarrow>
   'w kv_env \<Rightarrow> nat \<Rightarrow> 'w kv \<Rightarrow> (addr \<times> nat \<times> 'w kv) option" where
  "read_into_heap getter env key kv = do {
     xLen \<leftarrow> KVStore_getSize env key kv;
     if xLen > 0
     then let (p, h) = pvPortMalloc (kvAlloc env) (kvHeap kv) xLen; kv = kv\<lparr>kvHeap := h\<rparr>
       in if p \<noteq> NULL
       then do {
         blk \<leftarrow> h p;
         (n, blk, kv) \<leftarrow> getter key (Some blk) xLen kv;
         blk \<leftarrow> blk;
         let kv = kv\<lparr>kvHeap := (kvHeap kv)(p \<mapsto> blk)\<rparr>;
         if n = 0
         then do {
           h \<leftarrow> vPortFree p (kvHeap kv);
           Some (NULL, 0, kv\<lparr>kvHeap := h\<rparr>) }
         else Some (p, xLen, kv) }
       else Some (NULL, xLen, kv)
     else Some (NULL, xLen, kv) }"

definition KVStore_getBlobHeap ::
  "'w kv_env \<Rightarrow> nat \<Rightarrow> 'w kv \<Rightarrow> (addr \<times> nat \<times> 'w kv) option" where
  "KVStore_getBlobHeap env key kv = read_into_heap (KVStore_getBlob env) env key kv"

definition KVStore_getStringHeap ::
  "'w kv_env \<Rightarrow> nat \<Rightarrow> 'w kv \<Rightarrow> (addr \<times> nat \<times> 'w kv) option" where
  "KVStore_getStringHeap env key kv = do {
     (p, xLen, kv) \<leftarrow> read_into_heap (KVStore_getString env) env key kv;
     Some (p, unat (of_nat xLen - 1 :: u32), kv) }"

text \<open>
  The getters of 32-bit values: the value, what \<open>*pxSuccess\<close> receives, and the store.
  \<open>int32_t\<close> and \<open>BaseType_t\<close> values are their 32-bit patterns.
\<close>

definition read_word ::
  "'w kv_env \<Rightarrow> nat \<Rightarrow> KVStoreValueType_t \<Rightarrow> 'w kv \<Rightarrow> (u32 \<times> bool \<times> 'w kv) option" where
  "read_word env key t kv =
     (if key_has_type env key t
      then do {
        (xSizeWritten, buf, kv) \<leftarrow> locked_read env key (le32 0) 4 kv;
        Some (of_le32 buf, xSizeWritten = 4, kv) }
      else Some (0, False, kv))"

definition KVStore_getUInt32 :: "'w kv_env \<Rightarrow> nat \<Rightarrow> 'w kv \<Rightarrow> (u32 \<times> bool \<times> 'w kv) option" where
  "KVStore_getUInt32 env key kv = read_word env key KV_TYPE_UINT32 kv"

definition KVStore_getInt32 :: "'w kv_env \<Rightarrow> nat \<Rightarrow> 'w kv \<Rightarrow> (u32 \<times> bool \<times> 'w kv) option" where
  "KVStore_getInt32 env key kv = read_word env key KV_TYPE_INT32 kv"

definition KVStore_getBase :: "'w kv_env \<Rightarrow> nat \<Rightarrow> 'w kv \<Rightarrow> (u32 \<times> bool \<times> 'w kv) option" where
  "KVStore_getBase env key kv = read_word env key KV_TYPE_BASE_T kv"

text \<open>The guard here is the one for \<open>BaseType_t\<close>, not for \<open>UBaseType_t\<close>.\<close>

definition KVStore_getUBase :: "'w kv_env \<Rightarrow> nat \<Rightarrow> 'w kv \<Rightarrow> (u32 \<times> bool \<times> 'w kv) option" where
  "KVStore_getUBase env key kv = read_word env key KV_TYPE_BASE_T kv"

subsection \<open>Setting\<close>

definition KVStore_setBlob ::
  "'w kv_env \<Rightarrow> nat \<Rightarrow> nat \<Rightarrow> bytes option \<Rightarrow> 'w kv \<Rightarrow> (bool \<times> 'w kv) option" where
  "KVStore_setBlob env key xLength pvNewValue kv =
     (if pvNewValue \<noteq> None \<and> xLength > 0 \<and> key_has_type env key KV_TYPE_BLOB
      then xprvWriteCacheEntry (kvAlloc env) key KV_TYPE_BLOB xLength pvNewValue kv
      else Some (False, kv))"

definition KVStore_setString ::
  "'w kv_env \<Rightarrow> nat \<Rightarrow> bytes option \<Rightarrow> 'w kv \<Rightarrow> (bool \<times> 'w kv) option" where
  "KVStore_setString env key pcNewValue kv =
     (case pcNewValue of
        Some s \<Rightarrow>
          if key_has_type env key KV_TYPE_STRING
          then do {
            n \<leftarrow> strlen s;
            xprvWriteCacheEntry (kvAlloc env) key KV_TYPE_STRING (n + 1) pcNewValue kv }
          else Some (False, kv)
      | None \<Rightarrow> Some (False, kv))"

definition write_word ::
  "'w kv_env \<Rightarrow> nat \<Rightarrow> KVStoreValueType_t \<Rightarrow> u32 \<Rightarrow> 'w kv \<Rightarrow> (bool \<times> 'w kv) option" where
  "write_word env key t v kv =
     (if key_has_type env key t
      then xprvWriteCacheEntry (kvAlloc env) key t 4 (Some (le32 v)) kv
      else Some (False, kv))"

definition KVStore_setUInt32 :: "'w kv_env \<Rightarrow> nat \<Rightarrow> u32 \<Rightarrow> 'w kv \<Rightarrow> (bool \<times> 'w kv) option" where
  "KVStore_setUInt32 env key ulNewVal kv = write_word env key KV_TYPE_UINT32 ulNewVal kv"

definition KVStore_setInt32 :: "'w kv_env \<Rightarrow> nat \<Rightarrow> u32 \<Rightarrow> 'w kv \<Rightarrow> (bool \<times> 'w kv) option" where
  "KVStore_setInt32 env key lNewVal kv = write_word env key KV_TYPE_INT32 lNewVal kv"

definition KVStore_setUBase :: "'w kv_env \<Rightarrow> nat \<Rightarrow> u32 \<Rightarrow> 'w kv \<Rightarrow> (bool \<times> 'w kv) option" where
  "KVStore_setUBase env key uxNewVal kv = write_word env key KV_TYPE_UBASE_T uxNewVal kv"

definition KVStore_setBase :: "'w kv_env \<Rightarrow> nat \<Rightarrow> u32 \<Rightarrow> 'w kv \<Rightarrow> (bool \<times> 'w kv) option" where
  "KVStore_setBase env key xNewVal kv = write_word env key KV_TYPE_BASE_T xNewVal kv"

subsection \<open>Key names\<close>

definition kvKeyToString :: "'w kv_env \<Rightarrow> nat \<Rightarrow> bytes option" where
  "kvKeyToString env xKey =
     (if xKey < CS_NUM_KEYS env then Some (kvStoreKeyMap env ! xKey) else None)"

fun find_key :: "bytes list \<Rightarrow> bytes \<Rightarrow> nat \<Rightarrow> nat option" where
  "find_key [] pcKey i = Some i"
| "find_key (k # ks) pcKey i = do {
     eq \<leftarrow> strcmp_eq k pcKey;
     if eq then Some i else find_key ks pcKey (Suc i) }"

text \<open>The name's key, or \<open>CS_NUM_KEYS\<close> when no key has it.\<close>

definition kvStringToKey :: "'w kv_env \<Rightarrow> bytes \<Rightarrow> nat option" where
  "kvStringToKey env pcKey = find_key (kvStoreKeyMap env) pcKey 0"

subsection \<open>The specification of a read\<close>

definition default_ok :: "kv_default \<Rightarrow> bool" where
  "default_ok d \<longleftrightarrow> length (dunion d) = 4 \<and> dlength d < 2 ^ 32 \<and>
     (dlength d > 4 \<longrightarrow> (\<exists>p. dpointee d = Some p \<and> dlength d \<le> length p))"

definition default_value :: "kv_default \<Rightarrow> bytes" where
  "default_value d = take (dlength d) (if dlength d > 4 then the (dpointee d) else dunion d)"

definition kv_lookup :: "'w kv_env \<Rightarrow> 'w kv \<Rightarrow> nat \<Rightarrow> bytes" where
  "kv_lookup env kv k =
     (case cached kv k of Some (t, v) \<Rightarrow> v | None \<Rightarrow> default_value (kvStoreDefaults env ! k))"

definition kv_ready :: "'w kv_env \<Rightarrow> 'w kv \<Rightarrow> bool" where
  "kv_ready env kv \<longleftrightarrow> kv_inv kv \<and> length (kvStoreCache kv) = CS_NUM_KEYS env \<and>
     (\<forall>d \<in> set (kvStoreDefaults env). default_ok d) \<and> xKvMutex kv = Free"

lemma default_value_length: "default_ok d \<Longrightarrow> length (default_value d) = dlength d"
  by (auto simp: default_ok_def default_value_def)

lemma copy_default_value:
  assumes "default_ok d" and "dlength d \<le> n \<or> dlength d \<le> 4" and "min n (dlength d) \<le> length buf"
  shows "copy_default d n buf =
    Some (take n (default_value d) @ drop (min n (dlength d)) buf)"
  using assms
  by (auto simp: copy_default_def default_ok_def default_value_def sizeof_ptr_def read_at_def
      write_at_def min_def Let_def)

lemma inv_mutex [simp]: "kv_inv (kv\<lparr>xKvMutex := m\<rparr>) = kv_inv kv"
  "cached (kv\<lparr>xKvMutex := m\<rparr>) = cached kv"
  by (simp_all add: kv_inv_def cached_def get_entry_def fun_eq_iff)

lemma read_entry:
  assumes "kv_ready env kv" and "k < CS_NUM_KEYS env"
    and "min n (length (kv_lookup env kv k)) \<le> length buf"
    and "cached kv k = None \<Longrightarrow> length (kv_lookup env kv k) \<le> n \<or> length (kv_lookup env kv k) \<le> 4"
  shows "xReadEntryOrDefault env k (Some buf) n (kv\<lparr>xKvMutex := m\<rparr>) =
    Some (length (kv_lookup env kv k),
      take n (kv_lookup env kv k) @ drop (min n (length (kv_lookup env kv k))) buf)"
proof (cases "cached kv k")
  case None
  from assms(1,2) have d: "default_ok (kvStoreDefaults env ! k)" by (simp add: kv_ready_def)
  from assms None copy_default_value [OF d, of n buf] default_value_length [OF d]
    copy_absent [of k "kv\<lparr>xKvMutex := m\<rparr>" buf n]
  show ?thesis by (simp add: xReadEntryOrDefault_def kv_lookup_def kv_ready_def)
next
  case (Some tv)
  obtain t v where tv: "tv = (t, v)" by (cases tv)
  have inv: "kv_inv kv" using assms(1) by (simp add: kv_ready_def)
  note c = cached_entry [OF inv Some [unfolded tv]]
  from entry_load(3) [OF c(2,3)] have "v \<noteq> []" by (simp add: storable_def)
  with assms Some tv inv copy_present [of "kv\<lparr>xKvMutex := m\<rparr>" k t v n buf] show ?thesis
    by (simp add: xReadEntryOrDefault_def kv_lookup_def)
qed

lemma locked_read_correct:
  assumes "kv_ready env kv" and "k < CS_NUM_KEYS env"
    and "min n (length (kv_lookup env kv k)) \<le> length buf"
    and "cached kv k = None \<Longrightarrow> length (kv_lookup env kv k) \<le> n \<or> length (kv_lookup env kv k) \<le> 4"
  shows "locked_read env k buf n kv =
    Some (length (kv_lookup env kv k),
      take n (kv_lookup env kv k) @ drop (min n (length (kv_lookup env kv k))) buf, kv)"
proof -
  have "xKvMutex kv = Free" using assms(1) by (simp add: kv_ready_def)
  moreover from this have "kv\<lparr>xKvMutex := Free\<rparr> = kv" by (cases kv) simp
  ultimately show ?thesis using read_entry [OF assms, of Held] by (simp add: locked_read_def)
qed

lemma read_word_correct:
  assumes "kv_ready env kv" and "key_has_type env k t" and "length (kv_lookup env kv k) = 4"
  shows "read_word env k t kv = Some (of_le32 (kv_lookup env kv k), True, kv)"
  using assms locked_read_correct [OF assms(1), of k 4 "le32 0"]
  by (simp add: read_word_def key_has_type_def)

lemma write_word_correct:
  assumes "kv_ready env kv" and "key_has_type env k t" and "fresh_allocator (kvAlloc env)"
    and "t \<noteq> KV_TYPE_NONE" and "t \<noteq> KV_TYPE_LAST"
  shows "\<exists>kv'. write_word env k t v kv = Some (True, kv') \<and> kv_ready env kv' \<and>
    cached kv' = (cached kv)(k \<mapsto> (t, le32 v))"
proof -
  from assms have "kv_inv kv" "k < length (kvStoreCache kv)" "storable t (le32 v)"
    by (simp_all add: kv_ready_def key_has_type_def storable_def)
      (simp_all add: le32_def)
  from write_cache [OF this(1,2) assms(3) _ this(3) assms(5)] obtain kv' e' where
    "xprvWriteCacheEntry (kvAlloc env) k t 4 (Some (le32 v)) kv = Some (True, kv')" "kv_inv kv'"
    "cached kv' = (cached kv)(k \<mapsto> (t, le32 v))" "xKvMutex kv' = xKvMutex kv"
    "kvStoreCache kv' = (kvStoreCache kv)[k := e']" by auto
  with assms show ?thesis by (auto simp: write_word_def kv_ready_def)
qed

lemma lookup_updated:
  "cached kv' = (cached kv)(k \<mapsto> (t, v)) \<Longrightarrow>
   kv_lookup env kv' j = (if j = k then v else kv_lookup env kv j)"
  by (simp add: kv_lookup_def)

lemma kv_ready_init:
  assumes "length (kvStoreCache kv) = CS_NUM_KEYS env" "kv_inv kv" "xKvMutex kv = Free"
    "\<forall>d \<in> set (kvStoreDefaults env). default_ok d"
  shows "kv_ready env kv"
  using assms by (simp add: kv_ready_def)

text \<open>
  A 32-bit value that was set is what the getter returns, with success reported; the set
  changes no other key, needs no memory, and the mutex is free afterwards.
\<close>

theorem KVStore_UInt32_roundtrip:
  assumes "kv_ready env kv" and "key_has_type env k KV_TYPE_UINT32" and "fresh_allocator (kvAlloc env)"
  shows "\<exists>kv'. KVStore_setUInt32 env k v kv = Some (True, kv') \<and> kv_ready env kv' \<and>
    KVStore_getUInt32 env k kv' = Some (v, True, kv') \<and>
    (\<forall>j. j \<noteq> k \<longrightarrow> kv_lookup env kv' j = kv_lookup env kv j)"
proof -
  from write_word_correct [OF assms] obtain kv' where
    w: "write_word env k KV_TYPE_UINT32 v kv = Some (True, kv')" "kv_ready env kv'"
      "cached kv' = (cached kv)(k \<mapsto> (KV_TYPE_UINT32, le32 v))" by auto
  from read_word_correct [OF w(2) assms(2)] w(3) show ?thesis
    by (intro exI [of _ kv']) (simp add: w KVStore_setUInt32_def KVStore_getUInt32_def lookup_updated)
qed

definition shipped_env :: "'w nv_impl \<Rightarrow> 'w kv_env" where
  "shipped_env impl = \<lparr>kvAlloc = first_fit, kvMutexMemory = True, kvImpl = impl,
     kvStoreDefaults = KV_STORE_DEFAULTS (\<lambda>_. le32 0x1000), kvStoreKeyMap = KV_STORE_STRINGS\<rparr>"

lemma shipped_defaults:
  "length (KV_STORE_DEFAULTS lit) = 6"
  "(\<And>s. length (lit s) = 4) \<Longrightarrow> \<forall>d \<in> set (KV_STORE_DEFAULTS lit). default_ok d"
  by (simp_all add: KV_STORE_DEFAULTS_def default_ok_def KV_DFLT_STRING_def KV_DFLT_UINT32_def)

lemma shipped_ready: "kv_ready (shipped_env impl) ((booted 6 w)\<lparr>xKvMutex := Free\<rparr>)"
proof (rule kv_ready_init)
  show "\<forall>d \<in> set (kvStoreDefaults (shipped_env impl)). default_ok d"
    unfolding shipped_env_def by simp (rule shipped_defaults(2), simp)
qed (simp_all add: booted_inv shipped_env_def shipped_defaults(1), simp_all add: booted_def)

theorem KVStore_UInt32_roundtrip_witness:
  "\<exists>kv'. KVStore_getUInt32 (shipped_env (psa_its_impl first_fit reference_its 6)) CS_CORE_MQTT_PORT kv' = Some (443, True, kv')"
proof -
  let ?env = "shipped_env (psa_its_impl first_fit reference_its 6)"
  have "key_has_type ?env CS_CORE_MQTT_PORT KV_TYPE_UINT32" "fresh_allocator (kvAlloc ?env)"
    by (simp_all add: key_has_type_def shipped_env_def KV_STORE_DEFAULTS_def CS_CORE_MQTT_PORT_def
        KV_DFLT_UINT32_def first_fit_fresh)
  from KVStore_UInt32_roundtrip [OF shipped_ready this] show ?thesis by blast
qed


subsection \<open>Strings\<close>

lemma write_cache_prefix:
  assumes "read_at b 0 n = read_at b' 0 n"
  shows "xprvWriteCacheEntry alloc k t n (Some b) kv = xprvWriteCacheEntry alloc k t n (Some b') kv"
  unfolding xprvWriteCacheEntry_def prepare_entry_def copy_pending_def Option.bind.simps assms by (rule refl)

lemma write_string_correct:
  assumes "kv_ready env kv" and "key_has_type env k KV_TYPE_STRING" and "fresh_allocator (kvAlloc env)"
    and "terminated s" and "length (c_str s) + 9 < 2 ^ 32"
    and "room (kvAlloc env) (kvHeap kv) (length (c_str s) + 1)"
  shows "\<exists>kv'. KVStore_setString env k (Some s) kv = Some (True, kv') \<and> kv_ready env kv' \<and>
    cached kv' = (cached kv)(k \<mapsto> (KV_TYPE_STRING, c_str s @ [0]))"
proof -
  let ?v = "c_str s @ [0]"
  obtain r where s: "s = c_str s @ 0 # r" using terminated_split [OF assms(4)] by blast
  from assms have "kv_inv kv" "k < length (kvStoreCache kv)" "storable KV_TYPE_STRING ?v"
    by (simp_all add: kv_ready_def key_has_type_def storable_def)
  from write_cache [OF this(1,2) assms(3) _ this(3)] assms(6) obtain kv' e' where w:
    "xprvWriteCacheEntry (kvAlloc env) k KV_TYPE_STRING (length ?v) (Some ?v) kv = Some (True, kv')"
    "kv_inv kv'" "cached kv' = (cached kv)(k \<mapsto> (KV_TYPE_STRING, ?v))" "xKvMutex kv' = xKvMutex kv"
    "kvStoreCache kv' = (kvStoreCache kv)[k := e']" by auto
  have "xprvWriteCacheEntry (kvAlloc env) k KV_TYPE_STRING (length ?v) (Some s) kv =
      xprvWriteCacheEntry (kvAlloc env) k KV_TYPE_STRING (length ?v) (Some ?v) kv"
    by (rule write_cache_prefix, subst s) (simp add: read_at_def)
  with w assms show ?thesis
    by (auto simp: KVStore_setString_def kv_ready_def strlen_terminated)
qed


lemma read_string_correct:
  assumes "kv_ready env kv" and "key_has_type env k KV_TYPE_STRING"
    and "cached kv k = Some (t, s @ [0])" and "0 \<notin> set s"
    and "0 < m" and "m \<le> length buf" and "m < 2 ^ 32"
  shows "\<exists>buf'. KVStore_getString env k (Some buf) m kv = Some (length s, Some buf', kv) \<and>
    length buf' = length buf \<and> terminated buf' \<and> c_str buf' = take (m - 1) s \<and> drop m buf' = drop m buf"
proof -
  have v: "kv_lookup env kv k = s @ [0]" using assms(3) by (simp add: kv_lookup_def)
  have free: "xKvMutex kv = Free" using assms(1) by (simp add: kv_ready_def)
  then have same: "kv\<lparr>xKvMutex := Free\<rparr> = kv" by (cases kv) simp
  have idx: "unat (of_nat m - 1 :: u32) = m - 1"
    using assms(5,7) by (rule unat_of_nat_pred)
  define mid where "mid = take m (s @ [0]) @ drop (min m (length s + 1)) buf"
  let ?out = "take (m - 1) mid @ [0] @ drop m mid"
  from read_entry [OF assms(1) _ _, of k m buf Held] assms v
  have rd: "xReadEntryOrDefault env k (Some buf) m (kv\<lparr>xKvMutex := Held\<rparr>) = Some (length s + 1, mid)"
    by (simp add: key_has_type_def mid_def)
  have len: "length mid = length buf" using assms(6) by (auto simp: mid_def)
  have "KVStore_getString env k (Some buf) m kv = Some (length s, Some ?out, kv)"
    using assms(2,5,6) rd len idx free same
    by (simp add: KVStore_getString_def write_at_def)
  moreover have "length ?out = length buf" using len assms(5,6) by (auto simp: min_def)
  moreover have "c_str ?out = take (m - 1) s"
  proof (cases "m - 1 \<le> length s")
    case True
    then have "take (m - 1) mid = take (m - 1) s" using assms(5) by (auto simp: min_def mid_def)
    then show ?thesis using assms(4) by (simp add: c_str_append_zero) (meson c_str_append_zero in_set_takeD)
  next
    case False
    then have "take (m - 1) mid = s @ 0 # take (m - 1 - (length s + 1)) (drop (length s + 1) buf)"
      using assms(5) by (auto simp: min_def mid_def take_Cons')
    then show ?thesis using False assms(4) by (simp add: c_str_append_zero)
  qed
  moreover have "terminated ?out" by (simp add: terminated_def)
  moreover have "drop m ?out = drop m buf"
  proof -
    have "drop m mid = drop m buf"
      by (cases m "Suc (length s)" rule: linorder_cases) (auto simp: mid_def min_def drop_Cons')
    moreover have "length (take (m - 1) mid @ [0]) = m" using assms(5,6) len by simp
    ultimately show ?thesis by (metis append.assoc append_eq_conv_conj)
  qed
  ultimately show ?thesis by blast
qed


text \<open>
  A string that was set is read back as itself, or as its longest prefix that leaves room
  for the terminator; the buffer is terminated inside its first \<open>m\<close> bytes and not written
  behind them, the result is the full length of the string, and no other key changes.
\<close>

theorem KVStore_String_roundtrip:
  assumes "kv_ready env kv" and "key_has_type env k KV_TYPE_STRING" and "fresh_allocator (kvAlloc env)"
    and "terminated s" and "length (c_str s) + 9 < 2 ^ 32"
    and "room (kvAlloc env) (kvHeap kv) (length (c_str s) + 1)"
    and "0 < m" and "m \<le> length buf" and "m < 2 ^ 32"
  shows "\<exists>kv' buf'. KVStore_setString env k (Some s) kv = Some (True, kv') \<and> kv_ready env kv' \<and>
    KVStore_getString env k (Some buf) m kv' = Some (length (c_str s), Some buf', kv') \<and>
    c_str buf' = take (m - 1) (c_str s) \<and> terminated buf' \<and> drop m buf' = drop m buf \<and>
    (\<forall>j. j \<noteq> k \<longrightarrow> kv_lookup env kv' j = kv_lookup env kv j)"
proof -
  from write_string_correct [OF assms(1-6)] obtain kv' where w:
    "KVStore_setString env k (Some s) kv = Some (True, kv')" "kv_ready env kv'"
    "cached kv' = (cached kv)(k \<mapsto> (KV_TYPE_STRING, c_str s @ [0]))" by blast
  have "cached kv' k = Some (KV_TYPE_STRING, c_str s @ [0])" by (simp add: w(3))
  from read_string_correct [OF w(2) assms(2) this c_str_no_zero assms(7-9)] w show ?thesis
    by (auto simp: lookup_updated)
qed

theorem KVStore_String_roundtrip_witness:
  "\<exists>kv' buf'. KVStore_getString (shipped_env (psa_its_impl first_fit reference_its 6)) CS_WIFI_SSID
      (Some (replicate 8 255)) 8 kv' = Some (4, Some buf', kv') \<and> c_str buf' = ascii ''home''"
proof -
  let ?env = "shipped_env (psa_its_impl first_fit reference_its 6)"
  have s: "c_str (c_literal ''home'') = ascii ''home''" by (rule c_str_c_literal) (simp add: of_char_def)
  have pre: "key_has_type ?env CS_WIFI_SSID KV_TYPE_STRING" "fresh_allocator (kvAlloc ?env)"
    "length (c_str (c_literal ''home'')) + 9 < 2 ^ 32"
    "room (kvAlloc ?env) (kvHeap ((booted 6 w)\<lparr>xKvMutex := Free\<rparr>)) (length (c_str (c_literal ''home'')) + 1)"
    for w :: "nat \<rightharpoonup> bytes"
    using booted_room [of "length (c_str (c_literal ''home'')) + 1" 6 w]
    by (simp_all add: key_has_type_def shipped_env_def KV_STORE_DEFAULTS_def CS_WIFI_SSID_def
        KV_DFLT_STRING_def first_fit_fresh s)
  from KVStore_String_roundtrip [OF shipped_ready pre(1,2) terminated_c_literal pre(3,4),
      of 8 "replicate 8 255" Map.empty]
  obtain kv' buf' where "KVStore_getString ?env CS_WIFI_SSID (Some (replicate 8 255)) 8 kv' =
      Some (length (c_str (c_literal ''home'')), Some buf', kv')"
    "c_str buf' = take (8 - 1) (c_str (c_literal ''home''))" by auto
  then show ?thesis by (intro exI [of _ kv'] exI [of _ buf']) (simp add: s)
qed

text \<open>
  KVStore_getUBase never returns a value of type \<open>KV_TYPE_UBASE_T\<close>: on a key of that type
  it reports failure and 0, whatever was set.
\<close>

theorem KVStore_getUBase_fails:
  assumes "key_has_type env k KV_TYPE_UBASE_T"
  shows "KVStore_getUBase env k kv = Some (0, False, kv)"
  using assms by (auto simp: KVStore_getUBase_def read_word_def key_has_type_def)

theorem KVStore_getUBase_fails_witness:
  "KVStore_getUBase ((shipped_env (psa_its_impl first_fit reference_its 1))\<lparr>kvStoreDefaults :=
      [\<lparr>dtype = KV_TYPE_UBASE_T, dlength = 4, dunion = le32 9, dpointee = None\<rparr>]\<rparr>) 0
     (booted 1 Map.empty) = Some (0, False, booted 1 Map.empty)"
  by (rule KVStore_getUBase_fails) (simp add: key_has_type_def)

subsection \<open>Absent values\<close>

lemma size_absent:
  assumes "kv_ready env kv" and "k < CS_NUM_KEYS env" and "cached kv k = None"
  shows "KVStore_getSize env k kv = Some (dlength (kvStoreDefaults env ! k))"
proof -
  have k: "k < length (kvStoreCache kv)" "entry_ok (kvHeap kv) (kvStoreCache kv ! k)"
    using assms by (simp_all add: kv_ready_def kv_inv_def)
  with assms(3) have "clength (kvStoreCache kv ! k) = 0"
    by (auto simp: cached_def get_entry_def entry_value_def entry_ok_def split: if_splits)
  with k assms(2) show ?thesis
    by (simp add: KVStore_getSize_def prvGetCacheEntryLength_def get_entry_def)
qed

text \<open>
  For a string that is absent and has an empty default, which are all strings of the shipped
  table, \<open>KVStore_getStringHeap\<close> returns no string but reports the length \<open>2^32 - 1\<close>.
\<close>

lemma KVStore_getStringHeap_underflow:
  assumes "kv_ready env kv" and "k < CS_NUM_KEYS env" and "cached kv k = None"
    and "dlength (kvStoreDefaults env ! k) = 0"
  shows "KVStore_getStringHeap env k kv = Some (NULL, 2 ^ 32 - 1, kv)"
  using size_absent [OF assms(1-3)] assms(4)
  by (simp add: KVStore_getStringHeap_def read_into_heap_def unsigned_minus_1_eq_mask mask_eq_exp_minus_1)

subsection \<open>Key names\<close>

lemma find_key_absent:
  "\<forall>n \<in> set ks. terminated n \<and> c_str n \<noteq> c_str s \<Longrightarrow> terminated s \<Longrightarrow>
   find_key ks s i = Some (i + length ks)"
  by (induction ks arbitrary: i) (auto simp: strcmp_eq_terminated)

lemma find_key_present:
  assumes "\<forall>n \<in> set ks. terminated n" and "distinct (map c_str ks)" and "k < length ks"
    and "terminated s" and "c_str s = c_str (ks ! k)"
  shows "find_key ks s i = Some (i + k)"
  using assms
proof (induction ks arbitrary: i k)
  case (Cons n ks)
  then show ?case
  proof (cases k)
    case (Suc j)
    with Cons.prems have "c_str n \<noteq> c_str s" by auto
    with Suc Cons show ?thesis by (auto simp: strcmp_eq_terminated)
  qed (auto simp: strcmp_eq_terminated)
qed simp

text \<open>
  With distinct key names kvStringToKey inverts kvKeyToString, and any text that is not the
  name of a key is mapped to CS_NUM_KEYS.
\<close>

theorem kvStringToKey_correct:
  assumes "\<forall>n \<in> set (kvStoreKeyMap env). terminated n" and "distinct (map c_str (kvStoreKeyMap env))"
    and "length (kvStoreKeyMap env) = CS_NUM_KEYS env" and "terminated s"
  shows "(\<forall>k n. kvKeyToString env k = Some n \<and> c_str n = c_str s \<longrightarrow> kvStringToKey env s = Some k) \<and>
    ((\<forall>k n. kvKeyToString env k = Some n \<longrightarrow> c_str n \<noteq> c_str s) \<longrightarrow>
      kvStringToKey env s = Some (CS_NUM_KEYS env))"
proof (intro conjI allI impI)
  show "kvStringToKey env s = Some k" if "kvKeyToString env k = Some n \<and> c_str n = c_str s" for k n
    using that find_key_present [OF assms(1,2) _ assms(4), of k 0] assms(3)
    by (auto simp: kvKeyToString_def kvStringToKey_def split: if_splits)
  assume none: "\<forall>k n. kvKeyToString env k = Some n \<longrightarrow> c_str n \<noteq> c_str s"
  have "c_str x \<noteq> c_str s" if x: "x \<in> set (kvStoreKeyMap env)" for x
  proof -
    from x obtain i where "i < CS_NUM_KEYS env" "x = kvStoreKeyMap env ! i"
      using assms(3) by (auto simp: in_set_conv_nth)
    then have "kvKeyToString env i = Some x" by (simp add: kvKeyToString_def)
    with none show ?thesis by blast
  qed
  with find_key_absent [of "kvStoreKeyMap env" s 0] assms show
    "kvStringToKey env s = Some (CS_NUM_KEYS env)"
    by (simp add: kvStringToKey_def)
qed

theorem kvStringToKey_correct_witness:
  "kvStringToKey (shipped_env (psa_its_impl first_fit reference_its 6)) (c_literal ''mqtt_port'') =
     Some CS_CORE_MQTT_PORT"
proof -
  let ?env = "shipped_env (psa_its_impl first_fit reference_its 6)"
  have names: "kvStoreKeyMap ?env = KV_STORE_STRINGS" "CS_NUM_KEYS ?env = 6"
    by (simp_all add: shipped_env_def shipped_defaults(1))
  have "map c_str KV_STORE_STRINGS = map ascii [''thing_name'', ''mqtt_endpoint'', ''mqtt_port'',
      ''wifi_ssid'', ''wifi_credential'', ''time_hwm'']"
    by (simp add: KV_STORE_STRINGS_def c_str_c_literal of_char_def)
  then have d: "distinct (map c_str (kvStoreKeyMap ?env))"
    unfolding names by (simp add: ascii_def of_char_def)
  have n: "\<forall>n \<in> set (kvStoreKeyMap ?env). terminated n" unfolding names by (simp add: KV_STORE_STRINGS_def)
  have l: "length (kvStoreKeyMap ?env) = CS_NUM_KEYS ?env"
    unfolding names by (simp add: KV_STORE_STRINGS_def)
  have "kvKeyToString ?env CS_CORE_MQTT_PORT = Some (c_literal ''mqtt_port'')"
    by (simp add: kvKeyToString_def names CS_CORE_MQTT_PORT_def KV_STORE_STRINGS_def)
  then show ?thesis using kvStringToKey_correct [OF n d l terminated_c_literal] by blast
qed

subsection \<open>Runs of the store\<close>

text \<open>The kernel heap is shared: another user of it may change whatever no entry owns.\<close>

lemma other_heap:
  assumes "kv_inv kv" and "\<And>a. a \<in> (\<Union>e \<in> set (kvStoreCache kv). owned e) \<Longrightarrow> h a = kvHeap kv a"
  shows "kv_inv (kv\<lparr>kvHeap := h\<rparr>)" and "cached (kv\<lparr>kvHeap := h\<rparr>) = cached kv"
proof -
  have "\<forall>a \<in> owned (kvStoreCache kv ! i). h a = kvHeap kv a" if "i < length (kvStoreCache kv)" for i
    using assms(2) nth_mem [OF that] by blast
  note e = entry_frame [OF this]
  show "kv_inv (kv\<lparr>kvHeap := h\<rparr>)" using assms(1) e(1) by (simp add: kv_inv_def)
  show "cached (kv\<lparr>kvHeap := h\<rparr>) = cached kv" using e(2) by (auto simp: cached_def get_entry_def fun_eq_iff)
qed

text \<open>
  The runs of the store from power-up: every operation of the interface that changes its state,
  what other users of the kernel heap do outside the blocks of the store, and a power cycle, which keeps only what the backend stores. A write of a long value is a
  step only while the allocator has room for it.
\<close>

inductive kv_reachable :: "'w kv_env \<Rightarrow> 'w \<Rightarrow> 'w kv \<Rightarrow> bool" for env w0 where
  power_up: "KVStore_init env (booted (CS_NUM_KEYS env) w0) = Some kv \<Longrightarrow> kv_reachable env w0 kv"
| setUInt32: "kv_reachable env w0 kv \<Longrightarrow> KVStore_setUInt32 env k v kv = Some (r, kv') \<Longrightarrow>
    kv_reachable env w0 kv'"
| setInt32: "kv_reachable env w0 kv \<Longrightarrow> KVStore_setInt32 env k v kv = Some (r, kv') \<Longrightarrow>
    kv_reachable env w0 kv'"
| setUBase: "kv_reachable env w0 kv \<Longrightarrow> KVStore_setUBase env k v kv = Some (r, kv') \<Longrightarrow>
    kv_reachable env w0 kv'"
| setBase: "kv_reachable env w0 kv \<Longrightarrow> KVStore_setBase env k v kv = Some (r, kv') \<Longrightarrow>
    kv_reachable env w0 kv'"
| setString: "kv_reachable env w0 kv \<Longrightarrow> length (c_str s) + 9 < 2 ^ 32 \<Longrightarrow>
    room (kvAlloc env) (kvHeap kv) (length (c_str s) + 1) \<Longrightarrow>
    KVStore_setString env k (Some s) kv = Some (r, kv') \<Longrightarrow> kv_reachable env w0 kv'"
| setBlob: "kv_reachable env w0 kv \<Longrightarrow> n + 8 < 2 ^ 32 \<Longrightarrow> n \<le> length b \<Longrightarrow>
    room (kvAlloc env) (kvHeap kv) n \<Longrightarrow>
    KVStore_setBlob env k n (Some b) kv = Some (r, kv') \<Longrightarrow> kv_reachable env w0 kv'"
| commit: "kv_reachable env w0 kv \<Longrightarrow> KVStore_xCommitChanges (kvImpl env) kv = Some (r, kv') \<Longrightarrow>
    kv_reachable env w0 kv'"
| other_user: "kv_reachable env w0 kv \<Longrightarrow>
    (\<And>a. a \<in> (\<Union>e \<in> set (kvStoreCache kv). owned e) \<Longrightarrow> h a = kvHeap kv a) \<Longrightarrow>
    kv_reachable env w0 (kv\<lparr>kvHeap := h\<rparr>)"
| power_cycle: "kv_reachable env w0 kv \<Longrightarrow>
    KVStore_init env (booted (CS_NUM_KEYS env) (kvNv kv)) = Some kv' \<Longrightarrow> kv_reachable env w0 kv'"

context nv_backend
begin

definition env_matches :: "'w kv_env \<Rightarrow> bool" where
  "env_matches env \<longleftrightarrow> kvImpl env = impl \<and> CS_NUM_KEYS env = num_keys \<and> kvMutexMemory env \<and>
     fresh_allocator (kvAlloc env) \<and> enough_memory (kvAlloc env) num_keys \<and>
     (\<forall>d \<in> set (kvStoreDefaults env). default_ok d)"

lemma init_correct:
  assumes "env_matches env" and "wf w"
  shows "\<exists>kv. KVStore_init env (booted (CS_NUM_KEYS env) w) = Some kv \<and> synced kv \<and> kv_ready env kv \<and>
    (\<forall>k < num_keys. cached kv k = stored w k)"
proof -
  from assms(1) have e: "kvImpl env = impl" "CS_NUM_KEYS env = num_keys" "kvMutexMemory env"
    "fresh_allocator (kvAlloc env)" "enough_memory (kvAlloc env) num_keys"
    "\<forall>d \<in> set (kvStoreDefaults env). default_ok d" by (simp_all add: env_matches_def)
  from init_boot [OF e(4,5) assms(2), of Held] obtain kv where i:
    "vprvCacheInit (kvAlloc env) impl ((booted num_keys w)\<lparr>xKvMutex := Held\<rparr>) = Some kv" "synced kv"
    "\<forall>k < num_keys. cached kv k = stored w k \<and> \<not> pending kv k" "xKvMutex kv = Held" by blast
  have "xKvMutex (booted num_keys w) = Absent" by (simp add: booted_def)
  with i e have "KVStore_init env (booted (CS_NUM_KEYS env) w) = Some (kv\<lparr>xKvMutex := Free\<rparr>)"
    by (simp add: KVStore_init_def)
  moreover have "synced (kv\<lparr>xKvMutex := Free\<rparr>)"
    using i(2) by (simp add: synced_def pending_def)
  moreover have "kv_ready env (kv\<lparr>xKvMutex := Free\<rparr>)"
    using i(2) e by (simp add: synced_def kv_ready_def)
  ultimately show ?thesis using i(3) by auto
qed

definition kv_good :: "'w kv_env \<Rightarrow> 'w kv \<Rightarrow> bool" where
  "kv_good env kv \<longleftrightarrow> synced kv \<and> kv_ready env kv"

lemma write_good:
  assumes "kv_good env kv" and "env_matches env" and "key_has_type env k t"
    and "t \<noteq> KV_TYPE_NONE" "t \<noteq> KV_TYPE_LAST"
    and "4 < n \<Longrightarrow> room (kvAlloc env) (kvHeap kv) n" and "n \<le> length b" and "0 < n" and "n + 8 < 2 ^ 32"
    and "xprvWriteCacheEntry (kvAlloc env) k t n (Some b) kv = Some (r, kv')"
  shows "kv_good env kv'"
proof -
  have "read_at b 0 n = read_at (take n b) 0 n" using assms(7) by (simp add: read_at_def)
  from write_cache_prefix [OF this] assms(10)
  have wr: "xprvWriteCacheEntry (kvAlloc env) k t n (Some (take n b)) kv = Some (r, kv')" by metis
  have sv: "storable t (take n b)" "length (take n b) = n"
    using assms(4,7-9) by (auto simp: storable_def)
  have "k < num_keys" "synced kv" "fresh_allocator (kvAlloc env)"
    using assms(1-3) by (simp_all add: key_has_type_def env_matches_def kv_good_def)
  from write_synced [OF this(2,1,3) _ sv(1) assms(5), unfolded sv(2), OF assms(6)] wr
  have "synced kv'" "xKvMutex kv' = xKvMutex kv" by auto
  moreover from \<open>synced kv'\<close> have "kv_inv kv'" "length (kvStoreCache kv') = num_keys"
    by (simp_all add: synced_def)
  ultimately show ?thesis using assms(1,2) by (simp add: kv_good_def kv_ready_def env_matches_def)
qed

lemma commit_good:
  assumes "kv_good env kv" "env_matches env" and "KVStore_xCommitChanges impl kv = Some (r, kv')"
  shows "kv_good env kv'"
proof -
  from assms(1) have "synced kv" by (simp add: kv_good_def)
  from commit_correct [OF this] assms(3)
  have "synced kv'" "kvStoreCache kv' = kvStoreCache kv" "xKvMutex kv' = xKvMutex kv" by auto
  with assms(1) show ?thesis by (simp add: kv_good_def kv_ready_def synced_def)
qed

lemma reachable_good:
  assumes "kv_reachable env w0 kv" and "env_matches env" and "wf w0"
  shows "kv_good env kv"
  using assms(1)
proof induction
  case (power_up kv)
  with init_correct [OF assms(2,3)] show ?case by (auto simp: kv_good_def)
next
  case (setUInt32 kv k v r kv')
  then show ?case using write_good [of env kv k KV_TYPE_UINT32 4 "le32 v" r kv'] assms(2)
    by (auto simp: KVStore_setUInt32_def write_word_def split: if_splits)
next
  case (setInt32 kv k v r kv')
  then show ?case using write_good [of env kv k KV_TYPE_INT32 4 "le32 v" r kv'] assms(2)
    by (auto simp: KVStore_setInt32_def write_word_def split: if_splits)
next
  case (setUBase kv k v r kv')
  then show ?case using write_good [of env kv k KV_TYPE_UBASE_T 4 "le32 v" r kv'] assms(2)
    by (auto simp: KVStore_setUBase_def write_word_def split: if_splits)
next
  case (setBase kv k v r kv')
  then show ?case using write_good [of env kv k KV_TYPE_BASE_T 4 "le32 v" r kv'] assms(2)
    by (auto simp: KVStore_setBase_def write_word_def split: if_splits)
next
  case (setString kv s k r kv')
  then show ?case
    using write_good [of env kv k KV_TYPE_STRING "length (c_str s) + 1" s r kv'] assms(2) terminated_less [of s]
    by (auto simp: KVStore_setString_def strlen_Some_iff split: if_splits)
next
  case (setBlob kv n b k r kv')
  then show ?case using write_good [of env kv k KV_TYPE_BLOB n b r kv'] assms(2)
    by (auto simp: KVStore_setBlob_def split: if_splits)
next
  case (commit kv r kv')
  then show ?case using commit_good assms(2) by (auto simp: env_matches_def)
next
  case (other_user kv h)
  then have "kv_inv kv" by (simp add: kv_good_def kv_ready_def)
  from other_heap [OF this other_user(2)] other_user.IH show ?case
    by (simp add: kv_good_def kv_ready_def synced_def pending_def)
next
  case (power_cycle kv kv')
  then have "wf (kvNv kv)" by (simp add: kv_good_def synced_def)
  with init_correct [OF assms(2) this] power_cycle show ?case by (auto simp: kv_good_def)
qed

lemma persistence:
  assumes "kv_good env kv" "env_matches env"
  shows "\<exists>ok kv1. KVStore_xCommitChanges impl kv = Some (ok, kv1) \<and> kv_good env kv1 \<and>
    (ok \<longrightarrow> (\<exists>kv2. KVStore_init env (booted (CS_NUM_KEYS env) (kvNv kv1)) = Some kv2 \<and>
       kv_good env kv2 \<and> (\<forall>k < num_keys. cached kv2 k = cached kv k)))"
proof -
  from assms(1) have sy: "synced kv" by (simp add: kv_good_def)
  from commit_correct [OF sy] obtain ok kv1 where c: "KVStore_xCommitChanges impl kv = Some (ok, kv1)"
    "synced kv1" "ok \<longrightarrow> (\<forall>k < num_keys. stored (kvNv kv1) k = cached kv k)" by blast
  from c(2) have "wf (kvNv kv1)" by (simp add: synced_def)
  from init_correct [OF assms(2) this] c commit_good [OF assms c(1)] show ?thesis
    by (auto simp: kv_good_def)
qed

end

text \<open>The store as it is built: over Internal Trusted Storage.\<close>

definition psa_env :: "'w its \<Rightarrow> ('w \<Rightarrow> nat \<Rightarrow> bytes option) \<Rightarrow> 'w kv_env \<Rightarrow> bool" where
  "psa_env s contents env \<longleftrightarrow>
     psa_its (kvAlloc env) s contents \<and>
     kvImpl env = psa_its_impl (kvAlloc env) s (CS_NUM_KEYS env) \<and> kvMutexMemory env \<and>
     enough_memory (kvAlloc env) (CS_NUM_KEYS env) \<and> (\<forall>d \<in> set (kvStoreDefaults env). default_ok d)"

lemma psa_env_backend:
  assumes "psa_env s contents env"
  shows "nv_backend (kvImpl env) (CS_NUM_KEYS env) (its_wf contents (CS_NUM_KEYS env)) (its_stored contents)"
    and "nv_backend.env_matches (kvImpl env) (CS_NUM_KEYS env) env"
proof -
  have p: "psa_its (kvAlloc env) s contents" and i: "kvImpl env = psa_its_impl (kvAlloc env) s (CS_NUM_KEYS env)"
    using assms by (simp_all add: psa_env_def)
  show nb: "nv_backend (kvImpl env) (CS_NUM_KEYS env) (its_wf contents (CS_NUM_KEYS env)) (its_stored contents)"
    unfolding i by (rule psa_its.backend [OF p])
  show "nv_backend.env_matches (kvImpl env) (CS_NUM_KEYS env) env"
    unfolding nv_backend.env_matches_def [OF nb]
    using assms psa_its.fresh [OF p] unfolding psa_env_def by blast
qed

text \<open>
  C2: in every state the store can reach from power-up, through any sequence of sets, commits and
  power cycles, the invariant of the cache holds, the mutex is free (so no getter blocks), and
  a key with no pending change has in the cache exactly what the trusted storage holds for it.
\<close>

theorem kv_reachable_invariant:
  assumes "psa_env s contents env" and "its_wf contents (CS_NUM_KEYS env) w0" and "kv_reachable env w0 kv"
  shows "kv_ready env kv \<and> its_wf contents (CS_NUM_KEYS env) (kvNv kv) \<and>
    (\<forall>k < CS_NUM_KEYS env. pending kv k \<or> cached kv k = its_stored contents (kvNv kv) k)"
proof -
  note nb = psa_env_backend [OF assms(1)]
  from nv_backend.reachable_good [OF nb(1) assms(3) nb(2) assms(2)] show ?thesis
    by (simp add: nv_backend.kv_good_def [OF nb(1)] nv_backend.synced_def [OF nb(1)])
qed

text \<open>
  C1: a commit returns, and when it reports success every key reads the same after a power
  cycle as before the commit.
\<close>

theorem KVStore_persistence:
  assumes "psa_env s contents env" and "its_wf contents (CS_NUM_KEYS env) w0" and "kv_reachable env w0 kv"
  shows "\<exists>ok kv1. KVStore_xCommitChanges (kvImpl env) kv = Some (ok, kv1) \<and>
    (ok \<longrightarrow> (\<exists>kv2. KVStore_init env (booted (CS_NUM_KEYS env) (kvNv kv1)) = Some kv2 \<and>
       kv_ready env kv2 \<and> (\<forall>k < CS_NUM_KEYS env. kv_lookup env kv2 k = kv_lookup env kv k)))"
proof -
  note nb = psa_env_backend [OF assms(1)]
  from nv_backend.persistence [OF nb(1) nv_backend.reachable_good [OF nb(1) assms(3) nb(2) assms(2)] nb(2)]
  show ?thesis by (auto simp: nv_backend.kv_good_def [OF nb(1)] kv_lookup_def)
qed

lemma shipped_psa_env: "psa_env reference_its (\<lambda>w. w) (shipped_env (psa_its_impl first_fit reference_its 6))"
  using enough_memory_def first_fit_room reference.psa_its_axioms shipped_ready [of undefined undefined]
  by (auto simp: psa_env_def kv_ready_def shipped_env_def shipped_defaults(1) enough_memory_def)


theorem kv_reachable_invariant_witness:
  "\<exists>kv. kv_reachable (shipped_env (psa_its_impl first_fit reference_its 6)) Map.empty kv \<and>
     kv_ready (shipped_env (psa_its_impl first_fit reference_its 6)) kv"
proof -
  let ?env = "shipped_env (psa_its_impl first_fit reference_its 6)"
  have wf: "its_wf (\<lambda>w. w) (CS_NUM_KEYS ?env) Map.empty" by (simp add: its_wf_def)
  note nb = psa_env_backend [OF shipped_psa_env]
  from nv_backend.init_correct [OF nb, OF wf] obtain kv where
    "KVStore_init ?env (booted (CS_NUM_KEYS ?env) Map.empty) = Some kv" by blast
  then have "kv_reachable ?env Map.empty kv" by (rule power_up)
  with kv_reachable_invariant [OF shipped_psa_env wf this] show ?thesis by blast
qed

theorem KVStore_persistence_witness:
  "\<exists>kv ok kv1. kv_reachable (shipped_env (psa_its_impl first_fit reference_its 6)) Map.empty kv \<and>
     kv_lookup (shipped_env (psa_its_impl first_fit reference_its 6)) kv CS_TIME_HWM_S_1970 = le32 77 \<and>
     KVStore_xCommitChanges (psa_its_impl first_fit reference_its 6) kv = Some (ok, kv1)"
proof -
  let ?env = "shipped_env (psa_its_impl first_fit reference_its 6)"
  have wf: "its_wf (\<lambda>w. w) (CS_NUM_KEYS ?env) Map.empty" by (simp add: its_wf_def)
  note nb = psa_env_backend [OF shipped_psa_env]
  from nv_backend.init_correct [OF nb, OF wf] obtain kv0 where
    init: "KVStore_init ?env (booted (CS_NUM_KEYS ?env) Map.empty) = Some kv0" "kv_ready ?env kv0" by blast
  have "key_has_type ?env CS_TIME_HWM_S_1970 KV_TYPE_UINT32" "fresh_allocator (kvAlloc ?env)"
    by (simp_all add: key_has_type_def shipped_env_def KV_STORE_DEFAULTS_def CS_TIME_HWM_S_1970_def
        KV_DFLT_UINT32_def first_fit_fresh)
  from write_word_correct [OF init(2) this, of 77] obtain kv where
    set: "KVStore_setUInt32 ?env CS_TIME_HWM_S_1970 77 kv0 = Some (True, kv)"
      "cached kv = (cached kv0)(CS_TIME_HWM_S_1970 \<mapsto> (KV_TYPE_UINT32, le32 77))"
    by (auto simp: KVStore_setUInt32_def)
  have reach: "kv_reachable ?env Map.empty kv"
    by (rule kv_reachable.setUInt32 [OF power_up [OF init(1)] set(1)])
  have "kvImpl ?env = psa_its_impl first_fit reference_its 6" by (simp add: shipped_env_def)
  with KVStore_persistence [OF shipped_psa_env wf reach] obtain ok kv1 where
    "KVStore_xCommitChanges (psa_its_impl first_fit reference_its 6) kv = Some (ok, kv1)" by auto
  moreover have "kv_lookup ?env kv CS_TIME_HWM_S_1970 = le32 77" using set(2) by (simp add: lookup_updated)
  ultimately show ?thesis using reach by blast
qed

end
