(* ===== verification/CText.thy ===== *)
theory CText
  imports CStrings
begin

text \<open>
  Text functions of the C library that the command line uses: \<open>strtok_r\<close>, \<open>strtol\<close>, \<open>strtoul\<close> and the
  part of \<open>snprintf\<close> that its formats need. \<open>long\<close> has 32 bits on the target.
\<close>

subsection \<open>Words of a line\<close>

abbreviation SPACE :: u8 where "SPACE \<equiv> 32"

function split_words :: "bytes \<Rightarrow> bytes list" where
  "split_words s = (case dropWhile (\<lambda>c. c = SPACE) s of
     [] \<Rightarrow> []
   | c # t \<Rightarrow> takeWhile (\<lambda>c. c \<noteq> SPACE) (c # t) # split_words (dropWhile (\<lambda>c. c \<noteq> SPACE) t))"
  by pat_completeness auto
termination
proof (relation "measure length")
  fix s c t
  assume "dropWhile (\<lambda>c. c = SPACE) s = c # t"
  then have "length t < length s" by (metis length_dropWhile_le length_Cons Suc_le_eq)
  then show "(dropWhile (\<lambda>c. c \<noteq> SPACE) t, s) \<in> measure length"
    using length_dropWhile_le [of "\<lambda>c. c \<noteq> SPACE" t] by simp
qed simp

declare split_words.simps [simp del]

lemma split_words_Nil [simp]: "split_words [] = []"
  by (simp add: split_words.simps)

lemma split_words_space [simp]: "split_words (SPACE # s) = split_words s"
  by (subst (1 2) split_words.simps) simp

lemma split_words_word:
  assumes "w \<noteq> []" and "SPACE \<notin> set w" and "s = [] \<or> hd s = SPACE"
  shows "split_words (w @ s) = w # split_words s"
proof -
  obtain c w' where w: "w = c # w'" using assms(1) by (cases w) auto
  then have "c \<noteq> SPACE" and w': "\<forall>x \<in> set w'. x \<noteq> SPACE" using assms(2) by auto
  then have d: "dropWhile (\<lambda>c. c = SPACE) (w @ s) = c # w' @ s" by (simp add: w)
  have "takeWhile (\<lambda>c. c \<noteq> SPACE) (w' @ s) = w'" "dropWhile (\<lambda>c. c \<noteq> SPACE) (w' @ s) = s"
    using w' assms(3) by (cases s; simp)+
  then show ?thesis
    using d \<open>c \<noteq> SPACE\<close> w unfolding split_words.simps [of "w @ s"] by simp
qed

lemma split_words_spaces: "set k \<subseteq> {SPACE} \<Longrightarrow> split_words (k @ s) = split_words s"
  by (induction k) auto

text \<open>A line is blank, or begins with a word.\<close>

lemma line_cases:
  obtains (blank) "set s \<subseteq> {SPACE}"
  | (word) k w t where "s = k @ w @ t" "set k \<subseteq> {SPACE}" "w \<noteq> []" "SPACE \<notin> set w" "t = [] \<or> hd t = SPACE"
proof (cases "dropWhile (\<lambda>c. c = SPACE) s")
  case Nil
  then show thesis using blank by (auto simp: dropWhile_eq_Nil_conv)
next
  case (Cons c u)
  let ?w = "takeWhile (\<lambda>c. c \<noteq> SPACE) (c # u)" and ?t = "dropWhile (\<lambda>c. c \<noteq> SPACE) (c # u)"
  have c: "c \<noteq> SPACE" using Cons by (simp add: dropWhile_eq_Cons_conv)
  show thesis
  proof (rule word)
    show "s = takeWhile (\<lambda>c. c = SPACE) s @ ?w @ ?t" using Cons takeWhile_dropWhile_id [of "\<lambda>c. c = SPACE" s] by (simp only: takeWhile_dropWhile_id)
    show "set (takeWhile (\<lambda>c. c = SPACE) s) \<subseteq> {SPACE}" by (auto dest: set_takeWhileD)
    show "?w \<noteq> []" using c by simp
    show "SPACE \<notin> set ?w" by (auto dest: set_takeWhileD)
    show "?t = [] \<or> hd ?t = SPACE" using hd_dropWhile [of "\<lambda>c. c \<noteq> SPACE" "c # u"] by blast
  qed
qed

lemma split_words_blank: "set s \<subseteq> {SPACE} \<Longrightarrow> split_words s = []"
  using split_words_spaces [of s "[]"] by simp

subsection \<open>strtok_r\<close>

text \<open>
  The first position from \<open>i\<close> on whose character satisfies \<open>P\<close>; \<open>None\<close> when the search leaves the
  buffer. \<open>strtok_r\<close> with one delimiter \<open>d\<close> starts at \<open>i\<close>, the string or the saved context, and gives
  the position of the token (\<open>None\<close> is \<open>NULL\<close>), the new context and the buffer.
\<close>

definition scan :: "(u8 \<Rightarrow> bool) \<Rightarrow> bytes \<Rightarrow> nat \<Rightarrow> nat option" where
  "scan P b i =
     (let j = i + length (takeWhile (\<lambda>c. \<not> P c) (drop i b)) in if j < length b then Some j else None)"

definition strtok_r :: "u8 \<Rightarrow> bytes \<Rightarrow> nat \<Rightarrow> (nat option \<times> nat \<times> bytes) option" where
  "strtok_r d b i = do {
     s \<leftarrow> scan (\<lambda>c. c \<noteq> d) b i;
     if b ! s = 0 then Some (None, s, b)
     else do {
       e \<leftarrow> scan (\<lambda>c. c = d \<or> c = 0) b s;
       if b ! e = 0 then Some (Some s, e, b)
       else Some (Some s, e + 1, b[e := 0]) } }"

lemma scan_append:
  assumes "i = length pre" and "\<forall>c \<in> set x. \<not> P c" and "P c"
  shows "scan P (pre @ x @ c # rest) i = Some (length pre + length x)"
  using assms by (simp add: scan_def)

lemma strtok_r_end:
  assumes "set k \<subseteq> {d}" and "d \<noteq> 0" and "i = length pre"
  shows "strtok_r d (pre @ k @ 0 # rest) i = Some (None, length pre + length k, pre @ k @ 0 # rest)"
proof -
  have "scan (\<lambda>c. c \<noteq> d) (pre @ k @ 0 # rest) i = Some (length pre + length k)"
    by (rule scan_append) (use assms in auto)
  moreover have "(pre @ k @ 0 # rest) ! (length pre + length k) = 0" by (metis append.assoc length_append nth_append_length)
  ultimately show ?thesis by (simp add: strtok_r_def)
qed

lemma strtok_r_word:
  assumes "set k \<subseteq> {d}" and "d \<noteq> 0" and "i = length pre"
    and "w \<noteq> []" and "d \<notin> set w" and "0 \<notin> set w" and "x = d \<or> x = 0"
  shows "strtok_r d (pre @ k @ w @ x # rest) i =
    Some (Some (length pre + length k),
      length pre + length k + length w + (if x = 0 then 0 else 1), pre @ k @ w @ 0 # rest)"
proof -
  obtain c v where w: "w = c # v" using assms(4) by (cases w) auto
  let ?b = "pre @ k @ w @ x # rest"
  have "scan (\<lambda>c. c \<noteq> d) (pre @ k @ c # v @ x # rest) i = Some (length pre + length k)"
    by (rule scan_append) (use assms w in auto)
  then have s1: "scan (\<lambda>c. c \<noteq> d) ?b i = Some (length pre + length k)" by (simp add: w)
  have "(pre @ k) @ w @ x # rest = ?b" by simp
  moreover have "scan (\<lambda>c. c = d \<or> c = 0) ((pre @ k) @ w @ x # rest) (length pre + length k) =
      Some (length (pre @ k) + length w)"
    by (rule scan_append) (use assms in auto)
  ultimately have s2: "scan (\<lambda>c. c = d \<or> c = 0) ?b (length pre + length k) = Some (length pre + length k + length w)" by simp
  have n1: "?b ! (length pre + length k) = c" by (simp add: w nth_append)
  have n2: "?b ! (length pre + length k + length w) = x" by (simp add: nth_append)
  have up: "?b[length pre + length k + length w := 0] = pre @ k @ w @ 0 # rest" by (simp add: list_update_append)
  have "c \<noteq> 0" using assms(6) w by auto
  then show ?thesis
    using s1 s2 n1 n2 up assms(7) by (auto simp: strtok_r_def)
qed

subsection \<open>Numbers\<close>

text \<open>
  The conversions \<open>%lu\<close> and \<open>%ld\<close>, and their inverses. \<open>strtol\<close> and \<open>strtoul\<close> give the value, as its
  32-bit pattern, and the number of characters they have used; on overflow they saturate.
\<close>

fun decimal :: "nat \<Rightarrow> bytes" where
  "decimal n = (if n < 10 then [of_nat (48 + n)] else decimal (n div 10) @ [of_nat (48 + n mod 10)])"

declare decimal.simps [simp del]

definition format_lu :: "u32 \<Rightarrow> bytes" where
  "format_lu v = decimal (unat v)"

definition format_ld :: "u32 \<Rightarrow> bytes" where
  "format_ld v = (if sint v < 0 then 45 # decimal (nat (- sint v)) else decimal (nat (sint v)))"

definition isspace :: "u8 \<Rightarrow> bool" where
  "isspace c \<longleftrightarrow> c = SPACE \<or> (9 \<le> c \<and> c \<le> 13)"

definition isdigit :: "u8 \<Rightarrow> bool" where
  "isdigit c \<longleftrightarrow> 48 \<le> c \<and> c \<le> 57"

definition digits_value :: "bytes \<Rightarrow> nat" where
  "digits_value ds = foldl (\<lambda>a c. 10 * a + (unat c - 48)) 0 ds"

definition parse_number :: "bytes \<Rightarrow> bool \<times> nat \<times> nat" where
  "parse_number s =
     (let t = dropWhile isspace s;
          neg = (t \<noteq> [] \<and> hd t = 45);
          t = (if t \<noteq> [] \<and> (hd t = 45 \<or> hd t = 43) then tl t else t);
          ds = takeWhile isdigit t
      in (neg, digits_value ds, if ds = [] then 0 else length s - length t + length ds))"

definition strtol :: "bytes \<Rightarrow> (u32 \<times> nat) option" where
  "strtol b =
     (if terminated b
      then let (neg, n, used) = parse_number (c_str b);
               v = (if neg then - int n else int n)
        in Some (of_int (if v < - (2 ^ 31) then - (2 ^ 31) else if v > 2 ^ 31 - 1 then 2 ^ 31 - 1 else v), used)
      else None)"

definition strtoul :: "bytes \<Rightarrow> (u32 \<times> nat) option" where
  "strtoul b =
     (if terminated b
      then let (neg, n, used) = parse_number (c_str b)
        in Some (if n > 2 ^ 32 - 1 then - 1 else if neg then - of_nat n else of_nat n, used)
      else None)"

lemma digit_byte: "n < 10 \<Longrightarrow> isdigit (of_nat (48 + n)) \<and> unat (of_nat (48 + n) :: u8) = 48 + n \<and> \<not> isspace (of_nat (48 + n)) \<and>
   (of_nat (48 + n) :: u8) \<noteq> 0 \<and> (of_nat (48 + n) :: u8) \<noteq> 43 \<and> (of_nat (48 + n) :: u8) \<noteq> 45"
  by (auto simp: isdigit_def isspace_def word_le_nat_alt unat_of_nat word_unat_eq_iff simp del: of_nat_add)

lemma decimal_digits: "decimal n \<noteq> [] \<and> (\<forall>c \<in> set (decimal n). isdigit c \<and> \<not> isspace c \<and> c \<noteq> 0 \<and> c \<noteq> 43 \<and> c \<noteq> 45)"
proof (induction n rule: decimal.induct)
  case (1 n)
  show ?case
    using 1 digit_byte [of n] digit_byte [of "n mod 10"] by (subst (1 2) decimal.simps) (auto simp del: of_nat_add)
qed

lemma digits_value_decimal: "digits_value (decimal n) = n"
proof (induction n rule: decimal.induct)
  case (1 n)
  show ?case
    using 1 digit_byte [of n] digit_byte [of "n mod 10"] by (subst decimal.simps) (auto simp: digits_value_def simp del: of_nat_add)
qed

lemma parse_decimal: "parse_number (decimal n) = (False, n, length (decimal n))"
proof -
  obtain c ds where d: "decimal n = c # ds" using decimal_digits [of n] by (cases "decimal n") auto
  have c: "\<not> isspace c" "c \<noteq> 43" "c \<noteq> 45" "\<forall>x \<in> set (c # ds). isdigit x" using decimal_digits [of n] d by auto
  then have tw: "takeWhile isdigit ds = ds" by (simp add: takeWhile_eq_all_conv)
  with c show ?thesis using digits_value_decimal [of n] by (simp add: parse_number_def d tw Let_def)
qed

lemma parse_negative: "parse_number (45 # decimal n) = (True, n, Suc (length (decimal n)))"
proof -
  have tw: "takeWhile isdigit (decimal n) = decimal n" using decimal_digits [of n] by (simp add: takeWhile_eq_all_conv)
  have "\<not> isspace 45" by (simp add: isspace_def)
  then show ?thesis using decimal_digits [of n] digits_value_decimal [of n] by (simp add: parse_number_def tw Let_def)
qed

lemma decimal_c_str: "0 \<notin> set (decimal n)"
  using decimal_digits [of n] by auto

lemma strtoul_format: "strtoul (format_lu v @ 0 # rest) = Some (v, length (format_lu v))"
proof -
  have "c_str (decimal (unat v) @ 0 # rest) = decimal (unat v)" by (rule c_str_append_zero [OF decimal_c_str])
  moreover have "unat v < 2 ^ 32" using unsigned_less [of v] by simp
  ultimately show ?thesis by (simp add: strtoul_def format_lu_def parse_decimal terminated_def)
qed

lemma strtol_format: "strtol (format_ld v @ 0 # rest) = Some (v, length (format_ld v))"
proof -
  have r: "- (2 ^ 31) \<le> sint v" "sint v \<le> 2 ^ 31 - 1" using sint_greater_eq [of v] sint_less [of v] by simp_all
  have "0 \<notin> set (format_ld v)" using decimal_c_str by (simp add: format_ld_def)
  then have "c_str (format_ld v @ 0 # rest) = format_ld v" by (rule c_str_append_zero)
  then show ?thesis using r by (auto simp: strtol_def format_ld_def parse_decimal parse_negative terminated_def Let_def)
qed

subsection \<open>snprintf\<close>

text \<open>
  \<open>snprintf\<close> once its format is expanded to \<open>text\<close>: what fits, and a terminator; the result is the length
  of the whole text.
\<close>

definition snprintf :: "bytes \<Rightarrow> nat \<Rightarrow> bytes \<Rightarrow> (nat \<times> bytes) option" where
  "snprintf buf n text = do {
     buf \<leftarrow> (if n = 0 then Some buf else write_at buf 0 (take (n - 1) text @ [0]));
     Some (length text, buf) }"

text \<open>The argument of a \<open>%s\<close>.\<close>

definition format_s :: "bytes \<Rightarrow> bytes option" where
  "format_s p = (if terminated p then Some (c_str p) else None)"

lemma snprintf_fits:
  assumes "length text < n" and "n \<le> length buf"
  shows "snprintf buf n text = Some (length text, text @ 0 # drop (length text + 1) buf)"
  using assms by (simp add: snprintf_def write_at_def)

end
