(* ===== verification/CliIo.thy ===== *)
theory CliIo
  imports KvStore CText
begin

text \<open>
  The console of the command line (cli_io_drv.c) and the state of the command line: the buffers of the
  console and of cli_main.c, the list of registered commands, and the key-value store that the command
  \<open>conf\<close> works on. What is printed is the list of bytes in \<open>cliStdout\<close>; what is typed is the list that
  \<open>getchar\<close> delivers, and waiting for more of it than there is never ends.
\<close>

subsection \<open>State\<close>

text \<open>The interpreter of a command is a function pointer: one of the four that the program has.\<close>

datatype command_interpreter = ip_prvHelpCommand | ip_vCommand_Configure | ip_vCommand_PKI | ip_vResetCommand

record CLI_Command_Definition_t =
  pcCommand :: bytes
  pcHelpString :: bytes
  pxCommandInterpreter :: command_interpreter

record 'w cli =
  cliKv :: "'w kv"
  pcCliScratchBuffer :: bytes
  pcOutputBuffer :: bytes
  pcInputBuffer :: bytes
  xRegisteredCommands :: "CLI_Command_Definition_t list"
  pxHelpCommand :: "nat option"
  cliStdout :: bytes
  cliReset :: bool

definition CLI_OUTPUT_SCRATCH_BUF_LEN :: nat where "CLI_OUTPUT_SCRATCH_BUF_LEN = 512"
definition CLI_INPUT_LINE_LEN_MAX :: nat where "CLI_INPUT_LINE_LEN_MAX = 128"
definition CLI_PROMPT_STR :: bytes where "CLI_PROMPT_STR = [62, 32]"
definition CLI_OUTPUT_EOL :: bytes where "CLI_OUTPUT_EOL = [13, 10]"
definition sizeof_output_buffer :: nat where "sizeof_output_buffer = 2046"

definition cli_buffers_ok :: "'w cli \<Rightarrow> bool" where
  "cli_buffers_ok s \<longleftrightarrow> length (pcCliScratchBuffer s) = CLI_OUTPUT_SCRATCH_BUF_LEN \<and>
     length (pcOutputBuffer s) = sizeof_output_buffer \<and> length (pcInputBuffer s) = CLI_INPUT_LINE_LEN_MAX \<and>
     drop CLI_OUTPUT_SCRATCH_BUF_LEN (pcOutputBuffer s) = replicate (sizeof_output_buffer - CLI_OUTPUT_SCRATCH_BUF_LEN) 0"

subsection \<open>Output\<close>

definition io_print :: "bytes \<Rightarrow> 'w cli \<Rightarrow> 'w cli option" where
  "io_print pcString s = do {
     t \<leftarrow> format_s pcString;
     Some (s\<lparr>cliStdout := cliStdout s @ t\<rparr>) }"

definition io_write :: "bytes \<Rightarrow> nat \<Rightarrow> 'w cli \<Rightarrow> 'w cli option" where
  "io_write pvOutputBuffer xOutputBufferLen s = do {
     b \<leftarrow> strncpy (pcOutputBuffer s) pvOutputBuffer xOutputBufferLen;
     b \<leftarrow> (if xOutputBufferLen < CLI_OUTPUT_SCRATCH_BUF_LEN then write_at b xOutputBufferLen [0] else Some b);
     t \<leftarrow> format_s b;
     Some (s\<lparr>pcOutputBuffer := b, cliStdout := cliStdout s @ t\<rparr>) }"

subsection \<open>Input\<close>

definition CNTLC :: u8 where "CNTLC = 0x03"
definition BACKSPACE :: u8 where "BACKSPACE = 0x08"
definition LF :: u8 where "LF = 0x0A"
definition CR :: u8 where "CR = 0x0D"
definition DEL :: u8 where "DEL = 0x7F"

text \<open>
  One turn of the loop on the character \<open>c\<close>: the count, which is also the offset of \<open>line\<close>, the buffer,
  the output and \<open>eol\<close>.
\<close>

definition read_char :: "u8 \<Rightarrow> nat \<times> bytes \<times> bytes \<Rightarrow> (nat \<times> bytes \<times> bytes \<times> bool) option" where
  "read_char c = (\<lambda>(cnt, buf, out).
     if c = CNTLC then Some (cnt, buf, out @ CLI_OUTPUT_EOL @ CLI_PROMPT_STR, False)
     else if c = BACKSPACE \<or> c = DEL
     then if cnt = 0 then Some (cnt, buf, out, False)
       else Some (cnt - 1, buf, out @ [BACKSPACE, SPACE, BACKSPACE], False)
     else if c = LF \<or> c = CR
     then if cnt = 0 then Some (cnt, buf, out, False)
       else Some (cnt, buf, out @ CLI_OUTPUT_EOL, True)
     else do {
       buf \<leftarrow> write_at buf cnt [c];
       Some (cnt + 1, buf, out @ [c], False) })"

fun read_chars :: "bytes \<Rightarrow> nat \<times> bytes \<times> bytes \<Rightarrow> (nat \<times> bytes \<times> bytes \<times> bytes) option" where
  "read_chars [] st = None"
| "read_chars (c # cs) st = do {
     (cnt, buf, out, eol) \<leftarrow> read_char c st;
     if cnt < CLI_INPUT_LINE_LEN_MAX - 1 \<and> \<not> eol then read_chars cs (cnt, buf, out)
     else Some (cnt, buf, out, cs) }"

text \<open>The result has what is left of the input.\<close>

definition io_readline :: "bytes \<Rightarrow> 'w cli \<Rightarrow> (nat \<times> 'w cli \<times> bytes) option" where
  "io_readline input s = do {
     (cnt, buf, out, input) \<leftarrow> read_chars input (0, pcInputBuffer s, cliStdout s @ CLI_PROMPT_STR);
     buf \<leftarrow> write_at buf cnt [0];
     Some (cnt, s\<lparr>pcInputBuffer := buf, cliStdout := out\<rparr>, input) }"

subsection \<open>The line that is typed\<close>

text \<open>
  The specification of line editing: Control-C has no effect on the line, backspace and delete take its last
  character back, a carriage return or line feed ends it unless it is empty, and it also ends when it has
  127 characters. \<open>None\<close>: the input has no end of the line yet.
\<close>

definition edit_char :: "u8 \<Rightarrow> bytes \<Rightarrow> bytes" where
  "edit_char c line =
     (if c = CNTLC \<or> c = LF \<or> c = CR then line
      else if c = BACKSPACE \<or> c = DEL then butlast line
      else line @ [c])"

fun typed_line :: "bytes \<Rightarrow> bytes \<Rightarrow> (bytes \<times> bytes) option" where
  "typed_line [] line = None"
| "typed_line (c # cs) line =
     (let line' = edit_char c line
      in if length line' = 127 \<or> (c = LF \<or> c = CR) \<and> line \<noteq> [] then Some (line', cs) else typed_line cs line')"

lemma control_codes: "CNTLC \<noteq> LF" "CNTLC \<noteq> CR" "BACKSPACE \<noteq> LF" "BACKSPACE \<noteq> CR" "DEL \<noteq> LF" "DEL \<noteq> CR" "CNTLC \<noteq> BACKSPACE" "CNTLC \<noteq> DEL"
  by (simp_all add: CNTLC_def BACKSPACE_def LF_def CR_def DEL_def)

lemma read_char_edit:
  assumes "length buf = 128" and "take (length line) buf = line" and "length line < 127"
  shows "\<exists>buf' out'. read_char c (length line, buf, out) =
      Some (length (edit_char c line), buf', out', (c = LF \<or> c = CR) \<and> line \<noteq> []) \<and>
    length buf' = 128 \<and> take (length (edit_char c line)) buf' = edit_char c line \<and> length (edit_char c line) \<le> 127"
proof -
  have b: "take (length (butlast line)) buf = butlast line"
    using assms(2) by (metis length_butlast take_butlast butlast_take diff_le_self take_take min.absorb2 min.commute butlast_conv_take)
  have a: "take (Suc (length line)) (take (length line) buf @ c # drop (Suc (length line)) buf) = line @ [c]"
    using assms by simp
  show ?thesis
    using assms a b control_codes by (auto simp: read_char_def edit_char_def write_at_def)
qed

lemma read_chars_typed:
  assumes "length buf = 128" and "take (length line) buf = line" and "length line < 127"
  shows "case typed_line input line of
      None \<Rightarrow> read_chars input (length line, buf, out) = None
    | Some (l, rest) \<Rightarrow> length l \<le> 127 \<and> l \<noteq> [] \<and> (\<exists>buf' out'. length buf' = 128 \<and> take (length l) buf' = l \<and>
        read_chars input (length line, buf, out) = Some (length l, buf', out', rest))"
  using assms
proof (induction input arbitrary: line buf out)
  case (Cons c cs)
  let ?l = "edit_char c line"
  from read_char_edit [OF Cons.prems, of c out] obtain buf' out' where
    r: "read_char c (length line, buf, out) = Some (length ?l, buf', out', (c = LF \<or> c = CR) \<and> line \<noteq> [])"
      "length buf' = 128" "take (length ?l) buf' = ?l" "length ?l \<le> 127" by blast
  show ?case
  proof (cases "length ?l = 127 \<or> (c = LF \<or> c = CR) \<and> line \<noteq> []")
    case True
    then have "?l \<noteq> []" by (auto simp: edit_char_def)
    with True r show ?thesis by (auto simp: Let_def CLI_INPUT_LINE_LEN_MAX_def)
  next
    case False
    with r(4) have "length ?l < 127" by simp
    from Cons.IH [OF r(2,3) this, of out'] False r(1,4) show ?thesis
      by (auto simp: Let_def CLI_INPUT_LINE_LEN_MAX_def split: option.splits)
  qed
qed simp

lemma io_readline_typed:
  assumes "length (pcInputBuffer s) = CLI_INPUT_LINE_LEN_MAX"
  shows "case typed_line input [] of
      None \<Rightarrow> io_readline input s = None
    | Some (line, rest) \<Rightarrow> 0 < length line \<and> length line < CLI_INPUT_LINE_LEN_MAX \<and>
        (\<exists>buf out. io_readline input s = Some (length line, s\<lparr>pcInputBuffer := buf, cliStdout := out\<rparr>, rest) \<and>
          length buf = CLI_INPUT_LINE_LEN_MAX \<and> take (length line + 1) buf = line @ [0])"
proof (cases "typed_line input []")
  case None
  with read_chars_typed [of "pcInputBuffer s" "[]" input "cliStdout s @ CLI_PROMPT_STR"] assms show ?thesis
    by (simp add: io_readline_def CLI_INPUT_LINE_LEN_MAX_def)
next
  case (Some lr)
  obtain line rest where lr: "lr = (line, rest)" by (cases lr)
  from read_chars_typed [of "pcInputBuffer s" "[]" input "cliStdout s @ CLI_PROMPT_STR"] assms Some lr obtain buf out where
    r: "read_chars input (0, pcInputBuffer s, cliStdout s @ CLI_PROMPT_STR) = Some (length line, buf, out, rest)"
      "length line \<le> 127" "line \<noteq> []" "length buf = 128" "take (length line) buf = line"
    by (auto simp: CLI_INPUT_LINE_LEN_MAX_def)
  let ?buf = "line @ 0 # drop (Suc (length line)) buf"
  have "write_at buf (length line) [0] = Some ?buf" using r(2,4,5) by (simp add: write_at_def)
  with r have "io_readline input s = Some (length line, s\<lparr>pcInputBuffer := ?buf, cliStdout := out\<rparr>, rest)"
    by (simp add: io_readline_def del: write_at_Some)
  moreover have "length ?buf = 128" "take (length line + 1) ?buf = line @ [0]" using r(2,4) by simp_all
  ultimately show ?thesis using Some lr r(2,3) by (auto simp: CLI_INPUT_LINE_LEN_MAX_def simp del: take_append)
qed

text \<open>
  C30: reading a line returns exactly when the input has one, and delivers it: the bytes of the edited line are
  in the buffer behind each other with a terminator after them, inside the 128 bytes of the buffer whatever
  is typed, and the rest of the input is left for the next line.
\<close>

theorem io_readline_correct:
  assumes "length (pcInputBuffer s) = CLI_INPUT_LINE_LEN_MAX"
  shows "case typed_line input [] of
      None \<Rightarrow> io_readline input s = None
    | Some (line, rest) \<Rightarrow> 0 < length line \<and> length line < CLI_INPUT_LINE_LEN_MAX \<and>
        (\<exists>buf out. io_readline input s = Some (length line, s\<lparr>pcInputBuffer := buf, cliStdout := out\<rparr>, rest) \<and>
          length buf = CLI_INPUT_LINE_LEN_MAX \<and> take (length line + 1) buf = line @ [0])"
  by (rule io_readline_typed [OF assms])

definition blank_cli :: "'w kv \<Rightarrow> CLI_Command_Definition_t list \<Rightarrow> 'w cli" where
  "blank_cli kv cmds = \<lparr>cliKv = kv, pcCliScratchBuffer = replicate 512 0, pcOutputBuffer = replicate 2046 0,
     pcInputBuffer = replicate 128 0, xRegisteredCommands = cmds, pxHelpCommand = None, cliStdout = [], cliReset = False\<rparr>"

lemma blank_cli_ok: "cli_buffers_ok (blank_cli kv cmds)"
  by (simp add: cli_buffers_ok_def blank_cli_def CLI_OUTPUT_SCRATCH_BUF_LEN_def sizeof_output_buffer_def CLI_INPUT_LINE_LEN_MAX_def)

text \<open>The characters \<open>helo\<close>, backspace, \<open>p\<close>, carriage return.\<close>

theorem io_readline_correct_witness:
  "case typed_line (ascii ''helo'' @ [8] @ ascii ''p'' @ [13, 65]) [] of
      None \<Rightarrow> io_readline (ascii ''helo'' @ [8] @ ascii ''p'' @ [13, 65]) (blank_cli (booted 0 ()) []) = None
    | Some (line, rest) \<Rightarrow> 0 < length line \<and> length line < CLI_INPUT_LINE_LEN_MAX \<and>
        (\<exists>buf out. io_readline (ascii ''helo'' @ [8] @ ascii ''p'' @ [13, 65]) (blank_cli (booted 0 ()) []) =
            Some (length line, (blank_cli (booted 0 ()) [])\<lparr>pcInputBuffer := buf, cliStdout := out\<rparr>, rest) \<and>
          length buf = CLI_INPUT_LINE_LEN_MAX \<and> take (length line + 1) buf = line @ [0])"
  by (rule io_readline_correct) (simp add: blank_cli_def CLI_INPUT_LINE_LEN_MAX_def)

lemma typed_line_example: "typed_line (ascii ''helo'' @ [8] @ ascii ''p'' @ [13, 65]) [] = Some (ascii ''help'', [65])"
  by (simp add: ascii_def of_char_def edit_char_def CNTLC_def BACKSPACE_def LF_def CR_def DEL_def)

lemma typed_plain:
  assumes "line \<noteq> []" and "length line < 127" and "\<forall>c \<in> set line. c \<noteq> CNTLC \<and> c \<noteq> LF \<and> c \<noteq> CR \<and> c \<noteq> BACKSPACE \<and> c \<noteq> DEL"
  shows "typed_line (line @ CR # rest) [] = Some (line, rest)"
proof -
  have "typed_line (l @ CR # rest) p = Some (p @ l, rest)"
    if "p @ l \<noteq> []" "length (p @ l) < 127" "\<forall>c \<in> set l. c \<noteq> CNTLC \<and> c \<noteq> LF \<and> c \<noteq> CR \<and> c \<noteq> BACKSPACE \<and> c \<noteq> DEL" for l p
    using that
  proof (induction l arbitrary: p)
    case Nil
    then show ?case by (simp add: edit_char_def)
  next
    case (Cons c l)
    then have "edit_char c p = p @ [c]" by (simp add: edit_char_def)
    with Cons.IH [of "p @ [c]"] Cons.prems show ?case by simp
  qed
  from this [of "[]"] assms show ?thesis by simp
qed

text \<open>Control-C shows a new prompt, but what was typed before it stays in the line.\<close>

lemma control_c_keeps_line: "typed_line (ascii ''ab'' @ [3] @ ascii ''c'' @ [13]) [] = Some (ascii ''abc'', [])"
  by (simp add: ascii_def of_char_def edit_char_def CNTLC_def BACKSPACE_def LF_def CR_def DEL_def)

end
