(* ===== verification/CliConf.thy ===== *)
theory CliConf
  imports CliIo
begin

text \<open>
  The command \<open>conf\<close> (cli_conf.c): it reads, sets and commits values of the key-value store. \<open>ppcArgv\<close> is the
  list of the argument strings, \<open>ulArgc\<close> its length; reading an argument behind the last has no meaning.
\<close>

record 'w cli_env =
  cliKvEnv :: "'w kv_env"
  vCommand_PKI :: "bytes option list \<Rightarrow> 'w cli \<Rightarrow> 'w cli option"

definition MODE_ARG_IDX :: nat where "MODE_ARG_IDX = 1"
definition KEY_ARG_IDX :: nat where "KEY_ARG_IDX = 2"
definition VALUE_ARG_IDX :: nat where "VALUE_ARG_IDX = 3"

definition arg :: "bytes option list \<Rightarrow> nat \<Rightarrow> bytes option option" where
  "arg ppcArgv i = (if i < length ppcArgv then Some (ppcArgv ! i) else None)"

definition xCommandDef_conf :: CLI_Command_Definition_t where
  "xCommandDef_conf = \<lparr>pcCommand = c_literal ''conf'', pcHelpString =
     ascii ''conf:'' @ CLI_OUTPUT_EOL @
     ascii ''    Get/ Set/ Commit runtime configuration values'' @ CLI_OUTPUT_EOL @
     ascii ''    Usage:'' @ CLI_OUTPUT_EOL @
     ascii ''    conf get'' @ CLI_OUTPUT_EOL @
     ascii ''        Outputs the value of all runtime config options supported by the system.'' @ CLI_OUTPUT_EOL @ [10] @
     ascii ''    conf get <key>'' @ CLI_OUTPUT_EOL @
     ascii ''        Outputs the current value of a given runtime config item.'' @ CLI_OUTPUT_EOL @ [10] @
     ascii ''    conf set <key> <value>'' @ CLI_OUTPUT_EOL @
     ascii ''        Set the value of a given runtime config item. This change is staged'' @ CLI_OUTPUT_EOL @
     ascii ''        in volatile memory until a commit operation occurs.'' @ CLI_OUTPUT_EOL @ [10] @
     ascii ''    conf commit'' @ CLI_OUTPUT_EOL @
     ascii ''        Commit staged config changes to nonvolatile memory.'' @ CLI_OUTPUT_EOL @ [10] @ [0],
     pxCommandInterpreter = ip_vCommand_Configure\<rparr>"

text \<open>\<open>snprintf\<close> into the scratch buffer: the length of the text and the new state.\<close>

definition scratch_printf :: "bytes \<Rightarrow> 'w cli \<Rightarrow> (nat \<times> 'w cli) option" where
  "scratch_printf text s = do {
     (n, b) \<leftarrow> snprintf (pcCliScratchBuffer s) CLI_OUTPUT_SCRATCH_BUF_LEN text;
     Some (n, s\<lparr>pcCliScratchBuffer := b\<rparr>) }"

subsection \<open>conf commit\<close>

definition vSubCommand_CommitConfig :: "'w cli_env \<Rightarrow> 'w cli \<Rightarrow> 'w cli option" where
  "vSubCommand_CommitConfig env s = do {
     (xResult, kv) \<leftarrow> KVStore_xCommitChanges (kvImpl (cliKvEnv env)) (cliKv s);
     let s = s\<lparr>cliKv := kv\<rparr>;
     if xResult then io_print (ascii ''Configuration saved to NVM.'' @ CLI_OUTPUT_EOL @ [0]) s
     else io_print (ascii ''Error: Could not save configuration to NVM.'' @ CLI_OUTPUT_EOL @ [0]) s }"

subsection \<open>conf get\<close>

text \<open>The cases of the four number types differ in the getter and in the format.\<close>

definition get_number ::
  "('w kv \<Rightarrow> (u32 \<times> bool \<times> 'w kv) option) \<Rightarrow> (u32 \<Rightarrow> bytes) \<Rightarrow> bytes \<Rightarrow> 'w cli \<Rightarrow> (nat \<times> 'w cli) option" where
  "get_number getter fmt pcKey s = do {
     (v, _, kv) \<leftarrow> getter (cliKv s);
     k \<leftarrow> format_s pcKey;
     scratch_printf (k @ ascii ''='' @ fmt v @ CLI_OUTPUT_EOL) (s\<lparr>cliKv := kv\<rparr>) }"

text \<open>\<open>len\<close> is \<open>lResponseLen\<close>, which is also the offset of \<open>pcWorkPtr\<close> in the buffer.\<close>

definition get_text :: "'w kv_env \<Rightarrow> nat \<Rightarrow> bytes \<Rightarrow> 'w cli \<Rightarrow> (nat \<times> 'w cli) option" where
  "get_text env xKey pcKey s = do {
     (len, b) \<leftarrow> stpncpy (pcCliScratchBuffer s) pcKey CLI_OUTPUT_SCRATCH_BUF_LEN;
     (len, b) \<leftarrow> (if len < CLI_OUTPUT_SCRATCH_BUF_LEN
       then do {
         b \<leftarrow> write_at b len (ascii ''='');
         b \<leftarrow> write_at b (len + 1) [34];
         Some (len + 2, b) }
       else Some (len, b));
     (len, b, kv) \<leftarrow> (if len < CLI_OUTPUT_SCRATCH_BUF_LEN
       then do {
         (n, sub, kv) \<leftarrow> KVStore_getString env xKey (Some (drop len b)) (CLI_OUTPUT_SCRATCH_BUF_LEN - len) (cliKv s);
         sub \<leftarrow> sub;
         Some (len + n, take len b @ sub, kv) }
       else Some (len, b, cliKv s));
     let len = (if len + 3 > CLI_OUTPUT_SCRATCH_BUF_LEN then CLI_OUTPUT_SCRATCH_BUF_LEN - 3 else len);
     b \<leftarrow> write_at b len [34, 13, 10];
     Some (len + 3, s\<lparr>cliKv := kv, pcCliScratchBuffer := b\<rparr>) }"

definition vSubCommand_GetConfig :: "'w cli_env \<Rightarrow> bytes option \<Rightarrow> 'w cli \<Rightarrow> 'w cli option" where
  "vSubCommand_GetConfig env pcKey s = do {
     let kenv = cliKvEnv env;
     pcKey \<leftarrow> pcKey;
     xKey \<leftarrow> kvStringToKey kenv pcKey;
     let xKvType = KVStore_getType kenv xKey;
     (lResponseLen, s) \<leftarrow>
       (case xKvType of
          KV_TYPE_BASE_T \<Rightarrow> get_number (KVStore_getBase kenv xKey) format_ld pcKey s
        | KV_TYPE_UBASE_T \<Rightarrow> get_number (KVStore_getUBase kenv xKey) format_lu pcKey s
        | KV_TYPE_INT32 \<Rightarrow> get_number (KVStore_getInt32 kenv xKey) format_ld pcKey s
        | KV_TYPE_UINT32 \<Rightarrow> get_number (KVStore_getUInt32 kenv xKey) format_lu pcKey s
        | KV_TYPE_STRING \<Rightarrow> get_text kenv xKey pcKey s
        | KV_TYPE_BLOB \<Rightarrow> get_text kenv xKey pcKey s
        | _ \<Rightarrow> Some (0, s));
     b \<leftarrow> write_at (pcCliScratchBuffer s)
       (if lResponseLen < CLI_OUTPUT_SCRATCH_BUF_LEN then lResponseLen else CLI_OUTPUT_SCRATCH_BUF_LEN - 1) [0];
     let s = s\<lparr>pcCliScratchBuffer := b\<rparr>;
     if lResponseLen > 0 then io_print (pcCliScratchBuffer s) s
     else do {
       (_, s) \<leftarrow>
         (if xKey = CS_NUM_KEYS kenv \<or> xKvType = KV_TYPE_NONE
          then do {
            k \<leftarrow> format_s pcKey;
            scratch_printf (ascii ''Error: key: '' @ k @ ascii '' was not recognized.'' @ CLI_OUTPUT_EOL) s }
          else scratch_printf (ascii ''Error: An unknown error occurred.'' @ CLI_OUTPUT_EOL) s);
       io_print (pcCliScratchBuffer s) s } }"

definition vSubCommand_GetConfigAll :: "'w cli_env \<Rightarrow> 'w cli \<Rightarrow> 'w cli option" where
  "vSubCommand_GetConfigAll env s =
     for_each [0..<CS_NUM_KEYS (cliKvEnv env)] (\<lambda>key. vSubCommand_GetConfig env (Some (kvStoreKeyMap (cliKvEnv env) ! key))) s"

subsection \<open>conf set\<close>

text \<open>The four number types again: the parser, the setter, the format. The result begins with \<open>xParseResult\<close>.\<close>

definition set_number ::
  "(bytes \<Rightarrow> (u32 \<times> nat) option) \<Rightarrow> (u32 \<Rightarrow> 'w kv \<Rightarrow> (bool \<times> 'w kv) option) \<Rightarrow> (u32 \<Rightarrow> bytes) \<Rightarrow>
   bytes \<Rightarrow> bytes option \<Rightarrow> 'w cli \<Rightarrow> (bool \<times> nat \<times> 'w cli) option" where
  "set_number parse setter fmt pcKey pcValue s = do {
     pcValue \<leftarrow> pcValue;
     (v, used) \<leftarrow> parse pcValue;
     if used \<noteq> 0 \<or> v = 0
     then do {
       (_, kv) \<leftarrow> setter v (cliKv s);
       k \<leftarrow> format_s pcKey;
       (n, s) \<leftarrow> scratch_printf (k @ ascii ''='' @ fmt v @ CLI_OUTPUT_EOL) (s\<lparr>cliKv := kv\<rparr>);
       Some (True, n, s) }
     else Some (False, 0, s) }"

definition set_text ::
  "(bytes option \<Rightarrow> 'w kv \<Rightarrow> (bool \<times> 'w kv) option) \<Rightarrow> bytes \<Rightarrow> bytes option \<Rightarrow> 'w cli \<Rightarrow> (bool \<times> nat \<times> 'w cli) option" where
  "set_text setter pcKey pcValue s = do {
     (xParseResult, kv) \<leftarrow> setter pcValue (cliKv s);
     k \<leftarrow> format_s pcKey;
     v \<leftarrow> Option.bind pcValue format_s;
     (n, s) \<leftarrow> scratch_printf (k @ ascii ''='' @ [34] @ v @ [34] @ CLI_OUTPUT_EOL) (s\<lparr>cliKv := kv\<rparr>);
     Some (xParseResult, n, s) }"

definition set_blob :: "'w kv_env \<Rightarrow> nat \<Rightarrow> bytes option \<Rightarrow> 'w kv \<Rightarrow> (bool \<times> 'w kv) option" where
  "set_blob env xKey pcValue kv = do {
     n \<leftarrow> Option.bind pcValue strlen;
     KVStore_setBlob env xKey n pcValue kv }"

definition set_value ::
  "'w kv_env \<Rightarrow> nat \<Rightarrow> bytes \<Rightarrow> bytes option \<Rightarrow> 'w cli \<Rightarrow> (bool \<times> nat \<times> 'w cli) option" where
  "set_value kenv xKey pcKey pcValue s =
     (case KVStore_getType kenv xKey of
        KV_TYPE_BASE_T \<Rightarrow> set_number strtol (KVStore_setBase kenv xKey) format_ld pcKey pcValue s
      | KV_TYPE_INT32 \<Rightarrow> set_number strtol (KVStore_setInt32 kenv xKey) format_ld pcKey pcValue s
      | KV_TYPE_UBASE_T \<Rightarrow> set_number strtoul (KVStore_setUBase kenv xKey) format_lu pcKey pcValue s
      | KV_TYPE_UINT32 \<Rightarrow> set_number strtoul (KVStore_setUInt32 kenv xKey) format_lu pcKey pcValue s
      | KV_TYPE_STRING \<Rightarrow> set_text (KVStore_setString kenv xKey) pcKey pcValue s
      | KV_TYPE_BLOB \<Rightarrow> set_text (set_blob kenv xKey) pcKey pcValue s
      | _ \<Rightarrow> Some (False, 0, s))"

definition vSubCommand_SetConfig :: "'w cli_env \<Rightarrow> bytes option list \<Rightarrow> 'w cli \<Rightarrow> 'w cli option" where
  "vSubCommand_SetConfig env ppcArgv s = do {
     let kenv = cliKvEnv env;
     pcKey \<leftarrow> arg ppcArgv 2;
     pcValue \<leftarrow> (if length ppcArgv > VALUE_ARG_IDX then arg ppcArgv 3 else Some (Some [0]));
     case pcKey of
       None \<Rightarrow> io_print (c_literal ''An unknown error occurred.'') s
     | Some pcKey \<Rightarrow> do {
         xKey \<leftarrow> kvStringToKey kenv pcKey;
         (xParseResult, lCharsPrinted, s) \<leftarrow> set_value kenv xKey pcKey pcValue s;
         (lCharsPrinted, s) \<leftarrow>
           (if \<not> xParseResult
            then do {
              k \<leftarrow> format_s pcKey;
              if xKey = CS_NUM_KEYS kenv
              then scratch_printf (ascii ''Error: key: '' @ k @ ascii '' was not recognized.'' @ CLI_OUTPUT_EOL) s
              else do {
                v \<leftarrow> Option.bind pcValue format_s;
                scratch_printf (ascii ''Error: value: '' @ v @ ascii '' is not valid for key: '' @ k @ CLI_OUTPUT_EOL) s } }
            else Some (lCharsPrinted, s));
         let lCharsPrinted = (if lCharsPrinted > CLI_OUTPUT_SCRATCH_BUF_LEN then CLI_OUTPUT_SCRATCH_BUF_LEN else lCharsPrinted);
         if lCharsPrinted > 0 then io_write (pcCliScratchBuffer s) lCharsPrinted s else Some s } }"

subsection \<open>conf\<close>

definition vCommand_Configure :: "'w cli_env \<Rightarrow> bytes option list \<Rightarrow> 'w cli \<Rightarrow> 'w cli option" where
  "vCommand_Configure env ppcArgv s = do {
     (xSuccess, s) \<leftarrow>
       (if length ppcArgv > MODE_ARG_IDX
        then do {
          pcMode \<leftarrow> Option.bind (arg ppcArgv MODE_ARG_IDX) id;
          isget \<leftarrow> strcmp_eq (c_literal ''get'') pcMode;
          if isget
          then do {
            s \<leftarrow> (if length ppcArgv > KEY_ARG_IDX
               then Option.bind (arg ppcArgv KEY_ARG_IDX) (\<lambda>pcKey. vSubCommand_GetConfig env pcKey s)
               else vSubCommand_GetConfigAll env s);
            Some (True, s) }
          else do {
            isset \<leftarrow> strcmp_eq (c_literal ''set'') pcMode;
            if isset then do { s \<leftarrow> vSubCommand_SetConfig env ppcArgv s; Some (True, s) }
            else do {
              iscommit \<leftarrow> strcmp_eq (c_literal ''commit'') pcMode;
              if iscommit then do { s \<leftarrow> vSubCommand_CommitConfig env s; Some (True, s) }
              else Some (False, s) } } }
        else Some (False, s));
     if \<not> xSuccess then io_print (pcHelpString xCommandDef_conf) s else Some s }"

subsection \<open>Printing\<close>

lemma format_s_terminated: "terminated p \<Longrightarrow> format_s p = Some (c_str p)"
  by (simp add: format_s_def)

lemma format_s_text: "0 \<notin> set t \<Longrightarrow> format_s (t @ 0 # r) = Some t"
  by (simp add: format_s_def terminated_def c_str_append_zero)

lemma io_print_text: "0 \<notin> set t \<Longrightarrow> io_print (t @ 0 # r) s = Some (s\<lparr>cliStdout := cliStdout s @ t\<rparr>)"
  by (simp add: io_print_def format_s_text)

lemma io_write_text:
  assumes "cli_buffers_ok s" and "0 \<notin> set t" and "length t < CLI_OUTPUT_SCRATCH_BUF_LEN"
  shows "\<exists>b. io_write (t @ 0 # r) (length t) s = Some (s\<lparr>pcOutputBuffer := b, cliStdout := cliStdout s @ t\<rparr>) \<and>
    length b = sizeof_output_buffer \<and> drop CLI_OUTPUT_SCRATCH_BUF_LEN b = drop CLI_OUTPUT_SCRATCH_BUF_LEN (pcOutputBuffer s)"
proof -
  let ?o = "pcOutputBuffer s" and ?n = "length t"
  let ?b = "t @ 0 # drop (Suc ?n) ?o"
  have n: "?n < 512" and o: "length ?o = 2046"
    using assms by (simp_all add: cli_buffers_ok_def CLI_OUTPUT_SCRATCH_BUF_LEN_def sizeof_output_buffer_def)
  have "strncpy ?o (t @ 0 # r) ?n = Some (t @ drop ?n ?o)"
    using n o assms(2) by (simp add: strncpy_def terminated_def c_str_append_zero write_at_def)
  moreover have "write_at (t @ drop ?n ?o) ?n [0] = Some ?b" using n o by (simp add: write_at_def)
  moreover have "format_s ?b = Some t" by (rule format_s_text [OF assms(2)])
  ultimately have "io_write (t @ 0 # r) ?n s = Some (s\<lparr>pcOutputBuffer := ?b, cliStdout := cliStdout s @ t\<rparr>)"
    using assms(3) by (simp add: io_write_def del: write_at_Some)
  moreover have "length ?b = 2046" "drop 512 ?b = drop 512 ?o" using n o by (simp_all add: drop_Cons')
  ultimately show ?thesis by (auto simp: sizeof_output_buffer_def CLI_OUTPUT_SCRATCH_BUF_LEN_def)
qed

lemma scratch_printf_fits:
  assumes "cli_buffers_ok s" and "length t < CLI_OUTPUT_SCRATCH_BUF_LEN"
  shows "scratch_printf t s = Some (length t, s\<lparr>pcCliScratchBuffer := t @ 0 # drop (length t + 1) (pcCliScratchBuffer s)\<rparr>)"
  using assms snprintf_fits [of t 512 "pcCliScratchBuffer s"]
  by (simp add: scratch_printf_def cli_buffers_ok_def CLI_OUTPUT_SCRATCH_BUF_LEN_def)

lemma decimal_length: "n < 10 ^ k \<Longrightarrow> 0 < k \<Longrightarrow> length (decimal n) \<le> k"
proof (induction k arbitrary: n)
  case (Suc k)
  show ?case
  proof (cases "n < 10")
    case False
    with Suc.prems have "n div 10 < 10 ^ k" "0 < k" by (auto simp: less_mult_imp_div_less mult.commute intro: gr0I)
    with Suc.IH [of "n div 10"] False show ?thesis by (subst decimal.simps) simp
  qed (subst decimal.simps, simp)
qed simp

lemma format_lu_length: "length (format_lu v) \<le> 10"
proof -
  have "unat v < 10 ^ 10" using unsigned_less [of v, where ?'a = nat] by simp
  then show ?thesis unfolding format_lu_def by (rule decimal_length) simp
qed

lemma format_ld_length: "length (format_ld v) \<le> 11"
proof -
  have "nat (sint v) < 10 ^ 10" "nat (- sint v) < 10 ^ 10" using sint_greater_eq [of v] sint_less [of v] by simp_all
  from this [THEN decimal_length] show ?thesis by (simp add: format_ld_def)
qed

lemma format_no_zero: "0 \<notin> set (format_lu v)" "0 \<notin> set (format_ld v)"
  using decimal_c_str by (simp_all add: format_lu_def format_ld_def)

text \<open>The lines that \<open>conf\<close> prints for a text and for a number.\<close>

definition text_line :: "bytes \<Rightarrow> bytes \<Rightarrow> bytes" where
  "text_line k v = k @ ascii ''='' @ [34] @ v @ [34] @ CLI_OUTPUT_EOL"

definition number_line :: "bytes \<Rightarrow> bytes \<Rightarrow> bytes" where
  "number_line k v = k @ ascii ''='' @ v @ CLI_OUTPUT_EOL"

lemma line_length [simp]: "length (text_line k v) = length k + length v + 5" "length (number_line k v) = length k + length v + 3"
  by (simp_all add: text_line_def number_line_def CLI_OUTPUT_EOL_def)

lemma line_no_zero: "0 \<notin> set k \<Longrightarrow> 0 \<notin> set v \<Longrightarrow> 0 \<notin> set (text_line k v) \<and> 0 \<notin> set (number_line k v)"
  by (simp add: text_line_def number_line_def CLI_OUTPUT_EOL_def ascii_def of_char_def)

definition cli_ready :: "'w cli_env \<Rightarrow> 'w cli \<Rightarrow> bool" where
  "cli_ready env s \<longleftrightarrow> kv_ready (cliKvEnv env) (cliKv s) \<and> cli_buffers_ok s \<and> fresh_allocator (kvAlloc (cliKvEnv env))"

subsection \<open>Getting and setting a string\<close>

lemma get_text_correct:
  assumes "cli_buffers_ok s" and "kv_ready env (cliKv s)" and "key_has_type env k KV_TYPE_STRING"
    and "cached (cliKv s) k = Some (t, v @ [0])" and "0 \<notin> set v" and "terminated key"
    and "length (c_str key) + length v + 5 < CLI_OUTPUT_SCRATCH_BUF_LEN"
  shows "\<exists>r. get_text env k key s =
      Some (length (text_line (c_str key) v), s\<lparr>pcCliScratchBuffer := text_line (c_str key) v @ r\<rparr>) \<and>
    length (text_line (c_str key) v @ r) = CLI_OUTPUT_SCRATCH_BUF_LEN"
proof -
  define n where "n = length (c_str key)"
  have fits: "n + length v + 5 < 512" and sl: "length (pcCliScratchBuffer s) = 512"
    using assms(1,7) by (simp_all add: n_def CLI_OUTPUT_SCRATCH_BUF_LEN_def cli_buffers_ok_def)
  have cp: "stpncpy (pcCliScratchBuffer s) key 512 = Some (n, c_str key @ replicate (512 - n) 0)"
    using assms(6) fits sl n_def by (simp add: stpncpy_def strncpy_def strlen_terminated write_at_def)
  define m where "m = 512 - (n + 2)"
  let ?p = "c_str key @ ascii ''='' @ [34]"
  have w1: "write_at (c_str key @ replicate (512 - n) 0) n (ascii ''='') = Some (c_str key @ ascii ''='' @ replicate (511 - n) 0)"
    using fits by (simp add: write_at_def n_def)
  have w2: "write_at (c_str key @ ascii ''='' @ replicate (511 - n) 0) (n + 1) [34] = Some (?p @ replicate m 0)"
    using fits by (simp add: write_at_def n_def m_def)
  have lp: "length ?p = n + 2" by (simp add: n_def)
  have "\<exists>buf'. KVStore_getString env k (Some (replicate m 0)) m (cliKv s) = Some (length v, Some buf', cliKv s) \<and>
      length buf' = length (replicate m (0 :: u8)) \<and> terminated buf' \<and> c_str buf' = take (m - 1) v \<and> drop m buf' = drop m (replicate m 0)"
    by (rule read_string_correct [OF assms(2-5)]) (use fits in \<open>simp_all add: m_def\<close>)
  moreover have "take (m - 1) v = v" using fits by (simp add: m_def)
  ultimately obtain buf' where g: "KVStore_getString env k (Some (replicate m 0)) m (cliKv s) = Some (length v, Some buf', cliKv s)"
    "length buf' = m" "terminated buf'" "c_str buf' = v" by auto
  obtain r where r: "buf' = v @ 0 # r" using terminated_split [OF g(3)] g(4) by auto
  have lr: "length r = m - length v - 1" using g(2) r by simp
  have w3: "write_at (?p @ v @ 0 # r) (n + 2 + length v) [34, 13, 10] = Some (?p @ v @ [34, 13, 10] @ drop 2 r)"
  proof -
    have "write_at ((?p @ v) @ 0 # r) (n + 2 + length v) [34, 13, 10] = Some ((?p @ v) @ [34, 13, 10] @ drop 2 r)"
      using lp lr fits by (simp add: write_at_def m_def eval_nat_numeral)
    then show ?thesis by simp
  qed
  have d: "drop (n + 2) (?p @ replicate m 0) = replicate m 0" "take (n + 2) (?p @ replicate m 0) = ?p" using lp by simp_all
  have c: "(n < 512) = True" "(n + 2 < 512) = True" "(512 < n + 2 + length v + 3) = False" using fits by simp_all
  have "get_text env k key s = Some (n + 2 + length v + 3,
      s\<lparr>cliKv := cliKv s, pcCliScratchBuffer := ?p @ v @ [34, 13, 10] @ drop 2 r\<rparr>)"
    unfolding get_text_def CLI_OUTPUT_SCRATCH_BUF_LEN_def cp Option.bind.simps case_prod_conv
      c if_True if_False w1 w2 d m_def [symmetric] g(1) r Let_def w3 by (rule refl)
  moreover have "s\<lparr>cliKv := cliKv s, pcCliScratchBuffer := b\<rparr> = s\<lparr>pcCliScratchBuffer := b\<rparr>" for b by simp
  moreover have "?p @ v @ [34, 13, 10] @ drop 2 r = text_line (c_str key) v @ drop 2 r" by (simp add: text_line_def CLI_OUTPUT_EOL_def)
  moreover have "n + 2 + length v + 3 = length (text_line (c_str key) v)" by (simp add: n_def)
  ultimately have "get_text env k key s = Some (length (text_line (c_str key) v), s\<lparr>pcCliScratchBuffer := text_line (c_str key) v @ drop 2 r\<rparr>)"
    by (simp only:)
  moreover have "length (text_line (c_str key) v @ drop 2 r) = 512" using lr fits by (simp add: m_def n_def [symmetric])
  ultimately show ?thesis unfolding CLI_OUTPUT_SCRATCH_BUF_LEN_def by blast
qed

lemma get_string_prints:
  assumes "cli_ready env s" and "key_has_type (cliKvEnv env) k KV_TYPE_STRING" and "kvStringToKey (cliKvEnv env) key = Some k"
    and "cached (cliKv s) k = Some (t, v @ [0])" and "0 \<notin> set v" and "terminated key"
    and "length (c_str key) + length v + 5 < CLI_OUTPUT_SCRATCH_BUF_LEN"
  shows "\<exists>b. vSubCommand_GetConfig env (Some key) s =
      Some (s\<lparr>pcCliScratchBuffer := b, cliStdout := cliStdout s @ text_line (c_str key) v\<rparr>) \<and> length b = CLI_OUTPUT_SCRATCH_BUF_LEN"
proof -
  let ?l = "text_line (c_str key) v"
  from assms(1) have ok: "cli_buffers_ok s" "kv_ready (cliKvEnv env) (cliKv s)" by (simp_all add: cli_ready_def)
  from get_text_correct [OF ok assms(2,4-7)] obtain r where
    g: "get_text (cliKvEnv env) k key s = Some (length ?l, s\<lparr>pcCliScratchBuffer := ?l @ r\<rparr>)" and
    lr: "length (?l @ r) = 512" by (auto simp: CLI_OUTPUT_SCRATCH_BUF_LEN_def)
  have short: "length ?l < 512" using assms(7) by (simp add: CLI_OUTPUT_SCRATCH_BUF_LEN_def)
  with lr have "r \<noteq> []" by auto
  then obtain c r' where r: "r = c # r'" by (cases r) auto
  have w: "write_at (?l @ r) (length ?l) [0] = Some (?l @ 0 # r')" by (simp add: r write_at_def del: line_length)
  have ty: "KVStore_getType (cliKvEnv env) k = KV_TYPE_STRING" using assms(2) by (simp add: KVStore_getType_def key_has_type_def)
  have p: "io_print (?l @ 0 # r') (s\<lparr>pcCliScratchBuffer := ?l @ 0 # r'\<rparr>) =
      Some (s\<lparr>pcCliScratchBuffer := ?l @ 0 # r', cliStdout := cliStdout s @ ?l\<rparr>)"
    using io_print_text [of ?l r' "s\<lparr>pcCliScratchBuffer := ?l @ 0 # r'\<rparr>"] line_no_zero [of "c_str key" v] c_str_no_zero [of key] assms(5) by simp
  have "0 < length ?l" by simp
  then have "vSubCommand_GetConfig env (Some key) s =
      Some (s\<lparr>pcCliScratchBuffer := ?l @ 0 # r', cliStdout := cliStdout s @ ?l\<rparr>)"
    using short unfolding vSubCommand_GetConfig_def Let_def Option.bind.simps assms(3) ty KVStoreValueType_t.case g case_prod_conv
    by (simp add: w p CLI_OUTPUT_SCRATCH_BUF_LEN_def del: write_at_Some line_length)
  moreover have "length (?l @ 0 # r') = 512" using lr r by simp
  ultimately show ?thesis unfolding CLI_OUTPUT_SCRATCH_BUF_LEN_def by blast
qed

lemma set_string_prints:
  assumes "cli_ready env s" and "key_has_type (cliKvEnv env) k KV_TYPE_STRING" and "kvStringToKey (cliKvEnv env) key = Some k"
    and "terminated key" and "terminated value" and "length a = 2"
    and "length (c_str key) + length (c_str value) + 5 < CLI_OUTPUT_SCRATCH_BUF_LEN"
    and "room (kvAlloc (cliKvEnv env)) (kvHeap (cliKv s)) (length (c_str value) + 1)"
  shows "\<exists>kv b c. vSubCommand_SetConfig env (a @ [Some key, Some value]) s =
      Some (s\<lparr>cliKv := kv, pcCliScratchBuffer := b, pcOutputBuffer := c,
        cliStdout := cliStdout s @ text_line (c_str key) (c_str value)\<rparr>) \<and>
    cli_ready env (s\<lparr>cliKv := kv, pcCliScratchBuffer := b, pcOutputBuffer := c\<rparr>) \<and>
    cached kv = (cached (cliKv s))(k \<mapsto> (KV_TYPE_STRING, c_str value @ [0]))"
proof -
  let ?l = "text_line (c_str key) (c_str value)" and ?e = "cliKvEnv env"
  from assms(1) have ok: "cli_buffers_ok s" "kv_ready ?e (cliKv s)" "fresh_allocator (kvAlloc ?e)" by (simp_all add: cli_ready_def)
  have "length (c_str value) + 9 < 2 ^ 32" using assms(7) by (simp add: CLI_OUTPUT_SCRATCH_BUF_LEN_def)
  from write_string_correct [OF ok(2) assms(2) ok(3) assms(5) this assms(8)] obtain kv where
    st: "KVStore_setString ?e k (Some value) (cliKv s) = Some (True, kv)" "kv_ready ?e kv"
      "cached kv = (cached (cliKv s))(k \<mapsto> (KV_TYPE_STRING, c_str value @ [0]))" by blast
  define b where "b = ?l @ 0 # drop (length ?l + 1) (pcCliScratchBuffer s)"
  have short: "length ?l < 512" using assms(7) by (simp add: CLI_OUTPUT_SCRATCH_BUF_LEN_def)
  have lb: "length b = 512" using ok(1) short by (simp add: b_def cli_buffers_ok_def CLI_OUTPUT_SCRATCH_BUF_LEN_def)
  have ok2: "cli_buffers_ok (s\<lparr>cliKv := kv, pcCliScratchBuffer := x\<rparr>)" if "length x = 512" for x
    using ok(1) that by (simp add: cli_buffers_ok_def CLI_OUTPUT_SCRATCH_BUF_LEN_def)
  have "cli_buffers_ok (s\<lparr>cliKv := kv\<rparr>)" using ok(1) by (simp add: cli_buffers_ok_def)
  from scratch_printf_fits [OF this, of ?l] short
  have pr: "scratch_printf (c_str key @ ascii ''='' @ [34] @ c_str value @ [34] @ CLI_OUTPUT_EOL) (s\<lparr>cliKv := kv\<rparr>) =
      Some (length ?l, s\<lparr>cliKv := kv, pcCliScratchBuffer := b\<rparr>)"
    unfolding text_line_def [symmetric] by (simp add: CLI_OUTPUT_SCRATCH_BUF_LEN_def b_def del: line_length)
  have sv: "set_value ?e k key (Some value) s = Some (True, length ?l, s\<lparr>cliKv := kv, pcCliScratchBuffer := b\<rparr>)"
    using assms(2,4,5) st(1) pr
    by (simp add: set_value_def KVStore_getType_def key_has_type_def set_text_def format_s_terminated)
  have nz: "0 \<notin> set ?l" using line_no_zero c_str_no_zero by blast
  from io_write_text [OF ok2 [OF lb] nz, of "drop (length ?l + 1) (pcCliScratchBuffer s)"] short obtain c where
    io: "io_write b (length ?l) (s\<lparr>cliKv := kv, pcCliScratchBuffer := b\<rparr>) =
      Some (s\<lparr>cliKv := kv, pcCliScratchBuffer := b, pcOutputBuffer := c, cliStdout := cliStdout s @ ?l\<rparr>)"
    "length c = 2046" "drop 512 c = drop 512 (pcOutputBuffer s)"
    by (auto simp: b_def CLI_OUTPUT_SCRATCH_BUF_LEN_def sizeof_output_buffer_def)
  have args: "arg (a @ [Some key, Some value]) 2 = Some (Some key)" "arg (a @ [Some key, Some value]) 3 = Some (Some value)"
    "VALUE_ARG_IDX < length (a @ [Some key, Some value])"
    using assms(6) by (simp_all add: arg_def nth_append VALUE_ARG_IDX_def)
  have "0 < length ?l" by simp
  then have "vSubCommand_SetConfig env (a @ [Some key, Some value]) s =
      Some (s\<lparr>cliKv := kv, pcCliScratchBuffer := b, pcOutputBuffer := c, cliStdout := cliStdout s @ ?l\<rparr>)"
    unfolding vSubCommand_SetConfig_def Let_def Option.bind.simps args option.case assms(3) sv case_prod_conv
    using args(3) short io(1) by (simp add: CLI_OUTPUT_SCRATCH_BUF_LEN_def args sv assms(3) del: line_length)
  moreover have "cli_ready env (s\<lparr>cliKv := kv, pcCliScratchBuffer := b, pcOutputBuffer := c\<rparr>)"
    using ok st(2) lb io(2,3)
    by (simp add: cli_ready_def cli_buffers_ok_def CLI_OUTPUT_SCRATCH_BUF_LEN_def sizeof_output_buffer_def)
  ultimately show ?thesis using st(3) by blast
qed

end
