(* ===== verification/CliReturns.thy ===== *)
theory CliReturns
  imports CliConf
begin

text \<open>
  The command \<open>conf\<close> always returns: whatever it is asked, on a store that runs of its interface reach and
  with memory for a value, it comes back in a state of the same kind. The one exception is \<open>conf set\<close> without
  a key, which reads an argument that is not there.
\<close>

subsection \<open>conf returns\<close>

text \<open>
  What \<open>conf\<close> needs of the table of keys: names that are strings of at most 100 characters, numbers of four
  bytes, and default strings that fit the scratch buffer behind a name.
\<close>

definition cli_table_ok :: "'w kv_env \<Rightarrow> bool" where
  "cli_table_ok kenv \<longleftrightarrow> length (kvStoreKeyMap kenv) = CS_NUM_KEYS kenv \<and>
     (\<forall>n \<in> set (kvStoreKeyMap kenv). terminated n \<and> length (c_str n) \<le> 100) \<and>
     (\<forall>d \<in> set (kvStoreDefaults kenv). dlength d \<le> (if dtype d = KV_TYPE_STRING \<or> dtype d = KV_TYPE_BLOB then 300 else 4))"

lemma kvStringToKey_total:
  assumes "cli_table_ok kenv" and "terminated key"
  shows "\<exists>k \<le> CS_NUM_KEYS kenv. kvStringToKey kenv key = Some k"
proof -
  have "\<exists>k \<le> i + length ks. find_key ks key i = Some k" if "\<forall>n \<in> set ks. terminated n" for ks i
    using that
  proof (induction ks arbitrary: i)
    case (Cons n ks)
    then show ?case using assms(2) Cons.IH [of "Suc i"] by (auto simp: strcmp_eq_terminated)
  qed simp
  from this [of "kvStoreKeyMap kenv" 0] assms(1) show ?thesis by (auto simp: kvStringToKey_def cli_table_ok_def)
qed

lemma default_lookup_length:
  assumes "kv_ready kenv kv" and "cli_table_ok kenv" and "k < CS_NUM_KEYS kenv" and "cached kv k = None"
  shows "length (kv_lookup kenv kv k) \<le>
    (if dtype (kvStoreDefaults kenv ! k) = KV_TYPE_STRING \<or> dtype (kvStoreDefaults kenv ! k) = KV_TYPE_BLOB then 300 else 4)"
proof -
  have "default_ok (kvStoreDefaults kenv ! k)" using assms(1,3) by (simp add: kv_ready_def)
  from default_value_length [OF this] show ?thesis using assms(2-4) nth_mem [of k "kvStoreDefaults kenv"]
    by (auto simp: kv_lookup_def cli_table_ok_def)
qed

lemma read_word_total:
  assumes "kv_ready kenv kv" and "cli_table_ok kenv" and "t \<noteq> KV_TYPE_STRING" and "t \<noteq> KV_TYPE_BLOB"
  shows "\<exists>v ok. read_word kenv k t kv = Some (v, ok, kv)"
proof (cases "key_has_type kenv k t")
  case True
  then have k: "k < CS_NUM_KEYS kenv" "dtype (kvStoreDefaults kenv ! k) = t" by (simp_all add: key_has_type_def)
  have "cached kv k = None \<Longrightarrow> length (kv_lookup kenv kv k) \<le> 4"
    using default_lookup_length [OF assms(1,2) k(1)] k(2) assms(3,4) by simp
  with locked_read_correct [OF assms(1) k(1), of 4 "le32 0"] True show ?thesis
    by (auto simp: read_word_def)
qed (auto simp: read_word_def intro: exI [of _ False])

lemma write_at_total: "off + length src \<le> length b \<Longrightarrow> \<exists>b'. write_at b off src = Some b' \<and> length b' = length b"
  by (simp add: write_at_def)

lemma getString_total:
  assumes "kv_ready kenv kv" and "cli_table_ok kenv" and "300 \<le> m" and "m = length buf" and "m < 2 ^ 32"
  shows "\<exists>n buf'. KVStore_getString kenv k (Some buf) m kv = Some (n, Some buf', kv) \<and> length buf' = m"
proof (cases "key_has_type kenv k KV_TYPE_STRING")
  case True
  then have k: "k < CS_NUM_KEYS kenv" "dtype (kvStoreDefaults kenv ! k) = KV_TYPE_STRING" by (simp_all add: key_has_type_def)
  have free: "xKvMutex kv = Free" using assms(1) by (simp add: kv_ready_def)
  then have same: "kv\<lparr>xKvMutex := Free\<rparr> = kv" by (cases kv) simp
  have "cached kv k = None \<Longrightarrow> length (kv_lookup kenv kv k) \<le> m"
    using default_lookup_length [OF assms(1,2) k(1)] k(2) assms(3) by simp
  then obtain n b where r: "xReadEntryOrDefault kenv k (Some buf) m (kv\<lparr>xKvMutex := Held\<rparr>) = Some (n, b)" "length b = m"
    using read_entry [OF assms(1) k(1), of m buf Held] assms(4) by auto
  have "unat (of_nat m - 1 :: u32) = m - 1" by (rule unat_of_nat_pred) (use assms(3,5) in auto)
  with True r assms(3) free same show ?thesis by (auto simp: KVStore_getString_def write_at_def)
qed (simp add: KVStore_getString_def assms(4))

lemma get_number_total:
  assumes "\<exists>v ok. getter (cliKv s) = Some (v, ok, cliKv s)" and "cli_buffers_ok s" and "terminated key" and "length (c_str key) \<le> 127"
    and "\<And>v. length (fmt v) \<le> 11"
  shows "\<exists>n b. get_number getter fmt key s = Some (n, s\<lparr>pcCliScratchBuffer := b\<rparr>) \<and> length b = 512"
proof -
  from assms(1) obtain v ok where g: "getter (cliKv s) = Some (v, ok, cliKv s)" by blast
  let ?t = "number_line (c_str key) (fmt v)"
  have "length ?t < CLI_OUTPUT_SCRATCH_BUF_LEN" using assms(4) assms(5) [of v] by (simp add: CLI_OUTPUT_SCRATCH_BUF_LEN_def)
  from scratch_printf_fits [OF assms(2) this] this
  have "scratch_printf ?t s = Some (length ?t, s\<lparr>pcCliScratchBuffer := ?t @ 0 # drop (length ?t + 1) (pcCliScratchBuffer s)\<rparr>)"
    "length (?t @ 0 # drop (length ?t + 1) (pcCliScratchBuffer s)) = 512"
    using assms(2) by (simp_all add: cli_buffers_ok_def CLI_OUTPUT_SCRATCH_BUF_LEN_def)
  then show ?thesis
    using g assms(3) by (auto simp: get_number_def format_s_terminated number_line_def simp del: line_length)
qed

lemma get_text_total:
  assumes "cli_buffers_ok s" and "kv_ready kenv (cliKv s)" and "cli_table_ok kenv" and "terminated key" and "length (c_str key) \<le> 127"
  shows "\<exists>n b. get_text kenv k key s = Some (n, s\<lparr>pcCliScratchBuffer := b\<rparr>) \<and> 0 < n \<and> length b = 512"
proof -
  define n where "n = length (c_str key)"
  define m where "m = 510 - n"
  let ?p = "c_str key @ ascii ''='' @ [34]"
  have n: "n \<le> 127" and sl: "length (pcCliScratchBuffer s) = 512"
    using assms(1,5) by (simp_all add: n_def CLI_OUTPUT_SCRATCH_BUF_LEN_def cli_buffers_ok_def)
  have cp: "stpncpy (pcCliScratchBuffer s) key 512 = Some (n, c_str key @ replicate (512 - n) 0)"
    using assms(4) n sl n_def by (simp add: stpncpy_def strncpy_def strlen_terminated write_at_def)
  have w1: "write_at (c_str key @ replicate (512 - n) 0) n (ascii ''='') = Some (c_str key @ ascii ''='' @ replicate (511 - n) 0)"
    using n by (simp add: write_at_def n_def)
  have w2: "write_at (c_str key @ ascii ''='' @ replicate (511 - n) 0) (n + 1) [34] = Some (?p @ replicate m 0)"
    using n by (simp add: write_at_def n_def m_def)
  have d: "drop (n + 2) (?p @ replicate m 0) = replicate m 0" "take (n + 2) (?p @ replicate m 0) = ?p" by (simp_all add: n_def)
  have "300 \<le> m" "m = length (replicate m (0 :: u8))" "m < 2 ^ 32" using n by (simp_all add: m_def)
  from getString_total [OF assms(2,3) this] obtain x buf where
    g: "KVStore_getString kenv k (Some (replicate m 0)) m (cliKv s) = Some (x, Some buf, cliKv s)" "length buf = m" by blast
  let ?len = "if 512 < n + 2 + x + 3 then 512 - 3 else n + 2 + x"
  have "length (?p @ buf) = 512" using g(2) n by (simp add: m_def n_def [symmetric])
  moreover have "?len + 3 \<le> 512" by simp
  ultimately obtain b where w3: "write_at (?p @ buf) ?len [34, 13, 10] = Some b" "length b = 512"
    using write_at_total [of ?len "[34, 13, 10]" "?p @ buf"] by auto
  have c: "(n < 512) = True" "(n + 2 < 512) = True" "512 - (n + 2) = m" using n by (simp_all add: m_def)
  have "get_text kenv k key s = Some (?len + 3, s\<lparr>cliKv := cliKv s, pcCliScratchBuffer := b\<rparr>)"
    unfolding get_text_def CLI_OUTPUT_SCRATCH_BUF_LEN_def cp Option.bind.simps case_prod_conv
      c if_True w1 w2 d g(1) Let_def w3(1) by (rule refl)
  moreover have "s\<lparr>cliKv := cliKv s, pcCliScratchBuffer := b\<rparr> = s\<lparr>pcCliScratchBuffer := b\<rparr>" by simp
  ultimately show ?thesis using w3(2) by (intro exI [of _ "?len + 3"] exI [of _ b]) simp
qed

lemma print_terminated:
  assumes "0 \<in> set b"
  shows "\<exists>t. io_print b s = Some (s\<lparr>cliStdout := cliStdout s @ t\<rparr>)"
  using assms by (auto simp: io_print_def format_s_def terminated_def)

lemma get_returns:
  assumes "cli_buffers_ok s" and "kv_ready (cliKvEnv env) (cliKv s)" and "cli_table_ok (cliKvEnv env)"
    and "terminated key" and "length (c_str key) \<le> 127"
  shows "\<exists>b t. vSubCommand_GetConfig env (Some key) s = Some (s\<lparr>pcCliScratchBuffer := b, cliStdout := cliStdout s @ t\<rparr>) \<and>
    length b = 512"
proof -
  let ?e = "cliKvEnv env"
  from kvStringToKey_total [OF assms(3,4)] obtain k where k: "kvStringToKey ?e key = Some k" by blast
  note w = read_word_total [OF assms(2,3), folded KVStore_getUInt32_def KVStore_getBase_def]
  have num: "\<exists>n b. get_number getter fmt key s = Some (n, s\<lparr>pcCliScratchBuffer := b\<rparr>) \<and> length b = 512"
    if "getter = read_word ?e k t" "t \<noteq> KV_TYPE_STRING" "t \<noteq> KV_TYPE_BLOB" "fmt = format_lu \<or> fmt = format_ld" for getter t fmt
  proof (rule get_number_total)
    show "\<exists>v ok. getter (cliKv s) = Some (v, ok, cliKv s)" unfolding that(1) by (rule read_word_total [OF assms(2,3) that(2,3)])
    show "length (fmt v) \<le> 11" for v using that(4) format_lu_length [of v] format_ld_length [of v] by auto
  qed (use assms in auto)
  let ?get = "case KVStore_getType ?e k of
      KV_TYPE_BASE_T \<Rightarrow> get_number (KVStore_getBase ?e k) format_ld key s
    | KV_TYPE_UBASE_T \<Rightarrow> get_number (KVStore_getUBase ?e k) format_lu key s
    | KV_TYPE_INT32 \<Rightarrow> get_number (KVStore_getInt32 ?e k) format_ld key s
    | KV_TYPE_UINT32 \<Rightarrow> get_number (KVStore_getUInt32 ?e k) format_lu key s
    | KV_TYPE_STRING \<Rightarrow> get_text ?e k key s
    | KV_TYPE_BLOB \<Rightarrow> get_text ?e k key s
    | _ \<Rightarrow> Some (0, s)"
  have get: "\<exists>n b. ?get = Some (n, s\<lparr>pcCliScratchBuffer := b\<rparr>) \<and> length b = 512"
  proof (cases "KVStore_getType ?e k")
    case KV_TYPE_BASE_T
    show ?thesis unfolding KV_TYPE_BASE_T KVStoreValueType_t.case
      by (rule num [where t = KV_TYPE_BASE_T]) (auto simp: KVStore_getBase_def fun_eq_iff)
  next
    case KV_TYPE_UBASE_T
    show ?thesis unfolding KV_TYPE_UBASE_T KVStoreValueType_t.case
      by (rule num [where t = KV_TYPE_BASE_T]) (auto simp: KVStore_getUBase_def fun_eq_iff)
  next
    case KV_TYPE_INT32
    show ?thesis unfolding KV_TYPE_INT32 KVStoreValueType_t.case
      by (rule num [where t = KV_TYPE_INT32]) (auto simp: KVStore_getInt32_def fun_eq_iff)
  next
    case KV_TYPE_UINT32
    show ?thesis unfolding KV_TYPE_UINT32 KVStoreValueType_t.case
      by (rule num [where t = KV_TYPE_UINT32]) (auto simp: KVStore_getUInt32_def fun_eq_iff)
  next
    case KV_TYPE_STRING
    then show ?thesis using get_text_total [OF assms, of k] by auto
  next
    case KV_TYPE_BLOB
    then show ?thesis using get_text_total [OF assms, of k] by auto
  next
    case KV_TYPE_NONE
    then show ?thesis using assms(1) by (auto simp: cli_buffers_ok_def CLI_OUTPUT_SCRATCH_BUF_LEN_def intro!: exI [of _ "pcCliScratchBuffer s"])
  next
    case KV_TYPE_LAST
    then show ?thesis using assms(1) by (auto simp: cli_buffers_ok_def CLI_OUTPUT_SCRATCH_BUF_LEN_def intro!: exI [of _ "pcCliScratchBuffer s"])
  qed
  then obtain n b where g: "?get = Some (n, s\<lparr>pcCliScratchBuffer := b\<rparr>)" "length b = 512" by blast
  let ?n = "if n < 512 then n else 512 - 1"
  have "?n + 1 \<le> length b" using g(2) by simp
  then obtain b' where b': "write_at b ?n [0] = Some b'" "0 \<in> set b'" "length b' = 512" using g(2) by (simp add: write_at_def)
  have err: "\<exists>b t. Option.bind (scratch_printf x (s\<lparr>pcCliScratchBuffer := b'\<rparr>)) (\<lambda>(_, s). io_print (pcCliScratchBuffer s) s) =
      Some (s\<lparr>pcCliScratchBuffer := b, cliStdout := cliStdout s @ t\<rparr>) \<and> length b = 512" if "length x < 512" for x
  proof -
    let ?b = "x @ 0 # drop (length x + 1) b'"
    have "cli_buffers_ok (s\<lparr>pcCliScratchBuffer := b'\<rparr>)" using assms(1) b'(3) by (simp add: cli_buffers_ok_def CLI_OUTPUT_SCRATCH_BUF_LEN_def)
    from scratch_printf_fits [OF this] that have "scratch_printf x (s\<lparr>pcCliScratchBuffer := b'\<rparr>) =
        Some (length x, s\<lparr>pcCliScratchBuffer := ?b\<rparr>)" by (simp add: CLI_OUTPUT_SCRATCH_BUF_LEN_def)
    moreover obtain t where "io_print ?b (s\<lparr>pcCliScratchBuffer := ?b\<rparr>) = Some (s\<lparr>pcCliScratchBuffer := ?b, cliStdout := cliStdout s @ t\<rparr>)"
      using print_terminated [of ?b "s\<lparr>pcCliScratchBuffer := ?b\<rparr>"] by auto
    moreover have "length ?b = 512" using that b'(3) by simp
    ultimately show ?thesis by auto
  qed
  show ?thesis
  proof (cases "n > 0")
    case True
    obtain t where "io_print b' (s\<lparr>pcCliScratchBuffer := b'\<rparr>) = Some (s\<lparr>pcCliScratchBuffer := b', cliStdout := cliStdout s @ t\<rparr>)"
      using print_terminated [OF b'(2), of "s\<lparr>pcCliScratchBuffer := b'\<rparr>"] by auto
    with True b' show ?thesis
      unfolding vSubCommand_GetConfig_def Let_def Option.bind.simps k g(1) case_prod_conv CLI_OUTPUT_SCRATCH_BUF_LEN_def
      by (auto simp del: write_at_Some)
  next
    case False
    have l: "length (ascii ''Error: key: '' @ c_str key @ ascii '' was not recognized.'' @ CLI_OUTPUT_EOL) < 512"
      "length (ascii ''Error: An unknown error occurred.'' @ CLI_OUTPUT_EOL) < 512"
      using assms(5) by (simp_all add: CLI_OUTPUT_EOL_def)
    show ?thesis
      using False b'(1) err [OF l(1)] err [OF l(2)] assms(4)
      unfolding vSubCommand_GetConfig_def Let_def Option.bind.simps k g(1) case_prod_conv CLI_OUTPUT_SCRATCH_BUF_LEN_def
      by (cases "k = CS_NUM_KEYS ?e \<or> KVStore_getType ?e k = KV_TYPE_NONE")
        (simp_all add: format_s_terminated del: write_at_Some)
  qed
qed

text \<open>
  The states between the commands of a run: the store is one that runs of its interface reach, and the
  buffers are in order. A command leaves the rest of the state as it is.
\<close>

definition cli_good :: "'w cli_env \<Rightarrow> 'w \<Rightarrow> 'w cli \<Rightarrow> bool" where
  "cli_good env w0 s \<longleftrightarrow> kv_reachable (cliKvEnv env) w0 (cliKv s) \<and> cli_buffers_ok s"

definition same_shell :: "'w cli \<Rightarrow> 'w cli \<Rightarrow> bool" where
  "same_shell s s' \<longleftrightarrow> pcInputBuffer s' = pcInputBuffer s \<and> xRegisteredCommands s' = xRegisteredCommands s \<and>
     pxHelpCommand s' = pxHelpCommand s \<and> cliReset s' = cliReset s"

definition returns_good :: "'w cli_env \<Rightarrow> 'w \<Rightarrow> 'w cli \<Rightarrow> 'w cli option \<Rightarrow> bool" where
  "returns_good env w0 s r \<longleftrightarrow> (\<exists>s'. r = Some s' \<and> cli_good env w0 s' \<and> same_shell s s')"

text \<open>The platform: trusted storage behind the store, and memory for a value of a command line.\<close>

definition cli_platform :: "'w its \<Rightarrow> ('w \<Rightarrow> nat \<Rightarrow> bytes option) \<Rightarrow> 'w cli_env \<Rightarrow> 'w \<Rightarrow> bool" where
  "cli_platform its contents env w0 \<longleftrightarrow> psa_env its contents (cliKvEnv env) \<and>
     its_wf contents (CS_NUM_KEYS (cliKvEnv env)) w0 \<and> cli_table_ok (cliKvEnv env)"

definition line_room :: "'w cli_env \<Rightarrow> 'w cli \<Rightarrow> bool" where
  "line_room env s \<longleftrightarrow> (\<forall>n \<le> 128. room (kvAlloc (cliKvEnv env)) (kvHeap (cliKv s)) n)"

lemma good_ready:
  assumes "cli_platform its contents env w0" and "cli_good env w0 s"
  shows "kv_ready (cliKvEnv env) (cliKv s)" and "fresh_allocator (kvAlloc (cliKvEnv env))" and "cli_table_ok (cliKvEnv env)"
proof -
  from assms have p: "psa_env its contents (cliKvEnv env)" and w: "its_wf contents (CS_NUM_KEYS (cliKvEnv env)) w0"
    and r: "kv_reachable (cliKvEnv env) w0 (cliKv s)" by (simp_all add: cli_platform_def cli_good_def)
  note nb = psa_env_backend [OF p]
  from nv_backend.reachable_good [OF nb(1) r nb(2) w] show "kv_ready (cliKvEnv env) (cliKv s)"
    by (simp add: nv_backend.kv_good_def [OF nb(1)])
  from p show "fresh_allocator (kvAlloc (cliKvEnv env))" by (auto simp: psa_env_def dest: psa_its.fresh)
  from assms(1) show "cli_table_ok (cliKvEnv env)" by (simp add: cli_platform_def)
qed

lemma good_console:
  assumes "cli_good env w0 s" and "kv_reachable (cliKvEnv env) w0 kv" and "length b = 512"
    and "length c = 2046" and "drop 512 c = drop 512 (pcOutputBuffer s)"
  shows "cli_good env w0 (s\<lparr>cliKv := kv, pcCliScratchBuffer := b, pcOutputBuffer := c, cliStdout := t\<rparr>)"
  using assms by (simp add: cli_good_def cli_buffers_ok_def CLI_OUTPUT_SCRATCH_BUF_LEN_def sizeof_output_buffer_def)

lemma good_print:
  assumes "cli_good env w0 s" and "length b = 512"
  shows "returns_good env w0 s (Some (s\<lparr>pcCliScratchBuffer := b, cliStdout := t\<rparr>))"
  using assms by (simp add: returns_good_def same_shell_def cli_good_def cli_buffers_ok_def CLI_OUTPUT_SCRATCH_BUF_LEN_def)

lemma good_stdout: "cli_good env w0 s \<Longrightarrow> returns_good env w0 s (Some (s\<lparr>cliStdout := t\<rparr>))"
  by (simp add: returns_good_def same_shell_def cli_good_def cli_buffers_ok_def)

lemma get_good:
  assumes "cli_platform its contents env w0" and "cli_good env w0 s" and "terminated key" and "length (c_str key) \<le> 127"
  shows "returns_good env w0 s (vSubCommand_GetConfig env (Some key) s)"
proof -
  note r = good_ready [OF assms(1,2)]
  from assms(2) have "cli_buffers_ok s" by (simp add: cli_good_def)
  from get_returns [OF this r(1,3) assms(3,4)] good_print [OF assms(2)] show ?thesis by auto
qed

lemma getall_good:
  assumes "cli_platform its contents env w0" and "cli_good env w0 s"
  shows "returns_good env w0 s (vSubCommand_GetConfigAll env s)"
proof -
  have names: "terminated (kvStoreKeyMap (cliKvEnv env) ! i) \<and> length (c_str (kvStoreKeyMap (cliKvEnv env) ! i)) \<le> 127"
    if "i < CS_NUM_KEYS (cliKvEnv env)" for i
  proof -
    from assms(1) have "kvStoreKeyMap (cliKvEnv env) ! i \<in> set (kvStoreKeyMap (cliKvEnv env))"
      "\<forall>n \<in> set (kvStoreKeyMap (cliKvEnv env)). terminated n \<and> length (c_str n) \<le> 100"
      using that by (simp_all add: cli_platform_def cli_table_ok_def)
    then show ?thesis by fastforce
  qed
  let ?I = "\<lambda>(i :: nat) s'. cli_good env w0 s' \<and> same_shell s s'"
  have "\<exists>s'. for_each [0..<CS_NUM_KEYS (cliKvEnv env)]
      (\<lambda>key. vSubCommand_GetConfig env (Some (kvStoreKeyMap (cliKvEnv env) ! key))) s = Some s' \<and> ?I (CS_NUM_KEYS (cliKvEnv env)) s'"
  proof (rule for_each_upt)
    show "?I 0 s" using assms(2) by (simp add: same_shell_def)
  next
    fix i s1 assume "i < CS_NUM_KEYS (cliKvEnv env)" and I: "?I i s1"
    from I have good: "cli_good env w0 s1" by simp
    from get_good [OF assms(1) good conjunct1 [OF names] conjunct2 [OF names]] \<open>i < _\<close> I
    show "\<exists>s'. vSubCommand_GetConfig env (Some (kvStoreKeyMap (cliKvEnv env) ! i)) s1 = Some s' \<and> ?I (Suc i) s'"
      by (auto simp: returns_good_def same_shell_def)
  qed
  then show ?thesis by (auto simp: returns_good_def vSubCommand_GetConfigAll_def)
qed

lemma conf_commit_good:
  assumes "cli_platform its contents env w0" and "cli_good env w0 s"
  shows "returns_good env w0 s (vSubCommand_CommitConfig env s)"
proof -
  from assms have p: "psa_env its contents (cliKvEnv env)" and w: "its_wf contents (CS_NUM_KEYS (cliKvEnv env)) w0"
    and r: "kv_reachable (cliKvEnv env) w0 (cliKv s)" by (simp_all add: cli_platform_def cli_good_def)
  note nb = psa_env_backend [OF p]
  from nv_backend.persistence [OF nb(1) nv_backend.reachable_good [OF nb(1) r nb(2) w] nb(2)]
  obtain ok kv where c: "KVStore_xCommitChanges (kvImpl (cliKvEnv env)) (cliKv s) = Some (ok, kv)" by blast
  from kv_reachable.commit [OF r c] have r': "kv_reachable (cliKvEnv env) w0 kv" .
  have pr: "\<exists>t. io_print (ascii m @ CLI_OUTPUT_EOL @ [0]) (s\<lparr>cliKv := kv\<rparr>) = Some (s\<lparr>cliKv := kv, cliStdout := t\<rparr>)" for m
    using print_terminated [of "ascii m @ CLI_OUTPUT_EOL @ [0]" "s\<lparr>cliKv := kv\<rparr>"] by auto
  obtain t1 t2 where "io_print (ascii ''Configuration saved to NVM.'' @ CLI_OUTPUT_EOL @ [0]) (s\<lparr>cliKv := kv\<rparr>) = Some (s\<lparr>cliKv := kv, cliStdout := t1\<rparr>)"
    "io_print (ascii ''Error: Could not save configuration to NVM.'' @ CLI_OUTPUT_EOL @ [0]) (s\<lparr>cliKv := kv\<rparr>) = Some (s\<lparr>cliKv := kv, cliStdout := t2\<rparr>)"
    using pr by metis
  with c r' assms(2) show ?thesis
    by (cases ok) (simp_all add: vSubCommand_CommitConfig_def Let_def returns_good_def same_shell_def cli_good_def cli_buffers_ok_def)
qed

text \<open>Every setter returns, in a state that is reachable again.\<close>

definition setter_ok :: "'w cli_env \<Rightarrow> 'w \<Rightarrow> 'w kv \<Rightarrow> (bool \<times> 'w kv) option \<Rightarrow> bool" where
  "setter_ok env w0 kv r \<longleftrightarrow> (\<exists>ok kv'. r = Some (ok, kv') \<and> kv_reachable (cliKvEnv env) w0 kv')"

lemma write_word_returns:
  assumes "kv_ready kenv kv" and "fresh_allocator (kvAlloc kenv)" and "t \<noteq> KV_TYPE_NONE" and "t \<noteq> KV_TYPE_LAST"
  shows "\<exists>ok kv'. write_word kenv k t v kv = Some (ok, kv')"
  using write_word_correct [OF assms(1) _ assms(2-4), of k v] by (cases "key_has_type kenv k t") (auto simp: write_word_def)

lemma set_word_ok:
  assumes "cli_platform its contents env w0" and "cli_good env w0 s"
  shows "setter_ok env w0 (cliKv s) (KVStore_setBase (cliKvEnv env) k v (cliKv s))"
    and "setter_ok env w0 (cliKv s) (KVStore_setUBase (cliKvEnv env) k v (cliKv s))"
    and "setter_ok env w0 (cliKv s) (KVStore_setInt32 (cliKvEnv env) k v (cliKv s))"
    and "setter_ok env w0 (cliKv s) (KVStore_setUInt32 (cliKvEnv env) k v (cliKv s))"
proof -
  note w = write_word_returns [OF good_ready(1,2) [OF assms], of _ k v]
  from assms(2) have r: "kv_reachable (cliKvEnv env) w0 (cliKv s)" by (simp add: cli_good_def)
  show "setter_ok env w0 (cliKv s) (KVStore_setBase (cliKvEnv env) k v (cliKv s))"
    using w [of KV_TYPE_BASE_T] kv_reachable.setBase [OF r, of k v] by (auto simp: setter_ok_def KVStore_setBase_def)
  show "setter_ok env w0 (cliKv s) (KVStore_setUBase (cliKvEnv env) k v (cliKv s))"
    using w [of KV_TYPE_UBASE_T] kv_reachable.setUBase [OF r, of k v] by (auto simp: setter_ok_def KVStore_setUBase_def)
  show "setter_ok env w0 (cliKv s) (KVStore_setInt32 (cliKvEnv env) k v (cliKv s))"
    using w [of KV_TYPE_INT32] kv_reachable.setInt32 [OF r, of k v] by (auto simp: setter_ok_def KVStore_setInt32_def)
  show "setter_ok env w0 (cliKv s) (KVStore_setUInt32 (cliKvEnv env) k v (cliKv s))"
    using w [of KV_TYPE_UINT32] kv_reachable.setUInt32 [OF r, of k v] by (auto simp: setter_ok_def KVStore_setUInt32_def)
qed

lemma set_string_ok:
  assumes "cli_platform its contents env w0" and "cli_good env w0 s" and "line_room env s"
    and "terminated value" and "length (c_str value) \<le> 127"
  shows "setter_ok env w0 (cliKv s) (KVStore_setString (cliKvEnv env) k (Some value) (cliKv s))"
proof (cases "key_has_type (cliKvEnv env) k KV_TYPE_STRING")
  case True
  have l: "length (c_str value) + 9 < 2 ^ 32" using assms(5) by simp
  have rm: "room (kvAlloc (cliKvEnv env)) (kvHeap (cliKv s)) (length (c_str value) + 1)"
    using assms(3,5) by (simp add: line_room_def)
  from write_string_correct [OF good_ready(1) [OF assms(1,2)] True good_ready(2) [OF assms(1,2)] assms(4) l rm]
  obtain kv where st: "KVStore_setString (cliKvEnv env) k (Some value) (cliKv s) = Some (True, kv)" by blast
  from assms(2) have "kv_reachable (cliKvEnv env) w0 (cliKv s)" by (simp add: cli_good_def)
  from kv_reachable.setString [OF this l rm st] st show ?thesis by (auto simp: setter_ok_def)
next
  case False
  with assms(2) show ?thesis by (auto simp: KVStore_setString_def setter_ok_def cli_good_def)
qed

lemma set_blob_ok:
  assumes "cli_platform its contents env w0" and "cli_good env w0 s" and "line_room env s"
    and "terminated value" and "length (c_str value) \<le> 127"
  shows "setter_ok env w0 (cliKv s) (set_blob (cliKvEnv env) k (Some value) (cliKv s))"
proof (cases "0 < length (c_str value) \<and> key_has_type (cliKvEnv env) k KV_TYPE_BLOB")
  case True
  let ?n = "length (c_str value)"
  from True have n: "0 < ?n" and ty: "key_has_type (cliKvEnv env) k KV_TYPE_BLOB" by simp_all
  have rm: "room (kvAlloc (cliKvEnv env)) (kvHeap (cliKv s)) ?n" and l8: "?n + 8 < 2 ^ 32" and le: "?n \<le> length value"
    using assms(3,5) c_str_le [of "value"] by (simp_all add: line_room_def)
  note rd = good_ready [OF assms(1,2)]
  let ?v = "take ?n value"
  have "kv_inv (cliKv s)" "k < length (kvStoreCache (cliKv s))" "storable KV_TYPE_BLOB ?v" "length ?v = ?n"
    using rd(1) ty n l8 le by (auto simp: kv_ready_def key_has_type_def storable_def)
  from write_cache [OF this(1,2) rd(2) _ this(3)] rm this(4) obtain kv where
    "xprvWriteCacheEntry (kvAlloc (cliKvEnv env)) k KV_TYPE_BLOB ?n (Some ?v) (cliKv s) = Some (True, kv)" by auto
  moreover have "read_at value 0 ?n = read_at ?v 0 ?n" using le by (simp add: read_at_def)
  ultimately have st: "KVStore_setBlob (cliKvEnv env) k ?n (Some value) (cliKv s) = Some (True, kv)"
    using write_cache_prefix [of "value" ?n ?v "kvAlloc (cliKvEnv env)" k KV_TYPE_BLOB "cliKv s"] ty n by (simp add: KVStore_setBlob_def)
  from assms(2) have "kv_reachable (cliKvEnv env) w0 (cliKv s)" by (simp add: cli_good_def)
  from kv_reachable.setBlob [OF this l8 le rm st] st assms(4) show ?thesis
    by (auto simp: setter_ok_def set_blob_def strlen_terminated)
next
  case False
  with assms(2,4) show ?thesis
    by (auto simp: set_blob_def KVStore_setBlob_def setter_ok_def cli_good_def strlen_terminated)
qed

lemma printed:
  assumes "cli_good env w0 s" and "kv_reachable (cliKvEnv env) w0 kv" and "length t < 512"
  shows "scratch_printf t (s\<lparr>cliKv := kv\<rparr>) =
      Some (length t, s\<lparr>cliKv := kv, pcCliScratchBuffer := t @ 0 # drop (length t + 1) (pcCliScratchBuffer s)\<rparr>)"
    and "length (t @ 0 # drop (length t + 1) (pcCliScratchBuffer s)) = 512"
proof -
  have "cli_buffers_ok (s\<lparr>cliKv := kv\<rparr>)" using assms(1) by (simp add: cli_good_def cli_buffers_ok_def)
  from scratch_printf_fits [OF this, of t] assms(3) show "scratch_printf t (s\<lparr>cliKv := kv\<rparr>) =
      Some (length t, s\<lparr>cliKv := kv, pcCliScratchBuffer := t @ 0 # drop (length t + 1) (pcCliScratchBuffer s)\<rparr>)"
    by (simp add: CLI_OUTPUT_SCRATCH_BUF_LEN_def)
  show "length (t @ 0 # drop (length t + 1) (pcCliScratchBuffer s)) = 512"
    using assms(1,3) by (simp add: cli_good_def cli_buffers_ok_def CLI_OUTPUT_SCRATCH_BUF_LEN_def)
qed

text \<open>What \<open>conf set\<close> leaves: a store that is reachable, and the text to be printed, if any.\<close>

definition set_result :: "'w cli_env \<Rightarrow> 'w \<Rightarrow> 'w cli \<Rightarrow> (bool \<times> nat \<times> 'w cli) option \<Rightarrow> bool" where
  "set_result env w0 s r \<longleftrightarrow> (\<exists>ok n kv b. r = Some (ok, n, s\<lparr>cliKv := kv, pcCliScratchBuffer := b\<rparr>) \<and>
     kv_reachable (cliKvEnv env) w0 kv \<and> length b = 512 \<and> n < 512)"

lemma set_number_ok:
  assumes "cli_good env w0 s" and "terminated key" and "length (c_str key) \<le> 127" and "terminated value"
    and "\<And>v. setter_ok env w0 (cliKv s) (setter v (cliKv s))" and "parse = strtol \<or> parse = strtoul" and "\<And>v. length (fmt v) \<le> 11"
  shows "set_result env w0 s (set_number parse setter fmt key (Some value) s)"
proof -
  have "\<exists>v used. parse value = Some (v, used)"
    using assms(4,6) by (auto simp: strtol_def strtoul_def Let_def split: prod.splits)
  then obtain v used where pa: "parse value = Some (v, used)" by blast
  from assms(5) [of v] obtain ok kv where st: "setter v (cliKv s) = Some (ok, kv)" "kv_reachable (cliKvEnv env) w0 kv"
    by (auto simp: setter_ok_def)
  let ?t = "number_line (c_str key) (fmt v)"
  have l: "length ?t < 512" using assms(3) assms(7) [of v] by simp
  show ?thesis
  proof (cases "used \<noteq> 0 \<or> v = 0")
    case True
    have "set_number parse setter fmt key (Some value) s = Some (True, length ?t,
        s\<lparr>cliKv := kv, pcCliScratchBuffer := ?t @ 0 # drop (length ?t + 1) (pcCliScratchBuffer s)\<rparr>)"
      using pa st True printed(1) [OF assms(1) st(2) l] assms(2)
      unfolding set_number_def number_line_def by (simp add: format_s_terminated)
    then show ?thesis using printed(2) [OF assms(1) st(2) l] st(2) l unfolding set_result_def by blast
  next
    case False
    then have "set_number parse setter fmt key (Some value) s = Some (False, 0, s\<lparr>cliKv := cliKv s, pcCliScratchBuffer := pcCliScratchBuffer s\<rparr>)"
      using pa by (simp add: set_number_def)
    moreover have "kv_reachable (cliKvEnv env) w0 (cliKv s)" "length (pcCliScratchBuffer s) = 512" "(0 :: nat) < 512"
      using assms(1) by (simp_all add: cli_good_def cli_buffers_ok_def CLI_OUTPUT_SCRATCH_BUF_LEN_def)
    ultimately show ?thesis unfolding set_result_def by blast
  qed
qed

lemma set_text_ok:
  assumes "cli_good env w0 s" and "terminated key" and "length (c_str key) \<le> 127" and "terminated value" and "length (c_str value) \<le> 127"
    and "setter_ok env w0 (cliKv s) (setter (Some value) (cliKv s))"
  shows "set_result env w0 s (set_text setter key (Some value) s)"
proof -
  from assms(6) obtain ok kv where st: "setter (Some value) (cliKv s) = Some (ok, kv)" "kv_reachable (cliKvEnv env) w0 kv"
    by (auto simp: setter_ok_def)
  let ?t = "text_line (c_str key) (c_str value)"
  have l: "length ?t < 512" using assms(3,5) by simp
  have "set_text setter key (Some value) s = Some (ok, length ?t,
      s\<lparr>cliKv := kv, pcCliScratchBuffer := ?t @ 0 # drop (length ?t + 1) (pcCliScratchBuffer s)\<rparr>)"
    using st printed(1) [OF assms(1) st(2) l] assms(2,4)
    unfolding set_text_def text_line_def by (simp add: format_s_terminated)
  then show ?thesis using printed(2) [OF assms(1) st(2) l] st(2) l unfolding set_result_def by blast
qed

lemma set_value_ok:
  assumes "cli_platform its contents env w0" and "cli_good env w0 s" and "line_room env s"
    and "terminated key" and "length (c_str key) \<le> 127" and "terminated value" and "length (c_str value) \<le> 127"
  shows "set_result env w0 s (set_value (cliKvEnv env) k key (Some value) s)"
proof -
  let ?e = "cliKvEnv env"
  note w = set_word_ok [OF assms(1,2), of k]
  have lu: "length (format_lu v) \<le> 11" for v using format_lu_length [of v] by simp
  have none: "set_result env w0 s (Some (False, 0, s))"
  proof -
    have "Some (False, 0 :: nat, s) = Some (False, 0, s\<lparr>cliKv := cliKv s, pcCliScratchBuffer := pcCliScratchBuffer s\<rparr>)" by simp
    moreover have "kv_reachable (cliKvEnv env) w0 (cliKv s)" "length (pcCliScratchBuffer s) = 512" "(0 :: nat) < 512"
      using assms(2) by (simp_all add: cli_good_def cli_buffers_ok_def CLI_OUTPUT_SCRATCH_BUF_LEN_def)
    ultimately show ?thesis unfolding set_result_def by blast
  qed
  show ?thesis
  proof (cases "KVStore_getType ?e k")
    case KV_TYPE_BASE_T
    show ?thesis unfolding set_value_def KV_TYPE_BASE_T KVStoreValueType_t.case
      by (rule set_number_ok [OF assms(2,4-6)]) (simp_all add: w(1) format_ld_length)
  next
    case KV_TYPE_UBASE_T
    show ?thesis unfolding set_value_def KV_TYPE_UBASE_T KVStoreValueType_t.case
      by (rule set_number_ok [OF assms(2,4-6)]) (simp_all add: w(2) lu)
  next
    case KV_TYPE_INT32
    show ?thesis unfolding set_value_def KV_TYPE_INT32 KVStoreValueType_t.case
      by (rule set_number_ok [OF assms(2,4-6)]) (simp_all add: w(3) format_ld_length)
  next
    case KV_TYPE_UINT32
    show ?thesis unfolding set_value_def KV_TYPE_UINT32 KVStoreValueType_t.case
      by (rule set_number_ok [OF assms(2,4-6)]) (simp_all add: w(4) lu)
  next
    case KV_TYPE_STRING
    show ?thesis unfolding set_value_def KV_TYPE_STRING KVStoreValueType_t.case
      by (rule set_text_ok [OF assms(2,4-7)]) (rule set_string_ok [OF assms(1-3,6,7)])
  next
    case KV_TYPE_BLOB
    show ?thesis unfolding set_value_def KV_TYPE_BLOB KVStoreValueType_t.case
      by (rule set_text_ok [OF assms(2,4-7)]) (rule set_blob_ok [OF assms(1-3,6,7)])
  qed (simp_all add: set_value_def none)
qed

lemma io_write_total:
  assumes "cli_buffers_ok s" and "length b = 512" and "n \<le> 512"
  shows "\<exists>c t. io_write b n s = Some (s\<lparr>pcOutputBuffer := c, cliStdout := t\<rparr>) \<and> length c = 2046 \<and>
    drop 512 c = drop 512 (pcOutputBuffer s)"
proof -
  define d where "d = take n (c_str b @ replicate n 0)"
  let ?o = "pcOutputBuffer s" and ?d = d
  let ?c = "?d @ drop n ?o"
  have o: "length ?o = 2046" "drop 512 ?o = replicate 1534 0"
    using assms(1) by (simp_all add: cli_buffers_ok_def CLI_OUTPUT_SCRATCH_BUF_LEN_def sizeof_output_buffer_def)
  have ld: "length ?d = n" by (simp add: d_def)
  have cp: "strncpy ?o b n = Some ?c"
    using assms(2,3) o(1) ld unfolding strncpy_def d_def [symmetric] by (simp add: write_at_def)
  have dr: "drop 512 ?c = drop 512 ?o" using assms(3) ld by simp
  show ?thesis
  proof (cases "n < 512")
    case True
    let ?f = "?d @ 0 # drop (n + 1) ?o"
    have wr: "write_at ?c n [0] = Some ?f" using o(1) ld True by (simp add: write_at_def)
    have fs: "format_s ?f = Some (c_str ?f)" by (rule format_s_terminated) (simp add: terminated_def)
    have "io_write b n s = Some (s\<lparr>pcOutputBuffer := ?f, cliStdout := cliStdout s @ c_str ?f\<rparr>)"
      unfolding io_write_def cp Option.bind.simps CLI_OUTPUT_SCRATCH_BUF_LEN_def
      using True wr fs by (simp del: write_at_Some)
    moreover have "length ?f = 2046" "drop 512 ?f = drop 512 ?o" using o(1) ld True by (simp_all add: drop_Cons')
    ultimately show ?thesis by blast
  next
    case False
    with assms(3) have n: "n = 512" by simp
    have "0 \<in> set (drop 512 ?o)" unfolding o(2) by simp
    then have "0 \<in> set ?c" using dr by (metis in_set_dropD)
    then have fs: "format_s ?c = Some (c_str ?c)" by (intro format_s_terminated) (simp only: terminated_def)
    have "io_write b n s = Some (s\<lparr>pcOutputBuffer := ?c, cliStdout := cliStdout s @ c_str ?c\<rparr>)"
      unfolding io_write_def cp Option.bind.simps CLI_OUTPUT_SCRATCH_BUF_LEN_def
      using False fs by simp
    moreover have "length ?c = 2046" using o(1) ld n by simp
    ultimately show ?thesis using dr by blast
  qed
qed

text \<open>A word of a command line: a string of at most 127 characters.\<close>

definition word_arg :: "bytes option \<Rightarrow> bool" where
  "word_arg a = (case a of None \<Rightarrow> False | Some p \<Rightarrow> terminated p \<and> length (c_str p) \<le> 127)"

lemma set_good:
  assumes "cli_platform its contents env w0" and "cli_good env w0 s" and "line_room env s"
    and "\<forall>a \<in> set argv. word_arg a" and "2 < length argv"
  shows "returns_good env w0 s (vSubCommand_SetConfig env argv s)"
proof -
  let ?e = "cliKvEnv env"
  have "word_arg (argv ! 2)" using assms(4,5) by simp
  then obtain key where key: "argv ! 2 = Some key" "terminated key" "length (c_str key) \<le> 127"
    by (auto simp: word_arg_def split: option.splits)
  have "\<exists>value. (if length argv > VALUE_ARG_IDX then arg argv 3 else Some (Some [0])) = Some (Some value) \<and>
      terminated value \<and> length (c_str value) \<le> 127"
  proof (cases "3 < length argv")
    case True
    then have "word_arg (argv ! 3)" using assms(4) by simp
    with True show ?thesis by (auto simp: word_arg_def arg_def VALUE_ARG_IDX_def split: option.splits)
  next
    case False
    then show ?thesis by (intro exI [of _ "[0]"]) (simp add: VALUE_ARG_IDX_def)
  qed
  then obtain val where val: "(if length argv > VALUE_ARG_IDX then arg argv 3 else Some (Some [0])) = Some (Some val)"
    "terminated val" "length (c_str val) \<le> 127" by blast
  from kvStringToKey_total [OF good_ready(3) [OF assms(1,2)] key(2)] obtain k where k: "kvStringToKey ?e key = Some k" by blast
  from set_value_ok [OF assms(1-3) key(2,3) val(2,3), of k] obtain ok n kv b where
    sv: "set_value ?e k key (Some val) s = Some (ok, n, s\<lparr>cliKv := kv, pcCliScratchBuffer := b\<rparr>)"
      "kv_reachable ?e w0 kv" "length b = 512" "n < 512" unfolding set_result_def by blast
  let ?s1 = "s\<lparr>cliKv := kv, pcCliScratchBuffer := b\<rparr>"
  have g1: "cli_good env w0 ?s1" using assms(2) sv(2,3) by (simp add: cli_good_def cli_buffers_ok_def CLI_OUTPUT_SCRATCH_BUF_LEN_def)
  define err where "err = (if k = CS_NUM_KEYS ?e then ascii ''Error: key: '' @ c_str key @ ascii '' was not recognized.'' @ CLI_OUTPUT_EOL
    else ascii ''Error: value: '' @ c_str val @ ascii '' is not valid for key: '' @ c_str key @ CLI_OUTPUT_EOL)"
  have le: "length err < 512" using key(3) val(3) by (simp add: err_def CLI_OUTPUT_EOL_def)
  let ?m = "if \<not> ok
            then do {
              k' \<leftarrow> format_s key;
              if k = CS_NUM_KEYS ?e
              then scratch_printf (ascii ''Error: key: '' @ k' @ ascii '' was not recognized.'' @ CLI_OUTPUT_EOL) ?s1
              else do {
                v \<leftarrow> Option.bind (Some val) format_s;
                scratch_printf (ascii ''Error: value: '' @ v @ ascii '' is not valid for key: '' @ k' @ CLI_OUTPUT_EOL) ?s1 } }
            else Some (n, ?s1)"
  have "\<exists>n b. ?m = Some (n, s\<lparr>cliKv := kv, pcCliScratchBuffer := b\<rparr>) \<and> length b = 512 \<and> n < 512"
  proof (cases ok)
    case True
    with sv(3,4) show ?thesis by auto
  next
    case False
    have "?s1\<lparr>cliKv := kv\<rparr> = ?s1" by simp
    with printed [OF g1 sv(2) le] have
      "scratch_printf err ?s1 = Some (length err, ?s1\<lparr>cliKv := kv, pcCliScratchBuffer := err @ 0 # drop (length err + 1) b\<rparr>)"
      and lb: "length (err @ 0 # drop (length err + 1) b) = 512" by simp_all
    moreover have "?s1\<lparr>cliKv := kv, pcCliScratchBuffer := x\<rparr> = s\<lparr>cliKv := kv, pcCliScratchBuffer := x\<rparr>" for x by simp
    moreover from False key(2) val(2) have "?m = scratch_printf err ?s1"
      by (simp add: format_s_terminated err_def)
    ultimately have "?m = Some (length err, s\<lparr>cliKv := kv, pcCliScratchBuffer := err @ 0 # drop (length err + 1) b\<rparr>)" by (simp only:)
    with lb le show ?thesis by blast
  qed
  then obtain n' b' where m: "?m = Some (n', s\<lparr>cliKv := kv, pcCliScratchBuffer := b'\<rparr>)" "length b' = 512" "n' < 512" by blast
  let ?s2 = "s\<lparr>cliKv := kv, pcCliScratchBuffer := b'\<rparr>"
  have g2: "cli_good env w0 ?s2" using assms(2) sv(2) m(2) by (simp add: cli_good_def cli_buffers_ok_def CLI_OUTPUT_SCRATCH_BUF_LEN_def)
  then have "cli_buffers_ok ?s2" by (simp add: cli_good_def)
  from io_write_total [OF this m(2), of n'] m(3) obtain c t where
    io: "io_write b' n' ?s2 = Some (?s2\<lparr>pcOutputBuffer := c, cliStdout := t\<rparr>)" "length c = 2046" "drop 512 c = drop 512 (pcOutputBuffer s)"
    by auto
  have "returns_good env w0 s (if n' > 0 then io_write b' n' ?s2 else Some ?s2)"
    using io g2 by (auto simp: returns_good_def same_shell_def cli_good_def cli_buffers_ok_def CLI_OUTPUT_SCRATCH_BUF_LEN_def sizeof_output_buffer_def)
  moreover have "arg argv 2 = Some (Some key)" using key(1) assms(5) by (simp add: arg_def)
  moreover have "(if n' > 512 then 512 else n') = n'" using m(3) by simp
  ultimately show ?thesis
    unfolding vSubCommand_SetConfig_def Let_def CLI_OUTPUT_SCRATCH_BUF_LEN_def
    by (cases "n' > 0") (simp_all add: val(1) k sv(1) m(1))
qed

lemma configure_good:
  assumes "cli_platform its contents env w0" and "cli_good env w0 s" and "line_room env s"
    and "\<forall>a \<in> set argv. word_arg a"
    and "\<not> (length argv = 2 \<and> map_option c_str (argv ! 1) = Some (ascii ''set''))"
  shows "returns_good env w0 s (vCommand_Configure env argv s)"
proof -
  have usage: "returns_good env w0 s (io_print (pcHelpString xCommandDef_conf) s)"
  proof -
    have "0 \<in> set (pcHelpString xCommandDef_conf)" by (simp add: xCommandDef_conf_def)
    from print_terminated [OF this, of s] good_stdout [OF assms(2)] show ?thesis by auto
  qed
  show ?thesis
  proof (cases "1 < length argv")
    case False
    with usage show ?thesis by (simp add: vCommand_Configure_def MODE_ARG_IDX_def)
  next
    case True
    then have "word_arg (argv ! 1)" using assms(4) by simp
    then obtain mode where mode: "argv ! 1 = Some mode" "terminated mode" by (auto simp: word_arg_def split: option.splits)
    have a1: "arg argv 1 = Some (Some mode)" using True mode(1) by (simp add: arg_def)
    have lit: "c_str (c_literal ''get'') = ascii ''get''" "c_str (c_literal ''set'') = ascii ''set''" "c_str (c_literal ''commit'') = ascii ''commit''"
      by (simp_all add: c_str_c_literal of_char_def)
    note cmp = strcmp_eq_terminated [OF terminated_c_literal mode(2)]
    let ?get = "if 2 < length argv then Option.bind (arg argv 2) (\<lambda>pcKey. vSubCommand_GetConfig env pcKey s) else vSubCommand_GetConfigAll env s"
    have get: "returns_good env w0 s ?get"
    proof (cases "2 < length argv")
      case True
      then have "word_arg (argv ! 2)" using assms(4) by simp
      then obtain key where "argv ! 2 = Some key" "terminated key" "length (c_str key) \<le> 127"
        by (auto simp: word_arg_def split: option.splits)
      with get_good [OF assms(1,2)] True show ?thesis by (simp add: arg_def)
    qed (use getall_good [OF assms(1,2)] in simp)
    have set: "c_str mode = ascii ''set'' \<Longrightarrow> returns_good env w0 s (vSubCommand_SetConfig env argv s)"
      using set_good [OF assms(1-4)] assms(5) mode(1) True by (cases "2 < length argv") auto
    note commit = conf_commit_good [OF assms(1,2)]
    have cmp: "strcmp_eq (c_literal ''get'') mode = Some (ascii ''get'' = c_str mode)"
      "strcmp_eq (c_literal ''set'') mode = Some (ascii ''set'' = c_str mode)"
      "strcmp_eq (c_literal ''commit'') mode = Some (ascii ''commit'' = c_str mode)"
      using cmp unfolding lit [symmetric] by simp_all
    have bind: "returns_good env w0 s r \<Longrightarrow> returns_good env w0 s (do {
        (xSuccess, s) \<leftarrow> do { s \<leftarrow> r; Some (True, s) };
        if \<not> xSuccess then io_print (pcHelpString xCommandDef_conf) s else Some s })" for r
      by (auto simp: returns_good_def)
    have idx: "(1 < length argv) = True" using True by simp
    consider "ascii ''get'' = c_str mode" | "ascii ''get'' \<noteq> c_str mode" "ascii ''set'' = c_str mode"
      | "ascii ''get'' \<noteq> c_str mode" "ascii ''set'' \<noteq> c_str mode" "ascii ''commit'' = c_str mode"
      | "ascii ''get'' \<noteq> c_str mode" "ascii ''set'' \<noteq> c_str mode" "ascii ''commit'' \<noteq> c_str mode" by blast
    then show ?thesis
    proof cases
      case 1
      then show ?thesis
        using bind [OF get] unfolding vCommand_Configure_def MODE_ARG_IDX_def KEY_ARG_IDX_def idx if_True a1 Option.bind.simps id_apply cmp
        by simp
    next
      case 2
      then show ?thesis
        using bind [OF set] unfolding vCommand_Configure_def MODE_ARG_IDX_def KEY_ARG_IDX_def idx if_True a1 Option.bind.simps id_apply cmp
        by simp
    next
      case 3
      then show ?thesis
        using bind [OF commit] unfolding vCommand_Configure_def MODE_ARG_IDX_def KEY_ARG_IDX_def idx if_True a1 Option.bind.simps id_apply cmp
        by simp
    next
      case 4
      then show ?thesis
        using usage unfolding vCommand_Configure_def MODE_ARG_IDX_def KEY_ARG_IDX_def idx if_True a1 Option.bind.simps id_apply cmp
        by simp
    qed
  qed
qed

end
