(* ===== verification/Cli.thy ===== *)
theory Cli
  imports CliReturns
begin

text \<open>
  The command interpreter (cli_main.c) and the command \<open>reset\<close> (cli_utils.c). A line is a buffer; the argument
  vector holds offsets into it until the interpreter of the command is called with the strings there.
\<close>

definition xHelpCommand :: CLI_Command_Definition_t where
  "xHelpCommand = \<lparr>pcCommand = c_literal ''help'', pcHelpString =
     ascii ''help:'' @ CLI_OUTPUT_EOL @
     ascii ''    List available commands and their arguments.'' @ CLI_OUTPUT_EOL @
     ascii ''    Usage:'' @ CLI_OUTPUT_EOL @ [10] @
     ascii ''    help'' @ CLI_OUTPUT_EOL @
     ascii ''        Print help for all recognized commands'' @ CLI_OUTPUT_EOL @ [10] @
     ascii ''    help <command>'' @ CLI_OUTPUT_EOL @
     ascii ''        Print help test for a specific command'' @ CLI_OUTPUT_EOL @ [10] @ [0],
     pxCommandInterpreter = ip_prvHelpCommand\<rparr>"

definition xCommandDef_reset :: CLI_Command_Definition_t where
  "xCommandDef_reset = \<lparr>pcCommand = c_literal ''reset'', pcHelpString =
     ascii ''reset'' @ CLI_OUTPUT_EOL @
     ascii ''    Reset (reboot) the system.'' @ CLI_OUTPUT_EOL @ [10] @ [0],
     pxCommandInterpreter = ip_vResetCommand\<rparr>"

definition xCommandDef_pki :: CLI_Command_Definition_t where
  "xCommandDef_pki = \<lparr>pcCommand = c_literal ''pki'', pcHelpString =
     ascii ''pki:'' @ CLI_OUTPUT_EOL @
     ascii ''    Perform public/private key operations.'' @ CLI_OUTPUT_EOL @
     ascii ''    Usage:'' @ CLI_OUTPUT_EOL @
     ascii ''    pki <verb> <object> <args>'' @ CLI_OUTPUT_EOL @
     ascii ''        Valid verbs are { generate, import, export, list }'' @ CLI_OUTPUT_EOL @
     ascii ''        Valid object types are { key, csr, cert }'' @ CLI_OUTPUT_EOL @
     ascii ''        Arguments should be specified in --<arg_name> <value>'' @ CLI_OUTPUT_EOL @ [10] @
     ascii ''    pki generate key <label_public> <label_private> <algorithm> <algorithm_param>'' @ CLI_OUTPUT_EOL @
     ascii ''        Generates a new private key to be stored in the specified labels'' @ CLI_OUTPUT_EOL @ [10] @
     ascii ''    pki generate csr <label>'' @ CLI_OUTPUT_EOL @
     ascii ''        Generates a new Certificate Signing Request using the private key'' @ CLI_OUTPUT_EOL @
     ascii ''        with the specified label.'' @ CLI_OUTPUT_EOL @
     ascii ''        If no label is specified, the default tls private key is used.'' @ CLI_OUTPUT_EOL @ [10] @
     ascii ''    pki generate cert <cert_label> <private_key_label>'' @ CLI_OUTPUT_EOL @
     ascii ''        Generate a new self-signed certificate'' @ CLI_OUTPUT_EOL @ [10] @
     ascii ''    pki import cert <label>'' @ CLI_OUTPUT_EOL @
     ascii ''        Import a certificate into the given slot. The certificate should be '' @ CLI_OUTPUT_EOL @
     ascii ''        copied into the terminal in PEM format, ending with two blank lines.'' @ CLI_OUTPUT_EOL @ [10] @
     ascii ''    pki export cert <label>'' @ CLI_OUTPUT_EOL @
     ascii ''        Export the certificate with the given label in pem format.'' @ CLI_OUTPUT_EOL @
     ascii ''        When no label is specified, the default certificate is exported.'' @ CLI_OUTPUT_EOL @ [10] @
     ascii ''    pki import key <label>'' @ CLI_OUTPUT_EOL @
     ascii ''        Import a public key into the given slot. The key should be '' @ CLI_OUTPUT_EOL @
     ascii ''        copied into the terminal in PEM format, ending with two blank lines.'' @ CLI_OUTPUT_EOL @ [10] @
     ascii ''    pki export key <label>'' @ CLI_OUTPUT_EOL @
     ascii ''        Export the public portion of the key with the specified label.'' @ CLI_OUTPUT_EOL @ [10] @ [0],
     pxCommandInterpreter = ip_vCommand_PKI\<rparr>"

subsection \<open>Registering and finding commands\<close>

text \<open>
  The list item comes from the kernel heap, which the key-value store uses too; a null pointer stops in an
  assertion. An item has two pointers.
\<close>

definition FreeRTOS_CLIRegisterCommand :: "'w cli_env \<Rightarrow> CLI_Command_Definition_t \<Rightarrow> 'w cli \<Rightarrow> 'w cli option" where
  "FreeRTOS_CLIRegisterCommand env pxCommandToRegister s =
     (let (p, h) = pvPortMalloc (kvAlloc (cliKvEnv env)) (kvHeap (cliKv s)) 8
      in if p = NULL then None
         else Some (s\<lparr>cliKv := (cliKv s)\<lparr>kvHeap := h\<rparr>, xRegisteredCommands := xRegisteredCommands s @ [pxCommandToRegister]\<rparr>))"

fun prvFindMatchingCommand :: "CLI_Command_Definition_t list \<Rightarrow> bytes \<Rightarrow> CLI_Command_Definition_t option option" where
  "prvFindMatchingCommand [] pcCommandInput = Some None"
| "prvFindMatchingCommand (c # cs) pcCommandInput = do {
     n \<leftarrow> strlen (pcCommand c);
     eq \<leftarrow> strncmp_eq pcCommandInput (pcCommand c) n;
     found \<leftarrow> (if eq then do { x \<leftarrow> read_at pcCommandInput n 1; Some (hd x = SPACE \<or> hd x = 0) } else Some False);
     if found then Some (Some c) else prvFindMatchingCommand cs pcCommandInput }"

fun prvGetNumberOfArgs :: "bytes \<Rightarrow> nat option" where
  "prvGetNumberOfArgs [] = None"
| "prvGetNumberOfArgs (c # cs) =
     (if c = 0 then Some 0
      else do {
        k \<leftarrow> (if c \<noteq> SPACE
            then (case cs of [] \<Rightarrow> None | d # _ \<Rightarrow> Some (if d = SPACE \<or> d = 0 then 1 else 0))
            else Some 0);
        n \<leftarrow> prvGetNumberOfArgs cs;
        Some (k + n) })"

subsection \<open>Help and reset\<close>

fun help_search :: "CLI_Command_Definition_t list \<Rightarrow> bytes \<Rightarrow> nat \<Rightarrow> nat option option" where
  "help_search [] a i = Some None"
| "help_search (c # cs) a i = do {
     n \<leftarrow> strlen (pcCommand c);
     eq \<leftarrow> strncmp_eq (pcCommand c) a n;
     if eq then Some (Some i) else help_search cs a (Suc i) }"

text \<open>\<open>pxCommand\<close> is static: it keeps its value from one call to the next. Here it is the index in the list.\<close>

definition prvHelpCommand :: "bytes option list \<Rightarrow> 'w cli \<Rightarrow> 'w cli option" where
  "prvHelpCommand ppcArgv s = do {
     pxCommand \<leftarrow> (if length ppcArgv > 1
       then case ppcArgv ! 1 of
           Some a \<Rightarrow> help_search (xRegisteredCommands s) a 0
         | None \<Rightarrow> Some (pxHelpCommand s)
       else Some (pxHelpCommand s));
     let s = s\<lparr>pxHelpCommand := pxCommand\<rparr>;
     case pxCommand of
       Some i \<Rightarrow> io_print (pcHelpString (xRegisteredCommands s ! i)) s
     | None \<Rightarrow> for_each (xRegisteredCommands s) (\<lambda>c. io_print (pcHelpString c)) s }"

text \<open>\<open>NVIC_SystemReset\<close> restarts the device; the state records it.\<close>

definition vResetCommand :: "bytes option list \<Rightarrow> 'w cli \<Rightarrow> 'w cli option" where
  "vResetCommand ppcArgv s = do {
     s \<leftarrow> io_print (c_literal ''Resetting device.'') s;
     Some (s\<lparr>cliReset := True\<rparr>) }"

subsection \<open>Processing a line\<close>

definition run_interpreter :: "'w cli_env \<Rightarrow> command_interpreter \<Rightarrow> bytes option list \<Rightarrow> 'w cli \<Rightarrow> 'w cli option" where
  "run_interpreter env f argv s =
     (case f of
        ip_prvHelpCommand \<Rightarrow> prvHelpCommand argv s
      | ip_vCommand_Configure \<Rightarrow> vCommand_Configure env argv s
      | ip_vCommand_PKI \<Rightarrow> vCommand_PKI env argv s
      | ip_vResetCommand \<Rightarrow> vResetCommand argv s)"

text \<open>
  A turn of the loop that fills \<open>pcArgv\<close>: the arguments found so far, the context of \<open>strtok_r\<close> and the
  line; a null token stops in the assertion. Then the whole vector.
\<close>

definition next_arg :: "nat \<Rightarrow> nat option list \<times> nat \<times> bytes \<Rightarrow> (nat option list \<times> nat \<times> bytes) option" where
  "next_arg i = (\<lambda>(argv, ctx, line). do {
     (t, ctx, line) \<leftarrow> strtok_r SPACE line ctx;
     t \<leftarrow> t;
     Some (argv @ [Some t], ctx, line) })"

definition tokenize :: "nat \<Rightarrow> bytes \<Rightarrow> (nat option list \<times> bytes) option" where
  "tokenize ulArgC line =
     (if ulArgC = 0 then None
      else do {
        (t0, ctx, line) \<leftarrow> strtok_r SPACE line 0;
        (argv, ctx, line) \<leftarrow> for_each [1..<ulArgC] next_arg ([t0], ctx, line);
        (t, _, line) \<leftarrow> strtok_r SPACE line ctx;
        if t \<noteq> None then None else Some (argv, line) })"

text \<open>The line is the input buffer of the state; the interpreter works on the tokens in it.\<close>

definition FreeRTOS_CLIProcessCommand :: "'w cli_env \<Rightarrow> 'w cli \<Rightarrow> 'w cli option" where
  "FreeRTOS_CLIProcessCommand env s = do {
     pxCommand \<leftarrow> prvFindMatchingCommand (xRegisteredCommands s) (pcInputBuffer s);
     case pxCommand of
       Some c \<Rightarrow> do {
         ulArgC \<leftarrow> prvGetNumberOfArgs (pcInputBuffer s);
         (argv, line) \<leftarrow> tokenize ulArgC (pcInputBuffer s);
         run_interpreter env (pxCommandInterpreter c) (map (map_option (\<lambda>t. drop t line)) argv) (s\<lparr>pcInputBuffer := line\<rparr>) }
     | None \<Rightarrow> io_print (ascii ''Command not recognized. Enter 'help' to view a list of available commands.'' @ CLI_OUTPUT_EOL @ [0]) s }"

text \<open>One turn of the endless loop of \<open>Task_CLI\<close>, and its start; \<open>xInitConsole\<close> is always 1.\<close>

definition xInitConsole :: u32 where "xInitConsole = 1"

definition Task_CLI_init :: "'w cli_env \<Rightarrow> 'w cli \<Rightarrow> 'w cli option" where
  "Task_CLI_init env s = do {
     s \<leftarrow> FreeRTOS_CLIRegisterCommand env xCommandDef_conf s;
     s \<leftarrow> FreeRTOS_CLIRegisterCommand env xCommandDef_pki s;
     FreeRTOS_CLIRegisterCommand env xCommandDef_reset s }"

definition Task_CLI_turn :: "'w cli_env \<Rightarrow> bytes \<Rightarrow> 'w cli \<Rightarrow> ('w cli \<times> bytes) option" where
  "Task_CLI_turn env input s = do {
     (lLen, s, input) \<leftarrow> io_readline input s;
     s \<leftarrow> (if lLen > 0 then FreeRTOS_CLIProcessCommand env s else Some s);
     Some (s, input) }"

subsection \<open>Looking up a parameter\<close>

text \<open>
  \<open>k\<close> more parameters are to be found from position \<open>p\<close> on. The result is the position of the parameter
  (\<open>None\<close> is \<open>NULL\<close>) and what \<open>*pxParameterStringLength\<close> receives.
\<close>

fun find_parameter :: "bytes \<Rightarrow> nat \<Rightarrow> nat \<Rightarrow> (nat option \<times> nat) option" where
  "find_parameter line 0 p = Some (None, 0)"
| "find_parameter line (Suc k) p = do {
     p \<leftarrow> scan (\<lambda>c. c = 0 \<or> c = SPACE) line p;
     p \<leftarrow> scan (\<lambda>c. c = 0 \<or> c \<noteq> SPACE) line p;
     if line ! p \<noteq> 0
     then if k = 0
       then do {
         e \<leftarrow> scan (\<lambda>c. c = 0 \<or> c = SPACE) line p;
         Some (if e - p = 0 then None else Some p, e - p) }
       else find_parameter line k p
     else Some (None, 0) }"

definition FreeRTOS_CLIGetParameter :: "bytes \<Rightarrow> nat \<Rightarrow> (nat option \<times> nat) option" where
  "FreeRTOS_CLIGetParameter pcCommandString uxWantedParameter = find_parameter pcCommandString uxWantedParameter 0"

subsection \<open>The count and the tokens\<close>

lemma number_of_words:
  assumes "0 \<notin> set s"
  shows "prvGetNumberOfArgs (s @ 0 # rest) = Some (length (split_words s))"
  using assms
proof (induction s rule: length_induct)
  case (1 s)
  have spaces: "prvGetNumberOfArgs (k @ t @ 0 # rest) = prvGetNumberOfArgs (t @ 0 # rest)" if "set k \<subseteq> {SPACE}" for k t
    using that by (induction k) auto
  have one: "prvGetNumberOfArgs (w @ t @ 0 # rest) = map_option Suc (prvGetNumberOfArgs (t @ 0 # rest))"
    if "w \<noteq> []" "SPACE \<notin> set w" "0 \<notin> set w" "t = [] \<or> hd t = SPACE" for w t
    using that
  proof (induction w)
    case (Cons c w)
    show ?case
    proof (cases w)
      case Nil
      with Cons show ?thesis by (cases t) (auto simp: option.map_ident split: option.splits intro: option.expand)
    next
      case (Cons d w')
      with Cons.IH Cons.prems show ?thesis by (cases "prvGetNumberOfArgs (t @ 0 # rest)") auto
    qed
  qed simp
  show ?case
  proof (cases s rule: line_cases)
    case blank
    then show ?thesis using spaces [of s "[]"] by (simp add: split_words_blank)
  next
    case (word k w t)
    then have "length t < length s" "0 \<notin> set t" "0 \<notin> set w" using "1.prems" by auto
    with "1.IH" have "prvGetNumberOfArgs (t @ 0 # rest) = Some (length (split_words t))" by blast
    with spaces [OF word(2), of "w @ t"] one [OF word(3,4) \<open>0 \<notin> set w\<close> word(5)] word
    show ?thesis by (simp add: split_words_spaces split_words_word)
  qed
qed

lemma next_args:
  assumes "0 \<notin> set s" and "length is = length (split_words s)"
  shows "\<exists>ts ctx line'. for_each is next_arg (argv, length pre, pre @ s @ 0 # rest) = Some (argv @ map Some ts, ctx, line') \<and>
    length line' = length (pre @ s @ 0 # rest) \<and> take (length pre) line' = pre \<and>
    map (\<lambda>t. c_str (drop t line')) ts = split_words s \<and> (\<forall>t \<in> set ts. t < length line' \<and> terminated (drop t line')) \<and>
    (\<exists>x. strtok_r SPACE line' ctx = Some (None, x, line'))"
  using assms
proof (induction "is" arbitrary: s argv pre)
  case Nil
  then have "set s \<subseteq> {SPACE}" by (cases s rule: line_cases) (auto simp: split_words_spaces split_words_word)
  from strtok_r_end [OF this, of "length pre" pre rest] Nil show ?case by (simp add: split_words_blank)
next
  case (Cons i "is")
  show ?case
  proof (cases s rule: line_cases)
    case blank
    with Cons.prems show ?thesis by (simp add: split_words_blank)
  next
    case (word k w t)
    let ?tok = "length pre + length k"
    have w0: "0 \<notin> set w" and t0: "0 \<notin> set t" using Cons.prems(1) word(1) by auto
    have sw: "split_words s = w # split_words t"
      using word by (simp add: split_words_spaces split_words_word)
    have tok: "c_str (drop ?tok line') = w \<and> ?tok < length line' \<and> terminated (drop ?tok line')" if "line' = pre @ k @ w @ 0 # r" for line' r
      using that w0 by (simp add: c_str_append_zero terminated_def)
    show ?thesis
    proof (cases t)
      case Nil
      let ?line = "pre @ k @ w @ 0 # rest"
      have "is = []" using Cons.prems(2) sw Nil by simp
      moreover have "strtok_r SPACE ?line (length pre) = Some (Some ?tok, ?tok + length w, ?line)"
        using strtok_r_word [OF word(2) _ refl word(3,4) w0, of 0 pre rest] by simp
      ultimately have "for_each (i # is) next_arg (argv, length pre, pre @ s @ 0 # rest) = Some (argv @ [Some ?tok], ?tok + length w, ?line)"
        using word(1) Nil by (simp add: next_arg_def)
      moreover have "strtok_r SPACE ?line (?tok + length w) = Some (None, ?tok + length w, ?line)"
        using strtok_r_end [of "[]" SPACE "?tok + length w" "pre @ k @ w" rest] by simp
      ultimately show ?thesis using tok [OF refl, of rest] sw Nil word(1)
        by (intro exI [of _ "[?tok]"] exI [of _ "?tok + length w"] exI [of _ ?line]) simp
    next
      case (Cons c u)
      then have c: "c = SPACE" "split_words t = split_words u" using word(5) by auto
      let ?pre = "pre @ k @ w @ [0]"
      have st: "strtok_r SPACE (pre @ s @ 0 # rest) (length pre) = Some (Some ?tok, length ?pre, ?pre @ u @ 0 # rest)"
        using strtok_r_word [OF word(2) _ refl word(3,4) w0, of SPACE pre "u @ 0 # rest"] word(1) Cons c(1) by simp
      have "0 \<notin> set u" "length is = length (split_words u)" using Cons.prems(2) sw c t0 Cons by auto
      from Cons.IH [OF this, of "argv @ [Some ?tok]" ?pre] obtain ts ctx line' x where ih:
        "for_each is next_arg (argv @ [Some ?tok], length ?pre, ?pre @ u @ 0 # rest) = Some ((argv @ [Some ?tok]) @ map Some ts, ctx, line')"
        "length line' = length (?pre @ u @ 0 # rest)" "take (length ?pre) line' = ?pre"
        "map (\<lambda>t. c_str (drop t line')) ts = split_words u" "\<forall>t \<in> set ts. t < length line' \<and> terminated (drop t line')"
        "strtok_r SPACE line' ctx = Some (None, x, line')" by blast
      have split: "line' = pre @ k @ w @ 0 # drop (length ?pre) line'"
        using ih(3) append_take_drop_id [of "length ?pre" line'] by simp
      have "take (length pre) line' = pre" by (subst split) simp
      moreover have "for_each (i # is) next_arg (argv, length pre, pre @ s @ 0 # rest) = Some (argv @ map Some (?tok # ts), ctx, line')"
        using st ih(1) by (simp add: next_arg_def)
      moreover have "length line' = length (pre @ s @ 0 # rest)" using ih(2) word(1) Cons by simp
      ultimately show ?thesis using tok [OF split] ih(4-6) sw c(2)
        by (intro exI [of _ "?tok # ts"] exI [of _ ctx] exI [of _ line']) simp
    qed
  qed
qed

lemma tokenize_words:
  assumes "0 \<notin> set s" and "split_words s \<noteq> []"
  shows "\<exists>ts line'. tokenize (length (split_words s)) (s @ 0 # rest) = Some (map Some ts, line') \<and>
    length line' = length (s @ 0 # rest) \<and> map (\<lambda>t. c_str (drop t line')) ts = split_words s \<and>
    (\<forall>t \<in> set ts. terminated (drop t line'))"
proof -
  let ?n = "length (split_words s)"
  have n: "0 < ?n" using assms(2) by simp
  have "length [0..<?n] = ?n" by simp
  from next_args [OF assms(1) this, of "[]" "[]" rest] obtain ts ctx line' x where
    f: "for_each [0..<?n] next_arg ([], 0, s @ 0 # rest) = Some (map Some ts, ctx, line')" and
    r: "length line' = length (s @ 0 # rest)" "map (\<lambda>t. c_str (drop t line')) ts = split_words s"
      "\<forall>t \<in> set ts. terminated (drop t line')" "strtok_r SPACE line' ctx = Some (None, x, line')" by auto
  have "[0..<?n] = 0 # [1..<?n]" using n by (simp add: upt_conv_Cons)
  with f obtain t0 c0 l0 where "strtok_r SPACE (s @ 0 # rest) 0 = Some (Some t0, c0, l0)"
    "for_each [1..<?n] next_arg ([Some t0], c0, l0) = Some (map Some ts, ctx, line')"
    by (auto simp: next_arg_def)
  with n r(4) have "tokenize ?n (s @ 0 # rest) = Some (map Some ts, line')" by (simp add: tokenize_def)
  with r show ?thesis by blast
qed

text \<open>The command of a line: the first registered one whose name is a prefix of it, up to a space or the end.\<close>

definition line_begins :: "bytes \<Rightarrow> bytes \<Rightarrow> bool" where
  "line_begins s name \<longleftrightarrow> (\<exists>t. s = name @ t \<and> (t = [] \<or> hd t = SPACE))"

definition command_names_ok :: "CLI_Command_Definition_t list \<Rightarrow> bool" where
  "command_names_ok cmds \<longleftrightarrow> (\<forall>c \<in> set cmds. terminated (pcCommand c) \<and> terminated (pcHelpString c) \<and>
     c_str (pcCommand c) \<noteq> [] \<and> hd (c_str (pcCommand c)) \<noteq> SPACE)"

lemma find_command:
  assumes "command_names_ok cmds" and "0 \<notin> set s"
  shows "prvFindMatchingCommand cmds (s @ 0 # rest) = Some (find (\<lambda>c. line_begins s (c_str (pcCommand c))) cmds)"
  using assms(1)
proof (induction cmds)
  case (Cons c cmds)
  let ?name = "c_str (pcCommand c)" and ?b = "s @ 0 # rest"
  have t: "terminated (pcCommand c)" "terminated ?b" "0 \<notin> set ?name" using Cons.prems c_str_no_zero
    by (auto simp: command_names_ok_def terminated_def)
  have cs: "c_str ?b = s" using assms(2) by (simp add: c_str_append_zero)
  have eq: "strncmp_eq ?b (pcCommand c) (length ?name) = Some (take (length ?name) s = ?name)"
  proof -
    have "strncmp_eq (s @ 0 # rest) (n @ 0 # r) (length n) = Some (take (length n) s = n)" if "0 \<notin> set n" for n r
      using that assms(2)
    proof (induction n arbitrary: s)
      case (Cons x n)
      then show ?case by (cases s) auto
    qed simp
    moreover obtain r where "pcCommand c = ?name @ 0 # r" using terminated_split [OF t(1)] by blast
    ultimately show ?thesis using t(3) by metis
  qed
  have rd: "\<exists>x. read_at ?b (length ?name) 1 = Some [x] \<and> (x = SPACE \<or> x = 0) = line_begins s ?name"
    if p: "take (length ?name) s = ?name"
  proof -
    from p obtain u where u: "s = ?name @ u" by (metis append_take_drop_id)
    then have "read_at ?b (length ?name) 1 = Some [hd (u @ 0 # rest)]"
      by (cases u) (simp_all add: read_at_def)
    moreover have "(hd (u @ 0 # rest) = SPACE \<or> hd (u @ 0 # rest) = 0) = (u = [] \<or> hd u = SPACE)"
      using u assms(2) by (cases u) auto
    moreover have "line_begins s ?name = (u = [] \<or> hd u = SPACE)" using u by (auto simp: line_begins_def)
    ultimately show ?thesis by blast
  qed
  have "\<not> take (length ?name) s = ?name \<Longrightarrow> \<not> line_begins s ?name" by (auto simp: line_begins_def)
  with Cons eq rd t(1) show ?case
    by (cases "take (length ?name) s = ?name") (auto simp: strlen_terminated command_names_ok_def simp del: read_at_Some)
qed simp

lemma split_words_Nil_iff: "split_words s = [] \<longleftrightarrow> set s \<subseteq> {SPACE}"
proof (cases s rule: line_cases)
  case blank
  then show ?thesis by (simp add: split_words_blank)
next
  case (word k w t)
  then have "split_words s \<noteq> []" by (simp add: split_words_spaces split_words_word)
  moreover have "\<not> set s \<subseteq> {SPACE}" using word by (cases w) auto
  ultimately show ?thesis by simp
qed

lemma first_word:
  assumes "line_begins s name" and "name \<noteq> []" and "hd name \<noteq> SPACE"
  shows "split_words s \<noteq> []"
proof -
  obtain t where "s = name @ t" using assms(1) by (auto simp: line_begins_def)
  moreover have "hd name \<in> set name" using assms(2) by simp
  ultimately show ?thesis unfolding split_words_Nil_iff using assms(3) by fastforce
qed

lemma process_command:
  assumes "command_names_ok (xRegisteredCommands s)" and "pcInputBuffer s = line @ 0 # rest" and "0 \<notin> set line"
    and "find (\<lambda>c. line_begins line (c_str (pcCommand c))) (xRegisteredCommands s) = Some c"
  shows "\<exists>argv buf. FreeRTOS_CLIProcessCommand env s =
      run_interpreter env (pxCommandInterpreter c) (map Some argv) (s\<lparr>pcInputBuffer := buf\<rparr>) \<and>
    map c_str argv = split_words line \<and> (\<forall>a \<in> set argv. terminated a) \<and> length buf = length (pcInputBuffer s)"
proof -
  from assms(4) have c: "c \<in> set (xRegisteredCommands s)" "line_begins line (c_str (pcCommand c))"
    by (auto simp: find_Some_iff)
  with assms(1) have "split_words line \<noteq> []" by (intro first_word [OF c(2)]) (auto simp: command_names_ok_def)
  from tokenize_words [OF assms(3) this, of rest] obtain ts buf where
    tok: "tokenize (length (split_words line)) (line @ 0 # rest) = Some (map Some ts, buf)"
      "length buf = length (line @ 0 # rest)" "map (\<lambda>t. c_str (drop t buf)) ts = split_words line"
      "\<forall>t \<in> set ts. terminated (drop t buf)" by blast
  let ?argv = "map (\<lambda>t. drop t buf) ts"
  have "FreeRTOS_CLIProcessCommand env s =
      run_interpreter env (pxCommandInterpreter c) (map Some ?argv) (s\<lparr>pcInputBuffer := buf\<rparr>)"
    using find_command [OF assms(1,3), of rest] number_of_words [OF assms(3), of rest] tok(1) assms(2,4)
    by (simp add: FreeRTOS_CLIProcessCommand_def comp_def)
  moreover have "map c_str ?argv = split_words line" using tok(3) by (simp add: comp_def)
  ultimately show ?thesis using tok(2,4) assms(2) by (intro exI [of _ ?argv] exI [of _ buf]) auto
qed

lemma unknown_command:
  assumes "command_names_ok (xRegisteredCommands s)" and "pcInputBuffer s = line @ 0 # rest" and "0 \<notin> set line"
    and "find (\<lambda>c. line_begins line (c_str (pcCommand c))) (xRegisteredCommands s) = None"
  shows "\<exists>t. FreeRTOS_CLIProcessCommand env s = Some (s\<lparr>cliStdout := cliStdout s @ t\<rparr>)"
proof -
  let ?m = "ascii ''Command not recognized. Enter 'help' to view a list of available commands.'' @ CLI_OUTPUT_EOL @ [0]"
  obtain t where "io_print ?m s = Some (s\<lparr>cliStdout := cliStdout s @ t\<rparr>)" using print_terminated [of ?m s] by auto
  then show ?thesis
    using find_command [OF assms(1,3), of rest] assms(2,4) by (auto simp: FreeRTOS_CLIProcessCommand_def)
qed

text \<open>
  C29: the interpreter of a command gets exactly the words of the line: the number of arguments that is counted
  first is the number of tokens that \<open>strtok_r\<close> finds, so that none of the assertions fails and the vector is
  filled completely, and the strings in the vector are the words in their order. The line's buffer keeps its size.
\<close>

theorem FreeRTOS_CLIProcessCommand_words:
  assumes "command_names_ok (xRegisteredCommands s)" and "pcInputBuffer s = line @ 0 # rest" and "0 \<notin> set line"
    and "find (\<lambda>c. line_begins line (c_str (pcCommand c))) (xRegisteredCommands s) = Some c"
  shows "\<exists>argv buf. FreeRTOS_CLIProcessCommand env s =
      run_interpreter env (pxCommandInterpreter c) (map Some argv) (s\<lparr>pcInputBuffer := buf\<rparr>) \<and>
    map c_str argv = split_words line \<and> (\<forall>a \<in> set argv. terminated a) \<and> length buf = length (pcInputBuffer s)"
  by (rule process_command [OF assms])

abbreviation shipped_commands :: "CLI_Command_Definition_t list" where
  "shipped_commands \<equiv> [xHelpCommand, xCommandDef_conf, xCommandDef_pki, xCommandDef_reset]"

lemma shipped_names:
  "c_str (pcCommand xHelpCommand) = ascii ''help''" "c_str (pcCommand xCommandDef_conf) = ascii ''conf''"
  "c_str (pcCommand xCommandDef_pki) = ascii ''pki''" "c_str (pcCommand xCommandDef_reset) = ascii ''reset''"
  by (simp_all add: xHelpCommand_def xCommandDef_conf_def xCommandDef_pki_def xCommandDef_reset_def c_str_c_literal of_char_def)

lemma shipped_commands_ok: "command_names_ok shipped_commands"
proof -
  have "terminated (pcCommand c) \<and> terminated (pcHelpString c)" if "c \<in> set shipped_commands" for c
    using that by (auto simp: xHelpCommand_def xCommandDef_conf_def xCommandDef_pki_def xCommandDef_reset_def terminated_def c_literal_def)
  moreover have "c_str (pcCommand c) \<noteq> [] \<and> hd (c_str (pcCommand c)) \<noteq> SPACE" if "c \<in> set shipped_commands" for c
    using that by (auto simp: shipped_names ascii_def of_char_def)
  ultimately show ?thesis by (simp add: command_names_ok_def)
qed

lemma shipped_conf:
  "find (\<lambda>c. line_begins (ascii ''conf'' @ SPACE # t) (c_str (pcCommand c))) shipped_commands = Some xCommandDef_conf"
  by (auto simp: shipped_names line_begins_def ascii_def of_char_def)

subsection \<open>Parameters are words\<close>

lemma scan_at:
  assumes "b = pre @ x @ c # rest" and "i = length pre" and "\<forall>c \<in> set x. \<not> P c" and "P c" and "n = length pre + length x"
  shows "scan P b i = Some n" and "b ! n = c"
  using scan_append [OF assms(2-4), of rest] assms(1,5) by (auto simp: nth_append)

text \<open>From the position of a word \<open>w\<close>, which may be empty, to the next one.\<close>

lemma end_of_word:
  assumes "line = pre @ w @ t @ 0 # rest" and "SPACE \<notin> set w" and "0 \<notin> set w" and "t = [] \<or> hd t = SPACE"
  shows "scan (\<lambda>c. c = 0 \<or> c = SPACE) line (length pre) = Some (length pre + length w)"
proof -
  obtain x y where xy: "t @ 0 # rest = x # y" "x = 0 \<or> x = SPACE" using assms(4) by (cases t) auto
  show ?thesis by (rule scan_at(1) [where pre = pre and x = w and c = x and rest = y]) (use assms xy in auto)
qed

lemma no_parameter:
  assumes "line = pre @ w @ t @ 0 # rest" and "SPACE \<notin> set w" and "0 \<notin> set w" and "t = [] \<or> hd t = SPACE" and "set t \<subseteq> {SPACE}"
  shows "find_parameter line (Suc k) (length pre) = Some (None, 0)"
proof -
  note z = scan_at [where b = line and pre = "pre @ w" and x = t and c = 0 and rest = rest and i = "length pre + length w"
      and n = "length pre + length w + length t" and P = "\<lambda>c. c = 0 \<or> c \<noteq> SPACE"]
  have "scan (\<lambda>c. c = 0 \<or> c \<noteq> SPACE) line (length pre + length w) = Some (length pre + length w + length t)"
    "line ! (length pre + length w + length t) = 0" by (rule z; use assms in auto)+
  with end_of_word [OF assms(1-4)] show ?thesis by simp
qed

lemma next_parameter:
  assumes "line = pre @ w @ sp @ v @ u @ 0 # rest" and "SPACE \<notin> set w" and "0 \<notin> set w" and "sp @ v @ u = [] \<or> hd (sp @ v @ u) = SPACE"
    and "set sp \<subseteq> {SPACE}" and "v \<noteq> []" and "SPACE \<notin> set v" and "0 \<notin> set v" and "u = [] \<or> hd u = SPACE"
    and "q = length pre + length w + length sp"
  shows "find_parameter line (Suc k) (length pre) = (if k = 0 then Some (Some q, length v) else find_parameter line k q)"
    and "drop q line = v @ u @ 0 # rest"
proof -
  obtain c v' where v: "v = c # v'" using assms(6) by (cases v) auto
  note z = scan_at [where b = line and pre = "pre @ w" and x = sp and c = c and rest = "v' @ u @ 0 # rest" and i = "length pre + length w"
      and n = q and P = "\<lambda>c. c = 0 \<or> c \<noteq> SPACE"]
  have s2: "scan (\<lambda>c. c = 0 \<or> c \<noteq> SPACE) line (length pre + length w) = Some q" "line ! q = c"
    by (rule z; use assms v in auto)+
  have l: "line = (pre @ w @ sp) @ v @ u @ 0 # rest" "length (pre @ w @ sp) = q" using assms(1,10) by simp_all
  from end_of_word [OF l(1) assms(7-9)] have s3: "scan (\<lambda>c. c = 0 \<or> c = SPACE) line q = Some (q + length v)" using l(2) by simp
  have l1: "line = pre @ w @ (sp @ v @ u) @ 0 # rest" using assms(1) by simp
  from end_of_word [OF l1 assms(2-4)]
  have s1: "scan (\<lambda>c. c = 0 \<or> c = SPACE) line (length pre) = Some (length pre + length w)" .
  have "c \<noteq> 0" using assms(8) v by auto
  then show "find_parameter line (Suc k) (length pre) = (if k = 0 then Some (Some q, length v) else find_parameter line k q)"
    using s1 s2 s3 assms(6) by (cases k) simp_all
  show "drop q line = v @ u @ 0 # rest" using l by (metis append_eq_conv_conj)
qed

lemma find_parameter_correct:
  assumes "line = pre @ w @ t @ 0 # rest" and "SPACE \<notin> set w" and "0 \<notin> set w" and "0 \<notin> set t" and "t = [] \<or> hd t = SPACE"
  shows "\<exists>p. find_parameter line (Suc k) (length pre) =
      Some (if k < length (split_words t) then (Some p, length (split_words t ! k)) else (None, 0)) \<and>
    (k < length (split_words t) \<longrightarrow> take (length (split_words t ! k)) (drop p line) = split_words t ! k)"
  using assms
proof (induction k arbitrary: pre w t)
  case 0
  show ?case
  proof (cases t rule: line_cases)
    case blank
    with no_parameter [OF 0(1-3,5)] show ?thesis by (simp add: split_words_blank del: find_parameter.simps)
  next
    case (word sp v u)
    have l: "line = pre @ w @ sp @ v @ u @ 0 # rest" and t: "sp @ v @ u = [] \<or> hd (sp @ v @ u) = SPACE" and v: "0 \<notin> set v"
      using 0 word(1) by auto
    note np = next_parameter [OF l 0(2,3) t word(2-4) v word(5) refl]
    from np(1) [of 0] np(2) word show ?thesis
      by (intro exI [of _ "length pre + length w + length sp"]) (simp add: split_words_spaces split_words_word del: find_parameter.simps)
  qed
next
  case (Suc k)
  show ?case
  proof (cases t rule: line_cases)
    case blank
    with no_parameter [OF Suc.prems(1-3,5)] show ?thesis by (simp add: split_words_blank del: find_parameter.simps)
  next
    case (word sp v u)
    have l: "line = pre @ w @ sp @ v @ u @ 0 # rest" and t: "sp @ v @ u = [] \<or> hd (sp @ v @ u) = SPACE"
      and v: "0 \<notin> set v" and u: "0 \<notin> set u" and l2: "line = (pre @ w @ sp) @ v @ u @ 0 # rest"
      using Suc.prems word(1) by auto
    have "length (pre @ w @ sp) = length pre + length w + length sp" by simp
    from next_parameter(1) [OF l Suc.prems(2,3) t word(2-4) v word(5) refl, of "Suc k"] Suc.IH [OF l2 word(4) v u word(5)] this word
    show ?thesis
      by (cases "k < length (split_words u)") (simp_all add: split_words_spaces split_words_word add.assoc del: find_parameter.simps)
  qed
qed

text \<open>
  Parameter \<open>n\<close> of a line that does not begin with a space is its word number \<open>n\<close>, counted from the command, which is
  0: \<open>FreeRTOS_CLIGetParameter\<close> returns its position and length, and NULL and 0 when the line has fewer words, or
  for \<open>n = 0\<close>. So it agrees with the argument vector.
\<close>

theorem FreeRTOS_CLIGetParameter_correct:
  assumes "0 \<notin> set line" and "line = [] \<or> hd line \<noteq> SPACE"
  shows "\<exists>p. FreeRTOS_CLIGetParameter (line @ 0 # rest) n =
      Some (if 0 < n \<and> n < length (split_words line) then (Some p, length (split_words line ! n)) else (None, 0)) \<and>
    (0 < n \<and> n < length (split_words line) \<longrightarrow>
      take (length (split_words line ! n)) (drop p (line @ 0 # rest)) = split_words line ! n)"
proof (cases n)
  case (Suc k)
  show ?thesis
  proof (cases line rule: line_cases)
    case blank
    with assms(2) have "line = []" by (cases line) auto
    with no_parameter [of "line @ 0 # rest" "[]" "[]" "[]" rest k] Suc show ?thesis by (simp add: FreeRTOS_CLIGetParameter_def del: find_parameter.simps)
  next
    case (word sp w t)
    have "sp = []" using word(1,2) assms(2) by (cases sp) auto
    with word assms(1) have l: "line @ 0 # rest = [] @ w @ t @ 0 # rest" "0 \<notin> set w" "0 \<notin> set t" and
      sw: "split_words line = w # split_words t" by (auto simp: split_words_word)
    from find_parameter_correct [OF l(1) word(4) l(2,3) word(5), of k] show ?thesis
      by (cases "k < length (split_words t)") (simp_all add: Suc sw FreeRTOS_CLIGetParameter_def del: find_parameter.simps)
  qed
qed (simp add: FreeRTOS_CLIGetParameter_def)

theorem FreeRTOS_CLIGetParameter_correct_witness:
  "\<exists>p. FreeRTOS_CLIGetParameter (ascii ''conf  get'' @ 0 # [7]) 1 =
      Some (if 0 < (1 :: nat) \<and> 1 < length (split_words (ascii ''conf  get'')) then (Some p, length (split_words (ascii ''conf  get'') ! 1)) else (None, 0)) \<and>
    (0 < (1 :: nat) \<and> 1 < length (split_words (ascii ''conf  get'')) \<longrightarrow>
      take (length (split_words (ascii ''conf  get'') ! 1)) (drop p (ascii ''conf  get'' @ 0 # [7])) = split_words (ascii ''conf  get'') ! 1)"
  by (rule FreeRTOS_CLIGetParameter_correct) (simp_all add: ascii_def of_char_def)

end
