(* ===== verification/CliRuns.thy ===== *)
theory CliRuns
  imports Cli
begin

text \<open>
  Runs of the command line: a turn of \<open>Task_CLI\<close> reads a line and processes it. Every turn returns but for the
  lines named in the theorem, and what \<open>conf set\<close> stores is what \<open>conf get\<close> shows.
\<close>

lemma for_each_same: "\<forall>i \<in> set is. f i s = Some s \<Longrightarrow> for_each is f s = Some s"
  by (induction "is") simp_all

lemma init_empty: "KVStore_init (shipped_env (psa_its_impl first_fit reference_its 6)) (booted 6 Map.empty) =
    Some ((booted 6 Map.empty)\<lparr>xKvMutex := Free\<rparr>)"
proof -
  let ?kv = "(booted 6 Map.empty)\<lparr>xKvMutex := Held\<rparr> :: (nat \<rightharpoonup> bytes) kv"
  have "cache_init_entry first_fit (psa_its_impl first_fit reference_its 6) i ?kv = Some ?kv" if "i < 6" for i
    using that
    by (simp add: cache_init_entry_def booted_def get_entry_def zero_entry_def put_entry_def psa_its_impl_def its_value_length_def
        reference_its_def PSA_SUCCESS_def Let_def nth_list_update list_update_same_conv)
  then have "for_each [0..<6] (cache_init_entry first_fit (psa_its_impl first_fit reference_its 6)) ?kv = Some ?kv"
    by (intro for_each_same) auto
  then show ?thesis
    by (simp add: KVStore_init_def vprvCacheInit_def shipped_env_def booted_def)
qed

text \<open>What is between two turns: the names of the commands are in order, and \<open>pxCommand\<close> points to one of them.\<close>

definition shell_ok :: "'w cli \<Rightarrow> bool" where
  "shell_ok s \<longleftrightarrow> command_names_ok (xRegisteredCommands s) \<and>
     (\<forall>i. pxHelpCommand s = Some i \<longrightarrow> i < length (xRegisteredCommands s))"

lemma strncmp_total: "terminated a \<Longrightarrow> terminated b \<Longrightarrow> \<exists>r. strncmp_eq a b n = Some r"
proof (induction n arbitrary: a b)
  case (Suc n)
  then show ?case by (cases a; cases b) auto
qed (auto intro: exI [of _ True])

lemma help_search_total:
  assumes "\<forall>c \<in> set cs. terminated (pcCommand c)" and "terminated a"
  shows "\<exists>r. help_search cs a i = Some r \<and> (\<forall>j. r = Some j \<longrightarrow> j < i + length cs)"
  using assms(1)
proof (induction cs arbitrary: i)
  case (Cons c cs)
  then obtain q where "strncmp_eq (pcCommand c) a (length (c_str (pcCommand c))) = Some q"
    using strncmp_total assms(2) by (metis list.set_intros(1))
  with Cons Cons.IH [of "Suc i"] show ?case by (cases q) (auto simp: strlen_terminated)
qed simp

lemma print_all: "\<forall>c \<in> set cs. terminated (pcHelpString c) \<Longrightarrow>
  for_each cs (\<lambda>c. io_print (pcHelpString c)) s =
    Some (s\<lparr>cliStdout := cliStdout s @ concat (map (\<lambda>c. c_str (pcHelpString c)) cs)\<rparr>)"
  by (induction cs arbitrary: s) (simp_all add: io_print_def format_s_terminated)

lemma help_returns:
  assumes "shell_ok s" and "\<forall>a \<in> set argv. terminated a"
  shows "\<exists>p t. prvHelpCommand (map Some argv) s = Some (s\<lparr>pxHelpCommand := p, cliStdout := t\<rparr>) \<and>
    shell_ok (s\<lparr>pxHelpCommand := p\<rparr>)"
proof -
  let ?cs = "xRegisteredCommands s"
  have n: "\<forall>c \<in> set ?cs. terminated (pcCommand c)" "\<forall>c \<in> set ?cs. terminated (pcHelpString c)"
    using assms(1) by (simp_all add: shell_ok_def command_names_ok_def)
  let ?m = "if length (map Some argv) > 1
       then case map Some argv ! 1 of Some a \<Rightarrow> help_search ?cs a 0 | None \<Rightarrow> Some (pxHelpCommand s)
       else Some (pxHelpCommand s)"
  have "\<exists>r. ?m = Some r \<and> (\<forall>j. r = Some j \<longrightarrow> j < length ?cs)"
    using assms help_search_total [OF n(1), of "argv ! 1" 0] by (auto simp: shell_ok_def)
  then obtain p where p: "?m = Some p" "\<forall>j. p = Some j \<longrightarrow> j < length ?cs" by blast
  have ok: "shell_ok (s\<lparr>pxHelpCommand := p\<rparr>)" using assms(1) p(2) by (simp add: shell_ok_def)
  show ?thesis
  proof (cases p)
    case None
    then show ?thesis using p(1) ok print_all [OF n(2), of "s\<lparr>pxHelpCommand := p\<rparr>"]
      unfolding prvHelpCommand_def by (intro exI [of _ p]) auto
  next
    case (Some i)
    then have "terminated (pcHelpString (?cs ! i))" using p(2) n(2) by simp
    then show ?thesis using p(1) ok Some unfolding prvHelpCommand_def
      by (intro exI [of _ p]) (auto simp: io_print_def format_s_terminated)
  qed
qed

lemma split_words_length: "w \<in> set (split_words s) \<Longrightarrow> length w \<le> length s"
proof (induction s rule: length_induct)
  case (1 s)
  show ?case
  proof (cases s rule: line_cases)
    case blank
    with 1 show ?thesis by (simp add: split_words_blank)
  next
    case (word k v t)
    with 1 have "w = v \<or> w \<in> set (split_words t)" by (simp add: split_words_spaces split_words_word)
    moreover have "length t < length s" using word by simp
    ultimately show ?thesis using 1 word by fastforce
  qed
qed

subsection \<open>The start of the task\<close>

text \<open>
  Registering the commands takes list items from the heap the store lives in and does not disturb the store: the
  task starts in a state that the theorems about its turns speak of.
\<close>

lemma register_good:
  assumes "cli_platform its contents env w0" and "cli_good env w0 s" and "FreeRTOS_CLIRegisterCommand env c s = Some s'"
  shows "cli_good env w0 s'" and "xRegisteredCommands s' = xRegisteredCommands s @ [c]" and "pxHelpCommand s' = pxHelpCommand s"
proof -
  obtain p h where m: "pvPortMalloc (kvAlloc (cliKvEnv env)) (kvHeap (cliKv s)) 8 = (p, h)" by (cases "pvPortMalloc (kvAlloc (cliKvEnv env)) (kvHeap (cliKv s)) 8")
  with assms(3) have p: "p \<noteq> NULL"
    and s': "s' = s\<lparr>cliKv := (cliKv s)\<lparr>kvHeap := h\<rparr>, xRegisteredCommands := xRegisteredCommands s @ [c]\<rparr>"
    by (auto simp: FreeRTOS_CLIRegisterCommand_def split: if_splits)
  note rd = good_ready [OF assms(1,2)]
  obtain b where h: "kvHeap (cliKv s) p = None" "h = (kvHeap (cliKv s))(p \<mapsto> b)"
    using m p fresh_allocatorD [OF rd(2)] by (auto simp: pvPortMalloc_def split: option.splits)
  have "p \<notin> (\<Union>e \<in> set (kvStoreCache (cliKv s)). owned e)"
  proof
    assume "p \<in> (\<Union>e \<in> set (kvStoreCache (cliKv s)). owned e)"
    then obtain i where "i < length (kvStoreCache (cliKv s))" "p \<in> owned (kvStoreCache (cliKv s) ! i)"
      by (auto simp: in_set_conv_nth)
    then have "kvHeap (cliKv s) p \<noteq> None" using rd(1) by (intro entry_ok_owned) (auto simp: kv_ready_def kv_inv_def)
    with h(1) show False by simp
  qed
  then have "h a = kvHeap (cliKv s) a" if "a \<in> (\<Union>e \<in> set (kvStoreCache (cliKv s)). owned e)" for a
    using that h(2) by auto
  moreover have "kv_reachable (cliKvEnv env) w0 (cliKv s)" using assms(2) by (simp add: cli_good_def)
  ultimately have "kv_reachable (cliKvEnv env) w0 ((cliKv s)\<lparr>kvHeap := h\<rparr>)" by (intro kv_reachable.other_user)
  with assms(2) show "cli_good env w0 s'" by (simp add: s' cli_good_def cli_buffers_ok_def)
  show "xRegisteredCommands s' = xRegisteredCommands s @ [c]" "pxHelpCommand s' = pxHelpCommand s" by (simp_all add: s')
qed

lemma Task_CLI_init_good:
  assumes "cli_platform its contents env w0" and "cli_good env w0 s" and "xRegisteredCommands s = [xHelpCommand]" and "pxHelpCommand s = None"
    and "Task_CLI_init env s = Some s'"
  shows "cli_good env w0 s' \<and> shell_ok s' \<and> xRegisteredCommands s' = shipped_commands"
proof -
  from assms(5) obtain s1 s2 where r: "FreeRTOS_CLIRegisterCommand env xCommandDef_conf s = Some s1"
    "FreeRTOS_CLIRegisterCommand env xCommandDef_pki s1 = Some s2" "FreeRTOS_CLIRegisterCommand env xCommandDef_reset s2 = Some s'"
    by (auto simp: Task_CLI_init_def)
  note r1 = register_good [OF assms(1,2) r(1)]
  note r2 = register_good [OF assms(1) r1(1) r(2)]
  note r3 = register_good [OF assms(1) r2(1) r(3)]
  show ?thesis using r1 r2 r3 assms(3,4) shipped_commands_ok by (simp add: shell_ok_def)
qed

subsection \<open>A turn\<close>

text \<open>The state between reading the line and processing it.\<close>

lemma turn_reads:
  assumes "length (pcInputBuffer s) = CLI_INPUT_LINE_LEN_MAX" and "typed_line input [] = Some (line, rest)"
  shows "\<exists>tail out. Task_CLI_turn env input s =
      Option.bind (FreeRTOS_CLIProcessCommand env (s\<lparr>pcInputBuffer := c_str line @ 0 # tail, cliStdout := out\<rparr>)) (\<lambda>s. Some (s, rest)) \<and>
    length (c_str line @ 0 # tail) = CLI_INPUT_LINE_LEN_MAX \<and> length line \<le> 127"
proof -
  from io_readline_typed [OF assms(1), of input] assms(2) obtain buf out where
    r: "io_readline input s = Some (length line, s\<lparr>pcInputBuffer := buf, cliStdout := out\<rparr>, rest)" "0 < length line"
      "length line < CLI_INPUT_LINE_LEN_MAX" "length buf = CLI_INPUT_LINE_LEN_MAX" "take (length line + 1) buf = line @ [0]" by auto
  then have "buf = (line @ [0]) @ drop (length line + 1) buf" by (metis append_take_drop_id)
  moreover obtain x where "line @ [0] = c_str line @ 0 # x"
  proof (cases "terminated line")
    case True
    then obtain y where y: "line = c_str line @ 0 # y" using terminated_split by blast
    then have "line @ [0] = c_str line @ 0 # (y @ [0])" by (metis append.assoc append_Cons)
    then show ?thesis by (rule that)
  next
    case False
    then have "c_str line = line" by (auto simp: terminated_def c_str_def takeWhile_eq_all_conv)
    then show ?thesis using that [of "[]"] by simp
  qed
  ultimately have "buf = c_str line @ 0 # (x @ drop (length line + 1) buf)" by simp
  with r show ?thesis unfolding Task_CLI_turn_def CLI_INPUT_LINE_LEN_MAX_def
    by (intro exI [of _ "x @ drop (length line + 1) buf"] exI [of _ out]) simp
qed

lemma interpreter_returns:
  assumes "cli_platform its contents env w0" and "cli_good env w0 s" and "line_room env s" and "shell_ok s"
    and "\<forall>a \<in> set argv. terminated a \<and> length (c_str a) \<le> 127" and "f \<noteq> ip_vCommand_PKI"
    and "\<not> (f = ip_vCommand_Configure \<and> length argv = 2 \<and> c_str (argv ! 1) = ascii ''set'')"
  shows "\<exists>s'. run_interpreter env f (map Some argv) s = Some s' \<and> cli_good env w0 s' \<and> shell_ok s' \<and>
    xRegisteredCommands s' = xRegisteredCommands s"
proof (cases f)
  case ip_prvHelpCommand
  from help_returns [OF assms(4)] assms(5) obtain p t where
    "prvHelpCommand (map Some argv) s = Some (s\<lparr>pxHelpCommand := p, cliStdout := t\<rparr>)" "shell_ok (s\<lparr>pxHelpCommand := p\<rparr>)" by blast
  with ip_prvHelpCommand assms(2) show ?thesis
    by (simp add: run_interpreter_def cli_good_def cli_buffers_ok_def shell_ok_def)
next
  case ip_vCommand_Configure
  have "\<forall>a \<in> set (map Some argv). word_arg a" using assms(5) by (simp add: word_arg_def)
  moreover have "\<not> (length (map Some argv) = 2 \<and> map_option c_str (map Some argv ! 1) = Some (ascii ''set''))"
    using assms(7) ip_vCommand_Configure by auto
  ultimately have "returns_good env w0 s (vCommand_Configure env (map Some argv) s)" by (rule configure_good [OF assms(1-3)])
  with ip_vCommand_Configure assms(4) show ?thesis
    by (auto simp: run_interpreter_def returns_good_def same_shell_def shell_ok_def)
next
  case ip_vResetCommand
  have "format_s (c_literal ''Resetting device.'') = Some (c_str (c_literal ''Resetting device.''))" by (rule format_s_terminated) simp
  with ip_vResetCommand assms(2,4) show ?thesis
    by (simp add: run_interpreter_def vResetCommand_def io_print_def cli_good_def cli_buffers_ok_def shell_ok_def)
qed (use assms(6) in simp)

lemma processing_returns:
  assumes "cli_platform its contents env w0" and "cli_good env w0 s" and "line_room env s" and "shell_ok s"
    and "pcInputBuffer s = l @ 0 # tail" and "0 \<notin> set l" and "length l \<le> 127"
    and "\<And>c. find (\<lambda>c. line_begins l (c_str (pcCommand c))) (xRegisteredCommands s) = Some c \<Longrightarrow>
      pxCommandInterpreter c \<noteq> ip_vCommand_PKI \<and>
      \<not> (pxCommandInterpreter c = ip_vCommand_Configure \<and> length (split_words l) = 2 \<and> split_words l ! 1 = ascii ''set'')"
  shows "\<exists>s'. FreeRTOS_CLIProcessCommand env s = Some s' \<and> cli_good env w0 s' \<and> shell_ok s' \<and>
    xRegisteredCommands s' = xRegisteredCommands s"
proof (cases "find (\<lambda>c. line_begins l (c_str (pcCommand c))) (xRegisteredCommands s)")
  case None
  have names: "command_names_ok (xRegisteredCommands s)" using assms(4) by (simp add: shell_ok_def)
  from unknown_command [OF names assms(5,6) None, of env] obtain t where
    "FreeRTOS_CLIProcessCommand env s = Some (s\<lparr>cliStdout := cliStdout s @ t\<rparr>)" by blast
  with assms(2,4) show ?thesis by (simp add: cli_good_def cli_buffers_ok_def shell_ok_def)
next
  case (Some c)
  have names: "command_names_ok (xRegisteredCommands s)" using assms(4) by (simp add: shell_ok_def)
  from process_command [OF names assms(5,6) Some, of env] obtain argv b where
    p: "FreeRTOS_CLIProcessCommand env s = run_interpreter env (pxCommandInterpreter c) (map Some argv) (s\<lparr>pcInputBuffer := b\<rparr>)"
      "map c_str argv = split_words l" "\<forall>a \<in> set argv. terminated a" "length b = length (pcInputBuffer s)" by blast
  have len: "length argv = length (split_words l)" using p(2) by (metis length_map)
  have le: "\<forall>a \<in> set argv. terminated a \<and> length (c_str a) \<le> 127"
  proof
    fix a assume a: "a \<in> set argv"
    then have "c_str a \<in> set (split_words l)" unfolding p(2) [symmetric] by simp
    from split_words_length [OF this] assms(7) p(3) a show "terminated a \<and> length (c_str a) \<le> 127" by auto
  qed
  have "argv ! 1 = argv ! 1 \<and> (1 < length argv \<longrightarrow> c_str (argv ! 1) = split_words l ! 1)" unfolding p(2) [symmetric] by simp
  then have "\<not> (pxCommandInterpreter c = ip_vCommand_Configure \<and> length argv = 2 \<and> c_str (argv ! 1) = ascii ''set'')"
    using assms(8) [OF Some] len by auto
  moreover have "pxCommandInterpreter c \<noteq> ip_vCommand_PKI" using assms(8) [OF Some] by simp
  moreover have "cli_good env w0 (s\<lparr>pcInputBuffer := b\<rparr>)" "line_room env (s\<lparr>pcInputBuffer := b\<rparr>)" "shell_ok (s\<lparr>pcInputBuffer := b\<rparr>)"
    using assms(2-4) p(4) by (simp_all add: cli_good_def cli_buffers_ok_def line_room_def shell_ok_def)
  ultimately show ?thesis
    using interpreter_returns [OF assms(1) _ _ _ le, of "s\<lparr>pcInputBuffer := b\<rparr>" "pxCommandInterpreter c"] p(1) by simp
qed


text \<open>The line \<open>help\<close> at power-up of the shipped program.\<close>

definition shipped_cli_env :: "(nat \<rightharpoonup> bytes) cli_env" where
  "shipped_cli_env = \<lparr>cliKvEnv = shipped_env (psa_its_impl first_fit reference_its 6), vCommand_PKI = (\<lambda>argv s. None)\<rparr>"

definition shipped_cli :: "(nat \<rightharpoonup> bytes) cli" where
  "shipped_cli = blank_cli ((booted 6 Map.empty)\<lparr>xKvMutex := Free\<rparr>) shipped_commands"

lemma shipped_table: "cli_table_ok (shipped_env impl)"
proof -
  have "length (c_str (c_literal n)) \<le> 100" if "length n \<le> 99" for n
    using c_str_le [of "c_literal n"] that by simp
  then show ?thesis
    by (auto simp: cli_table_ok_def shipped_env_def KV_STORE_DEFAULTS_def KV_STORE_STRINGS_def KV_DFLT_STRING_def KV_DFLT_UINT32_def)
qed

lemma shipped_num_keys: "CS_NUM_KEYS (shipped_env impl) = 6"
  by (simp add: shipped_env_def shipped_defaults(1))

lemma shipped_cli_ok:
  "cli_platform reference_its (\<lambda>w. w) shipped_cli_env Map.empty"
  "cli_good shipped_cli_env Map.empty shipped_cli"
  "line_room shipped_cli_env shipped_cli"
  "shell_ok shipped_cli"
proof -
  show "cli_platform reference_its (\<lambda>w. w) shipped_cli_env Map.empty"
    using shipped_psa_env shipped_table by (simp add: cli_platform_def shipped_cli_env_def its_wf_def)
  have "kv_reachable (shipped_env (psa_its_impl first_fit reference_its 6)) Map.empty ((booted 6 Map.empty)\<lparr>xKvMutex := Free\<rparr>)"
    by (rule power_up) (simp add: init_empty shipped_num_keys)
  then show "cli_good shipped_cli_env Map.empty shipped_cli"
    using blank_cli_ok [of "(booted 6 Map.empty)\<lparr>xKvMutex := Free\<rparr>" shipped_commands]
    by (simp add: cli_good_def shipped_cli_env_def shipped_cli_def) (simp add: blank_cli_def)
  show "line_room shipped_cli_env shipped_cli"
    using booted_room by (auto simp: line_room_def shipped_cli_env_def shipped_cli_def shipped_env_def blank_cli_def booted_def)
  show "shell_ok shipped_cli"
    using shipped_commands_ok by (simp add: shell_ok_def shipped_cli_def blank_cli_def)
qed


text \<open>The words of a line of the shipped program.\<close>

theorem FreeRTOS_CLIProcessCommand_words_witness:
  "\<exists>argv buf. FreeRTOS_CLIProcessCommand shipped_cli_env (shipped_cli\<lparr>pcInputBuffer := ascii ''conf  get x'' @ 0 # [1, 2]\<rparr>) =
      run_interpreter shipped_cli_env ip_vCommand_Configure (map Some argv)
        (shipped_cli\<lparr>pcInputBuffer := ascii ''conf  get x'' @ 0 # [1, 2], pcInputBuffer := buf\<rparr>) \<and>
    map c_str argv = split_words (ascii ''conf  get x'')"
proof -
  let ?s = "shipped_cli\<lparr>pcInputBuffer := ascii ''conf  get x'' @ 0 # [1, 2]\<rparr>"
  have r: "xRegisteredCommands ?s = shipped_commands" by (simp add: shipped_cli_def blank_cli_def)
  have "command_names_ok (xRegisteredCommands ?s)" unfolding r by (rule shipped_commands_ok)
  moreover have "pcInputBuffer ?s = ascii ''conf  get x'' @ 0 # [1, 2]" by simp
  moreover have "0 \<notin> set (ascii ''conf  get x'')" by (simp add: ascii_def of_char_def)
  moreover have "find (\<lambda>c. line_begins (ascii ''conf  get x'') (c_str (pcCommand c))) (xRegisteredCommands ?s) = Some xCommandDef_conf"
  proof -
    have "ascii ''conf  get x'' = ascii ''conf'' @ SPACE # ascii '' get x''" by (simp add: ascii_def of_char_def)
    then show ?thesis unfolding r using shipped_conf by simp
  qed
  ultimately have "\<exists>argv buf. FreeRTOS_CLIProcessCommand shipped_cli_env ?s =
      run_interpreter shipped_cli_env (pxCommandInterpreter xCommandDef_conf) (map Some argv) (?s\<lparr>pcInputBuffer := buf\<rparr>) \<and>
    map c_str argv = split_words (ascii ''conf  get x'') \<and> (\<forall>a \<in> set argv. terminated a) \<and> length buf = length (pcInputBuffer ?s)"
    by (rule FreeRTOS_CLIProcessCommand_words)
  then show ?thesis by (auto simp: xCommandDef_conf_def)
qed

text \<open>The exception: the key of \<open>conf set\<close> is read behind the end of the argument vector.\<close>

lemma conf_set_without_key:
  assumes "length argv = 2" and "argv ! 1 = Some m" and "terminated m" and "c_str m = ascii ''set''"
  shows "vCommand_Configure env argv s = None"
proof -
  have lit: "c_str (c_literal ''get'') = ascii ''get''" "c_str (c_literal ''set'') = ascii ''set''" "c_str (c_literal ''commit'') = ascii ''commit''"
    by (simp_all add: c_str_c_literal of_char_def)
  have "strcmp_eq (c_literal ''get'') m = Some False" "strcmp_eq (c_literal ''set'') m = Some True" "strcmp_eq (c_literal ''commit'') m = Some False"
    using strcmp_eq_terminated [OF terminated_c_literal assms(3)] lit assms(4) by (simp_all add: ascii_def of_char_def)
  then show ?thesis using assms(1,2)
    by (simp add: vCommand_Configure_def MODE_ARG_IDX_def arg_def vSubCommand_SetConfig_def)
qed

text \<open>After \<open>help conf\<close> the static variable still points to \<open>conf\<close>: plain \<open>help\<close> shows that command only.\<close>

lemma help_is_sticky:
  assumes "pxHelpCommand s = Some i" and "i < length (xRegisteredCommands s)" and "terminated (pcHelpString (xRegisteredCommands s ! i))"
  shows "prvHelpCommand [Some a] s = Some (s\<lparr>cliStdout := cliStdout s @ c_str (pcHelpString (xRegisteredCommands s ! i))\<rparr>)"
  using assms by (simp add: prvHelpCommand_def io_print_def format_s_terminated)

text \<open>A value that is no number is taken as 0.\<close>

lemma not_a_number_is_zero:
  assumes "terminated v" and "parse_number (c_str v) = (False, 0, 0)" and "setter 0 (cliKv s) = Some (ok, kv)" and "terminated key"
    and "cli_good env w0 s" and "kv_reachable (cliKvEnv env) w0 kv" and "length (c_str key) \<le> 127"
  shows "\<exists>n s'. set_number strtoul setter format_lu key (Some v) s = Some (True, n, s') \<and> cliKv s' = kv"
proof -
  have p: "strtoul v = Some (0, 0)" using assms(1,2) by (simp add: strtoul_def)
  have l: "length (number_line (c_str key) (format_lu 0)) < 512" using assms(7) format_lu_length [of 0] by simp
  from printed(1) [OF assms(5,6) l] show ?thesis
    using p assms(3,4) unfolding set_number_def number_line_def by (simp add: format_s_terminated)
qed

subsection \<open>Setting and getting at the prompt\<close>

text \<open>A word that can be typed: it is not empty and has no space, zero or editing character.\<close>

definition typed_char :: "u8 \<Rightarrow> bool" where
  "typed_char c \<longleftrightarrow> c \<noteq> 0 \<and> c \<noteq> CNTLC \<and> c \<noteq> LF \<and> c \<noteq> CR \<and> c \<noteq> BACKSPACE \<and> c \<noteq> DEL"

definition plain_word :: "bytes \<Rightarrow> bool" where
  "plain_word w \<longleftrightarrow> w \<noteq> [] \<and> (\<forall>c \<in> set w. c \<noteq> SPACE \<and> typed_char c)"

fun join_words :: "bytes list \<Rightarrow> bytes" where
  "join_words [] = []"
| "join_words [w] = w"
| "join_words (w # v # ws) = w @ SPACE # join_words (v # ws)"

lemma split_join: "\<forall>w \<in> set ws. plain_word w \<Longrightarrow> split_words (join_words ws) = ws"
proof (induction ws rule: join_words.induct)
  case (2 w)
  then show ?case using split_words_word [of w "[]"] by (auto simp: plain_word_def)
next
  case (3 w v ws)
  then show ?case using split_words_word [of w "SPACE # join_words (v # ws)"] by (auto simp: plain_word_def)
qed simp

lemma typed_space: "typed_char SPACE"
  by (simp add: typed_char_def CNTLC_def LF_def CR_def BACKSPACE_def DEL_def)

lemma join_plain: "\<forall>w \<in> set ws. plain_word w \<Longrightarrow> \<forall>c \<in> set (join_words ws). typed_char c"
  by (induction ws rule: join_words.induct) (auto simp: plain_word_def typed_space)

lemma plain_modes: "plain_word (ascii ''conf'')" "plain_word (ascii ''set'')" "plain_word (ascii ''get'')"
  by (simp_all add: plain_word_def typed_char_def ascii_def of_char_def CNTLC_def LF_def CR_def BACKSPACE_def DEL_def)

lemma conf_turn:
  assumes "cli_buffers_ok s" and "xRegisteredCommands s = shipped_commands" and "\<forall>w \<in> set ws. plain_word w" and "ws \<noteq> []"
    and "length (join_words (ascii ''conf'' # ws)) < 127"
  shows "\<exists>argv b out. Task_CLI_turn env (join_words (ascii ''conf'' # ws) @ CR # rest) s =
      Option.bind (vCommand_Configure env (map Some argv) (s\<lparr>pcInputBuffer := b, cliStdout := out\<rparr>)) (\<lambda>s. Some (s, rest)) \<and>
    map c_str argv = ascii ''conf'' # ws \<and> (\<forall>a \<in> set argv. terminated a) \<and> length b = CLI_INPUT_LINE_LEN_MAX"
proof -
  let ?l = "join_words (ascii ''conf'' # ws)"
  from plain_modes(1) assms(3) have pl: "\<forall>w \<in> set (ascii ''conf'' # ws). plain_word w" by simp
  obtain v vs where ws: "ws = v # vs" using assms(4) by (cases ws) auto
  have l0: "0 \<notin> set ?l" using join_plain [OF pl] unfolding typed_char_def by blast
  have "terminated ?l = False" using l0 by (simp add: terminated_def)
  then have cl: "c_str ?l = ?l" using l0 by (auto simp: c_str_def takeWhile_eq_all_conv)
  have "?l \<noteq> []" using ws by simp
  then have ty: "typed_line (?l @ CR # rest) [] = Some (?l, rest)"
    by (rule typed_plain) (use assms(5) join_plain [OF pl, unfolded typed_char_def] in blast)+
  from assms(1) have "length (pcInputBuffer s) = CLI_INPUT_LINE_LEN_MAX" by (simp add: cli_buffers_ok_def)
  from turn_reads [OF this ty, of env] cl obtain tail out where
    turn: "Task_CLI_turn env (?l @ CR # rest) s = Option.bind (FreeRTOS_CLIProcessCommand env
        (s\<lparr>pcInputBuffer := ?l @ 0 # tail, cliStdout := out\<rparr>)) (\<lambda>s. Some (s, rest))"
    and buf: "length (?l @ 0 # tail) = CLI_INPUT_LINE_LEN_MAX" by auto
  let ?s1 = "s\<lparr>pcInputBuffer := ?l @ 0 # tail, cliStdout := out\<rparr>"
  have commute: "s\<lparr>cliStdout := out, pcInputBuffer := x\<rparr> = s\<lparr>pcInputBuffer := x, cliStdout := out\<rparr>" for x by (cases s) simp
  have n: "command_names_ok (xRegisteredCommands ?s1)" using assms(2) shipped_commands_ok by simp
  have i: "pcInputBuffer ?s1 = ?l @ 0 # tail" by simp
  have "?l = ascii ''conf'' @ SPACE # join_words (v # vs)" using ws by simp
  then have f: "find (\<lambda>c. line_begins ?l (c_str (pcCommand c))) (xRegisteredCommands ?s1) = Some xCommandDef_conf"
    using shipped_conf [of "join_words (v # vs)"] assms(2) by simp
  from process_command [OF n i l0 f, of env] obtain argv b where
    "FreeRTOS_CLIProcessCommand env ?s1 = run_interpreter env ip_vCommand_Configure (map Some argv) (?s1\<lparr>pcInputBuffer := b\<rparr>)"
    "map c_str argv = split_words ?l" "\<forall>a \<in> set argv. terminated a" "length b = length (pcInputBuffer ?s1)"
    by (auto simp: xCommandDef_conf_def)
  then have "FreeRTOS_CLIProcessCommand env ?s1 = vCommand_Configure env (map Some argv) (s\<lparr>pcInputBuffer := b, cliStdout := out\<rparr>)"
    "map c_str argv = ascii ''conf'' # ws" "\<forall>a \<in> set argv. terminated a" "length b = CLI_INPUT_LINE_LEN_MAX"
    using split_join [OF pl] buf by (simp_all add: run_interpreter_def commute)
  with turn show ?thesis by (intro exI [of _ argv] exI [of _ b] exI [of _ out]) simp
qed

lemma name_key:
  assumes "\<forall>n \<in> set (kvStoreKeyMap kenv). terminated n" and "distinct (map c_str (kvStoreKeyMap kenv))"
    and "kvKeyToString kenv k = Some name" and "length (kvStoreKeyMap kenv) = CS_NUM_KEYS kenv" and "terminated p" and "c_str p = c_str name"
  shows "kvStringToKey kenv p = Some k"
  using find_key_present [OF assms(1,2) _ assms(5), of k 0] assms(3,4,6)
  by (auto simp: kvStringToKey_def kvKeyToString_def split: if_splits)

text \<open>The command \<open>conf\<close> on its words.\<close>

lemma modes: "strcmp_eq (c_literal m) p = Some (ascii m = c_str p)"
  if "terminated p" "\<forall>c \<in> set m. of_char c \<noteq> (0 :: u8)" for p m
  using strcmp_eq_terminated [OF terminated_c_literal that(1), of m] c_str_c_literal [OF that(2)] by simp

lemma configure_set:
  assumes "terminated m" and "c_str m = ascii ''set''" and "vSubCommand_SetConfig env [a, Some m, k, v] s = Some s'"
  shows "vCommand_Configure env [a, Some m, k, v] s = Some s'"
  using assms modes [OF assms(1), of "''get''"] modes [OF assms(1), of "''set''"] modes [OF assms(1), of "''commit''"]
  by (simp add: vCommand_Configure_def MODE_ARG_IDX_def arg_def of_char_def ascii_def)

lemma configure_get:
  assumes "terminated m" and "c_str m = ascii ''get''" and "vSubCommand_GetConfig env k s = Some s'"
  shows "vCommand_Configure env [a, Some m, k] s = Some s'"
  using assms modes [OF assms(1), of "''get''"] modes [OF assms(1), of "''set''"] modes [OF assms(1), of "''commit''"]
  by (simp add: vCommand_Configure_def MODE_ARG_IDX_def KEY_ARG_IDX_def arg_def of_char_def ascii_def)

lemma four: "length xs = 4 \<Longrightarrow> \<exists>a b c d. xs = [a, b, c, d]"
  by (auto simp: eval_nat_numeral length_Suc_conv)

lemma three: "length xs = 3 \<Longrightarrow> \<exists>a b c. xs = [a, b, c]"
  by (auto simp: eval_nat_numeral length_Suc_conv)

lemma set_turn:
  assumes "cli_ready env s" and "xRegisteredCommands s = shipped_commands"
    and "cli_table_ok (cliKvEnv env)" and "distinct (map c_str (kvStoreKeyMap (cliKvEnv env)))"
    and "kvKeyToString (cliKvEnv env) k = Some name" and "key_has_type (cliKvEnv env) k KV_TYPE_STRING"
    and "plain_word (c_str name)" and "plain_word val"
    and "length (join_words [ascii ''conf'', ascii ''set'', c_str name, val]) < 127"
    and "room (kvAlloc (cliKvEnv env)) (kvHeap (cliKv s)) (length val + 1)"
  shows "\<exists>s1 t1. Task_CLI_turn env (join_words [ascii ''conf'', ascii ''set'', c_str name, val] @ CR # rest) s = Some (s1, rest) \<and>
    cliStdout s1 = t1 @ text_line (c_str name) val \<and> cli_ready env s1 \<and> xRegisteredCommands s1 = shipped_commands \<and>
    cached (cliKv s1) = (cached (cliKv s))(k \<mapsto> (KV_TYPE_STRING, val @ [0]))"
proof -
  let ?e = "cliKvEnv env" and ?n = "c_str name"
  have names: "\<forall>n \<in> set (kvStoreKeyMap ?e). terminated n" "length (kvStoreKeyMap ?e) = CS_NUM_KEYS ?e"
    using assms(3) by (simp_all add: cli_table_ok_def)
  have bok: "cli_buffers_ok s" using assms(1) by (simp add: cli_ready_def)
  have short: "length ?n + length val < 117" using assms(9) by simp
  have ws: "\<forall>w \<in> set [ascii ''set'', ?n, val]. plain_word w" "[ascii ''set'', ?n, val] \<noteq> []" using plain_modes assms(7,8) by simp_all
  from conf_turn [OF bok assms(2) ws assms(9), of env rest] obtain argv b out where
    turn: "Task_CLI_turn env (join_words [ascii ''conf'', ascii ''set'', ?n, val] @ CR # rest) s =
      Option.bind (vCommand_Configure env (map Some argv) (s\<lparr>pcInputBuffer := b, cliStdout := out\<rparr>)) (\<lambda>s. Some (s, rest))"
    and av: "map c_str argv = [ascii ''conf'', ascii ''set'', ?n, val]" "\<forall>a \<in> set argv. terminated a" "length b = CLI_INPUT_LINE_LEN_MAX"
    by (elim exE conjE) (rule that; assumption)
  have "length argv = 4" using arg_cong [OF av(1), of length] by simp
  then obtain a0 a1 a2 a3 where argv: "argv = [a0, a1, a2, a3]" using four by blast
  let ?s0 = "s\<lparr>pcInputBuffer := b, cliStdout := out\<rparr>"
  have r0: "cli_ready env ?s0" using assms(1) av(3) by (simp add: cli_ready_def cli_buffers_ok_def)
  have k2: "kvStringToKey ?e a2 = Some k"
    by (rule name_key [OF names(1) assms(4,5) names(2)]) (use av argv in simp_all)
  have fit: "length (c_str a2) + length (c_str a3) + 5 < CLI_OUTPUT_SCRATCH_BUF_LEN"
    using av(1) argv short by (simp add: CLI_OUTPUT_SCRATCH_BUF_LEN_def)
  have rm: "room (kvAlloc ?e) (kvHeap (cliKv ?s0)) (length (c_str a3) + 1)" using av(1) argv assms(10) by simp
  have tm: "terminated a1" "terminated a2" "terminated a3" using av(2) argv by simp_all
  from set_string_prints [OF r0 assms(6) k2 tm(2,3) _ fit rm, of "[Some a0, Some a1]"] obtain kv sb ob where
    st: "vSubCommand_SetConfig env [Some a0, Some a1, Some a2, Some a3] ?s0 =
      Some (?s0\<lparr>cliKv := kv, pcCliScratchBuffer := sb, pcOutputBuffer := ob, cliStdout := out @ text_line (c_str a2) (c_str a3)\<rparr>)"
    "cli_ready env (?s0\<lparr>cliKv := kv, pcCliScratchBuffer := sb, pcOutputBuffer := ob\<rparr>)"
    "cached kv = (cached (cliKv s))(k \<mapsto> (KV_TYPE_STRING, c_str a3 @ [0]))" by auto
  let ?s1 = "?s0\<lparr>cliKv := kv, pcCliScratchBuffer := sb, pcOutputBuffer := ob, cliStdout := out @ text_line (c_str a2) (c_str a3)\<rparr>"
  have "c_str a1 = ascii ''set''" using av(1) argv by simp
  from configure_set [OF tm(1) this st(1)] turn have
    "Task_CLI_turn env (join_words [ascii ''conf'', ascii ''set'', ?n, val] @ CR # rest) s = Some (?s1, rest)" by (simp add: argv)
  moreover have "cli_ready env ?s1" using st(2) by (simp add: cli_ready_def cli_buffers_ok_def)
  moreover have "c_str a2 = ?n" "c_str a3 = val" using av(1) argv by simp_all
  ultimately show ?thesis using st(3) assms(2) by (intro exI [of _ ?s1] exI [of _ out]) simp
qed

lemma get_turn:
  assumes "cli_ready env s" and "xRegisteredCommands s = shipped_commands"
    and "cli_table_ok (cliKvEnv env)" and "distinct (map c_str (kvStoreKeyMap (cliKvEnv env)))"
    and "kvKeyToString (cliKvEnv env) k = Some name" and "key_has_type (cliKvEnv env) k KV_TYPE_STRING"
    and "plain_word (c_str name)" and "length (c_str name) + length val < 117"
    and "cached (cliKv s) k = Some (KV_TYPE_STRING, val @ [0])" and "0 \<notin> set val"
  shows "\<exists>s2 t2. Task_CLI_turn env (join_words [ascii ''conf'', ascii ''get'', c_str name] @ CR # rest) s = Some (s2, rest) \<and>
    cliStdout s2 = t2 @ text_line (c_str name) val \<and> cliKv s2 = cliKv s"
proof -
  let ?e = "cliKvEnv env" and ?n = "c_str name"
  have names: "\<forall>n \<in> set (kvStoreKeyMap ?e). terminated n" "length (kvStoreKeyMap ?e) = CS_NUM_KEYS ?e"
    using assms(3) by (simp_all add: cli_table_ok_def)
  have bok: "cli_buffers_ok s" using assms(1) by (simp add: cli_ready_def)
  have l: "length (join_words [ascii ''conf'', ascii ''get'', ?n]) < 127" using assms(8) by simp
  have ws: "\<forall>w \<in> set [ascii ''get'', ?n]. plain_word w" "[ascii ''get'', ?n] \<noteq> []" using plain_modes assms(7) by simp_all
  from conf_turn [OF bok assms(2) ws l, of env rest] obtain argv b out where
    turn: "Task_CLI_turn env (join_words [ascii ''conf'', ascii ''get'', ?n] @ CR # rest) s =
      Option.bind (vCommand_Configure env (map Some argv) (s\<lparr>pcInputBuffer := b, cliStdout := out\<rparr>)) (\<lambda>s. Some (s, rest))"
    and av: "map c_str argv = [ascii ''conf'', ascii ''get'', ?n]" "\<forall>a \<in> set argv. terminated a" "length b = CLI_INPUT_LINE_LEN_MAX"
    by (elim exE conjE) (rule that; assumption)
  have "length argv = 3" using arg_cong [OF av(1), of length] by simp
  then obtain a0 a1 a2 where argv: "argv = [a0, a1, a2]" using three by blast
  let ?s0 = "s\<lparr>pcInputBuffer := b, cliStdout := out\<rparr>"
  have r0: "cli_ready env ?s0" using assms(1) av(3) by (simp add: cli_ready_def cli_buffers_ok_def)
  have k2: "kvStringToKey ?e a2 = Some k"
    by (rule name_key [OF names(1) assms(4,5) names(2)]) (use av argv in simp_all)
  have ca: "cached (cliKv ?s0) k = Some (KV_TYPE_STRING, val @ [0])" using assms(9) by simp
  have tm: "terminated a1" "terminated a2" using av(2) argv by simp_all
  have fit: "length (c_str a2) + length val + 5 < CLI_OUTPUT_SCRATCH_BUF_LEN"
    using av(1) argv assms(8) by (simp add: CLI_OUTPUT_SCRATCH_BUF_LEN_def)
  from get_string_prints [OF r0 assms(6) k2 ca assms(10) tm(2) fit] obtain sb where
    gt: "vSubCommand_GetConfig env (Some a2) ?s0 = Some (?s0\<lparr>pcCliScratchBuffer := sb, cliStdout := out @ text_line (c_str a2) val\<rparr>)" by auto
  have "c_str a1 = ascii ''get''" using av(1) argv by simp
  from configure_get [OF tm(1) this gt] turn have
    "Task_CLI_turn env (join_words [ascii ''conf'', ascii ''get'', ?n] @ CR # rest) s =
      Some (?s0\<lparr>pcCliScratchBuffer := sb, cliStdout := out @ text_line (c_str a2) val\<rparr>, rest)" by (simp add: argv)
  moreover have "c_str a2 = ?n" using av(1) argv by simp
  ultimately show ?thesis
    by (intro exI [of _ "?s0\<lparr>pcCliScratchBuffer := sb, cliStdout := out @ text_line (c_str a2) val\<rparr>"] exI [of _ out]) simp
qed

text \<open>
  C28: a string that is set at the prompt is what the prompt shows afterwards: \<open>conf set\<close> with a key of type string
  and a value prints the pair, \<open>conf get\<close> with the key prints the same pair, and no other key has changed.
\<close>

theorem conf_set_get_roundtrip:
  assumes "cli_ready env s" and "xRegisteredCommands s = shipped_commands"
    and "cli_table_ok (cliKvEnv env)" and "distinct (map c_str (kvStoreKeyMap (cliKvEnv env)))"
    and "kvKeyToString (cliKvEnv env) k = Some name" and "key_has_type (cliKvEnv env) k KV_TYPE_STRING"
    and "plain_word (c_str name)" and "plain_word val"
    and "length (join_words [ascii ''conf'', ascii ''set'', c_str name, val]) < 127"
    and "room (kvAlloc (cliKvEnv env)) (kvHeap (cliKv s)) (length val + 1)"
  shows "\<exists>s1 s2 t1 t2.
    Task_CLI_turn env (join_words [ascii ''conf'', ascii ''set'', c_str name, val] @ CR #
      join_words [ascii ''conf'', ascii ''get'', c_str name] @ CR # rest) s =
      Some (s1, join_words [ascii ''conf'', ascii ''get'', c_str name] @ CR # rest) \<and>
    cliStdout s1 = t1 @ text_line (c_str name) val \<and>
    Task_CLI_turn env (join_words [ascii ''conf'', ascii ''get'', c_str name] @ CR # rest) s1 = Some (s2, rest) \<and>
    cliStdout s2 = t2 @ text_line (c_str name) val \<and>
    (\<forall>j. j \<noteq> k \<longrightarrow> kv_lookup (cliKvEnv env) (cliKv s2) j = kv_lookup (cliKvEnv env) (cliKv s) j)"
proof -
  let ?get = "join_words [ascii ''conf'', ascii ''get'', c_str name] @ CR # rest"
  from set_turn [OF assms, of ?get] obtain s1 t1 where
    s1: "Task_CLI_turn env (join_words [ascii ''conf'', ascii ''set'', c_str name, val] @ CR # ?get) s = Some (s1, ?get)"
      "cliStdout s1 = t1 @ text_line (c_str name) val" "cli_ready env s1" "xRegisteredCommands s1 = shipped_commands"
      "cached (cliKv s1) = (cached (cliKv s))(k \<mapsto> (KV_TYPE_STRING, val @ [0]))" by blast
  have "length (c_str name) + length val < 117" "cached (cliKv s1) k = Some (KV_TYPE_STRING, val @ [0])" "0 \<notin> set val"
    using assms(8,9) s1(5) by (auto simp: plain_word_def typed_char_def)
  from get_turn [OF s1(3,4) assms(3-7) this, of rest] s1(1,2) lookup_updated [OF s1(5)] show ?thesis by metis
qed

theorem conf_set_get_roundtrip_witness:
  "\<exists>s1 s2 t1 t2.
    Task_CLI_turn shipped_cli_env (join_words [ascii ''conf'', ascii ''set'', ascii ''wifi_ssid'', ascii ''home''] @ CR #
      join_words [ascii ''conf'', ascii ''get'', ascii ''wifi_ssid''] @ CR # []) shipped_cli =
      Some (s1, join_words [ascii ''conf'', ascii ''get'', ascii ''wifi_ssid''] @ CR # []) \<and>
    cliStdout s1 = t1 @ text_line (ascii ''wifi_ssid'') (ascii ''home'') \<and>
    Task_CLI_turn shipped_cli_env (join_words [ascii ''conf'', ascii ''get'', ascii ''wifi_ssid''] @ CR # []) s1 = Some (s2, []) \<and>
    cliStdout s2 = t2 @ text_line (ascii ''wifi_ssid'') (ascii ''home'')"
proof -
  let ?e = "cliKvEnv shipped_cli_env"
  have e: "?e = shipped_env (psa_its_impl first_fit reference_its 6)" by (simp add: shipped_cli_env_def)
  have n: "c_str (c_literal ''wifi_ssid'') = ascii ''wifi_ssid''" by (simp add: c_str_c_literal of_char_def)
  have names: "map c_str KV_STORE_STRINGS = map ascii [''thing_name'', ''mqtt_endpoint'', ''mqtt_port'',
      ''wifi_ssid'', ''wifi_credential'', ''time_hwm'']"
    by (simp add: KV_STORE_STRINGS_def c_str_c_literal of_char_def)
  have d: "distinct (map c_str (kvStoreKeyMap ?e))"
    using names by (simp add: e shipped_env_def ascii_def of_char_def)
  have r: "cli_ready shipped_cli_env shipped_cli"
    using shipped_ready [of "psa_its_impl first_fit reference_its 6" Map.empty] blank_cli_ok
    by (simp add: cli_ready_def e shipped_cli_def) (simp add: blank_cli_def shipped_env_def first_fit_fresh)
  have regs: "xRegisteredCommands shipped_cli = shipped_commands" by (simp add: shipped_cli_def blank_cli_def)
  have tab: "cli_table_ok ?e" using shipped_table by (simp add: e)
  have key: "kvKeyToString ?e CS_WIFI_SSID = Some (c_literal ''wifi_ssid'')" "key_has_type ?e CS_WIFI_SSID KV_TYPE_STRING"
    by (simp_all add: e kvKeyToString_def shipped_num_keys CS_WIFI_SSID_def key_has_type_def)
      (simp_all add: shipped_env_def KV_STORE_STRINGS_def KV_STORE_DEFAULTS_def KV_DFLT_STRING_def)
  have pl: "plain_word (ascii ''wifi_ssid'')" "plain_word (ascii ''home'')"
    by (simp_all add: plain_word_def typed_char_def ascii_def of_char_def CNTLC_def LF_def CR_def BACKSPACE_def DEL_def)
  have rm: "room (kvAlloc ?e) (kvHeap (cliKv shipped_cli)) (length (ascii ''home'') + 1)"
    using booted_room [of "length (ascii ''home'') + 1" 6 Map.empty]
    by (simp add: e shipped_env_def shipped_cli_def blank_cli_def booted_def)
  have l: "length (join_words [ascii ''conf'', ascii ''set'', ascii ''wifi_ssid'', ascii ''home'']) < 127" by simp
  from conf_set_get_roundtrip [OF r regs tab d key pl [folded n] l [folded n] rm, of "[]", unfolded n] show ?thesis by blast
qed

end
