(* ===== verification/OtaPal.thy ===== *)
theory OtaPal
  imports KvNv CStrings
begin

text \<open>
  The over-the-air update port, ota_pal_psa/ota_pal.c, over the PSA Firmware Update and Crypto
  services (psa/update.h, tfm_fwu_defs.h, fwu_config.h). The services are the record
  \<open>ota_env\<close>; the state is the module's variables and the file contexts its caller owns, which
  are identified by their address.
\<close>

subsection \<open>Image identifiers and states\<close>

definition TFM_FWU_INVALID_IMAGE_ID :: u32 where "TFM_FWU_INVALID_IMAGE_ID = 0"
definition FWU_IMAGE_ID_SLOT_ACTIVE :: u8 where "FWU_IMAGE_ID_SLOT_ACTIVE = 1"
definition FWU_IMAGE_ID_SLOT_STAGE :: u8 where "FWU_IMAGE_ID_SLOT_STAGE = 2"
definition FWU_IMAGE_TYPE_NONSECURE :: u32 where "FWU_IMAGE_TYPE_NONSECURE = 1"
definition FWU_IMAGE_TYPE_SECURE :: u32 where "FWU_IMAGE_TYPE_SECURE = 2"
definition FWU_IMAGE_TYPE_FULL :: u32 where "FWU_IMAGE_TYPE_FULL = 3"
definition PSA_FWU_MAX_BLOCK_SIZE :: nat where "PSA_FWU_MAX_BLOCK_SIZE = 1024"
definition PSA_SUCCESS_REBOOT :: int where "PSA_SUCCESS_REBOOT = 1"
definition ECDSA_SHA256_RAW_SIGNATURE_LENGTH :: nat where "ECDSA_SHA256_RAW_SIGNATURE_LENGTH = 64"
definition OTA_SIGNING_KEY_ID :: u32 where "OTA_SIGNING_KEY_ID = 0x11"

text \<open>\<open>PSA_ALG_ECDSA (PSA_ALG_SHA_256)\<close>.\<close>

definition PSA_ALG_ECDSA_SHA_256 :: u32 where
  "PSA_ALG_ECDSA_SHA_256 = 0x06000600 OR (0x02000009 AND 0xff)"

definition FWU_CALCULATE_IMAGE_ID :: "u8 \<Rightarrow> u32 \<Rightarrow> u32 \<Rightarrow> u32" where
  "FWU_CALCULATE_IMAGE_ID slot type specific_id =
     (ucast slot AND 0x00FF) OR push_bit 8 type OR push_bit 16 specific_id"

definition FWU_IMAGE_ID_GET_SLOT :: "u32 \<Rightarrow> u32" where
  "FWU_IMAGE_ID_GET_SLOT image_id = image_id AND 0x00FF"

text \<open>PSA_IMAGE_UNDEFINED to PSA_IMAGE_REBOOT_NEEDED.\<close>

definition PSA_IMAGE_UNDEFINED :: u8 where "PSA_IMAGE_UNDEFINED = 0"
definition PSA_IMAGE_INSTALLED :: u8 where "PSA_IMAGE_INSTALLED = 2"
definition PSA_IMAGE_PENDING_INSTALL :: u8 where "PSA_IMAGE_PENDING_INSTALL = 4"

record psa_image_info =
  iv_major :: u8
  iv_minor :: u8
  iv_revision :: u16
  iv_build_num :: u32
  istate :: u8
  idigest :: bytes

datatype OtaPalMainStatus_t =
    OtaPalSuccess | OtaPalUninitialized | OtaPalSignatureCheckFailed | OtaPalRxFileCreateFailed
  | OtaPalActivateFailed | OtaPalAbortFailed | OtaPalBadImageState | OtaPalCommitFailed

text \<open>\<open>OTA_PAL_COMBINE_ERR\<close> packs a main status and a sub error.\<close>

datatype OtaPalStatus_t = OTA_PAL_COMBINE_ERR OtaPalMainStatus_t u32

datatype OtaImageState_t =
    OtaImageStateUnknown | OtaImageStateTesting | OtaImageStateAccepted | OtaImageStateRejected
  | OtaImageStateAborted | OtaLastImageState

datatype OtaPalImageState_t =
    OtaPalImageStatePendingCommit | OtaPalImageStateValid | OtaPalImageStateInvalid

subsection \<open>Services and state\<close>

text \<open>
  \<open>unsignedVersion32\<close> is the view of the version structure of ota_appversion32.h as one number,
  from major, minor and build; \<open>ota_sub_err\<close> is \<open>OTA_PAL_SUB_ERR\<close>. A reboot that succeeds
  does not return, which is \<open>None\<close>.
\<close>

record 'w ota_env =
  psa_fwu_query :: "u32 \<Rightarrow> 'w \<Rightarrow> int \<times> psa_image_info"
  psa_fwu_write :: "u32 \<Rightarrow> u32 \<Rightarrow> bytes \<Rightarrow> 'w \<Rightarrow> int \<times> 'w"
  psa_fwu_install :: "u32 \<Rightarrow> 'w \<Rightarrow> int \<times> 'w"
  psa_fwu_abort :: "u32 \<Rightarrow> 'w \<Rightarrow> int \<times> 'w"
  psa_fwu_accept :: "u32 \<Rightarrow> 'w \<Rightarrow> int \<times> 'w"
  psa_fwu_request_reboot :: "'w \<Rightarrow> 'w option"
  psa_verify_hash :: "u32 \<Rightarrow> u32 \<Rightarrow> bytes \<Rightarrow> bytes \<Rightarrow> 'w \<Rightarrow> int"
  unsignedVersion32 :: "u8 \<Rightarrow> u8 \<Rightarrow> u16 \<Rightarrow> u32"
  ota_sub_err :: "int \<Rightarrow> u32"

text \<open>\<open>pFile\<close> records whether the context's file pointer is \<open>&xOTAImageID\<close>.\<close>

record file_context =
  pFilePath :: "bytes option"
  pSignature :: "bytes option"
  pFile :: bool

record 'w ota =
  pxSystemContext :: "nat option"
  xOTAImageID :: u32
  ucECDSARAWSignature :: bytes
  contexts :: "nat \<rightharpoonup> file_context"
  fwu :: 'w

text \<open>The module's variables at start-up, with the contexts its callers have.\<close>

definition ota_start :: "(nat \<rightharpoonup> file_context) \<Rightarrow> 'w \<Rightarrow> 'w ota" where
  "ota_start cs w =
     \<lparr>pxSystemContext = None, xOTAImageID = TFM_FWU_INVALID_IMAGE_ID,
      ucECDSARAWSignature = replicate 64 0, contexts = cs, fwu = w\<rparr>"

subsection \<open>Signature conversion\<close>

text \<open>
  The S component of an encoded signature, from the index of its length byte; and the whole
  conversion. A component of 33 bytes loses its first byte, a shorter one is padded on the left.
\<close>

definition convert_S :: "bytes \<Rightarrow> nat \<Rightarrow> bytes \<Rightarrow> (bool \<times> bytes) option" where
  "convert_S enc next raw = do {
     l \<leftarrow> read_at enc next 1;
     let n = unat (hd l);
     if n = 33
     then do {
       s \<leftarrow> read_at enc (next + 2) 32;
       raw \<leftarrow> write_at raw 32 s;
       Some (True, raw) }
     else if n \<le> 32
     then do {
       s \<leftarrow> read_at enc (next + 1) n;
       raw \<leftarrow> write_at raw (64 - n) s;
       Some (True, raw) }
     else Some (False, raw) }"

definition prvConvertToRawECDSASignature ::
  "bytes option \<Rightarrow> bytes option \<Rightarrow> (bool \<times> bytes option) option" where
  "prvConvertToRawECDSASignature pucEncodedSignature pucRawSignature =
     (case (pucEncodedSignature, pucRawSignature) of
        (Some enc, Some raw) \<Rightarrow> do {
          l \<leftarrow> read_at enc 3 1;
          let n = unat (hd l);
          raw \<leftarrow> write_at raw 0 (replicate ECDSA_SHA256_RAW_SIGNATURE_LENGTH 0);
          (ok, raw) \<leftarrow>
            (if n = 33
             then do {
               r \<leftarrow> read_at enc 5 32;
               raw \<leftarrow> write_at raw 0 r;
               convert_S enc (5 + 32 + 1) raw }
             else if n \<le> 32
             then do {
               r \<leftarrow> read_at enc 4 n;
               raw \<leftarrow> write_at raw (32 - n) r;
               convert_S enc (4 + n + 1) raw }
             else Some (False, raw));
          Some (ok, Some raw) }
      | _ \<Rightarrow> Some (False, pucRawSignature))"

subsection \<open>Operations\<close>

text \<open>Reading through a context pointer.\<close>

definition deref :: "nat \<Rightarrow> 'w ota \<Rightarrow> file_context option" where
  "deref p s = contexts s p"

text \<open>
  The image identifier that a file path names. The comparisons are \<open>memcmp\<close> over the length of
  each constant, whatever the length of the path.
\<close>

definition path_type :: "bytes \<Rightarrow> u32 option option" where
  "path_type path = do {
     secure \<leftarrow> mem_eq path (ascii ''secure image'') 12;
     if secure then Some (Some FWU_IMAGE_TYPE_SECURE)
     else do {
       nonsecure \<leftarrow> mem_eq path (ascii ''non_secure image'') 16;
       if nonsecure then Some (Some FWU_IMAGE_TYPE_NONSECURE)
       else do {
         full \<leftarrow> mem_eq path (ascii ''full image'') 10;
         Some (if full then Some FWU_IMAGE_TYPE_FULL else None) } } }"

definition CalculatePSAImageID ::
  "u8 \<Rightarrow> nat option \<Rightarrow> 'w ota \<Rightarrow> (OtaPalStatus_t \<times> u32 option) option" where
  "CalculatePSAImageID slot pFileContext s =
     (case pFileContext of
        None \<Rightarrow> Some (OTA_PAL_COMBINE_ERR OtaPalUninitialized 0, None)
      | Some p \<Rightarrow> do {
          c \<leftarrow> deref p s;
          (case pFilePath c of
             None \<Rightarrow> Some (OTA_PAL_COMBINE_ERR OtaPalUninitialized 0, None)
           | Some path \<Rightarrow> do {
               t \<leftarrow> path_type path;
               Some (case t of
                   None \<Rightarrow> (OTA_PAL_COMBINE_ERR OtaPalRxFileCreateFailed 0, None)
                 | Some ulImageType \<Rightarrow>
                     (OTA_PAL_COMBINE_ERR OtaPalSuccess 0,
                      Some (FWU_CALCULATE_IMAGE_ID slot ulImageType 0))) }) })"

definition otaPal_Abort ::
  "'w ota_env \<Rightarrow> nat option \<Rightarrow> 'w ota \<Rightarrow> OtaPalStatus_t \<times> 'w ota" where
  "otaPal_Abort env pFileContext s =
     (if pFileContext = None \<or> (pFileContext \<noteq> pxSystemContext s \<and> pxSystemContext s \<noteq> None)
      then (OTA_PAL_COMBINE_ERR OtaPalAbortFailed 0, s)
      else if pxSystemContext s = None then (OTA_PAL_COMBINE_ERR OtaPalSuccess 0, s)
      else let (st, w) = psa_fwu_abort env (xOTAImageID s) (fwu s); s = s\<lparr>fwu := w\<rparr>
        in if st \<noteq> PSA_SUCCESS then (OTA_PAL_COMBINE_ERR OtaPalAbortFailed 0, s)
        else (OTA_PAL_COMBINE_ERR OtaPalSuccess 0, s\<lparr>pxSystemContext := None, xOTAImageID := 0\<rparr>))"

definition otaPal_CreateFileForRx ::
  "nat option \<Rightarrow> 'w ota \<Rightarrow> (OtaPalStatus_t \<times> 'w ota) option" where
  "otaPal_CreateFileForRx pFileContext s =
     (case pFileContext of
        None \<Rightarrow> Some (OTA_PAL_COMBINE_ERR OtaPalRxFileCreateFailed 0, s)
      | Some p \<Rightarrow> do {
          c \<leftarrow> deref p s;
          if pFilePath c = None then Some (OTA_PAL_COMBINE_ERR OtaPalRxFileCreateFailed 0, s)
          else do {
            (st, iid) \<leftarrow> CalculatePSAImageID FWU_IMAGE_ID_SLOT_STAGE pFileContext s;
            if st \<noteq> OTA_PAL_COMBINE_ERR OtaPalSuccess 0
            then Some (OTA_PAL_COMBINE_ERR OtaPalRxFileCreateFailed 0, s)
            else do {
              ulImageID \<leftarrow> iid;
              Some (OTA_PAL_COMBINE_ERR OtaPalSuccess 0,
                s\<lparr>pxSystemContext := pFileContext, xOTAImageID := ulImageID,
                  contexts := (contexts s)(p \<mapsto> c\<lparr>pFile := True\<rparr>)\<rparr>) } } })"

definition otaPal_CheckSignature ::
  "'w ota_env \<Rightarrow> nat option \<Rightarrow> 'w ota \<Rightarrow> (OtaPalStatus_t \<times> 'w ota) option" where
  "otaPal_CheckSignature env pFileContext s = do {
     let (uxStatus, xImageInfo) = psa_fwu_query env (xOTAImageID s) (fwu s);
     if uxStatus \<noteq> PSA_SUCCESS
     then Some (OTA_PAL_COMBINE_ERR OtaPalSignatureCheckFailed (ota_sub_err env uxStatus), s)
     else do {
       p \<leftarrow> pFileContext;
       c \<leftarrow> deref p s;
       sigdata \<leftarrow> pSignature c;
       (ok, raw) \<leftarrow> prvConvertToRawECDSASignature (Some sigdata) (Some (ucECDSARAWSignature s));
       raw \<leftarrow> raw;
       let s = s\<lparr>ucECDSARAWSignature := raw\<rparr>;
       if \<not> ok then Some (OTA_PAL_COMBINE_ERR OtaPalSignatureCheckFailed 0, s)
       else let uxStatus = psa_verify_hash env OTA_SIGNING_KEY_ID PSA_ALG_ECDSA_SHA_256
                  (idigest xImageInfo) (ucECDSARAWSignature s) (fwu s)
         in if uxStatus \<noteq> PSA_SUCCESS
         then Some (OTA_PAL_COMBINE_ERR OtaPalSignatureCheckFailed (ota_sub_err env uxStatus), s)
         else Some (OTA_PAL_COMBINE_ERR OtaPalSuccess 0, s) } }"

definition otaPal_CloseFile ::
  "'w ota_env \<Rightarrow> nat option \<Rightarrow> 'w ota \<Rightarrow> (OtaPalStatus_t \<times> 'w ota) option" where
  "otaPal_CloseFile env pFileContext s = otaPal_CheckSignature env pFileContext s"

definition prvGetImageInfo :: "'w ota_env \<Rightarrow> u8 \<Rightarrow> u32 \<Rightarrow> 'w ota \<Rightarrow> bool \<times> psa_image_info" where
  "prvGetImageInfo env ucSlot ulImageType s =
     (let (xPSAStatus, info) = psa_fwu_query env (FWU_CALCULATE_IMAGE_ID ucSlot ulImageType 0) (fwu s)
      in (xPSAStatus = PSA_SUCCESS, info))"

definition prvCheckVersion :: "'w ota_env \<Rightarrow> psa_image_info \<Rightarrow> psa_image_info \<Rightarrow> bool" where
  "prvCheckVersion env pActiveVersion pStageVersion =
     (unsignedVersion32 env (iv_major pActiveVersion) (iv_minor pActiveVersion) (iv_revision pActiveVersion)
      > unsignedVersion32 env (iv_major pStageVersion) (iv_minor pStageVersion) (iv_revision pStageVersion))"

definition OtaPal_ImageVersionCheck :: "'w ota_env \<Rightarrow> u32 \<Rightarrow> 'w ota \<Rightarrow> bool" where
  "OtaPal_ImageVersionCheck env ulImageType s =
     (let (xStatus, active) = prvGetImageInfo env FWU_IMAGE_ID_SLOT_ACTIVE ulImageType s
      in if xStatus \<and> istate active = PSA_IMAGE_PENDING_INSTALL
         then let (xStatus, stage) = prvGetImageInfo env FWU_IMAGE_ID_SLOT_STAGE ulImageType s
           in if xStatus then prvCheckVersion env active stage else xStatus
         else xStatus)"

text \<open>
  The two versions that the caller passes are (major, minor, build); the first is written even
  when the second query fails.
\<close>

definition otaPal_GetImageVersion ::
  "'w ota_env \<Rightarrow> u8 \<times> u8 \<times> u16 \<Rightarrow> u8 \<times> u8 \<times> u16 \<Rightarrow> 'w ota \<Rightarrow>
   bool \<times> (u8 \<times> u8 \<times> u16) \<times> (u8 \<times> u8 \<times> u16)" where
  "otaPal_GetImageVersion env sv nv s =
     (let (ok, i) = prvGetImageInfo env FWU_IMAGE_ID_SLOT_ACTIVE FWU_IMAGE_TYPE_SECURE s;
          sv = (if ok then (iv_major i, iv_minor i, iv_revision i) else sv);
          (ok, i) = (if ok then prvGetImageInfo env FWU_IMAGE_ID_SLOT_ACTIVE FWU_IMAGE_TYPE_NONSECURE s
                     else (ok, i));
          nv = (if ok then (iv_major i, iv_minor i, iv_revision i) else nv)
      in (ok, sv, nv))"

text \<open>
  The loop of \<open>otaPal_WriteBlock\<close>: \<open>left\<close> bytes to go, \<open>done_len\<close> written. The first component of the
  result is \<open>None\<close> when a write failed.
\<close>

function write_blocks ::
  "'w ota_env \<Rightarrow> u32 \<Rightarrow> u32 \<Rightarrow> bytes \<Rightarrow> nat \<Rightarrow> nat \<Rightarrow> 'w \<Rightarrow> (nat option \<times> 'w) option" where
  "write_blocks env iid ulOffset pcData left done_len w =
     (if left > 0
      then let n = (if left \<le> PSA_FWU_MAX_BLOCK_SIZE then left else PSA_FWU_MAX_BLOCK_SIZE)
        in (case read_at pcData done_len n of
              None \<Rightarrow> None
            | Some d \<Rightarrow>
                let (st, w) = psa_fwu_write env iid (ulOffset + of_nat done_len) d w
                in if st \<noteq> PSA_SUCCESS then Some (None, w)
                   else write_blocks env iid ulOffset pcData (left - n) (done_len + n) w)
      else Some (Some done_len, w))"
  by pat_completeness auto
termination
  by (relation "measure (\<lambda>(env, iid, ofs, d, left, dn, w). left)")
    (auto simp: PSA_FWU_MAX_BLOCK_SIZE_def)

declare write_blocks.simps [simp del]

text \<open>The number of bytes, a \<open>uint32_t\<close>, is returned as an \<open>int16_t\<close>.\<close>

definition otaPal_WriteBlock ::
  "'w ota_env \<Rightarrow> nat option \<Rightarrow> u32 \<Rightarrow> bytes \<Rightarrow> u32 \<Rightarrow> 'w ota \<Rightarrow> (int \<times> 'w ota) option" where
  "otaPal_WriteBlock env pFileContext ulOffset pcData ulBlockSize s =
     (if pFileContext = None \<or> pFileContext \<noteq> pxSystemContext s \<or>
         xOTAImageID s = TFM_FWU_INVALID_IMAGE_ID
      then Some (-1, s)
      else do {
        (n, w) \<leftarrow> write_blocks env (xOTAImageID s) ulOffset pcData (unat ulBlockSize) 0 (fwu s);
        Some (case n of None \<Rightarrow> -1 | Some k \<Rightarrow> sint (of_nat k :: 16 word), s\<lparr>fwu := w\<rparr>) })"

definition otaPal_ResetDevice :: "'w ota_env \<Rightarrow> 'w ota \<Rightarrow> (OtaPalStatus_t \<times> 'w ota) option" where
  "otaPal_ResetDevice env s = do {
     w \<leftarrow> psa_fwu_request_reboot env (fwu s);
     Some (OTA_PAL_COMBINE_ERR OtaPalActivateFailed 0, s\<lparr>fwu := w\<rparr>) }"

definition otaPal_ActivateNewImage ::
  "'w ota_env \<Rightarrow> nat option \<Rightarrow> 'w ota \<Rightarrow> (OtaPalStatus_t \<times> 'w ota) option" where
  "otaPal_ActivateNewImage env pFileContext s =
     (if pFileContext = None \<or> pFileContext \<noteq> pxSystemContext s \<or>
         xOTAImageID s = TFM_FWU_INVALID_IMAGE_ID
      then Some (OTA_PAL_COMBINE_ERR OtaPalActivateFailed 0, s)
      else let (uxStatus, w) = psa_fwu_install env (xOTAImageID s) (fwu s); s = s\<lparr>fwu := w\<rparr>
        in if uxStatus = PSA_SUCCESS_REBOOT
        then do {
          (_, s) \<leftarrow> otaPal_ResetDevice env s;
          Some (OTA_PAL_COMBINE_ERR OtaPalActivateFailed 0, s) }
        else if uxStatus = PSA_SUCCESS then Some (OTA_PAL_COMBINE_ERR OtaPalSuccess 0, s)
        else Some (OTA_PAL_COMBINE_ERR OtaPalActivateFailed (ota_sub_err env uxStatus), s))"

definition otaPal_SetPlatformImageState ::
  "'w ota_env \<Rightarrow> nat option \<Rightarrow> OtaImageState_t \<Rightarrow> 'w ota \<Rightarrow> (OtaPalStatus_t \<times> 'w ota) option" where
  "otaPal_SetPlatformImageState env pFileContext eState s =
     (if pxSystemContext s = None
      then (case eState of
          OtaImageStateAccepted \<Rightarrow> do {
            (st, iid) \<leftarrow> CalculatePSAImageID FWU_IMAGE_ID_SLOT_ACTIVE pFileContext s;
            if st \<noteq> OTA_PAL_COMBINE_ERR OtaPalSuccess 0
            then Some (OTA_PAL_COMBINE_ERR OtaPalCommitFailed 0, s)
            else do {
              ulImageID \<leftarrow> iid;
              let (uxStatus, w) = psa_fwu_accept env ulImageID (fwu s);
              let s = s\<lparr>fwu := w\<rparr>;
              if uxStatus \<noteq> PSA_SUCCESS
              then Some (OTA_PAL_COMBINE_ERR OtaPalCommitFailed (ota_sub_err env uxStatus), s)
              else Some (OTA_PAL_COMBINE_ERR OtaPalSuccess 0, s) } }
        | OtaImageStateRejected \<Rightarrow> Some (OTA_PAL_COMBINE_ERR OtaPalSuccess 0, s)
        | OtaImageStateTesting \<Rightarrow> Some (OTA_PAL_COMBINE_ERR OtaPalSuccess 0, s)
        | OtaImageStateAborted \<Rightarrow> Some (OTA_PAL_COMBINE_ERR OtaPalSuccess 0, s)
        | _ \<Rightarrow> Some (OTA_PAL_COMBINE_ERR OtaPalBadImageState 0, s))
      else if eState = OtaImageStateAccepted
      then Some (OTA_PAL_COMBINE_ERR OtaPalCommitFailed 0, s)
      else Some (OTA_PAL_COMBINE_ERR OtaPalSuccess 0, s))"

definition prvGetImageState :: "'w ota_env \<Rightarrow> u8 \<Rightarrow> u32 \<Rightarrow> 'w ota \<Rightarrow> u8" where
  "prvGetImageState env ucSlot ulImageType s =
     (let (ok, info) = prvGetImageInfo env ucSlot ulImageType s
      in if ok then istate info else PSA_IMAGE_UNDEFINED)"

definition otaPal_GetPlatformImageState ::
  "'w ota_env \<Rightarrow> nat option \<Rightarrow> 'w ota \<Rightarrow> OtaPalImageState_t option" where
  "otaPal_GetPlatformImageState env pFileContext s = do {
     let ucSlot = (if pxSystemContext s = None then FWU_IMAGE_ID_SLOT_ACTIVE else FWU_IMAGE_ID_SLOT_STAGE);
     p \<leftarrow> pFileContext;
     c \<leftarrow> deref p s;
     none \<leftarrow> (case pFilePath c of None \<Rightarrow> Some True | Some path \<Rightarrow> strcmp_eq path (c_literal ''''));
     if none
     then let sec = prvGetImageState env ucSlot FWU_IMAGE_TYPE_SECURE s;
              nonsec = prvGetImageState env ucSlot FWU_IMAGE_TYPE_NONSECURE s
       in Some (if sec = PSA_IMAGE_PENDING_INSTALL \<or> nonsec = PSA_IMAGE_PENDING_INSTALL
            then OtaPalImageStatePendingCommit
            else if sec = PSA_IMAGE_INSTALLED \<and> nonsec = PSA_IMAGE_INSTALLED
            then OtaPalImageStateValid else OtaPalImageStateInvalid)
     else do {
       (st, iid) \<leftarrow> CalculatePSAImageID ucSlot pFileContext s;
       if st \<noteq> OTA_PAL_COMBINE_ERR OtaPalSuccess 0 then Some OtaPalImageStateInvalid
       else do {
         ulImageID \<leftarrow> iid;
         let (uxStatus, info) = psa_fwu_query env ulImageID (fwu s);
         Some (if uxStatus \<noteq> PSA_SUCCESS then OtaPalImageStateInvalid
           else if istate info = PSA_IMAGE_PENDING_INSTALL then OtaPalImageStatePendingCommit
           else if istate info = PSA_IMAGE_INSTALLED then OtaPalImageStateValid
           else OtaPalImageStateInvalid) } } }"

subsection \<open>Signatures\<close>

text \<open>
  The DER encoding of a signature: two integers in the shortest two's complement form, of
  the big-endian magnitudes \<open>r\<close> and \<open>s\<close> of 32 bytes.
\<close>

definition der_int :: "bytes \<Rightarrow> bytes" where
  "der_int x =
     (let m = dropWhile (\<lambda>b. b = 0) x
      in if m = [] then [0] else if bit (hd m) 7 then 0 # m else m)"

definition der_signature :: "bytes \<Rightarrow> bytes \<Rightarrow> bytes" where
  "der_signature r s =
     (let body = [2, of_nat (length (der_int r))] @ der_int r @ [2, of_nat (length (der_int s))] @ der_int s
      in [0x30, of_nat (length body)] @ body)"

text \<open>What the conversion makes of a component's bytes.\<close>

definition component :: "bytes \<Rightarrow> bytes" where
  "component c = (if length c = 33 then tl c else replicate (32 - length c) 0 @ c)"

lemma dropWhile_zeros: "replicate (length x - length (dropWhile (\<lambda>b. b = 0) x)) 0 @ dropWhile (\<lambda>b. b = (0::u8)) x = x"
proof (induction x)
  case (Cons a x)
  have "length (dropWhile (\<lambda>b. b = 0) x) \<le> length x" by (rule length_dropWhile_le)
  with Cons show ?case by (auto simp: Suc_diff_le)
qed simp

lemma component_der_int:
  assumes "length x = 32"
  shows "component (der_int x) = x" and "length (der_int x) \<le> 33"
proof -
  let ?m = "dropWhile (\<lambda>b. b = 0) x"
  note z = dropWhile_zeros [of x]
  have le: "length ?m \<le> 32" using assms length_dropWhile_le [of "\<lambda>b. b = 0" x] by simp
  then show "length (der_int x) \<le> 33" by (simp add: der_int_def Let_def)
  show "component (der_int x) = x"
  proof (cases "?m = []")
    case True
    with z assms have "x = replicate 31 0 @ [0]"
      by (simp add: replicate_append_same numeral_eq_Suc)
    with True show ?thesis by (simp add: der_int_def component_def)
  next
    case False
    then have "0 < length ?m" by simp
    then show ?thesis
    proof (cases "bit (hd ?m) 7")
      case high: True
      have d: "der_int x = 0 # ?m" unfolding der_int_def Let_def using False high by (simp only: if_False if_True)
      show ?thesis
      proof (cases "length ?m = 32")
        case True
        with z d assms show ?thesis by (simp add: component_def)
      next
        case short: False
        with le have "32 - length ?m = Suc (31 - length ?m)" by simp
        then have "replicate (32 - length ?m) 0 @ ?m = replicate (31 - length ?m) 0 @ 0 # ?m"
          by (simp add: replicate_app_Cons_same)
        with z assms have "replicate (31 - length ?m) 0 @ 0 # ?m = x" by simp
        with short d show ?thesis by (simp add: component_def)
      qed
    next
      case low: False
      have "der_int x = ?m" unfolding der_int_def Let_def using False low by (simp only: if_False if_True)
      then show ?thesis using z le assms by (simp add: component_def)
    qed
  qed
qed

lemma unat_u8_length: "n \<le> 33 \<Longrightarrow> unat (of_nat n :: u8) = n"
  by (simp add: unat_of_nat)

lemma convert_S_component:
  assumes "length c \<le> 33" and "length raw = 64" and "drop next enc = of_nat (length c) # c @ rest"
    and "drop 32 raw = replicate 32 0"
  shows "convert_S enc next raw = Some (True, take 32 raw @ component c)"
proof -
  from assms(3) have "next < length enc" by (cases "next < length enc") auto
  with assms(3) have len: "length enc = next + 1 + length c + length rest"
    by (metis add.assoc add.commute length_drop length_append length_Cons le_add_diff_inverse
        less_imp_le_nat plus_1_eq_Suc)
  have d1: "drop (next + 1) enc = c @ rest" using assms(3) by (metis drop_drop add.commute drop_Suc_Cons drop_0 plus_1_eq_Suc)
  then have d2: "drop (next + 2) enc = drop 1 (c @ rest)" 
    by (metis add.assoc add.commute drop_drop one_add_one)
  have raw: "raw = take 32 raw @ replicate 32 0" using assms(4) by (metis append_take_drop_id)
  have hd: "read_at enc next 1 = Some [of_nat (length c)]" using assms(3) len by (simp add: read_at_def)
  have step: "convert_S enc next raw =
      (if length c = 33
       then Option.bind (read_at enc (next + 2) 32) (\<lambda>s. Option.bind (write_at raw 32 s) (\<lambda>raw. Some (True, raw)))
       else Option.bind (read_at enc (next + 1) (length c))
         (\<lambda>s. Option.bind (write_at raw (64 - length c) s) (\<lambda>raw. Some (True, raw))))"
    unfolding convert_S_def hd Option.bind.simps list.sel unat_u8_length [OF assms(1)] Let_def
    using assms(1) by simp
  show ?thesis
  proof (cases "length c = 33")
    case True
    then have "read_at enc (next + 2) 32 = Some (tl c)"
      using d2 len by (cases c) (simp_all add: read_at_def)
    with True assms(2) step show ?thesis
      by (auto simp: component_def)
  next
    case False
    then have l: "length c \<le> 32" using assms(1) by simp
    have "read_at enc (next + 1) (length c) = Some c" using d1 len by (simp add: read_at_def)
    moreover have "write_at raw (64 - length c) c = Some (take 32 raw @ component c)"
    proof -
      have "take (64 - length c) raw = take 32 raw @ replicate (32 - length c) 0"
      proof (cases "length c = 32")
        case False
        with l have "\<not> 64 - length c \<le> 32" "32 \<le> length raw" using assms(2) by simp_all
        then show ?thesis using l assms(2) by (subst raw) (simp add: min_def)
      qed simp
      then show ?thesis using l False assms(2) by (simp add: write_at_def component_def)
    qed
    ultimately show ?thesis unfolding step using False by simp
  qed
qed


lemma convert_signature:
  assumes "length cr \<le> 33" and "length cs \<le> 33" and "length raw = 64"
  shows "prvConvertToRawECDSASignature
      (Some ([t0, l0, t1, of_nat (length cr)] @ cr @ [t2, of_nat (length cs)] @ cs @ rest)) (Some raw) =
    Some (True, Some (component cr @ component cs))"
proof -
  define enc where "enc = [t0, l0, t1, of_nat (length cr)] @ cr @ [t2, of_nat (length cs)] @ cs @ rest"
  have hd: "read_at enc 3 1 = Some [of_nat (length cr)]" by (simp add: enc_def read_at_def)
  have z: "write_at raw 0 (replicate ECDSA_SHA256_RAW_SIGNATURE_LENGTH 0) = Some (replicate 64 0)"
    using assms(3) by (simp add: write_at_def ECDSA_SHA256_RAW_SIGNATURE_LENGTH_def)
  have step: "prvConvertToRawECDSASignature (Some enc) (Some raw) =
      Option.bind (if length cr = 33
             then Option.bind (read_at enc 5 32) (\<lambda>r. Option.bind (write_at (replicate 64 0) 0 r) (convert_S enc 38))
             else Option.bind (read_at enc 4 (length cr))
               (\<lambda>r. Option.bind (write_at (replicate 64 0) (32 - length cr) r) (convert_S enc (4 + length cr + 1))))
        (\<lambda>(ok, raw). Some (ok, Some raw))"
    unfolding prvConvertToRawECDSASignature_def hd z Option.bind.simps list.sel unat_u8_length [OF assms(1)]
      Let_def prod.case option.case
    using assms(1) by simp
  have "enc = ([t0, l0, t1, of_nat (length cr)] @ cr @ [t2]) @ of_nat (length cs) # cs @ rest"
    by (simp add: enc_def)
  moreover have "length ([t0, l0, t1, of_nat (length cr)] @ cr @ [t2]) = 4 + length cr + 1" by simp
  ultimately have rd: "drop (4 + length cr + 1) enc = of_nat (length cs) # cs @ rest"
    by (rule drop_prefix)
  have mid: "convert_S enc (4 + length cr + 1) (component cr @ replicate 32 0) =
      Some (True, component cr @ component cs)"
    using convert_S_component [OF assms(2) _ rd, of "component cr @ replicate 32 0"] assms(1)
    by (simp add: component_def)
  show ?thesis
  proof (cases "length cr = 33")
    case True
    then have "read_at enc 5 32 = Some (tl cr)" by (cases cr) (simp_all add: enc_def read_at_def)
    moreover have "write_at (replicate 64 0) 0 (tl cr) = Some (component cr @ replicate 32 0)"
      using True by (simp add: write_at_def component_def)
    ultimately have "prvConvertToRawECDSASignature (Some enc) (Some raw) =
        Option.bind (convert_S enc (4 + length cr + 1) (component cr @ replicate 32 0)) (\<lambda>(ok, raw). Some (ok, Some raw))"
      unfolding step using True by (simp del: read_at_Some write_at_Some)
    then show ?thesis unfolding mid unfolding enc_def by simp
  next
    case False
    then have l: "length cr \<le> 32" using assms(1) by simp
    have "read_at enc 4 (length cr) = Some cr" by (simp add: enc_def read_at_def)
    moreover have "write_at (replicate 64 0) (32 - length cr) cr = Some (component cr @ replicate 32 0)"
      using l False by (simp add: write_at_def component_def)
    ultimately have "prvConvertToRawECDSASignature (Some enc) (Some raw) =
        Option.bind (convert_S enc (4 + length cr + 1) (component cr @ replicate 32 0)) (\<lambda>(ok, raw). Some (ok, Some raw))"
      unfolding step using False by (simp del: read_at_Some write_at_Some)
    then show ?thesis unfolding mid unfolding enc_def by simp
  qed
qed

text \<open>
  The conversion inverts the DER encoding: for every signature of two 32-byte numbers, and
  whatever follows it in the buffer, the raw form is the two numbers one after the other.
\<close>

theorem prvConvertToRawECDSASignature_roundtrip:
  assumes "length r = 32" and "length s = 32" and "length raw = 64"
  shows "prvConvertToRawECDSASignature (Some (der_signature r s @ rest)) (Some raw) =
    Some (True, Some (r @ s))"
  using convert_signature [OF component_der_int(2) [OF assms(1)] component_der_int(2) [OF assms(2)] assms(3)]
    component_der_int(1) [OF assms(1)] component_der_int(1) [OF assms(2)]
  by (simp add: der_signature_def Let_def)

theorem prvConvertToRawECDSASignature_roundtrip_witness:
  "prvConvertToRawECDSASignature (Some (der_signature (replicate 32 200) (replicate 31 0 @ [7]) @ [1, 2]))
     (Some (replicate 64 9)) = Some (True, Some (replicate 32 200 @ replicate 31 0 @ [7]))"
  by (rule prvConvertToRawECDSASignature_roundtrip) simp_all

text \<open>A component that claims more than 33 bytes is refused, and the raw buffer is cleared.\<close>

lemma prvConvertToRawECDSASignature_reject:
  assumes "length raw = 64" and "3 < length enc" and "33 < unat (enc ! 3)"
  shows "prvConvertToRawECDSASignature (Some enc) (Some raw) = Some (False, Some (replicate 64 0))"
proof -
  have hd: "read_at enc 3 1 = Some [enc ! 3]"
    using assms(2) by (simp add: read_at_def Cons_nth_drop_Suc [symmetric] take_Suc_conv_app_nth)
  have z: "write_at raw 0 (replicate ECDSA_SHA256_RAW_SIGNATURE_LENGTH 0) = Some (replicate 64 0)"
    using assms(1) by (simp add: write_at_def ECDSA_SHA256_RAW_SIGNATURE_LENGTH_def)
  show ?thesis
    unfolding prvConvertToRawECDSASignature_def hd z Option.bind.simps list.sel Let_def prod.case option.case
    using assms(3) by simp
qed

subsection \<open>Writing blocks\<close>

definition overlay :: "nat \<Rightarrow> bytes \<Rightarrow> (nat \<rightharpoonup> u8) \<Rightarrow> nat \<rightharpoonup> u8" where
  "overlay ofs bs f = (\<lambda>i. if ofs \<le> i \<and> i < ofs + length bs then Some (bs ! (i - ofs)) else f i)"

lemma overlay_Nil [simp]: "overlay ofs [] f = f"
  by (auto simp: overlay_def fun_eq_iff)

lemma overlay_append: "overlay (ofs + length a) b (overlay ofs a f) = overlay ofs (a @ b) f"
  by (auto simp: overlay_def nth_append fun_eq_iff)

text \<open>
  What psa/update.h documents of the service: a write stores its bytes at the offset of the image
  it names, and in any case touches no other image. \<open>img w i\<close> is what is stored for image \<open>i\<close>.
\<close>

locale fwu_service =
  fixes env :: "'w ota_env"
    and img :: "'w \<Rightarrow> u32 \<Rightarrow> nat \<rightharpoonup> u8"
  assumes write_ok: "length d \<le> PSA_FWU_MAX_BLOCK_SIZE \<Longrightarrow>
      psa_fwu_write env iid ofs d w = (PSA_SUCCESS, w') \<Longrightarrow>
      img w' = (img w)(iid := overlay (unat ofs) d (img w iid))"
    and write_other: "psa_fwu_write env iid ofs d w = (st, w') \<Longrightarrow> j \<noteq> iid \<Longrightarrow> img w' j = img w j"
begin

lemma write_blocks_other:
  assumes "write_blocks env iid ofs d left dn w = Some (r, w')" and "j \<noteq> iid"
  shows "img w' j = img w j"
  using assms
proof (induction left arbitrary: dn w rule: less_induct)
  case (less left)
  show ?case
  proof (cases "left = 0")
    case True
    with less.prems show ?thesis by (simp add: write_blocks.simps)
  next
    case False
    let ?n = "if left \<le> PSA_FWU_MAX_BLOCK_SIZE then left else PSA_FWU_MAX_BLOCK_SIZE"
    from less.prems(1) False obtain b where b: "read_at d dn ?n = Some b"
      by (subst (asm) write_blocks.simps) (auto simp: Let_def split: option.splits)
    obtain st w1 where w1: "psa_fwu_write env iid (ofs + of_nat dn) b w = (st, w1)" by fastforce
    have "img w1 j = img w j" using write_other [OF w1 less.prems(2)] .
    moreover have "if st = PSA_SUCCESS then write_blocks env iid ofs d (left - ?n) (dn + ?n) w1 = Some (r, w')
        else w' = w1"
      using less.prems(1) False b w1 by (subst (asm) write_blocks.simps) (simp add: Let_def del: read_at_Some split: if_splits)
    moreover have "left - ?n < left" using False by (simp add: PSA_FWU_MAX_BLOCK_SIZE_def)
    ultimately show ?thesis using less.IH [of "left - ?n" "dn + ?n" w1] less.prems(2) by (cases "st = PSA_SUCCESS") auto
  qed
qed

lemma write_blocks_correct:
  assumes "dn + left \<le> length d" and "unat ofs + dn + left < 2 ^ 32"
  shows "\<exists>r w'. write_blocks env iid ofs d left dn w = Some (r, w') \<and>
    (r = None \<or> r = Some (dn + left) \<and>
       img w' = (img w)(iid := overlay (unat ofs + dn) (take left (drop dn d)) (img w iid)))"
  using assms
proof (induction left arbitrary: dn w rule: less_induct)
  case (less left)
  show ?case
  proof (cases "left = 0")
    case True
    then show ?thesis by (simp add: write_blocks.simps)
  next
    case False
    define n where "n = (if left \<le> PSA_FWU_MAX_BLOCK_SIZE then left else PSA_FWU_MAX_BLOCK_SIZE)"
    then have n: "0 < n" "n \<le> left" "n \<le> PSA_FWU_MAX_BLOCK_SIZE"
      using False by (simp_all add: PSA_FWU_MAX_BLOCK_SIZE_def)
    define b where "b = take n (drop dn d)"
    with n less.prems have b: "read_at d dn n = Some b" "length b = n" by (simp_all add: read_at_def)
    obtain st w1 where w1: "psa_fwu_write env iid (ofs + of_nat dn) b w = (st, w1)" by fastforce
    have step: "write_blocks env iid ofs d left dn w =
        (if st \<noteq> PSA_SUCCESS then Some (None, w1) else write_blocks env iid ofs d (left - n) (dn + n) w1)"
      using False b w1 by (subst write_blocks.simps) (simp add: n_def [symmetric] Let_def del: read_at_Some)
    show ?thesis
    proof (cases "st = PSA_SUCCESS")
      case True
      have u: "unat (ofs + of_nat dn) = unat ofs + dn"
        using less.prems(2) by (simp add: unat_word_ariths unat_of_nat)
      have im: "img w1 = (img w)(iid := overlay (unat ofs + dn) b (img w iid))"
        using write_ok [of b iid "ofs + of_nat dn" w w1] w1 True b(2) n(3) u by simp
      have sp: "take left (drop dn d) = b @ take (left - n) (drop (dn + n) d)"
        using n(2) take_add [of n "left - n" "drop dn d"] by (simp add: b_def add.commute)
      have "dn + n + (left - n) \<le> length d" "unat ofs + (dn + n) + (left - n) < 2 ^ 32"
        using less.prems n by simp_all
      moreover have "left - n < left" using n by simp
      ultimately obtain r w' where r:
        "write_blocks env iid ofs d (left - n) (dn + n) w1 = Some (r, w')"
        "r = None \<or> r = Some (dn + n + (left - n)) \<and>
          img w' = (img w1)(iid := overlay (unat ofs + (dn + n)) (take (left - n) (drop (dn + n) d)) (img w1 iid))"
        using less.IH [of "left - n" "dn + n" w1] by blast
      have "overlay (unat ofs + (dn + n)) (take (left - n) (drop (dn + n) d)) (overlay (unat ofs + dn) b f) =
          overlay (unat ofs + dn) (take left (drop dn d)) f" for f
        unfolding sp using overlay_append [of "unat ofs + dn" b] b(2) by (simp add: add.assoc)
      with r im step True n(2) show ?thesis by (intro exI [of _ r] exI [of _ w']) auto
    qed (simp add: step)
  qed
qed

end

text \<open>
  A service that keeps what it is given, to show that the laws can hold.
\<close>

definition reference_ota :: "(u32 \<Rightarrow> nat \<rightharpoonup> u8) ota_env" where
  "reference_ota =
     \<lparr> psa_fwu_query = (\<lambda>i w. (PSA_SUCCESS, \<lparr>iv_major = 1, iv_minor = 0, iv_revision = 0, iv_build_num = 0,
          istate = PSA_IMAGE_INSTALLED, idigest = replicate 32 0\<rparr>)),
       psa_fwu_write = (\<lambda>i ofs d w. (PSA_SUCCESS, w(i := overlay (unat ofs) d (w i)))),
       psa_fwu_install = (\<lambda>i w. (PSA_SUCCESS_REBOOT, w)),
       psa_fwu_abort = (\<lambda>i w. (PSA_SUCCESS, w(i := Map.empty))),
       psa_fwu_accept = (\<lambda>i w. (PSA_SUCCESS, w)),
       psa_fwu_request_reboot = (\<lambda>w. None),
       psa_verify_hash = (\<lambda>k a h sg w. if k = OTA_SIGNING_KEY_ID \<and> h @ h = sg then PSA_SUCCESS else -149),
       unsignedVersion32 = (\<lambda>a b c. of_nat (unat a * 2 ^ 24 + unat b * 2 ^ 16 + unat c)),
       ota_sub_err = of_int \<rparr>"

interpretation reference_fwu: fwu_service reference_ota "\<lambda>w. w"
  by unfold_locales (auto simp: reference_ota_def)

subsection \<open>Which image is touched\<close>

lemma slot_of_image_id: "FWU_IMAGE_ID_GET_SLOT (FWU_CALCULATE_IMAGE_ID slot t 0) = ucast slot"
proof (rule bit_word_eqI)
  fix n
  assume n: "n < LENGTH(32)"
  have "(0xFF :: u32) = mask 8" by (simp add: mask_eq_exp_minus_1)
  then have "bit (0xFF :: u32) n = (n < 8)" using n by (simp only: bit_mask_iff) simp
  then show "bit (FWU_IMAGE_ID_GET_SLOT (FWU_CALCULATE_IMAGE_ID slot t 0)) n = bit (ucast slot :: u32) n"
    by (auto simp: FWU_IMAGE_ID_GET_SLOT_def FWU_CALCULATE_IMAGE_ID_def bit_simps
        dest: bit_imp_le_length)
qed

inductive ota_reachable :: "'w ota_env \<Rightarrow> (nat \<rightharpoonup> file_context) \<Rightarrow> 'w \<Rightarrow> 'w ota \<Rightarrow> bool" for env cs w0 where
  start: "ota_reachable env cs w0 (ota_start cs w0)"
| create: "ota_reachable env cs w0 s \<Longrightarrow> otaPal_CreateFileForRx p s = Some (r, s') \<Longrightarrow> ota_reachable env cs w0 s'"
| write_block: "ota_reachable env cs w0 s \<Longrightarrow> otaPal_WriteBlock env p ofs d n s = Some (i, s') \<Longrightarrow>
    ota_reachable env cs w0 s'"
| close_file: "ota_reachable env cs w0 s \<Longrightarrow> otaPal_CloseFile env p s = Some (r, s') \<Longrightarrow> ota_reachable env cs w0 s'"
| activate: "ota_reachable env cs w0 s \<Longrightarrow> otaPal_ActivateNewImage env p s = Some (r, s') \<Longrightarrow>
    ota_reachable env cs w0 s'"
| abort: "ota_reachable env cs w0 s \<Longrightarrow> otaPal_Abort env p s = (r, s') \<Longrightarrow> ota_reachable env cs w0 s'"
| set_state: "ota_reachable env cs w0 s \<Longrightarrow> otaPal_SetPlatformImageState env p e s = Some (r, s') \<Longrightarrow>
    ota_reachable env cs w0 s'"

text \<open>
  While a transfer is open, the image it names is in the staging slot; otherwise there is none.
\<close>

definition ota_inv :: "'w ota \<Rightarrow> bool" where
  "ota_inv s \<longleftrightarrow> length (ucECDSARAWSignature s) = 64 \<and>
     (if pxSystemContext s = None then xOTAImageID s = TFM_FWU_INVALID_IMAGE_ID
      else FWU_IMAGE_ID_GET_SLOT (xOTAImageID s) = ucast FWU_IMAGE_ID_SLOT_STAGE \<and>
        (\<exists>p. pxSystemContext s = Some p \<and> contexts s p \<noteq> None))"

lemma CalculatePSAImageID_Some:
  assumes "CalculatePSAImageID slot p s = Some (st, iid)"
  shows "(st = OTA_PAL_COMBINE_ERR OtaPalSuccess 0) = (iid \<noteq> None)"
    and "iid = Some i \<Longrightarrow> FWU_IMAGE_ID_GET_SLOT i = ucast slot"
  using assms slot_of_image_id
  by (auto simp: CalculatePSAImageID_def split: option.splits)

lemma convert_length:
  assumes "prvConvertToRawECDSASignature e (Some raw) = Some (ok, Some raw')" and "length raw = 64"
  shows "length raw' = 64"
  using assms
  by (auto simp: prvConvertToRawECDSASignature_def convert_S_def ECDSA_SHA256_RAW_SIGNATURE_LENGTH_def
      Let_def split: option.splits if_splits)

lemma ota_inv_create:
  assumes "ota_inv s" and "otaPal_CreateFileForRx p s = Some (r, s')"
  shows "ota_inv s'"
  using assms
  by (auto simp: otaPal_CreateFileForRx_def ota_inv_def split: option.splits if_splits
      dest: CalculatePSAImageID_Some)

lemma ota_inv_close:
  assumes "ota_inv s" and "otaPal_CloseFile env p s = Some (r, s')"
  shows "ota_inv s'"
  using assms
  by (auto simp: otaPal_CloseFile_def otaPal_CheckSignature_def ota_inv_def Let_def case_prod_beta
      split: option.splits if_splits prod.splits dest: convert_length)

lemma ota_reachable_inv: "ota_reachable env cs w0 s \<Longrightarrow> ota_inv s"
proof (induction rule: ota_reachable.induct)
  case start
  then show ?case by (simp add: ota_inv_def ota_start_def)
next
  case (create s p r s')
  from create(3,2) show ?case by (rule ota_inv_create)
next
  case (write_block s p ofs d n i s')
  then show ?case by (auto simp: otaPal_WriteBlock_def ota_inv_def split: if_splits)
next
  case (close_file s p r s')
  from close_file(3,2) show ?case by (rule ota_inv_close)
next
  case (activate s p r s')
  then show ?case
    by (auto simp: otaPal_ActivateNewImage_def otaPal_ResetDevice_def ota_inv_def Let_def case_prod_beta
        split: if_splits)
next
  case (abort s p r s')
  then show ?case
    by (auto simp: otaPal_Abort_def ota_inv_def TFM_FWU_INVALID_IMAGE_ID_def Let_def case_prod_beta
        split: if_splits)
next
  case (set_state s p e r s')
  then show ?case
    by (auto simp: otaPal_SetPlatformImageState_def ota_inv_def Let_def case_prod_beta
        split: if_splits OtaImageState_t.splits)
qed

subsection \<open>Properties of the operations\<close>

text \<open>
  C19: writing a block with the open context stores exactly the given bytes at the given offset of
  the image being received, in pieces the service accepts, and returns their number (as a signed
  16-bit number); or it reports failure with -1. Nothing else changes.
\<close>

theorem otaPal_WriteBlock_correct:
  assumes "fwu_service env img" and "pxSystemContext s = Some p" and "xOTAImageID s \<noteq> TFM_FWU_INVALID_IMAGE_ID"
    and "unat n \<le> length d" and "unat ofs + unat n < 2 ^ 32"
  shows "\<exists>r w'. otaPal_WriteBlock env (Some p) ofs d n s = Some (r, s\<lparr>fwu := w'\<rparr>) \<and>
    (r = -1 \<or> r = sint (of_nat (unat n) :: 16 word) \<and>
       img w' = (img (fwu s))(xOTAImageID s :=
         overlay (unat ofs) (take (unat n) d) (img (fwu s) (xOTAImageID s))))"
proof -
  from fwu_service.write_blocks_correct [OF assms(1), of 0 "unat n" d ofs "xOTAImageID s" "fwu s"] assms(4,5)
  obtain r w' where "write_blocks env (xOTAImageID s) ofs d (unat n) 0 (fwu s) = Some (r, w')"
    "r = None \<or> r = Some (unat n) \<and> img w' = (img (fwu s))(xOTAImageID s :=
         overlay (unat ofs) (take (unat n) d) (img (fwu s) (xOTAImageID s)))" by auto
  with assms(2,3) show ?thesis
    by (intro exI [of _ "case r of None \<Rightarrow> -1 | Some k \<Rightarrow> sint (of_nat k :: 16 word)"] exI [of _ w'])
      (auto simp: otaPal_WriteBlock_def)
qed

text \<open>A start state with one open transfer, for the examples.\<close>

definition demo_context :: file_context where
  "demo_context = \<lparr>pFilePath = Some (c_literal ''non_secure image''),
     pSignature = Some (der_signature (replicate 32 0) (replicate 32 0)), pFile = False\<rparr>"

definition demo_open :: "(u32 \<Rightarrow> nat \<rightharpoonup> u8) ota" where
  "demo_open = (ota_start [7 \<mapsto> demo_context\<lparr>pFile := True\<rparr>] (\<lambda>_. Map.empty))
     \<lparr>pxSystemContext := Some 7,
      xOTAImageID := FWU_CALCULATE_IMAGE_ID FWU_IMAGE_ID_SLOT_STAGE FWU_IMAGE_TYPE_NONSECURE 0\<rparr>"

lemma demo_image_id: "FWU_CALCULATE_IMAGE_ID FWU_IMAGE_ID_SLOT_STAGE FWU_IMAGE_TYPE_NONSECURE 0 = 0x102"
  by code_simp

theorem otaPal_WriteBlock_correct_witness:
  "\<exists>r w'. otaPal_WriteBlock reference_ota (Some 7) 16 [1, 2, 3] 3 demo_open = Some (r, demo_open\<lparr>fwu := w'\<rparr>) \<and>
    (r = -1 \<or> r = sint (of_nat (unat (3::u32)) :: 16 word) \<and>
       w' = (\<lambda>_. Map.empty)(0x102 := overlay (unat (16::u32)) (take (unat (3::u32)) [1, 2, 3]) Map.empty))"
proof -
  have "pxSystemContext demo_open = Some 7" "xOTAImageID demo_open \<noteq> TFM_FWU_INVALID_IMAGE_ID"
    "unat (3::u32) \<le> length [1, 2, 3 :: u8]" "unat (16::u32) + unat (3::u32) < 2 ^ 32"
    "xOTAImageID demo_open = 0x102" "fwu demo_open = (\<lambda>_. Map.empty)"
    by (simp_all add: demo_open_def demo_image_id TFM_FWU_INVALID_IMAGE_ID_def ota_start_def)
  with otaPal_WriteBlock_correct [OF reference_fwu.fwu_service_axioms this(1-4)] show ?thesis by simp
qed

subsection \<open>Closing a file\<close>

text \<open>
  C12: closing the received file succeeds exactly when the service knows the image and verifies,
  with the provisioned key, the raw form of the context's signature against the digest the
  service computed for that image; nothing but the signature buffer changes.
\<close>

theorem otaPal_CloseFile_authenticates:
  assumes "contexts s p = Some c" and "pSignature c = Some (der_signature r t @ rest)"
    and "length r = 32" and "length t = 32" and "length (ucECDSARAWSignature s) = 64"
    and "psa_fwu_query env (xOTAImageID s) (fwu s) = (st, info)"
  shows "\<exists>res raw. otaPal_CloseFile env (Some p) s = Some (res, s\<lparr>ucECDSARAWSignature := raw\<rparr>) \<and>
    (res = OTA_PAL_COMBINE_ERR OtaPalSuccess 0 \<longleftrightarrow>
       st = PSA_SUCCESS \<and>
       psa_verify_hash env OTA_SIGNING_KEY_ID PSA_ALG_ECDSA_SHA_256 (idigest info) (r @ t) (fwu s) = PSA_SUCCESS)"
proof (cases "st = PSA_SUCCESS")
  case True
  have conv: "prvConvertToRawECDSASignature (Some (der_signature r t @ rest)) (Some (ucECDSARAWSignature s)) =
      Some (True, Some (r @ t))"
    using convert_signature [OF component_der_int(2) [OF assms(3)] component_der_int(2) [OF assms(4)] assms(5)]
      component_der_int(1) [OF assms(3)] component_der_int(1) [OF assms(4)]
    by (simp add: der_signature_def Let_def)
  show ?thesis using True assms conv
    by (intro exI [of _ "if psa_verify_hash env OTA_SIGNING_KEY_ID PSA_ALG_ECDSA_SHA_256 (idigest info) (r @ t) (fwu s) = PSA_SUCCESS
          then OTA_PAL_COMBINE_ERR OtaPalSuccess 0
          else OTA_PAL_COMBINE_ERR OtaPalSignatureCheckFailed (ota_sub_err env
            (psa_verify_hash env OTA_SIGNING_KEY_ID PSA_ALG_ECDSA_SHA_256 (idigest info) (r @ t) (fwu s)))"]
        exI [of _ "r @ t"])
      (simp add: otaPal_CloseFile_def otaPal_CheckSignature_def deref_def Let_def)
next
  case False
  with assms(6) show ?thesis
    by (intro exI [of _ "OTA_PAL_COMBINE_ERR OtaPalSignatureCheckFailed (ota_sub_err env st)"]
        exI [of _ "ucECDSARAWSignature s"])
      (simp add: otaPal_CloseFile_def otaPal_CheckSignature_def)
qed

theorem otaPal_CloseFile_authenticates_witness:
  "\<exists>raw. otaPal_CloseFile reference_ota (Some 7) demo_open =
     Some (OTA_PAL_COMBINE_ERR OtaPalSuccess 0, demo_open\<lparr>ucECDSARAWSignature := raw\<rparr>)"
proof -
  have pre: "contexts demo_open 7 = Some (demo_context\<lparr>pFile := True\<rparr>)"
    "pSignature (demo_context\<lparr>pFile := True\<rparr>) = Some (der_signature (replicate 32 0) (replicate 32 0) @ [])"
    "length (replicate 32 (0::u8)) = 32" "length (ucECDSARAWSignature demo_open) = 64"
    by (simp_all add: demo_open_def ota_start_def demo_context_def)
  obtain st info where q: "psa_fwu_query reference_ota (xOTAImageID demo_open) (fwu demo_open) = (st, info)"
    by fastforce
  then have ok: "st = PSA_SUCCESS" "psa_verify_hash reference_ota OTA_SIGNING_KEY_ID PSA_ALG_ECDSA_SHA_256
      (idigest info) (replicate 32 0 @ replicate 32 0) (fwu demo_open) = PSA_SUCCESS"
    by (auto simp: reference_ota_def)
  from otaPal_CloseFile_authenticates [OF pre(1,2,3,3,4) q] ok show ?thesis by auto
qed

text \<open>
  C8: whatever sequence of operations led to the current state, writing a block never changes an
  image outside the staging slot: the running image is out of reach.
\<close>

theorem ota_active_image_untouched:
  assumes "fwu_service env img" and "ota_reachable env cs w0 s"
    and "otaPal_WriteBlock env p ofs d n s = Some (r, s')"
    and "FWU_IMAGE_ID_GET_SLOT j \<noteq> ucast FWU_IMAGE_ID_SLOT_STAGE"
  shows "img (fwu s') j = img (fwu s) j"
proof -
  have inv: "ota_inv s" using assms(2) by (rule ota_reachable_inv)
  show ?thesis
  proof (cases "pxSystemContext s = None")
    case True
    with inv assms(3) show ?thesis by (auto simp: ota_inv_def otaPal_WriteBlock_def)
  next
    case False
    with inv have "j \<noteq> xOTAImageID s" using assms(4) by (auto simp: ota_inv_def)
    with assms(3) fwu_service.write_blocks_other [OF assms(1)] show ?thesis
      by (auto simp: otaPal_WriteBlock_def split: if_splits)
  qed
qed

lemma path_type_nonsecure: "path_type (c_literal ''non_secure image'') = Some (Some FWU_IMAGE_TYPE_NONSECURE)"
  by (simp add: path_type_def c_literal_def ascii_def mem_eq_def read_at_def of_char_def)

lemma demo_reachable: "ota_reachable reference_ota [7 \<mapsto> demo_context] (\<lambda>_. Map.empty) demo_open"
proof -
  let ?s = "ota_start [7 \<mapsto> demo_context] (\<lambda>_. Map.empty :: nat \<rightharpoonup> u8)"
  have "otaPal_CreateFileForRx (Some 7) ?s = Some (OTA_PAL_COMBINE_ERR OtaPalSuccess 0, demo_open)"
    by (simp add: otaPal_CreateFileForRx_def deref_def ota_start_def demo_open_def demo_context_def
        CalculatePSAImageID_def path_type_nonsecure)
  from create [OF start this] show ?thesis .
qed

theorem ota_active_image_untouched_witness:
  "\<exists>r s'. otaPal_WriteBlock reference_ota (Some 7) 0 [1, 2] 2 demo_open = Some (r, s') \<and>
     fwu s' 0x101 = Map.empty"
proof -
  have "pxSystemContext demo_open = Some 7" "fwu demo_open 0x101 = Map.empty"
    by (simp_all add: demo_open_def ota_start_def)
  moreover obtain r w' where "write_blocks reference_ota (xOTAImageID demo_open) 0 [1, 2] (unat (2::u32)) 0 (fwu demo_open) = Some (r, w')"
    using fwu_service.write_blocks_correct [OF reference_fwu.fwu_service_axioms, of 0 "unat (2::u32)" "[1, 2]" 0
        "xOTAImageID demo_open" "fwu demo_open"] by auto
  ultimately obtain r s' where w: "otaPal_WriteBlock reference_ota (Some 7) 0 [1, 2] 2 demo_open = Some (r, s')"
    by (fastforce simp: otaPal_WriteBlock_def demo_open_def ota_start_def)
  have "FWU_IMAGE_ID_GET_SLOT 0x101 \<noteq> ucast FWU_IMAGE_ID_SLOT_STAGE" by code_simp
  from ota_active_image_untouched [OF reference_fwu.fwu_service_axioms demo_reachable w this] w
    \<open>fwu demo_open 0x101 = Map.empty\<close> show ?thesis by auto
qed

text \<open>
  An image is made permanent only when no transfer is open, that is after the restart that
  installed it: accepting it succeeds exactly when the path names an image type and the service
  accepts the active image of that type, and no other request reaches the service.
\<close>

theorem otaPal_SetPlatformImageState_accept:
  assumes "contexts s p = Some c" and "pFilePath c = Some path" and "path_type path = Some ty"
  shows "\<exists>res. otaPal_SetPlatformImageState env (Some p) OtaImageStateAccepted s =
      Some (res, s\<lparr>fwu := (case (pxSystemContext s, ty) of
          (None, Some t) \<Rightarrow> snd (psa_fwu_accept env (FWU_CALCULATE_IMAGE_ID FWU_IMAGE_ID_SLOT_ACTIVE t 0) (fwu s))
        | _ \<Rightarrow> fwu s)\<rparr>) \<and>
    (res = OTA_PAL_COMBINE_ERR OtaPalSuccess 0 \<longleftrightarrow> pxSystemContext s = None \<and>
       (\<exists>t. ty = Some t \<and>
          fst (psa_fwu_accept env (FWU_CALCULATE_IMAGE_ID FWU_IMAGE_ID_SLOT_ACTIVE t 0) (fwu s)) = PSA_SUCCESS))"
  using assms
  by (auto simp: otaPal_SetPlatformImageState_def CalculatePSAImageID_def deref_def Let_def case_prod_beta
      split: option.split)

theorem otaPal_SetPlatformImageState_accept_witness:
  "\<exists>res. otaPal_SetPlatformImageState reference_ota (Some 7) OtaImageStateAccepted demo_open =
      Some (res, demo_open) \<and> res \<noteq> OTA_PAL_COMBINE_ERR OtaPalSuccess 0"
proof -
  have "contexts demo_open 7 = Some (demo_context\<lparr>pFile := True\<rparr>)" "pxSystemContext demo_open = Some 7"
    "pFilePath (demo_context\<lparr>pFile := True\<rparr>) = Some (c_literal ''non_secure image'')"
    by (simp_all add: demo_open_def ota_start_def demo_context_def)
  with otaPal_SetPlatformImageState_accept [OF this(1,3) path_type_nonsecure] show ?thesis by auto
qed

text \<open>
  The version check passes exactly when the active image can be queried and, if it is still
  pending, the image it replaced can be queried too and has a smaller version.
\<close>

theorem OtaPal_ImageVersionCheck_correct:
  assumes "psa_fwu_query env (FWU_CALCULATE_IMAGE_ID FWU_IMAGE_ID_SLOT_ACTIVE t 0) (fwu s) = (st_a, act)"
    and "psa_fwu_query env (FWU_CALCULATE_IMAGE_ID FWU_IMAGE_ID_SLOT_STAGE t 0) (fwu s) = (st_b, old)"
    and "\<And>a b c a' b' c'. unsignedVersion32 env a b c < unsignedVersion32 env a' b' c' \<longleftrightarrow>
      (a < a' \<or> a = a' \<and> (b < b' \<or> b = b' \<and> c < c'))"
  shows "OtaPal_ImageVersionCheck env t s \<longleftrightarrow> st_a = PSA_SUCCESS \<and>
    (istate act = PSA_IMAGE_PENDING_INSTALL \<longrightarrow> st_b = PSA_SUCCESS \<and>
      (iv_major old < iv_major act \<or> iv_major old = iv_major act \<and>
        (iv_minor old < iv_minor act \<or> iv_minor old = iv_minor act \<and> iv_revision old < iv_revision act)))"
  using assms(1,2)
  by (auto simp: OtaPal_ImageVersionCheck_def prvGetImageInfo_def prvCheckVersion_def assms(3))

lemma lex_number:
  fixes a b a' b' :: nat
  assumes "b < m" "b' < m"
  shows "a * m + b < a' * m + b' \<longleftrightarrow> (a < a' \<or> a = a' \<and> b < b')"
proof -
  have less: "x * m + y < x' * m + y'" if "x < x'" "y < m" for x y x' y'
  proof -
    have "Suc x * m \<le> x' * m" using that(1) by (intro mult_le_mono1) simp
    with that(2) show ?thesis by simp
  qed
  consider "a < a'" | "a = a'" | "a' < a" by linarith
  then show ?thesis
    by cases (use assms less [of a a' b b'] less [of a' a b' b] in auto)
qed

lemma lex_number3:
  fixes a b c a' b' c' :: nat
  assumes "b < 2 ^ 8" "c < 2 ^ 16" "b' < 2 ^ 8" "c' < 2 ^ 16"
  shows "a * 2 ^ 24 + b * 2 ^ 16 + c < a' * 2 ^ 24 + b' * 2 ^ 16 + c' \<longleftrightarrow>
    (a < a' \<or> a = a' \<and> (b < b' \<or> b = b' \<and> c < c'))"
proof -
  have split: "x * 2 ^ 24 + y * 2 ^ 16 + z = (x * 2 ^ 8 + y) * 2 ^ 16 + z" for x y z :: nat
    by simp
  have eq: "a * 2 ^ 8 + b = a' * 2 ^ 8 + b' \<longleftrightarrow> a = a' \<and> b = b'"
    using lex_number [OF assms(1,3), of a a'] lex_number [OF assms(3,1), of a' a]
    by (metis less_irrefl linorder_neqE_nat)
  show ?thesis
    unfolding split lex_number [OF assms(2,4)] lex_number [OF assms(1,3)] eq by blast
qed

lemma reference_version_order:
  "unsignedVersion32 reference_ota a b c < unsignedVersion32 reference_ota a' b' c' \<longleftrightarrow>
    (a < a' \<or> a = a' \<and> (b < b' \<or> b = b' \<and> c < c'))"
proof -
  have small: "unat (of_nat (unat x * 2 ^ 24 + unat y * 2 ^ 16 + unat z) :: u32) =
      unat x * 2 ^ 24 + unat y * 2 ^ 16 + unat z" for x y :: u8 and z :: u16
  proof -
    have "unat x < 2 ^ 8" "unat y < 2 ^ 8" "unat z < 2 ^ 16"
      using unsigned_less [of x] unsigned_less [of y] unsigned_less [of z] by simp_all
    then have "unat x * 2 ^ 24 + unat y * 2 ^ 16 + unat z < 2 ^ 32" by simp
    then show ?thesis by (simp only: unat_of_nat) simp
  qed
  have "unat b < 2 ^ 8" "unat c < 2 ^ 16" "unat b' < 2 ^ 8" "unat c' < 2 ^ 16"
    using unsigned_less [of b] unsigned_less [of c] unsigned_less [of b'] unsigned_less [of c'] by simp_all
  note lex = lex_number3 [OF this, of "unat a" "unat a'"]
  have "unsignedVersion32 reference_ota a b c < unsignedVersion32 reference_ota a' b' c' \<longleftrightarrow>
      unat a * 2 ^ 24 + unat b * 2 ^ 16 + unat c < unat a' * 2 ^ 24 + unat b' * 2 ^ 16 + unat c'"
    unfolding word_less_nat_alt reference_ota_def ota_env.simps small ..
  then show ?thesis unfolding lex by (simp add: word_less_nat_alt word_unat_eq_iff)
qed

theorem OtaPal_ImageVersionCheck_correct_witness:
  "OtaPal_ImageVersionCheck reference_ota FWU_IMAGE_TYPE_SECURE demo_open"
  using OtaPal_ImageVersionCheck_correct [of reference_ota FWU_IMAGE_TYPE_SECURE demo_open,
      OF _ _ reference_version_order]
  by (simp add: reference_ota_def PSA_IMAGE_INSTALLED_def PSA_IMAGE_PENDING_INSTALL_def)

text \<open>
  The path of a full image is compared with two longer constants first: in a buffer that ends
  with the terminator of the path the comparison reads beyond it.
\<close>

lemma CalculatePSAImageID_overread:
  assumes "contexts s p = Some c" and "pFilePath c = Some (c_literal ''full image'')"
  shows "CalculatePSAImageID slot (Some p) s = None"
  using assms by (simp add: CalculatePSAImageID_def deref_def path_type_def mem_eq_def read_at_def)

end
