(* ===== verification/PkiUtils.thy ===== *)
theory PkiUtils
  imports OtaPal
begin

text \<open>
  \<open>core_pki_utils.c\<close>: the two directions between the signature format of PKCS#11 (64 bytes, \<open>r\<close> and \<open>s\<close>) and
  the DER format of mbedTLS. Buffers are byte lists, \<open>NULL\<close> is \<open>None\<close>, the result code 0 or -1.
\<close>

definition FAILURE :: int where "FAILURE = -1"

definition copy_s_component :: "bytes \<Rightarrow> nat \<Rightarrow> bytes \<Rightarrow> (int \<times> bytes) option" where
  "copy_s_component pxMbedSignature pxNextLength pxSignaturePKCS = do {
     l \<leftarrow> read_at pxMbedSignature pxNextLength 1;
     let n = unat (hd l);
     if n = 33
     then do {
       s \<leftarrow> read_at pxMbedSignature (pxNextLength + 2) 32;
       sig \<leftarrow> write_at pxSignaturePKCS 32 s;
       Some (0, sig) }
     else if n \<le> 32
     then do {
       s \<leftarrow> read_at pxMbedSignature (pxNextLength + 1) n;
       sig \<leftarrow> write_at pxSignaturePKCS (64 - n) s;
       Some (0, sig) }
     else Some (FAILURE, pxSignaturePKCS) }"

definition PKI_mbedTLSSignatureToPkcs11Signature :: "bytes option \<Rightarrow> bytes option \<Rightarrow> (int \<times> bytes option) option" where
  "PKI_mbedTLSSignatureToPkcs11Signature pxSignaturePKCS pxMbedSignature =
     (case (pxSignaturePKCS, pxMbedSignature) of
        (Some sig, Some mbed) \<Rightarrow> do {
          l \<leftarrow> read_at mbed 3 1;
          let n = unat (hd l);
          sig \<leftarrow> write_at sig 0 (replicate 64 0);
          (rc, sig) \<leftarrow>
            (if n = 33
             then do {
               r \<leftarrow> read_at mbed 5 32;
               sig \<leftarrow> write_at sig 0 r;
               copy_s_component mbed (5 + 32 + 1) sig }
             else if n \<le> 32
             then do {
               r \<leftarrow> read_at mbed 4 n;
               sig \<leftarrow> write_at sig (32 - n) r;
               copy_s_component mbed (4 + n + 1) sig }
             else Some (FAILURE, sig));
          Some (rc, Some sig) }
      | _ \<Rightarrow> Some (FAILURE, pxSignaturePKCS))"

text \<open>
  Writing one component behind its tag: \<open>pos\<close> is the position of its length, \<open>c\<close> its 32 bytes. The result
  has the position behind it; a component whose first bit is set gets a leading zero, which the length of
  the sequence, byte 1, counts.
\<close>

definition put_component :: "bytes \<Rightarrow> nat \<Rightarrow> bytes \<Rightarrow> (bytes \<times> nat) option" where
  "put_component sig pos c =
     (if hd c AND 0x80 = 0x80
      then do {
        l \<leftarrow> read_at sig 1 1;
        sig \<leftarrow> write_at sig 1 [hd l + 1];
        sig \<leftarrow> write_at sig pos [0x21, 0];
        sig \<leftarrow> write_at sig (pos + 2) c;
        Some (sig, pos + 34) }
      else do {
        sig \<leftarrow> write_at sig pos [0x20];
        sig \<leftarrow> write_at sig (pos + 1) c;
        Some (sig, pos + 33) })"

definition PKI_pkcs11SignatureTombedTLSSignature ::
  "bytes option \<Rightarrow> nat option \<Rightarrow> (int \<times> bytes option \<times> nat option) option" where
  "PKI_pkcs11SignatureTombedTLSSignature pucSig pxSigLen =
     (case (pucSig, pxSigLen) of
        (Some sig, Some _) \<Rightarrow> do {
          ucTemp \<leftarrow> read_at sig 0 64;
          sig \<leftarrow> write_at sig 0 [0x30, 0x44, 0x02];
          (sig, pos) \<leftarrow> put_component sig 3 (take 32 ucTemp);
          sig \<leftarrow> write_at sig pos [0x02];
          (sig, pos) \<leftarrow> put_component sig (pos + 1) (drop 32 ucTemp);
          l \<leftarrow> read_at sig 1 1;
          Some (0, Some sig, Some (unat (hd l) + 2)) }
      | _ \<Rightarrow> Some (FAILURE, pucSig, pxSigLen))"


lemma copy_s_component: "copy_s_component enc p raw = map_option (\<lambda>(ok, raw). (if ok then 0 else FAILURE, raw)) (convert_S enc p raw)"
  unfolding copy_s_component_def convert_S_def Let_def by (auto split: bind_splits simp del: read_at_Some write_at_Some)

lemma PKI_mbedTLSSignatureToPkcs11Signature_eq:
  "PKI_mbedTLSSignatureToPkcs11Signature pxSignaturePKCS pxMbedSignature =
     map_option (\<lambda>(ok, raw). (if ok then 0 else FAILURE, raw)) (prvConvertToRawECDSASignature pxMbedSignature pxSignaturePKCS)"
proof (cases "pxSignaturePKCS = None \<or> pxMbedSignature = None")
  case True
  then show ?thesis
    by (auto simp: PKI_mbedTLSSignatureToPkcs11Signature_def prvConvertToRawECDSASignature_def split: option.splits)
next
  case False
  then obtain sig mbed where args: "pxSignaturePKCS = Some sig" "pxMbedSignature = Some mbed" by auto
  let ?G = "\<lambda>(ok, raw :: bytes). (if ok then 0 else FAILURE, raw)"
  have copy: "copy_s_component mbed p = (\<lambda>raw. map_option ?G (convert_S mbed p raw))" for p
    by (rule ext) (rule copy_s_component)
  have inner: "(if unat (hd l) = 33
      then read_at mbed 5 32 \<bind> (\<lambda>r. write_at raw 0 r \<bind> copy_s_component mbed (5 + 32 + 1))
      else if unat (hd l) \<le> 32
      then read_at mbed 4 (unat (hd l)) \<bind> (\<lambda>r. write_at raw (32 - unat (hd l)) r \<bind> copy_s_component mbed (4 + unat (hd l) + 1))
      else Some (FAILURE, raw)) =
    map_option ?G (if unat (hd l) = 33
      then read_at mbed 5 32 \<bind> (\<lambda>r. write_at raw 0 r \<bind> convert_S mbed (5 + 32 + 1))
      else if unat (hd l) \<le> 32
      then read_at mbed 4 (unat (hd l)) \<bind> (\<lambda>r. write_at raw (32 - unat (hd l)) r \<bind> convert_S mbed (4 + unat (hd l) + 1))
      else Some (False, raw))" for l :: bytes and raw
    by (simp add: copy map_option_bind comp_def del: read_at_Some write_at_Some)
  have G: "(case ?G x of (rc, sig) \<Rightarrow> Some (rc, Some sig)) =
      map_option (\<lambda>(ok, raw). (if ok then 0 else FAILURE, raw)) (case x of (ok, raw) \<Rightarrow> Some (ok, Some raw))" for x
    by (cases x) simp
  show ?thesis
    unfolding args PKI_mbedTLSSignatureToPkcs11Signature_def prvConvertToRawECDSASignature_def ECDSA_SHA256_RAW_SIGNATURE_LENGTH_def
      option.case case_prod_conv Let_def inner map_option_bind bind_map_option comp_def G
    by simp
qed

text \<open>A component as an integer of 32 or, when its first bit is set, 33 bytes.\<close>

definition fixed_int :: "bytes \<Rightarrow> bytes" where
  "fixed_int c = (if hd c AND 0x80 = 0x80 then 0 # c else c)"

definition fixed_signature :: "bytes \<Rightarrow> bytes \<Rightarrow> bytes" where
  "fixed_signature r s = [0x30, of_nat (4 + length (fixed_int r) + length (fixed_int s)), 2, of_nat (length (fixed_int r))] @
     fixed_int r @ [2, of_nat (length (fixed_int s))] @ fixed_int s"

lemma write_at_append: "length d \<le> length z \<Longrightarrow> n = length xs \<Longrightarrow> write_at (xs @ z) n d = Some (xs @ d @ drop (length d) z)"
  by (simp add: write_at_def)

lemma put_component_step:
  assumes "length c = 32" and "length (fixed_int c) < length z" and "n = 2 + length ps"
  shows "put_component (a # b # ps @ z) n c =
    Some (a # (b + of_nat (length (fixed_int c) - 32)) # ps @ of_nat (length (fixed_int c)) # fixed_int c @ drop (1 + length (fixed_int c)) z,
      n + 1 + length (fixed_int c))"
proof (cases "hd c AND 0x80 = 0x80")
  case True
  with assms(1,2) have z: "34 \<le> length z" by (simp add: fixed_int_def)
  have "write_at (a # b # ps @ z) 1 [b + 1] = Some (a # (b + 1) # ps @ z)" by (simp add: write_at_def)
  moreover have "write_at (a # (b + 1) # ps @ z) n [0x21, 0] = Some (a # (b + 1) # ps @ [0x21, 0] @ drop 2 z)"
    using write_at_append [of "[0x21, 0]" z n "a # (b + 1) # ps"] z assms(3) by simp
  moreover have "write_at (a # (b + 1) # ps @ [0x21, 0] @ drop 2 z) (n + 2) c = Some (a # (b + 1) # ps @ [0x21, 0] @ c @ drop 34 z)"
    using write_at_append [of c "drop 2 z" "n + 2" "a # (b + 1) # ps @ [0x21, 0]"] z assms(1,3) by simp
  ultimately show ?thesis
    using True assms(1) by (simp add: put_component_def fixed_int_def read_at_def del: read_at_Some write_at_Some)
next
  case False
  with assms(1,2) have z: "33 \<le> length z" by (simp add: fixed_int_def)
  have "write_at (a # b # ps @ z) n [0x20] = Some (a # b # ps @ [0x20] @ drop 1 z)"
    using write_at_append [of "[0x20]" z n "a # b # ps"] z assms(3) by simp
  moreover have "write_at (a # b # ps @ [0x20] @ drop 1 z) (n + 1) c = Some (a # b # ps @ [0x20] @ c @ drop 33 z)"
    using write_at_append [of c "drop 1 z" "n + 1" "a # b # ps @ [0x20]"] z assms(1,3) by simp
  ultimately show ?thesis
    using False assms(1) by (simp add: put_component_def fixed_int_def del: write_at_Some)
qed

lemma length_fixed_int: "length c = 32 \<Longrightarrow> length (fixed_int c) = (if hd c AND 0x80 = 0x80 then 33 else 32)"
  by (simp add: fixed_int_def)

lemma encode_signature:
  assumes "length r = 32" and "length s = 32" and "length (fixed_signature r s) \<le> length sig" and "take 64 sig = r @ s"
  shows "PKI_pkcs11SignatureTombedTLSSignature (Some sig) (Some n) =
    Some (0, Some (fixed_signature r s @ drop (length (fixed_signature r s)) sig), Some (length (fixed_signature r s)))"
proof -
  define lr ls where "lr = length (fixed_int r)" and "ls = length (fixed_int s)"
  have l: "length (fixed_signature r s) = 6 + lr + ls" by (simp add: fixed_signature_def lr_def ls_def)
  with assms(3) have sz: "6 + lr + ls \<le> length sig" by simp
  have dims: "lr = 32 \<or> lr = 33" "ls = 32 \<or> ls = 33"
    using length_fixed_int [OF assms(1)] length_fixed_int [OF assms(2)] by (simp_all add: lr_def ls_def)
  have rd: "read_at sig 0 64 = Some (r @ s)" using sz assms(4) dims by (auto simp: read_at_def)
  have "3 \<le> length sig" using sz by arith
  then obtain a b c z where sig: "sig = a # b # c # z"
    by (auto simp: numeral_3_eq_3 Suc_le_length_iff)
  have w0: "write_at sig 0 [0x30, 0x44, 0x02] = Some (0x30 # 0x44 # [2] @ z)"
    by (simp add: sig write_at_def)
  let ?b1 = "0x44 + of_nat (lr - 32) :: u8"
  have "length (fixed_int r) < length z" using sz sig by (simp add: lr_def)
  from put_component_step [OF assms(1) this, of 3 "[2]" "0x30" "0x44"]
  have p1: "put_component (0x30 # 0x44 # [2] @ z) 3 r =
      Some (0x30 # ?b1 # [2] @ of_nat lr # fixed_int r @ drop (1 + lr) z, 4 + lr)"
    unfolding lr_def [symmetric] by simp
  have "length [2 :: u8] \<le> length (drop (1 + lr) z)" using sz sig by simp
  from write_at_append [OF this, of "4 + lr" "0x30 # ?b1 # [2] @ of_nat lr # fixed_int r"]
  have w1: "write_at (0x30 # ?b1 # [2] @ of_nat lr # fixed_int r @ drop (1 + lr) z) (4 + lr) [2] =
      Some (0x30 # ?b1 # ([2, of_nat lr] @ fixed_int r @ [2]) @ drop (2 + lr) z)"
    by (simp add: lr_def del: write_at_Some)
  have "length (fixed_int s) < length (drop (2 + lr) z)" using sz sig by (simp add: ls_def)
  from put_component_step [OF assms(2) this, of "5 + lr" "[2, of_nat lr] @ fixed_int r @ [2]" "0x30" ?b1]
  have p2: "put_component (0x30 # ?b1 # ([2, of_nat lr] @ fixed_int r @ [2]) @ drop (2 + lr) z) (5 + lr) s =
      Some (0x30 # (?b1 + of_nat (ls - 32)) # ([2, of_nat lr] @ fixed_int r @ [2]) @ of_nat ls # fixed_int s @
        drop (1 + ls) (drop (2 + lr) z), 6 + lr + ls)"
    unfolding lr_def [symmetric] ls_def [symmetric] by (simp add: lr_def [symmetric])
  have len: "?b1 + of_nat (ls - 32) = of_nat (4 + lr + ls)" "unat (of_nat (4 + lr + ls) :: u8) = 4 + lr + ls"
    using dims by auto
  have tail: "drop (1 + ls) (drop (2 + lr) z) = drop (6 + lr + ls) sig"
    unfolding sig by (simp add: eval_nat_numeral ac_simps)
  have rs: "take 32 (r @ s) = r" "drop 32 (r @ s) = s" using assms(1) by simp_all
  have five: "4 + lr + 1 = 5 + lr" by simp
  have second: "read_at (x # y # w) 1 1 = Some [y]" for x y :: u8 and w by (simp add: read_at_def)
  show ?thesis
    unfolding PKI_pkcs11SignatureTombedTLSSignature_def option.case case_prod_conv rd Option.bind.simps w0 rs p1 w1 five p2 len tail
      second list.sel l
    by (simp add: fixed_signature_def lr_def ls_def len [unfolded lr_def ls_def])
qed

lemma component_fixed_int: "length c = 32 \<Longrightarrow> component (fixed_int c) = c"
  by (simp add: component_def fixed_int_def)

lemma decode_signature:
  assumes "length r = 32" and "length s = 32" and "length raw = 64"
  shows "PKI_mbedTLSSignatureToPkcs11Signature (Some raw) (Some (fixed_signature r s @ rest)) = Some (0, Some (r @ s))"
proof -
  have "length (fixed_int r) \<le> 33" "length (fixed_int s) \<le> 33" using assms(1,2) by (simp_all add: length_fixed_int)
  from convert_signature [OF this assms(3)] show ?thesis
    using component_fixed_int [OF assms(1)] component_fixed_int [OF assms(2)]
    by (simp add: PKI_mbedTLSSignatureToPkcs11Signature_eq fixed_signature_def)
qed

text \<open>
  A signature of 64 bytes in a buffer of at least 72 survives the way to DER and back: the encoder writes the
  sequence of the two integers, reports its length, leaves the bytes behind it alone, and the decoder gives
  the same 64 bytes.
\<close>

theorem PKI_signature_roundtrip:
  assumes "length r = 32" and "length s = 32" and "72 \<le> length sig" and "take 64 sig = r @ s" and "length raw = 64"
  shows "\<exists>sig' n. PKI_pkcs11SignatureTombedTLSSignature (Some sig) (Some n0) = Some (0, Some sig', Some n) \<and>
    take n sig' = fixed_signature r s \<and> drop n sig' = drop n sig \<and>
    PKI_mbedTLSSignatureToPkcs11Signature (Some raw) (Some sig') = Some (0, Some (r @ s))"
proof -
  have "length (fixed_signature r s) \<le> length sig"
    using length_fixed_int [OF assms(1)] length_fixed_int [OF assms(2)] assms(3) by (simp add: fixed_signature_def)
  from encode_signature [OF assms(1,2) this assms(4)] decode_signature [OF assms(1,2,5)] show ?thesis
    by auto
qed

theorem PKI_signature_roundtrip_witness:
  "\<exists>sig' n. PKI_pkcs11SignatureTombedTLSSignature (Some (replicate 32 200 @ replicate 32 1 @ replicate 8 9)) (Some 64) =
      Some (0, Some sig', Some n) \<and>
    take n sig' = fixed_signature (replicate 32 200) (replicate 32 1) \<and>
    drop n sig' = drop n (replicate 32 200 @ replicate 32 1 @ replicate 8 9) \<and>
    PKI_mbedTLSSignatureToPkcs11Signature (Some (replicate 64 7)) (Some sig') = Some (0, Some (replicate 32 200 @ replicate 32 1))"
  by (rule PKI_signature_roundtrip) simp_all

text \<open>
  The conversion from DER is the one of the OTA platform layer, whose copy it is: the same bytes are
  written for every input, the result code 0 stands for true and -1 for false, and both have no meaning for
  the same inputs.
\<close>

theorem PKI_mbedTLSSignatureToPkcs11Signature_equivalence:
  "PKI_mbedTLSSignatureToPkcs11Signature pxSignaturePKCS pxMbedSignature =
     map_option (\<lambda>(ok, raw). (if ok then 0 else FAILURE, raw)) (prvConvertToRawECDSASignature pxMbedSignature pxSignaturePKCS)"
  by (rule PKI_mbedTLSSignatureToPkcs11Signature_eq)

text \<open>The lengths of a short number: the encoder does not drop leading zero bytes, as DER asks.\<close>

lemma fixed_int_not_minimal: "fixed_int (replicate 31 0 @ [1]) = replicate 31 0 @ [1] \<and> der_int (replicate 31 0 @ [1]) = [1]"
  by code_simp

end
