(* ===== verification/BlockPools.thy ===== *)
theory BlockPools
  imports Prelude
begin

text \<open>
  The fixed pools the program allocates from: the static memory of iot_static_memory_common.c and
  iot_taskpool_static_memory.c, which keeps a flag for every block, and the MQTT agent's command
  pool (freertos_command_pool.c, freertos_agent_message.c), which keeps the free blocks in a
  queue. Both provide the interface \<open>block_pool\<close>.
\<close>

subsection \<open>What a pool of blocks promises\<close>

text \<open>\<open>n\<close> requests in a row, each made by \<open>get\<close>.\<close>

fun get_many :: "('s \<Rightarrow> (nat option \<times> 's) option) \<Rightarrow> nat \<Rightarrow> 's \<Rightarrow> (nat option list \<times> 's) option" where
  "get_many get 0 s = Some ([], s)"
| "get_many get (Suc n) s = do {
     (r, s) \<leftarrow> get s;
     (rs, s) \<leftarrow> get_many get n s;
     Some (r # rs, s) }"

text \<open>
  \<open>used s\<close> is the set of the blocks that are handed out, numbered below \<open>cap\<close>.
\<close>

locale block_pool =
  fixes inv :: "'s \<Rightarrow> bool"
    and used :: "'s \<Rightarrow> nat set"
    and cap :: nat
    and get :: "'s \<Rightarrow> (nat option \<times> 's) option"
    and put :: "nat \<Rightarrow> 's \<Rightarrow> 's option"
  assumes used_below: "inv s \<Longrightarrow> used s \<subseteq> {..<cap}"
    and get_free: "inv s \<Longrightarrow> used s \<noteq> {..<cap} \<Longrightarrow>
      \<exists>i s'. get s = Some (Some i, s') \<and> inv s' \<and> i < cap \<and> i \<notin> used s \<and> used s' = insert i (used s)"
    and get_full: "inv s \<Longrightarrow> used s = {..<cap} \<Longrightarrow> get s = Some (None, s)"
    and put_used: "inv s \<Longrightarrow> i \<in> used s \<Longrightarrow> \<exists>s'. put i s = Some s' \<and> inv s' \<and> used s' = used s - {i}"
begin

lemma finite_used: "inv s \<Longrightarrow> finite (used s)"
  using used_below finite_subset by blast

lemma card_used: "inv s \<Longrightarrow> card (used s) \<le> cap"
  using used_below card_mono [of "{..<cap}" "used s"] by fastforce

lemma full_iff: "inv s \<Longrightarrow> used s = {..<cap} \<longleftrightarrow> card (used s) = cap"
  using used_below card_subset_eq [of "{..<cap}" "used s"] by fastforce

text \<open>A request is met exactly when not all blocks are out.\<close>

lemma get_iff:
  assumes "inv s" and "get s = Some (r, s')"
  shows "(r \<noteq> None) = (card (used s) < cap)"
  using assms get_free [of s] get_full [of s] full_iff [of s] card_used [of s] by fastforce

text \<open>
  Requests in a row hand out distinct blocks, none of them in use, until all are out; after
  that they are refused.
\<close>

lemma get_many_correct:
  assumes "inv s"
  shows "\<exists>is m s'. get_many get n s = Some (map Some is @ replicate m None, s') \<and> inv s' \<and>
    distinct is \<and> set is \<inter> used s = {} \<and> used s' = used s \<union> set is \<and>
    length is = min n (cap - card (used s)) \<and> m = n - length is"
  using assms
proof (induction n arbitrary: s)
  case (Suc n)
  show ?case
  proof (cases "used s = {..<cap}")
    case True
    with Suc.prems get_full have g: "get s = Some (None, s)" by blast
    have c: "card (used s) = cap" using True by simp
    from Suc.IH [OF Suc.prems] c obtain "is" m s' where
      "get_many get n s = Some (map Some is @ replicate m None, s')" "is = []" "m = n" "inv s'" "used s' = used s"
      by auto
    with g c show ?thesis
      by (intro exI [of _ "[]"] exI [of _ "Suc n"] exI [of _ s']) simp
  next
    case False
    from get_free [OF Suc.prems False] obtain i s1 where g: "get s = Some (Some i, s1)" "inv s1"
      "i < cap" "i \<notin> used s" "used s1 = insert i (used s)" by blast
    have c: "card (used s1) = Suc (card (used s))" using g finite_used [OF Suc.prems] by simp
    have lt: "card (used s) < cap" using False full_iff [OF Suc.prems] card_used [OF Suc.prems] by simp
    from Suc.IH [OF g(2)] obtain "is" m s' where r: "get_many get n s1 = Some (map Some is @ replicate m None, s')"
      "inv s'" "distinct is" "set is \<inter> used s1 = {}" "used s' = used s1 \<union> set is"
      "length is = min n (cap - card (used s1))" "m = n - length is" by blast
    with g c lt show ?thesis
      by (intro exI [of _ "i # is"] exI [of _ m] exI [of _ s']) auto
  qed
qed simp

text \<open>A block that is returned can be handed out again.\<close>

lemma put_get:
  assumes "inv s" and "i \<in> used s"
  shows "\<exists>s1 j s2. put i s = Some s1 \<and> get s1 = Some (Some j, s2) \<and> j \<notin> used s - {i}"
proof -
  from put_used [OF assms] obtain s1 where p: "put i s = Some s1" "inv s1" "used s1 = used s - {i}" by blast
  moreover have "used s1 \<noteq> {..<cap}" using p(3) assms used_below by blast
  ultimately show ?thesis using get_free [of s1] by blast
qed

end

subsection \<open>iot_static_memory_common.c\<close>

text \<open>
  A pool is its flags and its memory. A pointer into the pool is its offset from the pool's first
  byte; the functions are given no other pointers here.
\<close>

record pool =
  inUse :: "bool list"
  blocks :: bytes

text \<open>The search loop from index \<open>i\<close>; the result is the index found or -1.\<close>

function find_free :: "bool list \<Rightarrow> nat \<Rightarrow> nat \<Rightarrow> (int \<times> bool list) option" where
  "find_free pInUse limit i =
     (if i < limit
      then if i < length pInUse
           then if \<not> pInUse ! i then Some (int i, pInUse[i := True])
                else find_free pInUse limit (Suc i)
           else None
      else Some (-1, pInUse))"
  by pat_completeness auto
termination by (relation "measure (\<lambda>(p, limit, i). limit - i)") auto

declare find_free.simps [simp del]

definition IotStaticMemory_FindFree :: "bool list \<Rightarrow> nat \<Rightarrow> (int \<times> bool list) option" where
  "IotStaticMemory_FindFree pInUse limit = find_free pInUse limit 0"

text \<open>
  The loop that looks for the block at offset \<open>ptr\<close>: a block that is found in use is released,
  anything else is left alone.
\<close>

function return_in_use :: "nat \<Rightarrow> bool list \<Rightarrow> nat \<Rightarrow> nat \<Rightarrow> nat \<Rightarrow> bool list option" where
  "return_in_use ptr pInUse limit elementSize i =
     (if i < limit
      then if elementSize * i = ptr
           then if i < length pInUse
                then if pInUse ! i then Some (pInUse[i := False])
                     else return_in_use ptr pInUse limit elementSize (Suc i)
                else None
           else return_in_use ptr pInUse limit elementSize (Suc i)
      else Some pInUse)"
  by pat_completeness auto
termination by (relation "measure (\<lambda>(ptr, p, limit, e, i). limit - i)") auto

declare return_in_use.simps [simp del]

text \<open>The memory is cleared before the pointer is looked up.\<close>

definition IotStaticMemory_ReturnInUse :: "nat \<Rightarrow> nat \<Rightarrow> nat \<Rightarrow> pool \<Rightarrow> pool option" where
  "IotStaticMemory_ReturnInUse ptr limit elementSize p = do {
     mem \<leftarrow> write_at (blocks p) ptr (replicate elementSize 0);
     flags \<leftarrow> return_in_use ptr (inUse p) limit elementSize 0;
     Some (p\<lparr>blocks := mem, inUse := flags\<rparr>) }"

text \<open>
  The allocation functions differ in the pool and in the test of the size: message buffers take
  any size up to the block size, the task pool's objects exactly theirs.
\<close>

definition malloc_from :: "bool \<Rightarrow> nat \<Rightarrow> nat \<Rightarrow> pool \<Rightarrow> (nat option \<times> pool) option" where
  "malloc_from size_ok limit elementSize p =
     (if size_ok
      then do {
        (freeIndex, flags) \<leftarrow> IotStaticMemory_FindFree (inUse p) limit;
        Some (if freeIndex \<noteq> -1 then Some (elementSize * nat freeIndex) else None, p\<lparr>inUse := flags\<rparr>) }
      else Some (None, p))"

definition Iot_MallocMessageBuffer :: "nat \<Rightarrow> nat \<Rightarrow> nat \<Rightarrow> pool \<Rightarrow> (nat option \<times> pool) option" where
  "Iot_MallocMessageBuffer IOT_MESSAGE_BUFFERS IOT_MESSAGE_BUFFER_SIZE size_t p =
     malloc_from (size_t \<le> IOT_MESSAGE_BUFFER_SIZE) IOT_MESSAGE_BUFFERS IOT_MESSAGE_BUFFER_SIZE p"

definition Iot_FreeMessageBuffer :: "nat \<Rightarrow> nat \<Rightarrow> nat \<Rightarrow> pool \<Rightarrow> pool option" where
  "Iot_FreeMessageBuffer IOT_MESSAGE_BUFFERS IOT_MESSAGE_BUFFER_SIZE ptr p =
     IotStaticMemory_ReturnInUse ptr IOT_MESSAGE_BUFFERS IOT_MESSAGE_BUFFER_SIZE p"

subsection \<open>iot_taskpool_static_memory.c\<close>

definition IotTaskPool_MallocTaskPool :: "nat \<Rightarrow> nat \<Rightarrow> nat \<Rightarrow> pool \<Rightarrow> (nat option \<times> pool) option" where
  "IotTaskPool_MallocTaskPool IOT_TASKPOOLS sizeof_taskPool size_t p =
     malloc_from (size_t = sizeof_taskPool) IOT_TASKPOOLS sizeof_taskPool p"

definition IotTaskPool_FreeTaskPool :: "nat \<Rightarrow> nat \<Rightarrow> nat \<Rightarrow> pool \<Rightarrow> pool option" where
  "IotTaskPool_FreeTaskPool IOT_TASKPOOLS sizeof_taskPool ptr p =
     IotStaticMemory_ReturnInUse ptr IOT_TASKPOOLS sizeof_taskPool p"

definition IotTaskPool_MallocJob :: "nat \<Rightarrow> nat \<Rightarrow> nat \<Rightarrow> pool \<Rightarrow> (nat option \<times> pool) option" where
  "IotTaskPool_MallocJob IOT_TASKPOOL_JOBS_RECYCLE_LIMIT sizeof_job size_t p =
     malloc_from (size_t = sizeof_job) IOT_TASKPOOL_JOBS_RECYCLE_LIMIT sizeof_job p"

definition IotTaskPool_FreeJob :: "nat \<Rightarrow> nat \<Rightarrow> nat \<Rightarrow> pool \<Rightarrow> pool option" where
  "IotTaskPool_FreeJob IOT_TASKPOOL_JOBS_RECYCLE_LIMIT sizeof_job ptr p =
     IotStaticMemory_ReturnInUse ptr IOT_TASKPOOL_JOBS_RECYCLE_LIMIT sizeof_job p"

definition IotTaskPool_MallocTimerEvent :: "nat \<Rightarrow> nat \<Rightarrow> nat \<Rightarrow> pool \<Rightarrow> (nat option \<times> pool) option" where
  "IotTaskPool_MallocTimerEvent IOT_TASKPOOL_JOBS_RECYCLE_LIMIT sizeof_timerEvent size_t p =
     malloc_from (size_t = sizeof_timerEvent) IOT_TASKPOOL_JOBS_RECYCLE_LIMIT sizeof_timerEvent p"

definition IotTaskPool_FreeTimerEvent :: "nat \<Rightarrow> nat \<Rightarrow> nat \<Rightarrow> pool \<Rightarrow> pool option" where
  "IotTaskPool_FreeTimerEvent IOT_TASKPOOL_JOBS_RECYCLE_LIMIT sizeof_timerEvent ptr p =
     IotStaticMemory_ReturnInUse ptr IOT_TASKPOOL_JOBS_RECYCLE_LIMIT sizeof_timerEvent p"

subsection \<open>The static pools keep the promise\<close>

definition pool_inv :: "nat \<Rightarrow> nat \<Rightarrow> pool \<Rightarrow> bool" where
  "pool_inv limit e p \<longleftrightarrow> length (inUse p) = limit \<and> length (blocks p) = limit * e \<and> limit < 2 ^ 31"

definition pool_used :: "pool \<Rightarrow> nat set" where
  "pool_used p = {i. i < length (inUse p) \<and> inUse p ! i}"

lemma find_free_correct:
  assumes "length u = limit" and "\<forall>j < i. j < limit \<longrightarrow> u ! j"
  shows "(\<exists>k < limit. \<not> u ! k \<and> find_free u limit i = Some (int k, u[k := True])) \<or>
    (\<forall>k < limit. u ! k) \<and> find_free u limit i = Some (-1, u)"
  using assms
proof (induction u limit i rule: find_free.induct)
  case (1 u limit i)
  show ?case
  proof (cases "i < limit \<and> u ! i")
    case True
    with 1 have "\<forall>j < Suc i. j < limit \<longrightarrow> u ! j" by (auto simp: less_Suc_eq)
    with 1 True show ?thesis by (subst (1 2) find_free.simps) simp
  next
    case False
    with 1(2,3) show ?thesis by (subst (1 2) find_free.simps) auto
  qed
qed

lemma return_in_use_past:
  assumes "0 < e" and "k < i"
  shows "return_in_use (e * k) u limit e i = Some u"
  using assms(2)
proof (induction "limit - i" arbitrary: i)
  case 0
  then show ?case by (subst return_in_use.simps) simp
next
  case (Suc x)
  then show ?case using assms(1) by (subst return_in_use.simps) simp
qed

lemma return_in_use_correct:
  assumes "length u = limit" and "0 < e" and "k < limit" and "i \<le> k"
  shows "return_in_use (e * k) u limit e i = Some (u[k := False])"
  using assms(4)
proof (induction "k - i" arbitrary: i)
  case 0
  then have "i = k" by simp
  moreover have "u[k := False] = u" if "\<not> u ! k" using that by (metis (full_types) list_update_id)
  ultimately show ?case using assms return_in_use_past [of e k "Suc k" u limit]
    by (subst return_in_use.simps) simp
next
  case (Suc x)
  then show ?case using assms by (subst return_in_use.simps) simp
qed

text \<open>
  The operations of one pool in the form of the interface: blocks by number instead of address.
\<close>

definition pool_get :: "nat \<Rightarrow> nat \<Rightarrow> pool \<Rightarrow> (nat option \<times> pool) option" where
  "pool_get limit e p = map_option (\<lambda>(r, p). (map_option (\<lambda>ptr. ptr div e) r, p)) (malloc_from True limit e p)"

definition pool_put :: "nat \<Rightarrow> nat \<Rightarrow> nat \<Rightarrow> pool \<Rightarrow> pool option" where
  "pool_put limit e i p = IotStaticMemory_ReturnInUse (e * i) limit e p"

lemma malloc_from_correct:
  assumes "pool_inv limit e p"
  shows "(pool_used p \<noteq> {..<limit} \<longrightarrow> (\<exists>i. i < limit \<and> i \<notin> pool_used p \<and>
      malloc_from True limit e p = Some (Some (e * i), p\<lparr>inUse := (inUse p)[i := True]\<rparr>))) \<and>
    (pool_used p = {..<limit} \<longrightarrow> malloc_from True limit e p = Some (None, p))"
proof -
  have len: "length (inUse p) = limit" using assms by (simp add: pool_inv_def)
  then have full: "(pool_used p = {..<limit}) = (\<forall>k < limit. inUse p ! k)" by (auto simp: pool_used_def)
  from find_free_correct [OF len, of 0] consider
      k where "k < limit" "\<not> inUse p ! k" "find_free (inUse p) limit 0 = Some (int k, (inUse p)[k := True])"
    | "\<forall>k < limit. inUse p ! k" "find_free (inUse p) limit 0 = Some (-1, inUse p)" by auto
  then show ?thesis
  proof cases
    case (1 k)
    moreover from 1 have "pool_used p \<noteq> {..<limit}" unfolding full by blast
    moreover have "k \<notin> pool_used p" using 1 by (simp add: pool_used_def)
    moreover have "malloc_from True limit e p = Some (Some (e * k), p\<lparr>inUse := (inUse p)[k := True]\<rparr>)"
      using 1 by (simp add: malloc_from_def IotStaticMemory_FindFree_def)
    ultimately show ?thesis by blast
  next
    case 2
    then show ?thesis unfolding full by (simp add: malloc_from_def IotStaticMemory_FindFree_def)
  qed
qed

interpretation static_pool: block_pool "\<lambda>p. pool_inv n e p \<and> 0 < e" pool_used n "pool_get n e" "pool_put n e" for n e
proof
  fix p
  assume inv: "pool_inv n e p \<and> 0 < e"
  then have len: "length (inUse p) = n" "length (blocks p) = n * e" by (simp_all add: pool_inv_def)
  show "pool_used p \<subseteq> {..<n}" using len by (auto simp: pool_used_def)
  note m = malloc_from_correct [OF conjunct1 [OF inv]]
  show "pool_get n e p = Some (None, p)" if "pool_used p = {..<n}"
    using m that by (simp add: pool_get_def)
  show "\<exists>i s'. pool_get n e p = Some (Some i, s') \<and> (pool_inv n e s' \<and> 0 < e) \<and> i < n \<and>
      i \<notin> pool_used p \<and> pool_used s' = insert i (pool_used p)" if "pool_used p \<noteq> {..<n}"
  proof -
    from m that obtain i where i: "i < n" "i \<notin> pool_used p"
      "malloc_from True n e p = Some (Some (e * i), p\<lparr>inUse := (inUse p)[i := True]\<rparr>)" by blast
    then show ?thesis using inv len
      by (intro exI [of _ i] exI [of _ "p\<lparr>inUse := (inUse p)[i := True]\<rparr>"])
        (auto simp: pool_get_def pool_inv_def pool_used_def nth_list_update)
  qed
  fix i
  assume i: "i \<in> pool_used p"
  then have lt: "i < n" using len by (simp add: pool_used_def)
  then have "e * i + e \<le> length (blocks p)"
    using len mult_le_mono1 [of "Suc i" n e] by (simp add: mult.commute)
  then have "pool_put n e i p = Some (p\<lparr>blocks := take (e * i) (blocks p) @ replicate e 0 @ drop (e * i + e) (blocks p),
      inUse := (inUse p)[i := False]\<rparr>)"
    using return_in_use_correct [of "inUse p" n e i 0] inv len lt
    by (simp add: pool_put_def IotStaticMemory_ReturnInUse_def write_at_def)
  moreover have "length (take (e * i) (blocks p) @ replicate e 0 @ drop (e * i + e) (blocks p)) = n * e"
    using len \<open>e * i + e \<le> length (blocks p)\<close> by simp
  ultimately show "\<exists>s'. pool_put n e i p = Some s' \<and> (pool_inv n e s' \<and> 0 < e) \<and>
      pool_used s' = pool_used p - {i}"
    using inv len lt by (auto simp: pool_inv_def pool_used_def nth_list_update)
qed

subsection \<open>freertos_agent_message.c\<close>

text \<open>
  The kernel's queues, as their documentation describes them: sending appends when there is room,
  receiving takes the oldest element; both fail after the block time otherwise.
\<close>

record 'q queue_ops =
  xQueueCreateStatic :: "nat \<Rightarrow> 'q option"
  xQueueSendToBack :: "'q \<Rightarrow> nat \<Rightarrow> u32 \<Rightarrow> bool \<times> 'q"
  xQueueReceive :: "'q \<Rightarrow> u32 \<Rightarrow> nat option \<times> 'q"

locale rtos_queue =
  fixes ops :: "'q queue_ops"
    and waiting :: "'q \<Rightarrow> nat list"
    and room_of :: "'q \<Rightarrow> nat"
  assumes create: "\<exists>q. xQueueCreateStatic ops n = Some q \<and> waiting q = [] \<and> room_of q = n"
    and send: "length (waiting q) < room_of q \<Longrightarrow>
      \<exists>q'. xQueueSendToBack ops q x t = (True, q') \<and> waiting q' = waiting q @ [x] \<and> room_of q' = room_of q"
    and send_full: "\<not> length (waiting q) < room_of q \<Longrightarrow> xQueueSendToBack ops q x t = (False, q)"
    and receive: "waiting q = x # xs \<Longrightarrow>
      \<exists>q'. xQueueReceive ops q t = (Some x, q') \<and> waiting q' = xs \<and> room_of q' = room_of q"
    and receive_empty: "waiting q = [] \<Longrightarrow> xQueueReceive ops q t = (None, q)"

text \<open>A message context or the address of the command is \<open>None\<close> when it is \<open>NULL\<close>.\<close>

definition Agent_MessageSend ::
  "'q queue_ops \<Rightarrow> 'q option \<Rightarrow> nat option \<Rightarrow> u32 \<Rightarrow> bool \<times> 'q option" where
  "Agent_MessageSend ops pMsgCtx pCommandToSend blockTimeMs =
     (case (pMsgCtx, pCommandToSend) of
        (Some q, Some c) \<Rightarrow> let (st, q') = xQueueSendToBack ops q c blockTimeMs in (st, Some q')
      | _ \<Rightarrow> (False, pMsgCtx))"

text \<open>The second component is what \<open>*pReceivedCommand\<close> receives.\<close>

definition Agent_MessageReceive ::
  "'q queue_ops \<Rightarrow> 'q option \<Rightarrow> u32 \<Rightarrow> bool \<times> nat option \<times> 'q option" where
  "Agent_MessageReceive ops pMsgCtx blockTimeMs =
     (case pMsgCtx of
        Some q \<Rightarrow> let (r, q') = xQueueReceive ops q blockTimeMs in (r \<noteq> None, r, Some q')
      | None \<Rightarrow> (False, None, pMsgCtx))"

subsection \<open>freertos_command_pool.c\<close>

text \<open>
  A command is its index in \<open>commandStructurePool\<close>. The queue is \<open>None\<close> before it is created.
\<close>

record 'q command_pool =
  initStatus :: bool
  commandQueue :: "'q option"

definition Agent_InitializePool ::
  "'q queue_ops \<Rightarrow> nat \<Rightarrow> 'q command_pool \<Rightarrow> 'q command_pool option" where
  "Agent_InitializePool ops MQTT_COMMAND_CONTEXTS_POOL_SIZE s =
     (if \<not> initStatus s
      then do {
        q \<leftarrow> xQueueCreateStatic ops MQTT_COMMAND_CONTEXTS_POOL_SIZE;
        q \<leftarrow> for_each [0..<MQTT_COMMAND_CONTEXTS_POOL_SIZE]
          (\<lambda>i q. do {
             let (added, ctx) = Agent_MessageSend ops (Some q) (Some i) 0;
             q \<leftarrow> ctx;
             if added then Some q else None }) q;
        Some (s\<lparr>commandQueue := Some q, initStatus := True\<rparr>) }
      else Some s)"

definition Agent_GetCommand ::
  "'q queue_ops \<Rightarrow> u32 \<Rightarrow> 'q command_pool \<Rightarrow> (nat option \<times> 'q command_pool) option" where
  "Agent_GetCommand ops blockTimeMs s =
     (if initStatus s
      then let (_, c, q) = Agent_MessageReceive ops (commandQueue s) blockTimeMs
        in Some (c, s\<lparr>commandQueue := q\<rparr>)
      else None)"

text \<open>Pointers outside the pool, here indexes from its size on, are refused.\<close>

definition Agent_ReleaseCommand ::
  "'q queue_ops \<Rightarrow> nat \<Rightarrow> nat \<Rightarrow> 'q command_pool \<Rightarrow> (bool \<times> 'q command_pool) option" where
  "Agent_ReleaseCommand ops MQTT_COMMAND_CONTEXTS_POOL_SIZE pCommandToRelease s =
     (if initStatus s
      then if pCommandToRelease < MQTT_COMMAND_CONTEXTS_POOL_SIZE
        then let (returned, q) = Agent_MessageSend ops (commandQueue s) (Some pCommandToRelease) 0
          in if returned then Some (True, s\<lparr>commandQueue := q\<rparr>) else None
        else Some (False, s)
      else None)"

definition release :: "'q queue_ops \<Rightarrow> nat \<Rightarrow> nat \<Rightarrow> 'q command_pool \<Rightarrow> 'q command_pool option" where
  "release ops n c s = map_option snd (Agent_ReleaseCommand ops n c s)"

context rtos_queue
begin

definition command_inv :: "nat \<Rightarrow> 'q command_pool \<Rightarrow> bool" where
  "command_inv n s \<longleftrightarrow> initStatus s \<and>
     (\<exists>q. commandQueue s = Some q \<and> room_of q = n \<and> distinct (waiting q) \<and> set (waiting q) \<subseteq> {..<n})"

definition command_used :: "nat \<Rightarrow> 'q command_pool \<Rightarrow> nat set" where
  "command_used n s = {..<n} - set (waiting (the (commandQueue s)))"

lemma initialize_correct:
  assumes "\<not> initStatus s"
  shows "\<exists>s'. Agent_InitializePool ops n s = Some s' \<and> command_inv n s' \<and> command_used n s' = {}"
proof -
  obtain q0 where q0: "xQueueCreateStatic ops n = Some q0" "waiting q0 = []" "room_of q0 = n"
    using create by blast
  let ?f = "\<lambda>i q. do {
             let (added, ctx) = Agent_MessageSend ops (Some q) (Some i) 0;
             q \<leftarrow> ctx;
             if added then Some q else None }"
  let ?I = "\<lambda>i q. waiting q = [0..<i] \<and> room_of q = n"
  have "\<exists>q. for_each [0..<n] ?f q0 = Some q \<and> ?I n q"
  proof (rule for_each_upt [where I = ?I])
    fix i q
    assume "i < n" and "?I i q"
    with send [of q i 0] show "\<exists>q'. ?f i q = Some q' \<and> ?I (Suc i) q'"
      by (auto simp: Agent_MessageSend_def)
  qed (simp add: q0)
  with assms q0 show ?thesis
    by (auto simp: Agent_InitializePool_def command_inv_def command_used_def)
qed

end

sublocale rtos_queue \<subseteq> commands: block_pool "command_inv n" "command_used n" n
  "Agent_GetCommand ops t" "release ops n" for n t
proof
  fix s
  assume inv: "command_inv n s"
  then obtain q where q: "initStatus s" "commandQueue s = Some q" "room_of q = n" "distinct (waiting q)"
    "set (waiting q) \<subseteq> {..<n}" by (auto simp: command_inv_def)
  show "command_used n s \<subseteq> {..<n}" by (auto simp: command_used_def)
  show "Agent_GetCommand ops t s = Some (None, s)" if "command_used n s = {..<n}"
  proof -
    from that q have "waiting q = []" by (auto simp: command_used_def) (metis Diff_disjoint inf.absorb1 set_empty2)
    from receive_empty [OF this] q show ?thesis
      by (cases s) (simp add: Agent_GetCommand_def Agent_MessageReceive_def)
  qed
  show "\<exists>i s'. Agent_GetCommand ops t s = Some (Some i, s') \<and> command_inv n s' \<and> i < n \<and>
      i \<notin> command_used n s \<and> command_used n s' = insert i (command_used n s)" if "command_used n s \<noteq> {..<n}"
  proof -
    from that q obtain x xs where w: "waiting q = x # xs" by (cases "waiting q") (auto simp: command_used_def)
    from receive [OF this, of t] obtain q' where "xQueueReceive ops q t = (Some x, q')" "waiting q' = xs"
      "room_of q' = room_of q" by blast
    with q w show ?thesis
      by (intro exI [of _ x] exI [of _ "s\<lparr>commandQueue := Some q'\<rparr>"])
        (auto simp: Agent_GetCommand_def Agent_MessageReceive_def command_inv_def command_used_def)
  qed
  fix i
  assume i: "i \<in> command_used n s"
  then have "i < n" "i \<notin> set (waiting q)" using q by (auto simp: command_used_def)
  then have "insert i (set (waiting q)) \<subseteq> {..<n}" using q by auto
  then have "card (insert i (set (waiting q))) \<le> n" using card_mono [of "{..<n}"] by fastforce
  then have "length (waiting q) < room_of q" using q \<open>i \<notin> set (waiting q)\<close> by (simp add: distinct_card)
  from send [OF this, of i 0] obtain q' where "xQueueSendToBack ops q i 0 = (True, q')"
    "waiting q' = waiting q @ [i]" "room_of q' = room_of q" by blast
  with q \<open>i < n\<close> \<open>i \<notin> set (waiting q)\<close> show "\<exists>s'. release ops n i s = Some s' \<and> command_inv n s' \<and>
      command_used n s' = command_used n s - {i}"
    by (intro exI [of _ "s\<lparr>commandQueue := Some q'\<rparr>"])
      (auto simp: release_def Agent_ReleaseCommand_def Agent_MessageSend_def command_inv_def command_used_def)
qed

context rtos_queue
begin

lemma commands_many:
  assumes "command_inv n s"
  shows "\<exists>is m s'. get_many (Agent_GetCommand ops t) k s = Some (map Some is @ replicate m None, s') \<and>
    command_inv n s' \<and> distinct is \<and> set is \<inter> command_used n s = {} \<and>
    command_used n s' = command_used n s \<union> set is \<and>
    length is = min k (n - card (command_used n s)) \<and> m = k - length is \<and> command_used n s' \<subseteq> {..<n}"
  using commands.get_many_correct [OF assms, of t k] commands.used_below by blast

end

text \<open>A queue as a list with a capacity.\<close>

definition list_queue :: "(nat list \<times> nat) queue_ops" where
  "list_queue =
     \<lparr> xQueueCreateStatic = (\<lambda>n. Some ([], n)),
       xQueueSendToBack = (\<lambda>(xs, n) x t. if length xs < n then (True, xs @ [x], n) else (False, xs, n)),
       xQueueReceive = (\<lambda>(xs, n) t. case xs of [] \<Rightarrow> (None, xs, n) | x # xs \<Rightarrow> (Some x, xs, n)) \<rparr>"

interpretation list_queue: rtos_queue list_queue fst snd
  by unfold_locales (auto simp: list_queue_def split: list.splits)

subsection \<open>Properties\<close>

text \<open>
  The static pools hand out a free block whenever there is one, never a block that is in
  use, and exactly as many as the pool has: of \<open>k\<close> requests in a row the first ones get distinct
  blocks and the rest get \<open>NULL\<close>.
\<close>

theorem static_pool_requests:
  assumes "pool_inv limit e p" and "0 < e"
  shows "\<exists>is m p'. get_many (pool_get limit e) k p = Some (map Some is @ replicate m None, p') \<and>
    pool_inv limit e p' \<and> distinct is \<and> set is \<inter> pool_used p = {} \<and>
    pool_used p' = pool_used p \<union> set is \<and> length is = min k (limit - card (pool_used p)) \<and> m = k - length is"
  using static_pool.get_many_correct [of limit e p k] assms by blast

definition fresh_pool :: "nat \<Rightarrow> nat \<Rightarrow> pool" where
  "fresh_pool limit e = \<lparr>inUse = replicate limit False, blocks = replicate (limit * e) 0\<rparr>"

lemma fresh_pool_ok: "limit < 2 ^ 31 \<Longrightarrow> pool_inv limit e (fresh_pool limit e)" "pool_used (fresh_pool limit e) = {}"
  by (auto simp: fresh_pool_def pool_inv_def pool_used_def)

theorem static_pool_requests_witness:
  "\<exists>is p'. get_many (pool_get 2 16) 3 (fresh_pool 2 16) = Some (map Some is @ [None], p') \<and>
    distinct is \<and> length is = 2"
proof -
  have "pool_inv 2 16 (fresh_pool 2 16)" by (rule fresh_pool_ok) simp
  from static_pool_requests [OF this, of 3] fresh_pool_ok(2) [of 2 16] obtain "is" m p' where
    r: "get_many (pool_get 2 16) 3 (fresh_pool 2 16) = Some (map Some is @ replicate m None, p')"
    "distinct is" "length is = 2" "m = 3 - length is" by auto
  then have "replicate m None = [None :: nat option]" by (simp add: numeral_eq_Suc)
  with r show ?thesis by auto
qed

text \<open>
  Freeing a message buffer that is in use releases that buffer only, leaves its memory zero
  and no other memory changed.
\<close>

theorem Iot_FreeMessageBuffer_correct:
  assumes "pool_inv n e p" and "0 < e" and "i \<in> pool_used p"
  shows "\<exists>p'. Iot_FreeMessageBuffer n e (e * i) p = Some p' \<and> pool_inv n e p' \<and>
    pool_used p' = pool_used p - {i} \<and> take e (drop (e * i) (blocks p')) = replicate e 0 \<and>
    take (e * i) (blocks p') = take (e * i) (blocks p) \<and>
    drop (e * i + e) (blocks p') = drop (e * i + e) (blocks p)"
proof -
  from static_pool.put_used [of n e p i] assms obtain p' where
    p': "pool_put n e i p = Some p'" "pool_inv n e p'" "pool_used p' = pool_used p - {i}" by blast
  from p'(1) obtain mem where "write_at (blocks p) (e * i) (replicate e 0) = Some mem" "blocks p' = mem"
    by (auto simp: pool_put_def IotStaticMemory_ReturnInUse_def)
  with p' show ?thesis by (auto simp: Iot_FreeMessageBuffer_def pool_put_def)
qed

theorem Iot_FreeMessageBuffer_correct_witness:
  "\<exists>p'. Iot_FreeMessageBuffer 2 2 (2 * 1) \<lparr>inUse = [True, True], blocks = [1, 2, 3, 4]\<rparr> = Some p' \<and>
     pool_used p' = {0} \<and> drop 2 (blocks p') = [0, 0] \<and> take 2 (blocks p') = [1, 2]"
proof -
  let ?p = "\<lparr>inUse = [True, True], blocks = [1, 2, 3, 4]\<rparr>"
  have u: "pool_inv 2 2 ?p" by (simp add: pool_inv_def)
  moreover have "pool_used ?p = {0, 1}" by (auto simp: pool_used_def less_Suc_eq numeral_2_eq_2)
  ultimately have u: "pool_inv 2 2 ?p" "pool_used ?p = {0, 1}" by auto
  from Iot_FreeMessageBuffer_correct [OF u(1), of 1] u(2) obtain p' where p':
    "Iot_FreeMessageBuffer 2 2 (2 * 1) ?p = Some p'" "pool_inv 2 2 p'" "pool_used p' = {0}"
    "take 2 (drop 2 (blocks p')) = [0, 0]" "take 2 (blocks p') = [1, 2]" by (auto simp: numeral_2_eq_2)
  then have "length (drop 2 (blocks p')) = 2" by (simp add: pool_inv_def)
  with p' show ?thesis by auto
qed

text \<open>
  A pointer that is not a block in use releases nothing, but the memory behind it is cleared all
  the same: an address in the middle of buffer 0 erases the first byte of buffer 1.
\<close>

lemma IotStaticMemory_ReturnInUse_misaligned:
  "IotStaticMemory_ReturnInUse 1 2 2 \<lparr>inUse = [True, True], blocks = [1, 2, 3, 4]\<rparr> =
     Some \<lparr>inUse = [True, True], blocks = [1, 0, 0, 4]\<rparr>"
  by code_simp

text \<open>
  Once initialised, the command pool hands out each of its commands exactly once before it
  refuses a request.
\<close>

theorem Agent_command_pool_requests:
  assumes "rtos_queue ops waiting room" and "\<not> initStatus s"
  shows "\<exists>s0 is m s'. Agent_InitializePool ops n s = Some s0 \<and>
    get_many (Agent_GetCommand ops t) k s0 = Some (map Some is @ replicate m None, s') \<and>
    distinct is \<and> set is \<subseteq> {..<n} \<and> length is = min k n \<and> m = k - length is"
proof -
  from rtos_queue.initialize_correct [OF assms] obtain s0 where
    i: "Agent_InitializePool ops n s = Some s0" "rtos_queue.command_inv waiting room n s0"
      "rtos_queue.command_used waiting n s0 = {}" by blast
  from rtos_queue.commands_many [OF assms(1) i(2), of t k] i show ?thesis by fastforce
qed

theorem Agent_command_pool_requests_witness:
  "\<exists>s0 is s'. Agent_InitializePool list_queue 2 \<lparr>initStatus = False, commandQueue = None\<rparr> = Some s0 \<and>
    get_many (Agent_GetCommand list_queue 0) 3 s0 = Some (map Some is @ [None], s') \<and> distinct is"
proof -
  from Agent_command_pool_requests [OF list_queue.rtos_queue_axioms, of "\<lparr>initStatus = False, commandQueue = None\<rparr>" 2 0 3]
  obtain s0 "is" m s' where r: "Agent_InitializePool list_queue 2 \<lparr>initStatus = False, commandQueue = None\<rparr> = Some s0"
    "get_many (Agent_GetCommand list_queue 0) 3 s0 = Some (map Some is @ replicate m None, s')"
    "distinct is" "length is = min 3 2" "m = 3 - length is" by auto
  then have "replicate m None = [None :: nat option]" by (simp add: numeral_eq_Suc)
  with r show ?thesis by auto
qed

text \<open>
  The pool does not notice a command that is released twice while another is out: two later
  requests then get the same command.
\<close>

lemma Agent_ReleaseCommand_twice:
  "\<exists>s0 s1 s2 s3 s4 s5 s6. Agent_InitializePool list_queue 2 \<lparr>initStatus = False, commandQueue = None\<rparr> = Some s0 \<and>
    Agent_GetCommand list_queue 0 s0 = Some (Some 0, s1) \<and> Agent_GetCommand list_queue 0 s1 = Some (Some 1, s2) \<and>
    Agent_ReleaseCommand list_queue 2 0 s2 = Some (True, s3) \<and> Agent_ReleaseCommand list_queue 2 0 s3 = Some (True, s4) \<and>
    Agent_GetCommand list_queue 0 s4 = Some (Some 0, s5) \<and> Agent_GetCommand list_queue 0 s5 = Some (Some 0, s6)"
  by (simp add: Agent_InitializePool_def Agent_GetCommand_def Agent_ReleaseCommand_def Agent_MessageSend_def
      Agent_MessageReceive_def list_queue_def numeral_2_eq_2)

end
