(* ===== verification/Subscriptions.thy ===== *)
theory Subscriptions
  imports CStrings
begin

text \<open>
  The MQTT subscription manager of the demos, mqtt_subscription_manager.c: a table of topic
  filters with the callbacks to invoke. The table implements a set of subscriptions.
\<close>

subsection \<open>The table\<close>

text \<open>
  A callback is identified by a number (its address), \<open>None\<close> being \<open>NULL\<close>; so is its context.
\<close>

record subscription =
  usFilterStringLength :: nat
  pcSubscriptionFilterString :: "bytes option"
  pxIncomingPublishCallback :: "nat option"
  pvIncomingPublishCallbackContext :: nat

definition SUBSCRIPTION_MANAGER_MAX_SUBSCRIPTIONS :: nat where
  "SUBSCRIPTION_MANAGER_MAX_SUBSCRIPTIONS = 10"

definition no_subscription :: subscription where
  "no_subscription =
     \<lparr>usFilterStringLength = 0, pcSubscriptionFilterString = None,
      pxIncomingPublishCallback = None, pvIncomingPublishCallbackContext = 0\<rparr>"

text \<open>
  The backward scan of \<open>SubscriptionManager_AddSubscription\<close> over the indexes below \<open>n\<close>: the
  lowest free index so far, and whether the subscription exists already.
\<close>

fun scan_subscriptions ::
  "subscription list \<Rightarrow> bytes \<Rightarrow> nat \<Rightarrow> nat option \<Rightarrow> nat \<Rightarrow> nat \<Rightarrow> nat \<Rightarrow> (nat \<times> bool) option" where
  "scan_subscriptions l f len cb ctx 0 xAvailableIndex = Some (xAvailableIndex, False)"
| "scan_subscriptions l f len cb ctx (Suc i) xAvailableIndex =
     (if i < length l
      then if usFilterStringLength (l ! i) = 0 then scan_subscriptions l f len cb ctx i i
        else if usFilterStringLength (l ! i) = len
        then do {
          g \<leftarrow> pcSubscriptionFilterString (l ! i);
          eq \<leftarrow> strncmp_eq f g len;
          if eq \<and> pxIncomingPublishCallback (l ! i) = cb \<and> pvIncomingPublishCallbackContext (l ! i) = ctx
          then Some (SUBSCRIPTION_MANAGER_MAX_SUBSCRIPTIONS, True)
          else scan_subscriptions l f len cb ctx i xAvailableIndex }
        else scan_subscriptions l f len cb ctx i xAvailableIndex
      else None)"

definition SubscriptionManager_AddSubscription ::
  "subscription list option \<Rightarrow> bytes option \<Rightarrow> nat \<Rightarrow> nat option \<Rightarrow> nat \<Rightarrow>
   (bool \<times> subscription list option) option" where
  "SubscriptionManager_AddSubscription pxSubscriptionList pcTopicFilterString usTopicFilterLength cb ctx =
     (case (pxSubscriptionList, pcTopicFilterString) of
        (Some l, Some f) \<Rightarrow>
          if usTopicFilterLength = 0 \<or> cb = None then Some (False, pxSubscriptionList)
          else do {
            (xAvailableIndex, xReturnStatus) \<leftarrow>
              scan_subscriptions l f usTopicFilterLength cb ctx SUBSCRIPTION_MANAGER_MAX_SUBSCRIPTIONS
                SUBSCRIPTION_MANAGER_MAX_SUBSCRIPTIONS;
            if xAvailableIndex < SUBSCRIPTION_MANAGER_MAX_SUBSCRIPTIONS
            then if xAvailableIndex < length l
              then Some (True, Some (l[xAvailableIndex :=
                     \<lparr>usFilterStringLength = usTopicFilterLength, pcSubscriptionFilterString = Some f,
                      pxIncomingPublishCallback = cb, pvIncomingPublishCallbackContext = ctx\<rparr>]))
              else None
            else Some (xReturnStatus, Some l) }
      | _ \<Rightarrow> Some (False, pxSubscriptionList))"

definition remove_subscription :: "bytes \<Rightarrow> nat \<Rightarrow> nat \<Rightarrow> subscription list \<Rightarrow> subscription list option" where
  "remove_subscription f len i l =
     (if i < length l
      then if usFilterStringLength (l ! i) = len
        then do {
          g \<leftarrow> pcSubscriptionFilterString (l ! i);
          eq \<leftarrow> strncmp_eq g f len;
          Some (if eq then l[i := no_subscription] else l) }
        else Some l
      else None)"

definition SubscriptionManager_RemoveSubscription ::
  "subscription list option \<Rightarrow> bytes option \<Rightarrow> nat \<Rightarrow> subscription list option option" where
  "SubscriptionManager_RemoveSubscription pxSubscriptionList pcTopicFilterString usTopicFilterLength =
     (case (pxSubscriptionList, pcTopicFilterString) of
        (Some l, Some f) \<Rightarrow>
          if usTopicFilterLength = 0 then Some pxSubscriptionList
          else map_option Some (for_each [0..<SUBSCRIPTION_MANAGER_MAX_SUBSCRIPTIONS]
            (remove_subscription f usTopicFilterLength) l)
      | _ \<Rightarrow> Some pxSubscriptionList)"

text \<open>
  Dispatching. \<open>match\<close> is \<open>MQTT_MatchTopic\<close> of coreMQTT: \<open>None\<close> when it refuses its parameters
  and leaves the result variable as it was, which this code does not notice. \<open>invoke\<close> runs a
  callback; it may change the table and the rest of the world. The state of the loop is
  (\<open>isMatched\<close>, \<open>publishHandled\<close>, table, world).
\<close>

type_synonym publish = "bytes option \<times> nat"

definition dispatch_one ::
  "(publish \<Rightarrow> bytes option \<Rightarrow> nat \<Rightarrow> bool option) \<Rightarrow>
   (nat \<Rightarrow> nat \<Rightarrow> publish \<Rightarrow> subscription list \<times> 'w \<Rightarrow> subscription list \<times> 'w) \<Rightarrow>
   publish \<Rightarrow> nat \<Rightarrow> bool \<times> bool \<times> subscription list \<times> 'w \<Rightarrow>
   (bool \<times> bool \<times> subscription list \<times> 'w) option" where
  "dispatch_one match invoke p i = (\<lambda>(isMatched, publishHandled, l, w).
     if i < length l
     then if usFilterStringLength (l ! i) > 0
       then let isMatched = (case match p (pcSubscriptionFilterString (l ! i)) (usFilterStringLength (l ! i)) of
                None \<Rightarrow> isMatched | Some b \<Rightarrow> b)
         in if isMatched
         then do {
           cb \<leftarrow> pxIncomingPublishCallback (l ! i);
           Some (isMatched, True, invoke cb (pvIncomingPublishCallbackContext (l ! i)) p (l, w)) }
         else Some (isMatched, publishHandled, l, w)
       else Some (isMatched, publishHandled, l, w)
     else None)"

definition SubscriptionManager_HandleIncomingPublishes ::
  "(publish \<Rightarrow> bytes option \<Rightarrow> nat \<Rightarrow> bool option) \<Rightarrow>
   (nat \<Rightarrow> nat \<Rightarrow> publish \<Rightarrow> subscription list \<times> 'w \<Rightarrow> subscription list \<times> 'w) \<Rightarrow>
   subscription list option \<Rightarrow> publish option \<Rightarrow> 'w \<Rightarrow> (bool \<times> subscription list option \<times> 'w) option" where
  "SubscriptionManager_HandleIncomingPublishes match invoke pxSubscriptionList pxPublishInfo w =
     (case (pxSubscriptionList, pxPublishInfo) of
        (Some l, Some p) \<Rightarrow> do {
          (_, publishHandled, l, w) \<leftarrow>
            for_each [0..<SUBSCRIPTION_MANAGER_MAX_SUBSCRIPTIONS] (dispatch_one match invoke p)
              (False, False, l, w);
          Some (publishHandled, Some l, w) }
      | _ \<Rightarrow> Some (False, pxSubscriptionList, w))"

subsection \<open>The set of subscriptions\<close>

definition active :: "subscription \<Rightarrow> bool" where
  "active e = (usFilterStringLength e \<noteq> 0)"

text \<open>What a subscription is to its user: filter, callback and context.\<close>

definition sub_key :: "subscription \<Rightarrow> bytes \<times> nat option \<times> nat" where
  "sub_key e = (take (usFilterStringLength e) (the (pcSubscriptionFilterString e)),
     pxIncomingPublishCallback e, pvIncomingPublishCallbackContext e)"

definition filter_ok :: "bytes \<Rightarrow> nat \<Rightarrow> bool" where
  "filter_ok f n \<longleftrightarrow> 0 < n \<and> n \<le> length f \<and> 0 \<notin> set (take n f)"

definition entry_wf :: "subscription \<Rightarrow> bool" where
  "entry_wf e \<longleftrightarrow> (active e \<longrightarrow> pxIncomingPublishCallback e \<noteq> None \<and>
     (\<exists>f. pcSubscriptionFilterString e = Some f \<and> filter_ok f (usFilterStringLength e)))"

definition subscribed :: "subscription list \<Rightarrow> (bytes \<times> nat option \<times> nat) set" where
  "subscribed l = sub_key ` {e \<in> set l. active e}"

definition subs_inv :: "subscription list \<Rightarrow> bool" where
  "subs_inv l \<longleftrightarrow> length l = SUBSCRIPTION_MANAGER_MAX_SUBSCRIPTIONS \<and> (\<forall>e \<in> set l. entry_wf e) \<and>
     (\<forall>i < length l. \<forall>j < length l. active (l ! i) \<and> active (l ! j) \<and> i \<noteq> j \<longrightarrow> sub_key (l ! i) \<noteq> sub_key (l ! j))"

lemma strncmp_eq_filters:
  "filter_ok f n \<or> n = 0 \<Longrightarrow> filter_ok g n \<or> n = 0 \<Longrightarrow> strncmp_eq f g n = Some (take n f = take n g)"
proof (induction f g n rule: strncmp_eq.induct)
  case (2 a as b bs n)
  then have "filter_ok as n \<or> n = 0" "filter_ok bs n \<or> n = 0" "a \<noteq> 0" by (auto simp: filter_ok_def)
  with 2 show ?case by auto
qed (auto simp: filter_ok_def)

lemma subscribed_iff: "k \<in> subscribed l \<longleftrightarrow> (\<exists>i < length l. active (l ! i) \<and> sub_key (l ! i) = k)"
  by (auto simp: subscribed_def in_set_conv_nth image_iff)

lemma scan_correct:
  assumes "n \<le> length l" and "\<forall>e \<in> set l. entry_wf e" and f: "filter_ok f len"
  shows "scan_subscriptions l f len cb ctx n av =
    Some (if \<exists>i < n. active (l ! i) \<and> sub_key (l ! i) = (take len f, cb, ctx)
          then (SUBSCRIPTION_MANAGER_MAX_SUBSCRIPTIONS, True)
          else (if \<exists>i < n. \<not> active (l ! i) then LEAST i. \<not> active (l ! i) else av, False))"
  using assms(1)
proof (induction n arbitrary: av)
  case (Suc i)
  then have i: "i < length l" "i \<le> length l" by simp_all
  note IH = Suc.IH [OF i(2)]
  have wf: "entry_wf (l ! i)" using assms(2) i by simp
  show ?case
  proof (cases "active (l ! i)")
    case False
    have least: "(LEAST j. \<not> active (l ! j)) = i" if "\<forall>j < i. active (l ! j)"
      using that False by (intro Least_equality) (auto simp: not_le [symmetric])
    have ex: "(\<exists>j < Suc i. active (l ! j) \<and> P j) = (\<exists>j < i. active (l ! j) \<and> P j)" for P
      using False less_Suc_eq by auto
    show ?thesis using False i IH [of i] least less_Suc_eq
      unfolding ex by (auto simp: active_def)
  next
    case True
    with wf obtain g where g: "pcSubscriptionFilterString (l ! i) = Some g"
      "filter_ok g (usFilterStringLength (l ! i))" by (auto simp: entry_wf_def)
    have key: "sub_key (l ! i) = (take len f, cb, ctx) \<longleftrightarrow> usFilterStringLength (l ! i) = len \<and>
        take len f = take len g \<and> pxIncomingPublishCallback (l ! i) = cb \<and> pvIncomingPublishCallbackContext (l ! i) = ctx"
    proof -
      have "usFilterStringLength (l ! i) = len" if "take (usFilterStringLength (l ! i)) g = take len f"
        using arg_cong [OF that, of length] g f by (simp add: filter_ok_def)
      then show ?thesis using g by (auto simp: sub_key_def)
    qed
    have none: "(\<exists>j < Suc i. \<not> active (l ! j)) = (\<exists>j < i. \<not> active (l ! j))"
      using True less_Suc_eq by auto
    have step: "scan_subscriptions l f len cb ctx (Suc i) av =
        (if sub_key (l ! i) = (take len f, cb, ctx) then Some (SUBSCRIPTION_MANAGER_MAX_SUBSCRIPTIONS, True)
         else scan_subscriptions l f len cb ctx i av)"
    proof (cases "usFilterStringLength (l ! i) = len")
      case True
      with g f have "strncmp_eq f g len = Some (take len f = take len g)" by (intro strncmp_eq_filters) auto
      with g(1) i \<open>active (l ! i)\<close> True show ?thesis unfolding key by (simp add: active_def)
    next
      case False
      with i \<open>active (l ! i)\<close> show ?thesis unfolding key by (simp add: active_def)
    qed
    show ?thesis
    proof (cases "sub_key (l ! i) = (take len f, cb, ctx)")
      case same: True
      with True have "\<exists>j < Suc i. active (l ! j) \<and> sub_key (l ! j) = (take len f, cb, ctx)" by blast
      with same show ?thesis unfolding step by simp
    next
      case False
      then have "(\<exists>j < Suc i. active (l ! j) \<and> sub_key (l ! j) = (take len f, cb, ctx)) =
          (\<exists>j < i. active (l ! j) \<and> sub_key (l ! j) = (take len f, cb, ctx))"
        using less_Suc_eq by auto
      with False show ?thesis unfolding step none by (simp add: IH)
    qed
  qed
qed simp

subsection \<open>Adding and removing\<close>

lemma least_free:
  assumes "\<exists>i < n. \<not> P (l ! i)"
  shows "(LEAST i. \<not> P (l ! i)) < n" "\<not> P (l ! (LEAST i. \<not> P (l ! i)))"
proof -
  from assms obtain i where i: "i < n" "\<not> P (l ! i)" by blast
  from i(2) show "\<not> P (l ! (LEAST i. \<not> P (l ! i)))" by (rule LeastI)
  from Least_le [of "\<lambda>i. \<not> P (l ! i)", OF i(2)] i(1) show "(LEAST i. \<not> P (l ! i)) < n" by simp
qed

text \<open>
  C20: the table implements a set of subscriptions: adding one succeeds exactly when it is there
  already or a slot is free, and then the set has it and is otherwise the same.
\<close>

theorem SubscriptionManager_AddSubscription_refines:
  assumes "subs_inv l" and "filter_ok f len" and "cb \<noteq> None"
  shows "\<exists>r l'. SubscriptionManager_AddSubscription (Some l) (Some f) len cb ctx = Some (r, Some l') \<and> subs_inv l' \<and>
    (if (take len f, cb, ctx) \<in> subscribed l \<or> (\<exists>e \<in> set l. \<not> active e)
     then r \<and> subscribed l' = insert (take len f, cb, ctx) (subscribed l)
     else \<not> r \<and> l' = l)"
proof -
  let ?k = "(take len f, cb, ctx)"
  let ?e = "\<lparr>usFilterStringLength = len, pcSubscriptionFilterString = Some f,
              pxIncomingPublishCallback = cb, pvIncomingPublishCallbackContext = ctx\<rparr>"
  have len: "length l = 10" and wf: "\<forall>e \<in> set l. entry_wf e"
    using assms(1) by (simp_all add: subs_inv_def SUBSCRIPTION_MANAGER_MAX_SUBSCRIPTIONS_def)
  note scan = scan_correct [of 10 l f len cb ctx 10, OF _ wf assms(2)]
  have nz: "len \<noteq> 0" using assms(2) by (simp add: filter_ok_def)
  have ek: "sub_key ?e = ?k" "active ?e" "entry_wf ?e"
    using assms(2,3) nz by (simp_all add: sub_key_def active_def entry_wf_def)
  have mem: "?k \<in> subscribed l \<longleftrightarrow> (\<exists>i < 10. active (l ! i) \<and> sub_key (l ! i) = ?k)"
    by (simp add: subscribed_iff len)
  have free: "(\<exists>e \<in> set l. \<not> active e) \<longleftrightarrow> (\<exists>i < 10. \<not> active (l ! i))"
    by (metis in_set_conv_nth len)
  have add: "SubscriptionManager_AddSubscription (Some l) (Some f) len cb ctx =
      Option.bind (scan_subscriptions l f len cb ctx 10 10) (\<lambda>(x, r).
        if x < 10 then if x < length l then Some (True, Some (l[x := ?e])) else None else Some (r, Some l))"
    using nz assms(3)
    by (auto simp: SubscriptionManager_AddSubscription_def SUBSCRIPTION_MANAGER_MAX_SUBSCRIPTIONS_def)
  consider "?k \<in> subscribed l" | "?k \<notin> subscribed l" "\<exists>e \<in> set l. \<not> active e"
    | "?k \<notin> subscribed l" "\<not> (\<exists>e \<in> set l. \<not> active e)" by blast
  then show ?thesis
  proof cases
    case 1
    with scan mem len have "scan_subscriptions l f len cb ctx 10 10 = Some (10, True)"
      by (simp add: SUBSCRIPTION_MANAGER_MAX_SUBSCRIPTIONS_def)
    with 1 add assms(1) show ?thesis by (auto simp: insert_absorb)
  next
    case 2
    define x where "x = (LEAST i. \<not> active (l ! i))"
    from 2 mem free len scan have s: "scan_subscriptions l f len cb ctx 10 10 = Some (x, False)" "x < 10" "\<not> active (l ! x)"
      using least_free [of 10 active l] by (auto simp: x_def)
    have r: "SubscriptionManager_AddSubscription (Some l) (Some f) len cb ctx = Some (True, Some (l[x := ?e]))"
      unfolding add s(1) using s(2) len by simp
    have sub: "subscribed (l[x := ?e]) = insert ?k (subscribed l)"
    proof (intro set_eqI iffI)
      fix k
      assume "k \<in> subscribed (l[x := ?e])"
      then obtain i where i: "i < 10" "active (l[x := ?e] ! i)" "sub_key (l[x := ?e] ! i) = k"
        by (auto simp: subscribed_iff len)
      then show "k \<in> insert ?k (subscribed l)"
        using ek(1) len by (cases "i = x") (auto simp: subscribed_iff)
    next
      fix k
      assume "k \<in> insert ?k (subscribed l)"
      then consider "k = ?k" | i where "i < 10" "active (l ! i)" "sub_key (l ! i) = k" "i \<noteq> x"
        using s(3) by (auto simp: subscribed_iff len)
      then show "k \<in> subscribed (l[x := ?e])"
      proof cases
        case 1
        then show ?thesis unfolding subscribed_iff using s(2) ek len by (intro exI [of _ x]) simp
      next
        case (2 i)
        then show ?thesis unfolding subscribed_iff using len by (intro exI [of _ i]) simp
      qed
    qed
    have "subs_inv (l[x := ?e])"
      unfolding subs_inv_def
    proof (intro conjI allI impI ballI)
      show "length (l[x := ?e]) = SUBSCRIPTION_MANAGER_MAX_SUBSCRIPTIONS"
        using assms(1) by (simp add: subs_inv_def)
      show "entry_wf e" if "e \<in> set (l[x := ?e])" for e
        using that wf ek(3) set_update_subset_insert [of l x ?e] by blast
      fix i j
      assume ij: "i < length (l[x := ?e])" "j < length (l[x := ?e])"
        "active (l[x := ?e] ! i) \<and> active (l[x := ?e] ! j) \<and> i \<noteq> j"
      have ne: "sub_key (l ! m) \<noteq> ?k" if "m < 10" "active (l ! m)" for m
        using that 2(1) by (auto simp: subscribed_iff len)
      show "sub_key (l[x := ?e] ! i) \<noteq> sub_key (l[x := ?e] ! j)"
      proof (cases "i = x \<or> j = x")
        case True
        with ij ne [of i] ne [of j] ek(1) len show ?thesis by auto
      next
        case False
        with ij assms(1) show ?thesis by (simp add: subs_inv_def)
      qed
    qed
    with r sub 2 show ?thesis by auto
  next
    case 3
    with scan mem free len have "scan_subscriptions l f len cb ctx 10 10 = Some (10, False)" by auto
    with 3 add assms(1) show ?thesis by auto
  qed
qed

lemma remove_one:
  assumes "subs_inv l" and "filter_ok f len" and "i < length l"
  shows "remove_subscription f len i l =
    Some (if active (l ! i) \<and> fst (sub_key (l ! i)) = take len f then l[i := no_subscription] else l)"
proof (cases "active (l ! i)")
  case True
  with assms obtain g where g: "pcSubscriptionFilterString (l ! i) = Some g"
    "filter_ok g (usFilterStringLength (l ! i))" by (auto simp: subs_inv_def entry_wf_def)
  have "usFilterStringLength (l ! i) = len" if "take (usFilterStringLength (l ! i)) g = take len f"
    using arg_cong [OF that, of length] g assms(2) by (simp add: filter_ok_def)
  moreover have "strncmp_eq g f len = Some (take len g = take len f)" if "usFilterStringLength (l ! i) = len"
    using that g assms(2) by (intro strncmp_eq_filters) auto
  ultimately show ?thesis using True g(1) assms(3)
    by (auto simp: remove_subscription_def sub_key_def)
next
  case False
  with assms show ?thesis by (auto simp: remove_subscription_def active_def filter_ok_def)
qed

lemma subs_inv_clear:
  assumes "subs_inv l"
  shows "subs_inv (l[i := no_subscription])"
proof -
  have na: "\<not> active no_subscription" by (simp add: active_def no_subscription_def)
  then have "entry_wf no_subscription" by (simp add: entry_wf_def)
  then have "\<forall>e \<in> set (l[i := no_subscription]). entry_wf e"
    using assms set_update_subset_insert [of l i no_subscription] by (auto simp: subs_inv_def)
  with assms na show ?thesis
    unfolding subs_inv_def by (cases "i < length l") (auto simp: nth_list_update split: if_splits)
qed

text \<open>
  Removing a filter removes exactly the subscriptions that have it, whatever their callback.
\<close>

theorem SubscriptionManager_RemoveSubscription_refines:
  assumes "subs_inv l" and "filter_ok f len"
  shows "\<exists>l'. SubscriptionManager_RemoveSubscription (Some l) (Some f) len = Some (Some l') \<and> subs_inv l' \<and>
    subscribed l' = {k \<in> subscribed l. fst k \<noteq> take len f}"
proof -
  have len: "length l = 10" using assms(1) by (simp add: subs_inv_def SUBSCRIPTION_MANAGER_MAX_SUBSCRIPTIONS_def)
  let ?hit = "\<lambda>j. active (l ! j) \<and> fst (sub_key (l ! j)) = take len f"
  let ?I = "\<lambda>i m. subs_inv m \<and> length m = 10 \<and> (\<forall>j < 10. m ! j = (if j < i \<and> ?hit j then no_subscription else l ! j))"
  have "\<exists>m. for_each [0..<10] (remove_subscription f len) l = Some m \<and> ?I 10 m"
  proof (rule for_each_upt [where I = ?I])
    fix i m
    assume i: "i < 10" and I: "?I i m"
    then have mi: "m ! i = l ! i" by simp
    from remove_one [of m f len i] I i assms(2) have r: "remove_subscription f len i m =
        Some (if ?hit i then m[i := no_subscription] else m)" by (simp add: mi)
    from I i subs_inv_clear [of m i] show "\<exists>m'. remove_subscription f len i m = Some m' \<and> ?I (Suc i) m'"
      unfolding r by (auto simp: nth_list_update less_Suc_eq)
  qed (use assms(1) len in simp)
  then obtain m where m: "for_each [0..<10] (remove_subscription f len) l = Some m" "subs_inv m" "length m = 10"
    "\<forall>j < 10. m ! j = (if ?hit j then no_subscription else l ! j)" by auto
  have na: "\<not> active no_subscription" by (simp add: active_def no_subscription_def)
  have "(active (m ! j) \<and> sub_key (m ! j) = k) = (active (l ! j) \<and> sub_key (l ! j) = k \<and> fst k \<noteq> take len f)"
    if "j < 10" for j k
    using m(4) that na by (cases "?hit j") auto
  then have "subscribed m = {k \<in> subscribed l. fst k \<noteq> take len f}"
    unfolding set_eq_iff mem_Collect_eq subscribed_iff len m(3) by blast
  with m(1,2) assms(2) show ?thesis
    by (auto simp: SubscriptionManager_RemoveSubscription_def filter_ok_def SUBSCRIPTION_MANAGER_MAX_SUBSCRIPTIONS_def)
qed


text \<open>The empty table.\<close>

lemma empty_table: "subs_inv (replicate 10 no_subscription)" "subscribed (replicate 10 no_subscription) = {}"
  by (auto simp: subs_inv_def SUBSCRIPTION_MANAGER_MAX_SUBSCRIPTIONS_def entry_wf_def active_def
      no_subscription_def subscribed_def)

theorem SubscriptionManager_AddSubscription_refines_witness:
  "\<exists>l'. SubscriptionManager_AddSubscription (Some (replicate 10 no_subscription)) (Some (c_literal ''a/b'')) 3 (Some 1) 0 =
     Some (True, Some l') \<and> subscribed l' = {(ascii ''a/b'', Some 1, 0)}"
proof -
  have f: "filter_ok (c_literal ''a/b'') 3" "take 3 (c_literal ''a/b'') = ascii ''a/b''"
    by (simp_all add: filter_ok_def c_literal_def ascii_def of_char_def)
  have "\<not> active no_subscription" by (simp add: active_def no_subscription_def)
  with SubscriptionManager_AddSubscription_refines [OF empty_table(1) f(1), of "Some 1" 0] empty_table(2) f(2)
  show ?thesis by auto
qed

theorem SubscriptionManager_RemoveSubscription_refines_witness:
  "\<exists>l'. SubscriptionManager_RemoveSubscription (Some (replicate 10 no_subscription)) (Some (c_literal ''a/b'')) 3 =
     Some (Some l') \<and> subscribed l' = {}"
proof -
  have f: "filter_ok (c_literal ''a/b'') 3"
    by (simp add: filter_ok_def c_literal_def ascii_def of_char_def)
  from SubscriptionManager_RemoveSubscription_refines [OF empty_table(1) f] empty_table(2)
  show ?thesis by auto
qed

subsection \<open>Dispatching\<close>

definition matches :: "(publish \<Rightarrow> bytes option \<Rightarrow> nat \<Rightarrow> bool option) \<Rightarrow> publish \<Rightarrow> subscription \<Rightarrow> bool" where
  "matches match p e \<longleftrightarrow> active e \<and> match p (pcSubscriptionFilterString e) (usFilterStringLength e) = Some True"



end
