(* ===== verification/LinearContainers.thy ===== *)
theory LinearContainers
  imports Prelude
begin

text \<open>
  The doubly linked lists and queues of iot_linear_containers.h, on the pointers they are made of.
  A list is a ring of links: the sentinel, which is the list object, and one link inside every
  element. The memory maps the address of every link to its two pointers; reading or writing
  through \<open>NULL\<close> or an address that holds no link has no meaning. The assertions of the file are
  enabled by iot_config_common.h. \<open>dlist\<close> says which list a ring stands for, and every operation
  is shown to implement the operation on lists, to leave the rest of the memory alone, and to end.
\<close>

subsection \<open>Links\<close>

record 'a IotLink =
  pPrevious :: "'a option"
  pNext :: "'a option"

type_synonym 'a links = "'a \<rightharpoonup> 'a IotLink"

definition load :: "'a option \<Rightarrow> 'a links \<Rightarrow> 'a IotLink option" where
  "load p m = do { a \<leftarrow> p; m a }"

definition set_pNext :: "'a option \<Rightarrow> 'a option \<Rightarrow> 'a links \<Rightarrow> 'a links option" where
  "set_pNext p v m = do { a \<leftarrow> p; l \<leftarrow> m a; Some (m(a \<mapsto> l\<lparr>pNext := v\<rparr>)) }"

definition set_pPrevious :: "'a option \<Rightarrow> 'a option \<Rightarrow> 'a links \<Rightarrow> 'a links option" where
  "set_pPrevious p v m = do { a \<leftarrow> p; l \<leftarrow> m a; Some (m(a \<mapsto> l\<lparr>pPrevious := v\<rparr>)) }"

definition IotLink_IsLinked :: "'a option \<Rightarrow> 'a links \<Rightarrow> bool option" where
  "IotLink_IsLinked pLink m =
     (if pLink \<noteq> None
      then do { l \<leftarrow> load pLink m; Some (pNext l \<noteq> None \<and> pPrevious l \<noteq> None) }
      else Some False)"

subsection \<open>Lists\<close>

definition IotListDouble_Create :: "'a option \<Rightarrow> 'a links \<Rightarrow> 'a links option" where
  "IotListDouble_Create pList m =
     (if pList \<noteq> None then do { m \<leftarrow> set_pPrevious pList pList m; set_pNext pList pList m } else None)"

text \<open>The loops follow the links until they are back at the sentinel; they may not end on a broken ring.\<close>

partial_function (option) count_loop :: "'a option \<Rightarrow> 'a links \<Rightarrow> 'a option \<Rightarrow> nat \<Rightarrow> nat option" where
  "count_loop pList m pCurrent count =
     (if pCurrent \<noteq> pList
      then do { l \<leftarrow> load pCurrent m; count_loop pList m (pNext l) (count + 1) }
      else Some count)"

definition IotListDouble_Count :: "'a option \<Rightarrow> 'a links \<Rightarrow> nat option" where
  "IotListDouble_Count pList m =
     (if pList \<noteq> None then do { l \<leftarrow> load pList m; count_loop pList m (pNext l) 0 } else Some 0)"

definition IotListDouble_IsEmpty :: "'a option \<Rightarrow> 'a links \<Rightarrow> bool option" where
  "IotListDouble_IsEmpty pList m =
     (if pList = None then Some True else do { l \<leftarrow> load pList m; Some (pNext l = pList) })"

definition IotListDouble_PeekHead :: "'a option \<Rightarrow> 'a links \<Rightarrow> 'a option option" where
  "IotListDouble_PeekHead pList m =
     (if pList \<noteq> None
      then do {
        e \<leftarrow> IotListDouble_IsEmpty pList m;
        if \<not> e then do { l \<leftarrow> load pList m; Some (pNext l) } else Some None }
      else Some None)"

definition IotListDouble_PeekTail :: "'a option \<Rightarrow> 'a links \<Rightarrow> 'a option option" where
  "IotListDouble_PeekTail pList m =
     (if pList \<noteq> None
      then do {
        e \<leftarrow> IotListDouble_IsEmpty pList m;
        if \<not> e then do { l \<leftarrow> load pList m; Some (pPrevious l) } else Some None }
      else Some None)"

definition IotListDouble_InsertHead :: "'a option \<Rightarrow> 'a option \<Rightarrow> 'a links \<Rightarrow> 'a links option" where
  "IotListDouble_InsertHead pList pLink m =
     (if pList \<noteq> None \<and> pLink \<noteq> None
      then do {
        l \<leftarrow> load pList m;
        let pHead = pNext l;
        m \<leftarrow> set_pNext pLink pHead m;
        m \<leftarrow> set_pPrevious pLink pList m;
        m \<leftarrow> set_pPrevious pHead pLink m;
        set_pNext pList pLink m }
      else None)"

definition IotListDouble_InsertTail :: "'a option \<Rightarrow> 'a option \<Rightarrow> 'a links \<Rightarrow> 'a links option" where
  "IotListDouble_InsertTail pList pLink m =
     (if pList \<noteq> None \<and> pLink \<noteq> None
      then do {
        l \<leftarrow> load pList m;
        let pTail = pPrevious l;
        m \<leftarrow> set_pNext pLink pList m;
        m \<leftarrow> set_pPrevious pLink pTail m;
        m \<leftarrow> set_pPrevious pList pLink m;
        set_pNext pTail pLink m }
      else None)"

definition IotListDouble_InsertBefore :: "'a option \<Rightarrow> 'a option \<Rightarrow> 'a links \<Rightarrow> 'a links option" where
  "IotListDouble_InsertBefore pElement pLink m = IotListDouble_InsertTail pElement pLink m"

definition IotListDouble_InsertAfter :: "'a option \<Rightarrow> 'a option \<Rightarrow> 'a links \<Rightarrow> 'a links option" where
  "IotListDouble_InsertAfter pElement pLink m = IotListDouble_InsertHead pElement pLink m"

text \<open>The comparison is the caller's function; what it reads beside the links is its own business.\<close>

partial_function (option) insert_sorted_loop ::
  "('a option \<Rightarrow> 'a option \<Rightarrow> int option) \<Rightarrow> 'a option \<Rightarrow> 'a option \<Rightarrow> 'a option \<Rightarrow> 'a links \<Rightarrow> 'a links option" where
  "insert_sorted_loop compare pList pLink pCurrent m =
     (if pCurrent \<noteq> pList
      then do {
        c \<leftarrow> compare pLink pCurrent;
        if c < 0 then IotListDouble_InsertBefore pCurrent pLink m
        else do { l \<leftarrow> load pCurrent m; insert_sorted_loop compare pList pLink (pNext l) m } }
      else IotListDouble_InsertTail pList pLink m)"

definition IotListDouble_InsertSorted ::
  "'a option \<Rightarrow> 'a option \<Rightarrow> ('a option \<Rightarrow> 'a option \<Rightarrow> int option) \<Rightarrow> 'a links \<Rightarrow> 'a links option" where
  "IotListDouble_InsertSorted pList pLink compare m =
     (if pList \<noteq> None \<and> pLink \<noteq> None
      then do {
        e \<leftarrow> IotListDouble_IsEmpty pList m;
        if e then IotListDouble_InsertHead pList pLink m
        else do { l \<leftarrow> load pList m; insert_sorted_loop compare pList pLink (pNext l) m } }
      else None)"

definition IotListDouble_Remove :: "'a option \<Rightarrow> 'a links \<Rightarrow> 'a links option" where
  "IotListDouble_Remove pLink m =
     (if pLink \<noteq> None
      then do {
        linked \<leftarrow> IotLink_IsLinked pLink m;
        if linked
        then do {
          l \<leftarrow> load pLink m;
          m \<leftarrow> set_pNext (pPrevious l) (pNext l) m;
          l \<leftarrow> load pLink m;
          m \<leftarrow> set_pPrevious (pNext l) (pPrevious l) m;
          m \<leftarrow> set_pPrevious pLink None m;
          set_pNext pLink None m }
        else None }
      else None)"

definition IotListDouble_RemoveHead :: "'a option \<Rightarrow> 'a links \<Rightarrow> ('a option \<times> 'a links) option" where
  "IotListDouble_RemoveHead pList m = do {
     e \<leftarrow> IotListDouble_IsEmpty pList m;
     if \<not> e
     then do {
       l \<leftarrow> load pList m;
       let pHead = pNext l;
       m \<leftarrow> IotListDouble_Remove pHead m;
       Some (pHead, m) }
     else Some (None, m) }"

definition IotListDouble_RemoveTail :: "'a option \<Rightarrow> 'a links \<Rightarrow> ('a option \<times> 'a links) option" where
  "IotListDouble_RemoveTail pList m = do {
     e \<leftarrow> IotListDouble_IsEmpty pList m;
     if \<not> e
     then do {
       l \<leftarrow> load pList m;
       let pTail = pPrevious l;
       m \<leftarrow> IotListDouble_Remove pTail m;
       Some (pTail, m) }
     else Some (None, m) }"

text \<open>
  \<open>freeElement\<close> is called with the element the link lies in (\<open>linkOffset\<close> bytes before the link);
  it may take the link away with the element.
\<close>

partial_function (option) remove_all_loop ::
  "'a option \<Rightarrow> ('a option \<Rightarrow> 'a links \<Rightarrow> 'a links option) option \<Rightarrow> 'a option \<Rightarrow> 'a links \<Rightarrow> 'a links option" where
  "remove_all_loop pList freeElement pCurrent m =
     (if pCurrent \<noteq> pList
      then do {
        l \<leftarrow> load pCurrent m;
        let pNxt = pNext l;
        m \<leftarrow> IotListDouble_Remove pCurrent m;
        m \<leftarrow> (case freeElement of None \<Rightarrow> Some m | Some f \<Rightarrow> f pCurrent m);
        remove_all_loop pList freeElement pNxt m }
      else Some m)"

definition IotListDouble_RemoveAll ::
  "'a option \<Rightarrow> ('a option \<Rightarrow> 'a links \<Rightarrow> 'a links option) option \<Rightarrow> 'a links \<Rightarrow> 'a links option" where
  "IotListDouble_RemoveAll pList freeElement m =
     (if pList \<noteq> None then do { l \<leftarrow> load pList m; remove_all_loop pList freeElement (pNext l) m } else None)"

partial_function (option) find_match_loop ::
  "'a option \<Rightarrow> ('a option \<Rightarrow> 'a option \<Rightarrow> bool option) option \<Rightarrow> 'a option \<Rightarrow> 'a links \<Rightarrow> 'a option \<Rightarrow> 'a option option" where
  "find_match_loop pList isMatch pMatch m pCurrent =
     (if pCurrent \<noteq> pList
      then do {
        b \<leftarrow> (case isMatch of None \<Rightarrow> Some (pCurrent = pMatch) | Some f \<Rightarrow> f pCurrent pMatch);
        if b then Some pCurrent
        else do { l \<leftarrow> load pCurrent m; find_match_loop pList isMatch pMatch m (pNext l) } }
      else Some None)"

definition IotListDouble_FindFirstMatch ::
  "'a option \<Rightarrow> 'a option \<Rightarrow> ('a option \<Rightarrow> 'a option \<Rightarrow> bool option) option \<Rightarrow> 'a option \<Rightarrow> 'a links \<Rightarrow> 'a option option" where
  "IotListDouble_FindFirstMatch pList pStartPoint isMatch pMatch m =
     (if pList \<noteq> None
      then do {
        pCurrent \<leftarrow> (if pStartPoint = None then do { l \<leftarrow> load pList m; Some (pNext l) } else Some pStartPoint);
        find_match_loop pList isMatch pMatch m pCurrent }
      else None)"

definition IotListDouble_RemoveFirstMatch ::
  "'a option \<Rightarrow> 'a option \<Rightarrow> ('a option \<Rightarrow> 'a option \<Rightarrow> bool option) option \<Rightarrow> 'a option \<Rightarrow> 'a links
    \<Rightarrow> ('a option \<times> 'a links) option" where
  "IotListDouble_RemoveFirstMatch pList pStartPoint isMatch pMatch m = do {
     pMatchedElement \<leftarrow> IotListDouble_FindFirstMatch pList pStartPoint isMatch pMatch m;
     if pMatchedElement \<noteq> None
     then do { m \<leftarrow> IotListDouble_Remove pMatchedElement m; Some (pMatchedElement, m) }
     else Some (pMatchedElement, m) }"

partial_function (option) remove_matches_loop ::
  "'a option \<Rightarrow> ('a option \<Rightarrow> 'a option \<Rightarrow> bool option) option \<Rightarrow> 'a option
    \<Rightarrow> ('a option \<Rightarrow> 'a links \<Rightarrow> 'a links option) option \<Rightarrow> 'a option \<Rightarrow> 'a links \<Rightarrow> 'a links option" where
  "remove_matches_loop pList isMatch pMatch freeElement pMatchedElement m = do {
     pMatchedElement \<leftarrow> IotListDouble_FindFirstMatch pList pMatchedElement isMatch pMatch m;
     if pMatchedElement \<noteq> None
     then do {
       l \<leftarrow> load pMatchedElement m;
       let pNextElement = pNext l;
       m \<leftarrow> IotListDouble_Remove pMatchedElement m;
       m \<leftarrow> (case freeElement of None \<Rightarrow> Some m | Some f \<Rightarrow> f pMatchedElement m);
       if pNextElement \<noteq> None then remove_matches_loop pList isMatch pMatch freeElement pNextElement m
       else Some m }
     else Some m }"

definition IotListDouble_RemoveAllMatches ::
  "'a option \<Rightarrow> ('a option \<Rightarrow> 'a option \<Rightarrow> bool option) option \<Rightarrow> 'a option
    \<Rightarrow> ('a option \<Rightarrow> 'a links \<Rightarrow> 'a links option) option \<Rightarrow> 'a links \<Rightarrow> 'a links option" where
  "IotListDouble_RemoveAllMatches pList isMatch pMatch freeElement m =
     remove_matches_loop pList isMatch pMatch freeElement None m"

subsection \<open>Queues\<close>

definition IotDeQueue_Create :: "'a option \<Rightarrow> 'a links \<Rightarrow> 'a links option" where
  "IotDeQueue_Create pQueue m = IotListDouble_Create pQueue m"

definition IotDeQueue_Count :: "'a option \<Rightarrow> 'a links \<Rightarrow> nat option" where
  "IotDeQueue_Count pQueue m = IotListDouble_Count pQueue m"

definition IotDeQueue_IsEmpty :: "'a option \<Rightarrow> 'a links \<Rightarrow> bool option" where
  "IotDeQueue_IsEmpty pQueue m = IotListDouble_IsEmpty pQueue m"

definition IotDeQueue_PeekHead :: "'a option \<Rightarrow> 'a links \<Rightarrow> 'a option option" where
  "IotDeQueue_PeekHead pQueue m = IotListDouble_PeekHead pQueue m"

definition IotDeQueue_PeekTail :: "'a option \<Rightarrow> 'a links \<Rightarrow> 'a option option" where
  "IotDeQueue_PeekTail pQueue m = IotListDouble_PeekTail pQueue m"

definition IotDeQueue_EnqueueHead :: "'a option \<Rightarrow> 'a option \<Rightarrow> 'a links \<Rightarrow> 'a links option" where
  "IotDeQueue_EnqueueHead pQueue pLink m = IotListDouble_InsertHead pQueue pLink m"

definition IotDeQueue_DequeueHead :: "'a option \<Rightarrow> 'a links \<Rightarrow> ('a option \<times> 'a links) option" where
  "IotDeQueue_DequeueHead pQueue m = IotListDouble_RemoveHead pQueue m"

definition IotDeQueue_EnqueueTail :: "'a option \<Rightarrow> 'a option \<Rightarrow> 'a links \<Rightarrow> 'a links option" where
  "IotDeQueue_EnqueueTail pQueue pLink m = IotListDouble_InsertTail pQueue pLink m"

definition IotDeQueue_DequeueTail :: "'a option \<Rightarrow> 'a links \<Rightarrow> ('a option \<times> 'a links) option" where
  "IotDeQueue_DequeueTail pQueue m = IotListDouble_RemoveTail pQueue m"

definition IotDeQueue_Remove :: "'a option \<Rightarrow> 'a links \<Rightarrow> 'a links option" where
  "IotDeQueue_Remove pLink m = IotListDouble_Remove pLink m"

definition IotDeQueue_RemoveAll ::
  "'a option \<Rightarrow> ('a option \<Rightarrow> 'a links \<Rightarrow> 'a links option) option \<Rightarrow> 'a links \<Rightarrow> 'a links option" where
  "IotDeQueue_RemoveAll pQueue freeElement m = IotListDouble_RemoveAll pQueue freeElement m"

definition IotDeQueue_RemoveAllMatches ::
  "'a option \<Rightarrow> ('a option \<Rightarrow> 'a option \<Rightarrow> bool option) option \<Rightarrow> 'a option
    \<Rightarrow> ('a option \<Rightarrow> 'a links \<Rightarrow> 'a links option) option \<Rightarrow> 'a links \<Rightarrow> 'a links option" where
  "IotDeQueue_RemoveAllMatches pQueue isMatch pMatch freeElement m =
     IotListDouble_RemoveAllMatches pQueue isMatch pMatch freeElement m"

lemmas deque_defs = IotDeQueue_Create_def IotDeQueue_Count_def IotDeQueue_IsEmpty_def
  IotDeQueue_PeekHead_def IotDeQueue_PeekTail_def IotDeQueue_EnqueueHead_def IotDeQueue_DequeueHead_def
  IotDeQueue_EnqueueTail_def IotDeQueue_DequeueTail_def IotDeQueue_Remove_def IotDeQueue_RemoveAll_def
  IotDeQueue_RemoveAllMatches_def

subsection \<open>The list a ring stands for\<close>

definition nxt :: "'a links \<Rightarrow> 'a \<Rightarrow> 'a option option" where
  "nxt m a = map_option pNext (m a)"

definition prv :: "'a links \<Rightarrow> 'a \<Rightarrow> 'a option option" where
  "prv m a = map_option pPrevious (m a)"

text \<open>Consecutive elements of a path point at each other.\<close>

fun path :: "'a links \<Rightarrow> 'a list \<Rightarrow> bool" where
  "path m (a # b # r) \<longleftrightarrow> nxt m a = Some (Some b) \<and> prv m b = Some (Some a) \<and> path m (b # r)"
| "path m _ \<longleftrightarrow> True"

definition dlist :: "'a links \<Rightarrow> 'a \<Rightarrow> 'a list \<Rightarrow> bool" where
  "dlist m h xs \<longleftrightarrow> path m (h # xs @ [h]) \<and> distinct (h # xs)"

definition unlinked :: "'a links \<Rightarrow> 'a \<Rightarrow> bool" where
  "unlinked m a \<longleftrightarrow> m a = Some \<lparr>pPrevious = None, pNext = None\<rparr>"

text \<open>Two memories that differ at most in the links of \<open>S\<close>.\<close>

definition same_but :: "'a set \<Rightarrow> 'a links \<Rightarrow> 'a links \<Rightarrow> bool" where
  "same_but S m m' \<longleftrightarrow> dom m' = dom m \<and> (\<forall>a. a \<notin> S \<longrightarrow> m' a = m a)"

lemma path_append: "path m (us @ a # vs) \<longleftrightarrow> path m (us @ [a]) \<and> path m (a # vs)"
  by (induction us rule: path.induct) (auto split: list.splits)

lemma path_cong:
  assumes "\<And>a. a \<in> set (butlast l) \<Longrightarrow> nxt m' a = nxt m a" and "\<And>a. a \<in> set (tl l) \<Longrightarrow> prv m' a = prv m a"
  shows "path m' l = path m l"
  using assms by (induction m l rule: path.induct) auto

lemma path_dom: "path m l \<Longrightarrow> 2 \<le> length l \<Longrightarrow> set l \<subseteq> dom m"
proof (induction m l rule: path.induct)
  case (1 m a b r)
  then show ?case by (cases r) (auto simp: nxt_def prv_def)
qed auto

lemma dlist_dom: "dlist m h xs \<Longrightarrow> insert h (set xs) \<subseteq> dom m"
  using path_dom [of m "h # xs @ [h]"] by (auto simp: dlist_def)

lemma dlist_distinct: "dlist m h xs \<Longrightarrow> distinct xs \<and> h \<notin> set xs"
  by (simp add: dlist_def)

lemma dlist_linked:
  assumes "dlist m h (xs @ c # ys)"
  shows "nxt m c = Some (Some (hd (ys @ [h])))" and "prv m c = Some (Some (last (h # xs)))"
proof -
  have "path m (h # xs @ [c])" and "path m (c # ys @ [h])"
    using assms path_append [of m "h # xs" c "ys @ [h]"] by (simp_all add: dlist_def)
  then show "nxt m c = Some (Some (hd (ys @ [h])))" by (cases ys) simp_all
  have "h # xs @ [c] = butlast (h # xs) @ last (h # xs) # [c]"
    using append_butlast_last_id [of "h # xs"] by (metis append.assoc append_Cons append_Nil list.distinct(1))
  with \<open>path m (h # xs @ [c])\<close> have "path m (last (h # xs) # [c])"
    by (metis path_append)
  then show "prv m c = Some (Some (last (h # xs)))" by simp
qed

lemma dlist_first:
  assumes "dlist m h xs"
  shows "nxt m h = Some (Some (hd (xs @ [h])))" and "prv m h = Some (Some (last (h # xs)))"
proof -
  show "nxt m h = Some (Some (hd (xs @ [h])))" using assms by (cases xs) (simp_all add: dlist_def)
  have "h # xs @ [h] = butlast (h # xs) @ last (h # xs) # [h]"
    using append_butlast_last_id [of "h # xs"] by (metis append.assoc append_Cons append_Nil list.distinct(1))
  with assms have "path m (last (h # xs) # [h])" unfolding dlist_def by (metis path_append)
  then show "prv m h = Some (Some (last (h # xs)))" by simp
qed

lemma dlist_agree: "dlist m h xs \<Longrightarrow> (\<And>a. a \<in> insert h (set xs) \<Longrightarrow> m' a = m a) \<Longrightarrow> dlist m' h xs"
  unfolding dlist_def
  by (subst path_cong [of _ m' m]) (auto simp: nxt_def prv_def dest: in_set_butlastD)

lemma dlist_same: "dlist m h xs \<Longrightarrow> same_but S m m' \<Longrightarrow> S \<inter> insert h (set xs) = {} \<Longrightarrow> dlist m' h xs"
  by (rule dlist_agree [of m]) (auto simp: same_but_def disjoint_iff)

lemma same_but_refl: "same_but S m m"
  by (simp add: same_but_def)

lemma same_but_trans: "same_but S m m' \<Longrightarrow> same_but T m' m'' \<Longrightarrow> same_but (S \<union> T) m m''"
  by (auto simp: same_but_def)

lemma same_but_mono: "same_but S m m' \<Longrightarrow> S \<subseteq> T \<Longrightarrow> same_but T m m'"
  by (auto simp: same_but_def)

text \<open>The value of the memory after an assignment to one pointer.\<close>

definition upd_next :: "'a \<Rightarrow> 'a option \<Rightarrow> 'a links \<Rightarrow> 'a links" where
  "upd_next a v m = m(a := map_option (pNext_update (\<lambda>_. v)) (m a))"

definition upd_prev :: "'a \<Rightarrow> 'a option \<Rightarrow> 'a links \<Rightarrow> 'a links" where
  "upd_prev a v m = m(a := map_option (pPrevious_update (\<lambda>_. v)) (m a))"

lemma set_pNext_Some: "a \<in> dom m \<Longrightarrow> set_pNext (Some a) v m = Some (upd_next a v m)"
  by (auto simp: set_pNext_def upd_next_def)

lemma set_pPrevious_Some: "a \<in> dom m \<Longrightarrow> set_pPrevious (Some a) v m = Some (upd_prev a v m)"
  by (auto simp: set_pPrevious_def upd_prev_def)

lemma dom_upd [simp]: "dom (upd_next a v m) = dom m" "dom (upd_prev a v m) = dom m"
  by (auto simp: upd_next_def upd_prev_def dom_def)

lemma nxt_upd [simp]:
  "nxt (upd_next a v m) x = (if x = a \<and> a \<in> dom m then Some v else nxt m x)"
  "nxt (upd_prev a v m) x = nxt m x"
  by (auto simp: upd_next_def upd_prev_def nxt_def option.map_comp comp_def dom_def)

lemma prv_upd [simp]:
  "prv (upd_prev a v m) x = (if x = a \<and> a \<in> dom m then Some v else prv m x)"
  "prv (upd_next a v m) x = prv m x"
  by (auto simp: upd_next_def upd_prev_def prv_def option.map_comp comp_def dom_def)

lemma upd_other: "x \<noteq> a \<Longrightarrow> upd_next a v m x = m x" "x \<noteq> a \<Longrightarrow> upd_prev a v m x = m x"
  by (simp_all add: upd_next_def upd_prev_def)

lemma load_nxt: "nxt m a = Some n \<Longrightarrow> \<exists>l. load (Some a) m = Some l \<and> pNext l = n"
  by (auto simp: load_def nxt_def)

lemma load_prv: "prv m a = Some n \<Longrightarrow> \<exists>l. load (Some a) m = Some l \<and> pPrevious l = n"
  by (auto simp: load_def prv_def)

subsection \<open>Putting a link between two neighbours, and taking it out\<close>

lemma in_set_tl: "x \<in> set (tl l) \<Longrightarrow> x \<in> set l"
  by (cases l) auto

lemma ring_cut:
  obtains us a b vs where "h # xs = us @ [a]" and "ys @ [h] = b # vs" and "a = last (h # xs)" and "b = hd (ys @ [h])"
    and "xs = tl (us @ [a])" and "ys = butlast (b # vs)"
proof -
  have "h # xs = butlast (h # xs) @ [last (h # xs)]" by simp
  moreover have "ys @ [h] = hd (ys @ [h]) # tl (ys @ [h])" by (cases ys) simp_all
  moreover from calculation have "xs = tl (butlast (h # xs) @ [last (h # xs)])"
    and "ys = butlast (hd (ys @ [h]) # tl (ys @ [h]))" by (metis list.sel(3), metis butlast_snoc)
  ultimately show thesis using that [OF _ _ refl refl] by blast
qed

lemma path_insert:
  assumes p: "path m (us @ a # b # vs)" and ab: "a \<notin> set us" "b \<notin> set vs" "a \<notin> set (butlast (b # vs))" "b \<notin> set (tl (us @ [a]))"
    and c: "c \<notin> set us" "c \<notin> set vs" "c \<noteq> a" "c \<noteq> b"
    and m': "nxt m' = (nxt m)(c := Some (Some b), a := Some (Some c))"
      "prv m' = (prv m)(c := Some (Some a), b := Some (Some c))"
  shows "path m' (us @ a # c # b # vs)"
proof -
  have "path m (us @ [a])" and "path m (a # b # vs)"
    using p path_append [of m us a "b # vs"] by simp_all
  moreover have "path m' (us @ [a]) = path m (us @ [a])"
    using ab c m' by (intro path_cong) (auto dest: in_set_tl)
  moreover have "path m' (b # vs) = path m (b # vs)"
    using ab c m' by (intro path_cong) (auto simp del: butlast.simps dest: in_set_butlastD)
  ultimately show ?thesis using c m' path_append [of m' us a "c # b # vs"] by simp
qed

lemma path_delete:
  assumes p: "path m (us @ a # c # b # vs)" and ab: "a \<notin> set us" "b \<notin> set vs" "a \<notin> set (butlast (b # vs))" "b \<notin> set (tl (us @ [a]))"
    and c: "c \<notin> set us" "c \<notin> set vs" "c \<noteq> a" "c \<noteq> b"
    and m': "nxt m' = (nxt m)(a := Some (Some b), c := Some None)"
      "prv m' = (prv m)(b := Some (Some a), c := Some None)"
  shows "path m' (us @ a # b # vs)"
proof -
  have "path m (us @ [a])" and "path m (b # vs)"
    using p path_append [of m us a "c # b # vs"] by simp_all
  moreover have "path m' (us @ [a]) = path m (us @ [a])"
    using ab c m' by (intro path_cong) (auto dest: in_set_tl)
  moreover have "path m' (b # vs) = path m (b # vs)"
    using ab c m' by (intro path_cong) (auto simp del: butlast.simps dest: in_set_butlastD)
  ultimately show ?thesis using c m' path_append [of m' us a "b # vs"] by simp
qed

lemma dlist_insert:
  assumes d: "dlist m h (xs @ ys)" and c: "c \<noteq> h" "c \<notin> set xs" "c \<notin> set ys"
    and m': "nxt m' = (nxt m)(c := Some (Some (hd (ys @ [h]))), last (h # xs) := Some (Some c))"
      "prv m' = (prv m)(c := Some (Some (last (h # xs))), hd (ys @ [h]) := Some (Some c))"
  shows "dlist m' h (xs @ c # ys)"
proof -
  obtain us a b vs where l: "h # xs = us @ [a]" and r: "ys @ [h] = b # vs" and ab: "a = last (h # xs)" "b = hd (ys @ [h])"
    and x: "xs = tl (us @ [a])" and y: "ys = butlast (b # vs)" by (rule ring_cut)
  have dl: "distinct (us @ [a])" and dr: "distinct (b # vs)" and disj: "set (h # xs) \<inter> set ys = {}" "set xs \<inter> set (ys @ [h]) = {}"
    using d unfolding l [symmetric] r [symmetric] by (auto simp: dlist_def)
  have cs: "c \<notin> set (us @ [a])" "c \<notin> set (b # vs)" using c unfolding l [symmetric] r [symmetric] by auto
  have "us @ a # b # vs = (us @ [a]) @ (b # vs)" by simp
  also have "\<dots> = h # (xs @ ys) @ [h]" unfolding l [symmetric] r [symmetric] by simp
  finally have p: "path m (us @ a # b # vs)" using d by (simp add: dlist_def)
  have na: "a \<notin> set (butlast (b # vs))" using disj(1) unfolding l y [symmetric] by auto
  have nb: "b \<notin> set (tl (us @ [a]))" using disj(2) unfolding r x [symmetric] by auto
  have "a \<notin> set us" "b \<notin> set vs" "c \<notin> set us" "c \<notin> set vs" "c \<noteq> a" "c \<noteq> b" using dl dr cs by auto
  note path_insert [OF p this(1,2) na nb this(3-6) m' [folded ab]]
  moreover have "us @ a # c # b # vs = h # (xs @ c # ys) @ [h]"
  proof -
    have "us @ a # c # b # vs = (us @ [a]) @ c # (b # vs)" by simp
    also have "\<dots> = h # (xs @ c # ys) @ [h]" unfolding l [symmetric] r [symmetric] by simp
    finally show ?thesis .
  qed
  ultimately show ?thesis using d c by (auto simp: dlist_def)
qed

lemma dlist_delete:
  assumes d: "dlist m h (xs @ c # ys)"
    and m': "nxt m' = (nxt m)(last (h # xs) := Some (Some (hd (ys @ [h]))), c := Some None)"
      "prv m' = (prv m)(hd (ys @ [h]) := Some (Some (last (h # xs))), c := Some None)"
  shows "dlist m' h (xs @ ys)"
proof -
  obtain us a b vs where l: "h # xs = us @ [a]" and r: "ys @ [h] = b # vs" and ab: "a = last (h # xs)" "b = hd (ys @ [h])"
    and x: "xs = tl (us @ [a])" and y: "ys = butlast (b # vs)" by (rule ring_cut)
  have dl: "distinct (us @ [a])" and dr: "distinct (b # vs)" and disj: "set (h # xs) \<inter> set ys = {}" "set xs \<inter> set (ys @ [h]) = {}"
    and cs: "c \<notin> set (us @ [a])" "c \<notin> set (b # vs)"
    using d unfolding l [symmetric] r [symmetric] by (auto simp: dlist_def)
  have "us @ a # c # b # vs = h # (xs @ c # ys) @ [h]"
  proof -
    have "us @ a # c # b # vs = (us @ [a]) @ c # (b # vs)" by simp
    also have "\<dots> = h # (xs @ c # ys) @ [h]" unfolding l [symmetric] r [symmetric] by simp
    finally show ?thesis .
  qed
  then have p: "path m (us @ a # c # b # vs)" using d by (simp add: dlist_def)
  have na: "a \<notin> set (butlast (b # vs))" using disj(1) unfolding l y [symmetric] by auto
  have nb: "b \<notin> set (tl (us @ [a]))" using disj(2) unfolding r x [symmetric] by auto
  have "a \<notin> set us" "b \<notin> set vs" "c \<notin> set us" "c \<notin> set vs" "c \<noteq> a" "c \<noteq> b" using dl dr cs by auto
  note path_delete [OF p this(1,2) na nb this(3-6) m' [folded ab]]
  moreover have "us @ a # b # vs = h # (xs @ ys) @ [h]"
  proof -
    have "us @ a # b # vs = (us @ [a]) @ (b # vs)" by simp
    also have "\<dots> = h # (xs @ ys) @ [h]" unfolding l [symmetric] r [symmetric] by simp
    finally show ?thesis .
  qed
  ultimately show ?thesis using d by (auto simp: dlist_def)
qed

lemma unlinked_iff: "unlinked m a \<longleftrightarrow> nxt m a = Some None \<and> prv m a = Some None"
  by (cases "m a") (auto simp: unlinked_def nxt_def prv_def)

lemma unlinked_same: "unlinked m a \<Longrightarrow> same_but S m m' \<Longrightarrow> a \<notin> S \<Longrightarrow> unlinked m' a"
  by (simp add: same_but_def unlinked_def)

lemma nxt_dom: "nxt m a = Some v \<Longrightarrow> a \<in> dom m"
  by (auto simp: nxt_def)

lemma load_Some: "nxt m a = Some n \<Longrightarrow> prv m a = Some p \<Longrightarrow> load (Some a) m = Some \<lparr>pPrevious = p, pNext = n\<rparr>"
  by (auto simp: load_def nxt_def prv_def)

lemma same_but_upd:
  "a \<in> S \<Longrightarrow> same_but S m m' \<Longrightarrow> same_but S m (upd_next a v m')"
  "a \<in> S \<Longrightarrow> same_but S m m' \<Longrightarrow> same_but S m (upd_prev a v m')"
  by (simp_all add: same_but_def) (metis upd_other)+

lemma ring_ends: "last (h # xs) \<in> insert h (set xs)" "hd (ys @ [h]) \<in> insert h (set ys)"
  by (simp add: last_in_set, cases ys) simp_all

subsection \<open>The operations on the lists they stand for\<close>

lemma IsLinked_unlinked: "unlinked m a \<Longrightarrow> IotLink_IsLinked (Some a) m = Some False"
  by (simp add: IotLink_IsLinked_def unlinked_def load_def)

lemma IsLinked_dlist: "dlist m h xs \<Longrightarrow> c \<in> set xs \<Longrightarrow> IotLink_IsLinked (Some c) m = Some True"
  by (auto simp: IotLink_IsLinked_def load_Some [OF dlist_linked] in_set_conv_decomp)

lemma Create_dlist:
  assumes "h \<in> dom m"
  shows "\<exists>m'. IotListDouble_Create (Some h) m = Some m' \<and> dlist m' h [] \<and> same_but {h} m m'"
  using assms
  by (intro exI [of _ "upd_next h (Some h) (upd_prev h (Some h) m)"])
    (simp add: IotListDouble_Create_def set_pNext_Some set_pPrevious_Some dlist_def same_but_upd same_but_refl domIff)

lemma InsertTail_ring:
  assumes d: "dlist m h (xs @ ys)" and c: "c \<in> dom m" "c \<noteq> h" "c \<notin> set xs" "c \<notin> set ys" and e: "e = hd (ys @ [h])"
  shows "\<exists>m'. IotListDouble_InsertTail (Some e) (Some c) m = Some m' \<and> dlist m' h (xs @ c # ys)
    \<and> same_but (insert c (insert h (set xs \<union> set ys))) m m'"
proof -
  let ?a = "last (h # xs)"
  let ?m = "upd_next ?a (Some c) (upd_prev e (Some c) (upd_prev c (Some ?a) (upd_next c (Some e) m)))"
  have pe: "prv m e = Some (Some ?a)"
    using d e dlist_linked(2) [of m h xs] dlist_first(2) [of m h] by (cases ys) auto
  obtain l where l: "load (Some e) m = Some l" "pPrevious l = Some ?a" using load_prv [OF pe] by auto
  have ring: "?a \<in> insert h (set xs \<union> set ys)" "e \<in> insert h (set xs \<union> set ys)"
    using ring_ends(1) [of h xs] ring_ends(2) [of ys h] e by auto
  then have "?a \<in> dom m" "e \<in> dom m" using dlist_dom [OF d] by auto
  then have "IotListDouble_InsertTail (Some e) (Some c) m = Some ?m"
    using l c by (simp add: IotListDouble_InsertTail_def set_pNext_Some set_pPrevious_Some domIff del: last.simps)
  moreover have "dlist ?m h (xs @ c # ys)"
    using d c(2-) by (rule dlist_insert) (use c \<open>?a \<in> dom m\<close> \<open>e \<in> dom m\<close> e in \<open>auto simp: fun_eq_iff\<close>)
  moreover have "same_but (insert c (insert h (set xs \<union> set ys))) m ?m"
    using ring by (intro same_but_upd same_but_refl) auto
  ultimately show ?thesis by blast
qed

lemma InsertHead_ring:
  assumes d: "dlist m h (xs @ ys)" and c: "c \<in> dom m" "c \<noteq> h" "c \<notin> set xs" "c \<notin> set ys" and a: "a = last (h # xs)"
  shows "\<exists>m'. IotListDouble_InsertHead (Some a) (Some c) m = Some m' \<and> dlist m' h (xs @ c # ys)
    \<and> same_but (insert c (insert h (set xs \<union> set ys))) m m'"
proof -
  let ?b = "hd (ys @ [h])"
  let ?m = "upd_next a (Some c) (upd_prev ?b (Some c) (upd_prev c (Some a) (upd_next c (Some ?b) m)))"
  have na: "nxt m a = Some (Some ?b)"
  proof (cases xs rule: rev_cases)
    case Nil
    then show ?thesis using dlist_first(1) [of m h ys] d a by simp
  next
    case (snoc us x)
    then show ?thesis using dlist_linked(1) [of m h us x ys] d a by simp
  qed
  obtain l where l: "load (Some a) m = Some l" "pNext l = Some ?b" using load_nxt [OF na] by auto
  have ring: "a \<in> insert h (set xs \<union> set ys)" "?b \<in> insert h (set xs \<union> set ys)"
    using ring_ends(1) [of h xs] ring_ends(2) [of ys h] a by auto
  then have "a \<in> dom m" "?b \<in> dom m" using dlist_dom [OF d] by auto
  then have "IotListDouble_InsertHead (Some a) (Some c) m = Some ?m"
    using l c by (simp add: IotListDouble_InsertHead_def set_pNext_Some set_pPrevious_Some domIff)
  moreover have "dlist ?m h (xs @ c # ys)"
    using d c(2-) by (rule dlist_insert) (use c \<open>a \<in> dom m\<close> \<open>?b \<in> dom m\<close> a in \<open>auto simp: fun_eq_iff\<close>)
  moreover have "same_but (insert c (insert h (set xs \<union> set ys))) m ?m"
    using ring by (intro same_but_upd same_but_refl) auto
  ultimately show ?thesis by blast
qed

lemma Remove_ring:
  assumes d: "dlist m h (xs @ c # ys)"
  shows "\<exists>m'. IotListDouble_Remove (Some c) m = Some m' \<and> dlist m' h (xs @ ys) \<and> unlinked m' c
    \<and> same_but (insert c (insert h (set xs \<union> set ys))) m m'"
proof -
  let ?a = "last (h # xs)" and ?b = "hd (ys @ [h])"
  let ?m = "upd_next c None (upd_prev c None (upd_prev ?b (Some ?a) (upd_next ?a (Some ?b) m)))"
  note n = dlist_linked [OF d]
  have ring: "?a \<in> insert h (set xs \<union> set ys)" "?b \<in> insert h (set xs \<union> set ys)"
    using ring_ends(1) [of h xs] ring_ends(2) [of ys h] by auto
  then have dm: "?a \<in> dom m" "?b \<in> dom m" "c \<in> dom m" using dlist_dom [OF d] by auto
  have ne: "c \<noteq> ?a" "c \<noteq> ?b" using dlist_distinct [OF d] ring_ends(1) [of h xs] ring_ends(2) [of ys h] by auto
  have l1: "load (Some c) (upd_next ?a (Some ?b) m) = Some \<lparr>pPrevious = Some ?a, pNext = Some ?b\<rparr>"
    using n ne by (intro load_Some) auto
  have "IotListDouble_Remove (Some c) m = Some ?m"
    using dm by (simp add: IotListDouble_Remove_def IsLinked_dlist [OF d] load_Some [OF n] l1
      set_pNext_Some set_pPrevious_Some del: last.simps)
  moreover have "dlist ?m h (xs @ ys)"
    using d by (rule dlist_delete) (use dm ne in \<open>auto simp: fun_eq_iff\<close>)
  moreover have "unlinked ?m c" using dm by (simp add: unlinked_iff)
  moreover have "same_but (insert c (insert h (set xs \<union> set ys))) m ?m"
    using ring by (intro same_but_upd same_but_refl) auto
  ultimately show ?thesis by blast
qed

lemma IsEmpty_dlist: "dlist m h xs \<Longrightarrow> IotListDouble_IsEmpty (Some h) m = Some (xs = [])"
  using dlist_first [of m h xs] dlist_distinct [of m h xs]
  by (cases xs) (auto simp: IotListDouble_IsEmpty_def load_Some)

lemma PeekHead_dlist: "dlist m h xs \<Longrightarrow> IotListDouble_PeekHead (Some h) m = Some (if xs = [] then None else Some (hd xs))"
  using dlist_first [of m h xs] by (simp add: IotListDouble_PeekHead_def IsEmpty_dlist load_Some)

lemma PeekTail_dlist: "dlist m h xs \<Longrightarrow> IotListDouble_PeekTail (Some h) m = Some (if xs = [] then None else Some (last xs))"
  using dlist_first [of m h xs] by (simp add: IotListDouble_PeekTail_def IsEmpty_dlist load_Some)

lemma InsertHead_dlist:
  "dlist m h xs \<Longrightarrow> c \<in> dom m \<Longrightarrow> c \<notin> insert h (set xs) \<Longrightarrow>
    \<exists>m'. IotListDouble_InsertHead (Some h) (Some c) m = Some m' \<and> dlist m' h (c # xs) \<and> same_but (insert c (insert h (set xs))) m m'"
  using InsertHead_ring [of m h "[]" xs c h] by simp

lemma InsertTail_dlist:
  "dlist m h xs \<Longrightarrow> c \<in> dom m \<Longrightarrow> c \<notin> insert h (set xs) \<Longrightarrow>
    \<exists>m'. IotListDouble_InsertTail (Some h) (Some c) m = Some m' \<and> dlist m' h (xs @ [c]) \<and> same_but (insert c (insert h (set xs))) m m'"
  using InsertTail_ring [of m h xs "[]" c h] by simp

lemma Remove_dlist:
  assumes "dlist m h xs" and "c \<in> set xs"
  shows "\<exists>m'. IotListDouble_Remove (Some c) m = Some m' \<and> dlist m' h (remove1 c xs) \<and> unlinked m' c
    \<and> same_but (insert h (set xs)) m m'"
proof -
  obtain us vs where xs: "xs = us @ c # vs" using assms(2) by (auto simp: in_set_conv_decomp)
  moreover have "remove1 c xs = us @ vs" using dlist_distinct [OF assms(1)] xs by (simp add: remove1_append)
  moreover have "insert c (insert h (set us \<union> set vs)) = insert h (set xs)" using xs by auto
  ultimately show ?thesis using Remove_ring [of m h us c vs] assms(1) by metis
qed

lemma RemoveHead_dlist:
  "dlist m h (x # xs) \<Longrightarrow>
    \<exists>m'. IotListDouble_RemoveHead (Some h) m = Some (Some x, m') \<and> dlist m' h xs \<and> unlinked m' x
      \<and> same_but (insert h (set (x # xs))) m m'"
  using Remove_dlist [of m h "x # xs" x] dlist_first [of m h "x # xs"] IsEmpty_dlist [of m h "x # xs"]
  by (auto simp: IotListDouble_RemoveHead_def load_Some)

lemma RemoveHead_empty: "dlist m h [] \<Longrightarrow> IotListDouble_RemoveHead (Some h) m = Some (None, m)"
  by (simp add: IotListDouble_RemoveHead_def IsEmpty_dlist)

lemma RemoveTail_dlist:
  assumes "dlist m h (xs @ [x])"
  shows "\<exists>m'. IotListDouble_RemoveTail (Some h) m = Some (Some x, m') \<and> dlist m' h xs \<and> unlinked m' x
    \<and> same_but (insert h (set (xs @ [x]))) m m'"
  using Remove_dlist [OF assms, of x] dlist_first [OF assms] IsEmpty_dlist [OF assms] dlist_distinct [OF assms]
  by (auto simp: IotListDouble_RemoveTail_def load_Some remove1_append)

lemma RemoveTail_empty: "dlist m h [] \<Longrightarrow> IotListDouble_RemoveTail (Some h) m = Some (None, m)"
  by (simp add: IotListDouble_RemoveTail_def IsEmpty_dlist)

lemma hd_ring_ne: "dlist m h (xs @ y # ys) \<Longrightarrow> Some y \<noteq> Some h"
  by (auto simp: dlist_def)

lemma count_loop_dlist:
  "dlist m h (xs @ ys) \<Longrightarrow> count_loop (Some h) m (Some (hd (ys @ [h]))) n = Some (n + length ys)"
proof (induction ys arbitrary: xs n)
  case Nil
  then show ?case by (subst count_loop.simps) simp
next
  case (Cons y ys)
  show ?case
    using Cons.prems Cons.IH [of "xs @ [y]" "n + 1"] hd_ring_ne [OF Cons.prems]
    by (subst count_loop.simps) (simp add: load_Some [OF dlist_linked [OF Cons.prems]])
qed

lemma Count_dlist: "dlist m h xs \<Longrightarrow> IotListDouble_Count (Some h) m = Some (length xs)"
  using count_loop_dlist [of m h "[]" xs 0] by (simp add: IotListDouble_Count_def load_Some [OF dlist_first])

text \<open>
  A new element goes in front of the first one the comparison puts after it, that is behind the
  elements that compare equal.
\<close>

lemma insert_sorted_loop_dlist:
  assumes "dlist m h (xs @ ys)" and "c \<in> dom m" "c \<noteq> h" "c \<notin> set xs" "c \<notin> set ys"
    and "\<And>x. x \<in> set ys \<Longrightarrow> \<exists>r. cmp (Some c) (Some x) = Some r \<and> (r < 0) = before x"
  shows "\<exists>m'. insert_sorted_loop cmp (Some h) (Some c) (Some (hd (ys @ [h]))) m = Some m'
    \<and> dlist m' h (xs @ takeWhile (\<lambda>x. \<not> before x) ys @ c # dropWhile (\<lambda>x. \<not> before x) ys)
    \<and> same_but (insert c (insert h (set xs \<union> set ys))) m m'"
  using assms
proof (induction ys arbitrary: xs)
  case Nil
  then show ?case using InsertTail_dlist [of m h xs c] by (subst insert_sorted_loop.simps) simp
next
  case (Cons y ys)
  obtain r where r: "cmp (Some c) (Some y) = Some r" "(r < 0) = before y" using Cons.prems(6) by force
  show ?case
  proof (cases "before y")
    case True
    then show ?thesis
      using Cons.prems r InsertTail_ring [OF Cons.prems(1-5), of y] hd_ring_ne [OF Cons.prems(1)]
      by (subst insert_sorted_loop.simps) (simp add: IotListDouble_InsertBefore_def)
  next
    case False
    have "\<exists>m'. insert_sorted_loop cmp (Some h) (Some c) (Some (hd (ys @ [h]))) m = Some m'
      \<and> dlist m' h ((xs @ [y]) @ takeWhile (\<lambda>x. \<not> before x) ys @ c # dropWhile (\<lambda>x. \<not> before x) ys)
      \<and> same_but (insert c (insert h (set (xs @ [y]) \<union> set ys))) m m'"
      using Cons.prems by (intro Cons.IH) auto
    then show ?thesis
      using False Cons.prems r hd_ring_ne [OF Cons.prems(1)]
      by (subst insert_sorted_loop.simps) (simp add: load_Some [OF dlist_linked [OF Cons.prems(1)]])
  qed
qed

lemma InsertSorted_dlist:
  assumes "dlist m h xs" and "c \<in> dom m" and "c \<notin> insert h (set xs)"
    and "\<And>x. x \<in> set xs \<Longrightarrow> \<exists>r. cmp (Some c) (Some x) = Some r \<and> (r < 0) = before x"
  shows "\<exists>m'. IotListDouble_InsertSorted (Some h) (Some c) cmp m = Some m'
    \<and> dlist m' h (takeWhile (\<lambda>x. \<not> before x) xs @ c # dropWhile (\<lambda>x. \<not> before x) xs)
    \<and> same_but (insert c (insert h (set xs))) m m'"
proof (cases "xs = []")
  case True
  then show ?thesis using assms InsertHead_dlist [of m h xs c]
    by (simp add: IotListDouble_InsertSorted_def IsEmpty_dlist)
next
  case False
  then show ?thesis
    using insert_sorted_loop_dlist [of m h "[]" xs c cmp before] assms
    by (simp add: IotListDouble_InsertSorted_def IsEmpty_dlist load_Some [OF dlist_first])
qed

text \<open>The order of equal keys is the order of insertion, and a sorted list stays sorted.\<close>

lemma takeWhile_sorted_insert:
  fixes key :: "'a \<Rightarrow> 'k :: linorder"
  assumes "sorted (map key xs)"
  shows "sorted (map key (takeWhile (\<lambda>x. \<not> key c < key x) xs @ c # dropWhile (\<lambda>x. \<not> key c < key x) xs))"
  using assms by (induction xs) (auto simp: not_less dest: set_takeWhileD set_dropWhileD)

lemma find_match_loop_dlist:
  assumes "dlist m h (xs @ ys)"
    and "\<And>x. x \<in> set ys \<Longrightarrow> (case isMatch of None \<Rightarrow> Some (Some x = pMatch) | Some f \<Rightarrow> f (Some x) pMatch) = Some (P x)"
  shows "find_match_loop (Some h) isMatch pMatch m (Some (hd (ys @ [h]))) = Some (find P ys)"
  using assms
proof (induction ys arbitrary: xs)
  case Nil
  then show ?case by (subst find_match_loop.simps) simp
next
  case (Cons y ys)
  show ?case
    using Cons.prems Cons.IH [of "xs @ [y]"] hd_ring_ne [OF Cons.prems(1)] Cons.prems(2) [of y]
    by (subst find_match_loop.simps) (simp add: load_Some [OF dlist_linked [OF Cons.prems(1)]])
qed

lemma FindFirstMatch_dlist:
  assumes "dlist m h xs"
    and "\<And>x. x \<in> set xs \<Longrightarrow> (case isMatch of None \<Rightarrow> Some (Some x = pMatch) | Some f \<Rightarrow> f (Some x) pMatch) = Some (P x)"
  shows "IotListDouble_FindFirstMatch (Some h) None isMatch pMatch m = Some (find P xs)"
  using find_match_loop_dlist [where xs = "[]" and ys = xs] assms
  by (simp add: IotListDouble_FindFirstMatch_def load_Some [OF dlist_first [OF assms(1)]])

text \<open>What a function that disposes of an element may do to the links: take away the element's own.\<close>

definition frees :: "('a option \<Rightarrow> 'a links \<Rightarrow> 'a links option) option \<Rightarrow> bool" where
  "frees g \<longleftrightarrow> (\<forall>f a m. g = Some f \<longrightarrow> unlinked m a \<longrightarrow> (\<exists>m'. f (Some a) m = Some m' \<and> (\<forall>b. b \<noteq> a \<longrightarrow> m' b = m b)))"

definition dispose :: "('a option \<Rightarrow> 'a links \<Rightarrow> 'a links option) option \<Rightarrow> 'a option \<Rightarrow> 'a links \<Rightarrow> 'a links option" where
  "dispose g p m = (case g of None \<Rightarrow> Some m | Some f \<Rightarrow> f p m)"

lemma disposeD: "frees g \<Longrightarrow> unlinked m a \<Longrightarrow> \<exists>m'. dispose g (Some a) m = Some m' \<and> (\<forall>b. b \<noteq> a \<longrightarrow> m' b = m b)"
  by (cases g) (auto simp: dispose_def frees_def)

text \<open>Removing and disposing of one element of a ring.\<close>

lemma remove_dispose:
  assumes d: "dlist m h (xs @ y # ys)" and g: "frees g"
  shows "\<exists>m1 m2. IotListDouble_Remove (Some y) m = Some m1 \<and> dispose g (Some y) m1 = Some m2
    \<and> dlist m2 h (xs @ ys) \<and> (\<forall>a. a \<notin> insert h (insert y (set xs \<union> set ys)) \<longrightarrow> m2 a = m a)"
proof -
  obtain m1 where m1: "IotListDouble_Remove (Some y) m = Some m1" "dlist m1 h (xs @ ys)" "unlinked m1 y"
    "same_but (insert y (insert h (set xs \<union> set ys))) m m1" using Remove_ring [OF d] by blast
  obtain m2 where m2: "dispose g (Some y) m1 = Some m2" "\<forall>b. b \<noteq> y \<longrightarrow> m2 b = m1 b"
    using disposeD [OF g m1(3)] by blast
  have "dlist m2 h (xs @ ys)"
    by (rule dlist_agree [OF m1(2)]) (use m2 d in \<open>auto simp: dlist_def\<close>)
  then show ?thesis using m1 m2 by (auto simp: same_but_def)
qed

lemma remove_all_loop_dlist:
  assumes "dlist m h ys" and "frees g"
  shows "\<exists>m'. remove_all_loop (Some h) g (Some (hd (ys @ [h]))) m = Some m' \<and> dlist m' h []
    \<and> (\<forall>a. a \<notin> insert h (set ys) \<longrightarrow> m' a = m a)"
  using assms(1)
proof (induction ys arbitrary: m)
  case Nil
  then show ?case by (subst remove_all_loop.simps) simp
next
  case (Cons y ys)
  obtain m1 m2 where s: "IotListDouble_Remove (Some y) m = Some m1" "dispose g (Some y) m1 = Some m2" "dlist m2 h ys"
    "\<forall>a. a \<notin> insert h (insert y (set ys)) \<longrightarrow> m2 a = m a"
    using remove_dispose [of m h "[]" y ys g] Cons.prems assms(2) by auto
  obtain m' where m': "remove_all_loop (Some h) g (Some (hd (ys @ [h]))) m2 = Some m'" "dlist m' h []"
    "\<forall>a. a \<notin> insert h (set ys) \<longrightarrow> m' a = m2 a" using Cons.IH [OF s(3)] by blast
  have "remove_all_loop (Some h) g (Some y) m = Some m'"
    using s m' dlist_linked [of m h "[]" y ys] hd_ring_ne [of m h "[]" y ys] Cons.prems
    by (subst remove_all_loop.simps) (simp add: load_Some dispose_def)
  then show ?case using s m' by auto
qed

lemma RemoveAll_dlist:
  assumes "dlist m h xs" and "frees g"
  shows "\<exists>m'. IotListDouble_RemoveAll (Some h) g m = Some m' \<and> dlist m' h [] \<and> (\<forall>a. a \<notin> insert h (set xs) \<longrightarrow> m' a = m a)"
  using remove_all_loop_dlist [OF assms] dlist_first [OF assms(1)]
  by (simp add: IotListDouble_RemoveAll_def load_Some)

lemma find_split: "find P xs = Some y \<Longrightarrow> \<exists>as bs. xs = as @ y # bs \<and> P y \<and> (\<forall>x\<in>set as. \<not> P x)"
proof (induction xs)
  case (Cons x xs)
  then show ?case
  proof (cases "P x")
    case True
    with Cons.prems show ?thesis by (intro exI [of _ "[]"] exI [of _ xs]) auto
  next
    case False
    with Cons obtain as bs where "xs = as @ y # bs" "P y" "\<forall>x\<in>set as. \<not> P x" by auto
    with False show ?thesis by (intro exI [of _ "x # as"] exI [of _ bs]) auto
  qed
qed simp

lemma remove_matches_loop_dlist:
  assumes "dlist m h (us @ vs)" and "frees g"
    and "\<And>x. x \<in> set vs \<Longrightarrow> (case isMatch of None \<Rightarrow> Some (Some x = pMatch) | Some f \<Rightarrow> f (Some x) pMatch) = Some (P x)"
    and "start = Some (hd (vs @ [h])) \<or> start = None \<and> us = []"
  shows "\<exists>m'. remove_matches_loop (Some h) isMatch pMatch g start m = Some m' \<and> dlist m' h (us @ filter (\<lambda>x. \<not> P x) vs)
    \<and> (\<forall>a. a \<notin> insert h (set us \<union> set vs) \<longrightarrow> m' a = m a)"
  using assms(1,3,4)
proof (induction "length vs" arbitrary: us vs m start rule: less_induct)
  case less
  have f: "IotListDouble_FindFirstMatch (Some h) start isMatch pMatch m = Some (find P vs)"
    using less.prems(3)
  proof
    assume "start = Some (hd (vs @ [h]))"
    then show ?thesis using find_match_loop_dlist [OF less.prems(1,2)] by (simp add: IotListDouble_FindFirstMatch_def)
  next
    assume "start = None \<and> us = []"
    then show ?thesis using FindFirstMatch_dlist [of m h vs, OF _ less.prems(2)] less.prems(1) by simp
  qed
  show ?case
  proof (cases "find P vs")
    case None
    then have "filter (\<lambda>x. \<not> P x) vs = vs" by (auto simp: find_None_iff filter_id_conv)
    then show ?thesis using f None less.prems(1) by (subst remove_matches_loop.simps) simp
  next
    case (Some y)
    then obtain as bs where vs: "vs = as @ y # bs" and y: "P y" "\<forall>x\<in>set as. \<not> P x"
      using find_split by metis
    have d: "dlist m h ((us @ as) @ y # bs)" using less.prems(1) vs by simp
    obtain m1 m2 where s: "IotListDouble_Remove (Some y) m = Some m1" "dispose g (Some y) m1 = Some m2"
      "dlist m2 h ((us @ as) @ bs)" "\<forall>a. a \<notin> insert h (insert y (set (us @ as) \<union> set bs)) \<longrightarrow> m2 a = m a"
      using remove_dispose [OF d assms(2)] by blast
    obtain m' where m': "remove_matches_loop (Some h) isMatch pMatch g (Some (hd (bs @ [h]))) m2 = Some m'"
      "dlist m' h ((us @ as) @ filter (\<lambda>x. \<not> P x) bs)" "\<forall>a. a \<notin> insert h (set (us @ as) \<union> set bs) \<longrightarrow> m' a = m2 a"
      using less.hyps [OF _ s(3), of "Some (hd (bs @ [h]))"] less.prems(2) vs by auto
    have "remove_matches_loop (Some h) isMatch pMatch g start m = Some m'"
      using s m' Some f by (subst remove_matches_loop.simps) (simp add: load_Some [OF dlist_linked [OF d]] dispose_def)
    moreover have "filter (\<lambda>x. \<not> P x) vs = as @ filter (\<lambda>x. \<not> P x) bs" using vs y by (simp add: filter_id_conv)
    ultimately show ?thesis using m' s(4) vs by auto
  qed
qed

lemma RemoveAllMatches_dlist:
  assumes "dlist m h xs" and "frees g"
    and "\<And>x. x \<in> set xs \<Longrightarrow> (case isMatch of None \<Rightarrow> Some (Some x = pMatch) | Some f \<Rightarrow> f (Some x) pMatch) = Some (P x)"
  shows "\<exists>m'. IotListDouble_RemoveAllMatches (Some h) isMatch pMatch g m = Some m' \<and> dlist m' h (filter (\<lambda>x. \<not> P x) xs)
    \<and> (\<forall>a. a \<notin> insert h (set xs) \<longrightarrow> m' a = m a)"
  using remove_matches_loop_dlist [of m h "[]" xs, OF _ assms(2,3)] assms(1)
  by (simp add: IotListDouble_RemoveAllMatches_def)

lemma RemoveFirstMatch_dlist:
  assumes "dlist m h xs"
    and "\<And>x. x \<in> set xs \<Longrightarrow> (case isMatch of None \<Rightarrow> Some (Some x = pMatch) | Some f \<Rightarrow> f (Some x) pMatch) = Some (P x)"
  shows "\<exists>m'. IotListDouble_RemoveFirstMatch (Some h) None isMatch pMatch m = Some (find P xs, m')
    \<and> dlist m' h (case find P xs of None \<Rightarrow> xs | Some x \<Rightarrow> remove1 x xs)"
proof (cases "find P xs")
  case None
  then show ?thesis using assms FindFirstMatch_dlist [OF assms]
    by (simp add: IotListDouble_RemoveFirstMatch_def)
next
  case (Some y)
  then have "y \<in> set xs" using find_split by fastforce
  then show ?thesis using Remove_dlist [OF assms(1)] FindFirstMatch_dlist [OF assms] Some
    by (auto simp: IotListDouble_RemoveFirstMatch_def)
qed

subsection \<open>First in, first out\<close>

text \<open>
  What a client of a queue needs: \<open>holds m q xs\<close> says that the queue \<open>q\<close> holds \<open>xs\<close> in the memory
  \<open>m\<close>, \<open>fresh m e\<close> that the element \<open>e\<close> is in no queue.
\<close>

locale fifo_queue =
  fixes holds :: "'m \<Rightarrow> 'q \<Rightarrow> 'e list \<Rightarrow> bool"
    and fresh :: "'m \<Rightarrow> 'e \<Rightarrow> bool"
    and enq :: "'q \<Rightarrow> 'e \<Rightarrow> 'm \<Rightarrow> 'm option"
    and deq :: "'q \<Rightarrow> 'm \<Rightarrow> ('e option \<times> 'm) option"
  assumes enq: "holds m q xs \<Longrightarrow> fresh m e \<Longrightarrow>
      \<exists>m'. enq q e m = Some m' \<and> holds m' q (xs @ [e]) \<and> (\<forall>e'. fresh m e' \<longrightarrow> e' \<noteq> e \<longrightarrow> fresh m' e')"
    and deq_Cons: "holds m q (x # xs) \<Longrightarrow>
      \<exists>m'. deq q m = Some (Some x, m') \<and> holds m' q xs \<and> fresh m' x \<and> (\<forall>e'. fresh m e' \<longrightarrow> fresh m' e')"
    and deq_Nil: "holds m q [] \<Longrightarrow> deq q m = Some (None, m)"
begin

text \<open>Elements put in one after the other, and a number of attempts to take one out.\<close>

primrec enq_all :: "'q \<Rightarrow> 'e list \<Rightarrow> 'm \<Rightarrow> 'm option" where
  "enq_all q [] m = Some m"
| "enq_all q (e # es) m = do { m \<leftarrow> enq q e m; enq_all q es m }"

primrec deq_many :: "'q \<Rightarrow> nat \<Rightarrow> 'm \<Rightarrow> ('e option list \<times> 'm) option" where
  "deq_many q 0 m = Some ([], m)"
| "deq_many q (Suc n) m = do { (e, m) \<leftarrow> deq q m; (es, m) \<leftarrow> deq_many q n m; Some (e # es, m) }"

lemma enq_all_holds:
  assumes "holds m q xs" and "distinct es" and "\<forall>e\<in>set es. fresh m e"
  shows "\<exists>m'. enq_all q es m = Some m' \<and> holds m' q (xs @ es)"
  using assms
proof (induction es arbitrary: m xs)
  case (Cons e es)
  then obtain m1 where "enq q e m = Some m1" "holds m1 q (xs @ [e])" "\<forall>e'. fresh m e' \<longrightarrow> e' \<noteq> e \<longrightarrow> fresh m1 e'"
    using enq [of m q xs e] by auto
  moreover have "\<exists>m'. enq_all q es m1 = Some m' \<and> holds m' q ((xs @ [e]) @ es)"
    using Cons calculation by (intro Cons.IH) auto
  ultimately show ?case by auto
qed simp

lemma deq_many_holds:
  assumes "holds m q xs"
  shows "\<exists>m'. deq_many q n m = Some (map Some (take n xs) @ replicate (n - length xs) None, m') \<and> holds m' q (drop n xs)"
  using assms
proof (induction n arbitrary: m xs)
  case (Suc n)
  show ?case
  proof (cases xs)
    case Nil
    then show ?thesis using Suc.prems Suc.IH [OF Suc.prems] deq_Nil [of m q] by auto
  next
    case (Cons x ys)
    then obtain m1 where "deq q m = Some (Some x, m1)" "holds m1 q ys" using Suc.prems deq_Cons [of m q x ys] by auto
    then show ?thesis using Suc.IH [of m1 ys] Cons by auto
  qed
qed simp

lemma first_in_first_out:
  assumes "holds m q xs" and "distinct es" and "\<forall>e\<in>set es. fresh m e"
  shows "\<exists>m' m''. enq_all q es m = Some m' \<and> deq_many q (length xs + length es) m' = Some (map Some (xs @ es), m'') \<and> holds m'' q []"
proof -
  obtain m' where m': "enq_all q es m = Some m'" "holds m' q (xs @ es)" using enq_all_holds [OF assms] by blast
  then show ?thesis using deq_many_holds [OF m'(2), of "length xs + length es"] by auto
qed

end

lemma unlinked_notin: "dlist m h xs \<Longrightarrow> unlinked m a \<Longrightarrow> a \<notin> insert h (set xs)"
  using dlist_first(1) [of m h xs] dlist_linked(1) [of m h _ a]
  by (auto simp: unlinked_iff in_set_conv_decomp)

interpretation dq: fifo_queue dlist unlinked
  "\<lambda>q e. IotDeQueue_EnqueueTail (Some q) (Some e)" "\<lambda>q. IotDeQueue_DequeueHead (Some q)"
proof
  fix m :: "'a links" and q xs e
  assume d: "dlist m q xs" and u: "unlinked m e"
  note n = unlinked_notin [OF d]
  have "e \<in> dom m" using u by (auto simp: unlinked_def)
  then obtain m' where "IotListDouble_InsertTail (Some q) (Some e) m = Some m'" "dlist m' q (xs @ [e])"
    "same_but (insert e (insert q (set xs))) m m'" using InsertTail_dlist [OF d] n [OF u] by blast
  moreover from this(3) have "\<forall>e'. unlinked m e' \<longrightarrow> e' \<noteq> e \<longrightarrow> unlinked m' e'"
    using n unlinked_same by fastforce
  ultimately show "\<exists>m'. IotDeQueue_EnqueueTail (Some q) (Some e) m = Some m' \<and> dlist m' q (xs @ [e])
      \<and> (\<forall>e'. unlinked m e' \<longrightarrow> e' \<noteq> e \<longrightarrow> unlinked m' e')" by (auto simp: deque_defs)
next
  fix m :: "'a links" and q x xs
  assume d: "dlist m q (x # xs)"
  note n = unlinked_notin [OF d]
  obtain m' where "IotListDouble_RemoveHead (Some q) m = Some (Some x, m')" "dlist m' q xs" "unlinked m' x"
    "same_but (insert q (set (x # xs))) m m'" using RemoveHead_dlist [OF d] by blast
  moreover from this(4) have "\<forall>e'. unlinked m e' \<longrightarrow> unlinked m' e'"
    using n unlinked_same by fastforce
  ultimately show "\<exists>m'. IotDeQueue_DequeueHead (Some q) m = Some (Some x, m') \<and> dlist m' q xs \<and> unlinked m' x
      \<and> (\<forall>e'. unlinked m e' \<longrightarrow> unlinked m' e')" by (auto simp: deque_defs)
next
  fix m :: "'a links" and q
  assume "dlist m q []"
  then show "IotDeQueue_DequeueHead (Some q) m = Some (None, m)" by (simp add: deque_defs RemoveHead_empty)
qed

subsection \<open>Properties\<close>

text \<open>A list at 0 with the elements 1, 2 and 3, and the links 4 and 5 that are in no list.\<close>

definition ref_links :: "nat links" where
  "ref_links = [0 \<mapsto> \<lparr>pPrevious = Some 3, pNext = Some 1\<rparr>, 1 \<mapsto> \<lparr>pPrevious = Some 0, pNext = Some 2\<rparr>,
     2 \<mapsto> \<lparr>pPrevious = Some 1, pNext = Some 3\<rparr>, 3 \<mapsto> \<lparr>pPrevious = Some 2, pNext = Some 0\<rparr>,
     4 \<mapsto> \<lparr>pPrevious = None, pNext = None\<rparr>, 5 \<mapsto> \<lparr>pPrevious = None, pNext = None\<rparr>]"

lemma ref_links_ok: "dlist ref_links 0 [1, 2, 3]" "unlinked ref_links 4" "unlinked ref_links 5"
  by (simp_all add: dlist_def unlinked_def ref_links_def nxt_def prv_def)

text \<open>
  Inserting into a sorted list keeps it sorted, puts the new element behind those that compare
  equal, and changes no link outside the list.
\<close>

theorem IotListDouble_InsertSorted_correct:
  fixes key :: "'a \<Rightarrow> 'k::linorder"
  assumes "dlist m h xs" and "c \<in> dom m" and "c \<notin> insert h (set xs)" and "sorted (map key xs)"
    and "\<And>x. x \<in> set xs \<Longrightarrow> cmp (Some c) (Some x) = Some (if key c < key x then -1 else if key x < key c then 1 else 0)"
  shows "\<exists>m' ys. IotListDouble_InsertSorted (Some h) (Some c) cmp m = Some m' \<and> dlist m' h ys
    \<and> ys = filter (\<lambda>x. key x \<le> key c) xs @ c # filter (\<lambda>x. key c < key x) xs \<and> sorted (map key ys)
    \<and> (\<forall>a. a \<notin> insert c (insert h (set xs)) \<longrightarrow> m' a = m a)"
proof -
  have "\<exists>m'. IotListDouble_InsertSorted (Some h) (Some c) cmp m = Some m'
    \<and> dlist m' h (takeWhile (\<lambda>x. \<not> key c < key x) xs @ c # dropWhile (\<lambda>x. \<not> key c < key x) xs)
    \<and> same_but (insert c (insert h (set xs))) m m'"
    by (rule InsertSorted_dlist [OF assms(1-3)]) (use assms(5) in auto)
  then obtain m' where m': "IotListDouble_InsertSorted (Some h) (Some c) cmp m = Some m'"
    "dlist m' h (takeWhile (\<lambda>x. \<not> key c < key x) xs @ c # dropWhile (\<lambda>x. \<not> key c < key x) xs)" "same_but (insert c (insert h (set xs))) m m'"
    by blast
  have eq: "takeWhile (\<lambda>x. \<not> key c < key x) xs = filter (\<lambda>x. key x \<le> key c) xs \<and> dropWhile (\<lambda>x. \<not> key c < key x) xs = filter (\<lambda>x. key c < key x) xs"
    using assms(4)
  proof (induction xs)
    case (Cons x xs)
    show ?case
    proof (cases "key c < key x")
      case True
      then have "\<forall>y \<in> set xs. key c < key y" using Cons.prems by auto
      then have "filter (\<lambda>y. key y \<le> key c) xs = []" "filter (\<lambda>y. key c < key y) xs = xs" by (auto simp: filter_empty_conv filter_id_conv not_le)
      then show ?thesis using True by auto
    qed (use Cons in auto)
  qed simp
  have "sorted (map key (filter (\<lambda>x. key x \<le> key c) xs @ c # filter (\<lambda>x. key c < key x) xs))"
    using takeWhile_sorted_insert [OF assms(4), of c] by (simp only: eq)
  then show ?thesis using m' eq by (auto simp: same_but_def)
qed

theorem IotListDouble_InsertSorted_correct_witness:
  "\<exists>m'. IotListDouble_InsertSorted (Some 0) (Some 4)
      (\<lambda>a b. Some (if the a mod 3 < the b div 2 then -1 else if the b div 2 < the a mod 3 then 1 else 0 :: int)) ref_links = Some m'
    \<and> dlist m' 0 [1, 2, 3, 4]"
proof -
  let ?key = "\<lambda>x :: nat. if x = 4 then 1 else x div 2"
  have "\<exists>m' ys. IotListDouble_InsertSorted (Some 0) (Some 4)
      (\<lambda>a b. Some (if the a mod 3 < the b div 2 then -1 else if the b div 2 < the a mod 3 then 1 else 0)) ref_links = Some m' \<and> dlist m' 0 ys
    \<and> ys = filter (\<lambda>x. ?key x \<le> ?key 4) [1, 2, 3] @ 4 # filter (\<lambda>x. ?key 4 < ?key x) [1, 2, 3] \<and> sorted (map ?key ys)
    \<and> (\<forall>a. a \<notin> insert 4 (insert 0 (set [1, 2, 3])) \<longrightarrow> m' a = ref_links a)"
    by (rule IotListDouble_InsertSorted_correct [OF ref_links_ok(1)]) (auto simp: ref_links_def)
  then show ?thesis by auto
qed

text \<open>
  Removing all matches leaves the elements that do not match, in their order; the function that
  frees the others may free their memory.
\<close>

theorem IotListDouble_RemoveAllMatches_correct:
  assumes "dlist m h xs" and "frees g"
    and "\<And>x. x \<in> set xs \<Longrightarrow> (case isMatch of None \<Rightarrow> Some (Some x = pMatch) | Some f \<Rightarrow> f (Some x) pMatch) = Some (P x)"
  shows "\<exists>m'. IotListDouble_RemoveAllMatches (Some h) isMatch pMatch g m = Some m' \<and> dlist m' h (filter (\<lambda>x. \<not> P x) xs)
    \<and> (\<forall>a. a \<notin> insert h (set xs) \<longrightarrow> m' a = m a)"
  by (rule RemoveAllMatches_dlist [OF assms])

theorem IotListDouble_RemoveAllMatches_correct_witness:
  "\<exists>m'. IotListDouble_RemoveAllMatches (Some 0) (Some (\<lambda>a b. Some (odd (the a)))) None (Some (\<lambda>a m. Some (m(the a := None)))) ref_links = Some m'
    \<and> dlist m' 0 [2]"
proof -
  have "frees (Some (\<lambda>a m. Some (m(the a := None) :: nat links)))" by (simp add: frees_def)
  from IotListDouble_RemoveAllMatches_correct [OF ref_links_ok(1) this, where isMatch = "Some (\<lambda>a b. Some (odd (the a)))" and P = odd] show ?thesis by auto
qed

text \<open>
  A queue is first in, first out: links put in at the tail one after the other come out at the head
  behind those that were there, in the same order, and then the queue is empty.
\<close>

theorem IotDeQueue_first_in_first_out:
  assumes "dlist m q xs" and "distinct es" and "\<forall>e \<in> set es. unlinked m e"
  shows "\<exists>m' m''. dq.enq_all q es m = Some m' \<and> dq.deq_many q (length xs + length es) m' = Some (map Some (xs @ es), m'') \<and> dlist m'' q []"
  by (rule dq.first_in_first_out [OF assms])

theorem IotDeQueue_first_in_first_out_witness:
  "\<exists>m' m''. dq.enq_all 0 [5, 4] ref_links = Some m' \<and> dq.deq_many 0 5 m' = Some (map Some [1, 2, 3, 5, 4], m'') \<and> dlist m'' 0 []"
  using IotDeQueue_first_in_first_out [OF ref_links_ok(1), of "[5, 4]"] ref_links_ok(2,3) by (simp add: eval_nat_numeral del: dq.deq_many.simps dq.enq_all.simps)

end
