(* ===== verification/Platform.thy ===== *)
theory Platform
  imports Prelude
begin

text \<open>
  The platform layer the libraries use on FreeRTOS: threads, mutexes and counting semaphores
  (iot_threads_freertos.c) and the clock and its timers (iot_clock_freertos.c). The kernel is not
  part of this repository. Its semaphores and mutexes are modelled by what its documentation says
  of them; what it decides (the tick count, whether there is memory, whether a task can be created)
  is an argument of the model, \<open>kernel\<close>, a record of functions on an opaque world.
\<close>

type_synonym u64 = "64 word"

record 'w kernel =
  vTaskSetTimeOutState :: "'w \<Rightarrow> (u32 \<times> u32) \<times> 'w"
  malloc :: "(nat \<Rightarrow> bool) \<Rightarrow> nat \<Rightarrow> 'w \<Rightarrow> nat option \<times> 'w"
  free :: "nat \<Rightarrow> 'w \<Rightarrow> 'w"
  xTaskCreate :: "int \<Rightarrow> u32 \<Rightarrow> 'w \<Rightarrow> bool \<times> 'w"
  pdMS_TO_TICKS :: "u32 \<Rightarrow> u32"

text \<open>
  \<open>malloc k live n w\<close> asks for \<open>n\<close> bytes while the blocks that satisfy \<open>live\<close> are in use. The
  documented behaviour: a block it returns is not one of these.
\<close>

definition fresh_blocks :: "'w kernel \<Rightarrow> bool" where
  "fresh_blocks k \<longleftrightarrow> (\<forall>live n w p w'. malloc k live n w = (Some p, w') \<longrightarrow> \<not> live p)"

lemma fresh_blocksD: "fresh_blocks k \<Longrightarrow> malloc k live n w = (Some p, w') \<Longrightarrow> \<not> live p"
  unfolding fresh_blocks_def by blast

subsection \<open>Counting semaphores\<close>

record semaphore =
  sem_count :: u32
  sem_max :: u32

definition IotSemaphore_Create :: "u32 \<Rightarrow> u32 \<Rightarrow> bool \<times> semaphore" where
  "IotSemaphore_Create initialValue maxValue = (True, \<lparr>sem_count = initialValue, sem_max = maxValue\<rparr>)"

definition IotSemaphore_GetCount :: "semaphore \<Rightarrow> u32" where
  "IotSemaphore_GetCount sem = sem_count sem"

text \<open>
  Waiting without limit (\<open>portMAX_DELAY\<close>) on a semaphore whose count is zero blocks the thread; the
  step is then not possible, \<open>None\<close>.
\<close>

definition IotSemaphore_Wait :: "semaphore \<Rightarrow> semaphore option" where
  "IotSemaphore_Wait sem = (if 0 < sem_count sem then Some (sem\<lparr>sem_count := sem_count sem - 1\<rparr>) else None)"

text \<open>A limited wait gives up with \<open>False\<close> when the count is still zero at its end.\<close>

definition IotSemaphore_TimedWait :: "semaphore \<Rightarrow> bool \<times> semaphore" where
  "IotSemaphore_TimedWait sem =
     (if 0 < sem_count sem then (True, sem\<lparr>sem_count := sem_count sem - 1\<rparr>) else (False, sem))"

definition IotSemaphore_TryWait :: "semaphore \<Rightarrow> bool \<times> semaphore" where
  "IotSemaphore_TryWait sem = IotSemaphore_TimedWait sem"

text \<open>A semaphore at its maximum stays there: the failure is only logged.\<close>

definition IotSemaphore_Post :: "semaphore \<Rightarrow> semaphore" where
  "IotSemaphore_Post sem = (if sem_count sem < sem_max sem then sem\<lparr>sem_count := sem_count sem + 1\<rparr> else sem)"

subsection \<open>Mutexes\<close>

text \<open>
  A mutex remembers whether it was created as recursive; the kernel remembers the task that holds
  it and how often. Only the holder can give it back.
\<close>

record iot_mutex =
  recursive :: bool
  holder :: "(nat \<times> nat) option"

definition IotMutex_Create :: "bool \<Rightarrow> bool \<times> iot_mutex" where
  "IotMutex_Create rec = (True, \<lparr>recursive = rec, holder = None\<rparr>)"

definition prIotMutexTimedLock :: "nat \<Rightarrow> iot_mutex \<Rightarrow> bool \<times> iot_mutex" where
  "prIotMutexTimedLock self m =
     (case holder m of
        None \<Rightarrow> (True, m\<lparr>holder := Some (self, 1)\<rparr>)
      | Some (t, n) \<Rightarrow>
          if recursive m \<and> t = self then (True, m\<lparr>holder := Some (t, n + 1)\<rparr>) else (False, m))"

text \<open>Locking without limit waits until the mutex can be had.\<close>

definition IotMutex_Lock :: "nat \<Rightarrow> iot_mutex \<Rightarrow> iot_mutex option" where
  "IotMutex_Lock self m = (case prIotMutexTimedLock self m of (True, m') \<Rightarrow> Some m' | (False, _) \<Rightarrow> None)"

definition IotMutex_TryLock :: "nat \<Rightarrow> iot_mutex \<Rightarrow> bool \<times> iot_mutex" where
  "IotMutex_TryLock self m = prIotMutexTimedLock self m"

definition IotMutex_Unlock :: "nat \<Rightarrow> iot_mutex \<Rightarrow> iot_mutex" where
  "IotMutex_Unlock self m =
     (case holder m of
        Some (t, n) \<Rightarrow> if t = self then m\<lparr>holder := if n \<le> 1 then None else Some (t, n - 1)\<rparr> else m
      | None \<Rightarrow> m)"

subsection \<open>Threads\<close>

text \<open>
  A new thread gets a block with its routine and argument, which it frees when the routine returns
  (\<open>_threadRoutineWrapper\<close>). The result is the block of the thread, or \<open>None\<close> for failure.
\<close>

definition Iot_CreateDetachedThread ::
  "'w kernel \<Rightarrow> nat \<Rightarrow> (nat \<Rightarrow> bool) \<Rightarrow> int \<Rightarrow> u32 \<Rightarrow> 'w \<Rightarrow> nat option \<times> 'w" where
  "Iot_CreateDetachedThread k sizeof_threadInfo live priority stackSize w =
     (case malloc k live sizeof_threadInfo w of
        (None, w) \<Rightarrow> (None, w)
      | (Some pThreadInfo, w) \<Rightarrow>
          (case xTaskCreate k priority stackSize w of
             (True, w) \<Rightarrow> (Some pThreadInfo, w)
           | (False, w) \<Rightarrow> (None, free k pThreadInfo w)))"

text \<open>What the wrapper does when the routine has returned.\<close>

definition threadRoutineWrapper_exit :: "'w kernel \<Rightarrow> nat \<Rightarrow> 'w \<Rightarrow> 'w" where
  "threadRoutineWrapper_exit k pThreadInfo w = free k pThreadInfo w"

lemma Iot_CreateDetachedThread_fresh:
  "fresh_blocks k \<Longrightarrow> Iot_CreateDetachedThread k n live pr st w = (Some i, w') \<Longrightarrow> \<not> live i"
  by (auto simp: Iot_CreateDetachedThread_def dest: fresh_blocksD split: prod.splits option.splits bool.splits)

subsection \<open>The clock\<close>

definition configTICK_RATE_HZ :: u32 where
  "configTICK_RATE_HZ = 1000"

definition MILLISECONDS_PER_TICK :: u64 where
  "MILLISECONDS_PER_TICK = 1000 div ucast configTICK_RATE_HZ"

text \<open>The kernel reports how often its tick count has overflowed, a signed number, and the count.\<close>

definition IotClock_GetTimeMs :: "'w kernel \<Rightarrow> 'w \<Rightarrow> u64 \<times> 'w" where
  "IotClock_GetTimeMs k w =
     (case vTaskSetTimeOutState k w of ((xOverflowCount, xTimeOnEntering), w) \<Rightarrow>
        let ullTickCount = push_bit 32 (scast xOverflowCount) + ucast xTimeOnEntering
        in (ullTickCount * MILLISECONDS_PER_TICK, w))"

text \<open>
  A timer: its period (0 for a single shot), and the time in ticks the kernel's timer is set to
  when it is active. Setting it to zero ticks stops in an assertion of the kernel.
\<close>

record iot_timer =
  xTimerPeriod :: u32
  active :: "u32 option"

definition IotClock_TimerCreate :: "bool \<times> iot_timer" where
  "IotClock_TimerCreate = (True, \<lparr>xTimerPeriod = 0, active = None\<rparr>)"

definition xTimerChangePeriod :: "u32 \<Rightarrow> iot_timer \<Rightarrow> iot_timer option" where
  "xTimerChangePeriod ticks t = (if 0 < ticks then Some (t\<lparr>active := Some ticks\<rparr>) else None)"

definition IotClock_TimerArm :: "'w kernel \<Rightarrow> u32 \<Rightarrow> u32 \<Rightarrow> iot_timer \<Rightarrow> (bool \<times> iot_timer) option" where
  "IotClock_TimerArm k relativeTimeoutMs periodMs t = do {
     t \<leftarrow> xTimerChangePeriod (pdMS_TO_TICKS k relativeTimeoutMs) (t\<lparr>xTimerPeriod := pdMS_TO_TICKS k periodMs\<rparr>);
     Some (True, t) }"

definition IotClock_TimerDestroy :: "iot_timer \<Rightarrow> iot_timer" where
  "IotClock_TimerDestroy t = (if active t \<noteq> None then t\<lparr>active := None\<rparr> else t)"

text \<open>
  The timer expires: the kernel makes it inactive and calls \<open>prvTimerCallback\<close>, which sets a
  periodic timer again and then runs the routine of the timer, \<open>routine\<close>.
\<close>

definition prvTimerCallback :: "(iot_timer \<Rightarrow> 'r option) \<Rightarrow> iot_timer \<Rightarrow> 'r option" where
  "prvTimerCallback routine t = do {
     t \<leftarrow> (if 0 < xTimerPeriod t then xTimerChangePeriod (xTimerPeriod t) (t\<lparr>active := None\<rparr>) else Some (t\<lparr>active := None\<rparr>));
     routine t }"

subsection \<open>Lemmas\<close>

text \<open>
  The time is exact: overflows and ticks together give the milliseconds since the start, for as
  long as the kernel's signed overflow counter does not overflow itself.
\<close>

lemma MILLISECONDS_PER_TICK_1: "MILLISECONDS_PER_TICK = 1"
  by (simp add: MILLISECONDS_PER_TICK_def configTICK_RATE_HZ_def)

lemma IotClock_GetTimeMs_exact:
  assumes "vTaskSetTimeOutState k w = ((v, t), w')" and "unat v < 2 ^ 31"
  shows "\<exists>ms. IotClock_GetTimeMs k w = (ms, w') \<and> unat ms = unat v * 2 ^ 32 + unat t"
proof -
  have "int (unat v) < int (2 ^ 31)" using assms(2) by (simp only: of_nat_less_iff)
  then have "uint v < 2 ^ 31" by simp
  then have "sint v = int (unat v)"
    unfolding sint_uint using uint_ge_0 [of v] by (subst signed_take_bit_int_eq_self) (simp_all add: order_trans [of _ 0])
  then have "scast v = (of_nat (unat v) :: u64)"
    by (simp add: scast_eq)
  moreover have "ucast t = (of_nat (unat t) :: u64)" by simp
  ultimately have "push_bit 32 (scast v) + ucast t = (of_nat (unat v * 2 ^ 32 + unat t) :: u64)"
    by (simp add: push_bit_eq_mult)
  moreover have "unat v * 2 ^ 32 + unat t < 2 ^ 64" using assms(2) unsigned_less [of t, where ?'a = nat] by simp
  then have "unat (of_nat (unat v * 2 ^ 32 + unat t) :: u64) = unat v * 2 ^ 32 + unat t"
    by (simp add: unat_of_nat del: of_nat_add of_nat_mult)
  ultimately show ?thesis using assms(1)
    by (simp add: IotClock_GetTimeMs_def MILLISECONDS_PER_TICK_1 Let_def)
qed

end
