(* ===== verification/TaskPool.thy ===== *)
theory TaskPool
  imports LinearContainers Platform CStrings
begin

text \<open>
  The task pool (iot_taskpool.c): jobs wait in a queue for a worker thread, in a list sorted by
  time for the timer, or in a cache for their next use. The model keeps the lists as the rings of
  links they are (LinearContainers), the objects as typed memory, and every machine integer at its
  width. A critical section is one step, because the pool's mutex makes it one; what a thread does
  between two critical sections is a step of its own (TaskPoolRuns).
\<close>

subsection \<open>Types\<close>

datatype IotTaskPoolError =
  IOT_TASKPOOL_SUCCESS | IOT_TASKPOOL_BAD_PARAMETER | IOT_TASKPOOL_ILLEGAL_OPERATION
| IOT_TASKPOOL_NO_MEMORY | IOT_TASKPOOL_SHUTDOWN_IN_PROGRESS | IOT_TASKPOOL_CANCEL_FAILED

datatype IotTaskPoolJobStatus =
  STATUS_READY | STATUS_SCHEDULED | STATUS_DEFERRED | STATUS_COMPLETED | STATUS_CANCELED | STATUS_UNDEFINED

text \<open>
  The address of a link: one of the three sentinels in the pool structure, or the first member of
  the job or timer event at an address. The address of a job is that of its link.
\<close>

datatype link_ref = DispatchQueue | TimerEventsList | FreeList | JobLink nat | EventLink nat

text \<open>The members of a job and of a timer event beside the link.\<close>

record ('c, 'x) taskPoolJob =
  userCallback :: "'c option"
  pUserContext :: "'x option"
  flags :: u32
  status :: IotTaskPoolJobStatus

record taskPoolTimerEvent =
  expirationTime :: u64
  pJob :: nat

record IotTaskPoolInfo =
  info_minThreads :: u32
  info_maxThreads :: u32
  info_stackSize :: u32
  info_priority :: int

text \<open>
  Where a worker thread is: before its first step, before or after the wait for a notification
  (with its result), inside the callback of a job (with the variable \<open>running\<close>), or at its end.
\<close>

datatype worker_pc = Starting | Waiting | Awake bool | Running nat bool | Exited

datatype pool_ref = IotSystemTaskPool | HeapPool nat

text \<open>
  A pool and the memory it works on: the links, the jobs and the timer events that are live, the
  members of the pool structure, the threads created for it (each with the block it owns), and the
  world the kernel works on. \<open>storage\<close> is the pool structure when it is live.
\<close>

record ('c, 'x, 'w) taskPool =
  storage :: "pool_ref option"
  mem :: "link_ref links"
  jobs :: "nat \<rightharpoonup> ('c, 'x) taskPoolJob"
  events :: "nat \<rightharpoonup> taskPoolTimerEvent"
  freeCount :: u32
  minThreads :: u32
  maxThreads :: u32
  activeThreads :: u32
  activeJobs :: u32
  stackSize :: u32
  priority :: int
  dispatchSignal :: semaphore
  startStopSignal :: semaphore
  timer :: iot_timer
  workers :: "(nat \<times> worker_pc) list"
  world :: 'w

text \<open>The kernel, and the sizes of the objects the allocator is asked for.\<close>

record 'w platform =
  rtos :: "'w kernel"
  sizeof_taskPool :: nat
  sizeof_taskPoolJob :: nat
  sizeof_taskPoolTimerEvent :: nat
  sizeof_threadInfo :: nat

definition IOT_TASK_POOL_INTERNAL_STATIC :: u32 where
  "IOT_TASK_POOL_INTERNAL_STATIC = 1"

definition IOT_TASKPOOL_JOB_HIGH_PRIORITY :: u32 where
  "IOT_TASKPOOL_JOB_HIGH_PRIORITY = 1"

definition IOT_TASKPOOL_JOBS_RECYCLE_LIMIT :: u32 where
  "IOT_TASKPOOL_JOBS_RECYCLE_LIMIT = 8"

definition TASKPOOL_MAX_SEM_VALUE :: u32 where
  "TASKPOOL_MAX_SEM_VALUE = 65535"

definition TASKPOOL_JOB_RESCHEDULE_DELAY_MS :: u64 where
  "TASKPOOL_JOB_RESCHEDULE_DELAY_MS = 10"

subsection \<open>Memory\<close>

text \<open>\<open>IotLink_Container\<close>: the object a link lies in.\<close>

fun job_of :: "link_ref option \<Rightarrow> nat option" where
  "job_of (Some (JobLink p)) = Some p"
| "job_of _ = None"

fun event_of :: "link_ref option \<Rightarrow> nat option" where
  "event_of (Some (EventLink e)) = Some e"
| "event_of _ = None"

text \<open>The blocks in use, which a new block does not overlap.\<close>

definition live :: "('c, 'x, 'w) taskPool \<Rightarrow> nat \<Rightarrow> bool" where
  "live s p \<longleftrightarrow> jobs s p \<noteq> None \<or> events s p \<noteq> None \<or> p \<in> fst ` set (filter (\<lambda>t. snd t \<noteq> Exited) (workers s)) \<or> storage s = Some (HeapPool p)"

text \<open>Locking the mutex of a pool needs the pool's storage.\<close>

definition TASKPOOL_ENTER_CRITICAL :: "('c, 'x, 'w) taskPool \<Rightarrow> unit option" where
  "TASKPOOL_ENTER_CRITICAL s = (if storage s \<noteq> None then Some () else None)"

text \<open>A handle that is not \<open>NULL\<close> has to be the handle of the pool.\<close>

definition pool_at :: "pool_ref \<Rightarrow> ('c, 'x, 'w) taskPool \<Rightarrow> unit option" where
  "pool_at h s = (if storage s = Some h then Some () else None)"

subsection \<open>Jobs\<close>

definition initJobsCache :: "('c, 'x, 'w) taskPool \<Rightarrow> ('c, 'x, 'w) taskPool option" where
  "initJobsCache s = do {
     m \<leftarrow> IotDeQueue_Create (Some FreeList) (mem s);
     Some (s\<lparr>mem := m, freeCount := 0\<rparr>) }"

text \<open>
  The storage of a static job belongs to the user; it is known to the model from here on. The flags
  of a job from the cache or the heap are left as they are.
\<close>

definition initializeJob ::
  "nat \<Rightarrow> 'c option \<Rightarrow> 'x option \<Rightarrow> bool \<Rightarrow> ('c, 'x, 'w) taskPool \<Rightarrow> ('c, 'x, 'w) taskPool option" where
  "initializeJob p callback context isStatic s = do {
     fl \<leftarrow> (if isStatic then Some IOT_TASK_POOL_INTERNAL_STATIC else map_option flags (jobs s p));
     Some (s\<lparr>mem := (mem s)(JobLink p \<mapsto> \<lparr>pPrevious = None, pNext = None\<rparr>),
       jobs := (jobs s)(p \<mapsto> \<lparr>userCallback = callback, pUserContext = context, flags = fl, status = STATUS_READY\<rparr>)\<rparr>) }"

definition fetchOrAllocateJob ::
  "'w platform \<Rightarrow> ('c, 'x, 'w) taskPool \<Rightarrow> (nat option \<times> ('c, 'x, 'w) taskPool) option" where
  "fetchOrAllocateJob pf s = do {
     (pLink, m) \<leftarrow> IotListDouble_RemoveHead (Some FreeList) (mem s);
     let s = s\<lparr>mem := m\<rparr>;
     if pLink \<noteq> None
     then do {
       p \<leftarrow> job_of pLink;
       if 0 < freeCount s then Some (Some p, s\<lparr>freeCount := freeCount s - 1\<rparr>) else None }
     else
       (case malloc (rtos pf) (live s) (sizeof_taskPoolJob pf) (world s) of
          (Some p, w) \<Rightarrow>
            Some (Some p, s\<lparr>world := w, mem := (mem s)(JobLink p \<mapsto> \<lparr>pPrevious = None, pNext = None\<rparr>),
              jobs := (jobs s)(p \<mapsto> \<lparr>userCallback = None, pUserContext = None, flags = 0, status = STATUS_READY\<rparr>)\<rparr>)
        | (None, w) \<Rightarrow> Some (None, s\<lparr>world := w\<rparr>)) }"

definition destroyJob :: "'w platform \<Rightarrow> nat \<Rightarrow> ('c, 'x, 'w) taskPool \<Rightarrow> ('c, 'x, 'w) taskPool option" where
  "destroyJob pf p s = do {
     j \<leftarrow> jobs s p;
     let s = s\<lparr>jobs := (jobs s)(p \<mapsto> j\<lparr>userCallback := None, pUserContext := None, status := STATUS_UNDEFINED\<rparr>)\<rparr>;
     Some (if flags j AND IOT_TASK_POOL_INTERNAL_STATIC = 0
       then s\<lparr>jobs := (jobs s)(p := None), mem := (mem s)(JobLink p := None), world := free (rtos pf) p (world s)\<rparr>
       else s) }"

definition recycleJob :: "'w platform \<Rightarrow> nat \<Rightarrow> ('c, 'x, 'w) taskPool \<Rightarrow> ('c, 'x, 'w) taskPool option" where
  "recycleJob pf p s = do {
     linked \<leftarrow> IotLink_IsLinked (Some (JobLink p)) (mem s);
     if \<not> linked
     then if freeCount s < IOT_TASKPOOL_JOBS_RECYCLE_LIMIT
       then do {
         j \<leftarrow> jobs s p;
         m \<leftarrow> IotListDouble_InsertTail (Some FreeList) (Some (JobLink p)) (mem s);
         let s = s\<lparr>jobs := (jobs s)(p \<mapsto> j\<lparr>userCallback := None, pUserContext := None, status := STATUS_UNDEFINED\<rparr>),
           mem := m, freeCount := freeCount s + 1\<rparr>;
         if 1 \<le> freeCount s then Some s else None }
       else destroyJob pf p s
     else None }"

definition set_status :: "nat \<Rightarrow> IotTaskPoolJobStatus \<Rightarrow> ('c, 'x, 'w) taskPool \<Rightarrow> ('c, 'x, 'w) taskPool option" where
  "set_status p st s = do { j \<leftarrow> jobs s p; Some (s\<lparr>jobs := (jobs s)(p \<mapsto> j\<lparr>status := st\<rparr>)\<rparr>) }"

subsection \<open>Shutdown\<close>

definition IsShutdownStarted :: "('c, 'x, 'w) taskPool \<Rightarrow> bool" where
  "IsShutdownStarted s \<longleftrightarrow> maxThreads s = 0"

primrec post_times :: "nat \<Rightarrow> semaphore \<Rightarrow> semaphore" where
  "post_times 0 sem = sem"
| "post_times (Suc n) sem = post_times n (IotSemaphore_Post sem)"

definition signalShutdown :: "u32 \<Rightarrow> ('c, 'x, 'w) taskPool \<Rightarrow> ('c, 'x, 'w) taskPool" where
  "signalShutdown threads s = s\<lparr>maxThreads := 0, dispatchSignal := post_times (unat threads) (dispatchSignal s)\<rparr>"

subsection \<open>The steps of a worker thread\<close>

text \<open>The first thing a worker does is to report that it is ready.\<close>

definition worker_start :: "nat \<Rightarrow> ('c, 'x, 'w) taskPool \<Rightarrow> ('c, 'x, 'w) taskPool option" where
  "worker_start i s =
     (if i < length (workers s) \<and> snd (workers s ! i) = Starting
      then Some (s\<lparr>startStopSignal := IotSemaphore_Post (startStopSignal s),
        workers := (workers s)[i := (fst (workers s ! i), Waiting)]\<rparr>)
      else None)"

text \<open>The wait for a notification, until one can be taken or the time is over.\<close>

definition worker_wait :: "nat \<Rightarrow> ('c, 'x, 'w) taskPool \<Rightarrow> ('c, 'x, 'w) taskPool option" where
  "worker_wait i s =
     (if i < length (workers s) \<and> snd (workers s ! i) = Waiting
      then (case IotSemaphore_TimedWait (dispatchSignal s) of
        (jobAvailable, sem) \<Rightarrow>
          Some (s\<lparr>dispatchSignal := sem, workers := (workers s)[i := (fst (workers s ! i), Awake jobAvailable)]\<rparr>))
      else None)"

text \<open>The routine returns to the wrapper, which frees the block of the thread.\<close>

definition worker_exit :: "'w platform \<Rightarrow> nat \<Rightarrow> ('c, 'x, 'w) taskPool \<Rightarrow> ('c, 'x, 'w) taskPool" where
  "worker_exit pf i s =
     s\<lparr>world := threadRoutineWrapper_exit (rtos pf) (fst (workers s ! i)) (world s),
       workers := (workers s)[i := (fst (workers s ! i), Exited)]\<rparr>"

text \<open>
  Taking the first job of the queue, its status set to 'executing', and entering its callback.
  The assertions in front of the call are checked with the removal.
\<close>

definition take_job :: "('c, 'x, 'w) taskPool \<Rightarrow> (nat option \<times> ('c, 'x, 'w) taskPool) option" where
  "take_job s = do {
     (pFirst, m) \<leftarrow> IotDeQueue_DequeueHead (Some DispatchQueue) (mem s);
     let s = s\<lparr>mem := m\<rparr>;
     if pFirst \<noteq> None
     then do {
       p \<leftarrow> job_of pFirst;
       j \<leftarrow> jobs s p;
       s \<leftarrow> set_status p STATUS_COMPLETED s;
       linked \<leftarrow> IotLink_IsLinked (Some (JobLink p)) (mem s);
       if \<not> linked \<and> userCallback j \<noteq> None then Some (Some p, s) else None }
     else Some (None, s) }"

text \<open>
  The critical section after the wait: the thread may leave because the pool is shut down, because
  there are too many threads, or because it waited in vain; it takes a job if it was notified.
\<close>

definition worker_wake :: "'w platform \<Rightarrow> nat \<Rightarrow> ('c, 'x, 'w) taskPool \<Rightarrow> ('c, 'x, 'w) taskPool option" where
  "worker_wake pf i s = do {
     _ \<leftarrow> TASKPOOL_ENTER_CRITICAL s;
     if i < length (workers s)
     then (case snd (workers s ! i) of
       Awake jobAvailable \<Rightarrow>
         if IsShutdownStarted s
         then
           let s = s\<lparr>activeThreads := activeThreads s - 1\<rparr>;
               s = s\<lparr>startStopSignal := IotSemaphore_Post (startStopSignal s)\<rparr>
           in Some (worker_exit pf i s)
         else
           let leave = (activeThreads s > maxThreads s \<or> \<not> jobAvailable \<and> activeThreads s > minThreads s);
               s = (if leave then s\<lparr>activeThreads := activeThreads s - 1\<rparr> else s)
           in do {
             (job, s) \<leftarrow> (if jobAvailable then take_job s else Some (None, s));
             Some (case job of
               Some p \<Rightarrow> s\<lparr>workers := (workers s)[i := (fst (workers s ! i), Running p (\<not> leave))]\<rparr>
             | None \<Rightarrow>
                 if leave then worker_exit pf i s
                 else s\<lparr>workers := (workers s)[i := (fst (workers s ! i), Waiting)]\<rparr>) }
     | _ \<Rightarrow> None)
     else None }"

text \<open>The callback has returned: the thread ends, or looks for the next job.\<close>

definition worker_done :: "'w platform \<Rightarrow> nat \<Rightarrow> ('c, 'x, 'w) taskPool \<Rightarrow> ('c, 'x, 'w) taskPool option" where
  "worker_done pf i s =
     (if i < length (workers s)
      then (case snd (workers s ! i) of
        Running p running \<Rightarrow>
          if \<not> running then Some (worker_exit pf i s)
          else do {
            _ \<leftarrow> TASKPOOL_ENTER_CRITICAL s;
            (job, s) \<leftarrow> take_job (s\<lparr>activeJobs := activeJobs s - 1\<rparr>);
            Some (s\<lparr>workers := (workers s)[i := (fst (workers s ! i),
              case job of Some p \<Rightarrow> Running p True | None \<Rightarrow> Waiting)]\<rparr>) }
      | _ \<Rightarrow> None)
      else None)"

subsection \<open>Scheduling\<close>

definition create_worker :: "'w platform \<Rightarrow> ('c, 'x, 'w) taskPool \<Rightarrow> bool \<times> ('c, 'x, 'w) taskPool" where
  "create_worker pf s =
     (case Iot_CreateDetachedThread (rtos pf) (sizeof_threadInfo pf) (live s) (priority s) (stackSize s) (world s) of
        (Some i, w) \<Rightarrow> (True, s\<lparr>world := w, workers := workers s @ [(i, Starting)]\<rparr>)
      | (None, w) \<Rightarrow> (False, s\<lparr>world := w\<rparr>))"

text \<open>
  The creator of a worker waits until the worker has started. Nobody else reports to this semaphore
  while the pool is not shut down.
\<close>

definition wait_for_start :: "nat \<Rightarrow> ('c, 'x, 'w) taskPool \<Rightarrow> ('c, 'x, 'w) taskPool option" where
  "wait_for_start i s = do {
     s \<leftarrow> worker_start i s;
     sem \<leftarrow> IotSemaphore_Wait (startStopSignal s);
     Some (s\<lparr>startStopSignal := sem\<rparr>) }"

text \<open>
  When all threads are busy, a high priority job must have a new thread, and another job gets one
  while there are fewer than the maximum.
\<close>

definition must_grow :: "u32 \<Rightarrow> u32 \<Rightarrow> u32 \<Rightarrow> bool" where
  "must_grow fl active_threads active_jobs \<longleftrightarrow>
     active_threads \<le> active_jobs \<and> fl AND IOT_TASKPOOL_JOB_HIGH_PRIORITY = IOT_TASKPOOL_JOB_HIGH_PRIORITY"

definition should_grow :: "u32 \<Rightarrow> u32 \<Rightarrow> u32 \<Rightarrow> u32 \<Rightarrow> bool" where
  "should_grow fl active_threads active_jobs max_threads \<longleftrightarrow>
     active_threads \<le> active_jobs \<and> \<not> fl AND IOT_TASKPOOL_JOB_HIGH_PRIORITY = IOT_TASKPOOL_JOB_HIGH_PRIORITY
     \<and> active_threads < max_threads"

definition scheduleInternal ::
  "'w platform \<Rightarrow> nat \<Rightarrow> u32 \<Rightarrow> ('c, 'x, 'w) taskPool \<Rightarrow> (IotTaskPoolError \<times> ('c, 'x, 'w) taskPool) option" where
  "scheduleInternal pf p fl s = do {
     s \<leftarrow> set_status p STATUS_SCHEDULED s;
     let s = s\<lparr>activeJobs := activeJobs s + 1\<rparr>;
     let mustGrow = must_grow fl (activeThreads s) (activeJobs s);
     let shouldGrow = should_grow fl (activeThreads s) (activeJobs s) (maxThreads s);
     (st, s) \<leftarrow>
       (if mustGrow \<or> shouldGrow
        then (case create_worker pf s of
            (True, s) \<Rightarrow> do {
              s \<leftarrow> wait_for_start (length (workers s) - 1) s;
              Some (IOT_TASKPOOL_SUCCESS, s\<lparr>activeThreads := activeThreads s + 1\<rparr>) }
          | (False, s) \<Rightarrow> Some (if mustGrow then IOT_TASKPOOL_NO_MEMORY else IOT_TASKPOOL_SUCCESS, s))
        else Some (IOT_TASKPOOL_SUCCESS, s));
     if st = IOT_TASKPOOL_SUCCESS
     then do {
       m \<leftarrow> (if mustGrow then IotDeQueue_EnqueueHead (Some DispatchQueue) (Some (JobLink p)) (mem s)
             else IotDeQueue_EnqueueTail (Some DispatchQueue) (Some (JobLink p)) (mem s));
       Some (st, s\<lparr>mem := m, dispatchSignal := IotSemaphore_Post (dispatchSignal s)\<rparr>) }
     else if mustGrow then Some (st, s\<lparr>activeJobs := activeJobs s - 1\<rparr>)
     else None }"

subsection \<open>Timer events\<close>

definition matchJobByPointer ::
  "('c, 'x, 'w) taskPool \<Rightarrow> link_ref option \<Rightarrow> link_ref option \<Rightarrow> bool option" where
  "matchJobByPointer s pLink pMatch = do {
     e \<leftarrow> event_of pLink;
     ev \<leftarrow> events s e;
     Some (pMatch = Some (JobLink (pJob ev))) }"

definition timerEventCompare ::
  "('c, 'x, 'w) taskPool \<Rightarrow> link_ref option \<Rightarrow> link_ref option \<Rightarrow> int option" where
  "timerEventCompare s pTimerEventLink1 pTimerEventLink2 = do {
     e1 \<leftarrow> event_of pTimerEventLink1; pTimerEvent1 \<leftarrow> events s e1;
     e2 \<leftarrow> event_of pTimerEventLink2; pTimerEvent2 \<leftarrow> events s e2;
     Some (if expirationTime pTimerEvent1 < expirationTime pTimerEvent2 then -1
       else if expirationTime pTimerEvent1 > expirationTime pTimerEvent2 then 1
       else 0) }"

text \<open>The relative time the timer is set to for an event: late jobs get ten milliseconds.\<close>

definition reschedule_delta :: "u64 \<Rightarrow> u64 \<Rightarrow> u64" where
  "reschedule_delta expiration now =
     (let delta = (if expiration > now then expiration - now else 0)
      in if delta < TASKPOOL_JOB_RESCHEDULE_DELAY_MS then TASKPOOL_JOB_RESCHEDULE_DELAY_MS else delta)"

definition rescheduleDeferredJobsTimer ::
  "'w platform \<Rightarrow> nat \<Rightarrow> ('c, 'x, 'w) taskPool \<Rightarrow> ('c, 'x, 'w) taskPool option" where
  "rescheduleDeferredJobsTimer pf e s =
     (case IotClock_GetTimeMs (rtos pf) (world s) of (now, w) \<Rightarrow> do {
        ev \<leftarrow> events s e;
        let delta = reschedule_delta (expirationTime ev) now;
        (_, t) \<leftarrow> (if 0 < delta then IotClock_TimerArm (rtos pf) (ucast delta) 0 (timer s) else None);
        Some (s\<lparr>world := w, timer := t\<rparr>) })"

definition FreeTimerEvent :: "'w platform \<Rightarrow> nat \<Rightarrow> ('c, 'x, 'w) taskPool \<Rightarrow> ('c, 'x, 'w) taskPool option" where
  "FreeTimerEvent pf e s =
     (if events s e \<noteq> None
      then Some (s\<lparr>mem := (mem s)(EventLink e := None), events := (events s)(e := None),
        world := free (rtos pf) e (world s)\<rparr>)
      else None)"

subsection \<open>Cancelling\<close>

definition cancel_deferred ::
  "'w platform \<Rightarrow> nat \<Rightarrow> ('c, 'x, 'w) taskPool \<Rightarrow> ('c, 'x, 'w) taskPool option" where
  "cancel_deferred pf p s = do {
     pTimerEventLink \<leftarrow> IotListDouble_FindFirstMatch (Some TimerEventsList) None (Some (matchJobByPointer s)) (Some (JobLink p)) (mem s);
     if pTimerEventLink \<noteq> None
     then do {
       pHeadLink \<leftarrow> IotListDouble_PeekHead (Some TimerEventsList) (mem s);
       let shouldReschedule = (pHeadLink = pTimerEventLink);
       m \<leftarrow> IotListDouble_Remove pTimerEventLink (mem s);
       e \<leftarrow> event_of pTimerEventLink;
       s \<leftarrow> FreeTimerEvent pf e (s\<lparr>mem := m\<rparr>);
       if shouldReschedule
       then do {
         pNextTimerEventLink \<leftarrow> IotListDouble_PeekHead (Some TimerEventsList) (mem s);
         if pNextTimerEventLink \<noteq> None
         then do { e' \<leftarrow> event_of pNextTimerEventLink; rescheduleDeferredJobsTimer pf e' s }
         else Some s }
       else Some s }
     else None }"

definition tryCancelInternal ::
  "'w platform \<Rightarrow> nat \<Rightarrow> ('c, 'x, 'w) taskPool \<Rightarrow> ((IotTaskPoolError \<times> IotTaskPoolJobStatus) \<times> ('c, 'x, 'w) taskPool) option" where
  "tryCancelInternal pf p s = do {
     j \<leftarrow> jobs s p;
     let currentStatus = status j;
     if currentStatus \<in> {STATUS_READY, STATUS_DEFERRED, STATUS_SCHEDULED, STATUS_CANCELED}
     then do {
       s \<leftarrow> set_status p STATUS_CANCELED s;
       s \<leftarrow> (if currentStatus = STATUS_SCHEDULED
         then do {
           linked \<leftarrow> IotLink_IsLinked (Some (JobLink p)) (mem s);
           if linked
           then do { m \<leftarrow> IotDeQueue_Remove (Some (JobLink p)) (mem s); Some (s\<lparr>mem := m\<rparr>) }
           else None }
         else if currentStatus = STATUS_DEFERRED then cancel_deferred pf p s
         else Some s);
       Some ((IOT_TASKPOOL_SUCCESS, currentStatus), s) }
     else Some ((IOT_TASKPOOL_CANCEL_FAILED, currentStatus), s) }"

definition trySafeExtraction ::
  "'w platform \<Rightarrow> nat \<Rightarrow> bool \<Rightarrow> ('c, 'x, 'w) taskPool \<Rightarrow> (IotTaskPoolError \<times> ('c, 'x, 'w) taskPool) option" where
  "trySafeExtraction pf p atCompletion s = do {
     j \<leftarrow> jobs s p;
     linked \<leftarrow> IotLink_IsLinked (Some (JobLink p)) (mem s);
     if \<not> atCompletion \<and> status j = STATUS_COMPLETED then Some (IOT_TASKPOOL_ILLEGAL_OPERATION, s)
     else if status j = STATUS_SCHEDULED \<or> status j = STATUS_DEFERRED
     then do {
       ((st, _), s) \<leftarrow> tryCancelInternal pf p s;
       Some (if st = IOT_TASKPOOL_CANCEL_FAILED then IOT_TASKPOOL_ILLEGAL_OPERATION else st, s) }
     else if linked
     then if flags j AND IOT_TASK_POOL_INTERNAL_STATIC = 0
       then do { m \<leftarrow> IotListDouble_Remove (Some (JobLink p)) (mem s); Some (IOT_TASKPOOL_SUCCESS, s\<lparr>mem := m\<rparr>) }
       else None
     else Some (IOT_TASKPOOL_SUCCESS, s) }"

subsection \<open>Operations on jobs\<close>

text \<open>\<open>ppJob\<close> tells whether the pointer for the result is not \<open>NULL\<close>; the result is the handle stored there.\<close>

definition IotTaskPool_CreateJob ::
  "'c option \<Rightarrow> 'x option \<Rightarrow> nat option \<Rightarrow> bool \<Rightarrow> ('c, 'x, 'w) taskPool
    \<Rightarrow> ((IotTaskPoolError \<times> nat option) \<times> ('c, 'x, 'w) taskPool) option" where
  "IotTaskPool_CreateJob callback context pJobStorage ppJob s =
     (case pJobStorage of
        None \<Rightarrow> Some ((IOT_TASKPOOL_BAD_PARAMETER, None), s)
      | Some p \<Rightarrow>
          if callback = None \<or> \<not> ppJob then Some ((IOT_TASKPOOL_BAD_PARAMETER, None), s)
          else do { s \<leftarrow> initializeJob p callback context True s; Some ((IOT_TASKPOOL_SUCCESS, Some p), s) })"

definition IotTaskPool_CreateRecyclableJob ::
  "'w platform \<Rightarrow> pool_ref option \<Rightarrow> 'c option \<Rightarrow> 'x option \<Rightarrow> bool \<Rightarrow> ('c, 'x, 'w) taskPool
    \<Rightarrow> ((IotTaskPoolError \<times> nat option) \<times> ('c, 'x, 'w) taskPool) option" where
  "IotTaskPool_CreateRecyclableJob pf taskPoolHandle callback context ppJob s =
     (case taskPoolHandle of
        None \<Rightarrow> Some ((IOT_TASKPOOL_BAD_PARAMETER, None), s)
      | Some h \<Rightarrow>
          if callback = None \<or> \<not> ppJob then Some ((IOT_TASKPOOL_BAD_PARAMETER, None), s)
          else do {
            _ \<leftarrow> pool_at h s;
            _ \<leftarrow> TASKPOOL_ENTER_CRITICAL s;
            if IsShutdownStarted s then Some ((IOT_TASKPOOL_SHUTDOWN_IN_PROGRESS, None), s)
            else do {
              (pTempJob, s) \<leftarrow> fetchOrAllocateJob pf s;
              case pTempJob of
                None \<Rightarrow> Some ((IOT_TASKPOOL_NO_MEMORY, None), s)
              | Some p \<Rightarrow> do {
                  s \<leftarrow> initializeJob p callback context False s;
                  Some ((IOT_TASKPOOL_SUCCESS, Some p), s) } } })"

definition IotTaskPool_DestroyRecyclableJob ::
  "'w platform \<Rightarrow> pool_ref option \<Rightarrow> nat option \<Rightarrow> ('c, 'x, 'w) taskPool \<Rightarrow> (IotTaskPoolError \<times> ('c, 'x, 'w) taskPool) option" where
  "IotTaskPool_DestroyRecyclableJob pf taskPoolHandle pJobHandle s =
     (case (taskPoolHandle, pJobHandle) of
        (Some h, Some p) \<Rightarrow> do {
          _ \<leftarrow> pool_at h s;
          _ \<leftarrow> TASKPOOL_ENTER_CRITICAL s;
          (st, s) \<leftarrow>
            (if IsShutdownStarted s then Some (IOT_TASKPOOL_SHUTDOWN_IN_PROGRESS, s)
             else do {
               j \<leftarrow> jobs s p;
               if flags j AND IOT_TASK_POOL_INTERNAL_STATIC = IOT_TASK_POOL_INTERNAL_STATIC
               then Some (IOT_TASKPOOL_ILLEGAL_OPERATION, s)
               else trySafeExtraction pf p True s });
          if st = IOT_TASKPOOL_SUCCESS
          then do {
            linked \<leftarrow> IotLink_IsLinked (Some (JobLink p)) (mem s);
            if \<not> linked then do { s \<leftarrow> destroyJob pf p s; Some (st, s) } else None }
          else Some (st, s) }
      | _ \<Rightarrow> Some (IOT_TASKPOOL_BAD_PARAMETER, s))"

definition IotTaskPool_RecycleJob ::
  "'w platform \<Rightarrow> pool_ref option \<Rightarrow> nat option \<Rightarrow> ('c, 'x, 'w) taskPool \<Rightarrow> (IotTaskPoolError \<times> ('c, 'x, 'w) taskPool) option" where
  "IotTaskPool_RecycleJob pf taskPoolHandle pJobHandle s =
     (case (taskPoolHandle, pJobHandle) of
        (Some h, Some p) \<Rightarrow> do {
          _ \<leftarrow> pool_at h s;
          _ \<leftarrow> TASKPOOL_ENTER_CRITICAL s;
          (st, s) \<leftarrow>
            (if IsShutdownStarted s then Some (IOT_TASKPOOL_SHUTDOWN_IN_PROGRESS, s)
             else do {
               j \<leftarrow> jobs s p;
               if flags j AND IOT_TASK_POOL_INTERNAL_STATIC = 0
               then trySafeExtraction pf p True s
               else Some (IOT_TASKPOOL_ILLEGAL_OPERATION, s) });
          if st = IOT_TASKPOOL_SUCCESS
          then do {
            linked \<leftarrow> IotLink_IsLinked (Some (JobLink p)) (mem s);
            if \<not> linked then do { s \<leftarrow> recycleJob pf p s; Some (st, s) } else None }
          else Some (st, s) }
      | _ \<Rightarrow> Some (IOT_TASKPOOL_BAD_PARAMETER, s))"

definition IotTaskPool_Schedule ::
  "'w platform \<Rightarrow> pool_ref option \<Rightarrow> nat option \<Rightarrow> u32 \<Rightarrow> ('c, 'x, 'w) taskPool \<Rightarrow> (IotTaskPoolError \<times> ('c, 'x, 'w) taskPool) option" where
  "IotTaskPool_Schedule pf taskPoolHandle pJobHandle fl s =
     (case (taskPoolHandle, pJobHandle) of
        (Some h, Some p) \<Rightarrow>
          if fl \<noteq> 0 \<and> fl \<noteq> IOT_TASKPOOL_JOB_HIGH_PRIORITY then Some (IOT_TASKPOOL_BAD_PARAMETER, s)
          else do {
            _ \<leftarrow> pool_at h s;
            _ \<leftarrow> TASKPOOL_ENTER_CRITICAL s;
            (st, s) \<leftarrow>
              (if IsShutdownStarted s then Some (IOT_TASKPOOL_SHUTDOWN_IN_PROGRESS, s)
               else trySafeExtraction pf p False s);
            if st = IOT_TASKPOOL_SUCCESS then scheduleInternal pf p fl s else Some (st, s) }
      | _ \<Rightarrow> Some (IOT_TASKPOOL_BAD_PARAMETER, s))"

text \<open>The new event is put in its place; the timer is set when that is the first one.\<close>

definition defer_job ::
  "'w platform \<Rightarrow> nat \<Rightarrow> u32 \<Rightarrow> ('c, 'x, 'w) taskPool \<Rightarrow> (IotTaskPoolError \<times> ('c, 'x, 'w) taskPool) option" where
  "defer_job pf p timeMs s =
     (case malloc (rtos pf) (live s) (sizeof_taskPoolTimerEvent pf) (world s) of
        (None, w) \<Rightarrow> Some (IOT_TASKPOOL_NO_MEMORY, s\<lparr>world := w\<rparr>)
      | (Some e, w) \<Rightarrow>
          (case IotClock_GetTimeMs (rtos pf) w of (now, w) \<Rightarrow> do {
             let s = s\<lparr>world := w, mem := (mem s)(EventLink e \<mapsto> \<lparr>pPrevious = None, pNext = None\<rparr>),
               events := (events s)(e \<mapsto> \<lparr>expirationTime = now + ucast timeMs, pJob = p\<rparr>)\<rparr>;
             m \<leftarrow> IotListDouble_InsertSorted (Some TimerEventsList) (Some (EventLink e)) (timerEventCompare s) (mem s);
             s \<leftarrow> set_status p STATUS_DEFERRED (s\<lparr>mem := m\<rparr>);
             pTimerEventLink \<leftarrow> IotListDouble_PeekHead (Some TimerEventsList) (mem s);
             s \<leftarrow> (if pTimerEventLink \<noteq> None
               then if pTimerEventLink = Some (EventLink e) then rescheduleDeferredJobsTimer pf e s else Some s
               else None);
             Some (IOT_TASKPOOL_SUCCESS, s) }))"

definition IotTaskPool_ScheduleDeferred ::
  "'w platform \<Rightarrow> pool_ref option \<Rightarrow> nat option \<Rightarrow> u32 \<Rightarrow> ('c, 'x, 'w) taskPool \<Rightarrow> (IotTaskPoolError \<times> ('c, 'x, 'w) taskPool) option" where
  "IotTaskPool_ScheduleDeferred pf taskPoolHandle pJobHandle timeMs s =
     (case (taskPoolHandle, pJobHandle) of
        (Some h, Some p) \<Rightarrow>
          if timeMs = 0 then IotTaskPool_Schedule pf taskPoolHandle pJobHandle 0 s
          else do {
            _ \<leftarrow> pool_at h s;
            _ \<leftarrow> TASKPOOL_ENTER_CRITICAL s;
            if IsShutdownStarted s then Some (IOT_TASKPOOL_SHUTDOWN_IN_PROGRESS, s)
            else do {
              (st, s) \<leftarrow> trySafeExtraction pf p False s;
              if st = IOT_TASKPOOL_SUCCESS then defer_job pf p timeMs s
              else Some (IOT_TASKPOOL_ILLEGAL_OPERATION, s) } }
      | _ \<Rightarrow> Some (IOT_TASKPOOL_BAD_PARAMETER, s))"

text \<open>
  The status is written through \<open>pStatus\<close>, which is 'undefined' in the error cases. The result is
  \<open>None\<close> where nothing is written.
\<close>

definition IotTaskPool_GetStatus ::
  "pool_ref option \<Rightarrow> nat option \<Rightarrow> bool \<Rightarrow> ('c, 'x, 'w) taskPool \<Rightarrow> (IotTaskPoolError \<times> IotTaskPoolJobStatus option) option" where
  "IotTaskPool_GetStatus taskPoolHandle pJobHandle pStatus s =
     (case (taskPoolHandle, pJobHandle) of
        (Some h, Some p) \<Rightarrow>
          if \<not> pStatus then Some (IOT_TASKPOOL_BAD_PARAMETER, None)
          else do {
            _ \<leftarrow> pool_at h s;
            _ \<leftarrow> TASKPOOL_ENTER_CRITICAL s;
            if IsShutdownStarted s then Some (IOT_TASKPOOL_SHUTDOWN_IN_PROGRESS, Some STATUS_UNDEFINED)
            else do { j \<leftarrow> jobs s p; Some (IOT_TASKPOOL_SUCCESS, Some (status j)) } }
      | _ \<Rightarrow> Some (IOT_TASKPOOL_BAD_PARAMETER, None))"

definition IotTaskPool_TryCancel ::
  "'w platform \<Rightarrow> pool_ref option \<Rightarrow> nat option \<Rightarrow> bool \<Rightarrow> ('c, 'x, 'w) taskPool
    \<Rightarrow> ((IotTaskPoolError \<times> IotTaskPoolJobStatus option) \<times> ('c, 'x, 'w) taskPool) option" where
  "IotTaskPool_TryCancel pf taskPoolHandle pJobHandle pStatus s =
     (case (taskPoolHandle, pJobHandle) of
        (Some h, Some p) \<Rightarrow> do {
          _ \<leftarrow> pool_at h s;
          _ \<leftarrow> TASKPOOL_ENTER_CRITICAL s;
          if IsShutdownStarted s
          then Some ((IOT_TASKPOOL_SHUTDOWN_IN_PROGRESS, if pStatus then Some STATUS_UNDEFINED else None), s)
          else do {
            ((st, cur), s) \<leftarrow> tryCancelInternal pf p s;
            Some ((st, if pStatus then Some cur else None), s) } }
      | _ \<Rightarrow> Some ((IOT_TASKPOOL_BAD_PARAMETER, None), s))"

definition IotTaskPool_GetJobStorageFromHandle :: "nat option \<Rightarrow> nat option" where
  "IotTaskPool_GetJobStorageFromHandle pJobHandle = pJobHandle"

fun IotTaskPool_strerror :: "IotTaskPoolError \<Rightarrow> string" where
  "IotTaskPool_strerror IOT_TASKPOOL_SUCCESS = ''SUCCESS''"
| "IotTaskPool_strerror IOT_TASKPOOL_BAD_PARAMETER = ''BAD PARAMETER''"
| "IotTaskPool_strerror IOT_TASKPOOL_ILLEGAL_OPERATION = ''ILLEGAL OPERATION''"
| "IotTaskPool_strerror IOT_TASKPOOL_NO_MEMORY = ''NO MEMORY''"
| "IotTaskPool_strerror IOT_TASKPOOL_SHUTDOWN_IN_PROGRESS = ''SHUTDOWN IN PROGRESS''"
| "IotTaskPool_strerror IOT_TASKPOOL_CANCEL_FAILED = ''CANCEL FAILED''"

subsection \<open>Creating and destroying a pool\<close>

definition performTaskPoolParameterValidation :: "IotTaskPoolInfo option \<Rightarrow> IotTaskPoolError" where
  "performTaskPoolParameterValidation pInfo =
     (case pInfo of
        None \<Rightarrow> IOT_TASKPOOL_BAD_PARAMETER
      | Some i \<Rightarrow>
          if info_minThreads i > info_maxThreads i then IOT_TASKPOOL_BAD_PARAMETER
          else if info_minThreads i < 1 then IOT_TASKPOOL_BAD_PARAMETER
          else if info_maxThreads i < 1 then IOT_TASKPOOL_BAD_PARAMETER
          else IOT_TASKPOOL_SUCCESS)"

text \<open>
  Every member of the structure is cleared or set, and the sentinels of the three lists are
  initialised. On this platform none of the four objects can fail to be created.
\<close>

definition initTaskPoolControlStructures ::
  "IotTaskPoolInfo \<Rightarrow> ('c, 'x, 'w) taskPool \<Rightarrow> (IotTaskPoolError \<times> ('c, 'x, 'w) taskPool) option" where
  "initTaskPoolControlStructures pInfo s = do {
     let nil = \<lparr>pPrevious = None, pNext = None\<rparr>;
     let s = s\<lparr>mem := (mem s)(DispatchQueue \<mapsto> nil, TimerEventsList \<mapsto> nil, FreeList \<mapsto> nil), activeThreads := 0, activeJobs := 0\<rparr>;
     m \<leftarrow> IotDeQueue_Create (Some DispatchQueue) (mem s);
     m \<leftarrow> IotListDouble_Create (Some TimerEventsList) m;
     let s = s\<lparr>mem := m, minThreads := info_minThreads pInfo, maxThreads := info_maxThreads pInfo,
       stackSize := info_stackSize pInfo, priority := info_priority pInfo\<rparr>;
     s \<leftarrow> initJobsCache s;
     case IotSemaphore_Create 0 TASKPOOL_MAX_SEM_VALUE of
       (False, _) \<Rightarrow> Some (IOT_TASKPOOL_NO_MEMORY, s)
     | (True, startStop) \<Rightarrow>
         (case IotMutex_Create True of
            (False, _) \<Rightarrow> Some (IOT_TASKPOOL_NO_MEMORY, s)
          | (True, _) \<Rightarrow>
              (case IotSemaphore_Create 0 TASKPOOL_MAX_SEM_VALUE of
                 (False, _) \<Rightarrow> Some (IOT_TASKPOOL_NO_MEMORY, s)
               | (True, dispatch) \<Rightarrow>
                   (case IotClock_TimerCreate of
                      (False, _) \<Rightarrow> Some (IOT_TASKPOOL_NO_MEMORY, s)
                    | (True, t) \<Rightarrow>
                        Some (IOT_TASKPOOL_SUCCESS, s\<lparr>startStopSignal := startStop, dispatchSignal := dispatch, timer := t\<rparr>)))) }"

definition destroyTaskPool :: "('c, 'x, 'w) taskPool \<Rightarrow> ('c, 'x, 'w) taskPool" where
  "destroyTaskPool s = s\<lparr>timer := IotClock_TimerDestroy (timer s)\<rparr>"

text \<open>The storage of a pool from the heap goes back to the heap; the system pool is not from the heap.\<close>

definition FreeTaskPool :: "'w platform \<Rightarrow> ('c, 'x, 'w) taskPool \<Rightarrow> ('c, 'x, 'w) taskPool option" where
  "FreeTaskPool pf s =
     (case storage s of
        Some (HeapPool p) \<Rightarrow>
          Some (s\<lparr>storage := None, mem := (mem s)(DispatchQueue := None, TimerEventsList := None, FreeList := None),
            world := free (rtos pf) p (world s)\<rparr>)
      | _ \<Rightarrow> None)"

text \<open>The loop that creates the workers; it stops with the first that cannot be created.\<close>

primrec create_workers ::
  "'w platform \<Rightarrow> nat \<Rightarrow> ('c, 'x, 'w) taskPool \<Rightarrow> IotTaskPoolError \<times> ('c, 'x, 'w) taskPool" where
  "create_workers pf 0 s = (IOT_TASKPOOL_SUCCESS, s)"
| "create_workers pf (Suc n) s =
     (case create_worker pf s of
        (False, s) \<Rightarrow> (IOT_TASKPOOL_NO_MEMORY, s)
      | (True, s) \<Rightarrow> create_workers pf n (s\<lparr>activeThreads := activeThreads s + 1\<rparr>))"

text \<open>The creator waits for the workers \<open>i\<close> to \<open>n - 1\<close> to be ready, or to leave after a failure.\<close>

fun wait_for_all :: "(nat \<Rightarrow> ('c, 'x, 'w) taskPool \<Rightarrow> ('c, 'x, 'w) taskPool option) \<Rightarrow> nat list
    \<Rightarrow> ('c, 'x, 'w) taskPool \<Rightarrow> ('c, 'x, 'w) taskPool option" where
  "wait_for_all wait [] s = Some s"
| "wait_for_all wait (i # is) s = do { s \<leftarrow> wait i s; wait_for_all wait is s }"

definition wait_for_exit :: "'w platform \<Rightarrow> nat \<Rightarrow> ('c, 'x, 'w) taskPool \<Rightarrow> ('c, 'x, 'w) taskPool option" where
  "wait_for_exit pf i s = do {
     s \<leftarrow> worker_wait i s;
     s \<leftarrow> worker_wake pf i s;
     sem \<leftarrow> IotSemaphore_Wait (startStopSignal s);
     Some (s\<lparr>startStopSignal := sem\<rparr>) }"

definition createTaskPool ::
  "'w platform \<Rightarrow> IotTaskPoolInfo \<Rightarrow> ('c, 'x, 'w) taskPool \<Rightarrow> (IotTaskPoolError \<times> ('c, 'x, 'w) taskPool) option" where
  "createTaskPool pf pInfo s = do {
     (st, s) \<leftarrow> initTaskPoolControlStructures pInfo s;
     if st \<noteq> IOT_TASKPOOL_SUCCESS then Some (st, s)
     else if info_minThreads pInfo = minThreads s \<and> info_maxThreads pInfo = maxThreads s
     then do {
       let first = length (workers s);
       let (st, s) = create_workers pf (unat (minThreads s)) s;
       let created = [first..<length (workers s)];
       s \<leftarrow> wait_for_all wait_for_start created s;
       if st \<noteq> IOT_TASKPOOL_SUCCESS
       then do {
         let s = signalShutdown (of_nat (length created)) s;
         s \<leftarrow> wait_for_all (wait_for_exit pf) created s;
         Some (st, destroyTaskPool s) }
       else Some (st, s) }
     else None }"

definition IotTaskPool_GetSystemTaskPool :: pool_ref where
  "IotTaskPool_GetSystemTaskPool = IotSystemTaskPool"

text \<open>The system pool's storage is static.\<close>

definition IotTaskPool_CreateSystemTaskPool ::
  "'w platform \<Rightarrow> IotTaskPoolInfo option \<Rightarrow> ('c, 'x, 'w) taskPool \<Rightarrow> (IotTaskPoolError \<times> ('c, 'x, 'w) taskPool) option" where
  "IotTaskPool_CreateSystemTaskPool pf pInfo s =
     (case pInfo of
        Some info \<Rightarrow>
          if performTaskPoolParameterValidation pInfo \<noteq> IOT_TASKPOOL_SUCCESS
          then Some (performTaskPoolParameterValidation pInfo, s)
          else createTaskPool pf info (s\<lparr>storage := Some IotSystemTaskPool\<rparr>)
      | None \<Rightarrow> Some (performTaskPoolParameterValidation pInfo, s))"

text \<open>\<open>pTaskPool\<close> tells whether the pointer for the handle is not \<open>NULL\<close>.\<close>

definition IotTaskPool_Create ::
  "'w platform \<Rightarrow> IotTaskPoolInfo option \<Rightarrow> bool \<Rightarrow> ('c, 'x, 'w) taskPool
    \<Rightarrow> ((IotTaskPoolError \<times> pool_ref option) \<times> ('c, 'x, 'w) taskPool) option" where
  "IotTaskPool_Create pf pInfo pTaskPool s =
     (if \<not> pTaskPool then Some ((IOT_TASKPOOL_BAD_PARAMETER, None), s)
      else if performTaskPoolParameterValidation pInfo \<noteq> IOT_TASKPOOL_SUCCESS
      then Some ((performTaskPoolParameterValidation pInfo, None), s)
      else do {
        info \<leftarrow> pInfo;
        case malloc (rtos pf) (live s) (sizeof_taskPool pf) (world s) of
          (None, w) \<Rightarrow> Some ((IOT_TASKPOOL_NO_MEMORY, None), s\<lparr>world := w\<rparr>)
        | (Some p, w) \<Rightarrow> do {
            (st, s) \<leftarrow> createTaskPool pf info (s\<lparr>world := w, storage := Some (HeapPool p)\<rparr>);
            if st \<noteq> IOT_TASKPOOL_SUCCESS
            then do { s \<leftarrow> FreeTaskPool pf s; Some ((st, None), s) }
            else Some ((st, Some (HeapPool p)), s) } })"

text \<open>The loops that empty the three lists.\<close>

partial_function (option) clear_dispatch_queue ::
  "'w platform \<Rightarrow> ('c, 'x, 'w) taskPool \<Rightarrow> ('c, 'x, 'w) taskPool option" where
  "clear_dispatch_queue pf s = do {
     (pItemLink, m) \<leftarrow> IotDeQueue_DequeueHead (Some DispatchQueue) (mem s);
     let s = s\<lparr>mem := m\<rparr>;
     if pItemLink \<noteq> None
     then do { p \<leftarrow> job_of pItemLink; s \<leftarrow> destroyJob pf p s; clear_dispatch_queue pf s }
     else Some s }"

partial_function (option) clear_timer_events ::
  "'w platform \<Rightarrow> ('c, 'x, 'w) taskPool \<Rightarrow> ('c, 'x, 'w) taskPool option" where
  "clear_timer_events pf s = do {
     (pItemLink, m) \<leftarrow> IotListDouble_RemoveHead (Some TimerEventsList) (mem s);
     let s = s\<lparr>mem := m\<rparr>;
     if pItemLink = None then Some s
     else do {
       e \<leftarrow> event_of pItemLink;
       ev \<leftarrow> events s e;
       s \<leftarrow> destroyJob pf (pJob ev) s;
       s \<leftarrow> FreeTimerEvent pf e s;
       clear_timer_events pf s } }"

partial_function (option) clear_jobs_cache ::
  "'w platform \<Rightarrow> ('c, 'x, 'w) taskPool \<Rightarrow> ('c, 'x, 'w) taskPool option" where
  "clear_jobs_cache pf s = do {
     (pItemLink, m) \<leftarrow> IotListDouble_RemoveHead (Some FreeList) (mem s);
     let s = s\<lparr>mem := m\<rparr>;
     if pItemLink \<noteq> None
     then do { p \<leftarrow> job_of pItemLink; s \<leftarrow> destroyJob pf p s; clear_jobs_cache pf s }
     else Some s }"

text \<open>
  The critical section of \<open>IotTaskPool_Destroy\<close>: the result is the number of threads to wait for and
  whether the shutdown is completed here, and not by the timer.
\<close>

definition destroy_critical ::
  "'w platform \<Rightarrow> ('c, 'x, 'w) taskPool \<Rightarrow> ((u32 \<times> bool) \<times> ('c, 'x, 'w) taskPool) option" where
  "destroy_critical pf s = do {
     _ \<leftarrow> TASKPOOL_ENTER_CRITICAL s;
     let active_threads = activeThreads s;
     s \<leftarrow> clear_dispatch_queue pf s;
     pItemLink \<leftarrow> IotListDouble_PeekHead (Some TimerEventsList) (mem s);
     (completeShutdown, s) \<leftarrow>
       (if pItemLink \<noteq> None
        then (case IotClock_GetTimeMs (rtos pf) (world s) of (now, w) \<Rightarrow> do {
            e \<leftarrow> event_of pItemLink;
            ev \<leftarrow> events s e;
            s \<leftarrow> clear_timer_events pf (s\<lparr>world := w\<rparr>);
            Some (\<not> expirationTime ev \<le> now, s) })
        else Some (True, s));
     s \<leftarrow> clear_jobs_cache pf s;
     Some ((active_threads, completeShutdown), signalShutdown active_threads s) }"

text \<open>The wait for one thread to report its end.\<close>

definition wait_startStop :: "('c, 'x, 'w) taskPool \<Rightarrow> ('c, 'x, 'w) taskPool option" where
  "wait_startStop s = do { sem \<leftarrow> IotSemaphore_Wait (startStopSignal s); Some (s\<lparr>startStopSignal := sem\<rparr>) }"

text \<open>What \<open>IotTaskPool_Destroy\<close> does when all threads have reported.\<close>

definition destroy_finish :: "'w platform \<Rightarrow> bool \<Rightarrow> ('c, 'x, 'w) taskPool \<Rightarrow> (IotTaskPoolError \<times> ('c, 'x, 'w) taskPool) option" where
  "destroy_finish pf completeShutdown s =
     (if IotSemaphore_GetCount (startStopSignal s) = 0 \<and> activeThreads s = 0
      then
        if completeShutdown
        then let s = destroyTaskPool s in
          if storage s \<noteq> Some IotSystemTaskPool then do { s \<leftarrow> FreeTaskPool pf s; Some (IOT_TASKPOOL_SUCCESS, s) }
          else Some (IOT_TASKPOOL_SUCCESS, s)
        else Some (IOT_TASKPOOL_SUCCESS, s)
      else None)"

text \<open>
  The whole operation, for a pool whose threads are all waiting: each leaves when it is notified.
  (TaskPoolRuns has the two parts as separate steps, with anything in between.)
\<close>

definition IotTaskPool_Destroy ::
  "'w platform \<Rightarrow> pool_ref option \<Rightarrow> nat list \<Rightarrow> ('c, 'x, 'w) taskPool \<Rightarrow> (IotTaskPoolError \<times> ('c, 'x, 'w) taskPool) option" where
  "IotTaskPool_Destroy pf taskPoolHandle leaving s =
     (case taskPoolHandle of
        None \<Rightarrow> Some (IOT_TASKPOOL_BAD_PARAMETER, s)
      | Some h \<Rightarrow> do {
          _ \<leftarrow> pool_at h s;
          ((active_threads, completeShutdown), s) \<leftarrow> destroy_critical pf s;
          if length leaving = unat active_threads
          then do { s \<leftarrow> wait_for_all (wait_for_exit pf) leaving s; destroy_finish pf completeShutdown s }
          else None })"

definition IotTaskPool_SetMaxThreads ::
  "pool_ref option \<Rightarrow> u32 \<Rightarrow> ('c, 'x, 'w) taskPool \<Rightarrow> (IotTaskPoolError \<times> ('c, 'x, 'w) taskPool) option" where
  "IotTaskPool_SetMaxThreads taskPoolHandle newMaxThreads s =
     (case taskPoolHandle of
        None \<Rightarrow> Some (IOT_TASKPOOL_BAD_PARAMETER, s)
      | Some h \<Rightarrow> do {
          _ \<leftarrow> pool_at h s;
          if minThreads s > newMaxThreads then Some (IOT_TASKPOOL_BAD_PARAMETER, s)
          else if newMaxThreads < 1 then Some (IOT_TASKPOOL_BAD_PARAMETER, s)
          else do {
            _ \<leftarrow> TASKPOOL_ENTER_CRITICAL s;
            if IsShutdownStarted s then Some (IOT_TASKPOOL_SHUTDOWN_IN_PROGRESS, s)
            else
              let previousMaxThreads = maxThreads s;
                  s = s\<lparr>maxThreads := newMaxThreads\<rparr>;
                  count = previousMaxThreads - newMaxThreads
              in Some (IOT_TASKPOOL_SUCCESS,
                if newMaxThreads < previousMaxThreads
                then s\<lparr>dispatchSignal := post_times (unat count) (dispatchSignal s)\<rparr>
                else s) } })"

subsection \<open>The timer\<close>

text \<open>
  The loop of \<open>_timerThread\<close>: every job whose time has come is put into the queue, then the timer is
  set for the next one.
\<close>

partial_function (option) timer_loop :: "'w platform \<Rightarrow> ('c, 'x, 'w) taskPool \<Rightarrow> ('c, 'x, 'w) taskPool option" where
  "timer_loop pf s = do {
     pLink \<leftarrow> IotListDouble_PeekHead (Some TimerEventsList) (mem s);
     if pLink \<noteq> None
     then (case IotClock_GetTimeMs (rtos pf) (world s) of (now, w) \<Rightarrow> do {
       let s = s\<lparr>world := w\<rparr>;
       e \<leftarrow> event_of pLink;
       ev \<leftarrow> events s e;
       if expirationTime ev \<le> now
       then do {
         m \<leftarrow> IotListDouble_Remove (Some (EventLink e)) (mem s);
         (_, s) \<leftarrow> scheduleInternal pf (pJob ev) 0 (s\<lparr>mem := m\<rparr>);
         s \<leftarrow> FreeTimerEvent pf e s;
         timer_loop pf s }
       else rescheduleDeferredJobsTimer pf e s })
     else Some s }"

definition timerThread :: "'w platform \<Rightarrow> ('c, 'x, 'w) taskPool \<Rightarrow> ('c, 'x, 'w) taskPool option" where
  "timerThread pf s = do {
     _ \<leftarrow> TASKPOOL_ENTER_CRITICAL s;
     if IsShutdownStarted s then FreeTaskPool pf (destroyTaskPool s)
     else timer_loop pf s }"

text \<open>
  The timer expires: \<open>prvTimerCallback\<close> finds the timer inactive and enters \<open>_timerThread\<close>, whose
  critical section is the step \<open>timerThread\<close>.
\<close>

definition timer_expires :: "('c, 'x, 'w) taskPool \<Rightarrow> ('c, 'x, 'w) taskPool option" where
  "timer_expires s =
     (if active (timer s) \<noteq> None then prvTimerCallback (\<lambda>t. Some (s\<lparr>timer := t\<rparr>)) (timer s) else None)"

end
