(* ===== verification/TaskPoolLinks.thy ===== *)
theory TaskPoolLinks
  imports TaskPool
begin

text \<open>
  The memory of a pool's links: three rings, of the queue, the timer list and the cache, and the links
  of the jobs that are in none of them. Every operation on one ring implements the operation on its
  list and leaves the others alone.
\<close>

subsection \<open>The links of a pool\<close>

definition links_ok :: "link_ref links \<Rightarrow> nat set \<Rightarrow> nat list \<Rightarrow> nat list \<Rightarrow> nat list \<Rightarrow> bool" where
  "links_ok m J dq te fl \<longleftrightarrow>
     dlist m DispatchQueue (map JobLink dq) \<and> dlist m TimerEventsList (map EventLink te) \<and> dlist m FreeList (map JobLink fl)
     \<and> set dq \<inter> set fl = {} \<and> set dq \<union> set fl \<subseteq> J \<and> (\<forall>p \<in> J - set dq - set fl. unlinked m (JobLink p))"

lemma links_okD:
  assumes "links_ok m J dq te fl"
  shows "dlist m DispatchQueue (map JobLink dq)" and "dlist m TimerEventsList (map EventLink te)" and "dlist m FreeList (map JobLink fl)"
    and "set dq \<inter> set fl = {}" and "set dq \<union> set fl \<subseteq> J" and "p \<in> J \<Longrightarrow> p \<notin> set dq \<Longrightarrow> p \<notin> set fl \<Longrightarrow> unlinked m (JobLink p)"
    and "distinct dq" and "distinct te" and "distinct fl"
  using assms by (auto simp: links_ok_def distinct_map dest!: dlist_distinct)

lemma unlinked_dom: "unlinked m a \<Longrightarrow> a \<in> dom m"
  by (auto simp: unlinked_def)

text \<open>
  A step on one of the rings keeps the other two and the links that are in none of them. \<open>S\<close> is what
  it may change.
\<close>

lemma links_ok_dispatch:
  assumes l: "links_ok m J dq te fl" and d: "dlist m' DispatchQueue (map JobLink dq')"
    and s: "same_but (insert DispatchQueue (JobLink ` (set dq \<union> set dq'))) m m'"
    and dq': "set dq' \<subseteq> J - set fl" and u: "\<And>p. p \<in> set dq - set dq' \<Longrightarrow> unlinked m' (JobLink p)"
  shows "links_ok m' J dq' te fl"
proof -
  note D = links_okD [OF l]
  have "dlist m' TimerEventsList (map EventLink te)" by (rule dlist_same [OF D(2) s]) auto
  moreover have "dlist m' FreeList (map JobLink fl)" by (rule dlist_same [OF D(3) s]) (use D(4) dq' in auto)
  moreover have "unlinked m' (JobLink p)" if p: "p \<in> J - set dq' - set fl" for p
  proof (cases "p \<in> set dq")
    case True
    then show ?thesis using u p by blast
  next
    case False
    then show ?thesis using p by (intro unlinked_same [OF D(6) s]) auto
  qed
  ultimately show ?thesis using d dq' D(5) by (auto simp: links_ok_def)
qed

lemma links_ok_free:
  assumes l: "links_ok m J dq te fl" and d: "dlist m' FreeList (map JobLink fl')"
    and s: "same_but (insert FreeList (JobLink ` (set fl \<union> set fl'))) m m'"
    and fl': "set fl' \<subseteq> J - set dq" and u: "\<And>p. p \<in> set fl - set fl' \<Longrightarrow> unlinked m' (JobLink p)"
  shows "links_ok m' J dq te fl'"
proof -
  note D = links_okD [OF l]
  have "dlist m' TimerEventsList (map EventLink te)" by (rule dlist_same [OF D(2) s]) auto
  moreover have "dlist m' DispatchQueue (map JobLink dq)" by (rule dlist_same [OF D(1) s]) (use D(4) fl' in auto)
  moreover have "unlinked m' (JobLink p)" if p: "p \<in> J - set dq - set fl'" for p
  proof (cases "p \<in> set fl")
    case True
    then show ?thesis using u p by blast
  next
    case False
    then show ?thesis using p by (intro unlinked_same [OF D(6) s]) auto
  qed
  ultimately show ?thesis using d fl' D(5) by (auto simp: links_ok_def)
qed

lemma links_ok_timer:
  assumes l: "links_ok m J dq te fl" and d: "dlist m' TimerEventsList (map EventLink te')"
    and s: "\<And>a. a \<notin> insert TimerEventsList (range EventLink) \<Longrightarrow> m' a = m a"
  shows "links_ok m' J dq te' fl"
proof -
  note D = links_okD [OF l]
  have "dlist m' DispatchQueue (map JobLink dq)" by (rule dlist_agree [OF D(1)]) (auto intro!: s)
  moreover have "dlist m' FreeList (map JobLink fl)" by (rule dlist_agree [OF D(3)]) (auto intro!: s)
  moreover have "m' (JobLink p) = m (JobLink p)" for p by (rule s) auto
  ultimately show ?thesis using d l by (auto simp: links_ok_def unlinked_def)
qed

lemma JobLink_notin [simp]: "JobLink p \<in> JobLink ` A \<longleftrightarrow> p \<in> A" "EventLink e \<in> EventLink ` B \<longleftrightarrow> e \<in> B"
  by auto

lemma links_enqueue_tail:
  assumes l: "links_ok m J dq te fl" and p: "p \<in> J" "p \<notin> set dq" "p \<notin> set fl"
  shows "\<exists>m'. IotDeQueue_EnqueueTail (Some DispatchQueue) (Some (JobLink p)) m = Some m' \<and> links_ok m' J (dq @ [p]) te fl"
proof -
  note D = links_okD [OF l]
  obtain m' where m': "IotListDouble_InsertTail (Some DispatchQueue) (Some (JobLink p)) m = Some m'"
    "dlist m' DispatchQueue (map JobLink dq @ [JobLink p])" "same_but (insert (JobLink p) (insert DispatchQueue (set (map JobLink dq)))) m m'"
    using InsertTail_dlist [OF D(1), of "JobLink p"] unlinked_dom [OF D(6)] p by auto
  have "links_ok m' J (dq @ [p]) te fl"
    by (rule links_ok_dispatch [OF l]) (use m' p D(4,5) in \<open>auto intro: same_but_mono\<close>)
  with m'(1) show ?thesis by (auto simp: deque_defs)
qed

lemma links_enqueue_head:
  assumes l: "links_ok m J dq te fl" and p: "p \<in> J" "p \<notin> set dq" "p \<notin> set fl"
  shows "\<exists>m'. IotDeQueue_EnqueueHead (Some DispatchQueue) (Some (JobLink p)) m = Some m' \<and> links_ok m' J (p # dq) te fl"
proof -
  note D = links_okD [OF l]
  obtain m' where m': "IotListDouble_InsertHead (Some DispatchQueue) (Some (JobLink p)) m = Some m'"
    "dlist m' DispatchQueue (JobLink p # map JobLink dq)" "same_but (insert (JobLink p) (insert DispatchQueue (set (map JobLink dq)))) m m'"
    using InsertHead_dlist [OF D(1), of "JobLink p"] unlinked_dom [OF D(6)] p by auto
  have "links_ok m' J (p # dq) te fl"
    by (rule links_ok_dispatch [OF l]) (use m' p D(4,5) in \<open>auto intro: same_but_mono\<close>)
  with m'(1) show ?thesis by (auto simp: deque_defs)
qed

lemma links_dequeue:
  assumes l: "links_ok m J (p # dq) te fl"
  shows "\<exists>m'. IotDeQueue_DequeueHead (Some DispatchQueue) m = Some (Some (JobLink p), m') \<and> links_ok m' J dq te fl \<and> unlinked m' (JobLink p)"
proof -
  note D = links_okD [OF l]
  obtain m' where m': "IotListDouble_RemoveHead (Some DispatchQueue) m = Some (Some (JobLink p), m')"
    "dlist m' DispatchQueue (map JobLink dq)" "unlinked m' (JobLink p)" "same_but (insert DispatchQueue (set (map JobLink (p # dq)))) m m'"
    using RemoveHead_dlist [of m DispatchQueue "JobLink p" "map JobLink dq"] D(1) by auto
  have "links_ok m' J dq te fl"
    by (rule links_ok_dispatch [OF l]) (use m' D(4,5) in \<open>auto intro: same_but_mono\<close>)
  with m' show ?thesis by (auto simp: deque_defs)
qed

lemma links_dequeue_empty: "links_ok m J [] te fl \<Longrightarrow> IotDeQueue_DequeueHead (Some DispatchQueue) m = Some (None, m)"
  by (simp add: deque_defs RemoveHead_empty links_ok_def)

lemma map_remove1_JobLink: "map JobLink (remove1 p xs) = remove1 (JobLink p) (map JobLink xs)"
  by (induction xs) auto

lemma map_remove1_EventLink: "map EventLink (remove1 e xs) = remove1 (EventLink e) (map EventLink xs)"
  by (induction xs) auto

lemma links_dispatch_remove:
  assumes l: "links_ok m J dq te fl" and p: "p \<in> set dq"
  shows "\<exists>m'. IotDeQueue_Remove (Some (JobLink p)) m = Some m' \<and> links_ok m' J (remove1 p dq) te fl"
proof -
  note D = links_okD [OF l]
  obtain m' where m': "IotListDouble_Remove (Some (JobLink p)) m = Some m'"
    "dlist m' DispatchQueue (map JobLink (remove1 p dq))" "unlinked m' (JobLink p)" "same_but (insert DispatchQueue (set (map JobLink dq))) m m'"
    using Remove_dlist [OF D(1), of "JobLink p"] p by (auto simp: map_remove1_JobLink)
  have "links_ok m' J (remove1 p dq) te fl"
    by (rule links_ok_dispatch [OF l]) (use m' D(4,5,7) in \<open>auto intro: same_but_mono dest: notin_set_remove1\<close>)
  with m'(1) show ?thesis by (auto simp: deque_defs)
qed

lemma links_recycle:
  assumes l: "links_ok m J dq te fl" and p: "p \<in> J" "p \<notin> set dq" "p \<notin> set fl"
  shows "\<exists>m'. IotListDouble_InsertTail (Some FreeList) (Some (JobLink p)) m = Some m' \<and> links_ok m' J dq te (fl @ [p])"
proof -
  note D = links_okD [OF l]
  obtain m' where m': "IotListDouble_InsertTail (Some FreeList) (Some (JobLink p)) m = Some m'"
    "dlist m' FreeList (map JobLink fl @ [JobLink p])" "same_but (insert (JobLink p) (insert FreeList (set (map JobLink fl)))) m m'"
    using InsertTail_dlist [OF D(3), of "JobLink p"] unlinked_dom [OF D(6)] p by auto
  have "links_ok m' J dq te (fl @ [p])"
    by (rule links_ok_free [OF l]) (use m' p D(4,5) in \<open>auto intro: same_but_mono\<close>)
  with m'(1) show ?thesis by auto
qed

lemma links_fetch:
  assumes l: "links_ok m J dq te (p # fl)"
  shows "\<exists>m'. IotListDouble_RemoveHead (Some FreeList) m = Some (Some (JobLink p), m') \<and> links_ok m' J dq te fl \<and> unlinked m' (JobLink p)"
proof -
  note D = links_okD [OF l]
  obtain m' where m': "IotListDouble_RemoveHead (Some FreeList) m = Some (Some (JobLink p), m')"
    "dlist m' FreeList (map JobLink fl)" "unlinked m' (JobLink p)" "same_but (insert FreeList (set (map JobLink (p # fl)))) m m'"
    using RemoveHead_dlist [of m FreeList "JobLink p" "map JobLink fl"] D(3) by auto
  have "links_ok m' J dq te fl"
    by (rule links_ok_free [OF l]) (use m' D(4,5) in \<open>auto intro: same_but_mono\<close>)
  with m' show ?thesis by auto
qed

lemma links_fetch_empty: "links_ok m J dq te [] \<Longrightarrow> IotListDouble_RemoveHead (Some FreeList) m = Some (None, m)"
  by (simp add: RemoveHead_empty links_ok_def)

lemma links_free_remove:
  assumes l: "links_ok m J dq te fl" and p: "p \<in> set fl"
  shows "\<exists>m'. IotListDouble_Remove (Some (JobLink p)) m = Some m' \<and> links_ok m' J dq te (remove1 p fl)"
proof -
  note D = links_okD [OF l]
  obtain m' where m': "IotListDouble_Remove (Some (JobLink p)) m = Some m'"
    "dlist m' FreeList (map JobLink (remove1 p fl))" "unlinked m' (JobLink p)" "same_but (insert FreeList (set (map JobLink fl))) m m'"
    using Remove_dlist [OF D(3), of "JobLink p"] p by (auto simp: map_remove1_JobLink)
  have "links_ok m' J dq te (remove1 p fl)"
    by (rule links_ok_free [OF l]) (use m' D(4,5,9) in \<open>auto intro: same_but_mono dest: notin_set_remove1\<close>)
  with m'(1) show ?thesis by auto
qed

text \<open>A new timer event, whose link the memory has just got, and an event that is taken out and freed.\<close>

lemma links_event_insert:
  assumes l: "links_ok m J dq te fl" and e: "e \<notin> set te"
    and c: "\<And>x. x \<in> set te \<Longrightarrow> \<exists>r. cmp (Some (EventLink e)) (Some (EventLink x)) = Some r \<and> (r < 0) = before x"
  shows "\<exists>m'. IotListDouble_InsertSorted (Some TimerEventsList) (Some (EventLink e)) cmp
      (m(EventLink e \<mapsto> \<lparr>pPrevious = None, pNext = None\<rparr>)) = Some m'
    \<and> links_ok m' J dq (takeWhile (\<lambda>x. \<not> before x) te @ e # dropWhile (\<lambda>x. \<not> before x) te) fl"
proof -
  let ?m = "m(EventLink e \<mapsto> \<lparr>pPrevious = None, pNext = None\<rparr>)"
  have l': "links_ok ?m J dq te fl"
    by (rule links_ok_timer [OF l], rule dlist_agree [OF links_okD(2) [OF l]]) (use e in auto)
  note D = links_okD [OF l']
  let ?b = "\<lambda>a. before (THE x. a = EventLink x)"
  have b: "?b (EventLink x) = before x" for x by simp
  have "\<exists>m'. IotListDouble_InsertSorted (Some TimerEventsList) (Some (EventLink e)) cmp ?m = Some m'
    \<and> dlist m' TimerEventsList (takeWhile (\<lambda>x. \<not> ?b x) (map EventLink te) @ EventLink e # dropWhile (\<lambda>x. \<not> ?b x) (map EventLink te))
    \<and> same_but (insert (EventLink e) (insert TimerEventsList (set (map EventLink te)))) ?m m'"
    using c e by (intro InsertSorted_dlist [OF D(2)]) auto
  then obtain m' where m': "IotListDouble_InsertSorted (Some TimerEventsList) (Some (EventLink e)) cmp ?m = Some m'"
    "dlist m' TimerEventsList (map EventLink (takeWhile (\<lambda>x. \<not> before x) te @ e # dropWhile (\<lambda>x. \<not> before x) te))"
    "same_but (insert (EventLink e) (insert TimerEventsList (set (map EventLink te)))) ?m m'"
    by (auto simp: takeWhile_map dropWhile_map comp_def)
  have "links_ok m' J dq (takeWhile (\<lambda>x. \<not> before x) te @ e # dropWhile (\<lambda>x. \<not> before x) te) fl"
    by (rule links_ok_timer [OF l' m'(2)]) (use m'(3) in \<open>auto simp: same_but_def\<close>)
  with m'(1) show ?thesis by auto
qed

lemma links_event_remove:
  assumes l: "links_ok m J dq te fl" and e: "e \<in> set te"
  shows "\<exists>m'. IotListDouble_Remove (Some (EventLink e)) m = Some m' \<and> links_ok m' J dq (remove1 e te) fl \<and> m' (EventLink e) \<noteq> None"
proof -
  note D = links_okD [OF l]
  obtain m' where m': "IotListDouble_Remove (Some (EventLink e)) m = Some m'"
    "dlist m' TimerEventsList (map EventLink (remove1 e te))" "unlinked m' (EventLink e)" "same_but (insert TimerEventsList (set (map EventLink te))) m m'"
    using Remove_dlist [OF D(2), of "EventLink e"] e by (auto simp: map_remove1_EventLink)
  have "links_ok m' J dq (remove1 e te) fl"
    by (rule links_ok_timer [OF l m'(2)]) (use m'(4) in \<open>auto simp: same_but_def\<close>)
  with m' show ?thesis by (auto simp: unlinked_def)
qed

lemma links_event_free:
  assumes l: "links_ok m J dq te fl" and e: "e \<notin> set te"
  shows "links_ok (m(EventLink e := None)) J dq te fl"
  by (rule links_ok_timer [OF l], rule dlist_agree [OF links_okD(2) [OF l]]) (use e in auto)

lemma links_new_job:
  assumes l: "links_ok m J dq te fl" and p: "p \<notin> set dq" "p \<notin> set fl"
  shows "links_ok (m(JobLink p \<mapsto> \<lparr>pPrevious = None, pNext = None\<rparr>)) (insert p J) dq te fl"
proof -
  note D = links_okD [OF l]
  let ?m = "m(JobLink p \<mapsto> \<lparr>pPrevious = None, pNext = None\<rparr>)"
  have "dlist ?m DispatchQueue (map JobLink dq)" by (rule dlist_agree [OF D(1)]) (use p in auto)
  moreover have "dlist ?m TimerEventsList (map EventLink te)" by (rule dlist_agree [OF D(2)]) (use p in auto)
  moreover have "dlist ?m FreeList (map JobLink fl)" by (rule dlist_agree [OF D(3)]) (use p in auto)
  ultimately show ?thesis using l by (auto simp: links_ok_def unlinked_def)
qed

lemma links_free_job:
  assumes l: "links_ok m J dq te fl" and p: "p \<notin> set dq" "p \<notin> set fl"
  shows "links_ok (m(JobLink p := None)) (J - {p}) dq te fl"
proof -
  note D = links_okD [OF l]
  let ?m = "m(JobLink p := None)"
  have "dlist ?m DispatchQueue (map JobLink dq)" by (rule dlist_agree [OF D(1)]) (use p in auto)
  moreover have "dlist ?m TimerEventsList (map EventLink te)" by (rule dlist_agree [OF D(2)]) (use p in auto)
  moreover have "dlist ?m FreeList (map JobLink fl)" by (rule dlist_agree [OF D(3)]) (use p in auto)
  ultimately show ?thesis using l p by (auto simp: links_ok_def unlinked_def)
qed

end
