(* ===== verification/TaskPoolInv.thy ===== *)
theory TaskPoolInv
  imports TaskPoolLinks
begin

text \<open>
  The invariant of the task pool, and what its internal functions do to it: which of the three lists
  a job is in is told by its status, and every step on the links implements the step on the lists.
\<close>

subsection \<open>The invariant\<close>

definition event_job :: "(nat \<rightharpoonup> taskPoolTimerEvent) \<Rightarrow> nat \<Rightarrow> nat" where
  "event_job E e = pJob (the (E e))"

definition event_time :: "(nat \<rightharpoonup> taskPoolTimerEvent) \<Rightarrow> nat \<Rightarrow> u64" where
  "event_time E e = expirationTime (the (E e))"

text \<open>
  A job is scheduled when it is in the queue, deferred when a timer event waits for it, and
  undefined when it is in the cache. \<open>lost\<close> are the jobs that say 'scheduled' and are not queued.
\<close>

definition jobs_ok :: "(nat \<rightharpoonup> ('c, 'x) taskPoolJob) \<Rightarrow> nat list \<Rightarrow> nat set \<Rightarrow> nat list \<Rightarrow> nat set \<Rightarrow> bool" where
  "jobs_ok J dq D fl lost \<longleftrightarrow>
     (\<forall>p \<in> set dq. \<exists>j. J p = Some j \<and> status j = STATUS_SCHEDULED \<and> userCallback j \<noteq> None)
     \<and> (\<forall>p \<in> D. \<exists>j. J p = Some j \<and> status j = STATUS_DEFERRED \<and> userCallback j \<noteq> None)
     \<and> (\<forall>p \<in> set fl. \<exists>j. J p = Some j \<and> status j = STATUS_UNDEFINED \<and> flags j = 0)
     \<and> (\<forall>p j. J p = Some j \<longrightarrow> status j = STATUS_SCHEDULED \<longrightarrow> p \<in> set dq \<union> lost)
     \<and> (\<forall>p j. J p = Some j \<longrightarrow> status j = STATUS_DEFERRED \<longrightarrow> p \<in> D)
     \<and> (\<forall>p j. J p = Some j \<longrightarrow> flags j = 0 \<or> flags j = IOT_TASK_POOL_INTERNAL_STATIC)"

text \<open>The timer list holds every event once, in the order of time, each for another job.\<close>

definition events_ok :: "(nat \<rightharpoonup> taskPoolTimerEvent) \<Rightarrow> nat list \<Rightarrow> bool" where
  "events_ok E te \<longleftrightarrow> dom E = set te \<and> distinct (map (event_job E) te) \<and> sorted (map (event_time E) te)"

lemma events_ok_Some: "events_ok E te \<Longrightarrow> e \<in> set te \<Longrightarrow> \<exists>ev. E e = Some ev"
  unfolding events_ok_def by blast

definition signals_ok :: "semaphore \<Rightarrow> semaphore \<Rightarrow> bool" where
  "signals_ok startStop dispatch \<longleftrightarrow>
     sem_count startStop = 0 \<and> sem_max startStop = TASKPOOL_MAX_SEM_VALUE
     \<and> sem_max dispatch = TASKPOOL_MAX_SEM_VALUE \<and> sem_count dispatch \<le> TASKPOOL_MAX_SEM_VALUE"

definition pool_inv :: "('c, 'x, 'w) taskPool \<Rightarrow> nat list \<Rightarrow> nat list \<Rightarrow> nat list \<Rightarrow> nat set \<Rightarrow> bool" where
  "pool_inv s dq te fl lost \<longleftrightarrow>
     storage s \<noteq> None
     \<and> links_ok (mem s) (dom (jobs s)) dq te fl
     \<and> jobs_ok (jobs s) dq (event_job (events s) ` set te) fl lost
     \<and> events_ok (events s) te
     \<and> length fl \<le> unat (freeCount s) \<and> freeCount s \<le> IOT_TASKPOOL_JOBS_RECYCLE_LIMIT
     \<and> signals_ok (startStopSignal s) (dispatchSignal s)"

lemma pool_invD:
  assumes "pool_inv s dq te fl lost"
  shows "storage s \<noteq> None" and "links_ok (mem s) (dom (jobs s)) dq te fl"
    and "jobs_ok (jobs s) dq (event_job (events s) ` set te) fl lost" and "events_ok (events s) te"
    and "length fl \<le> unat (freeCount s)" and "freeCount s \<le> IOT_TASKPOOL_JOBS_RECYCLE_LIMIT"
    and "signals_ok (startStopSignal s) (dispatchSignal s)"
  using assms by (simp_all add: pool_inv_def)

lemma jobs_okD:
  assumes "jobs_ok J dq D fl lost"
  shows "p \<in> set dq \<Longrightarrow> \<exists>j. J p = Some j \<and> status j = STATUS_SCHEDULED \<and> userCallback j \<noteq> None"
    and "p \<in> D \<Longrightarrow> \<exists>j. J p = Some j \<and> status j = STATUS_DEFERRED \<and> userCallback j \<noteq> None"
    and "p \<in> set fl \<Longrightarrow> \<exists>j. J p = Some j \<and> status j = STATUS_UNDEFINED \<and> flags j = 0"
    and "J p = Some j \<Longrightarrow> status j = STATUS_SCHEDULED \<Longrightarrow> p \<in> set dq \<union> lost"
    and "J p = Some j \<Longrightarrow> status j = STATUS_DEFERRED \<Longrightarrow> p \<in> D"
    and "J p = Some j \<Longrightarrow> flags j = 0 \<or> flags j = IOT_TASK_POOL_INTERNAL_STATIC"
  using assms unfolding jobs_ok_def by blast+

text \<open>Where a job is, by its status.\<close>

lemma jobs_ok_idle:
  assumes "jobs_ok J dq D fl lost" and "J p = Some j" and "status j \<notin> {STATUS_SCHEDULED, STATUS_DEFERRED}"
  shows "p \<notin> set dq" and "p \<notin> D"
  using jobs_okD(1,2) [OF assms(1), of p] assms(2,3) by auto

text \<open>Changing one job; \<open>dq'\<close>, \<open>D'\<close>, \<open>fl'\<close>, \<open>lost'\<close> say where it is afterwards.\<close>

lemma jobs_ok_upd:
  assumes "jobs_ok J dq D fl lost"
    and "\<And>q. q \<noteq> p \<Longrightarrow> q \<in> set dq' \<longleftrightarrow> q \<in> set dq" and "\<And>q. q \<noteq> p \<Longrightarrow> q \<in> D' \<longleftrightarrow> q \<in> D"
    and "\<And>q. q \<noteq> p \<Longrightarrow> q \<in> set fl' \<longleftrightarrow> q \<in> set fl" and "\<And>q. q \<noteq> p \<Longrightarrow> q \<in> lost \<Longrightarrow> q \<in> lost'"
    and "p \<in> set dq' \<Longrightarrow> status j = STATUS_SCHEDULED \<and> userCallback j \<noteq> None"
    and "p \<in> D' \<Longrightarrow> status j = STATUS_DEFERRED \<and> userCallback j \<noteq> None"
    and "p \<in> set fl' \<Longrightarrow> status j = STATUS_UNDEFINED \<and> flags j = 0"
    and "status j = STATUS_SCHEDULED \<Longrightarrow> p \<in> set dq' \<union> lost'"
    and "status j = STATUS_DEFERRED \<Longrightarrow> p \<in> D'"
    and "flags j = 0 \<or> flags j = IOT_TASK_POOL_INTERNAL_STATIC"
  shows "jobs_ok (J(p \<mapsto> j)) dq' D' fl' lost'"
  unfolding jobs_ok_def
proof (intro conjI ballI allI impI)
  note D = jobs_okD [OF assms(1)]
  fix q
  show "q \<in> set dq' \<Longrightarrow> \<exists>j'. (J(p \<mapsto> j)) q = Some j' \<and> status j' = STATUS_SCHEDULED \<and> userCallback j' \<noteq> None"
    using D(1) [of q] assms by (cases "q = p") auto
  show "q \<in> D' \<Longrightarrow> \<exists>j'. (J(p \<mapsto> j)) q = Some j' \<and> status j' = STATUS_DEFERRED \<and> userCallback j' \<noteq> None"
    using D(2) [of q] assms by (cases "q = p") auto
  show "q \<in> set fl' \<Longrightarrow> \<exists>j'. (J(p \<mapsto> j)) q = Some j' \<and> status j' = STATUS_UNDEFINED \<and> flags j' = 0"
    using D(3) [of q] assms by (cases "q = p") auto
  fix j'
  assume J': "(J(p \<mapsto> j)) q = Some j'"
  show "status j' = STATUS_SCHEDULED \<Longrightarrow> q \<in> set dq' \<union> lost'"
    using D(4) [of q j'] assms J' by (cases "q = p") auto
  show "status j' = STATUS_DEFERRED \<Longrightarrow> q \<in> D'"
    using D(5) [of q j'] assms J' by (cases "q = p") auto
  show "flags j' = 0 \<or> flags j' = IOT_TASK_POOL_INTERNAL_STATIC"
    using D(6) [of q j'] assms J' by (cases "q = p") auto
qed

lemma jobs_ok_del:
  assumes "jobs_ok J dq D fl lost" and "p \<notin> set dq" "p \<notin> D" "p \<notin> set fl"
  shows "jobs_ok (J(p := None)) dq D fl lost"
  using assms unfolding jobs_ok_def by (simp add: fun_upd_apply) blast

lemma flags_cases:
  "jobs_ok J dq D fl lost \<Longrightarrow> J p = Some j \<Longrightarrow>
    (flags j AND IOT_TASK_POOL_INTERNAL_STATIC = 0) = (flags j = 0)"
  using jobs_okD(6) [of J dq D fl lost p j] by (auto simp: IOT_TASK_POOL_INTERNAL_STATIC_def)

lemma IsLinked_iff:
  assumes l: "links_ok m J dq te fl" and p: "p \<in> J"
  shows "IotLink_IsLinked (Some (JobLink p)) m = Some (p \<in> set dq \<or> p \<in> set fl)"
proof (cases "p \<in> set dq \<or> p \<in> set fl")
  case True
  then show ?thesis
    using IsLinked_dlist [OF links_okD(1) [OF l], of "JobLink p"] IsLinked_dlist [OF links_okD(3) [OF l], of "JobLink p"] by auto
next
  case False
  then show ?thesis using IsLinked_unlinked [OF links_okD(6) [OF l p]] by simp
qed

subsection \<open>What is assumed of the platform\<close>

text \<open>
  Blocks are fresh; the clock never goes back and does not reach \<open>2\<^sup>6\<^sup>3\<close> milliseconds; times from the
  delay the timer is set to at least up to the limit \<open>M\<close> are not zero ticks. \<open>clk w\<close> is the time the
  last reading gave.
\<close>

definition platform_ok :: "'w platform \<Rightarrow> ('w \<Rightarrow> u64) \<Rightarrow> nat \<Rightarrow> bool" where
  "platform_ok pf clk M \<longleftrightarrow>
     fresh_blocks (rtos pf) \<and> M < 2 ^ 32
     \<and> (\<forall>w now w'. IotClock_GetTimeMs (rtos pf) w = (now, w') \<longrightarrow> clk w \<le> now \<and> clk w' = now)
     \<and> (\<forall>w. unat (clk w) < 2 ^ 63)
     \<and> (\<forall>live n w r w'. malloc (rtos pf) live n w = (r, w') \<longrightarrow> clk w \<le> clk w')
     \<and> (\<forall>p w. clk w \<le> clk (free (rtos pf) p w))
     \<and> (\<forall>pr st w r w'. xTaskCreate (rtos pf) pr st w = (r, w') \<longrightarrow> clk w \<le> clk w')
     \<and> (\<forall>ms. 10 \<le> unat ms \<longrightarrow> unat ms \<le> max 10 M \<longrightarrow> 0 < pdMS_TO_TICKS (rtos pf) ms)"

lemma platform_okD:
  assumes "platform_ok pf clk M"
  shows "fresh_blocks (rtos pf)" and "M < 2 ^ 32"
    and "IotClock_GetTimeMs (rtos pf) w = (now, w') \<Longrightarrow> clk w \<le> now \<and> clk w' = now"
    and "unat (clk w) < 2 ^ 63"
    and "malloc (rtos pf) lv n w = (r, w') \<Longrightarrow> clk w \<le> clk w'"
    and "clk w \<le> clk (free (rtos pf) p w)"
    and "xTaskCreate (rtos pf) pr st w = (b, w') \<Longrightarrow> clk w \<le> clk w'"
    and "10 \<le> unat ms \<Longrightarrow> unat ms \<le> max 10 M \<Longrightarrow> 0 < pdMS_TO_TICKS (rtos pf) ms"
  using assms unfolding platform_ok_def by blast+

text \<open>
  No event is later than \<open>M\<close> after the present; while there are events the timer is set, or its
  routine is about to run (\<open>P\<close>).
\<close>

definition timer_inv :: "('w \<Rightarrow> u64) \<Rightarrow> nat \<Rightarrow> bool \<Rightarrow> ('c, 'x, 'w) taskPool \<Rightarrow> nat list \<Rightarrow> bool" where
  "timer_inv clk M P s te \<longleftrightarrow>
     (\<forall>e \<in> set te. unat (event_time (events s) e) \<le> unat (clk (world s)) + M)
     \<and> (te \<noteq> [] \<longrightarrow> active (timer s) \<noteq> None \<or> P)"

lemma timer_invI_mono:
  assumes "timer_inv clk M P s te" and "clk (world s) \<le> clk (world s')" and "events s' = events s" and "timer s' = timer s"
  shows "timer_inv clk M P s' te"
  using assms by (fastforce simp: timer_inv_def word_le_nat_alt)

lemma reschedule_delta_bounds:
  assumes "unat t \<le> unat now + M" and "M < 2 ^ 32"
  shows "10 \<le> unat (ucast (reschedule_delta t now) :: u32)" and "unat (ucast (reschedule_delta t now) :: u32) \<le> max 10 M"
proof -
  define d where "d = reschedule_delta t now"
  have d: "10 \<le> unat d \<and> unat d \<le> max 10 M"
  proof (cases "t > now")
    case True
    then have "unat (t - now) = unat t - unat now" by (simp add: unat_sub word_less_nat_alt word_le_nat_alt)
    then show ?thesis using assms
      by (auto simp: d_def reschedule_delta_def TASKPOOL_JOB_RESCHEDULE_DELAY_MS_def word_less_nat_alt True)
  next
    case False
    then show ?thesis by (simp add: d_def reschedule_delta_def TASKPOOL_JOB_RESCHEDULE_DELAY_MS_def)
  qed
  moreover have "max 10 M < 2 ^ 32" using assms(2) by simp
  ultimately have "unat d < 2 ^ 32" by linarith
  then have "unat (ucast d :: u32) = unat d" by (simp add: unsigned_ucast_eq take_bit_nat_eq_self)
  then show "10 \<le> unat (ucast (reschedule_delta t now) :: u32)" "unat (ucast (reschedule_delta t now) :: u32) \<le> max 10 M"
    using d by (simp_all add: d_def)
qed

text \<open>A world that comes later: no clock has gone back.\<close>

definition later :: "'w platform \<Rightarrow> 'w \<Rightarrow> 'w \<Rightarrow> bool" where
  "later pf w w' \<longleftrightarrow> (\<forall>clk M. platform_ok pf clk M \<longrightarrow> clk w \<le> clk w')"

lemma later_refl: "later pf w w"
  by (simp add: later_def)

lemma later_trans: "later pf w w' \<Longrightarrow> later pf w' w'' \<Longrightarrow> later pf w w''"
  unfolding later_def by (meson order_trans)

lemma later_free: "later pf w (free (rtos pf) p w)"
  unfolding later_def by (meson platform_okD(6))

lemma later_malloc: "malloc (rtos pf) lv n w = (r, w') \<Longrightarrow> later pf w w'"
  unfolding later_def by (meson platform_okD(5))

lemma later_time: "IotClock_GetTimeMs (rtos pf) w = (now, w') \<Longrightarrow> later pf w w'"
  unfolding later_def by (metis platform_okD(3))

lemma timer_inv_later:
  assumes "timer_inv clk M P s te" and "platform_ok pf clk M" and "later pf (world s) (world s')" and "events s' = events s" and "timer s' = timer s"
  shows "timer_inv clk M P s' te"
  using timer_invI_mono [OF assms(1) _ assms(4,5)] assms(2,3) unfolding later_def by blast

text \<open>Setting the timer for an event always succeeds.\<close>

lemma rescheduleDeferredJobsTimer_ok:
  assumes pf: "platform_ok pf clk M" and e: "events s e = Some ev" and t: "unat (expirationTime ev) \<le> unat (clk (world s)) + M"
  shows "\<exists>w t now. rescheduleDeferredJobsTimer pf e s = Some (s\<lparr>world := w, timer := t\<rparr>) \<and> later pf (world s) w
    \<and> clk w = now \<and> active t = Some (pdMS_TO_TICKS (rtos pf) (ucast (reschedule_delta (expirationTime ev) now)))"
proof -
  obtain now w where c: "IotClock_GetTimeMs (rtos pf) (world s) = (now, w)" by fastforce
  note P = platform_okD [OF pf]
  have k: "clk (world s) \<le> now" "clk w = now" using P(3) [OF c] by auto
  have "unat (expirationTime ev) \<le> unat now + M" using t k(1) by (simp add: word_le_nat_alt)
  note b = reschedule_delta_bounds [OF this P(2)]
  let ?d = "reschedule_delta (expirationTime ev) now"
  have "?d \<noteq> 0" using b(1) by (intro notI) simp
  then have "0 < ?d" by (simp add: word_neq_0_conv)
  moreover have "0 < pdMS_TO_TICKS (rtos pf) (ucast ?d)" using P(8) b by blast
  ultimately have "rescheduleDeferredJobsTimer pf e s = Some (s\<lparr>world := w, timer := (timer s)\<lparr>xTimerPeriod := pdMS_TO_TICKS (rtos pf) 0,
      active := Some (pdMS_TO_TICKS (rtos pf) (ucast ?d))\<rparr>\<rparr>)"
    using e c by (simp add: rescheduleDeferredJobsTimer_def IotClock_TimerArm_def xTimerChangePeriod_def Let_def)
  with k(2) later_time [OF c] show ?thesis by (intro exI conjI) (assumption | simp)+
qed

subsection \<open>Scheduling\<close>

lemma Iot_CreateDetachedThread_later:
  assumes "platform_ok pf clk M" and "Iot_CreateDetachedThread (rtos pf) n lv pr st w = (r, w')"
  shows "clk w \<le> clk w'"
proof -
  obtain q w1 where m: "malloc (rtos pf) lv n w = (q, w1)" by fastforce
  note P = platform_okD [OF assms(1)]
  have 1: "clk w \<le> clk w1" using P(5) [OF m] .
  show ?thesis
  proof (cases q)
    case None
    then show ?thesis using assms(2) m 1 by (simp add: Iot_CreateDetachedThread_def)
  next
    case (Some i)
    obtain b w2 where x: "xTaskCreate (rtos pf) pr st w1 = (b, w2)" by fastforce
    then have 2: "clk w1 \<le> clk w2" by (rule P(7))
    have 3: "clk w2 \<le> clk (free (rtos pf) i w2)" by (rule P(6))
    show ?thesis using assms(2) m x Some 1 2 3 by (cases b) (auto simp: Iot_CreateDetachedThread_def)
  qed
qed

lemma create_worker_cases:
  "(\<exists>i w. create_worker pf s = (True, s\<lparr>world := w, workers := workers s @ [(i, Starting)]\<rparr>)
      \<and> (fresh_blocks (rtos pf) \<longrightarrow> \<not> live s i) \<and> later pf (world s) w)
    \<or> (\<exists>w. create_worker pf s = (False, s\<lparr>world := w\<rparr>) \<and> later pf (world s) w)"
proof -
  obtain r w where c: "Iot_CreateDetachedThread (rtos pf) (sizeof_threadInfo pf) (live s) (priority s) (stackSize s) (world s) = (r, w)"
    by fastforce
  have l: "later pf (world s) w" using Iot_CreateDetachedThread_later [OF _ c] by (auto simp: later_def)
  show ?thesis
  proof (cases r)
    case None
    then show ?thesis using c l by (auto simp: create_worker_def)
  next
    case (Some i)
    then show ?thesis using c l Iot_CreateDetachedThread_fresh [OF _ c [unfolded Some]] by (auto simp: create_worker_def)
  qed
qed

text \<open>The new worker starts and its creator goes on.\<close>

lemma wait_for_start_new:
  assumes "signals_ok (startStopSignal s) (dispatchSignal s)"
  shows "wait_for_start (length (workers s)) (s\<lparr>world := w, workers := workers s @ [(i, Starting)]\<rparr>)
    = Some (s\<lparr>world := w, workers := workers s @ [(i, Waiting)]\<rparr>)"
  using assms
  by (simp add: wait_for_start_def worker_start_def IotSemaphore_Post_def IotSemaphore_Wait_def signals_ok_def TASKPOOL_MAX_SEM_VALUE_def)

definition after_schedule ::
  "('c, 'x, 'w) taskPool \<Rightarrow> nat \<Rightarrow> ('c, 'x) taskPoolJob \<Rightarrow> link_ref links \<Rightarrow> (nat \<times> worker_pc) list \<Rightarrow> 'w \<Rightarrow> ('c, 'x, 'w) taskPool" where
  "after_schedule s p j m ws w =
     s\<lparr>mem := m, jobs := (jobs s)(p \<mapsto> j\<lparr>status := STATUS_SCHEDULED\<rparr>), activeThreads := activeThreads s + of_nat (length ws),
       activeJobs := activeJobs s + 1, dispatchSignal := IotSemaphore_Post (dispatchSignal s), workers := workers s @ ws, world := w\<rparr>"

text \<open>The queue after a job has been scheduled.\<close>

definition queued :: "u32 \<Rightarrow> ('c, 'x, 'w) taskPool \<Rightarrow> nat \<Rightarrow> nat list \<Rightarrow> nat list" where
  "queued fl s p dq = (if must_grow fl (activeThreads s) (activeJobs s + 1) then p # dq else dq @ [p])"

lemma links_enqueue:
  assumes "links_ok m J dq te fl" and "p \<in> J" "p \<notin> set dq" "p \<notin> set fl"
  shows "\<exists>m'. (if b then IotDeQueue_EnqueueHead (Some DispatchQueue) (Some (JobLink p)) m
      else IotDeQueue_EnqueueTail (Some DispatchQueue) (Some (JobLink p)) m) = Some m'
    \<and> links_ok m' J (if b then p # dq else dq @ [p]) te fl"
  using links_enqueue_tail [OF assms] links_enqueue_head [OF assms] by simp

lemma scheduleInternal_cases:
  assumes l: "links_ok (mem s) (dom (jobs s)) dq te fl" and sig: "signals_ok (startStopSignal s) (dispatchSignal s)"
    and j: "jobs s p = Some j" and p: "p \<notin> set dq" "p \<notin> set fl"
  shows "(\<exists>m ws w. scheduleInternal pf p f s = Some (IOT_TASKPOOL_SUCCESS, after_schedule s p j m ws w)
        \<and> links_ok m (dom (jobs s)) (queued f s p dq) te fl
        \<and> (ws = [] \<and> \<not> must_grow f (activeThreads s) (activeJobs s + 1)
            \<or> (\<exists>i. ws = [(i, Waiting)] \<and> (fresh_blocks (rtos pf) \<longrightarrow> \<not> live s i)))
        \<and> later pf (world s) w)
    \<or> (\<exists>w. scheduleInternal pf p f s = Some (IOT_TASKPOOL_NO_MEMORY, s\<lparr>jobs := (jobs s)(p \<mapsto> j\<lparr>status := STATUS_SCHEDULED\<rparr>), world := w\<rparr>)
        \<and> must_grow f (activeThreads s) (activeJobs s + 1) \<and> later pf (world s) w)"
proof -
  let ?s = "s\<lparr>jobs := (jobs s)(p \<mapsto> j\<lparr>status := STATUS_SCHEDULED\<rparr>), activeJobs := activeJobs s + 1\<rparr>"
  define mg where "mg = must_grow f (activeThreads s) (activeJobs s + 1)"
  define sg where "sg = should_grow f (activeThreads s) (activeJobs s + 1) (maxThreads s)"
  obtain m where m: "(if mg then IotDeQueue_EnqueueHead (Some DispatchQueue) (Some (JobLink p)) (mem s)
      else IotDeQueue_EnqueueTail (Some DispatchQueue) (Some (JobLink p)) (mem s)) = Some m"
    and lm: "links_ok m (dom (jobs s)) (queued f s p dq) te fl"
    using links_enqueue [OF l _ p, of mg] j by (auto simp: queued_def mg_def)
  have start: "wait_for_start (length (workers s)) (?s\<lparr>world := w, workers := workers s @ [(i, Starting)]\<rparr>)
    = Some (?s\<lparr>world := w, workers := workers s @ [(i, Waiting)]\<rparr>)" for w i
    using wait_for_start_new [of ?s i w] sig by simp
  have live: "live ?s = live s" using j by (auto simp: live_def fun_eq_iff)
  have s_eq: "s\<lparr>jobs := (jobs s)(p \<mapsto> j\<lparr>status := STATUS_SCHEDULED\<rparr>)\<rparr>\<lparr>activeJobs :=
      activeJobs (s\<lparr>jobs := (jobs s)(p \<mapsto> j\<lparr>status := STATUS_SCHEDULED\<rparr>)\<rparr>) + 1\<rparr> = ?s" by simp
  have mg_eq: "must_grow f (activeThreads ?s) (activeJobs ?s) = mg"
    and sg_eq: "should_grow f (activeThreads ?s) (activeJobs ?s) (maxThreads ?s) = sg" by (simp_all add: mg_def sg_def)
  have eq: "scheduleInternal pf p f s = (do {
     (st, s) \<leftarrow>
       (if mg \<or> sg
        then (case create_worker pf ?s of
            (True, s) \<Rightarrow> do {
              s \<leftarrow> wait_for_start (length (workers s) - 1) s;
              Some (IOT_TASKPOOL_SUCCESS, s\<lparr>activeThreads := activeThreads s + 1\<rparr>) }
          | (False, s) \<Rightarrow> Some (if mg then IOT_TASKPOOL_NO_MEMORY else IOT_TASKPOOL_SUCCESS, s))
        else Some (IOT_TASKPOOL_SUCCESS, ?s));
     if st = IOT_TASKPOOL_SUCCESS
     then do {
       m \<leftarrow> (if mg then IotDeQueue_EnqueueHead (Some DispatchQueue) (Some (JobLink p)) (mem s)
             else IotDeQueue_EnqueueTail (Some DispatchQueue) (Some (JobLink p)) (mem s));
       Some (st, s\<lparr>mem := m, dispatchSignal := IotSemaphore_Post (dispatchSignal s)\<rparr>) }
     else if mg then Some (st, s\<lparr>activeJobs := activeJobs s - 1\<rparr>)
     else None })"
    unfolding scheduleInternal_def set_status_def j Option.bind.simps Let_def s_eq mg_eq sg_eq by (rule refl)
  consider (keep) "\<not> (mg \<or> sg)"
    | (grow) i w where "mg \<or> sg" "create_worker pf ?s = (True, ?s\<lparr>world := w, workers := workers s @ [(i, Starting)]\<rparr>)"
        "fresh_blocks (rtos pf) \<longrightarrow> \<not> live s i" "later pf (world s) w"
    | (fail) w where "mg \<or> sg" "create_worker pf ?s = (False, ?s\<lparr>world := w\<rparr>)" "later pf (world s) w"
    using create_worker_cases [of pf ?s] live by auto
  then show ?thesis
  proof cases
    case keep
    then have "scheduleInternal pf p f s = Some (IOT_TASKPOOL_SUCCESS, after_schedule s p j m [] (world s))"
      using m unfolding eq by (simp add: after_schedule_def)
    then show ?thesis using lm keep later_refl [of pf "world s"]
      by (intro disjI1 exI [of _ m] exI [of _ "[]"] exI [of _ "world s"]) (simp add: mg_def)
  next
    case grow
    then have "scheduleInternal pf p f s = Some (IOT_TASKPOOL_SUCCESS, after_schedule s p j m [(i, Waiting)] w)"
      using m start unfolding eq by (cases mg) (simp_all add: after_schedule_def)
    then show ?thesis using lm grow
      by (intro disjI1 exI [of _ m] exI [of _ "[(i, Waiting)]"] exI [of _ w]) simp
  next
    case fail
    show ?thesis
    proof (cases mg)
      case True
      then have "scheduleInternal pf p f s = Some (IOT_TASKPOOL_NO_MEMORY, s\<lparr>jobs := (jobs s)(p \<mapsto> j\<lparr>status := STATUS_SCHEDULED\<rparr>), world := w\<rparr>)"
        using fail unfolding eq by simp
      then show ?thesis using True fail by (intro disjI2 exI [of _ w]) (simp add: mg_def)
    next
      case False
      then have "scheduleInternal pf p f s = Some (IOT_TASKPOOL_SUCCESS, after_schedule s p j m [] w)"
        using fail m unfolding eq by (simp add: after_schedule_def)
      then show ?thesis using lm False fail
        by (intro disjI1 exI [of _ m] exI [of _ "[]"] exI [of _ w]) (simp add: mg_def)
    qed
  qed
qed

lemma signals_ok_Post: "signals_ok a b \<Longrightarrow> signals_ok a (IotSemaphore_Post b)"
  by (auto simp: signals_ok_def IotSemaphore_Post_def TASKPOOL_MAX_SEM_VALUE_def inc_le)

lemma pool_inv_scheduled:
  assumes inv: "pool_inv s dq te fl lost" and j: "jobs s p = Some j" "userCallback j \<noteq> None"
    and p: "p \<notin> set dq" "p \<notin> set fl" "p \<notin> event_job (events s) ` set te"
    and m: "links_ok m (dom (jobs s)) (queued f s p dq) te fl"
  shows "pool_inv (after_schedule s p j m ws w) (queued f s p dq) te fl (lost - {p})"
proof -
  note I = pool_invD [OF inv]
  have "jobs_ok ((jobs s)(p \<mapsto> j\<lparr>status := STATUS_SCHEDULED\<rparr>)) (queued f s p dq) (event_job (events s) ` set te) fl (lost - {p})"
    by (rule jobs_ok_upd [OF I(3)]) (use j p jobs_okD(6) [OF I(3) j(1)] in \<open>auto simp: queued_def\<close>)
  moreover have "dom ((jobs s)(p \<mapsto> j\<lparr>status := STATUS_SCHEDULED\<rparr>)) = dom (jobs s)" using j by auto
  ultimately show ?thesis using I m signals_ok_Post [OF I(7)]
    by (simp add: pool_inv_def after_schedule_def del: dom_fun_upd)
qed

lemma pool_inv_lost:
  assumes inv: "pool_inv s dq te fl lost" and j: "jobs s p = Some j"
    and p: "p \<notin> set dq" "p \<notin> set fl" "p \<notin> event_job (events s) ` set te"
  shows "pool_inv (s\<lparr>jobs := (jobs s)(p \<mapsto> j\<lparr>status := STATUS_SCHEDULED\<rparr>), world := w\<rparr>) dq te fl (insert p lost)"
proof -
  note I = pool_invD [OF inv]
  have "jobs_ok ((jobs s)(p \<mapsto> j\<lparr>status := STATUS_SCHEDULED\<rparr>)) dq (event_job (events s) ` set te) fl (insert p lost)"
    by (rule jobs_ok_upd [OF I(3)]) (use j p jobs_okD(6) [OF I(3) j] in auto)
  moreover have "dom ((jobs s)(p \<mapsto> j\<lparr>status := STATUS_SCHEDULED\<rparr>)) = dom (jobs s)" using j by auto
  ultimately show ?thesis using I by (simp add: pool_inv_def del: dom_fun_upd)
qed

subsection \<open>Cancelling\<close>

text \<open>What is left alone by everything that does not schedule a job.\<close>

definition same_threads :: "('c, 'x, 'w) taskPool \<Rightarrow> ('c, 'x, 'w) taskPool \<Rightarrow> bool" where
  "same_threads s s' \<longleftrightarrow> storage s' = storage s \<and> workers s' = workers s \<and> minThreads s' = minThreads s \<and> maxThreads s' = maxThreads s
     \<and> activeThreads s' = activeThreads s \<and> activeJobs s' = activeJobs s
     \<and> dispatchSignal s' = dispatchSignal s \<and> startStopSignal s' = startStopSignal s"

lemma same_threads_refl [simp]: "same_threads s s"
  by (simp add: same_threads_def)

lemma same_threads_trans: "same_threads s s' \<Longrightarrow> same_threads s' s'' \<Longrightarrow> same_threads s s''"
  by (simp add: same_threads_def)

definition no_event :: "(nat \<rightharpoonup> taskPoolTimerEvent) \<Rightarrow> nat \<Rightarrow> nat list \<Rightarrow> nat list" where
  "no_event E p te = filter (\<lambda>e. event_job E e \<noteq> p) te"

lemma events_ok_unique:
  assumes "events_ok E te" and "e \<in> set te" "e' \<in> set te" "event_job E e = event_job E e'"
  shows "e = e'"
  using assms by (auto simp: events_ok_def distinct_map inj_on_def)

lemma no_event_remove1:
  assumes "events_ok E te" and "e \<in> set te"
  shows "no_event E (event_job E e) te = remove1 e te"
proof -
  have "distinct te" using assms(1) by (simp add: events_ok_def distinct_map)
  then have "remove1 e te = filter (\<lambda>x. x \<noteq> e) te" by (simp add: distinct_remove1_removeAll removeAll_filter_not_eq) (metis (mono_tags))
  moreover have "filter (\<lambda>x. event_job E x \<noteq> event_job E e) te = filter (\<lambda>x. x \<noteq> e) te"
    using events_ok_unique [OF assms(1) _ assms(2)] by (intro filter_cong) auto
  ultimately show ?thesis by (simp add: no_event_def)
qed

lemma no_event_id: "p \<notin> event_job E ` set te \<Longrightarrow> no_event E p te = te"
  unfolding no_event_def by (rule filter_True) auto

lemma event_fields_upd: "e \<noteq> x \<Longrightarrow> event_job (E(x := v)) e = event_job E e" "e \<noteq> x \<Longrightarrow> event_time (E(x := v)) e = event_time E e"
  by (simp_all add: event_job_def event_time_def)

lemma events_ok_remove:
  assumes E: "events_ok E te" and e: "e \<in> set te"
  shows "events_ok (E(e := None)) (remove1 e te)"
    and "event_job (E(e := None)) ` set (remove1 e te) = event_job E ` set te - {event_job E e}"
proof -
  have d: "distinct te" using E by (simp add: events_ok_def distinct_map)
  have m: "map (event_job (E(e := None))) (remove1 e te) = map (event_job E) (remove1 e te)"
    "map (event_time (E(e := None))) (remove1 e te) = map (event_time E) (remove1 e te)"
    using d by (auto simp: event_fields_upd set_remove1_eq)
  have "distinct (map (event_job E) (remove1 e te))" using E by (auto simp: events_ok_def distinct_map intro: inj_on_subset dest: notin_set_remove1 set_mp [OF set_remove1_subset])
  moreover have "sorted (map (event_time E) (remove1 e te))" using E by (simp add: events_ok_def sorted_map_remove1)
  moreover have "dom (E(e := None)) = set (remove1 e te)" using E d by (auto simp: events_ok_def set_remove1_eq)
  ultimately show "events_ok (E(e := None)) (remove1 e te)" unfolding events_ok_def m by blast
  show "event_job (E(e := None)) ` set (remove1 e te) = event_job E ` set te - {event_job E e}"
    using events_ok_unique [OF E _ e] d by (auto simp: set_remove1_eq event_fields_upd image_iff)
qed

lemma pool_inv_no_event_upd:
  assumes "pool_inv s dq te fl lost" and "links_ok m (dom (jobs s)) dq te' fl" and "events_ok E te'"
    and "jobs_ok (jobs s) dq (event_job E ` set te') fl lost"
  shows "pool_inv (s\<lparr>mem := m, events := E, world := w\<rparr>) dq te' fl lost"
  using assms by (simp add: pool_inv_def)

lemma find_event:
  assumes E: "events_ok E te" and e: "e \<in> set te"
  shows "find (\<lambda>x. event_job E x = event_job E e) te = Some e"
proof (cases "find (\<lambda>x. event_job E x = event_job E e) te")
  case None
  then show ?thesis using e by (auto simp: find_None_iff)
next
  case (Some y)
  then have "y \<in> set te \<and> event_job E y = event_job E e" using find_split by fastforce
  then show ?thesis using events_ok_unique [OF E _ e] Some by auto
qed

lemma find_map_EventLink: "find P (map EventLink te) = map_option EventLink (find (\<lambda>e. P (EventLink e)) te)"
  by (induction te) auto

lemma FindFirstMatch_event:
  assumes l: "links_ok (mem s) J dq te fl" and E: "events_ok (events s) te" and e: "e \<in> set te"
  shows "IotListDouble_FindFirstMatch (Some TimerEventsList) None (Some (matchJobByPointer s)) (Some (JobLink (event_job (events s) e))) (mem s)
    = Some (Some (EventLink e))"
proof -
  let ?P = "\<lambda>a. case a of EventLink x \<Rightarrow> event_job (events s) x = event_job (events s) e | _ \<Rightarrow> False"
  have "IotListDouble_FindFirstMatch (Some TimerEventsList) None (Some (matchJobByPointer s)) (Some (JobLink (event_job (events s) e))) (mem s)
    = Some (find ?P (map EventLink te))"
  proof (rule FindFirstMatch_dlist [OF links_okD(2) [OF l]])
    fix x assume "x \<in> set (map EventLink te)"
    then obtain y where y: "x = EventLink y" "y \<in> set te" by auto
    then obtain ev where "events s y = Some ev" using E by (auto simp: events_ok_def dom_def)
    then show "(case Some (matchJobByPointer s) of None \<Rightarrow> Some (Some x = Some (JobLink (event_job (events s) e)))
        | Some f \<Rightarrow> f (Some x) (Some (JobLink (event_job (events s) e)))) = Some (?P x)"
      using y by (auto simp: matchJobByPointer_def event_job_def)
  qed
  then show ?thesis using find_event [OF E e] by (simp add: find_map_EventLink)
qed

lemma PeekHead_event:
  "links_ok m J dq te fl \<Longrightarrow> IotListDouble_PeekHead (Some TimerEventsList) m = Some (if te = [] then None else Some (EventLink (hd te)))"
  using PeekHead_dlist [OF links_okD(2)] by (cases te) auto

lemma timer_inv_time:
  assumes "timer_inv clk M P s te" and "e \<in> set te" and "events s e = Some ev"
  shows "unat (expirationTime ev) \<le> unat (clk (world s)) + M"
  using assms by (force simp: timer_inv_def event_time_def)

lemma timer_inv_sub:
  assumes "timer_inv clk M P s te" and "platform_ok pf clk M" and "later pf (world s) (world s')"
    and "\<And>e. e \<in> set te' \<Longrightarrow> e \<in> set te \<and> events s' e = events s e"
    and "te' \<noteq> [] \<Longrightarrow> active (timer s') \<noteq> None \<or> Q"
  shows "timer_inv clk M Q s' te'"
proof -
  have "unat (clk (world s)) \<le> unat (clk (world s'))" using assms(2,3) by (auto simp: later_def word_le_nat_alt)
  moreover have "unat (event_time (events s') e) \<le> unat (clk (world s)) + M" if "e \<in> set te'" for e
    using assms(1,4) that by (simp add: timer_inv_def event_time_def)
  ultimately show ?thesis using assms(5) by (fastforce simp: timer_inv_def)
qed

lemma cancel_deferred_ok:
  assumes pf: "platform_ok pf clk M" and l: "links_ok (mem s) (dom (jobs s)) dq te fl" and E: "events_ok (events s) te"
    and t: "timer_inv clk M P s te" and e: "e \<in> set te"
  shows "\<exists>m w tm. cancel_deferred pf (event_job (events s) e) s = Some (s\<lparr>mem := m, events := (events s)(e := None), world := w, timer := tm\<rparr>)
    \<and> links_ok m (dom (jobs s)) dq (remove1 e te) fl \<and> later pf (world s) w
    \<and> timer_inv clk M P (s\<lparr>mem := m, events := (events s)(e := None), world := w, timer := tm\<rparr>) (remove1 e te)"
proof -
  let ?E = "(events s)(e := None)" and ?te = "remove1 e te"
  obtain m1 where m1: "IotListDouble_Remove (Some (EventLink e)) (mem s) = Some m1" "links_ok m1 (dom (jobs s)) dq ?te fl"
    using links_event_remove [OF l e] by blast
  have dt: "distinct te" using links_okD(8) [OF l] .
  have te': "set ?te = set te - {e}" using dt by simp
  have ne: "e \<notin> set ?te" using te' by simp
  let ?m = "m1(EventLink e := None)" and ?w = "free (rtos pf) e (world s)"
  let ?s = "s\<lparr>mem := ?m, events := ?E, world := ?w\<rparr>"
  have l2: "links_ok ?m (dom (jobs s)) dq ?te fl" by (rule links_event_free [OF m1(2) ne])
  have ev: "events s e \<noteq> None" using E e by (auto simp: events_ok_def)
  have lw: "later pf (world s) ?w" by (rule later_free)
  have step: "cancel_deferred pf (event_job (events s) e) s =
    (if e = hd te then if ?te = [] then Some ?s else rescheduleDeferredJobsTimer pf (hd ?te) ?s else Some ?s)"
    using ev e m1(1) FindFirstMatch_event [OF l E e] PeekHead_event [OF l] PeekHead_event [OF l2]
    by (auto simp: cancel_deferred_def FreeTimerEvent_def Let_def)
  show ?thesis
  proof (cases "e = hd te \<and> ?te \<noteq> []")
    case False
    have "timer_inv clk M P ?s ?te"
      by (rule timer_inv_sub [OF t pf]) (use lw te' False t e in \<open>auto simp: timer_inv_def\<close>)
    moreover have "cancel_deferred pf (event_job (events s) e) s = Some (?s\<lparr>timer := timer s\<rparr>)" using step False by auto
    ultimately show ?thesis using l2 lw
      by (intro exI [of _ ?m] exI [of _ ?w] exI [of _ "timer s"]) simp
  next
    case True
    then have h: "hd ?te \<in> set te" "hd ?te \<noteq> e" using te' hd_in_set [of ?te] by auto
    then obtain ev' where ev': "events s (hd ?te) = Some ev'" using E by (auto simp: events_ok_def dom_def)
    have "unat (expirationTime ev') \<le> unat (clk (world s)) + M" by (rule timer_inv_time [OF t h(1) ev'])
    then have "unat (expirationTime ev') \<le> unat (clk (world ?s)) + M"
      using platform_okD(6) [OF pf, of "world s" e] by (simp add: word_le_nat_alt)
    then obtain w tm where r: "rescheduleDeferredJobsTimer pf (hd ?te) ?s = Some (?s\<lparr>world := w, timer := tm\<rparr>)" "later pf ?w w" "active tm \<noteq> None"
      using rescheduleDeferredJobsTimer_ok [OF pf, of ?s "hd ?te" ev'] ev' h by auto
    have lw2: "later pf (world s) w" by (rule later_trans [OF lw r(2)])
    have "timer_inv clk M P (?s\<lparr>world := w, timer := tm\<rparr>) ?te"
      by (rule timer_inv_sub [OF t pf]) (use lw2 te' r(3) in auto)
    moreover have "cancel_deferred pf (event_job (events s) e) s = Some (?s\<lparr>world := w, timer := tm\<rparr>)"
      unfolding step if_P [OF conjunct1 [OF True]] if_not_P [OF conjunct2 [OF True]] by (rule r(1))
    ultimately show ?thesis using l2 lw2
      by (intro exI [of _ ?m] exI [of _ w] exI [of _ tm]) simp
  qed
qed

lemma set_status_Some: "jobs s p = Some j \<Longrightarrow> set_status p st s = Some (s\<lparr>jobs := (jobs s)(p \<mapsto> j\<lparr>status := st\<rparr>)\<rparr>)"
  by (simp add: set_status_def)

definition cancelable :: "IotTaskPoolJobStatus \<Rightarrow> bool" where
  "cancelable st \<longleftrightarrow> st \<in> {STATUS_READY, STATUS_DEFERRED, STATUS_SCHEDULED, STATUS_CANCELED}"

text \<open>
  A job that can be cancelled leaves the queue or the timer list and is cancelled; any other is left
  as it is.
\<close>

lemma tryCancelInternal_ok:
  assumes pf: "platform_ok pf clk M" and inv: "pool_inv s dq te fl lost" and t: "timer_inv clk M P s te"
    and j: "jobs s p = Some j" and p: "p \<notin> lost" and c: "cancelable (status j)"
  shows "\<exists>s'. tryCancelInternal pf p s = Some ((IOT_TASKPOOL_SUCCESS, status j), s')
    \<and> pool_inv s' (remove1 p dq) (no_event (events s) p te) fl lost \<and> timer_inv clk M P s' (no_event (events s) p te)
    \<and> jobs s' = (jobs s)(p \<mapsto> j\<lparr>status := STATUS_CANCELED\<rparr>) \<and> same_threads s s' \<and> freeCount s' = freeCount s
    \<and> (\<forall>e \<in> set (no_event (events s) p te). events s' e = events s e) \<and> later pf (world s) (world s')"
proof -
  note I = pool_invD [OF inv]
  let ?J = "(jobs s)(p \<mapsto> j\<lparr>status := STATUS_CANCELED\<rparr>)"
  let ?s = "s\<lparr>jobs := ?J\<rparr>" and ?te = "no_event (events s) p te" and ?D = "event_job (events s) ` set te"
  have dom: "dom ?J = dom (jobs s)" using j by auto
  have dq: "distinct dq" using links_okD(7) [OF I(2)] .
  have pfl: "p \<notin> set fl" using jobs_okD(3) [OF I(3), of p] j c by (auto simp: cancelable_def)
  have fl: "flags j = 0 \<or> flags j = IOT_TASK_POOL_INTERNAL_STATIC" using jobs_okD(6) [OF I(3) j] .
  have J: "jobs_ok ?J (remove1 p dq) (?D - {p}) fl lost"
    by (rule jobs_ok_upd [OF I(3)]) (use dq pfl fl in \<open>auto simp: set_remove1_eq\<close>)
  consider (sched) "status j = STATUS_SCHEDULED" | (waits) "status j = STATUS_DEFERRED"
    | (idle) "status j \<noteq> STATUS_SCHEDULED" "status j \<noteq> STATUS_DEFERRED" by blast
  then show ?thesis
  proof cases
    case sched
    then have pd: "p \<in> set dq" using jobs_okD(4) [OF I(3) j] p by auto
    have pe: "p \<notin> ?D" using jobs_okD(2) [OF I(3), of p] j sched by auto
    obtain m where m: "IotDeQueue_Remove (Some (JobLink p)) (mem s) = Some m" "links_ok m (dom (jobs s)) (remove1 p dq) te fl"
      using links_dispatch_remove [OF I(2) pd] by blast
    have "IotLink_IsLinked (Some (JobLink p)) (mem s) = Some True" using IsLinked_iff [OF I(2), of p] j pd by auto
    then have "tryCancelInternal pf p s = Some ((IOT_TASKPOOL_SUCCESS, status j), ?s\<lparr>mem := m\<rparr>)"
      using j sched m(1) by (simp add: tryCancelInternal_def set_status_Some Let_def)
    moreover have "pool_inv (?s\<lparr>mem := m\<rparr>) (remove1 p dq) te fl lost"
      using I J pe m(2) dom by (simp add: pool_inv_def)
    moreover have "timer_inv clk M P (?s\<lparr>mem := m\<rparr>) te" using t by (simp add: timer_inv_def)
    ultimately show ?thesis using no_event_id [OF pe] by (simp add: same_threads_def later_refl)
  next
    case idle
    have pd: "p \<notin> set dq" and pe: "p \<notin> ?D" using jobs_ok_idle [OF I(3) j] idle by auto
    have "tryCancelInternal pf p s = Some ((IOT_TASKPOOL_SUCCESS, status j), ?s)"
      using j idle c by (auto simp: tryCancelInternal_def set_status_Some Let_def cancelable_def)
    moreover have "pool_inv ?s (remove1 p dq) te fl lost"
      using I J pe pd dom by (simp add: pool_inv_def remove1_idem)
    moreover have "timer_inv clk M P ?s te" using t by (simp add: timer_inv_def)
    ultimately show ?thesis using no_event_id [OF pe] by (simp add: same_threads_def later_refl)
  next
    case waits
    then have "p \<in> ?D" using jobs_okD(5) [OF I(3) j] by simp
    then obtain e where e: "e \<in> set te" "event_job (events s) e = p" by auto
    have pd: "p \<notin> set dq" using jobs_okD(1) [OF I(3), of p] j waits by auto
    have te': "?te = remove1 e te" using no_event_remove1 [OF I(4) e(1)] e(2) by simp
    have l: "links_ok (mem ?s) (dom (jobs ?s)) dq te fl" using I(2) dom by simp
    have E: "events_ok (events ?s) te" using I(4) by simp
    have t': "timer_inv clk M P ?s te" using t by (simp add: timer_inv_def)
    obtain m w tm where r: "cancel_deferred pf p ?s = Some (?s\<lparr>mem := m, events := (events s)(e := None), world := w, timer := tm\<rparr>)"
      "links_ok m (dom (jobs s)) dq (remove1 e te) fl" "later pf (world s) w"
      "timer_inv clk M P (?s\<lparr>mem := m, events := (events s)(e := None), world := w, timer := tm\<rparr>) (remove1 e te)"
      using cancel_deferred_ok [OF pf l E t' e(1)] e(2) dom by (auto simp del: dom_fun_upd)
    let ?t = "?s\<lparr>mem := m, events := (events s)(e := None), world := w, timer := tm\<rparr>"
    have "tryCancelInternal pf p s = Some ((IOT_TASKPOOL_SUCCESS, status j), ?t)"
      using j waits r(1) by (simp add: tryCancelInternal_def set_status_Some Let_def)
    moreover have "pool_inv ?t (remove1 p dq) ?te fl lost"
      using I J r(2) dom pd e(2) events_ok_remove [OF I(4) e(1)] by (simp add: pool_inv_def te' remove1_idem)
    moreover have "\<forall>x \<in> set ?te. events ?t x = events s x" using links_okD(8) [OF I(2)] by (auto simp: te' set_remove1_eq)
    ultimately show ?thesis using r(3,4) te' by (simp add: same_threads_def)
  qed
qed

lemma tryCancelInternal_fails:
  "jobs s p = Some j \<Longrightarrow> \<not> cancelable (status j) \<Longrightarrow> tryCancelInternal pf p s = Some ((IOT_TASKPOOL_CANCEL_FAILED, status j), s)"
  by (auto simp: tryCancelInternal_def cancelable_def Let_def)

subsection \<open>Taking a job out of whatever it is in\<close>

definition extracted :: "('c, 'x) taskPoolJob \<Rightarrow> ('c, 'x) taskPoolJob" where
  "extracted j = (if status j \<in> {STATUS_SCHEDULED, STATUS_DEFERRED} then j\<lparr>status := STATUS_CANCELED\<rparr> else j)"

lemma extracted_fields [simp]: "userCallback (extracted j) = userCallback j" "pUserContext (extracted j) = pUserContext j" "flags (extracted j) = flags j"
  by (simp_all add: extracted_def)

lemma extracted_status: "status (extracted j) \<notin> {STATUS_SCHEDULED, STATUS_DEFERRED}"
  by (simp add: extracted_def)

lemma trySafeExtraction_ok:
  assumes pf: "platform_ok pf clk M" and inv: "pool_inv s dq te fl lost" and t: "timer_inv clk M P s te"
    and j: "jobs s p = Some j" and p: "p \<notin> lost" and c: "atC \<or> status j \<noteq> STATUS_COMPLETED"
  shows "\<exists>s'. trySafeExtraction pf p atC s = Some (IOT_TASKPOOL_SUCCESS, s')
    \<and> pool_inv s' (remove1 p dq) (no_event (events s) p te) (remove1 p fl) lost \<and> timer_inv clk M P s' (no_event (events s) p te)
    \<and> jobs s' = (jobs s)(p \<mapsto> extracted j) \<and> same_threads s s' \<and> freeCount s' = freeCount s
    \<and> (\<forall>e \<in> set (no_event (events s) p te). events s' e = events s e) \<and> later pf (world s) (world s')"
proof -
  note I = pool_invD [OF inv]
  have linked: "IotLink_IsLinked (Some (JobLink p)) (mem s) = Some (p \<in> set dq \<or> p \<in> set fl)"
    using IsLinked_iff [OF I(2), of p] j by auto
  show ?thesis
  proof (cases "status j \<in> {STATUS_SCHEDULED, STATUS_DEFERRED}")
    case True
    then have "p \<notin> set fl" using jobs_okD(3) [OF I(3), of p] j by auto
    moreover obtain s' where s': "tryCancelInternal pf p s = Some ((IOT_TASKPOOL_SUCCESS, status j), s')"
      "pool_inv s' (remove1 p dq) (no_event (events s) p te) fl lost" "timer_inv clk M P s' (no_event (events s) p te)"
      "jobs s' = (jobs s)(p \<mapsto> j\<lparr>status := STATUS_CANCELED\<rparr>)" "same_threads s s'" "freeCount s' = freeCount s"
      "\<forall>e \<in> set (no_event (events s) p te). events s' e = events s e" "later pf (world s) (world s')"
      using tryCancelInternal_ok [OF pf inv t j p] True by (auto simp: cancelable_def)
    moreover have "trySafeExtraction pf p atC s = Some (IOT_TASKPOOL_SUCCESS, s')"
      using True s'(1) j linked by (auto simp: trySafeExtraction_def)
    ultimately show ?thesis using True by (auto simp: remove1_idem extracted_def)
  next
    case False
    then have idle: "p \<notin> set dq" "p \<notin> event_job (events s) ` set te" using jobs_ok_idle [OF I(3) j] by auto
    have x: "(jobs s)(p \<mapsto> extracted j) = jobs s" using j False by (auto simp: extracted_def)
    show ?thesis
    proof (cases "p \<in> set fl")
      case True
      then have "flags j = 0" using jobs_okD(3) [OF I(3), of p] j by auto
      moreover obtain m where m: "IotListDouble_Remove (Some (JobLink p)) (mem s) = Some m" "links_ok m (dom (jobs s)) dq te (remove1 p fl)"
        using links_free_remove [OF I(2) True] by blast
      ultimately have "trySafeExtraction pf p atC s = Some (IOT_TASKPOOL_SUCCESS, s\<lparr>mem := m\<rparr>)"
        using False True c j linked by (auto simp: trySafeExtraction_def)
      moreover have "pool_inv (s\<lparr>mem := m\<rparr>) dq te (remove1 p fl) lost"
        using I m(2) by (auto simp: pool_inv_def length_remove1 jobs_ok_def dest: notin_set_remove1 set_mp [OF set_remove1_subset])
      moreover have "timer_inv clk M P (s\<lparr>mem := m\<rparr>) te" using t by (simp add: timer_inv_def)
      ultimately show ?thesis using idle no_event_id [OF idle(2)] x by (simp add: remove1_idem same_threads_def later_refl)
    next
      case nfl: False
      have "trySafeExtraction pf p atC s = Some (IOT_TASKPOOL_SUCCESS, s)"
        using False nfl c j linked idle by (auto simp: trySafeExtraction_def)
      then show ?thesis using inv t idle nfl no_event_id [OF idle(2)] x by (simp add: remove1_idem later_refl)
    qed
  qed
qed

lemma trySafeExtraction_executing:
  "pool_inv s dq te fl lost \<Longrightarrow> jobs s p = Some j \<Longrightarrow> status j = STATUS_COMPLETED \<Longrightarrow>
    trySafeExtraction pf p False s = Some (IOT_TASKPOOL_ILLEGAL_OPERATION, s)"
  using IsLinked_iff [of "mem s" "dom (jobs s)" dq te fl p] pool_invD(2) [of s dq te fl lost]
  by (auto simp: trySafeExtraction_def)

text \<open>Afterwards the job is nowhere.\<close>

lemma extracted_nowhere:
  assumes inv: "pool_inv s dq te fl lost" and inv': "pool_inv s' (remove1 p dq) (no_event (events s) p te) (remove1 p fl) lost"
    and ev: "\<forall>e \<in> set (no_event (events s) p te). events s' e = events s e"
  shows "p \<notin> set (remove1 p dq)" and "p \<notin> set (remove1 p fl)" and "p \<notin> event_job (events s') ` set (no_event (events s) p te)"
proof -
  have "distinct dq" "distinct fl" using links_okD(7,9) [OF pool_invD(2) [OF inv]] by auto
  then show "p \<notin> set (remove1 p dq)" "p \<notin> set (remove1 p fl)" by simp_all
  show "p \<notin> event_job (events s') ` set (no_event (events s) p te)" using ev by (auto simp: no_event_def event_job_def)
qed

lemma pool_at_live: "pool_inv s dq te fl lost \<Longrightarrow> storage s = Some h \<Longrightarrow> pool_at h s = Some () \<and> TASKPOOL_ENTER_CRITICAL s = Some ()"
  by (simp add: pool_at_def TASKPOOL_ENTER_CRITICAL_def)

subsection \<open>Scheduling a job\<close>

lemma after_schedule_fields [simp]:
  "events (after_schedule s p j m ws w) = events s" "timer (after_schedule s p j m ws w) = timer s"
  "world (after_schedule s p j m ws w) = w" "jobs (after_schedule s p j m ws w) = (jobs s)(p \<mapsto> j\<lparr>status := STATUS_SCHEDULED\<rparr>)"
  "workers (after_schedule s p j m ws w) = workers s @ ws" "storage (after_schedule s p j m ws w) = storage s"
  "minThreads (after_schedule s p j m ws w) = minThreads s" "maxThreads (after_schedule s p j m ws w) = maxThreads s"
  "activeThreads (after_schedule s p j m ws w) = activeThreads s + of_nat (length ws)"
  "activeJobs (after_schedule s p j m ws w) = activeJobs s + 1"
  "dispatchSignal (after_schedule s p j m ws w) = IotSemaphore_Post (dispatchSignal s)"
  "startStopSignal (after_schedule s p j m ws w) = startStopSignal s" "freeCount (after_schedule s p j m ws w) = freeCount s"
  by (simp_all add: after_schedule_def)

text \<open>
  The effect of \<open>n\<close> successful schedules on the threads: perhaps new workers, and \<open>n\<close> notifications.
\<close>

definition grown_by :: "nat \<Rightarrow> ('c, 'x, 'w) taskPool \<Rightarrow> ('c, 'x, 'w) taskPool \<Rightarrow> bool" where
  "grown_by n s s' \<longleftrightarrow> (\<exists>ws. (\<forall>t \<in> set ws. snd t = Waiting) \<and> workers s' = workers s @ ws
       \<and> activeThreads s' = activeThreads s + of_nat (length ws))
     \<and> storage s' = storage s \<and> minThreads s' = minThreads s \<and> maxThreads s' = maxThreads s
     \<and> activeJobs s' = activeJobs s + of_nat n \<and> dispatchSignal s' = post_times n (dispatchSignal s) \<and> startStopSignal s' = startStopSignal s"

lemma post_times_add: "post_times (m + n) sem = post_times n (post_times m sem)"
  by (induction m arbitrary: sem) auto

lemma grown_by_0: "same_threads s s' \<Longrightarrow> grown_by 0 s s'"
  by (auto simp: grown_by_def same_threads_def)

lemma grown_by_trans: "grown_by m s s' \<Longrightarrow> grown_by n s' s'' \<Longrightarrow> grown_by (m + n) s s''"
  unfolding grown_by_def
  by (elim conjE exE, intro conjI, rule_tac x = "ws @ wsa" in exI) (auto simp: post_times_add)

lemma scheduleInternal_ok:
  assumes pf: "platform_ok pf clk M" and inv: "pool_inv s dq te fl lost" and t: "timer_inv clk M P s te"
    and j: "jobs s p = Some j" "userCallback j \<noteq> None"
    and p: "p \<notin> set dq" "p \<notin> set fl" "p \<notin> event_job (events s) ` set te"
  shows "\<exists>st s'. scheduleInternal pf p f s = Some (st, s') \<and> events s' = events s \<and> timer s' = timer s
    \<and> timer_inv clk M P s' te \<and> later pf (world s) (world s') \<and> jobs s' = (jobs s)(p \<mapsto> j\<lparr>status := STATUS_SCHEDULED\<rparr>) \<and> freeCount s' = freeCount s
    \<and> (if st = IOT_TASKPOOL_SUCCESS then pool_inv s' (queued f s p dq) te fl (lost - {p}) \<and> grown_by 1 s s'
       else st = IOT_TASKPOOL_NO_MEMORY \<and> pool_inv s' dq te fl (insert p lost) \<and> same_threads s s'
         \<and> must_grow f (activeThreads s) (activeJobs s + 1))"
proof -
  note I = pool_invD [OF inv]
  consider (ok) m ws w where "scheduleInternal pf p f s = Some (IOT_TASKPOOL_SUCCESS, after_schedule s p j m ws w)"
      "links_ok m (dom (jobs s)) (queued f s p dq) te fl" "ws = [] \<or> (\<exists>i. ws = [(i, Waiting)])" "later pf (world s) w"
    | (no) w where "scheduleInternal pf p f s = Some (IOT_TASKPOOL_NO_MEMORY, s\<lparr>jobs := (jobs s)(p \<mapsto> j\<lparr>status := STATUS_SCHEDULED\<rparr>), world := w\<rparr>)"
      "must_grow f (activeThreads s) (activeJobs s + 1)" "later pf (world s) w"
    using scheduleInternal_cases [OF I(2,7) j(1) p(1,2), of pf f] by blast
  then show ?thesis
  proof cases
    case ok
    have "pool_inv (after_schedule s p j m ws w) (queued f s p dq) te fl (lost - {p})"
      by (rule pool_inv_scheduled [OF inv j p ok(2)])
    moreover have "timer_inv clk M P (after_schedule s p j m ws w) te"
      by (rule timer_inv_later [OF t pf]) (use ok(4) in auto)
    moreover have "grown_by 1 s (after_schedule s p j m ws w)" using ok(3) by (auto simp: grown_by_def)
    ultimately show ?thesis using ok(1,4) by (intro exI [of _ IOT_TASKPOOL_SUCCESS] exI [of _ "after_schedule s p j m ws w"]) simp
  next
    case no
    let ?s = "s\<lparr>jobs := (jobs s)(p \<mapsto> j\<lparr>status := STATUS_SCHEDULED\<rparr>), world := w\<rparr>"
    have "pool_inv ?s dq te fl (insert p lost)" by (rule pool_inv_lost [OF inv j(1) p])
    moreover have "timer_inv clk M P ?s te" by (rule timer_inv_later [OF t pf]) (use no(3) in auto)
    ultimately show ?thesis using no by (intro exI [of _ IOT_TASKPOOL_NO_MEMORY] exI [of _ ?s]) (simp add: same_threads_def)
  qed
qed

subsection \<open>Deferring a job\<close>

definition insert_event :: "(nat \<rightharpoonup> taskPoolTimerEvent) \<Rightarrow> nat \<Rightarrow> nat list \<Rightarrow> nat list" where
  "insert_event E e te = takeWhile (\<lambda>x. \<not> event_time E e < event_time E x) te @ e # dropWhile (\<lambda>x. \<not> event_time E e < event_time E x) te"

lemma set_insert_event [simp]: "set (insert_event E e te) = insert e (set te)"
  by (simp add: insert_event_def) (metis set_append takeWhile_dropWhile_id)

lemma mset_insert_event: "map f (insert_event E e te) = map f (takeWhile (\<lambda>x. \<not> event_time E e < event_time E x) te)
    @ f e # map f (dropWhile (\<lambda>x. \<not> event_time E e < event_time E x) te)"
  by (simp add: insert_event_def)

lemma distinct_insert_middle:
  assumes "distinct (xs @ ys)" and "a \<notin> set (xs @ ys)"
  shows "distinct (xs @ a # ys)"
  using assms by auto

lemma events_ok_insert:
  fixes T :: u64
  assumes E: "events_ok E te" and e: "e \<notin> set te" and p: "p \<notin> event_job E ` set te"
  defines "E' \<equiv> E(e \<mapsto> \<lparr>expirationTime = T, pJob = p\<rparr>)"
  shows "events_ok E' (insert_event E' e te)" and "event_job E' ` set (insert_event E' e te) = insert p (event_job E ` set te)"
    and "\<And>x. x \<in> set te \<Longrightarrow> event_time E' x = event_time E x"
proof -
  have job: "event_job E' x = (if x = e then p else event_job E x)" and time: "event_time E' x = (if x = e then T else event_time E x)" for x
    by (simp_all add: E'_def event_job_def event_time_def)
  show "\<And>x. x \<in> set te \<Longrightarrow> event_time E' x = event_time E x" using time e by auto
  have m: "map (event_job E') te = map (event_job E) te" "map (event_time E') te = map (event_time E) te" using job time e by auto
  have "map (event_job E') (takeWhile Q te) @ map (event_job E') (dropWhile Q te) = map (event_job E) te" for Q
    using m(1) by (metis map_append takeWhile_dropWhile_id)
  then have "distinct (map (event_job E') (insert_event E' e te))"
    unfolding mset_insert_event using E p job by (intro distinct_insert_middle) (auto simp: events_ok_def image_iff)
  moreover have "sorted (map (event_time E') (insert_event E' e te))"
    unfolding insert_event_def by (rule takeWhile_sorted_insert) (unfold m(2), use E in \<open>simp add: events_ok_def\<close>)
  moreover have "dom E' = insert e (set te)" using E by (auto simp: E'_def events_ok_def)
  ultimately show "events_ok E' (insert_event E' e te)" by (simp add: events_ok_def)
  show "event_job E' ` set (insert_event E' e te) = insert p (event_job E ` set te)" using job e by auto
qed

lemma hd_insert_event: "hd (insert_event E e te) \<noteq> e \<Longrightarrow> te \<noteq> []"
  by (auto simp: insert_event_def)

lemma defer_job_ok:
  assumes pf: "platform_ok pf clk M" and inv: "pool_inv s dq te fl lost" and t: "timer_inv clk M P s te"
    and j: "jobs s p = Some j" "userCallback j \<noteq> None" and p: "p \<notin> set dq" "p \<notin> set fl" "p \<notin> event_job (events s) ` set te"
    and ms: "unat timeMs \<le> M"
  shows "\<exists>st s'. defer_job pf p timeMs s = Some (st, s') \<and> same_threads s s' \<and> later pf (world s) (world s')
    \<and> (st = IOT_TASKPOOL_NO_MEMORY \<and> s' = s\<lparr>world := world s'\<rparr>
      \<or> st = IOT_TASKPOOL_SUCCESS \<and> jobs s' = (jobs s)(p \<mapsto> j\<lparr>status := STATUS_DEFERRED\<rparr>) \<and> freeCount s' = freeCount s
        \<and> (\<exists>e T now. e \<notin> set te \<and> clk (world s) \<le> now \<and> unat T = unat now + unat timeMs \<and> now \<le> clk (world s')
          \<and> events s' = (events s)(e \<mapsto> \<lparr>expirationTime = T, pJob = p\<rparr>)
          \<and> pool_inv s' dq (insert_event (events s') e te) fl lost \<and> timer_inv clk M P s' (insert_event (events s') e te)))"
proof -
  note I = pool_invD [OF inv] and Pf = platform_okD [OF pf]
  obtain r w where m: "malloc (rtos pf) (live s) (sizeof_taskPoolTimerEvent pf) (world s) = (r, w)" by fastforce
  show ?thesis
  proof (cases r)
    case None
    then show ?thesis using m later_malloc [OF m]
      by (intro exI [of _ IOT_TASKPOOL_NO_MEMORY] exI [of _ "s\<lparr>world := w\<rparr>"]) (simp add: defer_job_def same_threads_def)
  next
    case (Some e)
    have "\<not> live s e" using fresh_blocksD [OF Pf(1) m [unfolded Some]] .
    moreover have "dom (events s) = set te" using I(4) by (simp add: events_ok_def)
    ultimately have e: "e \<notin> set te" unfolding live_def by blast
    obtain now w2 where c: "IotClock_GetTimeMs (rtos pf) w = (now, w2)" by fastforce
    have k: "clk w \<le> now" "clk w2 = now" "clk (world s) \<le> clk w" using Pf(3) [OF c] Pf(5) [OF m] by auto
    define T where "T = now + ucast timeMs"
    have b: "unat timeMs < 2 ^ 32" using ms Pf(2) by linarith
    moreover have "unat now < 2 ^ 63" using Pf(4) [of w2] k(2) by simp
    moreover have "unat (ucast timeMs :: u64) = unat timeMs" using b by (simp add: unsigned_ucast_eq take_bit_nat_eq_self)
    ultimately have T: "unat T = unat now + unat timeMs" unfolding T_def
      by (subst unat_add_lem [THEN iffD1]) simp_all
    let ?ev = "\<lparr>expirationTime = T, pJob = p\<rparr>"
    define E' where "E' = (events s)(e \<mapsto> ?ev)"
    note EO = events_ok_insert [OF I(4) e p(3), where T = T, folded E'_def]
    let ?m = "(mem s)(EventLink e \<mapsto> \<lparr>pPrevious = None, pNext = None\<rparr>)"
    let ?s1 = "s\<lparr>world := w2, mem := ?m, events := E'\<rparr>"
    have cmp: "\<exists>r. timerEventCompare ?s1 (Some (EventLink e)) (Some (EventLink x)) = Some r \<and> (r < 0) = (event_time E' e < event_time E' x)"
      if x: "x \<in> set te" for x
    proof -
      obtain ev where "events s x = Some ev" using events_ok_Some [OF I(4)] x by blast
      then have "E' x = Some ev" using x e by (auto simp: E'_def)
      moreover have "E' e = Some ?ev" by (simp add: E'_def)
      ultimately show ?thesis by (simp add: timerEventCompare_def event_time_def)
    qed
    obtain m' where m': "IotListDouble_InsertSorted (Some TimerEventsList) (Some (EventLink e)) (timerEventCompare ?s1) ?m = Some m'"
      "links_ok m' (dom (jobs s)) dq (insert_event E' e te) fl"
      using links_event_insert [OF I(2) e, where cmp = "timerEventCompare ?s1" and before = "\<lambda>x. event_time E' e < event_time E' x", OF cmp] unfolding insert_event_def by auto
    let ?J = "(jobs s)(p \<mapsto> j\<lparr>status := STATUS_DEFERRED\<rparr>)" and ?te = "insert_event E' e te"
    have dom: "dom ?J = dom (jobs s)" using j by auto
    let ?s2 = "s\<lparr>world := w2, events := E', mem := m', jobs := ?J\<rparr>"
    have peek: "IotListDouble_PeekHead (Some TimerEventsList) m' = Some (Some (EventLink (hd ?te)))"
      using PeekHead_event [OF m'(2)] by (simp add: insert_event_def)
    have "T = now + ucast timeMs" by (rule T_def)
    then have step: "defer_job pf p timeMs s = (if hd ?te = e then rescheduleDeferredJobsTimer pf e ?s2 else Some ?s2) \<bind> (\<lambda>s. Some (IOT_TASKPOOL_SUCCESS, s))"
      using m Some c m'(1) peek j(1) by (simp add: defer_job_def set_status_Some Let_def E'_def)
    have lw: "later pf (world s) w2" using later_trans [OF later_malloc [OF m] later_time [OF c]] .
    have J: "jobs_ok ?J dq (insert p (event_job (events s) ` set te)) fl lost"
      by (rule jobs_ok_upd [OF I(3)]) (use j p jobs_okD(6) [OF I(3) j(1)] in auto)
    have P2: "pool_inv (?s2\<lparr>world := v, timer := tm\<rparr>) dq ?te fl lost" for v tm
      using I J m'(2) EO dom by (simp add: pool_inv_def)
    have times: "unat (event_time E' x) \<le> unat (clk v) + M" if "x \<in> set ?te" "clk w2 \<le> clk v" for x v
    proof (cases "x = e")
      case True
      then show ?thesis using T ms k(2) that(2) by (simp add: E'_def event_time_def word_le_nat_alt)
    next
      case False
      then have "unat (event_time E' x) \<le> unat (clk (world s)) + M" using that(1) t EO(3) by (auto simp: timer_inv_def)
      moreover have "clk (world s) \<le> clk v" using k that(2) by (meson order_trans)
      ultimately show ?thesis by (simp add: word_le_nat_alt)
    qed
    have "\<exists>v tm. defer_job pf p timeMs s = Some (IOT_TASKPOOL_SUCCESS, ?s2\<lparr>world := v, timer := tm\<rparr>) \<and> later pf w2 v
      \<and> timer_inv clk M P (?s2\<lparr>world := v, timer := tm\<rparr>) ?te"
    proof (cases "hd ?te = e")
      case True
      have "unat (expirationTime ?ev) \<le> unat (clk (world ?s2)) + M" using T ms k(2) by simp
      then obtain v tm where r: "rescheduleDeferredJobsTimer pf e ?s2 = Some (?s2\<lparr>world := v, timer := tm\<rparr>)" "later pf w2 v" "active tm \<noteq> None"
        using rescheduleDeferredJobsTimer_ok [OF pf, of ?s2 e ?ev] by (auto simp: E'_def)
      have "clk w2 \<le> clk v" using r(2) pf by (auto simp: later_def)
      then have "timer_inv clk M P (?s2\<lparr>world := v, timer := tm\<rparr>) ?te"
        using times r(3) by (auto simp: timer_inv_def)
      with r step True show ?thesis by (intro exI [of _ v] exI [of _ tm]) simp
    next
      case False
      then have "te \<noteq> []" by (rule hd_insert_event)
      then have "timer_inv clk M P (?s2\<lparr>world := w2, timer := timer s\<rparr>) ?te"
        using times [OF _ order_refl] t by (auto simp: timer_inv_def)
      with step False later_refl show ?thesis by (intro exI [of _ w2] exI [of _ "timer s"]) simp
    qed
    then obtain v tm where f: "defer_job pf p timeMs s = Some (IOT_TASKPOOL_SUCCESS, ?s2\<lparr>world := v, timer := tm\<rparr>)" "later pf w2 v"
      "timer_inv clk M P (?s2\<lparr>world := v, timer := tm\<rparr>) ?te" by blast
    have "clk (world s) \<le> now" "now \<le> clk v" using k f(2) pf by (auto simp: later_def)
    moreover have "pool_inv (?s2\<lparr>world := v, timer := tm\<rparr>) dq ?te fl lost" by (rule P2)
    moreover have "later pf (world s) v" by (rule later_trans [OF lw f(2)])
    ultimately show ?thesis
      unfolding f(1) option.inject prod.inject
      using T e f(3) E'_def
      by (intro exI [of _ IOT_TASKPOOL_SUCCESS] exI [of _ "?s2\<lparr>world := v, timer := tm\<rparr>"] conjI refl disjI2
          exI [of _ e] exI [of _ T] exI [of _ now])
        (simp_all add: same_threads_def)
  qed
qed

subsection \<open>The timer\<close>

lemma pool_inv_lost_mono: "pool_inv s dq te fl lost \<Longrightarrow> lost \<subseteq> lost' \<Longrightarrow> pool_inv s dq te fl lost'"
  unfolding pool_inv_def jobs_ok_def by blast

lemma queued_0: "queued 0 s p dq = dq @ [p]"
  by (simp add: queued_def must_grow_def IOT_TASKPOOL_JOB_HIGH_PRIORITY_def)

lemma must_grow_0: "\<not> must_grow 0 a b"
  by (simp add: must_grow_def IOT_TASKPOOL_JOB_HIGH_PRIORITY_def)

text \<open>An event whose time has come: it is taken out, its job queued, the event freed.\<close>

lemma dispatch_event:
  assumes inv: "pool_inv s dq (e # te) fl lost"
  shows "\<exists>m s1 s2. IotListDouble_Remove (Some (EventLink e)) (mem s) = Some m
    \<and> scheduleInternal pf (event_job (events s) e) 0 (s\<lparr>mem := m\<rparr>) = Some (IOT_TASKPOOL_SUCCESS, s1)
    \<and> FreeTimerEvent pf e s1 = Some s2 \<and> pool_inv s2 (dq @ [event_job (events s) e]) te fl lost
    \<and> grown_by 1 s s2 \<and> later pf (world s) (world s2) \<and> events s2 = (events s)(e := None) \<and> timer s2 = timer s
    \<and> dom (jobs s2) = dom (jobs s)"
proof -
  note I = pool_invD [OF inv]
  let ?p = "event_job (events s) e"
  have ne: "e \<notin> set te" using links_okD(8) [OF I(2)] by simp
  obtain m where m: "IotListDouble_Remove (Some (EventLink e)) (mem s) = Some m" "links_ok m (dom (jobs s)) dq te fl"
    using links_event_remove [OF I(2), of e] by auto
  obtain j where j: "jobs s ?p = Some j" "status j = STATUS_DEFERRED" "userCallback j \<noteq> None"
    using jobs_okD(2) [OF I(3), of ?p] by auto
  have p: "?p \<notin> set dq" "?p \<notin> set fl" using jobs_okD(1,3) [OF I(3), of ?p] j by auto
  let ?s = "s\<lparr>mem := m\<rparr>"
  have "links_ok (mem ?s) (dom (jobs ?s)) dq te fl" "signals_ok (startStopSignal ?s) (dispatchSignal ?s)" "jobs ?s ?p = Some j"
    using m(2) I(7) j by simp_all
  from scheduleInternal_cases [OF this p, of pf 0] obtain m1 ws w where
    s: "scheduleInternal pf ?p 0 ?s = Some (IOT_TASKPOOL_SUCCESS, after_schedule ?s ?p j m1 ws w)"
      "links_ok m1 (dom (jobs s)) (dq @ [?p]) te fl" "ws = [] \<or> (\<exists>i. ws = [(i, Waiting)])" "later pf (world s) w"
    using must_grow_0 by (auto simp: queued_0)
  let ?s1 = "after_schedule ?s ?p j m1 ws w" and ?E = "(events s)(e := None)"
  let ?s2 = "?s1\<lparr>mem := m1(EventLink e := None), events := ?E, world := free (rtos pf) e w\<rparr>"
  have "events s e \<noteq> None" using events_ok_Some [OF I(4), of e] by auto
  then have fr: "FreeTimerEvent pf e ?s1 = Some ?s2" by (simp add: FreeTimerEvent_def after_schedule_def)
  have "jobs_ok ((jobs s)(?p \<mapsto> j\<lparr>status := STATUS_SCHEDULED\<rparr>)) (dq @ [?p]) (event_job (events s) ` set (e # te) - {?p}) fl lost"
    by (rule jobs_ok_upd [OF I(3)]) (use j p jobs_okD(6) [OF I(3) j(1)] in auto)
  moreover have dom: "dom ((jobs s)(?p \<mapsto> j\<lparr>status := STATUS_SCHEDULED\<rparr>)) = dom (jobs s)" using j(1) by auto
  ultimately have "pool_inv ?s2 (dq @ [?p]) te fl lost"
    using I links_event_free [OF s(2) ne] events_ok_remove [OF I(4), of e] j(1) signals_ok_Post [OF I(7)]
    by (simp add: pool_inv_def after_schedule_def dom del: dom_fun_upd)
  moreover have "grown_by 1 s ?s2" using s(3) by (auto simp: grown_by_def after_schedule_def)
  moreover have "later pf (world s) (world ?s2)" using later_trans [OF s(4) later_free] by simp
  ultimately show ?thesis using m(1) s(1) fr by (intro exI [of _ m] exI [of _ ?s1] exI [of _ ?s2]) (simp add: dom del: dom_fun_upd)
qed

text \<open>
  The loop ends: it puts the first \<open>n\<close> jobs of the timer list, those whose time has come, into the queue.
\<close>

lemma timer_loop_ok:
  assumes pf: "platform_ok pf clk M" and inv: "pool_inv s dq te fl lost" and t: "timer_inv clk M True s te"
  shows "\<exists>n s'. timer_loop pf s = Some s' \<and> n \<le> length te
    \<and> pool_inv s' (dq @ map (event_job (events s)) (take n te)) (drop n te) fl lost \<and> timer_inv clk M False s' (drop n te)
    \<and> grown_by n s s' \<and> later pf (world s) (world s') \<and> dom (jobs s') = dom (jobs s)
    \<and> (\<forall>e \<in> set (drop n te). events s' e = events s e)
    \<and> (\<forall>e \<in> set (take n te). event_time (events s) e \<le> clk (world s'))
    \<and> (\<forall>e \<in> set (drop n te). clk (world s) < event_time (events s) e)"
  using inv t
proof (induction te arbitrary: s dq)
  case Nil
  have "timer_loop pf s = Some s"
    using PeekHead_event [OF pool_invD(2) [OF Nil.prems(1)]] by (subst timer_loop.simps) simp
  then show ?case using Nil.prems by (intro exI [of _ 0] exI [of _ s]) (simp add: timer_inv_def grown_by_0 later_refl)
next
  case (Cons e te)
  note I = pool_invD [OF Cons.prems(1)]
  obtain ev where ev: "events s e = Some ev" using events_ok_Some [OF I(4), of e] by auto
  obtain now w where c: "IotClock_GetTimeMs (rtos pf) (world s) = (now, w)" by fastforce
  have k: "clk (world s) \<le> now" "clk w = now" using platform_okD(3) [OF pf c] by auto
  let ?s = "s\<lparr>world := w\<rparr>"
  have inv1: "pool_inv ?s dq (e # te) fl lost" using Cons.prems(1) by (simp add: pool_inv_def)
  have lw: "later pf (world s) w" by (rule later_time [OF c])
  have t1: "timer_inv clk M True ?s (e # te)" by (rule timer_inv_later [OF Cons.prems(2) pf]) (use lw in auto)
  have peek: "IotListDouble_PeekHead (Some TimerEventsList) (mem s) = Some (Some (EventLink e))"
    using PeekHead_event [OF I(2)] by simp
  show ?case
  proof (cases "expirationTime ev \<le> now")
    case False
    have "unat (expirationTime ev) \<le> unat (clk (world ?s)) + M" using timer_inv_time [OF t1, of e ev] ev by simp
    then obtain v tm where r: "rescheduleDeferredJobsTimer pf e ?s = Some (?s\<lparr>world := v, timer := tm\<rparr>)" "later pf w v" "active tm \<noteq> None"
      using rescheduleDeferredJobsTimer_ok [OF pf, of ?s e ev] ev by auto
    let ?s' = "?s\<lparr>world := v, timer := tm\<rparr>"
    have "timer_loop pf s = Some ?s'"
      using peek c ev False r(1) by (subst timer_loop.simps) simp
    moreover have "pool_inv ?s' dq (e # te) fl lost" using Cons.prems(1) by (simp add: pool_inv_def)
    moreover have "timer_inv clk M False ?s' (e # te)"
      by (rule timer_inv_sub [OF t1 pf, of ?s']) (use r in auto)
    moreover have "clk (world s) < event_time (events s) x" if "x \<in> set (e # te)" for x
    proof -
      have "event_time (events s) e \<le> event_time (events s) x" using I(4) that by (auto simp: events_ok_def)
      moreover have "event_time (events s) e = expirationTime ev" using ev by (simp add: event_time_def)
      ultimately show ?thesis using False k(1) by simp
    qed
    ultimately show ?thesis using later_trans [OF lw r(2)]
      by (intro exI [of _ 0] exI [of _ ?s']) (simp add: grown_by_0 same_threads_def)
  next
    case True
    obtain m s1 s2 where d: "IotListDouble_Remove (Some (EventLink e)) (mem s) = Some m"
      "scheduleInternal pf (event_job (events s) e) 0 (?s\<lparr>mem := m\<rparr>) = Some (IOT_TASKPOOL_SUCCESS, s1)"
      "FreeTimerEvent pf e s1 = Some s2" "pool_inv s2 (dq @ [event_job (events s) e]) te fl lost"
      "grown_by 1 ?s s2" "later pf w (world s2)" "events s2 = (events s)(e := None)" "timer s2 = timer s" "dom (jobs s2) = dom (jobs s)"
      using dispatch_event [OF inv1, of pf] by auto
    have step: "timer_loop pf s = timer_loop pf s2"
      using peek c ev True d(1-3) by (subst timer_loop.simps) (simp add: event_job_def)
    have ne: "e \<notin> set te" using links_okD(8) [OF I(2)] by simp
    have "timer_inv clk M True s2 te"
      by (rule timer_inv_sub [OF t1 pf]) (use d ne in auto)
    from Cons.IH [OF d(4) this] obtain n s' where IH: "timer_loop pf s2 = Some s'" "n \<le> length te"
      "pool_inv s' ((dq @ [event_job (events s) e]) @ map (event_job (events s2)) (take n te)) (drop n te) fl lost"
      "timer_inv clk M False s' (drop n te)" "grown_by n s2 s'" "later pf (world s2) (world s')"
      "\<forall>e \<in> set (drop n te). events s' e = events s2 e"
      "\<forall>e \<in> set (take n te). event_time (events s2) e \<le> clk (world s')"
      "\<forall>e \<in> set (drop n te). clk (world s2) < event_time (events s2) e" "dom (jobs s') = dom (jobs s2)" by blast
    have same: "event_job (events s2) x = event_job (events s) x \<and> event_time (events s2) x = event_time (events s) x \<and> events s2 x = events s x"
      if "x \<in> set te" for x using that ne d(7) by (auto simp: event_job_def event_time_def)
    have sub: "set (take n te) \<subseteq> set te" "set (drop n te) \<subseteq> set te" by (rule set_take_subset, rule set_drop_subset)
    have jobs_eq: "map (event_job (events s2)) (take n te) = map (event_job (events s)) (take n te)"
      using same sub(1) by (intro map_cong) auto
    have g: "grown_by (Suc n) s s'" using grown_by_trans [OF d(5) IH(5)] by (simp add: grown_by_def)
    have l2: "later pf (world s) (world s')" by (rule later_trans [OF lw later_trans [OF d(6) IH(6)]])
    have "clk (world s) \<le> clk (world s2)" "now \<le> clk (world s')"
      using later_trans [OF lw d(6)] later_trans [OF d(6) IH(6)] pf k(2) by (auto simp: later_def)
    moreover have dm: "dom (jobs s') = dom (jobs s)" using IH(10) d(9) by simp
    moreover have "event_time (events s) e \<le> now" using True ev by (simp add: event_time_def)
    ultimately show ?thesis
      using step IH(1-4,7-9) jobs_eq g l2 same sub
      by (intro exI [of _ "Suc n"] exI [of _ s']) (fastforce simp: dm)
  qed
qed

end
