(* ===== verification/TaskPoolOps.thy ===== *)
theory TaskPoolOps
  imports TaskPoolInv
begin

text \<open>
  The operations on the jobs of a pool keep the invariant and do what their names say: the lists of
  jobs before and after each of them, and the result on every branch.
\<close>

subsection \<open>Creating, recycling and destroying jobs\<close>

definition job_gone :: "('c, 'x, 'w) taskPool \<Rightarrow> nat \<Rightarrow> nat list \<Rightarrow> nat list \<Rightarrow> nat list \<Rightarrow> bool" where
  "job_gone s p dq te fl \<longleftrightarrow> p \<notin> set dq \<and> p \<notin> set fl \<and> p \<notin> event_job (events s) ` set te"

lemma destroyJob_ok:
  assumes inv: "pool_inv s dq te fl lost" and t: "timer_inv clk M P s te" and pf: "platform_ok pf clk M"
    and j: "jobs s p = Some j" and p: "job_gone s p dq te fl"
  shows "\<exists>s'. destroyJob pf p s = Some s' \<and> pool_inv s' dq te fl lost \<and> timer_inv clk M P s' te \<and> same_threads s s'
    \<and> freeCount s' = freeCount s \<and> events s' = events s \<and> timer s' = timer s \<and> later pf (world s) (world s')
    \<and> jobs s' = (jobs s)(p := if flags j = 0 then None else Some (j\<lparr>userCallback := None, pUserContext := None, status := STATUS_UNDEFINED\<rparr>))"
proof -
  note I = pool_invD [OF inv]
  have p': "p \<notin> set dq" "p \<notin> set fl" "p \<notin> event_job (events s) ` set te" using p by (simp_all add: job_gone_def)
  show ?thesis
  proof (cases "flags j = 0")
    case True
    let ?s = "s\<lparr>mem := (mem s)(JobLink p := None), jobs := (jobs s)(p := None), world := free (rtos pf) p (world s)\<rparr>"
    have "dom ((jobs s)(p := None)) = dom (jobs s) - {p}" by auto
    then have "pool_inv ?s dq te fl lost"
      using I links_free_job [OF I(2) p'(1,2)] jobs_ok_del [OF I(3) p'(1,3,2)] by (simp add: pool_inv_def)
    moreover have "timer_inv clk M P ?s te" by (rule timer_inv_later [OF t pf]) (simp_all add: later_free)
    moreover have "destroyJob pf p s = Some ?s" using j True by (simp add: destroyJob_def Let_def)
    ultimately show ?thesis using True by (simp add: same_threads_def later_free)
  next
    case False
    let ?j = "j\<lparr>userCallback := None, pUserContext := None, status := STATUS_UNDEFINED\<rparr>"
    have "dom ((jobs s)(p \<mapsto> ?j)) = dom (jobs s)" using j by auto
    moreover have "jobs_ok ((jobs s)(p \<mapsto> ?j)) dq (event_job (events s) ` set te) fl lost"
      by (rule jobs_ok_upd [OF I(3)]) (use p' jobs_okD(6) [OF I(3) j] in auto)
    ultimately have "pool_inv (s\<lparr>jobs := (jobs s)(p \<mapsto> ?j)\<rparr>) dq te fl lost" using I by (simp add: pool_inv_def del: dom_fun_upd)
    moreover have "timer_inv clk M P (s\<lparr>jobs := (jobs s)(p \<mapsto> ?j)\<rparr>) te" using t by (simp add: timer_inv_def)
    moreover have "destroyJob pf p s = Some (s\<lparr>jobs := (jobs s)(p \<mapsto> ?j)\<rparr>)"
      using j False flags_cases [OF I(3) j] by (simp add: destroyJob_def Let_def)
    ultimately show ?thesis using False by (simp add: same_threads_def later_refl)
  qed
qed

lemma recycleJob_ok:
  assumes inv: "pool_inv s dq te fl lost" and t: "timer_inv clk M P s te" and pf: "platform_ok pf clk M"
    and j: "jobs s p = Some j" "flags j = 0" and p: "job_gone s p dq te fl"
  shows "\<exists>s'. recycleJob pf p s = Some s' \<and> timer_inv clk M P s' te \<and> same_threads s s'
    \<and> events s' = events s \<and> timer s' = timer s \<and> later pf (world s) (world s')
    \<and> (if freeCount s < IOT_TASKPOOL_JOBS_RECYCLE_LIMIT
       then pool_inv s' dq te (fl @ [p]) lost \<and> freeCount s' = freeCount s + 1
         \<and> jobs s' = (jobs s)(p \<mapsto> j\<lparr>userCallback := None, pUserContext := None, status := STATUS_UNDEFINED\<rparr>)
       else pool_inv s' dq te fl lost \<and> freeCount s' = freeCount s \<and> jobs s' = (jobs s)(p := None))"
proof -
  note I = pool_invD [OF inv]
  have p': "p \<notin> set dq" "p \<notin> set fl" "p \<notin> event_job (events s) ` set te" using p by (simp_all add: job_gone_def)
  have linked: "IotLink_IsLinked (Some (JobLink p)) (mem s) = Some False" using IsLinked_iff [OF I(2), of p] p' j by auto
  show ?thesis
  proof (cases "freeCount s < IOT_TASKPOOL_JOBS_RECYCLE_LIMIT")
    case False
    then have "recycleJob pf p s = destroyJob pf p s" using linked by (simp add: recycleJob_def)
    then show ?thesis using destroyJob_ok [OF inv t pf j(1) p] False j(2) by auto
  next
    case True
    let ?j = "j\<lparr>userCallback := None, pUserContext := None, status := STATUS_UNDEFINED\<rparr>"
    obtain m where m: "IotListDouble_InsertTail (Some FreeList) (Some (JobLink p)) (mem s) = Some m" "links_ok m (dom (jobs s)) dq te (fl @ [p])"
      using links_recycle [OF I(2) _ p'(1,2)] j by auto
    let ?s = "s\<lparr>jobs := (jobs s)(p \<mapsto> ?j), mem := m, freeCount := freeCount s + 1\<rparr>"
    have fc: "unat (freeCount s + 1) = unat (freeCount s) + 1" "freeCount s + 1 \<le> IOT_TASKPOOL_JOBS_RECYCLE_LIMIT"
    proof -
      have "unat (freeCount s) < 8" using True by (simp add: IOT_TASKPOOL_JOBS_RECYCLE_LIMIT_def word_less_nat_alt)
      then show "unat (freeCount s + 1) = unat (freeCount s) + 1" by (subst unat_add_lem [THEN iffD1]) simp_all
      then show "freeCount s + 1 \<le> IOT_TASKPOOL_JOBS_RECYCLE_LIMIT"
        using \<open>unat (freeCount s) < 8\<close> by (simp add: IOT_TASKPOOL_JOBS_RECYCLE_LIMIT_def word_le_nat_alt)
    qed
    have "dom ((jobs s)(p \<mapsto> ?j)) = dom (jobs s)" using j by auto
    moreover have "jobs_ok ((jobs s)(p \<mapsto> ?j)) dq (event_job (events s) ` set te) (fl @ [p]) lost"
      by (rule jobs_ok_upd [OF I(3)]) (use p' j in auto)
    ultimately have "pool_inv ?s dq te (fl @ [p]) lost"
      using I m(2) fc by (simp add: pool_inv_def del: dom_fun_upd)
    moreover have "1 \<le> freeCount s + 1" using fc(1) by (simp add: word_le_nat_alt)
    then have "recycleJob pf p s = Some ?s" using linked True j(1) m(1) by (simp add: recycleJob_def Let_def)
    moreover have "timer_inv clk M P ?s te" using t by (simp add: timer_inv_def)
    ultimately show ?thesis using True by (simp add: same_threads_def later_refl)
  qed
qed

text \<open>A job that is set up, from the user's storage, the cache or the heap, is ready and nowhere.\<close>

lemma initializeJob_ok:
  assumes inv: "pool_inv s dq te fl lost" and t: "timer_inv clk M P s te"
    and p: "job_gone s p dq te fl" and st: "if isStatic then True else \<exists>j. jobs s p = Some j \<and> flags j = 0"
  shows "\<exists>s'. initializeJob p cb cx isStatic s = Some s' \<and> pool_inv s' dq te fl (lost - {p}) \<and> timer_inv clk M P s' te \<and> same_threads s s'
    \<and> freeCount s' = freeCount s \<and> events s' = events s \<and> timer s' = timer s \<and> world s' = world s
    \<and> jobs s' = (jobs s)(p \<mapsto> \<lparr>userCallback = cb, pUserContext = cx,
        flags = if isStatic then IOT_TASK_POOL_INTERNAL_STATIC else 0, status = STATUS_READY\<rparr>)"
proof -
  note I = pool_invD [OF inv]
  have p': "p \<notin> set dq" "p \<notin> set fl" "p \<notin> event_job (events s) ` set te" using p by (simp_all add: job_gone_def)
  let ?j = "\<lparr>userCallback = cb, pUserContext = cx, flags = if isStatic then IOT_TASK_POOL_INTERNAL_STATIC else 0, status = STATUS_READY\<rparr>"
  let ?s = "s\<lparr>mem := (mem s)(JobLink p \<mapsto> \<lparr>pPrevious = None, pNext = None\<rparr>), jobs := (jobs s)(p \<mapsto> ?j)\<rparr>"
  have "initializeJob p cb cx isStatic s = Some ?s" using st by (auto simp: initializeJob_def split: if_splits)
  moreover have "jobs_ok ((jobs s)(p \<mapsto> ?j)) dq (event_job (events s) ` set te) fl (lost - {p})"
    by (rule jobs_ok_upd [OF I(3)]) (use p' in auto)
  then have "pool_inv ?s dq te fl (lost - {p})"
    using I links_new_job [OF I(2) p'(1,2)] by (simp add: pool_inv_def)
  moreover have "timer_inv clk M P ?s te" using t by (simp add: timer_inv_def)
  ultimately show ?thesis by (intro exI [of _ ?s]) (simp add: same_threads_def)
qed

lemma fetchOrAllocateJob_cached:
  assumes inv: "pool_inv s dq te (p # fl) lost" and t: "timer_inv clk M P s te"
  shows "\<exists>s'. fetchOrAllocateJob pf s = Some (Some p, s') \<and> pool_inv s' dq te fl lost \<and> timer_inv clk M P s' te \<and> same_threads s s'
    \<and> job_gone s' p dq te fl \<and> freeCount s' = freeCount s - 1 \<and> jobs s' = jobs s \<and> events s' = events s \<and> timer s' = timer s \<and> world s' = world s"
proof -
  note I = pool_invD [OF inv]
  obtain m where m: "IotListDouble_RemoveHead (Some FreeList) (mem s) = Some (Some (JobLink p), m)" "links_ok m (dom (jobs s)) dq te fl"
    using links_fetch [OF I(2)] by blast
  let ?s = "s\<lparr>mem := m, freeCount := freeCount s - 1\<rparr>"
  have pos: "0 < unat (freeCount s)" using I(5) by simp
  then have f: "unat (freeCount s - 1) = unat (freeCount s) - 1" "0 < freeCount s"
    by (simp_all add: unat_sub word_le_nat_alt word_less_nat_alt)
  then have "freeCount s - 1 \<le> IOT_TASKPOOL_JOBS_RECYCLE_LIMIT" using I(6) by (simp add: word_le_nat_alt)
  then have "pool_inv ?s dq te fl lost"
    using I m(2) f by (auto simp: pool_inv_def jobs_ok_def)
  moreover have "p \<notin> set dq" "p \<notin> set fl" using links_okD(4,9) [OF I(2)] by auto
  moreover have "p \<notin> event_job (events s) ` set te" using jobs_okD(2,3) [OF I(3), of p] by auto
  moreover have "fetchOrAllocateJob pf s = Some (Some p, ?s)" using m(1) f(2) by (simp add: fetchOrAllocateJob_def Let_def)
  moreover have "timer_inv clk M P ?s te" using t by (simp add: timer_inv_def)
  ultimately show ?thesis by (intro exI [of _ ?s]) (simp add: same_threads_def job_gone_def)
qed

lemma fetchOrAllocateJob_new:
  assumes inv: "pool_inv s dq te [] lost" and t: "timer_inv clk M P s te" and pf: "platform_ok pf clk M" and lost: "lost \<subseteq> dom (jobs s)"
  shows "\<exists>r s'. fetchOrAllocateJob pf s = Some (r, s') \<and> pool_inv s' dq te [] lost \<and> timer_inv clk M P s' te \<and> same_threads s s'
    \<and> freeCount s' = freeCount s \<and> events s' = events s \<and> timer s' = timer s \<and> later pf (world s) (world s')
    \<and> (case r of None \<Rightarrow> jobs s' = jobs s
       | Some p \<Rightarrow> \<not> live s p \<and> job_gone s' p dq te [] \<and>
           jobs s' = (jobs s)(p \<mapsto> \<lparr>userCallback = None, pUserContext = None, flags = 0, status = STATUS_READY\<rparr>))"
proof -
  note I = pool_invD [OF inv]
  obtain r w where m: "malloc (rtos pf) (live s) (sizeof_taskPoolJob pf) (world s) = (r, w)" by fastforce
  have empty: "IotListDouble_RemoveHead (Some FreeList) (mem s) = Some (None, mem s)" by (rule links_fetch_empty [OF I(2)])
  have lw: "later pf (world s) w" by (rule later_malloc [OF m])
  show ?thesis
  proof (cases r)
    case None
    have "timer_inv clk M P (s\<lparr>world := w\<rparr>) te" by (rule timer_inv_later [OF t pf]) (use lw in auto)
    moreover have "live (s\<lparr>mem := mem s\<rparr>) = live s" by simp
    ultimately show ?thesis using inv empty m None lw
      by (intro exI [of _ None] exI [of _ "s\<lparr>world := w\<rparr>"]) (simp add: fetchOrAllocateJob_def Let_def same_threads_def pool_inv_def)
  next
    case (Some p)
    let ?j = "\<lparr>userCallback = None, pUserContext = None, flags = 0, status = STATUS_READY\<rparr>"
    let ?s = "s\<lparr>world := w, mem := (mem s)(JobLink p \<mapsto> \<lparr>pPrevious = None, pNext = None\<rparr>), jobs := (jobs s)(p \<mapsto> ?j)\<rparr>"
    have nl: "\<not> live s p" using fresh_blocksD [OF platform_okD(1) [OF pf] m [unfolded Some]] .
    then have np: "p \<notin> dom (jobs s)" by (auto simp: live_def)
    have p: "p \<notin> set dq" using links_okD(5) [OF I(2)] np by auto
    have pe: "p \<notin> event_job (events s) ` set te" using jobs_okD(2) [OF I(3), of p] np by auto
    have "jobs_ok ((jobs s)(p \<mapsto> ?j)) dq (event_job (events s) ` set te) [] lost"
      by (rule jobs_ok_upd [OF I(3)]) (use p pe in auto)
    then have "pool_inv ?s dq te [] lost" using I links_new_job [OF I(2) p] by (simp add: pool_inv_def)
    moreover have "timer_inv clk M P ?s te" by (rule timer_inv_later [OF t pf]) (use lw in auto)
    ultimately show ?thesis using empty m Some lw nl p pe
      by (intro exI [of _ "Some p"] exI [of _ ?s]) (simp add: fetchOrAllocateJob_def Let_def same_threads_def job_gone_def)
  qed
qed

subsection \<open>The operations on jobs\<close>

lemma extracted_scheduled [simp]: "extracted j\<lparr>status := v\<rparr> = j\<lparr>status := v\<rparr>"
  by (simp add: extracted_def)

lemma Schedule_ok:
  assumes pf: "platform_ok pf clk M" and inv: "pool_inv s dq te fl lost" and t: "timer_inv clk M P s te"
    and h: "storage s = Some h" and up: "maxThreads s \<noteq> 0" and j: "jobs s p = Some j" "userCallback j \<noteq> None" and p: "p \<notin> lost"
    and f: "f \<in> {0, IOT_TASKPOOL_JOB_HIGH_PRIORITY}" and st: "status j \<noteq> STATUS_COMPLETED"
  shows "\<exists>st s'. IotTaskPool_Schedule pf (Some h) (Some p) f s = Some (st, s')
    \<and> timer_inv clk M P s' (no_event (events s) p te) \<and> later pf (world s) (world s') \<and> freeCount s' = freeCount s
    \<and> jobs s' = (jobs s)(p \<mapsto> j\<lparr>status := STATUS_SCHEDULED\<rparr>)
    \<and> (\<forall>e \<in> set (no_event (events s) p te). events s' e = events s e)
    \<and> (if st = IOT_TASKPOOL_SUCCESS
       then pool_inv s' (queued f s p (remove1 p dq)) (no_event (events s) p te) (remove1 p fl) lost \<and> grown_by 1 s s'
       else st = IOT_TASKPOOL_NO_MEMORY \<and> must_grow f (activeThreads s) (activeJobs s + 1) \<and> same_threads s s'
         \<and> pool_inv s' (remove1 p dq) (no_event (events s) p te) (remove1 p fl) (insert p lost))"
proof -
  let ?te = "no_event (events s) p te"
  obtain s1 where x: "trySafeExtraction pf p False s = Some (IOT_TASKPOOL_SUCCESS, s1)"
    "pool_inv s1 (remove1 p dq) ?te (remove1 p fl) lost" "timer_inv clk M P s1 ?te"
    "jobs s1 = (jobs s)(p \<mapsto> extracted j)" "same_threads s s1" "freeCount s1 = freeCount s"
    "\<forall>e \<in> set ?te. events s1 e = events s e" "later pf (world s) (world s1)"
    using trySafeExtraction_ok [OF pf inv t j(1) p, of False] st by auto
  note gone = extracted_nowhere [OF inv x(2,7)]
  have j1: "jobs s1 p = Some (extracted j)" "userCallback (extracted j) \<noteq> None" using x(4) j(2) by simp_all
  obtain st s' where y: "scheduleInternal pf p f s1 = Some (st, s')" "events s' = events s1" "timer s' = timer s1"
    "timer_inv clk M P s' ?te" "later pf (world s1) (world s')"
    "jobs s' = (jobs s1)(p \<mapsto> extracted j\<lparr>status := STATUS_SCHEDULED\<rparr>)" "freeCount s' = freeCount s1"
    "if st = IOT_TASKPOOL_SUCCESS then pool_inv s' (queued f s1 p (remove1 p dq)) ?te (remove1 p fl) (lost - {p}) \<and> grown_by 1 s1 s'
       else st = IOT_TASKPOOL_NO_MEMORY \<and> pool_inv s' (remove1 p dq) ?te (remove1 p fl) (insert p lost) \<and> same_threads s1 s'
         \<and> must_grow f (activeThreads s1) (activeJobs s1 + 1)"
    using scheduleInternal_ok [OF pf x(2,3) j1 gone, of f] by blast
  have "IotTaskPool_Schedule pf (Some h) (Some p) f s = Some (st, s')"
    using f up x(1) y(1) pool_at_live [OF inv h] by (auto simp: IotTaskPool_Schedule_def IsShutdownStarted_def)
  moreover have "queued f s1 p (remove1 p dq) = queued f s p (remove1 p dq)" "lost - {p} = lost"
    using x(5) p by (auto simp: queued_def same_threads_def)
  moreover have "grown_by 1 s1 s' \<Longrightarrow> grown_by 1 s s'" "same_threads s1 s' \<Longrightarrow> same_threads s s'"
    using x(5) by (auto simp: grown_by_def same_threads_def)
  moreover have "activeThreads s1 = activeThreads s" "activeJobs s1 = activeJobs s" using x(5) by (auto simp: same_threads_def)
  ultimately show ?thesis using x(4,6,7) y(2-8) later_trans [OF x(8) y(5)]
    by (intro exI [of _ st] exI [of _ s']) (simp split: if_splits)
qed

lemma Schedule_executing:
  assumes inv: "pool_inv s dq te fl lost" and h: "storage s = Some h" and up: "maxThreads s \<noteq> 0"
    and j: "jobs s p = Some j" "status j = STATUS_COMPLETED" and f: "f \<in> {0, IOT_TASKPOOL_JOB_HIGH_PRIORITY}"
  shows "IotTaskPool_Schedule pf (Some h) (Some p) f s = Some (IOT_TASKPOOL_ILLEGAL_OPERATION, s)"
  using f up trySafeExtraction_executing [OF inv j, of pf] pool_at_live [OF inv h]
  by (auto simp: IotTaskPool_Schedule_def IsShutdownStarted_def)

lemma ScheduleDeferred_ok:
  assumes pf: "platform_ok pf clk M" and inv: "pool_inv s dq te fl lost" and t: "timer_inv clk M P s te"
    and h: "storage s = Some h" and up: "maxThreads s \<noteq> 0" and j: "jobs s p = Some j" "userCallback j \<noteq> None" and p: "p \<notin> lost"
    and st: "status j \<noteq> STATUS_COMPLETED" and ms: "timeMs \<noteq> 0" "unat timeMs \<le> M"
  shows "\<exists>st s'. IotTaskPool_ScheduleDeferred pf (Some h) (Some p) timeMs s = Some (st, s') \<and> same_threads s s' \<and> later pf (world s) (world s')
    \<and> freeCount s' = freeCount s
    \<and> (st = IOT_TASKPOOL_NO_MEMORY \<and> jobs s' = (jobs s)(p \<mapsto> extracted j)
        \<and> pool_inv s' (remove1 p dq) (no_event (events s) p te) (remove1 p fl) lost \<and> timer_inv clk M P s' (no_event (events s) p te)
      \<or> st = IOT_TASKPOOL_SUCCESS \<and> jobs s' = (jobs s)(p \<mapsto> j\<lparr>status := STATUS_DEFERRED\<rparr>)
        \<and> (\<exists>e T now. e \<notin> set (no_event (events s) p te) \<and> clk (world s) \<le> now \<and> now \<le> clk (world s')
          \<and> unat T = unat now + unat timeMs \<and> events s' e = Some \<lparr>expirationTime = T, pJob = p\<rparr>
          \<and> (\<forall>x \<in> set (no_event (events s) p te). events s' x = events s x)
          \<and> pool_inv s' (remove1 p dq) (insert_event (events s') e (no_event (events s) p te)) (remove1 p fl) lost
          \<and> timer_inv clk M P s' (insert_event (events s') e (no_event (events s) p te))))"
proof -
  let ?te = "no_event (events s) p te"
  obtain s1 where x: "trySafeExtraction pf p False s = Some (IOT_TASKPOOL_SUCCESS, s1)"
    "pool_inv s1 (remove1 p dq) ?te (remove1 p fl) lost" "timer_inv clk M P s1 ?te"
    "jobs s1 = (jobs s)(p \<mapsto> extracted j)" "same_threads s s1" "freeCount s1 = freeCount s"
    "\<forall>e \<in> set ?te. events s1 e = events s e" "later pf (world s) (world s1)"
    using trySafeExtraction_ok [OF pf inv t j(1) p, of False] st by auto
  note gone = extracted_nowhere [OF inv x(2,7)]
  have j1: "jobs s1 p = Some (extracted j)" "userCallback (extracted j) \<noteq> None" using x(4) j(2) by simp_all
  have le: "clk (world s) \<le> clk (world s1)" using x(8) pf by (auto simp: later_def)
  obtain st s' where y: "defer_job pf p timeMs s1 = Some (st, s')" "same_threads s1 s'" "later pf (world s1) (world s')"
    "st = IOT_TASKPOOL_NO_MEMORY \<and> s' = s1\<lparr>world := world s'\<rparr>
      \<or> st = IOT_TASKPOOL_SUCCESS \<and> jobs s' = (jobs s1)(p \<mapsto> extracted j\<lparr>status := STATUS_DEFERRED\<rparr>) \<and> freeCount s' = freeCount s1
        \<and> (\<exists>e T now. e \<notin> set ?te \<and> clk (world s1) \<le> now \<and> unat T = unat now + unat timeMs \<and> now \<le> clk (world s')
          \<and> events s' = (events s1)(e \<mapsto> \<lparr>expirationTime = T, pJob = p\<rparr>)
          \<and> pool_inv s' (remove1 p dq) (insert_event (events s') e ?te) (remove1 p fl) lost \<and> timer_inv clk M P s' (insert_event (events s') e ?te))"
    using defer_job_ok [OF pf x(2,3) j1 gone ms(2)] by blast
  have run: "IotTaskPool_ScheduleDeferred pf (Some h) (Some p) timeMs s = Some (st, s')"
    using up ms(1) x(1) y(1) pool_at_live [OF inv h] by (auto simp: IotTaskPool_ScheduleDeferred_def IsShutdownStarted_def)
  have common: "same_threads s s'" "later pf (world s) (world s')"
    using same_threads_trans [OF x(5) y(2)] later_trans [OF x(8) y(3)] by auto
  from y(4) show ?thesis
  proof (elim disjE conjE exE)
    assume nomem: "st = IOT_TASKPOOL_NO_MEMORY" and s': "s' = s1\<lparr>world := world s'\<rparr>"
    have "jobs s' = jobs s1" "freeCount s' = freeCount s1" "events s' = events s1" "timer s' = timer s1"
      using arg_cong [OF s', of jobs] arg_cong [OF s', of freeCount] arg_cong [OF s', of events] arg_cong [OF s', of timer] by simp_all
    moreover have "pool_inv s' (remove1 p dq) ?te (remove1 p fl) lost" using x(2) by (subst s') (simp add: pool_inv_def)
    moreover have "timer_inv clk M P s' ?te"
      by (rule timer_inv_later [OF x(3) pf y(3)]) (rule \<open>events s' = events s1\<close>, rule \<open>timer s' = timer s1\<close>)
    ultimately show ?thesis using run common nomem x(4,6) by auto
  next
    fix e T now
    assume ok: "st = IOT_TASKPOOL_SUCCESS" "jobs s' = (jobs s1)(p \<mapsto> extracted j\<lparr>status := STATUS_DEFERRED\<rparr>)" "freeCount s' = freeCount s1"
      "e \<notin> set ?te" "clk (world s1) \<le> now" "unat T = unat now + unat timeMs" "now \<le> clk (world s')"
      "events s' = (events s1)(e \<mapsto> \<lparr>expirationTime = T, pJob = p\<rparr>)"
      "pool_inv s' (remove1 p dq) (insert_event (events s') e ?te) (remove1 p fl) lost"
      "timer_inv clk M P s' (insert_event (events s') e ?te)"
    have "events s' e = Some \<lparr>expirationTime = T, pJob = p\<rparr>" "\<forall>x \<in> set ?te. events s' x = events s x"
      using ok(4,8) x(7) by auto
    moreover have "clk (world s) \<le> now" using le ok(5) by simp
    moreover have "jobs s' = (jobs s)(p \<mapsto> j\<lparr>status := STATUS_DEFERRED\<rparr>)" using ok(2) x(4) by simp
    ultimately show ?thesis using run common ok x(6)
      by (intro exI [of _ IOT_TASKPOOL_SUCCESS] exI [of _ s'] conjI disjI2 exI [of _ e] exI [of _ T] exI [of _ now]) simp_all
  qed
qed

lemma TryCancel_ok:
  assumes pf: "platform_ok pf clk M" and inv: "pool_inv s dq te fl lost" and t: "timer_inv clk M P s te"
    and h: "storage s = Some h" and up: "maxThreads s \<noteq> 0" and j: "jobs s p = Some j" and p: "p \<notin> lost" and c: "cancelable (status j)"
  shows "\<exists>s'. IotTaskPool_TryCancel pf (Some h) (Some p) pStatus s
      = Some ((IOT_TASKPOOL_SUCCESS, if pStatus then Some (status j) else None), s')
    \<and> pool_inv s' (remove1 p dq) (no_event (events s) p te) fl lost \<and> timer_inv clk M P s' (no_event (events s) p te)
    \<and> jobs s' = (jobs s)(p \<mapsto> j\<lparr>status := STATUS_CANCELED\<rparr>) \<and> same_threads s s' \<and> later pf (world s) (world s')
    \<and> (\<forall>e \<in> set (no_event (events s) p te). events s' e = events s e)"
  using tryCancelInternal_ok [OF pf inv t j p c] up pool_at_live [OF inv h]
  by (auto simp: IotTaskPool_TryCancel_def IsShutdownStarted_def)

lemma TryCancel_fails:
  assumes "pool_inv s dq te fl lost" and "storage s = Some h" and "maxThreads s \<noteq> 0" and "jobs s p = Some j" and "\<not> cancelable (status j)"
  shows "IotTaskPool_TryCancel pf (Some h) (Some p) pStatus s = Some ((IOT_TASKPOOL_CANCEL_FAILED, if pStatus then Some (status j) else None), s)"
  using tryCancelInternal_fails [OF assms(4,5)] assms(3) pool_at_live [OF assms(1,2)]
  by (auto simp: IotTaskPool_TryCancel_def IsShutdownStarted_def)

text \<open>Recycling and destroying take a job out of whatever it is in, unless it is static.\<close>

lemma RecycleJob_ok:
  assumes pf: "platform_ok pf clk M" and inv: "pool_inv s dq te fl lost" and t: "timer_inv clk M P s te"
    and h: "storage s = Some h" and up: "maxThreads s \<noteq> 0" and j: "jobs s p = Some j" and p: "p \<notin> lost" and dyn: "flags j = 0"
  shows "\<exists>s'. IotTaskPool_RecycleJob pf (Some h) (Some p) s = Some (IOT_TASKPOOL_SUCCESS, s')
    \<and> timer_inv clk M P s' (no_event (events s) p te) \<and> same_threads s s' \<and> later pf (world s) (world s')
    \<and> (if freeCount s < IOT_TASKPOOL_JOBS_RECYCLE_LIMIT
       then pool_inv s' (remove1 p dq) (no_event (events s) p te) (remove1 p fl @ [p]) lost \<and> freeCount s' = freeCount s + 1 \<and> dom (jobs s') = dom (jobs s)
       else pool_inv s' (remove1 p dq) (no_event (events s) p te) (remove1 p fl) lost \<and> jobs s' = (jobs s)(p := None))"
proof -
  let ?te = "no_event (events s) p te"
  obtain s1 where x: "trySafeExtraction pf p True s = Some (IOT_TASKPOOL_SUCCESS, s1)"
    "pool_inv s1 (remove1 p dq) ?te (remove1 p fl) lost" "timer_inv clk M P s1 ?te"
    "jobs s1 = (jobs s)(p \<mapsto> extracted j)" "same_threads s s1" "freeCount s1 = freeCount s"
    "\<forall>e \<in> set ?te. events s1 e = events s e" "later pf (world s) (world s1)"
    using trySafeExtraction_ok [OF pf inv t j p, of True] by auto
  have gone: "job_gone s1 p (remove1 p dq) ?te (remove1 p fl)" using extracted_nowhere [OF inv x(2,7)] by (simp add: job_gone_def)
  have j1: "jobs s1 p = Some (extracted j)" "flags (extracted j) = 0" using x(4) dyn by simp_all
  obtain s' where y: "recycleJob pf p s1 = Some s'" "timer_inv clk M P s' ?te" "same_threads s1 s'" "later pf (world s1) (world s')"
    "if freeCount s1 < IOT_TASKPOOL_JOBS_RECYCLE_LIMIT
       then pool_inv s' (remove1 p dq) ?te (remove1 p fl @ [p]) lost \<and> freeCount s' = freeCount s1 + 1
         \<and> jobs s' = (jobs s1)(p \<mapsto> extracted j\<lparr>userCallback := None, pUserContext := None, status := STATUS_UNDEFINED\<rparr>)
       else pool_inv s' (remove1 p dq) ?te (remove1 p fl) lost \<and> freeCount s' = freeCount s1 \<and> jobs s' = (jobs s1)(p := None)"
    using recycleJob_ok [OF x(2,3) pf j1 gone] by auto
  have "IotLink_IsLinked (Some (JobLink p)) (mem s1) = Some False"
    using IsLinked_iff [OF pool_invD(2) [OF x(2)], of p] gone j1 by (auto simp: job_gone_def)
  then have "IotTaskPool_RecycleJob pf (Some h) (Some p) s = Some (IOT_TASKPOOL_SUCCESS, s')"
    using up j dyn x(1) y(1) pool_at_live [OF inv h] by (auto simp: IotTaskPool_RecycleJob_def IsShutdownStarted_def)
  moreover have "dom ((jobs s1)(p \<mapsto> k)) = dom (jobs s)" for k using x(4) j by auto
  ultimately show ?thesis using y(2,5) x(4,6) same_threads_trans [OF x(5) y(3)] later_trans [OF x(8) y(4)]
    by (intro exI [of _ s']) (auto simp del: dom_fun_upd split: if_splits)
qed

lemma RecycleJob_static:
  assumes "pool_inv s dq te fl lost" and "storage s = Some h" and "maxThreads s \<noteq> 0" and "jobs s p = Some j" and "flags j \<noteq> 0"
  shows "IotTaskPool_RecycleJob pf (Some h) (Some p) s = Some (IOT_TASKPOOL_ILLEGAL_OPERATION, s)"
  using assms pool_at_live [OF assms(1,2)] flags_cases [OF pool_invD(3) [OF assms(1)] assms(4)]
  by (auto simp: IotTaskPool_RecycleJob_def IsShutdownStarted_def)

lemma DestroyRecyclableJob_ok:
  assumes pf: "platform_ok pf clk M" and inv: "pool_inv s dq te fl lost" and t: "timer_inv clk M P s te"
    and h: "storage s = Some h" and up: "maxThreads s \<noteq> 0" and j: "jobs s p = Some j" and p: "p \<notin> lost" and dyn: "flags j = 0"
  shows "\<exists>s'. IotTaskPool_DestroyRecyclableJob pf (Some h) (Some p) s = Some (IOT_TASKPOOL_SUCCESS, s')
    \<and> timer_inv clk M P s' (no_event (events s) p te) \<and> same_threads s s' \<and> later pf (world s) (world s')
    \<and> pool_inv s' (remove1 p dq) (no_event (events s) p te) (remove1 p fl) lost \<and> jobs s' = (jobs s)(p := None)"
proof -
  let ?te = "no_event (events s) p te"
  obtain s1 where x: "trySafeExtraction pf p True s = Some (IOT_TASKPOOL_SUCCESS, s1)"
    "pool_inv s1 (remove1 p dq) ?te (remove1 p fl) lost" "timer_inv clk M P s1 ?te"
    "jobs s1 = (jobs s)(p \<mapsto> extracted j)" "same_threads s s1" "freeCount s1 = freeCount s"
    "\<forall>e \<in> set ?te. events s1 e = events s e" "later pf (world s) (world s1)"
    using trySafeExtraction_ok [OF pf inv t j p, of True] by auto
  have gone: "job_gone s1 p (remove1 p dq) ?te (remove1 p fl)" using extracted_nowhere [OF inv x(2,7)] by (simp add: job_gone_def)
  have j1: "jobs s1 p = Some (extracted j)" using x(4) by simp
  obtain s' where y: "destroyJob pf p s1 = Some s'" "pool_inv s' (remove1 p dq) ?te (remove1 p fl) lost" "timer_inv clk M P s' ?te"
    "same_threads s1 s'" "later pf (world s1) (world s')" "jobs s' = (jobs s1)(p := None)"
    using destroyJob_ok [OF x(2,3) pf j1 gone] dyn by auto
  have "IotLink_IsLinked (Some (JobLink p)) (mem s1) = Some False"
    using IsLinked_iff [OF pool_invD(2) [OF x(2)], of p] gone j1 by (auto simp: job_gone_def)
  moreover have "flags j AND IOT_TASK_POOL_INTERNAL_STATIC \<noteq> IOT_TASK_POOL_INTERNAL_STATIC"
    using dyn by (simp add: IOT_TASK_POOL_INTERNAL_STATIC_def)
  ultimately have "IotTaskPool_DestroyRecyclableJob pf (Some h) (Some p) s = Some (IOT_TASKPOOL_SUCCESS, s')"
    using up j x(1) y(1) pool_at_live [OF inv h] by (auto simp: IotTaskPool_DestroyRecyclableJob_def IsShutdownStarted_def)
  then show ?thesis using y x(4) same_threads_trans [OF x(5) y(4)] later_trans [OF x(8) y(5)]
    by (intro exI [of _ s']) simp
qed

text \<open>A recyclable job comes from the head of the cache, or from the heap when the cache is empty.\<close>

lemma CreateRecyclableJob_ok:
  assumes pf: "platform_ok pf clk M" and inv: "pool_inv s dq te fl lost" and t: "timer_inv clk M P s te"
    and h: "storage s = Some h" and up: "maxThreads s \<noteq> 0" and lost: "lost \<subseteq> dom (jobs s)"
  shows "\<exists>r s'. IotTaskPool_CreateRecyclableJob pf (Some h) (Some cb) cx True s
      = Some ((if r = None then IOT_TASKPOOL_NO_MEMORY else IOT_TASKPOOL_SUCCESS, r), s')
    \<and> timer_inv clk M P s' te \<and> same_threads s s' \<and> later pf (world s) (world s')
    \<and> (case r of
         None \<Rightarrow> fl = [] \<and> pool_inv s' dq te [] lost \<and> jobs s' = jobs s
       | Some p \<Rightarrow> job_gone s' p dq te (tl fl) \<and> pool_inv s' dq te (tl fl) (lost - {p}) \<and> (fl \<noteq> [] \<longrightarrow> p = hd fl) \<and> (fl = [] \<longrightarrow> \<not> live s p)
           \<and> jobs s' = (jobs s)(p \<mapsto> \<lparr>userCallback = Some cb, pUserContext = cx, flags = 0, status = STATUS_READY\<rparr>))"
proof (cases fl)
  case (Cons p fl')
  obtain s1 where x: "fetchOrAllocateJob pf s = Some (Some p, s1)" "pool_inv s1 dq te fl' lost" "timer_inv clk M P s1 te" "same_threads s s1"
    "job_gone s1 p dq te fl'" "jobs s1 = jobs s" "events s1 = events s" "world s1 = world s"
    using fetchOrAllocateJob_cached [OF inv [unfolded Cons] t, of pf] by blast
  have "\<exists>j. jobs s1 p = Some j \<and> flags j = 0" using jobs_okD(3) [OF pool_invD(3) [OF inv], of p] Cons x(6) by auto
  then obtain s' where y: "initializeJob p (Some cb) cx False s1 = Some s'" "pool_inv s' dq te fl' (lost - {p})" "timer_inv clk M P s' te"
    "same_threads s1 s'" "world s' = world s1" "events s' = events s1"
    "jobs s' = (jobs s1)(p \<mapsto> \<lparr>userCallback = Some cb, pUserContext = cx, flags = 0, status = STATUS_READY\<rparr>)"
    using initializeJob_ok [OF x(2,3,5), of False "Some cb" cx] by auto
  have "IotTaskPool_CreateRecyclableJob pf (Some h) (Some cb) cx True s = Some ((IOT_TASKPOOL_SUCCESS, Some p), s')"
    using up x(1) y(1) pool_at_live [OF inv h] by (simp add: IotTaskPool_CreateRecyclableJob_def IsShutdownStarted_def)
  then show ?thesis using y x same_threads_trans [OF x(4) y(4)] Cons later_refl [of pf "world s"]
    by (intro exI [of _ "Some p"] exI [of _ s']) (simp add: job_gone_def)
next
  case Nil
  obtain r s1 where x: "fetchOrAllocateJob pf s = Some (r, s1)" "pool_inv s1 dq te [] lost" "timer_inv clk M P s1 te" "same_threads s s1"
    "events s1 = events s" "later pf (world s) (world s1)"
    "case r of None \<Rightarrow> jobs s1 = jobs s
       | Some p \<Rightarrow> \<not> live s p \<and> job_gone s1 p dq te [] \<and>
           jobs s1 = (jobs s)(p \<mapsto> \<lparr>userCallback = None, pUserContext = None, flags = 0, status = STATUS_READY\<rparr>)"
    using fetchOrAllocateJob_new [OF inv [unfolded Nil] t pf lost] by blast
  show ?thesis
  proof (cases r)
    case None
    then have "IotTaskPool_CreateRecyclableJob pf (Some h) (Some cb) cx True s = Some ((IOT_TASKPOOL_NO_MEMORY, None), s1)"
      using up x(1) pool_at_live [OF inv h] by (simp add: IotTaskPool_CreateRecyclableJob_def IsShutdownStarted_def)
    then show ?thesis using x None Nil by (intro exI [of _ None] exI [of _ s1]) simp
  next
    case (Some p)
    then have g: "job_gone s1 p dq te []" "\<exists>j. jobs s1 p = Some j \<and> flags j = 0" using x(7) by auto
    obtain s' where y: "initializeJob p (Some cb) cx False s1 = Some s'" "pool_inv s' dq te [] (lost - {p})" "timer_inv clk M P s' te"
      "same_threads s1 s'" "world s' = world s1" "events s' = events s1"
      "jobs s' = (jobs s1)(p \<mapsto> \<lparr>userCallback = Some cb, pUserContext = cx, flags = 0, status = STATUS_READY\<rparr>)"
      using initializeJob_ok [OF x(2,3) g(1), of False "Some cb" cx] g(2) by auto
    have "IotTaskPool_CreateRecyclableJob pf (Some h) (Some cb) cx True s = Some ((IOT_TASKPOOL_SUCCESS, Some p), s')"
      using up x(1) y(1) pool_at_live [OF inv h] Some by (simp add: IotTaskPool_CreateRecyclableJob_def IsShutdownStarted_def)
    then show ?thesis using y x same_threads_trans [OF x(4) y(4)] Nil Some
      by (intro exI [of _ "Some p"] exI [of _ s']) (simp add: job_gone_def)
  qed
qed

end
