(* ===== verification/TaskPoolLife.thy ===== *)
theory TaskPoolLife
  imports TaskPoolOps
begin

text \<open>
  The life of a pool: its creation with all workers waiting (and the way back when a worker cannot be
  created), the number of threads, and its end, when the lists are emptied and the workers leave.
\<close>

subsection \<open>Workers that start, and workers that leave\<close>

lemma post_times_count:
  assumes "sem_max sem = TASKPOOL_MAX_SEM_VALUE" and "sem_count sem \<le> TASKPOOL_MAX_SEM_VALUE"
  shows "unat (sem_count (post_times n sem)) = min (unat (sem_count sem) + n) 65535 \<and> sem_max (post_times n sem) = TASKPOOL_MAX_SEM_VALUE
    \<and> sem_count (post_times n sem) \<le> TASKPOOL_MAX_SEM_VALUE"
  using assms
proof (induction n arbitrary: sem)
  case 0
  then show ?case by (simp add: TASKPOOL_MAX_SEM_VALUE_def word_le_nat_alt)
next
  case (Suc n)
  show ?case
  proof (cases "sem_count sem < TASKPOOL_MAX_SEM_VALUE")
    case True
    then have lt: "unat (sem_count sem) < 65535" by (simp add: TASKPOOL_MAX_SEM_VALUE_def word_less_nat_alt)
    then have "unat (sem_count sem + 1) = unat (sem_count sem) + 1" by (subst unat_add_lem [THEN iffD1]) simp_all
    then show ?thesis using Suc.IH [of "sem\<lparr>sem_count := sem_count sem + 1\<rparr>"] Suc.prems True lt
      by (simp add: IotSemaphore_Post_def word_le_nat_alt TASKPOOL_MAX_SEM_VALUE_def)
  next
    case False
    then have "unat (sem_count sem) = 65535" using Suc.prems(2) by (simp add: TASKPOOL_MAX_SEM_VALUE_def not_less)
    then show ?thesis using Suc.IH [OF Suc.prems] False Suc.prems by (simp add: IotSemaphore_Post_def)
  qed
qed

lemma signals_ok_post_times: "signals_ok a b \<Longrightarrow> signals_ok a (post_times n b)"
  using post_times_count [of b n] by (simp add: signals_ok_def)

lemma create_workers_cases:
  "\<exists>is w. create_workers pf n s = (if length is = n then IOT_TASKPOOL_SUCCESS else IOT_TASKPOOL_NO_MEMORY,
      s\<lparr>workers := workers s @ map (\<lambda>i. (i, Starting)) is, activeThreads := activeThreads s + of_nat (length is), world := w\<rparr>)
    \<and> length is \<le> n \<and> later pf (world s) w"
proof (induction n arbitrary: s)
  case 0
  then show ?case by (intro exI [of _ "[]"] exI [of _ "world s"]) (simp add: later_refl)
next
  case (Suc n)
  from create_worker_cases [of pf s] show ?case
  proof (elim disjE exE conjE)
    fix w assume "create_worker pf s = (False, s\<lparr>world := w\<rparr>)" "later pf (world s) w"
    then show ?thesis by (intro exI [of _ "[]"] exI [of _ w]) simp
  next
    fix i w assume c: "create_worker pf s = (True, s\<lparr>world := w, workers := workers s @ [(i, Starting)]\<rparr>)" "later pf (world s) w"
    let ?s = "s\<lparr>world := w, workers := workers s @ [(i, Starting)], activeThreads := activeThreads s + 1\<rparr>"
    obtain "is" v where IH: "create_workers pf n ?s = (if length is = n then IOT_TASKPOOL_SUCCESS else IOT_TASKPOOL_NO_MEMORY,
        ?s\<lparr>workers := workers ?s @ map (\<lambda>i. (i, Starting)) is, activeThreads := activeThreads ?s + of_nat (length is), world := v\<rparr>)"
      "length is \<le> n" "later pf (world ?s) v" using Suc.IH [of ?s] by blast
    then have "later pf (world s) v" using later_trans [OF c(2), of v] by simp
    then show ?thesis using c(1) IH
      by (intro exI [of _ "i # is"] exI [of _ v]) (simp add: add.assoc)
  qed
qed

lemma wait_for_start_ok:
  assumes "signals_ok (startStopSignal s) (dispatchSignal s)" and "i < length (workers s)" and "snd (workers s ! i) = Starting"
  shows "wait_for_start i s = Some (s\<lparr>workers := (workers s)[i := (fst (workers s ! i), Waiting)]\<rparr>)"
  using assms
  by (simp add: wait_for_start_def worker_start_def IotSemaphore_Post_def IotSemaphore_Wait_def signals_ok_def TASKPOOL_MAX_SEM_VALUE_def)

lemma wait_for_all_start:
  assumes "signals_ok (startStopSignal s) (dispatchSignal s)"
    and "workers s = pre @ map (\<lambda>i. (i, Waiting)) as @ map (\<lambda>i. (i, Starting)) bs"
  shows "wait_for_all wait_for_start [length pre + length as..<length pre + length as + length bs] s
    = Some (s\<lparr>workers := pre @ map (\<lambda>i. (i, Waiting)) (as @ bs)\<rparr>)"
  using assms
proof (induction bs arbitrary: s as)
  case (Cons b bs)
  let ?i = "length pre + length as"
  let ?s = "s\<lparr>workers := pre @ map (\<lambda>i. (i, Waiting)) (as @ [b]) @ map (\<lambda>i. (i, Starting)) bs\<rparr>"
  have "workers s ! ?i = (b, Starting)" "?i < length (workers s)" using Cons.prems(2) by (simp_all add: nth_append)
  moreover have "(workers s)[?i := (b, Waiting)] = pre @ map (\<lambda>i. (i, Waiting)) (as @ [b]) @ map (\<lambda>i. (i, Starting)) bs"
    using Cons.prems(2) by (simp add: list_update_append)
  ultimately have "wait_for_start ?i s = Some ?s" using wait_for_start_ok [OF Cons.prems(1), of ?i] by simp
  moreover have "wait_for_all wait_for_start [length pre + length (as @ [b])..<length pre + length (as @ [b]) + length bs] ?s
      = Some (?s\<lparr>workers := pre @ map (\<lambda>i. (i, Waiting)) ((as @ [b]) @ bs)\<rparr>)"
    using Cons.prems(1) by (intro Cons.IH) simp_all
  moreover have "[?i..<?i + length (b # bs)] = ?i # [length pre + length (as @ [b])..<length pre + length (as @ [b]) + length bs]"
    by (simp add: upt_conv_Cons del: upt_Suc)
  ultimately show ?case by (simp del: upt_Suc)
qed simp

text \<open>Worker \<open>i\<close> of a pool that is shut down: it is notified, sees the shutdown, reports and leaves.\<close>

lemma wait_for_exit_ok:
  assumes st: "storage s \<noteq> None" and down: "maxThreads s = 0" and ss: "sem_count (startStopSignal s) = 0" "sem_max (startStopSignal s) = TASKPOOL_MAX_SEM_VALUE"
    and d: "0 < sem_count (dispatchSignal s)" and i: "i < length (workers s)" "snd (workers s ! i) = Waiting"
  shows "wait_for_exit pf i s = Some (s\<lparr>workers := (workers s)[i := (fst (workers s ! i), Exited)], activeThreads := activeThreads s - 1,
    dispatchSignal := (dispatchSignal s)\<lparr>sem_count := sem_count (dispatchSignal s) - 1\<rparr>, world := free (rtos pf) (fst (workers s ! i)) (world s)\<rparr>)"
  using assms
  by (simp add: wait_for_exit_def worker_wait_def IotSemaphore_TimedWait_def worker_wake_def TASKPOOL_ENTER_CRITICAL_def IsShutdownStarted_def
      worker_exit_def threadRoutineWrapper_exit_def IotSemaphore_Post_def IotSemaphore_Wait_def TASKPOOL_MAX_SEM_VALUE_def Let_def)

definition exit_all :: "nat list \<Rightarrow> (nat \<times> worker_pc) list \<Rightarrow> (nat \<times> worker_pc) list" where
  "exit_all is ws = fold (\<lambda>i ws. ws[i := (fst (ws ! i), Exited)]) is ws"

lemma exit_all_nth: "i < length ws \<Longrightarrow> exit_all is ws ! i = (fst (ws ! i), if i \<in> set is then Exited else snd (ws ! i))"
proof (induction "is" arbitrary: ws)
  case (Cons k "is")
  then show ?case by (cases "i = k") (auto simp: exit_all_def nth_list_update)
qed (simp add: exit_all_def)

lemma length_exit_all [simp]: "length (exit_all is ws) = length ws"
  unfolding exit_all_def by (induction "is" arbitrary: ws) auto

lemma wait_for_all_exit:
  assumes "storage s \<noteq> None" and "maxThreads s = 0" and "sem_count (startStopSignal s) = 0" "sem_max (startStopSignal s) = TASKPOOL_MAX_SEM_VALUE"
    and "length is \<le> unat (sem_count (dispatchSignal s))" and "distinct is" and "\<And>i. i \<in> set is \<Longrightarrow> i < length (workers s) \<and> snd (workers s ! i) = Waiting"
  shows "\<exists>sem w. wait_for_all (wait_for_exit pf) is s = Some (s\<lparr>workers := exit_all is (workers s),
    activeThreads := activeThreads s - of_nat (length is), dispatchSignal := sem, world := w\<rparr>) \<and> later pf (world s) w"
  using assms
proof (induction "is" arbitrary: s)
  case Nil
  then show ?case by (intro exI [of _ "dispatchSignal s"] exI [of _ "world s"]) (simp add: exit_all_def later_refl)
next
  case (Cons i "is")
  let ?ws = "(workers s)[i := (fst (workers s ! i), Exited)]"
  let ?d = "(dispatchSignal s)\<lparr>sem_count := sem_count (dispatchSignal s) - 1\<rparr>"
  let ?w = "free (rtos pf) (fst (workers s ! i)) (world s)"
  let ?s = "s\<lparr>workers := ?ws, activeThreads := activeThreads s - 1, dispatchSignal := ?d, world := ?w\<rparr>"
  have pos: "0 < sem_count (dispatchSignal s)" using Cons.prems(5) by (simp add: word_less_nat_alt)
  have step: "wait_for_exit pf i s = Some ?s" using Cons.prems pos by (intro wait_for_exit_ok) auto
  have "unat (sem_count ?d) = unat (sem_count (dispatchSignal s)) - 1" using pos by (simp add: unat_sub word_le_nat_alt word_less_nat_alt)
  then have "\<exists>sem w. wait_for_all (wait_for_exit pf) is ?s = Some (?s\<lparr>workers := exit_all is (workers ?s),
      activeThreads := activeThreads ?s - of_nat (length is), dispatchSignal := sem, world := w\<rparr>) \<and> later pf (world ?s) w"
    using Cons.prems by (intro Cons.IH) (auto simp: nth_list_update)
  then obtain sem w where "wait_for_all (wait_for_exit pf) is ?s = Some (?s\<lparr>workers := exit_all is (workers ?s),
      activeThreads := activeThreads ?s - of_nat (length is), dispatchSignal := sem, world := w\<rparr>)" "later pf (world ?s) w" by blast
  moreover from this(2) have "later pf (world s) w" using later_trans [OF later_free [of pf "world s" "fst (workers s ! i)"]] by simp
  ultimately show ?case using step by (intro exI [of _ sem] exI [of _ w]) (simp add: exit_all_def algebra_simps)
qed

subsection \<open>Creating a pool\<close>

lemma performTaskPoolParameterValidation_iff:
  "performTaskPoolParameterValidation (Some i) = IOT_TASKPOOL_SUCCESS \<longleftrightarrow> 1 \<le> info_minThreads i \<and> info_minThreads i \<le> info_maxThreads i"
proof -
  have *: "info_maxThreads i < info_minThreads i \<longleftrightarrow> unat (info_maxThreads i) < unat (info_minThreads i)"
    "info_minThreads i < 1 \<longleftrightarrow> unat (info_minThreads i) < 1" "info_maxThreads i < 1 \<longleftrightarrow> unat (info_maxThreads i) < 1"
    by (simp_all only: word_less_nat_alt unat_1)
  show ?thesis unfolding performTaskPoolParameterValidation_def option.case * word_le_nat_alt unat_1 by auto
qed

definition empty_memory :: "('c, 'x, 'w) taskPool \<Rightarrow> bool" where
  "empty_memory s \<longleftrightarrow> jobs s = Map.empty \<and> events s = Map.empty"

lemma ring_self: "\<lparr>pPrevious = Some h, pNext = Some h\<rparr> = l \<Longrightarrow> m h = Some l \<Longrightarrow> dlist m h []"
  by (auto simp: dlist_def nxt_def prv_def)

lemma initTaskPoolControlStructures_ok:
  assumes "empty_memory s" and "storage s = Some h"
  shows "\<exists>m. initTaskPoolControlStructures i s = Some (IOT_TASKPOOL_SUCCESS, s\<lparr>mem := m, freeCount := 0, minThreads := info_minThreads i,
      maxThreads := info_maxThreads i, activeThreads := 0, activeJobs := 0, stackSize := info_stackSize i, priority := info_priority i,
      dispatchSignal := \<lparr>sem_count = 0, sem_max = TASKPOOL_MAX_SEM_VALUE\<rparr>, startStopSignal := \<lparr>sem_count = 0, sem_max = TASKPOOL_MAX_SEM_VALUE\<rparr>,
      timer := \<lparr>xTimerPeriod = 0, active = None\<rparr>\<rparr>)
    \<and> links_ok m {} [] [] []"
proof -
  let ?nil = "\<lparr>pPrevious = None, pNext = None\<rparr>"
  let ?m0 = "(mem s)(DispatchQueue \<mapsto> ?nil, TimerEventsList \<mapsto> ?nil, FreeList \<mapsto> ?nil)"
  obtain m1 where 1: "IotListDouble_Create (Some DispatchQueue) ?m0 = Some m1" "dlist m1 DispatchQueue []" "same_but {DispatchQueue} ?m0 m1"
    using Create_dlist [of DispatchQueue ?m0] by auto
  then have "TimerEventsList \<in> dom m1" by (auto simp: same_but_def)
  then obtain m2 where 2: "IotListDouble_Create (Some TimerEventsList) m1 = Some m2" "dlist m2 TimerEventsList []" "same_but {TimerEventsList} m1 m2"
    using Create_dlist [of TimerEventsList m1] by blast
  then have "FreeList \<in> dom m2" using 1(3) by (auto simp: same_but_def)
  then obtain m3 where 3: "IotListDouble_Create (Some FreeList) m2 = Some m3" "dlist m3 FreeList []" "same_but {FreeList} m2 m3"
    using Create_dlist [of FreeList m2] by blast
  have d: "dlist m3 DispatchQueue []" "dlist m3 TimerEventsList []"
    using dlist_same [OF dlist_same [OF 1(2) 2(3)] 3(3)] dlist_same [OF 2(2) 3(3)] by auto
  then have "links_ok m3 {} [] [] []" using 3(2) by (simp add: links_ok_def)
  moreover have "initTaskPoolControlStructures i s = Some (IOT_TASKPOOL_SUCCESS, s\<lparr>mem := m3, freeCount := 0, minThreads := info_minThreads i,
      maxThreads := info_maxThreads i, activeThreads := 0, activeJobs := 0, stackSize := info_stackSize i, priority := info_priority i,
      dispatchSignal := \<lparr>sem_count = 0, sem_max = TASKPOOL_MAX_SEM_VALUE\<rparr>, startStopSignal := \<lparr>sem_count = 0, sem_max = TASKPOOL_MAX_SEM_VALUE\<rparr>,
      timer := \<lparr>xTimerPeriod = 0, active = None\<rparr>\<rparr>)"
    using 1(1) 2(1) 3(1)
    by (simp add: initTaskPoolControlStructures_def deque_defs initJobsCache_def IotSemaphore_Create_def IotMutex_Create_def IotClock_TimerCreate_def Let_def)
  ultimately show ?thesis by blast
qed
lemma create_failed_exit:
  assumes "signals_ok (startStopSignal s) (dispatchSignal s)" and "storage s \<noteq> None" and "activeThreads s = of_nat (length is)"
    and "workers s = pre @ map (\<lambda>i. (i, Waiting)) is" and n: "length is \<le> 65535"
  shows "\<exists>sem w. wait_for_all (wait_for_exit pf) [length pre..<length pre + length is] (signalShutdown (of_nat (length is)) s)
      = Some (s\<lparr>maxThreads := 0, workers := pre @ map (\<lambda>i. (i, Exited)) is, activeThreads := 0, dispatchSignal := sem, world := w\<rparr>)
    \<and> later pf (world s) w"
proof -
  let ?s = "signalShutdown (of_nat (length is)) s" and ?ks = "[length pre..<length pre + length is]"
  have u: "unat (of_nat (length is) :: u32) = length is" using n by (simp add: unat_of_nat)
  have c: "unat (sem_count (dispatchSignal ?s)) = min (unat (sem_count (dispatchSignal s)) + length is) 65535"
    using assms(1) post_times_count [of "dispatchSignal s" "length is"] by (simp add: signalShutdown_def signals_ok_def u)
  have "exit_all ?ks (workers s) = pre @ map (\<lambda>i. (i, Exited)) is"
  proof (rule nth_equalityI)
    fix k assume "k < length (exit_all ?ks (workers s))"
    then show "exit_all ?ks (workers s) ! k = (pre @ map (\<lambda>i. (i, Exited)) is) ! k"
      using assms(4) by (auto simp: exit_all_nth nth_append)
  qed (simp add: assms(4))
  moreover have "\<exists>sem w. wait_for_all (wait_for_exit pf) ?ks ?s = Some (?s\<lparr>workers := exit_all ?ks (workers ?s),
    activeThreads := activeThreads ?s - of_nat (length ?ks), dispatchSignal := sem, world := w\<rparr>) \<and> later pf (world ?s) w"
    by (rule wait_for_all_exit) (use assms c in \<open>auto simp: signalShutdown_def signals_ok_def nth_append\<close>)
  ultimately show ?thesis using assms(3) by (auto simp: signalShutdown_def)
qed

text \<open>
  A new pool has the minimum of threads, all waiting, and empty lists. When a thread cannot be
  created, those that have been are made to leave before the caller gets the error.
\<close>

lemma createTaskPool_ok:
  assumes pf: "platform_ok pf clk M" and e: "empty_memory s" and h: "storage s = Some h" and n: "info_minThreads i \<le> TASKPOOL_MAX_SEM_VALUE"
  shows "\<exists>is st s'. createTaskPool pf i s = Some (st, s') \<and> later pf (world s) (world s') \<and> storage s' = Some h \<and> empty_memory s'
    \<and> (if st = IOT_TASKPOOL_SUCCESS
       then length is = unat (info_minThreads i) \<and> workers s' = workers s @ map (\<lambda>i. (i, Waiting)) is
         \<and> activeThreads s' = info_minThreads i \<and> minThreads s' = info_minThreads i \<and> maxThreads s' = info_maxThreads i
         \<and> pool_inv s' [] [] [] {} \<and> timer_inv clk M False s' [] \<and> activeJobs s' = 0 \<and> sem_count (dispatchSignal s') = 0
       else st = IOT_TASKPOOL_NO_MEMORY \<and> length is < unat (info_minThreads i) \<and> workers s' = workers s @ map (\<lambda>i. (i, Exited)) is
         \<and> activeThreads s' = 0)"
proof -
  let ?sem = "\<lparr>sem_count = 0, sem_max = TASKPOOL_MAX_SEM_VALUE\<rparr> :: semaphore"
  obtain m where m: "initTaskPoolControlStructures i s = Some (IOT_TASKPOOL_SUCCESS, s\<lparr>mem := m, freeCount := 0, minThreads := info_minThreads i,
      maxThreads := info_maxThreads i, activeThreads := 0, activeJobs := 0, stackSize := info_stackSize i, priority := info_priority i,
      dispatchSignal := ?sem, startStopSignal := ?sem, timer := \<lparr>xTimerPeriod = 0, active = None\<rparr>\<rparr>)"
    "links_ok m {} [] [] []" using initTaskPoolControlStructures_ok [OF e h] by blast
  let ?s1 = "s\<lparr>mem := m, freeCount := 0, minThreads := info_minThreads i,
      maxThreads := info_maxThreads i, activeThreads := 0, activeJobs := 0, stackSize := info_stackSize i, priority := info_priority i,
      dispatchSignal := ?sem, startStopSignal := ?sem, timer := \<lparr>xTimerPeriod = 0, active = None\<rparr>\<rparr>"
  let ?n = "unat (info_minThreads i)"
  obtain "is" w where c: "create_workers pf ?n ?s1 = (if length is = ?n then IOT_TASKPOOL_SUCCESS else IOT_TASKPOOL_NO_MEMORY,
      ?s1\<lparr>workers := workers s @ map (\<lambda>i. (i, Starting)) is, activeThreads := of_nat (length is), world := w\<rparr>)"
    "length is \<le> ?n" "later pf (world s) w" using create_workers_cases [of pf ?n ?s1] by auto
  let ?s2 = "?s1\<lparr>workers := workers s @ map (\<lambda>i. (i, Starting)) is, activeThreads := of_nat (length is), world := w\<rparr>"
  let ?s3 = "?s2\<lparr>workers := workers s @ map (\<lambda>i. (i, Waiting)) is\<rparr>"
  let ?ks = "[length (workers s)..<length (workers s) + length is]"
  have sig: "signals_ok (startStopSignal ?s2) (dispatchSignal ?s2)" by (simp add: signals_ok_def)
  have w3: "wait_for_all wait_for_start ?ks ?s2 = Some ?s3" using wait_for_all_start [OF sig, of "workers s" "[]" "is"] by simp
  have em: "empty_memory ?s3" using e by (simp add: empty_memory_def)
  show ?thesis
  proof (cases "length is = ?n")
    case True
    then have "createTaskPool pf i s = Some (IOT_TASKPOOL_SUCCESS, ?s3)"
      using m(1) c(1) w3 by (simp add: createTaskPool_def Let_def)
    moreover have "pool_inv ?s3 [] [] [] {}"
      using e h m(2) by (simp add: pool_inv_def empty_memory_def jobs_ok_def events_ok_def signals_ok_def)
    moreover have "timer_inv clk M False ?s3 []" by (simp add: timer_inv_def)
    moreover have "of_nat (length is) = info_minThreads i" using True by simp
    ultimately show ?thesis using True c(3) em h
      by (intro exI [of _ "is"] exI [of _ IOT_TASKPOOL_SUCCESS] exI [of _ ?s3]) simp
  next
    case False
    have n': "length is \<le> 65535" using c(2) n by (simp add: word_le_nat_alt TASKPOOL_MAX_SEM_VALUE_def)
    obtain sem v where x: "wait_for_all (wait_for_exit pf) ?ks (signalShutdown (of_nat (length is)) ?s3)
        = Some (?s3\<lparr>maxThreads := 0, workers := workers s @ map (\<lambda>i. (i, Exited)) is, activeThreads := 0, dispatchSignal := sem, world := v\<rparr>)"
      "later pf w v" using create_failed_exit [of ?s3 "is" "workers s" pf] n' h sig by auto
    let ?s4 = "destroyTaskPool (?s3\<lparr>maxThreads := 0, workers := workers s @ map (\<lambda>i. (i, Exited)) is, activeThreads := 0, dispatchSignal := sem, world := v\<rparr>)"
    have "createTaskPool pf i s = Some (IOT_TASKPOOL_NO_MEMORY, ?s4)"
      using m(1) c(1) w3 x(1) False by (simp add: createTaskPool_def Let_def)
    moreover have "empty_memory ?s4" using em by (simp add: empty_memory_def destroyTaskPool_def)
    ultimately show ?thesis using False c(2) h later_trans [OF c(3) x(2)]
      by (intro exI [of _ "is"] exI [of _ IOT_TASKPOOL_NO_MEMORY] exI [of _ ?s4]) (simp add: destroyTaskPool_def)
  qed
qed

lemma Create_ok:
  assumes pf: "platform_ok pf clk M" and e: "empty_memory s" and v: "1 \<le> info_minThreads i" "info_minThreads i \<le> info_maxThreads i"
    and n: "info_minThreads i \<le> TASKPOOL_MAX_SEM_VALUE" and h: "storage s = None"
  shows "\<exists>is st r s'. IotTaskPool_Create pf (Some i) True s = Some ((st, r), s') \<and> later pf (world s) (world s')
    \<and> (if st = IOT_TASKPOOL_SUCCESS
       then (\<exists>p. \<not> live s p \<and> r = Some (HeapPool p)) \<and> storage s' = r
         \<and> length is = unat (info_minThreads i) \<and> workers s' = workers s @ map (\<lambda>i. (i, Waiting)) is
         \<and> activeThreads s' = info_minThreads i \<and> minThreads s' = info_minThreads i \<and> maxThreads s' = info_maxThreads i
         \<and> pool_inv s' [] [] [] {} \<and> timer_inv clk M False s' [] \<and> activeJobs s' = 0 \<and> sem_count (dispatchSignal s') = 0 \<and> jobs s' = Map.empty
       else st = IOT_TASKPOOL_NO_MEMORY \<and> r = None \<and> storage s' = None \<and> empty_memory s'
         \<and> length is < unat (info_minThreads i) \<and> workers s' = workers s @ map (\<lambda>i. (i, Exited)) is)"
proof -
  have val: "performTaskPoolParameterValidation (Some i) = IOT_TASKPOOL_SUCCESS" using v by (simp add: performTaskPoolParameterValidation_iff)
  obtain r w where m: "malloc (rtos pf) (live s) (sizeof_taskPool pf) (world s) = (r, w)" by fastforce
  note lw = later_malloc [OF m]
  have pos: "0 < unat (info_minThreads i)" using v(1) by (simp add: word_le_nat_alt)
  show ?thesis
  proof (cases r)
    case None
    then show ?thesis using val m lw e h pos
      by (intro exI [of _ "[]"] exI [of _ IOT_TASKPOOL_NO_MEMORY] exI [of _ None] exI [of _ "s\<lparr>world := w\<rparr>"])
        (simp add: IotTaskPool_Create_def empty_memory_def)
  next
    case (Some p)
    let ?s = "s\<lparr>world := w, storage := Some (HeapPool p)\<rparr>"
    have nl: "\<not> live s p" using fresh_blocksD [OF platform_okD(1) [OF pf] m [unfolded Some]] .
    have em: "empty_memory ?s" and st: "storage ?s = Some (HeapPool p)" using e by (simp_all add: empty_memory_def)
    obtain "is" st s' where c: "createTaskPool pf i ?s = Some (st, s')" "later pf (world ?s) (world s')" "storage s' = Some (HeapPool p)" "empty_memory s'"
      "if st = IOT_TASKPOOL_SUCCESS
       then length is = unat (info_minThreads i) \<and> workers s' = workers ?s @ map (\<lambda>i. (i, Waiting)) is
         \<and> activeThreads s' = info_minThreads i \<and> minThreads s' = info_minThreads i \<and> maxThreads s' = info_maxThreads i
         \<and> pool_inv s' [] [] [] {} \<and> timer_inv clk M False s' [] \<and> activeJobs s' = 0 \<and> sem_count (dispatchSignal s') = 0
       else st = IOT_TASKPOOL_NO_MEMORY \<and> length is < unat (info_minThreads i) \<and> workers s' = workers ?s @ map (\<lambda>i. (i, Exited)) is
         \<and> activeThreads s' = 0"
      using createTaskPool_ok [OF pf em st n] by blast
    have lw2: "later pf w (world s')" using c(2) by simp
    show ?thesis
    proof (cases "st = IOT_TASKPOOL_SUCCESS")
      case True
      then have "IotTaskPool_Create pf (Some i) True s = Some ((st, Some (HeapPool p)), s')"
        using val m c(1) Some by (simp add: IotTaskPool_Create_def)
      then show ?thesis using True c nl later_trans [OF lw lw2]
        by (intro exI [of _ "is"] exI [of _ st] exI [of _ "Some (HeapPool p)"] exI [of _ s']) (simp add: empty_memory_def)
    next
      case False
      let ?s' = "s'\<lparr>storage := None, mem := (mem s')(DispatchQueue := None, TimerEventsList := None, FreeList := None), world := free (rtos pf) p (world s')\<rparr>"
      have "IotTaskPool_Create pf (Some i) True s = Some ((st, None), ?s')"
        using val m c(1,3) Some False by (simp add: IotTaskPool_Create_def FreeTaskPool_def)
      moreover have "later pf (world s) (world ?s')" using later_trans [OF lw later_trans [OF lw2 later_free]] by simp
      ultimately show ?thesis using False c(4,5)
        by (intro exI [of _ "is"] exI [of _ st] exI [of _ None] exI [of _ ?s']) (simp add: empty_memory_def)
    qed
  qed
qed
subsection \<open>Changing the number of threads\<close>

lemma SetMaxThreads_ok:
  assumes inv: "pool_inv s dq te fl lost" and t: "timer_inv clk M P s te" and h: "storage s = Some h" and up: "maxThreads s \<noteq> 0"
    and n: "minThreads s \<le> n" "1 \<le> n"
  shows "\<exists>s'. IotTaskPool_SetMaxThreads (Some h) n s = Some (IOT_TASKPOOL_SUCCESS, s') \<and> pool_inv s' dq te fl lost \<and> timer_inv clk M P s' te
    \<and> s' = s\<lparr>maxThreads := n, dispatchSignal := post_times (unat (maxThreads s) - unat n) (dispatchSignal s)\<rparr>"
proof -
  let ?s = "s\<lparr>maxThreads := n, dispatchSignal := post_times (unat (maxThreads s) - unat n) (dispatchSignal s)\<rparr>"
  have d: "unat (maxThreads s - n) = unat (maxThreads s) - unat n" if "n < maxThreads s"
    using that by (simp add: unat_sub word_le_nat_alt word_less_nat_alt)
  have z: "unat (maxThreads s) - unat n = 0" if "\<not> n < maxThreads s"
    using that by (simp add: word_less_nat_alt)
  have "\<not> n < minThreads s" "\<not> n < 1" using n by (simp_all only: not_less)
  then have "IotTaskPool_SetMaxThreads (Some h) n s = Some (IOT_TASKPOOL_SUCCESS, ?s)"
    using up pool_at_live [OF inv h] d z
    by (cases "n < maxThreads s") (simp_all add: IotTaskPool_SetMaxThreads_def IsShutdownStarted_def Let_def)
  moreover have "pool_inv ?s dq te fl lost" using inv signals_ok_post_times by (simp add: pool_inv_def)
  moreover have "timer_inv clk M P ?s te" using t by (simp add: timer_inv_def)
  ultimately show ?thesis by blast
qed

subsection \<open>Emptying the lists\<close>

definition cleared_job :: "('c, 'x) taskPoolJob \<Rightarrow> ('c, 'x) taskPoolJob" where
  "cleared_job j = j\<lparr>userCallback := None, pUserContext := None, status := STATUS_UNDEFINED\<rparr>"

text \<open>The jobs after those in \<open>A\<close> have been destroyed: a dynamic job is freed, a static one cleared.\<close>

definition destroyed :: "nat set \<Rightarrow> (nat \<rightharpoonup> ('c, 'x) taskPoolJob) \<Rightarrow> nat \<rightharpoonup> ('c, 'x) taskPoolJob" where
  "destroyed A J p = (case J p of
     Some j \<Rightarrow> if p \<in> A then (if flags j = 0 then None else Some (cleared_job j)) else Some j
   | None \<Rightarrow> None)"

lemma destroyed_empty [simp]: "destroyed {} J = J"
  by (rule ext) (simp add: destroyed_def split: option.split)

lemma destroyed_destroyed: "destroyed A (destroyed B J) = destroyed (A \<union> B) J"
  by (rule ext) (auto simp: destroyed_def cleared_job_def split: option.split)

lemma destroyed_one: "J p = Some j \<Longrightarrow> J(p := if flags j = 0 then None else Some (cleared_job j)) = destroyed {p} J"
  by (rule ext) (auto simp: destroyed_def split: option.split)

lemma flags_cleared [simp]: "flags (cleared_job j) = flags j" "status (cleared_job j) = STATUS_UNDEFINED"
  by (simp_all add: cleared_job_def)

lemma pool_inv_not_lost:
  assumes "pool_inv s dq te fl (insert p lost)" and "\<And>j. jobs s p = Some j \<Longrightarrow> status j \<noteq> STATUS_SCHEDULED"
  shows "pool_inv s dq te fl lost"
  using assms unfolding pool_inv_def jobs_ok_def by blast

lemma destroyJob_destroyed:
  assumes "pool_inv s dq te fl lost" and "timer_inv clk M P s te" and "platform_ok pf clk M" and j: "jobs s p = Some j" and "job_gone s p dq te fl"
  shows "\<exists>s'. destroyJob pf p s = Some s' \<and> pool_inv s' dq te fl lost \<and> timer_inv clk M P s' te \<and> same_threads s s'
    \<and> events s' = events s \<and> timer s' = timer s \<and> later pf (world s) (world s') \<and> jobs s' = destroyed {p} (jobs s)"
  unfolding destroyed_one [where J = "jobs s", OF j, symmetric] cleared_job_def using destroyJob_ok [OF assms] by blast

lemma clear_dispatch_queue_ok:
  assumes pf: "platform_ok pf clk M" and inv: "pool_inv s dq te fl lost" and t: "timer_inv clk M P s te"
  shows "\<exists>s'. clear_dispatch_queue pf s = Some s' \<and> pool_inv s' [] te fl lost \<and> timer_inv clk M P s' te \<and> same_threads s s'
    \<and> events s' = events s \<and> timer s' = timer s \<and> later pf (world s) (world s') \<and> jobs s' = destroyed (set dq) (jobs s)"
  using inv t
proof (induction dq arbitrary: s)
  case Nil
  have "clear_dispatch_queue pf s = Some s"
    using links_dequeue_empty [OF pool_invD(2) [OF Nil.prems(1)]] by (subst clear_dispatch_queue.simps) simp
  then show ?case using Nil.prems by (intro exI [of _ s]) (simp add: later_refl)
next
  case (Cons p dq)
  note I = pool_invD [OF Cons.prems(1)] and D = links_okD [OF pool_invD(2) [OF Cons.prems(1)]]
  obtain j where j: "jobs s p = Some j" "status j = STATUS_SCHEDULED" using jobs_okD(1) [OF I(3), of p] by auto
  obtain m where m: "IotDeQueue_DequeueHead (Some DispatchQueue) (mem s) = Some (Some (JobLink p), m)" "links_ok m (dom (jobs s)) dq te fl"
    using links_dequeue [OF I(2)] by blast
  let ?s = "s\<lparr>mem := m\<rparr>"
  have "jobs_ok (jobs s) dq (event_job (events s) ` set te) fl (insert p lost)" using I(3) by (auto simp: jobs_ok_def)
  then have inv1: "pool_inv ?s dq te fl (insert p lost)" using I m(2) by (simp add: pool_inv_def)
  have t1: "timer_inv clk M P ?s te" using Cons.prems(2) by (simp add: timer_inv_def)
  have "p \<notin> set dq" "p \<notin> set fl" "p \<notin> event_job (events s) ` set te"
    using D(4,7) jobs_okD(2) [OF I(3), of p] j by auto
  then have "job_gone ?s p dq te fl" by (simp add: job_gone_def)
  then obtain s1 where d: "destroyJob pf p ?s = Some s1" "pool_inv s1 dq te fl (insert p lost)" "timer_inv clk M P s1 te" "same_threads ?s s1"
    "events s1 = events s" "timer s1 = timer s" "later pf (world s) (world s1)" "jobs s1 = destroyed {p} (jobs s)"
    using destroyJob_destroyed [OF inv1 t1 pf, of p j] j(1) by auto
  have "pool_inv s1 dq te fl lost"
    by (rule pool_inv_not_lost [OF d(2)]) (use j d(8) in \<open>auto simp: destroyed_def split: if_splits\<close>)
  from Cons.IH [OF this d(3)] obtain s' where IH: "clear_dispatch_queue pf s1 = Some s'" "pool_inv s' [] te fl lost" "timer_inv clk M P s' te"
    "same_threads s1 s'" "events s' = events s1" "timer s' = timer s1" "later pf (world s1) (world s')" "jobs s' = destroyed (set dq) (jobs s1)"
    by blast
  have "clear_dispatch_queue pf s = Some s'" using m(1) d(1) IH(1) by (subst clear_dispatch_queue.simps) simp
  moreover have "same_threads s s'" using d(4) IH(4) by (simp add: same_threads_def)
  ultimately show ?case using IH d(5,6,8) later_trans [OF d(7) IH(7)]
    by (intro exI [of _ s']) (simp add: destroyed_destroyed)
qed

lemma clear_jobs_cache_ok:
  assumes pf: "platform_ok pf clk M" and inv: "pool_inv s dq te fl lost" and t: "timer_inv clk M P s te"
  shows "\<exists>s'. clear_jobs_cache pf s = Some s' \<and> pool_inv s' dq te [] lost \<and> timer_inv clk M P s' te \<and> same_threads s s'
    \<and> events s' = events s \<and> timer s' = timer s \<and> later pf (world s) (world s') \<and> jobs s' = destroyed (set fl) (jobs s)"
  using inv t
proof (induction fl arbitrary: s)
  case Nil
  have "clear_jobs_cache pf s = Some s"
    using links_fetch_empty [OF pool_invD(2) [OF Nil.prems(1)]] by (subst clear_jobs_cache.simps) simp
  then show ?case using Nil.prems by (intro exI [of _ s]) (simp add: later_refl)
next
  case (Cons p fl)
  note I = pool_invD [OF Cons.prems(1)] and D = links_okD [OF pool_invD(2) [OF Cons.prems(1)]]
  obtain j where j: "jobs s p = Some j" "status j = STATUS_UNDEFINED" using jobs_okD(3) [OF I(3), of p] by auto
  obtain m where m: "IotListDouble_RemoveHead (Some FreeList) (mem s) = Some (Some (JobLink p), m)" "links_ok m (dom (jobs s)) dq te fl"
    using links_fetch [OF I(2)] by blast
  let ?s = "s\<lparr>mem := m\<rparr>"
  have "jobs_ok (jobs s) dq (event_job (events s) ` set te) fl lost" using I(3) by (auto simp: jobs_ok_def)
  then have inv1: "pool_inv ?s dq te fl lost" using I m(2) by (simp add: pool_inv_def)
  have t1: "timer_inv clk M P ?s te" using Cons.prems(2) by (simp add: timer_inv_def)
  have "p \<notin> set dq" "p \<notin> set fl" "p \<notin> event_job (events s) ` set te"
    using D(4,9) jobs_okD(2) [OF I(3), of p] j by auto
  then have "job_gone ?s p dq te fl" by (simp add: job_gone_def)
  then obtain s1 where d: "destroyJob pf p ?s = Some s1" "pool_inv s1 dq te fl lost" "timer_inv clk M P s1 te" "same_threads ?s s1"
    "events s1 = events s" "timer s1 = timer s" "later pf (world s) (world s1)" "jobs s1 = destroyed {p} (jobs s)"
    using destroyJob_destroyed [OF inv1 t1 pf, of p j] j(1) by auto
  from Cons.IH [OF d(2,3)] obtain s' where IH: "clear_jobs_cache pf s1 = Some s'" "pool_inv s' dq te [] lost" "timer_inv clk M P s' te"
    "same_threads s1 s'" "events s' = events s1" "timer s' = timer s1" "later pf (world s1) (world s')" "jobs s' = destroyed (set fl) (jobs s1)"
    by blast
  have "clear_jobs_cache pf s = Some s'" using m(1) d(1) IH(1) by (subst clear_jobs_cache.simps) simp
  moreover have "same_threads s s'" using d(4) IH(4) by (simp add: same_threads_def)
  ultimately show ?case using IH d(5,6,8) later_trans [OF d(7) IH(7)]
    by (intro exI [of _ s']) (simp add: destroyed_destroyed)
qed

text \<open>The first event of the timer list is taken out and freed, its job destroyed.\<close>

lemma links_event_pop:
  assumes l: "links_ok m J dq (e # te) fl"
  shows "\<exists>m'. IotListDouble_RemoveHead (Some TimerEventsList) m = Some (Some (EventLink e), m') \<and> links_ok m' J dq te fl"
proof -
  note D = links_okD [OF l]
  obtain m' where m': "IotListDouble_RemoveHead (Some TimerEventsList) m = Some (Some (EventLink e), m')"
    "dlist m' TimerEventsList (map EventLink te)" "same_but (insert TimerEventsList (set (map EventLink (e # te)))) m m'"
    using RemoveHead_dlist [of m TimerEventsList "EventLink e" "map EventLink te"] D(2) by auto
  have "links_ok m' J dq te fl"
    by (rule links_ok_timer [OF l m'(2)]) (use m'(3) in \<open>auto simp: same_but_def\<close>)
  with m'(1) show ?thesis by blast
qed

lemma clear_event:
  assumes pf: "platform_ok pf clk M" and inv: "pool_inv s dq (e # te) fl lost"
  shows "\<exists>m s1 s2. IotListDouble_RemoveHead (Some TimerEventsList) (mem s) = Some (Some (EventLink e), m)
    \<and> destroyJob pf (event_job (events s) e) (s\<lparr>mem := m\<rparr>) = Some s1 \<and> events s1 = events s
    \<and> FreeTimerEvent pf e s1 = Some s2 \<and> pool_inv s2 dq te fl lost \<and> same_threads s s2 \<and> later pf (world s) (world s2)
    \<and> events s2 = (events s)(e := None) \<and> timer s2 = timer s \<and> jobs s2 = destroyed {event_job (events s) e} (jobs s)"
proof -
  note I = pool_invD [OF inv]
  let ?p = "event_job (events s) e" and ?E = "(events s)(e := None)"
  have ne: "e \<notin> set te" using links_okD(8) [OF I(2)] by simp
  obtain m where m: "IotListDouble_RemoveHead (Some TimerEventsList) (mem s) = Some (Some (EventLink e), m)" "links_ok m (dom (jobs s)) dq te fl"
    using links_event_pop [OF I(2)] by blast
  obtain j where j: "jobs s ?p = Some j" "status j = STATUS_DEFERRED" using jobs_okD(2) [OF I(3), of ?p] by auto
  have p: "?p \<notin> set dq" "?p \<notin> set fl" using jobs_okD(1,3) [OF I(3), of ?p] j by auto
  let ?J = "destroyed {?p} (jobs s)"
  let ?m = "if flags j = 0 then m(JobLink ?p := None) else m" and ?w = "if flags j = 0 then free (rtos pf) ?p (world s) else world s"
  let ?s1 = "s\<lparr>mem := ?m, jobs := ?J, world := ?w\<rparr>"
  let ?s2 = "?s1\<lparr>mem := ?m(EventLink e := None), events := ?E, world := free (rtos pf) e ?w\<rparr>"
  have d: "destroyJob pf ?p (s\<lparr>mem := m\<rparr>) = Some ?s1"
    using j(1) flags_cases [OF I(3) j(1)] by (simp add: destroyJob_def Let_def destroyed_one [where J = "jobs s", OF j(1), symmetric] cleared_job_def)
  have "events s e \<noteq> None" using events_ok_Some [OF I(4), of e] by auto
  then have f: "FreeTimerEvent pf e ?s1 = Some ?s2" by (simp add: FreeTimerEvent_def)
  have E: "events_ok ?E te" "event_job ?E ` set te = event_job (events s) ` set (e # te) - {?p}"
    using events_ok_remove [OF I(4), of e] by simp_all
  have "dom ?J = (if flags j = 0 then dom (jobs s) - {?p} else dom (jobs s))"
    using j(1) by (auto simp: destroyed_def split: option.splits if_splits)
  then have "links_ok ?m (dom ?J) dq te fl" using links_free_job [OF m(2) p] m(2) by simp
  then have l: "links_ok (?m(EventLink e := None)) (dom ?J) dq te fl" by (rule links_event_free) (rule ne)
  have "jobs_ok ?J dq (event_job (events s) ` set (e # te) - {?p}) fl lost"
  proof (cases "flags j = 0")
    case True
    then have "?J = (jobs s)(?p := None)" using destroyed_one [where J = "jobs s", OF j(1)] by simp
    then show ?thesis using I(3) p unfolding jobs_ok_def by (simp add: fun_upd_apply) blast
  next
    case False
    then have "?J = (jobs s)(?p \<mapsto> cleared_job j)" using destroyed_one [where J = "jobs s", OF j(1)] by simp
    then show ?thesis using jobs_ok_upd [OF I(3), of ?p dq "event_job (events s) ` set (e # te) - {?p}" fl lost "cleared_job j"]
        p jobs_okD(6) [OF I(3) j(1)] by auto
  qed
  then have "pool_inv ?s2 dq te fl lost" using I l E by (simp add: pool_inv_def)
  moreover have "later pf (world s) (world ?s2)" by (simp add: later_trans [OF later_free later_free] later_free)
  ultimately show ?thesis using m(1) d f
    by (intro exI [of _ m] exI [of _ ?s1] exI [of _ ?s2]) (simp add: same_threads_def)
qed

lemma clear_timer_events_ok:
  assumes pf: "platform_ok pf clk M" and inv: "pool_inv s dq te fl lost"
  shows "\<exists>s'. clear_timer_events pf s = Some s' \<and> pool_inv s' dq [] fl lost \<and> same_threads s s'
    \<and> timer s' = timer s \<and> later pf (world s) (world s') \<and> jobs s' = destroyed (event_job (events s) ` set te) (jobs s)"
  using inv
proof (induction te arbitrary: s)
  case Nil
  have "IotListDouble_RemoveHead (Some TimerEventsList) (mem s) = Some (None, mem s)"
    using links_okD(2) [OF pool_invD(2) [OF Nil.prems]] by (simp add: RemoveHead_empty)
  then have "clear_timer_events pf s = Some s" by (subst clear_timer_events.simps) simp
  then show ?case using Nil.prems by (intro exI [of _ s]) (simp add: later_refl)
next
  case (Cons e te)
  note I = pool_invD [OF Cons.prems]
  obtain m s1 s2 where d: "IotListDouble_RemoveHead (Some TimerEventsList) (mem s) = Some (Some (EventLink e), m)"
    "destroyJob pf (event_job (events s) e) (s\<lparr>mem := m\<rparr>) = Some s1" "FreeTimerEvent pf e s1 = Some s2" "pool_inv s2 dq te fl lost"
    "same_threads s s2" "later pf (world s) (world s2)" "events s2 = (events s)(e := None)" "timer s2 = timer s"
    "jobs s2 = destroyed {event_job (events s) e} (jobs s)" using clear_event [OF pf Cons.prems] by blast
  from Cons.IH [OF d(4)] obtain s' where IH: "clear_timer_events pf s2 = Some s'" "pool_inv s' dq [] fl lost"
    "same_threads s2 s'" "timer s' = timer s2" "later pf (world s2) (world s')" "jobs s' = destroyed (event_job (events s2) ` set te) (jobs s2)"
    by blast
  obtain ev where ev: "events s e = Some ev" using events_ok_Some [OF I(4), of e] by auto
  have "clear_timer_events pf s = Some s'" using d(1-3) IH(1) ev by (subst clear_timer_events.simps) (simp add: event_job_def)
  moreover have "event_job (events s2) ` set te = event_job (events s) ` set te"
    using links_okD(8) [OF I(2)] d(7) by (auto simp: event_job_def image_iff)
  ultimately show ?case using IH d(8,9) same_threads_trans [OF d(5) IH(3)] later_trans [OF d(6) IH(5)]
    by (intro exI [of _ s']) (simp add: destroyed_destroyed)
qed
subsection \<open>Destroying a pool\<close>

text \<open>
  The critical section destroys every job of the three lists, frees the timer events, and notifies
  the threads; the shutdown is left to the timer when the time of its first event has already come.
\<close>

definition listed :: "(nat \<rightharpoonup> taskPoolTimerEvent) \<Rightarrow> nat list \<Rightarrow> nat list \<Rightarrow> nat list \<Rightarrow> nat set" where
  "listed E dq te fl = set dq \<union> event_job E ` set te \<union> set fl"

lemma destroy_critical_ok:
  assumes pf: "platform_ok pf clk M" and inv: "pool_inv s dq te fl lost" and t: "timer_inv clk M P s te"
  shows "\<exists>complete s'. destroy_critical pf s = Some ((activeThreads s, complete), s') \<and> pool_inv s' [] [] [] lost
    \<and> same_threads s (s'\<lparr>maxThreads := maxThreads s, dispatchSignal := dispatchSignal s\<rparr>)
    \<and> maxThreads s' = 0 \<and> dispatchSignal s' = post_times (unat (activeThreads s)) (dispatchSignal s)
    \<and> timer s' = timer s \<and> later pf (world s) (world s') \<and> jobs s' = destroyed (listed (events s) dq te fl) (jobs s)
    \<and> (if complete then te = [] \<or> clk (world s) < event_time (events s) (hd te)
       else te \<noteq> [] \<and> event_time (events s) (hd te) \<le> clk (world s'))"
proof -
  obtain s1 where a: "clear_dispatch_queue pf s = Some s1" "pool_inv s1 [] te fl lost" "timer_inv clk M P s1 te" "same_threads s s1"
    "events s1 = events s" "timer s1 = timer s" "later pf (world s) (world s1)" "jobs s1 = destroyed (set dq) (jobs s)"
    using clear_dispatch_queue_ok [OF pf inv t] by blast
  have "\<exists>pl complete s2. IotListDouble_PeekHead (Some TimerEventsList) (mem s1) = Some pl
    \<and> (if pl \<noteq> None
        then (case IotClock_GetTimeMs (rtos pf) (world s1) of (now, w) \<Rightarrow> do {
            e \<leftarrow> event_of pl;
            ev \<leftarrow> events s1 e;
            s \<leftarrow> clear_timer_events pf (s1\<lparr>world := w\<rparr>);
            Some (\<not> expirationTime ev \<le> now, s) })
        else Some (True, s1)) = Some (complete, s2)
    \<and> pool_inv s2 [] [] fl lost \<and> same_threads s1 s2 \<and> timer s2 = timer s1 \<and> later pf (world s1) (world s2)
    \<and> jobs s2 = destroyed (event_job (events s) ` set te) (jobs s1)
    \<and> (if complete then te = [] \<or> clk (world s1) < event_time (events s) (hd te)
       else te \<noteq> [] \<and> event_time (events s) (hd te) \<le> clk (world s2))"
  proof (cases te)
    case Nil
    then show ?thesis using PeekHead_event [OF pool_invD(2) [OF a(2)]] a(2)
      by (intro exI [of _ None] exI [of _ True] exI [of _ s1]) (simp add: later_refl)
  next
    case (Cons e te')
    obtain now w where c: "IotClock_GetTimeMs (rtos pf) (world s1) = (now, w)" by fastforce
    have k: "clk (world s1) \<le> now" "clk w = now" using platform_okD(3) [OF pf c] by auto
    obtain ev where ev: "events s e = Some ev" using events_ok_Some [OF pool_invD(4) [OF a(2)], of e] a(5) Cons by auto
    have "pool_inv (s1\<lparr>world := w\<rparr>) [] te fl lost" using a(2) by (simp add: pool_inv_def)
    from clear_timer_events_ok [OF pf this] obtain s2 where b: "clear_timer_events pf (s1\<lparr>world := w\<rparr>) = Some s2" "pool_inv s2 [] [] fl lost"
      "same_threads s1 s2" "timer s2 = timer s1" "later pf w (world s2)" "jobs s2 = destroyed (event_job (events s) ` set te) (jobs s1)"
      using a(5) by (auto simp: same_threads_def)
    have l: "later pf (world s1) (world s2)" by (rule later_trans [OF later_time [OF c] b(5)])
    have n: "now \<le> clk (world s2)" using b(5) pf k(2) by (auto simp: later_def)
    show ?thesis
    proof (cases "expirationTime ev \<le> now")
      case True
      then have "event_time (events s) e \<le> clk (world s2)" using n ev by (simp add: event_time_def)
      then show ?thesis using PeekHead_event [OF pool_invD(2) [OF a(2)]] c b ev l True Cons a(5)
        by (intro exI [of _ "Some (EventLink e)"] exI [of _ False] exI [of _ s2]) simp
    next
      case False
      then have "clk (world s1) < event_time (events s) e" using k(1) ev by (simp add: event_time_def)
      then show ?thesis using PeekHead_event [OF pool_invD(2) [OF a(2)]] c b ev l False Cons a(5)
        by (intro exI [of _ "Some (EventLink e)"] exI [of _ True] exI [of _ s2]) simp
    qed
  qed
  then obtain pl complete s2 where b0: "IotListDouble_PeekHead (Some TimerEventsList) (mem s1) = Some pl"
    and b: "(if pl \<noteq> None
        then (case IotClock_GetTimeMs (rtos pf) (world s1) of (now, w) \<Rightarrow> do {
            e \<leftarrow> event_of pl;
            ev \<leftarrow> events s1 e;
            s \<leftarrow> clear_timer_events pf (s1\<lparr>world := w\<rparr>);
            Some (\<not> expirationTime ev \<le> now, s) })
        else Some (True, s1)) = Some (complete, s2)"
    "pool_inv s2 [] [] fl lost" "same_threads s1 s2" "timer s2 = timer s1" "later pf (world s1) (world s2)"
    "jobs s2 = destroyed (event_job (events s) ` set te) (jobs s1)"
    "if complete then te = [] \<or> clk (world s1) < event_time (events s) (hd te)
       else te \<noteq> [] \<and> event_time (events s) (hd te) \<le> clk (world s2)" by blast
  have "timer_inv clk M P s2 []" by (simp add: timer_inv_def)
  from clear_jobs_cache_ok [OF pf b(2) this] obtain s3 where d: "clear_jobs_cache pf s2 = Some s3" "pool_inv s3 [] [] [] lost"
    "same_threads s2 s3" "timer s3 = timer s2" "later pf (world s2) (world s3)" "jobs s3 = destroyed (set fl) (jobs s2)" by blast
  have "clk (world s) \<le> clk (world s1)" "clk (world s2) \<le> clk (world s3)" using a(7) d(5) pf by (auto simp: later_def)
  then have complete: "if complete then te = [] \<or> clk (world s) < event_time (events s) (hd te)
       else te \<noteq> [] \<and> event_time (events s) (hd te) \<le> clk (world s3)" using b(7) by (auto split: if_splits)
  let ?s = "signalShutdown (activeThreads s) s3"
  have "destroy_critical pf s = Some ((activeThreads s, complete), ?s)"
    using a(1) b0 b(1) d(1) pool_invD(1) [OF inv] by (simp add: destroy_critical_def TASKPOOL_ENTER_CRITICAL_def Let_def)
  moreover have "pool_inv ?s [] [] [] lost" using d(2) signals_ok_post_times by (simp add: pool_inv_def signalShutdown_def)
  moreover have "jobs ?s = destroyed (listed (events s) dq te fl) (jobs s)"
    using a(8) b(6) d(6) by (simp add: signalShutdown_def destroyed_destroyed listed_def Un_ac)
  moreover have "later pf (world s) (world s3)" by (rule later_trans [OF a(7) later_trans [OF b(5) d(5)]])
  ultimately show ?thesis using a b d complete
    by (intro exI [of _ complete] exI [of _ ?s]) (auto simp: signalShutdown_def same_threads_def)
qed

lemma Destroy_ok:
  assumes pf: "platform_ok pf clk M" and inv: "pool_inv s dq te fl lost" and t: "timer_inv clk M P s te" and h: "storage s = Some (HeapPool a)"
    and leave: "distinct leaving" "\<And>i. i \<in> set leaving \<longleftrightarrow> i < length (workers s) \<and> snd (workers s ! i) \<noteq> Exited"
      "\<And>i. i \<in> set leaving \<Longrightarrow> snd (workers s ! i) = Waiting" "activeThreads s = of_nat (length leaving)" "length leaving \<le> 65535"
  shows "\<exists>s'. IotTaskPool_Destroy pf (Some (HeapPool a)) leaving s = Some (IOT_TASKPOOL_SUCCESS, s')
    \<and> (\<forall>i < length (workers s'). snd (workers s' ! i) = Exited) \<and> map fst (workers s') = map fst (workers s) \<and> activeThreads s' = 0
    \<and> events s' = Map.empty \<and> jobs s' = destroyed (listed (events s) dq te fl) (jobs s) \<and> later pf (world s) (world s')
    \<and> (if te = [] \<or> clk (world s') < event_time (events s) (hd te) then storage s' = None
       else storage s' = None \<or> storage s' = Some (HeapPool a) \<and> maxThreads s' = 0)"
proof -
  obtain complete s1 where c: "destroy_critical pf s = Some ((activeThreads s, complete), s1)" "pool_inv s1 [] [] [] lost"
    "same_threads s (s1\<lparr>maxThreads := maxThreads s, dispatchSignal := dispatchSignal s\<rparr>)" "maxThreads s1 = 0"
    "dispatchSignal s1 = post_times (unat (activeThreads s)) (dispatchSignal s)" "timer s1 = timer s" "later pf (world s) (world s1)"
    "jobs s1 = destroyed (listed (events s) dq te fl) (jobs s)"
    "if complete then te = [] \<or> clk (world s) < event_time (events s) (hd te)
       else te \<noteq> [] \<and> event_time (events s) (hd te) \<le> clk (world s1)"
    using destroy_critical_ok [OF pf inv t] by blast
  note I = pool_invD [OF c(2)]
  have n: "unat (activeThreads s) = length leaving" using leave(4,5) by (simp add: unat_of_nat)
  have cnt: "length leaving \<le> unat (sem_count (dispatchSignal s1))"
    using post_times_count [of "dispatchSignal s" "length leaving"] pool_invD(7) [OF inv] c(5) leave(5) n by (simp add: signals_ok_def)
  have ws: "workers s1 = workers s" "activeThreads s1 = activeThreads s" "storage s1 = Some (HeapPool a)"
    using c(3) h by (simp_all add: same_threads_def)
  obtain sem w where x: "wait_for_all (wait_for_exit pf) leaving s1 = Some (s1\<lparr>workers := exit_all leaving (workers s1),
    activeThreads := activeThreads s1 - of_nat (length leaving), dispatchSignal := sem, world := w\<rparr>)" "later pf (world s1) w"
    using wait_for_all_exit [OF I(1) c(4) _ _ cnt leave(1), of pf] leave(2,3) I(7) ws(1) by (auto simp: signals_ok_def)
  let ?s2 = "s1\<lparr>workers := exit_all leaving (workers s), activeThreads := 0, dispatchSignal := sem, world := w\<rparr>"
  have x': "wait_for_all (wait_for_exit pf) leaving s1 = Some ?s2" using x(1) ws leave(4) by simp
  have all: "snd (exit_all leaving (workers s) ! i) = Exited" if "i < length (workers s)" for i
    using exit_all_nth [OF that, of leaving] leave(2) that by auto
  have fst: "map fst (exit_all leaving (workers s)) = map fst (workers s)"
    by (rule nth_equalityI) (auto simp: exit_all_nth)
  have E: "events s1 = Map.empty" using I(4) by (simp add: events_ok_def)
  have zero: "sem_count (startStopSignal s1) = 0" using I(7) by (simp add: signals_ok_def)
  have lw: "later pf (world s) w" by (rule later_trans [OF c(7) x(2)])
  have step: "IotTaskPool_Destroy pf (Some (HeapPool a)) leaving s = destroy_finish pf complete ?s2"
    using c(1) n x' pool_at_live [OF inv h] by (simp add: IotTaskPool_Destroy_def)
  show ?thesis
  proof (cases complete)
    case True
    let ?s3 = "?s2\<lparr>timer := IotClock_TimerDestroy (timer s1), storage := None,
      mem := (mem s1)(DispatchQueue := None, TimerEventsList := None, FreeList := None), world := free (rtos pf) a w\<rparr>"
    have "destroy_finish pf complete ?s2 = Some (IOT_TASKPOOL_SUCCESS, ?s3)"
      using True zero ws(3) by (simp add: destroy_finish_def IotSemaphore_GetCount_def destroyTaskPool_def FreeTaskPool_def)
    then show ?thesis using step all fst E c(8) later_trans [OF lw later_free [of pf w a]]
      by (intro exI [of _ ?s3]) simp
  next
    case False
    then have "destroy_finish pf complete ?s2 = Some (IOT_TASKPOOL_SUCCESS, ?s2)"
      using zero by (simp add: destroy_finish_def IotSemaphore_GetCount_def)
    moreover have "clk (world s1) \<le> clk w" using x(2) pf by (auto simp: later_def)
    then have "event_time (events s) (hd te) \<le> clk w" "te \<noteq> []" using c(9) False by auto
    then have "\<not> (te = [] \<or> clk w < event_time (events s) (hd te))" by simp
    ultimately show ?thesis using step all fst E c(4,8) lw ws(3) by (intro exI [of _ ?s2]) simp
  qed
qed

end
