(* ===== verification/TaskPoolRuns.thy ===== *)
theory TaskPoolRuns
  imports TaskPoolLife
begin

text \<open>
  Runs of a task pool: the calls of the application, the timer and the workers in any order, each
  critical section a step. Every step keeps the invariant and none of the assertions in the code can
  stop it; a job in the queue can always be started by steps of the workers alone.
\<close>

subsection \<open>Actions\<close>

text \<open>
  What the threads of a system do to a pool: the calls of the interface, the timer's expiry and its
  routine, and the steps of worker \<open>i\<close>: the wait for a notification, the critical section after it,
  and the return from a callback.
\<close>

datatype ('c, 'x) action =
  CreateJob 'c "'x option" nat | CreateRecyclableJob 'c "'x option" | DestroyRecyclableJob nat | RecycleJob nat
| Schedule nat u32 | ScheduleDeferred nat u32 | TryCancel nat | SetMaxThreads u32
| TimerExpires | TimerThread | WorkerWait nat | WorkerWake nat | WorkerDone nat

text \<open>
  A run keeps the pool, the jobs that were left behind when a high priority job got no thread, and
  whether the timer's routine has been entered.
\<close>

record ('c, 'x, 'w) run =
  pool :: "('c, 'x, 'w) taskPool"
  abandoned :: "nat set"
  timer_due :: bool

definition abandons :: "IotTaskPoolError \<Rightarrow> nat \<Rightarrow> nat set \<Rightarrow> nat set" where
  "abandons st p A = (if st = IOT_TASKPOOL_NO_MEMORY then insert p A else A)"

fun perform :: "'w platform \<Rightarrow> pool_ref \<Rightarrow> ('c, 'x) action \<Rightarrow> ('c, 'x, 'w) run \<Rightarrow> ('c, 'x, 'w) run option" where
  "perform pf h (CreateJob cb cx p) c =
     do { (_, s) \<leftarrow> IotTaskPool_CreateJob (Some cb) cx (Some p) True (pool c); Some (c\<lparr>pool := s\<rparr>) }"
| "perform pf h (CreateRecyclableJob cb cx) c =
     do { (_, s) \<leftarrow> IotTaskPool_CreateRecyclableJob pf (Some h) (Some cb) cx True (pool c); Some (c\<lparr>pool := s\<rparr>) }"
| "perform pf h (DestroyRecyclableJob p) c =
     do { (_, s) \<leftarrow> IotTaskPool_DestroyRecyclableJob pf (Some h) (Some p) (pool c); Some (c\<lparr>pool := s\<rparr>) }"
| "perform pf h (RecycleJob p) c =
     do { (_, s) \<leftarrow> IotTaskPool_RecycleJob pf (Some h) (Some p) (pool c); Some (c\<lparr>pool := s\<rparr>) }"
| "perform pf h (Schedule p f) c =
     do { (st, s) \<leftarrow> IotTaskPool_Schedule pf (Some h) (Some p) f (pool c); Some (c\<lparr>pool := s, abandoned := abandons st p (abandoned c)\<rparr>) }"
| "perform pf h (ScheduleDeferred p timeMs) c =
     do { (_, s) \<leftarrow> IotTaskPool_ScheduleDeferred pf (Some h) (Some p) timeMs (pool c); Some (c\<lparr>pool := s\<rparr>) }"
| "perform pf h (TryCancel p) c =
     do { (_, s) \<leftarrow> IotTaskPool_TryCancel pf (Some h) (Some p) True (pool c); Some (c\<lparr>pool := s\<rparr>) }"
| "perform pf h (SetMaxThreads n) c =
     do { (_, s) \<leftarrow> IotTaskPool_SetMaxThreads (Some h) n (pool c); Some (c\<lparr>pool := s\<rparr>) }"
| "perform pf h TimerExpires c = do { s \<leftarrow> timer_expires (pool c); Some (c\<lparr>pool := s, timer_due := True\<rparr>) }"
| "perform pf h TimerThread c = do { s \<leftarrow> timerThread pf (pool c); Some (c\<lparr>pool := s, timer_due := False\<rparr>) }"
| "perform pf h (WorkerWait i) c = do { s \<leftarrow> worker_wait i (pool c); Some (c\<lparr>pool := s\<rparr>) }"
| "perform pf h (WorkerWake i) c = do { s \<leftarrow> worker_wake pf i (pool c); Some (c\<lparr>pool := s\<rparr>) }"
| "perform pf h (WorkerDone i) c = do { s \<leftarrow> worker_done pf i (pool c); Some (c\<lparr>pool := s\<rparr>) }"

text \<open>Memory a static job may be made in: free memory, or a static job that waits for nothing.\<close>

definition job_storage :: "('c, 'x, 'w) taskPool \<Rightarrow> nat \<Rightarrow> bool" where
  "job_storage s p \<longleftrightarrow> \<not> live s p
     \<or> (\<exists>j. jobs s p = Some j \<and> flags j = IOT_TASK_POOL_INTERNAL_STATIC \<and> status j \<notin> {STATUS_SCHEDULED, STATUS_DEFERRED})"

text \<open>
  The use the interface asks for: handles of jobs that exist (and were not left behind), jobs that
  have been set up when they are scheduled, delays up to \<open>M\<close>; and what the kernel allows.
\<close>

fun allowed :: "nat \<Rightarrow> ('c, 'x) action \<Rightarrow> ('c, 'x, 'w) run \<Rightarrow> bool" where
  "allowed M (CreateJob cb cx p) c \<longleftrightarrow> job_storage (pool c) p"
| "allowed M (CreateRecyclableJob cb cx) c \<longleftrightarrow> True"
| "allowed M (DestroyRecyclableJob p) c \<longleftrightarrow> jobs (pool c) p \<noteq> None \<and> p \<notin> abandoned c"
| "allowed M (RecycleJob p) c \<longleftrightarrow> jobs (pool c) p \<noteq> None \<and> p \<notin> abandoned c"
| "allowed M (Schedule p f) c \<longleftrightarrow> (case jobs (pool c) p of Some j \<Rightarrow> userCallback j \<noteq> None | None \<Rightarrow> False) \<and> p \<notin> abandoned c"
| "allowed M (ScheduleDeferred p timeMs) c \<longleftrightarrow>
     (case jobs (pool c) p of Some j \<Rightarrow> userCallback j \<noteq> None | None \<Rightarrow> False) \<and> p \<notin> abandoned c \<and> unat timeMs \<le> M"
| "allowed M (TryCancel p) c \<longleftrightarrow> jobs (pool c) p \<noteq> None \<and> p \<notin> abandoned c"
| "allowed M (SetMaxThreads n) c \<longleftrightarrow> True"
| "allowed M TimerExpires c \<longleftrightarrow> active (timer (pool c)) \<noteq> None"
| "allowed M TimerThread c \<longleftrightarrow> timer_due c"
| "allowed M (WorkerWait i) c \<longleftrightarrow> i < length (workers (pool c)) \<and> snd (workers (pool c) ! i) = Waiting"
| "allowed M (WorkerWake i) c \<longleftrightarrow> i < length (workers (pool c)) \<and> (\<exists>b. snd (workers (pool c) ! i) = Awake b)"
| "allowed M (WorkerDone i) c \<longleftrightarrow> i < length (workers (pool c)) \<and> (\<exists>p r. snd (workers (pool c) ! i) = Running p r)"

text \<open>A worker that is counted in \<open>activeThreads\<close>.\<close>

definition counted :: "worker_pc \<Rightarrow> bool" where
  "counted pc = (case pc of Exited \<Rightarrow> False | Running p running \<Rightarrow> running | _ \<Rightarrow> True)"

definition count_workers :: "(worker_pc \<Rightarrow> bool) \<Rightarrow> ('c, 'x, 'w) taskPool \<Rightarrow> nat" where
  "count_workers P s = length (filter (P \<circ> snd) (workers s))"

text \<open>The size of the memory: there is no place for more threads or jobs than this.\<close>

definition within_memory :: "('c, 'x, 'w) taskPool \<Rightarrow> bool" where
  "within_memory s \<longleftrightarrow> count_workers counted s < 2 ^ 32 \<and> finite (dom (jobs s)) \<and> card (dom (jobs s)) \<le> 65535"

text \<open>A pool as \<open>IotTaskPool_Create\<close> leaves it.\<close>

definition new_pool :: "('w \<Rightarrow> u64) \<Rightarrow> nat \<Rightarrow> pool_ref \<Rightarrow> ('c, 'x, 'w) taskPool \<Rightarrow> bool" where
  "new_pool clk M h s \<longleftrightarrow> storage s = Some h \<and> pool_inv s [] [] [] {} \<and> timer_inv clk M False s []
     \<and> (\<exists>ws n. workers s = ws @ map (\<lambda>i. (i, Waiting)) n \<and> (\<forall>t \<in> set ws. snd t = Exited) \<and> length n = unat (activeThreads s))
     \<and> activeThreads s = minThreads s \<and> 1 \<le> minThreads s \<and> minThreads s \<le> maxThreads s"

inductive reaches :: "'w platform \<Rightarrow> nat \<Rightarrow> pool_ref \<Rightarrow> ('c, 'x, 'w) run \<Rightarrow> ('c, 'x, 'w) run \<Rightarrow> bool"
  for pf :: "'w platform" and M :: nat and h :: pool_ref and c :: "('c, 'x, 'w) run" where
  reaches_refl: "reaches pf M h c c"
| reaches_step: "reaches pf M h c d \<Longrightarrow> allowed M a d \<Longrightarrow> perform pf h a d = Some e \<Longrightarrow> within_memory (pool e) \<Longrightarrow> reaches pf M h c e"

subsection \<open>The invariant of a run\<close>

definition workers_ok :: "('c, 'x, 'w) taskPool \<Rightarrow> nat list \<Rightarrow> bool" where
  "workers_ok s dq \<longleftrightarrow> count_workers (\<lambda>pc. pc = Starting) s = 0
     \<and> activeThreads s = of_nat (count_workers counted s)
     \<and> 1 \<le> minThreads s \<and> minThreads s \<le> maxThreads s \<and> unat (minThreads s) \<le> count_workers counted s
     \<and> length dq \<le> unat (sem_count (dispatchSignal s)) + count_workers (\<lambda>pc. pc = Awake True) s"

definition run_inv :: "('w \<Rightarrow> u64) \<Rightarrow> nat \<Rightarrow> pool_ref \<Rightarrow> ('c, 'x, 'w) run \<Rightarrow> nat list \<Rightarrow> nat list \<Rightarrow> nat list \<Rightarrow> bool" where
  "run_inv clk M h c dq te fl \<longleftrightarrow> pool_inv (pool c) dq te fl (abandoned c) \<and> timer_inv clk M (timer_due c) (pool c) te
     \<and> storage (pool c) = Some h \<and> abandoned c \<subseteq> dom (jobs (pool c)) \<and> workers_ok (pool c) dq"

lemma run_invD:
  assumes "run_inv clk M h c dq te fl"
  shows "pool_inv (pool c) dq te fl (abandoned c)" and "timer_inv clk M (timer_due c) (pool c) te"
    and "storage (pool c) = Some h" and "abandoned c \<subseteq> dom (jobs (pool c))" and "workers_ok (pool c) dq"
  using assms by (simp_all add: run_inv_def)

lemma workers_okD:
  assumes "workers_ok s dq"
  shows "count_workers (\<lambda>pc. pc = Starting) s = 0" and "activeThreads s = of_nat (count_workers counted s)"
    and "1 \<le> minThreads s" and "minThreads s \<le> maxThreads s" and "unat (minThreads s) \<le> count_workers counted s"
    and "length dq \<le> unat (sem_count (dispatchSignal s)) + count_workers (\<lambda>pc. pc = Awake True) s"
  using assms by (simp_all add: workers_ok_def)

lemma workers_ok_up: "workers_ok s dq \<Longrightarrow> maxThreads s \<noteq> 0"
  using workers_okD(3,4) [of s dq] by (auto simp: word_le_nat_alt)

lemma queue_bound:
  assumes "pool_inv s dq te fl A" and "within_memory s"
  shows "length dq \<le> 65535"
proof -
  note D = links_okD [OF pool_invD(2) [OF assms(1)]]
  have "card (set dq) \<le> card (dom (jobs s))" using D(5) assms(2) by (intro card_mono) (auto simp: within_memory_def)
  then show ?thesis using distinct_card [OF D(7)] assms(2) by (simp add: within_memory_def)
qed

lemma count_workers_append: "count_workers P (s\<lparr>workers := xs @ ys\<rparr>) = length (filter (P \<circ> snd) xs) + length (filter (P \<circ> snd) ys)"
  by (simp add: count_workers_def)

lemma length_filter_update:
  "i < length xs \<Longrightarrow> length (filter P (xs[i := y])) + (if P (xs ! i) then 1 else 0) = length (filter P xs) + (if P y then 1 else 0)"
proof (induction xs arbitrary: i)
  case (Cons x xs)
  then show ?case by (cases i) auto
qed simp

text \<open>Changing the place a worker is at.\<close>

lemma count_workers_update:
  assumes "i < length (workers s)" and "workers s' = (workers s)[i := (fst (workers s ! i), pc)]"
  shows "count_workers P s' + (if P (snd (workers s ! i)) then 1 else 0) = count_workers P s + (if P pc then 1 else 0)"
  using length_filter_update [OF assms(1), of "P \<circ> snd" "(fst (workers s ! i), pc)"] assms(2) by (simp add: count_workers_def)

lemma workers_ok_grown:
  assumes w: "workers_ok s dq" and g: "grown_by n s s'" and dq: "length dq' \<le> length dq + n" "length dq' \<le> 65535"
    and sig: "signals_ok (startStopSignal s) (dispatchSignal s)"
  shows "workers_ok s' dq'"
proof -
  note W = workers_okD [OF w]
  obtain ws where ws: "\<forall>t \<in> set ws. snd t = Waiting" "workers s' = workers s @ ws" "activeThreads s' = activeThreads s + of_nat (length ws)"
    "minThreads s' = minThreads s" "maxThreads s' = maxThreads s" "dispatchSignal s' = post_times n (dispatchSignal s)"
    using g by (auto simp: grown_by_def)
  have c: "count_workers P s' = count_workers P s + (if P Waiting then length ws else 0)" for P
    using ws(1) by (auto simp: count_workers_def ws(2) filter_id_conv filter_empty_conv)
  have "unat (sem_count (dispatchSignal s')) = min (unat (sem_count (dispatchSignal s)) + n) 65535"
    using post_times_count [of "dispatchSignal s" n] sig ws(6) by (simp add: signals_ok_def)
  then have "length dq' \<le> unat (sem_count (dispatchSignal s')) + count_workers (\<lambda>pc. pc = Awake True) s"
    using W(6) dq by linarith
  then show ?thesis using W ws by (simp add: workers_ok_def c counted_def)
qed

lemma workers_ok_same:
  assumes "workers_ok s dq" and "same_threads s s'" and "length dq' \<le> length dq"
  shows "workers_ok s' dq'"
  using assms by (simp add: workers_ok_def same_threads_def count_workers_def)

subsection \<open>The steps of a worker\<close>

lemma take_job_ok:
  assumes inv: "pool_inv s dq te fl lost"
  shows "\<exists>m J. take_job s = Some (case dq of [] \<Rightarrow> None | p # _ \<Rightarrow> Some p, s\<lparr>mem := m, jobs := J\<rparr>)
    \<and> pool_inv (s\<lparr>mem := m, jobs := J\<rparr>) (tl dq) te fl lost \<and> dom J = dom (jobs s)
    \<and> (\<forall>q. J q = (if dq \<noteq> [] \<and> q = hd dq then map_option (\<lambda>j. j\<lparr>status := STATUS_COMPLETED\<rparr>) (jobs s q) else jobs s q))"
proof (cases dq)
  case Nil
  then show ?thesis using links_dequeue_empty [of "mem s"] pool_invD(2) [OF inv] inv
    by (intro exI [of _ "mem s"] exI [of _ "jobs s"]) (simp add: take_job_def)
next
  case (Cons p dq')
  note I = pool_invD [OF inv]
  obtain m where m: "IotDeQueue_DequeueHead (Some DispatchQueue) (mem s) = Some (Some (JobLink p), m)" "links_ok m (dom (jobs s)) dq' te fl"
    using links_dequeue I(2) Cons by blast
  obtain j where j: "jobs s p = Some j" "status j = STATUS_SCHEDULED" "userCallback j \<noteq> None" using jobs_okD(1) [OF I(3), of p] Cons by auto
  let ?J = "(jobs s)(p \<mapsto> j\<lparr>status := STATUS_COMPLETED\<rparr>)"
  have p: "p \<notin> set dq'" "p \<notin> set fl" "p \<notin> event_job (events s) ` set te"
    using links_okD(4,7) [OF I(2)] jobs_okD(2) [OF I(3), of p] j Cons by auto
  have dom: "dom ?J = dom (jobs s)" using j(1) by auto
  have "jobs_ok ?J dq' (event_job (events s) ` set te) fl lost"
    by (rule jobs_ok_upd [OF I(3)]) (use p Cons jobs_okD(6) [OF I(3) j(1)] in auto)
  then have inv': "pool_inv (s\<lparr>mem := m, jobs := ?J\<rparr>) dq' te fl lost" using I m(2) by (simp add: pool_inv_def dom del: dom_fun_upd)
  have "IotLink_IsLinked (Some (JobLink p)) m = Some False"
    using IsLinked_iff [OF m(2), of p] p j(1) by auto
  then have "take_job s = Some (Some p, s\<lparr>mem := m, jobs := ?J\<rparr>)"
    using m(1) j by (simp add: take_job_def set_status_def)
  then show ?thesis using inv' dom j(1) Cons by (intro exI [of _ m] exI [of _ ?J]) simp
qed

text \<open>The queue after a worker has looked at it.\<close>

lemma workers_ok_step:
  assumes w: "workers_ok s dq" and i: "i < length (workers s)" and pc: "snd (workers s ! i) = pc"
    and fields: "workers s' = (workers s)[i := (fst (workers s ! i), pc')]" "minThreads s' = minThreads s" "maxThreads s' = maxThreads s"
    and n: "count_workers counted s < 2 ^ 32" and c: "counted pc" and "pc' \<noteq> Starting"
    and leave: "activeThreads s' = activeThreads s - (if counted pc' then 0 else 1)" "\<not> counted pc' \<Longrightarrow> minThreads s < activeThreads s"
    and dq: "length dq' + unat (sem_count (dispatchSignal s)) + (if pc = Awake True then 1 else 0)
        \<le> length dq + unat (sem_count (dispatchSignal s')) + (if pc' = Awake True then 1 else 0) \<or> dq' = []"
  shows "workers_ok s' dq'"
proof -
  note W = workers_okD [OF w]
  have u: "unat (activeThreads s) = count_workers counted s" using W(2) n by (simp add: unat_of_nat)
  note C = count_workers_update [OF i fields(1)]
  have st: "count_workers (\<lambda>pc. pc = Starting) s' = 0"
    using C [of "\<lambda>pc. pc = Starting"] W(1) assms(9) by (simp split: if_splits)
  have cs: "count_workers counted s = count_workers counted s' + (if counted pc' then 0 else 1)"
    using C [of counted] pc c by (simp split: if_splits)
  then have "activeThreads s' = of_nat (count_workers counted s')" using W(2) leave(1) by simp
  moreover have "unat (minThreads s) \<le> count_workers counted s'"
    using cs leave(2) W(5) u by (cases "counted pc'") (auto simp: word_less_nat_alt)
  moreover have "length dq' \<le> unat (sem_count (dispatchSignal s')) + count_workers (\<lambda>pc. pc = Awake True) s'"
    using C [of "\<lambda>pc. pc = Awake True"] W(6) dq pc by (auto split: if_splits)
  ultimately show ?thesis using st W fields by (simp add: workers_ok_def)
qed

lemma worker_wait_ok:
  assumes inv: "pool_inv s dq te fl lost" and w: "workers_ok s dq" and i: "i < length (workers s)" "snd (workers s ! i) = Waiting"
    and n: "count_workers counted s < 2 ^ 32"
  shows "\<exists>b s'. worker_wait i s = Some s' \<and> s' = s\<lparr>dispatchSignal := dispatchSignal s', workers := (workers s)[i := (fst (workers s ! i), Awake b)]\<rparr>
    \<and> b = (sem_count (dispatchSignal s) \<noteq> 0) \<and> pool_inv s' dq te fl lost \<and> workers_ok s' dq"
proof (cases "0 < sem_count (dispatchSignal s)")
  case False
  let ?s = "s\<lparr>workers := (workers s)[i := (fst (workers s ! i), Awake False)]\<rparr>"
  have "worker_wait i s = Some ?s" using i False by (simp add: worker_wait_def IotSemaphore_TimedWait_def)
  moreover have "workers_ok ?s dq" by (rule workers_ok_step [where pc' = "Awake False", OF w i _ _ _ n]) (simp_all add: counted_def)
  moreover have "pool_inv ?s dq te fl lost" using inv by (simp add: pool_inv_def)
  ultimately show ?thesis using False [unfolded word_gt_0] by (intro exI [of _ False] exI [of _ ?s]) simp
next
  case True
  let ?d = "(dispatchSignal s)\<lparr>sem_count := sem_count (dispatchSignal s) - 1\<rparr>"
  let ?s = "s\<lparr>dispatchSignal := ?d, workers := (workers s)[i := (fst (workers s ! i), Awake True)]\<rparr>"
  have u: "unat (sem_count (dispatchSignal s) - 1) = unat (sem_count (dispatchSignal s)) - 1" "0 < unat (sem_count (dispatchSignal s))"
    using True by (simp_all add: unat_sub word_le_nat_alt word_less_nat_alt)
  have "worker_wait i s = Some ?s" using i True by (simp add: worker_wait_def IotSemaphore_TimedWait_def)
  moreover have "workers_ok ?s dq" by (rule workers_ok_step [where pc' = "Awake True", OF w i _ _ _ n]) (use u in \<open>simp_all add: counted_def\<close>)
  moreover have "signals_ok (startStopSignal s) ?d" using pool_invD(7) [OF inv] u by (simp add: signals_ok_def word_le_nat_alt, linarith)
  then have "pool_inv ?s dq te fl lost" using inv by (simp add: pool_inv_def)
  ultimately show ?thesis using True by (intro exI [of _ True] exI [of _ ?s]) simp
qed

text \<open>
  After the wait: a worker that was notified runs the first job of the queue, if there is one; a
  worker leaves when there are too many, and never the last \<open>minThreads\<close> of them.
\<close>

lemma worker_wake_ok:
  assumes inv: "pool_inv s dq te fl lost" and w: "workers_ok s dq" and i: "i < length (workers s)" "snd (workers s ! i) = Awake b"
    and n: "count_workers counted s < 2 ^ 32"
  shows "\<exists>s'. worker_wake pf i s = Some s' \<and> pool_inv s' (if b then tl dq else dq) te fl lost \<and> workers_ok s' (if b then tl dq else dq)
    \<and> (\<exists>pc. workers s' = (workers s)[i := (fst (workers s ! i), pc)]
        \<and> (if b \<and> dq \<noteq> [] then (\<exists>r. pc = Running (hd dq) r) else pc = Waiting \<or> pc = Exited))
    \<and> storage s' = storage s \<and> events s' = events s \<and> timer s' = timer s \<and> dom (jobs s') = dom (jobs s) \<and> later pf (world s) (world s')
    \<and> minThreads s' = minThreads s"
proof -
  note W = workers_okD [OF w]
  let ?leave = "activeThreads s > maxThreads s \<or> \<not> b \<and> activeThreads s > minThreads s"
  let ?dq = "if b then tl dq else dq" and ?job = "if b \<and> dq \<noteq> [] then Some (hd dq) else None"
  let ?s1 = "if ?leave then s\<lparr>activeThreads := activeThreads s - 1\<rparr> else s"
  have leave: "?leave \<Longrightarrow> minThreads s < activeThreads s" using W(4) by auto
  have inv1: "pool_inv ?s1 dq te fl lost" using inv by (simp add: pool_inv_def)
  have "\<exists>m J. (if b then take_job ?s1 else Some (None, ?s1)) = Some (?job, ?s1\<lparr>mem := m, jobs := J\<rparr>)
    \<and> pool_inv (?s1\<lparr>mem := m, jobs := J\<rparr>) ?dq te fl lost \<and> dom J = dom (jobs s)"
  proof (cases b)
    case True
    obtain m J where "take_job ?s1 = Some (case dq of [] \<Rightarrow> None | p # _ \<Rightarrow> Some p, ?s1\<lparr>mem := m, jobs := J\<rparr>)"
      "pool_inv (?s1\<lparr>mem := m, jobs := J\<rparr>) (tl dq) te fl lost" "dom J = dom (jobs ?s1)" using take_job_ok [OF inv1] by blast
    then show ?thesis using True by (intro exI [of _ m] exI [of _ J]) (simp split: list.split)
  next
    case False
    then show ?thesis using inv by (intro exI [of _ "mem s"] exI [of _ "jobs s"]) (simp add: pool_inv_def)
  qed
  then obtain m J where t: "(if b then take_job ?s1 else Some (None, ?s1)) = Some (?job, ?s1\<lparr>mem := m, jobs := J\<rparr>)"
    "pool_inv (?s1\<lparr>mem := m, jobs := J\<rparr>) ?dq te fl lost" "dom J = dom (jobs s)" by blast
  let ?pc = "case ?job of Some p \<Rightarrow> Running p (\<not> ?leave) | None \<Rightarrow> if ?leave then Exited else Waiting"
  let ?w = "if ?job = None \<and> ?leave then free (rtos pf) (fst (workers s ! i)) (world s) else world s"
  let ?s = "?s1\<lparr>mem := m, jobs := J, world := ?w, workers := (workers s)[i := (fst (workers s ! i), ?pc)]\<rparr>"
  have up: "\<not> IsShutdownStarted s" using workers_ok_up [OF w] by (simp add: IsShutdownStarted_def)
  have st: "TASKPOOL_ENTER_CRITICAL s = Some ()" using pool_invD(1) [OF inv] by (simp add: TASKPOOL_ENTER_CRITICAL_def)
  have eq: "worker_wake pf i s = Some ?s"
    using i up st t(1) by (cases "?job") (simp_all add: worker_wake_def Let_def worker_exit_def threadRoutineWrapper_exit_def)
  have "pool_inv ?s ?dq te fl lost" using t(2) by (simp add: pool_inv_def)
  moreover have "counted ?pc \<longleftrightarrow> \<not> ?leave" by (simp add: counted_def)
  then have "workers_ok ?s ?dq"
    using leave by (intro workers_ok_step [where pc' = ?pc, OF w i _ _ _ n]) (auto simp: counted_def)
  moreover have "later pf (world s) ?w" by (simp add: later_free later_refl)
  ultimately show ?thesis using eq t(3) by (intro exI [of _ ?s] conjI exI [of _ ?pc]) auto
qed

lemma worker_done_ok:
  assumes inv: "pool_inv s dq te fl lost" and w: "workers_ok s dq" and i: "i < length (workers s)" "snd (workers s ! i) = Running p r"
    and n: "count_workers counted s < 2 ^ 32"
  shows "\<exists>s'. worker_done pf i s = Some s' \<and> pool_inv s' (if r then tl dq else dq) te fl lost \<and> workers_ok s' (if r then tl dq else dq)
    \<and> (\<exists>pc. workers s' = (workers s)[i := (fst (workers s ! i), pc)]
        \<and> pc = (if \<not> r then Exited else if dq \<noteq> [] then Running (hd dq) True else Waiting))
    \<and> storage s' = storage s \<and> events s' = events s \<and> timer s' = timer s \<and> dom (jobs s') = dom (jobs s) \<and> later pf (world s) (world s')
    \<and> minThreads s' = minThreads s"
proof (cases r)
  case False
  let ?s = "worker_exit pf i s"
  have eq: "worker_done pf i s = Some ?s" using i False by (simp add: worker_done_def)
  have "pool_inv ?s dq te fl lost" using inv by (simp add: worker_exit_def pool_inv_def)
  moreover have "count_workers P ?s = count_workers P s" if "\<not> P Exited" "\<not> P (Running p False)" for P
    using count_workers_update [OF i(1), of ?s Exited P] i(2) False that by (simp add: worker_exit_def)
  then have "workers_ok ?s dq" using w by (simp add: workers_ok_def counted_def) (simp add: worker_exit_def)
  moreover have "later pf (world s) (world ?s)" by (simp add: worker_exit_def threadRoutineWrapper_exit_def later_free)
  ultimately show ?thesis using eq False by (intro exI [of _ ?s]) (simp add: worker_exit_def)
next
  case True
  let ?s1 = "s\<lparr>activeJobs := activeJobs s - 1\<rparr>" and ?job = "if dq \<noteq> [] then Some (hd dq) else None"
  let ?pc = "if dq \<noteq> [] then Running (hd dq) True else Waiting"
  have inv1: "pool_inv ?s1 dq te fl lost" using inv by (simp add: pool_inv_def)
  obtain m J where t: "take_job ?s1 = Some (?job, ?s1\<lparr>mem := m, jobs := J\<rparr>)"
    "pool_inv (?s1\<lparr>mem := m, jobs := J\<rparr>) (tl dq) te fl lost" "dom J = dom (jobs s)"
    using take_job_ok [OF inv1] by (cases dq) auto
  let ?s = "?s1\<lparr>mem := m, jobs := J, workers := (workers s)[i := (fst (workers s ! i), ?pc)]\<rparr>"
  have st: "TASKPOOL_ENTER_CRITICAL s = Some ()" using pool_invD(1) [OF inv] by (simp add: TASKPOOL_ENTER_CRITICAL_def)
  have eq: "worker_done pf i s = Some ?s" using i st t(1) True by (cases dq) (simp_all add: worker_done_def)
  have "pool_inv ?s (tl dq) te fl lost" using t(2) by (simp add: pool_inv_def)
  moreover have "workers_ok ?s (tl dq)"
    using True by (intro workers_ok_step [where pc' = ?pc, OF w i _ _ _ n]) (auto simp: counted_def split: if_splits)
  ultimately show ?thesis using eq t(3) True by (intro exI [of _ ?s]) (simp add: later_refl)
qed

subsection \<open>Every action keeps the invariant\<close>

definition keeps_on :: "('w \<Rightarrow> u64) \<Rightarrow> nat \<Rightarrow> 'w platform \<Rightarrow> pool_ref \<Rightarrow> ('c, 'x) action \<Rightarrow> ('c, 'x, 'w) run \<Rightarrow> bool" where
  "keeps_on clk M pf h a c \<longleftrightarrow>
     (\<exists>c'. perform pf h a c = Some c' \<and> (within_memory (pool c') \<longrightarrow> (\<exists>dq te fl. run_inv clk M h c' dq te fl)))"

lemma keeps_onI:
  assumes "perform pf h a c = Some \<lparr>pool = s, abandoned = A, timer_due = P\<rparr>"
    and "pool_inv s dq te fl A" and "timer_inv clk M P s te" and "storage s = Some h" and "A \<subseteq> dom (jobs s)"
    and "within_memory s \<Longrightarrow> workers_ok s dq"
  shows "keeps_on clk M pf h a c"
  using assms unfolding keeps_on_def run_inv_def
  by (intro exI [of _ "\<lparr>pool = s, abandoned = A, timer_due = P\<rparr>"] conjI impI exI [of _ dq] exI [of _ te] exI [of _ fl]) simp_all

lemma keeps_on_same:
  assumes "run_inv clk M h c dq te fl" and "perform pf h a c = Some c"
  shows "keeps_on clk M pf h a c"
  using assms unfolding keeps_on_def by blast

lemma job_storage_gone:
  assumes inv: "pool_inv s dq te fl lost" and p: "job_storage s p"
  shows "job_gone s p dq te fl"
proof -
  note I = pool_invD [OF inv]
  show ?thesis
  proof (cases "jobs s p")
    case None
    then show ?thesis using links_okD(5) [OF I(2)] jobs_okD(2) [OF I(3), of p] by (auto simp: job_gone_def)
  next
    case (Some j)
    then have "flags j = IOT_TASK_POOL_INTERNAL_STATIC" "status j \<notin> {STATUS_SCHEDULED, STATUS_DEFERRED}"
      using p by (auto simp: job_storage_def live_def)
    then show ?thesis using jobs_okD(1-3) [OF I(3), of p] Some by (auto simp: job_gone_def IOT_TASK_POOL_INTERNAL_STATIC_def)
  qed
qed

lemma keeps_on_CreateJob:
  assumes R: "run_inv clk M h \<lparr>pool = s, abandoned = A, timer_due = P\<rparr> dq te fl" and p: "job_storage s p"
  shows "keeps_on clk M pf h (CreateJob cb cx p) \<lparr>pool = s, abandoned = A, timer_due = P\<rparr>"
proof -
  note R' = run_invD [OF R, simplified]
  obtain s' where x: "initializeJob p (Some cb) cx True s = Some s'" "pool_inv s' dq te fl (A - {p})" "timer_inv clk M P s' te" "same_threads s s'"
    "dom (jobs s') = insert p (dom (jobs s))"
    using initializeJob_ok [OF R'(1,2) job_storage_gone [OF R'(1) p], of True "Some cb" cx] by auto
  show ?thesis
  proof (rule keeps_onI)
    show "perform pf h (CreateJob cb cx p) \<lparr>pool = s, abandoned = A, timer_due = P\<rparr> = Some \<lparr>pool = s', abandoned = A, timer_due = P\<rparr>"
      using x(1) by (simp add: IotTaskPool_CreateJob_def)
    show "pool_inv s' dq te fl A" by (rule pool_inv_lost_mono [OF x(2)]) blast
    show "storage s' = Some h" using x(4) R'(3) by (simp add: same_threads_def)
    show "workers_ok s' dq" by (rule workers_ok_same [OF R'(5) x(4)]) simp
  qed (use x R'(4) in auto)
qed

lemma keeps_on_CreateRecyclableJob:
  assumes pf: "platform_ok pf clk M" and R: "run_inv clk M h \<lparr>pool = s, abandoned = A, timer_due = P\<rparr> dq te fl"
  shows "keeps_on clk M pf h (CreateRecyclableJob cb cx) \<lparr>pool = s, abandoned = A, timer_due = P\<rparr>"
proof -
  note R' = run_invD [OF R, simplified]
  obtain r s' where x: "IotTaskPool_CreateRecyclableJob pf (Some h) (Some cb) cx True s
      = Some ((if r = None then IOT_TASKPOOL_NO_MEMORY else IOT_TASKPOOL_SUCCESS, r), s')" "timer_inv clk M P s' te" "same_threads s s'"
    "case r of None \<Rightarrow> fl = [] \<and> pool_inv s' dq te [] A \<and> jobs s' = jobs s
       | Some p \<Rightarrow> job_gone s' p dq te (tl fl) \<and> pool_inv s' dq te (tl fl) (A - {p}) \<and> (fl \<noteq> [] \<longrightarrow> p = hd fl) \<and> (fl = [] \<longrightarrow> \<not> live s p)
           \<and> jobs s' = (jobs s)(p \<mapsto> \<lparr>userCallback = Some cb, pUserContext = cx, flags = 0, status = STATUS_READY\<rparr>)"
    using CreateRecyclableJob_ok [OF pf R'(1-3) workers_ok_up [OF R'(5)] R'(4), of cb cx] by blast
  have "pool_inv s' dq te (tl fl) A \<and> A \<subseteq> dom (jobs s')"
    using x(4) R'(4) by (cases r) (auto intro: pool_inv_lost_mono)
  moreover have "storage s' = Some h" using x(3) R'(3) by (simp add: same_threads_def)
  ultimately show ?thesis
    using x by (intro keeps_onI [of _ _ _ _ s' A P dq te "tl fl"] workers_ok_same [OF R'(5) x(3)]) simp_all
qed

lemma keeps_on_taken:
  assumes R: "run_inv clk M h \<lparr>pool = s, abandoned = A, timer_due = P\<rparr> dq te fl"
    and "perform pf h a \<lparr>pool = s, abandoned = A, timer_due = P\<rparr> = Some \<lparr>pool = s', abandoned = A, timer_due = P\<rparr>"
    and "pool_inv s' (remove1 p dq) te' fl' A" and "timer_inv clk M P s' te'" and "same_threads s s'" and "dom (jobs s) - {p} \<subseteq> dom (jobs s')" "p \<notin> A"
  shows "keeps_on clk M pf h a \<lparr>pool = s, abandoned = A, timer_due = P\<rparr>"
proof -
  note R' = run_invD [OF R, simplified]
  have "workers_ok s' (remove1 p dq)" by (rule workers_ok_same [OF R'(5) assms(5)]) (simp add: length_remove1)
  moreover have "A \<subseteq> dom (jobs s')" using R'(4) assms(6,7) by blast
  ultimately show ?thesis using assms(5) R'(3) by (intro keeps_onI [OF assms(2-4)]) (auto simp: same_threads_def)
qed

lemma keeps_on_DestroyRecyclableJob:
  assumes pf: "platform_ok pf clk M" and R: "run_inv clk M h \<lparr>pool = s, abandoned = A, timer_due = P\<rparr> dq te fl"
    and p: "jobs s p = Some j" "p \<notin> A"
  shows "keeps_on clk M pf h (DestroyRecyclableJob p) \<lparr>pool = s, abandoned = A, timer_due = P\<rparr>"
proof (cases "flags j = 0")
  case True
  note R' = run_invD [OF R, simplified]
  obtain s' where x: "IotTaskPool_DestroyRecyclableJob pf (Some h) (Some p) s = Some (IOT_TASKPOOL_SUCCESS, s')"
    "timer_inv clk M P s' (no_event (events s) p te)" "same_threads s s'"
    "pool_inv s' (remove1 p dq) (no_event (events s) p te) (remove1 p fl) A" "jobs s' = (jobs s)(p := None)"
    using DestroyRecyclableJob_ok [OF pf R'(1-3) workers_ok_up [OF R'(5)] p True] by blast
  show ?thesis by (rule keeps_on_taken [OF R _ x(4,2,3)]) (use x p in auto)
next
  case False
  note R' = run_invD [OF R, simplified]
  have "flags j AND IOT_TASK_POOL_INTERNAL_STATIC = IOT_TASK_POOL_INTERNAL_STATIC"
    using jobs_okD(6) [OF pool_invD(3) [OF R'(1)] p(1)] False by (auto simp: IOT_TASK_POOL_INTERNAL_STATIC_def)
  then have "IotTaskPool_DestroyRecyclableJob pf (Some h) (Some p) s = Some (IOT_TASKPOOL_ILLEGAL_OPERATION, s)"
    using pool_at_live [OF R'(1,3)] workers_ok_up [OF R'(5)] p by (simp add: IotTaskPool_DestroyRecyclableJob_def IsShutdownStarted_def)
  then show ?thesis by (intro keeps_on_same [OF R]) simp
qed

lemma keeps_on_RecycleJob:
  assumes pf: "platform_ok pf clk M" and R: "run_inv clk M h \<lparr>pool = s, abandoned = A, timer_due = P\<rparr> dq te fl"
    and p: "jobs s p = Some j" "p \<notin> A"
  shows "keeps_on clk M pf h (RecycleJob p) \<lparr>pool = s, abandoned = A, timer_due = P\<rparr>"
proof (cases "flags j = 0")
  case True
  note R' = run_invD [OF R, simplified]
  obtain s' where x: "IotTaskPool_RecycleJob pf (Some h) (Some p) s = Some (IOT_TASKPOOL_SUCCESS, s')"
    "timer_inv clk M P s' (no_event (events s) p te)" "same_threads s s'"
    "if freeCount s < IOT_TASKPOOL_JOBS_RECYCLE_LIMIT
     then pool_inv s' (remove1 p dq) (no_event (events s) p te) (remove1 p fl @ [p]) A \<and> freeCount s' = freeCount s + 1 \<and> dom (jobs s') = dom (jobs s)
     else pool_inv s' (remove1 p dq) (no_event (events s) p te) (remove1 p fl) A \<and> jobs s' = (jobs s)(p := None)"
    using RecycleJob_ok [OF pf R'(1-3) workers_ok_up [OF R'(5)] p True] by blast
  have "\<exists>fl'. pool_inv s' (remove1 p dq) (no_event (events s) p te) fl' A \<and> dom (jobs s) - {p} \<subseteq> dom (jobs s')"
    using x(4) by (auto split: if_splits)
  then obtain fl' where y: "pool_inv s' (remove1 p dq) (no_event (events s) p te) fl' A" "dom (jobs s) - {p} \<subseteq> dom (jobs s')" by blast
  show ?thesis by (rule keeps_on_taken [OF R _ y(1) x(2,3) y(2) p(2)]) (use x in simp)
next
  case False
  note R' = run_invD [OF R, simplified]
  show ?thesis using RecycleJob_static [OF R'(1,3) workers_ok_up [OF R'(5)] p(1) False] by (intro keeps_on_same [OF R]) simp
qed

lemma Schedule_bad_flags: "f \<notin> {0, IOT_TASKPOOL_JOB_HIGH_PRIORITY} \<Longrightarrow> IotTaskPool_Schedule pf (Some h) (Some p) f s = Some (IOT_TASKPOOL_BAD_PARAMETER, s)"
  by (simp add: IotTaskPool_Schedule_def)

lemma keeps_on_Schedule:
  assumes pf: "platform_ok pf clk M" and R: "run_inv clk M h \<lparr>pool = s, abandoned = A, timer_due = P\<rparr> dq te fl"
    and p: "jobs s p = Some j" "userCallback j \<noteq> None" "p \<notin> A"
  shows "keeps_on clk M pf h (Schedule p f) \<lparr>pool = s, abandoned = A, timer_due = P\<rparr>"
proof -
  note R' = run_invD [OF R, simplified] and up = workers_ok_up [OF run_invD(5) [OF R], simplified]
  consider "f \<notin> {0, IOT_TASKPOOL_JOB_HIGH_PRIORITY}"
    | (over) "f \<in> {0, IOT_TASKPOOL_JOB_HIGH_PRIORITY}" "status j = STATUS_COMPLETED"
    | (go) "f \<in> {0, IOT_TASKPOOL_JOB_HIGH_PRIORITY}" "status j \<noteq> STATUS_COMPLETED" by blast
  then show ?thesis
  proof cases
    case 1
    then show ?thesis using Schedule_bad_flags [OF 1, of pf h p s] by (intro keeps_on_same [OF R]) (simp add: abandons_def)
  next
    case over
    then show ?thesis using Schedule_executing [OF R'(1,3) up p(1) over(2,1), of pf] by (intro keeps_on_same [OF R]) (simp add: abandons_def)
  next
    case go
    let ?te = "no_event (events s) p te"
    obtain st s' where x: "IotTaskPool_Schedule pf (Some h) (Some p) f s = Some (st, s')" "timer_inv clk M P s' ?te"
      "jobs s' = (jobs s)(p \<mapsto> j\<lparr>status := STATUS_SCHEDULED\<rparr>)"
      "if st = IOT_TASKPOOL_SUCCESS
       then pool_inv s' (queued f s p (remove1 p dq)) ?te (remove1 p fl) A \<and> grown_by 1 s s'
       else st = IOT_TASKPOOL_NO_MEMORY \<and> must_grow f (activeThreads s) (activeJobs s + 1) \<and> same_threads s s'
         \<and> pool_inv s' (remove1 p dq) ?te (remove1 p fl) (insert p A)"
      using Schedule_ok [OF pf R'(1-3) up p go] by blast
    let ?dq = "if st = IOT_TASKPOOL_SUCCESS then queued f s p (remove1 p dq) else remove1 p dq"
    have y: "pool_inv s' ?dq ?te (remove1 p fl) (abandons st p A)" "grown_by (if st = IOT_TASKPOOL_SUCCESS then 1 else 0) s s'"
      using x(4) by (auto simp: abandons_def grown_by_0 split: if_splits)
    have len: "length ?dq \<le> length dq + (if st = IOT_TASKPOOL_SUCCESS then 1 else 0)" by (simp add: queued_def length_remove1)
    have dom: "abandons st p A \<subseteq> dom (jobs s')" using x(3) R'(4) by (auto simp: abandons_def)
    have "workers_ok s' ?dq" if "within_memory s'"
      by (rule workers_ok_grown [OF R'(5) y(2) len queue_bound [OF y(1) that] pool_invD(7) [OF R'(1)]])
    then show ?thesis using x(1) y dom R'(3) by (intro keeps_onI [OF _ y(1) x(2)]) (auto simp: grown_by_def)
  qed
qed

lemma keeps_on_ScheduleDeferred:
  assumes pf: "platform_ok pf clk M" and R: "run_inv clk M h \<lparr>pool = s, abandoned = A, timer_due = P\<rparr> dq te fl"
    and p: "jobs s p = Some j" "userCallback j \<noteq> None" "p \<notin> A" and ms: "unat timeMs \<le> M"
  shows "keeps_on clk M pf h (ScheduleDeferred p timeMs) \<lparr>pool = s, abandoned = A, timer_due = P\<rparr>"
proof -
  note R' = run_invD [OF R, simplified] and up = workers_ok_up [OF run_invD(5) [OF R], simplified]
  consider "timeMs = 0" | (over) "timeMs \<noteq> 0" "status j = STATUS_COMPLETED" | (go) "timeMs \<noteq> 0" "status j \<noteq> STATUS_COMPLETED" by blast
  then show ?thesis
  proof cases
    case 1
    have now: "IotTaskPool_ScheduleDeferred pf (Some h) (Some p) timeMs s = IotTaskPool_Schedule pf (Some h) (Some p) 0 s"
      using 1 by (simp add: IotTaskPool_ScheduleDeferred_def)
    have "\<exists>st s'. IotTaskPool_Schedule pf (Some h) (Some p) 0 s = Some (st, s') \<and> st \<noteq> IOT_TASKPOOL_NO_MEMORY"
    proof (cases "status j = STATUS_COMPLETED")
      case True
      then show ?thesis using Schedule_executing [OF R'(1,3) up p(1), of 0 pf] by simp
    next
      case False
      then show ?thesis using Schedule_ok [OF pf R'(1-3) up p, of 0] must_grow_0 by auto
    qed
    then obtain st s' where "IotTaskPool_Schedule pf (Some h) (Some p) 0 s = Some (st, s')" "st \<noteq> IOT_TASKPOOL_NO_MEMORY" by blast
    then show ?thesis using keeps_on_Schedule [OF pf R p, of 0] now by (simp add: keeps_on_def abandons_def)
  next
    case over
    then have "IotTaskPool_ScheduleDeferred pf (Some h) (Some p) timeMs s = Some (IOT_TASKPOOL_ILLEGAL_OPERATION, s)"
      using trySafeExtraction_executing [OF R'(1) p(1), of pf] pool_at_live [OF R'(1,3)] up
      by (simp add: IotTaskPool_ScheduleDeferred_def IsShutdownStarted_def)
    then show ?thesis by (intro keeps_on_same [OF R]) simp
  next
    case go
    obtain st s' te' where x: "IotTaskPool_ScheduleDeferred pf (Some h) (Some p) timeMs s = Some (st, s')" "same_threads s s'"
      "pool_inv s' (remove1 p dq) te' (remove1 p fl) A" "timer_inv clk M P s' te'" "dom (jobs s) - {p} \<subseteq> dom (jobs s')"
      using ScheduleDeferred_ok [OF pf R'(1-3) up p go(2,1) ms] by (elim exE conjE disjE) (simp; fastforce)+
    show ?thesis by (rule keeps_on_taken [OF R _ x(3,4,2,5) p(3)]) (use x(1) in simp)
  qed
qed

lemma keeps_on_TryCancel:
  assumes pf: "platform_ok pf clk M" and R: "run_inv clk M h \<lparr>pool = s, abandoned = A, timer_due = P\<rparr> dq te fl"
    and p: "jobs s p = Some j" "p \<notin> A"
  shows "keeps_on clk M pf h (TryCancel p) \<lparr>pool = s, abandoned = A, timer_due = P\<rparr>"
proof (cases "cancelable (status j)")
  case True
  note R' = run_invD [OF R, simplified]
  obtain s' where x: "IotTaskPool_TryCancel pf (Some h) (Some p) True s = Some ((IOT_TASKPOOL_SUCCESS, Some (status j)), s')"
    "pool_inv s' (remove1 p dq) (no_event (events s) p te) fl A" "timer_inv clk M P s' (no_event (events s) p te)"
    "jobs s' = (jobs s)(p \<mapsto> j\<lparr>status := STATUS_CANCELED\<rparr>)" "same_threads s s'"
    using TryCancel_ok [OF pf R'(1-3) workers_ok_up [OF R'(5)] p True, of True] by auto
  show ?thesis by (rule keeps_on_taken [OF R _ x(2,3,5) _ p(2)]) (use x in auto)
next
  case False
  note R' = run_invD [OF R, simplified]
  show ?thesis using TryCancel_fails [OF R'(1,3) workers_ok_up [OF R'(5)] p(1) False, of pf True] by (intro keeps_on_same [OF R]) simp
qed

lemma keeps_on_SetMaxThreads:
  assumes R: "run_inv clk M h \<lparr>pool = s, abandoned = A, timer_due = P\<rparr> dq te fl"
  shows "keeps_on clk M pf h (SetMaxThreads n) \<lparr>pool = s, abandoned = A, timer_due = P\<rparr>"
proof (cases "minThreads s \<le> n \<and> 1 \<le> n")
  case True
  note R' = run_invD [OF R, simplified]
  let ?d = "post_times (unat (maxThreads s) - unat n) (dispatchSignal s)"
  let ?s = "s\<lparr>maxThreads := n, dispatchSignal := ?d\<rparr>"
  have x: "IotTaskPool_SetMaxThreads (Some h) n s = Some (IOT_TASKPOOL_SUCCESS, ?s)" "pool_inv ?s dq te fl A" "timer_inv clk M P ?s te"
    using SetMaxThreads_ok [OF R'(1-3) workers_ok_up [OF R'(5)], of n] True by auto
  note S = pool_invD(7) [OF R'(1)]
  have "unat (sem_count ?d) = min (unat (sem_count (dispatchSignal s)) + (unat (maxThreads s) - unat n)) 65535"
    "unat (sem_count (dispatchSignal s)) \<le> 65535"
    using post_times_count [of "dispatchSignal s"] S by (simp_all add: signals_ok_def TASKPOOL_MAX_SEM_VALUE_def word_le_nat_alt)
  then have "unat (sem_count (dispatchSignal s)) \<le> unat (sem_count ?d)" by linarith
  then have "workers_ok ?s dq" using R'(5) True unfolding workers_ok_def count_workers_def by simp
  then show ?thesis using x R'(3,4) by (intro keeps_onI [OF _ x(2,3)]) simp_all
next
  case False
  note R' = run_invD [OF R, simplified]
  have "IotTaskPool_SetMaxThreads (Some h) n s = Some (IOT_TASKPOOL_BAD_PARAMETER, s)"
    using False pool_at_live [OF R'(1,3)] by (auto simp: IotTaskPool_SetMaxThreads_def not_less [symmetric] not_le)
  then show ?thesis by (intro keeps_on_same [OF R]) simp
qed

lemma xTimerChangePeriod_pos: "0 < n \<Longrightarrow> \<exists>t'. xTimerChangePeriod n t = Some t'"
  by (simp add: xTimerChangePeriod_def)

lemma keeps_on_timer:
  assumes pf: "platform_ok pf clk M" and R: "run_inv clk M h \<lparr>pool = s, abandoned = A, timer_due = P\<rparr> dq te fl"
  shows "active (timer s) \<noteq> None \<Longrightarrow> keeps_on clk M pf h TimerExpires \<lparr>pool = s, abandoned = A, timer_due = P\<rparr>"
    and "P \<Longrightarrow> keeps_on clk M pf h TimerThread \<lparr>pool = s, abandoned = A, timer_due = P\<rparr>"
proof -
  note R' = run_invD [OF R, simplified]
  assume "active (timer s) \<noteq> None"
  then have "\<exists>t. timer_expires s = Some (s\<lparr>timer := t\<rparr>)"
    using xTimerChangePeriod_pos [of "xTimerPeriod (timer s)" "timer s\<lparr>active := None\<rparr>"]
    by (auto simp: timer_expires_def prvTimerCallback_def)
  then obtain t where t: "timer_expires s = Some (s\<lparr>timer := t\<rparr>)" by blast
  have inv: "pool_inv (s\<lparr>timer := t\<rparr>) dq te fl A" "timer_inv clk M True (s\<lparr>timer := t\<rparr>) te" "workers_ok (s\<lparr>timer := t\<rparr>) dq"
    using R'(1,2,5) by (simp_all add: pool_inv_def timer_inv_def workers_ok_def count_workers_def)
  show "keeps_on clk M pf h TimerExpires \<lparr>pool = s, abandoned = A, timer_due = P\<rparr>"
    by (rule keeps_onI [OF _ inv(1,2)]) (use t inv R'(3,4) in auto)
next
  note R' = run_invD [OF R, simplified]
  assume P
  then have "timer_inv clk M True s te" using R'(2) by simp
  from timer_loop_ok [OF pf R'(1) this] obtain n s' where x: "timer_loop pf s = Some s'" "n \<le> length te"
    "pool_inv s' (dq @ map (event_job (events s)) (take n te)) (drop n te) fl A" "timer_inv clk M False s' (drop n te)" "grown_by n s s'"
    "dom (jobs s') = dom (jobs s)" by blast
  have "timerThread pf s = Some s'"
    using x(1) workers_ok_up [OF R'(5)] pool_at_live [OF R'(1,3)] by (simp add: timerThread_def IsShutdownStarted_def)
  moreover have "workers_ok s' (dq @ map (event_job (events s)) (take n te))" if "within_memory s'"
    by (rule workers_ok_grown [OF R'(5) x(5) _ queue_bound [OF x(3) that] pool_invD(7) [OF R'(1)]]) simp
  ultimately show "keeps_on clk M pf h TimerThread \<lparr>pool = s, abandoned = A, timer_due = P\<rparr>"
    using x(5,6) R'(3,4) by (intro keeps_onI [OF _ x(3,4)]) (auto simp: grown_by_def)
qed

lemma keeps_on_worker:
  assumes pf: "platform_ok pf clk M" and R: "run_inv clk M h \<lparr>pool = s, abandoned = A, timer_due = P\<rparr> dq te fl"
    and i: "i < length (workers s)" and n: "within_memory s"
  shows "snd (workers s ! i) = Waiting \<Longrightarrow> keeps_on clk M pf h (WorkerWait i) \<lparr>pool = s, abandoned = A, timer_due = P\<rparr>"
    and "snd (workers s ! i) = Awake b \<Longrightarrow> keeps_on clk M pf h (WorkerWake i) \<lparr>pool = s, abandoned = A, timer_due = P\<rparr>"
    and "snd (workers s ! i) = Running p r \<Longrightarrow> keeps_on clk M pf h (WorkerDone i) \<lparr>pool = s, abandoned = A, timer_due = P\<rparr>"
proof -
  note R' = run_invD [OF R, simplified]
  have n': "count_workers counted s < 2 ^ 32" using n by (simp add: within_memory_def)
  have T: "timer_inv clk M P s' te" if "later pf (world s) (world s')" "events s' = events s" "timer s' = timer s" for s'
    by (rule timer_inv_later [OF R'(2) pf that])
  show "keeps_on clk M pf h (WorkerWait i) \<lparr>pool = s, abandoned = A, timer_due = P\<rparr>" if w: "snd (workers s ! i) = Waiting"
  proof -
    obtain b s' where x: "worker_wait i s = Some s'" "s' = s\<lparr>dispatchSignal := dispatchSignal s', workers := (workers s)[i := (fst (workers s ! i), Awake b)]\<rparr>"
      "pool_inv s' dq te fl A" "workers_ok s' dq" using worker_wait_ok [OF R'(1,5) i w n'] by blast
    have "timer_inv clk M P s' te" using R'(2) by (subst x(2)) (simp add: timer_inv_def)
    moreover have "storage s' = Some h" "A \<subseteq> dom (jobs s')" using R'(3,4) by (subst x(2); simp)+
    ultimately show ?thesis using x(1,4) by (intro keeps_onI [OF _ x(3)]) simp_all
  qed
  show "keeps_on clk M pf h (WorkerWake i) \<lparr>pool = s, abandoned = A, timer_due = P\<rparr>" if w: "snd (workers s ! i) = Awake b"
  proof -
    obtain s' where x: "worker_wake pf i s = Some s'" "pool_inv s' (if b then tl dq else dq) te fl A" "workers_ok s' (if b then tl dq else dq)"
      "storage s' = storage s" "events s' = events s" "timer s' = timer s" "dom (jobs s') = dom (jobs s)" "later pf (world s) (world s')"
      using worker_wake_ok [OF R'(1,5) i w n', of pf] by blast
    show ?thesis by (rule keeps_onI [OF _ x(2) T [OF x(8,5,6)]]) (use x R'(3,4) in simp_all)
  qed
  show "keeps_on clk M pf h (WorkerDone i) \<lparr>pool = s, abandoned = A, timer_due = P\<rparr>" if w: "snd (workers s ! i) = Running p r"
  proof -
    obtain s' where x: "worker_done pf i s = Some s'" "pool_inv s' (if r then tl dq else dq) te fl A" "workers_ok s' (if r then tl dq else dq)"
      "storage s' = storage s" "events s' = events s" "timer s' = timer s" "dom (jobs s') = dom (jobs s)" "later pf (world s) (world s')"
      using worker_done_ok [OF R'(1,5) i w n', of pf] by blast
    show ?thesis by (rule keeps_onI [OF _ x(2) T [OF x(8,5,6)]]) (use x R'(3,4) in simp_all)
  qed
qed

lemma perform_ok:
  assumes pf: "platform_ok pf clk M" and R: "run_inv clk M h c dq te fl" and a: "allowed M a c" and n: "within_memory (pool c)"
  shows "keeps_on clk M pf h a c"
proof -
  obtain s A P where c: "c = \<lparr>pool = s, abandoned = A, timer_due = P\<rparr>" by (cases c)
  note R' = R [unfolded c]
  show ?thesis
  proof (cases "a = TimerThread")
    case True
    then show ?thesis using keeps_on_timer(2) [OF pf R'] a unfolding c by simp
  next
    case False
    then show ?thesis using a n unfolding c
      by (cases a) (auto intro: keeps_on_CreateJob [OF R'] keeps_on_CreateRecyclableJob [OF pf R'] keeps_on_DestroyRecyclableJob [OF pf R']
      keeps_on_RecycleJob [OF pf R'] keeps_on_Schedule [OF pf R'] keeps_on_ScheduleDeferred [OF pf R'] keeps_on_TryCancel [OF pf R']
      keeps_on_SetMaxThreads [OF R'] keeps_on_timer(1) [OF pf R'] keeps_on_worker [OF pf R'] split: option.splits)
  qed
qed

subsection \<open>Reachable pools\<close>

lemma new_pool_inv:
  assumes "new_pool clk M h s"
  shows "run_inv clk M h \<lparr>pool = s, abandoned = {}, timer_due = False\<rparr> [] [] []"
proof -
  obtain ws n where w: "workers s = ws @ map (\<lambda>i. (i, Waiting)) n" "\<forall>t \<in> set ws. snd t = Exited" "length n = unat (activeThreads s)"
    using assms by (auto simp: new_pool_def)
  have c: "count_workers P s = (if P Waiting then length n else 0)" if "\<not> P Exited" for P
    using that w(2) by (auto simp: count_workers_def w(1) filter_empty_conv filter_id_conv)
  have "workers_ok s []" using assms w(3) by (simp add: workers_ok_def c counted_def new_pool_def)
  then show ?thesis using assms by (simp add: run_inv_def new_pool_def)
qed

lemma reaches_inv:
  assumes "reaches pf M h c d" and pf: "platform_ok pf clk M" and "run_inv clk M h c dq te fl" and "within_memory (pool c)"
  shows "within_memory (pool d) \<and> (\<exists>dq te fl. run_inv clk M h d dq te fl)"
  using assms(1)
proof induction
  case reaches_refl
  then show ?case using assms by blast
next
  case (reaches_step d a e)
  then obtain dq te fl where "run_inv clk M h d dq te fl" by blast
  from perform_ok [OF pf this reaches_step.hyps(2)] reaches_step show ?case by (auto simp: keeps_on_def)
qed

subsection \<open>A queued job can be started\<close>

text \<open>Steps of the workers alone.\<close>

inductive worker_steps :: "'w platform \<Rightarrow> ('c, 'x, 'w) taskPool \<Rightarrow> ('c, 'x, 'w) taskPool \<Rightarrow> bool" for pf :: "'w platform" where
  steps_done: "worker_steps pf s s"
| steps_wait: "worker_wait i s = Some s' \<Longrightarrow> worker_steps pf s' s'' \<Longrightarrow> worker_steps pf s s''"
| steps_wake: "worker_wake pf i s = Some s' \<Longrightarrow> worker_steps pf s' s'' \<Longrightarrow> worker_steps pf s s''"
| steps_finish: "worker_done pf i s = Some s' \<Longrightarrow> worker_steps pf s' s'' \<Longrightarrow> worker_steps pf s s''"

definition runs_job :: "('c, 'x, 'w) taskPool \<Rightarrow> nat \<Rightarrow> bool" where
  "runs_job s p \<longleftrightarrow> (\<exists>t \<in> set (workers s). \<exists>r. snd t = Running p r)"

lemma runs_jobI: "i < length (workers s) \<Longrightarrow> workers s' = (workers s)[i := (a, Running p r)] \<Longrightarrow> runs_job s' p"
  unfolding runs_job_def by (intro bexI [of _ "(a, Running p r)"]) (auto simp: set_update_memI)

lemma count_workers_pos: "0 < count_workers P s \<Longrightarrow> \<exists>i < length (workers s). P (snd (workers s ! i))"
  unfolding count_workers_def using length_pos_if_in_set
  by (metis comp_apply filter_empty_conv in_set_conv_nth length_greater_0_conv)

lemma count_workers_0: "count_workers P s = 0 \<Longrightarrow> i < length (workers s) \<Longrightarrow> \<not> P (snd (workers s ! i))"
  by (auto simp: count_workers_def filter_empty_conv)

lemma wake_starts:
  assumes inv: "pool_inv s (p # dq) te fl lost" and w: "workers_ok s (p # dq)" and n: "count_workers counted s < 2 ^ 32"
    and i: "i < length (workers s)" "snd (workers s ! i) = Awake True"
  shows "\<exists>s'. worker_steps pf s s' \<and> runs_job s' p"
proof -
  obtain s' r where x: "worker_wake pf i s = Some s'" "workers s' = (workers s)[i := (fst (workers s ! i), Running p r)]"
    using worker_wake_ok [OF inv w i n, of pf] by auto
  show ?thesis using steps_wake [OF x(1) steps_done] runs_jobI [OF i(1) x(2)] by blast
qed

lemma queued_job_starts:
  assumes "pool_inv s (p # dq) te fl lost" and "workers_ok s (p # dq)" and "count_workers counted s < 2 ^ 32"
  shows "\<exists>s'. worker_steps pf s s' \<and> runs_job s' p"
  using assms
proof (induction "count_workers (\<lambda>pc. pc = Awake False) s" arbitrary: s rule: less_induct)
  case less
  note inv = less.prems(1) and w = less.prems(2) and n = less.prems(3)
  note W = workers_okD [OF w]
  have "1 \<le> unat (minThreads s)" using W(3) by (simp add: word_le_nat_alt)
  then have "0 < count_workers counted s" using W(5) by linarith
  then obtain k where k: "k < length (workers s)" "counted (snd (workers s ! k))" using count_workers_pos by blast
  have nst: "snd (workers s ! k) \<noteq> Starting" using count_workers_0 [OF W(1) k(1)] by simp
  show ?case
  proof (cases "count_workers (\<lambda>pc. pc = Awake True) s = 0")
    case False
    then obtain i where "i < length (workers s)" "snd (workers s ! i) = Awake True" using count_workers_pos [of "\<lambda>pc. pc = Awake True" s] by auto
    then show ?thesis using wake_starts [OF inv w n] by blast
  next
    case True
    then have sem: "sem_count (dispatchSignal s) \<noteq> 0" using W(6) by auto
    have notTrue: "snd (workers s ! k) \<noteq> Awake True" using count_workers_0 [OF True k(1)] by simp
    consider (waiting) "snd (workers s ! k) = Waiting" | (running) q where "snd (workers s ! k) = Running q True"
      | (awake) "snd (workers s ! k) = Awake False"
      using k(2) nst notTrue by (cases "snd (workers s ! k)") (auto simp: counted_def)
    then show ?thesis
    proof cases
      case waiting
      obtain s' where x: "worker_wait k s = Some s'" "s' = s\<lparr>dispatchSignal := dispatchSignal s', workers := (workers s)[k := (fst (workers s ! k), Awake True)]\<rparr>"
        "pool_inv s' (p # dq) te fl lost" "workers_ok s' (p # dq)" using worker_wait_ok [OF inv w k(1) waiting n] sem by auto
      have ws: "workers s' = (workers s)[k := (fst (workers s ! k), Awake True)]" by (subst x(2)) simp
      have "count_workers counted s' = count_workers counted s"
        using count_workers_update [OF k(1) ws, of counted] waiting by (simp add: counted_def)
      then have "\<exists>s''. worker_steps pf s' s'' \<and> runs_job s'' p"
        using n k(1) ws by (intro wake_starts [OF x(3,4), of k]) simp_all
      then show ?thesis using steps_wait [OF x(1)] by blast
    next
      case running
      obtain s' where x: "worker_done pf k s = Some s'" "workers s' = (workers s)[k := (fst (workers s ! k), Running p True)]"
        using worker_done_ok [OF inv w k(1) running n, of pf] by auto
      show ?thesis using steps_finish [OF x(1) steps_done] runs_jobI [OF k(1) x(2)] by blast
    next
      case awake
      obtain s' pc where x: "worker_wake pf k s = Some s'" "pool_inv s' (p # dq) te fl lost" "workers_ok s' (p # dq)"
        "workers s' = (workers s)[k := (fst (workers s ! k), pc)]" "pc = Waiting \<or> pc = Exited"
        using worker_wake_ok [OF inv w k(1) awake n, of pf] by auto
      note C = count_workers_update [OF k(1) x(4)]
      have "count_workers (\<lambda>pc. pc = Awake False) s' < count_workers (\<lambda>pc. pc = Awake False) s"
        using C [of "\<lambda>pc. pc = Awake False"] awake x(5) by auto
      moreover have "count_workers counted s' < 2 ^ 32" using C [of counted] awake x(5) n by (auto simp: counted_def)
      ultimately have "\<exists>s''. worker_steps pf s' s'' \<and> runs_job s'' p" using less.hyps x(2,3) by blast
      then show ?thesis using steps_wake [OF x(1)] by blast
    qed
  qed
qed

end
