(* ===== verification/TaskPoolProps.thy ===== *)
theory TaskPoolProps
  imports TaskPoolRuns
begin

text \<open>
  The properties of the task pool, each with a use on a reference platform: a pool with one worker and
  one static job, made by the operations themselves.
\<close>

subsection \<open>A reference platform\<close>

text \<open>
  A kernel on a world that is the time in ticks: every look at the clock is half a second later, the
  first free block below 64 is allocated, and tasks can always be created (or never, \<open>full_platform\<close>).
\<close>

definition ref_kernel :: "u32 kernel" where
  "ref_kernel = \<lparr>
     vTaskSetTimeOutState = (\<lambda>w. let t = (if w < 2147483648 then w + 500 else w) in ((0, t), t)),
     malloc = (\<lambda>live n w. (find (\<lambda>p. \<not> live p) [0..<64], w)),
     free = (\<lambda>p w. w),
     xTaskCreate = (\<lambda>priority stackSize w. (True, w)),
     pdMS_TO_TICKS = (\<lambda>ms. ms)\<rparr>"

definition ref_platform :: "u32 platform" where
  "ref_platform = \<lparr>rtos = ref_kernel, sizeof_taskPool = 200, sizeof_taskPoolJob = 24, sizeof_taskPoolTimerEvent = 24, sizeof_threadInfo = 8\<rparr>"

lemma ref_clock_mono: "w \<le> (if w < 2147483648 then w + 500 else w)" for w :: u32
proof (cases "w < 2147483648")
  case True
  then have "unat w + unat (500 :: u32) < 2 ^ 32" by (simp add: word_less_nat_alt)
  then have "unat (w + 500) = unat w + 500" by (subst unat_add_lem [THEN iffD1]) simp_all
  then show ?thesis using True by (simp add: word_le_nat_alt)
qed simp

lemma unat_ucast_u64: "unat (ucast (w :: u32) :: u64) = unat w"
  by (simp add: unsigned_ucast_eq take_bit_nat_eq_self order.strict_trans [OF unsigned_less])

definition full_platform :: "u32 platform" where
  "full_platform = ref_platform\<lparr>rtos := ref_kernel\<lparr>xTaskCreate := (\<lambda>priority stackSize w. (False, w))\<rparr>\<rparr>"

lemma ref_platforms_ok: "platform_ok ref_platform ucast 1000 \<and> platform_ok full_platform ucast 1000"
proof -
  have "find P xs = Some x \<Longrightarrow> P x" for P :: "nat \<Rightarrow> bool" and xs x by (induction xs) (auto split: if_splits)
  then have "fresh_blocks ref_kernel" "fresh_blocks (ref_kernel\<lparr>xTaskCreate := f\<rparr>)" for f by (auto simp: fresh_blocks_def ref_kernel_def)
  moreover have "(ucast w :: u64) \<le> ucast (if w < 2147483648 then w + 500 else w :: u32)" for w :: u32
    using ref_clock_mono [of w] by (simp only: word_le_nat_alt unat_ucast_u64)
  moreover have "unat (ucast w :: u64) < 2 ^ 63" for w :: u32
    using unsigned_less [of w, where ?'a = nat] by (simp only: unat_ucast_u64) simp
  ultimately show ?thesis
    by (simp add: platform_ok_def full_platform_def ref_platform_def ref_kernel_def IotClock_GetTimeMs_def MILLISECONDS_PER_TICK_1 Let_def word_less_nat_alt)
qed

lemmas ref_platform_ok = conjunct1 [OF ref_platforms_ok]
lemmas full_platform_ok = conjunct2 [OF ref_platforms_ok]

text \<open>A pool with one worker, a static job at address 20, and the job scheduled or deferred.\<close>

definition ref_memory :: "(unit, unit, u32) taskPool" where
  "ref_memory = \<lparr>storage = None, mem = Map.empty, jobs = Map.empty, events = Map.empty, freeCount = 0, minThreads = 0, maxThreads = 0,
     activeThreads = 0, activeJobs = 0, stackSize = 0, priority = 0, dispatchSignal = \<lparr>sem_count = 0, sem_max = 0\<rparr>,
     startStopSignal = \<lparr>sem_count = 0, sem_max = 0\<rparr>, timer = \<lparr>xTimerPeriod = 0, active = None\<rparr>, workers = [], world = 0\<rparr>"

definition ref_info :: IotTaskPoolInfo where
  "ref_info = \<lparr>info_minThreads = 1, info_maxThreads = 2, info_stackSize = 1024, info_priority = 0\<rparr>"

definition ref_pool :: "(unit, unit, u32) taskPool" where
  "ref_pool = snd (the (IotTaskPool_Create ref_platform (Some ref_info) True ref_memory))"

definition ref_ready :: "(unit, unit, u32) taskPool" where
  "ref_ready = snd (the (IotTaskPool_CreateJob (Some ()) None (Some 20) True ref_pool))"

definition ref_scheduled :: "(unit, unit, u32) taskPool" where
  "ref_scheduled = snd (the (IotTaskPool_Schedule ref_platform (Some (HeapPool 0)) (Some 20) 0 ref_ready))"

definition ref_deferred :: "(unit, unit, u32) taskPool" where
  "ref_deferred = snd (the (IotTaskPool_ScheduleDeferred ref_platform (Some (HeapPool 0)) (Some 20) 100 ref_ready))"

lemma ref_created: "map_option fst (IotTaskPool_Create ref_platform (Some ref_info) True ref_memory) = Some (IOT_TASKPOOL_SUCCESS, Some (HeapPool 0))"
  by code_simp


lemma ref_pool_new: "new_pool ucast 1000 (HeapPool 0) ref_pool" and ref_pool_jobs: "jobs ref_pool = Map.empty"
proof -
  have v: "1 \<le> info_minThreads ref_info" "info_minThreads ref_info \<le> info_maxThreads ref_info"
    "info_minThreads ref_info \<le> TASKPOOL_MAX_SEM_VALUE" by (simp_all add: ref_info_def TASKPOOL_MAX_SEM_VALUE_def)
  have e: "empty_memory ref_memory" "storage ref_memory = None" by (simp_all add: empty_memory_def ref_memory_def)
  obtain "is" st r s' where c: "IotTaskPool_Create ref_platform (Some ref_info) True ref_memory = Some ((st, r), s')"
    "if st = IOT_TASKPOOL_SUCCESS
       then (\<exists>p. \<not> live ref_memory p \<and> r = Some (HeapPool p)) \<and> storage s' = r
         \<and> length is = unat (info_minThreads ref_info) \<and> workers s' = workers ref_memory @ map (\<lambda>i. (i, Waiting)) is
         \<and> activeThreads s' = info_minThreads ref_info \<and> minThreads s' = info_minThreads ref_info \<and> maxThreads s' = info_maxThreads ref_info
         \<and> pool_inv s' [] [] [] {} \<and> timer_inv ucast 1000 False s' [] \<and> activeJobs s' = 0 \<and> sem_count (dispatchSignal s') = 0 \<and> jobs s' = Map.empty
       else st = IOT_TASKPOOL_NO_MEMORY \<and> r = None \<and> storage s' = None \<and> empty_memory s'
         \<and> length is < unat (info_minThreads ref_info) \<and> workers s' = workers ref_memory @ map (\<lambda>i. (i, Exited)) is"
    using Create_ok [OF ref_platform_ok e(1) v e(2)] by blast
  have s': "ref_pool = s'" "st = IOT_TASKPOOL_SUCCESS" "r = Some (HeapPool 0)"
    using c(1) ref_created by (simp_all add: ref_pool_def)
  show "new_pool ucast 1000 (HeapPool 0) ref_pool"
    using c(2) s' v unfolding new_pool_def by (intro conjI exI [of _ "[]"] exI [of _ "is"]) (simp_all add: ref_memory_def)
  show "jobs ref_pool = Map.empty" using c(2) s' by simp
qed

lemma ref_pool_up: "storage ref_pool = Some (HeapPool 0)" "pool_inv ref_pool [] [] [] {}" "timer_inv ucast 1000 False ref_pool []"
  "within_memory ref_pool" "maxThreads ref_pool \<noteq> 0"
proof -
  have "count_workers counted ref_pool = 1" "maxThreads ref_pool \<noteq> 0" by code_simp+
  then show "storage ref_pool = Some (HeapPool 0)" "pool_inv ref_pool [] [] [] {}" "timer_inv ucast 1000 False ref_pool []"
    "within_memory ref_pool" "maxThreads ref_pool \<noteq> 0"
    using ref_pool_new by (simp_all add: new_pool_def within_memory_def ref_pool_jobs)
qed

definition ref_job :: "(unit, unit) taskPoolJob" where
  "ref_job = \<lparr>userCallback = Some (), pUserContext = None, flags = IOT_TASK_POOL_INTERNAL_STATIC, status = STATUS_READY\<rparr>"

lemma ref_ready_up:
  "IotTaskPool_CreateJob (Some ()) None (Some 20) True ref_pool = Some ((IOT_TASKPOOL_SUCCESS, Some 20), ref_ready)"
  "storage ref_ready = Some (HeapPool 0)" "pool_inv ref_ready [] [] [] {}" "timer_inv ucast 1000 False ref_ready []"
  "maxThreads ref_ready \<noteq> 0" "jobs ref_ready = [20 \<mapsto> ref_job]" "same_threads ref_pool ref_ready"
proof -
  have "job_gone ref_pool 20 [] [] []" by (simp add: job_gone_def)
  from initializeJob_ok [OF ref_pool_up(2,3) this, of True "Some ()" None] obtain s' where
    x: "initializeJob 20 (Some ()) None True ref_pool = Some s'" "pool_inv s' [] [] [] ({} - {20})" "timer_inv ucast 1000 False s' []"
    "same_threads ref_pool s'" "jobs s' = (jobs ref_pool)(20 \<mapsto> ref_job)" by (auto simp: ref_job_def)
  have c: "IotTaskPool_CreateJob (Some ()) None (Some 20) True ref_pool = Some ((IOT_TASKPOOL_SUCCESS, Some 20), s')"
    using x(1) by (simp add: IotTaskPool_CreateJob_def)
  then have s': "ref_ready = s'" by (simp add: ref_ready_def)
  show "IotTaskPool_CreateJob (Some ()) None (Some 20) True ref_pool = Some ((IOT_TASKPOOL_SUCCESS, Some 20), ref_ready)"
    "storage ref_ready = Some (HeapPool 0)" "pool_inv ref_ready [] [] [] {}" "timer_inv ucast 1000 False ref_ready []"
    "maxThreads ref_ready \<noteq> 0" "jobs ref_ready = [20 \<mapsto> ref_job]" "same_threads ref_pool ref_ready"
    using c x ref_pool_up(1,5) unfolding s' by (simp_all add: same_threads_def ref_pool_jobs)
qed

lemma ref_scheduled_status: "map_option fst (IotTaskPool_Schedule ref_platform (Some (HeapPool 0)) (Some 20) 0 ref_ready) = Some IOT_TASKPOOL_SUCCESS"
  by code_simp

lemma ref_scheduled_up:
  "IotTaskPool_Schedule ref_platform (Some (HeapPool 0)) (Some 20) 0 ref_ready = Some (IOT_TASKPOOL_SUCCESS, ref_scheduled)"
  "storage ref_scheduled = Some (HeapPool 0)" "pool_inv ref_scheduled [20] [] [] {}" "timer_inv ucast 1000 False ref_scheduled []"
  "maxThreads ref_scheduled \<noteq> 0" "jobs ref_scheduled = [20 \<mapsto> ref_job\<lparr>status := STATUS_SCHEDULED\<rparr>]" "events ref_scheduled = Map.empty"
proof -
  have j: "jobs ref_ready 20 = Some ref_job" "userCallback ref_job \<noteq> None" "status ref_job \<noteq> STATUS_COMPLETED"
    by (simp_all add: ref_ready_up(6) ref_job_def)
  obtain st s' where x: "IotTaskPool_Schedule ref_platform (Some (HeapPool 0)) (Some 20) 0 ref_ready = Some (st, s')"
    "timer_inv ucast 1000 False s' []" "jobs s' = (jobs ref_ready)(20 \<mapsto> ref_job\<lparr>status := STATUS_SCHEDULED\<rparr>)"
    "if st = IOT_TASKPOOL_SUCCESS
       then pool_inv s' (queued 0 ref_ready 20 []) [] [] {} \<and> grown_by 1 ref_ready s'
       else st = IOT_TASKPOOL_NO_MEMORY \<and> must_grow 0 (activeThreads ref_ready) (activeJobs ref_ready + 1) \<and> same_threads ref_ready s'
         \<and> pool_inv s' [] [] [] {20}"
    using Schedule_ok [OF ref_platform_ok ref_ready_up(3,4,2,5) j(1,2) _ _ j(3), of 0]
    unfolding no_event_def filter.simps remove1.simps by blast
  have s': "ref_scheduled = s'" "st = IOT_TASKPOOL_SUCCESS" using x(1) ref_scheduled_status by (simp_all add: ref_scheduled_def)
  have "events s' = Map.empty" using x(4) s'(2) pool_invD(4) [of s' _ "[]" "[]"] by (auto simp: events_ok_def)
  then show "IotTaskPool_Schedule ref_platform (Some (HeapPool 0)) (Some 20) 0 ref_ready = Some (IOT_TASKPOOL_SUCCESS, ref_scheduled)"
    "storage ref_scheduled = Some (HeapPool 0)" "pool_inv ref_scheduled [20] [] [] {}" "timer_inv ucast 1000 False ref_scheduled []"
    "maxThreads ref_scheduled \<noteq> 0" "jobs ref_scheduled = [20 \<mapsto> ref_job\<lparr>status := STATUS_SCHEDULED\<rparr>]" "events ref_scheduled = Map.empty"
    using x s' ref_ready_up by (simp_all add: queued_0 grown_by_def)
qed

lemma ref_deferred_status:
  "map_option fst (IotTaskPool_ScheduleDeferred ref_platform (Some (HeapPool 0)) (Some 20) 100 ref_ready) = Some IOT_TASKPOOL_SUCCESS"
  by code_simp

lemma ref_deferred_up:
  "IotTaskPool_ScheduleDeferred ref_platform (Some (HeapPool 0)) (Some 20) 100 ref_ready = Some (IOT_TASKPOOL_SUCCESS, ref_deferred)"
  "storage ref_deferred = Some (HeapPool 0)" "maxThreads ref_deferred \<noteq> 0" "jobs ref_deferred = [20 \<mapsto> ref_job\<lparr>status := STATUS_DEFERRED\<rparr>]"
  "\<exists>e. pool_inv ref_deferred [] [e] [] {} \<and> timer_inv ucast 1000 False ref_deferred [e] \<and> event_job (events ref_deferred) e = 20"
proof -
  have j: "jobs ref_ready 20 = Some ref_job" "userCallback ref_job \<noteq> None" "status ref_job \<noteq> STATUS_COMPLETED"
    by (simp_all add: ref_ready_up(6) ref_job_def)
  obtain st s' where x: "IotTaskPool_ScheduleDeferred ref_platform (Some (HeapPool 0)) (Some 20) 100 ref_ready = Some (st, s')" "same_threads ref_ready s'"
    "st = IOT_TASKPOOL_NO_MEMORY \<or> st = IOT_TASKPOOL_SUCCESS \<and> jobs s' = (jobs ref_ready)(20 \<mapsto> ref_job\<lparr>status := STATUS_DEFERRED\<rparr>)
      \<and> (\<exists>e T. events s' e = Some \<lparr>expirationTime = T, pJob = 20\<rparr> \<and> pool_inv s' [] [e] [] {} \<and> timer_inv ucast 1000 False s' [e])"
    using ScheduleDeferred_ok [OF ref_platform_ok ref_ready_up(3,4,2,5) j(1,2) _ j(3), of 100] by (fastforce simp: no_event_def insert_event_def)
  have s': "ref_deferred = s'" "st = IOT_TASKPOOL_SUCCESS" using x(1) ref_deferred_status by (simp_all add: ref_deferred_def)
  show "IotTaskPool_ScheduleDeferred ref_platform (Some (HeapPool 0)) (Some 20) 100 ref_ready = Some (IOT_TASKPOOL_SUCCESS, ref_deferred)"
    "storage ref_deferred = Some (HeapPool 0)" "maxThreads ref_deferred \<noteq> 0" "jobs ref_deferred = [20 \<mapsto> ref_job\<lparr>status := STATUS_DEFERRED\<rparr>]"
    "\<exists>e. pool_inv ref_deferred [] [e] [] {} \<and> timer_inv ucast 1000 False ref_deferred [e] \<and> event_job (events ref_deferred) e = 20"
    using x s' ref_ready_up by (auto simp: same_threads_def event_job_def)
qed


lemma no_event_Nil [simp]: "no_event E p [] = []"
  by (simp add: no_event_def)

lemma ref_counts: "count_workers counted ref_ready = 1" "count_workers counted ref_scheduled = 2" "\<not> live ref_pool 20"
  "map snd (workers ref_scheduled) = [Waiting, Waiting]"
  by code_simp+

lemma ref_reaches:
  "reaches ref_platform 1000 (HeapPool 0) \<lparr>pool = ref_pool, abandoned = {}, timer_due = False\<rparr> \<lparr>pool = ref_scheduled, abandoned = {}, timer_due = False\<rparr>"
proof (rule reaches_step [OF reaches_step [OF reaches_refl]])
  let ?c = "\<lparr>pool = ref_ready, abandoned = {}, timer_due = False\<rparr> :: (unit, unit, u32) run"
  show "allowed 1000 (CreateJob () None 20) \<lparr>pool = ref_pool, abandoned = {}, timer_due = False\<rparr>"
    using ref_counts(3) by (simp add: job_storage_def)
  show "perform ref_platform (HeapPool 0) (CreateJob () None 20) \<lparr>pool = ref_pool, abandoned = {}, timer_due = False\<rparr> = Some ?c"
    using ref_ready_up(1) by simp
  show "allowed 1000 (Schedule 20 0) ?c" using ref_ready_up(6) by (simp add: ref_job_def)
  show "perform ref_platform (HeapPool 0) (Schedule 20 0) ?c = Some \<lparr>pool = ref_scheduled, abandoned = {}, timer_due = False\<rparr>"
    using ref_scheduled_up(1) by (simp add: abandons_def)
  show "within_memory (pool ?c)" using ref_counts(1) ref_ready_up(6) by (simp add: within_memory_def)
  show "within_memory (pool \<lparr>pool = ref_scheduled, abandoned = {}, timer_due = False\<rparr>)"
    using ref_counts(2) ref_scheduled_up(6) by (simp add: within_memory_def)
qed

subsection \<open>Properties of a run\<close>

text \<open>
  C3: Whatever the application, the timer and the workers do to a pool, in any order, its links, its
  jobs, its timer events, its signals and its worker count stay consistent.
\<close>

theorem taskpool_reachable_invariant:
  assumes "platform_ok pf clk M" and "new_pool clk M h s" and "within_memory s"
    and "reaches pf M h \<lparr>pool = s, abandoned = {}, timer_due = False\<rparr> c"
  shows "\<exists>dq te fl. run_inv clk M h c dq te fl"
  using reaches_inv [OF assms(4,1) new_pool_inv [OF assms(2)]] assms(3) by simp

theorem taskpool_reachable_invariant_witness:
  "\<exists>dq te fl. run_inv ucast 1000 (HeapPool 0) \<lparr>pool = ref_scheduled, abandoned = {}, timer_due = False\<rparr> dq te fl"
  by (rule taskpool_reachable_invariant [OF ref_platform_ok ref_pool_new ref_pool_up(4) ref_reaches])



text \<open>
  C5: No wake-up is lost: in every reachable state with a job at the head of the queue, the workers
  alone can go on until one of them runs that job.
\<close>

theorem taskpool_queued_job_starts:
  assumes "platform_ok pf clk M" and "new_pool clk M h s" and "within_memory s"
    and "reaches pf M h \<lparr>pool = s, abandoned = {}, timer_due = False\<rparr> c"
    and "IotDeQueue_PeekHead (Some DispatchQueue) (mem (pool c)) = Some (Some (JobLink p))"
  shows "\<exists>s'. worker_steps pf (pool c) s' \<and> runs_job s' p"
proof -
  obtain dq te fl where w: "within_memory (pool c)" "run_inv clk M h c dq te fl"
    using reaches_inv [OF assms(4,1) new_pool_inv [OF assms(2)]] assms(3) by auto
  note R = run_invD [OF w(2)]
  obtain dq' where "dq = p # dq'"
    using PeekHead_dlist [OF links_okD(1) [OF pool_invD(2) [OF R(1)]]] assms(5) by (cases dq) (auto simp: deque_defs)
  then show ?thesis using queued_job_starts [of "pool c" p dq'] R(1,5) w(1) by (simp add: within_memory_def)
qed

theorem taskpool_queued_job_starts_witness: "\<exists>s'. worker_steps ref_platform ref_scheduled s' \<and> runs_job s' 20"
proof -
  have "IotDeQueue_PeekHead (Some DispatchQueue) (mem ref_scheduled) = Some (Some (JobLink 20))"
    using PeekHead_dlist [OF links_okD(1) [OF pool_invD(2) [OF ref_scheduled_up(3)]]] by (simp add: deque_defs)
  then show ?thesis using taskpool_queued_job_starts [OF ref_platform_ok ref_pool_new ref_pool_up(4) ref_reaches, of 20] by simp
qed

subsection \<open>Properties of the timer\<close>

lemma timer_inv_due: "timer_inv clk M P s te \<Longrightarrow> timer_inv clk M True s te"
  by (simp add: timer_inv_def)

text \<open>
  C9: The routine of the timer ends. It puts the jobs whose time has come into the queue, in the order
  of their times and behind those already there; no job it puts there is early, none it leaves was
  late, and while jobs are left the timer is set again.
\<close>

theorem timerThread_dispatches:
  assumes "platform_ok pf clk M" and "pool_inv s dq te fl lost" and "timer_inv clk M True s te" and "maxThreads s \<noteq> 0"
  shows "\<exists>n s'. timerThread pf s = Some s' \<and> n \<le> length te
    \<and> pool_inv s' (dq @ map (event_job (events s)) (take n te)) (drop n te) fl lost
    \<and> (\<forall>e \<in> set (take n te). event_time (events s) e \<le> clk (world s'))
    \<and> (\<forall>e \<in> set (drop n te). clk (world s) < event_time (events s) e)
    \<and> (drop n te \<noteq> [] \<longrightarrow> active (timer s') \<noteq> None)"
proof -
  obtain n s' where "timer_loop pf s = Some s'" "n \<le> length te"
    "pool_inv s' (dq @ map (event_job (events s)) (take n te)) (drop n te) fl lost" "timer_inv clk M False s' (drop n te)"
    "\<forall>e \<in> set (take n te). event_time (events s) e \<le> clk (world s')"
    "\<forall>e \<in> set (drop n te). clk (world s) < event_time (events s) e" using timer_loop_ok [OF assms(1-3)] by blast
  moreover from this(1) have "timerThread pf s = Some s'"
    using assms(4) pool_invD(1) [OF assms(2)] by (simp add: timerThread_def IsShutdownStarted_def TASKPOOL_ENTER_CRITICAL_def)
  ultimately show ?thesis by (intro exI [of _ n] exI [of _ s']) (simp add: timer_inv_def)
qed

theorem timerThread_dispatches_witness: "timerThread ref_platform ref_deferred \<noteq> None"
proof -
  obtain e where e: "pool_inv ref_deferred [] [e] [] {}" "timer_inv ucast 1000 False ref_deferred [e]" using ref_deferred_up(5) by blast
  show ?thesis using timerThread_dispatches [OF ref_platform_ok e(1) timer_inv_due [OF e(2)] ref_deferred_up(3)] by auto
qed


definition ref_fired :: "(unit, unit, u32) taskPool" where
  "ref_fired = the (timerThread ref_platform ref_deferred)"

lemma ref_fired_due: "events ref_deferred 2 \<noteq> None" "event_time (events ref_deferred) 2 \<le> ucast (world ref_deferred)"
  by code_simp+

lemma ref_fired_up: "timerThread ref_platform ref_deferred = Some ref_fired" "\<exists>j. jobs ref_fired 20 = Some j \<and> status j = STATUS_SCHEDULED"
proof -
  obtain e where e: "pool_inv ref_deferred [] [e] [] {}" "timer_inv ucast 1000 False ref_deferred [e]" "event_job (events ref_deferred) e = 20"
    using ref_deferred_up(5) by blast
  have "2 \<in> set [e]" using pool_invD(4) [OF e(1)] ref_fired_due(1) unfolding events_ok_def by blast
  then have e2: "e = 2" by simp
  obtain n s' where n: "timer_loop ref_platform ref_deferred = Some s'"
    "pool_inv s' (map (event_job (events ref_deferred)) (take n [e])) (drop n [e]) [] {}"
    "\<forall>e \<in> set (drop n [e]). ucast (world ref_deferred) < event_time (events ref_deferred) e"
    using timer_loop_ok [OF ref_platform_ok e(1) timer_inv_due [OF e(2)]] by auto
  have "0 < n" using n(3) ref_fired_due(2) e2 by (cases n) auto
  then have inv: "pool_inv s' [20] [] [] {}" using n(2) e(3) by (cases n) auto
  have "timerThread ref_platform ref_deferred = Some s'"
    using n(1) ref_deferred_up(2,3) by (simp add: timerThread_def IsShutdownStarted_def TASKPOOL_ENTER_CRITICAL_def)
  then show "timerThread ref_platform ref_deferred = Some ref_fired" "\<exists>j. jobs ref_fired 20 = Some j \<and> status j = STATUS_SCHEDULED"
    using jobs_okD(1) [OF pool_invD(3) [OF inv], of 20] by (auto simp: ref_fired_def)
qed



subsection \<open>Properties of the operations\<close>






definition ref_failed :: "(unit, unit, u32) taskPool" where
  "ref_failed = snd (the (IotTaskPool_Schedule full_platform (Some (HeapPool 0)) (Some 20) IOT_TASKPOOL_JOB_HIGH_PRIORITY ref_ready))"

lemma ref_failed_status:
  "map_option fst (IotTaskPool_Schedule full_platform (Some (HeapPool 0)) (Some 20) IOT_TASKPOOL_JOB_HIGH_PRIORITY ref_ready) = Some IOT_TASKPOOL_NO_MEMORY"
  by code_simp


text \<open>
  A dynamic job that is recycled while the cache is empty is the one the next request for a job
  gets, set up anew, without a call of the allocator.
\<close>

theorem recycle_then_create:
  assumes pf: "platform_ok pf clk M" and inv: "pool_inv s dq te [] lost" and t: "timer_inv clk M P s te"
    and h: "storage s = Some h" and up: "maxThreads s \<noteq> 0" and j: "jobs s p = Some j" and p: "p \<notin> lost" and dyn: "flags j = 0"
    and room: "freeCount s < IOT_TASKPOOL_JOBS_RECYCLE_LIMIT" and lost: "lost \<subseteq> dom (jobs s)"
  shows "\<exists>s' s''. IotTaskPool_RecycleJob pf (Some h) (Some p) s = Some (IOT_TASKPOOL_SUCCESS, s')
    \<and> IotTaskPool_CreateRecyclableJob pf (Some h) (Some cb) cx True s' = Some ((IOT_TASKPOOL_SUCCESS, Some p), s'')
    \<and> dom (jobs s'') = dom (jobs s)
    \<and> jobs s'' p = Some \<lparr>userCallback = Some cb, pUserContext = cx, flags = 0, status = STATUS_READY\<rparr>"
proof -
  obtain s' where x: "IotTaskPool_RecycleJob pf (Some h) (Some p) s = Some (IOT_TASKPOOL_SUCCESS, s')" "timer_inv clk M P s' (no_event (events s) p te)"
    "same_threads s s'" "pool_inv s' (remove1 p dq) (no_event (events s) p te) [p] lost" "dom (jobs s') = dom (jobs s)"
    using RecycleJob_ok [OF pf inv t h up j p dyn] room by auto
  have u: "storage s' = Some h" "maxThreads s' \<noteq> 0" "lost \<subseteq> dom (jobs s')" using x(3,5) h up lost by (simp_all add: same_threads_def)
  obtain r s'' where y: "IotTaskPool_CreateRecyclableJob pf (Some h) (Some cb) cx True s'
      = Some ((if r = None then IOT_TASKPOOL_NO_MEMORY else IOT_TASKPOOL_SUCCESS, r), s'')"
    "case r of None \<Rightarrow> [p] = [] \<and> pool_inv s'' (remove1 p dq) (no_event (events s) p te) [] lost \<and> jobs s'' = jobs s'
     | Some q \<Rightarrow> job_gone s'' q (remove1 p dq) (no_event (events s) p te) (tl [p])
         \<and> pool_inv s'' (remove1 p dq) (no_event (events s) p te) (tl [p]) (lost - {q}) \<and> ([p] \<noteq> [] \<longrightarrow> q = hd [p]) \<and> ([p] = [] \<longrightarrow> \<not> live s' q)
         \<and> jobs s'' = (jobs s')(q \<mapsto> \<lparr>userCallback = Some cb, pUserContext = cx, flags = 0, status = STATUS_READY\<rparr>)"
    using CreateRecyclableJob_ok [OF pf x(4,2) u, of cb cx] by blast
  have "r = Some p" "jobs s'' = (jobs s')(p \<mapsto> \<lparr>userCallback = Some cb, pUserContext = cx, flags = 0, status = STATUS_READY\<rparr>)"
    using y(2) by (auto split: option.splits)
  moreover have "p \<in> dom (jobs s')" using x(5) j by auto
  ultimately show ?thesis using x(1,5) y(1) by (intro exI [of _ s'] exI [of _ s'']) auto
qed

definition ref_dynamic :: "(unit, unit, u32) taskPool" where
  "ref_dynamic = snd (the (IotTaskPool_CreateRecyclableJob ref_platform (Some (HeapPool 0)) (Some ()) None True ref_pool))"

lemma ref_dynamic_status:
  "map_option fst (IotTaskPool_CreateRecyclableJob ref_platform (Some (HeapPool 0)) (Some ()) None True ref_pool) = Some (IOT_TASKPOOL_SUCCESS, Some 2)"
  "freeCount ref_dynamic = 0"
  by code_simp+

theorem recycle_then_create_witness:
  "\<exists>s' s''. IotTaskPool_RecycleJob ref_platform (Some (HeapPool 0)) (Some 2) ref_dynamic = Some (IOT_TASKPOOL_SUCCESS, s')
    \<and> IotTaskPool_CreateRecyclableJob ref_platform (Some (HeapPool 0)) (Some ()) None True s' = Some ((IOT_TASKPOOL_SUCCESS, Some 2), s'')"
proof -
  obtain r s' where x: "IotTaskPool_CreateRecyclableJob ref_platform (Some (HeapPool 0)) (Some ()) None True ref_pool
      = Some ((if r = None then IOT_TASKPOOL_NO_MEMORY else IOT_TASKPOOL_SUCCESS, r), s')"
    "timer_inv ucast 1000 False s' []" "same_threads ref_pool s'"
    "case r of None \<Rightarrow> ([] :: nat list) = [] \<and> pool_inv s' [] [] [] {} \<and> jobs s' = jobs ref_pool
     | Some q \<Rightarrow> job_gone s' q [] [] (tl []) \<and> pool_inv s' [] [] (tl []) ({} - {q}) \<and> (([] :: nat list) \<noteq> [] \<longrightarrow> q = hd [])
         \<and> (([] :: nat list) = [] \<longrightarrow> \<not> live ref_pool q)
         \<and> jobs s' = (jobs ref_pool)(q \<mapsto> \<lparr>userCallback = Some (), pUserContext = None, flags = 0, status = STATUS_READY\<rparr>)"
    using CreateRecyclableJob_ok [OF ref_platform_ok ref_pool_up(2,3,1,5) empty_subsetI, of "()" None] by blast
  have s': "s' = ref_dynamic" "r = Some 2" using x(1) ref_dynamic_status(1) by (auto simp: ref_dynamic_def)
  have i: "pool_inv ref_dynamic [] [] [] {}" "storage ref_dynamic = Some (HeapPool 0)" "maxThreads ref_dynamic \<noteq> 0"
    "jobs ref_dynamic 2 = Some \<lparr>userCallback = Some (), pUserContext = None, flags = 0, status = STATUS_READY\<rparr>"
    using x(3,4) ref_pool_up(1,5) unfolding s' by (simp_all add: same_threads_def)
  show ?thesis
    using recycle_then_create [OF ref_platform_ok i(1) x(2) [unfolded s'(1)] i(2-4), of "()" None] ref_dynamic_status(2)
    by (auto simp: IOT_TASKPOOL_JOBS_RECYCLE_LIMIT_def)
qed


subsection \<open>The life of a pool\<close>

text \<open>
  C34: Creating a pool gives either a consistent pool with the minimum of workers, all of them waiting
  for jobs, or \<open>NO_MEMORY\<close>; then every worker that had been created has ended and the memory of the
  pool is free again.
\<close>

theorem IotTaskPool_Create_correct:
  assumes "platform_ok pf clk M" and "empty_memory s" and "storage s = None"
    and "1 \<le> info_minThreads i" and "info_minThreads i \<le> info_maxThreads i" and "info_minThreads i \<le> TASKPOOL_MAX_SEM_VALUE"
  shows "\<exists>is st r s'. IotTaskPool_Create pf (Some i) True s = Some ((st, r), s')
    \<and> (if st = IOT_TASKPOOL_SUCCESS
       then (\<exists>p. \<not> live s p \<and> r = Some (HeapPool p)) \<and> storage s' = r
         \<and> workers s' = workers s @ map (\<lambda>i. (i, Waiting)) is \<and> length is = unat (info_minThreads i)
         \<and> activeThreads s' = info_minThreads i \<and> maxThreads s' = info_maxThreads i \<and> pool_inv s' [] [] [] {}
       else st = IOT_TASKPOOL_NO_MEMORY \<and> r = None \<and> storage s' = None \<and> empty_memory s'
         \<and> workers s' = workers s @ map (\<lambda>i. (i, Exited)) is)"
  using Create_ok [OF assms(1,2,4-6,3)] by (elim exE conjE) (intro exI conjI, assumption, auto split: if_splits)

theorem IotTaskPool_Create_correct_witness:
  "\<exists>s'. IotTaskPool_Create ref_platform (Some ref_info) True ref_memory = Some ((IOT_TASKPOOL_SUCCESS, Some (HeapPool 0)), s')
    \<and> pool_inv s' [] [] [] {} \<and> activeThreads s' = 1"
proof -
  have "empty_memory ref_memory" "storage ref_memory = None" "1 \<le> info_minThreads ref_info" "info_minThreads ref_info \<le> info_maxThreads ref_info"
    "info_minThreads ref_info \<le> TASKPOOL_MAX_SEM_VALUE"
    by (simp_all add: empty_memory_def ref_memory_def ref_info_def TASKPOOL_MAX_SEM_VALUE_def)
  from IotTaskPool_Create_correct [OF ref_platform_ok this] obtain st r s' where
    "IotTaskPool_Create ref_platform (Some ref_info) True ref_memory = Some ((st, r), s')"
    "st = IOT_TASKPOOL_SUCCESS \<Longrightarrow> pool_inv s' [] [] [] {} \<and> activeThreads s' = info_minThreads ref_info" by (auto split: if_splits)
  then show ?thesis using ref_created by (auto simp: ref_info_def)
qed



text \<open>
  The clock is exact: the milliseconds it gives are those of the overflows and ticks the kernel
  reports, for as long as the kernel's signed overflow counter has not overflowed itself (for 292
  million years).
\<close>

theorem IotClock_GetTimeMs_correct:
  assumes "vTaskSetTimeOutState k w = ((v, t), w')" and "unat v < 2 ^ 31"
  shows "\<exists>ms. IotClock_GetTimeMs k w = (ms, w') \<and> unat ms = unat v * 2 ^ 32 + unat t"
  by (rule IotClock_GetTimeMs_exact [OF assms])

theorem IotClock_GetTimeMs_correct_witness: "\<exists>ms. IotClock_GetTimeMs ref_kernel 7 = (ms, 507) \<and> unat ms = 507"
  using IotClock_GetTimeMs_correct [of ref_kernel 7 0 507 507] by (simp add: ref_kernel_def)

end
