(* ===== verification/Pem.thy ===== *)
theory Pem
  imports CStrings
begin

text \<open>
  PEM to DER: \<open>convert_pem_to_der\<close> of mbedtls_utils.c, which the PKCS#11 module calls on every
  stored certificate. The base64 decoder of mbedTLS is a parameter.
\<close>

subsection \<open>Searching a string\<close>

text \<open>\<open>strstr (s, t)\<close> as an offset; \<open>t\<close> is given without its terminator.\<close>

fun first_at :: "bytes \<Rightarrow> bytes \<Rightarrow> nat option" where
  "first_at [] t = (if t = [] then Some 0 else None)"
| "first_at (c # s) t = (if take (length t) (c # s) = t then Some 0 else map_option Suc (first_at s t))"

definition strstr :: "bytes \<Rightarrow> bytes \<Rightarrow> nat option option" where
  "strstr s t = (if terminated s then Some (first_at (c_str s) t) else None)"

text \<open>
  \<open>while (p < end && P (*p)) p++\<close> for a pointer \<open>i\<close> into the buffer \<open>b\<close> that ends at \<open>end\<close>.
\<close>

definition skip_while :: "(u8 \<Rightarrow> bool) \<Rightarrow> bytes \<Rightarrow> nat \<Rightarrow> nat" where
  "skip_while P b i = i + length (takeWhile P (drop i b))"

text \<open>\<open>if (*p == c) p++\<close>.\<close>

definition skip_char :: "u8 \<Rightarrow> bytes \<Rightarrow> nat \<Rightarrow> nat option" where
  "skip_char c b i = (if i < length b then Some (if b ! i = c then i + 1 else i) else None)"

subsection \<open>The conversion\<close>

definition MBEDTLS_ERR_BASE64_INVALID_CHARACTER :: int where
  "MBEDTLS_ERR_BASE64_INVALID_CHARACTER = -44"

text \<open>
  \<open>mbedtls_base64_decode\<close> gets the size of the destination (0 for \<open>NULL\<close>) and the source, and gives
  its return code, the length it reports and the bytes it writes.
\<close>

type_synonym base64 = "nat \<Rightarrow> bytes \<Rightarrow> int \<times> nat \<times> bytes"

text \<open>
  The result is the return code (0 is success), the output buffer and the reported length. \<open>s\<close> is
  the input with its length \<open>xLen\<close>; the address \<open>pucS2 > pucEnd\<close> is excluded by \<open>strstr\<close> but tested
  as in the code.
\<close>

definition convert_pem_to_der :: "base64 \<Rightarrow> bytes \<Rightarrow> bytes \<Rightarrow> nat \<Rightarrow> (int \<times> bytes \<times> nat) option" where
  "convert_pem_to_der mbedtls_base64_decode s out olen = do {
     s1 \<leftarrow> strstr s (ascii ''-----BEGIN'');
     case s1 of None \<Rightarrow> Some (-1, out, olen)
     | Some s1 \<Rightarrow> do {
     s2 \<leftarrow> strstr s (ascii ''-----END'');
     case s2 of None \<Rightarrow> Some (-1, out, olen)
     | Some s2 \<Rightarrow> do {
     let s1 = s1 + 10;
     let s1 = skip_while (\<lambda>c. c \<noteq> of_char CHR ''-'') s s1;
     let s1 = skip_while (\<lambda>c. c = of_char CHR ''-'') s s1;
     s1 \<leftarrow> skip_char 13 s s1;
     s1 \<leftarrow> skip_char 10 s s1;
     if s2 \<le> s1 \<or> length s < s2 then Some (-1, out, olen)
     else do {
       let src = take (s2 - s1) (drop s1 s);
       let (lRet, xOtherLen, written) = mbedtls_base64_decode 0 src;
       if lRet = MBEDTLS_ERR_BASE64_INVALID_CHARACTER then Some (lRet, out, olen)
       else if olen < xOtherLen then Some (-1, out, olen)
       else do {
         let (lRet, xOtherLen, written) = mbedtls_base64_decode xOtherLen src;
         out \<leftarrow> write_at out 0 written;
         Some (if lRet \<noteq> 0 then (lRet, out, olen) else (0, out, xOtherLen)) } } } } }"

subsection \<open>What it finds\<close>

lemma first_at_skip:
  "t \<noteq> [] \<Longrightarrow> hd t \<notin> set x \<Longrightarrow> first_at (x @ s) t = map_option ((+) (length x)) (first_at s t)"
proof (induction x)
  case Nil
  then show ?case by (simp add: option.map_id0 id_def [symmetric])
next
  case (Cons c x)
  then have "take (length t) (c # x @ s) \<noteq> t" by (cases t) auto
  with Cons show ?case by (simp add: option.map_comp comp_def)
qed

lemma c_str_append: "0 \<notin> set x \<Longrightarrow> c_str (x @ s) = x @ c_str s"
  by (induction x) auto

lemma terminated_append: "terminated (x @ s) = (terminated x \<or> terminated s)"
  by (auto simp: terminated_def)

lemma skip_while_append:
  "i = length p \<Longrightarrow> \<forall>c \<in> set x. P c \<Longrightarrow> s \<noteq> [] \<Longrightarrow> \<not> P (hd s) \<Longrightarrow> skip_while P (p @ x @ s) i = length (p @ x)"
  by (cases s) (simp_all add: skip_while_def takeWhile_tail)

text \<open>The two marks of a document; \<open>label\<close> and \<open>body\<close> hold no dash.\<close>

abbreviation dashes :: bytes where "dashes \<equiv> ascii ''-----''"

definition pem :: "bytes \<Rightarrow> bytes \<Rightarrow> bytes \<Rightarrow> bytes \<Rightarrow> bytes" where
  "pem label eol body rest = ascii ''-----BEGIN'' @ label @ dashes @ eol @ body @ ascii ''-----END'' @ rest"

definition plain :: "bytes \<Rightarrow> bool" where
  "plain x = (0 \<notin> set x \<and> of_char CHR ''-'' \<notin> set x)"

lemma strstr_pem:
  assumes "plain label" and "plain body" and "eol \<in> {[10], [13, 10]}" and "terminated rest"
  shows "strstr (pem label eol body rest) (ascii ''-----BEGIN'') = Some (Some 0)"
    and "strstr (pem label eol body rest) (ascii ''-----END'') =
      Some (Some (15 + length label + length eol + length body))"
proof -
  have z: "0 \<notin> set (ascii ''-----BEGIN'' @ label @ dashes @ eol @ body @ ascii ''-----END'')"
    using assms by (auto simp: plain_def ascii_def)
  have c: "terminated (pem label eol body rest)"
      "c_str (pem label eol body rest) = ascii ''-----BEGIN'' @ label @ dashes @ eol @ body @ ascii ''-----END'' @ c_str rest"
    using assms(4) c_str_append [OF z, of rest] by (simp_all add: pem_def terminated_append)
  show "strstr (pem label eol body rest) (ascii ''-----BEGIN'') = Some (Some 0)"
    unfolding strstr_def c using c by (simp add: ascii_def)
  have l: "hd (ascii ''-----END'') \<notin> set label" "hd (ascii ''-----END'') \<notin> set body"
    using assms(1,2) by (auto simp: plain_def ascii_def)
  have e: "first_at (ascii ''-----END'' @ c_str rest) (ascii ''-----END'') = Some 0"
    by (simp add: ascii_def)
  have b: "first_at (body @ ascii ''-----END'' @ c_str rest) (ascii ''-----END'') = Some (length body)"
    using first_at_skip [OF _ l(2)] e by (simp add: ascii_def)
  have d: "first_at (dashes @ eol @ body @ ascii ''-----END'' @ c_str rest) (ascii ''-----END'') =
      Some (5 + length eol + length body)"
    using assms(3) b by (auto simp: ascii_def)
  have "first_at (label @ dashes @ eol @ body @ ascii ''-----END'' @ c_str rest) (ascii ''-----END'') =
      Some (5 + length label + length eol + length body)"
    using first_at_skip [OF _ l(1), of "dashes @ eol @ body @ ascii ''-----END'' @ c_str rest"] d
    by (simp add: ascii_def)
  then have "first_at (ascii ''-----BEGIN'' @ label @ dashes @ eol @ body @ ascii ''-----END'' @ c_str rest)
      (ascii ''-----END'') = Some (15 + length label + length eol + length body)"
    by (simp add: ascii_def)
  with c show "strstr (pem label eol body rest) (ascii ''-----END'') =
      Some (Some (15 + length label + length eol + length body))"
    unfolding strstr_def c by simp
qed

lemma skip_pem:
  assumes "plain label" and "eol \<in> {[10], [13, 10]}"
  shows "skip_while (\<lambda>c. c \<noteq> of_char CHR ''-'') (pem label eol body rest) 10 = 10 + length label"
    and "skip_while (\<lambda>c. c = of_char CHR ''-'') (pem label eol body rest) (10 + length label) = 15 + length label"
    and "Option.bind (skip_char 13 (pem label eol body rest) (15 + length label))
      (skip_char 10 (pem label eol body rest)) = Some (15 + length label + length eol)"
proof -
  have "skip_while (\<lambda>c. c \<noteq> of_char CHR ''-'') (ascii ''-----BEGIN'' @ label @ dashes @ eol @ body @ ascii ''-----END'' @ rest) 10 =
      length (ascii ''-----BEGIN'' @ label)"
    using assms(1) by (intro skip_while_append) (auto simp: plain_def ascii_def)
  then show "skip_while (\<lambda>c. c \<noteq> of_char CHR ''-'') (pem label eol body rest) 10 = 10 + length label"
    by (simp add: pem_def)
  have "skip_while (\<lambda>c. c = of_char CHR ''-'') ((ascii ''-----BEGIN'' @ label) @ dashes @ eol @ body @ ascii ''-----END'' @ rest)
      (10 + length label) = length ((ascii ''-----BEGIN'' @ label) @ dashes)"
    using assms(2) by (intro skip_while_append) (auto simp: ascii_def)
  then show "skip_while (\<lambda>c. c = of_char CHR ''-'') (pem label eol body rest) (10 + length label) = 15 + length label"
    by (simp add: pem_def)
  have n: "pem label eol body rest = (ascii ''-----BEGIN'' @ label @ dashes) @ eol @ body @ ascii ''-----END'' @ rest"
    by (simp add: pem_def)
  have "length (ascii ''-----BEGIN'' @ label @ dashes) = 15 + length label" by simp
  then have p: "pem label eol body rest ! (15 + length label + i) = (eol @ body @ ascii ''-----END'' @ rest) ! i" for i
    unfolding n by (metis nth_append_length_plus)
  have len: "length (pem label eol body rest) = 23 + length label + length eol + length body + length rest"
    by (simp add: pem_def)
  show "Option.bind (skip_char 13 (pem label eol body rest) (15 + length label))
      (skip_char 10 (pem label eol body rest)) = Some (15 + length label + length eol)"
    using assms(2) p [of 0] p [of 1] by (auto simp: skip_char_def len)
qed

text \<open>Up to the decoder.\<close>

lemma convert_pem:
  assumes "plain label" and "plain body" and "body \<noteq> []" and "eol \<in> {[10], [13, 10]}" and "terminated rest"
  shows "convert_pem_to_der b64 (pem label eol body rest) out olen =
    (let (lRet, xOtherLen, written) = b64 0 body
     in if lRet = MBEDTLS_ERR_BASE64_INVALID_CHARACTER then Some (lRet, out, olen)
        else if olen < xOtherLen then Some (-1, out, olen)
        else do {
          let (lRet, xOtherLen, written) = b64 xOtherLen body;
          out \<leftarrow> write_at out 0 written;
          Some (if lRet \<noteq> 0 then (lRet, out, olen) else (0, out, xOtherLen)) })"
proof -
  have src: "take (15 + length label + length eol + length body - (15 + length label + length eol))
      (drop (15 + length label + length eol) (pem label eol body rest)) = body"
    by (simp add: pem_def)
  from skip_pem(3) [OF assms(1,4), of body rest] obtain j where
    j: "skip_char 13 (pem label eol body rest) (15 + length label) = Some j"
       "skip_char 10 (pem label eol body rest) j = Some (15 + length label + length eol)" by auto
  have len: "length (pem label eol body rest) = 23 + length label + length eol + length body + length rest"
    by (simp add: pem_def)
  show ?thesis
    unfolding convert_pem_to_der_def strstr_pem [OF assms(1,2,4,5)] Option.bind.simps option.case Let_def
      add_0 skip_pem(1,2) [OF assms(1,4)] j src
    using assms(3) len by simp
qed

text \<open>
  The conversion of a PEM document delivers the decoded body between the two marks and its
  length, whatever precedes the line end and follows the end mark, when the decoder knows the body
  and the result fits.
\<close>

theorem convert_pem_to_der_correct:
  assumes "plain label" and "plain body" and "body \<noteq> []" and "eol \<in> {[10], [13, 10]}" and "terminated rest"
    and "b64 0 body = (e, length d, [])" and "e \<noteq> MBEDTLS_ERR_BASE64_INVALID_CHARACTER"
    and "b64 (length d) body = (0, length d, d)"
    and "length d \<le> olen" and "length d \<le> length out"
  shows "convert_pem_to_der b64 (pem label eol body rest) out olen = Some (0, d @ drop (length d) out, length d)"
  using assms by (simp add: convert_pem [OF assms(1-5)] write_at_def)

theorem convert_pem_to_der_correct_witness:
  "convert_pem_to_der (\<lambda>n src. if n = 0 then (-42, 2, []) else (0, 2, [0x30, 0x82]))
     (pem (ascii '' C'') [10] (ascii ''MII='') (ascii '' C----- '' @ [0])) [1, 2, 3] 3 = Some (0, [0x30, 0x82, 3], 2)"
  using convert_pem_to_der_correct [of "ascii '' C''" "ascii ''MII=''" "[10]" "ascii '' C----- '' @ [0]"
    "\<lambda>n src. if n = 0 then (-42, 2, []) else (0, 2, [0x30, 0x82])" "-42" "[0x30, 0x82]" 3 "[1, 2, 3]"]
  by (simp add: plain_def ascii_def terminated_def MBEDTLS_ERR_BASE64_INVALID_CHARACTER_def)

text \<open>Text without the two marks is refused and the buffer left alone.\<close>

lemma convert_pem_to_der_no_pem:
  assumes "terminated s" and "first_at (c_str s) (ascii ''-----BEGIN'') = None"
  shows "convert_pem_to_der b64 s out olen = Some (-1, out, olen)"
  using assms by (simp add: convert_pem_to_der_def strstr_def)

text \<open>
  A document that does not fit leaves the reported length as it was, although the comment of the
  function promises the length that is needed.
\<close>

lemma convert_pem_to_der_too_small:
  assumes "plain label" and "plain body" and "body \<noteq> []" and "eol \<in> {[10], [13, 10]}" and "terminated rest"
    and "b64 0 body = (e, n, [])" and "e \<noteq> MBEDTLS_ERR_BASE64_INVALID_CHARACTER" and "olen < n"
  shows "convert_pem_to_der b64 (pem label eol body rest) out olen = Some (-1, out, olen)"
  using assms by (simp add: convert_pem [OF assms(1-5)])

end
