(* ===== verification/P11Objects.thy ===== *)
theory P11Objects
  imports KvNv Pem
begin

text \<open>
  The PKCS#11 module's access to what the secure side stores:
  iot_pkcs11_psa_object_management.c and iot_pkcs11_psa_input_format.c. Certificates lie in PSA
  Protected Storage, keys in PSA Crypto; \<open>P11KeyConfig\<close> remembers the key handles and
  which of the six objects are present. The services and mbedTLS are the record \<open>psa_env\<close>.
\<close>

subsection \<open>Constants and types\<close>

datatype CK_RV =
    CKR_OK | CKR_FUNCTION_FAILED | CKR_ATTRIBUTE_VALUE_INVALID | CKR_ARGUMENTS_BAD
  | CKR_TEMPLATE_INCONSISTENT | CKR_HOST_MEMORY | CKR_BUFFER_TOO_SMALL | CKR_MECHANISM_INVALID
  | CKR_KEY_HANDLE_INVALID | CKR_DATA_LEN_RANGE | CKR_OPERATION_NOT_INITIALIZED
  | CKR_OBJECT_HANDLE_INVALID | CKR_DEVICE_MEMORY | CKR_CANT_LOCK | CKR_TEMPLATE_INCOMPLETE
  | CKR_KEY_TYPE_INCONSISTENT | CKR_CRYPTOKI_NOT_INITIALIZED | CKR_ATTRIBUTE_TYPE_INVALID
  | CKR_SIGNATURE_LEN_RANGE | CKR_SESSION_HANDLE_INVALID | CKR_CRYPTOKI_ALREADY_INITIALIZED
  | CKR_ATTRIBUTE_SENSITIVE | CKR_SIGNATURE_INVALID | CKR_SESSION_PARALLEL_NOT_SUPPORTED
  | CKR_SESSION_CLOSED | CKR_OPERATION_ACTIVE | CKR_MECHANISM_PARAM_INVALID

datatype CK_OBJECT_CLASS = CKO_CERTIFICATE | CKO_PUBLIC_KEY | CKO_PRIVATE_KEY | CKO_OTHER

text \<open>Object handles of the PAL, \<open>P11ObjectHandles_t\<close>.\<close>

type_synonym pal_handle = nat

definition eInvalidHandle :: pal_handle where "eInvalidHandle = 0"
definition eAwsDevicePrivateKey :: pal_handle where "eAwsDevicePrivateKey = 1"
definition eAwsDevicePublicKey :: pal_handle where "eAwsDevicePublicKey = 2"
definition eAwsDeviceCertificate :: pal_handle where "eAwsDeviceCertificate = 3"
definition eAwsCodeVerifyingKey :: pal_handle where "eAwsCodeVerifyingKey = 4"
definition eAwsJitpCertificate :: pal_handle where "eAwsJitpCertificate = 5"
definition eAwsRootCertificate :: pal_handle where "eAwsRootCertificate = 6"

lemmas pal_handle_defs = eInvalidHandle_def eAwsDevicePrivateKey_def eAwsDevicePublicKey_def
  eAwsDeviceCertificate_def eAwsCodeVerifyingKey_def eAwsJitpCertificate_def eAwsRootCertificate_def

definition LABEL_DEVICE_PRIVATE_KEY_FOR_TLS :: bytes where
  "LABEL_DEVICE_PRIVATE_KEY_FOR_TLS = c_literal ''tls_key_priv''"
definition LABEL_DEVICE_PUBLIC_KEY_FOR_TLS :: bytes where
  "LABEL_DEVICE_PUBLIC_KEY_FOR_TLS = c_literal ''tls_key_pub''"
definition LABEL_DEVICE_CERTIFICATE_FOR_TLS :: bytes where
  "LABEL_DEVICE_CERTIFICATE_FOR_TLS = c_literal ''tls_cert''"
definition LABEL_CODE_VERIFICATION_KEY :: bytes where
  "LABEL_CODE_VERIFICATION_KEY = c_literal ''ota_signer_pub''"
definition LABEL_JITP_CERTIFICATE :: bytes where
  "LABEL_JITP_CERTIFICATE = c_literal ''JITP Cert''"
definition LABEL_ROOT_CERTIFICATE :: bytes where
  "LABEL_ROOT_CERTIFICATE = c_literal ''root_ca_cert''"

lemmas label_defs = LABEL_DEVICE_PRIVATE_KEY_FOR_TLS_def LABEL_DEVICE_PUBLIC_KEY_FOR_TLS_def
  LABEL_DEVICE_CERTIFICATE_FOR_TLS_def LABEL_CODE_VERIFICATION_KEY_def LABEL_JITP_CERTIFICATE_def
  LABEL_ROOT_CERTIFICATE_def

definition PSA_DEVICE_PRIVATE_KEY_ID :: u32 where "PSA_DEVICE_PRIVATE_KEY_ID = 0x01"
definition PSA_DEVICE_PUBLIC_KEY_ID :: u32 where "PSA_DEVICE_PUBLIC_KEY_ID = 0x10"
definition PSA_DEVICE_CERTIFICATE_UID :: nat where "PSA_DEVICE_CERTIFICATE_UID = 5"
definition PSA_JITP_CERTIFICATE_UID :: nat where "PSA_JITP_CERTIFICATE_UID = 6"
definition PSA_ROOT_CERTIFICATE_UID :: nat where "PSA_ROOT_CERTIFICATE_UID = 7"
definition pkcs11OBJECT_MAX_SIZE :: nat where "pkcs11OBJECT_MAX_SIZE = 1300"
definition pkcs11OBJECT_HANDLE_NA :: u32 where "pkcs11OBJECT_HANDLE_NA = 0"
definition EC_PRIVATE_KEY_MAX_LENGTH :: nat where "EC_PRIVATE_KEY_MAX_LENGTH = 40"

definition PSA_ERROR_GENERIC_ERROR :: int where "PSA_ERROR_GENERIC_ERROR = -132"
definition PSA_ERROR_NOT_PERMITTED :: int where "PSA_ERROR_NOT_PERMITTED = -133"
definition PSA_ERROR_INVALID_ARGUMENT :: int where "PSA_ERROR_INVALID_ARGUMENT = -135"

definition PSA_KEY_USAGE_SIGN_HASH :: u32 where "PSA_KEY_USAGE_SIGN_HASH = 0x1000"
definition PSA_KEY_USAGE_VERIFY_HASH :: u32 where "PSA_KEY_USAGE_VERIFY_HASH = 0x2000"
definition PSA_ALG_SHA_256 :: u32 where "PSA_ALG_SHA_256 = 0x02000009"

definition PSA_ALG_ECDSA :: "u32 \<Rightarrow> u32" where
  "PSA_ALG_ECDSA hash_alg = 0x06000600 OR (hash_alg AND 0xff)"
definition PSA_ALG_RSA_PKCS1V15_SIGN :: "u32 \<Rightarrow> u32" where
  "PSA_ALG_RSA_PKCS1V15_SIGN hash_alg = 0x06000200 OR (hash_alg AND 0xff)"
definition PSA_ALG_RSA_PSS :: "u32 \<Rightarrow> u32" where
  "PSA_ALG_RSA_PSS hash_alg = 0x06000300 OR (hash_alg AND 0xff)"
definition PSA_KEY_TYPE_RSA_KEY_PAIR :: u16 where "PSA_KEY_TYPE_RSA_KEY_PAIR = 0x7001"
definition PSA_KEY_TYPE_ECC_KEY_PAIR :: "u8 \<Rightarrow> u16" where
  "PSA_KEY_TYPE_ECC_KEY_PAIR curve = 0x7100 OR ucast curve"
definition PSA_KEY_TYPE_ECC_PUBLIC_KEY :: "u8 \<Rightarrow> u16" where
  "PSA_KEY_TYPE_ECC_PUBLIC_KEY curve = 0x4100 OR ucast curve"

text \<open>The attributes a key is imported with; \<open>None\<close> is a field that is not set.\<close>

record key_attributes =
  ka_id :: "u32 option"
  ka_usage :: u32
  ka_alg :: u32
  ka_type :: u16

subsection \<open>Services\<close>

text \<open>
  What the module needs of an mbedTLS key context. \<open>pk_curve\<close> is the group of an elliptic curve
  key, \<open>pk_nbits\<close> its size and \<open>pk_secret n\<close> its private value written as \<open>n\<close> bytes, unless
  it does not fit.
\<close>

datatype mbedtls_pk_type_t = MBEDTLS_PK_NONE | MBEDTLS_PK_RSA | MBEDTLS_PK_ECKEY | MBEDTLS_PK_ECDSA | MBEDTLS_PK_ECKEY_DH | MBEDTLS_PK_OTHER

datatype mbedtls_ecp_group_id =
    MBEDTLS_ECP_DP_SECP192R1 | MBEDTLS_ECP_DP_SECP224R1 | MBEDTLS_ECP_DP_SECP256R1
  | MBEDTLS_ECP_DP_SECP384R1 | MBEDTLS_ECP_DP_SECP521R1 | MBEDTLS_ECP_DP_BP256R1
  | MBEDTLS_ECP_DP_BP384R1 | MBEDTLS_ECP_DP_BP512R1 | MBEDTLS_ECP_DP_CURVE25519
  | MBEDTLS_ECP_DP_SECP192K1 | MBEDTLS_ECP_DP_SECP224K1 | MBEDTLS_ECP_DP_SECP256K1
  | MBEDTLS_ECP_DP_CURVE448 | MBEDTLS_ECP_DP_NONE

datatype rsa_padding = MBEDTLS_RSA_PKCS_V15 | MBEDTLS_RSA_PKCS_V21 | MBEDTLS_RSA_OTHER

record pk_context =
  pk_type :: mbedtls_pk_type_t
  pk_padding :: rsa_padding
  pk_curve :: mbedtls_ecp_group_id
  pk_nbits :: nat
  pk_secret :: "nat \<Rightarrow> bytes option"

text \<open>
  The services. The \<open>asn1\<close> functions work on a buffer and offsets into it and give the new offset.
\<close>

record 'w psa_env =
  psa_ps_set :: "nat \<Rightarrow> bytes \<Rightarrow> 'w \<Rightarrow> int \<times> 'w"
  psa_ps_get_info :: "nat \<Rightarrow> 'w \<Rightarrow> int \<times> nat"
  psa_ps_get :: "nat \<Rightarrow> nat \<Rightarrow> nat \<Rightarrow> 'w \<Rightarrow> int \<times> bytes"
  psa_ps_remove :: "nat \<Rightarrow> 'w \<Rightarrow> int \<times> 'w"
  psa_import_key :: "key_attributes \<Rightarrow> bytes \<Rightarrow> 'w \<Rightarrow> int \<times> u32 \<times> 'w"
  psa_get_key_attributes :: "u32 \<Rightarrow> 'w \<Rightarrow> int \<times> u16 \<times> nat"
  psa_export_key :: "u32 \<Rightarrow> nat \<Rightarrow> 'w \<Rightarrow> int \<times> bytes"
  PSA_EXPORT_KEY_OUTPUT_SIZE :: "u16 \<Rightarrow> nat \<Rightarrow> nat"
  psa_destroy_key :: "u32 \<Rightarrow> 'w \<Rightarrow> int \<times> 'w"
  psa_close_key :: "u32 \<Rightarrow> 'w \<Rightarrow> int \<times> 'w"
  heap_has :: "nat \<Rightarrow> 'w \<Rightarrow> bool"
  mbedtls_base64_decode :: base64
  mbedtls_ecp_curve_info_from_grp_id :: "mbedtls_ecp_group_id \<Rightarrow> mbedtls_ecp_group_id option"
  mbedtls_asn1_get_tag :: "bytes \<Rightarrow> nat \<Rightarrow> nat \<Rightarrow> (nat \<times> nat) option"
  mbedtls_asn1_get_alg :: "bytes \<Rightarrow> nat \<Rightarrow> nat \<Rightarrow> (nat \<times> bytes \<times> bool \<times> nat) option"
  mbedtls_oid_get_pk_alg :: "bytes \<Rightarrow> mbedtls_pk_type_t option"
  mbedtls_asn1_get_bitstring_null :: "bytes \<Rightarrow> nat \<Rightarrow> nat \<Rightarrow> (nat \<times> nat) option"

record 'w p11_store =
  uxDevicePrivateKey :: u32
  uxDevicePublicKey :: u32
  uxCodeVerifyKey :: u32
  xDeviceCertificateMark :: bool
  xDevicePrivateKeyMark :: bool
  xDevicePublicKeyMark :: bool
  xCodeVerifyKeyMark :: bool
  xJitpCertificateMark :: bool
  xRootCertificateMark :: bool
  psa :: 'w

subsection \<open>iot_pkcs11_psa_input_format.c\<close>

text \<open>
  \<open>pk_get_pk_alg\<close>: the offset behind the algorithm and the key type; \<open>None\<close> is any of the error
  codes. The parameters of the algorithm are described by whether their tag is NULL or absent,
  and by their length.
\<close>

definition pk_get_pk_alg :: "'w psa_env \<Rightarrow> bytes \<Rightarrow> nat \<Rightarrow> nat \<Rightarrow> (nat \<times> mbedtls_pk_type_t) option" where
  "pk_get_pk_alg env key p end = do {
     (p, alg_oid, null_tag, len) \<leftarrow> mbedtls_asn1_get_alg env key p end;
     pk_alg \<leftarrow> mbedtls_oid_get_pk_alg env alg_oid;
     if pk_alg = MBEDTLS_PK_RSA \<and> (\<not> null_tag \<or> len \<noteq> 0) then None else Some (p, pk_alg) }"

text \<open>
  The point of an elliptic curve public key: \<open>None\<close> is an error; a key of another type succeeds
  but sets neither address nor length, the inner \<open>None\<close>.
\<close>

definition get_public_key_ECPoint :: "'w psa_env \<Rightarrow> bytes \<Rightarrow> nat \<Rightarrow> (nat \<times> nat) option option" where
  "get_public_key_ECPoint env key keylen = do {
     (p, len) \<leftarrow> mbedtls_asn1_get_tag env key 0 keylen;
     let end = p + len;
     (p, pk_alg) \<leftarrow> pk_get_pk_alg env key p end;
     (p, len) \<leftarrow> mbedtls_asn1_get_bitstring_null env key p end;
     if p + len \<noteq> end then None
     else Some (if pk_alg = MBEDTLS_PK_ECKEY_DH \<or> pk_alg = MBEDTLS_PK_ECKEY
                then Some (p, end - p) else None) }"

subsection \<open>Saving objects\<close>

fun mbedtls_ecc_group_to_psa :: "mbedtls_ecp_group_id \<Rightarrow> u8 \<times> nat" where
  "mbedtls_ecc_group_to_psa MBEDTLS_ECP_DP_SECP192R1 = (0x12, 192)"
| "mbedtls_ecc_group_to_psa MBEDTLS_ECP_DP_SECP224R1 = (0x12, 224)"
| "mbedtls_ecc_group_to_psa MBEDTLS_ECP_DP_SECP256R1 = (0x12, 256)"
| "mbedtls_ecc_group_to_psa MBEDTLS_ECP_DP_SECP384R1 = (0x12, 384)"
| "mbedtls_ecc_group_to_psa MBEDTLS_ECP_DP_SECP521R1 = (0x12, 521)"
| "mbedtls_ecc_group_to_psa MBEDTLS_ECP_DP_BP256R1 = (0x30, 256)"
| "mbedtls_ecc_group_to_psa MBEDTLS_ECP_DP_BP384R1 = (0x30, 384)"
| "mbedtls_ecc_group_to_psa MBEDTLS_ECP_DP_BP512R1 = (0x30, 512)"
| "mbedtls_ecc_group_to_psa MBEDTLS_ECP_DP_CURVE25519 = (0x41, 255)"
| "mbedtls_ecc_group_to_psa MBEDTLS_ECP_DP_SECP192K1 = (0x17, 192)"
| "mbedtls_ecc_group_to_psa MBEDTLS_ECP_DP_SECP224K1 = (0x17, 224)"
| "mbedtls_ecc_group_to_psa MBEDTLS_ECP_DP_SECP256K1 = (0x17, 256)"
| "mbedtls_ecc_group_to_psa MBEDTLS_ECP_DP_CURVE448 = (0x41, 448)"
| "mbedtls_ecc_group_to_psa _ = (0, 0)"

text \<open>The length argument of \<open>PKCS11PSAContextImportObject\<close> is not used by the code.\<close>

definition PKCS11PSAContextImportObject :: "bytes \<Rightarrow> u32 \<Rightarrow> 'w p11_store \<Rightarrow> 'w p11_store option" where
  "PKCS11PSAContextImportObject pLabelValue uxKeyHandle s = do {
     eq \<leftarrow> strcmp_eq pLabelValue LABEL_DEVICE_PRIVATE_KEY_FOR_TLS;
     if eq then Some (s\<lparr>uxDevicePrivateKey := uxKeyHandle, xDevicePrivateKeyMark := True\<rparr>)
     else do {
     eq \<leftarrow> strcmp_eq pLabelValue LABEL_DEVICE_PUBLIC_KEY_FOR_TLS;
     if eq then Some (s\<lparr>uxDevicePublicKey := uxKeyHandle, xDevicePublicKeyMark := True\<rparr>)
     else do {
     eq \<leftarrow> strcmp_eq pLabelValue LABEL_CODE_VERIFICATION_KEY;
     if eq then Some (s\<lparr>uxCodeVerifyKey := uxKeyHandle, xCodeVerifyKeyMark := True\<rparr>)
     else do {
     eq \<leftarrow> strcmp_eq pLabelValue LABEL_DEVICE_CERTIFICATE_FOR_TLS;
     if eq then Some (s\<lparr>xDeviceCertificateMark := True\<rparr>)
     else do {
     eq \<leftarrow> strcmp_eq pLabelValue LABEL_JITP_CERTIFICATE;
     if eq then Some (s\<lparr>xJitpCertificateMark := True\<rparr>)
     else do {
     eq \<leftarrow> strcmp_eq pLabelValue LABEL_ROOT_CERTIFICATE;
     Some (if eq then s\<lparr>xRootCertificateMark := True\<rparr> else s) } } } } } }"

text \<open>\<open>*((uint32_t *) pxClass->pValue) == c && strcmp (pxLabel->pValue, label) == 0\<close>.\<close>

definition is_object :: "CK_OBJECT_CLASS \<Rightarrow> bytes \<Rightarrow> CK_OBJECT_CLASS \<Rightarrow> bytes \<Rightarrow> bool option" where
  "is_object cls label c lit = (if cls = c then strcmp_eq label lit else Some False)"

definition save_certificate ::
  "'w psa_env \<Rightarrow> nat \<Rightarrow> pal_handle \<Rightarrow> bytes \<Rightarrow> bytes \<Rightarrow> 'w p11_store \<Rightarrow> (pal_handle \<times> 'w p11_store) option" where
  "save_certificate env uid handle label data s = do {
     let (uxStatus, w) = psa_ps_set env uid data (psa s);
     let s = s\<lparr>psa := w\<rparr>;
     if uxStatus = PSA_SUCCESS
     then do {
       s \<leftarrow> PKCS11PSAContextImportObject label pkcs11OBJECT_HANDLE_NA s;
       Some (handle, s) }
     else Some (eInvalidHandle, s) }"

text \<open>
  The common end of the key branches: import the key when the preparation succeeded, and record
  the handle when the import did.
\<close>

definition import_and_record ::
  "'w psa_env \<Rightarrow> (key_attributes \<times> bytes) option \<Rightarrow> pal_handle \<Rightarrow> bytes \<Rightarrow> 'w p11_store \<Rightarrow>
   (pal_handle \<times> 'w p11_store) option" where
  "import_and_record env prepared handle label s =
     (case prepared of
        None \<Rightarrow> Some (eInvalidHandle, s)
      | Some (attrs, data) \<Rightarrow> do {
          let (uxStatus, uxKeyHandle, w) = psa_import_key env attrs data (psa s);
          let s = s\<lparr>psa := w\<rparr>;
          if uxStatus = PSA_SUCCESS
          then do {
            s \<leftarrow> PKCS11PSAContextImportObject label uxKeyHandle s;
            Some (handle, s) }
          else Some (eInvalidHandle, s) })"

text \<open>
  The private key: an RSA key is imported as given, an elliptic curve key as its private value,
  which is written to a buffer of \<open>EC_PRIVATE_KEY_MAX_LENGTH\<close> bytes on the stack. The outer option
  of the result is meaning, the inner one success.
\<close>

definition prepare_private_key ::
  "'w psa_env \<Rightarrow> pk_context \<Rightarrow> bytes \<Rightarrow> (key_attributes \<times> bytes) option option" where
  "prepare_private_key env pk data =
     (let attrs = (\<lambda>alg type. \<lparr>ka_id = Some PSA_DEVICE_PRIVATE_KEY_ID, ka_usage = PSA_KEY_USAGE_SIGN_HASH,
                    ka_alg = alg, ka_type = type\<rparr>)
      in if pk_type pk = MBEDTLS_PK_RSA
         then Some (case pk_padding pk of
             MBEDTLS_RSA_PKCS_V15 \<Rightarrow>
               Some (attrs (PSA_ALG_RSA_PKCS1V15_SIGN PSA_ALG_SHA_256) PSA_KEY_TYPE_RSA_KEY_PAIR, data)
           | MBEDTLS_RSA_PKCS_V21 \<Rightarrow>
               Some (attrs (PSA_ALG_RSA_PSS PSA_ALG_SHA_256) PSA_KEY_TYPE_RSA_KEY_PAIR, data)
           | _ \<Rightarrow> None)
         else if pk_type pk = MBEDTLS_PK_ECKEY \<or> pk_type pk = MBEDTLS_PK_ECDSA
         then do {
           curve_id \<leftarrow> mbedtls_ecp_curve_info_from_grp_id env (pk_curve pk);
           let xPrivateKeyRawSize = (pk_nbits pk + 7) div 8;
           (case pk_secret pk xPrivateKeyRawSize of
              None \<Rightarrow> Some None
            | Some d \<Rightarrow> do {
                cPrivateKeyRaw \<leftarrow> write_at (replicate EC_PRIVATE_KEY_MAX_LENGTH 0) 0 d;
                raw \<leftarrow> read_at cPrivateKeyRaw 0 xPrivateKeyRawSize;
                Some (Some (attrs (PSA_ALG_ECDSA PSA_ALG_SHA_256)
                  (PSA_KEY_TYPE_ECC_KEY_PAIR (fst (mbedtls_ecc_group_to_psa curve_id))), raw)) }) }
         else Some None)"

text \<open>
  The two public keys differ in the key identifier: only the device key is persistent. A buffer
  that is left unset is \<open>NULL\<close> with length 0.
\<close>

definition prepare_public_key ::
  "'w psa_env \<Rightarrow> u32 option \<Rightarrow> pk_context \<Rightarrow> bytes \<Rightarrow> (key_attributes \<times> bytes) option option" where
  "prepare_public_key env kid pk data =
     (if pk_type pk = MBEDTLS_PK_ECKEY \<or> pk_type pk = MBEDTLS_PK_ECDSA
      then do {
        curve_id \<leftarrow> mbedtls_ecp_curve_info_from_grp_id env (pk_curve pk);
        (case get_public_key_ECPoint env data (length data) of
           None \<Rightarrow> Some None
         | Some None \<Rightarrow> Some (Some (\<lparr>ka_id = kid, ka_usage = PSA_KEY_USAGE_VERIFY_HASH,
               ka_alg = PSA_ALG_ECDSA PSA_ALG_SHA_256,
               ka_type = PSA_KEY_TYPE_ECC_PUBLIC_KEY (fst (mbedtls_ecc_group_to_psa curve_id))\<rparr>, []))
         | Some (Some (p, n)) \<Rightarrow> do {
             point \<leftarrow> read_at data p n;
             Some (Some (\<lparr>ka_id = kid, ka_usage = PSA_KEY_USAGE_VERIFY_HASH,
               ka_alg = PSA_ALG_ECDSA PSA_ALG_SHA_256,
               ka_type = PSA_KEY_TYPE_ECC_PUBLIC_KEY (fst (mbedtls_ecc_group_to_psa curve_id))\<rparr>, point)) }) }
      else Some None)"

text \<open>\<open>data\<close> is the first \<open>ulDataSize\<close> bytes at \<open>pucData\<close>.\<close>

definition PKCS11PSASaveObject ::
  "'w psa_env \<Rightarrow> CK_OBJECT_CLASS \<Rightarrow> bytes \<Rightarrow> bytes \<Rightarrow> pk_context \<Rightarrow> 'w p11_store \<Rightarrow>
   (pal_handle \<times> 'w p11_store) option" where
  "PKCS11PSASaveObject env cls label data pk s =
     (if length data \<le> pkcs11OBJECT_MAX_SIZE
      then do {
        cert \<leftarrow> is_object cls label CKO_CERTIFICATE LABEL_DEVICE_CERTIFICATE_FOR_TLS;
        jitp \<leftarrow> is_object cls label CKO_CERTIFICATE LABEL_JITP_CERTIFICATE;
        root \<leftarrow> is_object cls label CKO_CERTIFICATE LABEL_ROOT_CERTIFICATE;
        priv \<leftarrow> is_object cls label CKO_PRIVATE_KEY LABEL_DEVICE_PRIVATE_KEY_FOR_TLS;
        code \<leftarrow> is_object cls label CKO_PUBLIC_KEY LABEL_CODE_VERIFICATION_KEY;
        pub \<leftarrow> is_object cls label CKO_PUBLIC_KEY LABEL_DEVICE_PUBLIC_KEY_FOR_TLS;
        if cert then save_certificate env PSA_DEVICE_CERTIFICATE_UID eAwsDeviceCertificate label data s
        else if jitp then save_certificate env PSA_JITP_CERTIFICATE_UID eAwsJitpCertificate label data s
        else if root then save_certificate env PSA_ROOT_CERTIFICATE_UID eAwsRootCertificate label data s
        else if priv
        then do {
          prepared \<leftarrow> prepare_private_key env pk data;
          import_and_record env prepared eAwsDevicePrivateKey label s }
        else if code
        then do {
          prepared \<leftarrow> prepare_public_key env None pk data;
          import_and_record env prepared eAwsCodeVerifyingKey label s }
        else if pub
        then do {
          prepared \<leftarrow> prepare_public_key env (Some PSA_DEVICE_PUBLIC_KEY_ID) pk data;
          import_and_record env prepared eAwsDevicePublicKey label s }
        else Some (eInvalidHandle, s) }
      else Some (eInvalidHandle, s))"

subsection \<open>Reading objects\<close>

text \<open>
  The three out parameters of a read: buffer, size and the private flag; \<open>pulDataSize\<close> comes in with
  the size of the buffer.
\<close>

record value_out =
  pucData :: bytes
  pulDataSize :: nat
  pIsPrivate :: bool

definition PSAGetCertificateValue ::
  "'w psa_env \<Rightarrow> nat \<Rightarrow> value_out \<Rightarrow> 'w \<Rightarrow> (CK_RV \<times> value_out) option" where
  "PSAGetCertificateValue env uid out w =
     (let (uxStatus, sz) = psa_ps_get_info env uid w
      in if uxStatus = PSA_SUCCESS
         then if heap_has env sz w
           then let (uxStatus, content) = psa_ps_get env uid 0 sz w
             in if uxStatus = PSA_SUCCESS
             then do {
               (lRet, buf, n) \<leftarrow> convert_pem_to_der (mbedtls_base64_decode env) content (pucData out) (pulDataSize out);
               if lRet \<noteq> 0
               then do {
                 buf \<leftarrow> write_at buf 0 content;
                 Some (CKR_OK, out\<lparr>pucData := buf, pulDataSize := length content, pIsPrivate := False\<rparr>) }
               else Some (CKR_OK, out\<lparr>pucData := buf, pulDataSize := n, pIsPrivate := False\<rparr>) }
             else Some (CKR_FUNCTION_FAILED, out)
           else Some (CKR_DEVICE_MEMORY, out)
         else Some (CKR_OBJECT_HANDLE_INVALID, out))"

text \<open>
  The branch that the three keys share. The service gives a status and the bytes it delivers, none
  when the key may not be exported.
\<close>

definition export_key_value ::
  "'w psa_env \<Rightarrow> u32 \<Rightarrow> value_out \<Rightarrow> 'w \<Rightarrow> (CK_RV \<times> value_out) option" where
  "export_key_value env key out w =
     (let (uxStatus, key_type, key_bits) = psa_get_key_attributes env key w
      in if uxStatus = PSA_SUCCESS
         then do {
           let (uxStatus, data) = psa_export_key env key (PSA_EXPORT_KEY_OUTPUT_SIZE env key_type key_bits) w;
           buf \<leftarrow> write_at (pucData out) 0 data;
           let out = out\<lparr>pucData := buf, pulDataSize := length data\<rparr>;
           Some (if uxStatus = PSA_ERROR_NOT_PERMITTED then (CKR_OK, out\<lparr>pIsPrivate := True\<rparr>)
             else if uxStatus = PSA_SUCCESS then (CKR_OK, out\<lparr>pIsPrivate := False\<rparr>)
             else (CKR_FUNCTION_FAILED, out)) }
         else Some (CKR_FUNCTION_FAILED, out))"

definition PKCS11PSAGetObjectValue ::
  "'w psa_env \<Rightarrow> pal_handle \<Rightarrow> value_out \<Rightarrow> 'w p11_store \<Rightarrow> (CK_RV \<times> value_out) option" where
  "PKCS11PSAGetObjectValue env xHandle out s =
     (if xHandle = eAwsDeviceCertificate \<and> xDeviceCertificateMark s
      then PSAGetCertificateValue env PSA_DEVICE_CERTIFICATE_UID out (psa s)
      else if xHandle = eAwsJitpCertificate \<and> xJitpCertificateMark s
      then PSAGetCertificateValue env PSA_JITP_CERTIFICATE_UID out (psa s)
      else if xHandle = eAwsRootCertificate \<and> xRootCertificateMark s
      then PSAGetCertificateValue env PSA_ROOT_CERTIFICATE_UID out (psa s)
      else if xHandle = eAwsDevicePrivateKey \<and> xDevicePrivateKeyMark s
      then export_key_value env (uxDevicePrivateKey s) out (psa s)
      else if xHandle = eAwsDevicePublicKey \<and> xDevicePublicKeyMark s
      then export_key_value env (uxDevicePublicKey s) out (psa s)
      else if xHandle = eAwsCodeVerifyingKey \<and> xCodeVerifyKeyMark s
      then export_key_value env (uxCodeVerifyKey s) out (psa s)
      else Some (CKR_OBJECT_HANDLE_INVALID, out))"

subsection \<open>Removing objects\<close>

text \<open>
  The branch of one key, with the test of its mark, and of one certificate. \<open>forget\<close> clears the mark
  (and handle).
\<close>

definition remove_key ::
  "'w psa_env \<Rightarrow> bool \<Rightarrow> bool \<Rightarrow> u32 \<Rightarrow> ('w p11_store \<Rightarrow> 'w p11_store) \<Rightarrow> 'w p11_store \<Rightarrow> CK_RV \<times> 'w p11_store" where
  "remove_key env permanent mark key forget s =
     (if mark
      then let (uxStatus, w) = (if permanent then psa_destroy_key env key (psa s) else psa_close_key env key (psa s));
               s = s\<lparr>psa := w\<rparr>
        in if uxStatus \<noteq> PSA_SUCCESS then (CKR_FUNCTION_FAILED, s) else (CKR_OK, forget s)
      else (CKR_OK, s))"

definition remove_certificate ::
  "'w psa_env \<Rightarrow> bool \<Rightarrow> nat \<Rightarrow> ('w p11_store \<Rightarrow> 'w p11_store) \<Rightarrow> 'w p11_store \<Rightarrow> CK_RV \<times> 'w p11_store" where
  "remove_certificate env mark uid forget s =
     (if mark
      then let (uxStatus, w) = psa_ps_remove env uid (psa s); s = s\<lparr>psa := w\<rparr>
        in if uxStatus \<noteq> PSA_SUCCESS then (CKR_FUNCTION_FAILED, s) else (CKR_OK, forget s)
      else (CKR_OK, s))"

definition PKCS11PSARemoveObject ::
  "'w psa_env \<Rightarrow> bytes \<Rightarrow> nat \<Rightarrow> bool \<Rightarrow> 'w p11_store \<Rightarrow> (CK_RV \<times> 'w p11_store) option" where
  "PKCS11PSARemoveObject env pcLabel xLabelLength permanent s = do {
     eq \<leftarrow> memcmp_eq pcLabel LABEL_DEVICE_PRIVATE_KEY_FOR_TLS xLabelLength;
     if eq then Some (remove_key env permanent (xDevicePrivateKeyMark s) (uxDevicePrivateKey s)
         (\<lambda>s. s\<lparr>uxDevicePrivateKey := 0, xDevicePrivateKeyMark := False\<rparr>) s)
     else do {
     eq \<leftarrow> memcmp_eq pcLabel LABEL_DEVICE_PUBLIC_KEY_FOR_TLS xLabelLength;
     if eq then Some (remove_key env permanent (xDevicePublicKeyMark s) (uxDevicePublicKey s)
         (\<lambda>s. s\<lparr>uxDevicePublicKey := 0, xDevicePublicKeyMark := False\<rparr>) s)
     else do {
     eq \<leftarrow> memcmp_eq pcLabel LABEL_CODE_VERIFICATION_KEY xLabelLength;
     if eq then Some (remove_key env permanent (xCodeVerifyKeyMark s) (uxCodeVerifyKey s)
         (\<lambda>s. s\<lparr>uxCodeVerifyKey := 0, xCodeVerifyKeyMark := False\<rparr>) s)
     else do {
     eq \<leftarrow> memcmp_eq pcLabel LABEL_ROOT_CERTIFICATE xLabelLength;
     if eq then Some (remove_certificate env (xRootCertificateMark s) PSA_ROOT_CERTIFICATE_UID
         (\<lambda>s. s\<lparr>xRootCertificateMark := False\<rparr>) s)
     else do {
     eq \<leftarrow> memcmp_eq pcLabel LABEL_JITP_CERTIFICATE xLabelLength;
     if eq then Some (remove_certificate env (xJitpCertificateMark s) PSA_JITP_CERTIFICATE_UID
         (\<lambda>s. s\<lparr>xJitpCertificateMark := False\<rparr>) s)
     else do {
     eq \<leftarrow> memcmp_eq pcLabel LABEL_DEVICE_CERTIFICATE_FOR_TLS xLabelLength;
     Some (if eq then remove_certificate env (xDeviceCertificateMark s) PSA_DEVICE_CERTIFICATE_UID
         (\<lambda>s. s\<lparr>xDeviceCertificateMark := False\<rparr>) s
       else (CKR_ATTRIBUTE_VALUE_INVALID, s)) } } } } } }"

definition PKCS11PSAGetKeyHandle :: "bytes \<Rightarrow> nat \<Rightarrow> 'w p11_store \<Rightarrow> (CK_RV \<times> u32) option" where
  "PKCS11PSAGetKeyHandle pcLabel xLabelLength s = do {
     eq \<leftarrow> memcmp_eq pcLabel LABEL_DEVICE_PRIVATE_KEY_FOR_TLS xLabelLength;
     if eq \<and> xDevicePrivateKeyMark s then Some (CKR_OK, uxDevicePrivateKey s)
     else do {
     eq \<leftarrow> memcmp_eq pcLabel LABEL_DEVICE_PUBLIC_KEY_FOR_TLS xLabelLength;
     if eq \<and> xDevicePublicKeyMark s then Some (CKR_OK, uxDevicePublicKey s)
     else do {
     eq \<leftarrow> memcmp_eq pcLabel LABEL_CODE_VERIFICATION_KEY xLabelLength;
     Some (if eq \<and> xCodeVerifyKeyMark s then (CKR_OK, uxCodeVerifyKey s)
       else (CKR_ARGUMENTS_BAD, 0)) } } }"

subsection \<open>The objects as a map\<close>

text \<open>
  What \<open>P11KeyConfig\<close> stands for: a map from the handles of the objects that are present to the
  PSA key handle, or 0 for a certificate.
\<close>

definition stored :: "'w p11_store \<Rightarrow> pal_handle \<Rightarrow> u32 option" where
  "stored s h =
     (let entry = (\<lambda>mark k. if mark then Some k else None)
      in if h = eAwsDevicePrivateKey then entry (xDevicePrivateKeyMark s) (uxDevicePrivateKey s)
         else if h = eAwsDevicePublicKey then entry (xDevicePublicKeyMark s) (uxDevicePublicKey s)
         else if h = eAwsCodeVerifyingKey then entry (xCodeVerifyKeyMark s) (uxCodeVerifyKey s)
         else if h = eAwsDeviceCertificate then entry (xDeviceCertificateMark s) 0
         else if h = eAwsJitpCertificate then entry (xJitpCertificateMark s) 0
         else if h = eAwsRootCertificate then entry (xRootCertificateMark s) 0
         else None)"

definition label_handle :: "bytes \<Rightarrow> pal_handle" where
  "label_handle t =
     (if t = ascii ''tls_key_priv'' then eAwsDevicePrivateKey
      else if t = ascii ''tls_key_pub'' then eAwsDevicePublicKey
      else if t = ascii ''ota_signer_pub'' then eAwsCodeVerifyingKey
      else if t = ascii ''tls_cert'' then eAwsDeviceCertificate
      else if t = ascii ''JITP Cert'' then eAwsJitpCertificate
      else if t = ascii ''root_ca_cert'' then eAwsRootCertificate
      else eInvalidHandle)"

definition is_key :: "pal_handle \<Rightarrow> bool" where
  "is_key h = (h = eAwsDevicePrivateKey \<or> h = eAwsDevicePublicKey \<or> h = eAwsCodeVerifyingKey)"

definition object_class :: "pal_handle \<Rightarrow> CK_OBJECT_CLASS" where
  "object_class h = (if h = eAwsDevicePrivateKey then CKO_PRIVATE_KEY
     else if is_key h then CKO_PUBLIC_KEY else CKO_CERTIFICATE)"

text \<open>Where the secure side keeps an object: the identifier of a persistent key, the certificate's UID.\<close>

definition key_id :: "pal_handle \<Rightarrow> u32 option" where
  "key_id h = (if h = eAwsDevicePrivateKey then Some PSA_DEVICE_PRIVATE_KEY_ID
     else if h = eAwsDevicePublicKey then Some PSA_DEVICE_PUBLIC_KEY_ID else None)"

definition certificate_uid :: "pal_handle \<Rightarrow> nat" where
  "certificate_uid h = (if h = eAwsDeviceCertificate then PSA_DEVICE_CERTIFICATE_UID
     else if h = eAwsJitpCertificate then PSA_JITP_CERTIFICATE_UID else PSA_ROOT_CERTIFICATE_UID)"

lemma c_str_labels:
  "c_str LABEL_DEVICE_PRIVATE_KEY_FOR_TLS = ascii ''tls_key_priv''"
  "c_str LABEL_DEVICE_PUBLIC_KEY_FOR_TLS = ascii ''tls_key_pub''"
  "c_str LABEL_CODE_VERIFICATION_KEY = ascii ''ota_signer_pub''"
  "c_str LABEL_DEVICE_CERTIFICATE_FOR_TLS = ascii ''tls_cert''"
  "c_str LABEL_JITP_CERTIFICATE = ascii ''JITP Cert''"
  "c_str LABEL_ROOT_CERTIFICATE = ascii ''root_ca_cert''"
  by (simp_all add: label_defs c_str_c_literal)

lemma terminated_labels:
  "terminated LABEL_DEVICE_PRIVATE_KEY_FOR_TLS" "terminated LABEL_DEVICE_PUBLIC_KEY_FOR_TLS"
  "terminated LABEL_CODE_VERIFICATION_KEY" "terminated LABEL_DEVICE_CERTIFICATE_FOR_TLS"
  "terminated LABEL_JITP_CERTIFICATE" "terminated LABEL_ROOT_CERTIFICATE"
  by (simp_all add: label_defs)

text \<open>Which label a C string is decides every \<open>strcmp\<close> with the six.\<close>

lemma strcmp_labels:
  assumes "terminated label"
  shows "strcmp_eq label LABEL_DEVICE_PRIVATE_KEY_FOR_TLS = Some (label_handle (c_str label) = eAwsDevicePrivateKey)"
    and "strcmp_eq label LABEL_DEVICE_PUBLIC_KEY_FOR_TLS = Some (label_handle (c_str label) = eAwsDevicePublicKey)"
    and "strcmp_eq label LABEL_CODE_VERIFICATION_KEY = Some (label_handle (c_str label) = eAwsCodeVerifyingKey)"
    and "strcmp_eq label LABEL_DEVICE_CERTIFICATE_FOR_TLS = Some (label_handle (c_str label) = eAwsDeviceCertificate)"
    and "strcmp_eq label LABEL_JITP_CERTIFICATE = Some (label_handle (c_str label) = eAwsJitpCertificate)"
    and "strcmp_eq label LABEL_ROOT_CERTIFICATE = Some (label_handle (c_str label) = eAwsRootCertificate)"
  using assms
  by (simp_all add: strcmp_eq_terminated terminated_labels c_str_labels label_handle_def pal_handle_defs ascii_def)

lemma label_handle_le: "label_handle t \<le> 6"
  by (simp add: label_handle_def pal_handle_defs)

lemma stored_0: "stored s eInvalidHandle = None"
  by (simp add: stored_def pal_handle_defs)

lemma stored_record:
  "stored (s\<lparr>uxDevicePrivateKey := k, xDevicePrivateKeyMark := True\<rparr>) = (stored s)(eAwsDevicePrivateKey \<mapsto> k)"
  "stored (s\<lparr>uxDevicePublicKey := k, xDevicePublicKeyMark := True\<rparr>) = (stored s)(eAwsDevicePublicKey \<mapsto> k)"
  "stored (s\<lparr>uxCodeVerifyKey := k, xCodeVerifyKeyMark := True\<rparr>) = (stored s)(eAwsCodeVerifyingKey \<mapsto> k)"
  "stored (s\<lparr>xDeviceCertificateMark := True\<rparr>) = (stored s)(eAwsDeviceCertificate \<mapsto> 0)"
  "stored (s\<lparr>xJitpCertificateMark := True\<rparr>) = (stored s)(eAwsJitpCertificate \<mapsto> 0)"
  "stored (s\<lparr>xRootCertificateMark := True\<rparr>) = (stored s)(eAwsRootCertificate \<mapsto> 0)"
  by (rule ext, simp add: stored_def pal_handle_defs)+

lemma stored_forget:
  "stored (s\<lparr>uxDevicePrivateKey := k, xDevicePrivateKeyMark := False\<rparr>) = (stored s)(eAwsDevicePrivateKey := None)"
  "stored (s\<lparr>uxDevicePublicKey := k, xDevicePublicKeyMark := False\<rparr>) = (stored s)(eAwsDevicePublicKey := None)"
  "stored (s\<lparr>uxCodeVerifyKey := k, xCodeVerifyKeyMark := False\<rparr>) = (stored s)(eAwsCodeVerifyingKey := None)"
  "stored (s\<lparr>xDeviceCertificateMark := False\<rparr>) = (stored s)(eAwsDeviceCertificate := None)"
  "stored (s\<lparr>xJitpCertificateMark := False\<rparr>) = (stored s)(eAwsJitpCertificate := None)"
  "stored (s\<lparr>xRootCertificateMark := False\<rparr>) = (stored s)(eAwsRootCertificate := None)"
  by (rule ext, simp add: stored_def pal_handle_defs)+

lemma stored_psa: "stored (s\<lparr>psa := w\<rparr>) = stored s"
  by (rule ext) (simp add: stored_def)

lemma handle_cases:
  obtains "label_handle t = eInvalidHandle" | "label_handle t = eAwsDevicePrivateKey"
  | "label_handle t = eAwsDevicePublicKey" | "label_handle t = eAwsCodeVerifyingKey"
  | "label_handle t = eAwsDeviceCertificate" | "label_handle t = eAwsJitpCertificate"
  | "label_handle t = eAwsRootCertificate"
  unfolding label_handle_def by presburger

lemma handle_neq [simp]:
  "eAwsDevicePrivateKey \<noteq> eInvalidHandle" "eAwsDevicePublicKey \<noteq> eInvalidHandle" "eAwsCodeVerifyingKey \<noteq> eInvalidHandle"
  "eAwsDeviceCertificate \<noteq> eInvalidHandle" "eAwsJitpCertificate \<noteq> eInvalidHandle" "eAwsRootCertificate \<noteq> eInvalidHandle"
  "eInvalidHandle \<noteq> eAwsDevicePrivateKey" "eInvalidHandle \<noteq> eAwsDevicePublicKey" "eInvalidHandle \<noteq> eAwsCodeVerifyingKey"
  "eInvalidHandle \<noteq> eAwsDeviceCertificate" "eInvalidHandle \<noteq> eAwsJitpCertificate" "eInvalidHandle \<noteq> eAwsRootCertificate"
  "eAwsDevicePublicKey \<noteq> eAwsDevicePrivateKey" "eAwsCodeVerifyingKey \<noteq> eAwsDevicePrivateKey"
  "eAwsDeviceCertificate \<noteq> eAwsDevicePrivateKey" "eAwsJitpCertificate \<noteq> eAwsDevicePrivateKey"
  "eAwsRootCertificate \<noteq> eAwsDevicePrivateKey" "eAwsDevicePrivateKey \<noteq> eAwsDevicePublicKey"
  "eAwsCodeVerifyingKey \<noteq> eAwsDevicePublicKey" "eAwsDeviceCertificate \<noteq> eAwsDevicePublicKey"
  "eAwsJitpCertificate \<noteq> eAwsDevicePublicKey" "eAwsRootCertificate \<noteq> eAwsDevicePublicKey"
  "eAwsDevicePrivateKey \<noteq> eAwsCodeVerifyingKey" "eAwsDevicePublicKey \<noteq> eAwsCodeVerifyingKey"
  "eAwsDeviceCertificate \<noteq> eAwsCodeVerifyingKey" "eAwsJitpCertificate \<noteq> eAwsCodeVerifyingKey"
  "eAwsRootCertificate \<noteq> eAwsCodeVerifyingKey" "eAwsDevicePrivateKey \<noteq> eAwsDeviceCertificate"
  "eAwsDevicePublicKey \<noteq> eAwsDeviceCertificate" "eAwsCodeVerifyingKey \<noteq> eAwsDeviceCertificate"
  "eAwsJitpCertificate \<noteq> eAwsDeviceCertificate" "eAwsRootCertificate \<noteq> eAwsDeviceCertificate"
  "eAwsDevicePrivateKey \<noteq> eAwsJitpCertificate" "eAwsDevicePublicKey \<noteq> eAwsJitpCertificate"
  "eAwsCodeVerifyingKey \<noteq> eAwsJitpCertificate" "eAwsDeviceCertificate \<noteq> eAwsJitpCertificate"
  "eAwsRootCertificate \<noteq> eAwsJitpCertificate" "eAwsDevicePrivateKey \<noteq> eAwsRootCertificate"
  "eAwsDevicePublicKey \<noteq> eAwsRootCertificate" "eAwsCodeVerifyingKey \<noteq> eAwsRootCertificate"
  "eAwsDeviceCertificate \<noteq> eAwsRootCertificate" "eAwsJitpCertificate \<noteq> eAwsRootCertificate"
  by (simp_all add: pal_handle_defs)

lemma PKCS11PSAContextImportObject_refines:
  assumes "terminated label"
  shows "\<exists>s'. PKCS11PSAContextImportObject label k s = Some s' \<and> psa s' = psa s \<and>
    stored s' = (if label_handle (c_str label) = eInvalidHandle then stored s
      else (stored s)(label_handle (c_str label) \<mapsto> if is_key (label_handle (c_str label)) then k else 0))"
  unfolding PKCS11PSAContextImportObject_def strcmp_labels [OF assms] Option.bind.simps
  by (rule handle_cases [of "c_str label"]) (simp_all add: is_key_def stored_record)

lemma is_object_label:
  assumes "terminated label"
  shows "is_object cls label CKO_CERTIFICATE LABEL_DEVICE_CERTIFICATE_FOR_TLS =
      Some (cls = CKO_CERTIFICATE \<and> label_handle (c_str label) = eAwsDeviceCertificate)"
    and "is_object cls label CKO_CERTIFICATE LABEL_JITP_CERTIFICATE =
      Some (cls = CKO_CERTIFICATE \<and> label_handle (c_str label) = eAwsJitpCertificate)"
    and "is_object cls label CKO_CERTIFICATE LABEL_ROOT_CERTIFICATE =
      Some (cls = CKO_CERTIFICATE \<and> label_handle (c_str label) = eAwsRootCertificate)"
    and "is_object cls label CKO_PRIVATE_KEY LABEL_DEVICE_PRIVATE_KEY_FOR_TLS =
      Some (cls = CKO_PRIVATE_KEY \<and> label_handle (c_str label) = eAwsDevicePrivateKey)"
    and "is_object cls label CKO_PUBLIC_KEY LABEL_CODE_VERIFICATION_KEY =
      Some (cls = CKO_PUBLIC_KEY \<and> label_handle (c_str label) = eAwsCodeVerifyingKey)"
    and "is_object cls label CKO_PUBLIC_KEY LABEL_DEVICE_PUBLIC_KEY_FOR_TLS =
      Some (cls = CKO_PUBLIC_KEY \<and> label_handle (c_str label) = eAwsDevicePublicKey)"
  by (simp_all add: is_object_def strcmp_labels [OF assms])

text \<open>The key of the object \<open>h\<close> was imported under its identifier and its handle recorded.\<close>

definition key_saved :: "'w psa_env \<Rightarrow> pal_handle \<Rightarrow> 'w p11_store \<Rightarrow> 'w p11_store \<Rightarrow> bool" where
  "key_saved env h s s' = (\<exists>attrs material k. psa_import_key env attrs material (psa s) = (PSA_SUCCESS, k, psa s') \<and>
     ka_id attrs = key_id h \<and> stored s' = (stored s)(h \<mapsto> k))"

lemma save_certificate_refines:
  assumes "save_certificate env uid handle label data s = Some (h, s')" and "terminated label"
    and "label_handle (c_str label) = handle" and "handle \<noteq> eInvalidHandle" and "\<not> is_key handle"
  shows "h = eInvalidHandle \<and> stored s' = stored s \<or>
    h = handle \<and> psa_ps_set env uid data (psa s) = (PSA_SUCCESS, psa s') \<and> stored s' = (stored s)(handle \<mapsto> 0)"
proof -
  obtain st w where p: "psa_ps_set env uid data (psa s) = (st, w)" by fastforce
  from PKCS11PSAContextImportObject_refines [OF assms(2), of pkcs11OBJECT_HANDLE_NA "s\<lparr>psa := w\<rparr>"]
  obtain s1 where "PKCS11PSAContextImportObject label pkcs11OBJECT_HANDLE_NA (s\<lparr>psa := w\<rparr>) = Some s1"
    "psa s1 = w" "stored s1 = (stored s)(handle \<mapsto> 0)" using assms(3-5) by (auto simp: stored_psa)
  with assms(1) p show ?thesis
    by (auto simp: save_certificate_def Let_def stored_psa split: if_splits)
qed

lemma import_and_record_refines:
  assumes "import_and_record env prepared handle label s = Some (h, s')" and "terminated label"
    and "label_handle (c_str label) = handle" and "is_key handle"
    and "\<And>attrs data. prepared = Some (attrs, data) \<Longrightarrow> ka_id attrs = key_id handle"
  shows "h = eInvalidHandle \<and> stored s' = stored s \<or>
    h = handle \<and> key_saved env handle s s'"
proof (cases prepared)
  case None
  with assms(1) show ?thesis by (simp add: import_and_record_def)
next
  case (Some ad)
  obtain attrs data where pr: "prepared = Some (attrs, data)" using Some by (cases ad) simp
  obtain st k w where p: "psa_import_key env attrs data (psa s) = (st, k, w)" by (metis prod_cases3)
  have nz: "handle \<noteq> eInvalidHandle" using assms(4) by (auto simp: is_key_def)
  from PKCS11PSAContextImportObject_refines [OF assms(2), of k "s\<lparr>psa := w\<rparr>"]
  obtain s1 where "PKCS11PSAContextImportObject label k (s\<lparr>psa := w\<rparr>) = Some s1"
    "psa s1 = w" "stored s1 = (stored s)(handle \<mapsto> k)" using assms(3,4) nz by (auto simp: stored_psa)
  with assms(1) pr p assms(5) [OF pr] show ?thesis
    by (auto simp: import_and_record_def key_saved_def Let_def stored_psa split: if_splits)
qed

lemma prepare_private_key_id:
  "prepare_private_key env pk data = Some (Some (attrs, m)) \<Longrightarrow> ka_id attrs = key_id eAwsDevicePrivateKey"
  by (auto simp: prepare_private_key_def Let_def key_id_def split: if_splits rsa_padding.splits option.splits)

lemma prepare_public_key_id:
  "prepare_public_key env kid pk data = Some (Some (attrs, m)) \<Longrightarrow> ka_id attrs = kid"
  by (cases "get_public_key_ECPoint env data (length data)"; cases "the (get_public_key_ECPoint env data (length data))")
    (auto simp: prepare_public_key_def Let_def split: if_splits)

lemma save_key_step:
  assumes "Option.bind prep (\<lambda>p. import_and_record env p handle label s) = Some (h, s')"
    and "\<And>attrs m. prep = Some (Some (attrs, m)) \<Longrightarrow> ka_id attrs = key_id handle"
    and "terminated label" and "label_handle (c_str label) = handle" and "is_key handle"
  shows "h = eInvalidHandle \<and> stored s' = stored s \<or>
    h = handle \<and> key_saved env handle s s'"
  using assms import_and_record_refines [of env _ handle label s h s'] by fastforce

lemma save_private_key:
  assumes "Option.bind (prepare_private_key env pk data) (\<lambda>p. import_and_record env p eAwsDevicePrivateKey label s) = Some (h, s')"
    and "terminated label" and "label_handle (c_str label) = eAwsDevicePrivateKey"
  shows "h = eInvalidHandle \<and> stored s' = stored s \<or>
    h = eAwsDevicePrivateKey \<and> key_saved env eAwsDevicePrivateKey s s'"
  by (rule save_key_step [OF assms(1) _ assms(2,3)]) (auto simp: is_key_def intro: prepare_private_key_id)

lemma save_public_key:
  assumes "Option.bind (prepare_public_key env kid pk data) (\<lambda>p. import_and_record env p handle label s) = Some (h, s')"
    and "terminated label" and "label_handle (c_str label) = handle"
    and "kid = key_id handle" and "handle = eAwsDevicePublicKey \<or> handle = eAwsCodeVerifyingKey"
  shows "h = eInvalidHandle \<and> stored s' = stored s \<or>
    h = handle \<and> key_saved env handle s s'"
  by (rule save_key_step [OF assms(1) _ assms(2,3)])
    (use assms(4,5) in \<open>auto simp: is_key_def dest: prepare_public_key_id\<close>)

lemma save_object:
  assumes "terminated label" and "PKCS11PSASaveObject env cls label data pk s = Some (h, s')"
  shows "h = eInvalidHandle \<and> stored s' = stored s \<or>
    h = label_handle (c_str label) \<and> cls = object_class h \<and> length data \<le> pkcs11OBJECT_MAX_SIZE \<and>
    (if is_key h
     then key_saved env h s s'
     else psa_ps_set env (certificate_uid h) data (psa s) = (PSA_SUCCESS, psa s') \<and>
       stored s' = (stored s)(h \<mapsto> 0))"
proof -
  note cert = save_certificate_refines [of env _ _ label data s h s', OF _ assms(1)]
  note priv = save_private_key [of env pk data label s h s', OF _ assms(1)]
  note pub = save_public_key [of env "Some PSA_DEVICE_PUBLIC_KEY_ID" pk data eAwsDevicePublicKey label s h s', OF _ assms(1)]
  note code = save_public_key [of env None pk data eAwsCodeVerifyingKey label s h s', OF _ assms(1)]
  have kid: "Some PSA_DEVICE_PUBLIC_KEY_ID = key_id eAwsDevicePublicKey" "None = key_id eAwsCodeVerifyingKey"
    by (simp_all add: key_id_def)
  note A = assms(2) [unfolded PKCS11PSASaveObject_def is_object_label [OF assms(1)] Option.bind.simps]
  show ?thesis
  proof (rule handle_cases [of "c_str label"])
    assume "label_handle (c_str label) = eInvalidHandle"
    then show ?thesis using A by (auto split: if_splits)
  next
    assume h: "label_handle (c_str label) = eAwsDevicePrivateKey"
    show ?thesis using A h priv by (auto simp: is_key_def object_class_def simp del: bind_Some_iff split: if_splits)
  next
    assume h: "label_handle (c_str label) = eAwsDevicePublicKey"
    show ?thesis using A h pub [OF _ _ kid(1)] by (auto simp: is_key_def object_class_def simp del: bind_Some_iff split: if_splits)
  next
    assume h: "label_handle (c_str label) = eAwsCodeVerifyingKey"
    show ?thesis using A h code [OF _ _ kid(2)] by (auto simp: is_key_def object_class_def simp del: bind_Some_iff split: if_splits)
  next
    assume h: "label_handle (c_str label) = eAwsDeviceCertificate"
    show ?thesis using A h cert [of PSA_DEVICE_CERTIFICATE_UID eAwsDeviceCertificate]
      by (auto simp: is_key_def object_class_def certificate_uid_def split: if_splits)
  next
    assume h: "label_handle (c_str label) = eAwsJitpCertificate"
    show ?thesis using A h cert [of PSA_JITP_CERTIFICATE_UID eAwsJitpCertificate]
      by (auto simp: is_key_def object_class_def certificate_uid_def split: if_splits)
  next
    assume h: "label_handle (c_str label) = eAwsRootCertificate"
    show ?thesis using A h cert [of PSA_ROOT_CERTIFICATE_UID eAwsRootCertificate]
      by (auto simp: is_key_def object_class_def certificate_uid_def split: if_splits)
  qed
qed


text \<open>
  A label handed over with its length: \<open>n\<close> bytes at \<open>p\<close> are the text \<open>t\<close>, with or without the
  terminator.
\<close>

definition label_arg :: "bytes \<Rightarrow> nat \<Rightarrow> bytes \<Rightarrow> bool" where
  "label_arg p n t = (n \<le> length p \<and> 0 \<notin> set t \<and> (take n p = t \<or> take n p = t @ [0]))"

lemma own_label: "terminated b \<Longrightarrow> label_arg b (length (c_str b) + 1) (c_str b)"
proof -
  assume "terminated b"
  from terminated_split [OF this] obtain r where r: "b = c_str b @ 0 # r" ..
  then have "take (length (c_str b) + 1) b = c_str b @ [0]"
    by (metis One_nat_def add.right_neutral add_Suc_right append.simps(1) append_eq_conv_conj append_Cons append_assoc length_append_singleton)
  moreover have "length (c_str b) + 1 \<le> length b" using terminated_less [OF \<open>terminated b\<close>] by simp
  ultimately show ?thesis using c_str_no_zero [of b] by (simp add: label_arg_def)
qed

lemma label_arg_memcmp:
  assumes "label_arg p n t" and "terminated b"
  shows "memcmp_eq p b n = Some (take n p = take n b)"
proof (rule memcmp_eq_label)
  from assms(1) show "n \<le> length p" by (simp add: label_arg_def)
  then have "take (n - 1) p = butlast (take n p)" by (simp add: butlast_take)
  with assms(1) show "0 \<notin> set (take (n - 1) p)"
    by (auto simp: label_arg_def dest: in_set_butlastD)
qed (fact assms(2))

text \<open>No label is a proper prefix of another.\<close>

definition labels :: "bytes list" where
  "labels = [ascii ''tls_key_priv'', ascii ''tls_key_pub'', ascii ''ota_signer_pub'', ascii ''tls_cert'',
     ascii ''JITP Cert'', ascii ''root_ca_cert'']"

lemma labels_prefix_free:
  "\<forall>t \<in> set labels. \<forall>u \<in> set labels. take (length t) (u @ [0]) = t \<longrightarrow> t = u"
  by code_simp

lemma label_handle_labels: "(label_handle t \<noteq> eInvalidHandle) = (t \<in> set labels)"
  by (simp add: label_handle_def labels_def)

lemma label_arg_literal:
  assumes "label_arg p n t" and "t \<in> set labels" and "u \<in> set labels" and "L = u @ [0]" and "0 \<notin> set u"
  shows "memcmp_eq p L n = Some (t = u)"
proof -
  have m: "memcmp_eq p L n = Some (take n p = take n L)"
    using label_arg_memcmp [OF assms(1)] assms(4) by (simp add: terminated_def)
  consider "n = length t" "take n p = t" | "n = Suc (length t)" "take n p = t @ [0]"
    using assms(1) unfolding label_arg_def by (metis length_append_singleton length_take min.absorb2)
  then show ?thesis
  proof cases
    case 1
    then have "(take n p = take n L) = (t = u)"
      using labels_prefix_free assms(2-4) by (metis append_eq_conv_conj)
    with m show ?thesis by simp
  next
    case 2
    have "(t @ [0] = take (Suc (length t)) (u @ [0])) = (t = u)"
    proof
      assume e: "t @ [0] = take (Suc (length t)) (u @ [0])"
      then obtain r where r: "u @ [0] = (t @ [0]) @ r" by (metis append_take_drop_id)
      show "t = u"
      proof (cases r rule: rev_cases)
        case Nil
        with r show ?thesis by simp
      next
        case (snoc q x)
        with r have "u = t @ [0] @ q" by simp
        with assms(5) show ?thesis by simp
      qed
    qed simp
    with 2 m assms(4) show ?thesis by simp
  qed
qed

lemma memcmp_labels:
  assumes "label_arg p n t" and "label_handle t \<noteq> eInvalidHandle"
  shows "memcmp_eq p LABEL_DEVICE_PRIVATE_KEY_FOR_TLS n = Some (label_handle t = eAwsDevicePrivateKey)"
    and "memcmp_eq p LABEL_DEVICE_PUBLIC_KEY_FOR_TLS n = Some (label_handle t = eAwsDevicePublicKey)"
    and "memcmp_eq p LABEL_CODE_VERIFICATION_KEY n = Some (label_handle t = eAwsCodeVerifyingKey)"
    and "memcmp_eq p LABEL_ROOT_CERTIFICATE n = Some (label_handle t = eAwsRootCertificate)"
    and "memcmp_eq p LABEL_JITP_CERTIFICATE n = Some (label_handle t = eAwsJitpCertificate)"
    and "memcmp_eq p LABEL_DEVICE_CERTIFICATE_FOR_TLS n = Some (label_handle t = eAwsDeviceCertificate)"
proof -
  note l = label_arg_literal [OF assms(1) assms(2) [unfolded label_handle_labels]]
  have z: "0 \<notin> set (ascii ''tls_key_priv'')" "0 \<notin> set (ascii ''tls_key_pub'')" "0 \<notin> set (ascii ''ota_signer_pub'')"
    "0 \<notin> set (ascii ''root_ca_cert'')" "0 \<notin> set (ascii ''JITP Cert'')" "0 \<notin> set (ascii ''tls_cert'')"
    by (simp_all add: ascii_def)
  have h: "(t = ascii ''tls_key_priv'') = (label_handle t = eAwsDevicePrivateKey)"
    "(t = ascii ''tls_key_pub'') = (label_handle t = eAwsDevicePublicKey)"
    "(t = ascii ''ota_signer_pub'') = (label_handle t = eAwsCodeVerifyingKey)"
    "(t = ascii ''root_ca_cert'') = (label_handle t = eAwsRootCertificate)"
    "(t = ascii ''JITP Cert'') = (label_handle t = eAwsJitpCertificate)"
    "(t = ascii ''tls_cert'') = (label_handle t = eAwsDeviceCertificate)"
    by (simp_all add: label_handle_def pal_handle_defs ascii_def)
  have m: "ascii ''tls_key_priv'' \<in> set labels" "ascii ''tls_key_pub'' \<in> set labels" "ascii ''ota_signer_pub'' \<in> set labels"
    "ascii ''root_ca_cert'' \<in> set labels" "ascii ''JITP Cert'' \<in> set labels" "ascii ''tls_cert'' \<in> set labels"
    by (simp_all add: labels_def)
  show "memcmp_eq p LABEL_DEVICE_PRIVATE_KEY_FOR_TLS n = Some (label_handle t = eAwsDevicePrivateKey)"
    using l [OF m(1) _ z(1)] h(1) by (simp add: label_defs c_literal_def)
  show "memcmp_eq p LABEL_DEVICE_PUBLIC_KEY_FOR_TLS n = Some (label_handle t = eAwsDevicePublicKey)"
    using l [OF m(2) _ z(2)] h(2) by (simp add: label_defs c_literal_def)
  show "memcmp_eq p LABEL_CODE_VERIFICATION_KEY n = Some (label_handle t = eAwsCodeVerifyingKey)"
    using l [OF m(3) _ z(3)] h(3) by (simp add: label_defs c_literal_def)
  show "memcmp_eq p LABEL_ROOT_CERTIFICATE n = Some (label_handle t = eAwsRootCertificate)"
    using l [OF m(4) _ z(4)] h(4) by (simp add: label_defs c_literal_def)
  show "memcmp_eq p LABEL_JITP_CERTIFICATE n = Some (label_handle t = eAwsJitpCertificate)"
    using l [OF m(5) _ z(5)] h(5) by (simp add: label_defs c_literal_def)
  show "memcmp_eq p LABEL_DEVICE_CERTIFICATE_FOR_TLS n = Some (label_handle t = eAwsDeviceCertificate)"
    using l [OF m(6) _ z(6)] h(6) by (simp add: label_defs c_literal_def)
qed

lemma get_key_handle:
  assumes "label_arg p n t" and "label_handle t \<noteq> eInvalidHandle"
  shows "PKCS11PSAGetKeyHandle p n s = Some
    (case stored s (label_handle t) of
       Some k \<Rightarrow> if is_key (label_handle t) then (CKR_OK, k) else (CKR_ARGUMENTS_BAD, 0)
     | None \<Rightarrow> (CKR_ARGUMENTS_BAD, 0))"
  unfolding PKCS11PSAGetKeyHandle_def memcmp_labels [OF assms] Option.bind.simps
  by (rule handle_cases [of t]) (simp_all add: is_key_def stored_def)

text \<open>
  Looking a label up gives the handle of the key that is stored under it, and an error for a
  key that is absent and for a certificate.
\<close>

theorem PKCS11PSAGetKeyHandle_correct:
  assumes "label_arg p n t" and "label_handle t \<noteq> eInvalidHandle"
  shows "PKCS11PSAGetKeyHandle p n s = Some
    (case stored s (label_handle t) of
       Some k \<Rightarrow> if is_key (label_handle t) then (CKR_OK, k) else (CKR_ARGUMENTS_BAD, 0)
     | None \<Rightarrow> (CKR_ARGUMENTS_BAD, 0))"
  by (rule get_key_handle [OF assms])

text \<open>What the removal asks of the secure side.\<close>

definition removal :: "'w psa_env \<Rightarrow> bool \<Rightarrow> pal_handle \<Rightarrow> u32 \<Rightarrow> 'w \<Rightarrow> int \<times> 'w" where
  "removal env permanent h k w =
     (if is_key h then if permanent then psa_destroy_key env k w else psa_close_key env k w
      else psa_ps_remove env (certificate_uid h) w)"

lemma remove_key_correct:
  assumes "is_key h" and "stored s h = (if mark then Some k else None)"
    and "\<And>w. stored (forget (s\<lparr>psa := w\<rparr>)) = (stored (s\<lparr>psa := w\<rparr>))(h := None)" and "\<And>s. psa (forget s) = psa s"
    and "remove_key env permanent mark k forget s = (rc, s')"
  shows "case stored s h of None \<Rightarrow> rc = CKR_OK \<and> s' = s
    | Some k \<Rightarrow> psa s' = snd (removal env permanent h k (psa s)) \<and>
        (if fst (removal env permanent h k (psa s)) = PSA_SUCCESS
         then rc = CKR_OK \<and> stored s' = (stored s)(h := None)
         else rc = CKR_FUNCTION_FAILED \<and> stored s' = stored s)"
  using assms
  by (auto simp: remove_key_def removal_def Let_def stored_psa split: prod.splits if_splits)

lemma remove_certificate_correct:
  assumes "\<not> is_key h" and "stored s h = (if mark then Some k else None)" and "uid = certificate_uid h"
    and "\<And>w. stored (forget (s\<lparr>psa := w\<rparr>)) = (stored (s\<lparr>psa := w\<rparr>))(h := None)" and "\<And>s. psa (forget s) = psa s"
    and "remove_certificate env mark uid forget s = (rc, s')"
  shows "case stored s h of None \<Rightarrow> rc = CKR_OK \<and> s' = s
    | Some k \<Rightarrow> psa s' = snd (removal env permanent h k (psa s)) \<and>
        (if fst (removal env permanent h k (psa s)) = PSA_SUCCESS
         then rc = CKR_OK \<and> stored s' = (stored s)(h := None)
         else rc = CKR_FUNCTION_FAILED \<and> stored s' = stored s)"
  using assms
  by (auto simp: remove_certificate_def removal_def Let_def stored_psa split: prod.splits if_splits)

lemma remove_object:
  assumes "label_arg p n t" and "label_handle t = h" and "h \<noteq> eInvalidHandle"
  shows "\<exists>rc s'. PKCS11PSARemoveObject env p n permanent s = Some (rc, s') \<and>
    (case stored s h of None \<Rightarrow> rc = CKR_OK \<and> s' = s
     | Some k \<Rightarrow> psa s' = snd (removal env permanent h k (psa s)) \<and>
        (if fst (removal env permanent h k (psa s)) = PSA_SUCCESS
         then rc = CKR_OK \<and> stored s' = (stored s)(h := None)
         else rc = CKR_FUNCTION_FAILED \<and> stored s' = stored s))"
proof -
  have nz: "label_handle t \<noteq> eInvalidHandle" using assms(2,3) by simp
  have "\<exists>rc s'. PKCS11PSARemoveObject env p n permanent s = Some (rc, s')"
    unfolding PKCS11PSARemoveObject_def memcmp_labels [OF assms(1) nz] Option.bind.simps
    by (auto simp: remove_key_def remove_certificate_def Let_def split: prod.split)
  then obtain rc s' where r: "PKCS11PSARemoveObject env p n permanent s = Some (rc, s')" by blast
  note R = r [unfolded PKCS11PSARemoveObject_def memcmp_labels [OF assms(1) nz] Option.bind.simps]
  have "case stored s h of None \<Rightarrow> rc = CKR_OK \<and> s' = s
     | Some k \<Rightarrow> psa s' = snd (removal env permanent h k (psa s)) \<and>
        (if fst (removal env permanent h k (psa s)) = PSA_SUCCESS
         then rc = CKR_OK \<and> stored s' = (stored s)(h := None)
         else rc = CKR_FUNCTION_FAILED \<and> stored s' = stored s)"
  proof (rule handle_cases [of t])
    assume "label_handle t = eInvalidHandle"
    with nz show ?thesis by simp
  next
    assume "label_handle t = eAwsDevicePrivateKey"
    with R assms(2) show ?thesis
      by (intro remove_key_correct [where forget = "\<lambda>s. s\<lparr>uxDevicePrivateKey := 0, xDevicePrivateKeyMark := False\<rparr>"
        and mark = "xDevicePrivateKeyMark s" and k = "uxDevicePrivateKey s"]) (simp_all add: is_key_def stored_def stored_forget)
  next
    assume "label_handle t = eAwsDevicePublicKey"
    with R assms(2) show ?thesis
      by (intro remove_key_correct [where forget = "\<lambda>s. s\<lparr>uxDevicePublicKey := 0, xDevicePublicKeyMark := False\<rparr>"
        and mark = "xDevicePublicKeyMark s" and k = "uxDevicePublicKey s"]) (simp_all add: is_key_def stored_def stored_forget)
  next
    assume "label_handle t = eAwsCodeVerifyingKey"
    with R assms(2) show ?thesis
      by (intro remove_key_correct [where forget = "\<lambda>s. s\<lparr>uxCodeVerifyKey := 0, xCodeVerifyKeyMark := False\<rparr>"
        and mark = "xCodeVerifyKeyMark s" and k = "uxCodeVerifyKey s"]) (simp_all add: is_key_def stored_def stored_forget)
  next
    assume "label_handle t = eAwsDeviceCertificate"
    with R assms(2) show ?thesis
      by (intro remove_certificate_correct [where forget = "\<lambda>s. s\<lparr>xDeviceCertificateMark := False\<rparr>"
        and mark = "xDeviceCertificateMark s" and uid = PSA_DEVICE_CERTIFICATE_UID and k = 0])
        (simp_all add: is_key_def stored_def stored_forget certificate_uid_def)
  next
    assume "label_handle t = eAwsJitpCertificate"
    with R assms(2) show ?thesis
      by (intro remove_certificate_correct [where forget = "\<lambda>s. s\<lparr>xJitpCertificateMark := False\<rparr>"
        and mark = "xJitpCertificateMark s" and uid = PSA_JITP_CERTIFICATE_UID and k = 0])
        (simp_all add: is_key_def stored_def stored_forget certificate_uid_def)
  next
    assume "label_handle t = eAwsRootCertificate"
    with R assms(2) show ?thesis
      by (intro remove_certificate_correct [where forget = "\<lambda>s. s\<lparr>xRootCertificateMark := False\<rparr>"
        and mark = "xRootCertificateMark s" and uid = PSA_ROOT_CERTIFICATE_UID and k = 0])
        (simp_all add: is_key_def stored_def stored_forget certificate_uid_def)
  qed
  with r show ?thesis by blast
qed

text \<open>
  Removing the object of a label that is absent does nothing; otherwise the secure side is
  asked once, for that object, and exactly when it agrees the object is forgotten. No other object
  changes.
\<close>

theorem PKCS11PSARemoveObject_refines:
  assumes "label_arg p n t" and "label_handle t = h" and "h \<noteq> eInvalidHandle"
  shows "\<exists>rc s'. PKCS11PSARemoveObject env p n permanent s = Some (rc, s') \<and>
    (case stored s h of None \<Rightarrow> rc = CKR_OK \<and> s' = s
     | Some k \<Rightarrow> psa s' = snd (removal env permanent h k (psa s)) \<and>
        (if fst (removal env permanent h k (psa s)) = PSA_SUCCESS
         then rc = CKR_OK \<and> stored s' = (stored s)(h := None)
         else rc = CKR_FUNCTION_FAILED \<and> stored s' = stored s))"
  by (rule remove_object [OF assms])

subsection \<open>Protected storage\<close>

text \<open>
  What PSA Protected Storage promises: a set that succeeds makes the data the content of its UID and
  changes no other, and what is there can be read with its size.
\<close>

locale protected_storage =
  fixes env :: "'w psa_env" and content :: "'w \<Rightarrow> nat \<Rightarrow> bytes option"
  assumes set_content: "psa_ps_set env u d w = (PSA_SUCCESS, w') \<Longrightarrow> content w' = (content w)(u \<mapsto> d)"
    and info_content: "content w u = Some d \<Longrightarrow> psa_ps_get_info env u w = (PSA_SUCCESS, length d)"
    and get_content: "content w u = Some d \<Longrightarrow> psa_ps_get env u 0 (length d) w = (PSA_SUCCESS, d)"
begin

text \<open>The value of a certificate is what the conversion makes of the stored bytes.\<close>

lemma certificate_value:
  assumes "content w u = Some d" and "heap_has env (length d) w"
  shows "PSAGetCertificateValue env u out w = do {
    (lRet, buf, n) \<leftarrow> convert_pem_to_der (mbedtls_base64_decode env) d (pucData out) (pulDataSize out);
    if lRet \<noteq> 0
    then do {
      buf \<leftarrow> write_at buf 0 d;
      Some (CKR_OK, out\<lparr>pucData := buf, pulDataSize := length d, pIsPrivate := False\<rparr>) }
    else Some (CKR_OK, out\<lparr>pucData := buf, pulDataSize := n, pIsPrivate := False\<rparr>) }"
  unfolding PSAGetCertificateValue_def info_content [OF assms(1)] Let_def case_prod_conv get_content [OF assms(1)]
  using assms(2) by simp

lemma saved_certificate:
  assumes "terminated label" and "PKCS11PSASaveObject env cls label data pk s = Some (h, s')"
    and "h \<noteq> eInvalidHandle" and "\<not> is_key h"
  shows "content (psa s') (certificate_uid h) = Some data" and "stored s' h = Some 0"
    and "h \<in> {eAwsDeviceCertificate, eAwsJitpCertificate, eAwsRootCertificate}"
proof -
  from save_object [OF assms(1,2)] assms(3,4)
  have *: "h = label_handle (c_str label)" "psa_ps_set env (certificate_uid h) data (psa s) = (PSA_SUCCESS, psa s')"
    "stored s' = (stored s)(h \<mapsto> 0)" by auto
  from set_content [OF *(2)] show "content (psa s') (certificate_uid h) = Some data" by simp
  from *(3) show "stored s' h = Some 0" by simp
  show "h \<in> {eAwsDeviceCertificate, eAwsJitpCertificate, eAwsRootCertificate}"
    using assms(3,4) unfolding *(1) by (rule_tac handle_cases [of "c_str label"]) (auto simp: is_key_def)
qed

lemma certificate_read:
  assumes "stored s h = Some 0" and "h \<in> {eAwsDeviceCertificate, eAwsJitpCertificate, eAwsRootCertificate}"
  shows "PKCS11PSAGetObjectValue env h out s = PSAGetCertificateValue env (certificate_uid h) out (psa s)"
  using assms by (auto simp: PKCS11PSAGetObjectValue_def stored_def certificate_uid_def split: if_splits)

end

text \<open>
  A secure side that meets the laws: storage and keys are maps; the base64 decoder is the identity.
\<close>

definition reference_psa :: "((nat \<rightharpoonup> bytes) \<times> (u32 \<rightharpoonup> bytes)) psa_env" where
  "reference_psa = \<lparr>
     psa_ps_set = (\<lambda>u d w. (PSA_SUCCESS, (fst w)(u \<mapsto> d), snd w)),
     psa_ps_get_info = (\<lambda>u w. case fst w u of Some d \<Rightarrow> (PSA_SUCCESS, length d) | None \<Rightarrow> (PSA_ERROR_GENERIC_ERROR, 0)),
     psa_ps_get = (\<lambda>u ofs n w. case fst w u of Some d \<Rightarrow> (PSA_SUCCESS, take n (drop ofs d)) | None \<Rightarrow> (PSA_ERROR_GENERIC_ERROR, [])),
     psa_ps_remove = (\<lambda>u w. if fst w u = None then (PSA_ERROR_GENERIC_ERROR, w) else (PSA_SUCCESS, (fst w)(u := None), snd w)),
     psa_import_key = (\<lambda>attrs d w. let k = (case ka_id attrs of Some k \<Rightarrow> k | None \<Rightarrow> 0x100)
       in (PSA_SUCCESS, k, (fst w, (snd w)(k \<mapsto> d)))),
     psa_get_key_attributes = (\<lambda>k w. case snd w k of Some d \<Rightarrow> (PSA_SUCCESS, 0x7112, 8 * length d) | None \<Rightarrow> (PSA_ERROR_GENERIC_ERROR, 0, 0)),
     psa_export_key = (\<lambda>k n w. (PSA_ERROR_NOT_PERMITTED, [])),
     PSA_EXPORT_KEY_OUTPUT_SIZE = (\<lambda>t n. n div 8),
     psa_destroy_key = (\<lambda>k w. (PSA_SUCCESS, fst w, (snd w)(k := None))),
     psa_close_key = (\<lambda>k w. (PSA_SUCCESS, w)),
     heap_has = (\<lambda>n w. True),
     mbedtls_base64_decode = (\<lambda>n src. if n = 0 then (-42, length src, []) else (0, length src, src)),
     mbedtls_ecp_curve_info_from_grp_id = Some,
     mbedtls_asn1_get_tag = (\<lambda>b p n. None),
     mbedtls_asn1_get_alg = (\<lambda>b p n. None),
     mbedtls_oid_get_pk_alg = (\<lambda>b. None),
     mbedtls_asn1_get_bitstring_null = (\<lambda>b p n. None) \<rparr>"

interpretation reference_storage: protected_storage reference_psa fst
  by unfold_locales (auto simp: reference_psa_def)

text \<open>
  A certificate that was saved in PEM is read back, under the handle the save gave, as the DER document
  in it, with its length, and as not private.
\<close>

lemma PKCS11PSA_certificate_roundtrip:
  assumes "protected_storage env content" and "terminated label"
    and "PKCS11PSASaveObject env cls label (pem l eol body rest) pk s = Some (h, s')"
    and "h \<noteq> eInvalidHandle" and "\<not> is_key h" and "heap_has env (length (pem l eol body rest)) (psa s')"
    and "plain l" and "plain body" and "body \<noteq> []" and "eol \<in> {[10], [13, 10]}" and "terminated rest"
    and "mbedtls_base64_decode env 0 body = (e, length d, [])" and "e \<noteq> MBEDTLS_ERR_BASE64_INVALID_CHARACTER"
    and "mbedtls_base64_decode env (length d) body = (0, length d, d)"
    and "length d \<le> pulDataSize out" and "pulDataSize out \<le> length (pucData out)"
  shows "PKCS11PSAGetObjectValue env h out s' = Some (CKR_OK,
    out\<lparr>pucData := d @ drop (length d) (pucData out), pulDataSize := length d, pIsPrivate := False\<rparr>)"
proof -
  note saved = protected_storage.saved_certificate [OF assms(1-5)]
  have "convert_pem_to_der (mbedtls_base64_decode env) (pem l eol body rest) (pucData out) (pulDataSize out) =
      Some (0, d @ drop (length d) (pucData out), length d)"
    using assms(12-16) by (simp add: convert_pem [OF assms(7-11)] write_at_def)
  then show ?thesis
    unfolding protected_storage.certificate_read [OF assms(1) saved(2,3)]
      protected_storage.certificate_value [OF assms(1) saved(1) assms(6)] by simp
qed

definition no_objects :: "'w \<Rightarrow> 'w p11_store" where
  "no_objects w = \<lparr>uxDevicePrivateKey = 0, uxDevicePublicKey = 0, uxCodeVerifyKey = 0,
     xDeviceCertificateMark = False, xDevicePrivateKeyMark = False, xDevicePublicKeyMark = False,
     xCodeVerifyKeyMark = False, xJitpCertificateMark = False, xRootCertificateMark = False, psa = w\<rparr>"

definition demo_key :: pk_context where
  "demo_key = \<lparr>pk_type = MBEDTLS_PK_ECKEY, pk_padding = MBEDTLS_RSA_OTHER, pk_curve = MBEDTLS_ECP_DP_SECP256R1,
     pk_nbits = 256, pk_secret = (\<lambda>n. Some (replicate n 7))\<rparr>"

definition demo_pem :: bytes where
  "demo_pem = pem (ascii '' C'') [10] (ascii ''MII='') (ascii '' C-----'' @ [0])"

definition demo_saved :: "((nat \<rightharpoonup> bytes) \<times> (u32 \<rightharpoonup> bytes)) p11_store" where
  "demo_saved = (no_objects ([5 \<mapsto> demo_pem], Map.empty))\<lparr>xDeviceCertificateMark := True\<rparr>"

lemma demo_save:
  "PKCS11PSASaveObject reference_psa CKO_CERTIFICATE LABEL_DEVICE_CERTIFICATE_FOR_TLS demo_pem pk
     (no_objects (Map.empty, Map.empty)) = Some (eAwsDeviceCertificate, demo_saved)"
proof -
  have l: "length demo_pem \<le> pkcs11OBJECT_MAX_SIZE"
    by (simp add: demo_pem_def pem_def pkcs11OBJECT_MAX_SIZE_def)
  have h: "label_handle (c_str LABEL_DEVICE_CERTIFICATE_FOR_TLS) = eAwsDeviceCertificate"
    unfolding c_str_labels by (simp add: label_handle_def ascii_def)
  show ?thesis
    using l h terminated_labels(4)
    by (simp add: PKCS11PSASaveObject_def is_object_label save_certificate_def reference_psa_def
      PKCS11PSAContextImportObject_def strcmp_labels demo_saved_def no_objects_def PSA_DEVICE_CERTIFICATE_UID_def)
qed

lemma demo_certificate_read:
  "PKCS11PSAGetObjectValue reference_psa eAwsDeviceCertificate
     \<lparr>pucData = [1, 2, 3, 4, 5], pulDataSize = 5, pIsPrivate = True\<rparr> demo_saved =
   Some (CKR_OK, \<lparr>pucData = ascii ''MII='' @ [5], pulDataSize = 4, pIsPrivate = False\<rparr>)"
  using PKCS11PSA_certificate_roundtrip [OF reference_storage.protected_storage_axioms terminated_labels(4)
    demo_save [where pk = demo_key, unfolded demo_pem_def], where e = "-42" and d = "ascii ''MII=''" and
    out = "\<lparr>pucData = [1, 2, 3, 4, 5], pulDataSize = 5, pIsPrivate = True\<rparr>"]
  by (simp add: reference_psa_def plain_def ascii_def terminated_def MBEDTLS_ERR_BASE64_INVALID_CHARACTER_def is_key_def)

subsection \<open>Examples\<close>

definition demo_with_key :: "((nat \<rightharpoonup> bytes) \<times> (u32 \<rightharpoonup> bytes)) p11_store" where
  "demo_with_key = (no_objects (Map.empty, [1 \<mapsto> replicate 32 7]))\<lparr>uxDevicePrivateKey := 1, xDevicePrivateKeyMark := True\<rparr>"

lemma demo_label_handle:
  "label_handle (ascii ''tls_key_priv'') = eAwsDevicePrivateKey"
  by (simp add: label_handle_def)

lemma demo_save_key:
  "PKCS11PSASaveObject reference_psa CKO_PRIVATE_KEY LABEL_DEVICE_PRIVATE_KEY_FOR_TLS [1, 2, 3] demo_key
     (no_objects (Map.empty, Map.empty)) = Some (eAwsDevicePrivateKey, demo_with_key)"
proof -
  have h: "label_handle (c_str LABEL_DEVICE_PRIVATE_KEY_FOR_TLS) = eAwsDevicePrivateKey"
    unfolding c_str_labels by (rule demo_label_handle)
  have d: "replicate 32 (7::8 word) @ replicate 8 0 = replicate 32 7 @ drop 32 (replicate 40 0)" by simp
  show ?thesis
    using h terminated_labels(1)
    by (simp add: PKCS11PSASaveObject_def is_object_label import_and_record_def prepare_private_key_def
      demo_key_def reference_psa_def write_at_def read_at_def EC_PRIVATE_KEY_MAX_LENGTH_def
      pkcs11OBJECT_MAX_SIZE_def PSA_DEVICE_PRIVATE_KEY_ID_def
      PKCS11PSAContextImportObject_def strcmp_labels demo_with_key_def no_objects_def)
qed

lemma demo_stored: "stored demo_with_key eAwsDevicePrivateKey = Some 1"
  by (simp add: stored_def demo_with_key_def no_objects_def)


lemma demo_label_arg: "label_arg (ascii ''tls_key_priv'') 12 (ascii ''tls_key_priv'')"
  by (simp add: label_arg_def ascii_def)

theorem PKCS11PSAGetKeyHandle_correct_witness:
  "PKCS11PSAGetKeyHandle (ascii ''tls_key_priv'') 12 demo_with_key = Some (CKR_OK, 1)"
  using PKCS11PSAGetKeyHandle_correct [OF demo_label_arg, of demo_with_key]
  by (simp add: demo_label_handle demo_stored is_key_def)

theorem PKCS11PSARemoveObject_refines_witness:
  "\<exists>s'. PKCS11PSARemoveObject reference_psa (ascii ''tls_key_priv'') 12 True demo_with_key = Some (CKR_OK, s') \<and>
     stored s' eAwsDevicePrivateKey = None"
proof -
  from PKCS11PSARemoveObject_refines [OF demo_label_arg demo_label_handle, of reference_psa True demo_with_key]
  obtain rc s' where r: "PKCS11PSARemoveObject reference_psa (ascii ''tls_key_priv'') 12 True demo_with_key = Some (rc, s')"
    and "if fst (removal reference_psa True eAwsDevicePrivateKey 1 (psa demo_with_key)) = PSA_SUCCESS
      then rc = CKR_OK \<and> stored s' = (stored demo_with_key)(eAwsDevicePrivateKey := None)
      else rc = CKR_FUNCTION_FAILED \<and> stored s' = stored demo_with_key" by (auto simp: demo_stored)
  moreover have "fst (removal reference_psa True eAwsDevicePrivateKey 1 (psa demo_with_key)) = PSA_SUCCESS"
    by (simp add: removal_def is_key_def reference_psa_def)
  ultimately show ?thesis by auto
qed

text \<open>
  A private key of more than 320 bits (the curves P-384 and P-521 among those the code lists) does
  not fit in the buffer of 40 bytes on the stack.
\<close>

lemma prepare_private_key_overflow:
  assumes "pk_type pk = MBEDTLS_PK_ECKEY" and "320 < pk_nbits pk"
    and "pk_secret pk ((pk_nbits pk + 7) div 8) = Some d" and "length d = (pk_nbits pk + 7) div 8"
  shows "prepare_private_key env pk data = None"
proof -
  have "write_at (replicate EC_PRIVATE_KEY_MAX_LENGTH 0) 0 d = None"
    using assms(2,4) by (simp add: write_at_def EC_PRIVATE_KEY_MAX_LENGTH_def)
  then show ?thesis
    unfolding prepare_private_key_def Let_def using assms(1,3)
    by (cases "mbedtls_ecp_curve_info_from_grp_id env (pk_curve pk)") (simp_all del: write_at_Some)
qed

text \<open>A key that is not on an elliptic curve passes without a point.\<close>

lemma get_public_key_ECPoint_no_point:
  assumes "get_public_key_ECPoint env key n = Some r" and "r \<noteq> None"
    and "mbedtls_asn1_get_tag env key 0 n = Some (p, l)" and "pk_get_pk_alg env key p (p + l) = Some (q, alg)"
  shows "alg = MBEDTLS_PK_ECKEY_DH \<or> alg = MBEDTLS_PK_ECKEY"
  using assms by (auto simp: get_public_key_ECPoint_def Let_def split: if_splits)

text \<open>
  A certificate that is larger than the caller's buffer and not in PEM is copied without a check of
  the size.
\<close>

lemma certificate_overflow:
  assumes "psa_ps_get_info env u w = (PSA_SUCCESS, length d)" and "psa_ps_get env u 0 (length d) w = (PSA_SUCCESS, d)"
    and "heap_has env (length d) w" and "terminated d" and "first_at (c_str d) (ascii ''-----BEGIN'') = None"
    and "length (pucData out) < length d"
  shows "PSAGetCertificateValue env u out w = None"
proof -
  have "write_at (pucData out) 0 d = None" using assms(6) by (simp add: write_at_def)
  then show ?thesis
    unfolding PSAGetCertificateValue_def assms(1) Let_def case_prod_conv assms(2)
      convert_pem_to_der_no_pem [OF assms(4,5)] Option.bind.simps using assms(3) by (simp del: write_at_Some)
qed

end
