(* ===== verification/P11List.thy ===== *)
theory P11List
  imports P11Objects Rtos
begin

text \<open>
  The list of objects of the PKCS#11 module (iot_pkcs11_psa.c): it gives the objects of the PAL the
  small handles the application uses. The functions that add, find and delete, and the map from
  handles to objects they implement.
\<close>

subsection \<open>State\<close>

definition pkcs11configMAX_NUM_OBJECTS :: nat where "pkcs11configMAX_NUM_OBJECTS = 6"
definition pkcs11configMAX_LABEL_LENGTH :: nat where "pkcs11configMAX_LABEL_LENGTH = 32"
definition CK_INVALID_HANDLE :: nat where "CK_INVALID_HANDLE = 0"

lemma invalid_handles: "CK_INVALID_HANDLE = eInvalidHandle"
  by (simp add: CK_INVALID_HANDLE_def eInvalidHandle_def)

text \<open>\<open>P11Object_t\<close>: a PAL handle and a label of \<open>pkcs11configMAX_LABEL_LENGTH + 1\<close> bytes.\<close>

record p11_object =
  xHandle :: nat
  xLabel :: bytes

definition no_object :: p11_object where
  "no_object = \<lparr>xHandle = 0, xLabel = replicate (pkcs11configMAX_LABEL_LENGTH + 1) 0\<rparr>"

text \<open>\<open>xP11Context\<close>, with the mutex of the object list.\<close>

record p11_context =
  xIsInitialized :: bool
  xMutex :: mutex
  xObjects :: "p11_object list"

definition zero_context :: p11_context where
  "zero_context = \<lparr>xIsInitialized = False, xMutex = Absent, xObjects = replicate pkcs11configMAX_NUM_OBJECTS no_object\<rparr>"

subsection \<open>Operations\<close>

text \<open>
  The search from the end for the object and for a free place, with \<open>i\<close> turns to go: the index
  where the object is, and the last free place seen.
\<close>

fun search_slot :: "p11_object list \<Rightarrow> nat \<Rightarrow> nat \<Rightarrow> nat option \<Rightarrow> nat option \<times> nat option" where
  "search_slot os xPalHandle 0 slot = (None, slot)"
| "search_slot os xPalHandle (Suc i) slot =
     (if xHandle (os ! i) = xPalHandle then (Some i, slot)
      else if xHandle (os ! i) = CK_INVALID_HANDLE then search_slot os xPalHandle i (Some i)
      else search_slot os xPalHandle i slot)"

text \<open>
  The result is the return code, what is stored at \<open>pxAppHandle\<close> (nothing on an error) and the new
  state. Waiting for the mutex has no limit, so it is got.
\<close>

definition prvAddObjectToList ::
  "pal_handle \<Rightarrow> bytes \<Rightarrow> nat \<Rightarrow> p11_context \<Rightarrow> (CK_RV \<times> u32 option \<times> p11_context) option" where
  "prvAddObjectToList xPalHandle pcLabel xLabelLength c = do {
     m \<leftarrow> xSemaphoreTake (xMutex c);
     let c = c\<lparr>xMutex := m\<rparr>;
     (xResult, app, c) \<leftarrow>
       (case search_slot (xObjects c) xPalHandle pkcs11configMAX_NUM_OBJECTS None of
          (Some i, _) \<Rightarrow> Some (CKR_OK, Some (of_nat (i + 1)), c)
        | (None, None) \<Rightarrow> Some (CKR_BUFFER_TOO_SMALL, None, c)
        | (None, Some i) \<Rightarrow>
            if xLabelLength < pkcs11configMAX_LABEL_LENGTH
            then do {
              src \<leftarrow> read_at pcLabel 0 xLabelLength;
              label \<leftarrow> write_at (xLabel (xObjects c ! i)) 0 src;
              Some (CKR_OK, Some (of_nat (i + 1)),
                c\<lparr>xObjects := (xObjects c)[i := \<lparr>xHandle = xPalHandle, xLabel = label\<rparr>]\<rparr>) }
            else Some (CKR_DATA_LEN_RANGE, None, c));
     m \<leftarrow> xSemaphoreGive (xMutex c);
     Some (xResult, app, c\<lparr>xMutex := m\<rparr>) }"

text \<open>
  \<open>int lIndex = xAppHandle - 1\<close> is negative for the handle 0 and for handles above \<open>2 ^ 31\<close>; the
  access in front of the array has no meaning. The result is the PAL handle, the label and its
  length with the terminator.
\<close>

definition prvFindObjectInListByHandle :: "u32 \<Rightarrow> p11_context \<Rightarrow> (pal_handle \<times> bytes option \<times> nat) option" where
  "prvFindObjectInListByHandle xAppHandle c =
     (let lIndex = sint (xAppHandle - 1)
      in if lIndex < int pkcs11configMAX_NUM_OBJECTS
         then if lIndex < 0 then None
           else let ob = xObjects c ! nat lIndex
             in if xHandle ob \<noteq> CK_INVALID_HANDLE
                then do {
                  n \<leftarrow> strlen (xLabel ob);
                  Some (xHandle ob, Some (xLabel ob), n + 1) }
                else Some (CK_INVALID_HANDLE, None, 0)
         else Some (CK_INVALID_HANDLE, None, 0))"

fun find_label :: "p11_object list \<Rightarrow> bytes \<Rightarrow> nat \<Rightarrow> nat option option" where
  "find_label [] pcLabel n = Some None"
| "find_label (ob # os) pcLabel n = do {
     eq \<leftarrow> mem_eq pcLabel (xLabel ob) n;
     if eq then Some (Some 0)
     else do {
       r \<leftarrow> find_label os pcLabel n;
       Some (map_option Suc r) } }"

text \<open>The PAL handle and the application's handle, both 0 when there is no such label.\<close>

definition prvFindObjectInListByLabel :: "bytes \<Rightarrow> nat \<Rightarrow> p11_context \<Rightarrow> (pal_handle \<times> u32) option" where
  "prvFindObjectInListByLabel pcLabel xLabelLength c = do {
     r \<leftarrow> find_label (xObjects c) pcLabel xLabelLength;
     Some (case r of None \<Rightarrow> (CK_INVALID_HANDLE, 0)
       | Some i \<Rightarrow> (xHandle (xObjects c ! i), of_nat (i + 1))) }"

text \<open>
  As written: a handle that is too large ends in the branch of the semaphore that was not got.
\<close>

definition prvDeleteObjectFromList :: "u32 \<Rightarrow> p11_context \<Rightarrow> (CK_RV \<times> p11_context) option" where
  "prvDeleteObjectFromList xAppHandle c =
     (let lIndex = sint (xAppHandle - 1)
      in if int pkcs11configMAX_NUM_OBJECTS \<le> lIndex then Some (CKR_CANT_LOCK, c)
         else do {
           m \<leftarrow> xSemaphoreTake (xMutex c);
           let c = c\<lparr>xMutex := m\<rparr>;
           (xResult, c) \<leftarrow>
             (if lIndex < 0 then None
              else if xHandle (xObjects c ! nat lIndex) \<noteq> CK_INVALID_HANDLE
              then Some (CKR_OK, c\<lparr>xObjects := (xObjects c)[nat lIndex := no_object]\<rparr>)
              else Some (CKR_OBJECT_HANDLE_INVALID, c));
           m \<leftarrow> xSemaphoreGive (xMutex c);
           Some (xResult, c\<lparr>xMutex := m\<rparr>) })"

subsection \<open>The list as a map\<close>

definition object_wf :: "p11_object \<Rightarrow> bool" where
  "object_wf ob = (length (xLabel ob) = pkcs11configMAX_LABEL_LENGTH + 1 \<and>
     xLabel ob ! pkcs11configMAX_LABEL_LENGTH = 0 \<and> (xHandle ob = CK_INVALID_HANDLE \<longrightarrow> ob = no_object))"

definition list_inv :: "p11_context \<Rightarrow> bool" where
  "list_inv c = (length (xObjects c) = pkcs11configMAX_NUM_OBJECTS \<and> (\<forall>ob \<in> set (xObjects c). object_wf ob) \<and>
     (\<forall>i < pkcs11configMAX_NUM_OBJECTS. \<forall>j < pkcs11configMAX_NUM_OBJECTS.
        xHandle (xObjects c ! i) = xHandle (xObjects c ! j) \<longrightarrow> xHandle (xObjects c ! i) \<noteq> CK_INVALID_HANDLE \<longrightarrow> i = j) \<and>
     xMutex c = Free)"

text \<open>The object with the application's handle \<open>i + 1\<close>: its PAL handle and its label.\<close>

definition entries :: "p11_context \<Rightarrow> nat \<Rightarrow> (pal_handle \<times> bytes) option" where
  "entries c i = (if i < length (xObjects c) \<and> xHandle (xObjects c ! i) \<noteq> CK_INVALID_HANDLE
     then Some (xHandle (xObjects c ! i), c_str (xLabel (xObjects c ! i))) else None)"

lemma search_slot_found:
  "search_slot os h n slot = (Some i, r) \<Longrightarrow> i < n \<and> xHandle (os ! i) = h"
  by (induction os h n slot rule: search_slot.induct) (auto split: if_splits)

lemma search_slot_absent:
  "search_slot os h n slot = (None, r) \<Longrightarrow> i < n \<Longrightarrow> xHandle (os ! i) \<noteq> h"
proof (induction n arbitrary: slot)
  case (Suc n)
  then show ?case by (auto split: if_splits elim!: less_SucE)
qed simp

lemma search_slot_free:
  "search_slot os h n slot = (None, Some i) \<Longrightarrow> slot = Some i \<or> i < n \<and> xHandle (os ! i) = CK_INVALID_HANDLE"
  by (induction os h n slot rule: search_slot.induct) (auto split: if_splits)

lemma search_slot_full:
  "search_slot os h n slot = (None, None) \<Longrightarrow> slot = None \<and> (\<forall>i < n. xHandle (os ! i) \<noteq> CK_INVALID_HANDLE)"
proof (induction n arbitrary: slot)
  case (Suc n)
  then show ?case by (auto split: if_splits elim!: less_SucE)
qed simp

lemma no_object_wf: "object_wf no_object"
  by (simp add: object_wf_def no_object_def pkcs11configMAX_LABEL_LENGTH_def CK_INVALID_HANDLE_def)

lemma no_object_handle [simp]: "xHandle no_object = CK_INVALID_HANDLE"
  by (simp add: no_object_def CK_INVALID_HANDLE_def)

lemma object_label_terminated:
  assumes "object_wf ob"
  shows "terminated (xLabel ob)"
proof -
  have "xLabel ob ! pkcs11configMAX_LABEL_LENGTH \<in> set (xLabel ob)"
    using assms by (intro nth_mem) (simp add: object_wf_def)
  with assms show ?thesis by (simp add: object_wf_def terminated_def)
qed

text \<open>Writing a place: the invariant holds again when the handle is nowhere else.\<close>

lemma list_inv_update:
  assumes "list_inv c" and "object_wf ob"
    and "xHandle ob \<noteq> CK_INVALID_HANDLE \<Longrightarrow> \<forall>j < pkcs11configMAX_NUM_OBJECTS. j \<noteq> i \<longrightarrow> xHandle (xObjects c ! j) \<noteq> xHandle ob"
  shows "list_inv (c\<lparr>xMutex := Free, xObjects := (xObjects c)[i := ob]\<rparr>)"
proof -
  from assms(1) have l: "length (xObjects c) = pkcs11configMAX_NUM_OBJECTS" by (simp add: list_inv_def)
  have "\<forall>o' \<in> set ((xObjects c)[i := ob]). object_wf o'"
    using assms(1,2) set_update_subset_insert [of "xObjects c" i ob] by (auto simp: list_inv_def)
  moreover have "a = b" if "a < pkcs11configMAX_NUM_OBJECTS" "b < pkcs11configMAX_NUM_OBJECTS"
    "xHandle ((xObjects c)[i := ob] ! a) = xHandle ((xObjects c)[i := ob] ! b)"
    "xHandle ((xObjects c)[i := ob] ! a) \<noteq> CK_INVALID_HANDLE" for a b
  proof -
    have *: "xHandle ((xObjects c)[i := ob] ! k) = (if k = i then xHandle ob else xHandle (xObjects c ! k))"
      if "k < pkcs11configMAX_NUM_OBJECTS" for k using that l by (simp add: nth_list_update)
    have d: "xHandle (xObjects c ! a) = xHandle (xObjects c ! b) \<Longrightarrow> xHandle (xObjects c ! a) \<noteq> CK_INVALID_HANDLE \<Longrightarrow> a = b"
      using assms(1) that(1,2) by (simp add: list_inv_def)
    show ?thesis
      using that(3,4) d assms(3) that(1,2) unfolding *[OF that(1)] *[OF that(2)] by (metis (full_types))
  qed
  ultimately show ?thesis using l by (simp add: list_inv_def)
qed

lemma entries_update:
  assumes "length (xObjects c) = n" and "i < n"
  shows "entries (c\<lparr>xMutex := m, xObjects := (xObjects c)[i := ob]\<rparr>) =
    (entries c)(i := if xHandle ob = CK_INVALID_HANDLE then None else Some (xHandle ob, c_str (xLabel ob)))"
  using assms by (intro ext) (auto simp: entries_def nth_list_update)

lemma entries_None:
  assumes "list_inv c" and "i < pkcs11configMAX_NUM_OBJECTS"
  shows "(entries c i = None) = (xHandle (xObjects c ! i) = CK_INVALID_HANDLE)"
  using assms by (simp add: entries_def list_inv_def)

text \<open>The label a place gets: the source's bytes and then zeros.\<close>

lemma c_str_zeros: "c_str (p @ replicate k 0) = c_str p"
  by (induction p) (induction k, auto)

lemma label_copy:
  assumes "n < pkcs11configMAX_LABEL_LENGTH" and "n \<le> length pcLabel"
  shows "\<exists>label. write_at (xLabel no_object) 0 (take n pcLabel) = Some label \<and>
    object_wf \<lparr>xHandle = Suc h, xLabel = label\<rparr> \<and> c_str label = c_str (take n pcLabel)"
proof -
  let ?z = "replicate (pkcs11configMAX_LABEL_LENGTH + 1 - n) (0 :: u8)"
  have w: "write_at (xLabel no_object) 0 (take n pcLabel) = Some (take n pcLabel @ ?z)"
    using assms drop_replicate [of n "pkcs11configMAX_LABEL_LENGTH + 1" "0 :: u8"]
    by (simp add: write_at_def no_object_def del: drop_replicate replicate_Suc)
  have "(take n pcLabel @ ?z) ! pkcs11configMAX_LABEL_LENGTH = 0"
    using assms by (simp add: nth_append)
  with w assms show ?thesis
    by (intro exI [of _ "take n pcLabel @ ?z"])
      (simp add: object_wf_def CK_INVALID_HANDLE_def c_str_zeros del: write_at_Some)
qed

lemma add_to_list:
  assumes "list_inv c" and "h \<noteq> CK_INVALID_HANDLE" and "n \<le> length label"
  shows "\<exists>rc r c'. prvAddObjectToList h label n c = Some (rc, r, c') \<and> list_inv c' \<and>
    (case rc of
       CKR_OK \<Rightarrow> (\<exists>i < pkcs11configMAX_NUM_OBJECTS. r = Some (of_nat (i + 1)) \<and>
         ((\<exists>l. entries c i = Some (h, l)) \<and> c' = c \<or>
          n < pkcs11configMAX_LABEL_LENGTH \<and> h \<notin> fst ` ran (entries c) \<and> entries c i = None \<and>
          entries c' = (entries c)(i \<mapsto> (h, c_str (take n label)))))
     | CKR_BUFFER_TOO_SMALL \<Rightarrow> c' = c \<and> h \<notin> fst ` ran (entries c) \<and>
         (\<forall>i < pkcs11configMAX_NUM_OBJECTS. entries c i \<noteq> None)
     | CKR_DATA_LEN_RANGE \<Rightarrow> c' = c \<and> h \<notin> fst ` ran (entries c) \<and> pkcs11configMAX_LABEL_LENGTH \<le> n
     | _ \<Rightarrow> False)"
proof -
  from assms(1) have m: "xMutex c = Free" and l: "length (xObjects c) = pkcs11configMAX_NUM_OBJECTS"
    by (simp_all add: list_inv_def)
  from m have same: "c\<lparr>xMutex := Free\<rparr> = c" by (cases c) simp
  obtain found slot where s: "search_slot (xObjects c) h pkcs11configMAX_NUM_OBJECTS None = (found, slot)" by fastforce
  show ?thesis
  proof (cases found)
    case (Some i)
    with s search_slot_found have i: "i < pkcs11configMAX_NUM_OBJECTS" "xHandle (xObjects c ! i) = h" by blast+
    have "prvAddObjectToList h label n c = Some (CKR_OK, Some (of_nat (i + 1)), c)"
      using m s Some same by (simp add: prvAddObjectToList_def)
    moreover have "\<exists>l. entries c i = Some (h, l)" using i l assms(2) by (simp add: entries_def)
    ultimately show ?thesis using assms(1) i(1) by (intro exI [of _ CKR_OK] exI) auto
  next
    case None
    have absent: "\<forall>j < pkcs11configMAX_NUM_OBJECTS. xHandle (xObjects c ! j) \<noteq> h"
      using s None search_slot_absent by blast
    then have nh: "h \<notin> fst ` ran (entries c)" using l by (auto simp: ran_def entries_def split: if_splits)
    show ?thesis
    proof (cases slot)
      case slot: None
      have "prvAddObjectToList h label n c = Some (CKR_BUFFER_TOO_SMALL, None, c)"
        using m s None slot same by (simp add: prvAddObjectToList_def)
      moreover have "\<forall>i < pkcs11configMAX_NUM_OBJECTS. entries c i \<noteq> None"
        using s None slot search_slot_full entries_None [OF assms(1)] by blast
      ultimately show ?thesis using assms(1) nh by (intro exI [of _ CKR_BUFFER_TOO_SMALL] exI) auto
    next
      case slot: (Some i)
      with s None search_slot_free have i: "i < pkcs11configMAX_NUM_OBJECTS" "xHandle (xObjects c ! i) = CK_INVALID_HANDLE" by blast+
      then have "xObjects c ! i \<in> set (xObjects c)" using l by simp
      with assms(1) have "object_wf (xObjects c ! i)" by (simp add: list_inv_def)
      with i have free: "xObjects c ! i = no_object" by (simp add: object_wf_def)
      have e: "entries c i = None" using i by (simp add: entries_def)
      show ?thesis
      proof (cases "n < pkcs11configMAX_LABEL_LENGTH")
        case True
        obtain h' where h': "h = Suc h'" using assms(2) by (cases h) (auto simp: CK_INVALID_HANDLE_def)
        from label_copy [OF True assms(3), of h'] obtain new where
          w: "write_at (xLabel no_object) 0 (take n label) = Some new" "object_wf \<lparr>xHandle = h, xLabel = new\<rparr>"
          "c_str new = c_str (take n label)" using h' by blast
        let ?c = "c\<lparr>xMutex := Free, xObjects := (xObjects c)[i := \<lparr>xHandle = h, xLabel = new\<rparr>]\<rparr>"
        have "prvAddObjectToList h label n c = Some (CKR_OK, Some (of_nat (i + 1)), ?c)"
          unfolding prvAddObjectToList_def using m s None slot True free w(1) assms(3)
          by (simp add: read_at_def del: write_at_Some)
        moreover have "list_inv ?c" using list_inv_update [OF assms(1) w(2)] absent by simp
        moreover have "entries ?c = (entries c)(i \<mapsto> (h, c_str (take n label)))"
          using entries_update [OF l i(1)] assms(2) w(3) by simp
        ultimately show ?thesis using i(1) e nh True by (intro exI [of _ CKR_OK] exI) auto
      next
        case False
        have "prvAddObjectToList h label n c = Some (CKR_DATA_LEN_RANGE, None, c)"
          using m s None slot same False by (simp add: prvAddObjectToList_def)
        with assms(1) nh False show ?thesis by (intro exI [of _ CKR_DATA_LEN_RANGE] exI) auto
      qed
    qed
  qed
qed

text \<open>What a call that returns has done, for whatever length it was given.\<close>

lemma add_initialized: "prvAddObjectToList h l n c = Some (rc, a, c') \<Longrightarrow> xIsInitialized c' = xIsInitialized c"
  by (auto simp: prvAddObjectToList_def Let_def split: option.splits prod.splits if_splits)

definition entered :: "pal_handle \<Rightarrow> p11_context \<Rightarrow> CK_RV \<Rightarrow> u32 option \<Rightarrow> p11_context \<Rightarrow> bool" where
  "entered h c rc app c' =
    (if rc = CKR_OK
     then \<exists>i < pkcs11configMAX_NUM_OBJECTS. app = Some (of_nat (i + 1)) \<and> (\<exists>l. entries c' i = Some (h, l)) \<and>
       (entries c i = None \<or> c' = c) \<and> (\<forall>j. j \<noteq> i \<longrightarrow> entries c' j = entries c j)
     else rc \<in> {CKR_BUFFER_TOO_SMALL, CKR_DATA_LEN_RANGE} \<and> app = None \<and> c' = c)"

lemma add_result:
  assumes "list_inv c" and "h \<noteq> CK_INVALID_HANDLE" and "prvAddObjectToList h label n c = Some (rc, r, c')"
  shows "list_inv c' \<and> entered h c rc r c'"
proof -
  have r: "rc \<noteq> CKR_OK \<Longrightarrow> r = None"
    using assms(3) by (auto simp: prvAddObjectToList_def Let_def split: option.splits prod.splits if_splits)
  show ?thesis
  proof (cases "n \<le> length label")
    case le: True
    from add_to_list [OF assms(1,2) le] assms(3) r show ?thesis unfolding entered_def by (cases rc) fastforce+
  next
    case False
    then have rd: "read_at label 0 n = None" by (simp add: read_at_def)
    from assms(1) have m: "xMutex c = Free" by (simp add: list_inv_def)
    then have same: "c\<lparr>xMutex := Free\<rparr> = c" by (cases c) simp
    obtain found slot where f: "search_slot (xObjects c) h pkcs11configMAX_NUM_OBJECTS None = (found, slot)" by fastforce
    have c': "c' = c" "(\<exists>i. found = Some i \<and> rc = CKR_OK \<and> r = Some (of_nat (i + 1))) \<or> rc \<in> {CKR_BUFFER_TOO_SMALL, CKR_DATA_LEN_RANGE}"
      using assms(3) unfolding prvAddObjectToList_def m xSemaphoreTake.simps Option.bind.simps Let_def
      by (cases found; cases slot; auto simp: f rd same split: if_splits)+
    show ?thesis
    proof (cases "rc = CKR_OK")
      case True
      with c' obtain i where i: "found = Some i" "r = Some (of_nat (i + 1))" by auto
      from search_slot_found [OF f [unfolded i(1)]] assms(1,2)
      have "i < pkcs11configMAX_NUM_OBJECTS" "\<exists>l. entries c i = Some (h, l)" by (auto simp: entries_def list_inv_def)
      with i True c'(1) assms(1) show ?thesis by (auto simp: entered_def)
    next
      case False
      with c' r assms(1) show ?thesis by (auto simp: entered_def)
    qed
  qed
qed

text \<open>
  Adding an object to the list gives the handle it has already, or else a handle that is not in
  use and from then on stands for it; it is refused when the list is full or the label too long. All
  other handles keep their meaning.
\<close>

theorem prvAddObjectToList_refines:
  assumes "list_inv c" and "h \<noteq> CK_INVALID_HANDLE" and "n \<le> length label"
  shows "\<exists>rc r c'. prvAddObjectToList h label n c = Some (rc, r, c') \<and> list_inv c' \<and>
    (case rc of
       CKR_OK \<Rightarrow> (\<exists>i < pkcs11configMAX_NUM_OBJECTS. r = Some (of_nat (i + 1)) \<and>
         ((\<exists>l. entries c i = Some (h, l)) \<and> c' = c \<or>
          n < pkcs11configMAX_LABEL_LENGTH \<and> h \<notin> fst ` ran (entries c) \<and> entries c i = None \<and>
          entries c' = (entries c)(i \<mapsto> (h, c_str (take n label)))))
     | CKR_BUFFER_TOO_SMALL \<Rightarrow> c' = c \<and> h \<notin> fst ` ran (entries c) \<and>
         (\<forall>i < pkcs11configMAX_NUM_OBJECTS. entries c i \<noteq> None)
     | CKR_DATA_LEN_RANGE \<Rightarrow> c' = c \<and> h \<notin> fst ` ran (entries c) \<and> pkcs11configMAX_LABEL_LENGTH \<le> n
     | _ \<Rightarrow> False)"
  by (rule add_to_list [OF assms])

lemma handle_index: "i < pkcs11configMAX_NUM_OBJECTS \<Longrightarrow> sint (of_nat (i + 1) - 1 :: u32) = int i"
proof -
  assume "i < pkcs11configMAX_NUM_OBJECTS"
  then have i: "i < 6" by (simp add: pkcs11configMAX_NUM_OBJECTS_def)
  have e: "(of_nat (i + 1) - 1 :: u32) = of_nat i" by simp
  have "sint (of_nat i :: u32) = signed_take_bit 31 (int i)" by (simp add: signed_of_nat)
  also have "\<dots> = int i" using i by (intro signed_take_bit_int_eq_self) auto
  finally show ?thesis unfolding e .
qed

lemma find_by_handle:
  assumes "list_inv c" and "i < pkcs11configMAX_NUM_OBJECTS"
  shows "prvFindObjectInListByHandle (of_nat (i + 1)) c =
    (case entries c i of
       None \<Rightarrow> Some (CK_INVALID_HANDLE, None, 0)
     | Some (h, l) \<Rightarrow> Some (h, Some (xLabel (xObjects c ! i)), length l + 1))"
proof -
  from assms have "xObjects c ! i \<in> set (xObjects c)" by (simp add: list_inv_def)
  with assms have "object_wf (xObjects c ! i)" by (simp add: list_inv_def)
  then have "strlen (xLabel (xObjects c ! i)) = Some (length (c_str (xLabel (xObjects c ! i))))"
    by (intro strlen_terminated object_label_terminated)
  with assms show ?thesis
    unfolding prvFindObjectInListByHandle_def handle_index [OF assms(2)] Let_def
    by (auto simp: entries_def list_inv_def)
qed

lemma delete_from_list:
  assumes "list_inv c" and "i < pkcs11configMAX_NUM_OBJECTS"
  shows "if entries c i = None then prvDeleteObjectFromList (of_nat (i + 1)) c = Some (CKR_OBJECT_HANDLE_INVALID, c)
    else \<exists>c'. prvDeleteObjectFromList (of_nat (i + 1)) c = Some (CKR_OK, c') \<and> list_inv c' \<and> entries c' = (entries c)(i := None)"
proof -
  from assms(1) have m: "xMutex c = Free" and l: "length (xObjects c) = pkcs11configMAX_NUM_OBJECTS"
    by (simp_all add: list_inv_def)
  from m have same: "c\<lparr>xMutex := Free\<rparr> = c" by (cases c) simp
  let ?c = "c\<lparr>xMutex := Free, xObjects := (xObjects c)[i := no_object]\<rparr>"
  have d: "prvDeleteObjectFromList (of_nat (i + 1)) c =
      (if entries c i = None then Some (CKR_OBJECT_HANDLE_INVALID, c) else Some (CKR_OK, ?c))"
    unfolding prvDeleteObjectFromList_def handle_index [OF assms(2)] Let_def
    using assms(2) m l same by (simp add: entries_def)
  have "list_inv ?c" by (rule list_inv_update [OF assms(1) no_object_wf]) simp
  moreover have "entries ?c = (entries c)(i := None)" using entries_update [OF l assms(2)] by simp
  ultimately show ?thesis unfolding d by simp
qed

text \<open>
  The handle an object was given finds it, with its label, until it is deleted; deleting it
  frees that handle and touches no other.
\<close>

theorem p11_list_lifecycle:
  assumes "list_inv c" and "h \<noteq> CK_INVALID_HANDLE" and "n \<le> length label"
    and "prvAddObjectToList h label n c = Some (CKR_OK, Some a, c')"
    and "h \<notin> fst ` ran (entries c)"
  shows "\<exists>buf c''. prvFindObjectInListByHandle a c' = Some (h, Some buf, length (c_str (take n label)) + 1) \<and>
    c_str buf = c_str (take n label) \<and> terminated buf \<and>
    prvDeleteObjectFromList a c' = Some (CKR_OK, c'') \<and> list_inv c'' \<and> entries c'' = entries c"
proof -
  from add_to_list [OF assms(1-3)] assms(4) obtain i where i: "i < pkcs11configMAX_NUM_OBJECTS"
    "a = of_nat (i + 1)" "list_inv c'" and "(\<exists>l. entries c i = Some (h, l)) \<and> c' = c \<or> entries c i = None \<and>
      entries c' = (entries c)(i \<mapsto> (h, c_str (take n label)))" by auto
  moreover have "entries c i \<noteq> Some (h, l)" for l using assms(5) by (force simp: ran_def)
  ultimately have e: "entries c i = None" "entries c' = (entries c)(i \<mapsto> (h, c_str (take n label)))" by auto
  from e(2) have ei: "entries c' i = Some (h, c_str (take n label))" by simp
  then have buf: "c_str (xLabel (xObjects c' ! i)) = c_str (take n label)" by (auto simp: entries_def split: if_splits)
  have "xObjects c' ! i \<in> set (xObjects c')" using i by (simp add: list_inv_def)
  with i(3) have t: "terminated (xLabel (xObjects c' ! i))" by (intro object_label_terminated) (simp add: list_inv_def)
  have f: "prvFindObjectInListByHandle a c' = Some (h, Some (xLabel (xObjects c' ! i)), length (c_str (take n label)) + 1)"
    unfolding i(2) find_by_handle [OF i(3,1)] ei by simp
  from delete_from_list [OF i(3,1)] ei obtain c'' where d: "prvDeleteObjectFromList a c' = Some (CKR_OK, c'')"
    "list_inv c''" "entries c'' = (entries c')(i := None)" by (auto simp: i(2))
  have "entries c'' = entries c" unfolding d(3) e(2) using e(1) by auto
  with f d buf t show ?thesis by blast
qed

definition fresh_context :: p11_context where
  "fresh_context = zero_context\<lparr>xIsInitialized := True, xMutex := Free\<rparr>"

lemma fresh_context_inv: "list_inv fresh_context"
  using no_object_wf by (auto simp: list_inv_def fresh_context_def zero_context_def)

lemma fresh_context_entries: "entries fresh_context = (\<lambda>_. None)"
  by (rule ext) (auto simp: entries_def fresh_context_def zero_context_def)

text \<open>
  The label that is looked for has no zero byte; an object whose label starts with it matches.
\<close>

definition label_match :: "p11_context \<Rightarrow> bytes \<Rightarrow> nat \<Rightarrow> bool" where
  "label_match c l i = (\<exists>h l'. entries c i = Some (h, l') \<and> take (length l) l' = l)"

lemma find_label_correct:
  assumes "\<forall>ob \<in> set os. n \<le> length (xLabel ob)" and "n \<le> length pcLabel"
  shows "\<exists>r. find_label os pcLabel n = Some r \<and>
    (case r of None \<Rightarrow> \<forall>j < length os. take n (xLabel (os ! j)) \<noteq> take n pcLabel
     | Some i \<Rightarrow> i < length os \<and> take n (xLabel (os ! i)) = take n pcLabel \<and>
         (\<forall>j < i. take n (xLabel (os ! j)) \<noteq> take n pcLabel))"
  using assms
proof (induction os)
  case Nil
  then show ?case by simp
next
  case (Cons ob os)
  have eq: "mem_eq pcLabel (xLabel ob) n = Some (take n pcLabel = take n (xLabel ob))"
    using Cons.prems by simp
  show ?case
  proof (cases "take n pcLabel = take n (xLabel ob)")
    case True
    with eq have "find_label (ob # os) pcLabel n = Some (Some 0)" by (simp del: mem_eq_Some)
    with True show ?thesis by (intro exI [of _ "Some 0"]) (simp del: find_label.simps)
  next
    case False
    from Cons obtain r where r: "find_label os pcLabel n = Some r"
      "case r of None \<Rightarrow> \<forall>j < length os. take n (xLabel (os ! j)) \<noteq> take n pcLabel
       | Some i \<Rightarrow> i < length os \<and> take n (xLabel (os ! i)) = take n pcLabel \<and>
         (\<forall>j < i. take n (xLabel (os ! j)) \<noteq> take n pcLabel)" by auto
    have "find_label (ob # os) pcLabel n = Some (map_option Suc r)"
      using eq False r(1) by (simp del: mem_eq_Some)
    with r(2) False show ?thesis
      by (intro exI [of _ "map_option Suc r"], cases r)
        (auto simp: nth_Cons less_Suc_eq_0_disj simp del: find_label.simps split: nat.split)
  qed
qed

lemma take_c_str: "0 \<notin> set l \<Longrightarrow> (take (length l) (c_str b) = l) = (take (length l) b = l)"
proof (induction l arbitrary: b)
  case (Cons a l)
  then show ?case by (cases b) auto
qed simp


lemma label_match_prefix:
  assumes "list_inv c" and "i < pkcs11configMAX_NUM_OBJECTS" and "0 \<notin> set l" and "l \<noteq> []"
  shows "(take (length l) (xLabel (xObjects c ! i)) = l) = label_match c l i"
proof -
  from assms have "xObjects c ! i \<in> set (xObjects c)" by (simp add: list_inv_def)
  with assms have wf: "object_wf (xObjects c ! i)" by (simp add: list_inv_def)
  show ?thesis
  proof (cases "xHandle (xObjects c ! i) = CK_INVALID_HANDLE")
    case True
    with wf have "xLabel (xObjects c ! i) = replicate (pkcs11configMAX_LABEL_LENGTH + 1) 0"
      by (simp add: object_wf_def no_object_def)
    moreover have "take (length l) (replicate k 0) \<noteq> l" for k
      using assms(3,4) by (cases l; cases k) auto
    then have "take (length l) (replicate (pkcs11configMAX_LABEL_LENGTH + 1) 0) \<noteq> l" .
    ultimately show ?thesis using True by (simp add: label_match_def entries_def del: replicate_Suc)
  next
    case False
    with assms(1,2) take_c_str [OF assms(3)] show ?thesis
      by (simp add: label_match_def entries_def list_inv_def)
  qed
qed

text \<open>
  Looking a label up gives the first handle whose object has a label that begins with it, and 0
  when there is none.
\<close>

theorem prvFindObjectInListByLabel_correct:
  assumes "list_inv c" and "0 \<notin> set l" and "l \<noteq> []" and "length l \<le> pkcs11configMAX_LABEL_LENGTH"
    and "take (length l) pcLabel = l"
  shows "prvFindObjectInListByLabel pcLabel (length l) c = Some
    (case find (label_match c l) [0..<pkcs11configMAX_NUM_OBJECTS] of
       None \<Rightarrow> (CK_INVALID_HANDLE, 0)
     | Some i \<Rightarrow> (fst (the (entries c i)), of_nat (i + 1)))"
proof -
  from assms(1) have len: "length (xObjects c) = pkcs11configMAX_NUM_OBJECTS" by (simp add: list_inv_def)
  have "\<forall>ob \<in> set (xObjects c). length l \<le> length (xLabel ob)"
    using assms(1,4) by (auto simp: list_inv_def object_wf_def)
  moreover have "length l \<le> length pcLabel" using arg_cong [OF assms(5), of length] by simp
  ultimately obtain r where r: "find_label (xObjects c) pcLabel (length l) = Some r"
    "case r of None \<Rightarrow> \<forall>j < length (xObjects c). take (length l) (xLabel (xObjects c ! j)) \<noteq> l
     | Some i \<Rightarrow> i < length (xObjects c) \<and> take (length l) (xLabel (xObjects c ! i)) = l \<and>
       (\<forall>j < i. take (length l) (xLabel (xObjects c ! j)) \<noteq> l)"
    using find_label_correct [of "xObjects c" "length l" pcLabel] unfolding assms(5) by blast
  note m = label_match_prefix [OF assms(1) _ assms(2,3)]
  have "find (label_match c l) [0..<pkcs11configMAX_NUM_OBJECTS] = r"
  proof (cases r)
    case None
    with r(2) m len show ?thesis by (auto simp: find_None_iff)
  next
    case (Some i)
    with r(2) len have i: "i < pkcs11configMAX_NUM_OBJECTS" "label_match c l i" "\<forall>j < i. \<not> label_match c l j"
      using m by auto
    then show ?thesis unfolding find_Some_iff Some by (auto intro!: exI [of _ i])
  qed
  moreover have "xHandle (xObjects c ! i) = fst (the (entries c i))" if "r = Some i" for i
    using r(2) that m len by (auto simp: label_match_def entries_def)
  ultimately show ?thesis
    unfolding prvFindObjectInListByLabel_def r(1) by (auto split: option.split)
qed

subsection \<open>Examples\<close>

definition demo_list :: p11_context where
  "demo_list = fresh_context\<lparr>xObjects := (xObjects fresh_context)[0 :=
     \<lparr>xHandle = 1, xLabel = ascii ''tls_key_priv'' @ replicate 21 0\<rparr>]\<rparr>"

lemma demo_add:
  "prvAddObjectToList 1 (ascii ''tls_key_priv'') 12 fresh_context = Some (CKR_OK, Some 1, demo_list)"
  by (simp add: demo_list_def fresh_context_def zero_context_def prvAddObjectToList_def read_at_def
    write_at_def no_object_def eval_nat_numeral pkcs11configMAX_NUM_OBJECTS_def pkcs11configMAX_LABEL_LENGTH_def CK_INVALID_HANDLE_def)

lemma demo_list_inv: "list_inv demo_list"
  using add_to_list [OF fresh_context_inv, of 1 12 "ascii ''tls_key_priv''"]
  unfolding demo_add by (simp add: CK_INVALID_HANDLE_def)

theorem prvAddObjectToList_refines_witness:
  "\<exists>i < 6. prvAddObjectToList 1 (ascii ''tls_key_priv'') 12 fresh_context = Some (CKR_OK, Some (of_nat (i + 1)), demo_list) \<and>
     entries demo_list = [i \<mapsto> (1, c_str (ascii ''tls_key_priv''))]"
  using prvAddObjectToList_refines [OF fresh_context_inv, of 1 12 "ascii ''tls_key_priv''"]
  unfolding demo_add fresh_context_entries by (auto simp: CK_INVALID_HANDLE_def pkcs11configMAX_NUM_OBJECTS_def)

theorem p11_list_lifecycle_witness:
  "\<exists>buf c''. prvFindObjectInListByHandle 1 demo_list = Some (1, Some buf, 13) \<and> c_str buf = ascii ''tls_key_priv'' \<and>
     prvDeleteObjectFromList 1 demo_list = Some (CKR_OK, c'') \<and> entries c'' = Map.empty"
proof -
  have l: "c_str (take 12 (ascii ''tls_key_priv'')) = ascii ''tls_key_priv''" by (simp add: ascii_def)
  from p11_list_lifecycle [OF fresh_context_inv _ _ demo_add] show ?thesis
    unfolding l by (auto simp: fresh_context_entries CK_INVALID_HANDLE_def)
qed

theorem prvFindObjectInListByLabel_correct_witness:
  "prvFindObjectInListByLabel (c_literal ''tls_key_priv'') 12 demo_list = Some (1, 1)"
proof -
  have e: "label_match demo_list (ascii ''tls_key_priv'') 0" "entries demo_list 0 = Some (1, ascii ''tls_key_priv'')"
    by (simp_all add: label_match_def entries_def demo_list_def fresh_context_def zero_context_def
      pkcs11configMAX_NUM_OBJECTS_def CK_INVALID_HANDLE_def ascii_def c_str_zeros [of "[]", simplified])
  have u: "[0..<6] = 0 # [1..<6]" by (simp add: upt_rec)
  have n: "length (ascii ''tls_key_priv'') = 12" by simp
  have p: "0 \<notin> set (ascii ''tls_key_priv'')" "ascii ''tls_key_priv'' \<noteq> []"
    "take 12 (c_literal ''tls_key_priv'') = ascii ''tls_key_priv''"
    by (simp_all add: ascii_def c_literal_def)
  from prvFindObjectInListByLabel_correct [OF demo_list_inv p(1,2), unfolded n, OF _ p(3)] show ?thesis
    using e by (simp add: pkcs11configMAX_LABEL_LENGTH_def pkcs11configMAX_NUM_OBJECTS_def u)
qed

text \<open>
  The handle 0, which stands for no object, is not refused: the array is accessed in front of its
  start.
\<close>

lemma find_handle_0: "prvFindObjectInListByHandle 0 c = None"
  by (simp add: prvFindObjectInListByHandle_def pkcs11configMAX_NUM_OBJECTS_def)

lemma delete_handle_0: "prvDeleteObjectFromList 0 c = None"
  by (simp add: prvDeleteObjectFromList_def pkcs11configMAX_NUM_OBJECTS_def)

text \<open>A handle that is too large is reported as a lock that was not got.\<close>

lemma delete_handle_too_large:
  assumes "7 \<le> a" and "a < 2 ^ 31"
  shows "prvDeleteObjectFromList (of_nat a) c = Some (CKR_CANT_LOCK, c)"
proof -
  have "(of_nat a - 1 :: u32) = of_nat (a - 1)" using assms(1) by (simp add: of_nat_diff)
  moreover have "sint (of_nat (a - 1) :: u32) = signed_take_bit 31 (int (a - 1))" by (simp add: signed_of_nat)
  moreover have "signed_take_bit 31 (int (a - 1)) = int (a - 1)" using assms by (intro signed_take_bit_int_eq_self) auto
  ultimately have "sint (of_nat a - 1 :: u32) = int (a - 1)" by simp
  with assms(1) show ?thesis
    by (simp add: prvDeleteObjectFromList_def pkcs11configMAX_NUM_OBJECTS_def)
qed

text \<open>The empty label matches the first place, used or not: its handle 1 comes with no object.\<close>

lemma find_empty_label:
  "list_inv c \<Longrightarrow> prvFindObjectInListByLabel pcLabel 0 c = Some (xHandle (xObjects c ! 0), 1)"
  by (cases "xObjects c") (auto simp: list_inv_def prvFindObjectInListByLabel_def mem_eq_def read_at_def pkcs11configMAX_NUM_OBJECTS_def)

end
