(* ===== verification/P11Session.thy ===== *)
theory P11Session
  imports P11List
begin

text \<open>
  iot_pkcs11_psa.c: initialising and finalising the module, sessions, creating certificates,
  finding and destroying objects. Digests, signatures and random numbers are in \<open>P11Crypto\<close>.
\<close>

subsection \<open>State and services\<close>

definition pkcs11NO_OPERATION :: u32 where "pkcs11NO_OPERATION = 0xFFFFFFFF"
definition pkcs11SLOT_ID :: nat where "pkcs11SLOT_ID = 1"
definition CKF_RW_SESSION :: u32 where "CKF_RW_SESSION = 2"
definition CKF_SERIAL_SESSION :: u32 where "CKF_SERIAL_SESSION = 4"
definition CKS_RO_PUBLIC_SESSION :: nat where "CKS_RO_PUBLIC_SESSION = 0"
definition CKS_RW_PUBLIC_SESSION :: nat where "CKS_RW_PUBLIC_SESSION = 2"
definition PSA_CODE_VERIFICATION_KEY_ID :: u32 where "PSA_CODE_VERIFICATION_KEY_ID = 0x11"
definition PSA_ERROR_DOES_NOT_EXIST :: int where "PSA_ERROR_DOES_NOT_EXIST = -140"

definition CKM_RSA_PKCS :: u32 where "CKM_RSA_PKCS = 0x1"
definition CKM_RSA_X_509 :: u32 where "CKM_RSA_X_509 = 0x3"
definition CKM_SHA256 :: u32 where "CKM_SHA256 = 0x250"
definition CKM_EC_KEY_PAIR_GEN :: u32 where "CKM_EC_KEY_PAIR_GEN = 0x1040"
definition CKM_ECDSA :: u32 where "CKM_ECDSA = 0x1041"

lemmas mechanism_defs = pkcs11NO_OPERATION_def CKM_RSA_PKCS_def CKM_RSA_X_509_def CKM_SHA256_def
  CKM_EC_KEY_PAIR_GEN_def CKM_ECDSA_def

text \<open>\<open>P11Session_t\<close> without its two members that no function uses.\<close>

record session =
  ulState :: nat
  xOpened :: bool
  xOperationInProgress :: u32
  pxFindObjectLabel :: "bytes option"
  xVerifyMutex :: mutex
  uxVerifyKey :: u32
  xVerifyMechanism :: u32
  xVerifyAlgorithm :: u32
  xSignMutex :: mutex
  uxSignKey :: u32
  xSignMechanism :: u32
  xSignAlgorithm :: u32
  pxHashOperationHandle :: "u32 option"

text \<open>A session after \<open>memset\<close>.\<close>

definition zero_session :: session where
  "zero_session = \<lparr>ulState = 0, xOpened = False, xOperationInProgress = 0, pxFindObjectLabel = None,
     xVerifyMutex = Absent, uxVerifyKey = 0, xVerifyMechanism = 0, xVerifyAlgorithm = 0,
     xSignMutex = Absent, uxSignKey = 0, xSignMechanism = 0, xSignAlgorithm = 0, pxHashOperationHandle = None\<rparr>"

text \<open>
  A session handle is the address of the session; an address with no session is dangling. The
  services beyond \<open>psa_env\<close>: where \<open>pvPortMalloc\<close> puts a session, given the addresses in use, whether
  a mutex can be created, and the PSA Crypto calls of the session functions. A hash operation is the
  handle it holds.

  A key that is put together from a template is an mbedTLS context. Of that the model has its kind (no
  context at all, RSA, elliptic curve) and the calls made on it so far, each naming the component and
  its bytes: whether the next call succeeds, what the context then holds (\<open>pk_view\<close>) and its DER form
  are functions of them. The DER form is \<open>None\<close> where mbedTLS returns a negative length.
  \<open>sizeof_ecp_point\<close> is the size of its type \<open>mbedtls_ecp_point\<close>.
\<close>

record 'w p11 =
  ctx :: p11_context
  store :: "'w p11_store"
  sessions :: "nat \<Rightarrow> session option"

datatype rsa_part = RSA_N | RSA_E | RSA_P | RSA_Q | RSA_D | RSA_DP | RSA_DQ | RSA_QP

datatype key_kind = KeyNone | KeyRsa | KeyEc

datatype key_call = RsaPart rsa_part bytes | EcScalar bytes | EcPoint bytes

record 'w p11_env = "'w psa_env" +
  session_address :: "nat set \<Rightarrow> 'w \<Rightarrow> nat option"
  creates_sign_mutex :: "'w \<Rightarrow> bool"
  creates_verify_mutex :: "'w \<Rightarrow> bool"
  creates_list_mutex :: "'w \<Rightarrow> bool"
  psa_open_key :: "u32 \<Rightarrow> 'w \<Rightarrow> int \<times> u32 \<times> 'w"
  psa_get_key_algorithm :: "u32 \<Rightarrow> 'w \<Rightarrow> u32"
  psa_hash_setup :: "u32 \<Rightarrow> 'w \<Rightarrow> int \<times> u32 \<times> 'w"
  psa_hash_update :: "u32 \<Rightarrow> bytes \<Rightarrow> 'w \<Rightarrow> int \<times> 'w"
  psa_hash_abort :: "u32 \<Rightarrow> 'w \<Rightarrow> int \<times> 'w"
  psa_hash_finish :: "u32 \<Rightarrow> nat \<Rightarrow> 'w \<Rightarrow> int \<times> bytes \<times> 'w"
  psa_sign_hash :: "u32 \<Rightarrow> u32 \<Rightarrow> bytes \<Rightarrow> nat \<Rightarrow> 'w \<Rightarrow> int \<times> bytes \<times> 'w"
  psa_verify_hash :: "u32 \<Rightarrow> u32 \<Rightarrow> bytes \<Rightarrow> bytes \<Rightarrow> 'w \<Rightarrow> int"
  psa_generate_random :: "nat \<Rightarrow> 'w \<Rightarrow> int \<times> bytes \<times> 'w"
  psa_generate_key :: "key_attributes \<Rightarrow> nat \<Rightarrow> 'w \<Rightarrow> int \<times> u32 \<times> 'w"
  psa_export_public_key :: "u32 \<Rightarrow> nat \<Rightarrow> 'w \<Rightarrow> int \<times> bytes"
  sizeof_ecp_point :: nat
  has_key_context :: "key_kind \<Rightarrow> 'w \<Rightarrow> bool"
  has_der_buffer :: "key_kind \<Rightarrow> 'w \<Rightarrow> bool"
  key_call_ok :: "key_kind \<Rightarrow> key_call list \<Rightarrow> key_call \<Rightarrow> bool"
  pk_view :: "key_kind \<Rightarrow> key_call list \<Rightarrow> pk_context"
  mbedtls_pk_write_key_der :: "key_kind \<Rightarrow> key_call list \<Rightarrow> nat \<Rightarrow> bytes option"
  mbedtls_pk_write_pubkey_der :: "key_kind \<Rightarrow> key_call list \<Rightarrow> nat \<Rightarrow> bytes option"

text \<open>\<open>pxSession->...\<close>: the handle 0 is \<open>NULL\<close>.\<close>

definition session_at :: "nat \<Rightarrow> 'w p11 \<Rightarrow> session option" where
  "session_at h s = (if h = 0 then None else sessions s h)"

definition put_session :: "nat \<Rightarrow> session \<Rightarrow> 'w p11 \<Rightarrow> 'w p11" where
  "put_session h x s = s\<lparr>sessions := (sessions s)(h \<mapsto> x)\<rparr>"

definition put_psa :: "'w \<Rightarrow> 'w p11 \<Rightarrow> 'w p11" where
  "put_psa w s = s\<lparr>store := (store s)\<lparr>psa := w\<rparr>\<rparr>"

abbreviation world :: "'w p11 \<Rightarrow> 'w" where "world s \<equiv> psa (store s)"

text \<open>The macro, which reads the session when the module is initialised.\<close>

definition PKCS11_SESSION_VALID_AND_MODULE_INITIALIZED :: "nat \<Rightarrow> 'w p11 \<Rightarrow> CK_RV option" where
  "PKCS11_SESSION_VALID_AND_MODULE_INITIALIZED h s =
     (if xIsInitialized (ctx s)
      then if h \<noteq> 0
        then do {
          x \<leftarrow> session_at h s;
          Some (if xOpened x then CKR_OK else CKR_SESSION_CLOSED) }
        else Some CKR_SESSION_HANDLE_INVALID
      else Some CKR_CRYPTOKI_NOT_INITIALIZED)"

subsection \<open>The module\<close>

definition prvMbedTLS_Initialize :: "('w, 'z) p11_env_scheme \<Rightarrow> 'w p11 \<Rightarrow> CK_RV \<times> 'w p11" where
  "prvMbedTLS_Initialize env s =
     (if xIsInitialized (ctx s) then (CKR_CRYPTOKI_ALREADY_INITIALIZED, s)
      else if creates_list_mutex env (world s)
      then (CKR_OK, s\<lparr>ctx := zero_context\<lparr>xMutex := Free, xIsInitialized := True\<rparr>\<rparr>)
      else (CKR_FUNCTION_FAILED, s\<lparr>ctx := zero_context\<rparr>))"

definition C_Initialize :: "('w, 'z) p11_env_scheme \<Rightarrow> 'w p11 \<Rightarrow> CK_RV \<times> 'w p11" where
  "C_Initialize env s = prvMbedTLS_Initialize env s"

text \<open>\<open>reserved\<close> tells whether \<open>pvReserved\<close> is not \<open>NULL\<close>.\<close>

definition C_Finalize :: "('w, 'z) p11_env_scheme \<Rightarrow> bool \<Rightarrow> 'w p11 \<Rightarrow> (CK_RV \<times> 'w p11) option" where
  "C_Finalize env reserved s =
     (if reserved then Some (CKR_ARGUMENTS_BAD, s)
      else if \<not> xIsInitialized (ctx s) then Some (CKR_CRYPTOKI_NOT_INITIALIZED, s)
      else do {
        let s = s\<lparr>ctx := zero_context\<rparr>;
        (xResult, st) \<leftarrow> PKCS11PSARemoveObject (psa_env.truncate env) LABEL_DEVICE_PRIVATE_KEY_FOR_TLS
           (length LABEL_DEVICE_PRIVATE_KEY_FOR_TLS) False (store s);
        let s = s\<lparr>store := st\<rparr>;
        if xResult = CKR_OK
        then do {
          (xResult, st) \<leftarrow> PKCS11PSARemoveObject (psa_env.truncate env) LABEL_DEVICE_PUBLIC_KEY_FOR_TLS
             (length LABEL_DEVICE_PUBLIC_KEY_FOR_TLS) False (store s);
          Some (xResult, s\<lparr>store := st\<rparr>) }
        else Some (xResult, s) })"

text \<open>
  \<open>slots\<close> is the buffer at \<open>pxSlotList\<close>, \<open>count\<close> the value at \<open>pulCount\<close>; the module being
  uninitialised is an error that does not stop the function.
\<close>

definition C_GetSlotList ::
  "nat list option \<Rightarrow> nat option \<Rightarrow> 'w p11 \<Rightarrow> (CK_RV \<times> nat list option \<times> nat option) option" where
  "C_GetSlotList slots count s =
     (let xResult = (if xIsInitialized (ctx s) then CKR_OK else CKR_CRYPTOKI_NOT_INITIALIZED)
      in case count of
           None \<Rightarrow> Some (CKR_ARGUMENTS_BAD, slots, count)
         | Some n \<Rightarrow>
             (case slots of
                None \<Rightarrow> Some (xResult, slots, Some 1)
              | Some l \<Rightarrow>
                  if n = 0 then Some (CKR_BUFFER_TOO_SMALL, slots, count)
                  else do {
                    l \<leftarrow> write_at l 0 [pkcs11SLOT_ID];
                    Some (xResult, Some l, Some 1) }))"

text \<open>The table of mechanisms: type, least and greatest key size and flags.\<close>

definition supported_mechanisms :: "(u32 \<times> nat \<times> nat \<times> u32) list" where
  "supported_mechanisms = [
     (CKM_RSA_PKCS, 2048, 2048, 0x800),
     (CKM_RSA_X_509, 2048, 2048, 0x2000),
     (CKM_ECDSA, 256, 256, 0x2800),
     (CKM_EC_KEY_PAIR_GEN, 256, 256, 0x10000),
     (CKM_SHA256, 0, 0, 0x400)]"

definition C_GetMechanismInfo :: "u32 \<Rightarrow> CK_RV \<times> (nat \<times> nat \<times> u32) option" where
  "C_GetMechanismInfo type =
     (case map_of supported_mechanisms type of
        Some info \<Rightarrow> (CKR_OK, Some info)
      | None \<Rightarrow> (CKR_MECHANISM_INVALID, None))"

subsection \<open>Sessions\<close>

text \<open>
  \<open>out\<close> tells whether \<open>pxSession\<close> is not \<open>NULL\<close>; the result has the new handle. What was
  allocated is freed again when a mutex cannot be created.
\<close>

definition C_OpenSession ::
  "('w, 'z) p11_env_scheme \<Rightarrow> u32 \<Rightarrow> bool \<Rightarrow> 'w p11 \<Rightarrow> CK_RV \<times> nat option \<times> 'w p11" where
  "C_OpenSession env xFlags out s =
     (let xResult = (if xIsInitialized (ctx s) then CKR_OK else CKR_CRYPTOKI_NOT_INITIALIZED);
          xResult = (if \<not> out then CKR_ARGUMENTS_BAD else xResult);
          xResult = (if CKF_SERIAL_SESSION AND xFlags = 0 then CKR_SESSION_PARALLEL_NOT_SUPPORTED else xResult)
      in if xResult \<noteq> CKR_OK then (xResult, None, s)
         else case session_address env (dom (sessions s)) (world s) of
             None \<Rightarrow> (CKR_HOST_MEMORY, None, s)
           | Some a \<Rightarrow>
               if \<not> creates_sign_mutex env (world s) \<or> \<not> creates_verify_mutex env (world s)
               then (CKR_HOST_MEMORY, None, s)
               else (CKR_OK, Some a, put_session a (zero_session\<lparr>xSignMutex := Free, xVerifyMutex := Free,
                 ulState := if xFlags AND CKF_RW_SESSION \<noteq> 0 then CKS_RW_PUBLIC_SESSION else CKS_RO_PUBLIC_SESSION,
                 xOpened := True, xOperationInProgress := pkcs11NO_OPERATION\<rparr>) s))"

definition C_CloseSession :: "nat \<Rightarrow> 'w p11 \<Rightarrow> (CK_RV \<times> 'w p11) option" where
  "C_CloseSession xSession s = do {
     xResult \<leftarrow> PKCS11_SESSION_VALID_AND_MODULE_INITIALIZED xSession s;
     Some (if xResult = CKR_OK then (CKR_OK, s\<lparr>sessions := (sessions s)(xSession := None)\<rparr>)
       else (CKR_SESSION_HANDLE_INVALID, s)) }"

subsection \<open>Creating certificates\<close>

text \<open>An attribute of a template; \<open>aLen\<close> is \<open>ulValueLen\<close>, \<open>aValue\<close> the bytes at \<open>pValue\<close>.\<close>

record attribute =
  aType :: u32
  aValue :: bytes
  aLen :: nat

definition CKA_CLASS :: u32 where "CKA_CLASS = 0x0"
definition CKA_TOKEN :: u32 where "CKA_TOKEN = 0x1"
definition CKA_LABEL :: u32 where "CKA_LABEL = 0x3"
definition CKA_VALUE :: u32 where "CKA_VALUE = 0x11"
definition CKA_CERTIFICATE_TYPE :: u32 where "CKA_CERTIFICATE_TYPE = 0x80"
definition CKA_SUBJECT :: u32 where "CKA_SUBJECT = 0x101"
definition CKC_X_509 :: u32 where "CKC_X_509 = 0"
definition CK_TRUE :: u8 where "CK_TRUE = 1"

lemmas attribute_type_defs = CKA_CLASS_def CKA_TOKEN_def CKA_LABEL_def CKA_VALUE_def CKA_CERTIFICATE_TYPE_def CKA_SUBJECT_def

definition object_class_of :: "u32 \<Rightarrow> CK_OBJECT_CLASS" where
  "object_class_of w = (if w = 1 then CKO_CERTIFICATE else if w = 2 then CKO_PUBLIC_KEY
     else if w = 3 then CKO_PRIVATE_KEY else CKO_OTHER)"

text \<open>The first class attribute.\<close>

fun prvGetObjectClass :: "attribute list \<Rightarrow> (CK_RV \<times> CK_OBJECT_CLASS option) option" where
  "prvGetObjectClass [] = Some (CKR_TEMPLATE_INCOMPLETE, None)"
| "prvGetObjectClass (a # as) =
     (if aType a = CKA_CLASS
      then do {
        b \<leftarrow> read_at (aValue a) 0 4;
        Some (CKR_OK, Some (object_class_of (of_le32 b))) }
      else prvGetObjectClass as)"

text \<open>The local variables of \<open>prvCreateCertificate\<close> that the search of the template fills.\<close>

record certificate_template =
  ctResult :: CK_RV
  ctValue :: "(bytes \<times> nat) option"
  ctLabel :: "attribute option"
  ctClass :: "attribute option"

definition parse_certificate_attribute :: "attribute \<Rightarrow> certificate_template \<Rightarrow> certificate_template option" where
  "parse_certificate_attribute a t =
     (if aType a = CKA_VALUE then Some (t\<lparr>ctValue := Some (aValue a, aLen a)\<rparr>)
      else if aType a = CKA_LABEL
      then Some (if aLen a \<le> pkcs11configMAX_LABEL_LENGTH then t\<lparr>ctLabel := Some a\<rparr> else t\<lparr>ctResult := CKR_DATA_LEN_RANGE\<rparr>)
      else if aType a = CKA_CERTIFICATE_TYPE
      then do {
        b \<leftarrow> read_at (aValue a) 0 4;
        Some (if of_le32 b \<noteq> CKC_X_509 then t\<lparr>ctResult := CKR_ATTRIBUTE_VALUE_INVALID\<rparr> else t) }
      else if aType a = CKA_TOKEN
      then do {
        b \<leftarrow> read_at (aValue a) 0 1;
        Some (if b \<noteq> [CK_TRUE] then t\<lparr>ctResult := CKR_ATTRIBUTE_VALUE_INVALID\<rparr> else t) }
      else if aType a = CKA_CLASS then Some (t\<lparr>ctClass := Some a\<rparr>)
      else if aType a = CKA_SUBJECT then Some t
      else Some (t\<lparr>ctResult := CKR_TEMPLATE_INCONSISTENT\<rparr>))"

text \<open>
  The result has the handle that is stored at \<open>pxObject\<close>. A template without a class leaves
  \<open>pxClass\<close> at \<open>NULL\<close>, which is then read. \<open>no_key\<close> is the key context the certificate branches of
  \<open>PKCS11PSASaveObject\<close> do not look at (\<open>NULL\<close> in the code).
\<close>

definition no_key :: pk_context where
  "no_key = \<lparr>pk_type = MBEDTLS_PK_OTHER, pk_padding = MBEDTLS_RSA_OTHER, pk_curve = MBEDTLS_ECP_DP_NONE,
     pk_nbits = 0, pk_secret = (\<lambda>n. None)\<rparr>"

definition prvCreateCertificate ::
  "('w, 'z) p11_env_scheme \<Rightarrow> attribute list \<Rightarrow> 'w p11 \<Rightarrow> (CK_RV \<times> u32 option \<times> 'w p11) option" where
  "prvCreateCertificate env template s = do {
     t \<leftarrow> for_each template parse_certificate_attribute
       \<lparr>ctResult = CKR_OK, ctValue = None, ctLabel = None, ctClass = None\<rparr>;
     (case (ctValue t, ctLabel t) of
        (Some (value, len), Some label) \<Rightarrow>
          if ctResult t \<noteq> CKR_OK then Some (ctResult t, None, s)
          else do {
            cls \<leftarrow> ctClass t;
            b \<leftarrow> read_at (aValue cls) 0 4;
            data \<leftarrow> read_at value 0 len;
            (xPalHandle, st) \<leftarrow> PKCS11PSASaveObject (psa_env.truncate env) (object_class_of (of_le32 b)) (aValue label) data no_key (store s);
            let s = s\<lparr>store := st\<rparr>;
            if xPalHandle = 0 then Some (CKR_DEVICE_MEMORY, None, s)
            else do {
              (xResult, app, c) \<leftarrow> prvAddObjectToList xPalHandle (aValue label) (aLen label) (ctx s);
              Some (xResult, app, s\<lparr>ctx := c\<rparr>) } }
      | _ \<Rightarrow> Some (CKR_TEMPLATE_INCOMPLETE, None, s)) }"

subsection \<open>Destroying and finding objects\<close>

definition C_DestroyObject ::
  "('w, 'z) p11_env_scheme \<Rightarrow> nat \<Rightarrow> u32 \<Rightarrow> 'w p11 \<Rightarrow> (CK_RV \<times> 'w p11) option" where
  "C_DestroyObject env xSession xObject s = do {
     xResult \<leftarrow> PKCS11_SESSION_VALID_AND_MODULE_INITIALIZED xSession s;
     if xResult = CKR_OK
     then do {
       (xPalHandle, pcLabel, xLabelLength) \<leftarrow> prvFindObjectInListByHandle xObject (ctx s);
       if xPalHandle \<noteq> CK_INVALID_HANDLE
       then do {
         label \<leftarrow> pcLabel;
         (xResult, st) \<leftarrow> PKCS11PSARemoveObject (psa_env.truncate env) label xLabelLength True (store s);
         let s = s\<lparr>store := st\<rparr>;
         if xResult = CKR_OK
         then do {
           (xResult, c) \<leftarrow> prvDeleteObjectFromList xObject (ctx s);
           Some (xResult, s\<lparr>ctx := c\<rparr>) }
         else Some (xResult, s) }
       else Some (xResult, s) }
     else Some (xResult, s) }"

text \<open>
  The buffer for the label has the size of the first attribute; the loop copies every label
  attribute. A failed search frees it.
\<close>

definition find_init_attribute :: "attribute \<Rightarrow> CK_RV \<times> bytes \<Rightarrow> (CK_RV \<times> bytes) option" where
  "find_init_attribute a = (\<lambda>(xResult, label).
     if aType a = CKA_LABEL
     then do {
       src \<leftarrow> read_at (aValue a) 0 (aLen a);
       label \<leftarrow> write_at label 0 src;
       Some (CKR_OK, label) }
     else Some (xResult, label))"

definition C_FindObjectsInit ::
  "('w, 'z) p11_env_scheme \<Rightarrow> nat \<Rightarrow> attribute list option \<Rightarrow> nat \<Rightarrow> 'w p11 \<Rightarrow> (CK_RV \<times> 'w p11) option" where
  "C_FindObjectsInit env xSession pxTemplate ulCount s = do {
     xResult \<leftarrow> PKCS11_SESSION_VALID_AND_MODULE_INITIALIZED xSession s;
     let xResult = (if pxTemplate = None \<or> ulCount \<noteq> 1 \<and> ulCount \<noteq> 2 then CKR_ARGUMENTS_BAD else xResult);
     if xResult \<noteq> CKR_OK then Some (xResult, s)
     else do {
       x \<leftarrow> session_at xSession s;
       template \<leftarrow> pxTemplate;
       if pxFindObjectLabel x \<noteq> None then Some (CKR_OPERATION_ACTIVE, s)
       else do {
         firsts \<leftarrow> read_at template 0 1;
         let n = aLen (hd firsts) + 1;
         if \<not> heap_has env n (world s) then Some (CKR_HOST_MEMORY, s)
         else do {
           as \<leftarrow> read_at template 0 ulCount;
           (xResult, label) \<leftarrow> for_each as find_init_attribute (CKR_TEMPLATE_INCOMPLETE, replicate n 0);
           Some (if xResult \<noteq> CKR_OK then (xResult, s)
             else (CKR_OK, put_session xSession (x\<lparr>pxFindObjectLabel := Some label\<rparr>) s)) } } } }"

text \<open>
  \<open>FindKeyObjects\<close> for the label the session looks for; the result has the handle that is stored
  at \<open>pxObject\<close> with the count 1, or nothing.
\<close>

definition FindKeyObjects ::
  "('w, 'z) p11_env_scheme \<Rightarrow> bytes \<Rightarrow> u32 \<Rightarrow> pal_handle \<Rightarrow> 'w p11 \<Rightarrow> (CK_RV \<times> u32 option \<times> 'w p11) option" where
  "FindKeyObjects env label xKeyId xPalHandle s = do {
     n \<leftarrow> strlen label;
     (xResult, k) \<leftarrow> PKCS11PSAGetKeyHandle label n (store s);
     (xResult, uxStatus, s) \<leftarrow>
       (if xResult = CKR_OK then Some (CKR_OK, PSA_SUCCESS, s)
        else do {
          let (uxStatus, k, w) = psa_open_key env xKeyId (world s);
          let s = put_psa w s;
          if uxStatus = PSA_SUCCESS
          then do {
            st \<leftarrow> PKCS11PSAContextImportObject label k (store s);
            Some (CKR_OK, uxStatus, s\<lparr>store := st\<rparr>) }
          else Some (if uxStatus \<noteq> PSA_ERROR_DOES_NOT_EXIST then CKR_FUNCTION_FAILED else CKR_OK, uxStatus, s) });
     if xResult = CKR_OK \<and> uxStatus = PSA_SUCCESS
     then do {
       (xResult, app, c) \<leftarrow> prvAddObjectToList xPalHandle label n (ctx s);
       Some (xResult, app, s\<lparr>ctx := c\<rparr>) }
     else Some (xResult, None, s) }"

text \<open>
  The branch that the three certificates share; \<open>xResult\<close> is the code so far, which stays when there
  is no such certificate.
\<close>

definition find_certificate ::
  "('w, 'z) p11_env_scheme \<Rightarrow> bytes \<Rightarrow> nat \<Rightarrow> pal_handle \<Rightarrow> CK_RV \<Rightarrow> 'w p11 \<Rightarrow> (CK_RV \<times> u32 option \<times> 'w p11) option" where
  "find_certificate env label uid xPalHandle xResult s =
     (let (uxStatus, sz) = psa_ps_get_info env uid (world s)
      in if uxStatus = PSA_SUCCESS
         then do {
           n \<leftarrow> strlen label;
           (xResult, app, c) \<leftarrow> prvAddObjectToList xPalHandle label n (ctx s);
           let s = s\<lparr>ctx := c\<rparr>;
           if xResult = CKR_OK
           then do {
             st \<leftarrow> PKCS11PSAContextImportObject label pkcs11OBJECT_HANDLE_NA (store s);
             Some (xResult, app, s\<lparr>store := st\<rparr>) }
           else Some (xResult, None, s) }
         else Some (if uxStatus \<noteq> PSA_ERROR_DOES_NOT_EXIST then CKR_FUNCTION_FAILED else xResult, None, s))"

text \<open>The search in the secure world, by label.\<close>

definition find_stored ::
  "('w, 'z) p11_env_scheme \<Rightarrow> bytes \<Rightarrow> CK_RV \<Rightarrow> 'w p11 \<Rightarrow> (CK_RV \<times> u32 option \<times> 'w p11) option" where
  "find_stored env label xResult s = do {
     eq \<leftarrow> strcmp_eq label LABEL_DEVICE_PRIVATE_KEY_FOR_TLS;
     if eq then FindKeyObjects env label PSA_DEVICE_PRIVATE_KEY_ID eAwsDevicePrivateKey s
     else do {
     eq \<leftarrow> strcmp_eq label LABEL_DEVICE_PUBLIC_KEY_FOR_TLS;
     if eq then FindKeyObjects env label PSA_DEVICE_PUBLIC_KEY_ID eAwsDevicePublicKey s
     else do {
     eq \<leftarrow> strcmp_eq label LABEL_CODE_VERIFICATION_KEY;
     if eq then FindKeyObjects env label PSA_CODE_VERIFICATION_KEY_ID eAwsCodeVerifyingKey s
     else do {
     eq \<leftarrow> strcmp_eq label LABEL_DEVICE_CERTIFICATE_FOR_TLS;
     if eq then find_certificate env label PSA_DEVICE_CERTIFICATE_UID eAwsDeviceCertificate xResult s
     else do {
     eq \<leftarrow> strcmp_eq label LABEL_ROOT_CERTIFICATE;
     if eq then find_certificate env label PSA_ROOT_CERTIFICATE_UID eAwsRootCertificate xResult s
     else do {
     eq \<leftarrow> strcmp_eq label LABEL_JITP_CERTIFICATE;
     if eq then find_certificate env label PSA_JITP_CERTIFICATE_UID eAwsJitpCertificate xResult s
     else Some (xResult, None, s) } } } } } }"

text \<open>
  \<open>out\<close> tells whether both out parameters are given; \<open>count\<close> is the value at \<open>pulObjectCount\<close>
  before the call. The result is the return code, \<open>*pxObject\<close> where it is written, the count and the
  state. A session that is not valid does not set \<open>xDone\<close>: the code goes on and reads it.
\<close>

definition C_FindObjects ::
  "('w, 'z) p11_env_scheme \<Rightarrow> nat \<Rightarrow> bool \<Rightarrow> nat \<Rightarrow> nat \<Rightarrow> 'w p11 \<Rightarrow> (CK_RV \<times> u32 option \<times> nat \<times> 'w p11) option" where
  "C_FindObjects env xSession out ulMaxObjectCount count s = do {
     xResult \<leftarrow> PKCS11_SESSION_VALID_AND_MODULE_INITIALIZED xSession s;
     let xResult = (if out then xResult else CKR_ARGUMENTS_BAD);
     no_label \<leftarrow> (if xResult = CKR_OK then map_option (\<lambda>x. pxFindObjectLabel x = None) (session_at xSession s) else Some False);
     let (xResult, xDone) =
       (if xResult = CKR_OK
        then if ulMaxObjectCount = 0 then (CKR_ARGUMENTS_BAD, True)
          else if no_label then (CKR_OPERATION_NOT_INITIALIZED, True) else (CKR_OK, False)
        else (xResult, \<not> out));
     if xDone then Some (xResult, None, count, s)
     else do {
       x \<leftarrow> session_at xSession s;
       label \<leftarrow> pxFindObjectLabel x;
       n \<leftarrow> strlen label;
       (pal, app) \<leftarrow> prvFindObjectInListByLabel label n (ctx s);
       if app \<noteq> 0 then Some (xResult, Some app, 1, s)
       else do {
         (xResult, found, s) \<leftarrow> find_stored env label xResult s;
         Some (case found of None \<Rightarrow> (xResult, Some 0, count, s) | Some app \<Rightarrow> (xResult, Some app, 1, s)) } } }"

definition C_FindObjectsFinal :: "nat \<Rightarrow> 'w p11 \<Rightarrow> (CK_RV \<times> 'w p11) option" where
  "C_FindObjectsFinal xSession s = do {
     xResult \<leftarrow> PKCS11_SESSION_VALID_AND_MODULE_INITIALIZED xSession s;
     if xResult \<noteq> CKR_OK then Some (xResult, s)
     else do {
       x \<leftarrow> session_at xSession s;
       Some (if pxFindObjectLabel x = None then (CKR_OPERATION_NOT_INITIALIZED, s)
         else (CKR_OK, put_session xSession (x\<lparr>pxFindObjectLabel := None\<rparr>) s)) } }"

end
