(* ===== verification/P11Crypto.thy ===== *)
theory P11Crypto
  imports P11Session
begin

unbundle bit_operations_syntax

text \<open>
  iot_pkcs11_psa.c: digests, signatures, their verification and random numbers. Each is a small
  state machine in the session: an initialisation that sets the mechanism, the operation, its end.
\<close>

subsection \<open>Constants\<close>

definition pkcs11SHA256_DIGEST_LENGTH :: nat where "pkcs11SHA256_DIGEST_LENGTH = 32"
definition pkcs11ECDSA_P256_SIGNATURE_LENGTH :: nat where "pkcs11ECDSA_P256_SIGNATURE_LENGTH = 64"
definition pkcs11RSA_2048_SIGNATURE_LENGTH :: nat where "pkcs11RSA_2048_SIGNATURE_LENGTH = 256"
definition pkcs11RSA_SIGNATURE_INPUT_LENGTH :: nat where "pkcs11RSA_SIGNATURE_INPUT_LENGTH = 51"
definition pkcs11DER_ENCODED_OID_P256_LEGNTH :: nat where "pkcs11DER_ENCODED_OID_P256_LEGNTH = 19"
definition PSA_ERROR_INVALID_SIGNATURE :: int where "PSA_ERROR_INVALID_SIGNATURE = -149"
definition PSA_ERROR_BUFFER_TOO_SMALL :: int where "PSA_ERROR_BUFFER_TOO_SMALL = -138"

text \<open>The classification of algorithms of psa/crypto_values.h.\<close>

definition PSA_ALG_IS_RSA_PKCS1V15_SIGN :: "u32 \<Rightarrow> bool" where
  "PSA_ALG_IS_RSA_PKCS1V15_SIGN alg = (alg AND NOT 0xff = 0x06000200)"
definition PSA_ALG_IS_RSA_PSS :: "u32 \<Rightarrow> bool" where
  "PSA_ALG_IS_RSA_PSS alg = (alg AND NOT 0xff = 0x06000300 \<or> alg AND NOT 0xff = 0x06001300)"
definition PSA_ALG_IS_ECDSA :: "u32 \<Rightarrow> bool" where
  "PSA_ALG_IS_ECDSA alg = (alg AND NOT 0xff AND NOT 0x100 = 0x06000600)"

subsection \<open>Digests\<close>

text \<open>
  \<open>mechanism\<close> is \<open>pMechanism->mechanism\<close>. When the service refuses the setup the allocated
  operation is not freed.
\<close>

definition C_DigestInit ::
  "('w, 'z) p11_env_scheme \<Rightarrow> nat \<Rightarrow> u32 option \<Rightarrow> 'w p11 \<Rightarrow> (CK_RV \<times> 'w p11) option" where
  "C_DigestInit env xSession mechanism s = do {
     xResult \<leftarrow> PKCS11_SESSION_VALID_AND_MODULE_INITIALIZED xSession s;
     if xResult \<noteq> CKR_OK then Some (xResult, s)
     else case mechanism of
         None \<Rightarrow> Some (CKR_ARGUMENTS_BAD, s)
       | Some m \<Rightarrow>
           if m \<noteq> CKM_SHA256 then Some (CKR_MECHANISM_INVALID, s)
           else if \<not> heap_has env 4 (world s) then Some (CKR_HOST_MEMORY, s)
           else do {
             x \<leftarrow> session_at xSession s;
             let (uxStatus, h, w) = psa_hash_setup env PSA_ALG_SHA_256 (world s);
             let s = put_psa w s;
             Some (if uxStatus \<noteq> PSA_SUCCESS then (CKR_FUNCTION_FAILED, s)
               else (CKR_OK, put_session xSession (x\<lparr>xOperationInProgress := m, pxHashOperationHandle := Some h\<rparr>) s)) } }"

text \<open>\<open>part\<close> is the first \<open>ulPartLen\<close> bytes at \<open>pPart\<close>.\<close>

definition C_DigestUpdate ::
  "('w, 'z) p11_env_scheme \<Rightarrow> nat \<Rightarrow> bytes option \<Rightarrow> 'w p11 \<Rightarrow> (CK_RV \<times> 'w p11) option" where
  "C_DigestUpdate env xSession part s = do {
     xResult \<leftarrow> PKCS11_SESSION_VALID_AND_MODULE_INITIALIZED xSession s;
     if xResult \<noteq> CKR_OK then Some (xResult, s)
     else case part of
         None \<Rightarrow> Some (CKR_ARGUMENTS_BAD, s)
       | Some data \<Rightarrow> do {
           x \<leftarrow> session_at xSession s;
           (case pxHashOperationHandle x of
              None \<Rightarrow> Some (CKR_OPERATION_NOT_INITIALIZED, s)
            | Some h \<Rightarrow>
                if xOperationInProgress x \<noteq> CKM_SHA256 then Some (CKR_OPERATION_NOT_INITIALIZED, s)
                else let (uxStatus, w) = psa_hash_update env h data (world s)
                  in Some (if uxStatus \<noteq> PSA_SUCCESS
                    then let (uxStatus, w) = psa_hash_abort env h w
                      in (CKR_FUNCTION_FAILED, put_session xSession
                          (x\<lparr>pxHashOperationHandle := None, xOperationInProgress := pkcs11NO_OPERATION\<rparr>) (put_psa w s))
                    else (CKR_OK, put_psa w s))) } }"

text \<open>
  \<open>digest\<close> is the buffer at \<open>pDigest\<close>, \<open>len\<close> the value at \<open>pulDigestLen\<close>; both are part of the
  result.
\<close>

definition C_DigestFinal ::
  "('w, 'z) p11_env_scheme \<Rightarrow> nat \<Rightarrow> bytes option \<Rightarrow> nat option \<Rightarrow> 'w p11 \<Rightarrow>
   (CK_RV \<times> bytes option \<times> nat option \<times> 'w p11) option" where
  "C_DigestFinal env xSession digest len s = do {
     xResult \<leftarrow> PKCS11_SESSION_VALID_AND_MODULE_INITIALIZED xSession s;
     if xResult \<noteq> CKR_OK then Some (xResult, digest, len, s)
     else case len of
         None \<Rightarrow> Some (CKR_ARGUMENTS_BAD, digest, len, s)
       | Some n \<Rightarrow> do {
           x \<leftarrow> session_at xSession s;
           if xOperationInProgress x \<noteq> CKM_SHA256
           then Some (CKR_OPERATION_NOT_INITIALIZED, digest, len,
             put_session xSession (x\<lparr>xOperationInProgress := pkcs11NO_OPERATION\<rparr>) s)
           else (case digest of
               None \<Rightarrow> Some (CKR_OK, digest, Some pkcs11SHA256_DIGEST_LENGTH, s)
             | Some buf \<Rightarrow>
                 if n < pkcs11SHA256_DIGEST_LENGTH then Some (CKR_BUFFER_TOO_SMALL, digest, len, s)
                 else do {
                   h \<leftarrow> pxHashOperationHandle x;
                   let (uxStatus, hash, w) = psa_hash_finish env h n (world s);
                   buf \<leftarrow> write_at buf 0 hash;
                   Some (if uxStatus \<noteq> PSA_SUCCESS then CKR_FUNCTION_FAILED else CKR_OK, Some buf, Some (length hash),
                     put_session xSession (x\<lparr>xOperationInProgress := pkcs11NO_OPERATION, pxHashOperationHandle := None\<rparr>)
                       (put_psa w s)) }) } }"

subsection \<open>Signing\<close>

text \<open>Whether a mechanism and an algorithm go together, for the two uses.\<close>

definition check_mechanism :: "u32 \<Rightarrow> u32 \<Rightarrow> u32 \<Rightarrow> CK_RV" where
  "check_mechanism rsa mechanism alg =
     (if mechanism = rsa
      then if \<not> PSA_ALG_IS_RSA_PKCS1V15_SIGN alg \<and> \<not> PSA_ALG_IS_RSA_PSS alg then CKR_KEY_TYPE_INCONSISTENT else CKR_OK
      else if mechanism = CKM_ECDSA
      then if \<not> PSA_ALG_IS_ECDSA alg then CKR_KEY_TYPE_INCONSISTENT else CKR_OK
      else CKR_MECHANISM_INVALID)"

text \<open>What happens while the mutex is held: the session's key and algorithm.\<close>

definition sign_key ::
  "('w, 'z) p11_env_scheme \<Rightarrow> pal_handle \<Rightarrow> bytes option \<Rightarrow> nat \<Rightarrow> 'w p11 \<Rightarrow> session \<Rightarrow> (CK_RV \<times> session) option" where
  "sign_key env xPalHandle pcLabel xLabelLength s x =
     (if xPalHandle = eAwsDevicePrivateKey
      then do {
        label \<leftarrow> pcLabel;
        (xResult, uxKeyHandle) \<leftarrow> PKCS11PSAGetKeyHandle label xLabelLength (store s);
        if xResult = CKR_OK
        then let x = x\<lparr>uxSignKey := uxKeyHandle\<rparr>; (uxStatus, ty, bits) = psa_get_key_attributes env uxKeyHandle (world s)
          in Some (if uxStatus = PSA_SUCCESS
               then (CKR_OK, x\<lparr>xSignAlgorithm := psa_get_key_algorithm env uxKeyHandle (world s)\<rparr>)
               else (CKR_FUNCTION_FAILED, x))
        else Some (CKR_FUNCTION_FAILED, x) }
      else Some (CKR_KEY_HANDLE_INVALID, x\<lparr>uxSignKey := 0\<rparr>))"

definition C_SignInit ::
  "('w, 'z) p11_env_scheme \<Rightarrow> nat \<Rightarrow> u32 option \<Rightarrow> u32 \<Rightarrow> 'w p11 \<Rightarrow> (CK_RV \<times> 'w p11) option" where
  "C_SignInit env xSession mechanism xKey s = do {
     xResult \<leftarrow> PKCS11_SESSION_VALID_AND_MODULE_INITIALIZED xSession s;
     if xResult \<noteq> CKR_OK then Some (xResult, s)
     else case mechanism of
         None \<Rightarrow> Some (CKR_ARGUMENTS_BAD, s)
       | Some mech \<Rightarrow> do {
           (xPalHandle, pcLabel, xLabelLength) \<leftarrow> prvFindObjectInListByHandle xKey (ctx s);
           if xPalHandle = CK_INVALID_HANDLE then Some (CKR_KEY_HANDLE_INVALID, s)
           else do {
             x \<leftarrow> session_at xSession s;
             m \<leftarrow> xSemaphoreTake (xSignMutex x);
             (xResult, x) \<leftarrow> sign_key env xPalHandle pcLabel xLabelLength s (x\<lparr>xSignMutex := m\<rparr>);
             m \<leftarrow> xSemaphoreGive (xSignMutex x);
             let x = x\<lparr>xSignMutex := m\<rparr>;
             let xResult = (if xResult = CKR_OK then check_mechanism CKM_RSA_PKCS mech (xSignAlgorithm x) else xResult);
             Some (xResult, put_session xSession (if xResult = CKR_OK then x\<lparr>xSignMechanism := mech\<rparr> else x) s) } } }"

text \<open>
  The lengths of the signature and of the input that belong to the mechanism, and how many bytes of
  the input precede the hash.
\<close>

definition sign_lengths :: "u32 \<Rightarrow> (nat \<times> nat \<times> nat) option" where
  "sign_lengths mechanism =
     (if mechanism = CKM_RSA_PKCS
      then Some (pkcs11RSA_2048_SIGNATURE_LENGTH, pkcs11RSA_SIGNATURE_INPUT_LENGTH, pkcs11DER_ENCODED_OID_P256_LEGNTH)
      else if mechanism = CKM_ECDSA then Some (pkcs11ECDSA_P256_SIGNATURE_LENGTH, pkcs11SHA256_DIGEST_LENGTH, 0)
      else None)"

text \<open>The part of \<open>C_Sign\<close> that makes the signature, with the checks of the lengths.\<close>

definition sign_data ::
  "('w, 'z) p11_env_scheme \<Rightarrow> session \<Rightarrow> nat \<times> nat \<times> nat \<Rightarrow> bytes \<Rightarrow> nat \<Rightarrow> bytes \<Rightarrow> nat \<Rightarrow> 'w \<Rightarrow>
   (CK_RV \<times> bytes \<times> nat \<times> 'w) option" where
  "sign_data env x lengths data ulDataLen buf n w =
     (case lengths of (xSignatureLength, xExpectedInputLength, skip) \<Rightarrow>
        if n < xSignatureLength then Some (CKR_BUFFER_TOO_SMALL, buf, n, w)
        else if xExpectedInputLength \<noteq> ulDataLen then Some (CKR_DATA_LEN_RANGE, buf, n, w)
        else do {
          m \<leftarrow> xSemaphoreTake (xSignMutex x);
          if uxSignKey x = 0 then Some (CKR_KEY_HANDLE_INVALID, buf, n, w)
          else do {
            hash \<leftarrow> read_at data skip (ulDataLen - skip);
            let (uxStatus, signature, w) = psa_sign_hash env (uxSignKey x) (xSignAlgorithm x) hash n w;
            buf \<leftarrow> write_at buf 0 signature;
            Some (if uxStatus \<noteq> PSA_SUCCESS then CKR_FUNCTION_FAILED else CKR_OK, buf, length signature, w) } })"

text \<open>
  \<open>data\<close> is the buffer at \<open>pucData\<close>, \<open>sig\<close> the one at \<open>pucSignature\<close> and \<open>len\<close> the value at
  \<open>pulSignatureLen\<close>. Whatever the result, but for a buffer that is too small, the operation in the
  session ends; this writes to the session even when it was not valid.
\<close>

definition C_Sign ::
  "('w, 'z) p11_env_scheme \<Rightarrow> nat \<Rightarrow> bytes option \<Rightarrow> nat \<Rightarrow> bytes option \<Rightarrow> nat option \<Rightarrow> 'w p11 \<Rightarrow>
   (CK_RV \<times> bytes option \<times> nat option \<times> 'w p11) option" where
  "C_Sign env xSession data ulDataLen sig len s = do {
     xResult \<leftarrow> PKCS11_SESSION_VALID_AND_MODULE_INITIALIZED xSession s;
     x \<leftarrow> session_at xSession s;
     (xResult, sig, len, w) \<leftarrow>
       (if xResult \<noteq> CKR_OK then Some (xResult, sig, len, world s)
        else case (len, data) of
            (Some n, Some d) \<Rightarrow>
              (case sign_lengths (xSignMechanism x) of
                 None \<Rightarrow> Some (CKR_OPERATION_NOT_INITIALIZED, sig, len, world s)
               | Some lengths \<Rightarrow>
                   (case sig of
                      None \<Rightarrow> Some (CKR_OK, sig, len, world s)
                    | Some buf \<Rightarrow> do {
                        (xResult, buf, n, w) \<leftarrow> sign_data env x lengths d ulDataLen buf n (world s);
                        Some (xResult, Some buf, Some n, w) }))
          | _ \<Rightarrow> Some (CKR_ARGUMENTS_BAD, sig, len, world s));
     let x = (if xResult \<noteq> CKR_BUFFER_TOO_SMALL then x\<lparr>xSignMechanism := pkcs11NO_OPERATION\<rparr> else x);
     Some (xResult, sig, len, put_session xSession x (put_psa w s)) }"

subsection \<open>Verifying\<close>

definition verify_key ::
  "('w, 'z) p11_env_scheme \<Rightarrow> bytes option \<Rightarrow> nat \<Rightarrow> 'w p11 \<Rightarrow> session \<Rightarrow> (CK_RV \<times> session) option" where
  "verify_key env pcLabel xLabelLength s x = do {
     label \<leftarrow> pcLabel;
     (xResult, uxKeyHandle) \<leftarrow> PKCS11PSAGetKeyHandle label xLabelLength (store s);
     if xResult = CKR_OK
     then let x = x\<lparr>uxVerifyKey := uxKeyHandle\<rparr>; (uxStatus, ty, bits) = psa_get_key_attributes env uxKeyHandle (world s)
       in Some (if uxStatus \<noteq> PSA_SUCCESS then (CKR_FUNCTION_FAILED, x)
            else (CKR_OK, x\<lparr>xVerifyAlgorithm := psa_get_key_algorithm env uxKeyHandle (world s)\<rparr>))
     else Some (CKR_KEY_HANDLE_INVALID, x\<lparr>uxVerifyKey := 0\<rparr>) }"

text \<open>
  As written: an unknown handle clears the signing key, and the mechanism is checked against the
  algorithm of the signing key.
\<close>

definition C_VerifyInit ::
  "('w, 'z) p11_env_scheme \<Rightarrow> nat \<Rightarrow> u32 option \<Rightarrow> u32 \<Rightarrow> 'w p11 \<Rightarrow> (CK_RV \<times> 'w p11) option" where
  "C_VerifyInit env xSession mechanism xKey s = do {
     xResult \<leftarrow> PKCS11_SESSION_VALID_AND_MODULE_INITIALIZED xSession s;
     if xResult \<noteq> CKR_OK then Some (xResult, s)
     else case mechanism of
         None \<Rightarrow> Some (CKR_ARGUMENTS_BAD, s)
       | Some mech \<Rightarrow> do {
           (xPalHandle, pcLabel, xLabelLength) \<leftarrow> prvFindObjectInListByHandle xKey (ctx s);
           x \<leftarrow> session_at xSession s;
           if xPalHandle = CK_INVALID_HANDLE
           then Some (CKR_KEY_HANDLE_INVALID, put_session xSession (x\<lparr>uxSignKey := 0\<rparr>) s)
           else do {
             m \<leftarrow> xSemaphoreTake (xVerifyMutex x);
             (xResult, x) \<leftarrow> verify_key env pcLabel xLabelLength s (x\<lparr>xVerifyMutex := m\<rparr>);
             m \<leftarrow> xSemaphoreGive (xVerifyMutex x);
             let x = x\<lparr>xVerifyMutex := m\<rparr>;
             let xResult = (if xResult = CKR_OK then check_mechanism CKM_RSA_X_509 mech (xSignAlgorithm x) else xResult);
             Some (xResult, put_session xSession (if xResult = CKR_OK then x\<lparr>xVerifyMechanism := mech\<rparr> else x) s) } } }"

definition verify_lengths :: "u32 \<Rightarrow> nat \<Rightarrow> nat \<Rightarrow> CK_RV" where
  "verify_lengths mechanism ulDataLen ulSignatureLen =
     (if mechanism = CKM_RSA_X_509
         then if ulSignatureLen \<noteq> pkcs11RSA_2048_SIGNATURE_LENGTH then CKR_SIGNATURE_LEN_RANGE
           else if ulDataLen \<noteq> pkcs11RSA_2048_SIGNATURE_LENGTH then CKR_DATA_LEN_RANGE else CKR_OK
         else if mechanism = CKM_ECDSA
         then if ulSignatureLen \<noteq> pkcs11ECDSA_P256_SIGNATURE_LENGTH then CKR_SIGNATURE_LEN_RANGE
           else if ulDataLen \<noteq> pkcs11SHA256_DIGEST_LENGTH then CKR_DATA_LEN_RANGE else CKR_OK
         else CKR_OPERATION_NOT_INITIALIZED)"

text \<open>The data and the signature are the \<open>ulDataLen\<close> and \<open>ulSignatureLen\<close> bytes that are passed.\<close>

definition C_Verify ::
  "('w, 'z) p11_env_scheme \<Rightarrow> nat \<Rightarrow> bytes option \<Rightarrow> bytes option \<Rightarrow> 'w p11 \<Rightarrow> CK_RV option" where
  "C_Verify env xSession data sig s = do {
     xResult \<leftarrow> PKCS11_SESSION_VALID_AND_MODULE_INITIALIZED xSession s;
     if xResult \<noteq> CKR_OK then Some xResult
     else case (data, sig) of
         (Some d, Some g) \<Rightarrow> do {
           x \<leftarrow> session_at xSession s;
           let xResult = verify_lengths (xVerifyMechanism x) (length d) (length g);
           if xResult \<noteq> CKR_OK then Some xResult
           else do {
             m \<leftarrow> xSemaphoreTake (xVerifyMutex x);
             if uxVerifyKey x = 0 then Some CKR_KEY_HANDLE_INVALID
             else let uxStatus = psa_verify_hash env (uxVerifyKey x) (xVerifyAlgorithm x) d g (world s)
               in Some (if uxStatus = PSA_SUCCESS then CKR_OK
                    else if uxStatus = PSA_ERROR_INVALID_SIGNATURE \<or> uxStatus = PSA_ERROR_BUFFER_TOO_SMALL
                    then CKR_SIGNATURE_INVALID else CKR_FUNCTION_FAILED) } }
       | _ \<Rightarrow> Some CKR_ARGUMENTS_BAD }"

subsection \<open>Random numbers\<close>

text \<open>Neither the session nor the initialisation of the module is looked at.\<close>

definition C_GenerateRandom ::
  "('w, 'z) p11_env_scheme \<Rightarrow> bytes option \<Rightarrow> nat \<Rightarrow> 'w p11 \<Rightarrow> (CK_RV \<times> bytes option \<times> 'w p11) option" where
  "C_GenerateRandom env buf n s =
     (case buf of
        None \<Rightarrow> Some (CKR_ARGUMENTS_BAD, buf, s)
      | Some b \<Rightarrow>
          if n = 0 then Some (CKR_ARGUMENTS_BAD, buf, s)
          else do {
            let (uxStatus, r, w) = psa_generate_random env n (world s);
            b \<leftarrow> write_at b 0 r;
            Some (if uxStatus \<noteq> PSA_SUCCESS then CKR_FUNCTION_FAILED else CKR_OK, Some b, put_psa w s) })"

subsection \<open>A session that can be used\<close>

definition ready :: "nat \<Rightarrow> session \<Rightarrow> 'w p11 \<Rightarrow> bool" where
  "ready h x s = (xIsInitialized (ctx s) \<and> h \<noteq> 0 \<and> sessions s h = Some x \<and> xOpened x)"

lemma ready_valid:
  "ready h x s \<Longrightarrow> PKCS11_SESSION_VALID_AND_MODULE_INITIALIZED h s = Some CKR_OK"
  by (simp add: ready_def PKCS11_SESSION_VALID_AND_MODULE_INITIALIZED_def session_at_def)

lemma ready_at: "ready h x s \<Longrightarrow> session_at h s = Some x"
  by (simp add: ready_def session_at_def)

lemma valid_ready:
  "PKCS11_SESSION_VALID_AND_MODULE_INITIALIZED h s = Some CKR_OK \<Longrightarrow> \<exists>x. ready h x s"
  by (auto simp: ready_def PKCS11_SESSION_VALID_AND_MODULE_INITIALIZED_def session_at_def split: if_splits)

lemma ready_put: "ready h x s \<Longrightarrow> xOpened y \<Longrightarrow> ready h y (put_session h y s)"
  by (simp add: ready_def put_session_def)

lemma put_simps [simp]:
  "ctx (put_session h x s) = ctx s" "store (put_session h x s) = store s"
  "ctx (put_psa w s) = ctx s" "psa (store (put_psa w s)) = w" "sessions (put_psa w s) = sessions s"
  "sessions (put_session h x s) = (sessions s)(h \<mapsto> x)"
  by (simp_all add: put_session_def put_psa_def)

lemma ready_psa: "ready h x (put_psa w s) = ready h x s"
  by (simp add: ready_def)

subsection \<open>Digests of several parts\<close>

text \<open>
  What PSA Crypto promises of a multi-part hash: an operation accumulates the data it is given and its
  end delivers the hash of all of it, never more bytes than the buffer has.
\<close>

locale hash_service =
  fixes env :: "('w, 'z) p11_env_scheme" and H :: "bytes \<Rightarrow> bytes" and acc :: "'w \<Rightarrow> u32 \<Rightarrow> bytes option"
  assumes setup_empty: "psa_hash_setup env PSA_ALG_SHA_256 w = (PSA_SUCCESS, op, w') \<Longrightarrow> acc w' op = Some []"
    and update_appends: "psa_hash_update env op d w = (PSA_SUCCESS, w') \<Longrightarrow> acc w op = Some p \<Longrightarrow> acc w' op = Some (p @ d)"
    and finish_hash: "psa_hash_finish env op n w = (PSA_SUCCESS, r, w') \<Longrightarrow> acc w op = Some p \<Longrightarrow> r = H p"
    and finish_bound: "psa_hash_finish env op n w = (st, r, w') \<Longrightarrow> length r \<le> n"
    and length_H: "length (H p) = pkcs11SHA256_DIGEST_LENGTH"
begin

text \<open>The session has accumulated \<open>p\<close>.\<close>

definition hashing :: "nat \<Rightarrow> bytes \<Rightarrow> 'w p11 \<Rightarrow> bool" where
  "hashing h p s = (\<exists>x op. ready h x s \<and> xOperationInProgress x = CKM_SHA256 \<and>
     pxHashOperationHandle x = Some op \<and> acc (world s) op = Some p)"

lemma digest_init:
  assumes "C_DigestInit env h (Some CKM_SHA256) s = Some (CKR_OK, s')"
  shows "hashing h [] s'"
proof -
  from assms valid_ready obtain x where r: "ready h x s"
    by (auto simp: C_DigestInit_def split: if_splits)
  obtain st op w where u: "psa_hash_setup env PSA_ALG_SHA_256 (world s) = (st, op, w)" by (metis prod_cases3)
  from assms u have "st = PSA_SUCCESS" "s' = put_session h (x\<lparr>xOperationInProgress := CKM_SHA256, pxHashOperationHandle := Some op\<rparr>) (put_psa w s)"
    unfolding C_DigestInit_def ready_valid [OF r] ready_at [OF r] by (auto simp: Let_def split: if_splits)
  with setup_empty u r show ?thesis by (auto simp: hashing_def ready_def)
qed

lemma digest_update:
  assumes "hashing h p s" and "C_DigestUpdate env h (Some d) s = Some (CKR_OK, s')"
  shows "hashing h (p @ d) s'"
proof -
  from assms(1) obtain x op where r: "ready h x s" "xOperationInProgress x = CKM_SHA256"
    "pxHashOperationHandle x = Some op" "acc (world s) op = Some p" by (auto simp: hashing_def)
  obtain st w where u: "psa_hash_update env op d (world s) = (st, w)" by fastforce
  from assms(2) r u have "st = PSA_SUCCESS" "s' = put_psa w s"
    unfolding C_DigestUpdate_def ready_valid [OF r(1)] ready_at [OF r(1)]
    by (auto split: if_splits prod.splits)
  with update_appends u r show ?thesis by (auto simp: hashing_def ready_psa)
qed

text \<open>A run of updates that all succeed.\<close>

lemma digest_updates:
  assumes "hashing h p s"
    and "for_each parts (\<lambda>d s. do { (rc, s) \<leftarrow> C_DigestUpdate env h (Some d) s; if rc = CKR_OK then Some s else None }) s = Some s'"
  shows "hashing h (p @ concat parts) s'"
  using assms
proof (induction parts arbitrary: p s)
  case (Cons d parts)
  from Cons.prems(2) obtain s1 where "C_DigestUpdate env h (Some d) s = Some (CKR_OK, s1)"
    "for_each parts (\<lambda>d s. do { (rc, s) \<leftarrow> C_DigestUpdate env h (Some d) s; if rc = CKR_OK then Some s else None }) s1 = Some s'"
    by (auto split: if_splits)
  with digest_update [OF Cons.prems(1)] Cons.IH [of "p @ d" s1] show ?case by simp
qed simp

lemma digest_final:
  assumes "hashing h p s" and "pkcs11SHA256_DIGEST_LENGTH \<le> n" and "n \<le> length buf"
  shows "\<exists>rc r len s' x. C_DigestFinal env h (Some buf) (Some n) s = Some (rc, r, len, s') \<and>
    (rc = CKR_OK \<and> r = Some (H p @ drop pkcs11SHA256_DIGEST_LENGTH buf) \<and> len = Some pkcs11SHA256_DIGEST_LENGTH \<or>
     rc = CKR_FUNCTION_FAILED) \<and>
    ready h x s' \<and> xOperationInProgress x = pkcs11NO_OPERATION \<and> pxHashOperationHandle x = None"
proof -
  from assms(1) obtain x op where r: "ready h x s" "xOperationInProgress x = CKM_SHA256"
    "pxHashOperationHandle x = Some op" "acc (world s) op = Some p" by (auto simp: hashing_def)
  obtain st hash w where u: "psa_hash_finish env op n (world s) = (st, hash, w)" by (metis prod_cases3)
  from finish_bound [OF u] assms(3) have wr: "write_at buf 0 hash = Some (hash @ drop (length hash) buf)"
    by (simp add: write_at_def)
  let ?x = "x\<lparr>xOperationInProgress := pkcs11NO_OPERATION, pxHashOperationHandle := None\<rparr>"
  have f: "C_DigestFinal env h (Some buf) (Some n) s =
      Some (if st \<noteq> PSA_SUCCESS then CKR_FUNCTION_FAILED else CKR_OK, Some (hash @ drop (length hash) buf),
        Some (length hash), put_session h ?x (put_psa w s))"
    unfolding C_DigestFinal_def ready_valid [OF r(1)] ready_at [OF r(1)]
    using r(2,3) u assms(2) wr by (simp del: write_at_Some)
  have "ready h ?x (put_session h ?x (put_psa w s))"
    using r(1) by (intro ready_put [of h x]) (auto simp: ready_psa ready_def)
  moreover have "st = PSA_SUCCESS \<Longrightarrow> hash = H p" using finish_hash u r(4) by blast
  ultimately show ?thesis unfolding f using length_H [of p]
    by (intro exI [of _ "if st \<noteq> PSA_SUCCESS then CKR_FUNCTION_FAILED else CKR_OK"]
      exI [of _ "Some (hash @ drop (length hash) buf)"] exI [of _ "Some (length hash)"]
      exI [of _ "put_session h ?x (put_psa w s)"] exI [of _ ?x]) simp
qed

end

text \<open>The parts of a digest, each update succeeding.\<close>

definition digest_parts ::
  "('w, 'z) p11_env_scheme \<Rightarrow> nat \<Rightarrow> bytes list \<Rightarrow> 'w p11 \<Rightarrow> 'w p11 option" where
  "digest_parts env h parts = for_each parts (\<lambda>d s. do {
     (rc, s) \<leftarrow> C_DigestUpdate env h (Some d) s;
     if rc = CKR_OK then Some s else None })"

text \<open>
  C22: a digest that is initialised and given its data in parts delivers the hash of the parts
  put together in the first 32 bytes of the buffer, or the service's failure; in both cases the
  session is ready for the next operation.
\<close>

theorem C_Digest_correct:
  assumes "hash_service env H acc" and "C_DigestInit env h (Some CKM_SHA256) s = Some (CKR_OK, s1)"
    and "digest_parts env h parts s1 = Some s2"
    and "pkcs11SHA256_DIGEST_LENGTH \<le> n" and "n \<le> length buf"
  shows "\<exists>rc r len s3 x. C_DigestFinal env h (Some buf) (Some n) s2 = Some (rc, r, len, s3) \<and>
    (rc = CKR_OK \<and> r = Some (H (concat parts) @ drop pkcs11SHA256_DIGEST_LENGTH buf) \<and> len = Some pkcs11SHA256_DIGEST_LENGTH \<or>
     rc = CKR_FUNCTION_FAILED) \<and>
    ready h x s3 \<and> xOperationInProgress x = pkcs11NO_OPERATION \<and> pxHashOperationHandle x = None"
  using hash_service.digest_final [OF assms(1) hash_service.digest_updates [OF assms(1)
    hash_service.digest_init [OF assms(1,2)] assms(3) [unfolded digest_parts_def], unfolded append.simps] assms(4,5)] .

subsection \<open>A secure side for the examples\<close>

definition toy_hash :: "bytes \<Rightarrow> bytes" where
  "toy_hash p = take 32 (p @ replicate 32 0)"

text \<open>
  A key context that holds what was read into it: the last scalar is the private value of an
  elliptic curve key.
\<close>

fun call_bytes :: "key_call \<Rightarrow> bytes" where
  "call_bytes (RsaPart p d) = d"
| "call_bytes (EcScalar d) = d"
| "call_bytes (EcPoint d) = d"

definition toy_context :: "key_call list \<Rightarrow> pk_context" where
  "toy_context calls = \<lparr>pk_type = MBEDTLS_PK_ECKEY, pk_padding = MBEDTLS_RSA_OTHER,
     pk_curve = MBEDTLS_ECP_DP_SECP256R1, pk_nbits = 256,
     pk_secret = (\<lambda>n. let d = concat (map call_bytes calls) in if length d = n then Some d else None)\<rparr>"

text \<open>
  \<open>reference_psa\<close> with one hash operation, whose data is kept beside the keys, and a signature that
  is the hash twice.
\<close>

definition reference_p11 :: "((nat \<rightharpoonup> bytes) \<times> (u32 \<rightharpoonup> bytes)) p11_env" where
  "reference_p11 = psa_env.extend reference_psa (p11_env.fields
     (\<lambda>used w. if 1 \<in> used then None else Some 1)
     (\<lambda>w. True) (\<lambda>w. True) (\<lambda>w. True)
     (\<lambda>k w. if snd w k = None then (PSA_ERROR_DOES_NOT_EXIST, 0, w) else (PSA_SUCCESS, k, w))
     (\<lambda>k w. PSA_ALG_ECDSA PSA_ALG_SHA_256)
     (\<lambda>alg w. (PSA_SUCCESS, 0x200, fst w, (snd w)(0x200 \<mapsto> [])))
     (\<lambda>op d w. case snd w op of None \<Rightarrow> (PSA_ERROR_GENERIC_ERROR, w) | Some p \<Rightarrow> (PSA_SUCCESS, fst w, (snd w)(op \<mapsto> p @ d)))
     (\<lambda>op w. (PSA_SUCCESS, fst w, (snd w)(op := None)))
     (\<lambda>op n w. case snd w op of None \<Rightarrow> (PSA_ERROR_GENERIC_ERROR, [], w)
       | Some p \<Rightarrow> if n < 32 then (PSA_ERROR_GENERIC_ERROR, [], w) else (PSA_SUCCESS, toy_hash p, fst w, (snd w)(op := None)))
     (\<lambda>k alg hash n w. if n < 64 \<or> length hash \<noteq> 32 then (PSA_ERROR_GENERIC_ERROR, [], w) else (PSA_SUCCESS, hash @ hash, w))
     (\<lambda>k alg hash g w. if g = hash @ hash then PSA_SUCCESS else PSA_ERROR_INVALID_SIGNATURE)
     (\<lambda>n w. (PSA_SUCCESS, replicate n 4, w))
     (\<lambda>a bits w. case ka_id a of None \<Rightarrow> (PSA_ERROR_GENERIC_ERROR, 0, w)
       | Some k \<Rightarrow> (PSA_SUCCESS, k, fst w, (snd w)(k \<mapsto> replicate 32 6)))
     (\<lambda>k n w. case snd w k of None \<Rightarrow> (PSA_ERROR_DOES_NOT_EXIST, []) | Some d \<Rightarrow> (PSA_SUCCESS, 4 # d @ d))
     36 (\<lambda>kind w. True) (\<lambda>kind w. True)
     (\<lambda>kind calls c. True)
     (\<lambda>kind calls. toy_context calls)
     (\<lambda>kind calls n. Some (concat (map call_bytes calls)))
     (\<lambda>kind calls n. Some (concat (map call_bytes calls))))"

lemma reference_p11_simps:
  "psa_hash_setup reference_p11 alg w = (PSA_SUCCESS, 0x200, fst w, (snd w)(0x200 \<mapsto> []))"
  "psa_hash_update reference_p11 op d w = (case snd w op of None \<Rightarrow> (PSA_ERROR_GENERIC_ERROR, w)
     | Some p \<Rightarrow> (PSA_SUCCESS, fst w, (snd w)(op \<mapsto> p @ d)))"
  "psa_hash_finish reference_p11 op n w = (case snd w op of None \<Rightarrow> (PSA_ERROR_GENERIC_ERROR, [], w)
     | Some p \<Rightarrow> if n < 32 then (PSA_ERROR_GENERIC_ERROR, [], w) else (PSA_SUCCESS, toy_hash p, fst w, (snd w)(op := None)))"
  "psa_sign_hash reference_p11 k alg hash n w = (if n < 64 \<or> length hash \<noteq> 32 then (PSA_ERROR_GENERIC_ERROR, [], w)
     else (PSA_SUCCESS, hash @ hash, w))"
  "psa_verify_hash reference_p11 k alg hash g w = (if g = hash @ hash then PSA_SUCCESS else PSA_ERROR_INVALID_SIGNATURE)"
  "psa_get_key_algorithm reference_p11 k w = PSA_ALG_ECDSA PSA_ALG_SHA_256"
  "heap_has reference_p11 n w = True"
  "psa_get_key_attributes reference_p11 = psa_get_key_attributes reference_psa"
  "session_address reference_p11 used w = (if 1 \<in> used then None else Some 1)"
  "psa_env.truncate reference_p11 = reference_psa"
  by (simp_all add: reference_p11_def reference_psa_def psa_env.defs p11_env.defs)

interpretation reference_hash: hash_service reference_p11 toy_hash "\<lambda>w op. snd w op"
  by unfold_locales (auto simp: reference_p11_simps PSA_ERROR_GENERIC_ERROR_def PSA_SUCCESS_def toy_hash_def
    pkcs11SHA256_DIGEST_LENGTH_def split: option.splits if_splits)

text \<open>An initialised module with the open session 1 and the device key in the list and in the store.\<close>

definition demo_session :: session where
  "demo_session = zero_session\<lparr>xSignMutex := Free, xVerifyMutex := Free, xOpened := True,
     xOperationInProgress := pkcs11NO_OPERATION\<rparr>"

definition demo_p11 :: "((nat \<rightharpoonup> bytes) \<times> (u32 \<rightharpoonup> bytes)) p11" where
  "demo_p11 = \<lparr>ctx = demo_list, store = demo_with_key, sessions = [1 \<mapsto> demo_session]\<rparr>"

lemma demo_ready: "ready 1 demo_session demo_p11"
  by (simp add: ready_def demo_p11_def demo_session_def demo_list_def fresh_context_def)

theorem C_Digest_correct_witness:
  "\<exists>s1 s2 rc r len s3. C_DigestInit reference_p11 1 (Some CKM_SHA256) demo_p11 = Some (CKR_OK, s1) \<and>
     digest_parts reference_p11 1 [[1, 2], [3]] s1 = Some s2 \<and>
     C_DigestFinal reference_p11 1 (Some (replicate 33 9)) (Some 32) s2 = Some (rc, r, len, s3) \<and>
     (rc = CKR_OK \<and> r = Some (toy_hash [1, 2, 3] @ [9]) \<or> rc = CKR_FUNCTION_FAILED)"
proof -
  obtain s1 where s1: "C_DigestInit reference_p11 1 (Some CKM_SHA256) demo_p11 = Some (CKR_OK, s1)"
    unfolding C_DigestInit_def ready_valid [OF demo_ready] ready_at [OF demo_ready] by (simp add: Let_def reference_p11_simps)
  from reference_hash.digest_init [OF s1] obtain x op where x: "ready 1 x s1" "xOperationInProgress x = CKM_SHA256"
    "pxHashOperationHandle x = Some op" "snd (world s1) op = Some []" by (auto simp: reference_hash.hashing_def)
  obtain s2 where s2: "digest_parts reference_p11 1 [[1, 2], [3]] s1 = Some s2"
  proof -
    note y = ready_psa [THEN iffD2, OF x(1)]
    have "C_DigestUpdate reference_p11 1 (Some [1, 2]) s1 = Some (CKR_OK, put_psa (fst (world s1), (snd (world s1))(op \<mapsto> [1, 2])) s1)"
      unfolding C_DigestUpdate_def ready_valid [OF x(1)] ready_at [OF x(1)] using x(2-4) by (simp add: Let_def reference_p11_simps)
    moreover have "\<exists>s2. C_DigestUpdate reference_p11 1 (Some [3]) (put_psa (fst (world s1), (snd (world s1))(op \<mapsto> [1, 2])) s1) = Some (CKR_OK, s2)"
      unfolding C_DigestUpdate_def ready_valid [OF y] ready_at [OF y] using x(2-4) by (simp add: Let_def reference_p11_simps)
    ultimately show ?thesis using that by (auto simp: digest_parts_def simp del: One_nat_def)
  qed
  have d: "drop 32 (replicate 33 (9 :: u8)) = [9]" by (simp add: eval_nat_numeral)
  from C_Digest_correct [OF reference_hash.hash_service_axioms s1 s2, of 32 "replicate 33 9"] s1 s2 show ?thesis
    unfolding pkcs11SHA256_DIGEST_LENGTH_def d by auto
qed

subsection \<open>Signatures\<close>

text \<open>
  The key of the object with the application's handle \<open>i + 1\<close>: the list says which PAL object it is,
  under its own label, and the store has its key.
\<close>

definition key_of :: "nat \<Rightarrow> pal_handle \<Rightarrow> u32 \<Rightarrow> 'w p11 \<Rightarrow> bool" where
  "key_of i h k s = (list_inv (ctx s) \<and> i < pkcs11configMAX_NUM_OBJECTS \<and> is_key h \<and>
     (\<exists>l. entries (ctx s) i = Some (h, l) \<and> label_handle l = h) \<and> stored (store s) h = Some k)"

lemma key_of_lookup:
  assumes "key_of i h k s"
  shows "\<exists>label n. prvFindObjectInListByHandle (of_nat (i + 1)) (ctx s) = Some (h, Some label, n) \<and>
    PKCS11PSAGetKeyHandle label n (store s) = Some (CKR_OK, k)"
proof -
  from assms obtain l where l: "list_inv (ctx s)" "i < pkcs11configMAX_NUM_OBJECTS" "is_key h"
    "entries (ctx s) i = Some (h, l)" "label_handle l = h" "stored (store s) h = Some k" by (auto simp: key_of_def)
  let ?label = "xLabel (xObjects (ctx s) ! i)"
  from l(1,2) have "xObjects (ctx s) ! i \<in> set (xObjects (ctx s))" by (simp add: list_inv_def)
  with l(1) have t: "terminated ?label" by (intro object_label_terminated) (simp add: list_inv_def)
  from l(4) have c: "c_str ?label = l" by (auto simp: entries_def split: if_splits)
  have "label_arg ?label (length l + 1) l" using own_label [OF t] c by simp
  moreover have "label_handle l \<noteq> eInvalidHandle" using l(3,5) by (auto simp: is_key_def)
  ultimately have "PKCS11PSAGetKeyHandle ?label (length l + 1) (store s) = Some (CKR_OK, k)"
    using get_key_handle [of ?label "length l + 1" l "store s"] l(3,5,6) by simp
  with find_by_handle [OF l(1,2)] l(4) show ?thesis by auto
qed

lemma key_handle_not_invalid: "is_key h \<Longrightarrow> h \<noteq> CK_INVALID_HANDLE"
  by (auto simp: is_key_def CK_INVALID_HANDLE_def pal_handle_defs)

lemma sign_init:
  assumes "ready h x s" and "xSignMutex x = Free" and "key_of i eAwsDevicePrivateKey k s"
    and "fst (psa_get_key_attributes env k (world s)) = PSA_SUCCESS"
    and "alg = psa_get_key_algorithm env k (world s)" and "check_mechanism CKM_RSA_PKCS mech alg = CKR_OK"
  shows "C_SignInit env h (Some mech) (of_nat (i + 1)) s =
    Some (CKR_OK, put_session h (x\<lparr>uxSignKey := k, xSignAlgorithm := alg, xSignMutex := Free, xSignMechanism := mech\<rparr>) s)"
proof -
  from key_of_lookup [OF assms(3)] obtain label n where
    l: "prvFindObjectInListByHandle (of_nat (i + 1)) (ctx s) = Some (eAwsDevicePrivateKey, Some label, n)"
      "PKCS11PSAGetKeyHandle label n (store s) = Some (CKR_OK, k)" by blast
  obtain ty bits where a: "psa_get_key_attributes env k (world s) = (PSA_SUCCESS, ty, bits)"
    using assms(4) by (metis prod.collapse)
  have nz: "eAwsDevicePrivateKey \<noteq> CK_INVALID_HANDLE" by (simp add: CK_INVALID_HANDLE_def pal_handle_defs)
  have sk: "sign_key env eAwsDevicePrivateKey (Some label) n s (x\<lparr>xSignMutex := Held\<rparr>) =
      Some (CKR_OK, x\<lparr>xSignMutex := Held, uxSignKey := k, xSignAlgorithm := alg\<rparr>)"
    unfolding sign_key_def using l(2) a assms(5) by (simp add: Let_def)
  show ?thesis
    unfolding C_SignInit_def ready_valid [OF assms(1)] Option.bind.simps option.case l(1) ready_at [OF assms(1)] case_prod_conv
    using nz sk assms(2,6) by (simp add: Let_def)
qed

lemma sign_once:
  assumes "ready h x s" and "xSignMutex x = Free" and "xSignMechanism x = CKM_ECDSA" and "uxSignKey x \<noteq> 0"
    and "psa_sign_hash env (uxSignKey x) (xSignAlgorithm x) data n (world s) = (st, g, w)"
    and "length data = pkcs11SHA256_DIGEST_LENGTH" and "pkcs11ECDSA_P256_SIGNATURE_LENGTH \<le> n" and "length g \<le> length buf"
  shows "C_Sign env h (Some data) (length data) (Some buf) (Some n) s =
    Some (if st = PSA_SUCCESS then CKR_OK else CKR_FUNCTION_FAILED, Some (g @ drop (length g) buf), Some (length g),
      put_session h (x\<lparr>xSignMechanism := pkcs11NO_OPERATION\<rparr>) (put_psa w s))"
proof -
  have m: "CKM_ECDSA \<noteq> CKM_RSA_PKCS" by (simp add: mechanism_defs)
  then have ln: "sign_lengths (xSignMechanism x) = Some (pkcs11ECDSA_P256_SIGNATURE_LENGTH, pkcs11SHA256_DIGEST_LENGTH, 0)"
    using assms(3) by (simp add: sign_lengths_def)
  have wr: "write_at buf 0 g = Some (g @ drop (length g) buf)" using assms(8) by (simp add: write_at_def)
  have rd: "read_at data 0 (length data - 0) = Some data" by (simp add: read_at_def del: read_at_Some)
  have sd: "sign_data env x (pkcs11ECDSA_P256_SIGNATURE_LENGTH, pkcs11SHA256_DIGEST_LENGTH, 0) data (length data) buf n (world s) =
      Some (if st \<noteq> PSA_SUCCESS then CKR_FUNCTION_FAILED else CKR_OK, g @ drop (length g) buf, length g, w)"
    unfolding sign_data_def using assms(2,4-7) wr rd by (simp del: write_at_Some read_at_Some)
  show ?thesis
    unfolding C_Sign_def ready_valid [OF assms(1)] ready_at [OF assms(1)] Option.bind.simps ln option.case case_prod_conv sd
    by (simp add: Let_def)
qed

text \<open>
  C11: signing a digest with the device key. After an initialisation with the key's handle, whose
  algorithm is ECDSA, \<open>C_Sign\<close> delivers what the service makes of the digest under exactly that key,
  or its failure, and with that the operation is over: another \<open>C_Sign\<close> is refused.
\<close>

theorem C_Sign_correct:
  assumes "ready h x s" and "xSignMutex x = Free" and "key_of i eAwsDevicePrivateKey k s" and "k \<noteq> 0"
    and "fst (psa_get_key_attributes env k (world s)) = PSA_SUCCESS"
    and "alg = psa_get_key_algorithm env k (world s)" and "PSA_ALG_IS_ECDSA alg"
    and "psa_sign_hash env k alg data n (world s) = (st, g, w)"
    and "length data = pkcs11SHA256_DIGEST_LENGTH" and "pkcs11ECDSA_P256_SIGNATURE_LENGTH \<le> n" and "length g \<le> length buf"
  shows "\<exists>s1 s2. C_SignInit env h (Some CKM_ECDSA) (of_nat (i + 1)) s = Some (CKR_OK, s1) \<and>
    C_Sign env h (Some data) (length data) (Some buf) (Some n) s1 =
      Some (if st = PSA_SUCCESS then CKR_OK else CKR_FUNCTION_FAILED, Some (g @ drop (length g) buf), Some (length g), s2) \<and>
    world s2 = w \<and>
    (\<exists>s3. C_Sign env h (Some data) (length data) (Some buf) (Some n) s2 = Some (CKR_OPERATION_NOT_INITIALIZED, Some buf, Some n, s3))"
proof -
  have c: "check_mechanism CKM_RSA_PKCS CKM_ECDSA alg = CKR_OK"
    using assms(7) by (simp add: check_mechanism_def mechanism_defs)
  let ?x = "x\<lparr>uxSignKey := k, xSignAlgorithm := alg, xSignMutex := Free, xSignMechanism := CKM_ECDSA\<rparr>"
  let ?s1 = "put_session h ?x s"
  have r1: "ready h ?x ?s1" using assms(1) by (intro ready_put) (auto simp: ready_def)
  let ?y = "?x\<lparr>xSignMechanism := pkcs11NO_OPERATION\<rparr>"
  let ?s2 = "put_session h ?y (put_psa w ?s1)"
  have r2: "ready h ?y ?s2" using r1 by (intro ready_put [of h ?x]) (auto simp: ready_psa ready_def)
  note init = sign_init [OF assms(1-3,5,6) c]
  have sign: "C_Sign env h (Some data) (length data) (Some buf) (Some n) ?s1 =
      Some (if st = PSA_SUCCESS then CKR_OK else CKR_FUNCTION_FAILED, Some (g @ drop (length g) buf), Some (length g), ?s2)"
    using sign_once [OF r1, of env data n st g w buf] assms(4,8-11) by simp
  have "sign_lengths (xSignMechanism ?y) = None" by (simp add: sign_lengths_def mechanism_defs)
  then have again: "\<exists>s3. C_Sign env h (Some data) (length data) (Some buf) (Some n) ?s2 =
      Some (CKR_OPERATION_NOT_INITIALIZED, Some buf, Some n, s3)"
    unfolding C_Sign_def ready_valid [OF r2] ready_at [OF r2] by (simp add: Let_def)
  show ?thesis using init sign again by (intro exI [of _ ?s1] exI [of _ ?s2]) simp
qed

lemma verify_init:
  assumes "ready h x s" and "xVerifyMutex x = Free" and "key_of i p k s"
    and "fst (psa_get_key_attributes env k (world s)) = PSA_SUCCESS"
    and "alg = psa_get_key_algorithm env k (world s)" and "check_mechanism CKM_RSA_X_509 mech (xSignAlgorithm x) = CKR_OK"
  shows "C_VerifyInit env h (Some mech) (of_nat (i + 1)) s =
    Some (CKR_OK, put_session h (x\<lparr>uxVerifyKey := k, xVerifyAlgorithm := alg, xVerifyMutex := Free, xVerifyMechanism := mech\<rparr>) s)"
proof -
  from key_of_lookup [OF assms(3)] obtain label n where
    l: "prvFindObjectInListByHandle (of_nat (i + 1)) (ctx s) = Some (p, Some label, n)"
      "PKCS11PSAGetKeyHandle label n (store s) = Some (CKR_OK, k)" by blast
  obtain ty bits where a: "psa_get_key_attributes env k (world s) = (PSA_SUCCESS, ty, bits)"
    using assms(4) by (metis prod.collapse)
  have nz: "p \<noteq> CK_INVALID_HANDLE" using assms(3) by (auto simp: key_of_def dest: key_handle_not_invalid)
  have vk: "verify_key env (Some label) n s (x\<lparr>xVerifyMutex := Held\<rparr>) =
      Some (CKR_OK, x\<lparr>xVerifyMutex := Held, uxVerifyKey := k, xVerifyAlgorithm := alg\<rparr>)"
    unfolding verify_key_def using l(2) a assms(5) by (simp add: Let_def)
  show ?thesis
    unfolding C_VerifyInit_def ready_valid [OF assms(1)] Option.bind.simps option.case l(1) ready_at [OF assms(1)] case_prod_conv
    using nz vk assms(2,6) by (simp add: Let_def)
qed

lemma verify_once:
  assumes "ready h x s" and "xVerifyMutex x = Free" and "xVerifyMechanism x = CKM_ECDSA" and "uxVerifyKey x \<noteq> 0"
    and "length d = pkcs11SHA256_DIGEST_LENGTH" and "length g = pkcs11ECDSA_P256_SIGNATURE_LENGTH"
  shows "C_Verify env h (Some d) (Some g) s = Some
    (let st = psa_verify_hash env (uxVerifyKey x) (xVerifyAlgorithm x) d g (world s)
     in if st = PSA_SUCCESS then CKR_OK
        else if st = PSA_ERROR_INVALID_SIGNATURE \<or> st = PSA_ERROR_BUFFER_TOO_SMALL then CKR_SIGNATURE_INVALID
        else CKR_FUNCTION_FAILED)"
proof -
  have "CKM_ECDSA \<noteq> CKM_RSA_X_509" by (simp add: mechanism_defs)
  with assms(3,5,6) have "verify_lengths (xVerifyMechanism x) (length d) (length g) = CKR_OK"
    by (simp add: verify_lengths_def)
  then show ?thesis
    unfolding C_Verify_def ready_valid [OF assms(1)] ready_at [OF assms(1)]
    using assms(2,4) by (simp add: Let_def)
qed


text \<open>
  The check of the mechanism reads the algorithm of the signing key instead of the verification
  key: in a session that was never initialised for signing, \<open>C_VerifyInit\<close> fails for every key and
  mechanism.
\<close>

theorem C_VerifyInit_needs_signing:
  assumes "ready h x s" and "xSignAlgorithm x = 0" and "C_VerifyInit env h (Some mech) xKey s = Some (rc, s')"
  shows "rc \<noteq> CKR_OK"
proof -
  have no: "check_mechanism CKM_RSA_X_509 m 0 \<noteq> CKR_OK" for m
    by (simp add: check_mechanism_def PSA_ALG_IS_RSA_PKCS1V15_SIGN_def PSA_ALG_IS_RSA_PSS_def PSA_ALG_IS_ECDSA_def)
  have keep: "xSignAlgorithm y' = xSignAlgorithm y" if "verify_key env l n s y = Some (r, y')" for l n y y' r
    using that by (auto simp: verify_key_def Let_def split: if_splits prod.splits)
  from assms(3) show ?thesis
    unfolding C_VerifyInit_def ready_valid [OF assms(1)] ready_at [OF assms(1)]
    using keep assms(2) no by (auto simp: Let_def split: if_splits prod.splits)
qed

subsection \<open>Examples\<close>

lemma demo_key_of: "key_of 0 eAwsDevicePrivateKey 1 demo_p11"
proof -
  have "entries demo_list 0 = Some (eAwsDevicePrivateKey, ascii ''tls_key_priv'')"
    by (simp add: entries_def demo_list_def fresh_context_def zero_context_def pkcs11configMAX_NUM_OBJECTS_def
      CK_INVALID_HANDLE_def ascii_def c_str_zeros [of "[]", simplified] eAwsDevicePrivateKey_def)
  then show ?thesis
    unfolding key_of_def
    by (simp add: demo_p11_def demo_list_inv is_key_def demo_label_handle demo_stored pkcs11configMAX_NUM_OBJECTS_def)
qed

lemma demo_attributes: "fst (psa_get_key_attributes reference_p11 1 (world demo_p11)) = PSA_SUCCESS"
  by (simp add: reference_p11_simps reference_psa_def demo_p11_def demo_with_key_def no_objects_def)

lemma ecdsa_alg: "PSA_ALG_IS_ECDSA (PSA_ALG_ECDSA PSA_ALG_SHA_256)"
  by (simp add: PSA_ALG_IS_ECDSA_def PSA_ALG_ECDSA_def PSA_ALG_SHA_256_def)

theorem C_Sign_correct_witness:
  "\<exists>s1 s2. C_SignInit reference_p11 1 (Some CKM_ECDSA) (of_nat (0 + 1)) demo_p11 = Some (CKR_OK, s1) \<and>
     C_Sign reference_p11 1 (Some (replicate 32 5)) (length (replicate 32 (5 :: u8))) (Some (replicate 64 0)) (Some 64) s1 =
       Some (CKR_OK, Some (replicate 64 5), Some 64, s2)"
proof -
  have g: "psa_sign_hash reference_p11 1 (psa_get_key_algorithm reference_p11 1 (world demo_p11)) (replicate 32 5) 64 (world demo_p11) =
      (PSA_SUCCESS, replicate 64 5, world demo_p11)"
    by (simp add: reference_p11_simps replicate_add [symmetric])
  from C_Sign_correct [OF demo_ready _ demo_key_of _ demo_attributes refl _ g, of "replicate 64 0"] show ?thesis
    by (auto simp: demo_session_def reference_p11_simps ecdsa_alg pkcs11SHA256_DIGEST_LENGTH_def pkcs11ECDSA_P256_SIGNATURE_LENGTH_def
      simp del: One_nat_def)
qed

definition demo_signer :: "((nat \<rightharpoonup> bytes) \<times> (u32 \<rightharpoonup> bytes)) p11" where
  "demo_signer = put_session 1 (demo_session\<lparr>xSignAlgorithm := PSA_ALG_ECDSA PSA_ALG_SHA_256\<rparr>) demo_p11"


theorem C_VerifyInit_needs_signing_witness:
  "\<exists>rc s'. C_VerifyInit reference_p11 1 (Some CKM_ECDSA) 1 demo_p11 = Some (rc, s') \<and> rc \<noteq> CKR_OK"
proof -
  have a: "psa_get_key_attributes reference_p11 1 (world demo_p11) = (PSA_SUCCESS, 0x7112, 256)"
    by (simp add: reference_p11_simps reference_psa_def demo_p11_def demo_with_key_def no_objects_def)
  from key_of_lookup [OF demo_key_of] obtain label n where
    l: "prvFindObjectInListByHandle 1 (ctx demo_p11) = Some (eAwsDevicePrivateKey, Some label, n)"
      "PKCS11PSAGetKeyHandle label n (store demo_p11) = Some (CKR_OK, 1)" by auto
  have "\<exists>rc s'. C_VerifyInit reference_p11 1 (Some CKM_ECDSA) 1 demo_p11 = Some (rc, s')"
    unfolding C_VerifyInit_def ready_valid [OF demo_ready] Option.bind.simps option.case l(1) ready_at [OF demo_ready] case_prod_conv
    using l(2) a by (simp add: Let_def verify_key_def demo_session_def CK_INVALID_HANDLE_def eAwsDevicePrivateKey_def)
  then obtain rc s' where v: "C_VerifyInit reference_p11 1 (Some CKM_ECDSA) 1 demo_p11 = Some (rc, s')" by blast
  moreover have "rc \<noteq> CKR_OK"
    by (rule C_VerifyInit_needs_signing [OF demo_ready _ v]) (simp add: demo_session_def zero_session_def)
  ultimately show ?thesis by blast
qed

end
