(* ===== verification/P11Keys.thy ===== *)
theory P11Keys
  imports P11Crypto
begin

text \<open>
  iot_pkcs11_psa.c: creating key objects from templates (\<open>C_CreateObject\<close>) and generating key
  pairs. A template is parsed into the local variables of the code's loop; the key is assembled in an
  mbedTLS context (\<open>P11Session\<close> says how contexts are represented), saved and entered in the list.
\<close>

subsection \<open>Templates of keys\<close>

definition CKA_PRIVATE :: u32 where "CKA_PRIVATE = 0x2"
definition CKA_KEY_TYPE :: u32 where "CKA_KEY_TYPE = 0x100"
definition CKA_SIGN :: u32 where "CKA_SIGN = 0x108"
definition CKA_VERIFY :: u32 where "CKA_VERIFY = 0x10A"
definition CKA_MODULUS :: u32 where "CKA_MODULUS = 0x120"
definition CKA_PUBLIC_EXPONENT :: u32 where "CKA_PUBLIC_EXPONENT = 0x122"
definition CKA_PRIVATE_EXPONENT :: u32 where "CKA_PRIVATE_EXPONENT = 0x123"
definition CKA_PRIME_1 :: u32 where "CKA_PRIME_1 = 0x124"
definition CKA_PRIME_2 :: u32 where "CKA_PRIME_2 = 0x125"
definition CKA_EXPONENT_1 :: u32 where "CKA_EXPONENT_1 = 0x126"
definition CKA_EXPONENT_2 :: u32 where "CKA_EXPONENT_2 = 0x127"
definition CKA_COEFFICIENT :: u32 where "CKA_COEFFICIENT = 0x128"
definition CKA_EC_PARAMS :: u32 where "CKA_EC_PARAMS = 0x180"
definition CKA_EC_POINT :: u32 where "CKA_EC_POINT = 0x181"

lemmas key_attribute_defs = attribute_type_defs CKA_PRIVATE_def CKA_KEY_TYPE_def CKA_SIGN_def CKA_VERIFY_def
  CKA_MODULUS_def CKA_PUBLIC_EXPONENT_def CKA_PRIVATE_EXPONENT_def CKA_PRIME_1_def CKA_PRIME_2_def
  CKA_EXPONENT_1_def CKA_EXPONENT_2_def CKA_COEFFICIENT_def CKA_EC_PARAMS_def CKA_EC_POINT_def

definition CKK_RSA :: u32 where "CKK_RSA = 0"
definition CKK_EC :: u32 where "CKK_EC = 3"
definition PKCS11_INVALID_KEY_TYPE :: u32 where "PKCS11_INVALID_KEY_TYPE = 0xFFFFFFFF"

definition pkcs11DER_ENCODED_OID_P256 :: bytes where
  "pkcs11DER_ENCODED_OID_P256 = [0x06, 0x08, 0x2a, 0x86, 0x48, 0xce, 0x3d, 0x03, 0x01, 0x07]"

definition MAX_PRIVATE_KEY_SIZE :: nat where "MAX_PRIVATE_KEY_SIZE = 1300"
definition MAX_PUBLIC_KEY_SIZE :: nat where "MAX_PUBLIC_KEY_SIZE = 310"
definition pkcs11KEY_ECPOINT_LENGTH :: nat where "pkcs11KEY_ECPOINT_LENGTH = 65"

text \<open>The first key type attribute.\<close>

fun prvGetKeyType :: "attribute list \<Rightarrow> u32 option" where
  "prvGetKeyType [] = Some PKCS11_INVALID_KEY_TYPE"
| "prvGetKeyType (a # as) =
     (if aType a = CKA_KEY_TYPE
      then do {
        b \<leftarrow> read_at (aValue a) 0 4;
        Some (of_le32 b) }
      else prvGetKeyType as)"

text \<open>
  The local variables of the loops over a template. \<open>ktBool\<close> is \<open>xBool\<close>, which has no value before
  it is written; \<open>ktCalls\<close> are the calls on the key context.
\<close>

record key_template =
  ktResult :: CK_RV
  ktLabel :: "attribute option"
  ktClass :: "attribute option"
  ktBool :: "u8 option"
  ktCalls :: "key_call list"

definition empty_template :: key_template where
  "empty_template = \<lparr>ktResult = CKR_OK, ktLabel = None, ktClass = None, ktBool = None, ktCalls = []\<rparr>"

text \<open>\<open>memcpy (&xBool, pValue, sizeof (CK_BBOOL))\<close> and the test for \<open>CK_TRUE\<close>, with its error code.\<close>

definition require_true :: "CK_RV \<Rightarrow> attribute \<Rightarrow> key_template \<Rightarrow> key_template option" where
  "require_true err a t = do {
     b \<leftarrow> read_at (aValue a) 0 1;
     let t = t\<lparr>ktBool := Some (hd b)\<rparr>;
     Some (if hd b \<noteq> CK_TRUE then t\<lparr>ktResult := err\<rparr> else t) }"

text \<open>
  The same with \<open>ulValueLen\<close> as the number of bytes: none leaves \<open>xBool\<close> as it is, more than one
  runs over its end.
\<close>

definition require_true_sized :: "CK_RV \<Rightarrow> attribute \<Rightarrow> key_template \<Rightarrow> key_template option" where
  "require_true_sized err a t =
     (if aLen a = 0
      then do {
        b \<leftarrow> ktBool t;
        Some (if b \<noteq> CK_TRUE then t\<lparr>ktResult := err\<rparr> else t) }
      else if aLen a = 1 then require_true err a t
      else None)"

definition take_label :: "bool \<Rightarrow> attribute \<Rightarrow> key_template \<Rightarrow> key_template" where
  "take_label fits a t = (if fits then t\<lparr>ktLabel := Some a\<rparr> else t\<lparr>ktResult := CKR_DATA_LEN_RANGE\<rparr>)"

text \<open>\<open>memcmp\<close> of the identifier of P-256 with the attribute, over the attribute's length.\<close>

definition require_p256 :: "attribute \<Rightarrow> key_template \<Rightarrow> key_template option" where
  "require_p256 a t = do {
     eq \<leftarrow> memcmp_eq pkcs11DER_ENCODED_OID_P256 (aValue a) (aLen a);
     Some (if eq then t else t\<lparr>ktResult := CKR_ATTRIBUTE_VALUE_INVALID\<rparr>) }"

text \<open>
  A call on the key context with \<open>n\<close> bytes of the attribute from \<open>ofs\<close> on; whether it failed. Without
  a context (\<open>NULL\<close>) it has no meaning.
\<close>

definition key_call ::
  "('w, 'z) p11_env_scheme \<Rightarrow> key_kind \<Rightarrow> (bytes \<Rightarrow> key_call) \<Rightarrow> attribute \<Rightarrow> nat \<Rightarrow> nat \<Rightarrow> key_template \<Rightarrow>
   (bool \<times> key_template) option" where
  "key_call env kind call a ofs n t =
     (if kind = KeyNone then None
      else do {
        d \<leftarrow> read_at (aValue a) ofs n;
        Some (\<not> key_call_ok env kind (ktCalls t) (call d), t\<lparr>ktCalls := ktCalls t @ [call d]\<rparr>) })"

definition call_result :: "(bool \<times> key_template) option \<Rightarrow> key_template option" where
  "call_result r = do {
     (failed, t) \<leftarrow> r;
     Some (if failed then t\<lparr>ktResult := CKR_ATTRIBUTE_VALUE_INVALID\<rparr> else t) }"

subsection \<open>Private keys\<close>

definition ec_private_attribute ::
  "('w, 'z) p11_env_scheme \<Rightarrow> key_kind \<Rightarrow> attribute \<Rightarrow> key_template \<Rightarrow> key_template option" where
  "ec_private_attribute env kind a t =
     (if aType a = CKA_CLASS then Some (t\<lparr>ktClass := Some a\<rparr>)
      else if aType a = CKA_KEY_TYPE then Some t
      else if aType a = CKA_TOKEN then require_true CKR_ATTRIBUTE_VALUE_INVALID a t
      else if aType a = CKA_SIGN then require_true CKR_ATTRIBUTE_VALUE_INVALID a t
      else if aType a = CKA_LABEL then Some (take_label (aLen a \<le> pkcs11configMAX_LABEL_LENGTH) a t)
      else if aType a = CKA_EC_PARAMS then require_p256 a t
      else if aType a = CKA_VALUE then call_result (key_call env kind EcScalar a 0 (aLen a) t)
      else Some (t\<lparr>ktResult := CKR_TEMPLATE_INCONSISTENT\<rparr>))"

definition prvCreateEcPrivateKey ::
  "('w, 'z) p11_env_scheme \<Rightarrow> key_kind \<Rightarrow> attribute list \<Rightarrow> key_template option" where
  "prvCreateEcPrivateKey env kind template = for_each template (ec_private_attribute env kind) empty_template"

text \<open>The component of an RSA key an attribute holds.\<close>

definition rsa_part_of :: "u32 \<Rightarrow> rsa_part option" where
  "rsa_part_of ty = map_of [(CKA_MODULUS, RSA_N), (CKA_PUBLIC_EXPONENT, RSA_E), (CKA_PRIME_1, RSA_P),
     (CKA_PRIME_2, RSA_Q), (CKA_PRIVATE_EXPONENT, RSA_D), (CKA_EXPONENT_1, RSA_DP), (CKA_EXPONENT_2, RSA_DQ),
     (CKA_COEFFICIENT, RSA_QP)] ty"

text \<open>One turn of the loop: whether \<open>lMbedReturn\<close> is an error afterwards.\<close>

definition rsa_private_attribute ::
  "('w, 'z) p11_env_scheme \<Rightarrow> attribute \<Rightarrow> key_template \<Rightarrow> (bool \<times> key_template) option" where
  "rsa_private_attribute env a t =
     (if aType a = CKA_CLASS then Some (False, t\<lparr>ktClass := Some a\<rparr>)
      else if aType a = CKA_KEY_TYPE then Some (False, t)
      else if aType a = CKA_TOKEN then map_option (Pair False) (require_true CKR_ATTRIBUTE_VALUE_INVALID a t)
      else if aType a = CKA_LABEL then Some (False, take_label (aLen a \<le> pkcs11configMAX_LABEL_LENGTH) a t)
      else if aType a = CKA_SIGN then map_option (Pair False) (require_true_sized CKR_TEMPLATE_INCONSISTENT a t)
      else case rsa_part_of (aType a) of
          Some part \<Rightarrow> key_call env KeyRsa (RsaPart part) a 0 (aLen a) t
        | None \<Rightarrow> Some (False, t\<lparr>ktResult := CKR_TEMPLATE_INCONSISTENT\<rparr>))"

text \<open>The loop, which an error of mbedTLS leaves.\<close>

fun rsa_private_attributes ::
  "('w, 'z) p11_env_scheme \<Rightarrow> attribute list \<Rightarrow> key_template \<Rightarrow> key_template option" where
  "rsa_private_attributes env [] t = Some t"
| "rsa_private_attributes env (a # as) t = do {
     (failed, t) \<leftarrow> rsa_private_attribute env a t;
     if failed then Some (t\<lparr>ktResult := CKR_ATTRIBUTE_VALUE_INVALID\<rparr>)
     else rsa_private_attributes env as t }"

definition prvCreateRsaPrivateKey ::
  "('w, 'z) p11_env_scheme \<Rightarrow> attribute list \<Rightarrow> key_template option" where
  "prvCreateRsaPrivateKey env template = rsa_private_attributes env template empty_template"

text \<open>
  \<open>PKCS11PSASaveObject (pxClass, pxLabel, data, length, &xMbedContext)\<close>: the attributes are
  dereferenced only when the size is accepted, the label only for the classes it is compared with.
\<close>

definition save_key_object ::
  "('w, 'z) p11_env_scheme \<Rightarrow> key_kind \<Rightarrow> key_template \<Rightarrow> bytes \<Rightarrow> 'w p11_store \<Rightarrow>
   (pal_handle \<times> 'w p11_store) option" where
  "save_key_object env kind t data st =
     (if pkcs11OBJECT_MAX_SIZE < length data then Some (eInvalidHandle, st)
      else do {
        cls \<leftarrow> ktClass t;
        b \<leftarrow> read_at (aValue cls) 0 4;
        (case (object_class_of (of_le32 b), ktLabel t) of
           (CKO_OTHER, _) \<Rightarrow> Some (eInvalidHandle, st)
         | (_, None) \<Rightarrow> None
         | (c, Some label) \<Rightarrow>
             PKCS11PSASaveObject (psa_env.truncate env) c (aValue label) data (pk_view env kind (ktCalls t)) st) })"

text \<open>
  The end that the two kinds of key share: save the object, enter it in the list under its label.
  The result has the handle that is stored at \<open>pxObject\<close>.
\<close>

definition save_and_add ::
  "('w, 'z) p11_env_scheme \<Rightarrow> key_kind \<Rightarrow> key_template \<Rightarrow> bytes option \<Rightarrow> 'w p11 \<Rightarrow>
   (CK_RV \<times> u32 option \<times> 'w p11) option" where
  "save_and_add env kind t der s = do {
     (xPalHandle, st) \<leftarrow> (case der of None \<Rightarrow> Some (eInvalidHandle, store s) | Some d \<Rightarrow> save_key_object env kind t d (store s));
     let s = s\<lparr>store := st\<rparr>;
     if xPalHandle = CK_INVALID_HANDLE then Some (CKR_DEVICE_MEMORY, None, s)
     else do {
       label \<leftarrow> ktLabel t;
       (xResult, app, c) \<leftarrow> prvAddObjectToList xPalHandle (aValue label) (aLen label) (ctx s);
       Some (xResult, app, s\<lparr>ctx := c\<rparr>) } }"

text \<open>
  When the context of an elliptic curve key cannot be allocated, its error code is overwritten by the
  parser, which then works on no context. The DER form stands at the end of its buffer, so a longer one
  would start in front of it.
\<close>

definition prvCreatePrivateKey ::
  "('w, 'z) p11_env_scheme \<Rightarrow> attribute list \<Rightarrow> 'w p11 \<Rightarrow> (CK_RV \<times> u32 option \<times> 'w p11) option" where
  "prvCreatePrivateKey env template s = do {
     xKeyType \<leftarrow> prvGetKeyType template;
     (kind, t) \<leftarrow>
       (if xKeyType = CKK_RSA
        then if has_key_context env KeyRsa (world s)
          then map_option (Pair KeyRsa) (prvCreateRsaPrivateKey env template)
          else Some (KeyNone, empty_template\<lparr>ktResult := CKR_HOST_MEMORY\<rparr>)
        else if xKeyType = CKK_EC
        then let kind = (if has_key_context env KeyEc (world s) then KeyEc else KeyNone)
          in map_option (Pair kind) (prvCreateEcPrivateKey env kind template)
        else Some (KeyNone, empty_template\<lparr>ktResult := CKR_MECHANISM_INVALID\<rparr>));
     if ktResult t \<noteq> CKR_OK then Some (ktResult t, None, s)
     else if \<not> has_der_buffer env kind (world s) then Some (CKR_HOST_MEMORY, None, s)
     else (case mbedtls_pk_write_key_der env kind (ktCalls t) MAX_PRIVATE_KEY_SIZE of
         None \<Rightarrow> Some (CKR_ATTRIBUTE_VALUE_INVALID, None, s)
       | Some d \<Rightarrow> if length d \<le> MAX_PRIVATE_KEY_SIZE then save_and_add env kind t (Some d) s else None) }"

subsection \<open>Public keys\<close>

text \<open>The label must be shorter here; the point is read behind two bytes of its encoding.\<close>

definition ec_public_attribute ::
  "('w, 'z) p11_env_scheme \<Rightarrow> key_kind \<Rightarrow> attribute \<Rightarrow> key_template \<Rightarrow> key_template option" where
  "ec_public_attribute env kind a t =
     (if aType a = CKA_CLASS then Some (t\<lparr>ktClass := Some a\<rparr>)
      else if aType a = CKA_KEY_TYPE then Some t
      else if aType a = CKA_TOKEN then require_true CKR_ATTRIBUTE_VALUE_INVALID a t
      else if aType a = CKA_LABEL then Some (take_label (aLen a < pkcs11configMAX_LABEL_LENGTH) a t)
      else if aType a = CKA_VERIFY then require_true_sized CKR_ATTRIBUTE_VALUE_INVALID a t
      else if aType a = CKA_EC_PARAMS then require_p256 a t
      else if aType a = CKA_EC_POINT
      then if aLen a < 2 then None else call_result (key_call env kind EcPoint a 2 (aLen a - 2) t)
      else Some (t\<lparr>ktResult := CKR_ATTRIBUTE_TYPE_INVALID\<rparr>))"

definition prvCreateECPublicKey ::
  "('w, 'z) p11_env_scheme \<Rightarrow> key_kind \<Rightarrow> attribute list \<Rightarrow> key_template option" where
  "prvCreateECPublicKey env kind template = for_each template (ec_public_attribute env kind) empty_template"

text \<open>
  A negative length of the DER form is not tested: as a size it is too large for \<open>PKCS11PSASaveObject\<close>.
\<close>

definition prvCreatePublicKey ::
  "('w, 'z) p11_env_scheme \<Rightarrow> attribute list \<Rightarrow> 'w p11 \<Rightarrow> (CK_RV \<times> u32 option \<times> 'w p11) option" where
  "prvCreatePublicKey env template s = do {
     xKeyType \<leftarrow> prvGetKeyType template;
     (kind, t) \<leftarrow>
       (if xKeyType = CKK_RSA then Some (KeyNone, empty_template\<lparr>ktResult := CKR_ATTRIBUTE_TYPE_INVALID\<rparr>)
        else if xKeyType = CKK_EC
        then let kind = (if has_key_context env KeyEc (world s) then KeyEc else KeyNone)
          in map_option (Pair kind) (prvCreateECPublicKey env kind template)
        else Some (KeyNone, empty_template\<lparr>ktResult := CKR_MECHANISM_INVALID\<rparr>));
     if ktResult t \<noteq> CKR_OK then Some (ktResult t, None, s)
     else if \<not> has_der_buffer env kind (world s) then Some (CKR_HOST_MEMORY, None, s)
     else (case mbedtls_pk_write_pubkey_der env kind (ktCalls t) MAX_PUBLIC_KEY_SIZE of
         None \<Rightarrow> save_and_add env kind t None s
       | Some d \<Rightarrow> if length d \<le> MAX_PUBLIC_KEY_SIZE then save_and_add env kind t (Some d) s else None) }"

subsection \<open>Objects\<close>

text \<open>\<open>out\<close> tells whether \<open>pxObject\<close> is not \<open>NULL\<close>.\<close>

definition C_CreateObject ::
  "('w, 'z) p11_env_scheme \<Rightarrow> nat \<Rightarrow> attribute list option \<Rightarrow> bool \<Rightarrow> 'w p11 \<Rightarrow>
   (CK_RV \<times> u32 option \<times> 'w p11) option" where
  "C_CreateObject env xSession pxTemplate out s = do {
     xResult \<leftarrow> PKCS11_SESSION_VALID_AND_MODULE_INITIALIZED xSession s;
     let xResult = (if pxTemplate = None \<or> \<not> out then CKR_ARGUMENTS_BAD else xResult);
     if xResult \<noteq> CKR_OK then Some (xResult, None, s)
     else do {
       template \<leftarrow> pxTemplate;
       (xResult, xClass) \<leftarrow> prvGetObjectClass template;
       (case xClass of
          None \<Rightarrow> Some (xResult, None, s)
        | Some CKO_CERTIFICATE \<Rightarrow> prvCreateCertificate env template s
        | Some CKO_PRIVATE_KEY \<Rightarrow> prvCreatePrivateKey env template s
        | Some CKO_PUBLIC_KEY \<Rightarrow> prvCreatePublicKey env template s
        | Some CKO_OTHER \<Rightarrow> Some (CKR_ATTRIBUTE_VALUE_INVALID, None, s)) } }"

subsection \<open>Generating key pairs\<close>

text \<open>
  The checks of the two templates: result code, label and the set of attributes that were seen, which
  the code keeps as bits.
\<close>

datatype seen = LABEL_IN_TEMPLATE | PRIVATE_IN_TEMPLATE | SIGN_IN_TEMPLATE | EC_PARAMS_IN_TEMPLATE | VERIFY_IN_TEMPLATE

record pair_template =
  ptResult :: CK_RV
  ptLabel :: "attribute option"
  ptSeen :: "seen list"

definition pair_flag :: "CK_RV \<Rightarrow> seen option \<Rightarrow> attribute \<Rightarrow> pair_template \<Rightarrow> pair_template option" where
  "pair_flag err seen a t = do {
     b \<leftarrow> read_at (aValue a) 0 1;
     Some (t\<lparr>ptResult := if b \<noteq> [CK_TRUE] then err else ptResult t,
       ptSeen := (case seen of None \<Rightarrow> ptSeen t | Some x \<Rightarrow> x # ptSeen t)\<rparr>) }"

definition pair_key_type :: "attribute \<Rightarrow> pair_template \<Rightarrow> pair_template option" where
  "pair_key_type a t = do {
     b \<leftarrow> read_at (aValue a) 0 4;
     Some (if of_le32 b \<noteq> CKK_EC then t\<lparr>ptResult := CKR_TEMPLATE_INCONSISTENT\<rparr> else t) }"

definition private_template_attribute :: "attribute \<Rightarrow> pair_template \<Rightarrow> pair_template option" where
  "private_template_attribute a t =
     (if aType a = CKA_LABEL then Some (t\<lparr>ptLabel := Some a, ptSeen := LABEL_IN_TEMPLATE # ptSeen t\<rparr>)
      else if aType a = CKA_TOKEN then pair_flag CKR_ATTRIBUTE_VALUE_INVALID None a t
      else if aType a = CKA_KEY_TYPE then pair_key_type a t
      else if aType a = CKA_PRIVATE then pair_flag CKR_TEMPLATE_INCONSISTENT (Some PRIVATE_IN_TEMPLATE) a t
      else if aType a = CKA_SIGN then pair_flag CKR_TEMPLATE_INCONSISTENT (Some SIGN_IN_TEMPLATE) a t
      else Some (t\<lparr>ptResult := CKR_TEMPLATE_INCONSISTENT\<rparr>))"

definition public_template_attribute :: "attribute \<Rightarrow> pair_template \<Rightarrow> pair_template option" where
  "public_template_attribute a t =
     (if aType a = CKA_LABEL then Some (t\<lparr>ptLabel := Some a, ptSeen := LABEL_IN_TEMPLATE # ptSeen t\<rparr>)
      else if aType a = CKA_KEY_TYPE then pair_key_type a t
      else if aType a = CKA_EC_PARAMS
      then do {
        eq \<leftarrow> memcmp_eq pkcs11DER_ENCODED_OID_P256 (aValue a) (length pkcs11DER_ENCODED_OID_P256);
        Some (t\<lparr>ptResult := if eq then ptResult t else CKR_TEMPLATE_INCONSISTENT,
          ptSeen := EC_PARAMS_IN_TEMPLATE # ptSeen t\<rparr>) }
      else if aType a = CKA_VERIFY then pair_flag CKR_TEMPLATE_INCONSISTENT (Some VERIFY_IN_TEMPLATE) a t
      else if aType a = CKA_TOKEN then pair_flag CKR_ATTRIBUTE_VALUE_INVALID None a t
      else Some (t\<lparr>ptResult := CKR_TEMPLATE_INCONSISTENT\<rparr>))"

definition check_template ::
  "(attribute \<Rightarrow> pair_template \<Rightarrow> pair_template option) \<Rightarrow> seen list \<Rightarrow> attribute list \<Rightarrow>
   (CK_RV \<times> attribute option) option" where
  "check_template f required template = do {
     t \<leftarrow> for_each template f \<lparr>ptResult = CKR_OK, ptLabel = None, ptSeen = []\<rparr>;
     Some (if set required \<subseteq> set (ptSeen t) then ptResult t else CKR_TEMPLATE_INCOMPLETE, ptLabel t) }"

definition prvCheckGenerateKeyPairPrivateTemplate :: "attribute list \<Rightarrow> (CK_RV \<times> attribute option) option" where
  "prvCheckGenerateKeyPairPrivateTemplate =
     check_template private_template_attribute [LABEL_IN_TEMPLATE, PRIVATE_IN_TEMPLATE, SIGN_IN_TEMPLATE]"

definition prvCheckGenerateKeyPairPublicTemplate :: "attribute list \<Rightarrow> (CK_RV \<times> attribute option) option" where
  "prvCheckGenerateKeyPairPublicTemplate =
     check_template public_template_attribute [LABEL_IN_TEMPLATE, EC_PARAMS_IN_TEMPLATE, VERIFY_IN_TEMPLATE]"

text \<open>The attributes a generated key has: persistent when it is the device key.\<close>

definition private_key_attributes :: "bool \<Rightarrow> key_attributes" where
  "private_key_attributes device = \<lparr>ka_id = if device then Some PSA_DEVICE_PRIVATE_KEY_ID else None,
     ka_usage = PSA_KEY_USAGE_SIGN_HASH, ka_alg = PSA_ALG_ECDSA PSA_ALG_SHA_256,
     ka_type = PSA_KEY_TYPE_ECC_KEY_PAIR 0x12\<rparr>"

definition public_key_attributes :: "bool \<Rightarrow> key_attributes" where
  "public_key_attributes device = \<lparr>ka_id = if device then Some PSA_DEVICE_PUBLIC_KEY_ID else None,
     ka_usage = PSA_KEY_USAGE_VERIFY_HASH, ka_alg = PSA_ALG_ECDSA PSA_ALG_SHA_256,
     ka_type = PSA_KEY_TYPE_ECC_PUBLIC_KEY 0x12\<rparr>"

text \<open>
  Record a generated key under its label and enter it in the list, unless it is not the device key.
\<close>

definition record_key ::
  "bool \<Rightarrow> pal_handle \<Rightarrow> attribute \<Rightarrow> u32 \<Rightarrow> 'w p11 \<Rightarrow> (CK_RV \<times> u32 option \<times> 'w p11) option" where
  "record_key device xPalHandle label key s =
     (if device
      then do {
        st \<leftarrow> PKCS11PSAContextImportObject (aValue label) key (store s);
        let s = s\<lparr>store := st\<rparr>;
        (xResult, app, c) \<leftarrow> prvAddObjectToList xPalHandle (aValue label) (aLen label) (ctx s);
        Some (xResult, app, s\<lparr>ctx := c\<rparr>) }
      else Some (CKR_ATTRIBUTE_VALUE_INVALID, None, s))"

text \<open>
  The keys on the secure side: generated, exported to a buffer of \<open>pkcs11KEY_ECPOINT_LENGTH\<close> bytes and
  imported again. The result has the two handles when all calls succeed.
\<close>

definition make_keys ::
  "('w, 'z) p11_env_scheme \<Rightarrow> bool \<Rightarrow> attribute \<Rightarrow> 'w \<Rightarrow> ((bool \<times> u32 \<times> u32) option \<times> 'w) option" where
  "make_keys env device publicLabel w =
     (let (uxStatus, key_handle_private, w) = psa_generate_key env (private_key_attributes device) 256 w
      in if uxStatus \<noteq> PSA_SUCCESS then Some (None, w)
         else let (uxStatus, point) = psa_export_public_key env key_handle_private pkcs11KEY_ECPOINT_LENGTH w
         in if pkcs11KEY_ECPOINT_LENGTH < length point then None
         else if uxStatus \<noteq> PSA_SUCCESS then Some (None, w)
         else do {
           device \<leftarrow> strcmp_eq (aValue publicLabel) LABEL_DEVICE_PUBLIC_KEY_FOR_TLS;
           let (uxStatus, key_handle_public, w) = psa_import_key env (public_key_attributes device) point w;
           Some (if uxStatus \<noteq> PSA_SUCCESS then None else Some (device, key_handle_private, key_handle_public), w) })"

text \<open>
  \<open>out\<close> tells whether both pointers for handles are not \<open>NULL\<close>; the result has the handles of the
  public and of the private key.
\<close>

definition C_GenerateKeyPair ::
  "('w, 'z) p11_env_scheme \<Rightarrow> nat \<Rightarrow> u32 option \<Rightarrow> attribute list option \<Rightarrow> attribute list option \<Rightarrow> bool \<Rightarrow> 'w p11 \<Rightarrow>
   (CK_RV \<times> u32 option \<times> u32 option \<times> 'w p11) option" where
  "C_GenerateKeyPair env xSession pxMechanism pxPublicKeyTemplate pxPrivateKeyTemplate out s = do {
     xResult \<leftarrow> PKCS11_SESSION_VALID_AND_MODULE_INITIALIZED xSession s;
     let xResult = (if \<not> heap_has env pkcs11KEY_ECPOINT_LENGTH (world s) then CKR_HOST_MEMORY else xResult);
     if xResult \<noteq> CKR_OK then Some (xResult, None, None, s)
     else (case (pxPublicKeyTemplate, pxPrivateKeyTemplate, pxMechanism) of
         (Some public_template, Some private_template, Some mechanism) \<Rightarrow>
           if \<not> out then Some (CKR_ARGUMENTS_BAD, None, None, s)
           else if mechanism \<noteq> CKM_EC_KEY_PAIR_GEN then Some (CKR_MECHANISM_PARAM_INVALID, None, None, s)
           else do {
             (xResult, pxPrivateLabel) \<leftarrow> prvCheckGenerateKeyPairPrivateTemplate private_template;
             if xResult \<noteq> CKR_OK then Some (xResult, None, None, s)
             else do {
               (xResult, pxPublicLabel) \<leftarrow> prvCheckGenerateKeyPairPublicTemplate public_template;
               if xResult \<noteq> CKR_OK then Some (xResult, None, None, s)
               else do {
                 private_label \<leftarrow> pxPrivateLabel;
                 public_label \<leftarrow> pxPublicLabel;
                 device_private \<leftarrow> strcmp_eq (aValue private_label) LABEL_DEVICE_PRIVATE_KEY_FOR_TLS;
                 (keys, w) \<leftarrow> make_keys env device_private public_label (world s);
                 let s = put_psa w s;
                 (case keys of
                    None \<Rightarrow> Some (CKR_FUNCTION_FAILED, None, None, s)
                  | Some (device_public, key_handle_private, key_handle_public) \<Rightarrow> do {
                      (xResult, private_app, s) \<leftarrow> record_key device_private eAwsDevicePrivateKey private_label key_handle_private s;
                      if xResult \<noteq> CKR_OK then Some (xResult, None, private_app, s)
                      else do {
                        (xResult, public_app, s) \<leftarrow> record_key device_public eAwsDevicePublicKey public_label key_handle_public s;
                        Some (xResult, public_app, private_app, s) } }) } } }
       | _ \<Rightarrow> Some (CKR_ARGUMENTS_BAD, None, None, s)) }"

subsection \<open>What a template leaves\<close>

text \<open>The label and the class a parser picks are attributes of the template.\<close>

definition from_template :: "attribute list \<Rightarrow> key_template \<Rightarrow> bool" where
  "from_template template t =
     ((\<forall>a. ktLabel t = Some a \<longrightarrow> a \<in> set template \<and> aType a = CKA_LABEL) \<and>
      (\<forall>a. ktClass t = Some a \<longrightarrow> a \<in> set template \<and> aType a = CKA_CLASS))"

lemma from_template_simps [simp]:
  "from_template tpl (t\<lparr>ktResult := rc\<rparr>) = from_template tpl t"
  "from_template tpl (t\<lparr>ktBool := b\<rparr>) = from_template tpl t"
  "from_template tpl (t\<lparr>ktCalls := cs\<rparr>) = from_template tpl t"
  "from_template tpl empty_template"
  by (simp_all add: from_template_def empty_template_def)

lemma from_template_label [simp]:
  "from_template tpl t \<Longrightarrow> a \<in> set tpl \<Longrightarrow> aType a = CKA_LABEL \<Longrightarrow> from_template tpl (take_label f a t)"
  by (simp add: from_template_def take_label_def)

lemma from_template_class [simp]:
  "from_template tpl t \<Longrightarrow> a \<in> set tpl \<Longrightarrow> aType a = CKA_CLASS \<Longrightarrow> from_template tpl (t\<lparr>ktClass := Some a\<rparr>)"
  by (simp add: from_template_def)

lemma from_template_require [keeps_intro]:
  "from_template tpl t \<Longrightarrow> keeps (require_true e a t) (from_template tpl)"
  "from_template tpl t \<Longrightarrow> keeps (require_true_sized e a t) (from_template tpl)"
  "from_template tpl t \<Longrightarrow> keeps (require_p256 a t) (from_template tpl)"
  "from_template tpl t \<Longrightarrow> keeps (key_call env kind c a n m t) (\<lambda>(_, t). from_template tpl t)"
  unfolding require_true_def require_true_sized_def require_p256_def key_call_def
  by (intro keeps_intro; simp)+

lemma from_template_call:
  "from_template tpl t \<Longrightarrow> keeps (call_result (key_call env kind c a n m t)) (from_template tpl)"
  unfolding call_result_def by (rule keeps_cut, erule from_template_require(4)) (auto intro!: keeps_intro)

lemma ec_private_from_template:
  "keeps (prvCreateEcPrivateKey env kind tpl) (from_template tpl)"
  unfolding prvCreateEcPrivateKey_def
proof (rule for_each_keeps)
  fix a t assume "a \<in> set tpl" "from_template tpl t"
  then show "keeps (ec_private_attribute env kind a t) (from_template tpl)"
    unfolding ec_private_attribute_def by (intro keeps_intro from_template_call) simp_all
qed simp

lemma ec_public_from_template:
  "keeps (prvCreateECPublicKey env kind tpl) (from_template tpl)"
  unfolding prvCreateECPublicKey_def
proof (rule for_each_keeps)
  fix a t assume "a \<in> set tpl" "from_template tpl t"
  then show "keeps (ec_public_attribute env kind a t) (from_template tpl)"
    unfolding ec_public_attribute_def by (intro keeps_intro from_template_call) simp_all
qed simp

lemma rsa_private_step:
  "a \<in> set tpl \<Longrightarrow> from_template tpl t \<Longrightarrow> keeps (rsa_private_attribute env a t) (\<lambda>(_, t). from_template tpl t)"
  unfolding rsa_private_attribute_def
  by (intro keeps_intro keeps_map; simp add: from_template_require)

lemma rsa_private_from_template: "keeps (prvCreateRsaPrivateKey env tpl) (from_template tpl)"
proof -
  have "from_template tpl t \<Longrightarrow> set as \<subseteq> set tpl \<Longrightarrow> keeps (rsa_private_attributes env as t) (from_template tpl)" for as t
  proof (induction as arbitrary: t)
    case (Cons a as)
    show ?case
      unfolding rsa_private_attributes.simps
      by (rule keeps_cut [OF rsa_private_step [where tpl = tpl]]) (use Cons in \<open>auto intro!: keeps_intro\<close>)
  qed (simp add: keeps_Some)
  then show ?thesis by (simp add: prvCreateRsaPrivateKey_def)
qed

subsection \<open>Creating objects\<close>

text \<open>
  What creating an object does: on success the object of a label of the template is stored, its class is
  one of the template, and the handle given out names it in the list; on an error the list is as before,
  and so is the store unless only the list refused.
\<close>

definition attribute_class :: "attribute \<Rightarrow> CK_OBJECT_CLASS" where
  "attribute_class a = object_class_of (of_le32 (take 4 (aValue a)))"

definition object_created :: "attribute list \<Rightarrow> 'w p11 \<Rightarrow> CK_RV \<times> u32 option \<times> 'w p11 \<Rightarrow> bool" where
  "object_created template s = (\<lambda>(rc, app, s').
     sessions s' = sessions s \<and>
     (if rc = CKR_OK
      then \<exists>a \<in> set template. \<exists>c \<in> set template. \<exists>k. \<exists>i < pkcs11configMAX_NUM_OBJECTS.
        aType a = CKA_LABEL \<and> aType c = CKA_CLASS \<and> label_handle (c_str (aValue a)) \<noteq> eInvalidHandle \<and>
        attribute_class c = object_class (label_handle (c_str (aValue a))) \<and>
        stored (store s') = (stored (store s))(label_handle (c_str (aValue a)) \<mapsto> k) \<and>
        app = Some (of_nat (i + 1)) \<and> (\<exists>l. entries (ctx s') i = Some (label_handle (c_str (aValue a)), l)) \<and>
        (\<forall>j. j \<noteq> i \<longrightarrow> entries (ctx s') j = entries (ctx s) j)
      else app = None \<and> ctx s' = ctx s \<and>
        (stored (store s') = stored (store s) \<or>
         rc \<in> {CKR_BUFFER_TOO_SMALL, CKR_DATA_LEN_RANGE} \<and> (\<exists>p k. stored (store s') = (stored (store s))(p \<mapsto> k)))))"

lemma created_refused:
  "rc \<noteq> CKR_OK \<Longrightarrow> stored st = stored (store s) \<Longrightarrow> object_created template s (rc, None, s\<lparr>store := st\<rparr>)"
  by (simp add: object_created_def)

lemma created_unchanged [simp]: "rc \<noteq> CKR_OK \<Longrightarrow> object_created template s (rc, None, s)"
  by (simp add: object_created_def)

text \<open>Saving an object and entering it in the list.\<close>

lemma saved_added:
  assumes "list_inv (ctx s)" and "a \<in> set template" and "aType a = CKA_LABEL" and "c \<in> set template" and "aType c = CKA_CLASS"
    and "terminated (aValue a)" and "attribute_class c = cls"
    and "PKCS11PSASaveObject env cls (aValue a) data pk (store s) = Some (p, st)"
  shows "p = eInvalidHandle \<and> stored st = stored (store s) \<or>
    p \<noteq> eInvalidHandle \<and> (\<forall>rc app c' n. prvAddObjectToList p (aValue a) n (ctx s) = Some (rc, app, c') \<longrightarrow>
      object_created template s (rc, app, s\<lparr>store := st, ctx := c'\<rparr>))"
proof (cases "p = eInvalidHandle")
  case True
  with save_object [OF assms(6,8)] have "stored st = stored (store s) \<or> (\<exists>k. stored st = (stored (store s))(eInvalidHandle \<mapsto> k))"
    by (auto simp: key_saved_def split: if_splits)
  then have "stored st = stored (store s)" using stored_0 [of st] by auto
  with True show ?thesis by simp
next
  case False
  with save_object [OF assms(6,8)] obtain k where
    k: "p = label_handle (c_str (aValue a))" "cls = object_class p" "stored st = (stored (store s))(p \<mapsto> k)"
    by (auto simp: key_saved_def split: if_splits)
  have nz: "p \<noteq> CK_INVALID_HANDLE" using False by (simp add: CK_INVALID_HANDLE_def eInvalidHandle_def)
  have "object_created template s (rc, app, s\<lparr>store := st, ctx := c'\<rparr>)"
    if "prvAddObjectToList p (aValue a) n (ctx s) = Some (rc, app, c')" for rc app c' n
  proof (cases "rc = CKR_OK")
    case True
    with add_result [OF assms(1) nz that] k assms(2-5,7) False show ?thesis
      unfolding object_created_def entered_def by (simp, blast)
  next
    case rc: False
    with add_result [OF assms(1) nz that] k(3) show ?thesis unfolding object_created_def entered_def by auto
  qed
  with False show ?thesis by blast
qed

text \<open>The labels of a template are C strings.\<close>

definition labels_terminated :: "attribute list \<Rightarrow> bool" where
  "labels_terminated template = (\<forall>a \<in> set template. aType a = CKA_LABEL \<longrightarrow> terminated (aValue a))"

lemma take_class: "read_at b 0 4 = Some v \<Longrightarrow> v = take 4 b"
  by (simp add: read_at_def split: if_splits)

lemma save_and_add_created:
  assumes "from_template template t" and "labels_terminated template" and "list_inv (ctx s)"
  shows "keeps (save_and_add env kind t der s) (object_created template s)"
proof -
  have "object_created template s r" if r: "save_and_add env kind t der s = Some r" for r
  proof -
    from r obtain p st where
      p: "(case der of None \<Rightarrow> Some (eInvalidHandle, store s) | Some d \<Rightarrow> save_key_object env kind t d (store s)) = Some (p, st)"
      and add: "(if p = CK_INVALID_HANDLE then Some (CKR_DEVICE_MEMORY, None, s\<lparr>store := st\<rparr>)
        else do {
          label \<leftarrow> ktLabel t;
          (xResult, app, c) \<leftarrow> prvAddObjectToList p (aValue label) (aLen label) (ctx (s\<lparr>store := st\<rparr>));
          Some (xResult, app, s\<lparr>store := st, ctx := c\<rparr>) }) = Some r"
      unfolding save_and_add_def Let_def by (auto simp del: bind_Some_iff elim!: bind_SomeE)
    have saved: "p = eInvalidHandle \<and> stored st = stored (store s) \<or>
      (\<exists>label. ktLabel t = Some label \<and> p \<noteq> eInvalidHandle \<and>
        (\<forall>rc app c' n. prvAddObjectToList p (aValue label) n (ctx s) = Some (rc, app, c') \<longrightarrow>
          object_created template s (rc, app, s\<lparr>store := st, ctx := c'\<rparr>)))"
    proof (cases "p = eInvalidHandle \<and> st = store s")
      case False
      with p obtain d where d: "der = Some d" "save_key_object env kind t d (store s) = Some (p, st)"
        by (auto split: option.splits)
      with False obtain c label where
        c: "ktClass t = Some c" "ktLabel t = Some label"
          "PKCS11PSASaveObject (psa_env.truncate env) (attribute_class c) (aValue label) d (pk_view env kind (ktCalls t)) (store s) = Some (p, st)"
        unfolding save_key_object_def attribute_class_def
        by (cases "ktLabel t"; cases "object_class_of (of_le32 (take 4 (aValue (the (ktClass t)))))")
          (auto split: if_splits)
      from c(1,2) assms(1,2) have a: "label \<in> set template" "aType label = CKA_LABEL" "c \<in> set template" "aType c = CKA_CLASS"
        "terminated (aValue label)" by (auto simp: from_template_def labels_terminated_def)
      from saved_added [OF assms(3) a refl c(3)] c(2) show ?thesis by blast
    qed auto
    then show ?thesis
    proof (elim disjE exE conjE)
      assume "p = eInvalidHandle" "stored st = stored (store s)"
      with add show ?thesis by (auto simp: invalid_handles intro: created_refused)
    next
      fix label assume "ktLabel t = Some label" "p \<noteq> eInvalidHandle" and
        c: "\<forall>rc app c' n. prvAddObjectToList p (aValue label) n (ctx s) = Some (rc, app, c') \<longrightarrow>
          object_created template s (rc, app, s\<lparr>store := st, ctx := c'\<rparr>)"
      with add show ?thesis by (auto simp: invalid_handles)
    qed
  qed
  then show ?thesis by (auto simp: keeps_def)
qed


lemma private_created:
  assumes "labels_terminated template" and "list_inv (ctx s)"
  shows "keeps (prvCreatePrivateKey env template s) (object_created template s)"
proof -
  have "keeps (case mbedtls_pk_write_key_der env kind (ktCalls t) MAX_PRIVATE_KEY_SIZE of
         None \<Rightarrow> Some (CKR_ATTRIBUTE_VALUE_INVALID, None, s)
       | Some d \<Rightarrow> if length d \<le> MAX_PRIVATE_KEY_SIZE then save_and_add env kind t (Some d) s else None)
     (object_created template s)" if "from_template template t" for kind t
    by (intro keeps_intro save_and_add_created that assms) simp
  then have rest: "keeps (if ktResult t \<noteq> CKR_OK then Some (ktResult t, None, s)
     else if \<not> has_der_buffer env kind (world s) then Some (CKR_HOST_MEMORY, None, s)
     else (case mbedtls_pk_write_key_der env kind (ktCalls t) MAX_PRIVATE_KEY_SIZE of
         None \<Rightarrow> Some (CKR_ATTRIBUTE_VALUE_INVALID, None, s)
       | Some d \<Rightarrow> if length d \<le> MAX_PRIVATE_KEY_SIZE then save_and_add env kind t (Some d) s else None))
     (object_created template s)" if "from_template template t" for kind t
    using that by (auto simp: keeps_Some)
  show ?thesis
    unfolding prvCreatePrivateKey_def
    by (rule keeps_bind, rule keeps_cut [where Q = "\<lambda>(_, t). from_template template t"])
      (auto simp: Let_def intro!: keeps_intro keeps_map rsa_private_from_template ec_private_from_template rest)
qed

lemma public_created:
  assumes "labels_terminated template" and "list_inv (ctx s)"
  shows "keeps (prvCreatePublicKey env template s) (object_created template s)"
proof -
  have "keeps (case mbedtls_pk_write_pubkey_der env kind (ktCalls t) MAX_PUBLIC_KEY_SIZE of
         None \<Rightarrow> save_and_add env kind t None s
       | Some d \<Rightarrow> if length d \<le> MAX_PUBLIC_KEY_SIZE then save_and_add env kind t (Some d) s else None)
     (object_created template s)" if "from_template template t" for kind t
    by (intro keeps_intro save_and_add_created that assms)
  then have rest: "keeps (if ktResult t \<noteq> CKR_OK then Some (ktResult t, None, s)
     else if \<not> has_der_buffer env kind (world s) then Some (CKR_HOST_MEMORY, None, s)
     else (case mbedtls_pk_write_pubkey_der env kind (ktCalls t) MAX_PUBLIC_KEY_SIZE of
         None \<Rightarrow> save_and_add env kind t None s
       | Some d \<Rightarrow> if length d \<le> MAX_PUBLIC_KEY_SIZE then save_and_add env kind t (Some d) s else None))
     (object_created template s)" if "from_template template t" for kind t
    using that by (auto simp: keeps_Some)
  show ?thesis
    unfolding prvCreatePublicKey_def
    by (rule keeps_bind, rule keeps_cut [where Q = "\<lambda>(_, t). from_template template t"])
      (auto simp: Let_def intro!: keeps_intro keeps_map ec_public_from_template rest)
qed

definition certificate_from_template :: "attribute list \<Rightarrow> certificate_template \<Rightarrow> bool" where
  "certificate_from_template template t =
     ((\<forall>a. ctLabel t = Some a \<longrightarrow> a \<in> set template \<and> aType a = CKA_LABEL) \<and>
      (\<forall>a. ctClass t = Some a \<longrightarrow> a \<in> set template \<and> aType a = CKA_CLASS))"

lemma certificate_from_template_step:
  "certificate_from_template tpl t \<Longrightarrow> a \<in> set tpl \<Longrightarrow>
   keeps (parse_certificate_attribute a t) (certificate_from_template tpl)"
  unfolding parse_certificate_attribute_def
  by (intro keeps_intro) (auto simp: certificate_from_template_def)

lemma certificate_created:
  assumes "labels_terminated template" and "list_inv (ctx s)"
  shows "keeps (prvCreateCertificate env template s) (object_created template s)"
  unfolding prvCreateCertificate_def
proof (rule keeps_cut [where Q = "certificate_from_template template"])
  show "keeps (for_each template parse_certificate_attribute \<lparr>ctResult = CKR_OK, ctValue = None, ctLabel = None, ctClass = None\<rparr>)
     (certificate_from_template template)"
    by (rule for_each_keeps [OF _ certificate_from_template_step]) (auto simp: certificate_from_template_def)
next
  fix t assume t: "certificate_from_template template t"
  have "object_created template s r"
    if c: "ctLabel t = Some label" "ctClass t = Some cls" "read_at (aValue cls) 0 4 = Some b"
      and save: "PKCS11PSASaveObject (psa_env.truncate env) (object_class_of (of_le32 b)) (aValue label) d no_key (store s) = Some (p, st)"
      and add: "(if p = 0 then Some (CKR_DEVICE_MEMORY, None, s\<lparr>store := st\<rparr>)
        else do {
          (xResult, app, c) \<leftarrow> prvAddObjectToList p (aValue label) (aLen label) (ctx (s\<lparr>store := st\<rparr>));
          Some (xResult, app, s\<lparr>store := st, ctx := c\<rparr>) }) = Some r" for label cls b d p st r
  proof -
    from t c(1,2) assms(1) have a: "label \<in> set template" "aType label = CKA_LABEL" "cls \<in> set template" "aType cls = CKA_CLASS"
      "terminated (aValue label)" by (auto simp: certificate_from_template_def labels_terminated_def)
    have "attribute_class cls = object_class_of (of_le32 b)" using take_class [OF c(3)] by (simp add: attribute_class_def)
    from saved_added [OF assms(2) a this save] add show ?thesis
      by (auto simp: eInvalidHandle_def intro: created_refused split: if_splits)
  qed
  then show "keeps (case (ctValue t, ctLabel t) of
        (Some (value, len), Some label) \<Rightarrow>
          if ctResult t \<noteq> CKR_OK then Some (ctResult t, None, s)
          else do {
            cls \<leftarrow> ctClass t;
            b \<leftarrow> read_at (aValue cls) 0 4;
            data \<leftarrow> read_at value 0 len;
            (xPalHandle, st) \<leftarrow> PKCS11PSASaveObject (psa_env.truncate env) (object_class_of (of_le32 b)) (aValue label) data no_key (store s);
            let s = s\<lparr>store := st\<rparr>;
            if xPalHandle = 0 then Some (CKR_DEVICE_MEMORY, None, s)
            else do {
              (xResult, app, c) \<leftarrow> prvAddObjectToList xPalHandle (aValue label) (aLen label) (ctx s);
              Some (xResult, app, s\<lparr>ctx := c\<rparr>) } }
      | _ \<Rightarrow> Some (CKR_TEMPLATE_INCOMPLETE, None, s)) (object_created template s)"
    unfolding keeps_def Let_def
    by (auto split: option.split prod.split simp del: bind_Some_iff read_at_Some elim!: bind_SomeE)
qed

lemma create_object:
  assumes "list_inv (ctx s)" and "labels_terminated template"
  shows "keeps (C_CreateObject env h (Some template) out s) (object_created template s)"
proof -
  have nc: "rc \<noteq> CKR_OK" if "prvGetObjectClass template = Some (rc, None)" for rc
    using that by (induction template) (auto split: if_splits)
  have "keeps (case c of CKO_CERTIFICATE \<Rightarrow> prvCreateCertificate env template s | CKO_PUBLIC_KEY \<Rightarrow> prvCreatePublicKey env template s
     | CKO_PRIVATE_KEY \<Rightarrow> prvCreatePrivateKey env template s | CKO_OTHER \<Rightarrow> Some (CKR_ATTRIBUTE_VALUE_INVALID, None, s))
     (object_created template s)" for c
    by (cases c) (simp_all add: private_created public_created certificate_created assms keeps_Some)
  then show ?thesis
    unfolding C_CreateObject_def Let_def by (intro keeps_intro) (auto simp: nc)
qed


subsection \<open>Key pairs\<close>

lemma record_key_correct:
  assumes "list_inv (ctx s)" and "terminated (aValue a)" and "label_handle (c_str (aValue a)) = p" and "is_key p"
    and "aLen a \<le> length (aValue a)"
  shows "\<exists>rc app s'. record_key True p a k s = Some (rc, app, s') \<and> list_inv (ctx s') \<and> world s' = world s \<and>
    stored (store s') = (stored (store s))(p \<mapsto> k) \<and>
    entered p (ctx s) rc app (ctx s')"
proof -
  have nz: "p \<noteq> CK_INVALID_HANDLE" using assms(4) by (rule key_handle_not_invalid)
  have nz': "p \<noteq> eInvalidHandle" using nz by (simp add: invalid_handles)
  from PKCS11PSAContextImportObject_refines [OF assms(2), of k "store s"] nz' assms(3,4) obtain st where
    st: "PKCS11PSAContextImportObject (aValue a) k (store s) = Some st" "psa st = world s" "stored st = (stored (store s))(p \<mapsto> k)"
    by auto
  from add_to_list [OF assms(1) nz assms(5)] obtain rc app c where
    add: "prvAddObjectToList p (aValue a) (aLen a) (ctx s) = Some (rc, app, c)" by blast
  have "record_key True p a k s = Some (rc, app, s\<lparr>store := st, ctx := c\<rparr>)"
    by (simp add: record_key_def st(1) add Let_def)
  with add_result [OF assms(1) nz add] st(2,3) show ?thesis by simp
qed


subsection \<open>Examples\<close>

definition demo_fresh :: "((nat \<rightharpoonup> bytes) \<times> (u32 \<rightharpoonup> bytes)) p11" where
  "demo_fresh = \<lparr>ctx = fresh_context, store = no_objects (Map.empty, Map.empty), sessions = [1 \<mapsto> demo_session]\<rparr>"

lemma demo_fresh_ready: "ready 1 demo_session demo_fresh"
  by (simp add: ready_def demo_fresh_def demo_session_def fresh_context_def)

definition bool_attribute :: "u32 \<Rightarrow> attribute" where
  "bool_attribute ty = \<lparr>aType = ty, aValue = [CK_TRUE], aLen = 1\<rparr>"

definition label_attribute :: "bytes \<Rightarrow> attribute" where
  "label_attribute label = \<lparr>aType = CKA_LABEL, aValue = label, aLen = length label\<rparr>"

definition p256_attribute :: attribute where
  "p256_attribute = \<lparr>aType = CKA_EC_PARAMS, aValue = pkcs11DER_ENCODED_OID_P256, aLen = 10\<rparr>"

definition demo_private_template :: "attribute list" where
  "demo_private_template = [label_attribute LABEL_DEVICE_PRIVATE_KEY_FOR_TLS, bool_attribute CKA_PRIVATE, bool_attribute CKA_SIGN]"

definition demo_public_template :: "attribute list" where
  "demo_public_template = [label_attribute LABEL_DEVICE_PUBLIC_KEY_FOR_TLS, p256_attribute, bool_attribute CKA_VERIFY]"

definition demo_key_template :: "attribute list" where
  "demo_key_template = [\<lparr>aType = CKA_CLASS, aValue = le32 3, aLen = 4\<rparr>, \<lparr>aType = CKA_KEY_TYPE, aValue = le32 CKK_EC, aLen = 4\<rparr>,
     label_attribute LABEL_DEVICE_PRIVATE_KEY_FOR_TLS, bool_attribute CKA_TOKEN, bool_attribute CKA_SIGN, p256_attribute,
     \<lparr>aType = CKA_VALUE, aValue = replicate 32 7, aLen = 32\<rparr>]"

lemma memcmp_p256:
  "length pkcs11DER_ENCODED_OID_P256 = 10" "memcmp_eq pkcs11DER_ENCODED_OID_P256 pkcs11DER_ENCODED_OID_P256 10 = Some True"
  by code_simp+

lemma demo_private_check: "prvCheckGenerateKeyPairPrivateTemplate demo_private_template =
    Some (CKR_OK, Some (label_attribute LABEL_DEVICE_PRIVATE_KEY_FOR_TLS))"
  by (simp add: prvCheckGenerateKeyPairPrivateTemplate_def check_template_def demo_private_template_def private_template_attribute_def
    label_attribute_def bool_attribute_def pair_flag_def key_attribute_defs)

lemma demo_public_check: "prvCheckGenerateKeyPairPublicTemplate demo_public_template =
    Some (CKR_OK, Some (label_attribute LABEL_DEVICE_PUBLIC_KEY_FOR_TLS))"
  by (simp add: memcmp_p256 prvCheckGenerateKeyPairPublicTemplate_def check_template_def demo_public_template_def public_template_attribute_def
    label_attribute_def bool_attribute_def p256_attribute_def pair_flag_def key_attribute_defs)

lemma reference_keys:
  "psa_generate_key reference_p11 a bits w = (case ka_id a of None \<Rightarrow> (PSA_ERROR_GENERIC_ERROR, 0, w)
     | Some k \<Rightarrow> (PSA_SUCCESS, k, fst w, (snd w)(k \<mapsto> replicate 32 6)))"
  "psa_export_public_key reference_p11 k n w = (case snd w k of None \<Rightarrow> (PSA_ERROR_DOES_NOT_EXIST, []) | Some d \<Rightarrow> (PSA_SUCCESS, 4 # d @ d))"
  "has_key_context reference_p11 kind w" "has_der_buffer reference_p11 kind w" "key_call_ok reference_p11 kind calls c"
  "pk_view reference_p11 kind calls = toy_context calls"
  "mbedtls_pk_write_key_der reference_p11 kind calls n = Some (concat (map call_bytes calls))"
  "psa_import_key reference_p11 = psa_import_key reference_psa"
  by (simp_all add: reference_p11_def reference_psa_def psa_env.defs p11_env.defs)


lemma demo_ec_template: "prvCreateEcPrivateKey reference_p11 KeyEc demo_key_template =
  Some \<lparr>ktResult = CKR_OK, ktLabel = Some (label_attribute LABEL_DEVICE_PRIVATE_KEY_FOR_TLS),
    ktClass = Some \<lparr>aType = CKA_CLASS, aValue = le32 3, aLen = 4\<rparr>, ktBool = Some CK_TRUE, ktCalls = [EcScalar (replicate 32 7)]\<rparr>"
  using memcmp_p256
  by (simp add: prvCreateEcPrivateKey_def demo_key_template_def ec_private_attribute_def empty_template_def
    label_attribute_def bool_attribute_def p256_attribute_def key_attribute_defs require_true_def require_p256_def key_call_def
    call_result_def take_label_def label_defs pkcs11configMAX_LABEL_LENGTH_def reference_keys)


lemma demo_key_class: "object_class_of 3 = CKO_PRIVATE_KEY"
  by (simp add: object_class_of_def)

lemma demo_prepared: "prepare_private_key (psa_env.truncate reference_p11) (toy_context [EcScalar (replicate 32 7)]) data =
  Some (Some (private_key_attributes True, replicate 32 7))"
  unfolding prepare_private_key_def toy_context_def Let_def
  by (simp add: reference_p11_simps reference_psa_def private_key_attributes_def EC_PRIVATE_KEY_MAX_LENGTH_def write_at_def read_at_def
    del: read_at_Some write_at_Some)

lemma demo_created_key: "\<exists>s'. C_CreateObject reference_p11 1 (Some demo_key_template) True demo_fresh = Some (CKR_OK, Some 1, s')"
proof -
  obtain st where st: "PKCS11PSASaveObject (psa_env.truncate reference_p11) CKO_PRIVATE_KEY LABEL_DEVICE_PRIVATE_KEY_FOR_TLS (replicate 32 7)
      (toy_context [EcScalar (replicate 32 7)]) (store demo_fresh) = Some (eAwsDevicePrivateKey, st)"
  proof -
    have h: "label_handle (c_str LABEL_DEVICE_PRIVATE_KEY_FOR_TLS) = eAwsDevicePrivateKey"
      unfolding c_str_labels by (rule demo_label_handle)
    then show ?thesis using that terminated_labels(1) demo_prepared [of "replicate 32 7"]
      by (simp add: PKCS11PSASaveObject_def is_object_label pkcs11OBJECT_MAX_SIZE_def import_and_record_def reference_p11_simps
        reference_psa_def PKCS11PSAContextImportObject_def strcmp_labels private_key_attributes_def)
  qed
  have cls: "prvGetObjectClass demo_key_template = Some (CKR_OK, Some CKO_PRIVATE_KEY)"
    by (simp add: demo_key_template_def demo_key_class)
  have ty: "prvGetKeyType demo_key_template = Some CKK_EC"
    by (simp add: demo_key_template_def key_attribute_defs label_attribute_def)
  obtain c where c: "prvAddObjectToList eAwsDevicePrivateKey LABEL_DEVICE_PRIVATE_KEY_FOR_TLS 13 (ctx demo_fresh) = Some (CKR_OK, Some 1, c)"
    by (simp add: demo_fresh_def fresh_context_def zero_context_def prvAddObjectToList_def read_at_def label_defs
      write_at_def no_object_def eval_nat_numeral pkcs11configMAX_NUM_OBJECTS_def pkcs11configMAX_LABEL_LENGTH_def CK_INVALID_HANDLE_def
      eAwsDevicePrivateKey_def)
  have nz: "eAwsDevicePrivateKey \<noteq> CK_INVALID_HANDLE" by (simp add: invalid_handles)
  have l: "length LABEL_DEVICE_PRIVATE_KEY_FOR_TLS = 13" by (simp add: label_defs)
  have save: "save_and_add reference_p11 KeyEc \<lparr>ktResult = CKR_OK, ktLabel = Some (label_attribute LABEL_DEVICE_PRIVATE_KEY_FOR_TLS),
      ktClass = Some \<lparr>aType = CKA_CLASS, aValue = le32 3, aLen = 4\<rparr>, ktBool = Some CK_TRUE, ktCalls = [EcScalar (replicate 32 7)]\<rparr>
      (Some (replicate 32 7)) demo_fresh = Some (CKR_OK, Some 1, demo_fresh\<lparr>store := st, ctx := c\<rparr>)"
    using st c nz
    by (simp add: save_and_add_def save_key_object_def pkcs11OBJECT_MAX_SIZE_def demo_key_class label_attribute_def reference_keys Let_def l)
  show ?thesis
    unfolding C_CreateObject_def ready_valid [OF demo_fresh_ready] Option.bind.simps Let_def cls case_prod_conv
      prvCreatePrivateKey_def ty
    by (simp add: reference_keys CKK_EC_def CKK_RSA_def demo_ec_template save MAX_PRIVATE_KEY_SIZE_def)
qed


subsection \<open>Where the parsers go wrong\<close>

text \<open>An elliptic curve key without room for its context, and a template without a label.\<close>

lemma ec_private_no_context:
  "aType a = CKA_VALUE \<Longrightarrow> ec_private_attribute env KeyNone a t = None"
  by (simp add: ec_private_attribute_def key_call_def call_result_def key_attribute_defs)

lemma save_without_label:
  assumes "length data \<le> pkcs11OBJECT_MAX_SIZE" and "ktLabel t = None" and "ktClass t = Some c"
    and "4 \<le> length (aValue c)" and "attribute_class c \<noteq> CKO_OTHER"
  shows "save_key_object env kind t data st = None"
  using assms by (cases "attribute_class c") (simp_all add: save_key_object_def attribute_class_def)

text \<open>A sign or verify attribute that is longer than a flag, and curve parameters of length 0.\<close>

lemma require_true_overflow: "1 < aLen a \<Longrightarrow> require_true_sized err a t = None"
  by (simp add: require_true_sized_def)

lemma require_p256_empty: "aLen a = 0 \<Longrightarrow> require_p256 a t = Some t"
  by (simp add: require_p256_def)

end
