(* ===== verification/P11Attributes.thy ===== *)
theory P11Attributes
  imports P11Keys
begin

text \<open>
  iot_pkcs11_psa.c: \<open>C_GetAttributeValue\<close>, through which the application reads an object. The template
  is input and output: the function fills the buffers and the lengths.
\<close>

definition CK_UNAVAILABLE_INFORMATION :: nat where "CK_UNAVAILABLE_INFORMATION = 2 ^ 32 - 1"

text \<open>
  One attribute of the template: \<open>gValue\<close> is the buffer at \<open>pValue\<close>, \<open>None\<close> where that is \<open>NULL\<close>.
\<close>

record query =
  gType :: u32
  gValue :: "bytes option"
  gLen :: nat

text \<open>Filling a buffer.\<close>

definition put_value :: "bytes \<Rightarrow> bytes \<Rightarrow> query \<Rightarrow> query option" where
  "put_value buf d q = do {
     buf \<leftarrow> write_at buf 0 d;
     Some (q\<lparr>gValue := Some buf\<rparr>) }"

text \<open>
  The class of an object as a word. The PAL handle is that of an object that was found, so one of the
  six.
\<close>

definition class_word :: "pal_handle \<Rightarrow> u32 option" where
  "class_word h =
     (if h = eAwsDevicePrivateKey then Some 3
      else if h = eAwsDevicePublicKey \<or> h = eAwsCodeVerifyingKey then Some 2
      else if h = eAwsJitpCertificate \<or> h = eAwsRootCertificate \<or> h = eAwsDeviceCertificate then Some 1
      else None)"

definition get_class :: "pal_handle \<Rightarrow> query \<Rightarrow> (CK_RV \<times> query) option" where
  "get_class h q =
     (case gValue q of
        None \<Rightarrow> Some (CKR_OK, q\<lparr>gLen := 4\<rparr>)
      | Some buf \<Rightarrow>
          if gLen q \<ge> 4
          then do {
            w \<leftarrow> class_word h;
            q \<leftarrow> put_value buf (le32 w) q;
            Some (CKR_OK, q) }
          else Some (CKR_BUFFER_TOO_SMALL, q))"

text \<open>The value that was read before, the first \<open>n\<close> bytes of \<open>src\<close>, unless the object is private. The length is not set when it is copied.\<close>

definition get_value :: "bool \<Rightarrow> bytes \<Rightarrow> nat \<Rightarrow> query \<Rightarrow> (CK_RV \<times> query) option" where
  "get_value xIsPrivate src n q =
     (if xIsPrivate then Some (CKR_ATTRIBUTE_SENSITIVE, q\<lparr>gLen := CK_UNAVAILABLE_INFORMATION\<rparr>)
      else case gValue q of
          None \<Rightarrow> Some (CKR_OK, q\<lparr>gLen := n\<rparr>)
        | Some buf \<Rightarrow>
            if gLen q < n then Some (CKR_BUFFER_TOO_SMALL, q)
            else do {
              data \<leftarrow> read_at src 0 n;
              q \<leftarrow> put_value buf data q;
              Some (CKR_OK, q) })"

text \<open>The key type is derived from the algorithm of the key with the object's label.\<close>

definition get_key_type ::
  "('w, 'z) p11_env_scheme \<Rightarrow> bytes \<Rightarrow> nat \<Rightarrow> 'w p11_store \<Rightarrow> query \<Rightarrow> (CK_RV \<times> query) option" where
  "get_key_type env pcLabel xSize st q =
     (case gValue q of
        None \<Rightarrow> Some (CKR_OK, q\<lparr>gLen := 4\<rparr>)
      | Some buf \<Rightarrow>
          if gLen q < 4 then Some (CKR_BUFFER_TOO_SMALL, q)
          else do {
            (xResult, key) \<leftarrow> PKCS11PSAGetKeyHandle pcLabel xSize st;
            if xResult \<noteq> CKR_OK then Some (xResult, q)
            else if fst (psa_get_key_attributes env key (psa st)) \<noteq> PSA_SUCCESS then Some (CKR_FUNCTION_FAILED, q)
            else let alg = psa_get_key_algorithm env key (psa st)
              in if PSA_ALG_IS_ECDSA alg
              then do {
                q \<leftarrow> put_value buf (le32 CKK_EC) q;
                Some (CKR_OK, q) }
              else if PSA_ALG_IS_RSA_PKCS1V15_SIGN alg \<or> PSA_ALG_IS_RSA_PSS alg
              then do {
                q \<leftarrow> put_value buf (le32 CKK_RSA) q;
                Some (CKR_OK, q) }
              else Some (CKR_ATTRIBUTE_VALUE_INVALID, q) })"

text \<open>The length is set before it is compared, so no buffer is found too small.\<close>

definition get_ec_params :: "query \<Rightarrow> (CK_RV \<times> query) option" where
  "get_ec_params q =
     (let q = q\<lparr>gLen := length pkcs11DER_ENCODED_OID_P256\<rparr>
      in case gValue q of
           None \<Rightarrow> Some (CKR_OK, q)
         | Some buf \<Rightarrow>
             if gLen q < length pkcs11DER_ENCODED_OID_P256 then Some (CKR_BUFFER_TOO_SMALL, q)
             else do {
               q \<leftarrow> put_value buf pkcs11DER_ENCODED_OID_P256 q;
               Some (CKR_OK, q) })"

text \<open>
  The length of the buffer is compared with the size of a type of mbedTLS, not with the size of what is
  written.
\<close>

definition get_ec_point :: "nat \<Rightarrow> bytes \<Rightarrow> nat \<Rightarrow> query \<Rightarrow> (CK_RV \<times> query) option" where
  "get_ec_point sizeof src n q =
     (case gValue q of
        None \<Rightarrow> Some (CKR_OK, q\<lparr>gLen := 67\<rparr>)
      | Some buf \<Rightarrow>
          if gLen q < sizeof then Some (CKR_BUFFER_TOO_SMALL, q)
          else do {
            data \<leftarrow> read_at src 0 n;
            q \<leftarrow> put_value buf (4 # of_nat n # data) (q\<lparr>gLen := n + 2\<rparr>);
            Some (CKR_OK, q) })"

definition get_attribute ::
  "('w, 'z) p11_env_scheme \<Rightarrow> pal_handle \<Rightarrow> bytes \<Rightarrow> nat \<Rightarrow> bool \<Rightarrow> bytes \<Rightarrow> nat \<Rightarrow> 'w p11_store \<Rightarrow> query \<Rightarrow>
   (CK_RV \<times> query) option" where
  "get_attribute env h pcLabel xSize xIsPrivate src n st q =
     (if gType q = CKA_CLASS then get_class h q
      else if gType q = CKA_VALUE then get_value xIsPrivate src n q
      else if gType q = CKA_KEY_TYPE then get_key_type env pcLabel xSize st q
      else if gType q = CKA_PRIVATE_EXPONENT then Some (CKR_ATTRIBUTE_SENSITIVE, q)
      else if gType q = CKA_EC_PARAMS then get_ec_params q
      else if gType q = CKA_EC_POINT then get_ec_point (sizeof_ecp_point env) src n q
      else Some (CKR_ATTRIBUTE_TYPE_INVALID, q))"

text \<open>The loop ends with the first error; the attributes behind it stay as they are.\<close>

fun get_attributes :: "(query \<Rightarrow> (CK_RV \<times> query) option) \<Rightarrow> query list \<Rightarrow> (CK_RV \<times> query list) option" where
  "get_attributes f [] = Some (CKR_OK, [])"
| "get_attributes f (q # qs) = do {
     (xResult, q) \<leftarrow> f q;
     if xResult \<noteq> CKR_OK then Some (xResult, q # qs)
     else do {
       (xResult, qs) \<leftarrow> get_attributes f qs;
       Some (xResult, q # qs) } }"

text \<open>
  The object is read into a buffer on the stack, \<open>ucGetData\<close>; the template is \<open>None\<close> where the pointer
  is \<open>NULL\<close>. The private flag starts as true. The state does not change.
\<close>

definition C_GetAttributeValue ::
  "('w, 'z) p11_env_scheme \<Rightarrow> nat \<Rightarrow> u32 \<Rightarrow> query list option \<Rightarrow> bytes \<Rightarrow> 'w p11 \<Rightarrow> (CK_RV \<times> query list option) option" where
  "C_GetAttributeValue env xSession xObject pxTemplate ucGetData s = do {
     xResult \<leftarrow> PKCS11_SESSION_VALID_AND_MODULE_INITIALIZED xSession s;
     if xResult \<noteq> CKR_OK then Some (xResult, pxTemplate)
     else (case pxTemplate of
         None \<Rightarrow> Some (CKR_ARGUMENTS_BAD, pxTemplate)
       | Some template \<Rightarrow>
           if template = [] then Some (CKR_ARGUMENTS_BAD, pxTemplate)
           else do {
             (xPalHandle, pcLabel, xSize) \<leftarrow> prvFindObjectInListByHandle xObject (ctx s);
             if xPalHandle = CK_INVALID_HANDLE then Some (CKR_OBJECT_HANDLE_INVALID, pxTemplate)
             else do {
               (xResult, value) \<leftarrow> PKCS11PSAGetObjectValue (psa_env.truncate env) xPalHandle
                 \<lparr>pucData = ucGetData, pulDataSize = pkcs11OBJECT_MAX_SIZE, pIsPrivate = True\<rparr> (store s);
               if xResult \<noteq> CKR_OK then Some (xResult, pxTemplate)
               else do {
                 label \<leftarrow> pcLabel;
                 (xResult, template) \<leftarrow> get_attributes
                   (get_attribute env xPalHandle label xSize (pIsPrivate value) (pucData value) (pulDataSize value) (store s)) template;
                 Some (xResult, Some template) } } }) }"

subsection \<open>The private key\<close>

text \<open>A query keeps its type, and its buffer but for a prefix that is one of the given values.\<close>

definition reveals_only :: "bytes set \<Rightarrow> query \<Rightarrow> query \<Rightarrow> bool" where
  "reveals_only P q q' = (gType q' = gType q \<and> (gValue q' = gValue q \<or>
     (\<exists>b p. gValue q = Some b \<and> p \<in> P \<and> gValue q' = Some (p @ drop (length p) b))))"

lemma put_value_reveals:
  "put_value b p q = Some q' \<Longrightarrow> gValue q = Some b \<Longrightarrow> p \<in> P \<Longrightarrow> reveals_only P q q'"
  by (auto simp: put_value_def reveals_only_def)

lemma put_value_reveals_len:
  "put_value b p (q\<lparr>gLen := n\<rparr>) = Some q' \<Longrightarrow> gValue q = Some b \<Longrightarrow> p \<in> P \<Longrightarrow> reveals_only P q q'"
  by (auto simp: put_value_def reveals_only_def)

lemma reveals_refl [simp]: "reveals_only P q q" "reveals_only P q (q\<lparr>gLen := n\<rparr>)"
  by (auto simp: reveals_only_def)

definition public_constants :: "bytes set" where
  "public_constants = {le32 3, le32 CKK_EC, le32 CKK_RSA, pkcs11DER_ENCODED_OID_P256, [4, 0]}"

lemma private_attribute:
  assumes "get_attribute env eAwsDevicePrivateKey l sz True src 0 st q = Some (rc, q')"
  shows "reveals_only public_constants q q' \<and> (rc = CKR_OK \<longrightarrow> gType q \<noteq> CKA_VALUE \<and> gType q \<noteq> CKA_PRIVATE_EXPONENT)"
proof -
  have c: "le32 3 \<in> public_constants" "le32 CKK_EC \<in> public_constants" "le32 CKK_RSA \<in> public_constants"
    "pkcs11DER_ENCODED_OID_P256 \<in> public_constants" "[4, 0] \<in> public_constants" by (simp_all add: public_constants_def)
  have t: "CKA_CLASS \<noteq> CKA_VALUE" "CKA_KEY_TYPE \<noteq> CKA_VALUE" "CKA_CLASS \<noteq> CKA_PRIVATE_EXPONENT" "CKA_KEY_TYPE \<noteq> CKA_PRIVATE_EXPONENT"
    "CKA_EC_PARAMS \<noteq> CKA_VALUE" "CKA_EC_POINT \<noteq> CKA_VALUE" "CKA_EC_PARAMS \<noteq> CKA_PRIVATE_EXPONENT" "CKA_EC_POINT \<noteq> CKA_PRIVATE_EXPONENT"
    by (simp_all add: key_attribute_defs)
  have "get_class eAwsDevicePrivateKey q = Some (rc, q') \<Longrightarrow> reveals_only public_constants q q'"
    using c(1) by (auto simp: get_class_def class_word_def intro: put_value_reveals split: option.splits if_splits)
  moreover have "get_value True src 0 q = Some (rc, q') \<Longrightarrow> reveals_only public_constants q q' \<and> rc \<noteq> CKR_OK"
    by (auto simp: get_value_def)
  moreover have "get_key_type env l sz st q = Some (rc, q') \<Longrightarrow> reveals_only public_constants q q'"
    using c(2,3) by (auto simp: get_key_type_def Let_def intro: put_value_reveals split: option.splits if_splits)
  moreover have "get_ec_params q = Some (rc, q') \<Longrightarrow> reveals_only public_constants q q'"
    using c(4) by (auto simp: get_ec_params_def Let_def intro: put_value_reveals_len split: option.splits if_splits)
  moreover have "get_ec_point n src 0 q = Some (rc, q') \<Longrightarrow> reveals_only public_constants q q'" for n
    using c(5) by (auto simp: get_ec_point_def read_at_def intro: put_value_reveals_len split: option.splits if_splits)
  ultimately show ?thesis
    using assms t by (auto simp: get_attribute_def split: if_splits)
qed

lemma get_attributes_all:
  assumes "get_attributes f qs = Some (rc, qs')" and "\<And>q rc q'. f q = Some (rc, q') \<Longrightarrow> R q q' \<and> (rc = CKR_OK \<longrightarrow> Q q)"
    and "\<And>q. R q q"
  shows "list_all2 R qs qs' \<and> (rc = CKR_OK \<longrightarrow> (\<forall>q \<in> set qs. Q q))"
  using assms(1)
proof (induction qs arbitrary: qs')
  case (Cons q qs)
  have r: "list_all2 R qs qs" using assms(3) by (simp add: list_all2_refl)
  from Cons.prems obtain rc1 q1 where q1: "f q = Some (rc1, q1)" by auto
  show ?case
  proof (cases "rc1 = CKR_OK")
    case True
    with Cons.prems q1 obtain qs1 where "get_attributes f qs = Some (rc, qs1)" "qs' = q1 # qs1" by auto
    with Cons.IH assms(2) [OF q1] True show ?thesis by auto
  next
    case False
    with Cons.prems q1 assms(2) [OF q1] r show ?thesis by auto
  qed
qed simp

text \<open>
  C15: reading the attributes of the device's private key, whatever the template, never shows it when the
  secure side refuses to export it: all that is written is the class, the key type, the identifier of
  the curve and the two bytes in front of an empty point; and the call fails as soon as it reaches the
  value or the private exponent.
\<close>

theorem C_GetAttributeValue_keeps_secret:
  assumes "ready h x s" and "key_of i eAwsDevicePrivateKey k s"
    and "\<forall>n. psa_export_key env k n (world s) = (PSA_ERROR_NOT_PERMITTED, [])"
    and "C_GetAttributeValue env h (of_nat (i + 1)) (Some t) buf s = Some (rc, Some t')"
  shows "list_all2 (reveals_only public_constants) t t' \<and>
    (rc = CKR_OK \<longrightarrow> (\<forall>q \<in> set t. gType q \<noteq> CKA_VALUE \<and> gType q \<noteq> CKA_PRIVATE_EXPONENT))"
proof -
  from key_of_lookup [OF assms(2)] obtain label n where
    l: "prvFindObjectInListByHandle (of_nat (i + 1)) (ctx s) = Some (eAwsDevicePrivateKey, Some label, n)" by blast
  have nz: "eAwsDevicePrivateKey \<noteq> CK_INVALID_HANDLE" by (simp add: invalid_handles)
  from assms(2) have k: "xDevicePrivateKeyMark (store s)" "uxDevicePrivateKey (store s) = k"
    by (auto simp: key_of_def stored_def split: if_splits)
  let ?out = "\<lparr>pucData = buf, pulDataSize = pkcs11OBJECT_MAX_SIZE, pIsPrivate = True\<rparr>"
  obtain u ty bits where a: "psa_get_key_attributes env k (world s) = (u, ty, bits)" by (cases "psa_get_key_attributes env k (world s)") auto
  have w: "write_at buf 0 [] = Some buf" by (simp add: write_at_def)
  have v: "PKCS11PSAGetObjectValue (psa_env.truncate env) eAwsDevicePrivateKey ?out (store s) =
      Some (if u = PSA_SUCCESS then (CKR_OK, ?out\<lparr>pulDataSize := 0\<rparr>) else (CKR_FUNCTION_FAILED, ?out))"
    using k a assms(3) w
    by (simp add: PKCS11PSAGetObjectValue_def export_key_value_def psa_env.defs PSA_ERROR_NOT_PERMITTED_def PSA_SUCCESS_def del: write_at_Some)
  have refl: "list_all2 (reveals_only public_constants) t t" by (simp add: list_all2_refl)
  show ?thesis
  proof (cases "t = [] \<or> u \<noteq> PSA_SUCCESS")
    case True
    with assms(4) refl show ?thesis
      unfolding C_GetAttributeValue_def ready_valid [OF assms(1)] Option.bind.simps option.case l case_prod_conv v
      using nz by (auto split: if_splits)
  next
    case False
    with assms(4) have "get_attributes (get_attribute env eAwsDevicePrivateKey label n True buf 0 (store s)) t = Some (rc, t')"
      unfolding C_GetAttributeValue_def ready_valid [OF assms(1)] Option.bind.simps option.case l case_prod_conv v
      using nz by (auto split: if_splits)
    then show ?thesis by (rule get_attributes_all) (erule private_attribute, simp)
  qed
qed

theorem C_GetAttributeValue_keeps_secret_witness:
  "\<exists>rc t'. C_GetAttributeValue reference_p11 1 (of_nat (0 + 1)) (Some [\<lparr>gType = CKA_CLASS, gValue = Some [0, 0, 0, 0, 9], gLen = 5\<rparr>,
       \<lparr>gType = CKA_VALUE, gValue = Some (replicate 40 0), gLen = 40\<rparr>]) (replicate 1300 0) demo_p11 = Some (rc, Some t') \<and>
     rc \<noteq> CKR_OK \<and> list_all2 (reveals_only public_constants) [\<lparr>gType = CKA_CLASS, gValue = Some [0, 0, 0, 0, 9], gLen = 5\<rparr>,
       \<lparr>gType = CKA_VALUE, gValue = Some (replicate 40 0), gLen = 40\<rparr>] t'"
proof -
  let ?t = "[\<lparr>gType = CKA_CLASS, gValue = Some [0, 0, 0, 0, 9 :: u8], gLen = 5\<rparr>, \<lparr>gType = CKA_VALUE, gValue = Some (replicate 40 0), gLen = 40\<rparr>]"
  let ?buf = "replicate 1300 (0 :: u8)"
  from key_of_lookup [OF demo_key_of] obtain label n where
    l: "prvFindObjectInListByHandle (of_nat (0 + 1)) (ctx demo_p11) = Some (eAwsDevicePrivateKey, Some label, n)" by blast
  have nz: "eAwsDevicePrivateKey \<noteq> CK_INVALID_HANDLE" by (simp add: invalid_handles)
  have e: "\<forall>n. psa_export_key reference_p11 1 n (world demo_p11) = (PSA_ERROR_NOT_PERMITTED, [])"
    by (simp add: reference_p11_def reference_psa_def psa_env.defs p11_env.defs)
  have v: "PKCS11PSAGetObjectValue (psa_env.truncate reference_p11) eAwsDevicePrivateKey
      \<lparr>pucData = ?buf, pulDataSize = pkcs11OBJECT_MAX_SIZE, pIsPrivate = True\<rparr> (store demo_p11) =
      Some (CKR_OK, \<lparr>pucData = ?buf, pulDataSize = 0, pIsPrivate = True\<rparr>)"
    by (simp add: PKCS11PSAGetObjectValue_def export_key_value_def reference_p11_simps demo_p11_def demo_with_key_def no_objects_def
      reference_psa_def PSA_ERROR_NOT_PERMITTED_def PSA_SUCCESS_def write_at_def del: write_at_Some)
  have t: "CKA_CLASS \<noteq> CKA_VALUE" "CKA_VALUE \<noteq> CKA_CLASS" by (simp_all add: key_attribute_defs)
  obtain rc t' where run: "C_GetAttributeValue reference_p11 1 (of_nat (0 + 1)) (Some ?t) ?buf demo_p11 = Some (rc, Some t')"
    unfolding C_GetAttributeValue_def ready_valid [OF demo_ready] Option.bind.simps option.case l case_prod_conv v
    using nz t by (simp add: get_attribute_def get_class_def class_word_def put_value_def write_at_def get_value_def del: write_at_Some)
  from C_GetAttributeValue_keeps_secret [OF demo_ready demo_key_of e run] run show ?thesis by auto
qed

subsection \<open>Certificates, end to end\<close>

text \<open>The template of a certificate.\<close>

definition certificate_attributes :: "bytes \<Rightarrow> bytes \<Rightarrow> attribute list" where
  "certificate_attributes label value = [\<lparr>aType = CKA_CLASS, aValue = le32 1, aLen = 4\<rparr>, label_attribute label,
     \<lparr>aType = CKA_VALUE, aValue = value, aLen = length value\<rparr>]"

lemma certificate_parsed:
  assumes "length label \<le> pkcs11configMAX_LABEL_LENGTH"
  shows "for_each (certificate_attributes label value) parse_certificate_attribute
      \<lparr>ctResult = CKR_OK, ctValue = None, ctLabel = None, ctClass = None\<rparr> =
    Some \<lparr>ctResult = CKR_OK, ctValue = Some (value, length value), ctLabel = Some (label_attribute label),
      ctClass = Some \<lparr>aType = CKA_CLASS, aValue = le32 1, aLen = 4\<rparr>\<rparr>"
  using assms by (simp add: certificate_attributes_def parse_certificate_attribute_def label_attribute_def key_attribute_defs)

lemma certificate_created_steps:
  assumes "ready h x s" and "length label \<le> pkcs11configMAX_LABEL_LENGTH"
    and "C_CreateObject env h (Some (certificate_attributes label value)) True s = Some (CKR_OK, app, s')"
  shows "\<exists>p st c. PKCS11PSASaveObject (psa_env.truncate env) CKO_CERTIFICATE label value no_key (store s) = Some (p, st) \<and>
    p \<noteq> eInvalidHandle \<and> prvAddObjectToList p label (length label) (ctx s) = Some (CKR_OK, app, c) \<and> s' = s\<lparr>store := st, ctx := c\<rparr>"
proof -
  have cls: "prvGetObjectClass (certificate_attributes label value) = Some (CKR_OK, Some CKO_CERTIFICATE)"
    by (simp add: certificate_attributes_def object_class_of_def)
  have "prvCreateCertificate env (certificate_attributes label value) s = Some (CKR_OK, app, s')"
    using assms(3) by (simp add: C_CreateObject_def ready_valid [OF assms(1)] cls)
  then show ?thesis
    unfolding prvCreateCertificate_def certificate_parsed [OF assms(2)]
    by (auto simp: object_class_of_def label_attribute_def Let_def eInvalidHandle_def read_at_def split: if_splits simp del: read_at_Some)
qed

text \<open>
  C26: a certificate that \<open>C_CreateObject\<close> accepted in PEM is read back by \<open>C_GetAttributeValue\<close> under the
  handle it gave: asked without a buffer it tells the length of the DER document, asked with one that is
  long enough it delivers the document.
\<close>

theorem C_certificate_roundtrip:
  assumes "protected_storage (psa_env.truncate env) content" and "ready h x s" and "list_inv (ctx s)"
    and "terminated label" and "length label \<le> pkcs11configMAX_LABEL_LENGTH"
    and "C_CreateObject env h (Some (certificate_attributes label (pem l eol body rest))) True s = Some (CKR_OK, app, s')"
    and "heap_has env (length (pem l eol body rest)) (world s')"
    and "plain l" and "plain body" and "body \<noteq> []" and "eol \<in> {[10], [13, 10]}" and "terminated rest"
    and "mbedtls_base64_decode env 0 body = (e, length d, [])" and "e \<noteq> MBEDTLS_ERR_BASE64_INVALID_CHARACTER"
    and "mbedtls_base64_decode env (length d) body = (0, length d, d)"
    and "length d \<le> pkcs11OBJECT_MAX_SIZE" and "length buf = pkcs11OBJECT_MAX_SIZE"
    and "length d \<le> n" and "length d \<le> length dest"
  shows "\<exists>a. app = Some a \<and>
    C_GetAttributeValue env h a (Some [\<lparr>gType = CKA_VALUE, gValue = None, gLen = m\<rparr>]) buf s' =
      Some (CKR_OK, Some [\<lparr>gType = CKA_VALUE, gValue = None, gLen = length d\<rparr>]) \<and>
    C_GetAttributeValue env h a (Some [\<lparr>gType = CKA_VALUE, gValue = Some dest, gLen = n\<rparr>]) buf s' =
      Some (CKR_OK, Some [\<lparr>gType = CKA_VALUE, gValue = Some (d @ drop (length d) dest), gLen = n\<rparr>])"
proof -
  from certificate_created_steps [OF assms(2,5,6)] obtain p st c where
    save: "PKCS11PSASaveObject (psa_env.truncate env) CKO_CERTIFICATE label (pem l eol body rest) no_key (store s) = Some (p, st)"
      "p \<noteq> eInvalidHandle" and add: "prvAddObjectToList p label (length label) (ctx s) = Some (CKR_OK, app, c)"
    and s': "s' = s\<lparr>store := st, ctx := c\<rparr>" by blast
  from save_object [OF assms(4) save(1)] save(2) have "CKO_CERTIFICATE = object_class p" by auto
  then have nk: "\<not> is_key p" by (auto simp: object_class_def split: if_splits)
  have nz: "p \<noteq> CK_INVALID_HANDLE" using save(2) by (simp add: invalid_handles)
  from add_result [OF assms(3) nz add] obtain i lab where i: "list_inv c" "i < pkcs11configMAX_NUM_OBJECTS" "app = Some (of_nat (i + 1))"
    "entries c i = Some (p, lab)" by (auto simp: entered_def)
  have r: "ready h x s'" using assms(2) add_initialized [OF add] by (simp add: ready_def s')
  note f = find_by_handle [OF i(1,2)]
  let ?out = "\<lparr>pucData = buf, pulDataSize = pkcs11OBJECT_MAX_SIZE, pIsPrivate = True\<rparr>"
  have v: "PKCS11PSAGetObjectValue (psa_env.truncate env) p ?out st =
      Some (CKR_OK, ?out\<lparr>pucData := d @ drop (length d) buf, pulDataSize := length d, pIsPrivate := False\<rparr>)"
    using PKCS11PSA_certificate_roundtrip [OF assms(1,4) save nk _ assms(8-12), of e d ?out] assms(7,13-17)
    by (simp add: s' psa_env.defs)
  have rd: "read_at (d @ drop (length d) buf) 0 (length d) = Some d" by (simp add: read_at_def)
  have wr: "write_at dest 0 d = Some (d @ drop (length d) dest)" using assms(19) by (simp add: write_at_def)
  have ne: "CKA_VALUE \<noteq> CKA_CLASS" by (simp add: key_attribute_defs)
  show ?thesis
    unfolding i(3) C_GetAttributeValue_def ready_valid [OF r] Option.bind.simps
    using f i(4) nz v assms(18) by (simp add: s' get_attribute_def get_value_def put_value_def ne rd wr del: read_at_Some write_at_Some)
qed


theorem C_certificate_roundtrip_witness:
  "\<exists>a s'. C_CreateObject reference_p11 1 (Some (certificate_attributes LABEL_DEVICE_CERTIFICATE_FOR_TLS demo_pem)) True demo_fresh = Some (CKR_OK, Some a, s') \<and>
     C_GetAttributeValue reference_p11 1 a (Some [\<lparr>gType = CKA_VALUE, gValue = Some [1, 2, 3, 4, 5], gLen = 5\<rparr>]) (replicate 1300 0) s' =
       Some (CKR_OK, Some [\<lparr>gType = CKA_VALUE, gValue = Some (ascii ''MII='' @ [5]), gLen = 5\<rparr>])"
proof -
  have l: "length LABEL_DEVICE_CERTIFICATE_FOR_TLS \<le> pkcs11configMAX_LABEL_LENGTH" by (simp add: label_defs pkcs11configMAX_LABEL_LENGTH_def)
  have tr: "psa_env.truncate reference_p11 = reference_psa" by (simp add: reference_p11_simps)
  obtain app c where add: "prvAddObjectToList eAwsDeviceCertificate LABEL_DEVICE_CERTIFICATE_FOR_TLS (length LABEL_DEVICE_CERTIFICATE_FOR_TLS)
      (ctx demo_fresh) = Some (CKR_OK, Some app, c)"
    by (simp add: demo_fresh_def fresh_context_def zero_context_def prvAddObjectToList_def read_at_def label_defs
      write_at_def no_object_def eval_nat_numeral pkcs11configMAX_NUM_OBJECTS_def pkcs11configMAX_LABEL_LENGTH_def CK_INVALID_HANDLE_def
      eAwsDeviceCertificate_def)
  have cls: "prvGetObjectClass (certificate_attributes LABEL_DEVICE_CERTIFICATE_FOR_TLS demo_pem) = Some (CKR_OK, Some CKO_CERTIFICATE)"
    by (simp add: certificate_attributes_def object_class_of_def)
  have nz: "eAwsDeviceCertificate \<noteq> 0" by (simp add: pal_handle_defs)
  have create: "C_CreateObject reference_p11 1 (Some (certificate_attributes LABEL_DEVICE_CERTIFICATE_FOR_TLS demo_pem)) True demo_fresh =
      Some (CKR_OK, Some app, demo_fresh\<lparr>store := demo_saved, ctx := c\<rparr>)"
    unfolding C_CreateObject_def ready_valid [OF demo_fresh_ready] Option.bind.simps cls case_prod_conv Let_def
      prvCreateCertificate_def certificate_parsed [OF l]
    using demo_save [where pk = no_key] add nz
    by (simp add: demo_fresh_def object_class_of_def label_attribute_def tr read_at_def del: read_at_Some)
  have inv: "list_inv (ctx demo_fresh)" using fresh_context_inv by (simp add: demo_fresh_def)
  have side: "plain (ascii '' C'')" "plain (ascii ''MII='')" "ascii ''MII='' \<noteq> []" "terminated (ascii '' C-----'' @ [0])"
    by (simp_all add: plain_def ascii_def terminated_def)
  have b64: "mbedtls_base64_decode reference_p11 0 (ascii ''MII='') = (- 42, length (ascii ''MII=''), [])"
    "mbedtls_base64_decode reference_p11 (length (ascii ''MII='')) (ascii ''MII='') = (0, length (ascii ''MII=''), ascii ''MII='')"
    "- 42 \<noteq> MBEDTLS_ERR_BASE64_INVALID_CHARACTER"
    by (simp_all add: reference_p11_def reference_psa_def psa_env.defs p11_env.defs MBEDTLS_ERR_BASE64_INVALID_CHARACTER_def)
  have ps: "protected_storage (psa_env.truncate reference_p11) fst" unfolding tr by (rule reference_storage.protected_storage_axioms)
  have hp: "heap_has reference_p11 n w" for n w by (simp add: reference_p11_simps)
  have sz: "length (ascii ''MII='') \<le> pkcs11OBJECT_MAX_SIZE" "length (replicate 1300 (0 :: u8)) = pkcs11OBJECT_MAX_SIZE"
    "length (ascii ''MII='') \<le> 5" "length (ascii ''MII='') \<le> length [1, 2, 3, 4, 5 :: u8]"
    by (simp_all add: pkcs11OBJECT_MAX_SIZE_def)
  have "drop (length (ascii ''MII='')) [1, 2, 3, 4, 5 :: u8] = [5]" by simp
  moreover have eol: "[10 :: u8] \<in> {[10], [13, 10]}" by simp
  ultimately show ?thesis
    using C_certificate_roundtrip [OF ps demo_fresh_ready inv terminated_labels(4) l create [unfolded demo_pem_def] hp side(1-3) eol side(4)
      b64(1,3,2) sz] create by auto
qed

subsection \<open>Where the lengths are not checked\<close>

text \<open>
  A point that is longer than the buffer, whose length passes the comparison with the size of the
  library's type, runs over its end.
\<close>

lemma get_ec_point_overflow:
  assumes "length src = n" and "sizeof \<le> gLen q" and "gValue q = Some buf" and "length buf = gLen q" and "gLen q < n + 2"
  shows "get_ec_point sizeof src n q = None"
  using assms by (simp add: get_ec_point_def put_value_def read_at_def write_at_def del: read_at_Some write_at_Some)

text \<open>The same for the parameters of the curve, whatever length the caller gives.\<close>

lemma get_ec_params_overflow:
  assumes "gValue q = Some buf" and "length buf < length pkcs11DER_ENCODED_OID_P256"
  shows "get_ec_params q = None"
  using assms by (simp add: get_ec_params_def put_value_def write_at_def del: write_at_Some)

end
