(* ===== verification/P11Reachable.thy ===== *)
theory P11Reachable
  imports P11Attributes
begin

text \<open>
  The states the PKCS#11 module can reach, as an inductive relation over its operations, and what
  holds in all of them.
\<close>

subsection \<open>The invariant\<close>

text \<open>
  A session that exists is open, its mutexes are free between calls, and a digest is in progress
  exactly when the session has a hash operation.
\<close>

definition session_inv :: "session \<Rightarrow> bool" where
  "session_inv x = (xOpened x \<and> xSignMutex x = Free \<and> xVerifyMutex x = Free \<and>
     (xOperationInProgress x = CKM_SHA256 \<longleftrightarrow> pxHashOperationHandle x \<noteq> None))"

definition p11_inv :: "'w p11 \<Rightarrow> bool" where
  "p11_inv s = ((\<forall>h x. sessions s h = Some x \<longrightarrow> session_inv x) \<and> (xIsInitialized (ctx s) \<longrightarrow> list_inv (ctx s)))"

inductive p11_reachable :: "('w, 'z) p11_env_scheme \<Rightarrow> 'w p11_store \<Rightarrow> 'w p11 \<Rightarrow> bool" for env st0 where
  start: "p11_reachable env st0 \<lparr>ctx = zero_context, store = st0, sessions = (\<lambda>_. None)\<rparr>"
| initialize: "p11_reachable env st0 s \<Longrightarrow> C_Initialize env s = (rc, s') \<Longrightarrow> p11_reachable env st0 s'"
| finalize: "p11_reachable env st0 s \<Longrightarrow> C_Finalize env r s = Some (rc, s') \<Longrightarrow> p11_reachable env st0 s'"
| open_session: "p11_reachable env st0 s \<Longrightarrow> C_OpenSession env fl o' s = (rc, h, s') \<Longrightarrow> p11_reachable env st0 s'"
| close_session: "p11_reachable env st0 s \<Longrightarrow> C_CloseSession h s = Some (rc, s') \<Longrightarrow> p11_reachable env st0 s'"
| create_object: "p11_reachable env st0 s \<Longrightarrow> C_CreateObject env h t o' s = Some (rc, a, s') \<Longrightarrow> p11_reachable env st0 s'"
| generate_keys: "p11_reachable env st0 s \<Longrightarrow> C_GenerateKeyPair env h m t u o' s = Some (rc, a, b, s') \<Longrightarrow> p11_reachable env st0 s'"
| destroy_object: "p11_reachable env st0 s \<Longrightarrow> C_DestroyObject env h a s = Some (rc, s') \<Longrightarrow> p11_reachable env st0 s'"
| find_init: "p11_reachable env st0 s \<Longrightarrow> C_FindObjectsInit env h t n s = Some (rc, s') \<Longrightarrow> p11_reachable env st0 s'"
| find_objects: "p11_reachable env st0 s \<Longrightarrow> C_FindObjects env h o' m n s = Some (rc, a, c, s') \<Longrightarrow> p11_reachable env st0 s'"
| find_final: "p11_reachable env st0 s \<Longrightarrow> C_FindObjectsFinal h s = Some (rc, s') \<Longrightarrow> p11_reachable env st0 s'"
| digest_init: "p11_reachable env st0 s \<Longrightarrow> C_DigestInit env h m s = Some (rc, s') \<Longrightarrow> p11_reachable env st0 s'"
| digest_update: "p11_reachable env st0 s \<Longrightarrow> C_DigestUpdate env h d s = Some (rc, s') \<Longrightarrow> p11_reachable env st0 s'"
| digest_final: "p11_reachable env st0 s \<Longrightarrow> C_DigestFinal env h b n s = Some (rc, b', n', s') \<Longrightarrow> p11_reachable env st0 s'"
| sign_init: "p11_reachable env st0 s \<Longrightarrow> C_SignInit env h m a s = Some (rc, s') \<Longrightarrow> p11_reachable env st0 s'"
| sign: "p11_reachable env st0 s \<Longrightarrow> C_Sign env h d k b n s = Some (rc, b', n', s') \<Longrightarrow> p11_reachable env st0 s'"
| verify_init: "p11_reachable env st0 s \<Longrightarrow> C_VerifyInit env h m a s = Some (rc, s') \<Longrightarrow> p11_reachable env st0 s'"
| random: "p11_reachable env st0 s \<Longrightarrow> C_GenerateRandom env b n s = Some (rc, b', s') \<Longrightarrow> p11_reachable env st0 s'"

subsection \<open>It is kept\<close>

lemma inv_put_session: "p11_inv s \<Longrightarrow> session_inv x \<Longrightarrow> p11_inv (put_session h x s)"
  by (simp add: p11_inv_def)

lemma inv_psa [simp]: "p11_inv (put_psa w s) = p11_inv s"
  by (simp add: p11_inv_def)

lemma inv_store [simp]: "p11_inv (s\<lparr>store := st\<rparr>) = p11_inv s"
  by (simp add: p11_inv_def)

lemma inv_session: "p11_inv s \<Longrightarrow> session_at h s = Some x \<Longrightarrow> session_inv x"
  by (simp add: p11_inv_def session_at_def split: if_splits)

lemma inv_ctx: "p11_inv s \<Longrightarrow> (xIsInitialized c \<Longrightarrow> list_inv c) \<Longrightarrow> p11_inv (s\<lparr>ctx := c\<rparr>)"
  by (simp add: p11_inv_def)

lemma delete_keeps:
  assumes "list_inv c" and "prvDeleteObjectFromList a c = Some (rc, c')"
  shows "list_inv c'"
proof -
  from assms(1) have m: "xMutex c = Free" by (simp add: list_inv_def)
  then have same: "c\<lparr>xMutex := Free\<rparr> = c" by (cases c) simp
  have up: "list_inv (c\<lparr>xObjects := (xObjects c)[i := no_object], xMutex := Free\<rparr>)" for i
    using list_inv_update [OF assms(1) no_object_wf, of i] by (simp add: list_inv_def)
  from assms(2) show ?thesis
    using up assms(1) by (auto simp: prvDeleteObjectFromList_def Let_def m same split: if_splits)
qed

lemma delete_initialized: "prvDeleteObjectFromList a c = Some (rc, c') \<Longrightarrow> xIsInitialized c' = xIsInitialized c"
  by (auto simp: prvDeleteObjectFromList_def Let_def split: if_splits)

lemma inv_add:
  assumes "p11_inv s" and "prvAddObjectToList h l n (ctx s) = Some (rc, a, c)" and "h \<noteq> CK_INVALID_HANDLE"
  shows "p11_inv (s\<lparr>ctx := c\<rparr>)"
  using assms add_result [OF _ assms(3,2)] add_initialized [OF assms(2)] by (intro inv_ctx) (auto simp: p11_inv_def)

lemma inv_delete:
  assumes "p11_inv s" and "prvDeleteObjectFromList a (ctx s) = Some (rc, c)"
  shows "p11_inv (s\<lparr>ctx := c\<rparr>)"
  using assms delete_keeps delete_initialized by (intro inv_ctx) (auto simp: p11_inv_def)

lemma initialize_keeps: "p11_inv s \<Longrightarrow> C_Initialize env s = (rc, s') \<Longrightarrow> p11_inv s'"
  using fresh_context_inv
  by (auto simp: C_Initialize_def prvMbedTLS_Initialize_def fresh_context_def zero_context_def intro!: inv_ctx split: if_splits)

lemma finalize_keeps: "p11_inv s \<Longrightarrow> C_Finalize env r s = Some (rc, s') \<Longrightarrow> p11_inv s'"
  by (auto simp: C_Finalize_def Let_def zero_context_def intro!: inv_ctx split: if_splits)

lemma open_keeps: "p11_inv s \<Longrightarrow> C_OpenSession env fl o' s = (rc, h, s') \<Longrightarrow> p11_inv s'"
  by (auto simp: C_OpenSession_def Let_def intro!: inv_put_session split: if_splits option.splits)
    (auto simp: session_inv_def zero_session_def mechanism_defs)

lemma close_keeps: "p11_inv s \<Longrightarrow> C_CloseSession h s = Some (rc, s') \<Longrightarrow> p11_inv s'"
  by (auto simp: C_CloseSession_def p11_inv_def split: if_splits)

lemma find_init_keeps: "p11_inv s \<Longrightarrow> C_FindObjectsInit env h t n s = Some (rc, s') \<Longrightarrow> p11_inv s'"
  by (auto simp: C_FindObjectsInit_def Let_def session_inv_def intro!: inv_put_session dest: inv_session split: if_splits)

lemma find_final_keeps: "p11_inv s \<Longrightarrow> C_FindObjectsFinal h s = Some (rc, s') \<Longrightarrow> p11_inv s'"
  by (auto simp: C_FindObjectsFinal_def session_inv_def intro!: inv_put_session dest: inv_session split: if_splits)
text \<open>What every operation below leaves behind.\<close>

abbreviation keeps_inv :: "('a \<times> 'w p11) option \<Rightarrow> bool" where
  "keeps_inv m \<equiv> keeps m (\<lambda>(_, s). p11_inv s)"

lemma inv_created:
  assumes "p11_inv s" and "prvAddObjectToList h l n (ctx (s\<lparr>store := st\<rparr>)) = Some (rc, a, c)" and "h \<noteq> CK_INVALID_HANDLE"
  shows "p11_inv (s\<lparr>store := st, ctx := c\<rparr>)"
  using inv_add [of "s\<lparr>store := st\<rparr>" h l n rc a c] assms by simp

lemma certificate_keeps:
  assumes "p11_inv s"
  shows "keeps (prvCreateCertificate env t s) (\<lambda>(_, _, s). p11_inv s)"
  unfolding prvCreateCertificate_def
  by (intro keeps_intro) (use assms inv_created [OF assms] in \<open>auto simp: CK_INVALID_HANDLE_def\<close>)

lemma save_and_add_keeps:
  assumes "p11_inv s"
  shows "keeps (save_and_add env kind t der s) (\<lambda>(_, _, s). p11_inv s)"
  unfolding save_and_add_def
  by (rule keeps_bind, intro keeps_intro) (use assms inv_created [OF assms] in auto)

lemma private_keeps:
  assumes "p11_inv s"
  shows "keeps (prvCreatePrivateKey env t s) (\<lambda>(_, _, s). p11_inv s)"
  unfolding prvCreatePrivateKey_def
  by (rule keeps_bind, rule keeps_bind, intro keeps_intro save_and_add_keeps) (use assms in auto)

lemma public_keeps:
  assumes "p11_inv s"
  shows "keeps (prvCreatePublicKey env t s) (\<lambda>(_, _, s). p11_inv s)"
  unfolding prvCreatePublicKey_def
  by (rule keeps_bind, rule keeps_bind, intro keeps_intro save_and_add_keeps) (use assms in auto)

lemma create_keeps:
  assumes "p11_inv s"
  shows "keeps (C_CreateObject env h t o' s) (\<lambda>(_, _, s). p11_inv s)"
proof -
  have "keeps (case c of CKO_CERTIFICATE \<Rightarrow> prvCreateCertificate env template s | CKO_PUBLIC_KEY \<Rightarrow> prvCreatePublicKey env template s
     | CKO_PRIVATE_KEY \<Rightarrow> prvCreatePrivateKey env template s | CKO_OTHER \<Rightarrow> Some (CKR_ATTRIBUTE_VALUE_INVALID, None, s))
     (\<lambda>(_, _, s). p11_inv s)" for c template
    by (cases c) (simp_all add: certificate_keeps private_keeps public_keeps keeps_Some assms)
  then show ?thesis
    unfolding C_CreateObject_def Let_def by (intro keeps_intro) (use assms in auto)
qed

lemma record_key_keeps:
  assumes "p11_inv s" and "h \<noteq> CK_INVALID_HANDLE"
  shows "keeps (record_key d h l k s) (\<lambda>(_, _, s). p11_inv s)"
  unfolding record_key_def
  by (intro keeps_intro) (use assms inv_created [OF assms(1) _ assms(2)] in auto)

lemma generate_keeps:
  assumes "p11_inv s"
  shows "keeps (C_GenerateKeyPair env h m t u o' s) (\<lambda>(_, _, _, s). p11_inv s)"
proof -
  have nz: "eAwsDevicePrivateKey \<noteq> CK_INVALID_HANDLE" "eAwsDevicePublicKey \<noteq> CK_INVALID_HANDLE" by (simp_all add: invalid_handles)
  have two: "keeps (do {
      (xResult, private_app, s) \<leftarrow> record_key d eAwsDevicePrivateKey l k s;
      if xResult \<noteq> CKR_OK then Some (xResult, None, private_app, s)
      else do {
        (xResult, public_app, s) \<leftarrow> record_key d' eAwsDevicePublicKey l' k' s;
        Some (xResult, public_app, private_app, s) } }) (\<lambda>(_, _, _, s). p11_inv s)" if "p11_inv s" for d d' k k' l l' s
    by (rule keeps_cut [OF record_key_keeps [OF that nz(1)]])
      (auto intro!: keeps_intro dest: keepsD [OF record_key_keeps [OF _ nz(2)]])
  show ?thesis
    unfolding C_GenerateKeyPair_def by (intro keeps_intro two) (use assms in auto)
qed

lemma destroy_keeps:
  assumes "p11_inv s"
  shows "keeps_inv (C_DestroyObject env h a s)"
proof -
  have del: "p11_inv (s\<lparr>store := st, ctx := c\<rparr>)" if "prvDeleteObjectFromList a (ctx (s\<lparr>store := st\<rparr>)) = Some (rc, c)" for rc c st
    using inv_delete [of "s\<lparr>store := st\<rparr>" a rc c] that assms by simp
  show ?thesis
    unfolding C_DestroyObject_def by (intro keeps_intro) (use assms del in auto)
qed

lemma digest_init_keeps: "p11_inv s \<Longrightarrow> keeps_inv (C_DigestInit env h m s)"
  unfolding C_DigestInit_def
  by (intro keeps_intro) (auto simp: session_inv_def intro!: inv_put_session dest: inv_session)

lemma digest_update_keeps: "p11_inv s \<Longrightarrow> keeps_inv (C_DigestUpdate env h d s)"
  unfolding C_DigestUpdate_def
  by (intro keeps_intro) (auto simp: session_inv_def mechanism_defs Let_def split: prod.split intro!: inv_put_session dest: inv_session)

lemma digest_final_keeps: "p11_inv s \<Longrightarrow> keeps (C_DigestFinal env h b n s) (\<lambda>(_, _, _, s). p11_inv s)"
  unfolding C_DigestFinal_def
  by (intro keeps_intro) (auto simp: session_inv_def mechanism_defs intro!: inv_put_session dest: inv_session)

lemma sign_key_session:
  "session_inv x \<Longrightarrow> keeps (sign_key env p l n s (x\<lparr>xSignMutex := m\<rparr>)) (\<lambda>(_, y). session_inv (y\<lparr>xSignMutex := Free\<rparr>))"
  unfolding sign_key_def by (intro keeps_intro) (auto simp: session_inv_def)

lemma verify_key_session:
  "session_inv x \<Longrightarrow> keeps (verify_key env l n s (x\<lparr>xVerifyMutex := m\<rparr>)) (\<lambda>(_, y). session_inv (y\<lparr>xVerifyMutex := Free\<rparr>))"
  unfolding verify_key_def by (intro keeps_intro) (auto simp: session_inv_def)

lemma session_inv_mechanism [simp]:
  "session_inv (x\<lparr>xSignMechanism := m\<rparr>) = session_inv x" "session_inv (x\<lparr>xVerifyMechanism := m\<rparr>) = session_inv x"
  "session_inv (x\<lparr>uxSignKey := k\<rparr>) = session_inv x"
  by (simp_all add: session_inv_def)

lemma sign_init_keeps: "p11_inv s \<Longrightarrow> keeps_inv (C_SignInit env h m a s)"
  unfolding C_SignInit_def
  by (intro keeps_intro)
    (auto dest!: keepsD [OF sign_key_session [OF inv_session]] intro!: inv_put_session)

lemma verify_init_keeps: "p11_inv s \<Longrightarrow> keeps_inv (C_VerifyInit env h m a s)"
  unfolding C_VerifyInit_def
  by (intro keeps_intro)
    (auto dest: inv_session keepsD [OF verify_key_session [OF inv_session]] intro!: inv_put_session)

lemma sign_keeps: "p11_inv s \<Longrightarrow> keeps (C_Sign env h d k b n s) (\<lambda>(_, _, _, s). p11_inv s)"
  unfolding C_Sign_def
  by (intro keeps_intro) (auto dest: inv_session intro!: inv_put_session)

lemma random_keeps: "p11_inv s \<Longrightarrow> keeps (C_GenerateRandom env b n s) (\<lambda>(_, _, s). p11_inv s)"
  unfolding C_GenerateRandom_def by (intro keeps_intro) auto

lemma find_key_keeps:
  assumes "p11_inv s" and "p \<noteq> CK_INVALID_HANDLE"
  shows "keeps (FindKeyObjects env l k p s) (\<lambda>(_, _, s). p11_inv s)"
  unfolding FindKeyObjects_def
proof (rule keeps_bind, rule keeps_bind, rule keeps_case_prod, rule keeps_cut [where Q = "\<lambda>(_, _, s). p11_inv s"])
  show "keeps (if xResult = CKR_OK then Some (CKR_OK, PSA_SUCCESS, s)
      else do {
        let (uxStatus, k, w) = psa_open_key env k (world s);
        let s = put_psa w s;
        if uxStatus = PSA_SUCCESS
        then do {
          st \<leftarrow> PKCS11PSAContextImportObject l k (store s);
          Some (CKR_OK, uxStatus, s\<lparr>store := st\<rparr>) }
        else Some (if uxStatus \<noteq> PSA_ERROR_DOES_NOT_EXIST then CKR_FUNCTION_FAILED else CKR_OK, uxStatus, s) })
    (\<lambda>(_, _, s). p11_inv s)" for xResult
    by (intro keeps_intro) (use assms in auto)
qed (intro keeps_intro, use assms inv_add in auto)

lemma find_certificate_keeps:
  assumes "p11_inv s" and "p \<noteq> CK_INVALID_HANDLE"
  shows "keeps (find_certificate env l u p r s) (\<lambda>(_, _, s). p11_inv s)"
  unfolding find_certificate_def
  by (intro keeps_intro) (use assms inv_add [OF assms(1) _ assms(2)] in auto)

lemma find_stored_keeps: "p11_inv s \<Longrightarrow> keeps (find_stored env l r s) (\<lambda>(_, _, s). p11_inv s)"
  unfolding find_stored_def
  by (intro keeps_intro find_key_keeps find_certificate_keeps) (simp_all add: CK_INVALID_HANDLE_def pal_handle_defs)

lemma find_objects_keeps: "p11_inv s \<Longrightarrow> keeps (C_FindObjects env h o' m c s) (\<lambda>(_, _, _, s). p11_inv s)"
  unfolding C_FindObjects_def
  by (intro keeps_intro) (auto dest: keepsD [OF find_stored_keeps] split: option.split)

lemma close_session_keeps: "p11_inv s \<Longrightarrow> keeps_inv (C_CloseSession h s)"
  using close_keeps by (auto simp: keeps_def)

text \<open>
  C6: in every state the module can reach, whatever the sequence of calls, each session is open
  with its mutexes free and has a hash operation exactly while a digest is in progress, and the object
  list of an initialised module is well formed: six terminated labels, no object under two handles, the
  mutex free.
\<close>

theorem p11_reachable_invariant:
  assumes "p11_reachable env st0 s"
  shows "p11_inv s"
  using assms
proof induction
  case start
  then show ?case by (simp add: p11_inv_def zero_context_def)
next
  case (initialize s rc s')
  then show ?case by (blast intro: initialize_keeps)
next
  case (finalize s r rc s')
  then show ?case by (blast intro: finalize_keeps)
next
  case (open_session s fl o' rc h s')
  then show ?case by (blast intro: open_keeps)
next
  case (close_session s h rc s')
  then show ?case by (blast intro: close_keeps)
next
  case (find_init s h t n rc s')
  then show ?case by (blast intro: find_init_keeps)
next
  case (find_final s h rc s')
  then show ?case by (blast intro: find_final_keeps)
next
  case (create_object s h t o' rc a s')
  then show ?case by (auto dest: create_keeps keepsD)
next
  case (generate_keys s h m t u o' rc a b s')
  then show ?case by (auto dest: generate_keeps keepsD)
next
  case (destroy_object s h a rc s')
  then show ?case by (auto dest: destroy_keeps keepsD)
next
  case (find_objects s h o' m n rc a c s')
  then show ?case by (auto dest: find_objects_keeps keepsD)
next
  case (digest_init s h m rc s')
  then show ?case by (auto dest: digest_init_keeps keepsD)
next
  case (digest_update s h d rc s')
  then show ?case by (auto dest: digest_update_keeps keepsD)
next
  case (digest_final s h b n rc b' n' s')
  then show ?case by (auto dest: digest_final_keeps keepsD)
next
  case (sign_init s h m a rc s')
  then show ?case by (auto dest: sign_init_keeps keepsD)
next
  case (sign s h d k b n rc b' n' s')
  then show ?case by (auto dest: sign_keeps keepsD)
next
  case (verify_init s h m a rc s')
  then show ?case by (auto dest: verify_init_keeps keepsD)
next
  case (random s b n rc b' s')
  then show ?case by (auto dest: random_keeps keepsD)
qed

definition demo_start :: "((nat \<rightharpoonup> bytes) \<times> (u32 \<rightharpoonup> bytes)) p11" where
  "demo_start = \<lparr>ctx = zero_context, store = no_objects (Map.empty, Map.empty), sessions = (\<lambda>_. None)\<rparr>"

theorem p11_reachable_invariant_witness:
  "\<exists>s h x. p11_reachable reference_p11 (no_objects (Map.empty, Map.empty)) s \<and> sessions s h = Some x \<and>
     xOperationInProgress x = CKM_SHA256 \<and> p11_inv s"
proof -
  let ?R = "p11_reachable reference_p11 (no_objects (Map.empty, Map.empty))"
  obtain s1 where s1: "C_Initialize reference_p11 demo_start = (CKR_OK, s1)" "xIsInitialized (ctx s1)" "sessions s1 = (\<lambda>_. None)"
    by (simp add: C_Initialize_def prvMbedTLS_Initialize_def demo_start_def zero_context_def reference_p11_def psa_env.defs p11_env.defs reference_psa_def)
  have r1: "?R s1" using p11_reachable.initialize [OF p11_reachable.start s1(1) [unfolded demo_start_def]] .
  obtain s2 where s2: "C_OpenSession reference_p11 CKF_SERIAL_SESSION True s1 = (CKR_OK, Some 1, s2)"
    "ready 1 (demo_session\<lparr>ulState := CKS_RO_PUBLIC_SESSION\<rparr>) s2"
    using s1 by (simp add: C_OpenSession_def ready_def reference_p11_def psa_env.defs p11_env.defs reference_psa_def
      CKF_SERIAL_SESSION_def CKF_RW_SESSION_def demo_session_def zero_session_def)
  have r2: "?R s2" using p11_reachable.open_session [OF r1 s2(1)] .
  obtain s3 where s3: "C_DigestInit reference_p11 1 (Some CKM_SHA256) s2 = Some (CKR_OK, s3)"
    unfolding C_DigestInit_def ready_valid [OF s2(2)] ready_at [OF s2(2)] by (simp add: Let_def reference_p11_simps)
  have r3: "?R s3" using p11_reachable.digest_init [OF r2 s3] .
  from reference_hash.digest_init [OF s3] obtain x where "sessions s3 1 = Some x" "xOperationInProgress x = CKM_SHA256"
    by (auto simp: reference_hash.hashing_def ready_def)
  with r3 p11_reachable_invariant [OF r3] show ?thesis by blast
qed

subsection \<open>Destroying an object\<close>

text \<open>
  Destroying an object whose label is its own removes it from the list and, where the store has
  it, from the store, after the secure side has destroyed the key or removed the certificate; when the
  secure side refuses, nothing changes. No other object is touched.
\<close>

theorem C_DestroyObject_correct:
  assumes "ready h x s" and "list_inv (ctx s)" and "i < pkcs11configMAX_NUM_OBJECTS"
    and "entries (ctx s) i = Some (p, l)" and "label_handle l = p"
  shows "\<exists>rc s'. C_DestroyObject env h (of_nat (i + 1)) s = Some (rc, s') \<and>
    (if case stored (store s) p of None \<Rightarrow> True
        | Some k \<Rightarrow> fst (removal (psa_env.truncate env) True p k (world s)) = PSA_SUCCESS
     then rc = CKR_OK \<and> entries (ctx s') = (entries (ctx s))(i := None) \<and>
       stored (store s') = (stored (store s))(p := None)
     else rc = CKR_FUNCTION_FAILED \<and> ctx s' = ctx s \<and> stored (store s') = stored (store s))"
proof -
  let ?label = "xLabel (xObjects (ctx s) ! i)"
  from assms(2,3) have "xObjects (ctx s) ! i \<in> set (xObjects (ctx s))" by (simp add: list_inv_def)
  with assms(2) have t: "terminated ?label" by (intro object_label_terminated) (simp add: list_inv_def)
  from assms(4) have c: "c_str ?label = l" and nz: "p \<noteq> CK_INVALID_HANDLE" by (auto simp: entries_def split: if_splits)
  have p: "p \<noteq> eInvalidHandle" using nz by (simp add: CK_INVALID_HANDLE_def eInvalidHandle_def)
  note f = find_by_handle [OF assms(2,3)]
  have la: "label_arg ?label (length l + 1) l" using own_label [OF t] c by simp
  from remove_object [OF la assms(5) p, of "psa_env.truncate env" True "store s"] obtain rc st where
    r: "PKCS11PSARemoveObject (psa_env.truncate env) ?label (length l + 1) True (store s) = Some (rc, st)"
    and st: "case stored (store s) p of None \<Rightarrow> rc = CKR_OK \<and> st = store s
      | Some k \<Rightarrow> psa st = snd (removal (psa_env.truncate env) True p k (psa (store s))) \<and>
        (if fst (removal (psa_env.truncate env) True p k (psa (store s))) = PSA_SUCCESS
         then rc = CKR_OK \<and> stored st = (stored (store s))(p := None)
         else rc = CKR_FUNCTION_FAILED \<and> stored st = stored (store s))" by blast
  from delete_from_list [OF assms(2,3)] assms(4) obtain c' where
    d: "prvDeleteObjectFromList (of_nat (i + 1)) (ctx s) = Some (CKR_OK, c')" "entries c' = (entries (ctx s))(i := None)" by auto
  have destroy: "C_DestroyObject env h (of_nat (i + 1)) s =
      Some (if rc = CKR_OK then (CKR_OK, s\<lparr>store := st, ctx := c'\<rparr>) else (rc, s\<lparr>store := st\<rparr>))"
    unfolding C_DestroyObject_def ready_valid [OF assms(1)] Option.bind.simps f assms(4) option.case case_prod_conv
    using nz r d(1) by (simp add: Let_def)
  show ?thesis
    unfolding destroy using st d(2) by (cases "stored (store s) p") (auto split: if_splits)
qed

theorem C_DestroyObject_correct_witness:
  "\<exists>s'. C_DestroyObject reference_p11 1 (of_nat (0 + 1)) demo_p11 = Some (CKR_OK, s') \<and>
     entries (ctx s') 0 = None \<and> stored (store s') eAwsDevicePrivateKey = None"
proof -
  from demo_key_of obtain l where "list_inv (ctx demo_p11)" "entries (ctx demo_p11) 0 = Some (eAwsDevicePrivateKey, l)"
    "label_handle l = eAwsDevicePrivateKey" "stored (store demo_p11) eAwsDevicePrivateKey = Some 1"
    by (auto simp: key_of_def)
  moreover from this C_DestroyObject_correct [OF demo_ready, of 0 eAwsDevicePrivateKey l reference_p11] obtain rc s' where
    "C_DestroyObject reference_p11 1 (of_nat (0 + 1)) demo_p11 = Some (rc, s')"
    "if fst (removal (psa_env.truncate reference_p11) True eAwsDevicePrivateKey 1 (world demo_p11)) = PSA_SUCCESS
     then rc = CKR_OK \<and> entries (ctx s') = (entries (ctx demo_p11))(0 := None) \<and>
       stored (store s') = (stored (store demo_p11))(eAwsDevicePrivateKey := None)
     else rc = CKR_FUNCTION_FAILED \<and> ctx s' = ctx demo_p11 \<and> stored (store s') = stored (store demo_p11)"
    by (auto simp: pkcs11configMAX_NUM_OBJECTS_def)
  moreover have "fst (removal (psa_env.truncate reference_p11) True eAwsDevicePrivateKey 1 (world demo_p11)) = PSA_SUCCESS"
    by (simp add: reference_p11_simps removal_def is_key_def reference_psa_def)
  ultimately show ?thesis by auto
qed

end
