(* ===== verification/CorePkcs11.thy ===== *)
theory CorePkcs11
  imports P11Reachable Rtos
begin

text \<open>
  The wrapper functions of corePKCS11 (\<open>core_pkcs11.c\<close>) on top of the module: the list of slots,
  the start of the module and of a session, the search of an object by its label, and the prefix of an RSA
  signature. They reach the module through the table of its functions (\<open>C_GetFunctionList\<close>), whose
  entries for all the functions called here are not \<open>NULL\<close>, and keep the slot list and the token
  information in blocks of the FreeRTOS heap; a state is that heap and the module.
\<close>

subsection \<open>The functions of the module without an effect\<close>

text \<open>They ignore their arguments; \<open>C_GetTokenInfo\<close> leaves the block at \<open>pInfo\<close> as it is.\<close>

definition C_GetFunctionList :: "bool \<Rightarrow> CK_RV" where
  "C_GetFunctionList out = (if out then CKR_OK else CKR_ARGUMENTS_BAD)"

definition C_GetTokenInfo :: "nat \<Rightarrow> bytes \<Rightarrow> CK_RV \<times> bytes" where
  "C_GetTokenInfo slotID info = (CKR_OK, info)"

definition C_InitToken :: "nat \<Rightarrow> bytes \<Rightarrow> nat \<Rightarrow> bytes \<Rightarrow> 'w p11 \<Rightarrow> CK_RV \<times> 'w p11" where
  "C_InitToken slotID pPin ulPinLen pLabel s = (CKR_OK, s)"

definition C_Login :: "nat \<Rightarrow> nat \<Rightarrow> bytes \<Rightarrow> nat \<Rightarrow> 'w p11 \<Rightarrow> CK_RV \<times> 'w p11" where
  "C_Login hSession userType pPin ulPinLen s = (CKR_OK, s)"

subsection \<open>Slot lists and token information in memory\<close>

definition sizeof_CK_SLOT_ID :: nat where "sizeof_CK_SLOT_ID = 4"
definition sizeof_CK_TOKEN_INFO :: nat where "sizeof_CK_TOKEN_INFO = 160"
definition CKF_TOKEN_INITIALIZED :: u32 where "CKF_TOKEN_INITIALIZED = 0x400"
definition CKU_USER :: nat where "CKU_USER = 1"
definition configPKCS11_DEFAULT_USER_PIN :: bytes where "configPKCS11_DEFAULT_USER_PIN = c_literal ''0000''"

fun slot_words :: "bytes \<Rightarrow> nat list" where
  "slot_words (a # b # c # d # bs) = unat (of_le32 [a, b, c, d]) # slot_words bs"
| "slot_words _ = []"

definition slot_bytes :: "nat list \<Rightarrow> bytes" where
  "slot_bytes ids = concat (map (\<lambda>i. le32 (of_nat i)) ids)"

text \<open>The slot identifiers in the block at \<open>p\<close>.\<close>

definition slots_at :: "addr \<Rightarrow> heap \<Rightarrow> nat list option" where
  "slots_at p H = (if p = NULL then None else map_option slot_words (H p))"

text \<open>\<open>pxTokenInfo->flags\<close>: the fields before it are 96 characters.\<close>

definition token_flags :: "bytes \<Rightarrow> u32 option" where
  "token_flags info = map_option of_le32 (read_at info 96 4)"

subsection \<open>The wrapper\<close>

definition prvOpenSession :: "('w, 'z) p11_env_scheme \<Rightarrow> bool \<Rightarrow> nat \<Rightarrow> 'w p11 \<Rightarrow> CK_RV \<times> nat option \<times> 'w p11" where
  "prvOpenSession env pxSession xSlotId s =
     (let xResult = C_GetFunctionList True
      in if xResult = CKR_OK then C_OpenSession env (CKF_SERIAL_SESSION OR CKF_RW_SESSION) pxSession s
         else (xResult, None, s))"

text \<open>
  \<open>out\<close> tells whether \<open>ppxSlotId\<close> is not \<open>NULL\<close>, \<open>count\<close> is the value at \<open>pxSlotCount\<close>. The result
  has what is stored at the two and the heap. The value at \<open>ppxSlotId\<close> stays when the block is freed
  because of an error.
\<close>

definition xGetSlotList ::
  "allocator \<Rightarrow> bool \<Rightarrow> nat option \<Rightarrow> heap \<Rightarrow> 'w p11 \<Rightarrow> (CK_RV \<times> addr option \<times> nat option \<times> heap) option" where
  "xGetSlotList alloc out count H s = do {
     let xResult = (if \<not> out \<or> count = None then CKR_ARGUMENTS_BAD else C_GetFunctionList True);
     (xResult, none, count) \<leftarrow>
       (if xResult = CKR_OK then C_GetSlotList None count s else Some (xResult, None, count));
     (xResult, pxSlotId, H) \<leftarrow>
       (if xResult = CKR_OK
        then do {
          n \<leftarrow> count;
          Some (if n = (sizeof_CK_SLOT_ID * n) mod 2 ^ 32 div sizeof_CK_SLOT_ID
            then (let (p, H) = pvPortMalloc alloc H (sizeof_CK_SLOT_ID * n mod 2 ^ 32)
                  in (if p = NULL then CKR_HOST_MEMORY else CKR_OK, p, H))
            else (CKR_HOST_MEMORY, NULL, H)) }
        else Some (xResult, NULL, H));
     let ppxSlotId = (if pxSlotId = NULL then None else Some pxSlotId);
     (xResult, count, H) \<leftarrow>
       (if xResult = CKR_OK
        then do {
          l \<leftarrow> slots_at pxSlotId H;
          (xResult, l', count) \<leftarrow> C_GetSlotList (Some l) count s;
          l' \<leftarrow> l';
          Some (xResult, count, H(pxSlotId \<mapsto> slot_bytes l')) }
        else Some (xResult, count, H));
     H \<leftarrow> (if xResult \<noteq> CKR_OK \<and> pxSlotId \<noteq> NULL then vPortFree pxSlotId H else Some H);
     Some (xResult, ppxSlotId, count, H) }"

definition xInitializePKCS11 :: "('w, 'z) p11_env_scheme \<Rightarrow> 'w p11 \<Rightarrow> CK_RV \<times> 'w p11" where
  "xInitializePKCS11 env s =
     (let xResult = C_GetFunctionList True
      in if xResult = CKR_OK then C_Initialize env s else (xResult, s))"

text \<open>What \<open>xInitializePkcs11Token\<close> does when it has the slot list at \<open>pxSlotId\<close>.\<close>

definition init_first_token ::
  "allocator \<Rightarrow> addr \<Rightarrow> heap \<Rightarrow> 'w p11 \<Rightarrow> (CK_RV \<times> heap \<times> 'w p11) option" where
  "init_first_token alloc pxSlotId H s = do {
     let (pxTokenInfo, H) = pvPortMalloc alloc H sizeof_CK_TOKEN_INFO;
     if pxTokenInfo = NULL then Some (CKR_HOST_MEMORY, H, s)
     else do {
       slots \<leftarrow> slots_at pxSlotId H;
       slot \<leftarrow> read_at slots 0 1;
       info \<leftarrow> H pxTokenInfo;
       let (xResult, info) = C_GetTokenInfo (hd slot) info;
       let H = H(pxTokenInfo \<mapsto> info);
       (xResult, s) \<leftarrow>
         (if xResult = CKR_OK
          then do {
            xTokenFlags \<leftarrow> token_flags info;
            Some (if CKF_TOKEN_INITIALIZED AND xTokenFlags \<noteq> CKF_TOKEN_INITIALIZED
              then C_InitToken (hd slot) configPKCS11_DEFAULT_USER_PIN (length configPKCS11_DEFAULT_USER_PIN - 1)
                (c_literal ''FreeRTOS'') s
              else (xResult, s)) }
          else Some (xResult, s));
       H \<leftarrow> vPortFree pxTokenInfo H;
       Some (xResult, H, s) } }"

definition xInitializePkcs11Token ::
  "('w, 'z) p11_env_scheme \<Rightarrow> allocator \<Rightarrow> heap \<Rightarrow> 'w p11 \<Rightarrow> (CK_RV \<times> heap \<times> 'w p11) option" where
  "xInitializePkcs11Token env alloc H s = do {
     let xResult = C_GetFunctionList True;
     let (xResult, s) = (if xResult = CKR_OK then xInitializePKCS11 env s else (xResult, s));
     (xResult, slots, count, H) \<leftarrow>
       (if xResult = CKR_OK \<or> xResult = CKR_CRYPTOKI_ALREADY_INITIALIZED
        then xGetSlotList alloc True (Some 0) H s
        else Some (xResult, None, Some 0, H));
     let pxSlotId = (case slots of None \<Rightarrow> NULL | Some p \<Rightarrow> p);
     (xResult, H, s) \<leftarrow>
       (if xResult = CKR_OK then init_first_token alloc pxSlotId H s else Some (xResult, H, s));
     H \<leftarrow> (if pxSlotId \<noteq> NULL then vPortFree pxSlotId H else Some H);
     Some (xResult, H, s) }"

text \<open>
  \<open>out\<close> tells whether \<open>pxSession\<close> is not \<open>NULL\<close>; the result has the handle that is stored there.
\<close>

definition xInitializePkcs11Session ::
  "('w, 'z) p11_env_scheme \<Rightarrow> allocator \<Rightarrow> bool \<Rightarrow> heap \<Rightarrow> 'w p11 \<Rightarrow> (CK_RV \<times> nat option \<times> heap \<times> 'w p11) option" where
  "xInitializePkcs11Session env alloc out H s = do {
     let xResult = (if out then C_GetFunctionList True else CKR_ARGUMENTS_BAD);
     let (xResult, s) =
       (if xResult = CKR_OK
        then let (xResult, s) = xInitializePKCS11 env s
             in (if xResult = CKR_CRYPTOKI_ALREADY_INITIALIZED then CKR_OK else xResult, s)
        else (xResult, s));
     (xResult, slots, count, H) \<leftarrow>
       (if xResult = CKR_OK then xGetSlotList alloc True (Some 0) H s
        else Some (xResult, None, Some 0, H));
     let pxSlotId = (case slots of None \<Rightarrow> NULL | Some p \<Rightarrow> p);
     xSlotCount \<leftarrow> count;
     (xResult, session, H, s) \<leftarrow>
       (if xResult = CKR_OK \<and> pxSlotId \<noteq> NULL \<and> xSlotCount \<ge> 1
        then do {
          slots \<leftarrow> slots_at pxSlotId H;
          slot \<leftarrow> read_at slots 0 1;
          let (xResult, session, s) = prvOpenSession env out (hd slot) s;
          H \<leftarrow> vPortFree pxSlotId H;
          Some (xResult, session, H, s) }
        else Some (xResult, None, H, s));
     (xResult, s) \<leftarrow>
       (if xResult = CKR_OK
        then do {
          h \<leftarrow> session;
          Some (C_Login h CKU_USER configPKCS11_DEFAULT_USER_PIN (length configPKCS11_DEFAULT_USER_PIN - 1) s) }
        else Some (xResult, s));
     Some (xResult, session, H, s) }"

text \<open>
  \<open>pcLabelName\<close> is the block at the pointer, \<open>out\<close> tells whether \<open>pxHandle\<close> is not \<open>NULL\<close>. The result
  has the value stored at \<open>pxHandle\<close>, if any: with no object found, \<open>CK_INVALID_HANDLE\<close>.
\<close>

definition label_class_template :: "bytes \<Rightarrow> nat \<Rightarrow> u32 \<Rightarrow> attribute list" where
  "label_class_template label n xClass =
     [\<lparr>aType = CKA_LABEL, aValue = label, aLen = n\<rparr>, \<lparr>aType = CKA_CLASS, aValue = le32 xClass, aLen = 4\<rparr>]"

definition xFindObjectWithLabelAndClass ::
  "('w, 'z) p11_env_scheme \<Rightarrow> nat \<Rightarrow> bytes option \<Rightarrow> nat \<Rightarrow> u32 \<Rightarrow> bool \<Rightarrow> 'w p11 \<Rightarrow>
   (CK_RV \<times> u32 option \<times> 'w p11) option" where
  "xFindObjectWithLabelAndClass env xSession pcLabelName ulLabelNameLen xClass out s = do {
     let xResult = (if pcLabelName = None \<or> \<not> out then CKR_ARGUMENTS_BAD else C_GetFunctionList True);
     (xResult, s) \<leftarrow>
       (if xResult = CKR_OK
        then do {
          label \<leftarrow> pcLabelName;
          C_FindObjectsInit env xSession (Some (label_class_template label ulLabelNameLen xClass)) 2 s }
        else Some (xResult, s));
     (xResult, handle, ulCount, s) \<leftarrow>
       (if xResult = CKR_OK then C_FindObjects env xSession True 1 0 s else Some (xResult, None, 0, s));
     (xResult, s) \<leftarrow>
       (if xResult = CKR_OK then C_FindObjectsFinal xSession s else Some (xResult, s));
     Some (xResult, if out \<and> ulCount = 0 then Some 0 else handle, s) }"

definition pkcs11STUFF_APPENDED_TO_RSA_SIG :: bytes where
  "pkcs11STUFF_APPENDED_TO_RSA_SIG =
     [0x30, 0x31, 0x30, 0x0d, 0x06, 0x09, 0x60, 0x86, 0x48, 0x01, 0x65, 0x03, 0x04, 0x02, 0x01, 0x05, 0x00, 0x04, 0x20]"

definition vAppendSHA256AlgorithmIdentifierSequence ::
  "bytes option \<Rightarrow> bytes option \<Rightarrow> (CK_RV \<times> bytes option) option" where
  "vAppendSHA256AlgorithmIdentifierSequence hash buf =
     (case (hash, buf) of
        (Some hash, Some buf) \<Rightarrow> do {
          buf \<leftarrow> write_at buf 0 pkcs11STUFF_APPENDED_TO_RSA_SIG;
          digest \<leftarrow> read_at hash 0 32;
          buf \<leftarrow> write_at buf (length pkcs11STUFF_APPENDED_TO_RSA_SIG) digest;
          Some (CKR_OK, Some buf) }
      | _ \<Rightarrow> Some (CKR_ARGUMENTS_BAD, buf))"

subsection \<open>Slot lists\<close>

lemma slot_words_one: "length b = 4 \<Longrightarrow> slot_words b = [unat (of_le32 b)]"
  by (auto simp: length_Suc_conv eval_nat_numeral)

lemma slot_words_bytes: "slot_words (slot_bytes ids) = map (\<lambda>i. i mod 2 ^ 32) ids"
proof (induction ids)
  case (Cons i ids)
  have "slot_words (le32 w @ bs) = unat w # slot_words bs" for w bs
    using of_le32_le32 [of w] by (simp add: le32_def)
  with Cons show ?case by (simp add: slot_bytes_def unsigned_of_nat take_bit_eq_mod)
qed (simp add: slot_bytes_def)

lemmas p11_slot_simps = C_GetFunctionList_def C_GetSlotList_def sizeof_CK_SLOT_ID_def pkcs11SLOT_ID_def

text \<open>
  With an initialised module the function returns the one slot in a fresh block, or reports that there
  is no memory and leaves the heap as it is.
\<close>

lemma xGetSlotList_initialised:
  assumes "fresh_allocator alloc" and "xIsInitialized (ctx s)"
  shows "xGetSlotList alloc True (Some n) H s =
    (case alloc H 4 of
       None \<Rightarrow> Some (CKR_HOST_MEMORY, None, Some 1, H)
     | Some (a, junk) \<Rightarrow> Some (CKR_OK, Some a, Some 1, H(a \<mapsto> slot_bytes [pkcs11SLOT_ID])))"
proof (cases "alloc H 4")
  case None
  then show ?thesis using assms(2)
    by (simp add: xGetSlotList_def p11_slot_simps pvPortMalloc_def)
next
  case (Some p)
  obtain a junk where p: "p = (a, junk)" by (cases p)
  note f = fresh_allocatorD [OF assms(1) Some [unfolded p]]
  then have w: "slot_words junk = [unat (of_le32 junk)]" by (simp add: slot_words_one)
  show ?thesis using assms(2) f w
    by (simp add: xGetSlotList_def p11_slot_simps pvPortMalloc_def Some p slots_at_def write_at_def)
qed

lemma xGetSlotList_not_initialised:
  "\<not> xIsInitialized (ctx s) \<Longrightarrow>
     xGetSlotList alloc True (Some n) H s = Some (CKR_CRYPTOKI_NOT_INITIALIZED, None, Some 1, H)"
  by (simp add: xGetSlotList_def p11_slot_simps)

lemma slots_at_bytes: "p \<noteq> NULL \<Longrightarrow> slots_at p (H(p \<mapsto> slot_bytes [pkcs11SLOT_ID])) = Some [pkcs11SLOT_ID]"
  by (simp add: slots_at_def slot_words_bytes pkcs11SLOT_ID_def)

subsection \<open>Starting the module and a session\<close>

text \<open>\<open>xInitializePKCS11\<close> either has the module initialised or reports why not.\<close>

lemma initialize_cases:
  obtains (already) "xIsInitialized (ctx s)" and "xInitializePKCS11 env s = (CKR_CRYPTOKI_ALREADY_INITIALIZED, s)"
  | (fresh) "\<not> xIsInitialized (ctx s)" and
      "xInitializePKCS11 env s = (CKR_OK, s\<lparr>ctx := zero_context\<lparr>xMutex := Free, xIsInitialized := True\<rparr>\<rparr>)"
  | (failed) "\<not> xIsInitialized (ctx s)" and "xInitializePKCS11 env s = (CKR_FUNCTION_FAILED, s\<lparr>ctx := zero_context\<rparr>)"
  by (cases "xIsInitialized (ctx s)"; cases "creates_list_mutex env (world s)")
    (simp_all add: xInitializePKCS11_def C_GetFunctionList_def C_Initialize_def prvMbedTLS_Initialize_def)

text \<open>A session as \<open>prvOpenSession\<close> opens it.\<close>

definition new_session :: session where
  "new_session = zero_session\<lparr>xSignMutex := Free, xVerifyMutex := Free,
     ulState := CKS_RW_PUBLIC_SESSION, xOpened := True, xOperationInProgress := pkcs11NO_OPERATION\<rparr>"

lemma prvOpenSession_initialised:
  assumes "xIsInitialized (ctx s)"
  shows "prvOpenSession env True slot s =
    (case session_address env (dom (sessions s)) (world s) of
       None \<Rightarrow> (CKR_HOST_MEMORY, None, s)
     | Some a \<Rightarrow> if creates_sign_mutex env (world s) \<and> creates_verify_mutex env (world s)
         then (CKR_OK, Some a, put_session a new_session s) else (CKR_HOST_MEMORY, None, s))"
proof -
  have f: "CKF_SERIAL_SESSION AND (CKF_SERIAL_SESSION OR CKF_RW_SESSION) \<noteq> 0"
    "(CKF_SERIAL_SESSION OR CKF_RW_SESSION) AND CKF_RW_SESSION \<noteq> 0"
    by (simp_all add: CKF_SERIAL_SESSION_def CKF_RW_SESSION_def)
  show ?thesis using assms f
    by (auto simp: prvOpenSession_def C_GetFunctionList_def C_OpenSession_def Let_def new_session_def
        split: option.split)
qed

lemma session_of_initialised:
  assumes "fresh_allocator alloc" and "xIsInitialized (ctx s1)"
    and "xInitializePKCS11 env s = (rc, s1)" and "rc = CKR_OK \<or> rc = CKR_CRYPTOKI_ALREADY_INITIALIZED"
  shows "xInitializePkcs11Session env alloc True H s =
    (if alloc H 4 = None then Some (CKR_HOST_MEMORY, None, H, s1)
     else (case prvOpenSession env True pkcs11SLOT_ID s1 of (rc, h, s2) \<Rightarrow> Some (rc, h, H, s2)))"
proof (cases "alloc H 4")
  case None
  with assms xGetSlotList_initialised [OF assms(1,2)] show ?thesis
    by (auto simp: xInitializePkcs11Session_def C_GetFunctionList_def)
next
  case (Some p)
  obtain a junk where p: "p = (a, junk)" by (cases p)
  note f = fresh_allocatorD [OF assms(1) Some [unfolded p]]
  have r: "H(a := None) = H" using f(1) by auto
  obtain rc2 h s2 where o: "prvOpenSession env True pkcs11SLOT_ID s1 = (rc2, h, s2)" by (metis prod_cases3)
  then have h: "rc2 = CKR_OK \<Longrightarrow> \<exists>a. h = Some a"
    unfolding prvOpenSession_initialised [OF assms(2)]
    by (auto split: option.splits if_splits simp del: eq_commute dest: sym)
  have l: "xGetSlotList alloc True (Some 0) H s1 = Some (CKR_OK, Some a, Some 1, H(a \<mapsto> slot_bytes [pkcs11SLOT_ID]))"
    using xGetSlotList_initialised [OF assms(1,2), of 0 H] by (simp add: Some p)
  have k: "slots_at a (H(a \<mapsto> slot_bytes [pkcs11SLOT_ID])) = Some [pkcs11SLOT_ID]"
    using f(2) by (rule slots_at_bytes)
  show ?thesis using assms(3,4) f o l k r h
    by (auto simp: xInitializePkcs11Session_def C_GetFunctionList_def read_at_def vPortFree_def C_Login_def Some p)
qed

text \<open>
  C37: starting a session leaves no block of the FreeRTOS heap behind on any path; it succeeds with an
  initialised module and a new open read-write session that has no operation in progress, beside the
  sessions there were, and when it does not succeed no session is opened. A module that is already
  initialised keeps its objects.
\<close>

theorem xInitializePkcs11Session_correct:
  assumes "fresh_allocator alloc"
    and "\<And>used w a. session_address env used w = Some a \<Longrightarrow> a \<noteq> 0 \<and> a \<notin> used"
  shows "\<exists>rc h s'. xInitializePkcs11Session env alloc out H s = Some (rc, h, H, s') \<and>
    store s' = store s \<and> (xIsInitialized (ctx s) \<longrightarrow> ctx s' = ctx s) \<and>
    (if rc = CKR_OK
     then out \<and> (\<exists>a. h = Some a \<and> sessions s a = None \<and> ready a new_session s' \<and>
       sessions s' = (sessions s)(a \<mapsto> new_session))
     else h = None \<and> sessions s' = sessions s)"
proof -
  have opened: ?thesis
    if i: "xIsInitialized (ctx s1)" "xInitializePKCS11 env s = (rc, s1)"
      "rc = CKR_OK \<or> rc = CKR_CRYPTOKI_ALREADY_INITIALIZED"
      and s1: "store s1 = store s" "sessions s1 = sessions s" "xIsInitialized (ctx s) \<Longrightarrow> ctx s1 = ctx s" and out
    for s1 rc
  proof -
    have n: "xOpened new_session" by (simp add: new_session_def)
    show ?thesis
      using assms(2) [of "dom (sessions s)" "world s1"] i(1) n s1 \<open>out\<close>
      by (auto simp: session_of_initialised [OF assms(1) i] prvOpenSession_initialised [OF i(1)]
        ready_def put_session_def split: option.split)
  qed
  show ?thesis
  proof (cases out)
    case False
    then show ?thesis by (simp add: xInitializePkcs11Session_def)
  next
    case True
    show ?thesis
    proof (cases rule: initialize_cases [of s env])
      case already
      from opened [OF already] True show ?thesis by simp
    next
      case fresh
      from opened [OF _ fresh(2)] fresh(1) True show ?thesis by simp
    next
      case failed
      then show ?thesis using True
        by (simp add: xInitializePkcs11Session_def C_GetFunctionList_def)
    qed
  qed
qed

theorem xInitializePkcs11Session_correct_witness:
  "\<exists>rc h s'. xInitializePkcs11Session reference_p11 first_fit True Map.empty (demo_p11\<lparr>sessions := Map.empty\<rparr>) =
       Some (rc, h, Map.empty, s') \<and> rc = CKR_OK \<and> (\<exists>a. ready a new_session s')"
proof -
  let ?s = "demo_p11\<lparr>sessions := Map.empty\<rparr>"
  have i: "xIsInitialized (ctx ?s)" by (simp add: demo_p11_def demo_list_def fresh_context_def)
  then have s1: "xInitializePKCS11 reference_p11 ?s = (CKR_CRYPTOKI_ALREADY_INITIALIZED, ?s)"
    by (simp add: xInitializePKCS11_def C_GetFunctionList_def C_Initialize_def prvMbedTLS_Initialize_def)
  have a: "a \<noteq> 0 \<and> a \<notin> used" if "session_address reference_p11 used w = Some a" for used w a
    using that by (simp add: reference_p11_simps split: if_splits)
  have o: "session_address reference_p11 (dom (sessions ?s)) (world ?s) = Some 1"
    "creates_sign_mutex reference_p11 (world ?s)" "creates_verify_mutex reference_p11 (world ?s)"
    by (simp_all add: reference_p11_def reference_psa_def psa_env.defs p11_env.defs)
  have "[1..<64] = 1 # [2..<64::nat]" by (simp add: upt_conv_Cons)
  then have m: "first_fit Map.empty 4 \<noteq> None" by (simp add: first_fit_def del: upt_rec)
  have "rc = CKR_OK" if "xInitializePkcs11Session reference_p11 first_fit True Map.empty ?s = Some (rc, h, Map.empty, s')"
    for rc h s'
    using that m o unfolding session_of_initialised [OF first_fit_fresh i s1 disjI2 [OF refl]] prvOpenSession_initialised [OF i]
    by simp
  with xInitializePkcs11Session_correct [of first_fit reference_p11 True Map.empty ?s, OF first_fit_fresh a] show ?thesis
    by fastforce
qed

text \<open>
  The token is reported as initialised or not by what the fresh block happens to contain; the two
  cases have the same result.
\<close>

lemma token_of_initialised:
  assumes "fresh_allocator alloc" and "xIsInitialized (ctx s1)"
    and "xInitializePKCS11 env s = (rc, s1)" and "rc = CKR_OK \<or> rc = CKR_CRYPTOKI_ALREADY_INITIALIZED"
  shows "\<exists>rc. xInitializePkcs11Token env alloc H s = Some (rc, H, s1) \<and> rc \<in> {CKR_OK, CKR_HOST_MEMORY}"
proof (cases "alloc H 4")
  case None
  with assms xGetSlotList_initialised [OF assms(1,2)] show ?thesis
    by (auto simp: xInitializePkcs11Token_def C_GetFunctionList_def)
next
  case (Some p)
  obtain a junk where p: "p = (a, junk)" by (cases p)
  note f = fresh_allocatorD [OF assms(1) Some [unfolded p]]
  let ?H = "H(a \<mapsto> slot_bytes [pkcs11SLOT_ID])"
  have l: "xGetSlotList alloc True (Some 0) H s1 = Some (CKR_OK, Some a, Some 1, ?H)"
    using xGetSlotList_initialised [OF assms(1,2), of 0 H] by (simp add: Some p)
  have "\<exists>rc'. init_first_token alloc a ?H s1 = Some (rc', ?H, s1) \<and> rc' \<in> {CKR_OK, CKR_HOST_MEMORY}"
  proof (cases "alloc ?H sizeof_CK_TOKEN_INFO")
    case None
    then show ?thesis by (simp add: init_first_token_def pvPortMalloc_def)
  next
    case (Some q)
    obtain b info where q: "q = (b, info)" by (cases q)
    note g = fresh_allocatorD [OF assms(1) Some [unfolded q]]
    then have "a \<noteq> b" by auto
    then have k: "slots_at a (?H(b \<mapsto> info)) = Some [pkcs11SLOT_ID]"
      using slots_at_bytes [OF f(2), of H] f(2) by (simp add: slots_at_def)
    have r: "(?H(b \<mapsto> info))(b := None) = ?H" using g(1) by (metis fun_upd_triv fun_upd_upd)
    note S = Some [unfolded q sizeof_CK_TOKEN_INFO_def]
    show ?thesis using g k r
      by (simp add: init_first_token_def pvPortMalloc_def S C_GetTokenInfo_def C_InitToken_def
        token_flags_def read_at_def sizeof_CK_TOKEN_INFO_def vPortFree_def)
  qed
  then obtain rc' where i: "init_first_token alloc a ?H s1 = Some (rc', ?H, s1)" "rc' \<in> {CKR_OK, CKR_HOST_MEMORY}" by auto
  have "?H(a := None) = H" using f(1) by auto
  with assms(3,4) f(2) l i show ?thesis
    by (intro exI [of _ rc']) (auto simp: xInitializePkcs11Token_def C_GetFunctionList_def vPortFree_def)
qed

theorem xInitializePkcs11Token_correct:
  assumes "fresh_allocator alloc"
  shows "\<exists>rc s'. xInitializePkcs11Token env alloc H s = Some (rc, H, s') \<and>
    rc \<in> {CKR_OK, CKR_HOST_MEMORY, CKR_FUNCTION_FAILED} \<and> (rc = CKR_OK \<longrightarrow> xIsInitialized (ctx s')) \<and>
    sessions s' = sessions s \<and> store s' = store s \<and> (xIsInitialized (ctx s) \<longrightarrow> s' = s)"
proof (cases rule: initialize_cases [of s env])
  case already
  with token_of_initialised [OF assms already] show ?thesis by fastforce
next
  case fresh
  with token_of_initialised [OF assms _ fresh(2), of H] show ?thesis by fastforce
next
  case failed
  then show ?thesis by (simp add: xInitializePkcs11Token_def C_GetFunctionList_def)
qed

subsection \<open>Finding an object\<close>

text \<open>
  The label the search keeps: the first \<open>n\<close> characters of the caller's block and a terminator.
\<close>

lemma find_init_label_class:
  assumes "ready h x s" and "pxFindObjectLabel x = None" and "heap_has env (n + 1) (world s)" and "n \<le> length label"
  shows "C_FindObjectsInit env h (Some (label_class_template label n cl)) 2 s =
    Some (CKR_OK, put_session h (x\<lparr>pxFindObjectLabel := Some (take n label @ [0])\<rparr>) s)"
proof -
  have t: "read_at (label_class_template label n cl) 0 2 = Some (label_class_template label n cl)"
    "read_at (label_class_template label n cl) 0 1 = Some [\<lparr>aType = CKA_LABEL, aValue = label, aLen = n\<rparr>]"
    by (simp_all add: label_class_template_def read_at_def)
  have d: "drop n (0 # replicate n (0 :: u8)) = [0]" by (induction n) simp_all
  have l: "for_each (label_class_template label n cl) find_init_attribute (CKR_TEMPLATE_INCOMPLETE, replicate (n + 1) 0) =
      Some (CKR_OK, take n label @ [0])"
    using assms(4) d by (simp add: label_class_template_def find_init_attribute_def read_at_def write_at_def
      CKA_LABEL_def CKA_CLASS_def min_def)
  have "aLen (hd (label_class_template label n cl)) = n" "1 \<le> length (label_class_template label n cl)"
    by (simp_all add: label_class_template_def)
  then show ?thesis using assms(2,3) l
    by (simp add: C_FindObjectsInit_def ready_valid [OF assms(1)] ready_at [OF assms(1)] t)
qed

lemma find_final:
  assumes "ready h x s" and "pxFindObjectLabel x \<noteq> None"
  shows "C_FindObjectsFinal h s = Some (CKR_OK, put_session h (x\<lparr>pxFindObjectLabel := None\<rparr>) s)"
  using assms by (simp add: C_FindObjectsFinal_def ready_valid [OF assms(1)] ready_at [OF assms(1)])

text \<open>The search in the secure world leaves the sessions alone.\<close>

lemma FindKeyObjects_sessions:
  "FindKeyObjects env l k p s = Some (rc, found, s') \<Longrightarrow> sessions s' = sessions s"
  unfolding FindKeyObjects_def by (auto split: if_splits option.splits prod.splits simp: bind_eq_Some_conv Let_def)

lemma find_certificate_sessions:
  "find_certificate env l u p r s = Some (rc, found, s') \<Longrightarrow> sessions s' = sessions s"
  unfolding find_certificate_def by (auto split: if_splits option.splits prod.splits simp: bind_eq_Some_conv Let_def)

lemma find_stored_sessions:
  "find_stored env l r s = Some (rc, found, s') \<Longrightarrow> sessions s' = sessions s"
  unfolding find_stored_def
  by (auto split: if_splits simp: bind_eq_Some_conv dest: FindKeyObjects_sessions find_certificate_sessions)



text \<open>
  A search of the secure world that fails is not ended: the session keeps its label, and the next
  look-up in it is refused because a search is active.
\<close>

theorem xFindObjectWithLabelAndClass_failed:
  assumes "ready h x s" and "pxFindObjectLabel x = None" and "heap_has env (length l + 1) (world s)"
    and "list_inv (ctx s)" and "0 \<notin> set l" and "l \<noteq> []" and "length l \<le> pkcs11configMAX_LABEL_LENGTH"
    and "find (label_match (ctx s) l) [0..<pkcs11configMAX_NUM_OBJECTS] = None"
    and "find_stored env (l @ [0]) CKR_OK (put_session h (x\<lparr>pxFindObjectLabel := Some (l @ [0])\<rparr>) s) = Some (rc, None, s')"
    and "rc \<noteq> CKR_OK" and "xIsInitialized (ctx s')"
  shows "xFindObjectWithLabelAndClass env h (Some l) (length l) cl True s = Some (rc, Some 0, s')"
    and "xFindObjectWithLabelAndClass env h (Some l') n cl' True s' = Some (CKR_OPERATION_ACTIVE, Some 0, s')"
proof -
  let ?x = "x\<lparr>pxFindObjectLabel := Some (l @ [0])\<rparr>" and ?s = "put_session h (x\<lparr>pxFindObjectLabel := Some (l @ [0])\<rparr>) s"
  note init = find_init_label_class [OF assms(1,2,3) order.refl, unfolded take_all [OF order.refl]]
  have r: "ready h ?x ?s" using assms(1) by (intro ready_put [OF assms(1)]) (simp add: ready_def)
  have n: "strlen (l @ [0]) = Some (length l)" using assms(5) by (induction l) auto
  have "prvFindObjectInListByLabel (l @ [0]) (length l) (ctx ?s) = Some (CK_INVALID_HANDLE, 0)"
    using prvFindObjectInListByLabel_correct [of "ctx ?s" l "l @ [0]"] assms(4-8) by simp
  then have "C_FindObjects env h True 1 0 ?s = Some (rc, Some 0, 0, s')"
    using n by (simp add: C_FindObjects_def ready_valid [OF r] ready_at [OF r] assms(9))
  with assms(10) show "xFindObjectWithLabelAndClass env h (Some l) (length l) cl True s = Some (rc, Some 0, s')"
    by (simp add: xFindObjectWithLabelAndClass_def C_GetFunctionList_def init)
  have "ready h ?x s'"
    using r assms(11) find_stored_sessions [OF assms(9)] by (simp add: ready_def)
  note r' = ready_valid [OF this] ready_at [OF this]
  show "xFindObjectWithLabelAndClass env h (Some l') n cl' True s' = Some (CKR_OPERATION_ACTIVE, Some 0, s')"
    by (simp add: xFindObjectWithLabelAndClass_def C_GetFunctionList_def C_FindObjectsInit_def r')
qed

subsection \<open>The prefix of an RSA signature\<close>

text \<open>The buffer gets the 19 bytes of the prefix, the hash, and keeps what it had behind them.\<close>

theorem vAppendSHA256AlgorithmIdentifierSequence_correct:
  assumes "length hash = 32" and "51 \<le> length buf"
  shows "vAppendSHA256AlgorithmIdentifierSequence (Some hash) (Some buf) =
    Some (CKR_OK, Some (pkcs11STUFF_APPENDED_TO_RSA_SIG @ hash @ drop 51 buf))"
proof -
  have "length pkcs11STUFF_APPENDED_TO_RSA_SIG = 19" by (simp add: pkcs11STUFF_APPENDED_TO_RSA_SIG_def)
  with assms show ?thesis
    by (simp add: vAppendSHA256AlgorithmIdentifierSequence_def write_at_def read_at_def)
qed

end
