(* ===== verification/PsaIpc.thy ===== *)
theory PsaIpc
  imports OtaPal P11Session
begin

text \<open>
  The non-secure side of the PSA services (tfm/interface): the lock that lets one task at a time into
  the secure world (tfm_ns_interface.c), the client calls of the Firmware Framework (tfm_psa_ns_api.c,
  tfm_psa_call_pack.h) and the functions that pack the arguments of a service into vectors and hand
  them over: internal trusted storage, protected storage, firmware update, attestation, platform. The
  functions have the suffix \<open>_ipc\<close> of their files where the services they implement are arguments of
  other theories under the plain name.

  The secure world is not part of the program: its entry points are the record \<open>veneers\<close> over an
  opaque world, and what the code relies on are laws of that record. A call that the secure side does
  not return from is \<open>None\<close>.
\<close>

subsection \<open>Vectors\<close>

text \<open>
  An input vector points to memory to read, an output vector to memory to write; the memory is the
  bytes from that address on, \<open>None\<close> is \<open>NULL\<close>. The length of an output vector is the size of the
  memory before a call and the number of bytes written after it.
\<close>

type_synonym u64 = "64 word"

record psa_invec =
  in_base :: "bytes option"
  in_size :: u32

record psa_outvec =
  out_base :: "bytes option"
  out_size :: u32

definition invec :: "bytes option \<Rightarrow> u32 \<Rightarrow> psa_invec" where
  "invec b n = \<lparr>in_base = b, in_size = n\<rparr>"

definition outvec :: "bytes option \<Rightarrow> u32 \<Rightarrow> psa_outvec" where
  "outvec b n = \<lparr>out_base = b, out_size = n\<rparr>"

lemma vec_simps [simp]:
  "in_base (invec b n) = b" "in_size (invec b n) = n" "out_base (outvec b n) = b" "out_size (outvec b n) = n"
  by (simp_all add: invec_def outvec_def)

text \<open>The bytes of 16-bit and 64-bit objects, lowest address first.\<close>

definition le16 :: "u16 \<Rightarrow> bytes" where
  "le16 w = [ucast w, ucast (drop_bit 8 w)]"

definition of_le16 :: "bytes \<Rightarrow> u16" where
  "of_le16 bs = (case bs of [a, b] \<Rightarrow> ucast a OR push_bit 8 (ucast b) | _ \<Rightarrow> 0)"

definition le64 :: "u64 \<Rightarrow> bytes" where
  "le64 w = le32 (ucast w) @ le32 (ucast (drop_bit 32 w))"

definition of_le64 :: "bytes \<Rightarrow> u64" where
  "of_le64 bs = ucast (of_le32 (take 4 bs)) OR push_bit 32 (ucast (of_le32 (drop 4 bs)))"

lemma length_le16 [simp]: "length (le16 w) = 2" by (simp add: le16_def)

lemma length_le64 [simp]: "length (le64 w) = 8" by (simp add: le64_def)

lemma of_le16_le16 [simp]: "of_le16 (le16 w) = w"
proof (rule bit_word_eqI)
  fix n
  assume "n < LENGTH(16)"
  then have "n < 8 \<or> (8 \<le> n \<and> n < 16)" by auto
  then show "bit (of_le16 (le16 w)) n = bit w n"
    by (elim disjE conjE) (auto simp: of_le16_def le16_def bit_simps)
qed

lemma of_le64_le64 [simp]: "of_le64 (le64 w) = w"
proof (rule bit_word_eqI)
  fix n
  assume "n < LENGTH(64)"
  then have "n < 32 \<or> (32 \<le> n \<and> n < 64)" by auto
  then show "bit (of_le64 (le64 w)) n = bit w n"
    by (elim disjE conjE) (auto simp: of_le64_def le64_def bit_simps)
qed

subsection \<open>The secure side\<close>

record 'w veneers =
  tfm_psa_framework_version_veneer :: "'w \<Rightarrow> (u32 \<times> 'w) option"
  tfm_psa_version_veneer :: "u32 \<Rightarrow> 'w \<Rightarrow> (u32 \<times> 'w) option"
  tfm_psa_connect_veneer :: "u32 \<Rightarrow> u32 \<Rightarrow> 'w \<Rightarrow> (int \<times> 'w) option"
  tfm_psa_close_veneer :: "u32 \<Rightarrow> 'w \<Rightarrow> (unit \<times> 'w) option"
  tfm_psa_call_veneer ::
    "u32 \<Rightarrow> u32 \<Rightarrow> psa_invec list option \<Rightarrow> psa_outvec list option \<Rightarrow> 'w \<Rightarrow>
     ((int \<times> psa_outvec list option) \<times> 'w) option"

record 'w client =
  ns_lock_mutex_id :: mutex
  spm :: 'w

subsection \<open>tfm_ns_interface.c\<close>

text \<open>
  The RTOS creates the mutex or returns \<open>NULL\<close>. Acquiring through a null identifier only reports
  an error, which the code does not look at; acquiring a mutex one holds never returns.
\<close>

definition ns_interface_lock_init :: "bool \<Rightarrow> 'w client \<Rightarrow> int \<times> 'w client" where
  "ns_interface_lock_init created c =
     (if created then (0, c\<lparr>ns_lock_mutex_id := Free\<rparr>) else (-1, c\<lparr>ns_lock_mutex_id := Absent\<rparr>))"

definition security_init :: "bool \<Rightarrow> 'w client \<Rightarrow> int \<times> 'w client" where
  "security_init created c = ns_interface_lock_init created c"

fun osMutexAcquire :: "mutex \<Rightarrow> mutex option" where
  "osMutexAcquire Absent = Some Absent"
| "osMutexAcquire Free = Some Held"
| "osMutexAcquire Held = None"

fun osMutexRelease :: "mutex \<Rightarrow> mutex" where
  "osMutexRelease Absent = Absent"
| "osMutexRelease _ = Free"

definition tfm_ns_interface_dispatch ::
  "('w \<Rightarrow> ('r \<times> 'w) option) \<Rightarrow> 'w client \<Rightarrow> ('r \<times> 'w client) option" where
  "tfm_ns_interface_dispatch fn c = do {
     m \<leftarrow> osMutexAcquire (ns_lock_mutex_id c);
     (result, w) \<leftarrow> fn (spm c);
     Some (result, c\<lparr>ns_lock_mutex_id := osMutexRelease m, spm := w\<rparr>) }"

subsection \<open>tfm_psa_ns_api.c\<close>

definition PSA_ERROR_PROGRAMMER_ERROR :: int where "PSA_ERROR_PROGRAMMER_ERROR = -129"
definition PSA_ERROR_NOT_SUPPORTED :: int where "PSA_ERROR_NOT_SUPPORTED = -134"
definition PSA_ERROR_BAD_STATE :: int where "PSA_ERROR_BAD_STATE = -137"
definition PSA_IPC_CALL :: int where "PSA_IPC_CALL = 0"
definition PSA_HANDLE_IS_VALID :: "int \<Rightarrow> bool" where "PSA_HANDLE_IS_VALID handle = (handle > 0)"

definition TYPE_MASK :: u32 where "TYPE_MASK = push_bit 16 0xFFFF"
definition IN_LEN_MASK :: u32 where "IN_LEN_MASK = push_bit 8 0xFF"
definition OUT_LEN_MASK :: u32 where "OUT_LEN_MASK = 0xFF"

definition PARAM_PACK :: "int \<Rightarrow> u32 \<Rightarrow> u32 \<Rightarrow> u32" where
  "PARAM_PACK type in_len out_len =
     (push_bit 16 (of_int type) AND TYPE_MASK) OR (push_bit 8 in_len AND IN_LEN_MASK) OR (out_len AND OUT_LEN_MASK)"

definition psa_framework_version :: "'w veneers \<Rightarrow> 'w client \<Rightarrow> (u32 \<times> 'w client) option" where
  "psa_framework_version v = tfm_ns_interface_dispatch (tfm_psa_framework_version_veneer v)"

definition psa_version :: "'w veneers \<Rightarrow> u32 \<Rightarrow> 'w client \<Rightarrow> (u32 \<times> 'w client) option" where
  "psa_version v sid = tfm_ns_interface_dispatch (tfm_psa_version_veneer v sid)"

definition psa_call ::
  "'w veneers \<Rightarrow> int \<Rightarrow> int \<Rightarrow> psa_invec list option \<Rightarrow> u32 \<Rightarrow> psa_outvec list option \<Rightarrow> u32 \<Rightarrow> 'w client \<Rightarrow>
   ((int \<times> psa_outvec list option) \<times> 'w client) option" where
  "psa_call v handle type in_vec in_len out_vec out_len c =
     (if type > 32767 \<or> type < -32768 \<or> in_len > 255 \<or> out_len > 255
      then Some ((PSA_ERROR_PROGRAMMER_ERROR, out_vec), c)
      else tfm_ns_interface_dispatch
             (tfm_psa_call_veneer v (of_int handle) (PARAM_PACK type in_len out_len) in_vec out_vec) c)"

definition psa_connect :: "'w veneers \<Rightarrow> u32 \<Rightarrow> u32 \<Rightarrow> 'w client \<Rightarrow> (int \<times> 'w client) option" where
  "psa_connect v sid version = tfm_ns_interface_dispatch (tfm_psa_connect_veneer v sid version)"

definition psa_close :: "'w veneers \<Rightarrow> int \<Rightarrow> 'w client \<Rightarrow> (unit \<times> 'w client) option" where
  "psa_close v handle = tfm_ns_interface_dispatch (tfm_psa_close_veneer v (of_int handle))"

text \<open>Arrays of vectors, \<open>IOVEC_LEN\<close> entries each.\<close>

definition IOVEC_LEN :: "'a list \<Rightarrow> u32" where
  "IOVEC_LEN arr = of_nat (length arr)"

definition call_vecs ::
  "'w veneers \<Rightarrow> int \<Rightarrow> int \<Rightarrow> psa_invec list \<Rightarrow> psa_outvec list \<Rightarrow> 'w client \<Rightarrow>
   ((int \<times> psa_outvec list) \<times> 'w client) option" where
  "call_vecs v handle type in_vec out_vec c = do {
     ((status, outs), c) \<leftarrow> psa_call v handle type (Some in_vec) (IOVEC_LEN in_vec) (Some out_vec) (IOVEC_LEN out_vec) c;
     outs \<leftarrow> outs;
     Some ((status, outs), c) }"

definition call_no_outvec ::
  "'w veneers \<Rightarrow> int \<Rightarrow> int \<Rightarrow> psa_invec list \<Rightarrow> 'w client \<Rightarrow> (int \<times> 'w client) option" where
  "call_no_outvec v handle type in_vec c = do {
     ((status, outs), c) \<leftarrow> psa_call v handle type (Some in_vec) (IOVEC_LEN in_vec) None 0 c;
     Some (status, c) }"

text \<open>The entry of an array that the code reads after a call; a \<open>size_t\<close> through a pointer.\<close>

definition at_index :: "'a list \<Rightarrow> nat \<Rightarrow> 'a option" where
  "at_index xs i = (if i < length xs then Some (xs ! i) else None)"

definition assign :: "'a option \<Rightarrow> 'a \<Rightarrow> 'a option" where
  "assign p x = (case p of None \<Rightarrow> None | Some _ \<Rightarrow> Some x)"

subsection \<open>tfm_its_ipc_api.c\<close>

definition TFM_INTERNAL_TRUSTED_STORAGE_SERVICE_HANDLE :: int where
  "TFM_INTERNAL_TRUSTED_STORAGE_SERVICE_HANDLE = 0x40000102"
definition TFM_ITS_SET :: int where "TFM_ITS_SET = 1001"
definition TFM_ITS_GET :: int where "TFM_ITS_GET = 1002"
definition TFM_ITS_GET_INFO :: int where "TFM_ITS_GET_INFO = 1003"
definition TFM_ITS_REMOVE :: int where "TFM_ITS_REMOVE = 1004"

text \<open>The structure \<open>psa_storage_info_t\<close> and its twelve bytes.\<close>

record psa_storage_info =
  si_capacity :: u32
  si_size :: u32
  si_flags :: u32

definition storage_info_bytes :: "psa_storage_info \<Rightarrow> bytes" where
  "storage_info_bytes i = le32 (si_capacity i) @ le32 (si_size i) @ le32 (si_flags i)"

definition storage_info_of :: "bytes \<Rightarrow> psa_storage_info" where
  "storage_info_of b = \<lparr>si_capacity = of_le32 (take 4 b), si_size = of_le32 (take 4 (drop 4 b)), si_flags = of_le32 (take 4 (drop 8 b))\<rparr>"

lemma storage_info_of_bytes [simp]: "storage_info_of (storage_info_bytes i) = i"
  by (simp add: storage_info_of_def storage_info_bytes_def)

definition psa_its_set_ipc ::
  "'w veneers \<Rightarrow> u64 \<Rightarrow> u32 \<Rightarrow> bytes option \<Rightarrow> u32 \<Rightarrow> 'w client \<Rightarrow> (int \<times> 'w client) option" where
  "psa_its_set_ipc v uid data_length p_data create_flags c =
     call_no_outvec v TFM_INTERNAL_TRUSTED_STORAGE_SERVICE_HANDLE TFM_ITS_SET
       [invec (Some (le64 uid)) 8, invec p_data data_length, invec (Some (le32 create_flags)) 4] c"

definition psa_its_get_ipc ::
  "'w veneers \<Rightarrow> u64 \<Rightarrow> u32 \<Rightarrow> u32 \<Rightarrow> bytes option \<Rightarrow> u32 option \<Rightarrow> 'w client \<Rightarrow>
   ((int \<times> bytes option \<times> u32 option) \<times> 'w client) option" where
  "psa_its_get_ipc v uid data_offset data_size p_data p_data_length c =
     (if p_data_length = None then Some ((PSA_ERROR_INVALID_ARGUMENT, p_data, None), c)
      else do {
        ((status, out_vec), c) \<leftarrow> call_vecs v TFM_INTERNAL_TRUSTED_STORAGE_SERVICE_HANDLE TFM_ITS_GET
           [invec (Some (le64 uid)) 8, invec (Some (le32 data_offset)) 4] [outvec p_data data_size] c;
        o0 \<leftarrow> at_index out_vec 0;
        Some ((status, out_base o0, Some (out_size o0)), c) })"

definition psa_its_get_info_ipc ::
  "'w veneers \<Rightarrow> u64 \<Rightarrow> psa_storage_info option \<Rightarrow> 'w client \<Rightarrow>
   ((int \<times> psa_storage_info option) \<times> 'w client) option" where
  "psa_its_get_info_ipc v uid p_info c = do {
     ((status, out_vec), c) \<leftarrow> call_vecs v TFM_INTERNAL_TRUSTED_STORAGE_SERVICE_HANDLE TFM_ITS_GET_INFO
        [invec (Some (le64 uid)) 8] [outvec (map_option storage_info_bytes p_info) 12] c;
     o0 \<leftarrow> at_index out_vec 0;
     Some ((status, map_option storage_info_of (out_base o0)), c) }"

definition psa_its_remove_ipc :: "'w veneers \<Rightarrow> u64 \<Rightarrow> 'w client \<Rightarrow> (int \<times> 'w client) option" where
  "psa_its_remove_ipc v uid c =
     call_no_outvec v TFM_INTERNAL_TRUSTED_STORAGE_SERVICE_HANDLE TFM_ITS_REMOVE [invec (Some (le64 uid)) 8] c"

subsection \<open>tfm_ps_ipc_api.c\<close>

definition TFM_PROTECTED_STORAGE_SERVICE_HANDLE :: int where
  "TFM_PROTECTED_STORAGE_SERVICE_HANDLE = 0x40000101"
definition TFM_PS_SET :: int where "TFM_PS_SET = 1001"
definition TFM_PS_GET :: int where "TFM_PS_GET = 1002"
definition TFM_PS_GET_INFO :: int where "TFM_PS_GET_INFO = 1003"
definition TFM_PS_REMOVE :: int where "TFM_PS_REMOVE = 1004"
definition TFM_PS_GET_SUPPORT :: int where "TFM_PS_GET_SUPPORT = 1005"

definition psa_ps_set_ipc ::
  "'w veneers \<Rightarrow> u64 \<Rightarrow> u32 \<Rightarrow> bytes option \<Rightarrow> u32 \<Rightarrow> 'w client \<Rightarrow> (int \<times> 'w client) option" where
  "psa_ps_set_ipc v uid data_length p_data create_flags c =
     call_no_outvec v TFM_PROTECTED_STORAGE_SERVICE_HANDLE TFM_PS_SET
       [invec (Some (le64 uid)) 8, invec p_data data_length, invec (Some (le32 create_flags)) 4] c"

definition psa_ps_get_ipc ::
  "'w veneers \<Rightarrow> u64 \<Rightarrow> u32 \<Rightarrow> u32 \<Rightarrow> bytes option \<Rightarrow> u32 option \<Rightarrow> 'w client \<Rightarrow>
   ((int \<times> bytes option \<times> u32 option) \<times> 'w client) option" where
  "psa_ps_get_ipc v uid data_offset data_size p_data p_data_length c =
     (if p_data_length = None then Some ((PSA_ERROR_INVALID_ARGUMENT, p_data, None), c)
      else do {
        ((status, out_vec), c) \<leftarrow> call_vecs v TFM_PROTECTED_STORAGE_SERVICE_HANDLE TFM_PS_GET
           [invec (Some (le64 uid)) 8, invec (Some (le32 data_offset)) 4] [outvec p_data data_size] c;
        o0 \<leftarrow> at_index out_vec 0;
        Some ((status, out_base o0, Some (out_size o0)), c) })"

definition psa_ps_get_info_ipc ::
  "'w veneers \<Rightarrow> u64 \<Rightarrow> psa_storage_info option \<Rightarrow> 'w client \<Rightarrow>
   ((int \<times> psa_storage_info option) \<times> 'w client) option" where
  "psa_ps_get_info_ipc v uid p_info c = do {
     ((status, out_vec), c) \<leftarrow> call_vecs v TFM_PROTECTED_STORAGE_SERVICE_HANDLE TFM_PS_GET_INFO
        [invec (Some (le64 uid)) 8] [outvec (map_option storage_info_bytes p_info) 12] c;
     o0 \<leftarrow> at_index out_vec 0;
     Some ((status, map_option storage_info_of (out_base o0)), c) }"

definition psa_ps_remove_ipc :: "'w veneers \<Rightarrow> u64 \<Rightarrow> 'w client \<Rightarrow> (int \<times> 'w client) option" where
  "psa_ps_remove_ipc v uid c =
     call_no_outvec v TFM_PROTECTED_STORAGE_SERVICE_HANDLE TFM_PS_REMOVE [invec (Some (le64 uid)) 8] c"

definition psa_ps_create_ipc :: "u64 \<Rightarrow> u32 \<Rightarrow> u32 \<Rightarrow> int" where
  "psa_ps_create_ipc uid sz create_flags = PSA_ERROR_NOT_SUPPORTED"

definition psa_ps_set_extended_ipc :: "u64 \<Rightarrow> u32 \<Rightarrow> u32 \<Rightarrow> bytes option \<Rightarrow> int" where
  "psa_ps_set_extended_ipc uid data_offset data_length p_data = PSA_ERROR_NOT_SUPPORTED"

definition psa_ps_get_support_ipc :: "'w veneers \<Rightarrow> 'w client \<Rightarrow> (u32 \<times> 'w client) option" where
  "psa_ps_get_support_ipc v c = do {
     let support_flags = le32 0;
     ((status, outs), c) \<leftarrow> psa_call v TFM_PROTECTED_STORAGE_SERVICE_HANDLE TFM_PS_GET_SUPPORT None 0
        (Some [outvec (Some support_flags) 4]) (IOVEC_LEN [outvec (Some support_flags) 4]) c;
     out_vec \<leftarrow> outs;
     o0 \<leftarrow> at_index out_vec 0;
     support_flags \<leftarrow> out_base o0;
     Some (of_le32 support_flags, c) }"

subsection \<open>tfm_firmware_update_ipc_api.c\<close>

definition TFM_ERROR_INVALID_PARAMETER :: int where "TFM_ERROR_INVALID_PARAMETER = 3"

text \<open>
  The six functions connect, call, close and translate one status; they differ in the service and the
  vectors.
\<close>

definition fwu_call ::
  "'w veneers \<Rightarrow> u32 \<Rightarrow> u32 \<Rightarrow> psa_invec list option \<Rightarrow> u32 \<Rightarrow> psa_outvec list option \<Rightarrow> u32 \<Rightarrow> 'w client \<Rightarrow>
   ((int \<times> psa_outvec list option) \<times> 'w client) option" where
  "fwu_call v sid version in_vec in_len out_vec out_len c = do {
     (handle, c) \<leftarrow> psa_connect v sid version c;
     if \<not> PSA_HANDLE_IS_VALID handle then Some ((PSA_ERROR_GENERIC_ERROR, out_vec), c)
     else do {
       ((status, out_vec), c) \<leftarrow> psa_call v handle PSA_IPC_CALL in_vec in_len out_vec out_len c;
       (_, c) \<leftarrow> psa_close v handle c;
       if status = TFM_ERROR_INVALID_PARAMETER then Some ((PSA_ERROR_INVALID_ARGUMENT, out_vec), c)
       else Some ((status, out_vec), c) } }"

definition TFM_FWU_WRITE_SID :: u32 where "TFM_FWU_WRITE_SID = 0xA0"
definition TFM_FWU_INSTALL_SID :: u32 where "TFM_FWU_INSTALL_SID = 0xA1"
definition TFM_FWU_ABORT_SID :: u32 where "TFM_FWU_ABORT_SID = 0xA2"
definition TFM_FWU_QUERY_SID :: u32 where "TFM_FWU_QUERY_SID = 0xA3"
definition TFM_FWU_REQUEST_REBOOT_SID :: u32 where "TFM_FWU_REQUEST_REBOOT_SID = 0xA4"
definition TFM_FWU_ACCEPT_SID :: u32 where "TFM_FWU_ACCEPT_SID = 0xA5"

definition psa_fwu_write_ipc ::
  "'w veneers \<Rightarrow> u32 \<Rightarrow> u32 \<Rightarrow> bytes option \<Rightarrow> u32 \<Rightarrow> 'w client \<Rightarrow> (int \<times> 'w client) option" where
  "psa_fwu_write_ipc v image_id block_offset block block_size c = do {
     let in_vec = [invec (Some (le32 image_id)) 4, invec (Some (le32 block_offset)) 4, invec block block_size];
     ((status, _), c) \<leftarrow> fwu_call v TFM_FWU_WRITE_SID 1 (Some in_vec) (IOVEC_LEN in_vec) None 0 c;
     Some (status, c) }"

text \<open>\<open>psa_image_version_t\<close> is eight bytes.\<close>

record psa_image_version =
  ver_major :: u8
  ver_minor :: u8
  ver_revision :: u16
  ver_build_num :: u32

definition image_version_bytes :: "psa_image_version \<Rightarrow> bytes" where
  "image_version_bytes x = [ver_major x, ver_minor x] @ le16 (ver_revision x) @ le32 (ver_build_num x)"

definition image_version_of :: "bytes \<Rightarrow> psa_image_version" where
  "image_version_of b = \<lparr>ver_major = hd b, ver_minor = hd (tl b), ver_revision = of_le16 (take 2 (drop 2 b)), ver_build_num = of_le32 (take 4 (drop 4 b))\<rparr>"

lemma image_version_of_bytes [simp]: "image_version_of (image_version_bytes x) = x"
  by (simp add: image_version_of_def image_version_bytes_def)

definition psa_fwu_install_ipc ::
  "'w veneers \<Rightarrow> u32 \<Rightarrow> u32 option \<Rightarrow> psa_image_version option \<Rightarrow> 'w client \<Rightarrow>
   ((int \<times> u32 option \<times> psa_image_version option) \<times> 'w client) option" where
  "psa_fwu_install_ipc v image_id dependency_uuid dependency_version c =
     (if dependency_uuid = None \<or> dependency_version = None
      then Some ((PSA_ERROR_INVALID_ARGUMENT, dependency_uuid, dependency_version), c)
      else do {
        let in_vec = [invec (Some (le32 image_id)) 4];
        let out_vec = [outvec (map_option le32 dependency_uuid) 4, outvec (map_option image_version_bytes dependency_version) 8];
        ((status, outs), c) \<leftarrow> fwu_call v TFM_FWU_INSTALL_SID 1 (Some in_vec) (IOVEC_LEN in_vec) (Some out_vec) (IOVEC_LEN out_vec) c;
        outs \<leftarrow> outs; o0 \<leftarrow> at_index outs 0; o1 \<leftarrow> at_index outs 1;
        Some ((status, map_option of_le32 (out_base o0), map_option image_version_of (out_base o1)), c) })"

definition psa_fwu_abort_ipc :: "'w veneers \<Rightarrow> u32 \<Rightarrow> 'w client \<Rightarrow> (int \<times> 'w client) option" where
  "psa_fwu_abort_ipc v image_id c = do {
     let in_vec = [invec (Some (le32 image_id)) 4];
     ((status, _), c) \<leftarrow> fwu_call v TFM_FWU_ABORT_SID 1 (Some in_vec) (IOVEC_LEN in_vec) None 0 c;
     Some (status, c) }"

text \<open>\<open>psa_image_info_t\<close> is the version, the state, the digest and three bytes of padding.\<close>

definition image_info_bytes :: "psa_image_info \<Rightarrow> bytes" where
  "image_info_bytes i = [iv_major i, iv_minor i] @ le16 (iv_revision i) @ le32 (iv_build_num i) @ [istate i] @ idigest i @ [0, 0, 0]"

definition image_info_of :: "bytes \<Rightarrow> psa_image_info" where
  "image_info_of b = \<lparr>iv_major = hd b, iv_minor = hd (tl b), iv_revision = of_le16 (take 2 (drop 2 b)),
     iv_build_num = of_le32 (take 4 (drop 4 b)), istate = hd (drop 8 b), idigest = take 32 (drop 9 b)\<rparr>"

lemma image_info_of_bytes [simp]: "length (idigest i) = 32 \<Longrightarrow> image_info_of (image_info_bytes i) = i"
  by (simp add: image_info_of_def image_info_bytes_def)

definition psa_fwu_query_ipc ::
  "'w veneers \<Rightarrow> u32 \<Rightarrow> psa_image_info option \<Rightarrow> 'w client \<Rightarrow> ((int \<times> psa_image_info option) \<times> 'w client) option" where
  "psa_fwu_query_ipc v image_id info c = do {
     let in_vec = [invec (Some (le32 image_id)) 4];
     let out_vec = [outvec (map_option image_info_bytes info) 44];
     ((status, outs), c) \<leftarrow> fwu_call v TFM_FWU_QUERY_SID 1 (Some in_vec) (IOVEC_LEN in_vec) (Some out_vec) (IOVEC_LEN out_vec) c;
     outs \<leftarrow> outs; o0 \<leftarrow> at_index outs 0;
     Some ((status, map_option image_info_of (out_base o0)), c) }"

definition psa_fwu_request_reboot_ipc :: "'w veneers \<Rightarrow> 'w client \<Rightarrow> (int \<times> 'w client) option" where
  "psa_fwu_request_reboot_ipc v c = do {
     ((status, _), c) \<leftarrow> fwu_call v TFM_FWU_REQUEST_REBOOT_SID 1 None 0 None 0 c;
     Some (status, c) }"

definition psa_fwu_accept_ipc :: "'w veneers \<Rightarrow> u32 \<Rightarrow> 'w client \<Rightarrow> (int \<times> 'w client) option" where
  "psa_fwu_accept_ipc v image_id c = do {
     let in_vec = [invec (Some (le32 image_id)) 4];
     ((status, _), c) \<leftarrow> fwu_call v TFM_FWU_ACCEPT_SID 1 (Some in_vec) (IOVEC_LEN in_vec) None 0 c;
     Some (status, c) }"

definition psa_fwu_set_manifest_ipc :: "u32 \<Rightarrow> bytes option \<Rightarrow> u32 \<Rightarrow> bytes option \<Rightarrow> int" where
  "psa_fwu_set_manifest_ipc image_id manifest manifest_size manifest_dependency = PSA_ERROR_NOT_SUPPORTED"

subsection \<open>tfm_initial_attestation_ipc_api.c\<close>

definition TFM_ATTESTATION_SERVICE_HANDLE :: int where "TFM_ATTESTATION_SERVICE_HANDLE = 0x40000103"
definition TFM_ATTEST_GET_TOKEN :: int where "TFM_ATTEST_GET_TOKEN = 1001"
definition TFM_ATTEST_GET_TOKEN_SIZE :: int where "TFM_ATTEST_GET_TOKEN_SIZE = 1002"

definition psa_initial_attest_get_token ::
  "'w veneers \<Rightarrow> bytes option \<Rightarrow> u32 \<Rightarrow> bytes option \<Rightarrow> u32 \<Rightarrow> u32 option \<Rightarrow> 'w client \<Rightarrow>
   ((int \<times> bytes option \<times> u32 option) \<times> 'w client) option" where
  "psa_initial_attest_get_token v auth_challenge challenge_size token_buf token_buf_size token_size c = do {
     ((status, out_vec), c) \<leftarrow> call_vecs v TFM_ATTESTATION_SERVICE_HANDLE TFM_ATTEST_GET_TOKEN
        [invec auth_challenge challenge_size] [outvec token_buf token_buf_size] c;
     o0 \<leftarrow> at_index out_vec 0;
     if status = PSA_SUCCESS
     then do { n \<leftarrow> assign token_size (out_size o0); Some ((status, out_base o0, Some n), c) }
     else Some ((status, out_base o0, token_size), c) }"

definition psa_initial_attest_get_token_size ::
  "'w veneers \<Rightarrow> u32 \<Rightarrow> u32 option \<Rightarrow> 'w client \<Rightarrow> ((int \<times> u32 option) \<times> 'w client) option" where
  "psa_initial_attest_get_token_size v challenge_size token_size c = do {
     ((status, out_vec), c) \<leftarrow> call_vecs v TFM_ATTESTATION_SERVICE_HANDLE TFM_ATTEST_GET_TOKEN_SIZE
        [invec (Some (le32 challenge_size)) 4] [outvec (map_option le32 token_size) 4] c;
     o0 \<leftarrow> at_index out_vec 0;
     Some ((status, map_option of_le32 (out_base o0)), c) }"

subsection \<open>tfm_platform_ipc_api.c\<close>

definition TFM_SP_PLATFORM_SYSTEM_RESET_SID :: u32 where "TFM_SP_PLATFORM_SYSTEM_RESET_SID = 0x40"
definition TFM_SP_PLATFORM_IOCTL_SID :: u32 where "TFM_SP_PLATFORM_IOCTL_SID = 0x41"
definition TFM_PLATFORM_ERR_SYSTEM_ERROR :: int where "TFM_PLATFORM_ERR_SYSTEM_ERROR = 1"

definition tfm_platform_system_reset :: "'w veneers \<Rightarrow> 'w client \<Rightarrow> (int \<times> 'w client) option" where
  "tfm_platform_system_reset v c = do {
     (handle, c) \<leftarrow> psa_connect v TFM_SP_PLATFORM_SYSTEM_RESET_SID 1 c;
     if handle \<le> 0 then Some (TFM_PLATFORM_ERR_SYSTEM_ERROR, c)
     else do {
       ((status, _), c) \<leftarrow> psa_call v handle PSA_IPC_CALL None 0 None 0 c;
       (_, c) \<leftarrow> psa_close v handle c;
       Some (if status < PSA_SUCCESS then TFM_PLATFORM_ERR_SYSTEM_ERROR else status, c) } }"

definition tfm_platform_ioctl ::
  "'w veneers \<Rightarrow> int \<Rightarrow> psa_invec option \<Rightarrow> psa_outvec option \<Rightarrow> 'w client \<Rightarrow>
   ((int \<times> psa_outvec option) \<times> 'w client) option" where
  "tfm_platform_ioctl v request input output c = do {
     let in_vec = [invec (Some (le32 (of_int request))) 4,
        case input of None \<Rightarrow> invec None 0 | Some i \<Rightarrow> invec (in_base i) (in_size i)];
     let inlen = (if input \<noteq> None then 2 else 1);
     let outlen = (if output \<noteq> None then 1 else 0);
     (handle, c) \<leftarrow> psa_connect v TFM_SP_PLATFORM_IOCTL_SID 1 c;
     if handle \<le> 0 then Some ((TFM_PLATFORM_ERR_SYSTEM_ERROR, output), c)
     else do {
       ((status, outs), c) \<leftarrow> psa_call v handle PSA_IPC_CALL (Some in_vec) inlen (map_option (\<lambda>p. [p]) output) outlen c;
       (_, c) \<leftarrow> psa_close v handle c;
       output \<leftarrow> (case outs of None \<Rightarrow> Some None | Some os \<Rightarrow> map_option Some (at_index os 0));
       Some ((if status < PSA_SUCCESS then TFM_PLATFORM_ERR_SYSTEM_ERROR else status, output), c) } }"

subsection \<open>One call at a time\<close>

text \<open>
  The secure side sees one request at a time and the lock ends as it began; a task that holds the
  lock already waits for ever.
\<close>

lemma dispatch_result:
  "tfm_ns_interface_dispatch fn c =
     (if ns_lock_mutex_id c = Held then None else map_option (\<lambda>(r, w). (r, c\<lparr>spm := w\<rparr>)) (fn (spm c)))"
  by (cases c; cases "ns_lock_mutex_id c"; cases "fn (spm c)")
    (auto simp: tfm_ns_interface_dispatch_def split: prod.splits)

text \<open>What the secure side unpacks from the word that carries the kind of message and the two counts.\<close>

definition packed_type :: "u32 \<Rightarrow> u16" where
  "packed_type p = ucast (drop_bit 16 (p AND TYPE_MASK))"

definition packed_in_len :: "u32 \<Rightarrow> u32" where
  "packed_in_len p = drop_bit 8 (p AND IN_LEN_MASK)"

definition packed_out_len :: "u32 \<Rightarrow> u32" where
  "packed_out_len p = p AND OUT_LEN_MASK"

lemma byte_mask: "x \<le> 255 \<Longrightarrow> x AND 0xFF = (x :: u32)"
proof -
  assume "x \<le> 255"
  then have "unat x < 2 ^ 8" by (simp add: word_le_nat_alt)
  then have "unat (take_bit 8 x) = unat x"
    by (simp add: unsigned_take_bit_eq take_bit_nat_eq_self)
  then have "take_bit 8 x = x" by (rule word_unat_eq_iff [THEN iffD2])
  then show ?thesis by (simp add: take_bit_eq_mask mask_eq_decr_exp)
qed

lemma mask_bits: "bit (0xFF :: u32) n = (n < 8)" "bit (0xFFFF :: u32) n = (n < 16)"
proof -
  have "(0xFF :: u32) = mask 8" "(0xFFFF :: u32) = mask 16" by (simp_all add: mask_eq_decr_exp)
  note eq = this
  show "bit (0xFF :: u32) n = (n < 8)" "bit (0xFFFF :: u32) n = (n < 16)"
    unfolding eq bit_mask_iff by (auto simp: possible_bit_word)
qed

lemma int_mask_bits: "bit (65535 :: int) n = (n < 16)" "bit (255 :: int) n = (n < 8)"
proof -
  have "(65535 :: int) = mask 16" "(255 :: int) = mask 8" by (simp_all add: mask_eq_exp_minus_1)
  note eq = this
  show "bit (65535 :: int) n = (n < 16)" "bit (255 :: int) n = (n < 8)" unfolding eq bit_mask_iff by simp_all
qed

lemma param_mask_bits:
  "bit TYPE_MASK n = (16 \<le> n \<and> n < 32)" "bit IN_LEN_MASK n = (8 \<le> n \<and> n < 16)" "bit OUT_LEN_MASK n = (n < 8)"
  unfolding TYPE_MASK_def IN_LEN_MASK_def OUT_LEN_MASK_def bit_push_bit_iff mask_bits
  by auto

lemma packed_type: "packed_type (PARAM_PACK t i n) = of_int t"
  by (rule bit_word_eqI) (auto simp: packed_type_def PARAM_PACK_def param_mask_bits bit_simps)

lemma packed_in_len: "packed_in_len (PARAM_PACK t i n) = i AND 0xFF"
  by (rule bit_word_eqI) (auto simp: packed_in_len_def PARAM_PACK_def param_mask_bits bit_simps int_mask_bits)

lemma packed_out_len: "packed_out_len (PARAM_PACK t i n) = n AND 0xFF"
  by (rule bit_word_eqI) (auto simp: packed_out_len_def PARAM_PACK_def param_mask_bits bit_simps int_mask_bits)

lemma packed:
  assumes "i \<le> 255" and "n \<le> 255"
  shows "packed_type (PARAM_PACK t i n) = of_int t" and "packed_in_len (PARAM_PACK t i n) = i"
    and "packed_out_len (PARAM_PACK t i n) = n"
  by (simp_all add: packed_type packed_in_len packed_out_len byte_mask assms)

end
