(* ===== verification/PsaServices.thy ===== *)
theory PsaServices
  imports PsaIpc KvStore
begin

text \<open>
  The services the other components take as arguments, provided by the client side: key-value store,
  PKCS#11 objects and firmware update work through the calls of \<open>PsaIpc\<close> when the secure side keeps
  what its documentation promises.
\<close>

subsection \<open>A call that the secure side serves\<close>

lemma psa_call_served:
  assumes "ns_lock_mutex_id c \<noteq> Held" and "-32768 \<le> type" and "type \<le> 32767" and "i \<le> 255" and "n \<le> 255"
    and "tfm_psa_call_veneer v (of_int h) (PARAM_PACK type i n) ins outs (spm c) = Some (r, w)"
  shows "psa_call v h type ins i outs n c = Some (r, c\<lparr>spm := w\<rparr>)"
  using assms by (auto simp: psa_call_def dispatch_result not_less)

subsection \<open>Storage\<close>

text \<open>
  A storage partition behind the handle \<open>h\<close> keeps a file for every identifier. It answers the messages
  set, get and get-info; reading changes nothing, an error changes no file, and the vectors say what
  was read.
\<close>

locale storage_partition =
  fixes v :: "'w veneers" and h :: int and files :: "'w \<Rightarrow> u64 \<Rightarrow> bytes option"
  assumes small: "files w u = Some f \<Longrightarrow> length f < 2 ^ 32"
    and set_file: "unat n \<le> length d \<Longrightarrow> \<exists>st w'. tfm_psa_call_veneer v (of_int h) (PARAM_PACK 1001 3 0)
      (Some [invec (Some (le64 u)) 8, invec (Some d) n, invec (Some (le32 fl)) 4]) None w = Some ((st, None), w') \<and>
      files w' = (if st = PSA_SUCCESS then (files w)(u \<mapsto> take (unat n) d) else files w)"
    and get_file: "files w u = Some f \<Longrightarrow> unat off \<le> length f \<Longrightarrow> unat n \<le> length b \<Longrightarrow>
      tfm_psa_call_veneer v (of_int h) (PARAM_PACK 1002 2 1)
        (Some [invec (Some (le64 u)) 8, invec (Some (le32 off)) 4]) (Some [outvec (Some b) n]) w =
      Some ((PSA_SUCCESS, Some [outvec (Some (take (unat n) (drop (unat off) f) @ drop (min (unat n) (length f - unat off)) b))
         (of_nat (min (unat n) (length f - unat off)))]), w)"
    and get_info: "files w u = Some f \<Longrightarrow> length b = 12 \<Longrightarrow> \<exists>cap fl. tfm_psa_call_veneer v (of_int h) (PARAM_PACK 1003 1 1)
        (Some [invec (Some (le64 u)) 8]) (Some [outvec (Some b) 12]) w =
      Some ((PSA_SUCCESS, Some [outvec (Some (storage_info_bytes \<lparr>si_capacity = cap, si_size = of_nat (length f), si_flags = fl\<rparr>)) 12]), w)"
    and get_info_missing: "files w u = None \<Longrightarrow> length b = 12 \<Longrightarrow> \<exists>st outs w'. tfm_psa_call_veneer v (of_int h) (PARAM_PACK 1003 1 1)
        (Some [invec (Some (le64 u)) 8]) (Some [outvec (Some b) 12]) w = Some ((st, Some [outs]), w') \<and> st \<noteq> PSA_SUCCESS"
begin

lemma set_served:
  assumes "ns_lock_mutex_id c \<noteq> Held" and "unat n \<le> length d"
  shows "\<exists>st w'. call_no_outvec v h 1001 [invec (Some (le64 u)) 8, invec (Some d) n, invec (Some (le32 fl)) 4] c
      = Some (st, c\<lparr>spm := w'\<rparr>) \<and>
    files w' = (if st = PSA_SUCCESS then (files (spm c))(u \<mapsto> take (unat n) d) else files (spm c))"
proof -
  from set_file [OF assms(2), of u fl "spm c"] obtain st w' where
    r: "tfm_psa_call_veneer v (of_int h) (PARAM_PACK 1001 3 0)
      (Some [invec (Some (le64 u)) 8, invec (Some d) n, invec (Some (le32 fl)) 4]) None (spm c) = Some ((st, None), w')"
    and f: "files w' = (if st = PSA_SUCCESS then (files (spm c))(u \<mapsto> take (unat n) d) else files (spm c))" by blast
  show ?thesis
    by (intro exI [of _ st] exI [of _ w'] conjI f)
      (simp add: call_no_outvec_def IOVEC_LEN_def psa_call_served [OF assms(1) _ _ _ _ r])
qed

lemma get_served:
  assumes "ns_lock_mutex_id c \<noteq> Held" and "files (spm c) u = Some f" and "unat off \<le> length f" and "unat n \<le> length b"
  shows "call_vecs v h 1002 [invec (Some (le64 u)) 8, invec (Some (le32 off)) 4] [outvec (Some b) n] c =
    Some ((PSA_SUCCESS, [outvec (Some (take (unat n) (drop (unat off) f) @ drop (min (unat n) (length f - unat off)) b))
         (of_nat (min (unat n) (length f - unat off)))]), c)"
  using psa_call_served [OF assms(1) _ _ _ _ get_file [OF assms(2-4)]]
  by (simp add: call_vecs_def IOVEC_LEN_def)

lemma info_served:
  assumes "ns_lock_mutex_id c \<noteq> Held" and "length b = 12"
  shows "\<exists>st o0 w'. call_vecs v h 1003 [invec (Some (le64 u)) 8] [outvec (Some b) 12] c = Some ((st, [o0]), c\<lparr>spm := w'\<rparr>) \<and>
    (case files (spm c) u of None \<Rightarrow> st \<noteq> PSA_SUCCESS
     | Some f \<Rightarrow> st = PSA_SUCCESS \<and> w' = spm c \<and> (\<exists>x. out_base o0 = Some (storage_info_bytes x) \<and> si_size x = of_nat (length f)))"
proof (cases "files (spm c) u")
  case None
  from get_info_missing [OF this assms(2)] obtain st o0 w' where
    r: "tfm_psa_call_veneer v (of_int h) (PARAM_PACK 1003 1 1)
        (Some [invec (Some (le64 u)) 8]) (Some [outvec (Some b) 12]) (spm c) = Some ((st, Some [o0]), w')" "st \<noteq> PSA_SUCCESS"
    by blast
  show ?thesis
    by (intro exI [of _ st] exI [of _ o0] exI [of _ w'])
      (simp add: None r(2) call_vecs_def IOVEC_LEN_def psa_call_served [OF assms(1) _ _ _ _ r(1)])
next
  case (Some f)
  from get_info [OF this assms(2)] obtain cap fl where
    r: "tfm_psa_call_veneer v (of_int h) (PARAM_PACK 1003 1 1)
        (Some [invec (Some (le64 u)) 8]) (Some [outvec (Some b) 12]) (spm c) =
      Some ((PSA_SUCCESS, Some [outvec (Some (storage_info_bytes \<lparr>si_capacity = cap, si_size = of_nat (length f), si_flags = fl\<rparr>)) 12]), spm c)"
    by blast
  show ?thesis
    by (intro exI [of _ PSA_SUCCESS] exI [of _ "spm c"]
        exI [of _ "outvec (Some (storage_info_bytes \<lparr>si_capacity = cap, si_size = of_nat (length f), si_flags = fl\<rparr>)) 12"])
      (auto simp: Some call_vecs_def IOVEC_LEN_def psa_call_served [OF assms(1) _ _ _ _ r])
qed

end

text \<open>The service as the key-value store sees it: the calls, made with the lock free. Identifiers and sizes
  are 64-bit and 32-bit numbers on the target.\<close>

definition at_rest :: "'w \<Rightarrow> 'w client" where
  "at_rest w = \<lparr>ns_lock_mutex_id = Free, spm = w\<rparr>"

definition uid_ok :: "nat \<Rightarrow> bool" where "uid_ok u = (u < 2 ^ 64)"

definition ipc_get_info :: "('w client \<Rightarrow> ((int \<times> psa_storage_info option) \<times> 'w client) option) \<Rightarrow> 'w \<Rightarrow> int \<times> nat" where
  "ipc_get_info call w = (case call (at_rest w) of Some ((st, Some i), c) \<Rightarrow> (st, unat (si_size i)) | _ \<Rightarrow> (PSA_ERROR_GENERIC_ERROR, 0))"

definition ipc_get :: "('w client \<Rightarrow> ((int \<times> bytes option \<times> u32 option) \<times> 'w client) option) \<Rightarrow> 'w \<Rightarrow> int \<times> bytes" where
  "ipc_get call w = (case call (at_rest w) of Some ((st, Some b, Some n), c) \<Rightarrow> (st, take (unat n) b) | _ \<Rightarrow> (PSA_ERROR_GENERIC_ERROR, []))"

definition ipc_status :: "('w client \<Rightarrow> (int \<times> 'w client) option) \<Rightarrow> 'w \<Rightarrow> int \<times> 'w" where
  "ipc_status call w = (case call (at_rest w) of Some (st, c) \<Rightarrow> (st, spm c) | None \<Rightarrow> (PSA_ERROR_GENERIC_ERROR, w))"

definition zero_info :: psa_storage_info where
  "zero_info = \<lparr>si_capacity = 0, si_size = 0, si_flags = 0\<rparr>"

definition client_its :: "'w veneers \<Rightarrow> 'w its" where
  "client_its v =
     \<lparr> psa_its_get_info = (\<lambda>u w. if uid_ok u then ipc_get_info (psa_its_get_info_ipc v (of_nat u) (Some zero_info)) w
          else (PSA_ERROR_INVALID_ARGUMENT, 0)),
       psa_its_get = (\<lambda>u off n w. if uid_ok u \<and> off < 2 ^ 32 \<and> n < 2 ^ 32
          then ipc_get (psa_its_get_ipc v (of_nat u) (of_nat off) (of_nat n) (Some (replicate n 0)) (Some 0)) w
          else (PSA_ERROR_INVALID_ARGUMENT, [])),
       psa_its_set = (\<lambda>u bs w. if uid_ok u \<and> length bs < 2 ^ 32
          then ipc_status (psa_its_set_ipc v (of_nat u) (of_nat (length bs)) (Some bs) 0) w
          else (PSA_ERROR_INVALID_ARGUMENT, w)) \<rparr>"

definition files_of :: "('w \<Rightarrow> u64 \<Rightarrow> bytes option) \<Rightarrow> 'w \<Rightarrow> nat \<Rightarrow> bytes option" where
  "files_of files w u = (if uid_ok u then files w (of_nat u) else None)"

lemma at_rest_simps [simp]: "ns_lock_mutex_id (at_rest w) = Free" "spm (at_rest w) = w"
  by (simp_all add: at_rest_def)

lemma of_nat_uid: "uid_ok a \<Longrightarrow> uid_ok b \<Longrightarrow> ((of_nat a :: u64) = of_nat b) = (a = b)"
proof
  assume "uid_ok a" "uid_ok b" "(of_nat a :: u64) = of_nat b"
  then have "unat (of_nat a :: u64) = unat (of_nat b :: u64)" "a < 2 ^ 64" "b < 2 ^ 64" by (simp_all add: uid_ok_def)
  then show "a = b" by (simp add: unat_of_nat)
qed simp

lemma files_of_update:
  "uid_ok u \<Longrightarrow> files w' = (files w)(of_nat u \<mapsto> bs) \<Longrightarrow> files_of files w' = (files_of files w)(u \<mapsto> bs)"
  by (auto simp: files_of_def fun_eq_iff of_nat_uid)

lemma files_of_same: "files w' = files w \<Longrightarrow> files_of files w' = files_of files w"
  by (simp add: files_of_def fun_eq_iff)

locale its_partition = storage_partition v TFM_INTERNAL_TRUSTED_STORAGE_SERVICE_HANDLE files
  for v :: "'w veneers" and files +
  fixes alloc :: allocator and num_keys :: nat
  assumes alloc: "fresh_allocator alloc"

sublocale its_partition \<subseteq> psa_its alloc "client_its v" "files_of files" num_keys
proof unfold_locales
  show "fresh_allocator alloc" by (rule alloc)
next
  fix w u bs
  assume f: "files_of files w u = Some bs"
  then have u: "uid_ok u" and g: "files w (of_nat u) = Some bs" by (auto simp: files_of_def split: if_splits)
  obtain st o0 w' where r: "call_vecs v TFM_INTERNAL_TRUSTED_STORAGE_SERVICE_HANDLE 1003 [invec (Some (le64 (of_nat u))) 8]
       [outvec (Some (storage_info_bytes zero_info)) 12] (at_rest w) = Some ((st, [o0]), (at_rest w)\<lparr>spm := w'\<rparr>)"
    "st = PSA_SUCCESS" "\<exists>x. out_base o0 = Some (storage_info_bytes x) \<and> si_size x = of_nat (length bs)"
    using info_served [of "at_rest w" "storage_info_bytes zero_info" "of_nat u"] g
    by (auto simp: storage_info_bytes_def)
  then show "psa_its_get_info (client_its v) u w = (PSA_SUCCESS, length bs)"
    using u small [OF g]
    by (auto simp: client_its_def ipc_get_info_def psa_its_get_info_ipc_def TFM_ITS_GET_INFO_def at_index_def unat_of_nat)
next
  fix w u
  assume f: "files_of files w u = None"
  show "fst (psa_its_get_info (client_its v) u w) \<noteq> PSA_SUCCESS"
  proof (cases "uid_ok u")
    case True
    with f have g: "files w (of_nat u) = None" by (simp add: files_of_def)
    obtain st o0 w' where r: "call_vecs v TFM_INTERNAL_TRUSTED_STORAGE_SERVICE_HANDLE 1003 [invec (Some (le64 (of_nat u))) 8]
       [outvec (Some (storage_info_bytes zero_info)) 12] (at_rest w) = Some ((st, [o0]), (at_rest w)\<lparr>spm := w'\<rparr>)" "st \<noteq> PSA_SUCCESS"
      using info_served [of "at_rest w" "storage_info_bytes zero_info" "of_nat u"] g
      by (auto simp: storage_info_bytes_def)
    then show ?thesis
      using True by (auto simp: client_its_def ipc_get_info_def psa_its_get_info_ipc_def TFM_ITS_GET_INFO_def at_index_def
          PSA_ERROR_GENERIC_ERROR_def PSA_SUCCESS_def split: option.splits)
  next
    case False
    then show ?thesis by (simp add: client_its_def PSA_ERROR_INVALID_ARGUMENT_def PSA_SUCCESS_def)
  qed
next
  fix w u bs and off n :: nat
  assume f: "files_of files w u = Some bs" and n: "off + n \<le> length bs"
  then have u: "uid_ok u" and g: "files w (of_nat u) = Some bs" by (auto simp: files_of_def split: if_splits)
  from n small [OF g] have b: "off < 2 ^ 32" "n < 2 ^ 32" by auto
  then have un: "unat (of_nat off :: u32) = off" "unat (of_nat n :: u32) = n" by (simp_all add: unat_of_nat)
  have "call_vecs v TFM_INTERNAL_TRUSTED_STORAGE_SERVICE_HANDLE 1002 [invec (Some (le64 (of_nat u))) 8, invec (Some (le32 (of_nat off))) 4]
      [outvec (Some (replicate n 0)) (of_nat n)] (at_rest w) =
    Some ((PSA_SUCCESS, [outvec (Some (take n (drop off bs) @ drop n (replicate n 0))) (of_nat n)]), at_rest w)"
    using get_served [of "at_rest w" "of_nat u" bs "of_nat off" "of_nat n" "replicate n 0"] g n
    by (simp add: un min_absorb1)
  then show "psa_its_get (client_its v) u off n w = (PSA_SUCCESS, take n (drop off bs))"
    using u b n by (simp add: client_its_def ipc_get_def psa_its_get_ipc_def TFM_ITS_GET_def at_index_def un)
next
  fix w u bs w'
  assume s: "psa_its_set (client_its v) u bs w = (PSA_SUCCESS, w')"
  then have u: "uid_ok u" and b: "length bs < 2 ^ 32"
    by (auto simp: client_its_def PSA_ERROR_INVALID_ARGUMENT_def PSA_SUCCESS_def split: if_splits)
  have un: "unat (of_nat (length bs) :: u32) = length bs" using b by (simp add: unat_of_nat)
  from s u b set_served [of "at_rest w" "of_nat (length bs)" bs "of_nat u" 0]
  have "files w' = (files w)(of_nat u \<mapsto> bs)"
    by (auto simp: client_its_def ipc_status_def psa_its_set_ipc_def TFM_ITS_SET_def un)
  then show "files_of files w' = (files_of files w)(u \<mapsto> bs)" by (rule files_of_update [OF u])
next
  fix w u bs st w'
  assume s: "psa_its_set (client_its v) u bs w = (st, w')" and st: "st \<noteq> PSA_SUCCESS"
  show "files_of files w' = files_of files w"
  proof (cases "uid_ok u \<and> length bs < 2 ^ 32")
    case True
    then have un: "unat (of_nat (length bs) :: u32) = length bs" by (simp add: unat_of_nat)
    from s st True set_served [of "at_rest w" "of_nat (length bs)" bs "of_nat u" 0]
    have "files w' = files w"
      by (auto simp: client_its_def ipc_status_def psa_its_set_ipc_def TFM_ITS_SET_def un)
    then show ?thesis by (rule files_of_same)
  next
    case False
    with s have "w' = w" by (auto simp: client_its_def)
    then show ?thesis by simp
  qed
qed


context its_partition
begin

lemma client_provides: "psa_its alloc (client_its v) (files_of files)"
  by (rule psa_its_axioms)

end

subsection \<open>Protected storage for the PKCS#11 module\<close>

definition client_ps :: "'w veneers \<Rightarrow> 'w psa_env \<Rightarrow> 'w psa_env" where
  "client_ps v env = env
     \<lparr> psa_ps_set := (\<lambda>u bs w. if uid_ok u \<and> length bs < 2 ^ 32
          then ipc_status (psa_ps_set_ipc v (of_nat u) (of_nat (length bs)) (Some bs) 0) w
          else (PSA_ERROR_INVALID_ARGUMENT, w)),
       psa_ps_get_info := (\<lambda>u w. if uid_ok u then ipc_get_info (psa_ps_get_info_ipc v (of_nat u) (Some zero_info)) w
          else (PSA_ERROR_INVALID_ARGUMENT, 0)),
       psa_ps_get := (\<lambda>u off n w. if uid_ok u \<and> off < 2 ^ 32 \<and> n < 2 ^ 32
          then ipc_get (psa_ps_get_ipc v (of_nat u) (of_nat off) (of_nat n) (Some (replicate n 0)) (Some 0)) w
          else (PSA_ERROR_INVALID_ARGUMENT, [])),
       psa_ps_remove := (\<lambda>u w. if uid_ok u then ipc_status (psa_ps_remove_ipc v (of_nat u)) w
          else (PSA_ERROR_INVALID_ARGUMENT, w)) \<rparr>"

locale ps_partition = storage_partition v TFM_PROTECTED_STORAGE_SERVICE_HANDLE files
  for v :: "'w veneers" and files +
  fixes env :: "'w psa_env"

sublocale ps_partition \<subseteq> protected_storage "client_ps v env" "files_of files"
proof unfold_locales
  fix u d w w'
  assume s: "psa_ps_set (client_ps v env) u d w = (PSA_SUCCESS, w')"
  then have u: "uid_ok u" and b: "length d < 2 ^ 32"
    by (auto simp: client_ps_def PSA_ERROR_INVALID_ARGUMENT_def PSA_SUCCESS_def split: if_splits)
  have un: "unat (of_nat (length d) :: u32) = length d" using b by (simp add: unat_of_nat)
  from s u b set_served [of "at_rest w" "of_nat (length d)" d "of_nat u" 0]
  have "files w' = (files w)(of_nat u \<mapsto> d)"
    by (auto simp: client_ps_def ipc_status_def psa_ps_set_ipc_def TFM_PS_SET_def un)
  then show "files_of files w' = (files_of files w)(u \<mapsto> d)" by (rule files_of_update [OF u])
next
  fix u d w
  assume f: "files_of files w u = Some d"
  then have u: "uid_ok u" and g: "files w (of_nat u) = Some d" by (auto simp: files_of_def split: if_splits)
  obtain o0 w' where r: "call_vecs v TFM_PROTECTED_STORAGE_SERVICE_HANDLE 1003 [invec (Some (le64 (of_nat u))) 8]
       [outvec (Some (storage_info_bytes zero_info)) 12] (at_rest w) = Some ((PSA_SUCCESS, [o0]), (at_rest w)\<lparr>spm := w'\<rparr>)"
    "\<exists>x. out_base o0 = Some (storage_info_bytes x) \<and> si_size x = of_nat (length d)"
    using info_served [of "at_rest w" "storage_info_bytes zero_info" "of_nat u"] g
    by (auto simp: storage_info_bytes_def)
  then show "psa_ps_get_info (client_ps v env) u w = (PSA_SUCCESS, length d)"
    using u small [OF g]
    by (auto simp: client_ps_def ipc_get_info_def psa_ps_get_info_ipc_def TFM_PS_GET_INFO_def at_index_def unat_of_nat)
  have b: "length d < 2 ^ 32" by (rule small [OF g])
  then have un: "unat (of_nat (length d) :: u32) = length d" by (simp add: unat_of_nat)
  have "call_vecs v TFM_PROTECTED_STORAGE_SERVICE_HANDLE 1002 [invec (Some (le64 (of_nat u))) 8, invec (Some (le32 0)) 4]
      [outvec (Some (replicate (length d) 0)) (of_nat (length d))] (at_rest w) =
    Some ((PSA_SUCCESS, [outvec (Some d) (of_nat (length d))]), at_rest w)"
    using get_served [of "at_rest w" "of_nat u" d 0 "of_nat (length d)" "replicate (length d) 0"] g
    by (simp add: un)
  then show "psa_ps_get (client_ps v env) u 0 (length d) w = (PSA_SUCCESS, d)"
    using u b by (simp add: client_ps_def ipc_get_def psa_ps_get_ipc_def TFM_PS_GET_def at_index_def un)
qed

subsection \<open>Firmware update\<close>

text \<open>
  Every function of the update service opens a connection for one call. \<open>session w\<close> maps the handles of
  the connections the secure side keeps for the caller to their services.
\<close>

locale connections =
  fixes v :: "'w veneers" and session :: "'w \<Rightarrow> u32 \<rightharpoonup> u32"
  assumes connect_returns: "tfm_psa_connect_veneer v sid ver w \<noteq> None"
    and connect_opens: "tfm_psa_connect_veneer v sid ver w = Some (h, w') \<Longrightarrow>
      session w' = (if h > 0 then (session w)(of_int h \<mapsto> sid) else session w) \<and> (h > 0 \<longrightarrow> session w (of_int h) = None)"
    and call_keeps: "session w k \<noteq> None \<Longrightarrow> tfm_psa_call_veneer v k p iv outs w = Some (r, w') \<Longrightarrow> session w' = session w"
    and call_returns: "session w k \<noteq> None \<Longrightarrow> \<exists>st outs' w'. tfm_psa_call_veneer v k p (Some ins) outs w = Some ((st, outs'), w') \<and>
      map_option length outs' = map_option length outs"
    and close_closes: "session w k \<noteq> None \<Longrightarrow> \<exists>w'. tfm_psa_close_veneer v k w = Some ((), w') \<and> session w' = (session w)(k := None)"
begin

text \<open>One connection, one call, the connection closed: what happened when \<open>fwu_call\<close> has returned.\<close>

lemma fwu_call_steps:
  assumes "fwu_call v sid ver ins i outs n c = Some ((st, outs'), c')" and "i \<le> 255" and "n \<le> 255"
  obtains (refused) h w1 where "tfm_psa_connect_veneer v sid ver (spm c) = Some (h, w1)" and "session w1 = session (spm c)" and
      "c' = c\<lparr>spm := w1\<rparr>" and "st = PSA_ERROR_GENERIC_ERROR" and "outs' = outs"
  | (served) h w1 st1 w2 w3 where "tfm_psa_connect_veneer v sid ver (spm c) = Some (h, w1)" and "session w1 (of_int h) = Some sid" and
      "tfm_psa_call_veneer v (of_int h) (PARAM_PACK 0 i n) ins outs w1 = Some ((st1, outs'), w2)" and
      "tfm_psa_close_veneer v (of_int h) w2 = Some ((), w3)" and "session w2 = session w1" and "session w3 = session (spm c)" and "c' = c\<lparr>spm := w3\<rparr>" and
      "st = (if st1 = TFM_ERROR_INVALID_PARAMETER then PSA_ERROR_INVALID_ARGUMENT else st1)"
proof -
  from assms(1) have lock: "ns_lock_mutex_id c \<noteq> Held" by (auto simp: fwu_call_def psa_connect_def dispatch_result split: if_splits)
  obtain h w1 where con: "tfm_psa_connect_veneer v sid ver (spm c) = Some (h, w1)"
    using connect_returns [of sid ver "spm c"] by auto
  note op = connect_opens [OF con]
  have pcon: "psa_connect v sid ver c = Some (h, c\<lparr>spm := w1\<rparr>)"
    using con lock by (simp add: psa_connect_def dispatch_result)
  show thesis
  proof (cases "h > 0")
    case False
    then show thesis using assms(1) pcon op con refused by (simp add: fwu_call_def PSA_HANDLE_IS_VALID_def)
  next
    case True
    with op have k: "session w1 (of_int h) = Some sid" "session (spm c) (of_int h) = None"
      "session w1 = (session (spm c))(of_int h \<mapsto> sid)" by auto
    have restored: "(session w1)(of_int h := None) = session (spm c)" using k(2,3) by (simp add: fun_upd_idem)
    from assms(1) pcon True obtain st1 c2 where
      pcall: "psa_call v h PSA_IPC_CALL ins i outs n (c\<lparr>spm := w1\<rparr>) = Some ((st1, outs'), c2)"
      and pclose: "psa_close v h c2 = Some ((), c')"
      and st: "st = (if st1 = TFM_ERROR_INVALID_PARAMETER then PSA_ERROR_INVALID_ARGUMENT else st1)"
      by (auto simp: fwu_call_def PSA_HANDLE_IS_VALID_def split: if_splits)
    from pcall lock assms(2,3) obtain w2 where w2:
      "tfm_psa_call_veneer v (of_int h) (PARAM_PACK 0 i n) ins outs w1 = Some ((st1, outs'), w2)" "c2 = c\<lparr>spm := w2\<rparr>"
      by (auto simp: psa_call_def dispatch_result PSA_IPC_CALL_def not_less split: if_splits)
    have s2: "session w2 = session w1" using call_keeps [OF _ w2(1)] k(1) by simp
    from close_closes [of w2 "of_int h"] s2 k(1) obtain w3 where
      w3: "tfm_psa_close_veneer v (of_int h) w2 = Some ((), w3)" "session w3 = (session w2)(of_int h := None)" by auto
    from pclose w2(2) w3(1) lock have "c' = c\<lparr>spm := w3\<rparr>" by (simp add: psa_close_def dispatch_result)
    then show thesis using served [OF con k(1) w2(1) w3(1) s2 _ _ st] w3(2) s2 restored by simp
  qed
qed

lemma fwu_call_balanced:
  assumes "i \<le> 255" and "n \<le> 255"
  shows "keeps (fwu_call v sid ver ins i outs n c) (\<lambda>(r, c'). session (spm c') = session (spm c) \<and> ns_lock_mutex_id c' = ns_lock_mutex_id c)"
proof (rule keeps_pairI)
  fix r c'
  assume r: "fwu_call v sid ver ins i outs n c = Some (r, c')"
  obtain st outs' where "r = (st, outs')" by (cases r)
  from fwu_call_steps [OF r [unfolded this] assms]
  show "session (spm c') = session (spm c) \<and> ns_lock_mutex_id c' = ns_lock_mutex_id c" by cases simp_all
qed

lemma fwu_call_returns:
  assumes "ns_lock_mutex_id c \<noteq> Held" and "i \<le> 255" and "n \<le> 255"
  shows "\<exists>st outs' c'. fwu_call v sid ver (Some ins) i outs n c = Some ((st, outs'), c') \<and> map_option length outs' = map_option length outs"
proof -
  obtain h w1 where con: "tfm_psa_connect_veneer v sid ver (spm c) = Some (h, w1)"
    using connect_returns [of sid ver "spm c"] by auto
  note op = connect_opens [OF con]
  show ?thesis
  proof (cases "h > 0")
    case False
    with con assms show ?thesis by (simp add: fwu_call_def psa_connect_def dispatch_result PSA_HANDLE_IS_VALID_def)
  next
    case True
    with op have k: "session w1 (of_int h) \<noteq> None" by simp
    from call_returns [OF k, of "PARAM_PACK PSA_IPC_CALL i n" ins outs] obtain st outs' w2 where
      r: "tfm_psa_call_veneer v (of_int h) (PARAM_PACK PSA_IPC_CALL i n) (Some ins) outs w1 = Some ((st, outs'), w2)"
        "map_option length outs' = map_option length outs" by blast
    have k2: "session w2 (of_int h) \<noteq> None" using call_keeps [OF k r(1)] k by simp
    obtain w3 where "tfm_psa_close_veneer v (of_int h) w2 = Some ((), w3)" using close_closes [OF k2] by blast
    then have "psa_close v h (c\<lparr>spm := w2\<rparr>) = Some ((), c\<lparr>spm := w3\<rparr>)"
      using assms(1) by (simp add: psa_close_def dispatch_result)
    moreover have "psa_connect v sid ver c = Some (h, c\<lparr>spm := w1\<rparr>)"
      using con assms(1) by (simp add: psa_connect_def dispatch_result)
    moreover have "psa_call v h PSA_IPC_CALL (Some ins) i outs n (c\<lparr>spm := w1\<rparr>) = Some ((st, outs'), c\<lparr>spm := w2\<rparr>)"
      using psa_call_served [where c = "c\<lparr>spm := w1\<rparr>" and h = h and v = v and type = PSA_IPC_CALL] r(1) assms
      by (simp add: PSA_IPC_CALL_def)
    ultimately show ?thesis using r(2) True by (simp add: fwu_call_def PSA_HANDLE_IS_VALID_def)
  qed
qed

end

text \<open>The caller has the connections it had, and the lock is as it was.\<close>

definition balanced :: "('w \<Rightarrow> u32 \<Rightarrow> u32 option) \<Rightarrow> 'w client \<Rightarrow> 'w client \<Rightarrow> bool" where
  "balanced session c c' = (session (spm c') = session (spm c) \<and> ns_lock_mutex_id c' = ns_lock_mutex_id c)"

context connections
begin

lemma fwu_call_done:
  assumes "ns_lock_mutex_id c \<noteq> Held" and "i \<le> 255" and "n \<le> 255"
  obtains st outs' c' where "fwu_call v sid ver (Some ins) i outs n c = Some ((st, outs'), c')"
    and "map_option length outs' = map_option length outs"
    and "session (spm c') = session (spm c)" and "ns_lock_mutex_id c' = ns_lock_mutex_id c"
proof -
  from fwu_call_returns [OF assms, of sid ver ins outs] obtain st outs' c' where
    r: "fwu_call v sid ver (Some ins) i outs n c = Some ((st, outs'), c')" "map_option length outs' = map_option length outs" by blast
  from keepsD [OF fwu_call_balanced [OF assms(2,3)] r(1)] show thesis using that [OF r] by simp
qed

lemma install_balanced:
  assumes "ns_lock_mutex_id c \<noteq> Held"
  shows "\<exists>r c'. psa_fwu_install_ipc v iid uu ver c = Some (r, c') \<and> balanced session c c'"
proof (cases "uu = None \<or> ver = None")
  case True
  then show ?thesis by (auto simp: psa_fwu_install_ipc_def balanced_def)
next
  case False
  then obtain a b where ab: "uu = Some a" "ver = Some b" by auto
  let ?outs = "[outvec (Some (le32 a)) 4, outvec (Some (image_version_bytes b)) 8]"
  obtain st os c' where r: "fwu_call v TFM_FWU_INSTALL_SID 1 (Some [invec (Some (le32 iid)) 4]) 1 (Some ?outs) 2 c = Some ((st, Some os), c')"
      "length os = 2" "session (spm c') = session (spm c)" "ns_lock_mutex_id c' = ns_lock_mutex_id c"
    by (rule fwu_call_done [OF assms, where sid = TFM_FWU_INSTALL_SID and ver = 1 and i = 1 and n = 2 and outs = "Some ?outs"
          and ins = "[invec (Some (le32 iid)) 4]"]) auto
  moreover from r(2) have "os \<noteq> []" by auto
  ultimately show ?thesis by (simp add: ab psa_fwu_install_ipc_def IOVEC_LEN_def balanced_def at_index_def)
qed

lemma query_balanced:
  assumes "ns_lock_mutex_id c \<noteq> Held"
  shows "\<exists>r c'. psa_fwu_query_ipc v iid info c = Some (r, c') \<and> balanced session c c'"
proof -
  let ?outs = "[outvec (map_option image_info_bytes info) 44]"
  obtain st os c' where r: "fwu_call v TFM_FWU_QUERY_SID 1 (Some [invec (Some (le32 iid)) 4]) 1 (Some ?outs) 1 c = Some ((st, Some os), c')"
      "length os = 1" "session (spm c') = session (spm c)" "ns_lock_mutex_id c' = ns_lock_mutex_id c"
    by (rule fwu_call_done [OF assms, where sid = TFM_FWU_QUERY_SID and ver = 1 and i = 1 and n = 1 and outs = "Some ?outs"
          and ins = "[invec (Some (le32 iid)) 4]"]) auto
  moreover from r(2) have "os \<noteq> []" by auto
  ultimately show ?thesis by (simp add: psa_fwu_query_ipc_def IOVEC_LEN_def balanced_def at_index_def)
qed

text \<open>The platform service goes the same way.\<close>

lemma reset_as_call:
  assumes "tfm_platform_system_reset v c = Some (st, c')"
  shows "\<exists>r. fwu_call v TFM_SP_PLATFORM_SYSTEM_RESET_SID 1 None 0 None 0 c = Some (r, c')"
proof -
  from assms obtain h c1 where con: "psa_connect v TFM_SP_PLATFORM_SYSTEM_RESET_SID 1 c = Some (h, c1)"
    by (auto simp: tfm_platform_system_reset_def)
  show ?thesis
  proof (cases "h \<le> 0")
    case True
    with assms con show ?thesis by (simp add: tfm_platform_system_reset_def fwu_call_def PSA_HANDLE_IS_VALID_def)
  next
    case False
    with assms con obtain a b c2 where "psa_call v h PSA_IPC_CALL None 0 None 0 c1 = Some ((a, b), c2)" "psa_close v h c2 = Some ((), c')"
      by (auto simp: tfm_platform_system_reset_def)
    with con False show ?thesis by (simp add: fwu_call_def PSA_HANDLE_IS_VALID_def)
  qed
qed

lemma ioctl_as_call:
  assumes "tfm_platform_ioctl v req input output c = Some (r, c')"
  shows "\<exists>ins i outs n r'. i \<le> 255 \<and> n \<le> 255 \<and> fwu_call v TFM_SP_PLATFORM_IOCTL_SID 1 ins i outs n c = Some (r', c')"
proof -
  let ?ins = "Some [invec (Some (le32 (of_int req))) 4, case input of None \<Rightarrow> invec None 0 | Some i \<Rightarrow> invec (in_base i) (in_size i)]"
  let ?i = "if input \<noteq> None then 2 else 1 :: u32" and ?n = "if output \<noteq> None then 1 else 0 :: u32"
  let ?outs = "map_option (\<lambda>p. [p]) output"
  from assms obtain h c1 where con: "psa_connect v TFM_SP_PLATFORM_IOCTL_SID 1 c = Some (h, c1)"
    by (auto simp: tfm_platform_ioctl_def Let_def)
  have "\<exists>r'. fwu_call v TFM_SP_PLATFORM_IOCTL_SID 1 ?ins ?i ?outs ?n c = Some (r', c')"
  proof (cases "h \<le> 0")
    case True
    with assms con show ?thesis by (simp add: tfm_platform_ioctl_def Let_def fwu_call_def PSA_HANDLE_IS_VALID_def)
  next
    case False
    with assms con obtain a b c2 where "psa_call v h PSA_IPC_CALL ?ins ?i ?outs ?n c1 = Some ((a, b), c2)" "psa_close v h c2 = Some ((), c')"
      unfolding tfm_platform_ioctl_def Let_def by (auto simp del: map_option_is_None)
    with con False show ?thesis by (simp add: fwu_call_def PSA_HANDLE_IS_VALID_def)
  qed
  moreover have "?i \<le> 255" "?n \<le> 255" by simp_all
  ultimately show ?thesis by blast
qed

end

text \<open>The update partition keeps the images; only the message of the write service changes one.\<close>

locale fwu_partition = connections +
  fixes img :: "'a \<Rightarrow> u32 \<Rightarrow> nat \<rightharpoonup> u8"
  assumes connect_img: "tfm_psa_connect_veneer v sid ver w = Some (h, w') \<Longrightarrow> img w' = img w"
    and close_img: "tfm_psa_close_veneer v k w = Some (u, w') \<Longrightarrow> img w' = img w"
    and write_img: "session w k = Some TFM_FWU_WRITE_SID \<Longrightarrow> unat n = length d \<Longrightarrow>
      tfm_psa_call_veneer v k (PARAM_PACK 0 3 0) (Some [invec (Some (le32 iid)) 4, invec (Some (le32 ofs)) 4, invec (Some d) n]) None w
        = Some ((st, os), w') \<Longrightarrow>
      (\<forall>j. j \<noteq> iid \<longrightarrow> img w' j = img w j) \<and>
      (st = PSA_SUCCESS \<and> length d \<le> PSA_FWU_MAX_BLOCK_SIZE \<longrightarrow> img w' = (img w)(iid := overlay (unat ofs) d (img w iid)))"

definition client_fwu :: "'w veneers \<Rightarrow> 'w ota_env \<Rightarrow> 'w ota_env" where
  "client_fwu v env = env
     \<lparr> psa_fwu_query := (\<lambda>iid w. case psa_fwu_query_ipc v iid (Some (image_info_of (replicate 44 0))) (at_rest w) of
          Some ((st, Some i), c) \<Rightarrow> (st, i) | _ \<Rightarrow> (PSA_ERROR_GENERIC_ERROR, image_info_of (replicate 44 0))),
       psa_fwu_write := (\<lambda>iid ofs d w. if length d < 2 ^ 32
          then ipc_status (psa_fwu_write_ipc v iid ofs (Some d) (of_nat (length d))) w else (PSA_ERROR_INVALID_ARGUMENT, w)),
       psa_fwu_install := (\<lambda>iid w. case psa_fwu_install_ipc v iid (Some 0) (Some (image_version_of (replicate 8 0))) (at_rest w) of
          Some ((st, _), c) \<Rightarrow> (st, spm c) | None \<Rightarrow> (PSA_ERROR_GENERIC_ERROR, w)),
       psa_fwu_abort := (\<lambda>iid. ipc_status (psa_fwu_abort_ipc v iid)),
       psa_fwu_accept := (\<lambda>iid. ipc_status (psa_fwu_accept_ipc v iid)),
       psa_fwu_request_reboot := (\<lambda>w. map_option (\<lambda>(st, c). spm c) (psa_fwu_request_reboot_ipc v (at_rest w))) \<rparr>"

context fwu_partition
begin

lemma write_served:
  assumes "psa_fwu_write_ipc v iid ofs (Some d) n c = Some (st, c')" and "unat n = length d"
  shows "(\<forall>j. j \<noteq> iid \<longrightarrow> img (spm c') j = img (spm c) j) \<and>
    (st = PSA_SUCCESS \<and> length d \<le> PSA_FWU_MAX_BLOCK_SIZE \<longrightarrow> img (spm c') = (img (spm c))(iid := overlay (unat ofs) d (img (spm c) iid)))"
proof -
  let ?in = "[invec (Some (le32 iid)) 4, invec (Some (le32 ofs)) 4, invec (Some d) n]"
  from assms(1) obtain os where r: "fwu_call v TFM_FWU_WRITE_SID 1 (Some ?in) 3 None 0 c = Some ((st, os), c')"
    by (auto simp: psa_fwu_write_ipc_def IOVEC_LEN_def)
  show ?thesis
  proof (rule fwu_call_steps [OF r])
    fix h w1
    assume "tfm_psa_connect_veneer v TFM_FWU_WRITE_SID 1 (spm c) = Some (h, w1)" "c' = c\<lparr>spm := w1\<rparr>" "st = PSA_ERROR_GENERIC_ERROR"
    with connect_img [of TFM_FWU_WRITE_SID 1 "spm c" h w1] show ?thesis by (simp add: PSA_ERROR_GENERIC_ERROR_def PSA_SUCCESS_def)
  next
    fix h w1 st1 w2 w3
    assume a: "tfm_psa_connect_veneer v TFM_FWU_WRITE_SID 1 (spm c) = Some (h, w1)" "session w1 (of_int h) = Some TFM_FWU_WRITE_SID"
      "tfm_psa_call_veneer v (of_int h) (PARAM_PACK 0 3 0) (Some ?in) None w1 = Some ((st1, os), w2)"
      "tfm_psa_close_veneer v (of_int h) w2 = Some ((), w3)" "c' = c\<lparr>spm := w3\<rparr>"
      "st = (if st1 = TFM_ERROR_INVALID_PARAMETER then PSA_ERROR_INVALID_ARGUMENT else st1)"
    have "st = PSA_SUCCESS \<Longrightarrow> st1 = PSA_SUCCESS"
      using a(6) by (auto simp: PSA_ERROR_INVALID_ARGUMENT_def PSA_SUCCESS_def split: if_splits)
    with write_img [OF a(2) assms(2) a(3)] connect_img [OF a(1)] close_img [OF a(4)] a(5) show ?thesis by simp
  qed simp_all
qed

end

sublocale fwu_partition \<subseteq> fwu_service "client_fwu v env" img
proof unfold_locales
  fix d iid ofs w w'
  assume "length d \<le> PSA_FWU_MAX_BLOCK_SIZE" and s: "psa_fwu_write (client_fwu v env) iid ofs d w = (PSA_SUCCESS, w')"
  moreover from this(1) have "length d < 2 ^ 32" by (simp add: PSA_FWU_MAX_BLOCK_SIZE_def)
  then have "unat (of_nat (length d) :: u32) = length d" by (simp add: unat_of_nat)
  ultimately show "img w' = (img w)(iid := overlay (unat ofs) d (img w iid))"
    using \<open>length d < 2 ^ 32\<close> write_served [of iid ofs d "of_nat (length d)" "at_rest w"]
    by (auto simp: client_fwu_def ipc_status_def PSA_ERROR_GENERIC_ERROR_def PSA_SUCCESS_def split: option.splits)
next
  fix iid ofs d w st w' j
  assume s: "psa_fwu_write (client_fwu v env) iid ofs d w = (st, w')" and j: "j \<noteq> iid"
  show "img w' j = img w j"
  proof (cases "length d < 2 ^ 32")
    case True
    then have "unat (of_nat (length d) :: u32) = length d" by (simp add: unat_of_nat)
    with s j True write_served [of iid ofs d "of_nat (length d)" "at_rest w"] show ?thesis
      by (auto simp: client_fwu_def ipc_status_def split: option.splits)
  next
    case False
    with s show ?thesis by (simp add: client_fwu_def)
  qed
qed


subsection \<open>A reference secure side\<close>

text \<open>
  A secure world with the two storage services, one connection at a time and the images of the update
  service, as their documentation describes them. It shows that the laws above can hold together.
\<close>

record secure_world =
  sw_its :: "u64 \<Rightarrow> bytes option"
  sw_ps :: "u64 \<Rightarrow> bytes option"
  sw_session :: "u32 option"
  sw_img :: "u32 \<Rightarrow> nat \<Rightarrow> u8 option"

definition kept_file :: "(u64 \<Rightarrow> bytes option) \<Rightarrow> u64 \<Rightarrow> bytes option" where
  "kept_file m u = map_option (take (2 ^ 32 - 1)) (m u)"

definition serve_files ::
  "u16 \<Rightarrow> psa_invec list \<Rightarrow> psa_outvec list option \<Rightarrow> (u64 \<Rightarrow> bytes option) \<Rightarrow>
   (int \<times> psa_outvec list option) \<times> (u64 \<Rightarrow> bytes option)" where
  "serve_files t ins outs m =
     (let u = of_le64 (the (in_base (ins ! 0))) in
      if t = 1001 then ((PSA_SUCCESS, outs), m(u \<mapsto> take (unat (in_size (ins ! 1))) (the (in_base (ins ! 1)))))
      else case kept_file m u of None \<Rightarrow> ((-140, outs), m)
      | Some f \<Rightarrow>
         if t = 1002 then
           let off = unat (of_le32 (the (in_base (ins ! 1)))); o0 = the outs ! 0;
               n = min (unat (out_size o0)) (length f - off)
           in if off > length f then ((PSA_ERROR_INVALID_ARGUMENT, outs), m)
              else ((PSA_SUCCESS, Some [outvec (Some (take n (drop off f) @ drop n (the (out_base o0)))) (of_nat n)]), m)
         else if t = 1003 then
           ((PSA_SUCCESS, Some [outvec (Some (storage_info_bytes \<lparr>si_capacity = of_nat (length f), si_size = of_nat (length f), si_flags = 0\<rparr>)) 12]), m)
         else if t = 1004 then ((PSA_SUCCESS, outs), m(u := None))
         else ((PSA_ERROR_PROGRAMMER_ERROR, outs), m))"

definition serve_session ::
  "u32 \<Rightarrow> psa_invec list option \<Rightarrow> psa_outvec list option \<Rightarrow> secure_world \<Rightarrow>
   ((int \<times> psa_outvec list option) \<times> secure_world) option" where
  "serve_session sid ins outs w =
     (case ins of None \<Rightarrow> None
      | Some is' \<Rightarrow>
         if sid = TFM_FWU_WRITE_SID \<and> length is' = 3
         then let iid = of_le32 (the (in_base (is' ! 0))); ofs = unat (of_le32 (the (in_base (is' ! 1))));
                  d = the (in_base (is' ! 2))
              in Some ((PSA_SUCCESS, outs), w\<lparr>sw_img := (sw_img w)(iid := overlay ofs d (sw_img w iid))\<rparr>)
         else Some ((PSA_SUCCESS, outs), w))"

definition reference_secure :: "secure_world veneers" where
  "reference_secure =
     \<lparr> tfm_psa_framework_version_veneer = (\<lambda>w. Some (0x0101, w)),
       tfm_psa_version_veneer = (\<lambda>sid w. Some (1, w)),
       tfm_psa_connect_veneer = (\<lambda>sid ver w. if sw_session w = None then Some (1, w\<lparr>sw_session := Some sid\<rparr>) else Some (-131, w)),
       tfm_psa_close_veneer = (\<lambda>k w. if k = 1 \<and> sw_session w \<noteq> None then Some ((), w\<lparr>sw_session := None\<rparr>) else None),
       tfm_psa_call_veneer = (\<lambda>k p ins outs w.
         if k = 0x40000102 then (let (r, m) = serve_files (packed_type p) (the ins) outs (sw_its w) in Some (r, w\<lparr>sw_its := m\<rparr>))
         else if k = 0x40000101 then (let (r, m) = serve_files (packed_type p) (the ins) outs (sw_ps w) in Some (r, w\<lparr>sw_ps := m\<rparr>))
         else if k = 1 then (case sw_session w of None \<Rightarrow> None | Some sid \<Rightarrow> serve_session sid ins outs w)
         else None) \<rparr>"

definition its_files :: "secure_world \<Rightarrow> u64 \<Rightarrow> bytes option" where "its_files w = kept_file (sw_its w)"
definition ps_files :: "secure_world \<Rightarrow> u64 \<Rightarrow> bytes option" where "ps_files w = kept_file (sw_ps w)"

lemma kept_file_small: "kept_file m u = Some f \<Longrightarrow> length f < 2 ^ 32"
proof -
  assume "kept_file m u = Some f"
  then obtain g where "f = take (2 ^ 32 - 1) g" by (auto simp: kept_file_def)
  then have "length f \<le> 2 ^ 32 - 1" unfolding length_take by simp
  then show ?thesis by simp
qed

lemma kept_file_update: "kept_file (m(u \<mapsto> take (unat (n :: u32)) d)) = (kept_file m)(u \<mapsto> take (unat n) d)"
proof -
  have "unat n < 2 ^ LENGTH(32)" by (rule unsigned_less)
  then have "unat n \<le> 2 ^ 32 - 1" by simp
  then have "take (2 ^ 32 - 1) (take (unat n) d) = take (unat n) d" unfolding take_take by (simp only: min_absorb2)
  then show ?thesis unfolding kept_file_def fun_eq_iff by (simp only: fun_upd_apply if_distrib [of "map_option _"] option.map) simp
qed

lemma take_min_length: "take (min n (length xs)) xs = take n xs"
  by (simp add: min_def)

lemma serve_files_laws:
  "serve_files 1001 [invec (Some (le64 u)) 8, invec (Some d) n, invec (Some (le32 fl)) 4] None m =
     ((PSA_SUCCESS, None), m(u \<mapsto> take (unat n) d))"
  "kept_file m u = Some f \<Longrightarrow> unat off \<le> length f \<Longrightarrow>
     serve_files 1002 [invec (Some (le64 u)) 8, invec (Some (le32 off)) 4] (Some [outvec (Some b) n]) m =
     ((PSA_SUCCESS, Some [outvec (Some (take (unat n) (drop (unat off) f) @ drop (min (unat n) (length f - unat off)) b))
         (of_nat (min (unat n) (length f - unat off)))]), m)"
  "kept_file m u = Some f \<Longrightarrow>
     serve_files 1003 [invec (Some (le64 u)) 8] (Some [outvec (Some b) 12]) m =
     ((PSA_SUCCESS, Some [outvec (Some (storage_info_bytes \<lparr>si_capacity = of_nat (length f), si_size = of_nat (length f), si_flags = 0\<rparr>)) 12]), m)"
  "kept_file m u = None \<Longrightarrow>
     serve_files 1003 [invec (Some (le64 u)) 8] (Some [outvec (Some b) 12]) m = ((-140, Some [outvec (Some b) 12]), m)"
proof -
  show "kept_file m u = Some f \<Longrightarrow> unat off \<le> length f \<Longrightarrow>
     serve_files 1002 [invec (Some (le64 u)) 8, invec (Some (le32 off)) 4] (Some [outvec (Some b) n]) m =
     ((PSA_SUCCESS, Some [outvec (Some (take (unat n) (drop (unat off) f) @ drop (min (unat n) (length f - unat off)) b))
         (of_nat (min (unat n) (length f - unat off)))]), m)"
    using take_min_length [of "unat n" "drop (unat off) f"] by (simp add: serve_files_def Let_def not_less)
qed (simp_all add: serve_files_def)

interpretation secure_its: its_partition reference_secure its_files first_fit n for n
proof unfold_locales
  fix n :: u32 and d :: bytes and u fl w
  show "\<exists>st w'. tfm_psa_call_veneer reference_secure (of_int TFM_INTERNAL_TRUSTED_STORAGE_SERVICE_HANDLE) (PARAM_PACK 1001 3 0)
      (Some [invec (Some (le64 u)) 8, invec (Some d) n, invec (Some (le32 fl)) 4]) None w = Some ((st, None), w') \<and>
      its_files w' = (if st = PSA_SUCCESS then (its_files w)(u \<mapsto> take (unat n) d) else its_files w)"
    by (simp add: reference_secure_def TFM_INTERNAL_TRUSTED_STORAGE_SERVICE_HANDLE_def packed serve_files_laws its_files_def kept_file_update)
qed (auto simp: reference_secure_def TFM_INTERNAL_TRUSTED_STORAGE_SERVICE_HANDLE_def packed serve_files_laws its_files_def
    first_fit_fresh PSA_SUCCESS_def dest: kept_file_small)


interpretation secure_ps: ps_partition reference_secure ps_files env for env
proof unfold_locales
  fix n :: u32 and d :: bytes and u fl w
  show "\<exists>st w'. tfm_psa_call_veneer reference_secure (of_int TFM_PROTECTED_STORAGE_SERVICE_HANDLE) (PARAM_PACK 1001 3 0)
      (Some [invec (Some (le64 u)) 8, invec (Some d) n, invec (Some (le32 fl)) 4]) None w = Some ((st, None), w') \<and>
      ps_files w' = (if st = PSA_SUCCESS then (ps_files w)(u \<mapsto> take (unat n) d) else ps_files w)"
    by (simp add: reference_secure_def TFM_PROTECTED_STORAGE_SERVICE_HANDLE_def packed serve_files_laws ps_files_def kept_file_update)
qed (auto simp: reference_secure_def TFM_PROTECTED_STORAGE_SERVICE_HANDLE_def packed serve_files_laws ps_files_def
    PSA_SUCCESS_def dest: kept_file_small)

definition sw_sessions :: "secure_world \<Rightarrow> u32 \<Rightarrow> u32 option" where
  "sw_sessions w k = (if k = 1 then sw_session w else None)"

interpretation secure_fwu: fwu_partition reference_secure sw_sessions sw_img
proof unfold_locales
  fix w k p ins and outs :: "psa_outvec list option"
  assume "sw_sessions w k \<noteq> None"
  then obtain sid where "k = 1" "sw_session w = Some sid" by (auto simp: sw_sessions_def split: if_splits)
  then show "\<exists>st outs' w'. tfm_psa_call_veneer reference_secure k p (Some ins) outs w = Some ((st, outs'), w') \<and>
      map_option length outs' = map_option length outs"
    by (simp add: reference_secure_def serve_session_def Let_def)
qed (auto simp: reference_secure_def sw_sessions_def serve_session_def fun_eq_iff Let_def PSA_SUCCESS_def split: if_splits option.splits)

subsection \<open>Properties\<close>

text \<open>
  C36: a call of the framework. When the kind of message and the two counts fit their fields they
  arrive at the secure side as they were given, with the vectors, and the lock is as before; a caller that
  holds the lock never returns. When they do not fit, the secure side is not called at all.
\<close>

theorem psa_call_delivers:
  "(-32768 \<le> type \<and> type \<le> 32767 \<and> i \<le> 255 \<and> n \<le> 255 \<longrightarrow>
     (\<exists>p. packed_type p = of_int type \<and> packed_in_len p = i \<and> packed_out_len p = n \<and>
        psa_call v h type ins i outs n c =
          (if ns_lock_mutex_id c = Held then None
           else map_option (\<lambda>(r, w). (r, c\<lparr>spm := w\<rparr>)) (tfm_psa_call_veneer v (of_int h) p ins outs (spm c))))) \<and>
   (\<not> (-32768 \<le> type \<and> type \<le> 32767 \<and> i \<le> 255 \<and> n \<le> 255) \<longrightarrow>
     psa_call v h type ins i outs n c = Some ((PSA_ERROR_PROGRAMMER_ERROR, outs), c))"
proof (intro conjI impI)
  assume a: "-32768 \<le> type \<and> type \<le> 32767 \<and> i \<le> 255 \<and> n \<le> 255"
  then have fit: "\<not> 255 < i" "\<not> 255 < n" "\<not> 32767 < type" "\<not> type < -32768" by auto
  from a show "\<exists>p. packed_type p = of_int type \<and> packed_in_len p = i \<and> packed_out_len p = n \<and>
        psa_call v h type ins i outs n c =
          (if ns_lock_mutex_id c = Held then None
           else map_option (\<lambda>(r, w). (r, c\<lparr>spm := w\<rparr>)) (tfm_psa_call_veneer v (of_int h) p ins outs (spm c)))"
    by (intro exI [of _ "PARAM_PACK type i n"]) (simp add: packed psa_call_def dispatch_result fit)
next
  assume "\<not> (-32768 \<le> type \<and> type \<le> 32767 \<and> i \<le> 255 \<and> n \<le> 255)"
  then show "psa_call v h type ins i outs n c = Some ((PSA_ERROR_PROGRAMMER_ERROR, outs), c)"
    by (auto simp: psa_call_def)
qed

theorem psa_call_delivers_witness:
  "\<exists>p. packed_type p = 1003 \<and> packed_in_len p = 1 \<and> packed_out_len p = 1 \<and>
     psa_call reference_secure 0x40000102 1003 (Some [invec (Some (le64 5)) 8]) 1 (Some [outvec (Some (replicate 12 0)) 12]) 1
       (at_rest \<lparr>sw_its = [5 \<mapsto> [1, 2]], sw_ps = Map.empty, sw_session = None, sw_img = \<lambda>i. Map.empty\<rparr>) =
     map_option (\<lambda>(r, w). (r, at_rest w))
       (tfm_psa_call_veneer reference_secure 0x40000102 p (Some [invec (Some (le64 5)) 8]) (Some [outvec (Some (replicate 12 0)) 12])
         \<lparr>sw_its = [5 \<mapsto> [1, 2]], sw_ps = Map.empty, sw_session = None, sw_img = \<lambda>i. Map.empty\<rparr>)"
  using psa_call_delivers [where type = 1003 and i = 1 and n = 1 and v = reference_secure and h = "0x40000102"
      and c = "at_rest \<lparr>sw_its = [5 \<mapsto> [1, 2]], sw_ps = Map.empty, sw_session = None, sw_img = \<lambda>i. Map.empty\<rparr>"]
  by (simp add: at_rest_def)

text \<open>
  C7: what a commit that reports success has stored. The key-value store works on the calls of the
  client side; when the storage partition behind them keeps its files as documented, a commit returns, and
  after success every value is a file of the secure side, its header and its bytes, under the
  identifier of its key.
\<close>

theorem kv_commit_in_secure_storage:
  assumes "its_partition v files (kvAlloc env)" and "kvImpl env = psa_its_impl (kvAlloc env) (client_its v) (CS_NUM_KEYS env)"
    and "kvMutexMemory env" and "enough_memory (kvAlloc env) (CS_NUM_KEYS env)" and "\<forall>d \<in> set (kvStoreDefaults env). default_ok d"
    and "its_wf (files_of files) (CS_NUM_KEYS env) w0" and "kv_reachable env w0 kv"
  shows "\<exists>ok kv1. KVStore_xCommitChanges (kvImpl env) kv = Some (ok, kv1) \<and>
    (ok \<longrightarrow> (\<forall>k t x. k < CS_NUM_KEYS env \<longrightarrow> cached kv k = Some (t, x) \<longrightarrow>
       files (kvNv kv1) (of_nat (xKeyToUID k)) = Some (header_bytes t (length x) @ x)))"
proof -
  have "psa_its (kvAlloc env) (client_its v) (files_of files)"
    by (rule its_partition.client_provides [OF assms(1)])
  then have "psa_env (client_its v) (files_of files) env" using assms(2-5) by (simp add: psa_env_def)
  note nb = psa_env_backend [OF this]
  from nv_backend.reachable_good [OF nb(1) assms(7) nb(2) assms(6)]
  have sy: "nv_backend.synced (CS_NUM_KEYS env) (its_wf (files_of files) (CS_NUM_KEYS env)) (its_stored (files_of files)) kv"
    by (simp add: nv_backend.kv_good_def [OF nb(1)])
  from nv_backend.commit_correct [OF nb(1) sy] obtain ok kv1 where
    c: "KVStore_xCommitChanges (kvImpl env) kv = Some (ok, kv1)"
      "ok \<longrightarrow> (\<forall>k < CS_NUM_KEYS env. its_stored (files_of files) (kvNv kv1) k = cached kv k)"
    and sy1: "nv_backend.synced (CS_NUM_KEYS env) (its_wf (files_of files) (CS_NUM_KEYS env)) (its_stored (files_of files)) kv1" by blast
  have wf: "its_wf (files_of files) (CS_NUM_KEYS env) (kvNv kv1)"
    using sy1 by (simp add: nv_backend.synced_def [OF nb(1)])
  have "files (kvNv kv1) (of_nat (xKeyToUID k)) = Some (header_bytes t (length x) @ x)"
    if "ok" "k < CS_NUM_KEYS env" "cached kv k = Some (t, x)" for k t x
    using its_stored_file(2) [OF wf that(2)] c(2) that by (auto simp: files_of_def split: if_splits)
  with c(1) show ?thesis by blast
qed


abbreviation blank_secure :: secure_world where
  "blank_secure \<equiv> \<lparr>sw_its = Map.empty, sw_ps = Map.empty, sw_session = None, sw_img = \<lambda>i. Map.empty\<rparr>"

theorem kv_commit_in_secure_storage_witness:
  "\<exists>kv ok kv1. kv_reachable (shipped_env (psa_its_impl first_fit (client_its reference_secure) 6)) blank_secure kv \<and>
     cached kv CS_TIME_HWM_S_1970 = Some (KV_TYPE_UINT32, le32 77) \<and>
     KVStore_xCommitChanges (psa_its_impl first_fit (client_its reference_secure) 6) kv = Some (ok, kv1) \<and>
     (ok \<longrightarrow> its_files (kvNv kv1) (of_nat (xKeyToUID CS_TIME_HWM_S_1970)) = Some (header_bytes KV_TYPE_UINT32 4 @ le32 77))"
proof -
  let ?env = "shipped_env (psa_its_impl first_fit (client_its reference_secure) 6)"
  have wf: "its_wf (files_of its_files) (CS_NUM_KEYS ?env) blank_secure"
    by (simp add: its_wf_def files_of_def its_files_def kept_file_def)
  have ip: "its_partition reference_secure its_files (kvAlloc ?env)"
    by (simp add: shipped_env_def secure_its.its_partition_axioms)
  have impl: "kvImpl ?env = psa_its_impl (kvAlloc ?env) (client_its reference_secure) (CS_NUM_KEYS ?env)"
    by (simp add: shipped_env_def shipped_defaults(1))
  have rest: "kvMutexMemory ?env" "enough_memory (kvAlloc ?env) (CS_NUM_KEYS ?env)" "\<forall>d \<in> set (kvStoreDefaults ?env). default_ok d"
    using first_fit_room shipped_ready [of undefined undefined]
    by (auto simp: kv_ready_def shipped_env_def shipped_defaults(1) enough_memory_def)
  have penv: "psa_env (client_its reference_secure) (files_of its_files) ?env"
    using its_partition.client_provides [OF ip] impl rest by (simp add: psa_env_def)
  note nb = psa_env_backend [OF penv]
  from nv_backend.init_correct [OF nb, OF wf] obtain kv0 where
    init: "KVStore_init ?env (booted (CS_NUM_KEYS ?env) blank_secure) = Some kv0" "kv_ready ?env kv0" by blast
  have "key_has_type ?env CS_TIME_HWM_S_1970 KV_TYPE_UINT32" "fresh_allocator (kvAlloc ?env)"
    by (simp_all add: key_has_type_def shipped_env_def KV_STORE_DEFAULTS_def CS_TIME_HWM_S_1970_def
        KV_DFLT_UINT32_def first_fit_fresh)
  from write_word_correct [OF init(2) this, of 77] obtain kv where
    set: "KVStore_setUInt32 ?env CS_TIME_HWM_S_1970 77 kv0 = Some (True, kv)"
      "cached kv = (cached kv0)(CS_TIME_HWM_S_1970 \<mapsto> (KV_TYPE_UINT32, le32 77))"
    by (auto simp: KVStore_setUInt32_def)
  have reach: "kv_reachable ?env blank_secure kv"
    by (rule kv_reachable.setUInt32 [OF power_up [OF init(1)] set(1)])
  have key: "CS_TIME_HWM_S_1970 < CS_NUM_KEYS ?env"
    by (simp add: CS_TIME_HWM_S_1970_def shipped_env_def shipped_defaults(1))
  have i6: "kvImpl ?env = psa_its_impl first_fit (client_its reference_secure) 6" by (simp add: shipped_env_def)
  from kv_commit_in_secure_storage [OF ip impl rest wf reach] obtain ok kv1 where
    "KVStore_xCommitChanges (kvImpl ?env) kv = Some (ok, kv1)"
    "ok \<longrightarrow> (\<forall>k t x. k < CS_NUM_KEYS ?env \<longrightarrow> cached kv k = Some (t, x) \<longrightarrow>
       its_files (kvNv kv1) (of_nat (xKeyToUID k)) = Some (header_bytes t (length x) @ x))" by blast
  moreover have "cached kv CS_TIME_HWM_S_1970 = Some (KV_TYPE_UINT32, le32 77)" using set(2) by simp
  ultimately show ?thesis using reach key unfolding i6 by (metis length_le32)
qed


text \<open>
  C16: the update and platform services leave no connection behind. Each of the functions connects,
  calls and closes: whatever the secure side answers, afterwards the caller has the connections it had before
  and the lock is as it was. The functions that pass a vector return.
\<close>

theorem fwu_connections_balanced:
  assumes "connections v session" and "ns_lock_mutex_id c \<noteq> Held"
  shows "(\<exists>st c'. psa_fwu_write_ipc v iid ofs blk n c = Some (st, c') \<and> balanced session c c') \<and>
    (\<exists>r c'. psa_fwu_install_ipc v iid uu ver c = Some (r, c') \<and> balanced session c c') \<and>
    (\<exists>st c'. psa_fwu_abort_ipc v iid c = Some (st, c') \<and> balanced session c c') \<and>
    (\<exists>r c'. psa_fwu_query_ipc v iid info c = Some (r, c') \<and> balanced session c c') \<and>
    (\<exists>st c'. psa_fwu_accept_ipc v iid c = Some (st, c') \<and> balanced session c c') \<and>
    keeps (psa_fwu_request_reboot_ipc v c) (\<lambda>(st, c'). balanced session c c') \<and>
    keeps (tfm_platform_system_reset v c) (\<lambda>(st, c'). balanced session c c') \<and>
    keeps (tfm_platform_ioctl v req input output c) (\<lambda>(r, c'). balanced session c c')"
proof (intro conjI)
  note fin = connections.fwu_call_done [OF assms] and bal = connections.fwu_call_balanced [OF assms(1)]
  show "\<exists>st c'. psa_fwu_write_ipc v iid ofs blk n c = Some (st, c') \<and> balanced session c c'"
    by (rule fin [where sid = TFM_FWU_WRITE_SID and ver = 1 and i = 3 and n = 0 and outs = None
          and ins = "[invec (Some (le32 iid)) 4, invec (Some (le32 ofs)) 4, invec blk n]"])
      (simp_all add: psa_fwu_write_ipc_def IOVEC_LEN_def balanced_def)
  show "\<exists>r c'. psa_fwu_install_ipc v iid uu ver c = Some (r, c') \<and> balanced session c c'"
    by (rule connections.install_balanced [OF assms])
  show "\<exists>st c'. psa_fwu_abort_ipc v iid c = Some (st, c') \<and> balanced session c c'"
    by (rule fin [where sid = TFM_FWU_ABORT_SID and ver = 1 and i = 1 and n = 0 and outs = None and ins = "[invec (Some (le32 iid)) 4]"])
      (simp_all add: psa_fwu_abort_ipc_def IOVEC_LEN_def balanced_def)
  show "\<exists>r c'. psa_fwu_query_ipc v iid info c = Some (r, c') \<and> balanced session c c'"
    by (rule connections.query_balanced [OF assms])
  show "\<exists>st c'. psa_fwu_accept_ipc v iid c = Some (st, c') \<and> balanced session c c'"
    by (rule fin [where sid = TFM_FWU_ACCEPT_SID and ver = 1 and i = 1 and n = 0 and outs = None and ins = "[invec (Some (le32 iid)) 4]"])
      (simp_all add: psa_fwu_accept_ipc_def IOVEC_LEN_def balanced_def)
  show "keeps (psa_fwu_request_reboot_ipc v c) (\<lambda>(st, c'). balanced session c c')"
    by (rule keeps_pairI) (auto simp: psa_fwu_request_reboot_ipc_def balanced_def dest!: keepsD [OF bal, rotated 2])
  show "keeps (tfm_platform_system_reset v c) (\<lambda>(st, c'). balanced session c c')"
    by (rule keeps_pairI) (auto simp: balanced_def dest!: connections.reset_as_call [OF assms(1)] keepsD [OF bal, rotated 2])
  show "keeps (tfm_platform_ioctl v req input output c) (\<lambda>(r, c'). balanced session c c')"
    by (rule keeps_pairI) (auto simp: balanced_def dest!: connections.ioctl_as_call [OF assms(1)] keepsD [OF bal, rotated 2])
qed

theorem fwu_connections_balanced_witness:
  "\<exists>st c'. psa_fwu_write_ipc reference_secure 0x201 0 (Some [7, 8]) 2 (at_rest blank_secure) = Some (st, c') \<and>
     balanced sw_sessions (at_rest blank_secure) c'"
  using fwu_connections_balanced [OF secure_fwu.connections_axioms, of "at_rest blank_secure"] by (simp add: conj_ac) 

end
