(* ===== verification/PsaCrypto.thy ===== *)
theory PsaCrypto
  imports PsaServices
begin

text \<open>
  The client side of the crypto service, tfm_crypto_ipc_api.c. Every function packs its numbers into one
  structure (tfm_crypto_defs.h), puts that structure and its buffers into vectors and makes one call.
  The result of a function is the status, then what its pointers receive in the order of the vectors, then
  the client. A pointer that may be \<open>NULL\<close> is an option; storing through a null pointer has no meaning.
\<close>

subsection \<open>tfm_crypto_defs.h\<close>

text \<open>The service identifiers, numbered from zero.\<close>

datatype (plugins only: code) crypto_sid =
    TFM_CRYPTO_GET_KEY_ATTRIBUTES_SID | TFM_CRYPTO_RESET_KEY_ATTRIBUTES_SID | TFM_CRYPTO_OPEN_KEY_SID
  | TFM_CRYPTO_CLOSE_KEY_SID | TFM_CRYPTO_IMPORT_KEY_SID | TFM_CRYPTO_DESTROY_KEY_SID
  | TFM_CRYPTO_EXPORT_KEY_SID | TFM_CRYPTO_EXPORT_PUBLIC_KEY_SID | TFM_CRYPTO_PURGE_KEY_SID
  | TFM_CRYPTO_COPY_KEY_SID | TFM_CRYPTO_HASH_COMPUTE_SID | TFM_CRYPTO_HASH_COMPARE_SID
  | TFM_CRYPTO_HASH_SETUP_SID | TFM_CRYPTO_HASH_UPDATE_SID | TFM_CRYPTO_HASH_FINISH_SID
  | TFM_CRYPTO_HASH_VERIFY_SID | TFM_CRYPTO_HASH_ABORT_SID | TFM_CRYPTO_HASH_CLONE_SID
  | TFM_CRYPTO_MAC_COMPUTE_SID | TFM_CRYPTO_MAC_VERIFY_SID | TFM_CRYPTO_MAC_SIGN_SETUP_SID
  | TFM_CRYPTO_MAC_VERIFY_SETUP_SID | TFM_CRYPTO_MAC_UPDATE_SID | TFM_CRYPTO_MAC_SIGN_FINISH_SID
  | TFM_CRYPTO_MAC_VERIFY_FINISH_SID | TFM_CRYPTO_MAC_ABORT_SID | TFM_CRYPTO_CIPHER_ENCRYPT_SID
  | TFM_CRYPTO_CIPHER_DECRYPT_SID | TFM_CRYPTO_CIPHER_ENCRYPT_SETUP_SID | TFM_CRYPTO_CIPHER_DECRYPT_SETUP_SID
  | TFM_CRYPTO_CIPHER_GENERATE_IV_SID | TFM_CRYPTO_CIPHER_SET_IV_SID | TFM_CRYPTO_CIPHER_UPDATE_SID
  | TFM_CRYPTO_CIPHER_FINISH_SID | TFM_CRYPTO_CIPHER_ABORT_SID | TFM_CRYPTO_AEAD_ENCRYPT_SID
  | TFM_CRYPTO_AEAD_DECRYPT_SID | TFM_CRYPTO_AEAD_ENCRYPT_SETUP_SID | TFM_CRYPTO_AEAD_DECRYPT_SETUP_SID
  | TFM_CRYPTO_AEAD_GENERATE_NONCE_SID | TFM_CRYPTO_AEAD_SET_NONCE_SID | TFM_CRYPTO_AEAD_SET_LENGTHS_SID
  | TFM_CRYPTO_AEAD_UPDATE_AD_SID | TFM_CRYPTO_AEAD_UPDATE_SID | TFM_CRYPTO_AEAD_FINISH_SID
  | TFM_CRYPTO_AEAD_VERIFY_SID | TFM_CRYPTO_AEAD_ABORT_SID | TFM_CRYPTO_SIGN_MESSAGE_SID
  | TFM_CRYPTO_VERIFY_MESSAGE_SID | TFM_CRYPTO_SIGN_HASH_SID | TFM_CRYPTO_VERIFY_HASH_SID
  | TFM_CRYPTO_ASYMMETRIC_ENCRYPT_SID | TFM_CRYPTO_ASYMMETRIC_DECRYPT_SID | TFM_CRYPTO_KEY_DERIVATION_SETUP_SID
  | TFM_CRYPTO_KEY_DERIVATION_GET_CAPACITY_SID | TFM_CRYPTO_KEY_DERIVATION_SET_CAPACITY_SID | TFM_CRYPTO_KEY_DERIVATION_INPUT_BYTES_SID
  | TFM_CRYPTO_KEY_DERIVATION_INPUT_KEY_SID | TFM_CRYPTO_KEY_DERIVATION_KEY_AGREEMENT_SID | TFM_CRYPTO_KEY_DERIVATION_OUTPUT_BYTES_SID
  | TFM_CRYPTO_KEY_DERIVATION_OUTPUT_KEY_SID | TFM_CRYPTO_KEY_DERIVATION_ABORT_SID | TFM_CRYPTO_RAW_KEY_AGREEMENT_SID
  | TFM_CRYPTO_GENERATE_RANDOM_SID | TFM_CRYPTO_GENERATE_KEY_SID

primrec sid_code :: "crypto_sid \<Rightarrow> u32" where
  "sid_code TFM_CRYPTO_GET_KEY_ATTRIBUTES_SID = 0"
| "sid_code TFM_CRYPTO_RESET_KEY_ATTRIBUTES_SID = 1"
| "sid_code TFM_CRYPTO_OPEN_KEY_SID = 2"
| "sid_code TFM_CRYPTO_CLOSE_KEY_SID = 3"
| "sid_code TFM_CRYPTO_IMPORT_KEY_SID = 4"
| "sid_code TFM_CRYPTO_DESTROY_KEY_SID = 5"
| "sid_code TFM_CRYPTO_EXPORT_KEY_SID = 6"
| "sid_code TFM_CRYPTO_EXPORT_PUBLIC_KEY_SID = 7"
| "sid_code TFM_CRYPTO_PURGE_KEY_SID = 8"
| "sid_code TFM_CRYPTO_COPY_KEY_SID = 9"
| "sid_code TFM_CRYPTO_HASH_COMPUTE_SID = 10"
| "sid_code TFM_CRYPTO_HASH_COMPARE_SID = 11"
| "sid_code TFM_CRYPTO_HASH_SETUP_SID = 12"
| "sid_code TFM_CRYPTO_HASH_UPDATE_SID = 13"
| "sid_code TFM_CRYPTO_HASH_FINISH_SID = 14"
| "sid_code TFM_CRYPTO_HASH_VERIFY_SID = 15"
| "sid_code TFM_CRYPTO_HASH_ABORT_SID = 16"
| "sid_code TFM_CRYPTO_HASH_CLONE_SID = 17"
| "sid_code TFM_CRYPTO_MAC_COMPUTE_SID = 18"
| "sid_code TFM_CRYPTO_MAC_VERIFY_SID = 19"
| "sid_code TFM_CRYPTO_MAC_SIGN_SETUP_SID = 20"
| "sid_code TFM_CRYPTO_MAC_VERIFY_SETUP_SID = 21"
| "sid_code TFM_CRYPTO_MAC_UPDATE_SID = 22"
| "sid_code TFM_CRYPTO_MAC_SIGN_FINISH_SID = 23"
| "sid_code TFM_CRYPTO_MAC_VERIFY_FINISH_SID = 24"
| "sid_code TFM_CRYPTO_MAC_ABORT_SID = 25"
| "sid_code TFM_CRYPTO_CIPHER_ENCRYPT_SID = 26"
| "sid_code TFM_CRYPTO_CIPHER_DECRYPT_SID = 27"
| "sid_code TFM_CRYPTO_CIPHER_ENCRYPT_SETUP_SID = 28"
| "sid_code TFM_CRYPTO_CIPHER_DECRYPT_SETUP_SID = 29"
| "sid_code TFM_CRYPTO_CIPHER_GENERATE_IV_SID = 30"
| "sid_code TFM_CRYPTO_CIPHER_SET_IV_SID = 31"
| "sid_code TFM_CRYPTO_CIPHER_UPDATE_SID = 32"
| "sid_code TFM_CRYPTO_CIPHER_FINISH_SID = 33"
| "sid_code TFM_CRYPTO_CIPHER_ABORT_SID = 34"
| "sid_code TFM_CRYPTO_AEAD_ENCRYPT_SID = 35"
| "sid_code TFM_CRYPTO_AEAD_DECRYPT_SID = 36"
| "sid_code TFM_CRYPTO_AEAD_ENCRYPT_SETUP_SID = 37"
| "sid_code TFM_CRYPTO_AEAD_DECRYPT_SETUP_SID = 38"
| "sid_code TFM_CRYPTO_AEAD_GENERATE_NONCE_SID = 39"
| "sid_code TFM_CRYPTO_AEAD_SET_NONCE_SID = 40"
| "sid_code TFM_CRYPTO_AEAD_SET_LENGTHS_SID = 41"
| "sid_code TFM_CRYPTO_AEAD_UPDATE_AD_SID = 42"
| "sid_code TFM_CRYPTO_AEAD_UPDATE_SID = 43"
| "sid_code TFM_CRYPTO_AEAD_FINISH_SID = 44"
| "sid_code TFM_CRYPTO_AEAD_VERIFY_SID = 45"
| "sid_code TFM_CRYPTO_AEAD_ABORT_SID = 46"
| "sid_code TFM_CRYPTO_SIGN_MESSAGE_SID = 47"
| "sid_code TFM_CRYPTO_VERIFY_MESSAGE_SID = 48"
| "sid_code TFM_CRYPTO_SIGN_HASH_SID = 49"
| "sid_code TFM_CRYPTO_VERIFY_HASH_SID = 50"
| "sid_code TFM_CRYPTO_ASYMMETRIC_ENCRYPT_SID = 51"
| "sid_code TFM_CRYPTO_ASYMMETRIC_DECRYPT_SID = 52"
| "sid_code TFM_CRYPTO_KEY_DERIVATION_SETUP_SID = 53"
| "sid_code TFM_CRYPTO_KEY_DERIVATION_GET_CAPACITY_SID = 54"
| "sid_code TFM_CRYPTO_KEY_DERIVATION_SET_CAPACITY_SID = 55"
| "sid_code TFM_CRYPTO_KEY_DERIVATION_INPUT_BYTES_SID = 56"
| "sid_code TFM_CRYPTO_KEY_DERIVATION_INPUT_KEY_SID = 57"
| "sid_code TFM_CRYPTO_KEY_DERIVATION_KEY_AGREEMENT_SID = 58"
| "sid_code TFM_CRYPTO_KEY_DERIVATION_OUTPUT_BYTES_SID = 59"
| "sid_code TFM_CRYPTO_KEY_DERIVATION_OUTPUT_KEY_SID = 60"
| "sid_code TFM_CRYPTO_KEY_DERIVATION_ABORT_SID = 61"
| "sid_code TFM_CRYPTO_RAW_KEY_AGREEMENT_SID = 62"
| "sid_code TFM_CRYPTO_GENERATE_RANDOM_SID = 63"
| "sid_code TFM_CRYPTO_GENERATE_KEY_SID = 64"

text \<open>
  The structure \<open>tfm_crypto_pack_iovec\<close> and its 52 bytes; the two bytes of padding after \<open>step\<close>, which
  no one reads, are zero here.
\<close>

record pack_iovec =
  iov_srv_id :: u32
  iov_step :: u16
  iov_key_id :: u32
  iov_alg :: u32
  iov_op_handle :: u32
  iov_capacity :: u32
  iov_ad_length :: u32
  iov_plaintext_length :: u32
  iov_nonce :: bytes
  iov_nonce_length :: u32

definition TFM_CRYPTO_MAX_NONCE_LENGTH :: nat where "TFM_CRYPTO_MAX_NONCE_LENGTH = 16"

definition iov_bytes :: "pack_iovec \<Rightarrow> bytes" where
  "iov_bytes i = le32 (iov_srv_id i) @ le16 (iov_step i) @ [0, 0] @ le32 (iov_key_id i) @ le32 (iov_alg i) @
     le32 (iov_op_handle i) @ le32 (iov_capacity i) @ le32 (iov_ad_length i) @ le32 (iov_plaintext_length i) @
     iov_nonce i @ le32 (iov_nonce_length i)"

text \<open>An initialiser sets the other members to zero.\<close>

definition iov_init :: "crypto_sid \<Rightarrow> pack_iovec" where
  "iov_init sid = \<lparr>iov_srv_id = sid_code sid, iov_step = 0, iov_key_id = 0, iov_alg = 0, iov_op_handle = 0,
     iov_capacity = 0, iov_ad_length = 0, iov_plaintext_length = 0,
     iov_nonce = replicate TFM_CRYPTO_MAX_NONCE_LENGTH 0, iov_nonce_length = 0\<rparr>"

definition iov_vec :: "pack_iovec \<Rightarrow> psa_invec" where
  "iov_vec iov = invec (Some (iov_bytes iov)) 52"

text \<open>The client's view of the attributes of a key, psa/crypto_client_struct.h: twenty bytes.\<close>

record psa_key_attributes =
  at_type :: u16
  at_bits :: u16
  at_lifetime :: u32
  at_id :: u32
  at_usage :: u32
  at_alg :: u32

definition attributes_bytes :: "psa_key_attributes \<Rightarrow> bytes" where
  "attributes_bytes a = le16 (at_type a) @ le16 (at_bits a) @ le32 (at_lifetime a) @ le32 (at_id a) @ le32 (at_usage a) @ le32 (at_alg a)"

definition attributes_of :: "bytes \<Rightarrow> psa_key_attributes" where
  "attributes_of b = \<lparr>at_type = of_le16 (take 2 b), at_bits = of_le16 (take 2 (drop 2 b)), at_lifetime = of_le32 (take 4 (drop 4 b)),
     at_id = of_le32 (take 4 (drop 8 b)), at_usage = of_le32 (take 4 (drop 12 b)), at_alg = of_le32 (take 4 (drop 16 b))\<rparr>"

lemma attributes_of_bytes [simp]: "attributes_of (attributes_bytes a) = a"
  by (simp add: attributes_of_def attributes_bytes_def)

subsection \<open>The call\<close>

definition TFM_CRYPTO_HANDLE :: int where "TFM_CRYPTO_HANDLE = 0x40000100"

definition API_DISPATCH ::
  "'w veneers \<Rightarrow> psa_invec list \<Rightarrow> psa_outvec list \<Rightarrow> 'w client \<Rightarrow> ((int \<times> psa_outvec list) \<times> 'w client) option" where
  "API_DISPATCH v in_vec out_vec c = call_vecs v TFM_CRYPTO_HANDLE PSA_IPC_CALL in_vec out_vec c"

definition API_DISPATCH_NO_OUTVEC ::
  "'w veneers \<Rightarrow> psa_invec list \<Rightarrow> 'w client \<Rightarrow> (int \<times> 'w client) option" where
  "API_DISPATCH_NO_OUTVEC v in_vec c = call_no_outvec v TFM_CRYPTO_HANDLE PSA_IPC_CALL in_vec c"

text \<open>The calls whose counts depend on which pointers are null pass fewer vectors than the arrays have.\<close>

definition crypto_call ::
  "'w veneers \<Rightarrow> psa_invec list \<Rightarrow> u32 \<Rightarrow> psa_outvec list \<Rightarrow> u32 \<Rightarrow> 'w client \<Rightarrow> ((int \<times> psa_outvec list) \<times> 'w client) option" where
  "crypto_call v in_vec in_len out_vec out_len c = do {
     ((status, outs), c) \<leftarrow> psa_call v TFM_CRYPTO_HANDLE PSA_IPC_CALL (Some in_vec) in_len (Some out_vec) out_len c;
     outs \<leftarrow> outs;
     Some ((status, outs), c) }"

subsection \<open>Keys\<close>

definition psa_crypto_init :: int where "psa_crypto_init = PSA_SUCCESS"

definition psa_open_key_ipc ::
  "'w veneers \<Rightarrow> u32 \<Rightarrow> u32 option \<Rightarrow> 'w client \<Rightarrow>
   ((int \<times> u32 option) \<times> 'w client) option" where
  "psa_open_key_ipc v id' key c =
     do {
       let iov = iov_init TFM_CRYPTO_OPEN_KEY_SID;
       ((status, out_vec), c) \<leftarrow> API_DISPATCH v [iov_vec iov, invec (Some (le32 id')) 4] [outvec (map_option le32 key) 4] c;
       o0 \<leftarrow> at_index out_vec 0;
       Some ((status, map_option of_le32 (out_base o0)), c) }"

definition psa_close_key_ipc ::
  "'w veneers \<Rightarrow> u32 \<Rightarrow> 'w client \<Rightarrow>
   (int \<times> 'w client) option" where
  "psa_close_key_ipc v key c =
     do {
       let iov = (iov_init TFM_CRYPTO_CLOSE_KEY_SID)\<lparr>iov_key_id := key\<rparr>;
       API_DISPATCH_NO_OUTVEC v [iov_vec iov] c }"

definition psa_import_key_ipc ::
  "'w veneers \<Rightarrow> psa_key_attributes option \<Rightarrow> bytes option \<Rightarrow> u32 \<Rightarrow> u32 option \<Rightarrow> 'w client \<Rightarrow>
   ((int \<times> u32 option) \<times> 'w client) option" where
  "psa_import_key_ipc v attributes data data_length key c =
     do {
       let iov = iov_init TFM_CRYPTO_IMPORT_KEY_SID;
       ((status, out_vec), c) \<leftarrow> API_DISPATCH v [iov_vec iov, invec (map_option attributes_bytes attributes) 20, invec data data_length] [outvec (map_option le32 key) 4] c;
       o0 \<leftarrow> at_index out_vec 0;
       Some ((status, map_option of_le32 (out_base o0)), c) }"

definition psa_destroy_key_ipc ::
  "'w veneers \<Rightarrow> u32 \<Rightarrow> 'w client \<Rightarrow>
   (int \<times> 'w client) option" where
  "psa_destroy_key_ipc v key c =
     do {
       let iov = (iov_init TFM_CRYPTO_DESTROY_KEY_SID)\<lparr>iov_key_id := key\<rparr>;
       API_DISPATCH_NO_OUTVEC v [iov_vec iov] c }"

definition psa_get_key_attributes_ipc ::
  "'w veneers \<Rightarrow> u32 \<Rightarrow> psa_key_attributes option \<Rightarrow> 'w client \<Rightarrow>
   ((int \<times> psa_key_attributes option) \<times> 'w client) option" where
  "psa_get_key_attributes_ipc v key attributes c =
     do {
       let iov = (iov_init TFM_CRYPTO_GET_KEY_ATTRIBUTES_SID)\<lparr>iov_key_id := key\<rparr>;
       ((status, out_vec), c) \<leftarrow> API_DISPATCH v [iov_vec iov] [outvec (map_option attributes_bytes attributes) 20] c;
       o0 \<leftarrow> at_index out_vec 0;
       Some ((status, map_option attributes_of (out_base o0)), c) }"

definition psa_reset_key_attributes_ipc ::
  "'w veneers \<Rightarrow> psa_key_attributes option \<Rightarrow> 'w client \<Rightarrow>
   ((int \<times> psa_key_attributes option) \<times> 'w client) option" where
  "psa_reset_key_attributes_ipc v attributes c =
     do {
       let iov = iov_init TFM_CRYPTO_RESET_KEY_ATTRIBUTES_SID;
       ((status, out_vec), c) \<leftarrow> API_DISPATCH v [iov_vec iov] [outvec (map_option attributes_bytes attributes) 20] c;
       o0 \<leftarrow> at_index out_vec 0;
       Some ((status, map_option attributes_of (out_base o0)), c) }"

definition psa_export_key_ipc ::
  "'w veneers \<Rightarrow> u32 \<Rightarrow> bytes option \<Rightarrow> u32 \<Rightarrow> u32 option \<Rightarrow> 'w client \<Rightarrow>
   ((int \<times> bytes option \<times> u32 option) \<times> 'w client) option" where
  "psa_export_key_ipc v key data data_size data_length c =
     do {
       let iov = (iov_init TFM_CRYPTO_EXPORT_KEY_SID)\<lparr>iov_key_id := key\<rparr>;
       ((status, out_vec), c) \<leftarrow> API_DISPATCH v [iov_vec iov] [outvec data data_size] c;
       o0 \<leftarrow> at_index out_vec 0;
       n \<leftarrow> assign data_length (out_size o0);
       Some ((status, out_base o0, Some n), c) }"

definition psa_export_public_key_ipc ::
  "'w veneers \<Rightarrow> u32 \<Rightarrow> bytes option \<Rightarrow> u32 \<Rightarrow> u32 option \<Rightarrow> 'w client \<Rightarrow>
   ((int \<times> bytes option \<times> u32 option) \<times> 'w client) option" where
  "psa_export_public_key_ipc v key data data_size data_length c =
     do {
       let iov = (iov_init TFM_CRYPTO_EXPORT_PUBLIC_KEY_SID)\<lparr>iov_key_id := key\<rparr>;
       ((status, out_vec), c) \<leftarrow> API_DISPATCH v [iov_vec iov] [outvec data data_size] c;
       o0 \<leftarrow> at_index out_vec 0;
       n \<leftarrow> assign data_length (out_size o0);
       Some ((status, out_base o0, Some n), c) }"

definition psa_purge_key_ipc ::
  "'w veneers \<Rightarrow> u32 \<Rightarrow> 'w client \<Rightarrow>
   (int \<times> 'w client) option" where
  "psa_purge_key_ipc v key c =
     do {
       let iov = (iov_init TFM_CRYPTO_PURGE_KEY_SID)\<lparr>iov_key_id := key\<rparr>;
       API_DISPATCH_NO_OUTVEC v [iov_vec iov] c }"

definition psa_copy_key_ipc ::
  "'w veneers \<Rightarrow> u32 \<Rightarrow> psa_key_attributes option \<Rightarrow> u32 option \<Rightarrow> 'w client \<Rightarrow>
   ((int \<times> u32 option) \<times> 'w client) option" where
  "psa_copy_key_ipc v source_key attributes target_key c =
     do {
       let iov = (iov_init TFM_CRYPTO_COPY_KEY_SID)\<lparr>iov_key_id := source_key\<rparr>;
       ((status, out_vec), c) \<leftarrow> API_DISPATCH v [iov_vec iov, invec (map_option attributes_bytes attributes) 20] [outvec (map_option le32 target_key) 4] c;
       o0 \<leftarrow> at_index out_vec 0;
       Some ((status, map_option of_le32 (out_base o0)), c) }"

definition psa_generate_key_ipc ::
  "'w veneers \<Rightarrow> psa_key_attributes option \<Rightarrow> u32 option \<Rightarrow> 'w client \<Rightarrow>
   ((int \<times> u32 option) \<times> 'w client) option" where
  "psa_generate_key_ipc v attributes key c =
     do {
       let iov = iov_init TFM_CRYPTO_GENERATE_KEY_SID;
       ((status, out_vec), c) \<leftarrow> API_DISPATCH v [iov_vec iov, invec (map_option attributes_bytes attributes) 20] [outvec (map_option le32 key) 4] c;
       o0 \<leftarrow> at_index out_vec 0;
       Some ((status, map_option of_le32 (out_base o0)), c) }"

subsection \<open>Ciphers\<close>

definition psa_cipher_generate_iv_ipc ::
  "'w veneers \<Rightarrow> u32 option \<Rightarrow> bytes option \<Rightarrow> u32 \<Rightarrow> u32 option \<Rightarrow> 'w client \<Rightarrow>
   ((int \<times> u32 option \<times> bytes option \<times> u32 option) \<times> 'w client) option" where
  "psa_cipher_generate_iv_ipc v operation iv iv_size iv_length c =
     do {
       hdl \<leftarrow> operation;
       let iov = (iov_init TFM_CRYPTO_CIPHER_GENERATE_IV_SID)\<lparr>iov_op_handle := hdl\<rparr>;
       ((status, out_vec), c) \<leftarrow> API_DISPATCH v [iov_vec iov] [outvec (Some (le32 hdl)) 4, outvec iv iv_size] c;
       o0 \<leftarrow> at_index out_vec 0;
       o1 \<leftarrow> at_index out_vec 1;
       n \<leftarrow> assign iv_length (out_size o1);
       Some ((status, map_option of_le32 (out_base o0), out_base o1, Some n), c) }"

definition psa_cipher_set_iv_ipc ::
  "'w veneers \<Rightarrow> u32 option \<Rightarrow> bytes option \<Rightarrow> u32 \<Rightarrow> 'w client \<Rightarrow>
   ((int \<times> u32 option) \<times> 'w client) option" where
  "psa_cipher_set_iv_ipc v operation iv iv_length c =
     do {
       hdl \<leftarrow> operation;
       let iov = (iov_init TFM_CRYPTO_CIPHER_SET_IV_SID)\<lparr>iov_op_handle := hdl\<rparr>;
       ((status, out_vec), c) \<leftarrow> API_DISPATCH v [iov_vec iov, invec iv iv_length] [outvec (Some (le32 hdl)) 4] c;
       o0 \<leftarrow> at_index out_vec 0;
       Some ((status, map_option of_le32 (out_base o0)), c) }"

definition psa_cipher_encrypt_setup_ipc ::
  "'w veneers \<Rightarrow> u32 option \<Rightarrow> u32 \<Rightarrow> u32 \<Rightarrow> 'w client \<Rightarrow>
   ((int \<times> u32 option) \<times> 'w client) option" where
  "psa_cipher_encrypt_setup_ipc v operation key alg c =
     do {
       hdl \<leftarrow> operation;
       let iov = (iov_init TFM_CRYPTO_CIPHER_ENCRYPT_SETUP_SID)\<lparr>iov_key_id := key, iov_alg := alg, iov_op_handle := hdl\<rparr>;
       ((status, out_vec), c) \<leftarrow> API_DISPATCH v [iov_vec iov] [outvec (Some (le32 hdl)) 4] c;
       o0 \<leftarrow> at_index out_vec 0;
       Some ((status, map_option of_le32 (out_base o0)), c) }"

definition psa_cipher_decrypt_setup_ipc ::
  "'w veneers \<Rightarrow> u32 option \<Rightarrow> u32 \<Rightarrow> u32 \<Rightarrow> 'w client \<Rightarrow>
   ((int \<times> u32 option) \<times> 'w client) option" where
  "psa_cipher_decrypt_setup_ipc v operation key alg c =
     do {
       hdl \<leftarrow> operation;
       let iov = (iov_init TFM_CRYPTO_CIPHER_DECRYPT_SETUP_SID)\<lparr>iov_key_id := key, iov_alg := alg, iov_op_handle := hdl\<rparr>;
       ((status, out_vec), c) \<leftarrow> API_DISPATCH v [iov_vec iov] [outvec (Some (le32 hdl)) 4] c;
       o0 \<leftarrow> at_index out_vec 0;
       Some ((status, map_option of_le32 (out_base o0)), c) }"

definition psa_cipher_update_ipc ::
  "'w veneers \<Rightarrow> u32 option \<Rightarrow> bytes option \<Rightarrow> u32 \<Rightarrow> bytes option \<Rightarrow> u32 \<Rightarrow> u32 option \<Rightarrow> 'w client \<Rightarrow>
   ((int \<times> u32 option \<times> bytes option \<times> u32 option) \<times> 'w client) option" where
  "psa_cipher_update_ipc v operation input input_length output output_size output_length c =
     do {
       hdl \<leftarrow> operation;
       let iov = (iov_init TFM_CRYPTO_CIPHER_UPDATE_SID)\<lparr>iov_op_handle := hdl\<rparr>;
       ((status, out_vec), c) \<leftarrow> API_DISPATCH v [iov_vec iov, invec input input_length] [outvec (Some (le32 hdl)) 4, outvec output output_size] c;
       o0 \<leftarrow> at_index out_vec 0;
       o1 \<leftarrow> at_index out_vec 1;
       n \<leftarrow> assign output_length (out_size o1);
       Some ((status, map_option of_le32 (out_base o0), out_base o1, Some n), c) }"

definition psa_cipher_abort_ipc ::
  "'w veneers \<Rightarrow> u32 option \<Rightarrow> 'w client \<Rightarrow>
   ((int \<times> u32 option) \<times> 'w client) option" where
  "psa_cipher_abort_ipc v operation c =
     do {
       hdl \<leftarrow> operation;
       let iov = (iov_init TFM_CRYPTO_CIPHER_ABORT_SID)\<lparr>iov_op_handle := hdl\<rparr>;
       ((status, out_vec), c) \<leftarrow> API_DISPATCH v [iov_vec iov] [outvec (Some (le32 hdl)) 4] c;
       o0 \<leftarrow> at_index out_vec 0;
       Some ((status, map_option of_le32 (out_base o0)), c) }"

definition psa_cipher_finish_ipc ::
  "'w veneers \<Rightarrow> u32 option \<Rightarrow> bytes option \<Rightarrow> u32 \<Rightarrow> u32 option \<Rightarrow> 'w client \<Rightarrow>
   ((int \<times> u32 option \<times> bytes option \<times> u32 option) \<times> 'w client) option" where
  "psa_cipher_finish_ipc v operation output output_size output_length c =
     do {
       hdl \<leftarrow> operation;
       let iov = (iov_init TFM_CRYPTO_CIPHER_FINISH_SID)\<lparr>iov_op_handle := hdl\<rparr>;
       ((status, out_vec), c) \<leftarrow> API_DISPATCH v [iov_vec iov] [outvec (Some (le32 hdl)) 4, outvec output output_size] c;
       o0 \<leftarrow> at_index out_vec 0;
       o1 \<leftarrow> at_index out_vec 1;
       n \<leftarrow> assign output_length (out_size o1);
       Some ((status, map_option of_le32 (out_base o0), out_base o1, Some n), c) }"

definition psa_cipher_encrypt_ipc ::
  "'w veneers \<Rightarrow> u32 \<Rightarrow> u32 \<Rightarrow> bytes option \<Rightarrow> u32 \<Rightarrow> bytes option \<Rightarrow> u32 \<Rightarrow> u32 option \<Rightarrow> 'w client \<Rightarrow>
   ((int \<times> bytes option \<times> u32 option) \<times> 'w client) option" where
  "psa_cipher_encrypt_ipc v key alg input input_length output output_size output_length c =
     do {
       let iov = (iov_init TFM_CRYPTO_CIPHER_ENCRYPT_SID)\<lparr>iov_key_id := key, iov_alg := alg\<rparr>;
       ((status, out_vec), c) \<leftarrow> API_DISPATCH v [iov_vec iov, invec input input_length] [outvec output output_size] c;
       o0 \<leftarrow> at_index out_vec 0;
       n \<leftarrow> assign output_length (out_size o0);
       Some ((status, out_base o0, Some n), c) }"

definition psa_cipher_decrypt_ipc ::
  "'w veneers \<Rightarrow> u32 \<Rightarrow> u32 \<Rightarrow> bytes option \<Rightarrow> u32 \<Rightarrow> bytes option \<Rightarrow> u32 \<Rightarrow> u32 option \<Rightarrow> 'w client \<Rightarrow>
   ((int \<times> bytes option \<times> u32 option) \<times> 'w client) option" where
  "psa_cipher_decrypt_ipc v key alg input input_length output output_size output_length c =
     do {
       let iov = (iov_init TFM_CRYPTO_CIPHER_DECRYPT_SID)\<lparr>iov_key_id := key, iov_alg := alg\<rparr>;
       ((status, out_vec), c) \<leftarrow> API_DISPATCH v [iov_vec iov, invec input input_length] [outvec output output_size] c;
       o0 \<leftarrow> at_index out_vec 0;
       n \<leftarrow> assign output_length (out_size o0);
       Some ((status, out_base o0, Some n), c) }"

subsection \<open>Hashes\<close>

definition psa_hash_setup_ipc ::
  "'w veneers \<Rightarrow> u32 option \<Rightarrow> u32 \<Rightarrow> 'w client \<Rightarrow>
   ((int \<times> u32 option) \<times> 'w client) option" where
  "psa_hash_setup_ipc v operation alg c =
     do {
       hdl \<leftarrow> operation;
       let iov = (iov_init TFM_CRYPTO_HASH_SETUP_SID)\<lparr>iov_alg := alg, iov_op_handle := hdl\<rparr>;
       ((status, out_vec), c) \<leftarrow> API_DISPATCH v [iov_vec iov] [outvec (Some (le32 hdl)) 4] c;
       o0 \<leftarrow> at_index out_vec 0;
       Some ((status, map_option of_le32 (out_base o0)), c) }"

definition psa_hash_update_ipc ::
  "'w veneers \<Rightarrow> u32 option \<Rightarrow> bytes option \<Rightarrow> u32 \<Rightarrow> 'w client \<Rightarrow>
   ((int \<times> u32 option) \<times> 'w client) option" where
  "psa_hash_update_ipc v operation input input_length c =
     do {
       hdl \<leftarrow> operation;
       let iov = (iov_init TFM_CRYPTO_HASH_UPDATE_SID)\<lparr>iov_op_handle := hdl\<rparr>;
       ((status, out_vec), c) \<leftarrow> API_DISPATCH v [iov_vec iov, invec input input_length] [outvec (Some (le32 hdl)) 4] c;
       o0 \<leftarrow> at_index out_vec 0;
       Some ((status, map_option of_le32 (out_base o0)), c) }"

definition psa_hash_finish_ipc ::
  "'w veneers \<Rightarrow> u32 option \<Rightarrow> bytes option \<Rightarrow> u32 \<Rightarrow> u32 option \<Rightarrow> 'w client \<Rightarrow>
   ((int \<times> u32 option \<times> bytes option \<times> u32 option) \<times> 'w client) option" where
  "psa_hash_finish_ipc v operation hash hash_size hash_length c =
     do {
       hdl \<leftarrow> operation;
       let iov = (iov_init TFM_CRYPTO_HASH_FINISH_SID)\<lparr>iov_op_handle := hdl\<rparr>;
       ((status, out_vec), c) \<leftarrow> API_DISPATCH v [iov_vec iov] [outvec (Some (le32 hdl)) 4, outvec hash hash_size] c;
       o0 \<leftarrow> at_index out_vec 0;
       o1 \<leftarrow> at_index out_vec 1;
       n \<leftarrow> assign hash_length (out_size o1);
       Some ((status, map_option of_le32 (out_base o0), out_base o1, Some n), c) }"

definition psa_hash_verify_ipc ::
  "'w veneers \<Rightarrow> u32 option \<Rightarrow> bytes option \<Rightarrow> u32 \<Rightarrow> 'w client \<Rightarrow>
   ((int \<times> u32 option) \<times> 'w client) option" where
  "psa_hash_verify_ipc v operation hash hash_length c =
     do {
       hdl \<leftarrow> operation;
       let iov = (iov_init TFM_CRYPTO_HASH_VERIFY_SID)\<lparr>iov_op_handle := hdl\<rparr>;
       ((status, out_vec), c) \<leftarrow> API_DISPATCH v [iov_vec iov, invec hash hash_length] [outvec (Some (le32 hdl)) 4] c;
       o0 \<leftarrow> at_index out_vec 0;
       Some ((status, map_option of_le32 (out_base o0)), c) }"

definition psa_hash_abort_ipc ::
  "'w veneers \<Rightarrow> u32 option \<Rightarrow> 'w client \<Rightarrow>
   ((int \<times> u32 option) \<times> 'w client) option" where
  "psa_hash_abort_ipc v operation c =
     do {
       hdl \<leftarrow> operation;
       let iov = (iov_init TFM_CRYPTO_HASH_ABORT_SID)\<lparr>iov_op_handle := hdl\<rparr>;
       ((status, out_vec), c) \<leftarrow> API_DISPATCH v [iov_vec iov] [outvec (Some (le32 hdl)) 4] c;
       o0 \<leftarrow> at_index out_vec 0;
       Some ((status, map_option of_le32 (out_base o0)), c) }"

definition psa_hash_clone_ipc ::
  "'w veneers \<Rightarrow> u32 option \<Rightarrow> u32 option \<Rightarrow> 'w client \<Rightarrow>
   ((int \<times> u32 option) \<times> 'w client) option" where
  "psa_hash_clone_ipc v source_operation target_operation c = do {
     hdl \<leftarrow> source_operation;
     let iov = (iov_init TFM_CRYPTO_HASH_CLONE_SID)\<lparr>iov_op_handle := hdl\<rparr>;
     if target_operation \<noteq> None \<and> target_operation \<noteq> Some 0
     then Some ((PSA_ERROR_BAD_STATE, target_operation), c)
     else do {
       ((status, out_vec), c) \<leftarrow> API_DISPATCH v [iov_vec iov] [outvec (map_option le32 target_operation) 4] c;
       o0 \<leftarrow> at_index out_vec 0;
       Some ((status, map_option of_le32 (out_base o0)), c) } }"

definition psa_hash_compute_ipc ::
  "'w veneers \<Rightarrow> u32 \<Rightarrow> bytes option \<Rightarrow> u32 \<Rightarrow> bytes option \<Rightarrow> u32 \<Rightarrow> u32 option \<Rightarrow> 'w client \<Rightarrow>
   ((int \<times> bytes option \<times> u32 option) \<times> 'w client) option" where
  "psa_hash_compute_ipc v alg input input_length hash hash_size hash_length c =
     do {
       let iov = (iov_init TFM_CRYPTO_HASH_COMPUTE_SID)\<lparr>iov_alg := alg\<rparr>;
       ((status, out_vec), c) \<leftarrow> API_DISPATCH v [iov_vec iov, invec input input_length] [outvec hash hash_size] c;
       o0 \<leftarrow> at_index out_vec 0;
       n \<leftarrow> assign hash_length (out_size o0);
       Some ((status, out_base o0, Some n), c) }"

definition psa_hash_compare_ipc ::
  "'w veneers \<Rightarrow> u32 \<Rightarrow> bytes option \<Rightarrow> u32 \<Rightarrow> bytes option \<Rightarrow> u32 \<Rightarrow> 'w client \<Rightarrow>
   (int \<times> 'w client) option" where
  "psa_hash_compare_ipc v alg input input_length hash hash_length c =
     do {
       let iov = (iov_init TFM_CRYPTO_HASH_COMPARE_SID)\<lparr>iov_alg := alg\<rparr>;
       API_DISPATCH_NO_OUTVEC v [iov_vec iov, invec input input_length, invec hash hash_length] c }"

subsection \<open>Message authentication codes\<close>

definition psa_mac_sign_setup_ipc ::
  "'w veneers \<Rightarrow> u32 option \<Rightarrow> u32 \<Rightarrow> u32 \<Rightarrow> 'w client \<Rightarrow>
   ((int \<times> u32 option) \<times> 'w client) option" where
  "psa_mac_sign_setup_ipc v operation key alg c =
     do {
       hdl \<leftarrow> operation;
       let iov = (iov_init TFM_CRYPTO_MAC_SIGN_SETUP_SID)\<lparr>iov_key_id := key, iov_alg := alg, iov_op_handle := hdl\<rparr>;
       ((status, out_vec), c) \<leftarrow> API_DISPATCH v [iov_vec iov] [outvec (Some (le32 hdl)) 4] c;
       o0 \<leftarrow> at_index out_vec 0;
       Some ((status, map_option of_le32 (out_base o0)), c) }"

definition psa_mac_verify_setup_ipc ::
  "'w veneers \<Rightarrow> u32 option \<Rightarrow> u32 \<Rightarrow> u32 \<Rightarrow> 'w client \<Rightarrow>
   ((int \<times> u32 option) \<times> 'w client) option" where
  "psa_mac_verify_setup_ipc v operation key alg c =
     do {
       hdl \<leftarrow> operation;
       let iov = (iov_init TFM_CRYPTO_MAC_VERIFY_SETUP_SID)\<lparr>iov_key_id := key, iov_alg := alg, iov_op_handle := hdl\<rparr>;
       ((status, out_vec), c) \<leftarrow> API_DISPATCH v [iov_vec iov] [outvec (Some (le32 hdl)) 4] c;
       o0 \<leftarrow> at_index out_vec 0;
       Some ((status, map_option of_le32 (out_base o0)), c) }"

definition psa_mac_update_ipc ::
  "'w veneers \<Rightarrow> u32 option \<Rightarrow> bytes option \<Rightarrow> u32 \<Rightarrow> 'w client \<Rightarrow>
   ((int \<times> u32 option) \<times> 'w client) option" where
  "psa_mac_update_ipc v operation input input_length c =
     do {
       hdl \<leftarrow> operation;
       let iov = (iov_init TFM_CRYPTO_MAC_UPDATE_SID)\<lparr>iov_op_handle := hdl\<rparr>;
       ((status, out_vec), c) \<leftarrow> API_DISPATCH v [iov_vec iov, invec input input_length] [outvec (Some (le32 hdl)) 4] c;
       o0 \<leftarrow> at_index out_vec 0;
       Some ((status, map_option of_le32 (out_base o0)), c) }"

definition psa_mac_sign_finish_ipc ::
  "'w veneers \<Rightarrow> u32 option \<Rightarrow> bytes option \<Rightarrow> u32 \<Rightarrow> u32 option \<Rightarrow> 'w client \<Rightarrow>
   ((int \<times> u32 option \<times> bytes option \<times> u32 option) \<times> 'w client) option" where
  "psa_mac_sign_finish_ipc v operation mac mac_size mac_length c =
     do {
       hdl \<leftarrow> operation;
       let iov = (iov_init TFM_CRYPTO_MAC_SIGN_FINISH_SID)\<lparr>iov_op_handle := hdl\<rparr>;
       ((status, out_vec), c) \<leftarrow> API_DISPATCH v [iov_vec iov] [outvec (Some (le32 hdl)) 4, outvec mac mac_size] c;
       o0 \<leftarrow> at_index out_vec 0;
       o1 \<leftarrow> at_index out_vec 1;
       n \<leftarrow> assign mac_length (out_size o1);
       Some ((status, map_option of_le32 (out_base o0), out_base o1, Some n), c) }"

definition psa_mac_verify_finish_ipc ::
  "'w veneers \<Rightarrow> u32 option \<Rightarrow> bytes option \<Rightarrow> u32 \<Rightarrow> 'w client \<Rightarrow>
   ((int \<times> u32 option) \<times> 'w client) option" where
  "psa_mac_verify_finish_ipc v operation mac mac_length c =
     do {
       hdl \<leftarrow> operation;
       let iov = (iov_init TFM_CRYPTO_MAC_VERIFY_FINISH_SID)\<lparr>iov_op_handle := hdl\<rparr>;
       ((status, out_vec), c) \<leftarrow> API_DISPATCH v [iov_vec iov, invec mac mac_length] [outvec (Some (le32 hdl)) 4] c;
       o0 \<leftarrow> at_index out_vec 0;
       Some ((status, map_option of_le32 (out_base o0)), c) }"

definition psa_mac_abort_ipc ::
  "'w veneers \<Rightarrow> u32 option \<Rightarrow> 'w client \<Rightarrow>
   ((int \<times> u32 option) \<times> 'w client) option" where
  "psa_mac_abort_ipc v operation c =
     do {
       hdl \<leftarrow> operation;
       let iov = (iov_init TFM_CRYPTO_MAC_ABORT_SID)\<lparr>iov_op_handle := hdl\<rparr>;
       ((status, out_vec), c) \<leftarrow> API_DISPATCH v [iov_vec iov] [outvec (Some (le32 hdl)) 4] c;
       o0 \<leftarrow> at_index out_vec 0;
       Some ((status, map_option of_le32 (out_base o0)), c) }"

definition psa_mac_compute_ipc ::
  "'w veneers \<Rightarrow> u32 \<Rightarrow> u32 \<Rightarrow> bytes option \<Rightarrow> u32 \<Rightarrow> bytes option \<Rightarrow> u32 \<Rightarrow> u32 option \<Rightarrow> 'w client \<Rightarrow>
   ((int \<times> bytes option \<times> u32 option) \<times> 'w client) option" where
  "psa_mac_compute_ipc v key alg input input_length mac mac_size mac_length c =
     do {
       let iov = (iov_init TFM_CRYPTO_MAC_COMPUTE_SID)\<lparr>iov_key_id := key, iov_alg := alg\<rparr>;
       ((status, out_vec), c) \<leftarrow> API_DISPATCH v [iov_vec iov, invec input input_length] [outvec mac mac_size] c;
       o0 \<leftarrow> at_index out_vec 0;
       n \<leftarrow> assign mac_length (out_size o0);
       Some ((status, out_base o0, Some n), c) }"

definition psa_mac_verify_ipc ::
  "'w veneers \<Rightarrow> u32 \<Rightarrow> u32 \<Rightarrow> bytes option \<Rightarrow> u32 \<Rightarrow> bytes option \<Rightarrow> u32 \<Rightarrow> 'w client \<Rightarrow>
   (int \<times> 'w client) option" where
  "psa_mac_verify_ipc v key alg input input_length mac mac_length c =
     do {
       let iov = (iov_init TFM_CRYPTO_MAC_VERIFY_SID)\<lparr>iov_key_id := key, iov_alg := alg\<rparr>;
       API_DISPATCH_NO_OUTVEC v [iov_vec iov, invec input input_length, invec mac mac_length] c }"

subsection \<open>Authenticated encryption\<close>

text \<open>The nonce is copied into the structure, byte by byte; a null nonce is left out.\<close>

definition pack_nonce :: "bytes option \<Rightarrow> u32 \<Rightarrow> pack_iovec \<Rightarrow> pack_iovec option" where
  "pack_nonce nonce nonce_length iov =
     (case nonce of None \<Rightarrow> Some iov
      | Some bs \<Rightarrow> do {
          copied \<leftarrow> for_each [0..<unat nonce_length]
            (\<lambda>idx dst. if idx < length bs \<and> idx < length dst then Some (dst[idx := bs ! idx]) else None) (iov_nonce iov);
          Some (iov\<lparr>iov_nonce := copied, iov_nonce_length := nonce_length\<rparr>) })"

definition psa_aead_encrypt_ipc ::
  "'w veneers \<Rightarrow> u32 \<Rightarrow> u32 \<Rightarrow> bytes option \<Rightarrow> u32 \<Rightarrow> bytes option \<Rightarrow> u32 \<Rightarrow> bytes option \<Rightarrow> u32 \<Rightarrow>
   bytes option \<Rightarrow> u32 \<Rightarrow> u32 option \<Rightarrow> 'w client \<Rightarrow> ((int \<times> bytes option \<times> u32 option) \<times> 'w client) option" where
  "psa_aead_encrypt_ipc v key alg nonce nonce_length additional_data additional_data_length plaintext plaintext_length ciphertext ciphertext_size ciphertext_length c =
     (if (additional_data = None \<and> additional_data_length \<noteq> 0) \<or> unat nonce_length > TFM_CRYPTO_MAX_NONCE_LENGTH
      then Some ((PSA_ERROR_INVALID_ARGUMENT, ciphertext, ciphertext_length), c)
      else do {
        iov \<leftarrow> pack_nonce nonce nonce_length ((iov_init TFM_CRYPTO_AEAD_ENCRYPT_SID)\<lparr>iov_key_id := key, iov_alg := alg\<rparr>);
        let in_len = (if additional_data = None then 2 else 3);
        ((status, out_vec), c) \<leftarrow> crypto_call v [iov_vec iov, invec plaintext plaintext_length, invec additional_data additional_data_length] in_len
           [outvec ciphertext ciphertext_size] 1 c;
        o0 \<leftarrow> at_index out_vec 0;
        n \<leftarrow> assign ciphertext_length (out_size o0);
        Some ((status, out_base o0, Some n), c) })"

definition psa_aead_decrypt_ipc ::
  "'w veneers \<Rightarrow> u32 \<Rightarrow> u32 \<Rightarrow> bytes option \<Rightarrow> u32 \<Rightarrow> bytes option \<Rightarrow> u32 \<Rightarrow> bytes option \<Rightarrow> u32 \<Rightarrow>
   bytes option \<Rightarrow> u32 \<Rightarrow> u32 option \<Rightarrow> 'w client \<Rightarrow> ((int \<times> bytes option \<times> u32 option) \<times> 'w client) option" where
  "psa_aead_decrypt_ipc v key alg nonce nonce_length additional_data additional_data_length ciphertext ciphertext_length plaintext plaintext_size plaintext_length c =
     (if (additional_data = None \<and> additional_data_length \<noteq> 0) \<or> unat nonce_length > TFM_CRYPTO_MAX_NONCE_LENGTH
      then Some ((PSA_ERROR_INVALID_ARGUMENT, plaintext, plaintext_length), c)
      else do {
        iov \<leftarrow> pack_nonce nonce nonce_length ((iov_init TFM_CRYPTO_AEAD_DECRYPT_SID)\<lparr>iov_key_id := key, iov_alg := alg\<rparr>);
        let in_len = (if additional_data = None then 2 else 3);
        ((status, out_vec), c) \<leftarrow> crypto_call v [iov_vec iov, invec ciphertext ciphertext_length, invec additional_data additional_data_length] in_len
           [outvec plaintext plaintext_size] 1 c;
        o0 \<leftarrow> at_index out_vec 0;
        n \<leftarrow> assign plaintext_length (out_size o0);
        Some ((status, out_base o0, Some n), c) })"

definition psa_aead_encrypt_setup_ipc ::
  "'w veneers \<Rightarrow> u32 option \<Rightarrow> u32 \<Rightarrow> u32 \<Rightarrow> 'w client \<Rightarrow>
   ((int \<times> u32 option) \<times> 'w client) option" where
  "psa_aead_encrypt_setup_ipc v operation key alg c =
     do {
       hdl \<leftarrow> operation;
       let iov = (iov_init TFM_CRYPTO_AEAD_ENCRYPT_SETUP_SID)\<lparr>iov_key_id := key, iov_alg := alg, iov_op_handle := hdl\<rparr>;
       ((status, out_vec), c) \<leftarrow> API_DISPATCH v [iov_vec iov] [outvec (Some (le32 hdl)) 4] c;
       o0 \<leftarrow> at_index out_vec 0;
       Some ((status, map_option of_le32 (out_base o0)), c) }"

definition psa_aead_decrypt_setup_ipc ::
  "'w veneers \<Rightarrow> u32 option \<Rightarrow> u32 \<Rightarrow> u32 \<Rightarrow> 'w client \<Rightarrow>
   ((int \<times> u32 option) \<times> 'w client) option" where
  "psa_aead_decrypt_setup_ipc v operation key alg c =
     do {
       hdl \<leftarrow> operation;
       let iov = (iov_init TFM_CRYPTO_AEAD_DECRYPT_SETUP_SID)\<lparr>iov_key_id := key, iov_alg := alg, iov_op_handle := hdl\<rparr>;
       ((status, out_vec), c) \<leftarrow> API_DISPATCH v [iov_vec iov] [outvec (Some (le32 hdl)) 4] c;
       o0 \<leftarrow> at_index out_vec 0;
       Some ((status, map_option of_le32 (out_base o0)), c) }"

definition psa_aead_generate_nonce_ipc ::
  "'w veneers \<Rightarrow> u32 option \<Rightarrow> bytes option \<Rightarrow> u32 \<Rightarrow> u32 option \<Rightarrow> 'w client \<Rightarrow>
   ((int \<times> u32 option \<times> bytes option \<times> u32 option) \<times> 'w client) option" where
  "psa_aead_generate_nonce_ipc v operation nonce nonce_size nonce_length c =
     do {
       hdl \<leftarrow> operation;
       let iov = (iov_init TFM_CRYPTO_AEAD_GENERATE_NONCE_SID)\<lparr>iov_op_handle := hdl\<rparr>;
       ((status, out_vec), c) \<leftarrow> API_DISPATCH v [iov_vec iov] [outvec (Some (le32 hdl)) 4, outvec nonce nonce_size] c;
       o0 \<leftarrow> at_index out_vec 0;
       o1 \<leftarrow> at_index out_vec 1;
       n \<leftarrow> assign nonce_length (out_size o1);
       Some ((status, map_option of_le32 (out_base o0), out_base o1, Some n), c) }"

definition psa_aead_set_nonce_ipc ::
  "'w veneers \<Rightarrow> u32 option \<Rightarrow> bytes option \<Rightarrow> u32 \<Rightarrow> 'w client \<Rightarrow>
   ((int \<times> u32 option) \<times> 'w client) option" where
  "psa_aead_set_nonce_ipc v operation nonce nonce_length c =
     do {
       hdl \<leftarrow> operation;
       let iov = (iov_init TFM_CRYPTO_AEAD_SET_NONCE_SID)\<lparr>iov_op_handle := hdl\<rparr>;
       ((status, out_vec), c) \<leftarrow> API_DISPATCH v [iov_vec iov, invec nonce nonce_length] [outvec (Some (le32 hdl)) 4] c;
       o0 \<leftarrow> at_index out_vec 0;
       Some ((status, map_option of_le32 (out_base o0)), c) }"

definition psa_aead_set_lengths_ipc ::
  "'w veneers \<Rightarrow> u32 option \<Rightarrow> u32 \<Rightarrow> u32 \<Rightarrow> 'w client \<Rightarrow>
   ((int \<times> u32 option) \<times> 'w client) option" where
  "psa_aead_set_lengths_ipc v operation ad_length plaintext_length c =
     do {
       hdl \<leftarrow> operation;
       let iov = (iov_init TFM_CRYPTO_AEAD_SET_LENGTHS_SID)\<lparr>iov_ad_length := ad_length, iov_plaintext_length := plaintext_length, iov_op_handle := hdl\<rparr>;
       ((status, out_vec), c) \<leftarrow> API_DISPATCH v [iov_vec iov] [outvec (Some (le32 hdl)) 4] c;
       o0 \<leftarrow> at_index out_vec 0;
       Some ((status, map_option of_le32 (out_base o0)), c) }"

definition psa_aead_update_ad_ipc ::
  "'w veneers \<Rightarrow> u32 option \<Rightarrow> bytes option \<Rightarrow> u32 \<Rightarrow> 'w client \<Rightarrow> ((int \<times> u32 option) \<times> 'w client) option" where
  "psa_aead_update_ad_ipc v operation input input_length c = do {
     hdl \<leftarrow> operation;
     let iov = (iov_init TFM_CRYPTO_AEAD_UPDATE_AD_SID)\<lparr>iov_op_handle := hdl\<rparr>;
     if input = None \<and> input_length \<noteq> 0 then Some ((PSA_ERROR_INVALID_ARGUMENT, operation), c)
     else do {
       let in_len = (if input = None then 1 else 2);
       ((status, out_vec), c) \<leftarrow> crypto_call v [iov_vec iov, invec input input_length] in_len [outvec (Some (le32 hdl)) 4] 1 c;
       o0 \<leftarrow> at_index out_vec 0;
       Some ((status, map_option of_le32 (out_base o0)), c) } }"

definition psa_aead_update_ipc ::
  "'w veneers \<Rightarrow> u32 option \<Rightarrow> bytes option \<Rightarrow> u32 \<Rightarrow> bytes option \<Rightarrow> u32 \<Rightarrow> u32 option \<Rightarrow> 'w client \<Rightarrow>
   ((int \<times> u32 option \<times> bytes option \<times> u32 option) \<times> 'w client) option" where
  "psa_aead_update_ipc v operation input input_length output output_size output_length c = do {
     hdl \<leftarrow> operation;
     let iov = (iov_init TFM_CRYPTO_AEAD_UPDATE_SID)\<lparr>iov_op_handle := hdl\<rparr>;
     if input = None \<and> input_length \<noteq> 0 then Some ((PSA_ERROR_INVALID_ARGUMENT, operation, output, output_length), c)
     else do {
       let in_len = (if input = None then 1 else 2);
       ((status, out_vec), c) \<leftarrow> crypto_call v [iov_vec iov, invec input input_length] in_len
          [outvec (Some (le32 hdl)) 4, outvec output output_size] 2 c;
       o0 \<leftarrow> at_index out_vec 0;
       o1 \<leftarrow> at_index out_vec 1;
       n \<leftarrow> assign output_length (out_size o1);
       Some ((status, map_option of_le32 (out_base o0), out_base o1, Some n), c) } }"

text \<open>
  The last steps of an authenticated encryption and decryption. When there is no room for the text
  the code accepts a null pointer for its length, and stores zero through it all the same.
\<close>

definition psa_aead_finish_ipc ::
  "'w veneers \<Rightarrow> u32 option \<Rightarrow> bytes option \<Rightarrow> u32 \<Rightarrow> u32 option \<Rightarrow> bytes option \<Rightarrow> u32 \<Rightarrow> u32 option \<Rightarrow> 'w client \<Rightarrow>
   ((int \<times> u32 option \<times> bytes option \<times> u32 option \<times> bytes option \<times> u32 option) \<times> 'w client) option" where
  "psa_aead_finish_ipc v operation ciphertext ciphertext_size ciphertext_length tag tag_size tag_length c = do {
     hdl \<leftarrow> operation;
     let iov = (iov_init TFM_CRYPTO_AEAD_FINISH_SID)\<lparr>iov_op_handle := hdl\<rparr>;
     let out_len = (if ciphertext = None \<or> ciphertext_size = 0 then 2 else 3 :: u32);
     if (ciphertext = None \<and> ciphertext_size \<noteq> 0) \<or> (out_len = 3 \<and> ciphertext_length = None)
     then Some ((PSA_ERROR_INVALID_ARGUMENT, operation, ciphertext, ciphertext_length, tag, tag_length), c)
     else do {
       ((status, out_vec), c) \<leftarrow> crypto_call v [iov_vec iov] 1
          [outvec (Some (le32 hdl)) 4, outvec tag tag_size, outvec ciphertext ciphertext_size] out_len c;
       o0 \<leftarrow> at_index out_vec 0;
       o1 \<leftarrow> at_index out_vec 1;
       o2 \<leftarrow> at_index out_vec 2;
       tn \<leftarrow> assign tag_length (out_size o1);
       n \<leftarrow> assign ciphertext_length (if out_len = 3 then out_size o2 else 0);
       Some ((status, map_option of_le32 (out_base o0), out_base o2, Some n, out_base o1, Some tn), c) } }"

definition psa_aead_verify_ipc ::
  "'w veneers \<Rightarrow> u32 option \<Rightarrow> bytes option \<Rightarrow> u32 \<Rightarrow> u32 option \<Rightarrow> bytes option \<Rightarrow> u32 \<Rightarrow> 'w client \<Rightarrow>
   ((int \<times> u32 option \<times> bytes option \<times> u32 option) \<times> 'w client) option" where
  "psa_aead_verify_ipc v operation plaintext plaintext_size plaintext_length tag tag_length c = do {
     hdl \<leftarrow> operation;
     let iov = (iov_init TFM_CRYPTO_AEAD_VERIFY_SID)\<lparr>iov_op_handle := hdl\<rparr>;
     let out_len = (if plaintext = None \<or> plaintext_size = 0 then 1 else 2 :: u32);
     if (plaintext = None \<and> plaintext_size \<noteq> 0) \<or> (out_len = 2 \<and> plaintext_length = None)
     then Some ((PSA_ERROR_INVALID_ARGUMENT, operation, plaintext, plaintext_length), c)
     else do {
       ((status, out_vec), c) \<leftarrow> crypto_call v [iov_vec iov, invec tag tag_length] 2
          [outvec (Some (le32 hdl)) 4, outvec plaintext plaintext_size] out_len c;
       o0 \<leftarrow> at_index out_vec 0;
       o1 \<leftarrow> at_index out_vec 1;
       n \<leftarrow> assign plaintext_length (if out_len = 2 then out_size o1 else 0);
       Some ((status, map_option of_le32 (out_base o0), out_base o1, Some n), c) } }"

definition psa_aead_abort_ipc ::
  "'w veneers \<Rightarrow> u32 option \<Rightarrow> 'w client \<Rightarrow>
   ((int \<times> u32 option) \<times> 'w client) option" where
  "psa_aead_abort_ipc v operation c =
     do {
       hdl \<leftarrow> operation;
       let iov = (iov_init TFM_CRYPTO_AEAD_ABORT_SID)\<lparr>iov_op_handle := hdl\<rparr>;
       ((status, out_vec), c) \<leftarrow> API_DISPATCH v [iov_vec iov] [outvec (Some (le32 hdl)) 4] c;
       o0 \<leftarrow> at_index out_vec 0;
       Some ((status, map_option of_le32 (out_base o0)), c) }"

subsection \<open>Signatures and asymmetric encryption\<close>

definition psa_sign_message_ipc ::
  "'w veneers \<Rightarrow> u32 \<Rightarrow> u32 \<Rightarrow> bytes option \<Rightarrow> u32 \<Rightarrow> bytes option \<Rightarrow> u32 \<Rightarrow> u32 option \<Rightarrow> 'w client \<Rightarrow>
   ((int \<times> bytes option \<times> u32 option) \<times> 'w client) option" where
  "psa_sign_message_ipc v key alg input input_length signature signature_size signature_length c =
     do {
       let iov = (iov_init TFM_CRYPTO_SIGN_MESSAGE_SID)\<lparr>iov_key_id := key, iov_alg := alg\<rparr>;
       ((status, out_vec), c) \<leftarrow> API_DISPATCH v [iov_vec iov, invec input input_length] [outvec signature signature_size] c;
       o0 \<leftarrow> at_index out_vec 0;
       n \<leftarrow> assign signature_length (out_size o0);
       Some ((status, out_base o0, Some n), c) }"

definition psa_verify_message_ipc ::
  "'w veneers \<Rightarrow> u32 \<Rightarrow> u32 \<Rightarrow> bytes option \<Rightarrow> u32 \<Rightarrow> bytes option \<Rightarrow> u32 \<Rightarrow> 'w client \<Rightarrow>
   (int \<times> 'w client) option" where
  "psa_verify_message_ipc v key alg input input_length signature signature_length c =
     do {
       let iov = (iov_init TFM_CRYPTO_VERIFY_MESSAGE_SID)\<lparr>iov_key_id := key, iov_alg := alg\<rparr>;
       API_DISPATCH_NO_OUTVEC v [iov_vec iov, invec input input_length, invec signature signature_length] c }"

definition psa_sign_hash_ipc ::
  "'w veneers \<Rightarrow> u32 \<Rightarrow> u32 \<Rightarrow> bytes option \<Rightarrow> u32 \<Rightarrow> bytes option \<Rightarrow> u32 \<Rightarrow> u32 option \<Rightarrow> 'w client \<Rightarrow>
   ((int \<times> bytes option \<times> u32 option) \<times> 'w client) option" where
  "psa_sign_hash_ipc v key alg hash hash_length signature signature_size signature_length c =
     do {
       let iov = (iov_init TFM_CRYPTO_SIGN_HASH_SID)\<lparr>iov_key_id := key, iov_alg := alg\<rparr>;
       ((status, out_vec), c) \<leftarrow> API_DISPATCH v [iov_vec iov, invec hash hash_length] [outvec signature signature_size] c;
       o0 \<leftarrow> at_index out_vec 0;
       n \<leftarrow> assign signature_length (out_size o0);
       Some ((status, out_base o0, Some n), c) }"

definition psa_verify_hash_ipc ::
  "'w veneers \<Rightarrow> u32 \<Rightarrow> u32 \<Rightarrow> bytes option \<Rightarrow> u32 \<Rightarrow> bytes option \<Rightarrow> u32 \<Rightarrow> 'w client \<Rightarrow>
   (int \<times> 'w client) option" where
  "psa_verify_hash_ipc v key alg hash hash_length signature signature_length c =
     do {
       let iov = (iov_init TFM_CRYPTO_VERIFY_HASH_SID)\<lparr>iov_key_id := key, iov_alg := alg\<rparr>;
       API_DISPATCH_NO_OUTVEC v [iov_vec iov, invec hash hash_length, invec signature signature_length] c }"

definition psa_asymmetric_encrypt_ipc ::
  "'w veneers \<Rightarrow> u32 \<Rightarrow> u32 \<Rightarrow> bytes option \<Rightarrow> u32 \<Rightarrow> bytes option \<Rightarrow> u32 \<Rightarrow> bytes option \<Rightarrow> u32 \<Rightarrow> u32 option \<Rightarrow> 'w client \<Rightarrow>
   ((int \<times> bytes option \<times> u32 option) \<times> 'w client) option" where
  "psa_asymmetric_encrypt_ipc v key alg input input_length salt salt_length output output_size output_length c =
     (if salt = None \<and> salt_length \<noteq> 0 then Some ((PSA_ERROR_INVALID_ARGUMENT, output, output_length), c)
      else do {
        let iov = (iov_init TFM_CRYPTO_ASYMMETRIC_ENCRYPT_SID)\<lparr>iov_key_id := key, iov_alg := alg\<rparr>;
        let in_len = (if salt = None then 2 else 3);
        ((status, out_vec), c) \<leftarrow> crypto_call v [iov_vec iov, invec input input_length, invec salt salt_length] in_len
           [outvec output output_size] 1 c;
        o0 \<leftarrow> at_index out_vec 0;
        n \<leftarrow> assign output_length (out_size o0);
        Some ((status, out_base o0, Some n), c) })"

definition psa_asymmetric_decrypt_ipc ::
  "'w veneers \<Rightarrow> u32 \<Rightarrow> u32 \<Rightarrow> bytes option \<Rightarrow> u32 \<Rightarrow> bytes option \<Rightarrow> u32 \<Rightarrow> bytes option \<Rightarrow> u32 \<Rightarrow> u32 option \<Rightarrow> 'w client \<Rightarrow>
   ((int \<times> bytes option \<times> u32 option) \<times> 'w client) option" where
  "psa_asymmetric_decrypt_ipc v key alg input input_length salt salt_length output output_size output_length c =
     (if salt = None \<and> salt_length \<noteq> 0 then Some ((PSA_ERROR_INVALID_ARGUMENT, output, output_length), c)
      else do {
        let iov = (iov_init TFM_CRYPTO_ASYMMETRIC_DECRYPT_SID)\<lparr>iov_key_id := key, iov_alg := alg\<rparr>;
        let in_len = (if salt = None then 2 else 3);
        ((status, out_vec), c) \<leftarrow> crypto_call v [iov_vec iov, invec input input_length, invec salt salt_length] in_len
           [outvec output output_size] 1 c;
        o0 \<leftarrow> at_index out_vec 0;
        n \<leftarrow> assign output_length (out_size o0);
        Some ((status, out_base o0, Some n), c) })"

subsection \<open>Key derivation and random numbers\<close>

definition psa_key_derivation_get_capacity_ipc ::
  "'w veneers \<Rightarrow> u32 option \<Rightarrow> u32 option \<Rightarrow> 'w client \<Rightarrow>
   ((int \<times> u32 option) \<times> 'w client) option" where
  "psa_key_derivation_get_capacity_ipc v operation capacity c =
     do {
       hdl \<leftarrow> operation;
       let iov = (iov_init TFM_CRYPTO_KEY_DERIVATION_GET_CAPACITY_SID)\<lparr>iov_op_handle := hdl\<rparr>;
       ((status, out_vec), c) \<leftarrow> API_DISPATCH v [iov_vec iov] [outvec (map_option le32 capacity) 4] c;
       o0 \<leftarrow> at_index out_vec 0;
       Some ((status, map_option of_le32 (out_base o0)), c) }"

definition psa_key_derivation_output_bytes_ipc ::
  "'w veneers \<Rightarrow> u32 option \<Rightarrow> bytes option \<Rightarrow> u32 \<Rightarrow> 'w client \<Rightarrow>
   ((int \<times> bytes option) \<times> 'w client) option" where
  "psa_key_derivation_output_bytes_ipc v operation output output_length c =
     do {
       hdl \<leftarrow> operation;
       let iov = (iov_init TFM_CRYPTO_KEY_DERIVATION_OUTPUT_BYTES_SID)\<lparr>iov_op_handle := hdl\<rparr>;
       ((status, out_vec), c) \<leftarrow> API_DISPATCH v [iov_vec iov] [outvec output output_length] c;
       o0 \<leftarrow> at_index out_vec 0;
       Some ((status, out_base o0), c) }"

definition psa_key_derivation_input_key_ipc ::
  "'w veneers \<Rightarrow> u32 option \<Rightarrow> u16 \<Rightarrow> u32 \<Rightarrow> 'w client \<Rightarrow>
   (int \<times> 'w client) option" where
  "psa_key_derivation_input_key_ipc v operation step key c =
     do {
       hdl \<leftarrow> operation;
       let iov = (iov_init TFM_CRYPTO_KEY_DERIVATION_INPUT_KEY_SID)\<lparr>iov_key_id := key, iov_step := step, iov_op_handle := hdl\<rparr>;
       API_DISPATCH_NO_OUTVEC v [iov_vec iov] c }"

definition psa_key_derivation_abort_ipc ::
  "'w veneers \<Rightarrow> u32 option \<Rightarrow> 'w client \<Rightarrow>
   ((int \<times> u32 option) \<times> 'w client) option" where
  "psa_key_derivation_abort_ipc v operation c =
     do {
       hdl \<leftarrow> operation;
       let iov = (iov_init TFM_CRYPTO_KEY_DERIVATION_ABORT_SID)\<lparr>iov_op_handle := hdl\<rparr>;
       ((status, out_vec), c) \<leftarrow> API_DISPATCH v [iov_vec iov] [outvec (Some (le32 hdl)) 4] c;
       o0 \<leftarrow> at_index out_vec 0;
       Some ((status, map_option of_le32 (out_base o0)), c) }"

definition psa_key_derivation_key_agreement_ipc ::
  "'w veneers \<Rightarrow> u32 option \<Rightarrow> u16 \<Rightarrow> u32 \<Rightarrow> bytes option \<Rightarrow> u32 \<Rightarrow> 'w client \<Rightarrow>
   (int \<times> 'w client) option" where
  "psa_key_derivation_key_agreement_ipc v operation step private_key peer_key peer_key_length c =
     do {
       hdl \<leftarrow> operation;
       let iov = (iov_init TFM_CRYPTO_KEY_DERIVATION_KEY_AGREEMENT_SID)\<lparr>iov_key_id := private_key, iov_step := step, iov_op_handle := hdl\<rparr>;
       API_DISPATCH_NO_OUTVEC v [iov_vec iov, invec peer_key peer_key_length] c }"

definition psa_generate_random_ipc ::
  "'w veneers \<Rightarrow> bytes option \<Rightarrow> u32 \<Rightarrow> 'w client \<Rightarrow>
   ((int \<times> bytes option) \<times> 'w client) option" where
  "psa_generate_random_ipc v output output_size c =
     (if output_size = 0 then Some ((PSA_SUCCESS, output), c)
      else do {
        let iov = iov_init TFM_CRYPTO_GENERATE_RANDOM_SID;
        ((status, out_vec), c) \<leftarrow> API_DISPATCH v [iov_vec iov] [outvec output output_size] c;
        o0 \<leftarrow> at_index out_vec 0;
        Some ((status, out_base o0), c) })"

definition psa_raw_key_agreement_ipc ::
  "'w veneers \<Rightarrow> u32 \<Rightarrow> u32 \<Rightarrow> bytes option \<Rightarrow> u32 \<Rightarrow> bytes option \<Rightarrow> u32 \<Rightarrow> u32 option \<Rightarrow> 'w client \<Rightarrow>
   ((int \<times> bytes option \<times> u32 option) \<times> 'w client) option" where
  "psa_raw_key_agreement_ipc v alg private_key peer_key peer_key_length output output_size output_length c =
     do {
       let iov = (iov_init TFM_CRYPTO_RAW_KEY_AGREEMENT_SID)\<lparr>iov_alg := alg, iov_key_id := private_key\<rparr>;
       ((status, out_vec), c) \<leftarrow> API_DISPATCH v [iov_vec iov, invec peer_key peer_key_length] [outvec output output_size] c;
       o0 \<leftarrow> at_index out_vec 0;
       n \<leftarrow> assign output_length (out_size o0);
       Some ((status, out_base o0, Some n), c) }"

definition psa_key_derivation_setup_ipc ::
  "'w veneers \<Rightarrow> u32 option \<Rightarrow> u32 \<Rightarrow> 'w client \<Rightarrow>
   ((int \<times> u32 option) \<times> 'w client) option" where
  "psa_key_derivation_setup_ipc v operation alg c =
     do {
       hdl \<leftarrow> operation;
       let iov = (iov_init TFM_CRYPTO_KEY_DERIVATION_SETUP_SID)\<lparr>iov_alg := alg, iov_op_handle := hdl\<rparr>;
       ((status, out_vec), c) \<leftarrow> API_DISPATCH v [iov_vec iov] [outvec (Some (le32 hdl)) 4] c;
       o0 \<leftarrow> at_index out_vec 0;
       Some ((status, map_option of_le32 (out_base o0)), c) }"

definition psa_key_derivation_set_capacity_ipc ::
  "'w veneers \<Rightarrow> u32 option \<Rightarrow> u32 \<Rightarrow> 'w client \<Rightarrow>
   (int \<times> 'w client) option" where
  "psa_key_derivation_set_capacity_ipc v operation capacity c =
     do {
       hdl \<leftarrow> operation;
       let iov = (iov_init TFM_CRYPTO_KEY_DERIVATION_SET_CAPACITY_SID)\<lparr>iov_capacity := capacity, iov_op_handle := hdl\<rparr>;
       API_DISPATCH_NO_OUTVEC v [iov_vec iov] c }"

definition psa_key_derivation_input_bytes_ipc ::
  "'w veneers \<Rightarrow> u32 option \<Rightarrow> u16 \<Rightarrow> bytes option \<Rightarrow> u32 \<Rightarrow> 'w client \<Rightarrow>
   (int \<times> 'w client) option" where
  "psa_key_derivation_input_bytes_ipc v operation step data data_length c =
     do {
       hdl \<leftarrow> operation;
       let iov = (iov_init TFM_CRYPTO_KEY_DERIVATION_INPUT_BYTES_SID)\<lparr>iov_step := step, iov_op_handle := hdl\<rparr>;
       API_DISPATCH_NO_OUTVEC v [iov_vec iov, invec data data_length] c }"

definition psa_key_derivation_output_key_ipc ::
  "'w veneers \<Rightarrow> psa_key_attributes option \<Rightarrow> u32 option \<Rightarrow> u32 option \<Rightarrow> 'w client \<Rightarrow>
   ((int \<times> u32 option) \<times> 'w client) option" where
  "psa_key_derivation_output_key_ipc v attributes operation key c =
     do {
       hdl \<leftarrow> operation;
       let iov = (iov_init TFM_CRYPTO_KEY_DERIVATION_OUTPUT_KEY_SID)\<lparr>iov_op_handle := hdl\<rparr>;
       ((status, out_vec), c) \<leftarrow> API_DISPATCH v [iov_vec iov, invec (map_option attributes_bytes attributes) 20] [outvec (map_option le32 key) 4] c;
       o0 \<leftarrow> at_index out_vec 0;
       Some ((status, map_option of_le32 (out_base o0)), c) }"

subsection \<open>What the service sees\<close>

text \<open>
  The crypto partition behind \<open>TFM_CRYPTO_HANDLE\<close>: it unpacks the structure, reads the input
  vectors that count, and writes what it produces to the front of each output vector. What it computes is the function
  \<open>serve\<close> of the unpacked structure, the inputs and the room for the outputs.
\<close>

definition readable :: "psa_invec \<Rightarrow> bool" where
  "readable i = (case in_base i of None \<Rightarrow> in_size i = 0 | Some b \<Rightarrow> unat (in_size i) \<le> length b)"

definition in_data :: "psa_invec \<Rightarrow> bytes" where
  "in_data i = (case in_base i of None \<Rightarrow> [] | Some b \<Rightarrow> take (unat (in_size i)) b)"

definition writable :: "psa_outvec \<Rightarrow> bool" where
  "writable o' = (case out_base o' of None \<Rightarrow> out_size o' = 0 | Some b \<Rightarrow> unat (out_size o') \<le> length b)"

definition delivered :: "psa_outvec \<Rightarrow> bytes \<Rightarrow> psa_outvec" where
  "delivered o' d = outvec (map_option (\<lambda>b. d @ drop (length d) b) (out_base o')) (of_nat (length d))"

lemma vec_data [simp]:
  "readable (invec (Some b) n) = (unat n \<le> length b)" "in_data (invec (Some b) n) = take (unat n) b"
  "readable (invec None n) = (n = 0)" "in_data (invec None n) = []"
  "writable (outvec (Some b) n) = (unat n \<le> length b)" "writable (outvec None n) = (n = 0)"
  "out_base (delivered (outvec (Some b) n) d) = Some (d @ drop (length d) b)" "out_size (delivered o' d) = of_nat (length d)"
  by (simp_all add: readable_def in_data_def writable_def delivered_def)

definition iov_of :: "bytes \<Rightarrow> pack_iovec" where
  "iov_of b = \<lparr>iov_srv_id = of_le32 (take 4 b), iov_step = of_le16 (take 2 (drop 4 b)), iov_key_id = of_le32 (take 4 (drop 8 b)),
     iov_alg = of_le32 (take 4 (drop 12 b)), iov_op_handle = of_le32 (take 4 (drop 16 b)), iov_capacity = of_le32 (take 4 (drop 20 b)),
     iov_ad_length = of_le32 (take 4 (drop 24 b)), iov_plaintext_length = of_le32 (take 4 (drop 28 b)),
     iov_nonce = take 16 (drop 32 b), iov_nonce_length = of_le32 (take 4 (drop 48 b))\<rparr>"

lemma iov_of_bytes [simp]: "length (iov_nonce i) = 16 \<Longrightarrow> iov_of (iov_bytes i) = i"
  by (simp add: iov_of_def iov_bytes_def)

lemma length_iov_bytes [simp]: "length (iov_bytes i) = 36 + length (iov_nonce i)"
  by (simp add: iov_bytes_def)

lemma length_iov_nonce [simp]: "length (iov_nonce (iov_init sid)) = 16"
  by (simp add: iov_init_def TFM_CRYPTO_MAX_NONCE_LENGTH_def)

lemma small_count: "k \<le> 4 \<Longrightarrow> (of_nat k :: u32) \<le> 255"
proof -
  assume "k \<le> 4"
  then have "k = 0 \<or> k = 1 \<or> k = 2 \<or> k = 3 \<or> k = 4" by auto
  then show ?thesis by auto
qed

locale crypto_partition =
  fixes v :: "'w veneers" and serve :: "pack_iovec \<Rightarrow> bytes list \<Rightarrow> nat list \<Rightarrow> 'w \<Rightarrow> (int \<times> bytes list) \<times> 'w"
  assumes fits: "serve iov ds ns w = ((st, rs), w') \<Longrightarrow> list_all2 (\<lambda>r n. length r \<le> n) rs ns"
    and served: "length (iov_nonce iov) = 16 \<Longrightarrow> list_all readable ins \<Longrightarrow> list_all writable outs \<Longrightarrow> Suc (length ins) + length outs \<le> 4 \<Longrightarrow>
      serve iov (map in_data ins) (map (\<lambda>x. unat (out_size x)) outs) w = ((st, rs), w') \<Longrightarrow>
      tfm_psa_call_veneer v (of_int TFM_CRYPTO_HANDLE) (PARAM_PACK 0 (of_nat (Suc (length ins))) (of_nat (length outs)))
        (Some (iov_vec iov # ins @ ins')) (Some (outs @ outs')) w = Some ((st, Some (map2 delivered outs rs @ outs')), w')"
    and served_none: "length (iov_nonce iov) = 16 \<Longrightarrow> list_all readable ins \<Longrightarrow> length ins \<le> 3 \<Longrightarrow>
      serve iov (map in_data ins) [] w = ((st, []), w') \<Longrightarrow>
      tfm_psa_call_veneer v (of_int TFM_CRYPTO_HANDLE) (PARAM_PACK 0 (of_nat (Suc (length ins))) 0) (Some (iov_vec iov # ins)) None w =
        Some ((st, None), w')"
begin

text \<open>The calls, for a caller that does not hold the lock.\<close>

lemma crypto_call_served:
  assumes "ns_lock_mutex_id c \<noteq> Held" and "length (iov_nonce iov) = 16" and "list_all readable ins" and "list_all writable outs"
    and "Suc (length ins) + length outs \<le> 4" and "i = of_nat (Suc (length ins))" and "n = of_nat (length outs)"
    and "serve iov (map in_data ins) (map (\<lambda>x. unat (out_size x)) outs) (spm c) = ((st, rs), w')"
  shows "crypto_call v (iov_vec iov # ins @ ins') i (outs @ outs') n c = Some ((st, map2 delivered outs rs @ outs'), c\<lparr>spm := w'\<rparr>)"
  using psa_call_served [OF assms(1) _ _ small_count small_count served [OF assms(2-5) assms(8)]] assms(5)
  unfolding assms(6,7) by (simp add: crypto_call_def PSA_IPC_CALL_def)

lemma dispatch_served:
  assumes "ns_lock_mutex_id c \<noteq> Held" and "length (iov_nonce iov) = 16" and "list_all readable ins" and "list_all writable outs"
    and "Suc (length ins) + length outs \<le> 4"
    and "serve iov (map in_data ins) (map (\<lambda>x. unat (out_size x)) outs) (spm c) = ((st, rs), w')"
  shows "API_DISPATCH v (iov_vec iov # ins) outs c = Some ((st, map2 delivered outs rs), c\<lparr>spm := w'\<rparr>)"
  using psa_call_served [OF assms(1) _ _ small_count small_count served [OF assms(2-6), where ins' = "[]" and outs' = "[]"]] assms(5)
  by (simp add: API_DISPATCH_def call_vecs_def IOVEC_LEN_def PSA_IPC_CALL_def)

lemma dispatch_no_out_served:
  assumes "ns_lock_mutex_id c \<noteq> Held" and "length (iov_nonce iov) = 16" and "list_all readable ins" and "length ins \<le> 3"
    and "serve iov (map in_data ins) [] (spm c) = ((st, rs), w')"
  shows "API_DISPATCH_NO_OUTVEC v (iov_vec iov # ins) c = Some (st, c\<lparr>spm := w'\<rparr>)"
proof -
  have "rs = []" using fits [OF assms(5)] by simp
  with assms(5) have "serve iov (map in_data ins) [] (spm c) = ((st, []), w')" by simp
  from psa_call_served [OF assms(1) _ _ small_count _ served_none [OF assms(2-4) this]] assms(4)
  show ?thesis by (simp add: API_DISPATCH_NO_OUTVEC_def call_no_outvec_def IOVEC_LEN_def PSA_IPC_CALL_def)
qed

text \<open>One output: the service gives one string that fits.\<close>

lemma one_output:
  assumes "serve iov ds [n] w = ((st, rs), w')"
  obtains r where "rs = [r]" and "length r \<le> n"
  using fits [OF assms] by (auto simp: list_all2_Cons2)

end

subsection \<open>The nonce\<close>

lemma pack_nonce_correct:
  assumes "unat n \<le> length bs" and "unat n \<le> length (iov_nonce iov)"
  shows "pack_nonce (Some bs) n iov =
    Some (iov\<lparr>iov_nonce := take (unat n) bs @ drop (unat n) (iov_nonce iov), iov_nonce_length := n\<rparr>)"
proof -
  let ?d = "iov_nonce iov"
  have "\<exists>s'. for_each [0..<unat n] (\<lambda>idx dst. if idx < length bs \<and> idx < length dst then Some (dst[idx := bs ! idx]) else None) ?d = Some s' \<and>
      s' = take (unat n) bs @ drop (unat n) ?d"
  proof (rule for_each_upt)
    fix i s
    assume "i < unat n" and "s = take i bs @ drop i ?d"
    have b: "i < length bs" "i < length ?d" using \<open>i < unat n\<close> assms by auto
    have s: "s = take i bs @ ?d ! i # drop (Suc i) ?d"
      using \<open>s = take i bs @ drop i ?d\<close> Cons_nth_drop_Suc [OF b(2)] by simp
    have "length (take i bs) = i" using b(1) by simp
    then have "s[i := bs ! i] = take i bs @ bs ! i # drop (Suc i) ?d" unfolding s by (metis list_update_length)
    also have "\<dots> = take (Suc i) bs @ drop (Suc i) ?d" using take_Suc_conv_app_nth [OF b(1)] by simp
    finally have "s[i := bs ! i] = take (Suc i) bs @ drop (Suc i) ?d" .
    moreover have "i < length s" using b unfolding s by simp
    ultimately show "\<exists>s'. (if i < length bs \<and> i < length s then Some (s[i := bs ! i]) else None) = Some s' \<and>
        s' = take (Suc i) bs @ drop (Suc i) ?d"
      using b(1) by simp
  qed simp
  then show ?thesis by (auto simp: pack_nonce_def)
qed

subsection \<open>Properties\<close>

text \<open>
  Signing and verifying through the secure side. If the service verifies what it signs, the
  two calls fit together: a digest signed into a buffer of the caller verifies against that buffer
  with the length that was returned, whatever the buffer held behind it.
\<close>

theorem psa_sign_then_verify:
  assumes "crypto_partition v serve" and "ns_lock_mutex_id c \<noteq> Held"
    and "unat hn \<le> length hash" and "unat sz \<le> length buf"
    and "\<And>n w r w'. serve ((iov_init TFM_CRYPTO_SIGN_HASH_SID)\<lparr>iov_key_id := key, iov_alg := alg\<rparr>) [take (unat hn) hash] [n] w = ((PSA_SUCCESS, [r]), w') \<Longrightarrow>
      fst (fst (serve ((iov_init TFM_CRYPTO_VERIFY_HASH_SID)\<lparr>iov_key_id := key, iov_alg := alg\<rparr>) [take (unat hn) hash, r] [] w')) = PSA_SUCCESS"
  shows "\<exists>st buf' n c'. psa_sign_hash_ipc v key alg (Some hash) hn (Some buf) sz (Some n0) c = Some ((st, Some buf', Some n), c') \<and>
    n \<le> sz \<and> length buf' = length buf \<and> drop (unat n) buf' = drop (unat n) buf \<and>
    (st = PSA_SUCCESS \<longrightarrow> (\<exists>c''. psa_verify_hash_ipc v key alg (Some hash) hn (Some buf') n c' = Some (PSA_SUCCESS, c'')))"
proof -
  let ?iov = "(iov_init TFM_CRYPTO_SIGN_HASH_SID)\<lparr>iov_key_id := key, iov_alg := alg\<rparr>"
  let ?iov' = "(iov_init TFM_CRYPTO_VERIFY_HASH_SID)\<lparr>iov_key_id := key, iov_alg := alg\<rparr>"
  obtain st rs w' where s: "serve ?iov [take (unat hn) hash] [unat sz] (spm c) = ((st, rs), w')" by (metis prod.collapse)
  from crypto_partition.one_output [OF assms(1) s] obtain r where r: "rs = [r]" "length r \<le> unat sz" by blast
  have "unat sz < 2 ^ LENGTH(32)" by (rule unsigned_less)
  then have lr: "length r < 2 ^ 32" using r(2) by simp
  then have un: "unat (of_nat (length r) :: u32) = length r" by (simp add: unat_of_nat)
  let ?buf = "r @ drop (length r) buf" and ?c = "c\<lparr>spm := w'\<rparr>"
  have sign: "psa_sign_hash_ipc v key alg (Some hash) hn (Some buf) sz (Some n0) c = Some ((st, Some ?buf, Some (of_nat (length r))), ?c)"
    using crypto_partition.dispatch_served [OF assms(1,2), of ?iov "[invec (Some hash) hn]" "[outvec (Some buf) sz]" st rs w'] s r assms(3,4)
    by (simp add: psa_sign_hash_ipc_def at_index_def assign_def)
  have "\<exists>c''. psa_verify_hash_ipc v key alg (Some hash) hn (Some ?buf) (of_nat (length r)) ?c = Some (PSA_SUCCESS, c'')" if ok: "st = PSA_SUCCESS"
  proof -
    obtain rs' w'' where v: "serve ?iov' [take (unat hn) hash, r] [] w' = ((PSA_SUCCESS, rs'), w'')"
      using assms(5) [OF s [unfolded r(1) ok]] by (cases "serve ?iov' [take (unat hn) hash, r] [] w'") auto
    let ?ins = "[invec (Some hash) hn, invec (Some ?buf) (of_nat (length r))]"
    have "serve ?iov' (map in_data ?ins) [] (spm ?c) = ((PSA_SUCCESS, rs'), w'')" using v by (simp add: un)
    moreover have "list_all readable ?ins" "length (iov_nonce ?iov') = 16" "length ?ins \<le> 3" using assms(3) by (simp_all add: un)
    moreover have "ns_lock_mutex_id ?c \<noteq> Held" using assms(2) by simp
    ultimately show ?thesis
      using crypto_partition.dispatch_no_out_served [OF assms(1), of ?c ?iov' ?ins PSA_SUCCESS rs' w''] by (simp add: psa_verify_hash_ipc_def)
  qed
  with sign r(2) assms(4) un show ?thesis
    by (intro exI [of _ st] exI [of _ ?buf] exI [of _ "of_nat (length r)"] exI [of _ ?c]) (simp add: word_le_nat_alt)
qed

text \<open>
  The functions of authenticated encryption look at their arguments first. An optional
  buffer that is null with a length, a nonce that does not fit into the structure, a null pointer for a
  length that is needed: the result is an error and the secure side has not been called.
\<close>

theorem psa_aead_checks:
  "n \<noteq> 0 \<Longrightarrow> psa_aead_encrypt_ipc v key alg nonce nl None n pt pl ct cs cl c = Some ((PSA_ERROR_INVALID_ARGUMENT, ct, cl), c) \<and>
     psa_aead_decrypt_ipc v key alg nonce nl None n pt pl ct cs cl c = Some ((PSA_ERROR_INVALID_ARGUMENT, ct, cl), c) \<and>
     psa_aead_update_ad_ipc v (Some h) None n c = Some ((PSA_ERROR_INVALID_ARGUMENT, Some h), c) \<and>
     psa_aead_update_ipc v (Some h) None n ct cs cl c = Some ((PSA_ERROR_INVALID_ARGUMENT, Some h, ct, cl), c) \<and>
     psa_aead_finish_ipc v (Some h) None n cl tag ts tgl c = Some ((PSA_ERROR_INVALID_ARGUMENT, Some h, None, cl, tag, tgl), c) \<and>
     psa_aead_verify_ipc v (Some h) None n cl tag ts c = Some ((PSA_ERROR_INVALID_ARGUMENT, Some h, None, cl), c) \<and>
     psa_aead_finish_ipc v (Some h) (Some buf) n None tag ts tgl c = Some ((PSA_ERROR_INVALID_ARGUMENT, Some h, Some buf, None, tag, tgl), c) \<and>
     psa_aead_verify_ipc v (Some h) (Some buf) n None tag ts c = Some ((PSA_ERROR_INVALID_ARGUMENT, Some h, Some buf, None), c) \<and>
     (nl > 16 \<longrightarrow>
       psa_aead_encrypt_ipc v key alg nonce nl ad adl pt pl ct cs cl c = Some ((PSA_ERROR_INVALID_ARGUMENT, ct, cl), c) \<and>
       psa_aead_decrypt_ipc v key alg nonce nl ad adl pt pl ct cs cl c = Some ((PSA_ERROR_INVALID_ARGUMENT, ct, cl), c))"
  by (simp add: psa_aead_encrypt_ipc_def psa_aead_decrypt_ipc_def psa_aead_update_ad_ipc_def psa_aead_update_ipc_def
      psa_aead_finish_ipc_def psa_aead_verify_ipc_def TFM_CRYPTO_MAX_NONCE_LENGTH_def word_less_nat_alt)

text \<open>
  The last step of an encryption without room for text: a null pointer for the length passes the checks,
  the secure side finishes the operation, and then the store through the pointer has no meaning.
\<close>

lemma aead_finish_null_length:
  assumes "ciphertext = None \<and> ciphertext_size = 0 \<or> ciphertext \<noteq> None \<and> ciphertext_size = 0"
  shows "psa_aead_finish_ipc v (Some h) ciphertext ciphertext_size None tag tag_size tag_length c = None"
    and "psa_aead_verify_ipc v (Some h) ciphertext ciphertext_size None tag tag_size c = None"
proof -
  have "psa_aead_finish_ipc v (Some h) ciphertext ciphertext_size None tag tag_size tag_length c \<noteq> Some r" for r
    using assms by (auto simp: psa_aead_finish_ipc_def assign_def)
  then show "psa_aead_finish_ipc v (Some h) ciphertext ciphertext_size None tag tag_size tag_length c = None"
    by (rule not_Some_eq [THEN iffD1, OF allI])
  have "psa_aead_verify_ipc v (Some h) ciphertext ciphertext_size None tag tag_size c \<noteq> Some r" for r
    using assms by (auto simp: psa_aead_verify_ipc_def assign_def)
  then show "psa_aead_verify_ipc v (Some h) ciphertext ciphertext_size None tag tag_size c = None"
    by (rule not_Some_eq [THEN iffD1, OF allI])
qed

text \<open>The structure that carries the nonce.\<close>

definition aead_iov :: "crypto_sid \<Rightarrow> u32 \<Rightarrow> u32 \<Rightarrow> bytes \<Rightarrow> u32 \<Rightarrow> pack_iovec" where
  "aead_iov sid key alg nonce nl = (iov_init sid)\<lparr>iov_key_id := key, iov_alg := alg,
     iov_nonce := take (unat nl) nonce @ replicate (16 - unat nl) 0, iov_nonce_length := nl\<rparr>"

lemma pack_aead:
  assumes "unat nl \<le> length nonce" and "unat nl \<le> 16"
  shows "pack_nonce (Some nonce) nl ((iov_init sid)\<lparr>iov_key_id := key, iov_alg := alg\<rparr>) = Some (aead_iov sid key alg nonce nl)"
    and "length (iov_nonce (aead_iov sid key alg nonce nl)) = 16"
  using pack_nonce_correct [of nl nonce "(iov_init sid)\<lparr>iov_key_id := key, iov_alg := alg\<rparr>"] assms
  by (simp add: aead_iov_def iov_init_def TFM_CRYPTO_MAX_NONCE_LENGTH_def, simp add: aead_iov_def)

text \<open>The vectors of the additional data, without and with the one that does not count.\<close>

definition ad_vecs :: "bytes option \<Rightarrow> u32 \<Rightarrow> psa_invec list" where
  "ad_vecs ad adl = (case ad of None \<Rightarrow> [] | Some a \<Rightarrow> [invec (Some a) adl])"

lemma ad_vecs:
  assumes "case ad of None \<Rightarrow> adl = 0 | Some a \<Rightarrow> unat adl \<le> length a"
  shows "list_all readable (ad_vecs ad adl)" and "length (ad_vecs ad adl) \<le> 1"
    and "\<exists>rest. [x, y, invec ad adl] = x # (y # ad_vecs ad adl) @ rest"
    and "(if ad = None then 2 else 3) = (of_nat (Suc (Suc (length (ad_vecs ad adl)))) :: u32)"
    and "ad = None \<Longrightarrow> adl = 0"
  using assms by (auto simp: ad_vecs_def split: option.splits)

lemma aead_call:
  assumes "crypto_partition v serve" and "ns_lock_mutex_id c \<noteq> Held" and "unat nl \<le> length nonce" and "unat nl \<le> 16"
    and "unat il \<le> length d" and "unat n \<le> length b" and "case ad of None \<Rightarrow> adl = 0 | Some a \<Rightarrow> unat adl \<le> length a"
    and "serve (aead_iov sid key alg nonce nl) (take (unat il) d # map in_data (ad_vecs ad adl)) [unat n] (spm c) = ((st, [r]), w')"
  shows "crypto_call v [iov_vec (aead_iov sid key alg nonce nl), invec (Some d) il, invec ad adl] (if ad = None then 2 else 3)
      [outvec (Some b) n] 1 c = Some ((st, [outvec (Some (r @ drop (length r) b)) (of_nat (length r))]), c\<lparr>spm := w'\<rparr>)"
proof -
  note ad = ad_vecs [OF assms(7)]
  obtain rest where rest: "[iov_vec (aead_iov sid key alg nonce nl), invec (Some d) il, invec ad adl] =
      iov_vec (aead_iov sid key alg nonce nl) # (invec (Some d) il # ad_vecs ad adl) @ rest" using ad(3) by blast
  show ?thesis
    using crypto_partition.crypto_call_served [OF assms(1,2) pack_aead(2) [OF assms(3,4)], where ins = "invec (Some d) il # ad_vecs ad adl"
        and outs = "[outvec (Some b) n]" and outs' = "[]" and ins' = rest and n = 1 and i = "if ad = None then 2 else 3"] assms(5,6,8) ad(1,2,4)
    unfolding rest by (simp add: delivered_def)
qed

text \<open>
  C17: encryption and decryption through the secure side. The nonce travels inside the structure, the
  additional data in a vector that is left out when there is none. If the service decrypts what it
  encrypts under the same key, algorithm, nonce and data, then what one call wrote the other reads back.
\<close>

theorem psa_aead_roundtrip:
  assumes "crypto_partition v serve" and "ns_lock_mutex_id c \<noteq> Held"
    and "unat nl \<le> length nonce" and "unat nl \<le> 16" and "unat pl \<le> length pt" and "unat cs \<le> length ct" and "unat ps \<le> length out"
    and "case ad of None \<Rightarrow> adl = 0 | Some a \<Rightarrow> unat adl \<le> length a"
    and "\<And>ads n w r w'. serve (aead_iov TFM_CRYPTO_AEAD_ENCRYPT_SID key alg nonce nl) (take (unat pl) pt # ads) [n] w = ((PSA_SUCCESS, [r]), w') \<Longrightarrow>
      fst (serve (aead_iov TFM_CRYPTO_AEAD_DECRYPT_SID key alg nonce nl) (r # ads) [unat ps] w') = (PSA_SUCCESS, [take (unat pl) pt])"
  shows "\<exists>st ct' n c'. psa_aead_encrypt_ipc v key alg (Some nonce) nl ad adl (Some pt) pl (Some ct) cs (Some n0) c = Some ((st, Some ct', Some n), c') \<and>
    (st = PSA_SUCCESS \<longrightarrow> (\<exists>c''. psa_aead_decrypt_ipc v key alg (Some nonce) nl ad adl (Some ct') n (Some out) ps (Some n1) c' =
       Some ((PSA_SUCCESS, Some (take (unat pl) pt @ drop (unat pl) out), Some pl), c'')))"
proof -
  let ?iov = "\<lambda>sid. aead_iov sid key alg nonce nl"
  have args: "(ad = None \<and> adl \<noteq> 0 \<or> TFM_CRYPTO_MAX_NONCE_LENGTH < unat nl) = False"
    using ad_vecs(5) [OF assms(8)] assms(4) by (auto simp: TFM_CRYPTO_MAX_NONCE_LENGTH_def)
  note simps = psa_aead_encrypt_ipc_def psa_aead_decrypt_ipc_def args pack_aead(1) [OF assms(3,4)] at_index_def assign_def
  obtain st rs w' where s: "serve (?iov TFM_CRYPTO_AEAD_ENCRYPT_SID) (take (unat pl) pt # map in_data (ad_vecs ad adl)) [unat cs] (spm c) = ((st, rs), w')"
    by (metis prod.collapse)
  from crypto_partition.one_output [OF assms(1) s] obtain r where r: "rs = [r]" "length r \<le> unat cs" by blast
  have "unat cs < 2 ^ LENGTH(32)" by (rule unsigned_less)
  then have "length r < 2 ^ 32" using r(2) by simp
  then have un: "unat (of_nat (length r) :: u32) = length r" by (simp add: unat_of_nat)
  let ?ct = "r @ drop (length r) ct" and ?c = "c\<lparr>spm := w'\<rparr>"
  have enc: "psa_aead_encrypt_ipc v key alg (Some nonce) nl ad adl (Some pt) pl (Some ct) cs (Some n0) c =
      Some ((st, Some ?ct, Some (of_nat (length r))), ?c)"
    using aead_call [OF assms(1-6,8) s [unfolded r(1)]] by (simp add: simps)
  have "\<exists>c''. psa_aead_decrypt_ipc v key alg (Some nonce) nl ad adl (Some ?ct) (of_nat (length r)) (Some out) ps (Some n1) ?c =
       Some ((PSA_SUCCESS, Some (take (unat pl) pt @ drop (unat pl) out), Some pl), c'')" if "st = PSA_SUCCESS"
  proof -
    from assms(9) [OF s [unfolded r(1) that]] obtain w'' where
      d: "serve (?iov TFM_CRYPTO_AEAD_DECRYPT_SID) (r # map in_data (ad_vecs ad adl)) [unat ps] w' = ((PSA_SUCCESS, [take (unat pl) pt]), w'')"
      by (cases "serve (?iov TFM_CRYPTO_AEAD_DECRYPT_SID) (r # map in_data (ad_vecs ad adl)) [unat ps] w'") auto
    have "serve (?iov TFM_CRYPTO_AEAD_DECRYPT_SID) (take (unat (of_nat (length r) :: u32)) ?ct # map in_data (ad_vecs ad adl)) [unat ps] (spm ?c) =
        ((PSA_SUCCESS, [take (unat pl) pt]), w'')" using d by (simp add: un)
    from aead_call [OF assms(1) _ assms(3,4) _ assms(7,8) this] assms(2,5) un show ?thesis
      by (auto simp: simps)
  qed
  with enc show ?thesis by blast
qed


subsection \<open>A reference crypto service\<close>

text \<open>
  A service that unpacks what the client packed. Its signature of a digest is the digest backwards and its
  ciphertext the text with a tag: enough to show that the laws can hold.
\<close>

definition reference_serve :: "pack_iovec \<Rightarrow> bytes list \<Rightarrow> nat list \<Rightarrow> unit \<Rightarrow> (int \<times> bytes list) \<times> unit" where
  "reference_serve iov ds ns w =
     (let answer = \<lambda>r. if length ns = 1 \<and> length r \<le> hd ns then ((PSA_SUCCESS, [r]), ()) else ((-138, map (\<lambda>_. []) ns), ())
      in if iov_srv_id iov = sid_code TFM_CRYPTO_SIGN_HASH_SID then answer (rev (hd ds))
      else if iov_srv_id iov = sid_code TFM_CRYPTO_VERIFY_HASH_SID
      then ((if hd (tl ds) = rev (hd ds) then PSA_SUCCESS else -149, map (\<lambda>_. []) ns), ())
      else if iov_srv_id iov = sid_code TFM_CRYPTO_AEAD_ENCRYPT_SID then answer (hd ds @ [170])
      else if iov_srv_id iov = sid_code TFM_CRYPTO_AEAD_DECRYPT_SID then answer (butlast (hd ds))
      else ((PSA_ERROR_NOT_SUPPORTED, map (\<lambda>_. []) ns), ()))"

definition reference_crypto :: "unit veneers" where
  "reference_crypto =
     \<lparr> tfm_psa_framework_version_veneer = (\<lambda>w. Some (0x0101, w)),
       tfm_psa_version_veneer = (\<lambda>sid w. Some (1, w)),
       tfm_psa_connect_veneer = (\<lambda>sid ver w. Some (-130, w)),
       tfm_psa_close_veneer = (\<lambda>k w. None),
       tfm_psa_call_veneer = (\<lambda>k p ins outs w.
         if k \<noteq> 0x40000100 then None
         else case ins of Some (i # is') \<Rightarrow>
           (let n = unat (packed_in_len p) - 1; m = unat (packed_out_len p);
                os = (case outs of None \<Rightarrow> [] | Some os \<Rightarrow> os);
                ((st, rs), w') = reference_serve (iov_of (the (in_base i))) (map in_data (take n is')) (map (\<lambda>x. unat (out_size x)) (take m os)) w
            in Some ((st, map_option (\<lambda>os. map2 delivered (take m os) rs @ drop m os) outs), w'))
         | _ \<Rightarrow> None) \<rparr>"

lemma unat_count: "k \<le> 4 \<Longrightarrow> unat (of_nat k :: u32) = k"
  by (simp add: unat_of_nat)

interpretation reference_crypto: crypto_partition reference_crypto reference_serve
proof unfold_locales
  fix iov ds ns w st rs w'
  assume "reference_serve iov ds ns w = ((st, rs), w')"
  then show "list_all2 (\<lambda>r n. length r \<le> n) rs ns"
    by (auto simp: reference_serve_def Let_def list_all2_conv_all_nth length_Suc_conv split: if_splits)
next
  fix iov ins outs w st rs w' ins' outs'
  assume a: "length (iov_nonce iov) = 16" "Suc (length ins) + length (outs :: psa_outvec list) \<le> 4"
    and s: "reference_serve iov (map in_data ins) (map (\<lambda>x. unat (out_size x)) outs) w = ((st, rs), w')"
  have "Suc (length ins) \<le> 4" "length outs \<le> 4" using a(2) by simp_all
  note n = packed [OF small_count [OF this(1)] small_count [OF this(2)]] unat_count [OF this(1)] unat_count [OF this(2)]
  show "tfm_psa_call_veneer reference_crypto (of_int TFM_CRYPTO_HANDLE) (PARAM_PACK 0 (of_nat (Suc (length ins))) (of_nat (length outs)))
        (Some (iov_vec iov # ins @ ins')) (Some (outs @ outs')) w = Some ((st, Some (map2 delivered outs rs @ outs')), w')"
    unfolding reference_crypto_def iov_vec_def TFM_CRYPTO_HANDLE_def using s by (simp add: n a(1) del: of_nat_Suc)
next
  fix iov ins w st w'
  assume a: "length (iov_nonce iov) = 16" "length ins \<le> 3" and s: "reference_serve iov (map in_data ins) [] w = ((st, []), w')"
  have "Suc (length ins) \<le> 4" using a(2) by simp
  note n = packed [OF small_count [OF this] order.refl [of 255, THEN order_trans [OF word_zero_le]]] unat_count [OF this]
  show "tfm_psa_call_veneer reference_crypto (of_int TFM_CRYPTO_HANDLE) (PARAM_PACK 0 (of_nat (Suc (length ins))) 0) (Some (iov_vec iov # ins)) None w =
        Some ((st, None), w')"
    unfolding reference_crypto_def iov_vec_def TFM_CRYPTO_HANDLE_def using s by (simp add: n a(1) del: of_nat_Suc)
qed

lemma reference_signs:
  "reference_serve ((iov_init TFM_CRYPTO_SIGN_HASH_SID)\<lparr>iov_key_id := key, iov_alg := alg\<rparr>) [d] [n] w = ((PSA_SUCCESS, [r]), w') \<Longrightarrow>
   fst (fst (reference_serve ((iov_init TFM_CRYPTO_VERIFY_HASH_SID)\<lparr>iov_key_id := key, iov_alg := alg\<rparr>) [d, r] [] w')) = PSA_SUCCESS"
  by (auto simp: reference_serve_def iov_init_def PSA_SUCCESS_def split: if_splits)

lemma reference_decrypts:
  "reference_serve (aead_iov TFM_CRYPTO_AEAD_ENCRYPT_SID key alg nonce nl) (d # ads) [n] w = ((PSA_SUCCESS, [r]), w') \<Longrightarrow>
   length d \<le> k \<Longrightarrow>
   fst (reference_serve (aead_iov TFM_CRYPTO_AEAD_DECRYPT_SID key alg nonce nl) (r # ads) [k] w') = (PSA_SUCCESS, [d])"
  by (auto simp: reference_serve_def aead_iov_def iov_init_def PSA_SUCCESS_def split: if_splits)

theorem psa_sign_then_verify_witness:
  "\<exists>st buf' n c'. psa_sign_hash_ipc reference_crypto 1 0x06000609 (Some [1, 2, 3]) 3 (Some [0, 0, 0, 0]) 4 (Some 0) (at_rest ()) =
      Some ((st, Some buf', Some n), c') \<and>
    (st = PSA_SUCCESS \<longrightarrow> (\<exists>c''. psa_verify_hash_ipc reference_crypto 1 0x06000609 (Some [1, 2, 3]) 3 (Some buf') n c' = Some (PSA_SUCCESS, c'')))"
proof -
  have "\<exists>st buf' n c'. psa_sign_hash_ipc reference_crypto 1 0x06000609 (Some [1, 2, 3]) 3 (Some [0, 0, 0, 0]) 4 (Some 0) (at_rest ()) =
      Some ((st, Some buf', Some n), c') \<and>
    n \<le> 4 \<and> length buf' = length [0, 0, 0, 0 :: u8] \<and> drop (unat n) buf' = drop (unat n) [0, 0, 0, 0] \<and>
    (st = PSA_SUCCESS \<longrightarrow> (\<exists>c''. psa_verify_hash_ipc reference_crypto 1 0x06000609 (Some [1, 2, 3]) 3 (Some buf') n c' = Some (PSA_SUCCESS, c'')))"
    by (rule psa_sign_then_verify [OF reference_crypto.crypto_partition_axioms])
      (simp, simp, simp, rule reference_signs)
  then show ?thesis by blast
qed

theorem psa_aead_checks_witness:
  "psa_aead_encrypt_ipc reference_crypto 1 2 None 0 None 5 None 0 (Some [9]) 1 (Some 0) (at_rest ()) =
     Some ((PSA_ERROR_INVALID_ARGUMENT, Some [9], Some 0), at_rest ())"
  using psa_aead_checks [of 5 reference_crypto 1 2 None 0 None 0 "Some [9]" 1 "Some 0" "at_rest ()"] by simp

theorem psa_aead_roundtrip_witness:
  "\<exists>st ct' n c'. psa_aead_encrypt_ipc reference_crypto 1 2 (Some [5, 6]) 2 None 0 (Some [1, 2, 3]) 3 (Some (replicate 8 0)) 8 (Some 0) (at_rest ()) =
      Some ((st, Some ct', Some n), c') \<and>
    (st = PSA_SUCCESS \<longrightarrow> (\<exists>c''. psa_aead_decrypt_ipc reference_crypto 1 2 (Some [5, 6]) 2 None 0 (Some ct') n (Some (replicate 4 0)) 4 (Some 0) c' =
       Some ((PSA_SUCCESS, Some [1, 2, 3, 0], Some 3), c'')))"
proof -
  have "reference_serve (aead_iov TFM_CRYPTO_AEAD_ENCRYPT_SID 1 2 [5, 6] 2) (take (unat (3 :: u32)) [1, 2, 3] # ads) [n] w = ((PSA_SUCCESS, [r]), w') \<Longrightarrow>
      fst (reference_serve (aead_iov TFM_CRYPTO_AEAD_DECRYPT_SID 1 2 [5, 6] 2) (r # ads) [unat (4 :: u32)] w') = (PSA_SUCCESS, [take (unat (3 :: u32)) [1, 2, 3]])"
    for ads n w r w' by (rule reference_decrypts) simp_all
  from psa_aead_roundtrip [OF reference_crypto.crypto_partition_axioms _ _ _ _ _ _ _ this, where c = "at_rest ()" and cs = 8
      and ct = "replicate 8 0" and out = "replicate 4 0" and ad = None and adl = 0 and ?n0.0 = 0 and ?n1.0 = 0]
  show ?thesis by simp
qed

end
