(* ===== verification/PsaValues.thy ===== *)
theory PsaValues
  imports PsaIpc P11Crypto
begin

text \<open>
  The encodings of PSA Crypto (\<open>psa/crypto_values.h\<close>): key types of 16 bits, algorithms, lifetimes and usage flags of 32
  bits, their fields and the macros that build them and take them apart. A macro is the function with its
  name on words of the width of its C type.
\<close>

subsection \<open>Status codes\<close>

definition PSA_ERROR_ALREADY_EXISTS :: int where "PSA_ERROR_ALREADY_EXISTS = -139"
definition PSA_ERROR_INSUFFICIENT_MEMORY :: int where "PSA_ERROR_INSUFFICIENT_MEMORY = -141"
definition PSA_ERROR_INSUFFICIENT_STORAGE :: int where "PSA_ERROR_INSUFFICIENT_STORAGE = -142"
definition PSA_ERROR_COMMUNICATION_FAILURE :: int where "PSA_ERROR_COMMUNICATION_FAILURE = -145"
definition PSA_ERROR_STORAGE_FAILURE :: int where "PSA_ERROR_STORAGE_FAILURE = -146"
definition PSA_ERROR_HARDWARE_FAILURE :: int where "PSA_ERROR_HARDWARE_FAILURE = -147"
definition PSA_ERROR_CORRUPTION_DETECTED :: int where "PSA_ERROR_CORRUPTION_DETECTED = -151"
definition PSA_ERROR_INSUFFICIENT_ENTROPY :: int where "PSA_ERROR_INSUFFICIENT_ENTROPY = -148"
definition PSA_ERROR_INVALID_PADDING :: int where "PSA_ERROR_INVALID_PADDING = -150"
definition PSA_ERROR_INSUFFICIENT_DATA :: int where "PSA_ERROR_INSUFFICIENT_DATA = -143"
definition PSA_ERROR_INVALID_HANDLE :: int where "PSA_ERROR_INVALID_HANDLE = -136"
definition PSA_ERROR_DATA_CORRUPT :: int where "PSA_ERROR_DATA_CORRUPT = -152"
definition PSA_ERROR_DATA_INVALID :: int where "PSA_ERROR_DATA_INVALID = -153"

subsection \<open>Key types\<close>

definition PSA_KEY_TYPE_NONE :: u16 where "PSA_KEY_TYPE_NONE = 0x0000"
definition PSA_KEY_TYPE_VENDOR_FLAG :: u16 where "PSA_KEY_TYPE_VENDOR_FLAG = 0x8000"
definition PSA_KEY_TYPE_CATEGORY_MASK :: u16 where "PSA_KEY_TYPE_CATEGORY_MASK = 0x7000"
definition PSA_KEY_TYPE_CATEGORY_RAW :: u16 where "PSA_KEY_TYPE_CATEGORY_RAW = 0x1000"
definition PSA_KEY_TYPE_CATEGORY_SYMMETRIC :: u16 where "PSA_KEY_TYPE_CATEGORY_SYMMETRIC = 0x2000"
definition PSA_KEY_TYPE_CATEGORY_PUBLIC_KEY :: u16 where "PSA_KEY_TYPE_CATEGORY_PUBLIC_KEY = 0x4000"
definition PSA_KEY_TYPE_CATEGORY_KEY_PAIR :: u16 where "PSA_KEY_TYPE_CATEGORY_KEY_PAIR = 0x7000"
definition PSA_KEY_TYPE_CATEGORY_FLAG_PAIR :: u16 where "PSA_KEY_TYPE_CATEGORY_FLAG_PAIR = 0x3000"
definition PSA_KEY_TYPE_RAW_DATA :: u16 where "PSA_KEY_TYPE_RAW_DATA = 0x1001"
definition PSA_KEY_TYPE_HMAC :: u16 where "PSA_KEY_TYPE_HMAC = 0x1100"
definition PSA_KEY_TYPE_DERIVE :: u16 where "PSA_KEY_TYPE_DERIVE = 0x1200"
definition PSA_KEY_TYPE_PASSWORD :: u16 where "PSA_KEY_TYPE_PASSWORD = 0x1203"
definition PSA_KEY_TYPE_PASSWORD_HASH :: u16 where "PSA_KEY_TYPE_PASSWORD_HASH = 0x1205"
definition PSA_KEY_TYPE_PEPPER :: u16 where "PSA_KEY_TYPE_PEPPER = 0x1206"
definition PSA_KEY_TYPE_AES :: u16 where "PSA_KEY_TYPE_AES = 0x2400"
definition PSA_KEY_TYPE_ARIA :: u16 where "PSA_KEY_TYPE_ARIA = 0x2406"
definition PSA_KEY_TYPE_DES :: u16 where "PSA_KEY_TYPE_DES = 0x2301"
definition PSA_KEY_TYPE_CAMELLIA :: u16 where "PSA_KEY_TYPE_CAMELLIA = 0x2403"
definition PSA_KEY_TYPE_CHACHA20 :: u16 where "PSA_KEY_TYPE_CHACHA20 = 0x2004"
definition PSA_KEY_TYPE_RSA_PUBLIC_KEY :: u16 where "PSA_KEY_TYPE_RSA_PUBLIC_KEY = 0x4001"
definition PSA_KEY_TYPE_ECC_PUBLIC_KEY_BASE :: u16 where "PSA_KEY_TYPE_ECC_PUBLIC_KEY_BASE = 0x4100"
definition PSA_KEY_TYPE_ECC_KEY_PAIR_BASE :: u16 where "PSA_KEY_TYPE_ECC_KEY_PAIR_BASE = 0x7100"
definition PSA_KEY_TYPE_ECC_CURVE_MASK :: u16 where "PSA_KEY_TYPE_ECC_CURVE_MASK = 0x00ff"
definition PSA_KEY_TYPE_DH_PUBLIC_KEY_BASE :: u16 where "PSA_KEY_TYPE_DH_PUBLIC_KEY_BASE = 0x4200"
definition PSA_KEY_TYPE_DH_KEY_PAIR_BASE :: u16 where "PSA_KEY_TYPE_DH_KEY_PAIR_BASE = 0x7200"
definition PSA_KEY_TYPE_DH_GROUP_MASK :: u16 where "PSA_KEY_TYPE_DH_GROUP_MASK = 0x00ff"
definition PSA_ECC_FAMILY_SECP_K1 :: u8 where "PSA_ECC_FAMILY_SECP_K1 = 0x17"
definition PSA_ECC_FAMILY_SECP_R1 :: u8 where "PSA_ECC_FAMILY_SECP_R1 = 0x12"
definition PSA_ECC_FAMILY_SECP_R2 :: u8 where "PSA_ECC_FAMILY_SECP_R2 = 0x1b"
definition PSA_ECC_FAMILY_SECT_K1 :: u8 where "PSA_ECC_FAMILY_SECT_K1 = 0x27"
definition PSA_ECC_FAMILY_SECT_R1 :: u8 where "PSA_ECC_FAMILY_SECT_R1 = 0x22"
definition PSA_ECC_FAMILY_SECT_R2 :: u8 where "PSA_ECC_FAMILY_SECT_R2 = 0x2b"
definition PSA_ECC_FAMILY_BRAINPOOL_P_R1 :: u8 where "PSA_ECC_FAMILY_BRAINPOOL_P_R1 = 0x30"
definition PSA_ECC_FAMILY_MONTGOMERY :: u8 where "PSA_ECC_FAMILY_MONTGOMERY = 0x41"
definition PSA_ECC_FAMILY_TWISTED_EDWARDS :: u8 where "PSA_ECC_FAMILY_TWISTED_EDWARDS = 0x42"
definition PSA_DH_FAMILY_RFC7919 :: u8 where "PSA_DH_FAMILY_RFC7919 = 0x03"
definition PSA_KEY_TYPE_IS_VENDOR_DEFINED :: "u16 \<Rightarrow> bool" where
  "PSA_KEY_TYPE_IS_VENDOR_DEFINED type = (type AND PSA_KEY_TYPE_VENDOR_FLAG \<noteq> 0)"
definition PSA_KEY_TYPE_IS_UNSTRUCTURED :: "u16 \<Rightarrow> bool" where
  "PSA_KEY_TYPE_IS_UNSTRUCTURED type =
     (type AND PSA_KEY_TYPE_CATEGORY_MASK = PSA_KEY_TYPE_CATEGORY_RAW \<or>
      type AND PSA_KEY_TYPE_CATEGORY_MASK = PSA_KEY_TYPE_CATEGORY_SYMMETRIC)"
definition PSA_KEY_TYPE_IS_ASYMMETRIC :: "u16 \<Rightarrow> bool" where
  "PSA_KEY_TYPE_IS_ASYMMETRIC type =
     (type AND PSA_KEY_TYPE_CATEGORY_MASK AND NOT PSA_KEY_TYPE_CATEGORY_FLAG_PAIR = PSA_KEY_TYPE_CATEGORY_PUBLIC_KEY)"
definition PSA_KEY_TYPE_IS_PUBLIC_KEY :: "u16 \<Rightarrow> bool" where
  "PSA_KEY_TYPE_IS_PUBLIC_KEY type = (type AND PSA_KEY_TYPE_CATEGORY_MASK = PSA_KEY_TYPE_CATEGORY_PUBLIC_KEY)"
definition PSA_KEY_TYPE_IS_KEY_PAIR :: "u16 \<Rightarrow> bool" where
  "PSA_KEY_TYPE_IS_KEY_PAIR type = (type AND PSA_KEY_TYPE_CATEGORY_MASK = PSA_KEY_TYPE_CATEGORY_KEY_PAIR)"
definition PSA_KEY_TYPE_KEY_PAIR_OF_PUBLIC_KEY :: "u16 \<Rightarrow> u16" where
  "PSA_KEY_TYPE_KEY_PAIR_OF_PUBLIC_KEY type = type OR PSA_KEY_TYPE_CATEGORY_FLAG_PAIR"
definition PSA_KEY_TYPE_PUBLIC_KEY_OF_KEY_PAIR :: "u16 \<Rightarrow> u16" where
  "PSA_KEY_TYPE_PUBLIC_KEY_OF_KEY_PAIR type = type AND NOT PSA_KEY_TYPE_CATEGORY_FLAG_PAIR"
definition PSA_KEY_TYPE_IS_RSA :: "u16 \<Rightarrow> bool" where
  "PSA_KEY_TYPE_IS_RSA type = (PSA_KEY_TYPE_PUBLIC_KEY_OF_KEY_PAIR type = PSA_KEY_TYPE_RSA_PUBLIC_KEY)"
definition PSA_KEY_TYPE_IS_ECC :: "u16 \<Rightarrow> bool" where
  "PSA_KEY_TYPE_IS_ECC type =
     (PSA_KEY_TYPE_PUBLIC_KEY_OF_KEY_PAIR type AND NOT PSA_KEY_TYPE_ECC_CURVE_MASK = PSA_KEY_TYPE_ECC_PUBLIC_KEY_BASE)"
definition PSA_KEY_TYPE_IS_ECC_KEY_PAIR :: "u16 \<Rightarrow> bool" where
  "PSA_KEY_TYPE_IS_ECC_KEY_PAIR type = (type AND NOT PSA_KEY_TYPE_ECC_CURVE_MASK = PSA_KEY_TYPE_ECC_KEY_PAIR_BASE)"
definition PSA_KEY_TYPE_IS_ECC_PUBLIC_KEY :: "u16 \<Rightarrow> bool" where
  "PSA_KEY_TYPE_IS_ECC_PUBLIC_KEY type = (type AND NOT PSA_KEY_TYPE_ECC_CURVE_MASK = PSA_KEY_TYPE_ECC_PUBLIC_KEY_BASE)"
definition PSA_KEY_TYPE_ECC_GET_FAMILY :: "u16 \<Rightarrow> u8" where
  "PSA_KEY_TYPE_ECC_GET_FAMILY type = ucast (if PSA_KEY_TYPE_IS_ECC type then type AND PSA_KEY_TYPE_ECC_CURVE_MASK else 0)"
definition PSA_KEY_TYPE_DH_KEY_PAIR :: "u8 \<Rightarrow> u16" where
  "PSA_KEY_TYPE_DH_KEY_PAIR grp = PSA_KEY_TYPE_DH_KEY_PAIR_BASE OR ucast grp"
definition PSA_KEY_TYPE_DH_PUBLIC_KEY :: "u8 \<Rightarrow> u16" where
  "PSA_KEY_TYPE_DH_PUBLIC_KEY grp = PSA_KEY_TYPE_DH_PUBLIC_KEY_BASE OR ucast grp"
definition PSA_KEY_TYPE_IS_DH :: "u16 \<Rightarrow> bool" where
  "PSA_KEY_TYPE_IS_DH type =
     (PSA_KEY_TYPE_PUBLIC_KEY_OF_KEY_PAIR type AND NOT PSA_KEY_TYPE_DH_GROUP_MASK = PSA_KEY_TYPE_DH_PUBLIC_KEY_BASE)"
definition PSA_KEY_TYPE_IS_DH_KEY_PAIR :: "u16 \<Rightarrow> bool" where
  "PSA_KEY_TYPE_IS_DH_KEY_PAIR type = (type AND NOT PSA_KEY_TYPE_DH_GROUP_MASK = PSA_KEY_TYPE_DH_KEY_PAIR_BASE)"
definition PSA_KEY_TYPE_IS_DH_PUBLIC_KEY :: "u16 \<Rightarrow> bool" where
  "PSA_KEY_TYPE_IS_DH_PUBLIC_KEY type = (type AND NOT PSA_KEY_TYPE_DH_GROUP_MASK = PSA_KEY_TYPE_DH_PUBLIC_KEY_BASE)"
definition PSA_KEY_TYPE_DH_GET_FAMILY :: "u16 \<Rightarrow> u8" where
  "PSA_KEY_TYPE_DH_GET_FAMILY type = ucast (if PSA_KEY_TYPE_IS_DH type then type AND PSA_KEY_TYPE_DH_GROUP_MASK else 0)"
definition PSA_GET_KEY_TYPE_BLOCK_SIZE_EXPONENT :: "u16 \<Rightarrow> nat" where
  "PSA_GET_KEY_TYPE_BLOCK_SIZE_EXPONENT type = unat (drop_bit 8 type AND 7)"
definition PSA_BLOCK_CIPHER_BLOCK_LENGTH :: "u16 \<Rightarrow> nat" where
  "PSA_BLOCK_CIPHER_BLOCK_LENGTH type =
     (if type AND PSA_KEY_TYPE_CATEGORY_MASK = PSA_KEY_TYPE_CATEGORY_SYMMETRIC
      then 2 ^ PSA_GET_KEY_TYPE_BLOCK_SIZE_EXPONENT type else 0)"

subsection \<open>Algorithms\<close>

definition PSA_ALG_VENDOR_FLAG :: u32 where "PSA_ALG_VENDOR_FLAG = 0x80000000"
definition PSA_ALG_CATEGORY_MASK :: u32 where "PSA_ALG_CATEGORY_MASK = 0x7f000000"
definition PSA_ALG_CATEGORY_HASH :: u32 where "PSA_ALG_CATEGORY_HASH = 0x02000000"
definition PSA_ALG_CATEGORY_MAC :: u32 where "PSA_ALG_CATEGORY_MAC = 0x03000000"
definition PSA_ALG_CATEGORY_CIPHER :: u32 where "PSA_ALG_CATEGORY_CIPHER = 0x04000000"
definition PSA_ALG_CATEGORY_AEAD :: u32 where "PSA_ALG_CATEGORY_AEAD = 0x05000000"
definition PSA_ALG_CATEGORY_SIGN :: u32 where "PSA_ALG_CATEGORY_SIGN = 0x06000000"
definition PSA_ALG_CATEGORY_ASYMMETRIC_ENCRYPTION :: u32 where "PSA_ALG_CATEGORY_ASYMMETRIC_ENCRYPTION = 0x07000000"
definition PSA_ALG_CATEGORY_KEY_DERIVATION :: u32 where "PSA_ALG_CATEGORY_KEY_DERIVATION = 0x08000000"
definition PSA_ALG_CATEGORY_KEY_AGREEMENT :: u32 where "PSA_ALG_CATEGORY_KEY_AGREEMENT = 0x09000000"
definition PSA_ALG_NONE :: u32 where "PSA_ALG_NONE = 0"
definition PSA_ALG_HASH_MASK :: u32 where "PSA_ALG_HASH_MASK = 0x000000ff"
definition PSA_ALG_MD5 :: u32 where "PSA_ALG_MD5 = 0x02000003"
definition PSA_ALG_RIPEMD160 :: u32 where "PSA_ALG_RIPEMD160 = 0x02000004"
definition PSA_ALG_SHA_1 :: u32 where "PSA_ALG_SHA_1 = 0x02000005"
definition PSA_ALG_SHA_224 :: u32 where "PSA_ALG_SHA_224 = 0x02000008"
definition PSA_ALG_SHA_384 :: u32 where "PSA_ALG_SHA_384 = 0x0200000a"
definition PSA_ALG_SHA_512 :: u32 where "PSA_ALG_SHA_512 = 0x0200000b"
definition PSA_ALG_SHA_512_224 :: u32 where "PSA_ALG_SHA_512_224 = 0x0200000c"
definition PSA_ALG_SHA_512_256 :: u32 where "PSA_ALG_SHA_512_256 = 0x0200000d"
definition PSA_ALG_SHA3_224 :: u32 where "PSA_ALG_SHA3_224 = 0x02000010"
definition PSA_ALG_SHA3_256 :: u32 where "PSA_ALG_SHA3_256 = 0x02000011"
definition PSA_ALG_SHA3_384 :: u32 where "PSA_ALG_SHA3_384 = 0x02000012"
definition PSA_ALG_SHA3_512 :: u32 where "PSA_ALG_SHA3_512 = 0x02000013"
definition PSA_ALG_SHAKE256_512 :: u32 where "PSA_ALG_SHAKE256_512 = 0x02000015"
definition PSA_ALG_ANY_HASH :: u32 where "PSA_ALG_ANY_HASH = 0x020000ff"
definition PSA_ALG_MAC_SUBCATEGORY_MASK :: u32 where "PSA_ALG_MAC_SUBCATEGORY_MASK = 0x00c00000"
definition PSA_ALG_HMAC_BASE :: u32 where "PSA_ALG_HMAC_BASE = 0x03800000"
definition PSA_ALG_MAC_TRUNCATION_MASK :: u32 where "PSA_ALG_MAC_TRUNCATION_MASK = 0x003f0000"
definition PSA_ALG_MAC_AT_LEAST_THIS_LENGTH_FLAG :: u32 where "PSA_ALG_MAC_AT_LEAST_THIS_LENGTH_FLAG = 0x00008000"
definition PSA_ALG_CIPHER_MAC_BASE :: u32 where "PSA_ALG_CIPHER_MAC_BASE = 0x03c00000"
definition PSA_ALG_CBC_MAC :: u32 where "PSA_ALG_CBC_MAC = 0x03c00100"
definition PSA_ALG_CMAC :: u32 where "PSA_ALG_CMAC = 0x03c00200"
definition PSA_ALG_CIPHER_STREAM_FLAG :: u32 where "PSA_ALG_CIPHER_STREAM_FLAG = 0x00800000"
definition PSA_ALG_CIPHER_FROM_BLOCK_FLAG :: u32 where "PSA_ALG_CIPHER_FROM_BLOCK_FLAG = 0x00400000"
definition PSA_ALG_STREAM_CIPHER :: u32 where "PSA_ALG_STREAM_CIPHER = 0x04800100"
definition PSA_ALG_CTR :: u32 where "PSA_ALG_CTR = 0x04c01000"
definition PSA_ALG_CFB :: u32 where "PSA_ALG_CFB = 0x04c01100"
definition PSA_ALG_OFB :: u32 where "PSA_ALG_OFB = 0x04c01200"
definition PSA_ALG_XTS :: u32 where "PSA_ALG_XTS = 0x0440ff00"
definition PSA_ALG_ECB_NO_PADDING :: u32 where "PSA_ALG_ECB_NO_PADDING = 0x04404400"
definition PSA_ALG_CBC_NO_PADDING :: u32 where "PSA_ALG_CBC_NO_PADDING = 0x04404000"
definition PSA_ALG_CBC_PKCS7 :: u32 where "PSA_ALG_CBC_PKCS7 = 0x04404100"
definition PSA_ALG_AEAD_FROM_BLOCK_FLAG :: u32 where "PSA_ALG_AEAD_FROM_BLOCK_FLAG = 0x00400000"
definition PSA_ALG_CCM :: u32 where "PSA_ALG_CCM = 0x05500100"
definition PSA_ALG_CCM_STAR_NO_TAG :: u32 where "PSA_ALG_CCM_STAR_NO_TAG = 0x04c01300"
definition PSA_ALG_GCM :: u32 where "PSA_ALG_GCM = 0x05500200"
definition PSA_ALG_CHACHA20_POLY1305 :: u32 where "PSA_ALG_CHACHA20_POLY1305 = 0x05100500"
definition PSA_ALG_AEAD_TAG_LENGTH_MASK :: u32 where "PSA_ALG_AEAD_TAG_LENGTH_MASK = 0x003f0000"
definition PSA_ALG_AEAD_AT_LEAST_THIS_LENGTH_FLAG :: u32 where "PSA_ALG_AEAD_AT_LEAST_THIS_LENGTH_FLAG = 0x00008000"
definition PSA_ALG_RSA_PKCS1V15_SIGN_BASE :: u32 where "PSA_ALG_RSA_PKCS1V15_SIGN_BASE = 0x06000200"
definition PSA_ALG_RSA_PSS_BASE :: u32 where "PSA_ALG_RSA_PSS_BASE = 0x06000300"
definition PSA_ALG_RSA_PSS_ANY_SALT_BASE :: u32 where "PSA_ALG_RSA_PSS_ANY_SALT_BASE = 0x06001300"
definition PSA_ALG_ECDSA_BASE :: u32 where "PSA_ALG_ECDSA_BASE = 0x06000600"
definition PSA_ALG_DETERMINISTIC_ECDSA_BASE :: u32 where "PSA_ALG_DETERMINISTIC_ECDSA_BASE = 0x06000700"
definition PSA_ALG_ECDSA_DETERMINISTIC_FLAG :: u32 where "PSA_ALG_ECDSA_DETERMINISTIC_FLAG = 0x00000100"
definition PSA_ALG_PURE_EDDSA :: u32 where "PSA_ALG_PURE_EDDSA = 0x06000800"
definition PSA_ALG_HASH_EDDSA_BASE :: u32 where "PSA_ALG_HASH_EDDSA_BASE = 0x06000900"
definition PSA_ALG_RSA_PKCS1V15_CRYPT :: u32 where "PSA_ALG_RSA_PKCS1V15_CRYPT = 0x07000200"
definition PSA_ALG_RSA_OAEP_BASE :: u32 where "PSA_ALG_RSA_OAEP_BASE = 0x07000300"
definition PSA_ALG_HKDF_BASE :: u32 where "PSA_ALG_HKDF_BASE = 0x08000100"
definition PSA_ALG_TLS12_PRF_BASE :: u32 where "PSA_ALG_TLS12_PRF_BASE = 0x08000200"
definition PSA_ALG_TLS12_PSK_TO_MS_BASE :: u32 where "PSA_ALG_TLS12_PSK_TO_MS_BASE = 0x08000300"
definition PSA_ALG_KEY_DERIVATION_STRETCHING_FLAG :: u32 where "PSA_ALG_KEY_DERIVATION_STRETCHING_FLAG = 0x00800000"
definition PSA_ALG_PBKDF2_HMAC_BASE :: u32 where "PSA_ALG_PBKDF2_HMAC_BASE = 0x08800100"
definition PSA_ALG_PBKDF2_AES_CMAC_PRF_128 :: u32 where "PSA_ALG_PBKDF2_AES_CMAC_PRF_128 = 0x08800200"
definition PSA_ALG_KEY_DERIVATION_MASK :: u32 where "PSA_ALG_KEY_DERIVATION_MASK = 0xfe00ffff"
definition PSA_ALG_KEY_AGREEMENT_MASK :: u32 where "PSA_ALG_KEY_AGREEMENT_MASK = 0xffff0000"
definition PSA_ALG_FFDH :: u32 where "PSA_ALG_FFDH = 0x09010000"
definition PSA_ALG_ECDH :: u32 where "PSA_ALG_ECDH = 0x09020000"

definition PSA_ALG_IS_VENDOR_DEFINED :: "u32 \<Rightarrow> bool" where
  "PSA_ALG_IS_VENDOR_DEFINED alg = (alg AND PSA_ALG_VENDOR_FLAG \<noteq> 0)"
definition PSA_ALG_IS_HASH :: "u32 \<Rightarrow> bool" where
  "PSA_ALG_IS_HASH alg = (alg AND PSA_ALG_CATEGORY_MASK = PSA_ALG_CATEGORY_HASH)"
definition PSA_ALG_IS_MAC :: "u32 \<Rightarrow> bool" where
  "PSA_ALG_IS_MAC alg = (alg AND PSA_ALG_CATEGORY_MASK = PSA_ALG_CATEGORY_MAC)"
definition PSA_ALG_IS_CIPHER :: "u32 \<Rightarrow> bool" where
  "PSA_ALG_IS_CIPHER alg = (alg AND PSA_ALG_CATEGORY_MASK = PSA_ALG_CATEGORY_CIPHER)"
definition PSA_ALG_IS_AEAD :: "u32 \<Rightarrow> bool" where
  "PSA_ALG_IS_AEAD alg = (alg AND PSA_ALG_CATEGORY_MASK = PSA_ALG_CATEGORY_AEAD)"
definition PSA_ALG_IS_SIGN :: "u32 \<Rightarrow> bool" where
  "PSA_ALG_IS_SIGN alg = (alg AND PSA_ALG_CATEGORY_MASK = PSA_ALG_CATEGORY_SIGN)"
definition PSA_ALG_IS_ASYMMETRIC_ENCRYPTION :: "u32 \<Rightarrow> bool" where
  "PSA_ALG_IS_ASYMMETRIC_ENCRYPTION alg = (alg AND PSA_ALG_CATEGORY_MASK = PSA_ALG_CATEGORY_ASYMMETRIC_ENCRYPTION)"
definition PSA_ALG_IS_KEY_AGREEMENT :: "u32 \<Rightarrow> bool" where
  "PSA_ALG_IS_KEY_AGREEMENT alg = (alg AND PSA_ALG_CATEGORY_MASK = PSA_ALG_CATEGORY_KEY_AGREEMENT)"
definition PSA_ALG_IS_KEY_DERIVATION :: "u32 \<Rightarrow> bool" where
  "PSA_ALG_IS_KEY_DERIVATION alg = (alg AND PSA_ALG_CATEGORY_MASK = PSA_ALG_CATEGORY_KEY_DERIVATION)"
definition PSA_ALG_IS_KEY_DERIVATION_STRETCHING :: "u32 \<Rightarrow> bool" where
  "PSA_ALG_IS_KEY_DERIVATION_STRETCHING alg =
     (PSA_ALG_IS_KEY_DERIVATION alg \<and> alg AND PSA_ALG_KEY_DERIVATION_STRETCHING_FLAG \<noteq> 0)"

text \<open>Message authentication: a length in bits 16 to 21 and a flag for "at least this length".\<close>

definition PSA_ALG_HMAC :: "u32 \<Rightarrow> u32" where
  "PSA_ALG_HMAC hash_alg = PSA_ALG_HMAC_BASE OR (hash_alg AND PSA_ALG_HASH_MASK)"
definition PSA_ALG_HMAC_GET_HASH :: "u32 \<Rightarrow> u32" where
  "PSA_ALG_HMAC_GET_HASH alg = PSA_ALG_CATEGORY_HASH OR (alg AND PSA_ALG_HASH_MASK)"
definition PSA_ALG_IS_HMAC :: "u32 \<Rightarrow> bool" where
  "PSA_ALG_IS_HMAC alg = (alg AND (PSA_ALG_CATEGORY_MASK OR PSA_ALG_MAC_SUBCATEGORY_MASK) = PSA_ALG_HMAC_BASE)"
definition PSA_MAC_TRUNCATION_OFFSET :: nat where "PSA_MAC_TRUNCATION_OFFSET = 16"
definition PSA_ALG_TRUNCATED_MAC :: "u32 \<Rightarrow> nat \<Rightarrow> u32" where
  "PSA_ALG_TRUNCATED_MAC mac_alg mac_length =
     (mac_alg AND NOT (PSA_ALG_MAC_TRUNCATION_MASK OR PSA_ALG_MAC_AT_LEAST_THIS_LENGTH_FLAG)) OR
     (push_bit PSA_MAC_TRUNCATION_OFFSET (of_nat mac_length) AND PSA_ALG_MAC_TRUNCATION_MASK)"
definition PSA_ALG_FULL_LENGTH_MAC :: "u32 \<Rightarrow> u32" where
  "PSA_ALG_FULL_LENGTH_MAC mac_alg = mac_alg AND NOT (PSA_ALG_MAC_TRUNCATION_MASK OR PSA_ALG_MAC_AT_LEAST_THIS_LENGTH_FLAG)"
definition PSA_MAC_TRUNCATED_LENGTH :: "u32 \<Rightarrow> nat" where
  "PSA_MAC_TRUNCATED_LENGTH mac_alg = unat (drop_bit PSA_MAC_TRUNCATION_OFFSET (mac_alg AND PSA_ALG_MAC_TRUNCATION_MASK))"
definition PSA_ALG_AT_LEAST_THIS_LENGTH_MAC :: "u32 \<Rightarrow> nat \<Rightarrow> u32" where
  "PSA_ALG_AT_LEAST_THIS_LENGTH_MAC mac_alg min_mac_length =
     PSA_ALG_TRUNCATED_MAC mac_alg min_mac_length OR PSA_ALG_MAC_AT_LEAST_THIS_LENGTH_FLAG"
definition PSA_ALG_IS_BLOCK_CIPHER_MAC :: "u32 \<Rightarrow> bool" where
  "PSA_ALG_IS_BLOCK_CIPHER_MAC alg =
     (alg AND (PSA_ALG_CATEGORY_MASK OR PSA_ALG_MAC_SUBCATEGORY_MASK) = PSA_ALG_CIPHER_MAC_BASE)"
definition PSA_ALG_IS_STREAM_CIPHER :: "u32 \<Rightarrow> bool" where
  "PSA_ALG_IS_STREAM_CIPHER alg =
     (alg AND (PSA_ALG_CATEGORY_MASK OR PSA_ALG_CIPHER_STREAM_FLAG) = PSA_ALG_CATEGORY_CIPHER OR PSA_ALG_CIPHER_STREAM_FLAG)"

text \<open>Authenticated encryption: the tag length in the same bits.\<close>

definition PSA_ALG_IS_AEAD_ON_BLOCK_CIPHER :: "u32 \<Rightarrow> bool" where
  "PSA_ALG_IS_AEAD_ON_BLOCK_CIPHER alg =
     (alg AND (PSA_ALG_CATEGORY_MASK OR PSA_ALG_AEAD_FROM_BLOCK_FLAG) = PSA_ALG_CATEGORY_AEAD OR PSA_ALG_AEAD_FROM_BLOCK_FLAG)"
definition PSA_AEAD_TAG_LENGTH_OFFSET :: nat where "PSA_AEAD_TAG_LENGTH_OFFSET = 16"
definition PSA_ALG_AEAD_WITH_SHORTENED_TAG :: "u32 \<Rightarrow> nat \<Rightarrow> u32" where
  "PSA_ALG_AEAD_WITH_SHORTENED_TAG aead_alg tag_length =
     (aead_alg AND NOT (PSA_ALG_AEAD_TAG_LENGTH_MASK OR PSA_ALG_AEAD_AT_LEAST_THIS_LENGTH_FLAG)) OR
     (push_bit PSA_AEAD_TAG_LENGTH_OFFSET (of_nat tag_length) AND PSA_ALG_AEAD_TAG_LENGTH_MASK)"
definition PSA_ALG_AEAD_GET_TAG_LENGTH :: "u32 \<Rightarrow> nat" where
  "PSA_ALG_AEAD_GET_TAG_LENGTH aead_alg = unat (drop_bit PSA_AEAD_TAG_LENGTH_OFFSET (aead_alg AND PSA_ALG_AEAD_TAG_LENGTH_MASK))"
definition PSA_ALG_AEAD_WITH_DEFAULT_LENGTH_TAG :: "u32 \<Rightarrow> u32" where
  "PSA_ALG_AEAD_WITH_DEFAULT_LENGTH_TAG aead_alg =
     (if PSA_ALG_AEAD_WITH_SHORTENED_TAG aead_alg 0 = PSA_ALG_AEAD_WITH_SHORTENED_TAG PSA_ALG_CCM 0 then PSA_ALG_CCM
      else if PSA_ALG_AEAD_WITH_SHORTENED_TAG aead_alg 0 = PSA_ALG_AEAD_WITH_SHORTENED_TAG PSA_ALG_GCM 0 then PSA_ALG_GCM
      else if PSA_ALG_AEAD_WITH_SHORTENED_TAG aead_alg 0 = PSA_ALG_AEAD_WITH_SHORTENED_TAG PSA_ALG_CHACHA20_POLY1305 0
      then PSA_ALG_CHACHA20_POLY1305 else 0)"
definition PSA_ALG_AEAD_WITH_AT_LEAST_THIS_LENGTH_TAG :: "u32 \<Rightarrow> nat \<Rightarrow> u32" where
  "PSA_ALG_AEAD_WITH_AT_LEAST_THIS_LENGTH_TAG aead_alg min_tag_length =
     PSA_ALG_AEAD_WITH_SHORTENED_TAG aead_alg min_tag_length OR PSA_ALG_AEAD_AT_LEAST_THIS_LENGTH_FLAG"

text \<open>Signatures: the hash in the low byte.\<close>

definition PSA_ALG_RSA_PKCS1V15_SIGN_RAW :: u32 where "PSA_ALG_RSA_PKCS1V15_SIGN_RAW = PSA_ALG_RSA_PKCS1V15_SIGN_BASE"
definition PSA_ALG_RSA_PSS_ANY_SALT :: "u32 \<Rightarrow> u32" where
  "PSA_ALG_RSA_PSS_ANY_SALT hash_alg = PSA_ALG_RSA_PSS_ANY_SALT_BASE OR (hash_alg AND PSA_ALG_HASH_MASK)"
definition PSA_ALG_IS_RSA_PSS_STANDARD_SALT :: "u32 \<Rightarrow> bool" where
  "PSA_ALG_IS_RSA_PSS_STANDARD_SALT alg = (alg AND NOT PSA_ALG_HASH_MASK = PSA_ALG_RSA_PSS_BASE)"
definition PSA_ALG_IS_RSA_PSS_ANY_SALT :: "u32 \<Rightarrow> bool" where
  "PSA_ALG_IS_RSA_PSS_ANY_SALT alg = (alg AND NOT PSA_ALG_HASH_MASK = PSA_ALG_RSA_PSS_ANY_SALT_BASE)"
definition PSA_ALG_ECDSA_ANY :: u32 where "PSA_ALG_ECDSA_ANY = PSA_ALG_ECDSA_BASE"
definition PSA_ALG_DETERMINISTIC_ECDSA :: "u32 \<Rightarrow> u32" where
  "PSA_ALG_DETERMINISTIC_ECDSA hash_alg = PSA_ALG_DETERMINISTIC_ECDSA_BASE OR (hash_alg AND PSA_ALG_HASH_MASK)"
definition PSA_ALG_ECDSA_IS_DETERMINISTIC :: "u32 \<Rightarrow> bool" where
  "PSA_ALG_ECDSA_IS_DETERMINISTIC alg = (alg AND PSA_ALG_ECDSA_DETERMINISTIC_FLAG \<noteq> 0)"
definition PSA_ALG_IS_DETERMINISTIC_ECDSA :: "u32 \<Rightarrow> bool" where
  "PSA_ALG_IS_DETERMINISTIC_ECDSA alg = (PSA_ALG_IS_ECDSA alg \<and> PSA_ALG_ECDSA_IS_DETERMINISTIC alg)"
definition PSA_ALG_IS_RANDOMIZED_ECDSA :: "u32 \<Rightarrow> bool" where
  "PSA_ALG_IS_RANDOMIZED_ECDSA alg = (PSA_ALG_IS_ECDSA alg \<and> \<not> PSA_ALG_ECDSA_IS_DETERMINISTIC alg)"
definition PSA_ALG_IS_HASH_EDDSA :: "u32 \<Rightarrow> bool" where
  "PSA_ALG_IS_HASH_EDDSA alg = (alg AND NOT PSA_ALG_HASH_MASK = PSA_ALG_HASH_EDDSA_BASE)"
definition PSA_ALG_ED25519PH :: u32 where "PSA_ALG_ED25519PH = PSA_ALG_HASH_EDDSA_BASE OR (PSA_ALG_SHA_512 AND PSA_ALG_HASH_MASK)"
definition PSA_ALG_ED448PH :: u32 where "PSA_ALG_ED448PH = PSA_ALG_HASH_EDDSA_BASE OR (PSA_ALG_SHAKE256_512 AND PSA_ALG_HASH_MASK)"
definition PSA_ALG_IS_VENDOR_HASH_AND_SIGN :: "u32 \<Rightarrow> bool" where "PSA_ALG_IS_VENDOR_HASH_AND_SIGN alg = False"
definition PSA_ALG_IS_SIGN_HASH :: "u32 \<Rightarrow> bool" where
  "PSA_ALG_IS_SIGN_HASH alg =
     (PSA_ALG_IS_RSA_PSS alg \<or> PSA_ALG_IS_RSA_PKCS1V15_SIGN alg \<or> PSA_ALG_IS_ECDSA alg \<or>
      PSA_ALG_IS_HASH_EDDSA alg \<or> PSA_ALG_IS_VENDOR_HASH_AND_SIGN alg)"
definition PSA_ALG_IS_SIGN_MESSAGE :: "u32 \<Rightarrow> bool" where
  "PSA_ALG_IS_SIGN_MESSAGE alg = (PSA_ALG_IS_SIGN_HASH alg \<or> alg = PSA_ALG_PURE_EDDSA)"
definition PSA_ALG_IS_HASH_AND_SIGN :: "u32 \<Rightarrow> bool" where
  "PSA_ALG_IS_HASH_AND_SIGN alg = (PSA_ALG_IS_SIGN_HASH alg \<and> alg AND PSA_ALG_HASH_MASK \<noteq> 0)"
definition PSA_ALG_SIGN_GET_HASH :: "u32 \<Rightarrow> u32" where
  "PSA_ALG_SIGN_GET_HASH alg =
     (if PSA_ALG_IS_HASH_AND_SIGN alg then (alg AND PSA_ALG_HASH_MASK) OR PSA_ALG_CATEGORY_HASH else 0)"

text \<open>Encryption, key derivation and key agreement.\<close>

definition PSA_ALG_RSA_OAEP :: "u32 \<Rightarrow> u32" where
  "PSA_ALG_RSA_OAEP hash_alg = PSA_ALG_RSA_OAEP_BASE OR (hash_alg AND PSA_ALG_HASH_MASK)"
definition PSA_ALG_IS_RSA_OAEP :: "u32 \<Rightarrow> bool" where
  "PSA_ALG_IS_RSA_OAEP alg = (alg AND NOT PSA_ALG_HASH_MASK = PSA_ALG_RSA_OAEP_BASE)"
definition PSA_ALG_RSA_OAEP_GET_HASH :: "u32 \<Rightarrow> u32" where
  "PSA_ALG_RSA_OAEP_GET_HASH alg =
     (if PSA_ALG_IS_RSA_OAEP alg then (alg AND PSA_ALG_HASH_MASK) OR PSA_ALG_CATEGORY_HASH else 0)"
definition PSA_ALG_HKDF :: "u32 \<Rightarrow> u32" where
  "PSA_ALG_HKDF hash_alg = PSA_ALG_HKDF_BASE OR (hash_alg AND PSA_ALG_HASH_MASK)"
definition PSA_ALG_IS_HKDF :: "u32 \<Rightarrow> bool" where
  "PSA_ALG_IS_HKDF alg = (alg AND NOT PSA_ALG_HASH_MASK = PSA_ALG_HKDF_BASE)"
definition PSA_ALG_HKDF_GET_HASH :: "u32 \<Rightarrow> u32" where
  "PSA_ALG_HKDF_GET_HASH alg = PSA_ALG_CATEGORY_HASH OR (alg AND PSA_ALG_HASH_MASK)"
definition PSA_ALG_TLS12_PRF :: "u32 \<Rightarrow> u32" where
  "PSA_ALG_TLS12_PRF hash_alg = PSA_ALG_TLS12_PRF_BASE OR (hash_alg AND PSA_ALG_HASH_MASK)"
definition PSA_ALG_IS_TLS12_PRF :: "u32 \<Rightarrow> bool" where
  "PSA_ALG_IS_TLS12_PRF alg = (alg AND NOT PSA_ALG_HASH_MASK = PSA_ALG_TLS12_PRF_BASE)"
definition PSA_ALG_TLS12_PRF_GET_HASH :: "u32 \<Rightarrow> u32" where
  "PSA_ALG_TLS12_PRF_GET_HASH alg = PSA_ALG_CATEGORY_HASH OR (alg AND PSA_ALG_HASH_MASK)"
definition PSA_ALG_TLS12_PSK_TO_MS :: "u32 \<Rightarrow> u32" where
  "PSA_ALG_TLS12_PSK_TO_MS hash_alg = PSA_ALG_TLS12_PSK_TO_MS_BASE OR (hash_alg AND PSA_ALG_HASH_MASK)"
definition PSA_ALG_IS_TLS12_PSK_TO_MS :: "u32 \<Rightarrow> bool" where
  "PSA_ALG_IS_TLS12_PSK_TO_MS alg = (alg AND NOT PSA_ALG_HASH_MASK = PSA_ALG_TLS12_PSK_TO_MS_BASE)"
definition PSA_ALG_TLS12_PSK_TO_MS_GET_HASH :: "u32 \<Rightarrow> u32" where
  "PSA_ALG_TLS12_PSK_TO_MS_GET_HASH alg = PSA_ALG_CATEGORY_HASH OR (alg AND PSA_ALG_HASH_MASK)"
definition PSA_ALG_PBKDF2_HMAC :: "u32 \<Rightarrow> u32" where
  "PSA_ALG_PBKDF2_HMAC hash_alg = PSA_ALG_PBKDF2_HMAC_BASE OR (hash_alg AND PSA_ALG_HASH_MASK)"
definition PSA_ALG_IS_PBKDF2_HMAC :: "u32 \<Rightarrow> bool" where
  "PSA_ALG_IS_PBKDF2_HMAC alg = (alg AND NOT PSA_ALG_HASH_MASK = PSA_ALG_PBKDF2_HMAC_BASE)"
definition PSA_ALG_KEY_AGREEMENT :: "u32 \<Rightarrow> u32 \<Rightarrow> u32" where
  "PSA_ALG_KEY_AGREEMENT agreement derivation = agreement OR derivation"
definition PSA_ALG_KEY_AGREEMENT_GET_KDF :: "u32 \<Rightarrow> u32" where
  "PSA_ALG_KEY_AGREEMENT_GET_KDF alg = (alg AND PSA_ALG_KEY_DERIVATION_MASK) OR PSA_ALG_CATEGORY_KEY_DERIVATION"
definition PSA_ALG_KEY_AGREEMENT_GET_BASE :: "u32 \<Rightarrow> u32" where
  "PSA_ALG_KEY_AGREEMENT_GET_BASE alg = (alg AND PSA_ALG_KEY_AGREEMENT_MASK) OR PSA_ALG_CATEGORY_KEY_AGREEMENT"
definition PSA_ALG_IS_RAW_KEY_AGREEMENT :: "u32 \<Rightarrow> bool" where
  "PSA_ALG_IS_RAW_KEY_AGREEMENT alg =
     (PSA_ALG_IS_KEY_AGREEMENT alg \<and> PSA_ALG_KEY_AGREEMENT_GET_KDF alg = PSA_ALG_CATEGORY_KEY_DERIVATION)"
definition PSA_ALG_IS_KEY_DERIVATION_OR_AGREEMENT :: "u32 \<Rightarrow> bool" where
  "PSA_ALG_IS_KEY_DERIVATION_OR_AGREEMENT alg = (PSA_ALG_IS_KEY_DERIVATION alg \<or> PSA_ALG_IS_KEY_AGREEMENT alg)"
definition PSA_ALG_IS_FFDH :: "u32 \<Rightarrow> bool" where
  "PSA_ALG_IS_FFDH alg = (PSA_ALG_KEY_AGREEMENT_GET_BASE alg = PSA_ALG_FFDH)"
definition PSA_ALG_IS_ECDH :: "u32 \<Rightarrow> bool" where
  "PSA_ALG_IS_ECDH alg = (PSA_ALG_KEY_AGREEMENT_GET_BASE alg = PSA_ALG_ECDH)"
definition PSA_ALG_IS_WILDCARD :: "u32 \<Rightarrow> bool" where
  "PSA_ALG_IS_WILDCARD alg =
     (if PSA_ALG_IS_HASH_AND_SIGN alg then PSA_ALG_SIGN_GET_HASH alg = PSA_ALG_ANY_HASH
      else if PSA_ALG_IS_MAC alg then alg AND PSA_ALG_MAC_AT_LEAST_THIS_LENGTH_FLAG \<noteq> 0
      else if PSA_ALG_IS_AEAD alg then alg AND PSA_ALG_AEAD_AT_LEAST_THIS_LENGTH_FLAG \<noteq> 0
      else alg = PSA_ALG_ANY_HASH)"
definition PSA_ALG_GET_HASH :: "u32 \<Rightarrow> u32" where
  "PSA_ALG_GET_HASH alg = (if alg AND 0xff = 0 then 0 else 0x02000000 OR (alg AND 0xff))"
definition MBEDTLS_PSA_ALG_AEAD_EQUAL :: "u32 \<Rightarrow> u32 \<Rightarrow> bool" where
  "MBEDTLS_PSA_ALG_AEAD_EQUAL aead_alg_1 aead_alg_2 =
     ((aead_alg_1 XOR aead_alg_2) AND NOT (PSA_ALG_AEAD_TAG_LENGTH_MASK OR PSA_ALG_AEAD_AT_LEAST_THIS_LENGTH_FLAG) = 0)"

subsection \<open>Lifetimes, key identifiers, usage and derivation steps\<close>

definition PSA_KEY_LIFETIME_VOLATILE :: u32 where "PSA_KEY_LIFETIME_VOLATILE = 0x00000000"
definition PSA_KEY_LIFETIME_PERSISTENT :: u32 where "PSA_KEY_LIFETIME_PERSISTENT = 0x00000001"
definition PSA_KEY_PERSISTENCE_VOLATILE :: u8 where "PSA_KEY_PERSISTENCE_VOLATILE = 0x00"
definition PSA_KEY_PERSISTENCE_DEFAULT :: u8 where "PSA_KEY_PERSISTENCE_DEFAULT = 0x01"
definition PSA_KEY_PERSISTENCE_READ_ONLY :: u8 where "PSA_KEY_PERSISTENCE_READ_ONLY = 0xff"
definition PSA_KEY_LOCATION_LOCAL_STORAGE :: u32 where "PSA_KEY_LOCATION_LOCAL_STORAGE = 0x000000"
definition PSA_KEY_LOCATION_VENDOR_FLAG :: u32 where "PSA_KEY_LOCATION_VENDOR_FLAG = 0x800000"
definition PSA_KEY_ID_NULL :: u32 where "PSA_KEY_ID_NULL = 0"
definition PSA_KEY_ID_USER_MIN :: u32 where "PSA_KEY_ID_USER_MIN = 0x00000001"
definition PSA_KEY_ID_USER_MAX :: u32 where "PSA_KEY_ID_USER_MAX = 0x3fffffff"
definition PSA_KEY_ID_VENDOR_MIN :: u32 where "PSA_KEY_ID_VENDOR_MIN = 0x40000000"
definition PSA_KEY_ID_VENDOR_MAX :: u32 where "PSA_KEY_ID_VENDOR_MAX = 0x7fffffff"
definition PSA_KEY_USAGE_EXPORT :: u32 where "PSA_KEY_USAGE_EXPORT = 0x00000001"
definition PSA_KEY_USAGE_COPY :: u32 where "PSA_KEY_USAGE_COPY = 0x00000002"
definition PSA_KEY_USAGE_ENCRYPT :: u32 where "PSA_KEY_USAGE_ENCRYPT = 0x00000100"
definition PSA_KEY_USAGE_DECRYPT :: u32 where "PSA_KEY_USAGE_DECRYPT = 0x00000200"
definition PSA_KEY_USAGE_SIGN_MESSAGE :: u32 where "PSA_KEY_USAGE_SIGN_MESSAGE = 0x00000400"
definition PSA_KEY_USAGE_VERIFY_MESSAGE :: u32 where "PSA_KEY_USAGE_VERIFY_MESSAGE = 0x00000800"
definition PSA_KEY_USAGE_DERIVE :: u32 where "PSA_KEY_USAGE_DERIVE = 0x00004000"
definition PSA_KEY_USAGE_VERIFY_DERIVATION :: u32 where "PSA_KEY_USAGE_VERIFY_DERIVATION = 0x00008000"
definition PSA_KEY_DERIVATION_INPUT_SECRET :: u16 where "PSA_KEY_DERIVATION_INPUT_SECRET = 0x0101"
definition PSA_KEY_DERIVATION_INPUT_PASSWORD :: u16 where "PSA_KEY_DERIVATION_INPUT_PASSWORD = 0x0102"
definition PSA_KEY_DERIVATION_INPUT_LABEL :: u16 where "PSA_KEY_DERIVATION_INPUT_LABEL = 0x0201"
definition PSA_KEY_DERIVATION_INPUT_SALT :: u16 where "PSA_KEY_DERIVATION_INPUT_SALT = 0x0202"
definition PSA_KEY_DERIVATION_INPUT_INFO :: u16 where "PSA_KEY_DERIVATION_INPUT_INFO = 0x0203"
definition PSA_KEY_DERIVATION_INPUT_SEED :: u16 where "PSA_KEY_DERIVATION_INPUT_SEED = 0x0204"
definition PSA_KEY_DERIVATION_INPUT_COST :: u16 where "PSA_KEY_DERIVATION_INPUT_COST = 0x0205"

definition PSA_KEY_LIFETIME_GET_PERSISTENCE :: "u32 \<Rightarrow> u8" where
  "PSA_KEY_LIFETIME_GET_PERSISTENCE lifetime = ucast (lifetime AND 0x000000ff)"
definition PSA_KEY_LIFETIME_GET_LOCATION :: "u32 \<Rightarrow> u32" where
  "PSA_KEY_LIFETIME_GET_LOCATION lifetime = drop_bit 8 lifetime"
definition PSA_KEY_LIFETIME_IS_VOLATILE :: "u32 \<Rightarrow> bool" where
  "PSA_KEY_LIFETIME_IS_VOLATILE lifetime = (PSA_KEY_LIFETIME_GET_PERSISTENCE lifetime = PSA_KEY_PERSISTENCE_VOLATILE)"
definition PSA_KEY_LIFETIME_IS_READ_ONLY :: "u32 \<Rightarrow> bool" where
  "PSA_KEY_LIFETIME_IS_READ_ONLY lifetime = (PSA_KEY_LIFETIME_GET_PERSISTENCE lifetime = PSA_KEY_PERSISTENCE_READ_ONLY)"
definition PSA_KEY_LIFETIME_FROM_PERSISTENCE_AND_LOCATION :: "u32 \<Rightarrow> u32 \<Rightarrow> u32" where
  "PSA_KEY_LIFETIME_FROM_PERSISTENCE_AND_LOCATION persistence location = push_bit 8 location OR persistence"

subsection \<open>Equality of words by their bits\<close>

lemma word16_eq_iff:
  "(a = (b :: u16)) = list_all (\<lambda>n. bit a n = bit b n) [0, 1, 2, 3, 4, 5, 6, 7, 8, 9, 10, 11, 12, 13, 14, 15]"
  (is "_ = list_all _ ?ns")
proof
  assume eq: "list_all (\<lambda>n. bit a n = bit b n) ?ns"
  show "a = b"
  proof (rule bit_word_eqI)
    fix n assume "n < LENGTH(16)"
    then have "n \<in> set ?ns" by (auto simp: eval_nat_numeral less_Suc_eq)
    with eq show "bit a n = bit b n" unfolding list_all_iff by blast
  qed
qed simp

lemma word32_eq_iff:
  "(a = (b :: u32)) = list_all (\<lambda>n. bit a n = bit b n)
    [0, 1, 2, 3, 4, 5, 6, 7, 8, 9, 10, 11, 12, 13, 14, 15, 16, 17, 18, 19, 20, 21, 22, 23, 24, 25, 26, 27, 28, 29, 30, 31]"
  (is "_ = list_all _ ?ns")
proof
  assume eq: "list_all (\<lambda>n. bit a n = bit b n) ?ns"
  show "a = b"
  proof (rule bit_word_eqI)
    fix n assume "n < LENGTH(32)"
    then have "n \<in> set ?ns" by (auto simp: eval_nat_numeral less_Suc_eq)
    with eq show "bit a n = bit b n" unfolding list_all_iff by blast
  qed
qed simp

lemmas word32_eqI = word32_eq_iff [THEN iffD2]

lemmas key_type_defs = PSA_KEY_TYPE_NONE_def PSA_KEY_TYPE_VENDOR_FLAG_def PSA_KEY_TYPE_CATEGORY_MASK_def
  PSA_KEY_TYPE_CATEGORY_RAW_def PSA_KEY_TYPE_CATEGORY_SYMMETRIC_def PSA_KEY_TYPE_CATEGORY_PUBLIC_KEY_def
  PSA_KEY_TYPE_CATEGORY_KEY_PAIR_def PSA_KEY_TYPE_CATEGORY_FLAG_PAIR_def PSA_KEY_TYPE_RAW_DATA_def
  PSA_KEY_TYPE_HMAC_def PSA_KEY_TYPE_DERIVE_def PSA_KEY_TYPE_PASSWORD_def PSA_KEY_TYPE_PASSWORD_HASH_def
  PSA_KEY_TYPE_PEPPER_def PSA_KEY_TYPE_AES_def PSA_KEY_TYPE_ARIA_def PSA_KEY_TYPE_DES_def
  PSA_KEY_TYPE_CAMELLIA_def PSA_KEY_TYPE_CHACHA20_def PSA_KEY_TYPE_RSA_PUBLIC_KEY_def
  PSA_KEY_TYPE_ECC_PUBLIC_KEY_BASE_def PSA_KEY_TYPE_ECC_KEY_PAIR_BASE_def PSA_KEY_TYPE_ECC_CURVE_MASK_def
  PSA_KEY_TYPE_DH_PUBLIC_KEY_BASE_def PSA_KEY_TYPE_DH_KEY_PAIR_BASE_def PSA_KEY_TYPE_DH_GROUP_MASK_def
  PSA_KEY_TYPE_IS_VENDOR_DEFINED_def PSA_KEY_TYPE_IS_UNSTRUCTURED_def PSA_KEY_TYPE_IS_ASYMMETRIC_def
  PSA_KEY_TYPE_IS_PUBLIC_KEY_def PSA_KEY_TYPE_IS_KEY_PAIR_def PSA_KEY_TYPE_KEY_PAIR_OF_PUBLIC_KEY_def
  PSA_KEY_TYPE_PUBLIC_KEY_OF_KEY_PAIR_def PSA_KEY_TYPE_IS_RSA_def PSA_KEY_TYPE_IS_ECC_def
  PSA_KEY_TYPE_IS_ECC_KEY_PAIR_def PSA_KEY_TYPE_IS_ECC_PUBLIC_KEY_def PSA_KEY_TYPE_ECC_GET_FAMILY_def
  PSA_KEY_TYPE_DH_KEY_PAIR_def PSA_KEY_TYPE_DH_PUBLIC_KEY_def PSA_KEY_TYPE_IS_DH_def
  PSA_KEY_TYPE_IS_DH_KEY_PAIR_def PSA_KEY_TYPE_IS_DH_PUBLIC_KEY_def PSA_KEY_TYPE_DH_GET_FAMILY_def
  PSA_GET_KEY_TYPE_BLOCK_SIZE_EXPONENT_def PSA_KEY_TYPE_RSA_KEY_PAIR_def PSA_KEY_TYPE_ECC_KEY_PAIR_def
  PSA_KEY_TYPE_ECC_PUBLIC_KEY_def

lemmas alg_defs = PSA_ALG_VENDOR_FLAG_def PSA_ALG_CATEGORY_MASK_def PSA_ALG_CATEGORY_HASH_def
  PSA_ALG_CATEGORY_MAC_def PSA_ALG_CATEGORY_CIPHER_def PSA_ALG_CATEGORY_AEAD_def PSA_ALG_CATEGORY_SIGN_def
  PSA_ALG_CATEGORY_ASYMMETRIC_ENCRYPTION_def PSA_ALG_CATEGORY_KEY_DERIVATION_def
  PSA_ALG_CATEGORY_KEY_AGREEMENT_def PSA_ALG_NONE_def PSA_ALG_HASH_MASK_def PSA_ALG_MD5_def
  PSA_ALG_RIPEMD160_def PSA_ALG_SHA_1_def PSA_ALG_SHA_224_def PSA_ALG_SHA_384_def PSA_ALG_SHA_512_def
  PSA_ALG_SHA_512_224_def PSA_ALG_SHA_512_256_def PSA_ALG_SHA3_224_def PSA_ALG_SHA3_256_def
  PSA_ALG_SHA3_384_def PSA_ALG_SHA3_512_def PSA_ALG_SHAKE256_512_def PSA_ALG_ANY_HASH_def
  PSA_ALG_MAC_SUBCATEGORY_MASK_def PSA_ALG_HMAC_BASE_def PSA_ALG_MAC_TRUNCATION_MASK_def
  PSA_ALG_MAC_AT_LEAST_THIS_LENGTH_FLAG_def PSA_ALG_CIPHER_MAC_BASE_def PSA_ALG_CBC_MAC_def PSA_ALG_CMAC_def
  PSA_ALG_CIPHER_STREAM_FLAG_def PSA_ALG_CIPHER_FROM_BLOCK_FLAG_def PSA_ALG_STREAM_CIPHER_def
  PSA_ALG_CTR_def PSA_ALG_CFB_def PSA_ALG_OFB_def PSA_ALG_XTS_def PSA_ALG_ECB_NO_PADDING_def
  PSA_ALG_CBC_NO_PADDING_def PSA_ALG_CBC_PKCS7_def PSA_ALG_AEAD_FROM_BLOCK_FLAG_def PSA_ALG_CCM_def
  PSA_ALG_CCM_STAR_NO_TAG_def PSA_ALG_GCM_def PSA_ALG_CHACHA20_POLY1305_def PSA_ALG_AEAD_TAG_LENGTH_MASK_def
  PSA_ALG_AEAD_AT_LEAST_THIS_LENGTH_FLAG_def PSA_ALG_RSA_PKCS1V15_SIGN_BASE_def PSA_ALG_RSA_PSS_BASE_def
  PSA_ALG_RSA_PSS_ANY_SALT_BASE_def PSA_ALG_ECDSA_BASE_def PSA_ALG_DETERMINISTIC_ECDSA_BASE_def
  PSA_ALG_ECDSA_DETERMINISTIC_FLAG_def PSA_ALG_PURE_EDDSA_def PSA_ALG_HASH_EDDSA_BASE_def
  PSA_ALG_RSA_PKCS1V15_CRYPT_def PSA_ALG_RSA_OAEP_BASE_def PSA_ALG_HKDF_BASE_def PSA_ALG_TLS12_PRF_BASE_def
  PSA_ALG_TLS12_PSK_TO_MS_BASE_def PSA_ALG_KEY_DERIVATION_STRETCHING_FLAG_def PSA_ALG_PBKDF2_HMAC_BASE_def
  PSA_ALG_PBKDF2_AES_CMAC_PRF_128_def PSA_ALG_KEY_DERIVATION_MASK_def PSA_ALG_KEY_AGREEMENT_MASK_def
  PSA_ALG_FFDH_def PSA_ALG_ECDH_def PSA_ALG_IS_VENDOR_DEFINED_def PSA_ALG_IS_HASH_def PSA_ALG_IS_MAC_def
  PSA_ALG_IS_CIPHER_def PSA_ALG_IS_AEAD_def PSA_ALG_IS_SIGN_def PSA_ALG_IS_ASYMMETRIC_ENCRYPTION_def
  PSA_ALG_IS_KEY_AGREEMENT_def PSA_ALG_IS_KEY_DERIVATION_def PSA_ALG_IS_KEY_DERIVATION_STRETCHING_def
  PSA_ALG_HMAC_def PSA_ALG_HMAC_GET_HASH_def PSA_ALG_IS_HMAC_def PSA_MAC_TRUNCATION_OFFSET_def
  PSA_ALG_TRUNCATED_MAC_def PSA_ALG_FULL_LENGTH_MAC_def PSA_MAC_TRUNCATED_LENGTH_def
  PSA_ALG_AT_LEAST_THIS_LENGTH_MAC_def PSA_ALG_IS_BLOCK_CIPHER_MAC_def PSA_ALG_IS_STREAM_CIPHER_def
  PSA_ALG_IS_AEAD_ON_BLOCK_CIPHER_def PSA_AEAD_TAG_LENGTH_OFFSET_def PSA_ALG_AEAD_WITH_SHORTENED_TAG_def
  PSA_ALG_AEAD_GET_TAG_LENGTH_def PSA_ALG_AEAD_WITH_DEFAULT_LENGTH_TAG_def
  PSA_ALG_AEAD_WITH_AT_LEAST_THIS_LENGTH_TAG_def PSA_ALG_RSA_PKCS1V15_SIGN_RAW_def
  PSA_ALG_RSA_PSS_ANY_SALT_def PSA_ALG_IS_RSA_PSS_STANDARD_SALT_def PSA_ALG_IS_RSA_PSS_ANY_SALT_def
  PSA_ALG_ECDSA_ANY_def PSA_ALG_DETERMINISTIC_ECDSA_def PSA_ALG_ECDSA_IS_DETERMINISTIC_def
  PSA_ALG_IS_DETERMINISTIC_ECDSA_def PSA_ALG_IS_RANDOMIZED_ECDSA_def PSA_ALG_IS_HASH_EDDSA_def
  PSA_ALG_ED25519PH_def PSA_ALG_ED448PH_def PSA_ALG_IS_VENDOR_HASH_AND_SIGN_def PSA_ALG_IS_SIGN_HASH_def
  PSA_ALG_IS_SIGN_MESSAGE_def PSA_ALG_IS_HASH_AND_SIGN_def PSA_ALG_SIGN_GET_HASH_def PSA_ALG_RSA_OAEP_def
  PSA_ALG_IS_RSA_OAEP_def PSA_ALG_RSA_OAEP_GET_HASH_def PSA_ALG_HKDF_def PSA_ALG_IS_HKDF_def
  PSA_ALG_HKDF_GET_HASH_def PSA_ALG_TLS12_PRF_def PSA_ALG_IS_TLS12_PRF_def PSA_ALG_TLS12_PRF_GET_HASH_def
  PSA_ALG_TLS12_PSK_TO_MS_def PSA_ALG_IS_TLS12_PSK_TO_MS_def PSA_ALG_TLS12_PSK_TO_MS_GET_HASH_def
  PSA_ALG_PBKDF2_HMAC_def PSA_ALG_IS_PBKDF2_HMAC_def PSA_ALG_KEY_AGREEMENT_def
  PSA_ALG_KEY_AGREEMENT_GET_KDF_def PSA_ALG_KEY_AGREEMENT_GET_BASE_def PSA_ALG_IS_RAW_KEY_AGREEMENT_def
  PSA_ALG_IS_KEY_DERIVATION_OR_AGREEMENT_def PSA_ALG_IS_FFDH_def PSA_ALG_IS_ECDH_def PSA_ALG_IS_WILDCARD_def
  PSA_ALG_GET_HASH_def MBEDTLS_PSA_ALG_AEAD_EQUAL_def PSA_ALG_SHA_256_def PSA_ALG_RSA_PKCS1V15_SIGN_def
  PSA_ALG_IS_RSA_PKCS1V15_SIGN_def PSA_ALG_RSA_PSS_def PSA_ALG_IS_RSA_PSS_def PSA_ALG_ECDSA_def
  PSA_ALG_IS_ECDSA_def

lemmas lifetime_defs = PSA_KEY_LIFETIME_VOLATILE_def PSA_KEY_LIFETIME_PERSISTENT_def
  PSA_KEY_PERSISTENCE_VOLATILE_def PSA_KEY_PERSISTENCE_DEFAULT_def PSA_KEY_PERSISTENCE_READ_ONLY_def
  PSA_KEY_LIFETIME_GET_PERSISTENCE_def PSA_KEY_LIFETIME_GET_LOCATION_def PSA_KEY_LIFETIME_IS_VOLATILE_def
  PSA_KEY_LIFETIME_IS_READ_ONLY_def PSA_KEY_LIFETIME_FROM_PERSISTENCE_AND_LOCATION_def

subsection \<open>Key types\<close>

lemma key_pair_of_public_key:
  "PSA_KEY_TYPE_IS_PUBLIC_KEY t \<Longrightarrow> PSA_KEY_TYPE_IS_KEY_PAIR (PSA_KEY_TYPE_KEY_PAIR_OF_PUBLIC_KEY t) \<and>
     PSA_KEY_TYPE_PUBLIC_KEY_OF_KEY_PAIR (PSA_KEY_TYPE_KEY_PAIR_OF_PUBLIC_KEY t) = t"
  unfolding key_type_defs by (simp add: word16_eq_iff bit_simps)

lemma public_key_of_key_pair:
  "PSA_KEY_TYPE_IS_KEY_PAIR t \<Longrightarrow> PSA_KEY_TYPE_IS_PUBLIC_KEY (PSA_KEY_TYPE_PUBLIC_KEY_OF_KEY_PAIR t) \<and>
     PSA_KEY_TYPE_KEY_PAIR_OF_PUBLIC_KEY (PSA_KEY_TYPE_PUBLIC_KEY_OF_KEY_PAIR t) = t"
  unfolding key_type_defs by (simp add: word16_eq_iff bit_simps)

lemma bit_u8_high [simp]: "8 \<le> n \<Longrightarrow> \<not> bit (c :: u8) n"
  using bit_imp_le_length [of c n] by auto

lemma bit_u32_high [simp]: "32 \<le> n \<Longrightarrow> \<not> bit (c :: u32) n"
  using bit_imp_le_length [of c n] by auto

lemma ecc_is_ecc [simp]:
  "PSA_KEY_TYPE_IS_ECC (PSA_KEY_TYPE_ECC_KEY_PAIR c)" "PSA_KEY_TYPE_IS_ECC (PSA_KEY_TYPE_ECC_PUBLIC_KEY c)"
  "PSA_KEY_TYPE_IS_ECC_KEY_PAIR (PSA_KEY_TYPE_ECC_KEY_PAIR c)" "PSA_KEY_TYPE_IS_ECC_PUBLIC_KEY (PSA_KEY_TYPE_ECC_PUBLIC_KEY c)"
  "PSA_KEY_TYPE_IS_KEY_PAIR (PSA_KEY_TYPE_ECC_KEY_PAIR c)" "PSA_KEY_TYPE_IS_PUBLIC_KEY (PSA_KEY_TYPE_ECC_PUBLIC_KEY c)"
  unfolding key_type_defs by (simp_all add: word16_eq_iff bit_simps)

lemma ecc_is_not_rsa [simp]:
  "\<not> PSA_KEY_TYPE_IS_RSA (PSA_KEY_TYPE_ECC_KEY_PAIR c)" "\<not> PSA_KEY_TYPE_IS_RSA (PSA_KEY_TYPE_ECC_PUBLIC_KEY c)"
  "\<not> PSA_KEY_TYPE_IS_UNSTRUCTURED (PSA_KEY_TYPE_ECC_KEY_PAIR c)" "\<not> PSA_KEY_TYPE_IS_UNSTRUCTURED (PSA_KEY_TYPE_ECC_PUBLIC_KEY c)"
  unfolding key_type_defs by (simp_all add: word16_eq_iff bit_simps)

lemma u8_of_field: "ucast (((x :: u16) OR ucast (c :: u8)) AND 0xff) = c" if "x AND 0xff = 0"
proof (rule bit_word_eqI)
  fix n assume "n < LENGTH(8)"
  moreover have "\<not> bit x n" if "n < 8"
    using \<open>x AND 0xff = 0\<close> that by (auto simp: word16_eq_iff bit_simps less_Suc_eq eval_nat_numeral)
  moreover have "bit (0xff :: u16) n" if "n < 8" using that by (auto simp: less_Suc_eq eval_nat_numeral)
  ultimately show "bit (ucast ((x OR ucast c) AND 0xff) :: u8) n = bit c n" by (simp add: bit_simps)
qed

lemma ecc_family [simp]:
  "PSA_KEY_TYPE_ECC_GET_FAMILY (PSA_KEY_TYPE_ECC_KEY_PAIR c) = c"
  "PSA_KEY_TYPE_ECC_GET_FAMILY (PSA_KEY_TYPE_ECC_PUBLIC_KEY c) = c"
  by (simp_all only: PSA_KEY_TYPE_ECC_GET_FAMILY_def ecc_is_ecc if_True)
    (simp_all add: PSA_KEY_TYPE_ECC_CURVE_MASK_def PSA_KEY_TYPE_ECC_KEY_PAIR_def PSA_KEY_TYPE_ECC_PUBLIC_KEY_def u8_of_field)

lemma ecc_pair_public:
  "PSA_KEY_TYPE_PUBLIC_KEY_OF_KEY_PAIR (PSA_KEY_TYPE_ECC_KEY_PAIR c) = PSA_KEY_TYPE_ECC_PUBLIC_KEY c"
  "PSA_KEY_TYPE_KEY_PAIR_OF_PUBLIC_KEY (PSA_KEY_TYPE_ECC_PUBLIC_KEY c) = PSA_KEY_TYPE_ECC_KEY_PAIR c"
  unfolding key_type_defs by (simp_all add: word16_eq_iff bit_simps)

lemma block_length_bound: "PSA_BLOCK_CIPHER_BLOCK_LENGTH t \<le> 128"
proof -
  have "drop_bit 8 t AND 7 \<le> 7" by (rule word_and_le1)
  then have "unat (drop_bit 8 t AND 7) \<le> 7" unfolding word_le_nat_alt by simp
  then have "(2 :: nat) ^ unat (drop_bit 8 t AND 7) \<le> 2 ^ 7" by (intro power_increasing) simp_all
  then show ?thesis by (simp add: PSA_BLOCK_CIPHER_BLOCK_LENGTH_def PSA_GET_KEY_TYPE_BLOCK_SIZE_EXPONENT_def)
qed

subsection \<open>Lengths in MAC and AEAD algorithms\<close>

lemma field_of_6_bits: "unat (of_nat n AND 0x3f :: u32) = n mod 64"
proof -
  have "(of_nat n AND 0x3f :: u32) = take_bit 6 (of_nat n)" by (simp add: take_bit_eq_mask mask_numeral)
  then have "unat (of_nat n AND 0x3f :: u32) = take_bit 6 (unat (of_nat n :: u32))" by (simp add: unsigned_take_bit_eq)
  also have "unat (of_nat n :: u32) = take_bit 32 n" by (simp add: unsigned_of_nat)
  also have "take_bit 6 (take_bit 32 n) = take_bit 6 n" by simp
  finally show ?thesis by (simp add: take_bit_eq_mod)
qed

lemma truncated_mac:
  "PSA_MAC_TRUNCATED_LENGTH (PSA_ALG_TRUNCATED_MAC alg n) = n mod 64"
  "PSA_ALG_FULL_LENGTH_MAC (PSA_ALG_TRUNCATED_MAC alg n) = PSA_ALG_FULL_LENGTH_MAC alg"
  "PSA_ALG_TRUNCATED_MAC (PSA_ALG_TRUNCATED_MAC alg m) n = PSA_ALG_TRUNCATED_MAC alg n"
proof -
  have "drop_bit PSA_MAC_TRUNCATION_OFFSET (PSA_ALG_TRUNCATED_MAC alg n AND PSA_ALG_MAC_TRUNCATION_MASK) = (of_nat n AND 0x3f :: u32)"
    unfolding alg_defs by (rule word32_eqI) (simp add: bit_simps)
  then show "PSA_MAC_TRUNCATED_LENGTH (PSA_ALG_TRUNCATED_MAC alg n) = n mod 64"
    by (simp add: PSA_MAC_TRUNCATED_LENGTH_def field_of_6_bits)
  show "PSA_ALG_FULL_LENGTH_MAC (PSA_ALG_TRUNCATED_MAC alg n) = PSA_ALG_FULL_LENGTH_MAC alg"
    "PSA_ALG_TRUNCATED_MAC (PSA_ALG_TRUNCATED_MAC alg m) n = PSA_ALG_TRUNCATED_MAC alg n"
    unfolding alg_defs by (rule word32_eqI, simp add: bit_simps)+
qed

lemma shortened_tag:
  "PSA_ALG_AEAD_GET_TAG_LENGTH (PSA_ALG_AEAD_WITH_SHORTENED_TAG alg n) = n mod 64"
  "PSA_ALG_AEAD_WITH_SHORTENED_TAG (PSA_ALG_AEAD_WITH_SHORTENED_TAG alg m) n = PSA_ALG_AEAD_WITH_SHORTENED_TAG alg n"
  "MBEDTLS_PSA_ALG_AEAD_EQUAL (PSA_ALG_AEAD_WITH_SHORTENED_TAG alg n) b = MBEDTLS_PSA_ALG_AEAD_EQUAL alg b"
proof -
  have "drop_bit PSA_AEAD_TAG_LENGTH_OFFSET (PSA_ALG_AEAD_WITH_SHORTENED_TAG alg n AND PSA_ALG_AEAD_TAG_LENGTH_MASK) = (of_nat n AND 0x3f :: u32)"
    unfolding alg_defs by (rule word32_eqI) (simp add: bit_simps)
  then show "PSA_ALG_AEAD_GET_TAG_LENGTH (PSA_ALG_AEAD_WITH_SHORTENED_TAG alg n) = n mod 64"
    by (simp add: PSA_ALG_AEAD_GET_TAG_LENGTH_def field_of_6_bits)
  show "PSA_ALG_AEAD_WITH_SHORTENED_TAG (PSA_ALG_AEAD_WITH_SHORTENED_TAG alg m) n = PSA_ALG_AEAD_WITH_SHORTENED_TAG alg n"
    unfolding alg_defs by (rule word32_eqI) (simp add: bit_simps)
  show "MBEDTLS_PSA_ALG_AEAD_EQUAL (PSA_ALG_AEAD_WITH_SHORTENED_TAG alg n) b = MBEDTLS_PSA_ALG_AEAD_EQUAL alg b"
    unfolding alg_defs by (simp add: word32_eq_iff bit_simps)
qed

text \<open>
  Whatever tag length an algorithm was given, the default length can be had back, and the length that was
  given is read back as it was up to 63.
\<close>

theorem aead_default_tag:
  assumes "alg \<in> {PSA_ALG_CCM, PSA_ALG_GCM, PSA_ALG_CHACHA20_POLY1305}"
  shows "PSA_ALG_AEAD_WITH_DEFAULT_LENGTH_TAG (PSA_ALG_AEAD_WITH_SHORTENED_TAG alg n) = alg"
    and "PSA_ALG_AEAD_GET_TAG_LENGTH alg = 16"
    and "n < 64 \<Longrightarrow> PSA_ALG_AEAD_GET_TAG_LENGTH (PSA_ALG_AEAD_WITH_SHORTENED_TAG alg n) = n"
proof -
  have ne: "PSA_ALG_AEAD_WITH_SHORTENED_TAG PSA_ALG_CCM 0 \<noteq> PSA_ALG_AEAD_WITH_SHORTENED_TAG PSA_ALG_GCM 0"
    "PSA_ALG_AEAD_WITH_SHORTENED_TAG PSA_ALG_CCM 0 \<noteq> PSA_ALG_AEAD_WITH_SHORTENED_TAG PSA_ALG_CHACHA20_POLY1305 0"
    "PSA_ALG_AEAD_WITH_SHORTENED_TAG PSA_ALG_GCM 0 \<noteq> PSA_ALG_AEAD_WITH_SHORTENED_TAG PSA_ALG_CHACHA20_POLY1305 0"
    unfolding alg_defs by simp_all
  show "PSA_ALG_AEAD_WITH_DEFAULT_LENGTH_TAG (PSA_ALG_AEAD_WITH_SHORTENED_TAG alg n) = alg"
    using assms ne by (auto simp: PSA_ALG_AEAD_WITH_DEFAULT_LENGTH_TAG_def shortened_tag)
  show "PSA_ALG_AEAD_GET_TAG_LENGTH alg = 16"
    using assms unfolding alg_defs by auto
  show "PSA_ALG_AEAD_GET_TAG_LENGTH (PSA_ALG_AEAD_WITH_SHORTENED_TAG alg n) = n" if "n < 64"
    using that by (simp add: shortened_tag)
qed

subsection \<open>Hashes in signature and MAC algorithms\<close>

lemma hash_field:
  assumes "PSA_ALG_CATEGORY_HASH OR (h AND PSA_ALG_HASH_MASK) = h"
  shows "PSA_ALG_HMAC_GET_HASH (PSA_ALG_HMAC h) = h" and "PSA_ALG_IS_HMAC (PSA_ALG_HMAC h)"
    and "PSA_ALG_IS_ECDSA (PSA_ALG_ECDSA h)" and "PSA_ALG_IS_RSA_PSS (PSA_ALG_RSA_PSS h)"
    and "PSA_ALG_IS_RSA_PKCS1V15_SIGN (PSA_ALG_RSA_PKCS1V15_SIGN h)"
proof -
  show "PSA_ALG_HMAC_GET_HASH (PSA_ALG_HMAC h) = h"
    by (subst assms [symmetric]) (unfold alg_defs, rule word32_eqI, simp add: bit_simps)
  show "PSA_ALG_IS_HMAC (PSA_ALG_HMAC h)" "PSA_ALG_IS_ECDSA (PSA_ALG_ECDSA h)" "PSA_ALG_IS_RSA_PSS (PSA_ALG_RSA_PSS h)"
    "PSA_ALG_IS_RSA_PKCS1V15_SIGN (PSA_ALG_RSA_PKCS1V15_SIGN h)"
    unfolding alg_defs by (simp_all add: word32_eq_iff bit_simps)
qed

lemma sign_hash_facts:
  assumes "PSA_ALG_CATEGORY_HASH OR (h AND PSA_ALG_HASH_MASK) = h" and "h AND PSA_ALG_HASH_MASK \<noteq> 0"
    and "alg \<in> {PSA_ALG_ECDSA h, PSA_ALG_DETERMINISTIC_ECDSA h, PSA_ALG_RSA_PSS h, PSA_ALG_RSA_PSS_ANY_SALT h, PSA_ALG_RSA_PKCS1V15_SIGN h}"
  shows "PSA_ALG_IS_SIGN alg" and "PSA_ALG_SIGN_GET_HASH alg = h"
    and "PSA_ALG_IS_WILDCARD alg = (h = PSA_ALG_ANY_HASH)"
proof -
  have f: "(alg AND PSA_ALG_HASH_MASK) OR PSA_ALG_CATEGORY_HASH = h" "alg AND PSA_ALG_HASH_MASK = h AND PSA_ALG_HASH_MASK"
    by (subst assms(1) [symmetric]) (use assms(3) in \<open>unfold alg_defs, elim insertE emptyE; simp add: word32_eq_iff bit_simps\<close>)+
  have s: "PSA_ALG_IS_SIGN_HASH alg"
    using assms(3) unfolding alg_defs by (elim insertE emptyE) (simp_all add: word32_eq_iff bit_simps)
  show "PSA_ALG_IS_SIGN alg"
    using assms(3) unfolding alg_defs by (elim insertE emptyE) (simp_all add: word32_eq_iff bit_simps)
  have i: "PSA_ALG_IS_HASH_AND_SIGN alg" using s f(2) assms(2) by (simp add: PSA_ALG_IS_HASH_AND_SIGN_def)
  then show h: "PSA_ALG_SIGN_GET_HASH alg = h" by (simp only: PSA_ALG_SIGN_GET_HASH_def if_True f(1))
  show "PSA_ALG_IS_WILDCARD alg = (h = PSA_ALG_ANY_HASH)" by (simp add: PSA_ALG_IS_WILDCARD_def i h)
qed

text \<open>
  The five ways to build a signature algorithm on a hash: the result is a signature algorithm, the hash is
  read back from it, and it is a wildcard exactly if it was built on "any hash".
\<close>

theorem sign_get_hash:
  assumes "PSA_ALG_CATEGORY_HASH OR (h AND PSA_ALG_HASH_MASK) = h" and "h AND PSA_ALG_HASH_MASK \<noteq> 0"
    and "alg \<in> {PSA_ALG_ECDSA h, PSA_ALG_DETERMINISTIC_ECDSA h, PSA_ALG_RSA_PSS h, PSA_ALG_RSA_PSS_ANY_SALT h, PSA_ALG_RSA_PKCS1V15_SIGN h}"
  shows "PSA_ALG_IS_SIGN alg \<and> PSA_ALG_SIGN_GET_HASH alg = h \<and> (PSA_ALG_IS_WILDCARD alg = (h = PSA_ALG_ANY_HASH))"
  by (intro conjI sign_hash_facts [OF assms])

theorem sign_get_hash_witness:
  "PSA_ALG_SIGN_GET_HASH (PSA_ALG_ECDSA PSA_ALG_SHA_256) = PSA_ALG_SHA_256 \<and> \<not> PSA_ALG_IS_WILDCARD (PSA_ALG_ECDSA PSA_ALG_SHA_256)"
proof -
  have "PSA_ALG_CATEGORY_HASH OR (PSA_ALG_SHA_256 AND PSA_ALG_HASH_MASK) = PSA_ALG_SHA_256"
    "PSA_ALG_SHA_256 AND PSA_ALG_HASH_MASK \<noteq> 0" "PSA_ALG_SHA_256 \<noteq> PSA_ALG_ANY_HASH"
    unfolding alg_defs by simp_all
  with sign_get_hash [of PSA_ALG_SHA_256 "PSA_ALG_ECDSA PSA_ALG_SHA_256"] show ?thesis by simp
qed

subsection \<open>Key agreement\<close>

text \<open>
  A key agreement algorithm gives back the key derivation it was combined with, as long as the derivation
  lies in the bits that are kept for it.
\<close>

theorem key_agreement_parts:
  assumes "base \<in> {PSA_ALG_FFDH, PSA_ALG_ECDH}" and "PSA_ALG_IS_KEY_DERIVATION kdf" and "kdf AND NOT PSA_ALG_KEY_DERIVATION_MASK = 0"
    and "\<not> PSA_ALG_IS_VENDOR_DEFINED kdf"
  shows "PSA_ALG_KEY_AGREEMENT_GET_KDF (PSA_ALG_KEY_AGREEMENT base kdf) = kdf"
    and "PSA_ALG_KEY_AGREEMENT_GET_BASE (PSA_ALG_KEY_AGREEMENT base kdf) = base"
    and "PSA_ALG_IS_KEY_AGREEMENT (PSA_ALG_KEY_AGREEMENT base kdf)"
proof -
  have v: "\<not> bit kdf 31"
    using assms(4) bit_iff_and_push_bit_not_eq_0 [of kdf 31] by (simp add: alg_defs push_bit_eq_mult)
  have "(PSA_ALG_KEY_AGREEMENT_GET_KDF (PSA_ALG_KEY_AGREEMENT base kdf) = kdf) \<and>
    (PSA_ALG_KEY_AGREEMENT_GET_BASE (PSA_ALG_KEY_AGREEMENT base kdf) = base) \<and> PSA_ALG_IS_KEY_AGREEMENT (PSA_ALG_KEY_AGREEMENT base kdf)"
    using assms(1-3) v unfolding alg_defs by (elim insertE emptyE) (simp_all add: word32_eq_iff bit_simps)
  then show "PSA_ALG_KEY_AGREEMENT_GET_KDF (PSA_ALG_KEY_AGREEMENT base kdf) = kdf"
    "PSA_ALG_KEY_AGREEMENT_GET_BASE (PSA_ALG_KEY_AGREEMENT base kdf) = base"
    "PSA_ALG_IS_KEY_AGREEMENT (PSA_ALG_KEY_AGREEMENT base kdf)" by simp_all
qed

text \<open>
  PBKDF2 does not: its stretching flag is outside the bits that \<open>PSA_ALG_KEY_AGREEMENT_GET_KDF\<close> keeps, so the
  combination reads back as HKDF, and its base is neither of the two.
\<close>

lemma key_agreement_loses_stretching:
  "PSA_ALG_IS_KEY_DERIVATION (PSA_ALG_PBKDF2_HMAC PSA_ALG_SHA_256)"
  "PSA_ALG_KEY_AGREEMENT_GET_KDF (PSA_ALG_KEY_AGREEMENT PSA_ALG_ECDH (PSA_ALG_PBKDF2_HMAC PSA_ALG_SHA_256)) = PSA_ALG_HKDF PSA_ALG_SHA_256"
  "\<not> PSA_ALG_IS_ECDH (PSA_ALG_KEY_AGREEMENT PSA_ALG_ECDH (PSA_ALG_PBKDF2_HMAC PSA_ALG_SHA_256))"
  unfolding alg_defs by simp_all

subsection \<open>Lifetimes\<close>

lemma lifetime_parts:
  assumes "p AND 0xff = p" and "l AND 0xffffff = l"
  shows "PSA_KEY_LIFETIME_GET_PERSISTENCE (PSA_KEY_LIFETIME_FROM_PERSISTENCE_AND_LOCATION p l) = ucast p"
    and "PSA_KEY_LIFETIME_GET_LOCATION (PSA_KEY_LIFETIME_FROM_PERSISTENCE_AND_LOCATION p l) = l"
proof -
  have "PSA_KEY_LIFETIME_FROM_PERSISTENCE_AND_LOCATION p l AND 0xff = p"
    using assms(1) by (simp add: lifetime_defs word32_eq_iff bit_simps)
  then show "PSA_KEY_LIFETIME_GET_PERSISTENCE (PSA_KEY_LIFETIME_FROM_PERSISTENCE_AND_LOCATION p l) = ucast p"
    by (simp add: PSA_KEY_LIFETIME_GET_PERSISTENCE_def)
  show "PSA_KEY_LIFETIME_GET_LOCATION (PSA_KEY_LIFETIME_FROM_PERSISTENCE_AND_LOCATION p l) = l"
    using assms unfolding lifetime_defs by (simp add: word32_eq_iff bit_simps)
qed

end
