(* ===== verification/PsaSizes.thy ===== *)
theory PsaSizes
  imports PsaValues
begin

text \<open>
  The buffer sizes of PSA Crypto (\<open>psa/crypto_sizes.h\<close>). A size is a natural number; \<open>size_t\<close> is the wrap-around of
  the C type, 32 bits. The bounds are those of a build without \<open>PSA_WANT_ALG_SHA_512\<close> and
  \<open>PSA_WANT_ALG_SHA_384\<close>, which nothing in the repository defines.
\<close>

definition size_t :: "nat \<Rightarrow> nat" where "size_t n = n mod 2 ^ 32"

definition PSA_BITS_TO_BYTES :: "nat \<Rightarrow> nat" where "PSA_BITS_TO_BYTES bits = size_t (bits + 7) div 8"
definition PSA_BYTES_TO_BITS :: "nat \<Rightarrow> nat" where "PSA_BYTES_TO_BITS bytes = size_t (bytes * 8)"
definition PSA_ROUND_UP_TO_MULTIPLE :: "nat \<Rightarrow> nat \<Rightarrow> nat" where
  "PSA_ROUND_UP_TO_MULTIPLE block_size len = size_t (size_t (len + block_size + (2 ^ 32 - 1)) div block_size * block_size)"

subsection \<open>Hashes and MACs\<close>

definition PSA_HASH_LENGTH :: "u32 \<Rightarrow> nat" where
  "PSA_HASH_LENGTH alg =
     (let h = PSA_ALG_HMAC_GET_HASH alg
      in if h = PSA_ALG_MD5 then 16
      else if h = PSA_ALG_RIPEMD160 then 20
      else if h = PSA_ALG_SHA_1 then 20
      else if h = PSA_ALG_SHA_224 then 28
      else if h = PSA_ALG_SHA_256 then 32
      else if h = PSA_ALG_SHA_384 then 48
      else if h = PSA_ALG_SHA_512 then 64
      else if h = PSA_ALG_SHA_512_224 then 28
      else if h = PSA_ALG_SHA_512_256 then 32
      else if h = PSA_ALG_SHA3_224 then 28
      else if h = PSA_ALG_SHA3_256 then 32
      else if h = PSA_ALG_SHA3_384 then 48
      else if h = PSA_ALG_SHA3_512 then 64
      else 0)"

definition PSA_HASH_BLOCK_LENGTH :: "u32 \<Rightarrow> nat" where
  "PSA_HASH_BLOCK_LENGTH alg =
     (let h = PSA_ALG_HMAC_GET_HASH alg
      in if h = PSA_ALG_MD5 then 64
      else if h = PSA_ALG_RIPEMD160 then 64
      else if h = PSA_ALG_SHA_1 then 64
      else if h = PSA_ALG_SHA_224 then 64
      else if h = PSA_ALG_SHA_256 then 64
      else if h = PSA_ALG_SHA_384 then 128
      else if h = PSA_ALG_SHA_512 then 128
      else if h = PSA_ALG_SHA_512_224 then 128
      else if h = PSA_ALG_SHA_512_256 then 128
      else if h = PSA_ALG_SHA3_224 then 144
      else if h = PSA_ALG_SHA3_256 then 136
      else if h = PSA_ALG_SHA3_384 then 104
      else if h = PSA_ALG_SHA3_512 then 72
      else 0)"

definition PSA_HASH_MAX_SIZE :: nat where "PSA_HASH_MAX_SIZE = 32"
definition PSA_HMAC_MAX_HASH_BLOCK_SIZE :: nat where "PSA_HMAC_MAX_HASH_BLOCK_SIZE = 64"
definition PSA_MAC_MAX_SIZE :: nat where "PSA_MAC_MAX_SIZE = PSA_HASH_MAX_SIZE"
definition PSA_MAC_LENGTH :: "u16 \<Rightarrow> u32 \<Rightarrow> nat" where
  "PSA_MAC_LENGTH key_type alg =
     (if alg AND PSA_ALG_MAC_TRUNCATION_MASK \<noteq> 0 then PSA_MAC_TRUNCATED_LENGTH alg
      else if PSA_ALG_IS_HMAC alg then PSA_HASH_LENGTH (PSA_ALG_HMAC_GET_HASH alg)
      else if PSA_ALG_IS_BLOCK_CIPHER_MAC alg then PSA_BLOCK_CIPHER_BLOCK_LENGTH key_type
      else 0)"

subsection \<open>Authenticated encryption\<close>

definition PSA_AEAD_TAG_MAX_SIZE :: nat where "PSA_AEAD_TAG_MAX_SIZE = 16"
definition PSA_BLOCK_CIPHER_BLOCK_MAX_SIZE :: nat where "PSA_BLOCK_CIPHER_BLOCK_MAX_SIZE = 16"
definition PSA_AEAD_NONCE_LENGTH :: "u16 \<Rightarrow> u32 \<Rightarrow> nat" where
  "PSA_AEAD_NONCE_LENGTH key_type alg =
     (if PSA_BLOCK_CIPHER_BLOCK_LENGTH key_type = 16
      then if MBEDTLS_PSA_ALG_AEAD_EQUAL alg PSA_ALG_CCM then 13
        else if MBEDTLS_PSA_ALG_AEAD_EQUAL alg PSA_ALG_GCM then 12 else 0
      else if key_type = PSA_KEY_TYPE_CHACHA20 \<and> MBEDTLS_PSA_ALG_AEAD_EQUAL alg PSA_ALG_CHACHA20_POLY1305 then 12 else 0)"
definition PSA_AEAD_NONCE_MAX_SIZE :: nat where "PSA_AEAD_NONCE_MAX_SIZE = 13"
definition PSA_AEAD_TAG_LENGTH :: "u16 \<Rightarrow> u32 \<Rightarrow> nat" where
  "PSA_AEAD_TAG_LENGTH key_type alg =
     (if PSA_AEAD_NONCE_LENGTH key_type alg \<noteq> 0 then PSA_ALG_AEAD_GET_TAG_LENGTH alg else 0)"
definition PSA_AEAD_ENCRYPT_OUTPUT_SIZE :: "u16 \<Rightarrow> u32 \<Rightarrow> nat \<Rightarrow> nat" where
  "PSA_AEAD_ENCRYPT_OUTPUT_SIZE key_type alg plaintext_length =
     (if PSA_AEAD_NONCE_LENGTH key_type alg \<noteq> 0 then size_t (plaintext_length + PSA_ALG_AEAD_GET_TAG_LENGTH alg) else 0)"
definition PSA_AEAD_ENCRYPT_OUTPUT_MAX_SIZE :: "nat \<Rightarrow> nat" where
  "PSA_AEAD_ENCRYPT_OUTPUT_MAX_SIZE plaintext_length = size_t (plaintext_length + PSA_AEAD_TAG_MAX_SIZE)"
definition PSA_AEAD_DECRYPT_OUTPUT_SIZE :: "u16 \<Rightarrow> u32 \<Rightarrow> nat \<Rightarrow> nat" where
  "PSA_AEAD_DECRYPT_OUTPUT_SIZE key_type alg ciphertext_length =
     (if PSA_AEAD_NONCE_LENGTH key_type alg \<noteq> 0 \<and> ciphertext_length > PSA_ALG_AEAD_GET_TAG_LENGTH alg
      then ciphertext_length - PSA_ALG_AEAD_GET_TAG_LENGTH alg else 0)"
definition PSA_AEAD_DECRYPT_OUTPUT_MAX_SIZE :: "nat \<Rightarrow> nat" where
  "PSA_AEAD_DECRYPT_OUTPUT_MAX_SIZE ciphertext_length = ciphertext_length"
definition PSA_AEAD_UPDATE_OUTPUT_SIZE :: "u16 \<Rightarrow> u32 \<Rightarrow> nat \<Rightarrow> nat" where
  "PSA_AEAD_UPDATE_OUTPUT_SIZE key_type alg input_length =
     (if PSA_AEAD_NONCE_LENGTH key_type alg \<noteq> 0
      then if PSA_ALG_IS_AEAD_ON_BLOCK_CIPHER alg
        then PSA_ROUND_UP_TO_MULTIPLE (PSA_BLOCK_CIPHER_BLOCK_LENGTH key_type) input_length
        else input_length
      else 0)"
definition PSA_AEAD_UPDATE_OUTPUT_MAX_SIZE :: "nat \<Rightarrow> nat" where
  "PSA_AEAD_UPDATE_OUTPUT_MAX_SIZE input_length = PSA_ROUND_UP_TO_MULTIPLE PSA_BLOCK_CIPHER_BLOCK_MAX_SIZE input_length"
definition PSA_AEAD_FINISH_OUTPUT_SIZE :: "u16 \<Rightarrow> u32 \<Rightarrow> nat" where
  "PSA_AEAD_FINISH_OUTPUT_SIZE key_type alg =
     (if PSA_AEAD_NONCE_LENGTH key_type alg \<noteq> 0 \<and> PSA_ALG_IS_AEAD_ON_BLOCK_CIPHER alg
      then PSA_BLOCK_CIPHER_BLOCK_LENGTH key_type else 0)"
definition PSA_AEAD_FINISH_OUTPUT_MAX_SIZE :: nat where "PSA_AEAD_FINISH_OUTPUT_MAX_SIZE = PSA_BLOCK_CIPHER_BLOCK_MAX_SIZE"
definition PSA_AEAD_VERIFY_OUTPUT_SIZE :: "u16 \<Rightarrow> u32 \<Rightarrow> nat" where
  "PSA_AEAD_VERIFY_OUTPUT_SIZE key_type alg =
     (if PSA_AEAD_NONCE_LENGTH key_type alg \<noteq> 0 \<and> PSA_ALG_IS_AEAD_ON_BLOCK_CIPHER alg
      then PSA_BLOCK_CIPHER_BLOCK_LENGTH key_type else 0)"
definition PSA_AEAD_VERIFY_OUTPUT_MAX_SIZE :: nat where "PSA_AEAD_VERIFY_OUTPUT_MAX_SIZE = PSA_BLOCK_CIPHER_BLOCK_MAX_SIZE"

subsection \<open>Signatures and asymmetric encryption\<close>

definition PSA_VENDOR_RSA_MAX_KEY_BITS :: nat where "PSA_VENDOR_RSA_MAX_KEY_BITS = 4096"
definition PSA_VENDOR_ECC_MAX_CURVE_BITS :: nat where "PSA_VENDOR_ECC_MAX_CURVE_BITS = 521"
definition PSA_RSA_MINIMUM_PADDING_SIZE :: "u32 \<Rightarrow> nat" where
  "PSA_RSA_MINIMUM_PADDING_SIZE alg =
     (if PSA_ALG_IS_RSA_OAEP alg then 2 * PSA_HASH_LENGTH (PSA_ALG_RSA_OAEP_GET_HASH alg) + 1 else 11)"
definition PSA_ECDSA_SIGNATURE_SIZE :: "nat \<Rightarrow> nat" where
  "PSA_ECDSA_SIGNATURE_SIZE curve_bits = PSA_BITS_TO_BYTES curve_bits * 2"
definition PSA_SIGN_OUTPUT_SIZE :: "u16 \<Rightarrow> nat \<Rightarrow> nat" where
  "PSA_SIGN_OUTPUT_SIZE key_type key_bits =
     (if PSA_KEY_TYPE_IS_RSA key_type then PSA_BITS_TO_BYTES key_bits
      else if PSA_KEY_TYPE_IS_ECC key_type then PSA_ECDSA_SIGNATURE_SIZE key_bits else 0)"
definition PSA_VENDOR_ECDSA_SIGNATURE_MAX_SIZE :: nat where
  "PSA_VENDOR_ECDSA_SIGNATURE_MAX_SIZE = PSA_ECDSA_SIGNATURE_SIZE PSA_VENDOR_ECC_MAX_CURVE_BITS"
definition PSA_SIGNATURE_MAX_SIZE :: nat where
  "PSA_SIGNATURE_MAX_SIZE =
     (if PSA_BITS_TO_BYTES PSA_VENDOR_RSA_MAX_KEY_BITS > PSA_VENDOR_ECDSA_SIGNATURE_MAX_SIZE
      then PSA_BITS_TO_BYTES PSA_VENDOR_RSA_MAX_KEY_BITS else PSA_VENDOR_ECDSA_SIGNATURE_MAX_SIZE)"
definition PSA_ASYMMETRIC_ENCRYPT_OUTPUT_SIZE :: "u16 \<Rightarrow> nat \<Rightarrow> nat" where
  "PSA_ASYMMETRIC_ENCRYPT_OUTPUT_SIZE key_type key_bits =
     (if PSA_KEY_TYPE_IS_RSA key_type then PSA_BITS_TO_BYTES key_bits else 0)"
definition PSA_ASYMMETRIC_ENCRYPT_OUTPUT_MAX_SIZE :: nat where
  "PSA_ASYMMETRIC_ENCRYPT_OUTPUT_MAX_SIZE = PSA_BITS_TO_BYTES PSA_VENDOR_RSA_MAX_KEY_BITS"
definition PSA_ASYMMETRIC_DECRYPT_OUTPUT_SIZE :: "u16 \<Rightarrow> nat \<Rightarrow> u32 \<Rightarrow> nat" where
  "PSA_ASYMMETRIC_DECRYPT_OUTPUT_SIZE key_type key_bits alg =
     (if PSA_KEY_TYPE_IS_RSA key_type
      then size_t (PSA_BITS_TO_BYTES key_bits + 2 ^ 32 - PSA_RSA_MINIMUM_PADDING_SIZE alg) else 0)"
definition PSA_ASYMMETRIC_DECRYPT_OUTPUT_MAX_SIZE :: nat where
  "PSA_ASYMMETRIC_DECRYPT_OUTPUT_MAX_SIZE = PSA_BITS_TO_BYTES PSA_VENDOR_RSA_MAX_KEY_BITS"

subsection \<open>Exported keys\<close>

definition PSA_KEY_TYPE_DSA_PUBLIC_KEY :: u16 where "PSA_KEY_TYPE_DSA_PUBLIC_KEY = 0x4002"
definition PSA_KEY_TYPE_DSA_KEY_PAIR :: u16 where "PSA_KEY_TYPE_DSA_KEY_PAIR = 0x7002"
definition PSA_KEY_EXPORT_ASN1_INTEGER_MAX_SIZE :: "nat \<Rightarrow> nat" where
  "PSA_KEY_EXPORT_ASN1_INTEGER_MAX_SIZE bits = bits div 8 + 5"
definition PSA_KEY_EXPORT_RSA_PUBLIC_KEY_MAX_SIZE :: "nat \<Rightarrow> nat" where
  "PSA_KEY_EXPORT_RSA_PUBLIC_KEY_MAX_SIZE key_bits = PSA_KEY_EXPORT_ASN1_INTEGER_MAX_SIZE key_bits + 11"
definition PSA_KEY_EXPORT_RSA_KEY_PAIR_MAX_SIZE :: "nat \<Rightarrow> nat" where
  "PSA_KEY_EXPORT_RSA_KEY_PAIR_MAX_SIZE key_bits =
     size_t (9 * PSA_KEY_EXPORT_ASN1_INTEGER_MAX_SIZE (key_bits div 2 + 1) + 14)"
definition PSA_KEY_EXPORT_DSA_PUBLIC_KEY_MAX_SIZE :: "nat \<Rightarrow> nat" where
  "PSA_KEY_EXPORT_DSA_PUBLIC_KEY_MAX_SIZE key_bits = PSA_KEY_EXPORT_ASN1_INTEGER_MAX_SIZE key_bits * 3 + 59"
definition PSA_KEY_EXPORT_DSA_KEY_PAIR_MAX_SIZE :: "nat \<Rightarrow> nat" where
  "PSA_KEY_EXPORT_DSA_KEY_PAIR_MAX_SIZE key_bits = PSA_KEY_EXPORT_ASN1_INTEGER_MAX_SIZE key_bits * 3 + 75"
definition PSA_KEY_EXPORT_ECC_PUBLIC_KEY_MAX_SIZE :: "nat \<Rightarrow> nat" where
  "PSA_KEY_EXPORT_ECC_PUBLIC_KEY_MAX_SIZE key_bits = 2 * PSA_BITS_TO_BYTES key_bits + 1"
definition PSA_KEY_EXPORT_ECC_KEY_PAIR_MAX_SIZE :: "nat \<Rightarrow> nat" where
  "PSA_KEY_EXPORT_ECC_KEY_PAIR_MAX_SIZE key_bits = PSA_BITS_TO_BYTES key_bits"

text \<open>\<open>PSA_EXPORT_KEY_OUTPUT_SIZE\<close>; that name is a service of the PKCS#11 module in P11Objects.\<close>

definition EXPORT_KEY_OUTPUT_SIZE :: "u16 \<Rightarrow> nat \<Rightarrow> nat" where
  "EXPORT_KEY_OUTPUT_SIZE key_type key_bits =
     (if PSA_KEY_TYPE_IS_UNSTRUCTURED key_type then PSA_BITS_TO_BYTES key_bits
      else if key_type = PSA_KEY_TYPE_RSA_KEY_PAIR then PSA_KEY_EXPORT_RSA_KEY_PAIR_MAX_SIZE key_bits
      else if key_type = PSA_KEY_TYPE_RSA_PUBLIC_KEY then PSA_KEY_EXPORT_RSA_PUBLIC_KEY_MAX_SIZE key_bits
      else if key_type = PSA_KEY_TYPE_DSA_KEY_PAIR then PSA_KEY_EXPORT_DSA_KEY_PAIR_MAX_SIZE key_bits
      else if key_type = PSA_KEY_TYPE_DSA_PUBLIC_KEY then PSA_KEY_EXPORT_DSA_PUBLIC_KEY_MAX_SIZE key_bits
      else if PSA_KEY_TYPE_IS_ECC_KEY_PAIR key_type then PSA_KEY_EXPORT_ECC_KEY_PAIR_MAX_SIZE key_bits
      else if PSA_KEY_TYPE_IS_ECC_PUBLIC_KEY key_type then PSA_KEY_EXPORT_ECC_PUBLIC_KEY_MAX_SIZE key_bits
      else 0)"
definition PSA_EXPORT_PUBLIC_KEY_OUTPUT_SIZE :: "u16 \<Rightarrow> nat \<Rightarrow> nat" where
  "PSA_EXPORT_PUBLIC_KEY_OUTPUT_SIZE key_type key_bits =
     (if PSA_KEY_TYPE_IS_RSA key_type then PSA_KEY_EXPORT_RSA_PUBLIC_KEY_MAX_SIZE key_bits
      else if PSA_KEY_TYPE_IS_ECC key_type then PSA_KEY_EXPORT_ECC_PUBLIC_KEY_MAX_SIZE key_bits
      else 0)"
definition PSA_EXPORT_KEY_PAIR_MAX_SIZE :: nat where
  "PSA_EXPORT_KEY_PAIR_MAX_SIZE =
     (if PSA_KEY_EXPORT_RSA_KEY_PAIR_MAX_SIZE PSA_VENDOR_RSA_MAX_KEY_BITS > PSA_KEY_EXPORT_ECC_KEY_PAIR_MAX_SIZE PSA_VENDOR_ECC_MAX_CURVE_BITS
      then PSA_KEY_EXPORT_RSA_KEY_PAIR_MAX_SIZE PSA_VENDOR_RSA_MAX_KEY_BITS
      else PSA_KEY_EXPORT_ECC_KEY_PAIR_MAX_SIZE PSA_VENDOR_ECC_MAX_CURVE_BITS)"
definition PSA_EXPORT_PUBLIC_KEY_MAX_SIZE :: nat where
  "PSA_EXPORT_PUBLIC_KEY_MAX_SIZE =
     (if PSA_KEY_EXPORT_RSA_PUBLIC_KEY_MAX_SIZE PSA_VENDOR_RSA_MAX_KEY_BITS > PSA_KEY_EXPORT_ECC_PUBLIC_KEY_MAX_SIZE PSA_VENDOR_ECC_MAX_CURVE_BITS
      then PSA_KEY_EXPORT_RSA_PUBLIC_KEY_MAX_SIZE PSA_VENDOR_RSA_MAX_KEY_BITS
      else PSA_KEY_EXPORT_ECC_PUBLIC_KEY_MAX_SIZE PSA_VENDOR_ECC_MAX_CURVE_BITS)"
definition PSA_RAW_KEY_AGREEMENT_OUTPUT_SIZE :: "u16 \<Rightarrow> nat \<Rightarrow> nat" where
  "PSA_RAW_KEY_AGREEMENT_OUTPUT_SIZE key_type key_bits =
     (if PSA_KEY_TYPE_IS_ECC_KEY_PAIR key_type then PSA_BITS_TO_BYTES key_bits else 0)"
definition PSA_RAW_KEY_AGREEMENT_OUTPUT_MAX_SIZE :: nat where
  "PSA_RAW_KEY_AGREEMENT_OUTPUT_MAX_SIZE = PSA_BITS_TO_BYTES PSA_VENDOR_ECC_MAX_CURVE_BITS"

subsection \<open>Ciphers\<close>

definition PSA_CIPHER_IV_LENGTH :: "u16 \<Rightarrow> u32 \<Rightarrow> nat" where
  "PSA_CIPHER_IV_LENGTH key_type alg =
     (if PSA_BLOCK_CIPHER_BLOCK_LENGTH key_type > 1 \<and>
        alg \<in> {PSA_ALG_CTR, PSA_ALG_CFB, PSA_ALG_OFB, PSA_ALG_XTS, PSA_ALG_CBC_NO_PADDING, PSA_ALG_CBC_PKCS7}
      then PSA_BLOCK_CIPHER_BLOCK_LENGTH key_type
      else if key_type = PSA_KEY_TYPE_CHACHA20 \<and> alg = PSA_ALG_STREAM_CIPHER then 12
      else if alg = PSA_ALG_CCM_STAR_NO_TAG then 13 else 0)"
definition PSA_CIPHER_IV_MAX_SIZE :: nat where "PSA_CIPHER_IV_MAX_SIZE = 16"
definition PSA_CIPHER_ENCRYPT_OUTPUT_SIZE :: "u16 \<Rightarrow> u32 \<Rightarrow> nat \<Rightarrow> nat" where
  "PSA_CIPHER_ENCRYPT_OUTPUT_SIZE key_type alg input_length =
     (if alg = PSA_ALG_CBC_PKCS7
      then if PSA_BLOCK_CIPHER_BLOCK_LENGTH key_type \<noteq> 0
        then size_t (PSA_ROUND_UP_TO_MULTIPLE (PSA_BLOCK_CIPHER_BLOCK_LENGTH key_type) (size_t (input_length + 1)) +
          PSA_CIPHER_IV_LENGTH key_type alg)
        else 0
      else if PSA_ALG_IS_CIPHER alg then size_t (input_length + PSA_CIPHER_IV_LENGTH key_type alg) else 0)"
definition PSA_CIPHER_ENCRYPT_OUTPUT_MAX_SIZE :: "nat \<Rightarrow> nat" where
  "PSA_CIPHER_ENCRYPT_OUTPUT_MAX_SIZE input_length =
     size_t (PSA_ROUND_UP_TO_MULTIPLE PSA_BLOCK_CIPHER_BLOCK_MAX_SIZE (size_t (input_length + 1)) + PSA_CIPHER_IV_MAX_SIZE)"
definition PSA_CIPHER_DECRYPT_OUTPUT_SIZE :: "u16 \<Rightarrow> u32 \<Rightarrow> nat \<Rightarrow> nat" where
  "PSA_CIPHER_DECRYPT_OUTPUT_SIZE key_type alg input_length =
     (if PSA_ALG_IS_CIPHER alg \<and> key_type AND PSA_KEY_TYPE_CATEGORY_MASK = PSA_KEY_TYPE_CATEGORY_SYMMETRIC
      then input_length else 0)"
definition PSA_CIPHER_DECRYPT_OUTPUT_MAX_SIZE :: "nat \<Rightarrow> nat" where
  "PSA_CIPHER_DECRYPT_OUTPUT_MAX_SIZE input_length = input_length"
definition PSA_CIPHER_UPDATE_OUTPUT_SIZE :: "u16 \<Rightarrow> u32 \<Rightarrow> nat \<Rightarrow> nat" where
  "PSA_CIPHER_UPDATE_OUTPUT_SIZE key_type alg input_length =
     (if PSA_ALG_IS_CIPHER alg
      then if PSA_BLOCK_CIPHER_BLOCK_LENGTH key_type \<noteq> 0
        then if alg \<in> {PSA_ALG_CBC_PKCS7, PSA_ALG_CBC_NO_PADDING, PSA_ALG_ECB_NO_PADDING}
          then PSA_ROUND_UP_TO_MULTIPLE (PSA_BLOCK_CIPHER_BLOCK_LENGTH key_type) input_length
          else input_length
        else 0
      else 0)"
definition PSA_CIPHER_UPDATE_OUTPUT_MAX_SIZE :: "nat \<Rightarrow> nat" where
  "PSA_CIPHER_UPDATE_OUTPUT_MAX_SIZE input_length = PSA_ROUND_UP_TO_MULTIPLE PSA_BLOCK_CIPHER_BLOCK_MAX_SIZE input_length"
definition PSA_CIPHER_FINISH_OUTPUT_SIZE :: "u16 \<Rightarrow> u32 \<Rightarrow> nat" where
  "PSA_CIPHER_FINISH_OUTPUT_SIZE key_type alg =
     (if PSA_ALG_IS_CIPHER alg then if alg = PSA_ALG_CBC_PKCS7 then PSA_BLOCK_CIPHER_BLOCK_LENGTH key_type else 0 else 0)"
definition PSA_CIPHER_FINISH_OUTPUT_MAX_SIZE :: nat where "PSA_CIPHER_FINISH_OUTPUT_MAX_SIZE = PSA_BLOCK_CIPHER_BLOCK_MAX_SIZE"

subsection \<open>The sizes fit together\<close>

lemma size_t_id [simp]: "n < 2 ^ 32 \<Longrightarrow> size_t n = n"
  by (simp add: size_t_def)

lemma round_up:
  assumes "0 < b" and "n + b < 2 ^ 32"
  shows "PSA_ROUND_UP_TO_MULTIPLE b n = (n + b - 1) div b * b"
proof -
  have "n + b + (2 ^ 32 - 1) = n + b - 1 + 2 ^ 32" using assms(1) by simp
  then have "size_t (n + b + (2 ^ 32 - 1)) = n + b - 1"
    unfolding size_t_def using assms(2) by (simp only: mod_add_self2) simp
  moreover have "(n + b - 1) div b * b < 2 ^ 32"
    using div_times_less_eq_dividend [of "n + b - 1" b] assms(2) by linarith
  ultimately show ?thesis by (simp only: PSA_ROUND_UP_TO_MULTIPLE_def size_t_id)
qed

lemma aead_on_block_cipher:
  assumes "PSA_AEAD_NONCE_LENGTH t alg \<noteq> 0" and "PSA_ALG_IS_AEAD_ON_BLOCK_CIPHER alg"
  shows "PSA_BLOCK_CIPHER_BLOCK_LENGTH t = 16"
proof (rule ccontr)
  assume "PSA_BLOCK_CIPHER_BLOCK_LENGTH t \<noteq> 16"
  with assms(1) have "MBEDTLS_PSA_ALG_AEAD_EQUAL alg PSA_ALG_CHACHA20_POLY1305"
    by (auto simp: PSA_AEAD_NONCE_LENGTH_def split: if_splits)
  with assms(2) show False unfolding alg_defs by (simp add: word32_eq_iff bit_simps)
qed

lemma aead_size_facts:
  assumes "PSA_AEAD_NONCE_LENGTH t alg \<noteq> 0" and "n + 64 < 2 ^ 32"
  shows "PSA_AEAD_ENCRYPT_OUTPUT_SIZE t alg n = n + PSA_AEAD_TAG_LENGTH t alg"
    and "PSA_AEAD_DECRYPT_OUTPUT_SIZE t alg (PSA_AEAD_ENCRYPT_OUTPUT_SIZE t alg n) = n"
    and "PSA_ALG_AEAD_GET_TAG_LENGTH alg \<le> PSA_AEAD_TAG_MAX_SIZE \<Longrightarrow>
      PSA_AEAD_ENCRYPT_OUTPUT_SIZE t alg n \<le> PSA_AEAD_ENCRYPT_OUTPUT_MAX_SIZE n"
    and "PSA_AEAD_NONCE_LENGTH t alg \<le> PSA_AEAD_NONCE_MAX_SIZE"
    and "PSA_AEAD_UPDATE_OUTPUT_SIZE t alg n \<le> PSA_AEAD_UPDATE_OUTPUT_MAX_SIZE n"
    and "PSA_AEAD_FINISH_OUTPUT_SIZE t alg \<le> PSA_AEAD_FINISH_OUTPUT_MAX_SIZE"
    and "PSA_AEAD_VERIFY_OUTPUT_SIZE t alg \<le> PSA_AEAD_VERIFY_OUTPUT_MAX_SIZE"
    and "n \<le> PSA_AEAD_UPDATE_OUTPUT_SIZE t alg n + PSA_AEAD_FINISH_OUTPUT_SIZE t alg"
proof -
  have tag: "PSA_ALG_AEAD_GET_TAG_LENGTH alg < 64"
  proof -
    have "drop_bit PSA_AEAD_TAG_LENGTH_OFFSET (alg AND PSA_ALG_AEAD_TAG_LENGTH_MASK) \<le> 0x3f"
    proof -
      have "drop_bit PSA_AEAD_TAG_LENGTH_OFFSET (alg AND PSA_ALG_AEAD_TAG_LENGTH_MASK) =
          drop_bit PSA_AEAD_TAG_LENGTH_OFFSET (alg AND PSA_ALG_AEAD_TAG_LENGTH_MASK) AND 0x3f"
        unfolding alg_defs by (rule word32_eqI) (simp add: bit_simps)
      then show ?thesis by (metis word_and_le1)
    qed
    then show ?thesis by (simp add: PSA_ALG_AEAD_GET_TAG_LENGTH_def word_le_nat_alt)
  qed
  show enc: "PSA_AEAD_ENCRYPT_OUTPUT_SIZE t alg n = n + PSA_AEAD_TAG_LENGTH t alg"
    using assms tag by (simp add: PSA_AEAD_ENCRYPT_OUTPUT_SIZE_def PSA_AEAD_TAG_LENGTH_def)
  then show "PSA_AEAD_DECRYPT_OUTPUT_SIZE t alg (PSA_AEAD_ENCRYPT_OUTPUT_SIZE t alg n) = n"
    using assms(1) by (auto simp: PSA_AEAD_DECRYPT_OUTPUT_SIZE_def PSA_AEAD_TAG_LENGTH_def)
  show "PSA_AEAD_ENCRYPT_OUTPUT_SIZE t alg n \<le> PSA_AEAD_ENCRYPT_OUTPUT_MAX_SIZE n"
    if "PSA_ALG_AEAD_GET_TAG_LENGTH alg \<le> PSA_AEAD_TAG_MAX_SIZE"
    using that assms enc by (simp add: PSA_AEAD_ENCRYPT_OUTPUT_MAX_SIZE_def PSA_AEAD_TAG_LENGTH_def PSA_AEAD_TAG_MAX_SIZE_def)
  show "PSA_AEAD_NONCE_LENGTH t alg \<le> PSA_AEAD_NONCE_MAX_SIZE"
    by (simp add: PSA_AEAD_NONCE_LENGTH_def PSA_AEAD_NONCE_MAX_SIZE_def)
  have up: "n \<le> (n + 15) div 16 * 16" by simp
  show "PSA_AEAD_UPDATE_OUTPUT_SIZE t alg n \<le> PSA_AEAD_UPDATE_OUTPUT_MAX_SIZE n"
    using assms aead_on_block_cipher [of t alg] up
    by (auto simp: PSA_AEAD_UPDATE_OUTPUT_SIZE_def PSA_AEAD_UPDATE_OUTPUT_MAX_SIZE_def round_up PSA_BLOCK_CIPHER_BLOCK_MAX_SIZE_def)
  show fin: "PSA_AEAD_FINISH_OUTPUT_SIZE t alg \<le> PSA_AEAD_FINISH_OUTPUT_MAX_SIZE"
    "PSA_AEAD_VERIFY_OUTPUT_SIZE t alg \<le> PSA_AEAD_VERIFY_OUTPUT_MAX_SIZE"
    using aead_on_block_cipher [of t alg]
    by (auto simp: PSA_AEAD_FINISH_OUTPUT_SIZE_def PSA_AEAD_FINISH_OUTPUT_MAX_SIZE_def PSA_AEAD_VERIFY_OUTPUT_SIZE_def
      PSA_AEAD_VERIFY_OUTPUT_MAX_SIZE_def PSA_BLOCK_CIPHER_BLOCK_MAX_SIZE_def)
  show "n \<le> PSA_AEAD_UPDATE_OUTPUT_SIZE t alg n + PSA_AEAD_FINISH_OUTPUT_SIZE t alg"
    using assms aead_on_block_cipher [of t alg] up
    by (auto simp: PSA_AEAD_UPDATE_OUTPUT_SIZE_def round_up)
qed

text \<open>
  The sizes for authenticated encryption fit together. A buffer for the ciphertext of \<open>n\<close> bytes has room for
  exactly the text and the tag, and decrypting what fits into it needs \<open>n\<close> bytes again; what a multi-part encryption
  puts out never needs more than its update and its finish are given; and every size that depends
  on the key type and the algorithm stays below its maximum.
\<close>

theorem psa_aead_sizes:
  assumes "PSA_AEAD_NONCE_LENGTH t alg \<noteq> 0" and "PSA_ALG_AEAD_GET_TAG_LENGTH alg \<le> PSA_AEAD_TAG_MAX_SIZE" and "n + 64 < 2 ^ 32"
  shows "PSA_AEAD_ENCRYPT_OUTPUT_SIZE t alg n = n + PSA_AEAD_TAG_LENGTH t alg \<and>
    PSA_AEAD_DECRYPT_OUTPUT_SIZE t alg (PSA_AEAD_ENCRYPT_OUTPUT_SIZE t alg n) = n \<and>
    n \<le> PSA_AEAD_UPDATE_OUTPUT_SIZE t alg n + PSA_AEAD_FINISH_OUTPUT_SIZE t alg \<and>
    PSA_AEAD_ENCRYPT_OUTPUT_SIZE t alg n \<le> PSA_AEAD_ENCRYPT_OUTPUT_MAX_SIZE n \<and>
    PSA_AEAD_UPDATE_OUTPUT_SIZE t alg n \<le> PSA_AEAD_UPDATE_OUTPUT_MAX_SIZE n \<and>
    PSA_AEAD_FINISH_OUTPUT_SIZE t alg \<le> PSA_AEAD_FINISH_OUTPUT_MAX_SIZE \<and>
    PSA_AEAD_NONCE_LENGTH t alg \<le> PSA_AEAD_NONCE_MAX_SIZE"
  by (intro conjI aead_size_facts [OF assms(1,3)] assms(2))

theorem psa_aead_sizes_witness:
  "PSA_AEAD_DECRYPT_OUTPUT_SIZE PSA_KEY_TYPE_AES PSA_ALG_CCM (PSA_AEAD_ENCRYPT_OUTPUT_SIZE PSA_KEY_TYPE_AES PSA_ALG_CCM 100) = 100"
proof -
  have n: "PSA_AEAD_NONCE_LENGTH PSA_KEY_TYPE_AES PSA_ALG_CCM \<noteq> 0"
    by (simp add: PSA_AEAD_NONCE_LENGTH_def PSA_BLOCK_CIPHER_BLOCK_LENGTH_def PSA_GET_KEY_TYPE_BLOCK_SIZE_EXPONENT_def
      PSA_KEY_TYPE_AES_def PSA_KEY_TYPE_CATEGORY_MASK_def PSA_KEY_TYPE_CATEGORY_SYMMETRIC_def MBEDTLS_PSA_ALG_AEAD_EQUAL_def)
  have t: "PSA_ALG_AEAD_GET_TAG_LENGTH PSA_ALG_CCM \<le> PSA_AEAD_TAG_MAX_SIZE"
    unfolding PSA_AEAD_TAG_MAX_SIZE_def PSA_ALG_AEAD_GET_TAG_LENGTH_def alg_defs by simp
  have "(100 :: nat) + 64 < 2 ^ 32" by simp
  from psa_aead_sizes [OF n t this] show ?thesis by (elim conjE)
qed

text \<open>Keys of the largest sizes: signatures and exported keys fit into the buffers of maximal size.\<close>

lemma bits_to_bytes: "bits \<le> 8 * k \<Longrightarrow> 8 * k < 2 ^ 32 - 8 \<Longrightarrow> PSA_BITS_TO_BYTES bits \<le> k"
  by (simp add: PSA_BITS_TO_BYTES_def size_t_def)

lemma signature_max: "PSA_SIGNATURE_MAX_SIZE = 512"
  by (simp add: PSA_SIGNATURE_MAX_SIZE_def PSA_VENDOR_ECDSA_SIGNATURE_MAX_SIZE_def PSA_ECDSA_SIGNATURE_SIZE_def
    PSA_BITS_TO_BYTES_def PSA_VENDOR_RSA_MAX_KEY_BITS_def PSA_VENDOR_ECC_MAX_CURVE_BITS_def size_t_def)

theorem psa_sign_size:
  assumes "bits \<le> (if PSA_KEY_TYPE_IS_RSA t then PSA_VENDOR_RSA_MAX_KEY_BITS else PSA_VENDOR_ECC_MAX_CURVE_BITS)"
  shows "PSA_SIGN_OUTPUT_SIZE t bits \<le> PSA_SIGNATURE_MAX_SIZE"
    and "PSA_EXPORT_PUBLIC_KEY_OUTPUT_SIZE t bits \<le> PSA_EXPORT_PUBLIC_KEY_MAX_SIZE"
    and "PSA_RAW_KEY_AGREEMENT_OUTPUT_SIZE t bits \<le> PSA_RAW_KEY_AGREEMENT_OUTPUT_MAX_SIZE \<or> PSA_KEY_TYPE_IS_RSA t"
proof -
  have rsa: "PSA_BITS_TO_BYTES bits \<le> 512" if "bits \<le> 4096" using bits_to_bytes [of bits 512] that by simp
  have ecc: "PSA_BITS_TO_BYTES bits \<le> 66" if "bits \<le> 521" using bits_to_bytes [of bits 66] that by simp
  note s = PSA_VENDOR_RSA_MAX_KEY_BITS_def PSA_VENDOR_ECC_MAX_CURVE_BITS_def
  show "PSA_SIGN_OUTPUT_SIZE t bits \<le> PSA_SIGNATURE_MAX_SIZE"
    using assms rsa ecc by (auto simp: PSA_SIGN_OUTPUT_SIZE_def signature_max PSA_ECDSA_SIGNATURE_SIZE_def s)
  have m: "PSA_EXPORT_PUBLIC_KEY_MAX_SIZE = 528"
    by (simp add: PSA_EXPORT_PUBLIC_KEY_MAX_SIZE_def PSA_KEY_EXPORT_RSA_PUBLIC_KEY_MAX_SIZE_def PSA_KEY_EXPORT_ASN1_INTEGER_MAX_SIZE_def
      PSA_KEY_EXPORT_ECC_PUBLIC_KEY_MAX_SIZE_def PSA_BITS_TO_BYTES_def size_t_def s)
  have d: "bits div 8 \<le> 512" if "bits \<le> 4096" using that by simp
  show "PSA_EXPORT_PUBLIC_KEY_OUTPUT_SIZE t bits \<le> PSA_EXPORT_PUBLIC_KEY_MAX_SIZE"
    using assms ecc d unfolding m
    by (auto simp: PSA_EXPORT_PUBLIC_KEY_OUTPUT_SIZE_def PSA_KEY_EXPORT_RSA_PUBLIC_KEY_MAX_SIZE_def PSA_KEY_EXPORT_ASN1_INTEGER_MAX_SIZE_def
      PSA_KEY_EXPORT_ECC_PUBLIC_KEY_MAX_SIZE_def s)
  show "PSA_RAW_KEY_AGREEMENT_OUTPUT_SIZE t bits \<le> PSA_RAW_KEY_AGREEMENT_OUTPUT_MAX_SIZE \<or> PSA_KEY_TYPE_IS_RSA t"
    using assms ecc by (auto simp: PSA_RAW_KEY_AGREEMENT_OUTPUT_SIZE_def PSA_RAW_KEY_AGREEMENT_OUTPUT_MAX_SIZE_def
      PSA_BITS_TO_BYTES_def size_t_def s)
qed

text \<open>The exported form of a public key has the size of its key pair's public half.\<close>

lemma public_key_size:
  "PSA_EXPORT_PUBLIC_KEY_OUTPUT_SIZE (PSA_KEY_TYPE_ECC_KEY_PAIR c) bits = EXPORT_KEY_OUTPUT_SIZE (PSA_KEY_TYPE_ECC_PUBLIC_KEY c) bits"
proof -
  have "PSA_KEY_TYPE_ECC_PUBLIC_KEY c \<noteq> PSA_KEY_TYPE_RSA_KEY_PAIR" "PSA_KEY_TYPE_ECC_PUBLIC_KEY c \<noteq> PSA_KEY_TYPE_RSA_PUBLIC_KEY"
    "PSA_KEY_TYPE_ECC_PUBLIC_KEY c \<noteq> PSA_KEY_TYPE_DSA_KEY_PAIR" "PSA_KEY_TYPE_ECC_PUBLIC_KEY c \<noteq> PSA_KEY_TYPE_DSA_PUBLIC_KEY"
    "\<not> PSA_KEY_TYPE_IS_ECC_KEY_PAIR (PSA_KEY_TYPE_ECC_PUBLIC_KEY c)"
    unfolding key_type_defs PSA_KEY_TYPE_DSA_KEY_PAIR_def PSA_KEY_TYPE_DSA_PUBLIC_KEY_def by (simp_all add: word16_eq_iff bit_simps)
  then show ?thesis by (simp add: PSA_EXPORT_PUBLIC_KEY_OUTPUT_SIZE_def EXPORT_KEY_OUTPUT_SIZE_def)
qed

text \<open>
  A multi-part CBC encryption with padding never needs more than what its update and its finish are
  given: the padded text.
\<close>

lemma cbc_parts:
  assumes "PSA_BLOCK_CIPHER_BLOCK_LENGTH t = b" and "b \<in> {8, 16}" and "n + 33 < 2 ^ 32"
  shows "PSA_ROUND_UP_TO_MULTIPLE b (n + 1) \<le> PSA_CIPHER_UPDATE_OUTPUT_SIZE t PSA_ALG_CBC_PKCS7 n + PSA_CIPHER_FINISH_OUTPUT_SIZE t PSA_ALG_CBC_PKCS7"
proof -
  have c: "PSA_ALG_IS_CIPHER PSA_ALG_CBC_PKCS7" unfolding alg_defs by simp
  have "(n + b) div b * b \<le> (n + b - 1) div b * b + b" using assms(2) by auto
  then show ?thesis using assms c
    by (auto simp: PSA_CIPHER_UPDATE_OUTPUT_SIZE_def PSA_CIPHER_FINISH_OUTPUT_SIZE_def round_up)
qed

end
