(* ===== verification/PsaUtil.thy ===== *)
theory PsaUtil
  imports PsaCrypto PsaValues PkiUtils
begin

text \<open>
  The conversions between PSA Crypto and mbedTLS (\<open>provision/crypto/psa_util.c\<close>): error codes, elliptic curves,
  hash algorithms, and the DER form of a signature. What comes from mbedTLS and is not in the repository is an
  argument: the numbers of its errors (\<open>code\<close>), which curves and hashes are enabled, the object identifiers,
  the DER writers.
\<close>

subsection \<open>Error codes\<close>

datatype mbedtls_error =
    MBEDTLS_ERR_AES_INVALID_KEY_LENGTH | MBEDTLS_ERR_AES_INVALID_INPUT_LENGTH | MBEDTLS_ERR_ASN1_OUT_OF_DATA
  | MBEDTLS_ERR_ASN1_UNEXPECTED_TAG | MBEDTLS_ERR_ASN1_INVALID_LENGTH | MBEDTLS_ERR_ASN1_LENGTH_MISMATCH
  | MBEDTLS_ERR_ASN1_INVALID_DATA | MBEDTLS_ERR_ASN1_ALLOC_FAILED | MBEDTLS_ERR_ASN1_BUF_TOO_SMALL
  | MBEDTLS_ERR_CIPHER_FEATURE_UNAVAILABLE | MBEDTLS_ERR_CIPHER_BAD_INPUT_DATA | MBEDTLS_ERR_CIPHER_ALLOC_FAILED
  | MBEDTLS_ERR_CIPHER_INVALID_PADDING | MBEDTLS_ERR_CIPHER_FULL_BLOCK_EXPECTED | MBEDTLS_ERR_CIPHER_AUTH_FAILED
  | MBEDTLS_ERR_CIPHER_INVALID_CONTEXT | MBEDTLS_ERR_CTR_DRBG_ENTROPY_SOURCE_FAILED
  | MBEDTLS_ERR_CTR_DRBG_REQUEST_TOO_BIG | MBEDTLS_ERR_CTR_DRBG_INPUT_TOO_BIG
  | MBEDTLS_ERR_CTR_DRBG_FILE_IO_ERROR | MBEDTLS_ERR_ENTROPY_NO_SOURCES_DEFINED
  | MBEDTLS_ERR_ENTROPY_NO_STRONG_SOURCE | MBEDTLS_ERR_ENTROPY_SOURCE_FAILED
  | MBEDTLS_ERR_MD_FEATURE_UNAVAILABLE | MBEDTLS_ERR_MD_BAD_INPUT_DATA | MBEDTLS_ERR_MD_ALLOC_FAILED
  | MBEDTLS_ERR_MD_FILE_IO_ERROR | MBEDTLS_ERR_MPI_FILE_IO_ERROR | MBEDTLS_ERR_MPI_BAD_INPUT_DATA
  | MBEDTLS_ERR_MPI_INVALID_CHARACTER | MBEDTLS_ERR_MPI_BUFFER_TOO_SMALL | MBEDTLS_ERR_MPI_NEGATIVE_VALUE
  | MBEDTLS_ERR_MPI_DIVISION_BY_ZERO | MBEDTLS_ERR_MPI_NOT_ACCEPTABLE | MBEDTLS_ERR_MPI_ALLOC_FAILED
  | MBEDTLS_ERR_PK_ALLOC_FAILED | MBEDTLS_ERR_PK_TYPE_MISMATCH | MBEDTLS_ERR_PK_BAD_INPUT_DATA
  | MBEDTLS_ERR_PK_FILE_IO_ERROR | MBEDTLS_ERR_PK_KEY_INVALID_VERSION | MBEDTLS_ERR_PK_KEY_INVALID_FORMAT
  | MBEDTLS_ERR_PK_UNKNOWN_PK_ALG | MBEDTLS_ERR_PK_PASSWORD_REQUIRED | MBEDTLS_ERR_PK_PASSWORD_MISMATCH
  | MBEDTLS_ERR_PK_INVALID_PUBKEY | MBEDTLS_ERR_PK_INVALID_ALG | MBEDTLS_ERR_PK_UNKNOWN_NAMED_CURVE
  | MBEDTLS_ERR_PK_FEATURE_UNAVAILABLE | MBEDTLS_ERR_PK_SIG_LEN_MISMATCH | MBEDTLS_ERR_RSA_BAD_INPUT_DATA
  | MBEDTLS_ERR_RSA_INVALID_PADDING | MBEDTLS_ERR_RSA_KEY_GEN_FAILED | MBEDTLS_ERR_RSA_KEY_CHECK_FAILED
  | MBEDTLS_ERR_RSA_PUBLIC_FAILED | MBEDTLS_ERR_RSA_PRIVATE_FAILED | MBEDTLS_ERR_RSA_VERIFY_FAILED
  | MBEDTLS_ERR_RSA_OUTPUT_TOO_LARGE | MBEDTLS_ERR_RSA_RNG_FAILED | MBEDTLS_ERR_ECP_BAD_INPUT_DATA
  | MBEDTLS_ERR_ECP_INVALID_KEY | MBEDTLS_ERR_ECP_BUFFER_TOO_SMALL | MBEDTLS_ERR_ECP_FEATURE_UNAVAILABLE
  | MBEDTLS_ERR_ECP_SIG_LEN_MISMATCH | MBEDTLS_ERR_ECP_VERIFY_FAILED | MBEDTLS_ERR_ECP_ALLOC_FAILED
  | MBEDTLS_ERR_ECP_RANDOM_FAILED | MBEDTLS_ERR_ERROR_CORRUPTION_DETECTED | MBEDTLS_ERR_ERROR_GENERIC_ERROR
  | MBEDTLS_ERR_X509_ALLOC_FAILED | MBEDTLS_ERR_X509_CERT_UNKNOWN_FORMAT | MBEDTLS_ERR_X509_BAD_INPUT_DATA
  | MBEDTLS_ERR_PEM_BAD_INPUT_DATA | MBEDTLS_ERR_PEM_NO_HEADER_FOOTER_PRESENT

type_synonym error_code = "mbedtls_error \<Rightarrow> int"

definition mbedtls_psa_err_translate_pk :: "error_code \<Rightarrow> int \<Rightarrow> int" where
  "mbedtls_psa_err_translate_pk code status =
     (if status = PSA_SUCCESS then 0
      else if status = PSA_ERROR_NOT_SUPPORTED then code MBEDTLS_ERR_PK_FEATURE_UNAVAILABLE
      else if status = PSA_ERROR_INSUFFICIENT_MEMORY then code MBEDTLS_ERR_PK_ALLOC_FAILED
      else if status = PSA_ERROR_INSUFFICIENT_ENTROPY then code MBEDTLS_ERR_ECP_RANDOM_FAILED
      else if status = PSA_ERROR_BAD_STATE then code MBEDTLS_ERR_PK_BAD_INPUT_DATA
      else code MBEDTLS_ERR_ERROR_GENERIC_ERROR)"

text \<open>The cases of the switch in \<open>mbedtls_to_psa_error\<close>.\<close>

definition psa_error_table :: "(mbedtls_error \<times> int) list" where
  "psa_error_table = [
     (MBEDTLS_ERR_AES_INVALID_KEY_LENGTH, PSA_ERROR_NOT_SUPPORTED),
     (MBEDTLS_ERR_AES_INVALID_INPUT_LENGTH, PSA_ERROR_NOT_SUPPORTED),
     (MBEDTLS_ERR_ASN1_OUT_OF_DATA, PSA_ERROR_INVALID_ARGUMENT),
     (MBEDTLS_ERR_ASN1_UNEXPECTED_TAG, PSA_ERROR_INVALID_ARGUMENT),
     (MBEDTLS_ERR_ASN1_INVALID_LENGTH, PSA_ERROR_INVALID_ARGUMENT),
     (MBEDTLS_ERR_ASN1_LENGTH_MISMATCH, PSA_ERROR_INVALID_ARGUMENT),
     (MBEDTLS_ERR_ASN1_INVALID_DATA, PSA_ERROR_INVALID_ARGUMENT),
     (MBEDTLS_ERR_ASN1_ALLOC_FAILED, PSA_ERROR_INSUFFICIENT_MEMORY),
     (MBEDTLS_ERR_ASN1_BUF_TOO_SMALL, PSA_ERROR_BUFFER_TOO_SMALL),
     (MBEDTLS_ERR_CIPHER_FEATURE_UNAVAILABLE, PSA_ERROR_NOT_SUPPORTED),
     (MBEDTLS_ERR_CIPHER_BAD_INPUT_DATA, PSA_ERROR_INVALID_ARGUMENT),
     (MBEDTLS_ERR_CIPHER_ALLOC_FAILED, PSA_ERROR_INSUFFICIENT_MEMORY),
     (MBEDTLS_ERR_CIPHER_INVALID_PADDING, PSA_ERROR_INVALID_PADDING),
     (MBEDTLS_ERR_CIPHER_FULL_BLOCK_EXPECTED, PSA_ERROR_INVALID_ARGUMENT),
     (MBEDTLS_ERR_CIPHER_AUTH_FAILED, PSA_ERROR_INVALID_SIGNATURE),
     (MBEDTLS_ERR_CIPHER_INVALID_CONTEXT, PSA_ERROR_CORRUPTION_DETECTED),
     (MBEDTLS_ERR_CTR_DRBG_ENTROPY_SOURCE_FAILED, PSA_ERROR_INSUFFICIENT_ENTROPY),
     (MBEDTLS_ERR_CTR_DRBG_REQUEST_TOO_BIG, PSA_ERROR_NOT_SUPPORTED),
     (MBEDTLS_ERR_CTR_DRBG_INPUT_TOO_BIG, PSA_ERROR_NOT_SUPPORTED),
     (MBEDTLS_ERR_CTR_DRBG_FILE_IO_ERROR, PSA_ERROR_INSUFFICIENT_ENTROPY),
     (MBEDTLS_ERR_ENTROPY_NO_SOURCES_DEFINED, PSA_ERROR_INSUFFICIENT_ENTROPY),
     (MBEDTLS_ERR_ENTROPY_NO_STRONG_SOURCE, PSA_ERROR_INSUFFICIENT_ENTROPY),
     (MBEDTLS_ERR_ENTROPY_SOURCE_FAILED, PSA_ERROR_INSUFFICIENT_ENTROPY),
     (MBEDTLS_ERR_MD_FEATURE_UNAVAILABLE, PSA_ERROR_NOT_SUPPORTED),
     (MBEDTLS_ERR_MD_BAD_INPUT_DATA, PSA_ERROR_INVALID_ARGUMENT),
     (MBEDTLS_ERR_MD_ALLOC_FAILED, PSA_ERROR_INSUFFICIENT_MEMORY),
     (MBEDTLS_ERR_MD_FILE_IO_ERROR, PSA_ERROR_STORAGE_FAILURE),
     (MBEDTLS_ERR_MPI_FILE_IO_ERROR, PSA_ERROR_STORAGE_FAILURE),
     (MBEDTLS_ERR_MPI_BAD_INPUT_DATA, PSA_ERROR_INVALID_ARGUMENT),
     (MBEDTLS_ERR_MPI_INVALID_CHARACTER, PSA_ERROR_INVALID_ARGUMENT),
     (MBEDTLS_ERR_MPI_BUFFER_TOO_SMALL, PSA_ERROR_BUFFER_TOO_SMALL),
     (MBEDTLS_ERR_MPI_NEGATIVE_VALUE, PSA_ERROR_INVALID_ARGUMENT),
     (MBEDTLS_ERR_MPI_DIVISION_BY_ZERO, PSA_ERROR_INVALID_ARGUMENT),
     (MBEDTLS_ERR_MPI_NOT_ACCEPTABLE, PSA_ERROR_INVALID_ARGUMENT),
     (MBEDTLS_ERR_MPI_ALLOC_FAILED, PSA_ERROR_INSUFFICIENT_MEMORY),
     (MBEDTLS_ERR_PK_ALLOC_FAILED, PSA_ERROR_INSUFFICIENT_MEMORY),
     (MBEDTLS_ERR_PK_TYPE_MISMATCH, PSA_ERROR_INVALID_ARGUMENT),
     (MBEDTLS_ERR_PK_BAD_INPUT_DATA, PSA_ERROR_INVALID_ARGUMENT),
     (MBEDTLS_ERR_PK_FILE_IO_ERROR, PSA_ERROR_STORAGE_FAILURE),
     (MBEDTLS_ERR_PK_KEY_INVALID_VERSION, PSA_ERROR_INVALID_ARGUMENT),
     (MBEDTLS_ERR_PK_KEY_INVALID_FORMAT, PSA_ERROR_INVALID_ARGUMENT),
     (MBEDTLS_ERR_PK_UNKNOWN_PK_ALG, PSA_ERROR_NOT_SUPPORTED),
     (MBEDTLS_ERR_PK_PASSWORD_REQUIRED, PSA_ERROR_NOT_PERMITTED),
     (MBEDTLS_ERR_PK_PASSWORD_MISMATCH, PSA_ERROR_NOT_PERMITTED),
     (MBEDTLS_ERR_PK_INVALID_PUBKEY, PSA_ERROR_INVALID_ARGUMENT),
     (MBEDTLS_ERR_PK_INVALID_ALG, PSA_ERROR_NOT_SUPPORTED),
     (MBEDTLS_ERR_PK_UNKNOWN_NAMED_CURVE, PSA_ERROR_NOT_SUPPORTED),
     (MBEDTLS_ERR_PK_FEATURE_UNAVAILABLE, PSA_ERROR_NOT_SUPPORTED),
     (MBEDTLS_ERR_PK_SIG_LEN_MISMATCH, PSA_ERROR_INVALID_SIGNATURE),
     (MBEDTLS_ERR_RSA_BAD_INPUT_DATA, PSA_ERROR_INVALID_ARGUMENT),
     (MBEDTLS_ERR_RSA_INVALID_PADDING, PSA_ERROR_INVALID_PADDING),
     (MBEDTLS_ERR_RSA_KEY_GEN_FAILED, PSA_ERROR_HARDWARE_FAILURE),
     (MBEDTLS_ERR_RSA_KEY_CHECK_FAILED, PSA_ERROR_INVALID_ARGUMENT),
     (MBEDTLS_ERR_RSA_PUBLIC_FAILED, PSA_ERROR_CORRUPTION_DETECTED),
     (MBEDTLS_ERR_RSA_PRIVATE_FAILED, PSA_ERROR_CORRUPTION_DETECTED),
     (MBEDTLS_ERR_RSA_VERIFY_FAILED, PSA_ERROR_INVALID_SIGNATURE),
     (MBEDTLS_ERR_RSA_OUTPUT_TOO_LARGE, PSA_ERROR_BUFFER_TOO_SMALL),
     (MBEDTLS_ERR_RSA_RNG_FAILED, PSA_ERROR_INSUFFICIENT_ENTROPY),
     (MBEDTLS_ERR_ECP_BAD_INPUT_DATA, PSA_ERROR_INVALID_ARGUMENT),
     (MBEDTLS_ERR_ECP_INVALID_KEY, PSA_ERROR_INVALID_ARGUMENT),
     (MBEDTLS_ERR_ECP_BUFFER_TOO_SMALL, PSA_ERROR_BUFFER_TOO_SMALL),
     (MBEDTLS_ERR_ECP_FEATURE_UNAVAILABLE, PSA_ERROR_NOT_SUPPORTED),
     (MBEDTLS_ERR_ECP_SIG_LEN_MISMATCH, PSA_ERROR_INVALID_SIGNATURE),
     (MBEDTLS_ERR_ECP_VERIFY_FAILED, PSA_ERROR_INVALID_SIGNATURE),
     (MBEDTLS_ERR_ECP_ALLOC_FAILED, PSA_ERROR_INSUFFICIENT_MEMORY),
     (MBEDTLS_ERR_ECP_RANDOM_FAILED, PSA_ERROR_INSUFFICIENT_ENTROPY),
     (MBEDTLS_ERR_ERROR_CORRUPTION_DETECTED, PSA_ERROR_CORRUPTION_DETECTED)]"

definition mbedtls_to_psa_error :: "error_code \<Rightarrow> int \<Rightarrow> int" where
  "mbedtls_to_psa_error code ret =
     (let low_level_ret = - ((- ret) mod 128);
          v = (if low_level_ret \<noteq> 0 then low_level_ret else ret)
      in if v = 0 then PSA_SUCCESS
         else case find (\<lambda>(e, p). code e = v) psa_error_table of
             Some (e, p) \<Rightarrow> p
           | None \<Rightarrow> if ret < 0 then PSA_ERROR_GENERIC_ERROR else PSA_SUCCESS)"

subsection \<open>Curves and hashes\<close>

definition named_curve :: "u8 \<Rightarrow> nat \<Rightarrow> mbedtls_ecp_group_id option" where
  "named_curve curve bits =
     (if curve = PSA_ECC_FAMILY_SECP_R1
      then if bits = 192 then Some MBEDTLS_ECP_DP_SECP192R1
        else if bits = 224 then Some MBEDTLS_ECP_DP_SECP224R1
        else if bits = 256 then Some MBEDTLS_ECP_DP_SECP256R1
        else if bits = 384 then Some MBEDTLS_ECP_DP_SECP384R1
        else if bits = 521 then Some MBEDTLS_ECP_DP_SECP521R1
        else None
      else if curve = PSA_ECC_FAMILY_SECP_K1
      then if bits = 192 then Some MBEDTLS_ECP_DP_SECP192K1
        else if bits = 224 then Some MBEDTLS_ECP_DP_SECP224K1
        else if bits = 256 then Some MBEDTLS_ECP_DP_SECP256K1
        else None
      else if curve = PSA_ECC_FAMILY_BRAINPOOL_P_R1
      then if bits = 256 then Some MBEDTLS_ECP_DP_BP256R1
        else if bits = 384 then Some MBEDTLS_ECP_DP_BP384R1
        else if bits = 512 then Some MBEDTLS_ECP_DP_BP512R1
        else None
      else None)"

text \<open>The out parameters stay as they are (\<open>None\<close>) when the result is -1.\<close>

definition mbedtls_psa_get_ecc_oid_from_id ::
  "(mbedtls_ecp_group_id \<Rightarrow> bool) \<Rightarrow> (mbedtls_ecp_group_id \<Rightarrow> bytes) \<Rightarrow> u8 \<Rightarrow> nat \<Rightarrow> int \<times> bytes option" where
  "mbedtls_psa_get_ecc_oid_from_id enabled oid curve bits =
     (case named_curve curve bits of
        Some g \<Rightarrow> if enabled g then (0, Some (oid g)) else (-1, None)
      | None \<Rightarrow> (-1, None))"

definition xMbedtlsEccGroupIdFromPsaFamily :: "u8 \<Rightarrow> nat \<Rightarrow> mbedtls_ecp_group_id" where
  "xMbedtlsEccGroupIdFromPsaFamily curve bits =
     (if curve = PSA_ECC_FAMILY_SECP_R1
      then if bits = 192 then MBEDTLS_ECP_DP_SECP192R1
        else if bits = 224 then MBEDTLS_ECP_DP_SECP224R1
        else if bits = 256 then MBEDTLS_ECP_DP_SECP256R1
        else if bits = 384 then MBEDTLS_ECP_DP_SECP384R1
        else if bits = 521 \<or> bits = 528 then MBEDTLS_ECP_DP_SECP521R1
        else MBEDTLS_ECP_DP_NONE
      else if curve = PSA_ECC_FAMILY_BRAINPOOL_P_R1
      then if bits = 256 then MBEDTLS_ECP_DP_BP256R1
        else if bits = 384 then MBEDTLS_ECP_DP_BP384R1
        else if bits = 512 then MBEDTLS_ECP_DP_BP512R1
        else MBEDTLS_ECP_DP_NONE
      else if curve = PSA_ECC_FAMILY_MONTGOMERY
      then if bits = 255 \<or> bits = 256 then MBEDTLS_ECP_DP_CURVE25519
        else if bits = 448 then MBEDTLS_ECP_DP_CURVE448
        else MBEDTLS_ECP_DP_NONE
      else if curve = PSA_ECC_FAMILY_SECP_K1
      then if bits = 192 then MBEDTLS_ECP_DP_SECP192K1
        else if bits = 224 then MBEDTLS_ECP_DP_SECP224K1
        else if bits = 256 then MBEDTLS_ECP_DP_SECP256K1
        else MBEDTLS_ECP_DP_NONE
      else MBEDTLS_ECP_DP_NONE)"

definition xPsaFamilyFromMbedtlsEccGroupId :: "mbedtls_ecp_group_id \<Rightarrow> u8" where
  "xPsaFamilyFromMbedtlsEccGroupId xGroupId =
     (if xGroupId \<in> {MBEDTLS_ECP_DP_SECP192R1, MBEDTLS_ECP_DP_SECP224R1, MBEDTLS_ECP_DP_SECP256R1,
        MBEDTLS_ECP_DP_SECP384R1, MBEDTLS_ECP_DP_SECP521R1} then PSA_ECC_FAMILY_SECP_R1
      else if xGroupId \<in> {MBEDTLS_ECP_DP_BP256R1, MBEDTLS_ECP_DP_BP384R1, MBEDTLS_ECP_DP_BP512R1} then PSA_ECC_FAMILY_BRAINPOOL_P_R1
      else if xGroupId \<in> {MBEDTLS_ECP_DP_CURVE25519, MBEDTLS_ECP_DP_CURVE448} then PSA_ECC_FAMILY_MONTGOMERY
      else if xGroupId \<in> {MBEDTLS_ECP_DP_SECP192K1, MBEDTLS_ECP_DP_SECP224K1, MBEDTLS_ECP_DP_SECP256K1} then PSA_ECC_FAMILY_SECP_K1
      else 0)"

datatype mbedtls_md_type_t = MBEDTLS_MD_NONE | MBEDTLS_MD_MD5 | MBEDTLS_MD_SHA1 | MBEDTLS_MD_SHA224 | MBEDTLS_MD_SHA256
  | MBEDTLS_MD_SHA384 | MBEDTLS_MD_SHA512 | MBEDTLS_MD_RIPEMD160 | MBEDTLS_MD_OTHER

fun md_algorithm :: "mbedtls_md_type_t \<Rightarrow> u32" where
  "md_algorithm MBEDTLS_MD_MD5 = PSA_ALG_MD5"
| "md_algorithm MBEDTLS_MD_SHA1 = PSA_ALG_SHA_1"
| "md_algorithm MBEDTLS_MD_SHA224 = PSA_ALG_SHA_224"
| "md_algorithm MBEDTLS_MD_SHA256 = PSA_ALG_SHA_256"
| "md_algorithm MBEDTLS_MD_SHA384 = PSA_ALG_SHA_384"
| "md_algorithm MBEDTLS_MD_SHA512 = PSA_ALG_SHA_512"
| "md_algorithm MBEDTLS_MD_RIPEMD160 = PSA_ALG_RIPEMD160"
| "md_algorithm _ = 0"

definition mbedtls_psa_translate_md :: "(mbedtls_md_type_t \<Rightarrow> bool) \<Rightarrow> mbedtls_md_type_t \<Rightarrow> u32" where
  "mbedtls_psa_translate_md enabled md_alg = (if enabled md_alg then md_algorithm md_alg else 0)"

text \<open>
  The curve of a family and size leads back to the family, and from a curve with its own size to itself; the two
  tables of the PKCS#11 module and of this file agree.
\<close>

lemmas ecc_family_defs = PSA_ECC_FAMILY_SECP_R1_def PSA_ECC_FAMILY_SECP_K1_def PSA_ECC_FAMILY_BRAINPOOL_P_R1_def
  PSA_ECC_FAMILY_MONTGOMERY_def

theorem ecc_group_family:
  assumes "xMbedtlsEccGroupIdFromPsaFamily curve bits \<noteq> MBEDTLS_ECP_DP_NONE"
  shows "xPsaFamilyFromMbedtlsEccGroupId (xMbedtlsEccGroupIdFromPsaFamily curve bits) = curve"
  using assms unfolding xMbedtlsEccGroupIdFromPsaFamily_def xPsaFamilyFromMbedtlsEccGroupId_def
  by (auto split: if_splits)

theorem ecc_tables_agree:
  assumes "g \<noteq> MBEDTLS_ECP_DP_NONE"
  shows "fst (mbedtls_ecc_group_to_psa g) = xPsaFamilyFromMbedtlsEccGroupId g"
    and "xMbedtlsEccGroupIdFromPsaFamily (fst (mbedtls_ecc_group_to_psa g)) (snd (mbedtls_ecc_group_to_psa g)) = g"
  using assms by (cases g; simp add: xPsaFamilyFromMbedtlsEccGroupId_def xMbedtlsEccGroupIdFromPsaFamily_def ecc_family_defs)+

text \<open>
  A high-level error code on top of a low-level one is translated as the low-level one.
\<close>

theorem low_level_error_decides:
  assumes "- 128 < low" and "low < 0" and "high \<le> 0" and "high mod 128 = 0"
  shows "mbedtls_to_psa_error code (high + low) = mbedtls_to_psa_error code low"
proof -
  from assms(4) obtain k where k: "high = 128 * k" by (metis mult.commute mult_div_mod_eq add.right_neutral)
  have "(- (high + low)) mod 128 = (- low + 128 * (- k)) mod 128" by (simp add: k algebra_simps)
  also have "\<dots> = (- low) mod 128" by (rule mod_mult_self2)
  also have "\<dots> = - low" using assms(1,2) by simp
  finally have "(- (high + low)) mod 128 = - low" .
  moreover have "(- low) mod 128 = - low" using assms(1,2) by simp
  ultimately show ?thesis using assms by (simp add: mbedtls_to_psa_error_def Let_def split: option.split)
qed

text \<open>
  A positive result, which the callers take for the number of bytes written, may be taken for an error: with
  the published number of \<open>MBEDTLS_ERR_ERROR_CORRUPTION_DETECTED\<close>, 18 bytes written are corruption.
\<close>

lemma positive_taken_for_error:
  assumes "code MBEDTLS_ERR_ERROR_CORRUPTION_DETECTED = - 0x6E" and "inj code"
  shows "mbedtls_to_psa_error code 18 = PSA_ERROR_CORRUPTION_DETECTED"
proof -
  have "find (\<lambda>(e, p). code e = - 0x6E) psa_error_table = find (\<lambda>(e, p). e = MBEDTLS_ERR_ERROR_CORRUPTION_DETECTED) psa_error_table"
    unfolding assms(1) [symmetric] inj_eq [OF assms(2)] ..
  also have "\<dots> = Some (MBEDTLS_ERR_ERROR_CORRUPTION_DETECTED, PSA_ERROR_CORRUPTION_DETECTED)"
    by (simp add: psa_error_table_def)
  finally show ?thesis by (simp add: mbedtls_to_psa_error_def)
qed


subsection \<open>Signatures\<close>

text \<open>
  The DER writers of mbedTLS, which are not in the repository: they write in front of the position
  \<open>p\<close> of a buffer, not before the position \<open>start\<close>, and move \<open>p\<close>; the result is the number of bytes or a negative
  error. A pointer into the buffer is its offset.
\<close>

record asn1_writer =
  mbedtls_asn1_write_len :: "bytes \<Rightarrow> nat \<Rightarrow> nat \<Rightarrow> nat \<Rightarrow> int \<times> bytes \<times> nat"
  mbedtls_asn1_write_tag :: "bytes \<Rightarrow> nat \<Rightarrow> nat \<Rightarrow> u8 \<Rightarrow> int \<times> bytes \<times> nat"
  MBEDTLS_ERR_ASN1_BUF_TOO_SMALL :: int
  MBEDTLS_ERR_ASN1_OUT_OF_DATA :: int

text \<open>The loop that skips leading zero bytes.\<close>

fun skip_zeros :: "bytes \<Rightarrow> nat \<Rightarrow> nat \<Rightarrow> (nat \<times> nat) option" where
  "skip_zeros b p 0 = Some (p, 0)"
| "skip_zeros b p (Suc len) = do {
     c \<leftarrow> read_at b p 1;
     if hd c = 0 then skip_zeros b (p + 1) len else Some (p, Suc len) }"

text \<open>
  \<open>MBEDTLS_ASN1_CHK_ADD\<close> for the length and the tag at the end of \<open>asn1_write_mpibuf\<close> and of
  \<open>pk_ecdsa_sig_asn1_from_psa\<close>: a negative result ends the function.
\<close>

definition write_header :: "asn1_writer \<Rightarrow> bytes \<Rightarrow> nat \<Rightarrow> nat \<Rightarrow> nat \<Rightarrow> u8 \<Rightarrow> int \<times> bytes \<times> nat" where
  "write_header w b p start len tag =
     (let (ret, b, p) = mbedtls_asn1_write_len w b p start len
      in if ret < 0 then (ret, b, p)
         else let len = len + nat ret;
                  (ret, b, p) = mbedtls_asn1_write_tag w b p start tag
              in if ret < 0 then (ret, b, p) else (int (len + nat ret), b, p))"

definition asn1_write_mpibuf :: "asn1_writer \<Rightarrow> bytes \<Rightarrow> nat \<Rightarrow> nat \<Rightarrow> nat \<Rightarrow> (int \<times> bytes \<times> nat) option" where
  "asn1_write_mpibuf w b p start n_len =
     (if (int p - int start) mod 2 ^ 32 < int n_len then Some (MBEDTLS_ERR_ASN1_BUF_TOO_SMALL w, b, p)
      else if p < n_len then None
      else do {
        let p = p - n_len;
        src \<leftarrow> read_at b start n_len;
        b \<leftarrow> write_at b p src;
        (p, len) \<leftarrow> skip_zeros b p n_len;
        if len = 0 then Some (MBEDTLS_ERR_ASN1_OUT_OF_DATA w, b, p)
        else do {
          c \<leftarrow> read_at b p 1;
          if hd c AND 0x80 \<noteq> 0
          then if int p - int start < 1 then Some (MBEDTLS_ERR_ASN1_BUF_TOO_SMALL w, b, p)
            else do {
              b \<leftarrow> write_at b (p - 1) [0];
              Some (write_header w b (p - 1) start (len + 1) 2) }
          else Some (write_header w b p start len 2) } })"

text \<open>The result has the return code, the buffer and \<open>*sig_len\<close>.\<close>

definition pk_ecdsa_sig_asn1_from_psa :: "asn1_writer \<Rightarrow> bytes \<Rightarrow> nat \<Rightarrow> nat \<Rightarrow> (int \<times> bytes \<times> nat) option" where
  "pk_ecdsa_sig_asn1_from_psa w sig sig_len buf_len = do {
     let rs_len = sig_len div 2;
     (ret, sig, p) \<leftarrow> asn1_write_mpibuf w sig buf_len rs_len rs_len;
     if ret < 0 then Some (ret, sig, sig_len)
     else do {
       let len = nat ret;
       (ret, sig, p) \<leftarrow> asn1_write_mpibuf w sig p 0 rs_len;
       if ret < 0 then Some (ret, sig, sig_len)
       else do {
         let (ret, sig, p) = write_header w sig p 0 (len + nat ret) 0x30;
         if ret < 0 then Some (ret, sig, sig_len)
         else do {
           der \<leftarrow> read_at sig p (nat ret);
           sig \<leftarrow> write_at sig 0 der;
           Some (0, sig, nat ret) } } } }"

text \<open>
  What mbedTLS documents: one byte for a short length or a tag when there is room, an error otherwise.
\<close>

locale der_writer =
  fixes w :: asn1_writer
  assumes write_len: "start < p \<Longrightarrow> p \<le> length b \<Longrightarrow> n < 128 \<Longrightarrow>
      mbedtls_asn1_write_len w b p start n = (1, b[p - 1 := of_nat n], p - 1)"
    and write_tag: "start < p \<Longrightarrow> p \<le> length b \<Longrightarrow>
      mbedtls_asn1_write_tag w b p start t = (1, b[p - 1 := t], p - 1)"
    and errors: "MBEDTLS_ERR_ASN1_BUF_TOO_SMALL w < 0" "MBEDTLS_ERR_ASN1_OUT_OF_DATA w < 0"
begin

lemma header:
  assumes "start + 2 \<le> p" and "p \<le> length b" and "n < 128"
  shows "write_header w b p start n t = (int (n + 2), b[p - 1 := of_nat n, p - 2 := t], p - 2)"
proof -
  define q where "q = p - 2"
  then have "p = Suc (Suc q)" "start \<le> q" using assms(1) by simp_all
  then show ?thesis using assms by (simp add: write_header_def write_len write_tag)
qed

end

lemma drop_update: "p < length b \<Longrightarrow> drop p (b[p := v]) = v # drop (Suc p) b"
  by (simp add: upd_conv_take_nth_drop)

lemma header_bytes:
  assumes "2 \<le> p" and "p \<le> length b"
  shows "drop (p - 2) (b[p - 1 := l, p - 2 := t]) = t # l # drop p b"
    and "k \<le> p - 2 \<Longrightarrow> take k (b[p - 1 := l, p - 2 := t]) = take k b"
proof -
  from assms obtain q where q: "p = Suc (Suc q)" by (metis add_2_eq_Suc le_Suc_ex)
  have "drop q (b[Suc q := l, q := t]) = t # drop (Suc q) (b[Suc q := l])"
    using drop_update [of q "b[Suc q := l]" t] assms q by simp
  also have "drop (Suc q) (b[Suc q := l]) = l # drop (Suc (Suc q)) b"
    using assms q by (intro drop_update) simp
  finally show "drop (p - 2) (b[p - 1 := l, p - 2 := t]) = t # l # drop p b" by (simp add: q)
  show "take k (b[p - 1 := l, p - 2 := t]) = take k b" if "k \<le> p - 2"
    using that by (simp add: q)
qed

lemma skip_zeros:
  "p + n \<le> length b \<Longrightarrow> m = dropWhile (\<lambda>c. c = 0) (take n (drop p b)) \<Longrightarrow>
   skip_zeros b p n = Some (p + (n - length m), length m)"
proof (induction b p n arbitrary: m rule: skip_zeros.induct)
  case (2 b p n)
  then have c: "take (Suc n) (drop p b) = b ! p # take n (drop (Suc p) b)"
    by (simp add: Cons_nth_drop_Suc [symmetric])
  have r: "read_at b p 1 = Some [b ! p]" using 2(2) by (simp add: Cons_nth_drop_Suc [symmetric] read_at_def)
  show ?case
  proof (cases "b ! p = 0")
    case True
    then have m: "m = dropWhile (\<lambda>c. c = 0) (take n (drop (p + 1) b))" using 2(3) c by simp
    then have "length m \<le> n" using length_dropWhile_le [of "\<lambda>c. c = 0" "take n (drop (p + 1) b)"] 2(2) by simp
    with 2(1) [OF r _ _ m] True r 2(2) show ?thesis by (simp add: Suc_diff_le del: read_at_Some)
  next
    case False
    then show ?thesis using 2(2,3) c r by (simp del: read_at_Some)
  qed
qed simp

lemma bit_7: "(c AND 0x80 \<noteq> 0) = bit (c :: u8) 7"
  using bit_iff_and_push_bit_not_eq_0 [of c 7] by (simp add: push_bit_eq_mult)

context der_writer
begin

text \<open>
  One integer: with the magnitude at \<open>start\<close>, not zero, and room for it, a sign byte and the header, its
  DER encoding ends up in front of \<open>p\<close> and nothing changes below that room.
\<close>

lemma mpibuf:
  assumes "start + n + 3 \<le> p" and "p \<le> length b" and "n \<le> 126" and "p < 2 ^ 32"
    and x: "x = take n (drop start b)" and nz: "dropWhile (\<lambda>c. c = 0) x \<noteq> []"
  shows "\<exists>b'. asn1_write_mpibuf w b p start n = Some (int (length (der_int x) + 2), b', p - (length (der_int x) + 2)) \<and>
    length b' = length b \<and> take (p - n - 3) b' = take (p - n - 3) b \<and>
    drop (p - (length (der_int x) + 2)) b' = [2, of_nat (length (der_int x))] @ der_int x @ drop p b"
proof -
  let ?m = "dropWhile (\<lambda>c. c = 0) x"
  have lx: "length x = n" using assms(1,2) by (simp add: x)
  have lm: "length ?m \<le> n" using length_dropWhile_le [of "\<lambda>c. c = 0" x] lx by simp
  from nz have m0: "length ?m \<noteq> 0" by simp
  define q where "q = p - length ?m"
  define b1 where "b1 = take (p - n) b @ x @ drop p b"
  have q: "p - n \<le> q" "q < p" "q + length ?m = p" using lm m0 assms(1) by (auto simp: q_def)
  have lb1: "length b1 = length b" using assms(1,2) lx by (simp add: b1_def)
  have w1: "write_at b (p - n) x = Some b1" using assms(1,2) lx by (simp add: b1_def)
  have dx: "drop (q - (p - n)) x = ?m"
  proof -
    have "replicate (n - length ?m) 0 @ ?m = x" using dropWhile_zeros [of x] lx by simp
    moreover have "q - (p - n) = n - length ?m" using lm assms(1) by (simp add: q_def)
    ultimately show ?thesis by (metis append_eq_conv_conj length_replicate)
  qed
  have d1: "drop q b1 = ?m @ drop p b"
    using q assms(1,2) lx dx by (simp add: b1_def)
  have s1: "skip_zeros b1 (p - n) n = Some (q, length ?m)"
  proof -
    have "take n (drop (p - n) b1) = x" using lx assms(1,2) by (simp add: b1_def)
    moreover have "p - n + (n - length ?m) = q" using lm assms(1) by (simp add: q_def)
    ultimately show ?thesis using skip_zeros [of "p - n" n b1 ?m] assms(1,2) lb1 by simp
  qed
  have c1: "read_at b1 q 1 = Some [hd ?m]"
    using d1 q assms(2) lb1 m0 by (cases ?m) (simp_all add: read_at_def)
  have big: "\<not> (int p - int start) mod 2 ^ 32 < int n" "\<not> p < n" using assms(1,4) by simp_all
  have r1: "read_at b start n = Some x" using assms(1,2) x by (simp add: read_at_def)
  note start = asn1_write_mpibuf_def big if_False Let_def r1 Option.bind.simps w1 s1 case_prod_conv m0 c1 list.sel bit_7
  show ?thesis
  proof (cases "bit (hd ?m) 7")
    case False
    then have d: "der_int x = ?m" unfolding der_int_def Let_def using nz by (simp only: if_False)
    have h: "write_header w b1 q start (length ?m) 2 = (int (length ?m + 2), b1[q - 1 := of_nat (length ?m), q - 2 := 2], q - 2)"
      using q lm assms(1-3) lb1 by (intro header) auto
    have two: "2 \<le> q" "q \<le> length b1" "p - n - 3 \<le> q - 2" using q assms(1,2) lb1 by auto
    have e: "p - (length ?m + 2) = q - 2" using q(3) by simp
    have t1: "take (p - n - 3) b1 = take (p - n - 3) b" using assms(1,2) by (simp add: b1_def)
    have a: "asn1_write_mpibuf w b p start n = Some (int (length ?m + 2), b1[q - 1 := of_nat (length ?m), q - 2 := 2], q - 2)"
      unfolding start h using False big m0 by (simp only: if_False)
    show ?thesis
      unfolding a d e
      by (intro exI conjI, rule refl) (simp_all only: length_list_update lb1 header_bytes [OF two(1,2)] header_bytes(2) [OF two(1,2) two(3)] t1 d1
        append_Cons append_Nil)
  next
    case True
    then have d: "der_int x = 0 # ?m" unfolding der_int_def Let_def using nz by (simp only: if_False if_True)
    define b2 where "b2 = b1[q - 1 := 0]"
    have one: "1 \<le> q" "q - 1 < length b1" using q assms(1,2) lb1 by auto
    have w2: "write_at b1 (q - 1) [0] = Some b2"
      using one by (simp add: b2_def upd_conv_take_nth_drop)
    have d2: "drop (q - 1) b2 = 0 # ?m @ drop p b"
      using drop_update [OF one(2), of 0] one d1 by (simp add: b2_def)
    have h: "write_header w b2 (q - 1) start (length ?m + 1) 2 =
        (int (length ?m + 1 + 2), b2[q - 1 - 1 := of_nat (length ?m + 1), q - 1 - 2 := 2], q - 1 - 2)"
      using q lm assms(1-3) lb1 by (intro header) (auto simp: b2_def)
    have two: "2 \<le> q - 1" "q - 1 \<le> length b2" "p - n - 3 \<le> q - 1 - 2" using q assms(1,2) lb1 by (auto simp: b2_def)
    have i: "\<not> int q - int start < 1" using q assms(1) by simp
    have e: "p - (length (0 # ?m) + 2) = q - 1 - 2" using q(3) by simp
    have t2: "take (p - n - 3) b2 = take (p - n - 3) b" using two(3) assms(1,2) by (simp add: b2_def b1_def)
    have a: "asn1_write_mpibuf w b p start n =
        Some (int (length ?m + 1 + 2), b2[q - 1 - 1 := of_nat (length ?m + 1), q - 1 - 2 := 2], q - 1 - 2)"
      unfolding start w2 h using True i big m0 by (simp only: if_True if_False Option.bind.simps)
    have l2: "length b2 = length b" by (simp add: b2_def lb1)
    have l0: "length (0 # ?m) = length ?m + 1" by simp
    show ?thesis
      unfolding a d e [unfolded l0] l0
      by (intro exI conjI, rule refl) (simp_all only: length_list_update l2 header_bytes [OF two(1,2)] header_bytes(2) [OF two(1,2) two(3)] t2 d2
        append_Cons append_Nil)
  qed
qed

end


lemma length_der_int: "x \<noteq> [] \<Longrightarrow> length (der_int x) \<le> length x + 1"
  using length_dropWhile_le [of "\<lambda>b. b = 0" x] by (cases x) (auto simp: der_int_def Let_def)

context der_writer
begin

lemma transcode:
  assumes "length r = n" and "length s = n" and "n \<le> 60"
    and "take (2 * n) sig = r @ s" and "2 * n + 8 \<le> buf_len" and "buf_len \<le> length sig" and "length sig < 2 ^ 32"
    and "dropWhile (\<lambda>c. c = 0) r \<noteq> []" and "dropWhile (\<lambda>c. c = 0) s \<noteq> []"
  shows "\<exists>sig'. pk_ecdsa_sig_asn1_from_psa w sig (2 * n) buf_len = Some (0, sig', length (der_signature r s)) \<and>
    length sig' = length sig \<and> take (length (der_signature r s)) sig' = der_signature r s"
proof -
  define lr ls where "lr = length (der_int r)" and "ls = length (der_int s)"
  have "r \<noteq> []" "s \<noteq> []" using assms(8,9) by auto
  then have le: "lr \<le> n + 1" "ls \<le> n + 1"
    using length_der_int [of r] length_der_int [of s] assms(1,2) by (simp_all add: lr_def ls_def)
  have lsig: "2 * n \<le> length sig" using assms(5,6) by simp
  have s: "s = take n (drop n sig)"
    using arg_cong [OF assms(4), of "drop n"] assms(1,2) by (simp add: drop_take)
  have r: "r = take n sig"
    using arg_cong [OF assms(4), of "take n"] assms(1,2) by (simp add: min_def)
  define p1 p2 where "p1 = buf_len - (ls + 2)" and "p2 = p1 - (lr + 2)"
  have p: "n + 5 \<le> p1" "p1 \<le> buf_len" "2 \<le> p2" "p1 = p2 + (lr + 2)" "buf_len = p1 + (ls + 2)"
    using le assms(5) by (simp_all add: p1_def p2_def)
  obtain b1 where b1: "asn1_write_mpibuf w sig buf_len n n = Some (int (ls + 2), b1, p1)" "length b1 = length sig"
    "take (buf_len - n - 3) b1 = take (buf_len - n - 3) sig" "drop p1 b1 = [2, of_nat ls] @ der_int s @ drop buf_len sig"
    using mpibuf [of n n buf_len sig s, OF _ assms(6) _ _ s assms(9)] assms(3,5,6,7)
    unfolding ls_def [symmetric] p1_def by auto
  have "n \<le> buf_len - n - 3" using assms(5) by simp
  then have r1: "r = take n (drop 0 b1)"
    using arg_cong [OF b1(3), of "take n"] r by (simp add: min_def)
  obtain b2 where b2: "asn1_write_mpibuf w b1 p1 0 n = Some (int (lr + 2), b2, p2)" "length b2 = length sig"
    "drop p2 b2 = [2, of_nat lr] @ der_int r @ drop p1 b1"
    using mpibuf [of 0 n p1 b1 r, OF _ _ _ _ r1 assms(8)] assms(3,5,6,7) p b1(2)
    unfolding lr_def [symmetric] p2_def by auto
  let ?n = "ls + 2 + (lr + 2)"
  have h: "write_header w b2 p2 0 ?n 0x30 = (int (?n + 2), b2[p2 - 1 := of_nat ?n, p2 - 2 := 0x30], p2 - 2)"
    using le p assms(3,6) b2(2) by (intro header) simp_all
  let ?b3 = "b2[p2 - 1 := of_nat ?n, p2 - 2 := 0x30]"
  have "p2 \<le> length b2" using p assms(6) b2(2) by simp
  from header_bytes(1) [OF p(3) this]
  have d3: "drop (p2 - 2) ?b3 = der_signature r s @ drop buf_len sig"
    by (simp add: b2(3) b1(4) der_signature_def lr_def ls_def ac_simps)
  have ld: "length (der_signature r s) = ?n + 2" by (simp add: der_signature_def lr_def ls_def)
  have rd: "read_at ?b3 (p2 - 2) (?n + 2) = Some (der_signature r s)"
    using d3 p assms(6) b2(2) ld by (simp add: read_at_def)
  have "?n + 2 \<le> length sig" using p assms(6) by simp
  then have wr: "write_at ?b3 0 (der_signature r s) = Some (der_signature r s @ drop (?n + 2) ?b3)"
    using b2(2) by (simp add: write_at_def ld)
  have "pk_ecdsa_sig_asn1_from_psa w sig (2 * n) buf_len = Some (0, der_signature r s @ drop (?n + 2) ?b3, ?n + 2)"
    unfolding pk_ecdsa_sig_asn1_from_psa_def Let_def
    by (simp only: nonzero_mult_div_cancel_left [OF zero_neq_numeral [symmetric]] b1(1) Option.bind.simps case_prod_conv
      of_nat_less_0_iff if_False nat_int b2(1) h rd wr)
  moreover have "length (der_signature r s @ drop (?n + 2) ?b3) = length sig"
    using \<open>?n + 2 \<le> length sig\<close> b2(2) ld by simp
  ultimately show ?thesis using ld by (intro exI [of _ "der_signature r s @ drop (?n + 2) ?b3"]) simp
qed

end

text \<open>
  C39: a signature of PSA Crypto (two halves of 32 bytes, neither zero) in a buffer of at least 72 becomes,
  in place, the DER encoding of the two integers, and the converter of the PKI utilities turns that
  encoding back into the same 64 bytes.
\<close>

theorem pk_ecdsa_sig_asn1_from_psa_correct:
  assumes "der_writer w" and "length r = 32" and "length s = 32" and "take 64 sig = r @ s"
    and "72 \<le> buf_len" and "buf_len \<le> length sig" and "length sig < 2 ^ 32"
    and "r \<noteq> replicate 32 0" and "s \<noteq> replicate 32 0" and "length raw = 64"
  shows "\<exists>sig' n. pk_ecdsa_sig_asn1_from_psa w sig 64 buf_len = Some (0, sig', n) \<and>
    length sig' = length sig \<and> take n sig' = der_signature r s \<and>
    PKI_mbedTLSSignatureToPkcs11Signature (Some raw) (Some sig') = Some (0, Some (r @ s))"
proof -
  have nz: "dropWhile (\<lambda>c. c = 0) x \<noteq> []" if "length x = 32" "x \<noteq> replicate 32 0" for x :: bytes
    using dropWhile_zeros [of x] that by (metis append_Nil2 diff_zero list.size(3))
  from der_writer.transcode [OF assms(1-3), of sig buf_len] nz [OF assms(2,8)] nz [OF assms(3,9)] assms(4-7)
  obtain sig' where t: "pk_ecdsa_sig_asn1_from_psa w sig 64 buf_len = Some (0, sig', length (der_signature r s))"
    "length sig' = length sig" "take (length (der_signature r s)) sig' = der_signature r s"
    by auto
  then have "sig' = der_signature r s @ drop (length (der_signature r s)) sig'"
    by (metis append_take_drop_id)
  then have "prvConvertToRawECDSASignature (Some sig') (Some raw) = Some (True, Some (r @ s))"
    using convert_signature [OF component_der_int(2) [OF assms(2)] component_der_int(2) [OF assms(3)] assms(10)]
      component_der_int(1) [OF assms(2)] component_der_int(1) [OF assms(3)]
    by (metis (no_types) append.assoc append_Cons append_Nil der_signature_def)
  then show ?thesis using t by (auto simp: PKI_mbedTLSSignatureToPkcs11Signature_eq)
qed

text \<open>A writer that keeps the laws: lengths below 128 in one byte, larger ones in the long form.\<close>

definition reference_write_len :: "bytes \<Rightarrow> nat \<Rightarrow> nat \<Rightarrow> nat \<Rightarrow> int \<times> bytes \<times> nat" where
  "reference_write_len b p start n =
     (if n < 128 then if p < start + 1 then (- 0x6C, b, p) else (1, b[p - 1 := of_nat n], p - 1)
      else if n < 256 then if p < start + 2 then (- 0x6C, b, p) else (2, b[p - 1 := of_nat n, p - 2 := 0x81], p - 2)
      else if n < 65536 then if p < start + 3 then (- 0x6C, b, p)
        else (3, b[p - 1 := of_nat n, p - 2 := of_nat (n div 256), p - 3 := 0x82], p - 3)
      else (- 0x64, b, p))"

definition reference_write_tag :: "bytes \<Rightarrow> nat \<Rightarrow> nat \<Rightarrow> u8 \<Rightarrow> int \<times> bytes \<times> nat" where
  "reference_write_tag b p start t = (if p < start + 1 then (- 0x6C, b, p) else (1, b[p - 1 := t], p - 1))"

definition reference_writer :: asn1_writer where
  "reference_writer = \<lparr>mbedtls_asn1_write_len = reference_write_len, mbedtls_asn1_write_tag = reference_write_tag,
     MBEDTLS_ERR_ASN1_BUF_TOO_SMALL = - 0x6C, MBEDTLS_ERR_ASN1_OUT_OF_DATA = - 0x60\<rparr>"

interpretation reference_writer: der_writer reference_writer
  by unfold_locales (auto simp: reference_writer_def reference_write_len_def reference_write_tag_def)

theorem pk_ecdsa_sig_asn1_from_psa_correct_witness:
  "\<exists>sig' n. pk_ecdsa_sig_asn1_from_psa reference_writer (replicate 32 0x80 @ replicate 32 0x7f @ replicate 8 0) 64 72 = Some (0, sig', n) \<and>
    length sig' = 72 \<and> take n sig' = der_signature (replicate 32 0x80) (replicate 32 0x7f) \<and>
    PKI_mbedTLSSignatureToPkcs11Signature (Some (replicate 64 0)) (Some sig') = Some (0, Some (replicate 32 0x80 @ replicate 32 0x7f))"
proof -
  have "replicate 32 (0x80 :: u8) \<noteq> replicate 32 0" "replicate 32 (0x7f :: u8) \<noteq> replicate 32 0"
    by (simp_all add: replicate_eq_replicate)
  from pk_ecdsa_sig_asn1_from_psa_correct [OF reference_writer.der_writer_axioms, of "replicate 32 0x80" "replicate 32 0x7f"
    "replicate 32 0x80 @ replicate 32 0x7f @ replicate 8 0" 72 "replicate 64 0", OF _ _ _ _ _ _ this]
  show ?thesis by simp
qed

end
