(* ===== verification/PsaAttributes.thy ===== *)
theory PsaAttributes
  imports PsaCrypto PsaValues
begin

text \<open>
  The functions on key attributes (\<open>psa/crypto_struct.h\<close>). \<open>psa_get_key_algorithm_of\<close> is
  \<open>psa_get_key_algorithm\<close>, a name the PKCS#11 model uses for a service.
\<close>

definition PSA_KEY_BITS_TOO_LARGE :: u16 where "PSA_KEY_BITS_TOO_LARGE = -1"
definition PSA_MAX_KEY_BITS :: nat where "PSA_MAX_KEY_BITS = 0xfff8"

definition psa_key_attributes_init :: psa_key_attributes where
  "psa_key_attributes_init = \<lparr>at_type = 0, at_bits = 0, at_lifetime = 0, at_id = 0, at_usage = 0, at_alg = 0\<rparr>"

definition psa_set_key_id :: "u32 \<Rightarrow> psa_key_attributes \<Rightarrow> psa_key_attributes" where
  "psa_set_key_id key attributes =
     (let lifetime = at_lifetime attributes;
          attributes = attributes\<lparr>at_id := key\<rparr>
      in if PSA_KEY_LIFETIME_IS_VOLATILE lifetime
         then attributes\<lparr>at_lifetime := PSA_KEY_LIFETIME_FROM_PERSISTENCE_AND_LOCATION PSA_KEY_LIFETIME_PERSISTENT
           (PSA_KEY_LIFETIME_GET_LOCATION lifetime)\<rparr>
         else attributes)"

definition psa_get_key_id :: "psa_key_attributes \<Rightarrow> u32" where "psa_get_key_id attributes = at_id attributes"

definition psa_set_key_lifetime :: "u32 \<Rightarrow> psa_key_attributes \<Rightarrow> psa_key_attributes" where
  "psa_set_key_lifetime lifetime attributes =
     (let attributes = attributes\<lparr>at_lifetime := lifetime\<rparr>
      in if PSA_KEY_LIFETIME_IS_VOLATILE lifetime then attributes\<lparr>at_id := 0\<rparr> else attributes)"

definition psa_get_key_lifetime :: "psa_key_attributes \<Rightarrow> u32" where "psa_get_key_lifetime attributes = at_lifetime attributes"

definition psa_extend_key_usage_flags :: "u32 \<Rightarrow> u32" where
  "psa_extend_key_usage_flags usage_flags =
     (let usage_flags = (if usage_flags AND PSA_KEY_USAGE_SIGN_HASH \<noteq> 0 then usage_flags OR PSA_KEY_USAGE_SIGN_MESSAGE else usage_flags)
      in if usage_flags AND PSA_KEY_USAGE_VERIFY_HASH \<noteq> 0 then usage_flags OR PSA_KEY_USAGE_VERIFY_MESSAGE else usage_flags)"

definition psa_set_key_usage_flags :: "u32 \<Rightarrow> psa_key_attributes \<Rightarrow> psa_key_attributes" where
  "psa_set_key_usage_flags usage_flags attributes = attributes\<lparr>at_usage := psa_extend_key_usage_flags usage_flags\<rparr>"

definition psa_get_key_usage_flags :: "psa_key_attributes \<Rightarrow> u32" where "psa_get_key_usage_flags attributes = at_usage attributes"

definition psa_set_key_algorithm :: "u32 \<Rightarrow> psa_key_attributes \<Rightarrow> psa_key_attributes" where
  "psa_set_key_algorithm alg attributes = attributes\<lparr>at_alg := alg\<rparr>"

definition psa_get_key_algorithm_of :: "psa_key_attributes \<Rightarrow> u32" where "psa_get_key_algorithm_of attributes = at_alg attributes"

definition psa_set_key_type :: "u16 \<Rightarrow> psa_key_attributes \<Rightarrow> psa_key_attributes" where
  "psa_set_key_type type attributes = attributes\<lparr>at_type := type\<rparr>"

definition psa_get_key_type :: "psa_key_attributes \<Rightarrow> u16" where "psa_get_key_type attributes = at_type attributes"

definition psa_set_key_bits :: "nat \<Rightarrow> psa_key_attributes \<Rightarrow> psa_key_attributes" where
  "psa_set_key_bits bits attributes =
     attributes\<lparr>at_bits := if bits > PSA_MAX_KEY_BITS then PSA_KEY_BITS_TOO_LARGE else of_nat bits\<rparr>"

definition psa_get_key_bits :: "psa_key_attributes \<Rightarrow> nat" where "psa_get_key_bits attributes = unat (at_bits attributes)"

lemmas set_key_defs = psa_set_key_id_def psa_set_key_lifetime_def psa_set_key_usage_flags_def psa_set_key_algorithm_def
  psa_set_key_type_def psa_set_key_bits_def

subsection \<open>Laws\<close>

lemma persistent_lifetime: "\<not> PSA_KEY_LIFETIME_IS_VOLATILE (PSA_KEY_LIFETIME_FROM_PERSISTENCE_AND_LOCATION PSA_KEY_LIFETIME_PERSISTENT l)"
proof -
  have "PSA_KEY_LIFETIME_FROM_PERSISTENCE_AND_LOCATION PSA_KEY_LIFETIME_PERSISTENT l AND 0xff = 1"
    unfolding lifetime_defs by (simp add: word32_eq_iff bit_simps)
  then show ?thesis
    by (simp add: PSA_KEY_LIFETIME_IS_VOLATILE_def PSA_KEY_LIFETIME_GET_PERSISTENCE_def PSA_KEY_PERSISTENCE_VOLATILE_def)
qed

lemma usage_bits:
  "(u AND PSA_KEY_USAGE_SIGN_HASH \<noteq> 0) = bit u 12" "(u AND PSA_KEY_USAGE_SIGN_MESSAGE \<noteq> 0) = bit u 10"
  "(u AND PSA_KEY_USAGE_VERIFY_HASH \<noteq> 0) = bit u 13" "(u AND PSA_KEY_USAGE_VERIFY_MESSAGE \<noteq> 0) = bit u 11"
  using bit_iff_and_push_bit_not_eq_0 [of u 12] bit_iff_and_push_bit_not_eq_0 [of u 10]
    bit_iff_and_push_bit_not_eq_0 [of u 13] bit_iff_and_push_bit_not_eq_0 [of u 11]
  by (simp_all add: push_bit_eq_mult PSA_KEY_USAGE_SIGN_HASH_def PSA_KEY_USAGE_SIGN_MESSAGE_def
    PSA_KEY_USAGE_VERIFY_HASH_def PSA_KEY_USAGE_VERIFY_MESSAGE_def)

text \<open>Signing hashes implies signing messages, verifying likewise; nothing else is added, and nothing taken away.\<close>

lemma usage_extended:
  "bit (psa_extend_key_usage_flags u) n = (bit u n \<or> n = 10 \<and> bit u 12 \<or> n = 11 \<and> bit u 13)"
proof -
  have "bit (0x400 :: u32) n = (n = 10)" "bit (0x800 :: u32) n = (n = 11)"
    using bit_push_bit_iff [of 10 "1 :: u32" n] bit_push_bit_iff [of 11 "1 :: u32" n]
    by (auto simp: push_bit_eq_mult bit_1_iff)
  then show ?thesis
    by (auto simp: psa_extend_key_usage_flags_def Let_def usage_bits bit_or_iff PSA_KEY_USAGE_SIGN_MESSAGE_def PSA_KEY_USAGE_VERIFY_MESSAGE_def)
qed

lemma key_bits: "psa_get_key_bits (psa_set_key_bits n a) = (if n \<le> PSA_MAX_KEY_BITS then n else 65535)"
proof -
  have "(-1 :: u16) = 0xffff" by simp
  then have "unat (-1 :: u16) = 0xffff" by (simp only: unsigned_numeral) simp
  then show ?thesis
    by (simp add: psa_get_key_bits_def psa_set_key_bits_def PSA_MAX_KEY_BITS_def PSA_KEY_BITS_TOO_LARGE_def
      unsigned_of_nat take_bit_eq_mod)
qed

text \<open>
  The attributes a program can build: from nothing, by any sequence of the functions. Those with an
  identifier are never those of a volatile key.
\<close>

inductive attributes_built :: "psa_key_attributes \<Rightarrow> bool" where
  init: "attributes_built psa_key_attributes_init"
| set_id: "attributes_built a \<Longrightarrow> attributes_built (psa_set_key_id k a)"
| set_lifetime: "attributes_built a \<Longrightarrow> attributes_built (psa_set_key_lifetime l a)"
| set_usage: "attributes_built a \<Longrightarrow> attributes_built (psa_set_key_usage_flags u a)"
| set_algorithm: "attributes_built a \<Longrightarrow> attributes_built (psa_set_key_algorithm alg a)"
| set_type: "attributes_built a \<Longrightarrow> attributes_built (psa_set_key_type t a)"
| set_bits: "attributes_built a \<Longrightarrow> attributes_built (psa_set_key_bits n a)"

text \<open>
  C40: attributes that were built from nothing by any sequence of the functions never combine an identifier with a
  volatile lifetime, allow to sign (verify) messages whenever they allow to sign (verify) hashes, and
  have a size in range or the value for "too large".
\<close>

theorem attributes_built_invariant:
  assumes "attributes_built a"
  shows "(at_id a \<noteq> 0 \<longrightarrow> \<not> PSA_KEY_LIFETIME_IS_VOLATILE (at_lifetime a)) \<and>
    (at_usage a AND PSA_KEY_USAGE_SIGN_HASH \<noteq> 0 \<longrightarrow> at_usage a AND PSA_KEY_USAGE_SIGN_MESSAGE \<noteq> 0) \<and>
    (at_usage a AND PSA_KEY_USAGE_VERIFY_HASH \<noteq> 0 \<longrightarrow> at_usage a AND PSA_KEY_USAGE_VERIFY_MESSAGE \<noteq> 0) \<and>
    (psa_get_key_bits a \<le> PSA_MAX_KEY_BITS \<or> psa_get_key_bits a = 65535)"
  using assms
proof induction
  case init
  then show ?case by (simp add: psa_key_attributes_init_def psa_get_key_bits_def PSA_MAX_KEY_BITS_def)
next
  case (set_usage a u)
  then show ?case by (simp add: psa_set_key_usage_flags_def psa_get_key_bits_def usage_bits usage_extended)
next
  case (set_bits a n)
  then show ?case using key_bits [of n a] by (simp add: psa_set_key_bits_def PSA_MAX_KEY_BITS_def)
qed (auto simp: set_key_defs Let_def persistent_lifetime psa_get_key_bits_def)

theorem attributes_built_invariant_witness:
  "at_id (psa_set_key_id 5 (psa_set_key_usage_flags PSA_KEY_USAGE_SIGN_HASH psa_key_attributes_init)) = 5 \<and>
   \<not> PSA_KEY_LIFETIME_IS_VOLATILE (at_lifetime (psa_set_key_id 5 (psa_set_key_usage_flags PSA_KEY_USAGE_SIGN_HASH psa_key_attributes_init)))"
proof -
  let ?a = "psa_set_key_id 5 (psa_set_key_usage_flags PSA_KEY_USAGE_SIGN_HASH psa_key_attributes_init)"
  have "at_id ?a = 5" by (simp add: psa_set_key_id_def Let_def)
  moreover from this have "at_id ?a \<noteq> 0" by simp
  ultimately show ?thesis
    using attributes_built_invariant [OF attributes_built.set_id [OF attributes_built.set_usage [OF attributes_built.init]], of 5 PSA_KEY_USAGE_SIGN_HASH] by blast
qed

end
