(* ===== verification/Spec2Isabelle.thy ===== *)
theory Spec2Isabelle
  imports CliRuns OtaPal PkiUtils BlockPools Subscriptions TaskPoolProps CorePkcs11 PsaCrypto PsaSizes PsaUtil PsaAttributes
begin

text \<open>
  A verification of the application side of the TrustZone reference integration: the non-secure program
  that runs on a Cortex-M with TrustZone beside Trusted Firmware-M, talks to AWS IoT, updates its firmware
  over the air and keeps its keys and settings in the secure world.

  The parts of the program and the theories that model them (file names under src/; every function is
  declared under the name it has in the code, with the suffix \<open>_ipc\<close> for the functions of
  \<open>tfm/interface/src/*_ipc_api.c\<close>):

  \<^item> Prelude, Rtos: the conventions for C functions, memory blocks, little-endian words, the option monad
    and its rules; the FreeRTOS heap and mutexes.
  \<^item> CStrings, CText: the C library functions on strings; provision/libc (\<open>strnlen\<close>, \<open>strnstr\<close>, \<open>stpncpy\<close>);
    \<open>strtok_r\<close>, \<open>strtol\<close>, \<open>strtoul\<close>, \<open>snprintf\<close> as far as the command line uses them.
  \<^item> KvNv, KvCache, KvStore: provision/kvstore. The back end on Internal Trusted Storage
    (\<open>kvstore_nv_psa_its.c\<close>), the cache (\<open>kvstore_cache.c\<close>: a union of data and pointers, a heap), the public
    interface with its table of keys (\<open>kvstore.c\<close>, \<open>kvstore_config.h\<close>). The state is the record \<open>kv\<close>: the cache entries,
    the heap, the mutex and the world behind the back end.
  \<^item> CliIo, CliConf, CliReturns, Cli, CliRuns: provision/cli: the console, the command interpreter, \<open>conf\<close>,
    \<open>reset\<close>, turns of \<open>Task_CLI\<close>.
  \<^item> OtaPal: abstractions/ota_pal_psa (\<open>ota_pal.c\<close>) on PSA Firmware Update. The state is the record \<open>ota\<close>.
  \<^item> PkiUtils, Pem: \<open>core_pki_utils.c\<close> (signature formats) and \<open>convert_pem_to_der\<close>.
  \<^item> P11Objects, P11List, P11Session, P11Crypto, P11Keys, P11Attributes, P11Reachable: abstractions/pkcs11/psa.
    What lies in the secure world (\<open>P11KeyConfig\<close>), the list of handles, sessions, searches, digests, signatures,
    key pairs, attributes; the states that sequences of operations reach. CorePkcs11: the wrapper functions of
    \<open>core_pkcs11.c\<close> on that module, with the slot list and the token information in the heap.
  \<^item> PsaIpc, PsaServices, PsaCrypto: tfm/interface: the client side of the secure services: the lock, the
    packing of calls, storage, firmware update, attestation, platform, crypto. PsaServices shows that the
    key-value store, the PKCS#11 objects and the update port can work on them: the services the other theories take
    as arguments are these calls, given a secure side that keeps its documented laws.
  \<^item> PsaValues, PsaSizes, PsaAttributes: tfm/interface/include/psa (\<open>crypto_values.h\<close>, \<open>crypto_sizes.h\<close>,
    \<open>crypto_struct.h\<close>): the encodings of key types and algorithms, the sizes of buffers, the functions on key attributes.
    PsaUtil: \<open>psa_util.c\<close> of provision/crypto: the conversions between PSA and mbedTLS.
  \<^item> LinearContainers, Platform, TaskPool, TaskPoolLinks, TaskPoolInv, TaskPoolOps, TaskPoolLife, TaskPoolRuns,
    TaskPoolProps: c_sdk/standard/common: the linked lists (\<open>iot_linear_containers.h\<close>), the threads, semaphores
    and clock on FreeRTOS (\<open>iot_threads_freertos.c\<close>, \<open>iot_clock_freertos.c\<close>), the task pool
    (\<open>iot_taskpool.c\<close>).
  \<^item> BlockPools: the static memory pools (\<open>iot_static_memory_common.c\<close>, \<open>iot_taskpool_static_memory.c\<close>) and the
    MQTT agent's command pool. Subscriptions: the MQTT subscription manager of the demos.

  How a C function is modelled: a function from its arguments and the state to \<open>('r \<times> 's) option\<close>. \<open>None\<close> is an
  execution to which C gives no meaning (a null or dangling pointer, an access outside an object) or that never
  returns (a failed assertion, a lock taken twice); every error code of the program is an ordinary value. Machine
  integers are words of their width, memory blocks are lists, a pointer that may be \<open>NULL\<close> is an option. Loops are
  recursion on what they count; the ones that may run for ever (the lists of LinearContainers, the line reader) are
  \<open>partial_function\<close> in the option monad or have a parameter for what they wait for.

  What is not part of the repository is an argument: the FreeRTOS kernel (an allocator, a record \<open>kernel\<close> with the tick
  count and the answers of task creation), the PSA services (\<open>its\<close>, \<open>psa_env\<close>, \<open>ota_env\<close>; in PsaIpc the entry
  points \<open>veneers\<close> of the secure world), mbedTLS (\<open>psa_env\<close>: base64, ASN.1, parsed keys as the history of the calls on
  a context), the sizes of foreign structures. What the code relies on are the assumptions of locales (\<open>psa_its\<close>,
  \<open>nv_backend\<close>, \<open>protected_storage\<close>, \<open>fwu_service\<close>, \<open>storage_partition\<close>, \<open>connections\<close>, \<open>crypto_partition\<close>,
  \<open>hash_service\<close>, \<open>rtos_queue\<close>, \<open>block_pool\<close>, \<open>fifo_queue\<close>); every locale is interpreted on the program's own
  definitions or on a reference service that behaves as documented, which is also where the witnesses run.

  What the lemmas show, by part:

  \<^item> Key-value store: every state that runs of the interface reach is consistent; a write stores the value or
    nothing; a commit that succeeds survives a power cycle, and its values are files of the secure side.
  \<^item> Command line: every turn returns but for named inputs; tokens are the words of the line; what \<open>conf set\<close>
    stores \<open>conf get\<close> shows; no line overruns its buffer.
  \<^item> Over-the-air update: blocks go where they belong, the active image is never written, a file closes only when
    its signature verifies.
  \<^item> PKCS#11: the list implements a map of handles; sessions, objects and keys stay consistent in all reachable
    states; digests and signatures are the ones of the service; secrets are not given out; certificates read back.
  \<^item> Secure services: calls arrive unchanged and one at a time; connections are closed; what is signed verifies and
    what is encrypted decrypts through the packing.
  \<^item> Encodings: every field of an algorithm or key type is read back from what it was built of; buffer sizes fit
    together; attributes stay consistent; a raw signature turned into DER in place is the same signature.
  \<^item> Task pool: an invariant of all reachable states under any interleaving of its critical sections; no
    assertion fails; no queued job is lost; a deferred job is never early and the timer dispatches the due ones in order;
    creation and destruction are complete.
  \<^item> Lists, pools, subscriptions: each implements its abstract list, pool or set.

  Bounds. The delay of a deferred job is limited to what \<open>pdMS_TO_TICKS\<close> can convert without overflow; a pool
  counts at most 65535 jobs (the limit of its semaphore); \<open>within_memory\<close> says that the objects of a pool fit in memory.
  \<open>first_fit\<close>, the reference allocator, has 63 blocks, more than the witnesses use. No theorem depends on fuel.

  Concurrency. A critical section of the task pool is one step of \<open>TaskPoolRuns\<close>, because its mutex makes it one;
  the assertions between two sections are checked with the section before. \<open>IotTaskPool_Destroy\<close> waits for the workers to
  leave; the schedule of their leaving is the argument \<open>leaving\<close>. The other modules are called by one task at a time or
  hold their own mutex over a whole operation. A \<open>memcmp\<close> for equality reads both objects in full.

  Not modelled, and why:

  \<^item> provision/cli/cli_pki.c, provision/crypto (\<open>PkiObject*.c\<close>, \<open>mbedtls_pk_*.c\<close>, \<open>mbedtls_entropy_alt_psa.c\<close>): glue on mbedTLS
    objects (X.509 writing, entropy and key contexts) whose definitions are not in the repository; the command \<open>pki\<close> is an
    argument of the command line.
  \<^item> The demos (\<open>mqtt_demo_mutual_auth.c\<close>, \<open>ota_demo_core_mqtt.c\<close>, the demo runner, the network manager): they drive
    coreMQTT, the OTA agent and the network, none of which is in the repository.
  \<^item> Secure sockets, the transport on them, \<open>iot_tls.c\<close>, \<open>iot_crypto.c\<close>, the socket layers: input and output on sockets and
    mbedTLS contexts.
  \<^item> Logging, metrics, \<open>mbedtls_error.c\<close> (a table of texts): output only.
  \<^item> Board support, startup code, device configuration: register accesses and generated code.
\<close>

end
